(* ===== verification/Prelude.thy ===== *)
theory Prelude
  imports Complex_Main "HOL-Library.Word"
begin

text \<open>
  Shared vocabulary of the development: the values of the Python language and standard
  library that the drivers use, as HOL values, with the generic lemmas about them.

  \<^item> \<open>exn\<close> and \<open>'a result\<close>: an exception is a value on the left of a sum, and \<open>bindE\<close>
    is the sequencing of two statements of which the first may raise;
  \<^item> \<open>bytes\<close> are lists of 8-bit words, with indexing (\<open>byte_at\<close>, \<open>byte_last\<close>) that raises
    IndexError and slicing (\<open>slice\<close>) that does not;
  \<^item> \<open>from_le\<close>, \<open>to_le\<close>, \<open>unpack_le\<close>, \<open>pack_le\<close>: \<open>int.from_bytes\<close>, \<open>int.to_bytes\<close>,
    \<open>struct.unpack\<close> and \<open>struct.pack\<close> in little-endian order, and \<open>from_be\<close>, \<open>to_be\<close> in
    big-endian order;
  \<^item> \<open>py_bytes\<close>: the constructor \<open>bytes(iterable)\<close>, which raises ValueError on an integer
    outside \<open>[0, 255]\<close>;
  \<^item> \<open>enum_lookup\<close>: calling an \<open>enum.Enum\<close> class with a value.

  Python integers are unbounded and are modelled by \<open>int\<close>. The collections \<open>bit_tests\<close>,
  \<open>mask_mod\<close> and \<open>byte_intros\<close> hold the rules that reason about flag bytes.
\<close>

unbundle bit_operations_syntax

section \<open>Exceptions and results\<close>

datatype exn =
    IndexError
  | ValueError string
  | OverflowError string
  | StructError string
  | TypeError string
  | AttributeError string
  | AsduTypeError int
  | ConnectionError
  | ConnectionDisabledError
  | TimeoutError
  | QueueFullError
  | UnicodeError
  | MqttError int string
  | CommandStatusError int
  | NotImplementedError
  | KeyError string
  | StopIteration
  | Exception string

type_synonym 'a result = "exn + 'a"

abbreviation Ok :: "'a \<Rightarrow> 'a result" where
  "Ok \<equiv> Inr"

abbreviation Raise :: "exn \<Rightarrow> 'a result" where
  "Raise \<equiv> Inl"

definition bindE :: "'a result \<Rightarrow> ('a \<Rightarrow> 'b result) \<Rightarrow> 'b result" where
  "bindE m f = (case m of Inl e \<Rightarrow> Inl e | Inr x \<Rightarrow> f x)"

lemma bindE_simps [simp]:
  "bindE (Raise e) f = Raise e"
  "bindE (Ok x) f = f x"
  by (simp_all add: bindE_def)

lemma bindE_Ok_iff: "bindE m f = Ok y \<longleftrightarrow> (\<exists>x. m = Ok x \<and> f x = Ok y)"
  by (cases m) auto

lemma bindE_OkE [elim!]:
  assumes "bindE m f = Ok y"
  obtains x where "m = Ok x" "f x = Ok y"
  using assms by (auto simp: bindE_Ok_iff)

lemma bindE_assoc: "bindE (bindE m f) g = bindE m (\<lambda>x. bindE (f x) g)"
  by (cases m) auto

lemma bindE_cong [fundef_cong]:
  "m = m' \<Longrightarrow> (\<And>x. m' = Ok x \<Longrightarrow> f x = f' x) \<Longrightarrow> bindE m f = bindE m' f'"
  by (cases m') auto

text \<open>Sequencing of generators: the concatenation of what they yield, unless one raises.\<close>

definition appendE :: "'a list result \<Rightarrow> 'a list result \<Rightarrow> 'a list result" where
  "appendE a b = bindE a (\<lambda>xs. bindE b (\<lambda>ys. Ok (xs @ ys)))"

lemma appendE_simps [simp]:
  "appendE (Raise e) b = Raise e"
  "appendE (Ok xs) (Raise e) = Raise e"
  "appendE (Ok xs) (Ok ys) = Ok (xs @ ys)"
  by (simp_all add: appendE_def)

lemma appendE_Ok_iff: "appendE a b = Ok zs \<longleftrightarrow> (\<exists>xs ys. a = Ok xs \<and> b = Ok ys \<and> zs = xs @ ys)"
  by (cases a; cases b) auto

primrec concatE :: "('a \<Rightarrow> 'b list result) \<Rightarrow> 'a list \<Rightarrow> 'b list result" where
  "concatE f [] = Ok []"
| "concatE f (x # xs) = appendE (f x) (concatE f xs)"

lemma concatE_cong [fundef_cong]:
  "xs = ys \<Longrightarrow> (\<And>x. x \<in> set ys \<Longrightarrow> f x = g x) \<Longrightarrow> concatE f xs = concatE g ys"
  by (induction xs arbitrary: ys) auto

lemma concatE_append: "concatE f (xs @ ys) = appendE (concatE f xs) (concatE f ys)"
proof (induction xs)
  case Nil
  then show ?case by (cases "concatE f ys") auto
next
  case (Cons x xs)
  then show ?case
    by (cases "f x"; cases "concatE f xs"; cases "concatE f ys") auto
qed

primrec mapE :: "('a \<Rightarrow> 'b result) \<Rightarrow> 'a list \<Rightarrow> 'b list result" where
  "mapE f [] = Ok []"
| "mapE f (x # xs) = bindE (f x) (\<lambda>y. bindE (mapE f xs) (\<lambda>ys. Ok (y # ys)))"

lemma mapE_cong [fundef_cong]:
  "xs = ys \<Longrightarrow> (\<And>x. x \<in> set ys \<Longrightarrow> f x = g x) \<Longrightarrow> mapE f xs = mapE g ys"
  by (induction xs arbitrary: ys) auto

lemma mapE_Ok: "(\<And>x. x \<in> set xs \<Longrightarrow> f x = Ok (g x)) \<Longrightarrow> mapE f xs = Ok (map g xs)"
  by (induction xs) auto

lemma mapE_Ok_iff: "mapE f xs = Ok ys \<longleftrightarrow> list_all2 (\<lambda>x y. f x = Ok y) xs ys"
  by (induction xs arbitrary: ys) (auto simp: bindE_Ok_iff list_all2_Cons1)

lemma mapE_Raise:
  assumes "x \<in> set xs" "f x = Raise e"
  shows "\<exists>e. mapE f xs = Raise e"
proof (rule ccontr)
  assume "\<not> ?thesis"
  then obtain ys where "mapE f xs = Ok ys" by (cases "mapE f xs") auto
  with assms show False by (fastforce simp: mapE_Ok_iff list_all2_conv_all_nth in_set_conv_nth)
qed

lemma mapE_exists:
  assumes "\<And>x. x \<in> set xs \<Longrightarrow> \<exists>y. f x = Ok y"
  shows "\<exists>ys. mapE f xs = Ok ys"
  using assms by (induction xs) fastforce+

lemma mapE_append: "mapE f (xs @ ys) = bindE (mapE f xs) (\<lambda>a. bindE (mapE f ys) (\<lambda>b. Ok (a @ b)))"
proof (induction xs)
  case (Cons x xs)
  then show ?case by (cases "f x"; cases "mapE f xs"; cases "mapE f ys") simp_all
qed (cases "mapE f ys"; simp)

text \<open>\<open>xs[i]\<close> for a list and an index that is not negative.\<close>

definition list_at :: "'a list \<Rightarrow> nat \<Rightarrow> 'a result" where
  "list_at xs i = (if i < length xs then Ok (xs ! i) else Raise IndexError)"

text \<open>
  A decoder takes bytes and returns a value with the bytes it left; \<open>repeat_decode dec n\<close> is
  the loop that runs it \<open>n\<close> times and collects the values.
\<close>

primrec repeat_decode :: "('b \<Rightarrow> ('a \<times> 'b) result) \<Rightarrow> nat \<Rightarrow> 'b \<Rightarrow> ('a list \<times> 'b) result" where
  "repeat_decode dec 0 bs = Ok ([], bs)"
| "repeat_decode dec (Suc n) bs =
     bindE (dec bs) (\<lambda>(x, rest).
     bindE (repeat_decode dec n rest) (\<lambda>(xs, rest'). Ok (x # xs, rest')))"

lemma repeat_decode_length: "repeat_decode dec n bs = Ok (xs, rest) \<Longrightarrow> length xs = n"
  by (induction n arbitrary: bs xs) (auto simp: bindE_Ok_iff)

lemma repeat_decode_suffix:
  assumes "\<And>bs x rest. dec bs = Ok (x, rest) \<Longrightarrow> \<exists>p. bs = p @ rest"
    and "repeat_decode dec n bs = Ok (xs, rest)"
  shows "\<exists>p. bs = p @ rest"
  using assms(2)
proof (induction n arbitrary: bs xs)
  case 0
  then show ?case by simp
next
  case (Suc n)
  from Suc.prems obtain x r ys where "dec bs = Ok (x, r)" "repeat_decode dec n r = Ok (ys, rest)"
    by (auto simp: bindE_Ok_iff)
  with assms(1) Suc.IH show ?case by (metis append.assoc)
qed

section \<open>Integers as bit fields\<close>

named_theorems bit_tests \<open>a masked single bit is the bit\<close>
named_theorems mask_mod \<open>a mask of low bits is a remainder\<close>
named_theorems byte_intros \<open>integers that fit one byte\<close>

lemma and_single_bit [bit_tests]:
  "(x::int) AND 1 = 0 \<longleftrightarrow> \<not> bit x 0"
  "(x::int) AND 2 = 0 \<longleftrightarrow> \<not> bit x 1"
  "(x::int) AND 4 = 0 \<longleftrightarrow> \<not> bit x 2"
  "(x::int) AND 8 = 0 \<longleftrightarrow> \<not> bit x 3"
  "(x::int) AND 16 = 0 \<longleftrightarrow> \<not> bit x 4"
  "(x::int) AND 32 = 0 \<longleftrightarrow> \<not> bit x 5"
  "(x::int) AND 64 = 0 \<longleftrightarrow> \<not> bit x 6"
  "(x::int) AND 128 = 0 \<longleftrightarrow> \<not> bit x 7"
  using and_exp_eq_0_iff_not_bit[of x 0] and_exp_eq_0_iff_not_bit[of x 1]
    and_exp_eq_0_iff_not_bit[of x 2] and_exp_eq_0_iff_not_bit[of x 3]
    and_exp_eq_0_iff_not_bit[of x 4] and_exp_eq_0_iff_not_bit[of x 5]
    and_exp_eq_0_iff_not_bit[of x 6] and_exp_eq_0_iff_not_bit[of x 7]
  by simp_all

lemma and_mask_mod: "(x::int) AND (2 ^ n - 1) = x mod 2 ^ n"
  using take_bit_eq_mask [of n x] by (simp add: take_bit_eq_mod mask_eq_exp_minus_1)

lemma and_low_mask [mask_mod]:
  "(x::int) AND 1 = x mod 2"
  "(x::int) AND 3 = x mod 4"
  "(x::int) AND 7 = x mod 8"
  "(x::int) AND 15 = x mod 16"
  "(x::int) AND 31 = x mod 32"
  "(x::int) AND 63 = x mod 64"
  "(x::int) AND 127 = x mod 128"
  "(x::int) AND 255 = x mod 256"
  by (rule and_mask_mod [of x 1, simplified] and_mask_mod [of x 2, simplified]
      and_mask_mod [of x 3, simplified] and_mask_mod [of x 4, simplified]
      and_mask_mod [of x 5, simplified] and_mask_mod [of x 6, simplified]
      and_mask_mod [of x 7, simplified] and_mask_mod [of x 8, simplified])+

text \<open>Masking distributes over the alternatives of a byte that is assembled with \<open>OR\<close>.\<close>

lemmas or_mask = bit.conj_disj_distrib2 bit.conj_disj_distrib and.assoc

lemma or_disjoint_add:
  fixes x y :: int
  assumes "x mod 2 ^ n = 0" and "0 \<le> y" and "y < 2 ^ n"
  shows "x OR y = x + y"
proof -
  have x: "x = push_bit n (drop_bit n x)"
    using assms(1) by (simp add: push_bit_eq_mult drop_bit_eq_div mod_0_imp_dvd)
  have y: "y = take_bit n y"
    using assms(2,3) by (simp add: take_bit_eq_mod)
  have "x AND y = 0"
    by (subst x, subst y) (auto intro!: bit_eqI simp: bit_simps)
  then show ?thesis by (rule disjunctive_add_eq_or [symmetric])
qed

definition is_byte :: "int \<Rightarrow> bool" where
  "is_byte x \<longleftrightarrow> 0 \<le> x \<and> x < 256"

lemma is_byte_num [byte_intros]: "0 \<le> x \<Longrightarrow> x < 256 \<Longrightarrow> is_byte x"
  by (simp add: is_byte_def)

lemma is_byte_or [byte_intros]: "is_byte x \<Longrightarrow> is_byte y \<Longrightarrow> is_byte (x OR y)"
  using OR_upper [of x 8 y] by (simp add: is_byte_def)

lemma is_byte_and [byte_intros]:
  "is_byte y \<Longrightarrow> is_byte (x AND y)" "is_byte x \<Longrightarrow> is_byte (x AND y)"
  by (auto simp: is_byte_def intro: AND_upper2'' AND_upper1'')

lemma is_byte_if [byte_intros]: "is_byte x \<Longrightarrow> is_byte y \<Longrightarrow> is_byte (if c then x else y)"
  by simp

lemma is_byte_mod [byte_intros]: "0 < m \<Longrightarrow> m \<le> 256 \<Longrightarrow> is_byte (x mod m)"
  using pos_mod_bound [of m x] pos_mod_sign [of m x] unfolding is_byte_def by linarith

text \<open>Bytes that are put together bit by bit, as the loops over eight booleans do it.\<close>

lemma bit_set_bits:
  "bit (foldl (\<lambda>b j. if P j then b OR push_bit j 1 else b) (0 :: int) [0..<n]) k \<longleftrightarrow> k < n \<and> P k"
  by (induction n) (auto simp: bit_simps less_Suc_eq)

lemma is_byte_bits: "(\<And>n. 8 \<le> n \<Longrightarrow> \<not> bit x n) \<Longrightarrow> is_byte x"
proof -
  assume "\<And>n. 8 \<le> n \<Longrightarrow> \<not> bit x n"
  then have "take_bit 8 x = x" by (intro bit_eqI) (auto simp: bit_take_bit_iff not_less [symmetric])
  then show ?thesis
    using take_bit_int_less_exp [of 8 x] take_bit_nonnegative [of 8 x] by (simp add: is_byte_def)
qed

lemma concat_eight: "concat (map (\<lambda>i. map (f i) [0..<8]) [0..<n]) = map (\<lambda>k. f (k div 8) (k mod 8)) [0..<8 * n]"
proof (induction n)
  case (Suc n)
  have "[8 * n..<8 * n + 8] = map (\<lambda>j. 8 * n + j) [0..<8]"
    by (rule nth_equalityI) simp_all
  then have "[0..<8 * Suc n] = [0..<8 * n] @ map (\<lambda>j. 8 * n + j) [0..<8]"
    using upt_add_eq_append [of 0 "8 * n" 8] by (simp add: add.commute)
  moreover have "map (\<lambda>k. f (k div 8) (k mod 8)) (map (\<lambda>j. 8 * n + j) [0..<8]) = map (f n) [0..<8]"
    by simp
  ultimately show ?case using Suc by (simp only: map_append concat_append upt_Suc_append le0 list.map concat.simps append_Nil2)
qed simp

section \<open>Bytes\<close>

type_synonym byte = "8 word"
type_synonym bytes = "byte list"

lemma is_byte_uint [simp]: "is_byte (uint (b :: byte))"
  using uint_lt2p [of b] by (simp add: is_byte_def)

lemma uint_byte_bounds: "0 \<le> uint (b :: byte)" "uint (b :: byte) < 256"
  using uint_lt2p [of b] by simp_all

definition byte_at :: "bytes \<Rightarrow> nat \<Rightarrow> int result" where
  "byte_at bs i = (if i < length bs then Ok (uint (bs ! i)) else Raise IndexError)"

text \<open>\<open>bs[-k]\<close> for \<open>0 < k\<close>.\<close>

definition byte_last :: "bytes \<Rightarrow> nat \<Rightarrow> int result" where
  "byte_last bs k = (if k \<le> length bs then Ok (uint (bs ! (length bs - k))) else Raise IndexError)"

definition slice :: "nat \<Rightarrow> nat \<Rightarrow> 'a list \<Rightarrow> 'a list" where
  "slice i j xs = take (j - i) (drop i xs)"

lemma byte_at_Cons [simp]:
  "byte_at (b # bs) 0 = Ok (uint b)"
  "byte_at (b # bs) (Suc i) = byte_at bs i"
  "byte_at [] i = Raise IndexError"
  by (simp_all add: byte_at_def)

lemma byte_at_Cons_num [simp]:
  "byte_at (b # bs) (numeral k) = byte_at bs (pred_numeral k)"
  "byte_at (b # bs) 1 = byte_at bs 0"
  by (simp_all add: numeral_eq_Suc)

lemma byte_at_Ok_iff: "byte_at bs i = Ok x \<longleftrightarrow> i < length bs \<and> x = uint (bs ! i)"
  by (auto simp: byte_at_def)

lemma byte_at_append: "i < length xs \<Longrightarrow> byte_at (xs @ ys) i = byte_at xs i"
  by (simp add: byte_at_def nth_append)

subsection \<open>The bytes constructor\<close>

definition wire :: "int list \<Rightarrow> bytes" where
  "wire xs = map word_of_int xs"

definition all_bytes :: "int list \<Rightarrow> bool" where
  "all_bytes xs \<longleftrightarrow> list_all is_byte xs"

definition py_bytes :: "int list \<Rightarrow> bytes result" where
  "py_bytes xs =
     (if all_bytes xs then Ok (wire xs) else Raise (ValueError ''bytes must be in range(0, 256)''))"

lemma wire_simps [simp]:
  "wire [] = []"
  "wire (x # xs) = word_of_int x # wire xs"
  "wire (xs @ ys) = wire xs @ wire ys"
  "length (wire xs) = length xs"
  by (simp_all add: wire_def)

lemma wire_eq_Nil [simp]: "wire xs = [] \<longleftrightarrow> xs = []"
  by (simp add: wire_def)

lemma all_bytes_simps [simp]:
  "all_bytes []"
  "all_bytes (x # xs) \<longleftrightarrow> is_byte x \<and> all_bytes xs"
  "all_bytes (xs @ ys) \<longleftrightarrow> all_bytes xs \<and> all_bytes ys"
  by (simp_all add: all_bytes_def)

lemma uint_of_byte: "is_byte x \<Longrightarrow> uint (word_of_int x :: byte) = x"
  by (simp add: is_byte_def uint_word_of_int)

lemma wire_uint [simp]: "wire (map uint bs) = bs"
  by (simp add: wire_def comp_def)

lemma all_bytes_uint [simp]: "all_bytes (map uint (bs :: bytes))"
  by (induction bs) auto

lemma py_bytes_Ok_iff: "py_bytes xs = Ok bs \<longleftrightarrow> all_bytes xs \<and> bs = wire xs"
  by (auto simp: py_bytes_def)

lemma py_bytes_uint: "py_bytes (map uint bs) = Ok bs"
  by (simp add: py_bytes_def)

lemma map_uint_wire: "all_bytes xs \<Longrightarrow> map uint (wire xs) = xs"
  by (induction xs) (simp_all add: uint_of_byte)

text \<open>
  \<open>decodes_to m dec x\<close>: the encoder's output \<open>m\<close> is a list of bytes from which \<open>dec\<close> reads
  \<open>x\<close> back, whatever follows, and leaves exactly what follows. It composes over sequences.
\<close>

definition decodes_to :: "int list result \<Rightarrow> (bytes \<Rightarrow> ('a \<times> bytes) result) \<Rightarrow> 'a \<Rightarrow> bool" where
  "decodes_to m dec x \<longleftrightarrow>
     (\<exists>ys. m = Ok ys \<and> all_bytes ys \<and> (\<forall>rest. dec (wire ys @ rest) = Ok (x, rest)))"

lemma decodes_toI:
  "m = Ok ys \<Longrightarrow> all_bytes ys \<Longrightarrow> (\<And>rest. dec (wire ys @ rest) = Ok (x, rest)) \<Longrightarrow> decodes_to m dec x"
  by (auto simp: decodes_to_def)

lemma decodes_toE:
  assumes "decodes_to m dec x"
  obtains ys where "m = Ok ys" "all_bytes ys" "\<forall>rest. dec (wire ys @ rest) = Ok (x, rest)"
  using assms by (auto simp: decodes_to_def)

lemma decodes_to_repeat:
  assumes "\<And>x. x \<in> set xs \<Longrightarrow> decodes_to (enc x) dec x"
  shows "decodes_to (concatE enc xs) (repeat_decode dec (length xs)) xs"
  using assms
proof (induction xs)
  case Nil
  then show ?case by (auto simp: decodes_to_def)
next
  case (Cons x xs)
  from Cons.prems obtain ys where ys: "enc x = Ok ys" "all_bytes ys"
    "\<forall>rest. dec (wire ys @ rest) = Ok (x, rest)"
    by (meson decodes_toE list.set_intros(1))
  from Cons obtain zs where zs: "concatE enc xs = Ok zs" "all_bytes zs"
    "\<forall>rest. repeat_decode dec (length xs) (wire zs @ rest) = Ok (xs, rest)"
    by (meson decodes_toE list.set_intros(2))
  from ys zs show ?case by (intro decodes_toI [where ys = "ys @ zs"]) simp_all
qed

lemma decodes_to_seq2:
  assumes "decodes_to m dec x" "decodes_to m' dec' y"
  shows "decodes_to (appendE m m')
    (\<lambda>bs. bindE (dec bs) (\<lambda>(x, bs). bindE (dec' bs) (\<lambda>(y, bs). Ok (f x y, bs)))) (f x y)"
proof -
  obtain xs where xs: "m = Ok xs" "all_bytes xs" "\<forall>rest. dec (wire xs @ rest) = Ok (x, rest)"
    using assms(1) by (rule decodes_toE)
  obtain ys where ys: "m' = Ok ys" "all_bytes ys" "\<forall>rest. dec' (wire ys @ rest) = Ok (y, rest)"
    using assms(2) by (rule decodes_toE)
  from xs ys show ?thesis by (intro decodes_toI [where ys = "xs @ ys"]) simp_all
qed

section \<open>Fixed-width integers on the wire\<close>

primrec from_le :: "bytes \<Rightarrow> int" where
  "from_le [] = 0"
| "from_le (b # bs) = uint b + 256 * from_le bs"

definition from_be :: "bytes \<Rightarrow> int" where
  "from_be bs = from_le (rev bs)"

primrec le_digits :: "nat \<Rightarrow> int \<Rightarrow> int list" where
  "le_digits 0 x = []"
| "le_digits (Suc n) x = (x mod 256) # le_digits n (x div 256)"

text \<open>\<open>x.to_bytes(n, 'little')\<close> and \<open>x.to_bytes(n, 'big')\<close>.\<close>

definition to_le :: "nat \<Rightarrow> int \<Rightarrow> int list result" where
  "to_le n x =
     (if 0 \<le> x \<and> x < 256 ^ n then Ok (le_digits n x) else Raise (OverflowError ''int too big to convert''))"

definition to_be :: "nat \<Rightarrow> int \<Rightarrow> int list result" where
  "to_be n x = bindE (to_le n x) (\<lambda>ds. Ok (rev ds))"

text \<open>
  \<open>struct.pack\<close> and \<open>struct.unpack\<close> of one signed integer of \<open>n\<close> bytes (\<open>'<h'\<close> for 2,
  \<open>'<i'\<close> for 4): both raise \<open>struct.error\<close> where the value or the buffer does not fit.
\<close>

definition pack_le :: "nat \<Rightarrow> int \<Rightarrow> int list result" where
  "pack_le n x =
     (if - (256 ^ n) \<le> 2 * x \<and> 2 * x < 256 ^ n then Ok (le_digits n (x mod 256 ^ n))
      else Raise (StructError ''argument out of range''))"

definition unpack_le :: "nat \<Rightarrow> bytes \<Rightarrow> int result" where
  "unpack_le n bs =
     (if length bs = n
      then (let u = from_le bs in Ok (if 2 * u < 256 ^ n then u else u - 256 ^ n))
      else Raise (StructError ''unpack requires a buffer of another size''))"

lemma length_le_digits [simp]: "length (le_digits n x) = n"
  by (induction n arbitrary: x) auto

lemma all_bytes_le_digits [simp]: "all_bytes (le_digits n x)"
  by (induction n arbitrary: x) (auto intro: byte_intros)

lemma from_le_bounds: "0 \<le> from_le bs \<and> from_le bs < 256 ^ length bs"
proof (induction bs)
  case Nil
  then show ?case by simp
next
  case (Cons b bs)
  then show ?case using uint_byte_bounds [of b] by auto
qed

lemma from_le_wire_digits: "from_le (wire (le_digits n x)) = x mod 256 ^ n"
proof (induction n arbitrary: x)
  case 0
  then show ?case by simp
next
  case (Suc n)
  have "x mod (256 * 256 ^ n) = 256 * (x div 256 mod 256 ^ n) + x mod 256"
    by (rule zmod_zmult2_eq) simp
  with Suc show ?case
    by (simp add: uint_of_byte byte_intros)
qed

lemma le_digits_from_le: "le_digits (length bs) (from_le bs) = map uint bs"
proof (induction bs)
  case Nil
  then show ?case by simp
next
  case (Cons b bs)
  then show ?case using uint_byte_bounds [of b] by simp
qed

lemma to_le_Ok [simp]: "0 \<le> x \<Longrightarrow> x < 256 ^ n \<Longrightarrow> to_le n x = Ok (le_digits n x)"
  by (simp add: to_le_def)

lemma from_le_to_le: "to_le n x = Ok ds \<Longrightarrow> from_le (wire ds) = x"
  by (auto simp: to_le_def from_le_wire_digits split: if_splits)

lemma from_le_digits_append:
  "0 \<le> x \<Longrightarrow> x < 256 ^ n \<Longrightarrow> from_le (take n (wire (le_digits n x) @ rest)) = x"
  by (simp add: from_le_wire_digits)

lemma to_le_from_le: "to_le (length bs) (from_le bs) = Ok (map uint bs)"
  using from_le_bounds [of bs] by (simp add: le_digits_from_le)

lemma unpack_pack_le:
  assumes "pack_le n x = Ok ds"
  shows "unpack_le n (wire ds) = Ok x"
proof -
  from assms have r: "- (256 ^ n) \<le> 2 * x" "2 * x < 256 ^ n" and ds: "ds = le_digits n (x mod 256 ^ n)"
    by (auto simp: pack_le_def split: if_splits)
  show ?thesis
  proof (cases "0 \<le> x")
    case True
    with r have "x mod 256 ^ n = x" by simp
    with r ds show ?thesis by (simp add: unpack_le_def from_le_wire_digits)
  next
    case False
    with r have "(x + 256 ^ n) mod 256 ^ n = x + 256 ^ n"
      by (intro mod_pos_pos_trivial) auto
    then have "x mod 256 ^ n = x + 256 ^ n" by simp
    with r ds False show ?thesis by (simp add: unpack_le_def from_le_wire_digits Let_def)
  qed
qed

lemma pack_unpack_le:
  assumes "unpack_le n bs = Ok x"
  shows "pack_le n x = Ok (map uint bs)"
proof -
  from assms have len: "length bs = n"
    and x: "x = (if 2 * from_le bs < 256 ^ n then from_le bs else from_le bs - 256 ^ n)"
    by (auto simp: unpack_le_def Let_def split: if_splits)
  have b: "0 \<le> from_le bs" "from_le bs < 256 ^ n"
    using from_le_bounds [of bs] len by auto
  have m: "x mod 256 ^ n = from_le bs"
    using b x by simp
  have "- (256 ^ n) \<le> 2 * x \<and> 2 * x < 256 ^ n"
    using b x by auto
  with m show ?thesis
    using le_digits_from_le [of bs] len by (simp add: pack_le_def)
qed

lemma length_pack_le: "pack_le n x = Ok ds \<Longrightarrow> length ds = n \<and> all_bytes ds"
  by (auto simp: pack_le_def split: if_splits)

section \<open>Enumerations\<close>

text \<open>
  \<open>enum_lookup val all x\<close> is \<open>E(x)\<close> for an enumeration class with members \<open>all\<close> whose
  values are given by \<open>val\<close>.
\<close>

definition enum_lookup :: "('e \<Rightarrow> int) \<Rightarrow> 'e list \<Rightarrow> int \<Rightarrow> 'e result" where
  "enum_lookup val members x =
     (case find (\<lambda>e. val e = x) members of
        Some e \<Rightarrow> Ok e | None \<Rightarrow> Raise (ValueError ''not a valid enumeration value''))"

lemma find_inj_on:
  "inj_on val (set members) \<Longrightarrow> e \<in> set members \<Longrightarrow> find (\<lambda>e'. val e' = val e) members = Some e"
  by (induction members) (auto simp: inj_on_def)

lemma enum_lookup_value:
  "inj_on val (set members) \<Longrightarrow> e \<in> set members \<Longrightarrow> enum_lookup val members (val e) = Ok e"
  by (simp add: enum_lookup_def find_inj_on)

lemma enum_lookup_Ok: "enum_lookup val members x = Ok e \<Longrightarrow> val e = x \<and> e \<in> set members"
  by (auto simp: enum_lookup_def find_Some_iff split: option.splits)

lemma enum_lookup_Raise: "x \<notin> val ` set members \<Longrightarrow> \<exists>msg. enum_lookup val members x = Raise (ValueError msg)"
proof -
  assume "x \<notin> val ` set members"
  then have "find (\<lambda>e. val e = x) members = None"
    by (auto simp: find_None_iff)
  then show ?thesis by (simp add: enum_lookup_def)
qed

text \<open>
  The interface of an enumeration class: \<open>members\<close> lists all of them, and no two have the same
  value. It is interpreted for every enumeration of the program, under the name of its class.
\<close>

locale enumeration =
  fixes val :: "'e \<Rightarrow> int" and members :: "'e list"
  assumes member: "x \<in> set members"
    and distinct_values: "distinct (map val members)"
begin

lemma set_members [simp]: "set members = UNIV"
  using member by auto

lemma val_eq_iff [simp]: "val x = val y \<longleftrightarrow> x = y"
  using distinct_values by (auto simp: distinct_map inj_on_def)

lemma of_value: "enum_lookup val members (val x) = Ok x"
  by (rule enum_lookup_value) (simp_all add: inj_on_def)

lemma of_Ok_iff: "enum_lookup val members n = Ok x \<longleftrightarrow> n = val x"
  using enum_lookup_Ok of_value by fastforce

lemma of_Raise_iff: "(\<exists>e. enum_lookup val members n = Raise e) \<longleftrightarrow> n \<notin> range val"
  using of_Ok_iff enum_lookup_Raise [of n val members]
  by (cases "enum_lookup val members n") (auto simp: of_value)

end

end
