(* ===== verification/Encodings.thy ===== *)
theory Encodings
  imports Prelude
begin

text \<open>
  The ASDU layer shared by the IEC 60870-5-101, -103 and -104 encodings, from
  \<^verbatim>\<open>iec60870/encodings/common.py\<close> and \<^verbatim>\<open>iec60870/encodings/encoder.py\<close>: field sizes, time
  tags, information objects (\<open>IO\<close>), data units (\<open>ASDU\<close>) and the class \<open>Encoder\<close>, whose
  instance variables are the fields of the record \<open>'e Encoder\<close>. The callbacks that encode
  and decode one information element are fields of that record, as in the code; the locale
  \<open>io_element_codec\<close> states what the ASDU layer relies on of them, and proves the ASDU
  round trip once for every instance.
\<close>

unbundle bit_operations_syntax

section \<open>Sizes\<close>

datatype CauseSize = CauseSize_ONE | CauseSize_TWO

fun CauseSize_value :: "CauseSize \<Rightarrow> nat" where
  "CauseSize_value CauseSize_ONE = 1"
| "CauseSize_value CauseSize_TWO = 2"

datatype AsduAddressSize = AsduAddressSize_ONE | AsduAddressSize_TWO

fun AsduAddressSize_value :: "AsduAddressSize \<Rightarrow> nat" where
  "AsduAddressSize_value AsduAddressSize_ONE = 1"
| "AsduAddressSize_value AsduAddressSize_TWO = 2"

datatype IoAddressSize = IoAddressSize_ONE | IoAddressSize_TWO | IoAddressSize_THREE

fun IoAddressSize_value :: "IoAddressSize \<Rightarrow> nat" where
  "IoAddressSize_value IoAddressSize_ONE = 1"
| "IoAddressSize_value IoAddressSize_TWO = 2"
| "IoAddressSize_value IoAddressSize_THREE = 3"

datatype TimeSize = TimeSize_TWO | TimeSize_THREE | TimeSize_FOUR | TimeSize_SEVEN

fun TimeSize_value :: "TimeSize \<Rightarrow> nat" where
  "TimeSize_value TimeSize_TWO = 2"
| "TimeSize_value TimeSize_THREE = 3"
| "TimeSize_value TimeSize_FOUR = 4"
| "TimeSize_value TimeSize_SEVEN = 7"

section \<open>Data\<close>

record Time =
  time_size :: TimeSize
  milliseconds :: int
  invalid :: "bool option"
  substituted :: "bool option"
  minutes :: "int option"
  summer_time :: "bool option"
  hours :: "int option"
  day_of_week :: "int option"
  day_of_month :: "int option"
  months :: "int option"
  years :: "int option"

record 'e IO =
  io_address :: int
  io_elements :: "'e list"
  io_time :: "Time option"

record ('t, 'c, 'e) ASDU =
  asdu_type :: 't
  asdu_cause :: 'c
  asdu_address :: int
  asdu_ios :: "'e IO list"

section \<open>Time tags\<close>

text \<open>\<open>f(time_bytes[i]) if c else None\<close>\<close>

definition byte_when :: "bool \<Rightarrow> bytes \<Rightarrow> nat \<Rightarrow> (int \<Rightarrow> 'a) \<Rightarrow> 'a option result" where
  "byte_when c bs i f = (if c then bindE (byte_at bs i) (\<lambda>b. Ok (Some (f b))) else Ok None)"

definition decode_time :: "bytes \<Rightarrow> TimeSize \<Rightarrow> Time result" where
  "decode_time time_bytes sz =
     bindE (byte_at time_bytes 1) (\<lambda>b1.
     bindE (byte_at time_bytes 0) (\<lambda>b0.
     bindE (byte_when (2 < TimeSize_value sz) time_bytes 2 (\<lambda>b. b AND 0x80 \<noteq> 0)) (\<lambda>inv.
     bindE (byte_when (2 < TimeSize_value sz) time_bytes 2 (\<lambda>b. b AND 0x40 \<noteq> 0)) (\<lambda>subst.
     bindE (byte_when (2 < TimeSize_value sz) time_bytes 2 (\<lambda>b. b AND 0x3F)) (\<lambda>mins.
     bindE (byte_when (3 < TimeSize_value sz) time_bytes 3 (\<lambda>b. b AND 0x80 \<noteq> 0)) (\<lambda>summer.
     bindE (byte_when (3 < TimeSize_value sz) time_bytes 3 (\<lambda>b. b AND 0x1F)) (\<lambda>hrs.
     bindE (byte_when (4 < TimeSize_value sz) time_bytes 4 (\<lambda>b. drop_bit 5 b)) (\<lambda>dow.
     bindE (byte_when (4 < TimeSize_value sz) time_bytes 4 (\<lambda>b. b AND 0x1F)) (\<lambda>dom.
     bindE (byte_when (4 < TimeSize_value sz) time_bytes 5 (\<lambda>b. b AND 0x0F)) (\<lambda>mon.
     bindE (byte_when (4 < TimeSize_value sz) time_bytes 6 (\<lambda>b. b AND 0x7F)) (\<lambda>yrs.
       Ok \<lparr>time_size = sz, milliseconds = push_bit 8 b1 OR b0, invalid = inv,
           substituted = subst, minutes = mins, summer_time = summer, hours = hrs,
           day_of_week = dow, day_of_month = dom, months = mon, years = yrs\<rparr>)))))))))))"

text \<open>
  In \<open>encode_time\<close> a missing flag counts as false, while the arithmetic on a missing
  number raises TypeError.
\<close>

definition flag :: "bool option \<Rightarrow> int \<Rightarrow> int" where
  "flag b v = (if b = Some True then v else 0)"

definition masked :: "int option \<Rightarrow> int \<Rightarrow> int result" where
  "masked x m =
     (case x of None \<Rightarrow> Raise (TypeError ''unsupported operand type(s) for &'') | Some v \<Rightarrow> Ok (v AND m))"

definition encode_time :: "Time \<Rightarrow> TimeSize \<Rightarrow> int list result" where
  "encode_time t sz =
     (if TimeSize_value (time_size t) < TimeSize_value sz
      then Raise (ValueError ''unsupported time size'')
      else appendE (Ok [milliseconds t AND 0xFF, drop_bit 8 (milliseconds t) AND 0xFF])
          (appendE
            (if 2 < TimeSize_value sz
             then bindE (masked (minutes t) 0x3F)
                    (\<lambda>m. Ok [flag (invalid t) 0x80 OR flag (substituted t) 0x40 OR m])
             else Ok [])
          (appendE
            (if 3 < TimeSize_value sz
             then bindE (masked (hours t) 0x1F) (\<lambda>h. Ok [flag (summer_time t) 0x80 OR h])
             else Ok [])
            (if 4 < TimeSize_value sz
             then bindE (masked (day_of_week t) 0x07) (\<lambda>dw.
                  bindE (masked (day_of_month t) 0x1F) (\<lambda>dm.
                  bindE (masked (months t) 0x0F) (\<lambda>mo.
                  bindE (masked (years t) 0x7F) (\<lambda>ye.
                    Ok [push_bit 5 dw OR dm, mo, ye]))))
             else Ok []))))"

section \<open>The ASDU encoder\<close>

record 'e Encoder =
  cause_size :: CauseSize
  asdu_address_size :: AsduAddressSize
  io_address_size :: IoAddressSize
  asdu_type_time_sizes :: "int \<Rightarrow> TimeSize option"
  inverted_sequence_bit :: bool
  decode_io_element_cb :: "bytes \<Rightarrow> int \<Rightarrow> ('e \<times> bytes) result"
  encode_io_element_cb :: "'e \<Rightarrow> int \<Rightarrow> int list result"

definition decode_int :: "bytes \<Rightarrow> nat \<Rightarrow> int \<times> bytes" where
  "decode_int data n = (from_le (take n data), drop n data)"

definition encode_int :: "int \<Rightarrow> nat \<Rightarrow> int list result" where
  "encode_int x n = to_le n x"

definition decode_io :: "'e Encoder \<Rightarrow> int \<Rightarrow> nat \<Rightarrow> bytes \<Rightarrow> ('e IO \<times> bytes) result" where
  "decode_io enc asdu_ty ioe_element_count io_bytes =
     (let (address, rest) = decode_int io_bytes (IoAddressSize_value (io_address_size enc)) in
      bindE (repeat_decode (\<lambda>bs. decode_io_element_cb enc bs asdu_ty) ioe_element_count rest)
        (\<lambda>(elements, rest).
          case asdu_type_time_sizes enc asdu_ty of
            None \<Rightarrow> Ok (\<lparr>io_address = address, io_elements = elements, io_time = None\<rparr>, rest)
          | Some sz \<Rightarrow> bindE (decode_time rest sz) (\<lambda>t.
              Ok (\<lparr>io_address = address, io_elements = elements, io_time = Some t\<rparr>,
                  drop (TimeSize_value sz) rest))))"

definition decode_asdu :: "'e Encoder \<Rightarrow> bytes \<Rightarrow> ((int, int, 'e) ASDU \<times> bytes) result" where
  "decode_asdu enc asdu_bytes =
     bindE (byte_at asdu_bytes 0) (\<lambda>asdu_ty.
     bindE (byte_at asdu_bytes 1) (\<lambda>b1.
       let io_number = nat (b1 AND 0x7F);
           is_sequence = (b1 AND 0x80 \<noteq> 0);
           is_sequence = (if inverted_sequence_bit enc then \<not> is_sequence else is_sequence);
           io_count = (if is_sequence then 1 else io_number);
           ioe_element_count = (if is_sequence then io_number else 1);
           rest = drop 2 asdu_bytes;
           (cause, rest) = decode_int rest (CauseSize_value (cause_size enc));
           (address, rest) = decode_int rest (AsduAddressSize_value (asdu_address_size enc))
       in bindE (repeat_decode (decode_io enc asdu_ty ioe_element_count) io_count rest)
            (\<lambda>(ios, rest).
              Ok (\<lparr>asdu_type = asdu_ty, asdu_cause = cause, asdu_address = address,
                  asdu_ios = ios\<rparr>, rest))))"

definition encode_io :: "'e Encoder \<Rightarrow> int \<Rightarrow> 'e IO \<Rightarrow> int list result" where
  "encode_io enc asdu_ty io =
     appendE (encode_int (io_address io) (IoAddressSize_value (io_address_size enc)))
    (appendE (concatE (\<lambda>e. encode_io_element_cb enc e asdu_ty) (io_elements io))
      (case asdu_type_time_sizes enc asdu_ty of
         None \<Rightarrow> Ok []
       | Some sz \<Rightarrow>
           (case io_time io of
              None \<Rightarrow> Raise (AttributeError ''NoneType object has no attribute size'')
            | Some t \<Rightarrow> encode_time t sz)))"

definition asdu_is_sequence :: "('t, 'c, 'e) ASDU \<Rightarrow> bool" where
  "asdu_is_sequence asdu \<longleftrightarrow>
     length (asdu_ios asdu) = 1 \<and> 1 < length (io_elements (hd (asdu_ios asdu)))"

definition encode_asdu :: "'e Encoder \<Rightarrow> (int, int, 'e) ASDU \<Rightarrow> bytes result" where
  "encode_asdu enc asdu =
     (let is_sequence = asdu_is_sequence asdu;
          number = (if is_sequence
            then (if inverted_sequence_bit enc then 0x00 else 0x80)
                   OR int (length (io_elements (hd (asdu_ios asdu))))
            else (if inverted_sequence_bit enc then 0x80 else 0x00)
                   OR int (length (asdu_ios asdu)))
      in bindE (appendE (Ok [asdu_type asdu, number])
               (appendE (encode_int (asdu_cause asdu) (CauseSize_value (cause_size enc)))
               (appendE (encode_int (asdu_address asdu)
                           (AsduAddressSize_value (asdu_address_size enc)))
                 (concatE (\<lambda>io. if \<not> is_sequence \<and> length (io_elements io) \<noteq> 1
                    then Raise (ValueError ''invalid number of IO elements'')
                    else encode_io enc (asdu_type asdu) io) (asdu_ios asdu)))))
           py_bytes)"

section \<open>Time tags: round trip and truncation\<close>

text \<open>
  \<open>time_ok t\<close>: exactly the fields that \<open>Time.size\<close> makes available are present, and each
  fits its bit field. \<open>time_restrict sz t\<close>: the time tag \<open>t\<close> as the shorter format \<open>sz\<close>
  carries it.
\<close>

fun opt_bits :: "nat \<Rightarrow> int option \<Rightarrow> bool" where
  "opt_bits n None \<longleftrightarrow> False"
| "opt_bits n (Some x) \<longleftrightarrow> 0 \<le> x \<and> x < 2 ^ n"

definition time_ok :: "Time \<Rightarrow> bool" where
  "time_ok t \<longleftrightarrow>
     (let v = TimeSize_value (time_size t) in
      0 \<le> milliseconds t \<and> milliseconds t < 65536 \<and>
      (if 2 < v then invalid t \<noteq> None \<and> substituted t \<noteq> None \<and> opt_bits 6 (minutes t)
       else invalid t = None \<and> substituted t = None \<and> minutes t = None) \<and>
      (if 3 < v then summer_time t \<noteq> None \<and> opt_bits 5 (hours t)
       else summer_time t = None \<and> hours t = None) \<and>
      (if 4 < v then opt_bits 3 (day_of_week t) \<and> opt_bits 5 (day_of_month t) \<and>
         opt_bits 4 (months t) \<and> opt_bits 7 (years t)
       else day_of_week t = None \<and> day_of_month t = None \<and> months t = None \<and> years t = None))"

definition time_restrict :: "TimeSize \<Rightarrow> Time \<Rightarrow> Time" where
  "time_restrict sz t =
     (let v = TimeSize_value sz in
      \<lparr>time_size = sz, milliseconds = milliseconds t,
       invalid = (if 2 < v then invalid t else None),
       substituted = (if 2 < v then substituted t else None),
       minutes = (if 2 < v then minutes t else None),
       summer_time = (if 3 < v then summer_time t else None),
       hours = (if 3 < v then hours t else None),
       day_of_week = (if 4 < v then day_of_week t else None),
       day_of_month = (if 4 < v then day_of_month t else None),
       months = (if 4 < v then months t else None),
       years = (if 4 < v then years t else None)\<rparr>)"

lemma opt_bits_iff: "opt_bits n x \<longleftrightarrow> (\<exists>v. x = Some v \<and> 0 \<le> v \<and> v < 2 ^ n)"
  by (cases x) auto

lemma time_restrict_same: "time_ok t \<Longrightarrow> time_restrict (time_size t) t = t"
  by (cases t) (auto simp: time_restrict_def time_ok_def Let_def split: if_splits)

lemma join_milliseconds:
  fixes ms :: int
  assumes "0 \<le> ms" "ms < 65536"
  shows "push_bit 8 (drop_bit 8 ms AND 255) OR (ms AND 255) = ms"
proof -
  have "drop_bit 8 ms AND 255 = ms div 256" "ms AND 255 = ms mod 256"
    using assms by (simp_all add: mask_mod drop_bit_eq_div)
  moreover have "push_bit 8 (ms div 256) OR ms mod 256 = push_bit 8 (ms div 256) + ms mod 256"
    by (rule or_disjoint_add [where n = 8]) (simp_all add: push_bit_eq_mult)
  ultimately show ?thesis by (simp add: push_bit_eq_mult)
qed

lemma join_day:
  fixes w d :: int
  assumes "0 \<le> w" "w < 8" "0 \<le> d" "d < 32"
  shows "is_byte (push_bit 5 w OR d)" "drop_bit 5 (push_bit 5 w OR d) = w" "(push_bit 5 w OR d) AND 31 = d"
proof -
  have "push_bit 5 w OR d = push_bit 5 w + d"
    using assms by (intro or_disjoint_add [where n = 5]) (simp_all add: push_bit_eq_mult)
  then have eq: "push_bit 5 w OR d = d + w * 32"
    by (simp add: push_bit_eq_mult)
  show "is_byte (push_bit 5 w OR d)" using assms by (simp add: eq is_byte_def)
  show "drop_bit 5 (push_bit 5 w OR d) = w" using assms by (simp add: eq drop_bit_eq_div)
  show "(push_bit 5 w OR d) AND 31 = d" using assms by (simp add: eq mask_mod)
qed

lemma flag_byte [byte_intros]: "is_byte v \<Longrightarrow> is_byte (flag b v)"
  by (simp add: flag_def byte_intros)

lemmas time_codec_simps =
  encode_time_def decode_time_def byte_when_def masked_def uint_of_byte byte_intros

lemma flags_minutes:
  assumes "0 \<le> m" "m < 64"
  shows "((flag a 128 OR flag b 64 OR m) AND 128 = 0) = (a \<noteq> Some True)"
    "((flag a 128 OR flag b 64 OR m) AND 64 = 0) = (b \<noteq> Some True)"
    "(flag a 128 OR flag b 64 OR m) AND 63 = m"
    "is_byte (flag a 128 OR flag b 64 OR m)"
proof -
  have m: "m = m AND 63" using assms by (simp add: mask_mod)
  show "((flag a 128 OR flag b 64 OR m) AND 128 = 0) = (a \<noteq> Some True)"
    "((flag a 128 OR flag b 64 OR m) AND 64 = 0) = (b \<noteq> Some True)"
    by (subst m, simp add: flag_def bit_tests bit_simps)+
  show "(flag a 128 OR flag b 64 OR m) AND 63 = m"
    by (subst (2) m) (simp add: flag_def or_mask)
  show "is_byte (flag a 128 OR flag b 64 OR m)"
    using assms by (intro byte_intros) simp_all
qed

lemma flags_hours:
  assumes "0 \<le> h" "h < 32"
  shows "((flag a 128 OR h) AND 128 = 0) = (a \<noteq> Some True)"
    "(flag a 128 OR h) AND 31 = h" "is_byte (flag a 128 OR h)"
proof -
  have h: "h = h AND 31" using assms by (simp add: mask_mod)
  show "((flag a 128 OR h) AND 128 = 0) = (a \<noteq> Some True)"
    by (subst h) (simp add: flag_def bit_tests bit_simps)
  show "(flag a 128 OR h) AND 31 = h"
    by (subst (2) h) (simp add: flag_def or_mask)
  show "is_byte (flag a 128 OR h)"
    using assms by (intro byte_intros) simp_all
qed

lemma encode_decode_time:
  assumes ok: "time_ok t" and sz: "TimeSize_value sz \<le> TimeSize_value (time_size t)"
  shows "\<exists>xs. encode_time t sz = Ok xs \<and> length xs = TimeSize_value sz \<and> all_bytes xs \<and>
     (\<forall>rest. decode_time (wire xs @ rest) sz = Ok (time_restrict sz t))"
proof -
  have ms: "0 \<le> milliseconds t" "milliseconds t < 65536"
    using ok by (simp_all add: time_ok_def Let_def)
  note common = ms join_milliseconds [OF ms] join_milliseconds [OF ms, simplified] time_codec_simps time_restrict_def
  show ?thesis
  proof (cases sz)
    case TimeSize_TWO
    then show ?thesis using sz by (simp add: common)
  next
    case TimeSize_THREE
    then obtain m where m: "minutes t = Some m" "0 \<le> m" "m < 64" "invalid t \<noteq> None" "substituted t \<noteq> None"
      using ok sz by (cases "time_size t") (auto simp: time_ok_def opt_bits_iff)
    note f = flags_minutes [OF m(2,3), of "invalid t" "substituted t"]
    have masks: "m AND 63 = m" using m by (simp add: mask_mod)
    show ?thesis using TimeSize_THREE sz m by (auto simp: common f masks)
  next
    case TimeSize_FOUR
    then obtain m h where m: "minutes t = Some m" "0 \<le> m" "m < 64" "invalid t \<noteq> None" "substituted t \<noteq> None"
      and h: "hours t = Some h" "0 \<le> h" "h < 32" "summer_time t \<noteq> None"
      using ok sz by (cases "time_size t") (auto simp: time_ok_def opt_bits_iff)
    note f = flags_minutes [OF m(2,3), of "invalid t" "substituted t"] flags_hours [OF h(2,3), of "summer_time t"]
    have masks: "m AND 63 = m" "h AND 31 = h" using m h by (simp_all add: mask_mod)
    show ?thesis using TimeSize_FOUR sz m h by (auto simp: common f masks)
  next
    case TimeSize_SEVEN
    then obtain m h w d mo y where m: "minutes t = Some m" "0 \<le> m" "m < 64" "invalid t \<noteq> None" "substituted t \<noteq> None"
      and h: "hours t = Some h" "0 \<le> h" "h < 32" "summer_time t \<noteq> None"
      and d: "day_of_week t = Some w" "0 \<le> w" "w < 8" "day_of_month t = Some d" "0 \<le> d" "d < 32"
      and y: "months t = Some mo" "0 \<le> mo" "mo < 16" "years t = Some y" "0 \<le> y" "y < 128"
      using ok sz by (cases "time_size t") (auto simp: time_ok_def opt_bits_iff)
    have masks: "m AND 63 = m" "h AND 31 = h" "w AND 7 = w" "d AND 31 = d" "mo AND 15 = mo" "y AND 127 = y"
      "is_byte mo" "is_byte y"
      using m h d y by (simp_all add: mask_mod is_byte_def)
    note f = flags_minutes [OF m(2,3), of "invalid t" "substituted t"] flags_hours [OF h(2,3), of "summer_time t"]
      join_day [OF d(2,3,5,6)]
    show ?thesis using TimeSize_SEVEN sz m h d y by (auto simp: common f masks simp del: drop_bit_or)
  qed
qed

section \<open>Well-formed data units\<close>

text \<open>
  What \<open>encode_asdu\<close> needs of a data unit to be read back: numbers that fit their fields, at
  most 127 objects or elements, a time tag of the format that the type prescribes, and
  elements that the element codec handles (\<open>ok\<close>).
\<close>

definition io_ok :: "'e Encoder \<Rightarrow> (int \<Rightarrow> 'e \<Rightarrow> bool) \<Rightarrow> int \<Rightarrow> 'e IO \<Rightarrow> bool" where
  "io_ok enc ok ty io \<longleftrightarrow>
     0 \<le> io_address io \<and> io_address io < 256 ^ IoAddressSize_value (io_address_size enc) \<and>
     list_all (ok ty) (io_elements io) \<and>
     (case asdu_type_time_sizes enc ty of
        None \<Rightarrow> io_time io = None
      | Some sz \<Rightarrow> (case io_time io of None \<Rightarrow> False | Some t \<Rightarrow> time_ok t \<and> time_size t = sz))"

definition asdu_ok :: "'e Encoder \<Rightarrow> (int \<Rightarrow> 'e \<Rightarrow> bool) \<Rightarrow> (int, int, 'e) ASDU \<Rightarrow> bool" where
  "asdu_ok enc ok asdu \<longleftrightarrow>
     is_byte (asdu_type asdu) \<and>
     0 \<le> asdu_cause asdu \<and> asdu_cause asdu < 256 ^ CauseSize_value (cause_size enc) \<and>
     0 \<le> asdu_address asdu \<and> asdu_address asdu < 256 ^ AsduAddressSize_value (asdu_address_size enc) \<and>
     list_all (io_ok enc ok (asdu_type asdu)) (asdu_ios asdu) \<and>
     (if asdu_is_sequence asdu then length (io_elements (hd (asdu_ios asdu))) \<le> 127
      else length (asdu_ios asdu) \<le> 127 \<and>
        list_all (\<lambda>io. length (io_elements io) = 1) (asdu_ios asdu))"

lemma decode_int_append:
  assumes "0 \<le> x" "x < 256 ^ n"
  shows "decode_int (wire (le_digits n x) @ rest) n = (x, rest)"
  using assms by (simp add: decode_int_def from_le_wire_digits)

lemma sequence_bit:
  fixes n :: nat
  assumes "n \<le> 127"
  shows "(128 OR int n) AND 128 \<noteq> 0" "nat ((128 OR int n) AND 127) = n" "is_byte (128 OR int n)"
    "int n AND 128 = 0" "nat (int n AND 127) = n" "is_byte (int n)"
proof -
  have n: "int n = int n AND 127" using assms by (simp add: mask_mod)
  show "(128 OR int n) AND 128 \<noteq> 0" by (simp add: bit_tests bit_simps)
  show "nat ((128 OR int n) AND 127) = n" using n by (simp add: or_mask)
  show "int n AND 128 = 0" by (subst n) (simp add: and.assoc)
  show "nat (int n AND 127) = n" using n by simp
  show "is_byte (int n)" using assms by (simp add: is_byte_def)
  then show "is_byte (128 OR int n)" by (intro is_byte_or) (simp_all add: is_byte_num)
qed

section \<open>The interface of the element callbacks\<close>

locale io_element_codec =
  fixes dec :: "bytes \<Rightarrow> int \<Rightarrow> ('e \<times> bytes) result"
    and enc :: "'e \<Rightarrow> int \<Rightarrow> int list result"
    and ok :: "int \<Rightarrow> 'e \<Rightarrow> bool"
  assumes element_roundtrip: "ok ty e \<Longrightarrow> decodes_to (enc e ty) (\<lambda>bs. dec bs ty) e"
    and element_suffix: "dec bs ty = Ok (e, rest) \<Longrightarrow> \<exists>p. bs = p @ rest"
begin

lemma io_roundtrip:
  assumes E: "decode_io_element_cb E = dec" "encode_io_element_cb E = enc"
    and ok: "io_ok E ok ty io"
  shows "decodes_to (encode_io E ty io) (decode_io E ty (length (io_elements io))) io"
proof -
  let ?n = "IoAddressSize_value (io_address_size E)"
  have addr: "0 \<le> io_address io" "io_address io < 256 ^ ?n"
    and els: "\<And>e. e \<in> set (io_elements io) \<Longrightarrow> ok ty e"
    using ok by (auto simp: io_ok_def list_all_iff)
  from els have "decodes_to (concatE (\<lambda>e. enc e ty) (io_elements io))
      (repeat_decode (\<lambda>bs. dec bs ty) (length (io_elements io))) (io_elements io)"
    by (intro decodes_to_repeat element_roundtrip)
  then obtain ys where ys: "concatE (\<lambda>e. enc e ty) (io_elements io) = Ok ys" "all_bytes ys"
    "\<forall>rest. repeat_decode (\<lambda>bs. dec bs ty) (length (io_elements io)) (wire ys @ rest) = Ok (io_elements io, rest)"
    by (rule decodes_toE)
  show ?thesis
  proof (cases "asdu_type_time_sizes E ty")
    case None
    with ok addr ys E show ?thesis
      by (intro decodes_toI [where ys = "le_digits ?n (io_address io) @ ys"])
        (auto simp: encode_io_def decode_io_def encode_int_def decode_int_append io_ok_def)
  next
    case (Some sz)
    with ok obtain t where t: "io_time io = Some t" "time_ok t" "time_size t = sz"
      by (auto simp: io_ok_def split: option.splits)
    then obtain ts where ts: "encode_time t sz = Ok ts" "length ts = TimeSize_value sz" "all_bytes ts"
      "\<And>rest. decode_time (wire ts @ rest) sz = Ok t"
      using encode_decode_time [of t sz] time_restrict_same [of t] by auto
    from Some t ts addr ys E show ?thesis
      by (intro decodes_toI [where ys = "le_digits ?n (io_address io) @ ys @ ts"])
        (auto simp: encode_io_def decode_io_def encode_int_def decode_int_append io_ok_def)
  qed
qed

lemma asdu_roundtrip:
  assumes E: "decode_io_element_cb E = dec" "encode_io_element_cb E = enc"
    and ok: "asdu_ok E ok asdu"
  shows "\<exists>bs. encode_asdu E asdu = Ok bs \<and> (\<forall>rest. decode_asdu E (bs @ rest) = Ok (asdu, rest))"
proof -
  let ?c = "CauseSize_value (cause_size E)" and ?a = "AsduAddressSize_value (asdu_address_size E)"
  let ?seq = "asdu_is_sequence asdu" and ?ty = "asdu_type asdu" and ?ios = "asdu_ios asdu"
  define number where "number = (if ?seq
    then (if inverted_sequence_bit E then 0 else 128) OR int (length (io_elements (hd ?ios)))
    else (if inverted_sequence_bit E then 128 else 0) OR int (length ?ios))"
  have fields: "is_byte ?ty" "0 \<le> asdu_cause asdu" "asdu_cause asdu < 256 ^ ?c"
    "0 \<le> asdu_address asdu" "asdu_address asdu < 256 ^ ?a"
    and ios: "\<And>io. io \<in> set ?ios \<Longrightarrow> io_ok E ok ?ty io"
    using ok by (auto simp: asdu_ok_def list_all_iff)
  define per where "per = (if ?seq then length (io_elements (hd ?ios)) else 1)"
  define cnt where "cnt = (if ?seq then 1 else length ?ios)"
  have per: "length (io_elements io) = per" if "io \<in> set ?ios" for io
    using ok that by (auto simp: per_def asdu_ok_def list_all_iff asdu_is_sequence_def length_Suc_conv split: if_splits)
  have cnt: "cnt = length ?ios"
    by (simp add: cnt_def asdu_is_sequence_def)
  let ?enc = "\<lambda>io. if \<not> ?seq \<and> length (io_elements io) \<noteq> 1
    then Raise (ValueError ''invalid number of IO elements'') else encode_io E ?ty io"
  have "decodes_to (?enc io) (decode_io E ?ty per) io" if "io \<in> set ?ios" for io
    using io_roundtrip [OF E ios [OF that]] per [OF that] by (simp add: per_def)
  then have "decodes_to (concatE ?enc ?ios) (repeat_decode (decode_io E ?ty per) (length ?ios)) ?ios"
    by (rule decodes_to_repeat)
  then obtain ys where ys: "concatE ?enc ?ios = Ok ys" "all_bytes ys"
    "\<forall>rest. repeat_decode (decode_io E ?ty per) cnt (wire ys @ rest) = Ok (?ios, rest)"
    unfolding cnt by (rule decodes_toE)
  have num: "is_byte number"
    "((number AND 128 \<noteq> 0) \<noteq> inverted_sequence_bit E) = ?seq"
    "nat (number AND 127) = (if ?seq then per else cnt)"
    using ok by (auto simp: number_def per_def cnt_def asdu_ok_def sequence_bit)
  let ?bs = "[?ty, number] @ le_digits ?c (asdu_cause asdu) @ le_digits ?a (asdu_address asdu) @ ys"
  have "encode_asdu E asdu = Ok (wire ?bs)"
    using fields num(1) ys by (simp add: encode_asdu_def encode_int_def number_def [symmetric] py_bytes_def)
  moreover have "decode_asdu E (wire ?bs @ rest) = Ok (asdu, rest)" for rest
    using fields num ys(3)
    by (cases "?seq"; cases "inverted_sequence_bit E")
      (simp_all add: decode_asdu_def uint_of_byte decode_int_append per_def cnt_def Let_def)
  ultimately show ?thesis by blast
qed

lemma decode_io_suffix:
  assumes E: "decode_io_element_cb E = dec" and d: "decode_io E ty n bs = Ok (io, rest)"
  shows "\<exists>p. bs = p @ rest"
proof -
  let ?k = "IoAddressSize_value (io_address_size E)"
  obtain els r j where r: "repeat_decode (\<lambda>bs. dec bs ty) n (drop ?k bs) = Ok (els, r)"
    and rest: "rest = drop j r"
  proof (cases "asdu_type_time_sizes E ty")
    case None
    with d that [of _ rest 0] show ?thesis
      by (auto simp: decode_io_def decode_int_def E)
  next
    case (Some sz)
    with d that [of _ _ "TimeSize_value sz"] show ?thesis
      by (auto simp: decode_io_def decode_int_def E)
  qed
  have "\<exists>p. drop ?k bs = p @ r"
    by (rule repeat_decode_suffix [OF _ r]) (rule element_suffix)
  then obtain p where "drop ?k bs = p @ r" ..
  then have "bs = (take ?k bs @ p) @ r" by (metis append.assoc append_take_drop_id)
  with rest show ?thesis by (metis append.assoc append_take_drop_id)
qed

lemma decode_asdu_suffix:
  assumes E: "decode_io_element_cb E = dec" and d: "decode_asdu E bs = Ok (asdu, rest)"
  shows "\<exists>p. bs = p @ rest"
proof -
  from d obtain k n m where r: "repeat_decode (decode_io E (asdu_type asdu) n) m (drop k bs) = Ok (asdu_ios asdu, rest)"
    by (auto simp: decode_asdu_def decode_int_def Let_def)
  have "\<exists>p. drop k bs = p @ rest"
    by (rule repeat_decode_suffix [OF _ r]) (rule decode_io_suffix [OF E])
  then obtain p where "drop k bs = p @ rest" ..
  then have "bs = (take k bs @ p) @ rest" by (metis append.assoc append_take_drop_id)
  then show ?thesis by blast
qed

end

section \<open>Properties\<close>

text \<open>
  A time tag encoded in its own format or a shorter one takes as many bytes as the format
  says and is decoded to the fields that the format carries; a longer format is refused.
\<close>

lemma time_roundtrip:
  assumes "time_ok t"
  shows "if TimeSize_value sz \<le> TimeSize_value (time_size t)
    then \<exists>xs. encode_time t sz = Ok xs \<and> length xs = TimeSize_value sz \<and> all_bytes xs \<and>
      (\<forall>rest. decode_time (wire xs @ rest) sz = Ok (time_restrict sz t))
    else \<exists>x. encode_time t sz = Raise x"
  using encode_decode_time [OF assms, of sz] by (simp add: encode_time_def)

text \<open>
  The number of objects is not checked: a data unit of 128 objects with one element each is
  encoded with the sequence bit set instead, and is not decoded to itself.
\<close>

lemma object_count_unchecked:
  assumes "length (asdu_ios asdu) = 128" "\<not> inverted_sequence_bit enc" "encode_asdu enc asdu = Ok bs"
  shows "\<forall>asdu' rest. decode_asdu enc bs = Ok (asdu', rest) \<longrightarrow> length (asdu_ios asdu') = 1 \<and> asdu' \<noteq> asdu"
proof (intro allI impI)
  fix asdu' rest
  assume d: "decode_asdu enc bs = Ok (asdu', rest)"
  have "\<not> asdu_is_sequence asdu" using assms(1) by (simp add: asdu_is_sequence_def)
  with assms obtain xs where bs: "bs = word_of_int (asdu_type asdu) # 128 # xs"
    by (auto simp: encode_asdu_def appendE_Ok_iff py_bytes_Ok_iff Let_def)
  then have "byte_at bs 1 = Ok 128" by (simp add: uint_of_byte is_byte_num)
  with d assms(2) have "length (asdu_ios asdu') = 1"
    by (auto simp: decode_asdu_def Let_def split: prod.splits dest!: repeat_decode_length)
  with assms(1) show "length (asdu_ios asdu') = 1 \<and> asdu' \<noteq> asdu" by auto
qed

lemma repeat_decode_all:
  assumes "repeat_decode dec n bs = Ok (xs, rest)" "\<And>bs x r. dec bs = Ok (x, r) \<Longrightarrow> P x"
  shows "\<forall>x\<in>set xs. P x"
  using assms(1) by (induction n arbitrary: bs xs) (auto dest: assms(2))

lemma decode_asdu_counts:
  assumes "decode_asdu enc bs = Ok (asdu, rest)"
  shows "length (asdu_ios asdu) \<le> 127 \<and> (\<forall>io\<in>set (asdu_ios asdu). length (io_elements io) \<le> 127) \<and> 2 \<le> length bs"
proof -
  from assms obtain b1 sq ds where b1: "byte_at bs 1 = Ok b1"
    and r: "repeat_decode (decode_io enc (asdu_type asdu) (if sq then nat (b1 AND 127) else 1))
      (if sq then 1 else nat (b1 AND 127)) ds = Ok (asdu_ios asdu, rest)"
    by (auto simp: decode_asdu_def decode_int_def Let_def split del: if_split)
  define n m where "n = (if sq then nat (b1 AND 127) else 1)" and "m = (if sq then 1 else nat (b1 AND 127))"
  note r = r [folded n_def m_def]
  have "nat (b1 AND 127) \<le> 127" using pos_mod_bound [of 128 b1] by (simp add: mask_mod nat_le_iff)
  then have "n \<le> 127" "m \<le> 127" by (simp_all add: n_def m_def)
  moreover have "length (io_elements io) = n" if "decode_io enc ty n bs = Ok (io, r)" for ty bs io r
    using that by (auto simp: decode_io_def Let_def dest!: repeat_decode_length split: prod.splits option.splits)
  with repeat_decode_all [OF r, of "\<lambda>io. length (io_elements io) = n"]
  have "\<forall>io\<in>set (asdu_ios asdu). length (io_elements io) = n" by blast
  moreover have "2 \<le> length bs" using b1 by (auto simp: byte_at_Ok_iff)
  ultimately show ?thesis using repeat_decode_length [OF r] by auto
qed

end
