(* ===== verification/Py_Float.thy ===== *)
theory Py_Float
  imports Prelude
begin

text \<open>
  Python floats, as far as the drivers use them: the true division of two integers, the
  product with an integer, \<open>round\<close>, and \<open>struct.pack\<close>/\<open>struct.unpack\<close> with the formats \<open>'<f'\<close>
  and \<open>'<d'\<close>.

  A Python float is an IEEE 754 double. \<open>pyfloat\<close> holds the value of a finite one as a
  rational number; negative zero, the infinities and NaN (whose payload is not kept) are
  constructors of their own. \<open>round_prec p emin\<close> rounds a rational to the nearest number
  \<open>m * 2 powi e\<close> with \<open>\<bar>m\<bar> \<le> 2 ^ p\<close> and \<open>emin \<le> e\<close>, ties to even: with \<open>p = 53\<close> and
  \<open>emin = -1074\<close> that is the double format, with \<open>p = 24\<close> and \<open>emin = -149\<close> the single
  format that \<open>'<f'\<close> stores; \<open>'<d'\<close> stores the double format.

  The main results are the two round trips \<open>unpack_pack\<close> and \<open>pack_unpack\<close>, proved in the locale \<open>float_format\<close> for any
  format and interpreted by \<open>single\<close> and \<open>double\<close>, and the error bound \<open>round_prec_error\<close>.
\<close>

section \<open>Values\<close>

datatype pyfloat = Finite rat | NegZero | Infinity bool | NaN

section \<open>Rounding\<close>

definition round_half_even :: "rat \<Rightarrow> int" where
  "round_half_even x =
     (let f = \<lfloor>x\<rfloor>; d = x - of_int f in
      if d < 1 / 2 then f else if 1 / 2 < d then f + 1 else if even f then f else f + 1)"

fun bit_length :: "nat \<Rightarrow> nat" where
  "bit_length n = (if n = 0 then 0 else Suc (bit_length (n div 2)))"

declare bit_length.simps [simp del]

text \<open>The exponent of the leading binary digit of a positive rational.\<close>

definition flog2 :: "rat \<Rightarrow> int" where
  "flog2 x =
     (let (p, q) = quotient_of x; k = int (bit_length (nat p)) - int (bit_length (nat q)) in
      if x < 2 powi k then k - 1 else k)"

definition round_prec :: "nat \<Rightarrow> int \<Rightarrow> rat \<Rightarrow> rat" where
  "round_prec p emin x =
     (if x = 0 then 0
      else let e = max emin (flog2 \<bar>x\<bar> - int p + 1) in
        of_int (round_half_even (x / 2 powi e)) * 2 powi e)"

section \<open>Operations\<close>

definition to_double :: "rat \<Rightarrow> pyfloat" where
  "to_double x =
     (let r = round_prec 53 (-1074) x in
      if 2 ^ 1024 \<le> \<bar>r\<bar> then Infinity (r < 0)
      else if r = 0 \<and> x < 0 then NegZero else Finite r)"

definition int_truediv :: "int \<Rightarrow> int \<Rightarrow> pyfloat" where
  "int_truediv n d = to_double (of_int n / of_int d)"

text \<open>The product with a positive integer below \<open>2 ^ 53\<close>, which converts exactly.\<close>

fun float_times :: "pyfloat \<Rightarrow> int \<Rightarrow> pyfloat" where
  "float_times (Finite x) n = to_double (x * of_int n)"
| "float_times NegZero n = NegZero"
| "float_times (Infinity s) n = Infinity s"
| "float_times NaN n = NaN"

text \<open>The quotient by such an integer, and the sum with one.\<close>

fun float_over :: "pyfloat \<Rightarrow> int \<Rightarrow> pyfloat" where
  "float_over (Finite x) n = to_double (x / of_int n)"
| "float_over NegZero n = NegZero"
| "float_over (Infinity s) n = Infinity s"
| "float_over NaN n = NaN"

fun int_plus_float :: "int \<Rightarrow> pyfloat \<Rightarrow> pyfloat" where
  "int_plus_float n (Finite x) = to_double (of_int n + x)"
| "int_plus_float n NegZero = to_double (of_int n)"
| "int_plus_float n (Infinity s) = Infinity s"
| "int_plus_float n NaN = NaN"

text \<open>\<open>int(x)\<close> cuts the fraction off.\<close>

fun py_int :: "pyfloat \<Rightarrow> int result" where
  "py_int (Finite x) = Ok (if x < 0 then \<lceil>x\<rceil> else \<lfloor>x\<rfloor>)"
| "py_int NegZero = Ok 0"
| "py_int (Infinity s) = Raise (OverflowError ''cannot convert float infinity to integer'')"
| "py_int NaN = Raise (ValueError ''cannot convert float NaN to integer'')"

fun py_round :: "pyfloat \<Rightarrow> int result" where
  "py_round (Finite x) = Ok (round_half_even x)"
| "py_round NegZero = Ok 0"
| "py_round (Infinity s) = Raise (OverflowError ''cannot convert float infinity to integer'')"
| "py_round NaN = Raise (ValueError ''cannot convert float NaN to integer'')"

section \<open>The single and the double format\<close>

text \<open>
  A format has \<open>mb\<close> bits for the mantissa, \<open>eb\<close> for the exponent and one for the sign, in \<open>n\<close>
  bytes: 23, 8 and 4 in the single format of \<open>'<f'\<close>, 52, 11 and 8 in the double format of \<open>'<d'\<close>.
  \<open>min_exponent mb eb\<close> is the exponent of its smallest positive number.
\<close>

definition min_exponent :: "nat \<Rightarrow> nat \<Rightarrow> int" where
  "min_exponent mb eb = 2 - 2 ^ (eb - 1) - int mb"

definition float_of_bits :: "nat \<Rightarrow> nat \<Rightarrow> int \<Rightarrow> pyfloat" where
  "float_of_bits mb eb w =
     (let s = odd (w div 2 ^ (mb + eb)); e = w div 2 ^ mb mod 2 ^ eb; m = w mod 2 ^ mb;
          sg = (if s then -1 else 1)
      in if e = 2 ^ eb - 1 then (if m = 0 then Infinity s else NaN)
         else if e = 0 then
           (if m = 0 then (if s then NegZero else Finite 0)
            else Finite (sg * (of_int m * 2 powi min_exponent mb eb)))
         else Finite (sg * (of_int (m + 2 ^ mb) * 2 powi (min_exponent mb eb + e - 1))))"

definition bits_of_finite :: "nat \<Rightarrow> nat \<Rightarrow> rat \<Rightarrow> int" where
  "bits_of_finite mb eb r =
     (let s = (if r < 0 then 2 ^ (mb + eb) else 0); a = \<bar>r\<bar> in
      if a < 2 powi (min_exponent mb eb + int mb) then s + \<lfloor>a / 2 powi min_exponent mb eb\<rfloor>
      else let k = flog2 a in
        s + (k - min_exponent mb eb - int mb + 1) * 2 ^ mb + (\<lfloor>a / 2 powi (k - int mb)\<rfloor> - 2 ^ mb))"

definition unpack_format :: "nat \<Rightarrow> nat \<Rightarrow> nat \<Rightarrow> bytes \<Rightarrow> pyfloat result" where
  "unpack_format mb eb n bs =
     (if length bs = n then Ok (float_of_bits mb eb (from_le bs))
      else Raise (StructError ''unpack requires a buffer of another size''))"

fun pack_format :: "nat \<Rightarrow> nat \<Rightarrow> nat \<Rightarrow> pyfloat \<Rightarrow> int list result" where
  "pack_format mb eb n (Finite x) =
     (let r = round_prec (mb + 1) (min_exponent mb eb) x in
      if 2 powi (2 ^ (eb - 1)) \<le> \<bar>r\<bar> then Raise (OverflowError ''float too large to pack'')
      else if r = 0 \<and> x < 0 then Ok (le_digits n (2 ^ (mb + eb)))
      else Ok (le_digits n (bits_of_finite mb eb r)))"
| "pack_format mb eb n NegZero = Ok (le_digits n (2 ^ (mb + eb)))"
| "pack_format mb eb n (Infinity s) = Ok (le_digits n ((if s then 2 ^ (mb + eb) else 0) + (2 ^ eb - 1) * 2 ^ mb))"
| "pack_format mb eb n NaN = Ok (le_digits n ((2 ^ eb - 1) * 2 ^ mb + 2 ^ (mb - 1)))"

text \<open>The floats that a format represents exactly.\<close>

fun in_format :: "nat \<Rightarrow> nat \<Rightarrow> pyfloat \<Rightarrow> bool" where
  "in_format mb eb (Finite x) \<longleftrightarrow> round_prec (mb + 1) (min_exponent mb eb) x = x \<and> \<bar>x\<bar> < 2 powi (2 ^ (eb - 1))"
| "in_format mb eb NegZero \<longleftrightarrow> True"
| "in_format mb eb (Infinity s) \<longleftrightarrow> True"
| "in_format mb eb NaN \<longleftrightarrow> True"

abbreviation unpack_float :: "bytes \<Rightarrow> pyfloat result" where
  "unpack_float \<equiv> unpack_format 23 8 4"

abbreviation pack_float :: "pyfloat \<Rightarrow> int list result" where
  "pack_float \<equiv> pack_format 23 8 4"

abbreviation is_single :: "pyfloat \<Rightarrow> bool" where
  "is_single \<equiv> in_format 23 8"

abbreviation unpack_double :: "bytes \<Rightarrow> pyfloat result" where
  "unpack_double \<equiv> unpack_format 52 11 8"

abbreviation pack_double :: "pyfloat \<Rightarrow> int list result" where
  "pack_double \<equiv> pack_format 52 11 8"

abbreviation is_double :: "pyfloat \<Rightarrow> bool" where
  "is_double \<equiv> in_format 52 11"

section \<open>Rounding to an integer\<close>

lemma round_half_even_int [simp]: "round_half_even (of_int n) = n"
  by (simp add: round_half_even_def)

lemma round_half_even_0 [simp]: "round_half_even 0 = 0"
  using round_half_even_int [of 0] by simp

lemma round_half_even_error: "\<bar>of_int (round_half_even x) - x\<bar> \<le> 1 / 2"
proof -
  have "of_int \<lfloor>x\<rfloor> \<le> x" "x < of_int \<lfloor>x\<rfloor> + 1"
    by linarith+
  then show ?thesis by (auto simp: round_half_even_def Let_def)
qed

lemma round_half_even_near:
  assumes "\<bar>x - of_int n\<bar> < 1 / 2"
  shows "round_half_even x = n"
proof -
  have "\<bar>of_int (round_half_even x) - of_int n :: rat\<bar> < 1"
    using round_half_even_error [of x] assms by linarith
  then have "\<bar>of_int (round_half_even x - n) :: rat\<bar> < 1" by simp
  then show ?thesis by linarith
qed

section \<open>The leading digit\<close>

lemma bit_length_bounds: "0 < n \<Longrightarrow> 2 ^ (bit_length n - 1) \<le> n \<and> n < 2 ^ bit_length n \<and> 0 < bit_length n"
proof (induction n rule: bit_length.induct)
  case (1 n)
  show ?case
  proof (cases "n div 2 = 0")
    case True
    with 1 have "n = 1" by simp
    then show ?thesis by (simp add: bit_length.simps)
  next
    case False
    with 1 have IH: "2 ^ (bit_length (n div 2) - 1) \<le> n div 2" "n div 2 < 2 ^ bit_length (n div 2)"
      "0 < bit_length (n div 2)" by auto
    have "bit_length n = Suc (bit_length (n div 2))"
      using 1 by (simp add: bit_length.simps [of n])
    moreover have "2 * 2 ^ (bit_length (n div 2) - 1) = (2::nat) ^ bit_length (n div 2)"
      using IH(3) by (metis Suc_diff_1 power_Suc)
    ultimately show ?thesis using IH by simp linarith
  qed
qed

lemma powi_less_imp_less: "(2::rat) powi a < 2 powi b \<Longrightarrow> a < b"
  using power_int_increasing [of b a "2::rat"] by (meson leD leI one_le_numeral)

lemma powi_not_le_0 [simp]: "\<not> (2::rat) powi k \<le> 0"
  by (simp add: not_le)

lemma power_int_le_quot:
  fixes a b :: nat
  assumes "2 ^ i \<le> a" "0 < b" "b < 2 ^ j"
  shows "2 powi (int i - int j) \<le> (of_nat a / of_nat b :: rat)"
proof -
  have "(2 ^ i :: rat) \<le> of_nat a" "(of_nat b :: rat) \<le> 2 ^ j"
    using assms by (metis of_nat_le_iff of_nat_numeral of_nat_power)
      (metis assms(3) less_imp_le of_nat_le_iff of_nat_numeral of_nat_power)
  then have "(2 ^ i :: rat) / 2 ^ j \<le> of_nat a / of_nat b"
    using assms by (intro frac_le) auto
  then show ?thesis by (simp add: power_int_diff)
qed

lemma power_int_gt_quot:
  fixes a b :: nat
  assumes "a < 2 ^ i" "2 ^ j \<le> b"
  shows "(of_nat a / of_nat b :: rat) < 2 powi (int i - int j)"
proof -
  have "(of_nat a :: rat) < 2 ^ i" "(2 ^ j :: rat) \<le> of_nat b"
    using assms by (metis of_nat_less_iff of_nat_numeral of_nat_power)
      (metis assms(2) of_nat_le_iff of_nat_numeral of_nat_power)
  then have "of_nat a / of_nat b < (2 ^ i :: rat) / 2 ^ j"
    by (intro frac_less) auto
  then show ?thesis by (simp add: power_int_diff)
qed

lemma flog2_bounds:
  assumes "0 < x"
  shows "2 powi flog2 x \<le> x" "x < 2 powi (flog2 x + 1)"
proof -
  obtain p q where pq: "quotient_of x = (p, q)" by (cases "quotient_of x")
  have q: "0 < q" and x: "x = of_int p / of_int q"
    using pq by (auto intro: quotient_of_denom_pos quotient_of_div)
  have p: "0 < p"
    using assms q x by (simp add: zero_less_divide_iff)
  define i j where "i = bit_length (nat p)" and "j = bit_length (nat q)"
  have i: "2 ^ (i - 1) \<le> nat p" "nat p < 2 ^ i" "0 < i"
    and j: "2 ^ (j - 1) \<le> nat q" "nat q < 2 ^ j" "0 < j"
    using bit_length_bounds [of "nat p"] bit_length_bounds [of "nat q"] p q
    by (auto simp: i_def j_def)
  have xn: "x = of_nat (nat p) / of_nat (nat q)"
    using p q x by simp
  have lo: "2 powi (int i - int j - 1) \<le> x"
    using power_int_le_quot [OF i(1) _ j(2)] q i(3) xn
    by (simp add: algebra_simps)
  have hi: "x < 2 powi (int i - int j + 1)"
    using power_int_gt_quot [OF i(2) j(1)] j(3) xn
    by (simp add: algebra_simps)
  show "2 powi flog2 x \<le> x" "x < 2 powi (flog2 x + 1)"
    using lo hi by (auto simp: flog2_def pq i_def [symmetric] j_def [symmetric] Let_def)
qed

lemma flog2_eq:
  assumes "2 powi k \<le> x" "x < 2 powi (k + 1)"
  shows "flog2 x = k"
proof -
  have pos: "0 < x"
    using assms(1) by (meson less_le_trans zero_less_numeral zero_less_power_int)
  have "(2::rat) powi flog2 x < 2 powi (k + 1)" "(2::rat) powi k < 2 powi (flog2 x + 1)"
    using flog2_bounds [OF pos] assms by linarith+
  then have "flog2 x < k + 1" "k < flog2 x + 1"
    by (auto dest: powi_less_imp_less)
  then show ?thesis by simp
qed

section \<open>Rounding to a precision\<close>

lemma round_prec_error:
  assumes "\<bar>x\<bar> < 2 powi k" "emin \<le> k - int p"
  shows "\<bar>round_prec p emin x - x\<bar> \<le> 2 powi (k - int p) / 2"
proof (cases "x = 0")
  case True
  then show ?thesis by (simp add: round_prec_def)
next
  case False
  define e where "e = max emin (flog2 \<bar>x\<bar> - int p + 1)"
  have "(2::rat) powi flog2 \<bar>x\<bar> < 2 powi k"
    using flog2_bounds(1) [of "\<bar>x\<bar>"] False assms(1) by linarith
  then have "flog2 \<bar>x\<bar> < k" by (rule powi_less_imp_less)
  then have e: "e \<le> k - int p" using assms(2) by (simp add: e_def)
  have pos: "(0::rat) < 2 powi e" by simp
  have "round_prec p emin x - x = (of_int (round_half_even (x / 2 powi e)) - x / 2 powi e) * 2 powi e"
    using False by (simp add: round_prec_def e_def Let_def algebra_simps)
  then have "\<bar>round_prec p emin x - x\<bar>
      = \<bar>of_int (round_half_even (x / 2 powi e)) - x / 2 powi e\<bar> * 2 powi e"
    by (simp add: abs_mult)
  also have "\<dots> \<le> 1 / 2 * 2 powi e"
    by (intro mult_right_mono round_half_even_error) simp
  also have "\<dots> \<le> 1 / 2 * 2 powi (k - int p)"
    using e by (simp add: power_int_increasing)
  finally show ?thesis by simp
qed

lemma round_prec_exact:
  assumes x: "x = of_int m * 2 powi e" and e: "max emin (flog2 \<bar>x\<bar> - int p + 1) \<le> e"
  shows "round_prec p emin x = x"
proof (cases "x = 0")
  case True
  then show ?thesis by (simp add: round_prec_def)
next
  case False
  define e' where "e' = max emin (flog2 \<bar>x\<bar> - int p + 1)"
  have "x / 2 powi e' = of_int m * 2 powi (e - e')"
    using x by (simp add: power_int_diff)
  also have "\<dots> = of_int (m * 2 ^ nat (e - e'))"
    using e by (simp add: e'_def [symmetric] power_int_def)
  finally have q: "x / 2 powi e' = of_int (m * 2 ^ nat (e - e'))" .
  then have "of_int (round_half_even (x / 2 powi e')) * 2 powi e' = x / 2 powi e' * 2 powi e'"
    by (simp only: round_half_even_int)
  with False show ?thesis
    by (simp add: round_prec_def e'_def [symmetric] Let_def)
qed

section \<open>Round trips of a format\<close>

lemma fixed_point_scaled:
  assumes "round_prec p emin x = x" "x \<noteq> 0"
  defines "e \<equiv> max emin (flog2 \<bar>x\<bar> - int p + 1)"
  obtains n where "\<bar>x\<bar> = of_int n * 2 powi e" "0 < n"
proof -
  define m where "m = round_half_even (x / 2 powi e)"
  have "x = of_int m * 2 powi e"
    using assms by (simp add: round_prec_def Let_def m_def)
  then have "\<bar>x\<bar> = of_int \<bar>m\<bar> * 2 powi e" "0 < \<bar>m\<bar>"
    using assms(2) by (auto simp: abs_mult)
  then show thesis by (rule that)
qed

locale float_format =
  fixes mb eb n :: nat
  assumes exponent_bits: "2 \<le> eb" and mantissa_bits: "0 < mb" and bytes: "mb + eb + 1 = 8 * n"
begin

lemma exponent_half: "(2::int) ^ eb = 2 * 2 ^ (eb - 1)" "(2::int) \<le> 2 ^ (eb - 1)"
  using exponent_bits power_increasing [of 1 "eb - 1" "2::int"] by (simp_all flip: power_Suc)

lemma format_size: "(256::int) ^ n = 2 ^ (mb + eb) * 2" "(2::int) ^ (mb + eb) = 2 ^ mb * 2 ^ eb"
proof -
  have "(256::int) ^ n = 2 ^ (8 * n)" by (simp add: power_mult)
  also have "\<dots> = 2 ^ (mb + eb) * 2" unfolding bytes [symmetric] by simp
  finally show "(256::int) ^ n = 2 ^ (mb + eb) * 2" .
qed (simp add: power_add)

lemma bit_fields:
  fixes sb ex m :: int
  assumes "0 \<le> sb" "0 \<le> ex" "ex < 2 ^ eb" "0 \<le> m" "m < 2 ^ mb"
  defines "w \<equiv> sb * 2 ^ (mb + eb) + ex * 2 ^ mb + m"
  shows "w div 2 ^ (mb + eb) = sb" "w div 2 ^ mb mod 2 ^ eb = ex" "w mod 2 ^ mb = m"
proof -
  have eq: "w = m + (sb * 2 ^ eb + ex) * 2 ^ mb"
    by (simp add: w_def algebra_simps power_add)
  have d: "w div 2 ^ mb = sb * 2 ^ eb + ex"
    using assms(4,5) unfolding eq by (subst div_mult_self1) simp_all
  show "w mod 2 ^ mb = m"
    using assms(4,5) unfolding eq by (subst mod_mult_self1) simp
  show "w div 2 ^ mb mod 2 ^ eb = ex"
    unfolding d using assms(2,3) by simp
  have "w div 2 ^ (mb + eb) = w div 2 ^ mb div 2 ^ eb"
    by (simp add: zdiv_zmult2_eq power_add)
  then show "w div 2 ^ (mb + eb) = sb"
    using d assms by simp
qed

lemma float_of_bits_of_finite:
  assumes fp: "round_prec (mb + 1) (min_exponent mb eb) r = r" and "r \<noteq> 0" and lt: "\<bar>r\<bar> < 2 powi (2 ^ (eb - 1))"
  shows "float_of_bits mb eb (bits_of_finite mb eb r) = Finite r"
    and "0 \<le> bits_of_finite mb eb r" and "bits_of_finite mb eb r < 256 ^ n"
proof -
  define k where "k = flog2 \<bar>r\<bar>"
  define sb :: int where "sb = (if r < 0 then 1 else 0)"
  define E where "E = min_exponent mb eb"
  have sgr: "(if odd sb then -1 else 1) * \<bar>r\<bar> = r"
    by (simp add: sb_def)
  have sb01: "0 \<le> sb" "sb \<le> 1" by (simp_all add: sb_def)
  have k: "2 powi k \<le> \<bar>r\<bar>" "\<bar>r\<bar> < 2 powi (k + 1)"
    using flog2_bounds [of "\<bar>r\<bar>"] \<open>r \<noteq> 0\<close> by (simp_all add: k_def)
  obtain q where q: "\<bar>r\<bar> = of_int q * 2 powi max E (k - int mb)" "0 < q"
    using fixed_point_scaled [OF fp \<open>r \<noteq> 0\<close>] by (auto simp: k_def E_def)
  have range: "0 \<le> sb * 2 ^ (mb + eb) + ex * 2 ^ mb + m \<and> sb * 2 ^ (mb + eb) + ex * 2 ^ mb + m < 256 ^ n"
    if "0 \<le> ex" "ex < 2 ^ eb" "0 \<le> m" "m < 2 ^ mb" for ex m
  proof -
    have "ex * 2 ^ mb + m < (ex + 1) * 2 ^ mb" using that by (simp add: algebra_simps)
    also have "\<dots> \<le> 2 ^ eb * 2 ^ mb" using that by (intro mult_right_mono) simp_all
    finally have "ex * 2 ^ mb + m < 2 ^ (mb + eb)" by (simp add: power_add mult.commute)
    moreover have "0 \<le> sb * 2 ^ (mb + eb)" "sb * 2 ^ (mb + eb) \<le> 2 ^ (mb + eb)" "0 \<le> ex * 2 ^ mb"
      using sb01 that by simp_all
    ultimately show ?thesis using that(3) unfolding format_size(1) by linarith
  qed
  have "float_of_bits mb eb (bits_of_finite mb eb r) = Finite r \<and> 0 \<le> bits_of_finite mb eb r \<and> bits_of_finite mb eb r < 256 ^ n"
  proof (cases "\<bar>r\<bar> < 2 powi (E + int mb)")
    case True
    have "(2::rat) powi k < 2 powi (E + int mb)" using k(1) True by linarith
    then have "k < E + int mb" by (rule powi_less_imp_less)
    then have rq: "\<bar>r\<bar> = of_int q * 2 powi E"
      using q(1) by simp
    have "of_int q * (2::rat) powi E < of_int (2 ^ mb) * 2 powi E"
      using True unfolding rq by (simp add: power_int_add mult.commute)
    then have qm: "q < 2 ^ mb" by (simp only: mult_less_cancel_right of_int_less_iff) auto
    have "\<lfloor>\<bar>r\<bar> / 2 powi E\<rfloor> = q" unfolding rq by simp
    then have w: "bits_of_finite mb eb r = sb * 2 ^ (mb + eb) + 0 * 2 ^ mb + q"
      using True by (simp add: bits_of_finite_def sb_def Let_def E_def)
    note f = bit_fields [of sb 0 q, folded w]
    have "float_of_bits mb eb (bits_of_finite mb eb r) = Finite r"
      using f q(2) qm sgr rq exponent_half sb01 by (simp add: float_of_bits_def Let_def E_def)
    then show ?thesis using range [of 0 q] w q(2) qm by simp
  next
    case False
    have "(2::rat) powi (E + int mb) < 2 powi (k + 1)" using k(2) False by linarith
    then have k1: "E + int mb \<le> k" using powi_less_imp_less by fastforce
    have "(2::rat) powi k < 2 powi (2 ^ (eb - 1))" using k(1) lt by simp
    then have k2: "k < 2 ^ (eb - 1)" by (rule powi_less_imp_less)
    have rq: "\<bar>r\<bar> = of_int q * 2 powi (k - int mb)"
      using q(1) k1 by simp
    have sp: "(2::rat) powi k = of_int (2 ^ mb) * 2 powi (k - int mb)"
      "(2::rat) powi (k + 1) = of_int (2 ^ (mb + 1)) * 2 powi (k - int mb)"
      by (simp_all add: power_int_diff power_int_add)
    have q1: "2 ^ mb \<le> q" and q2: "q < 2 ^ (mb + 1)"
      using k unfolding rq sp by (simp_all only: mult_le_cancel_right mult_less_cancel_right of_int_le_iff of_int_less_iff) auto
    define ex where "ex = k - E - int mb + 1"
    have ex: "0 < ex" "ex < 2 ^ eb - 1" using k1 k2 exponent_half by (simp_all add: ex_def E_def min_exponent_def)
    have "\<lfloor>\<bar>r\<bar> / 2 powi (k - int mb)\<rfloor> = q"
      unfolding rq by simp
    then have w: "bits_of_finite mb eb r = sb * 2 ^ (mb + eb) + ex * 2 ^ mb + (q - 2 ^ mb)"
      using False by (simp add: bits_of_finite_def sb_def k_def ex_def E_def Let_def)
    have m: "0 \<le> q - 2 ^ mb" "q - 2 ^ mb < 2 ^ mb" using q1 q2 by simp_all
    have "ex < 2 ^ eb" using ex by simp
    note f = bit_fields [OF sb01(1) less_imp_le [OF ex(1)] this m, folded w]
    have "E + ex - 1 = k - int mb" by (simp add: ex_def)
    then have "float_of_bits mb eb (bits_of_finite mb eb r) = Finite r"
      using f ex sgr rq by (simp add: float_of_bits_def Let_def E_def [symmetric])
    then show ?thesis using range [of ex "q - 2 ^ mb"] w ex m by simp
  qed
  then show "float_of_bits mb eb (bits_of_finite mb eb r) = Finite r"
    "0 \<le> bits_of_finite mb eb r" "bits_of_finite mb eb r < 256 ^ n" by blast+
qed

lemma unpack_format_digits:
  assumes "0 \<le> w" "w < 256 ^ n"
  shows "unpack_format mb eb n (wire (le_digits n w)) = Ok (float_of_bits mb eb w)"
  using assms by (simp add: unpack_format_def from_le_wire_digits)

lemma special_bits:
  "float_of_bits mb eb (2 ^ (mb + eb)) = NegZero"
  "float_of_bits mb eb ((if s then 2 ^ (mb + eb) else 0) + (2 ^ eb - 1) * 2 ^ mb) = Infinity s"
  "float_of_bits mb eb ((2 ^ eb - 1) * 2 ^ mb + 2 ^ (mb - 1)) = NaN"
  "float_of_bits mb eb 0 = Finite 0"
  "(2::int) ^ (mb + eb) < 256 ^ n"
  "(if s then 2 ^ (mb + eb) else 0) + (2 ^ eb - 1) * 2 ^ mb < (256::int) ^ n"
  "(2 ^ eb - 1) * 2 ^ mb + 2 ^ (mb - 1) < (256::int) ^ n"
proof -
  have half: "(2::int) ^ (mb - 1) < 2 ^ mb" using mantissa_bits by (intro power_strict_increasing) simp_all
  show "float_of_bits mb eb (2 ^ (mb + eb)) = NegZero"
    using bit_fields [of 1 0 0] exponent_half by (simp add: float_of_bits_def Let_def)
  show "float_of_bits mb eb ((if s then 2 ^ (mb + eb) else 0) + (2 ^ eb - 1) * 2 ^ mb) = Infinity s"
    using bit_fields [of "if s then 1 else 0" "2 ^ eb - 1" 0] by (cases s) (simp_all add: float_of_bits_def Let_def)
  show "float_of_bits mb eb ((2 ^ eb - 1) * 2 ^ mb + 2 ^ (mb - 1)) = NaN"
    using bit_fields [of 0 "2 ^ eb - 1" "2 ^ (mb - 1)"] half by (simp add: float_of_bits_def Let_def)
  show "float_of_bits mb eb 0 = Finite 0" using exponent_half by (simp add: float_of_bits_def Let_def)
  show "(2::int) ^ (mb + eb) < 256 ^ n" by (simp add: format_size(1))
  have e: "(2 ^ eb - 1) * 2 ^ mb = 2 ^ (mb + eb) - (2::int) ^ mb" by (simp add: algebra_simps power_add)
  show "(if s then 2 ^ (mb + eb) else 0) + (2 ^ eb - 1) * 2 ^ mb < (256::int) ^ n"
    using zero_less_power [of "2::int" mb] zero_less_power [of "2::int" "mb + eb"]
    by (cases s) (simp_all only: e format_size(1) if_True if_False, linarith+)
  show "(2 ^ eb - 1) * 2 ^ mb + 2 ^ (mb - 1) < (256::int) ^ n"
    using half zero_less_power [of "2::int" "mb + eb"] unfolding e format_size(1) by linarith
qed

lemma unpack_pack:
  assumes "in_format mb eb v"
  shows "\<exists>ds. pack_format mb eb n v = Ok ds \<and> length ds = n \<and> all_bytes ds \<and> unpack_format mb eb n (wire ds) = Ok v"
proof (cases v)
  case (Finite x)
  show ?thesis
  proof (cases "x = 0")
    case True
    have "bits_of_finite mb eb 0 = 0" by (simp add: bits_of_finite_def)
    with True Finite special_bits(4) unpack_format_digits [of 0] show ?thesis by (simp add: round_prec_def)
  next
    case False
    with Finite assms float_of_bits_of_finite [of x] unpack_format_digits [of "bits_of_finite mb eb x"]
    show ?thesis by (simp add: Let_def)
  qed
next
  case NegZero
  with special_bits(1,5) unpack_format_digits show ?thesis by simp
next
  case (Infinity s)
  have "0 \<le> (if s then 2 ^ (mb + eb) else 0) + (2 ^ eb - 1) * (2::int) ^ mb" by simp
  from unpack_format_digits [OF this special_bits(6)] Infinity special_bits(2) show ?thesis by simp
next
  case NaN
  have "0 \<le> (2 ^ eb - 1) * 2 ^ mb + (2::int) ^ (mb - 1)" by simp
  from unpack_format_digits [OF this special_bits(7)] NaN special_bits(3) show ?thesis by simp
qed

lemma bits_decompose:
  fixes w :: int
  assumes "0 \<le> w" "w < 256 ^ n"
  obtains sb ex m where "w = sb * 2 ^ (mb + eb) + ex * 2 ^ mb + m" "sb = 0 \<or> sb = 1"
    "0 \<le> ex" "ex < 2 ^ eb" "0 \<le> m" "m < 2 ^ mb"
proof
  show "w = (w div 2 ^ (mb + eb)) * 2 ^ (mb + eb) + (w div 2 ^ mb mod 2 ^ eb) * 2 ^ mb + w mod 2 ^ mb"
  proof -
    have "w div 2 ^ (mb + eb) = w div 2 ^ mb div 2 ^ eb"
      by (simp add: zdiv_zmult2_eq power_add)
    then have "(w div 2 ^ (mb + eb)) * 2 ^ eb + w div 2 ^ mb mod 2 ^ eb = w div 2 ^ mb"
      by (simp only: div_mult_mod_eq)
    then have "((w div 2 ^ (mb + eb)) * 2 ^ eb + w div 2 ^ mb mod 2 ^ eb) * 2 ^ mb + w mod 2 ^ mb = w"
      by (simp only: div_mult_mod_eq)
    then show ?thesis by (simp add: algebra_simps power_add)
  qed
  have "0 \<le> w div 2 ^ (mb + eb)"
    using assms(1) by (simp add: pos_imp_zdiv_nonneg_iff)
  moreover have "w div 2 ^ (mb + eb) < 2"
  proof (rule ccontr)
    assume "\<not> ?thesis"
    then have "2 * 2 ^ (mb + eb) \<le> w div 2 ^ (mb + eb) * 2 ^ (mb + eb)" by (intro mult_right_mono) simp_all
    also have "\<dots> \<le> w" using div_mult_mod_eq [of w "2 ^ (mb + eb)"] pos_mod_sign [OF zero_less_power [of "2 :: int" "mb + eb"], of w] by linarith
    finally show False using assms(2) by (simp add: format_size(1))
  qed
  ultimately show "w div 2 ^ (mb + eb) = 0 \<or> w div 2 ^ (mb + eb) = 1" by linarith
qed simp_all

lemma bits_of_finite_of_bits:
  assumes w: "w = sb * 2 ^ (mb + eb) + ex * 2 ^ mb + m" and sb: "sb = 0 \<or> sb = 1"
    and ex: "0 \<le> ex" "ex < 2 ^ eb - 1" and m: "0 \<le> m" "m < 2 ^ mb" and nz: "ex \<noteq> 0 \<or> m \<noteq> 0"
  obtains x where "float_of_bits mb eb w = Finite x" "x \<noteq> 0" "round_prec (mb + 1) (min_exponent mb eb) x = x"
    "\<bar>x\<bar> < 2 powi (2 ^ (eb - 1))" "bits_of_finite mb eb x = w"
proof -
  define E where "E = min_exponent mb eb"
  define N where "N = (if ex = 0 then m else m + 2 ^ mb)"
  define e where "e = (if ex = 0 then E else E + ex - 1)"
  define x where "x = (if odd sb then -1 else 1) * (of_int N * (2::rat) powi e)"
  have N: "0 < N" "N < 2 ^ (mb + 1)" using m nz ex zero_less_power [of "2::int" mb] by (auto simp: N_def)
  have "0 \<le> sb" "ex < 2 ^ eb" using sb ex by auto
  note f = bit_fields [OF \<open>0 \<le> sb\<close> ex(1) \<open>ex < 2 ^ eb\<close> m, folded w]
  have fl: "float_of_bits mb eb w = Finite x"
    using f ex m nz by (auto simp: float_of_bits_def Let_def x_def N_def e_def E_def)
  have ax: "\<bar>x\<bar> = of_int N * 2 powi e" using N by (simp add: x_def abs_mult)
  have "0 < of_int N * (2::rat) powi e" using N by simp
  then have xneg: "x < 0 \<longleftrightarrow> sb = 1" using sb by (auto simp: x_def)
  have nz: "x \<noteq> 0" using ax N by auto
  have tw: "(2::rat) powi (int j + e) = of_int (2 ^ j) * 2 powi e" for j
    by (simp add: power_int_add)
  have "(of_int N :: rat) < of_int (2 ^ (mb + 1))"
    using N(2) by (simp only: of_int_less_iff)
  then have xlt: "\<bar>x\<bar> < 2 powi (int (mb + 1) + e)"
    unfolding ax tw by (intro mult_strict_right_mono) simp_all
  moreover have "(2::rat) powi (int (mb + 1) + e) \<le> 2 powi (2 ^ (eb - 1))"
    using ex exponent_half by (intro power_int_increasing) (auto simp: e_def E_def min_exponent_def)
  ultimately have lt: "\<bar>x\<bar> < 2 powi (2 ^ (eb - 1))" by linarith
  have fl2: "max E (flog2 \<bar>x\<bar> - int (mb + 1) + 1) = e \<and> bits_of_finite mb eb x = w"
  proof (cases "ex = 0")
    case True
    then have e: "e = E" and Nm: "N = m" by (simp_all add: e_def N_def)
    have "(of_int m :: rat) < of_int (2 ^ mb)" using m(2) by (simp only: of_int_less_iff)
    then have small: "\<bar>x\<bar> < 2 powi (E + int mb)"
      unfolding ax using tw [of mb] by (simp add: e Nm add.commute)
    then have "(2::rat) powi flog2 \<bar>x\<bar> < 2 powi (E + int mb)"
      using flog2_bounds(1) [of "\<bar>x\<bar>"] nz by linarith
    then have "flog2 \<bar>x\<bar> < E + int mb" by (rule powi_less_imp_less)
    moreover have "\<bar>x\<bar> / 2 powi E = of_int m"
      unfolding ax e Nm by simp
    ultimately show ?thesis
      using small True w xneg sb by (auto simp: bits_of_finite_def e Let_def E_def)
  next
    case False
    then have e: "e = E + ex - 1" and Nm: "N = m + 2 ^ mb" by (simp_all add: e_def N_def)
    have "(of_int (2 ^ mb) :: rat) \<le> of_int N" using m(1) unfolding Nm of_int_le_iff by simp
    then have big: "2 powi (int mb + e) \<le> \<bar>x\<bar>"
      unfolding ax tw by (intro mult_right_mono) simp_all
    then have k: "flog2 \<bar>x\<bar> = int mb + e"
      using xlt by (intro flog2_eq) (simp_all add: ac_simps)
    have "(2::rat) powi (E + int mb) \<le> 2 powi (int mb + e)"
      using False ex by (intro power_int_increasing) (auto simp: e)
    then have big: "\<not> \<bar>x\<bar> < 2 powi (E + int mb)"
      using big by linarith
    have "\<lfloor>\<bar>x\<bar> / 2 powi (int mb + e - int mb)\<rfloor> = N"
      unfolding ax by simp
    then show ?thesis
      using k big False ex w xneg sb by (auto simp: bits_of_finite_def e Nm Let_def E_def [symmetric])
  qed
  have "round_prec (mb + 1) E x = x"
    using fl2 by (intro round_prec_exact [where m = "(if odd sb then -1 else 1) * N" and e = e])
      (auto simp: x_def)
  with fl nz lt fl2 show thesis by (intro that) (auto simp: E_def)
qed

lemma pack_unpack:
  assumes "unpack_format mb eb n bs = Ok v" and "v \<noteq> NaN"
  shows "pack_format mb eb n v = Ok (map uint bs)"
proof -
  from assms have len: "length bs = n" and v: "v = float_of_bits mb eb (from_le bs)"
    by (auto simp: unpack_format_def split: if_splits)
  have "0 \<le> from_le bs" "from_le bs < 256 ^ n"
    using from_le_bounds [of bs] len by auto
  then obtain sb ex m where w: "from_le bs = sb * 2 ^ (mb + eb) + ex * 2 ^ mb + m" and sb: "sb = 0 \<or> sb = 1"
    and ex: "0 \<le> ex" "ex < 2 ^ eb" and m: "0 \<le> m" "m < 2 ^ mb"
    by (rule bits_decompose)
  have "0 \<le> sb" using sb by auto
  note f = bit_fields [OF \<open>0 \<le> sb\<close> ex m, folded w]
  have fl: "v = (if ex = 2 ^ eb - 1 then if m = 0 then Infinity (odd sb) else NaN
      else if ex = 0 then
        (if m = 0 then (if odd sb then NegZero else Finite 0)
         else Finite ((if odd sb then -1 else 1) * (of_int m * 2 powi min_exponent mb eb)))
      else Finite ((if odd sb then -1 else 1) * (of_int (m + 2 ^ mb) * 2 powi (min_exponent mb eb + ex - 1))))"
    unfolding v by (simp only: float_of_bits_def Let_def f)
  consider "ex = 2 ^ eb - 1" | "ex = 0" "m = 0" | "ex < 2 ^ eb - 1" "ex \<noteq> 0 \<or> m \<noteq> 0"
    using ex by linarith
  then have "pack_format mb eb n v = Ok (le_digits n (from_le bs))"
  proof cases
    case 1
    with fl assms(2) have "v = Infinity (odd sb)" "m = 0" by (auto split: if_splits)
    with 1 w sb show ?thesis by (elim disjE) simp_all
  next
    case 2
    with fl exponent_half have "v = (if odd sb then NegZero else Finite 0)" by simp
    with 2 w sb show ?thesis
      by (elim disjE) (simp_all add: round_prec_def bits_of_finite_def)
  next
    case 3
    obtain x where "float_of_bits mb eb (from_le bs) = Finite x" "x \<noteq> 0" "round_prec (mb + 1) (min_exponent mb eb) x = x"
      "\<bar>x\<bar> < 2 powi (2 ^ (eb - 1))" "bits_of_finite mb eb x = from_le bs"
      by (rule bits_of_finite_of_bits [OF w sb ex(1) 3(1) m 3(2)])
    then show ?thesis unfolding v by (simp add: Let_def)
  qed
  then show ?thesis using le_digits_from_le [of bs] len by simp
qed

end

interpretation single: float_format 23 8 4
  by unfold_locales simp_all

interpretation double: float_format 52 11 8
  by unfold_locales simp_all

section \<open>Scaled integers\<close>

text \<open>
  A 16-bit integer divided by 32767 and multiplied again comes back exactly: the two
  roundings to double together err by less than a half.
\<close>

lemma to_double_small:
  assumes "\<bar>x\<bar> < 2 ^ 17" "\<not> x < 0 \<or> round_prec 53 (-1074) x \<noteq> 0"
  shows "to_double x = Finite (round_prec 53 (-1074) x)" "\<bar>round_prec 53 (-1074) x - x\<bar> \<le> 1 / 2 ^ 37"
proof -
  show *: "\<bar>round_prec 53 (-1074) x - x\<bar> \<le> 1 / 2 ^ 37"
    using round_prec_error [of x 17 "-1074" 53] assms(1) by (simp add: power_int_minus)
  have "\<bar>round_prec 53 (-1074) x\<bar> \<le> \<bar>round_prec 53 (-1074) x - x\<bar> + \<bar>x\<bar>"
    by linarith
  also have "\<dots> < 1 / 2 ^ 37 + 2 ^ 17"
    using * assms(1) by (rule add_le_less_mono)
  also have "\<dots> < (2::rat) ^ 18" by simp
  also have "(2::rat) ^ 18 \<le> 2 ^ 1024" by (rule power_increasing) simp_all
  finally show "to_double x = Finite (round_prec 53 (-1074) x)"
    using assms(2) by (auto simp: to_double_def Let_def)
qed

lemma scaled_int_roundtrip:
  assumes "- 32768 \<le> n" "n < 32768"
  shows "py_round (float_times (int_truediv n 32767) 32767) = Ok n"
proof (cases "n = 0")
  case True
  then show ?thesis by (simp add: int_truediv_def to_double_def round_prec_def Let_def)
next
  case False
  define q where "q = (of_int n / 32767 :: rat)"
  have q1: "1 / 32767 \<le> \<bar>q\<bar>" "\<bar>q\<bar> \<le> 32768 / 32767"
    using False assms by (auto simp: q_def abs_le_iff divide_simps)
  have "\<bar>round_prec 53 (-1074) q - q\<bar> \<le> 1 / 2 ^ 37"
    using round_prec_error [of q 17 "-1074" 53] q1 by (simp add: power_int_minus)
  then have "round_prec 53 (-1074) q \<noteq> 0" using q1 by auto
  then have y: "to_double q = Finite (round_prec 53 (-1074) q)"
    and ye: "\<bar>round_prec 53 (-1074) q - q\<bar> \<le> 1 / 2 ^ 37"
    using to_double_small [of q] q1 by auto
  define y where "y = round_prec 53 (-1074) q"
  define z where "z = y * 32767"
  have zn: "\<bar>z - of_int n\<bar> \<le> 32767 / 2 ^ 37"
  proof -
    have "z - of_int n = (y - q) * 32767" by (simp add: z_def q_def)
    then have "\<bar>z - of_int n\<bar> = \<bar>y - q\<bar> * 32767" by (simp only: abs_mult abs_numeral)
    also have "\<dots> \<le> 1 / 2 ^ 37 * 32767" using ye by (intro mult_right_mono) (simp_all add: y_def)
    finally show ?thesis by simp
  qed
  have z1: "1 / 2 \<le> \<bar>z\<bar>" "\<bar>z\<bar> < 2 ^ 17"
  proof -
    have "(1::rat) \<le> of_int \<bar>n\<bar>" "of_int \<bar>n\<bar> \<le> (32768::rat)"
      using False assms by (simp_all del: of_int_abs)
    moreover have "\<bar>z - of_int n\<bar> \<le> 1 / 2" using zn by simp
    moreover have "\<bar>of_int n\<bar> - \<bar>z - of_int n\<bar> \<le> \<bar>z\<bar>" "\<bar>z\<bar> \<le> \<bar>of_int n\<bar> + \<bar>z - of_int n\<bar>"
      by linarith+
    ultimately show "1 / 2 \<le> \<bar>z\<bar>" "\<bar>z\<bar> < 2 ^ 17" by simp_all
  qed
  have "\<bar>round_prec 53 (-1074) z - z\<bar> \<le> 1 / 2 ^ 37"
    using round_prec_error [of z 17 "-1074" 53] z1 by (simp add: power_int_minus)
  then have "round_prec 53 (-1074) z \<noteq> 0" using z1 by auto
  then have z: "to_double z = Finite (round_prec 53 (-1074) z)"
    and ze: "\<bar>round_prec 53 (-1074) z - z\<bar> \<le> 1 / 2 ^ 37"
    using to_double_small [of z] z1 by auto
  have "round_half_even (round_prec 53 (-1074) z) = n"
  proof (rule round_half_even_near)
    have "\<bar>z - of_int n\<bar> < 1 / 4" "\<bar>round_prec 53 (-1074) z - z\<bar> < 1 / 4"
      using zn ze by simp_all
    then show "\<bar>round_prec 53 (-1074) z - of_int n\<bar> < 1 / 2" by linarith
  qed
  then show ?thesis
    using y z by (simp add: int_truediv_def q_def [symmetric] y_def [symmetric] z_def [symmetric])
qed

section \<open>Exact results\<close>

text \<open>Integers of 53 bits scaled by a power of two are doubles.\<close>

lemma to_double_dyadic:
  assumes "\<bar>k\<bar> < 2 ^ 53" "-1074 \<le> e" "e \<le> 0"
  shows "to_double (of_int k * 2 powi e) = Finite (of_int k * 2 powi e)"
proof (cases "k = 0")
  case True
  then show ?thesis by (simp add: to_double_def round_prec_def Let_def)
next
  case False
  let ?x = "of_int k * 2 powi e :: rat"
  have ax: "\<bar>?x\<bar> = of_int \<bar>k\<bar> * 2 powi e" by (simp add: abs_mult)
  have "(of_int \<bar>k\<bar> :: rat) < of_int (2 ^ 53)" using assms(1) by (simp only: of_int_less_iff)
  then have lt: "\<bar>?x\<bar> < 2 powi (53 + e)"
    unfolding ax by (subst power_int_add) (simp_all add: mult_strict_right_mono)
  have "0 < \<bar>?x\<bar>" using False by simp
  from flog2_bounds(1) [OF this] lt have "(2::rat) powi flog2 \<bar>?x\<bar> < 2 powi (53 + e)" by linarith
  then have "flog2 \<bar>?x\<bar> < 53 + e" by (rule powi_less_imp_less)
  then have r: "round_prec 53 (-1074) ?x = ?x"
    using assms(2) by (intro round_prec_exact [where m = k and e = e]) simp_all
  have "(2::rat) powi (53 + e) \<le> 2 powi 1024" using assms(3) by (intro power_int_increasing) simp_all
  with lt have "\<bar>?x\<bar> < 2 ^ 1024" by simp
  with r show ?thesis by (auto simp: to_double_def Let_def)
qed

lemma to_double_quot:
  assumes "\<bar>k\<bar> < 2 ^ 53" "L \<le> 1074"
  shows "to_double (of_int k / 2 ^ L) = Finite (of_int k / 2 ^ L)"
  using to_double_dyadic [of k "- int L"] assms by (simp add: power_int_minus divide_inverse)

text \<open>The scaling of a double by a power of two is exact.\<close>

lemma float_times_exact:
  assumes "is_double (Finite x)" "\<bar>x\<bar> \<le> 1" "L \<le> 1000"
  shows "float_times (Finite x) (2 ^ L) = Finite (x * 2 ^ L)"
proof (cases "x = 0")
  case True
  then show ?thesis by (simp add: to_double_def round_prec_def Let_def)
next
  case False
  define e where "e = max (-1074) (flog2 \<bar>x\<bar> - 52)"
  have "min_exponent 52 11 = -1074" by (simp add: min_exponent_def)
  then have rp: "round_prec 53 (-1074) x = x" using assms(1) by simp
  define m where "m = round_half_even (x / 2 powi e)"
  have xm: "x = of_int m * 2 powi e"
    using rp False by (simp add: round_prec_def Let_def m_def e_def)
  have eq: "x * 2 ^ L = of_int m * 2 powi (e + int L)" by (simp add: xm power_int_add)
  have pos: "0 < \<bar>x\<bar>" using False by simp
  note fl = flog2_bounds [OF pos]
  have "flog2 \<bar>x * 2 ^ L\<bar> = flog2 \<bar>x\<bar> + int L"
  proof (rule flog2_eq)
    show "2 powi (flog2 \<bar>x\<bar> + int L) \<le> \<bar>x * 2 ^ L\<bar>" using fl(1) by (simp add: abs_mult power_int_add)
    have "2 powi (flog2 \<bar>x\<bar> + int L + 1) = 2 powi (flog2 \<bar>x\<bar> + 1) * (2 ^ L :: rat)"
      using power_int_add [of "2::rat" "flog2 \<bar>x\<bar> + 1" "int L"] by (simp add: ac_simps)
    with fl(2) show "\<bar>x * 2 ^ L\<bar> < 2 powi (flog2 \<bar>x\<bar> + int L + 1)" by (simp add: abs_mult)
  qed
  then have r: "round_prec 53 (-1074) (x * 2 ^ L) = x * 2 ^ L"
    by (intro round_prec_exact [OF eq]) (simp add: e_def)
  have "\<bar>x * 2 ^ L\<bar> \<le> 2 ^ L" using assms(2) by (simp add: abs_mult)
  also have "\<dots> < (2::rat) ^ 1024" using assms(3) by (intro power_strict_increasing) simp_all
  finally show ?thesis using r by (auto simp: to_double_def Let_def)
qed

end
