(* ===== verification/Iec101_Common.thy ===== *)
theory Iec101_Common
  imports Py_Float Encodings
begin

text \<open>
  The data of the IEC 60870-5-101 encoding, from \<^verbatim>\<open>iec60870/encodings/iec101/common.py\<close>:
  the enumerations with their values, causes, qualities, values and the information
  elements, one constructor per class. A field whose Python type is a union (\<open>Quality\<close>,
  \<open>CauseType | OtherCauseType\<close>) has the datatype of that union.

  \<open>E_value\<close>, \<open>E_members\<close> and \<open>E_of\<close> are \<open>e.value\<close>, the members of the class and the call
  \<open>E(x)\<close> of an enumeration \<open>E\<close>.
\<close>

section \<open>Enumerations\<close>

datatype (plugins only: code size) AsduType =
    M_SP_NA | M_SP_TA | M_DP_NA | M_DP_TA | M_ST_NA | M_ST_TA | M_BO_NA | M_BO_TA | M_ME_NA
  | M_ME_TA | M_ME_NB | M_ME_TB | M_ME_NC | M_ME_TC | M_IT_NA | M_IT_TA | M_EP_TA | M_EP_TB
  | M_EP_TC | M_PS_NA | M_ME_ND | M_SP_TB | M_DP_TB | M_ST_TB | M_BO_TB | M_ME_TD | M_ME_TE
  | M_ME_TF | M_IT_TB | M_EP_TD | M_EP_TE | M_EP_TF | C_SC_NA | C_DC_NA | C_RC_NA | C_SE_NA
  | C_SE_NB | C_SE_NC | C_BO_NA | M_EI_NA | C_IC_NA | C_CI_NA | C_RD_NA | C_CS_NA | C_TS_NA
  | C_RP_NA | C_CD_NA | P_ME_NA | P_ME_NB | P_ME_NC | P_AC_NA | F_FR_NA | F_SR_NA | F_SC_NA
  | F_LS_NA | F_AF_NA | F_SG_NA | F_DR_TA

fun AsduType_value :: "AsduType \<Rightarrow> int" where
  "AsduType_value M_SP_NA = 1"
| "AsduType_value M_SP_TA = 2"
| "AsduType_value M_DP_NA = 3"
| "AsduType_value M_DP_TA = 4"
| "AsduType_value M_ST_NA = 5"
| "AsduType_value M_ST_TA = 6"
| "AsduType_value M_BO_NA = 7"
| "AsduType_value M_BO_TA = 8"
| "AsduType_value M_ME_NA = 9"
| "AsduType_value M_ME_TA = 10"
| "AsduType_value M_ME_NB = 11"
| "AsduType_value M_ME_TB = 12"
| "AsduType_value M_ME_NC = 13"
| "AsduType_value M_ME_TC = 14"
| "AsduType_value M_IT_NA = 15"
| "AsduType_value M_IT_TA = 16"
| "AsduType_value M_EP_TA = 17"
| "AsduType_value M_EP_TB = 18"
| "AsduType_value M_EP_TC = 19"
| "AsduType_value M_PS_NA = 20"
| "AsduType_value M_ME_ND = 21"
| "AsduType_value M_SP_TB = 30"
| "AsduType_value M_DP_TB = 31"
| "AsduType_value M_ST_TB = 32"
| "AsduType_value M_BO_TB = 33"
| "AsduType_value M_ME_TD = 34"
| "AsduType_value M_ME_TE = 35"
| "AsduType_value M_ME_TF = 36"
| "AsduType_value M_IT_TB = 37"
| "AsduType_value M_EP_TD = 38"
| "AsduType_value M_EP_TE = 39"
| "AsduType_value M_EP_TF = 40"
| "AsduType_value C_SC_NA = 45"
| "AsduType_value C_DC_NA = 46"
| "AsduType_value C_RC_NA = 47"
| "AsduType_value C_SE_NA = 48"
| "AsduType_value C_SE_NB = 49"
| "AsduType_value C_SE_NC = 50"
| "AsduType_value C_BO_NA = 51"
| "AsduType_value M_EI_NA = 70"
| "AsduType_value C_IC_NA = 100"
| "AsduType_value C_CI_NA = 101"
| "AsduType_value C_RD_NA = 102"
| "AsduType_value C_CS_NA = 103"
| "AsduType_value C_TS_NA = 104"
| "AsduType_value C_RP_NA = 105"
| "AsduType_value C_CD_NA = 106"
| "AsduType_value P_ME_NA = 110"
| "AsduType_value P_ME_NB = 111"
| "AsduType_value P_ME_NC = 112"
| "AsduType_value P_AC_NA = 113"
| "AsduType_value F_FR_NA = 120"
| "AsduType_value F_SR_NA = 121"
| "AsduType_value F_SC_NA = 122"
| "AsduType_value F_LS_NA = 123"
| "AsduType_value F_AF_NA = 124"
| "AsduType_value F_SG_NA = 125"
| "AsduType_value F_DR_TA = 126"

definition AsduType_members :: "AsduType list" where
  "AsduType_members =
     [M_SP_NA, M_SP_TA, M_DP_NA, M_DP_TA, M_ST_NA, M_ST_TA, M_BO_NA, M_BO_TA, M_ME_NA,
      M_ME_TA, M_ME_NB, M_ME_TB, M_ME_NC, M_ME_TC, M_IT_NA, M_IT_TA, M_EP_TA, M_EP_TB,
      M_EP_TC, M_PS_NA, M_ME_ND, M_SP_TB, M_DP_TB, M_ST_TB, M_BO_TB, M_ME_TD, M_ME_TE,
      M_ME_TF, M_IT_TB, M_EP_TD, M_EP_TE, M_EP_TF, C_SC_NA, C_DC_NA, C_RC_NA, C_SE_NA,
      C_SE_NB, C_SE_NC, C_BO_NA, M_EI_NA, C_IC_NA, C_CI_NA, C_RD_NA, C_CS_NA, C_TS_NA,
      C_RP_NA, C_CD_NA, P_ME_NA, P_ME_NB, P_ME_NC, P_AC_NA, F_FR_NA, F_SR_NA, F_SC_NA,
      F_LS_NA, F_AF_NA, F_SG_NA, F_DR_TA]"

definition AsduType_of :: "int \<Rightarrow> AsduType result" where
  "AsduType_of = enum_lookup AsduType_value AsduType_members"

interpretation AsduType: enumeration AsduType_value AsduType_members
proof unfold_locales
  show "x \<in> set AsduType_members" for x by (cases x) (simp_all add: AsduType_members_def)
  show "distinct (map AsduType_value AsduType_members)" by (simp add: AsduType_members_def)
qed

lemma AsduType_of_value [simp]: "AsduType_of (AsduType_value x) = Ok x"
  by (simp add: AsduType_of_def AsduType.of_value)

datatype (plugins only: code size) CauseType =
    CauseType_UNDEFINED | CauseType_PERIODIC | CauseType_BACKGROUND_SCAN
  | CauseType_SPONTANEOUS | CauseType_INITIALIZED | CauseType_REQUEST | CauseType_ACTIVATION
  | CauseType_ACTIVATION_CONFIRMATION | CauseType_DEACTIVATION
  | CauseType_DEACTIVATION_CONFIRMATION | CauseType_ACTIVATION_TERMINATION
  | CauseType_REMOTE_COMMAND | CauseType_LOCAL_COMMAND | CauseType_FILE_TRANSFER
  | CauseType_INTERROGATED_STATION | CauseType_INTERROGATED_GROUP01
  | CauseType_INTERROGATED_GROUP02 | CauseType_INTERROGATED_GROUP03
  | CauseType_INTERROGATED_GROUP04 | CauseType_INTERROGATED_GROUP05
  | CauseType_INTERROGATED_GROUP06 | CauseType_INTERROGATED_GROUP07
  | CauseType_INTERROGATED_GROUP08 | CauseType_INTERROGATED_GROUP09
  | CauseType_INTERROGATED_GROUP10 | CauseType_INTERROGATED_GROUP11
  | CauseType_INTERROGATED_GROUP12 | CauseType_INTERROGATED_GROUP13
  | CauseType_INTERROGATED_GROUP14 | CauseType_INTERROGATED_GROUP15
  | CauseType_INTERROGATED_GROUP16 | CauseType_INTERROGATED_COUNTER
  | CauseType_INTERROGATED_COUNTER01 | CauseType_INTERROGATED_COUNTER02
  | CauseType_INTERROGATED_COUNTER03 | CauseType_INTERROGATED_COUNTER04
  | CauseType_UNKNOWN_TYPE | CauseType_UNKNOWN_CAUSE | CauseType_UNKNOWN_ASDU_ADDRESS
  | CauseType_UNKNOWN_IO_ADDRESS

fun CauseType_value :: "CauseType \<Rightarrow> int" where
  "CauseType_value CauseType_UNDEFINED = 0"
| "CauseType_value CauseType_PERIODIC = 1"
| "CauseType_value CauseType_BACKGROUND_SCAN = 2"
| "CauseType_value CauseType_SPONTANEOUS = 3"
| "CauseType_value CauseType_INITIALIZED = 4"
| "CauseType_value CauseType_REQUEST = 5"
| "CauseType_value CauseType_ACTIVATION = 6"
| "CauseType_value CauseType_ACTIVATION_CONFIRMATION = 7"
| "CauseType_value CauseType_DEACTIVATION = 8"
| "CauseType_value CauseType_DEACTIVATION_CONFIRMATION = 9"
| "CauseType_value CauseType_ACTIVATION_TERMINATION = 10"
| "CauseType_value CauseType_REMOTE_COMMAND = 11"
| "CauseType_value CauseType_LOCAL_COMMAND = 12"
| "CauseType_value CauseType_FILE_TRANSFER = 13"
| "CauseType_value CauseType_INTERROGATED_STATION = 20"
| "CauseType_value CauseType_INTERROGATED_GROUP01 = 21"
| "CauseType_value CauseType_INTERROGATED_GROUP02 = 22"
| "CauseType_value CauseType_INTERROGATED_GROUP03 = 23"
| "CauseType_value CauseType_INTERROGATED_GROUP04 = 24"
| "CauseType_value CauseType_INTERROGATED_GROUP05 = 25"
| "CauseType_value CauseType_INTERROGATED_GROUP06 = 26"
| "CauseType_value CauseType_INTERROGATED_GROUP07 = 27"
| "CauseType_value CauseType_INTERROGATED_GROUP08 = 28"
| "CauseType_value CauseType_INTERROGATED_GROUP09 = 29"
| "CauseType_value CauseType_INTERROGATED_GROUP10 = 30"
| "CauseType_value CauseType_INTERROGATED_GROUP11 = 31"
| "CauseType_value CauseType_INTERROGATED_GROUP12 = 32"
| "CauseType_value CauseType_INTERROGATED_GROUP13 = 33"
| "CauseType_value CauseType_INTERROGATED_GROUP14 = 34"
| "CauseType_value CauseType_INTERROGATED_GROUP15 = 35"
| "CauseType_value CauseType_INTERROGATED_GROUP16 = 36"
| "CauseType_value CauseType_INTERROGATED_COUNTER = 37"
| "CauseType_value CauseType_INTERROGATED_COUNTER01 = 38"
| "CauseType_value CauseType_INTERROGATED_COUNTER02 = 39"
| "CauseType_value CauseType_INTERROGATED_COUNTER03 = 40"
| "CauseType_value CauseType_INTERROGATED_COUNTER04 = 41"
| "CauseType_value CauseType_UNKNOWN_TYPE = 44"
| "CauseType_value CauseType_UNKNOWN_CAUSE = 45"
| "CauseType_value CauseType_UNKNOWN_ASDU_ADDRESS = 46"
| "CauseType_value CauseType_UNKNOWN_IO_ADDRESS = 47"

definition CauseType_members :: "CauseType list" where
  "CauseType_members =
     [CauseType_UNDEFINED, CauseType_PERIODIC, CauseType_BACKGROUND_SCAN,
      CauseType_SPONTANEOUS, CauseType_INITIALIZED, CauseType_REQUEST, CauseType_ACTIVATION,
      CauseType_ACTIVATION_CONFIRMATION, CauseType_DEACTIVATION,
      CauseType_DEACTIVATION_CONFIRMATION, CauseType_ACTIVATION_TERMINATION,
      CauseType_REMOTE_COMMAND, CauseType_LOCAL_COMMAND, CauseType_FILE_TRANSFER,
      CauseType_INTERROGATED_STATION, CauseType_INTERROGATED_GROUP01,
      CauseType_INTERROGATED_GROUP02, CauseType_INTERROGATED_GROUP03,
      CauseType_INTERROGATED_GROUP04, CauseType_INTERROGATED_GROUP05,
      CauseType_INTERROGATED_GROUP06, CauseType_INTERROGATED_GROUP07,
      CauseType_INTERROGATED_GROUP08, CauseType_INTERROGATED_GROUP09,
      CauseType_INTERROGATED_GROUP10, CauseType_INTERROGATED_GROUP11,
      CauseType_INTERROGATED_GROUP12, CauseType_INTERROGATED_GROUP13,
      CauseType_INTERROGATED_GROUP14, CauseType_INTERROGATED_GROUP15,
      CauseType_INTERROGATED_GROUP16, CauseType_INTERROGATED_COUNTER,
      CauseType_INTERROGATED_COUNTER01, CauseType_INTERROGATED_COUNTER02,
      CauseType_INTERROGATED_COUNTER03, CauseType_INTERROGATED_COUNTER04,
      CauseType_UNKNOWN_TYPE, CauseType_UNKNOWN_CAUSE, CauseType_UNKNOWN_ASDU_ADDRESS,
      CauseType_UNKNOWN_IO_ADDRESS]"

definition CauseType_of :: "int \<Rightarrow> CauseType result" where
  "CauseType_of = enum_lookup CauseType_value CauseType_members"

interpretation CauseType: enumeration CauseType_value CauseType_members
proof unfold_locales
  show "x \<in> set CauseType_members" for x by (cases x) (simp_all add: CauseType_members_def)
  show "distinct (map CauseType_value CauseType_members)" by (simp add: CauseType_members_def)
qed

lemma CauseType_of_value [simp]: "CauseType_of (CauseType_value x) = Ok x"
  by (simp add: CauseType_of_def CauseType.of_value)

datatype (plugins only: code size) QualityType =
    QualityType_INDICATION | QualityType_MEASUREMENT | QualityType_COUNTER
  | QualityType_PROTECTION

fun QualityType_value :: "QualityType \<Rightarrow> int" where
  "QualityType_value QualityType_INDICATION = 0"
| "QualityType_value QualityType_MEASUREMENT = 1"
| "QualityType_value QualityType_COUNTER = 2"
| "QualityType_value QualityType_PROTECTION = 3"

definition QualityType_members :: "QualityType list" where
  "QualityType_members =
     [QualityType_INDICATION, QualityType_MEASUREMENT, QualityType_COUNTER,
      QualityType_PROTECTION]"

definition QualityType_of :: "int \<Rightarrow> QualityType result" where
  "QualityType_of = enum_lookup QualityType_value QualityType_members"

interpretation QualityType: enumeration QualityType_value QualityType_members
proof unfold_locales
  show "x \<in> set QualityType_members" for x by (cases x) (simp_all add: QualityType_members_def)
  show "distinct (map QualityType_value QualityType_members)" by (simp add: QualityType_members_def)
qed

lemma QualityType_of_value [simp]: "QualityType_of (QualityType_value x) = Ok x"
  by (simp add: QualityType_of_def QualityType.of_value)

datatype (plugins only: code size) FreezeCode =
    FreezeCode_READ | FreezeCode_FREEZE | FreezeCode_FREEZE_AND_RESET | FreezeCode_RESET

fun FreezeCode_value :: "FreezeCode \<Rightarrow> int" where
  "FreezeCode_value FreezeCode_READ = 0"
| "FreezeCode_value FreezeCode_FREEZE = 1"
| "FreezeCode_value FreezeCode_FREEZE_AND_RESET = 2"
| "FreezeCode_value FreezeCode_RESET = 3"

definition FreezeCode_members :: "FreezeCode list" where
  "FreezeCode_members =
     [FreezeCode_READ, FreezeCode_FREEZE, FreezeCode_FREEZE_AND_RESET, FreezeCode_RESET]"

definition FreezeCode_of :: "int \<Rightarrow> FreezeCode result" where
  "FreezeCode_of = enum_lookup FreezeCode_value FreezeCode_members"

interpretation FreezeCode: enumeration FreezeCode_value FreezeCode_members
proof unfold_locales
  show "x \<in> set FreezeCode_members" for x by (cases x) (simp_all add: FreezeCode_members_def)
  show "distinct (map FreezeCode_value FreezeCode_members)" by (simp add: FreezeCode_members_def)
qed

lemma FreezeCode_of_value [simp]: "FreezeCode_of (FreezeCode_value x) = Ok x"
  by (simp add: FreezeCode_of_def FreezeCode.of_value)

datatype (plugins only: code size) SingleValue =
    SingleValue_OFF | SingleValue_ON

fun SingleValue_value :: "SingleValue \<Rightarrow> int" where
  "SingleValue_value SingleValue_OFF = 0"
| "SingleValue_value SingleValue_ON = 1"

definition SingleValue_members :: "SingleValue list" where
  "SingleValue_members =
     [SingleValue_OFF, SingleValue_ON]"

definition SingleValue_of :: "int \<Rightarrow> SingleValue result" where
  "SingleValue_of = enum_lookup SingleValue_value SingleValue_members"

interpretation SingleValue: enumeration SingleValue_value SingleValue_members
proof unfold_locales
  show "x \<in> set SingleValue_members" for x by (cases x) (simp_all add: SingleValue_members_def)
  show "distinct (map SingleValue_value SingleValue_members)" by (simp add: SingleValue_members_def)
qed

lemma SingleValue_of_value [simp]: "SingleValue_of (SingleValue_value x) = Ok x"
  by (simp add: SingleValue_of_def SingleValue.of_value)

datatype (plugins only: code size) DoubleValue =
    DoubleValue_INTERMEDIATE | DoubleValue_OFF | DoubleValue_ON | DoubleValue_FAULT

fun DoubleValue_value :: "DoubleValue \<Rightarrow> int" where
  "DoubleValue_value DoubleValue_INTERMEDIATE = 0"
| "DoubleValue_value DoubleValue_OFF = 1"
| "DoubleValue_value DoubleValue_ON = 2"
| "DoubleValue_value DoubleValue_FAULT = 3"

definition DoubleValue_members :: "DoubleValue list" where
  "DoubleValue_members =
     [DoubleValue_INTERMEDIATE, DoubleValue_OFF, DoubleValue_ON, DoubleValue_FAULT]"

definition DoubleValue_of :: "int \<Rightarrow> DoubleValue result" where
  "DoubleValue_of = enum_lookup DoubleValue_value DoubleValue_members"

interpretation DoubleValue: enumeration DoubleValue_value DoubleValue_members
proof unfold_locales
  show "x \<in> set DoubleValue_members" for x by (cases x) (simp_all add: DoubleValue_members_def)
  show "distinct (map DoubleValue_value DoubleValue_members)" by (simp add: DoubleValue_members_def)
qed

lemma DoubleValue_of_value [simp]: "DoubleValue_of (DoubleValue_value x) = Ok x"
  by (simp add: DoubleValue_of_def DoubleValue.of_value)

datatype (plugins only: code size) RegulatingValue =
    RegulatingValue_LOWER | RegulatingValue_HIGHER

fun RegulatingValue_value :: "RegulatingValue \<Rightarrow> int" where
  "RegulatingValue_value RegulatingValue_LOWER = 1"
| "RegulatingValue_value RegulatingValue_HIGHER = 2"

definition RegulatingValue_members :: "RegulatingValue list" where
  "RegulatingValue_members =
     [RegulatingValue_LOWER, RegulatingValue_HIGHER]"

definition RegulatingValue_of :: "int \<Rightarrow> RegulatingValue result" where
  "RegulatingValue_of = enum_lookup RegulatingValue_value RegulatingValue_members"

interpretation RegulatingValue: enumeration RegulatingValue_value RegulatingValue_members
proof unfold_locales
  show "x \<in> set RegulatingValue_members" for x by (cases x) (simp_all add: RegulatingValue_members_def)
  show "distinct (map RegulatingValue_value RegulatingValue_members)" by (simp add: RegulatingValue_members_def)
qed

lemma RegulatingValue_of_value [simp]: "RegulatingValue_of (RegulatingValue_value x) = Ok x"
  by (simp add: RegulatingValue_of_def RegulatingValue.of_value)

datatype (plugins only: code size) ProtectionValue =
    ProtectionValue_OFF | ProtectionValue_ON

fun ProtectionValue_value :: "ProtectionValue \<Rightarrow> int" where
  "ProtectionValue_value ProtectionValue_OFF = 1"
| "ProtectionValue_value ProtectionValue_ON = 2"

definition ProtectionValue_members :: "ProtectionValue list" where
  "ProtectionValue_members =
     [ProtectionValue_OFF, ProtectionValue_ON]"

definition ProtectionValue_of :: "int \<Rightarrow> ProtectionValue result" where
  "ProtectionValue_of = enum_lookup ProtectionValue_value ProtectionValue_members"

interpretation ProtectionValue: enumeration ProtectionValue_value ProtectionValue_members
proof unfold_locales
  show "x \<in> set ProtectionValue_members" for x by (cases x) (simp_all add: ProtectionValue_members_def)
  show "distinct (map ProtectionValue_value ProtectionValue_members)" by (simp add: ProtectionValue_members_def)
qed

lemma ProtectionValue_of_value [simp]: "ProtectionValue_of (ProtectionValue_value x) = Ok x"
  by (simp add: ProtectionValue_of_def ProtectionValue.of_value)

section \<open>Causes and qualities\<close>

datatype CauseTypeOrOther = KnownCause CauseType | OtherCause int

record Cause =
  cause_type :: CauseTypeOrOther
  is_negative_confirm :: bool
  is_test :: bool
  originator_address :: int

datatype Quality =
    IndicationQuality bool bool bool bool \<comment> \<open>invalid, not topical, substituted, blocked\<close>
  | MeasurementQuality bool bool bool bool bool \<comment> \<open>the same and overflow\<close>
  | CounterQuality bool bool bool int \<comment> \<open>invalid, adjusted, overflow, sequence\<close>
  | ProtectionQuality bool bool bool bool bool \<comment> \<open>as indication, and time invalid\<close>

section \<open>Values\<close>

datatype StepPositionValue = StepPositionValue int bool
datatype BitstringValue = BitstringValue bytes
datatype NormalizedValue = NormalizedValue pyfloat
datatype ScaledValue = ScaledValue int
datatype FloatingValue = FloatingValue pyfloat
datatype BinaryCounterValue = BinaryCounterValue int
datatype ProtectionStartValue = ProtectionStartValue bool bool bool bool bool bool
datatype ProtectionCommandValue = ProtectionCommandValue bool bool bool bool
datatype StatusValue = StatusValue "bool list" "bool list"

section \<open>Information elements\<close>

datatype (plugins only: code size) IoElement =
    IoElement_M_SP_NA SingleValue Quality
  | IoElement_M_SP_TA SingleValue Quality
  | IoElement_M_DP_NA DoubleValue Quality
  | IoElement_M_DP_TA DoubleValue Quality
  | IoElement_M_ST_NA StepPositionValue Quality
  | IoElement_M_ST_TA StepPositionValue Quality
  | IoElement_M_BO_NA BitstringValue Quality
  | IoElement_M_BO_TA BitstringValue Quality
  | IoElement_M_ME_NA NormalizedValue Quality
  | IoElement_M_ME_TA NormalizedValue Quality
  | IoElement_M_ME_NB ScaledValue Quality
  | IoElement_M_ME_TB ScaledValue Quality
  | IoElement_M_ME_NC FloatingValue Quality
  | IoElement_M_ME_TC FloatingValue Quality
  | IoElement_M_IT_NA BinaryCounterValue Quality
  | IoElement_M_IT_TA BinaryCounterValue Quality
  | IoElement_M_EP_TA ProtectionValue Quality int
  | IoElement_M_EP_TB ProtectionStartValue Quality int
  | IoElement_M_EP_TC ProtectionCommandValue Quality int
  | IoElement_M_PS_NA StatusValue Quality
  | IoElement_M_ME_ND NormalizedValue
  | IoElement_M_SP_TB SingleValue Quality
  | IoElement_M_DP_TB DoubleValue Quality
  | IoElement_M_ST_TB StepPositionValue Quality
  | IoElement_M_BO_TB BitstringValue Quality
  | IoElement_M_ME_TD NormalizedValue Quality
  | IoElement_M_ME_TE ScaledValue Quality
  | IoElement_M_ME_TF FloatingValue Quality
  | IoElement_M_IT_TB BinaryCounterValue Quality
  | IoElement_M_EP_TD ProtectionValue Quality int
  | IoElement_M_EP_TE ProtectionStartValue Quality int
  | IoElement_M_EP_TF ProtectionCommandValue Quality int
  | IoElement_C_SC_NA SingleValue bool int
  | IoElement_C_DC_NA DoubleValue bool int
  | IoElement_C_RC_NA RegulatingValue bool int
  | IoElement_C_SE_NA NormalizedValue bool
  | IoElement_C_SE_NB ScaledValue bool
  | IoElement_C_SE_NC FloatingValue bool
  | IoElement_C_BO_NA BitstringValue
  | IoElement_M_EI_NA bool int
  | IoElement_C_IC_NA int
  | IoElement_C_CI_NA int FreezeCode
  | IoElement_C_RD_NA
  | IoElement_C_CS_NA Time
  | IoElement_C_TS_NA
  | IoElement_C_RP_NA int
  | IoElement_C_CD_NA int
  | IoElement_P_ME_NA NormalizedValue int
  | IoElement_P_ME_NB ScaledValue int
  | IoElement_P_ME_NC FloatingValue int
  | IoElement_P_AC_NA int
  | IoElement_F_FR_NA int int bool
  | IoElement_F_SR_NA int int int bool
  | IoElement_F_SC_NA int int int
  | IoElement_F_LS_NA int int int int
  | IoElement_F_AF_NA int int int
  | IoElement_F_SG_NA int int bytes
  | IoElement_F_DR_TA int int bool bool bool Time

end
