(* ===== verification/Iec101_Values.thy ===== *)
theory Iec101_Values
  imports Iec101_Common
begin

text \<open>
  Qualities and values of information elements: the functions \<open>decode_quality\<close> ..
  \<open>encode_status_value\<close> at the end of \<^verbatim>\<open>iec60870/encodings/iec101/encoder.py\<close>. A decoder
  returns the value and the remaining bytes; an encoder is a generator, modelled by the
  list of integers it yields. For each value there is the predicate that its docstring
  describes (\<open>step_position_ok\<close>, \<open>bitstring_ok\<close>, ...) and the round trip under it.
\<close>

unbundle bit_operations_syntax

section \<open>Qualities\<close>

definition decode_quality :: "bytes \<Rightarrow> QualityType \<Rightarrow> (Quality \<times> bytes) result" where
  "decode_quality io_bytes quality_type =
     (case quality_type of
        QualityType_INDICATION \<Rightarrow>
          bindE (byte_at io_bytes 0) (\<lambda>b.
            Ok (IndicationQuality (b AND 0x80 \<noteq> 0) (b AND 0x40 \<noteq> 0) (b AND 0x20 \<noteq> 0)
                  (b AND 0x10 \<noteq> 0), drop 1 io_bytes))
      | QualityType_MEASUREMENT \<Rightarrow>
          bindE (byte_at io_bytes 0) (\<lambda>b.
            Ok (MeasurementQuality (b AND 0x80 \<noteq> 0) (b AND 0x40 \<noteq> 0) (b AND 0x20 \<noteq> 0)
                  (b AND 0x10 \<noteq> 0) (b AND 0x01 \<noteq> 0), drop 1 io_bytes))
      | QualityType_COUNTER \<Rightarrow>
          bindE (byte_at io_bytes 0) (\<lambda>b.
            Ok (CounterQuality (b AND 0x80 \<noteq> 0) (b AND 0x40 \<noteq> 0) (b AND 0x20 \<noteq> 0)
                  (b AND 0x1F), drop 1 io_bytes))
      | QualityType_PROTECTION \<Rightarrow>
          bindE (byte_at io_bytes 0) (\<lambda>b.
            Ok (ProtectionQuality (b AND 0x80 \<noteq> 0) (b AND 0x40 \<noteq> 0) (b AND 0x20 \<noteq> 0)
                  (b AND 0x10 \<noteq> 0) (b AND 0x08 \<noteq> 0), drop 1 io_bytes)))"

fun encode_quality :: "Quality \<Rightarrow> int list" where
  "encode_quality (IndicationQuality iv nt sb bl) =
     [(if iv then 0x80 else 0) OR (if nt then 0x40 else 0) OR (if sb then 0x20 else 0) OR
      (if bl then 0x10 else 0)]"
| "encode_quality (MeasurementQuality iv nt sb bl ov) =
     [(if iv then 0x80 else 0) OR (if nt then 0x40 else 0) OR (if sb then 0x20 else 0) OR
      (if bl then 0x10 else 0) OR (if ov then 0x01 else 0)]"
| "encode_quality (CounterQuality iv adj ov sq) =
     [(if iv then 0x80 else 0) OR (if adj then 0x40 else 0) OR (if ov then 0x20 else 0) OR
      (sq AND 0x1F)]"
| "encode_quality (ProtectionQuality iv nt sb bl ti) =
     [(if iv then 0x80 else 0) OR (if nt then 0x40 else 0) OR (if sb then 0x20 else 0) OR
      (if bl then 0x10 else 0) OR (if ti then 0x08 else 0)]"

text \<open>The class of a quality, with the range of its counter sequence number.\<close>

fun quality_ok :: "QualityType \<Rightarrow> Quality \<Rightarrow> bool" where
  "quality_ok QualityType_INDICATION (IndicationQuality _ _ _ _) \<longleftrightarrow> True"
| "quality_ok QualityType_MEASUREMENT (MeasurementQuality _ _ _ _ _) \<longleftrightarrow> True"
| "quality_ok QualityType_COUNTER (CounterQuality _ _ _ sq) \<longleftrightarrow> 0 \<le> sq \<and> sq < 32"
| "quality_ok QualityType_PROTECTION (ProtectionQuality _ _ _ _ _) \<longleftrightarrow> True"
| "quality_ok _ _ \<longleftrightarrow> False"

section \<open>Values\<close>

definition decode_step_position_value :: "bytes \<Rightarrow> (StepPositionValue \<times> bytes) result" where
  "decode_step_position_value io_bytes =
     bindE (byte_at io_bytes 0) (\<lambda>b.
       let val = (if b AND 0x40 \<noteq> 0 then push_bit 7 (-1) else 0) OR (b AND 0x7F);
           transient = (b AND 0x80 \<noteq> 0)
       in Ok (StepPositionValue val transient, drop 1 io_bytes))"

fun encode_step_position_value :: "StepPositionValue \<Rightarrow> int list result" where
  "encode_step_position_value (StepPositionValue val transient) =
     Ok [(if transient then 0x80 else 0) OR (val AND 0x7F)]"

definition decode_bitstring_value :: "bytes \<Rightarrow> (BitstringValue \<times> bytes) result" where
  "decode_bitstring_value io_bytes = Ok (BitstringValue (take 4 io_bytes), drop 4 io_bytes)"

fun encode_bitstring_value :: "BitstringValue \<Rightarrow> int list result" where
  "encode_bitstring_value (BitstringValue val) =
     bindE (byte_at val 0) (\<lambda>b0. bindE (byte_at val 1) (\<lambda>b1.
     bindE (byte_at val 2) (\<lambda>b2. bindE (byte_at val 3) (\<lambda>b3. Ok [b0, b1, b2, b3]))))"

definition decode_normalized_value :: "bytes \<Rightarrow> (NormalizedValue \<times> bytes) result" where
  "decode_normalized_value io_bytes =
     bindE (unpack_le 2 (take 2 io_bytes)) (\<lambda>n.
       Ok (NormalizedValue (int_truediv n 0x7FFF), drop 2 io_bytes))"

fun encode_normalized_value :: "NormalizedValue \<Rightarrow> int list result" where
  "encode_normalized_value (NormalizedValue val) =
     bindE (py_round (float_times val 0x7FFF)) (pack_le 2)"

definition decode_scaled_value :: "bytes \<Rightarrow> (ScaledValue \<times> bytes) result" where
  "decode_scaled_value io_bytes =
     bindE (unpack_le 2 (take 2 io_bytes)) (\<lambda>n. Ok (ScaledValue n, drop 2 io_bytes))"

fun encode_scaled_value :: "ScaledValue \<Rightarrow> int list result" where
  "encode_scaled_value (ScaledValue val) = pack_le 2 val"

definition decode_floating_value :: "bytes \<Rightarrow> (FloatingValue \<times> bytes) result" where
  "decode_floating_value io_bytes =
     bindE (unpack_float (take 4 io_bytes)) (\<lambda>x. Ok (FloatingValue x, drop 4 io_bytes))"

fun encode_floating_value :: "FloatingValue \<Rightarrow> int list result" where
  "encode_floating_value (FloatingValue val) = pack_float val"

definition decode_binary_counter_value :: "bytes \<Rightarrow> (BinaryCounterValue \<times> bytes) result" where
  "decode_binary_counter_value io_bytes =
     bindE (unpack_le 4 (take 4 io_bytes)) (\<lambda>n. Ok (BinaryCounterValue n, drop 4 io_bytes))"

fun encode_binary_counter_value :: "BinaryCounterValue \<Rightarrow> int list result" where
  "encode_binary_counter_value (BinaryCounterValue val) = pack_le 4 val"

definition decode_protection_start_value :: "bytes \<Rightarrow> (ProtectionStartValue \<times> bytes) result" where
  "decode_protection_start_value io_bytes =
     bindE (byte_at io_bytes 0) (\<lambda>b.
       Ok (ProtectionStartValue (b AND 0x01 \<noteq> 0) (b AND 0x02 \<noteq> 0) (b AND 0x04 \<noteq> 0)
             (b AND 0x08 \<noteq> 0) (b AND 0x10 \<noteq> 0) (b AND 0x20 \<noteq> 0), drop 1 io_bytes))"

fun encode_protection_start_value :: "ProtectionStartValue \<Rightarrow> int list result" where
  "encode_protection_start_value (ProtectionStartValue general l1 l2 l3 ie rv) =
     Ok [(if general then 0x01 else 0x00) OR (if l1 then 0x02 else 0x00) OR
         (if l2 then 0x04 else 0x00) OR (if l3 then 0x08 else 0x00) OR
         (if ie then 0x10 else 0x00) OR (if rv then 0x20 else 0x00)]"

definition decode_protection_command_value :: "bytes \<Rightarrow> (ProtectionCommandValue \<times> bytes) result" where
  "decode_protection_command_value io_bytes =
     bindE (byte_at io_bytes 0) (\<lambda>b.
       Ok (ProtectionCommandValue (b AND 0x01 \<noteq> 0) (b AND 0x02 \<noteq> 0) (b AND 0x04 \<noteq> 0)
             (b AND 0x08 \<noteq> 0), drop 1 io_bytes))"

fun encode_protection_command_value :: "ProtectionCommandValue \<Rightarrow> int list result" where
  "encode_protection_command_value (ProtectionCommandValue general l1 l2 l3) =
     Ok [(if general then 0x01 else 0x00) OR (if l1 then 0x02 else 0x00) OR
         (if l2 then 0x04 else 0x00) OR (if l3 then 0x08 else 0x00)]"

definition decode_status_value :: "bytes \<Rightarrow> (StatusValue \<times> bytes) result" where
  "decode_status_value io_bytes =
     bindE (mapE (\<lambda>i. bindE (byte_at io_bytes (i div 8)) (\<lambda>b. Ok (b AND push_bit (i mod 8) 1 \<noteq> 0)))
             [0..<16]) (\<lambda>val.
     bindE (mapE (\<lambda>i. bindE (byte_at io_bytes (2 + i div 8)) (\<lambda>b. Ok (b AND push_bit (i mod 8) 1 \<noteq> 0)))
             [0..<16]) (\<lambda>change.
       Ok (StatusValue val change, drop 4 io_bytes)))"

text \<open>The inner loop over \<open>k\<close>, which collects eight flags in \<open>acc\<close>.\<close>

primrec pack_bits :: "bool list \<Rightarrow> nat \<Rightarrow> nat list \<Rightarrow> int \<Rightarrow> int result" where
  "pack_bits flags off [] acc = Ok acc"
| "pack_bits flags off (k # ks) acc =
     bindE (list_at flags (off + k)) (\<lambda>b.
       pack_bits flags off ks (if b then acc OR push_bit k 1 else acc))"

fun encode_status_value :: "StatusValue \<Rightarrow> int list result" where
  "encode_status_value (StatusValue val change) =
     mapE (\<lambda>(flags, j). pack_bits flags (j * 8) [0..<8] 0)
       [(val, 0), (val, 1), (change, 0), (change, 1)]"

section \<open>Documented ranges\<close>

fun step_position_ok :: "StepPositionValue \<Rightarrow> bool" where
  "step_position_ok (StepPositionValue val _) \<longleftrightarrow> -64 \<le> val \<and> val \<le> 63"

fun bitstring_ok :: "BitstringValue \<Rightarrow> bool" where
  "bitstring_ok (BitstringValue val) \<longleftrightarrow> length val = 4"

text \<open>The normalized values that exist on the wire: the quotients of 16-bit integers.\<close>

fun normalized_ok :: "NormalizedValue \<Rightarrow> bool" where
  "normalized_ok (NormalizedValue val) \<longleftrightarrow>
     (case py_round (float_times val 0x7FFF) of
        Inl _ \<Rightarrow> False
      | Inr n \<Rightarrow> -32768 \<le> n \<and> n < 32768 \<and> val = int_truediv n 0x7FFF)"

fun scaled_ok :: "ScaledValue \<Rightarrow> bool" where
  "scaled_ok (ScaledValue val) \<longleftrightarrow> - (2 ^ 15) \<le> val \<and> val \<le> 2 ^ 15 - 1"

fun floating_ok :: "FloatingValue \<Rightarrow> bool" where
  "floating_ok (FloatingValue val) \<longleftrightarrow> is_single val"

fun binary_counter_ok :: "BinaryCounterValue \<Rightarrow> bool" where
  "binary_counter_ok (BinaryCounterValue val) \<longleftrightarrow> - (2 ^ 31) \<le> val \<and> val \<le> 2 ^ 31 - 1"

fun status_ok :: "StatusValue \<Rightarrow> bool" where
  "status_ok (StatusValue val change) \<longleftrightarrow> length val = 16 \<and> length change = 16"

section \<open>Round trips\<close>

lemma counter_flags:
  fixes sq :: int and iv adj ov :: bool
  assumes "0 \<le> sq" "sq < 32"
  defines "b \<equiv> (if iv then 0x80 else 0) OR (if adj then 0x40 else 0) OR (if ov then 0x20 else 0) OR
      (sq AND 0x1F)"
  shows "(b AND 0x80 = 0) = (\<not> iv)" "(b AND 0x40 = 0) = (\<not> adj)" "(b AND 0x20 = 0) = (\<not> ov)"
    "b AND 0x1F = sq" "is_byte b"
proof -
  show "(b AND 0x80 = 0) = (\<not> iv)" "(b AND 0x40 = 0) = (\<not> adj)" "(b AND 0x20 = 0) = (\<not> ov)"
    by (simp_all add: b_def bit_tests bit_simps)
  have "sq AND 31 = sq" using assms by (simp add: mask_mod)
  then show "b AND 0x1F = sq" by (simp add: b_def or_mask)
  show "is_byte b" unfolding b_def by (intro byte_intros) simp_all
qed

lemma encode_quality_byte: "\<exists>b. encode_quality q = [b] \<and> is_byte b"
  by (cases q) (auto intro!: is_byte_or is_byte_and(1) simp: is_byte_num)

lemma decode_quality_value:
  assumes "quality_ok ty q" "0 \<le> v" "v < 4" "ty = QualityType_INDICATION \<or> ty = QualityType_PROTECTION"
  shows "decode_quality (word_of_int (v OR hd (encode_quality q)) # rest) ty = Ok (q, rest)"
    and "(v OR hd (encode_quality q)) AND 3 = v"
    and "is_byte (v OR hd (encode_quality q))"
proof -
  have v: "v = v AND 3" using assms by (simp add: mask_mod)
  obtain b where b: "encode_quality q = [b]" "is_byte b" using encode_quality_byte by blast
  show B: "is_byte (v OR hd (encode_quality q))"
    using b assms by (simp add: is_byte_or is_byte_num)
  show "(v OR hd (encode_quality q)) AND 3 = v"
    using assms by (subst (2) v) (cases q; cases ty; auto simp: or_mask)
  show "decode_quality (word_of_int (v OR hd (encode_quality q)) # rest) ty = Ok (q, rest)"
    using assms B
    by (subst v) (cases q; cases ty; simp add: decode_quality_def uint_of_byte bit_tests bit_simps)
qed

lemma encode_decode_quality:
  assumes "quality_ok ty q"
  shows "decodes_to (Ok (encode_quality q)) (\<lambda>bs. decode_quality bs ty) q"
proof (cases "ty = QualityType_COUNTER")
  case True
  with assms obtain iv adj ov sq where q: "q = CounterQuality iv adj ov sq" "0 \<le> sq" "sq < 32"
    by (cases q) auto
  then show ?thesis
    using counter_flags [OF q(2,3), of iv adj ov] True
    by (intro decodes_toI [where ys = "encode_quality q"]) (simp_all add: decode_quality_def uint_of_byte)
next
  case False
  with assms show ?thesis
    by (intro decodes_toI [where ys = "encode_quality q"])
      (cases q; cases ty; simp add: decode_quality_def uint_of_byte byte_intros bit_tests bit_simps)+
qed

lemma encode_decode_step_position:
  assumes "step_position_ok v"
  shows "decodes_to (encode_step_position_value v) decode_step_position_value v"
proof (cases v)
  case (StepPositionValue val tr)
  with assms have r: "-64 \<le> val" "val < 64" by simp_all
  define b where "b = (if tr then 0x80 else 0) OR (val AND 0x7F)"
  have B: "is_byte b" unfolding b_def by (intro byte_intros) simp_all
  have t: "(b AND 128 = 0) = (\<not> tr)" by (simp add: b_def bit_tests bit_simps)
  have l: "b AND 127 = val mod 128" by (simp add: b_def or_mask and_low_mask [of val, symmetric])
  have "bit b 6 = bit (val AND 127) 6" by (simp add: b_def bit_simps)
  also have "\<dots> = odd ((val mod 128) div 64)" by (simp add: and_low_mask bit_iff_odd)
  also have "\<dots> = (val < 0)"
  proof (cases "val < 0")
    case True
    then have "val mod 128 = val + 128" using r mod_pos_pos_trivial [of "val + 128" 128] by simp
    then have "val mod 128 div 64 = 1" using r True by simp
    then show ?thesis using True by simp
  next
    case False
    then show ?thesis using r by simp
  qed
  finally have s: "(b AND 64 = 0) = (\<not> val < 0)" by (simp add: bit_tests)
  have "(if val < 0 then - 128 else 0) OR (val mod 128) = val"
  proof (cases "val < 0")
    case True
    then have m: "val mod 128 = val + 128" using r mod_pos_pos_trivial [of "val + 128" 128] by simp
    have "- 128 OR (val + 128) = - 128 + (val + 128)"
      using r True by (intro or_disjoint_add [where n = 7]) simp_all
    with m True show ?thesis by simp
  next
    case False
    then show ?thesis using r by simp
  qed
  moreover have "NOT (mask 7) = (-128 :: int)"
    by (simp add: not_eq_complement mask_eq_exp_minus_1)
  ultimately show ?thesis using StepPositionValue B t l s
    by (intro decodes_toI [where ys = "[b]"])
      (auto simp: decode_step_position_value_def uint_of_byte b_def [symmetric] Let_def split: if_splits)
qed

lemma encode_decode_bitstring:
  assumes "bitstring_ok v"
  shows "decodes_to (encode_bitstring_value v) decode_bitstring_value v"
proof (cases v)
  case (BitstringValue val)
  with assms have "length val = 4" by simp
  then obtain a b c d where "val = [a, b, c, d]"
    by (auto simp: length_Suc_conv numeral_eq_Suc)
  with BitstringValue show ?thesis
    by (intro decodes_toI [where ys = "[uint a, uint b, uint c, uint d]"])
      (simp_all add: decode_bitstring_value_def)
qed

lemma unpack_le_prefix:
  assumes "pack_le n x = Ok ds"
  shows "unpack_le n (take n (wire ds @ rest)) = Ok x" "drop n (wire ds @ rest) = rest" "all_bytes ds"
  using unpack_pack_le [OF assms] length_pack_le [OF assms] by simp_all

lemma encode_decode_scaled:
  assumes "scaled_ok v"
  shows "decodes_to (encode_scaled_value v) decode_scaled_value v"
proof (cases v)
  case (ScaledValue x)
  with assms obtain ds where ds: "pack_le 2 x = Ok ds" by (auto simp: pack_le_def)
  from unpack_le_prefix [OF ds] ds ScaledValue show ?thesis
    by (intro decodes_toI [where ys = ds]) (simp_all add: decode_scaled_value_def)
qed

lemma encode_decode_binary_counter:
  assumes "binary_counter_ok v"
  shows "decodes_to (encode_binary_counter_value v) decode_binary_counter_value v"
proof (cases v)
  case (BinaryCounterValue x)
  with assms obtain ds where ds: "pack_le 4 x = Ok ds" by (auto simp: pack_le_def)
  from unpack_le_prefix [OF ds] ds BinaryCounterValue show ?thesis
    by (intro decodes_toI [where ys = ds]) (simp_all add: decode_binary_counter_value_def)
qed

lemma encode_decode_normalized:
  assumes "normalized_ok v"
  shows "decodes_to (encode_normalized_value v) decode_normalized_value v"
proof (cases v)
  case (NormalizedValue x)
  with assms obtain n where n: "py_round (float_times x 32767) = Ok n" "-32768 \<le> n" "n < 32768"
    "x = int_truediv n 32767"
    by (auto split: sum.splits)
  then obtain ds where ds: "pack_le 2 n = Ok ds" by (auto simp: pack_le_def)
  from unpack_le_prefix [OF ds] ds n NormalizedValue show ?thesis
    by (intro decodes_toI [where ys = ds]) (simp_all add: decode_normalized_value_def)
qed

lemma encode_decode_floating:
  assumes "floating_ok v"
  shows "decodes_to (encode_floating_value v) decode_floating_value v"
proof (cases v)
  case (FloatingValue x)
  with assms single.unpack_pack [of x] obtain ds where
    "pack_float x = Ok ds" "length ds = 4" "all_bytes ds" "unpack_float (wire ds) = Ok x"
    by auto
  with FloatingValue show ?thesis
    by (intro decodes_toI [where ys = ds]) (simp_all add: decode_floating_value_def)
qed

lemma encode_decode_protection_start:
  "decodes_to (encode_protection_start_value v) decode_protection_start_value v"
proof (cases v)
  case (ProtectionStartValue g l1 l2 l3 ie rv)
  define b where "b = (if g then 0x01 else 0x00) OR (if l1 then 0x02 else 0x00) OR
    (if l2 then 0x04 else 0x00) OR (if l3 then 0x08 else 0x00) OR
    (if ie then 0x10 else 0x00) OR (if rv then 0x20 else (0x00 :: int))"
  have B: "is_byte b" unfolding b_def by (intro byte_intros) simp_all
  have "(b AND 1 = 0) = (\<not> g)" "(b AND 2 = 0) = (\<not> l1)" "(b AND 4 = 0) = (\<not> l2)"
    "(b AND 8 = 0) = (\<not> l3)" "(b AND 16 = 0) = (\<not> ie)" "(b AND 32 = 0) = (\<not> rv)"
    by (simp_all add: b_def bit_tests bit_simps)
  with B ProtectionStartValue show ?thesis
    by (intro decodes_toI [where ys = "[b]"])
      (simp_all add: decode_protection_start_value_def uint_of_byte b_def [symmetric])
qed

lemma encode_decode_protection_command:
  "decodes_to (encode_protection_command_value v) decode_protection_command_value v"
proof (cases v)
  case (ProtectionCommandValue g l1 l2 l3)
  define b where "b = (if g then 0x01 else 0x00) OR (if l1 then 0x02 else 0x00) OR
    (if l2 then 0x04 else 0x00) OR (if l3 then 0x08 else (0x00 :: int))"
  have B: "is_byte b" unfolding b_def by (intro byte_intros) simp_all
  have "(b AND 1 = 0) = (\<not> g)" "(b AND 2 = 0) = (\<not> l1)" "(b AND 4 = 0) = (\<not> l2)"
    "(b AND 8 = 0) = (\<not> l3)"
    by (simp_all add: b_def bit_tests bit_simps)
  with B ProtectionCommandValue show ?thesis
    by (intro decodes_toI [where ys = "[b]"])
      (simp_all add: decode_protection_command_value_def uint_of_byte b_def [symmetric])
qed

text \<open>The flags of a packed byte are the flags of the list.\<close>

lemma pack_bits_spec:
  assumes "\<forall>k \<in> set ks. off + k < length flags \<and> k < 8" "is_byte acc"
  shows "\<exists>r. pack_bits flags off ks acc = Ok r \<and> is_byte r \<and>
    (\<forall>j. bit r j \<longleftrightarrow> bit acc j \<or> j \<in> set ks \<and> flags ! (off + j))"
  using assms
proof (induction ks arbitrary: acc)
  case Nil
  then show ?case by simp
next
  case (Cons k ks)
  have "is_byte (push_bit k 1)"
    using Cons.prems power_strict_increasing [of k 8 "2::int"] by (simp add: is_byte_def push_bit_eq_mult)
  then have "is_byte (if flags ! (off + k) then acc OR push_bit k 1 else acc)"
    using Cons.prems by (auto intro: byte_intros)
  then obtain r where "pack_bits flags off ks (if flags ! (off + k) then acc OR push_bit k 1 else acc) = Ok r"
    "is_byte r" "\<forall>j. bit r j \<longleftrightarrow> bit (if flags ! (off + k) then acc OR push_bit k 1 else acc) j \<or>
      j \<in> set ks \<and> flags ! (off + j)"
    using Cons by (metis list.set_intros(2))
  moreover have "list_at flags (off + k) = Ok (flags ! (off + k))"
    using Cons.prems by (simp add: list_at_def)
  ultimately show ?case
    by (auto simp: bit_simps split: if_splits)
qed

lemma pack_bits_byte:
  assumes "j * 8 + 8 \<le> length flags"
  shows "\<exists>r. pack_bits flags (j * 8) [0..<8] 0 = Ok r \<and> is_byte r \<and>
    (\<forall>i<8. r AND push_bit i 1 \<noteq> 0 \<longleftrightarrow> flags ! (j * 8 + i))"
proof -
  have "\<forall>k \<in> set [0..<8]. j * 8 + k < length flags \<and> k < 8" using assms by auto
  from pack_bits_spec [OF this, of 0] obtain r where
    "pack_bits flags (j * 8) [0..<8] 0 = Ok r" "is_byte r"
    "\<forall>i. bit r i \<longleftrightarrow> bit 0 i \<or> i \<in> set [0..<8] \<and> flags ! (j * 8 + i)"
    by (auto simp: is_byte_def)
  then show ?thesis
    using and_exp_eq_0_iff_not_bit [of r] by (auto simp: push_bit_eq_mult)
qed

lemma read_flags:
  assumes "length flags = 16" "length bs = 2"
    and "\<And>j i. j < 2 \<Longrightarrow> i < 8 \<Longrightarrow> (uint (bs ! j) AND push_bit i 1 \<noteq> 0) = flags ! (j * 8 + i)"
  shows "mapE (\<lambda>i. bindE (byte_at (xs @ bs @ rest) (length xs + i div 8))
           (\<lambda>b. Ok (b AND push_bit (i mod 8) 1 \<noteq> 0))) [0..<16] = Ok flags"
proof -
  have "mapE (\<lambda>i. bindE (byte_at (xs @ bs @ rest) (length xs + i div 8))
      (\<lambda>b. Ok (b AND push_bit (i mod 8) 1 \<noteq> 0))) [0..<16] = Ok (map (\<lambda>i. flags ! i) [0..<16])"
  proof (rule mapE_Ok)
    fix i assume "i \<in> set [0..<16]"
    then have i: "i div 8 < 2" "i mod 8 < 8" by auto
    then have "byte_at (xs @ bs @ rest) (length xs + i div 8) = Ok (uint (bs ! (i div 8)))"
      using assms(2) by (simp add: byte_at_def nth_append)
    moreover have "(uint (bs ! (i div 8)) AND push_bit (i mod 8) 1 \<noteq> 0) = flags ! i"
      using assms(3) [OF i] by (simp add: div_mult_mod_eq)
    ultimately show "bindE (byte_at (xs @ bs @ rest) (length xs + i div 8))
        (\<lambda>b. Ok (b AND push_bit (i mod 8) 1 \<noteq> 0)) = Ok (flags ! i)"
      by simp
  qed
  moreover have "map (\<lambda>i. flags ! i) [0..<16] = flags"
    using assms(1) by (metis map_nth)
  ultimately show ?thesis by simp
qed

lemma encode_decode_status:
  assumes "status_ok v"
  shows "decodes_to (encode_status_value v) decode_status_value v"
proof (cases v)
  case (StatusValue val change)
  with assms have len: "length val = 16" "length change = 16" by simp_all
  obtain a b where a: "pack_bits val 0 [0..<8] 0 = Ok a" "is_byte a"
      "\<forall>i<8. a AND push_bit i 1 \<noteq> 0 \<longleftrightarrow> val ! i"
    and b: "pack_bits val 8 [0..<8] 0 = Ok b" "is_byte b"
      "\<forall>i<8. b AND push_bit i 1 \<noteq> 0 \<longleftrightarrow> val ! (8 + i)"
    using pack_bits_byte [of 0 val] pack_bits_byte [of 1 val] len by auto
  obtain c d where c: "pack_bits change 0 [0..<8] 0 = Ok c" "is_byte c"
      "\<forall>i<8. c AND push_bit i 1 \<noteq> 0 \<longleftrightarrow> change ! i"
    and d: "pack_bits change 8 [0..<8] 0 = Ok d" "is_byte d"
      "\<forall>i<8. d AND push_bit i 1 \<noteq> 0 \<longleftrightarrow> change ! (8 + i)"
    using pack_bits_byte [of 0 change] pack_bits_byte [of 1 change] len by auto
  have enc: "encode_status_value v = Ok [a, b, c, d]"
    using a b c d StatusValue by simp
  show ?thesis
  proof (rule decodes_toI [OF enc])
    show "all_bytes [a, b, c, d]" using a b c d by simp
    fix rest
    have v: "(uint (wire [a, b] ! j) AND push_bit i 1 \<noteq> 0) = val ! (j * 8 + i)"
      if "j < 2" "i < 8" for j i
      using that a b by (auto simp: less_2_cases_iff uint_of_byte)
    have c': "(uint (wire [c, d] ! j) AND push_bit i 1 \<noteq> 0) = change ! (j * 8 + i)"
      if "j < 2" "i < 8" for j i
      using that c d by (auto simp: less_2_cases_iff uint_of_byte)
    show "decode_status_value (wire [a, b, c, d] @ rest) = Ok (v, rest)"
      using read_flags [OF len(1) _ v, of "[]" "wire [c, d] @ rest"]
        read_flags [OF len(2) _ c', of "wire [a, b]" rest] StatusValue
      by (simp add: decode_status_value_def)
  qed
qed

section \<open>Properties\<close>

text \<open>
  The two bytes of a normalized value survive decoding to a double and encoding again: both
  roundings together never reach the next 16-bit number.
\<close>

lemma normalized_value_bytes:
  "\<exists>v. decode_normalized_value (b0 # b1 # rest) = Ok (v, rest) \<and>
    encode_normalized_value v = Ok [uint b0, uint b1]"
proof -
  define u where "u = from_le [b0, b1]"
  define n where "n = (if 2 * u < 65536 then u else u - 65536)"
  have n: "unpack_le 2 [b0, b1] = Ok n"
    by (simp add: unpack_le_def Let_def n_def u_def del: from_le.simps)
  have "0 \<le> u" "u < 65536" using from_le_bounds [of "[b0, b1]"] by (simp_all add: u_def del: from_le.simps)
  then have "- 32768 \<le> n" "n < 32768" unfolding n_def by auto
  then have "py_round (float_times (int_truediv n 32767) 32767) = Ok n"
    by (rule scaled_int_roundtrip)
  moreover have "pack_le 2 n = Ok [uint b0, uint b1]"
    using pack_unpack_le [OF n] by simp
  ultimately show ?thesis using n by (simp add: decode_normalized_value_def)
qed

text \<open>
  The largest 16-bit number is decoded to exactly 1, which the documentation of
  \<open>NormalizedValue\<close>, [-1, 1), leaves out.
\<close>

lemma normalized_value_one:
  "decode_normalized_value (0xFF # 0x7F # rest) = Ok (NormalizedValue (Finite 1), rest)"
proof -
  have "flog2 1 = 0" by (rule flog2_eq) simp_all
  then have "round_prec 53 (-1074) 1 = 1"
    by (intro round_prec_exact [where m = 1 and e = 0]) simp_all
  then have "int_truediv 32767 32767 = Finite 1" by (simp add: int_truediv_def to_double_def)
  then show ?thesis by (simp add: decode_normalized_value_def unpack_le_def)
qed

end
