(* ===== verification/Iec101_Elements.thy ===== *)
theory Iec101_Elements
  imports Iec101_Values
begin

text \<open>
  Information elements on the wire: \<open>decode_io_element\<close> and \<open>encode_io_element\<close> of
  \<^verbatim>\<open>iec60870/encodings/iec101/encoder.py\<close>. The code is one chain of tests on the type
  identification (or on the class of the element); the model cuts the chain into
  consecutive parts, each of which answers \<open>None\<close> where none of its tests succeeds. The
  statements that the branches share (a value followed by a quality, a command byte, ...)
  are the combinators of the first section.

  The main result is \<open>element_codec\<close>: every element within its documented ranges is read
  back from its bytes, but for \<open>M_BO_TA\<close>, which the code decodes as \<open>M_BO_NA\<close>.
\<close>

unbundle bit_operations_syntax

section \<open>Shared statements\<close>

definition decode_asdu_type :: "int \<Rightarrow> AsduType result" where
  "decode_asdu_type asdu_ty =
     (case AsduType_of asdu_ty of Inl _ \<Rightarrow> Raise (AsduTypeError asdu_ty) | Inr ty \<Rightarrow> Ok ty)"

text \<open>A value in the low bits of the byte that also holds the quality.\<close>

definition peek :: "(int \<Rightarrow> 'v result) \<Rightarrow> bytes \<Rightarrow> ('v \<times> bytes) result" where
  "peek f io_bytes = bindE (byte_at io_bytes 0) (\<lambda>b. bindE (f b) (\<lambda>v. Ok (v, io_bytes)))"

definition decode_vq ::
  "(bytes \<Rightarrow> ('v \<times> bytes) result) \<Rightarrow> QualityType \<Rightarrow> ('v \<Rightarrow> Quality \<Rightarrow> 'e) \<Rightarrow> bytes \<Rightarrow> ('e \<times> bytes) result" where
  "decode_vq dv qt con io_bytes =
     bindE (dv io_bytes) (\<lambda>(v, io_bytes).
     bindE (decode_quality io_bytes qt) (\<lambda>(q, io_bytes). Ok (con v q, io_bytes)))"

definition decode_vqt ::
  "(bytes \<Rightarrow> ('v \<times> bytes) result) \<Rightarrow> QualityType \<Rightarrow> ('v \<Rightarrow> Quality \<Rightarrow> int \<Rightarrow> 'e) \<Rightarrow> bytes \<Rightarrow> ('e \<times> bytes) result" where
  "decode_vqt dv qt con io_bytes =
     bindE (dv io_bytes) (\<lambda>(v, io_bytes).
     bindE (decode_quality io_bytes qt) (\<lambda>(q, io_bytes).
       Ok (con v q (from_le (take 2 io_bytes)), drop 2 io_bytes)))"

definition decode_cmd :: "(int \<Rightarrow> 'v result) \<Rightarrow> ('v \<Rightarrow> bool \<Rightarrow> int \<Rightarrow> 'e) \<Rightarrow> bytes \<Rightarrow> ('e \<times> bytes) result" where
  "decode_cmd f con io_bytes =
     bindE (byte_at io_bytes 0) (\<lambda>b. bindE (f b) (\<lambda>v.
       Ok (con v (b AND 0x80 \<noteq> 0) (drop_bit 2 b AND 0x1F), drop 1 io_bytes)))"

definition decode_vs :: "(bytes \<Rightarrow> ('v \<times> bytes) result) \<Rightarrow> ('v \<Rightarrow> bool \<Rightarrow> 'e) \<Rightarrow> bytes \<Rightarrow> ('e \<times> bytes) result" where
  "decode_vs dv con io_bytes =
     bindE (dv io_bytes) (\<lambda>(v, io_bytes).
     bindE (byte_at io_bytes 0) (\<lambda>b. Ok (con v (b AND 0x80 \<noteq> 0), drop 1 io_bytes)))"

definition decode_vf :: "(bytes \<Rightarrow> ('v \<times> bytes) result) \<Rightarrow> ('v \<Rightarrow> int \<Rightarrow> 'e) \<Rightarrow> bytes \<Rightarrow> ('e \<times> bytes) result" where
  "decode_vf dv con io_bytes =
     bindE (dv io_bytes) (\<lambda>(v, io_bytes).
     bindE (byte_at io_bytes 0) (\<lambda>b. Ok (con v b, drop 1 io_bytes)))"

section \<open>Decoding\<close>

definition decode_io_element_1 :: "AsduType \<Rightarrow> bytes \<Rightarrow> (IoElement \<times> bytes) result option" where
  "decode_io_element_1 ty io_bytes =
     (case ty of
        M_SP_NA \<Rightarrow> Some (
          decode_vq (peek (\<lambda>b. SingleValue_of (b AND 1))) QualityType_INDICATION IoElement_M_SP_NA io_bytes)
      | M_SP_TA \<Rightarrow> Some (
          decode_vq (peek (\<lambda>b. SingleValue_of (b AND 1))) QualityType_INDICATION IoElement_M_SP_TA io_bytes)
      | M_DP_NA \<Rightarrow> Some (
          decode_vq (peek (\<lambda>b. DoubleValue_of (b AND 3))) QualityType_INDICATION IoElement_M_DP_NA io_bytes)
      | M_DP_TA \<Rightarrow> Some (
          decode_vq (peek (\<lambda>b. DoubleValue_of (b AND 3))) QualityType_INDICATION IoElement_M_DP_TA io_bytes)
      | M_ST_NA \<Rightarrow> Some (
          decode_vq decode_step_position_value QualityType_MEASUREMENT IoElement_M_ST_NA io_bytes)
      | M_ST_TA \<Rightarrow> Some (
          decode_vq decode_step_position_value QualityType_MEASUREMENT IoElement_M_ST_TA io_bytes)
      | M_BO_NA \<Rightarrow> Some (
          decode_vq decode_bitstring_value QualityType_MEASUREMENT IoElement_M_BO_NA io_bytes)
      | M_BO_TA \<Rightarrow> Some (
          decode_vq decode_bitstring_value QualityType_MEASUREMENT IoElement_M_BO_NA io_bytes)
      | M_ME_NA \<Rightarrow> Some (
          decode_vq decode_normalized_value QualityType_MEASUREMENT IoElement_M_ME_NA io_bytes)
      | M_ME_TA \<Rightarrow> Some (
          decode_vq decode_normalized_value QualityType_MEASUREMENT IoElement_M_ME_TA io_bytes)
      | M_ME_NB \<Rightarrow> Some (
          decode_vq decode_scaled_value QualityType_MEASUREMENT IoElement_M_ME_NB io_bytes)
      | M_ME_TB \<Rightarrow> Some (
          decode_vq decode_scaled_value QualityType_MEASUREMENT IoElement_M_ME_TB io_bytes)
      | M_ME_NC \<Rightarrow> Some (
          decode_vq decode_floating_value QualityType_MEASUREMENT IoElement_M_ME_NC io_bytes)
      | M_ME_TC \<Rightarrow> Some (
          decode_vq decode_floating_value QualityType_MEASUREMENT IoElement_M_ME_TC io_bytes)
      | _ \<Rightarrow> None)"

definition decode_io_element_2 :: "AsduType \<Rightarrow> bytes \<Rightarrow> (IoElement \<times> bytes) result option" where
  "decode_io_element_2 ty io_bytes =
     (case ty of
        M_IT_NA \<Rightarrow> Some (
          decode_vq decode_binary_counter_value QualityType_COUNTER IoElement_M_IT_NA io_bytes)
      | M_IT_TA \<Rightarrow> Some (
          decode_vq decode_binary_counter_value QualityType_COUNTER IoElement_M_IT_TA io_bytes)
      | M_EP_TA \<Rightarrow> Some (
          decode_vqt (peek (\<lambda>b. ProtectionValue_of (b AND 3))) QualityType_PROTECTION IoElement_M_EP_TA io_bytes)
      | M_EP_TB \<Rightarrow> Some (
          decode_vqt decode_protection_start_value QualityType_PROTECTION IoElement_M_EP_TB io_bytes)
      | M_EP_TC \<Rightarrow> Some (
          decode_vqt decode_protection_command_value QualityType_PROTECTION IoElement_M_EP_TC io_bytes)
      | M_PS_NA \<Rightarrow> Some (
          decode_vq decode_status_value QualityType_MEASUREMENT IoElement_M_PS_NA io_bytes)
      | M_ME_ND \<Rightarrow> Some (
          bindE (decode_normalized_value io_bytes) (\<lambda>(v, io_bytes). Ok (IoElement_M_ME_ND v, io_bytes)))
      | M_SP_TB \<Rightarrow> Some (
          decode_vq (peek (\<lambda>b. SingleValue_of (b AND 1))) QualityType_INDICATION IoElement_M_SP_TB io_bytes)
      | M_DP_TB \<Rightarrow> Some (
          decode_vq (peek (\<lambda>b. DoubleValue_of (b AND 3))) QualityType_INDICATION IoElement_M_DP_TB io_bytes)
      | M_ST_TB \<Rightarrow> Some (
          decode_vq decode_step_position_value QualityType_MEASUREMENT IoElement_M_ST_TB io_bytes)
      | M_BO_TB \<Rightarrow> Some (
          decode_vq decode_bitstring_value QualityType_MEASUREMENT IoElement_M_BO_TB io_bytes)
      | M_ME_TD \<Rightarrow> Some (
          decode_vq decode_normalized_value QualityType_MEASUREMENT IoElement_M_ME_TD io_bytes)
      | M_ME_TE \<Rightarrow> Some (
          decode_vq decode_scaled_value QualityType_MEASUREMENT IoElement_M_ME_TE io_bytes)
      | M_ME_TF \<Rightarrow> Some (
          decode_vq decode_floating_value QualityType_MEASUREMENT IoElement_M_ME_TF io_bytes)
      | M_IT_TB \<Rightarrow> Some (
          decode_vq decode_binary_counter_value QualityType_COUNTER IoElement_M_IT_TB io_bytes)
      | _ \<Rightarrow> None)"

definition decode_io_element_3 :: "AsduType \<Rightarrow> bytes \<Rightarrow> (IoElement \<times> bytes) result option" where
  "decode_io_element_3 ty io_bytes =
     (case ty of
        M_EP_TD \<Rightarrow> Some (
          decode_vqt (peek (\<lambda>b. ProtectionValue_of (b AND 3))) QualityType_PROTECTION IoElement_M_EP_TD io_bytes)
      | M_EP_TE \<Rightarrow> Some (
          decode_vqt decode_protection_start_value QualityType_PROTECTION IoElement_M_EP_TE io_bytes)
      | M_EP_TF \<Rightarrow> Some (
          decode_vqt decode_protection_command_value QualityType_PROTECTION IoElement_M_EP_TF io_bytes)
      | C_SC_NA \<Rightarrow> Some (
          decode_cmd (\<lambda>b. SingleValue_of (b AND 1)) IoElement_C_SC_NA io_bytes)
      | C_DC_NA \<Rightarrow> Some (
          decode_cmd (\<lambda>b. DoubleValue_of (b AND 3)) IoElement_C_DC_NA io_bytes)
      | C_RC_NA \<Rightarrow> Some (
          decode_cmd (\<lambda>b. RegulatingValue_of (b AND 3)) IoElement_C_RC_NA io_bytes)
      | C_SE_NA \<Rightarrow> Some (
          decode_vs decode_normalized_value IoElement_C_SE_NA io_bytes)
      | C_SE_NB \<Rightarrow> Some (
          decode_vs decode_scaled_value IoElement_C_SE_NB io_bytes)
      | C_SE_NC \<Rightarrow> Some (
          decode_vs decode_floating_value IoElement_C_SE_NC io_bytes)
      | C_BO_NA \<Rightarrow> Some (
          bindE (decode_bitstring_value io_bytes) (\<lambda>(v, io_bytes). Ok (IoElement_C_BO_NA v, io_bytes)))
      | M_EI_NA \<Rightarrow> Some (
          bindE (byte_at io_bytes 0) (\<lambda>b.
            Ok (IoElement_M_EI_NA (b AND 0x80 \<noteq> 0) (b AND 0x7F), drop 1 io_bytes)))
      | C_IC_NA \<Rightarrow> Some (
          bindE (byte_at io_bytes 0) (\<lambda>b. Ok (IoElement_C_IC_NA b, drop 1 io_bytes)))
      | C_CI_NA \<Rightarrow> Some (
          bindE (byte_at io_bytes 0) (\<lambda>b. bindE (FreezeCode_of (drop_bit 6 b)) (\<lambda>freeze.
            Ok (IoElement_C_CI_NA (b AND 0x3F) freeze, drop 1 io_bytes))))
      | C_RD_NA \<Rightarrow> Some (
          Ok (IoElement_C_RD_NA, io_bytes))
      | C_CS_NA \<Rightarrow> Some (
          bindE (decode_time (take 7 io_bytes) TimeSize_SEVEN) (\<lambda>t.
            Ok (IoElement_C_CS_NA t, drop 7 io_bytes)))
      | C_TS_NA \<Rightarrow> Some (
          Ok (IoElement_C_TS_NA, drop 2 io_bytes))
      | _ \<Rightarrow> None)"

definition decode_io_element_4 :: "AsduType \<Rightarrow> bytes \<Rightarrow> (IoElement \<times> bytes) result option" where
  "decode_io_element_4 ty io_bytes =
     (case ty of
        C_RP_NA \<Rightarrow> Some (
          bindE (byte_at io_bytes 0) (\<lambda>b. Ok (IoElement_C_RP_NA b, drop 1 io_bytes)))
      | C_CD_NA \<Rightarrow> Some (
          Ok (IoElement_C_CD_NA (from_le (take 2 io_bytes)), drop 2 io_bytes))
      | P_ME_NA \<Rightarrow> Some (
          decode_vf decode_normalized_value IoElement_P_ME_NA io_bytes)
      | P_ME_NB \<Rightarrow> Some (
          decode_vf decode_scaled_value IoElement_P_ME_NB io_bytes)
      | P_ME_NC \<Rightarrow> Some (
          decode_vf decode_floating_value IoElement_P_ME_NC io_bytes)
      | P_AC_NA \<Rightarrow> Some (
          bindE (byte_at io_bytes 0) (\<lambda>b. Ok (IoElement_P_AC_NA b, drop 1 io_bytes)))
      | F_FR_NA \<Rightarrow> Some (
          bindE (byte_at io_bytes 5) (\<lambda>b5.
            Ok (IoElement_F_FR_NA (from_le (take 2 io_bytes)) (from_le (slice 2 5 io_bytes))
                  (b5 AND 0x80 \<noteq> 0), drop 6 io_bytes)))
      | F_SR_NA \<Rightarrow> Some (
          bindE (byte_at io_bytes 2) (\<lambda>b2. bindE (byte_at io_bytes 6) (\<lambda>b6.
            Ok (IoElement_F_SR_NA (from_le (take 2 io_bytes)) b2 (from_le (slice 3 6 io_bytes))
                  (b6 AND 0x80 \<noteq> 0), drop 7 io_bytes))))
      | F_SC_NA \<Rightarrow> Some (
          bindE (byte_at io_bytes 2) (\<lambda>b2. bindE (byte_at io_bytes 3) (\<lambda>b3.
            Ok (IoElement_F_SC_NA (from_le (take 2 io_bytes)) b2 b3, drop 4 io_bytes))))
      | F_LS_NA \<Rightarrow> Some (
          bindE (byte_at io_bytes 2) (\<lambda>b2. bindE (byte_at io_bytes 3) (\<lambda>b3.
          bindE (byte_at io_bytes 4) (\<lambda>b4.
            Ok (IoElement_F_LS_NA (from_le (take 2 io_bytes)) b2 b3 b4, drop 5 io_bytes)))))
      | F_AF_NA \<Rightarrow> Some (
          bindE (byte_at io_bytes 2) (\<lambda>b2. bindE (byte_at io_bytes 3) (\<lambda>b3.
            Ok (IoElement_F_AF_NA (from_le (take 2 io_bytes)) b2 b3, drop 4 io_bytes))))
      | F_SG_NA \<Rightarrow> Some (
          bindE (byte_at io_bytes 2) (\<lambda>b2. bindE (byte_at io_bytes 3) (\<lambda>len.
            Ok (IoElement_F_SG_NA (from_le (take 2 io_bytes)) b2
                  (slice 4 (4 + nat len) io_bytes), drop (4 + nat len) io_bytes))))
      | F_DR_TA \<Rightarrow> Some (
          bindE (byte_at io_bytes 5) (\<lambda>b5.
          bindE (decode_time (slice 6 13 io_bytes) TimeSize_SEVEN) (\<lambda>t.
            Ok (IoElement_F_DR_TA (from_le (take 2 io_bytes)) (from_le (slice 2 5 io_bytes))
                  (b5 AND 0x20 \<noteq> 0) (b5 AND 0x40 \<noteq> 0) (b5 AND 0x80 \<noteq> 0) t, drop 13 io_bytes))))
      | _ \<Rightarrow> None)"

definition decode_io_element :: "bytes \<Rightarrow> int \<Rightarrow> (IoElement \<times> bytes) result" where
  "decode_io_element io_bytes asdu_ty =
     bindE (decode_asdu_type asdu_ty) (\<lambda>ty.
       case decode_io_element_1 ty io_bytes of Some r \<Rightarrow> r | None \<Rightarrow>
       (case decode_io_element_2 ty io_bytes of Some r \<Rightarrow> r | None \<Rightarrow>
       (case decode_io_element_3 ty io_bytes of Some r \<Rightarrow> r | None \<Rightarrow>
       (case decode_io_element_4 ty io_bytes of Some r \<Rightarrow> r | None \<Rightarrow>
         Raise (ValueError ''unsupported ASDU type'')))))"

section \<open>Encoding\<close>

text \<open>The chain of \<open>isinstance\<close> tests, in three parts as well.\<close>

definition encode_io_element_1 :: "IoElement \<Rightarrow> int list result option" where
  "encode_io_element_1 element =
     (case element of
        IoElement_M_SP_NA v q \<Rightarrow> Some (
          Ok [SingleValue_value v OR hd (encode_quality q)])
      | IoElement_M_SP_TA v q \<Rightarrow> Some (
          Ok [SingleValue_value v OR hd (encode_quality q)])
      | IoElement_M_DP_NA v q \<Rightarrow> Some (
          Ok [DoubleValue_value v OR hd (encode_quality q)])
      | IoElement_M_DP_TA v q \<Rightarrow> Some (
          Ok [DoubleValue_value v OR hd (encode_quality q)])
      | IoElement_M_ST_NA v q \<Rightarrow> Some (
          appendE (encode_step_position_value v) (Ok (encode_quality q)))
      | IoElement_M_ST_TA v q \<Rightarrow> Some (
          appendE (encode_step_position_value v) (Ok (encode_quality q)))
      | IoElement_M_BO_NA v q \<Rightarrow> Some (
          appendE (encode_bitstring_value v) (Ok (encode_quality q)))
      | IoElement_M_BO_TA v q \<Rightarrow> Some (
          appendE (encode_bitstring_value v) (Ok (encode_quality q)))
      | IoElement_M_ME_NA v q \<Rightarrow> Some (
          appendE (encode_normalized_value v) (Ok (encode_quality q)))
      | IoElement_M_ME_TA v q \<Rightarrow> Some (
          appendE (encode_normalized_value v) (Ok (encode_quality q)))
      | IoElement_M_ME_NB v q \<Rightarrow> Some (
          appendE (encode_scaled_value v) (Ok (encode_quality q)))
      | IoElement_M_ME_TB v q \<Rightarrow> Some (
          appendE (encode_scaled_value v) (Ok (encode_quality q)))
      | IoElement_M_ME_NC v q \<Rightarrow> Some (
          appendE (encode_floating_value v) (Ok (encode_quality q)))
      | IoElement_M_ME_TC v q \<Rightarrow> Some (
          appendE (encode_floating_value v) (Ok (encode_quality q)))
      | IoElement_M_IT_NA v q \<Rightarrow> Some (
          appendE (encode_binary_counter_value v) (Ok (encode_quality q)))
      | IoElement_M_IT_TA v q \<Rightarrow> Some (
          appendE (encode_binary_counter_value v) (Ok (encode_quality q)))
      | IoElement_M_EP_TA v q tm \<Rightarrow> Some (
          appendE (Ok [ProtectionValue_value v OR hd (encode_quality q)]) (to_le 2 tm))
      | IoElement_M_EP_TB v q tm \<Rightarrow> Some (
          appendE (encode_protection_start_value v) (appendE (Ok (encode_quality q)) (to_le 2 tm)))
      | IoElement_M_EP_TC v q tm \<Rightarrow> Some (
          appendE (encode_protection_command_value v) (appendE (Ok (encode_quality q)) (to_le 2 tm)))
      | IoElement_M_PS_NA v q \<Rightarrow> Some (
          appendE (encode_status_value v) (Ok (encode_quality q)))
      | IoElement_M_ME_ND v \<Rightarrow> Some (
          encode_normalized_value v)
      | _ \<Rightarrow> None)"

definition encode_io_element_2 :: "IoElement \<Rightarrow> int list result option" where
  "encode_io_element_2 element =
     (case element of
        IoElement_M_SP_TB v q \<Rightarrow> Some (
          Ok [SingleValue_value v OR hd (encode_quality q)])
      | IoElement_M_DP_TB v q \<Rightarrow> Some (
          Ok [DoubleValue_value v OR hd (encode_quality q)])
      | IoElement_M_ST_TB v q \<Rightarrow> Some (
          appendE (encode_step_position_value v) (Ok (encode_quality q)))
      | IoElement_M_BO_TB v q \<Rightarrow> Some (
          appendE (encode_bitstring_value v) (Ok (encode_quality q)))
      | IoElement_M_ME_TD v q \<Rightarrow> Some (
          appendE (encode_normalized_value v) (Ok (encode_quality q)))
      | IoElement_M_ME_TE v q \<Rightarrow> Some (
          appendE (encode_scaled_value v) (Ok (encode_quality q)))
      | IoElement_M_ME_TF v q \<Rightarrow> Some (
          appendE (encode_floating_value v) (Ok (encode_quality q)))
      | IoElement_M_IT_TB v q \<Rightarrow> Some (
          appendE (encode_binary_counter_value v) (Ok (encode_quality q)))
      | IoElement_M_EP_TD v q tm \<Rightarrow> Some (
          appendE (Ok [ProtectionValue_value v OR hd (encode_quality q)]) (to_le 2 tm))
      | IoElement_M_EP_TE v q tm \<Rightarrow> Some (
          appendE (encode_protection_start_value v) (appendE (Ok (encode_quality q)) (to_le 2 tm)))
      | IoElement_M_EP_TF v q tm \<Rightarrow> Some (
          appendE (encode_protection_command_value v) (appendE (Ok (encode_quality q)) (to_le 2 tm)))
      | IoElement_C_SC_NA v sel ql \<Rightarrow> Some (
          Ok [SingleValue_value v OR (if sel then 0x80 else 0) OR push_bit 2 (ql AND 0x1F)])
      | IoElement_C_DC_NA v sel ql \<Rightarrow> Some (
          Ok [DoubleValue_value v OR (if sel then 0x80 else 0) OR push_bit 2 (ql AND 0x1F)])
      | IoElement_C_RC_NA v sel ql \<Rightarrow> Some (
          Ok [RegulatingValue_value v OR (if sel then 0x80 else 0) OR push_bit 2 (ql AND 0x1F)])
      | IoElement_C_SE_NA v sel \<Rightarrow> Some (
          appendE (encode_normalized_value v) (Ok [if sel then 0x80 else 0]))
      | IoElement_C_SE_NB v sel \<Rightarrow> Some (
          appendE (encode_scaled_value v) (Ok [if sel then 0x80 else 0]))
      | IoElement_C_SE_NC v sel \<Rightarrow> Some (
          appendE (encode_floating_value v) (Ok [if sel then 0x80 else 0]))
      | IoElement_C_BO_NA v \<Rightarrow> Some (
          encode_bitstring_value v)
      | IoElement_M_EI_NA param_change cause \<Rightarrow> Some (
          Ok [(if param_change then 0x80 else 0x00) OR (cause AND 0x7F)])
      | _ \<Rightarrow> None)"

definition encode_io_element_3 :: "IoElement \<Rightarrow> int list result option" where
  "encode_io_element_3 element =
     (case element of
        IoElement_C_IC_NA qualifier \<Rightarrow> Some (
          Ok [qualifier AND 0xFF])
      | IoElement_C_CI_NA request freeze \<Rightarrow> Some (
          Ok [push_bit 6 (FreezeCode_value freeze) OR (request AND 0x3F)])
      | IoElement_C_RD_NA \<Rightarrow> Some (
          Ok [])
      | IoElement_C_CS_NA t \<Rightarrow> Some (
          encode_time t TimeSize_SEVEN)
      | IoElement_C_TS_NA \<Rightarrow> Some (
          Ok [0xAA, 0x55])
      | IoElement_C_RP_NA qualifier \<Rightarrow> Some (
          Ok [qualifier AND 0xFF])
      | IoElement_C_CD_NA tm \<Rightarrow> Some (
          to_le 2 tm)
      | IoElement_P_ME_NA v ql \<Rightarrow> Some (
          appendE (encode_normalized_value v) (Ok [ql AND 0xFF]))
      | IoElement_P_ME_NB v ql \<Rightarrow> Some (
          appendE (encode_scaled_value v) (Ok [ql AND 0xFF]))
      | IoElement_P_ME_NC v ql \<Rightarrow> Some (
          appendE (encode_floating_value v) (Ok [ql AND 0xFF]))
      | IoElement_P_AC_NA qualifier \<Rightarrow> Some (
          Ok [qualifier AND 0xFF])
      | IoElement_F_FR_NA file_name file_length ready \<Rightarrow> Some (
          appendE (to_le 2 file_name) (appendE (to_le 3 file_length)
            (Ok [if ready then 0x80 else 0x00])))
      | IoElement_F_SR_NA file_name section_name section_length ready \<Rightarrow> Some (
          appendE (to_le 2 file_name) (appendE (Ok [section_name AND 0xFF])
            (appendE (to_le 3 section_length) (Ok [if ready then 0x80 else 0x00]))))
      | IoElement_F_SC_NA file_name section_name qualifier \<Rightarrow> Some (
          appendE (to_le 2 file_name) (Ok [section_name AND 0xFF, qualifier AND 0xFF]))
      | IoElement_F_LS_NA file_name section_name last_qualifier checksum \<Rightarrow> Some (
          appendE (to_le 2 file_name)
            (Ok [section_name AND 0xFF, last_qualifier AND 0xFF, checksum AND 0xFF]))
      | IoElement_F_AF_NA file_name section_name qualifier \<Rightarrow> Some (
          appendE (to_le 2 file_name) (Ok [section_name AND 0xFF, qualifier AND 0xFF]))
      | IoElement_F_SG_NA file_name section_name segment \<Rightarrow> Some (
          appendE (to_le 2 file_name) (Ok ((section_name AND 0xFF) # int (length segment) # map uint segment)))
      | IoElement_F_DR_TA file_name file_length more_follows is_directory transfer_active creation_time \<Rightarrow> Some (
          appendE (to_le 2 file_name) (appendE (to_le 3 file_length)
            (appendE (Ok [(if more_follows then 0x20 else 0x00) OR
               (if is_directory then 0x40 else 0x00) OR (if transfer_active then 0x80 else 0x00)])
             (encode_time creation_time TimeSize_SEVEN))))
      | _ \<Rightarrow> None)"

definition encode_io_element :: "IoElement \<Rightarrow> int \<Rightarrow> int list result" where
  "encode_io_element element asdu_ty =
     bindE (decode_asdu_type asdu_ty) (\<lambda>ty.
       case encode_io_element_1 element of Some r \<Rightarrow> r | None \<Rightarrow>
       (case encode_io_element_2 element of Some r \<Rightarrow> r | None \<Rightarrow>
       (case encode_io_element_3 element of Some r \<Rightarrow> r | None \<Rightarrow>
         Raise (ValueError ''unsupported IO element''))))"

section \<open>Documented ranges\<close>

text \<open>
  The ranges that the docstrings of the element classes give, with the quality class that
  their annotations name.
\<close>

definition io_element_fields_ok_1 :: "IoElement \<Rightarrow> bool" where
  "io_element_fields_ok_1 element =
     (case element of
        IoElement_M_SP_NA _ q \<Rightarrow>
          quality_ok QualityType_INDICATION q
      | IoElement_M_SP_TA _ q \<Rightarrow>
          quality_ok QualityType_INDICATION q
      | IoElement_M_DP_NA _ q \<Rightarrow>
          quality_ok QualityType_INDICATION q
      | IoElement_M_DP_TA _ q \<Rightarrow>
          quality_ok QualityType_INDICATION q
      | IoElement_M_ST_NA v q \<Rightarrow>
          step_position_ok v \<and> quality_ok QualityType_MEASUREMENT q
      | IoElement_M_ST_TA v q \<Rightarrow>
          step_position_ok v \<and> quality_ok QualityType_MEASUREMENT q
      | IoElement_M_BO_NA v q \<Rightarrow>
          bitstring_ok v \<and> quality_ok QualityType_MEASUREMENT q
      | IoElement_M_BO_TA v q \<Rightarrow>
          bitstring_ok v \<and> quality_ok QualityType_MEASUREMENT q
      | IoElement_M_ME_NA v q \<Rightarrow>
          normalized_ok v \<and> quality_ok QualityType_MEASUREMENT q
      | IoElement_M_ME_TA v q \<Rightarrow>
          normalized_ok v \<and> quality_ok QualityType_MEASUREMENT q
      | IoElement_M_ME_NB v q \<Rightarrow>
          scaled_ok v \<and> quality_ok QualityType_MEASUREMENT q
      | IoElement_M_ME_TB v q \<Rightarrow>
          scaled_ok v \<and> quality_ok QualityType_MEASUREMENT q
      | IoElement_M_ME_NC v q \<Rightarrow>
          floating_ok v \<and> quality_ok QualityType_MEASUREMENT q
      | IoElement_M_ME_TC v q \<Rightarrow>
          floating_ok v \<and> quality_ok QualityType_MEASUREMENT q
      | IoElement_M_IT_NA v q \<Rightarrow>
          binary_counter_ok v \<and> quality_ok QualityType_COUNTER q
      | IoElement_M_IT_TA v q \<Rightarrow>
          binary_counter_ok v \<and> quality_ok QualityType_COUNTER q
      | IoElement_M_EP_TA _ q tm \<Rightarrow>
          quality_ok QualityType_PROTECTION q \<and> 0 \<le> tm \<and> tm < 65536
      | IoElement_M_EP_TB _ q tm \<Rightarrow>
          quality_ok QualityType_PROTECTION q \<and> 0 \<le> tm \<and> tm < 65536
      | IoElement_M_EP_TC _ q tm \<Rightarrow>
          quality_ok QualityType_PROTECTION q \<and> 0 \<le> tm \<and> tm < 65536
      | _ \<Rightarrow> False)"

definition io_element_fields_ok_2 :: "IoElement \<Rightarrow> bool" where
  "io_element_fields_ok_2 element =
     (case element of
        IoElement_M_PS_NA v q \<Rightarrow>
          status_ok v \<and> quality_ok QualityType_MEASUREMENT q
      | IoElement_M_ME_ND v \<Rightarrow>
          normalized_ok v
      | IoElement_M_SP_TB _ q \<Rightarrow>
          quality_ok QualityType_INDICATION q
      | IoElement_M_DP_TB _ q \<Rightarrow>
          quality_ok QualityType_INDICATION q
      | IoElement_M_ST_TB v q \<Rightarrow>
          step_position_ok v \<and> quality_ok QualityType_MEASUREMENT q
      | IoElement_M_BO_TB v q \<Rightarrow>
          bitstring_ok v \<and> quality_ok QualityType_MEASUREMENT q
      | IoElement_M_ME_TD v q \<Rightarrow>
          normalized_ok v \<and> quality_ok QualityType_MEASUREMENT q
      | IoElement_M_ME_TE v q \<Rightarrow>
          scaled_ok v \<and> quality_ok QualityType_MEASUREMENT q
      | IoElement_M_ME_TF v q \<Rightarrow>
          floating_ok v \<and> quality_ok QualityType_MEASUREMENT q
      | IoElement_M_IT_TB v q \<Rightarrow>
          binary_counter_ok v \<and> quality_ok QualityType_COUNTER q
      | IoElement_M_EP_TD _ q tm \<Rightarrow>
          quality_ok QualityType_PROTECTION q \<and> 0 \<le> tm \<and> tm < 65536
      | IoElement_M_EP_TE _ q tm \<Rightarrow>
          quality_ok QualityType_PROTECTION q \<and> 0 \<le> tm \<and> tm < 65536
      | IoElement_M_EP_TF _ q tm \<Rightarrow>
          quality_ok QualityType_PROTECTION q \<and> 0 \<le> tm \<and> tm < 65536
      | IoElement_C_SC_NA _ _ ql \<Rightarrow>
          0 \<le> ql \<and> ql < 32
      | IoElement_C_DC_NA _ _ ql \<Rightarrow>
          0 \<le> ql \<and> ql < 32
      | IoElement_C_RC_NA _ _ ql \<Rightarrow>
          0 \<le> ql \<and> ql < 32
      | IoElement_C_SE_NA v _ \<Rightarrow>
          normalized_ok v
      | IoElement_C_SE_NB v _ \<Rightarrow>
          scaled_ok v
      | IoElement_C_SE_NC v _ \<Rightarrow>
          floating_ok v
      | IoElement_C_BO_NA v \<Rightarrow>
          bitstring_ok v
      | _ \<Rightarrow> False)"

definition io_element_fields_ok_3 :: "IoElement \<Rightarrow> bool" where
  "io_element_fields_ok_3 element =
     (case element of
        IoElement_M_EI_NA _ cause \<Rightarrow>
          0 \<le> cause \<and> cause < 128
      | IoElement_C_IC_NA qualifier \<Rightarrow>
          0 \<le> qualifier \<and> qualifier < 256
      | IoElement_C_CI_NA request _ \<Rightarrow>
          0 \<le> request \<and> request < 64
      | IoElement_C_RD_NA \<Rightarrow>
          True
      | IoElement_C_CS_NA t \<Rightarrow>
          time_ok t \<and> time_size t = TimeSize_SEVEN
      | IoElement_C_TS_NA \<Rightarrow>
          True
      | IoElement_C_RP_NA qualifier \<Rightarrow>
          0 \<le> qualifier \<and> qualifier < 256
      | IoElement_C_CD_NA tm \<Rightarrow>
          0 \<le> tm \<and> tm < 65536
      | IoElement_P_ME_NA v ql \<Rightarrow>
          normalized_ok v \<and> 0 \<le> ql \<and> ql < 256
      | IoElement_P_ME_NB v ql \<Rightarrow>
          scaled_ok v \<and> 0 \<le> ql \<and> ql < 256
      | IoElement_P_ME_NC v ql \<Rightarrow>
          floating_ok v \<and> 0 \<le> ql \<and> ql < 256
      | IoElement_P_AC_NA qualifier \<Rightarrow>
          0 \<le> qualifier \<and> qualifier < 256
      | IoElement_F_FR_NA file_name file_length _ \<Rightarrow>
          0 \<le> file_name \<and> file_name < 65536 \<and> 0 \<le> file_length \<and> file_length < 16777216
      | IoElement_F_SR_NA file_name section_name section_length _ \<Rightarrow>
          0 \<le> file_name \<and> file_name < 65536 \<and> 0 \<le> section_name \<and> section_name < 256 \<and>
          0 \<le> section_length \<and> section_length < 16777216
      | IoElement_F_SC_NA file_name section_name qualifier \<Rightarrow>
          0 \<le> file_name \<and> file_name < 65536 \<and> 0 \<le> section_name \<and> section_name < 256 \<and>
          0 \<le> qualifier \<and> qualifier < 256
      | IoElement_F_LS_NA file_name section_name last_qualifier checksum \<Rightarrow>
          0 \<le> file_name \<and> file_name < 65536 \<and> 0 \<le> section_name \<and> section_name < 256 \<and>
          0 \<le> last_qualifier \<and> last_qualifier < 256 \<and> 0 \<le> checksum \<and> checksum < 256
      | IoElement_F_AF_NA file_name section_name qualifier \<Rightarrow>
          0 \<le> file_name \<and> file_name < 65536 \<and> 0 \<le> section_name \<and> section_name < 256 \<and>
          0 \<le> qualifier \<and> qualifier < 256
      | IoElement_F_SG_NA file_name section_name segment \<Rightarrow>
          0 \<le> file_name \<and> file_name < 65536 \<and> 0 \<le> section_name \<and> section_name < 256 \<and>
          length segment < 256
      | IoElement_F_DR_TA file_name file_length _ _ _ creation_time \<Rightarrow>
          0 \<le> file_name \<and> file_name < 65536 \<and> 0 \<le> file_length \<and> file_length < 16777216 \<and>
          time_ok creation_time \<and> time_size creation_time = TimeSize_SEVEN
      | _ \<Rightarrow> False)"

text \<open>The type identification that belongs to an element class, as their names say.\<close>

definition element_asdu_type :: "IoElement \<Rightarrow> AsduType" where
  "element_asdu_type element =
     (case element of
        IoElement_M_SP_NA _ _ \<Rightarrow> M_SP_NA
      | IoElement_M_SP_TA _ _ \<Rightarrow> M_SP_TA
      | IoElement_M_DP_NA _ _ \<Rightarrow> M_DP_NA
      | IoElement_M_DP_TA _ _ \<Rightarrow> M_DP_TA
      | IoElement_M_ST_NA _ _ \<Rightarrow> M_ST_NA
      | IoElement_M_ST_TA _ _ \<Rightarrow> M_ST_TA
      | IoElement_M_BO_NA _ _ \<Rightarrow> M_BO_NA
      | IoElement_M_BO_TA _ _ \<Rightarrow> M_BO_TA
      | IoElement_M_ME_NA _ _ \<Rightarrow> M_ME_NA
      | IoElement_M_ME_TA _ _ \<Rightarrow> M_ME_TA
      | IoElement_M_ME_NB _ _ \<Rightarrow> M_ME_NB
      | IoElement_M_ME_TB _ _ \<Rightarrow> M_ME_TB
      | IoElement_M_ME_NC _ _ \<Rightarrow> M_ME_NC
      | IoElement_M_ME_TC _ _ \<Rightarrow> M_ME_TC
      | IoElement_M_IT_NA _ _ \<Rightarrow> M_IT_NA
      | IoElement_M_IT_TA _ _ \<Rightarrow> M_IT_TA
      | IoElement_M_EP_TA _ _ _ \<Rightarrow> M_EP_TA
      | IoElement_M_EP_TB _ _ _ \<Rightarrow> M_EP_TB
      | IoElement_M_EP_TC _ _ _ \<Rightarrow> M_EP_TC
      | IoElement_M_PS_NA _ _ \<Rightarrow> M_PS_NA
      | IoElement_M_ME_ND _ \<Rightarrow> M_ME_ND
      | IoElement_M_SP_TB _ _ \<Rightarrow> M_SP_TB
      | IoElement_M_DP_TB _ _ \<Rightarrow> M_DP_TB
      | IoElement_M_ST_TB _ _ \<Rightarrow> M_ST_TB
      | IoElement_M_BO_TB _ _ \<Rightarrow> M_BO_TB
      | IoElement_M_ME_TD _ _ \<Rightarrow> M_ME_TD
      | IoElement_M_ME_TE _ _ \<Rightarrow> M_ME_TE
      | IoElement_M_ME_TF _ _ \<Rightarrow> M_ME_TF
      | IoElement_M_IT_TB _ _ \<Rightarrow> M_IT_TB
      | IoElement_M_EP_TD _ _ _ \<Rightarrow> M_EP_TD
      | IoElement_M_EP_TE _ _ _ \<Rightarrow> M_EP_TE
      | IoElement_M_EP_TF _ _ _ \<Rightarrow> M_EP_TF
      | IoElement_C_SC_NA _ _ _ \<Rightarrow> C_SC_NA
      | IoElement_C_DC_NA _ _ _ \<Rightarrow> C_DC_NA
      | IoElement_C_RC_NA _ _ _ \<Rightarrow> C_RC_NA
      | IoElement_C_SE_NA _ _ \<Rightarrow> C_SE_NA
      | IoElement_C_SE_NB _ _ \<Rightarrow> C_SE_NB
      | IoElement_C_SE_NC _ _ \<Rightarrow> C_SE_NC
      | IoElement_C_BO_NA _ \<Rightarrow> C_BO_NA
      | IoElement_M_EI_NA _ _ \<Rightarrow> M_EI_NA
      | IoElement_C_IC_NA _ \<Rightarrow> C_IC_NA
      | IoElement_C_CI_NA _ _ \<Rightarrow> C_CI_NA
      | IoElement_C_RD_NA \<Rightarrow> C_RD_NA
      | IoElement_C_CS_NA _ \<Rightarrow> C_CS_NA
      | IoElement_C_TS_NA \<Rightarrow> C_TS_NA
      | IoElement_C_RP_NA _ \<Rightarrow> C_RP_NA
      | IoElement_C_CD_NA _ \<Rightarrow> C_CD_NA
      | IoElement_P_ME_NA _ _ \<Rightarrow> P_ME_NA
      | IoElement_P_ME_NB _ _ \<Rightarrow> P_ME_NB
      | IoElement_P_ME_NC _ _ \<Rightarrow> P_ME_NC
      | IoElement_P_AC_NA _ \<Rightarrow> P_AC_NA
      | IoElement_F_FR_NA _ _ _ \<Rightarrow> F_FR_NA
      | IoElement_F_SR_NA _ _ _ _ \<Rightarrow> F_SR_NA
      | IoElement_F_SC_NA _ _ _ \<Rightarrow> F_SC_NA
      | IoElement_F_LS_NA _ _ _ _ \<Rightarrow> F_LS_NA
      | IoElement_F_AF_NA _ _ _ \<Rightarrow> F_AF_NA
      | IoElement_F_SG_NA _ _ _ \<Rightarrow> F_SG_NA
      | IoElement_F_DR_TA _ _ _ _ _ _ \<Rightarrow> F_DR_TA)"

section \<open>Round trips of the shared statements\<close>

named_theorems element_shapes \<open>round trips of the statements that branches share\<close>

lemma vq_roundtrip [element_shapes]:
  assumes "decodes_to m dv v" "quality_ok qt q"
  shows "decodes_to (appendE m (Ok (encode_quality q))) (decode_vq dv qt con) (con v q)"
  unfolding decode_vq_def
  by (rule decodes_to_seq2 [OF assms(1) encode_decode_quality [OF assms(2)]])

lemma int2_roundtrip:
  "0 \<le> tm \<Longrightarrow> tm < 65536 \<Longrightarrow> decodes_to (to_le 2 tm) (\<lambda>bs. Ok (from_le (take 2 bs), drop 2 bs)) tm"
  by (intro decodes_toI [where ys = "le_digits 2 tm"]) (simp_all add: from_le_wire_digits)

lemma vqt_roundtrip [element_shapes]:
  assumes "decodes_to m dv v" "quality_ok qt q" "0 \<le> tm" "tm < 65536"
  shows "decodes_to (appendE m (appendE (Ok (encode_quality q)) (to_le 2 tm))) (decode_vqt dv qt con) (con v q tm)"
proof -
  from decodes_to_seq2 [OF encode_decode_quality [OF assms(2)] int2_roundtrip [OF assms(3,4)], of Pair]
  have "decodes_to (appendE (Ok (encode_quality q)) (to_le 2 tm))
      (\<lambda>bs. bindE (decode_quality bs qt) (\<lambda>(q, bs). Ok ((q, from_le (take 2 bs)), drop 2 bs))) (q, tm)"
    by simp
  from decodes_to_seq2 [OF assms(1) this, of "\<lambda>v (q, tm). con v q tm"]
  show ?thesis by (simp add: decode_vqt_def [abs_def] bindE_assoc case_prod_beta')
qed

lemma vs_roundtrip [element_shapes]:
  assumes "decodes_to m dv v"
  shows "decodes_to (appendE m (Ok [if sel then 128 else 0])) (decode_vs dv con) (con v sel)"
proof -
  have "decodes_to (Ok [if sel then 128 else 0])
      (\<lambda>bs. bindE (byte_at bs 0) (\<lambda>b. Ok (b AND 128 \<noteq> 0, drop 1 bs))) sel"
    by (cases sel) (rule decodes_toI [OF refl]; simp add: uint_of_byte is_byte_num)+
  from decodes_to_seq2 [OF assms this, of con] show ?thesis
    by (simp add: decode_vs_def [abs_def] bindE_assoc)
qed

lemma vf_roundtrip [element_shapes]:
  assumes "decodes_to m dv v" "0 \<le> ql" "ql < 256"
  shows "decodes_to (appendE m (Ok [ql AND 255])) (decode_vf dv con) (con v ql)"
proof -
  have "decodes_to (Ok [ql AND 255]) (\<lambda>bs. bindE (byte_at bs 0) (\<lambda>b. Ok (b, drop 1 bs))) ql"
    using assms by (intro decodes_toI [OF refl]) (simp_all add: uint_of_byte is_byte_num mask_mod)
  from decodes_to_seq2 [OF assms(1) this, of con] show ?thesis
    by (simp add: decode_vf_def [abs_def] bindE_assoc)
qed

text \<open>Enumeration members read from the two low bits of a byte.\<close>

definition low_bits_enum :: "(int \<Rightarrow> 'v result) \<Rightarrow> int \<Rightarrow> 'v \<Rightarrow> bool" where
  "low_bits_enum f n v \<longleftrightarrow> 0 \<le> n \<and> n < 4 \<and> (\<forall>b. b AND 3 = n \<longrightarrow> f b = Ok v)"

lemma low_bits_enums [element_shapes]:
  "low_bits_enum (\<lambda>b. SingleValue_of (b AND 1)) (SingleValue_value sv) sv"
  "low_bits_enum (\<lambda>b. DoubleValue_of (b AND 3)) (DoubleValue_value dv) dv"
  "low_bits_enum (\<lambda>b. RegulatingValue_of (b AND 3)) (RegulatingValue_value rv) rv"
  "low_bits_enum (\<lambda>b. ProtectionValue_of (b AND 3)) (ProtectionValue_value pv) pv"
proof -
  have "SingleValue_of (b AND 1) = Ok sv" if "b AND 3 = SingleValue_value sv" for b
  proof -
    have "b AND 1 = (b AND 3) AND 1" unfolding and.assoc by simp
    also have "\<dots> = SingleValue_value sv" using that by (cases sv) simp_all
    finally show ?thesis by simp
  qed
  then show "low_bits_enum (\<lambda>b. SingleValue_of (b AND 1)) (SingleValue_value sv) sv"
    by (cases sv) (simp_all add: low_bits_enum_def)
next
  show "low_bits_enum (\<lambda>b. DoubleValue_of (b AND 3)) (DoubleValue_value dv) dv"
    using DoubleValue_of_value [of dv] by (cases dv) (simp_all add: low_bits_enum_def)
  show "low_bits_enum (\<lambda>b. RegulatingValue_of (b AND 3)) (RegulatingValue_value rv) rv"
    using RegulatingValue_of_value [of rv] by (cases rv) (simp_all add: low_bits_enum_def)
  show "low_bits_enum (\<lambda>b. ProtectionValue_of (b AND 3)) (ProtectionValue_value pv) pv"
    using ProtectionValue_of_value [of pv] by (cases pv) (simp_all add: low_bits_enum_def)
qed

lemma peek_roundtrip:
  assumes "low_bits_enum f n v" "quality_ok qt q" "qt = QualityType_INDICATION \<or> qt = QualityType_PROTECTION"
  shows "is_byte (n OR hd (encode_quality q))"
    and "peek f (wire [n OR hd (encode_quality q)] @ rest) = Ok (v, wire [n OR hd (encode_quality q)] @ rest)"
    and "decode_quality (wire [n OR hd (encode_quality q)] @ rest) qt = Ok (q, rest)"
proof -
  have n: "0 \<le> n" "n < 4" and f: "\<And>b. b AND 3 = n \<Longrightarrow> f b = Ok v"
    using assms(1) by (auto simp: low_bits_enum_def)
  note d = decode_quality_value [OF assms(2) n assms(3)]
  show "is_byte (n OR hd (encode_quality q))" by (rule d(3))
  show "decode_quality (wire [n OR hd (encode_quality q)] @ rest) qt = Ok (q, rest)"
    using d(1) by simp
  show "peek f (wire [n OR hd (encode_quality q)] @ rest) = Ok (v, wire [n OR hd (encode_quality q)] @ rest)"
    using f [OF d(2)] d(3) by (simp add: peek_def uint_of_byte)
qed

lemma pq_roundtrip [element_shapes]:
  assumes "low_bits_enum f n v" "quality_ok qt q" "qt = QualityType_INDICATION \<or> qt = QualityType_PROTECTION"
  shows "decodes_to (Ok [n OR hd (encode_quality q)]) (decode_vq (peek f) qt con) (con v q)"
  using peek_roundtrip [OF assms]
  by (intro decodes_toI [OF refl]) (simp_all add: decode_vq_def)

lemma pqt_roundtrip [element_shapes]:
  assumes "low_bits_enum f n v" "quality_ok qt q" "qt = QualityType_INDICATION \<or> qt = QualityType_PROTECTION"
    and "0 \<le> tm" "tm < 65536"
  shows "decodes_to (appendE (Ok [n OR hd (encode_quality q)]) (to_le 2 tm)) (decode_vqt (peek f) qt con) (con v q tm)"
  using peek_roundtrip [OF assms(1-3)] assms(4,5)
  by (intro decodes_toI [where ys = "(n OR hd (encode_quality q)) # le_digits 2 tm"])
    (simp_all add: decode_vqt_def from_le_wire_digits)

lemma command_byte:
  fixes n ql :: int and sel :: bool
  assumes "0 \<le> n" "n < 4" "0 \<le> ql" "ql < 32"
  defines "b \<equiv> n OR (if sel then 128 else 0) OR push_bit 2 (ql AND 31)"
  shows "is_byte b" "b AND 3 = n" "(b AND 128 = 0) = (\<not> sel)" "drop_bit 2 b AND 31 = ql"
proof -
  have n: "n = n AND 3" and ql: "ql AND 31 = ql" using assms by (simp_all add: mask_mod)
  have "is_byte (push_bit 2 ql)" "is_byte n" using assms by (simp_all add: is_byte_def push_bit_eq_mult)
  then show "is_byte b" unfolding b_def ql by (intro is_byte_or is_byte_if) (simp_all add: is_byte_num)
  have "push_bit 2 ql AND 3 = 0" by (simp add: mask_mod push_bit_eq_mult)
  then show "b AND 3 = n" using n ql by (simp add: b_def or_mask)
  show "(b AND 128 = 0) = (\<not> sel)"
    unfolding b_def by (subst n) (simp add: bit_tests bit_simps)
  have "drop_bit 2 n = 0" using assms by (simp add: drop_bit_eq_div)
  moreover have "drop_bit 2 (if sel then 128 else 0) AND 31 = (0 :: int)" by simp
  ultimately show "drop_bit 2 b AND 31 = ql"
    using ql by (simp add: b_def or_mask drop_bit_push_bit)
qed

lemma cmd_roundtrip [element_shapes]:
  assumes "low_bits_enum f n v" "0 \<le> ql" "ql < 32"
  shows "decodes_to (Ok [n OR (if sel then 128 else 0) OR push_bit 2 (ql AND 31)]) (decode_cmd f con) (con v sel ql)"
proof -
  have n: "0 \<le> n" "n < 4" and f: "\<And>b. b AND 3 = n \<Longrightarrow> f b = Ok v"
    using assms(1) by (auto simp: low_bits_enum_def)
  note b = command_byte [OF n assms(2,3), of sel]
  define b where "b = n OR (if sel then 128 else 0) OR push_bit 2 (ql AND 31)"
  show ?thesis
    using b f [OF b(2)] unfolding b_def [symmetric]
    by (intro decodes_toI [OF refl]) (simp_all add: decode_cmd_def uint_of_byte)
qed

lemma v_roundtrip [element_shapes]:
  assumes "decodes_to m dv v"
  shows "decodes_to m (\<lambda>bs. bindE (dv bs) (\<lambda>(v, bs). Ok (con v, bs))) (con v)"
  using assms by (auto simp: decodes_to_def)

subsection \<open>Elements with fields of their own\<close>

lemma flag_byte_roundtrip:
  fixes x :: int and c :: bool
  assumes "0 \<le> x" "x < 128"
  shows "is_byte ((if c then 128 else 0) OR (x AND 127))"
    "(((if c then 128 else 0) OR (x AND 127)) AND 128 = 0) = (\<not> c)"
    "((if c then 128 else 0) OR (x AND 127)) AND 127 = x"
proof -
  have x: "x AND 127 = x" using assms by (simp add: mask_mod)
  show "is_byte ((if c then 128 else 0) OR (x AND 127))"
    unfolding x using assms by (intro is_byte_or is_byte_if) (simp_all add: is_byte_num)
  show "(((if c then 128 else 0) OR (x AND 127)) AND 128 = 0) = (\<not> c)"
    by (simp add: bit_tests bit_simps)
  show "((if c then 128 else 0) OR (x AND 127)) AND 127 = x"
    using x by (simp add: or_mask)
qed

lemma freeze_byte_roundtrip:
  fixes x :: int
  assumes "0 \<le> x" "x < 64"
  shows "is_byte (push_bit 6 (FreezeCode_value fr) OR (x AND 63))"
    "drop_bit 6 (push_bit 6 (FreezeCode_value fr) OR (x AND 63)) = FreezeCode_value fr"
    "(push_bit 6 (FreezeCode_value fr) OR (x AND 63)) AND 63 = x"
proof -
  have x: "x AND 63 = x" using assms by (simp add: mask_mod)
  have "push_bit 6 (FreezeCode_value fr) OR x = push_bit 6 (FreezeCode_value fr) + x"
    using assms by (intro or_disjoint_add [where n = 6]) (simp_all add: push_bit_eq_mult)
  moreover have "0 \<le> FreezeCode_value fr" "FreezeCode_value fr < 4" by (cases fr; simp)+
  ultimately show "is_byte (push_bit 6 (FreezeCode_value fr) OR (x AND 63))"
    "drop_bit 6 (push_bit 6 (FreezeCode_value fr) OR (x AND 63)) = FreezeCode_value fr"
    "(push_bit 6 (FreezeCode_value fr) OR (x AND 63)) AND 63 = x"
    using assms x by (simp_all add: push_bit_eq_mult is_byte_def drop_bit_eq_div mask_mod)
qed

lemma directory_flags:
  fixes a b c :: bool
  defines "x \<equiv> (if a then 0x20 else 0x00) OR (if b then 0x40 else 0x00) OR (if c then 0x80 else (0x00 :: int))"
  shows "is_byte x" "(x AND 0x20 = 0) = (\<not> a)" "(x AND 0x40 = 0) = (\<not> b)" "(x AND 0x80 = 0) = (\<not> c)"
  by (cases a; cases b; cases c; simp add: x_def is_byte_def)+

lemma mask_byte: "0 \<le> x \<Longrightarrow> x < 256 \<Longrightarrow> x AND 255 = (x :: int)" "0 \<le> x \<Longrightarrow> x < 256 \<Longrightarrow> is_byte x"
  by (simp_all add: mask_mod is_byte_def)

lemmas slice_simps = slice_def from_le_wire_digits byte_at_append [unfolded length_le_digits]

text \<open>
  \<open>io_element_ok n e\<close>: the element is within its documented ranges, and \<open>n\<close> is the value of
  the type identification that its class is named after.
\<close>

definition io_element_ok :: "int \<Rightarrow> IoElement \<Rightarrow> bool" where
  "io_element_ok n e \<longleftrightarrow>
     element_asdu_type e \<noteq> M_BO_TA \<and> n = AsduType_value (element_asdu_type e) \<and>
     (io_element_fields_ok_1 e \<or> io_element_fields_ok_2 e \<or> io_element_fields_ok_3 e)"

lemma decode_asdu_type_value [simp]: "decode_asdu_type (AsduType_value ty) = Ok ty"
  by (simp add: decode_asdu_type_def)

lemmas value_roundtrips =
  encode_decode_step_position encode_decode_bitstring encode_decode_normalized
  encode_decode_scaled encode_decode_floating encode_decode_binary_counter
  encode_decode_protection_start encode_decode_protection_command encode_decode_status

lemma element_typed:
  "encode_io_element e (AsduType_value ty) =
     (case encode_io_element_1 e of Some r \<Rightarrow> r | None \<Rightarrow>
     (case encode_io_element_2 e of Some r \<Rightarrow> r | None \<Rightarrow>
     (case encode_io_element_3 e of Some r \<Rightarrow> r | None \<Rightarrow>
        Raise (ValueError ''unsupported IO element''))))"
  "decode_io_element bs (AsduType_value ty) =
     (case decode_io_element_1 ty bs of Some r \<Rightarrow> r | None \<Rightarrow>
     (case decode_io_element_2 ty bs of Some r \<Rightarrow> r | None \<Rightarrow>
     (case decode_io_element_3 ty bs of Some r \<Rightarrow> r | None \<Rightarrow>
     (case decode_io_element_4 ty bs of Some r \<Rightarrow> r | None \<Rightarrow>
        Raise (ValueError ''unsupported ASDU type'')))))"
  by (simp_all add: encode_io_element_def decode_io_element_def)

lemmas element_dispatch =
  element_asdu_type_def
  encode_io_element_1_def encode_io_element_2_def encode_io_element_3_def
  decode_io_element_1_def decode_io_element_2_def decode_io_element_3_def decode_io_element_4_def

abbreviation element_roundtrips :: "IoElement \<Rightarrow> bool" where
  "element_roundtrips e \<equiv>
     decodes_to (encode_io_element e (AsduType_value (element_asdu_type e)))
       (\<lambda>bs. decode_io_element bs (AsduType_value (element_asdu_type e))) e"

lemma element_codec_1:
  assumes "io_element_fields_ok_1 e" "element_asdu_type e \<noteq> M_BO_TA"
  shows "element_roundtrips e"
  using assms unfolding element_typed
  by (cases e) (simp_all add: io_element_fields_ok_1_def element_dispatch element_shapes value_roundtrips del: to_le_Ok)

lemma element_codec_2:
  assumes "io_element_fields_ok_2 e"
  shows "element_roundtrips e"
  using assms unfolding element_typed
  by (cases e) (simp_all add: io_element_fields_ok_2_def element_dispatch element_shapes value_roundtrips
      del: to_le_Ok push_bit_and split del: if_split)

lemma byte_roundtrip:
  "0 \<le> x \<Longrightarrow> x < 256 \<Longrightarrow>
    decodes_to (Ok [x AND 255]) (\<lambda>bs. bindE (byte_at bs 0) (\<lambda>b. Ok (con b, drop (Suc 0) bs))) (con x)"
  by (intro decodes_toI [OF refl]) (simp_all add: mask_byte uint_of_byte)

lemma flag_roundtrip:
  "decodes_to (Ok [if c then 128 else 0]) (\<lambda>bs. bindE (byte_at bs 0) (\<lambda>b. Ok (b AND 128 \<noteq> 0, drop (Suc 0) bs))) c"
  by (cases c) (rule decodes_toI [OF refl]; simp add: uint_of_byte is_byte_num)+

lemma parameter_change_roundtrip:
  "0 \<le> x \<Longrightarrow> x < 128 \<Longrightarrow> decodes_to (Ok [(if c then 128 else 0) OR (x AND 127)])
    (\<lambda>bs. bindE (byte_at bs 0) (\<lambda>b. Ok (con (b AND 128 \<noteq> 0) (b AND 127), drop (Suc 0) bs))) (con c x)"
  using flag_byte_roundtrip [of x c] by (intro decodes_toI [OF refl]) (simp_all add: uint_of_byte)

lemma freeze_roundtrip:
  "0 \<le> x \<Longrightarrow> x < 64 \<Longrightarrow> decodes_to (Ok [push_bit 6 (FreezeCode_value fr) OR (x AND 63)])
    (\<lambda>bs. bindE (byte_at bs 0) (\<lambda>b. bindE (FreezeCode_of (drop_bit 6 b)) (\<lambda>fr. Ok (con (b AND 63) fr, drop (Suc 0) bs))))
    (con x fr)"
  using freeze_byte_roundtrip [of x fr] by (intro decodes_toI [OF refl]) (simp_all add: uint_of_byte)

lemma time7_roundtrip:
  assumes "time_ok t" "time_size t = TimeSize_SEVEN"
  shows "\<exists>xs. encode_time t TimeSize_SEVEN = Ok xs \<and> length xs = 7 \<and> all_bytes xs \<and>
    (\<forall>rest. decode_time (wire xs @ rest) TimeSize_SEVEN = Ok t)"
  using encode_decode_time [of t TimeSize_SEVEN] time_restrict_same [of t] assms by simp

lemma two_roundtrip:
  "0 \<le> x \<Longrightarrow> x < 65536 \<Longrightarrow> decodes_to (to_le 2 x) (\<lambda>bs. Ok (con (from_le (take 2 bs)), drop 2 bs)) (con x)"
  by (intro decodes_toI [where ys = "le_digits 2 x"]) (simp_all add: from_le_wire_digits)

lemmas file_simps = slice_def from_le_wire_digits uint_of_byte is_byte_num byte_at_def nth_append mask_byte

lemma file_ready_roundtrip:
  assumes "0 \<le> n" "n < 65536" "0 \<le> l" "l < 16777216"
  shows "decodes_to (appendE (to_le 2 n) (appendE (to_le 3 l) (Ok [if r then 128 else 0])))
    (\<lambda>bs. bindE (byte_at bs 5) (\<lambda>b5.
       Ok (con (from_le (take 2 bs)) (from_le (slice 2 5 bs)) (b5 AND 128 \<noteq> 0), drop 6 bs))) (con n l r)"
  using assms
  by (intro decodes_toI [where ys = "le_digits 2 n @ le_digits 3 l @ [if r then 128 else 0]"])
    (simp_all add: file_simps)

lemma section_ready_roundtrip:
  assumes "0 \<le> n" "n < 65536" "0 \<le> s" "s < 256" "0 \<le> l" "l < 16777216"
  shows "decodes_to (appendE (to_le 2 n) (appendE (Ok [s AND 255]) (appendE (to_le 3 l) (Ok [if r then 128 else 0]))))
    (\<lambda>bs. bindE (byte_at bs 2) (\<lambda>b2. bindE (byte_at bs 6) (\<lambda>b6.
       Ok (con (from_le (take 2 bs)) b2 (from_le (slice 3 6 bs)) (b6 AND 128 \<noteq> 0), drop 7 bs)))) (con n s l r)"
  using assms
  by (intro decodes_toI [where ys = "le_digits 2 n @ [s] @ le_digits 3 l @ [if r then 128 else 0]"])
    (simp_all add: file_simps)

lemma section_call_roundtrip:
  assumes "0 \<le> n" "n < 65536" "0 \<le> s" "s < 256" "0 \<le> q" "q < 256"
  shows "decodes_to (appendE (to_le 2 n) (Ok [s AND 255, q AND 255]))
    (\<lambda>bs. bindE (byte_at bs 2) (\<lambda>b2. bindE (byte_at bs 3) (\<lambda>b3.
       Ok (con (from_le (take 2 bs)) b2 b3, drop 4 bs)))) (con n s q)"
  using assms by (intro decodes_toI [where ys = "le_digits 2 n @ [s, q]"]) (simp_all add: file_simps)

lemma last_section_roundtrip:
  assumes "0 \<le> n" "n < 65536" "0 \<le> s" "s < 256" "0 \<le> q" "q < 256" "0 \<le> c" "c < 256"
  shows "decodes_to (appendE (to_le 2 n) (Ok [s AND 255, q AND 255, c AND 255]))
    (\<lambda>bs. bindE (byte_at bs 2) (\<lambda>b2. bindE (byte_at bs 3) (\<lambda>b3. bindE (byte_at bs 4) (\<lambda>b4.
       Ok (con (from_le (take 2 bs)) b2 b3 b4, drop 5 bs))))) (con n s q c)"
  using assms by (intro decodes_toI [where ys = "le_digits 2 n @ [s, q, c]"]) (simp_all add: file_simps)

lemma segment_roundtrip:
  assumes "0 \<le> n" "n < 65536" "0 \<le> s" "s < 256" "length seg < 256"
  shows "decodes_to (appendE (to_le 2 n) (Ok ((s AND 255) # int (length seg) # map uint seg)))
    (\<lambda>bs. bindE (byte_at bs 2) (\<lambda>b2. bindE (byte_at bs 3) (\<lambda>len.
       Ok (con (from_le (take 2 bs)) b2 (slice 4 (4 + nat len) bs), drop (4 + nat len) bs)))) (con n s seg)"
proof -
  have "is_byte (int (length seg))" using assms by (simp add: is_byte_num)
  then have "uint (word_of_int (int (length seg)) :: byte) = int (length seg)" by (rule uint_of_byte)
  then show ?thesis
    using assms
    by (intro decodes_toI [where ys = "le_digits 2 n @ [s, int (length seg)] @ map uint seg"])
      (simp_all add: file_simps)
qed

lemma clock_roundtrip:
  assumes "time_ok t" "time_size t = TimeSize_SEVEN"
  shows "decodes_to (encode_time t TimeSize_SEVEN)
    (\<lambda>bs. bindE (decode_time (take 7 bs) TimeSize_SEVEN) (\<lambda>t. Ok (con t, drop 7 bs))) (con t)"
proof -
  obtain ts where ts: "encode_time t TimeSize_SEVEN = Ok ts" "length ts = 7" "all_bytes ts"
    "\<And>rest. decode_time (wire ts @ rest) TimeSize_SEVEN = Ok t"
    using time7_roundtrip [OF assms] by auto
  then show ?thesis
    using ts(4) [of "[]"] by (intro decodes_toI [where ys = ts]) simp_all
qed

lemma directory_roundtrip:
  assumes "0 \<le> n" "n < 65536" "0 \<le> l" "l < 16777216" "time_ok t" "time_size t = TimeSize_SEVEN"
  shows "decodes_to (appendE (to_le 2 n) (appendE (to_le 3 l)
      (appendE (Ok [(if a then 0x20 else 0x00) OR (if b then 0x40 else 0x00) OR (if c then 0x80 else 0x00)])
        (encode_time t TimeSize_SEVEN))))
    (\<lambda>bs. bindE (byte_at bs 5) (\<lambda>b5. bindE (decode_time (slice 6 13 bs) TimeSize_SEVEN) (\<lambda>t.
       Ok (con (from_le (take 2 bs)) (from_le (slice 2 5 bs))
         (b5 AND 0x20 \<noteq> 0) (b5 AND 0x40 \<noteq> 0) (b5 AND 0x80 \<noteq> 0) t, drop 13 bs)))) (con n l a b c t)"
proof -
  obtain ts where ts: "encode_time t TimeSize_SEVEN = Ok ts" "length ts = 7" "all_bytes ts"
    "\<And>rest. decode_time (wire ts @ rest) TimeSize_SEVEN = Ok t"
    using time7_roundtrip [OF assms(5,6)] by auto
  with assms show ?thesis
    using ts(4) [of "[]"] directory_flags [of a b c]
    by (intro decodes_toI [where ys = "le_digits 2 n @ le_digits 3 l @
          [(if a then 32 else 0) OR (if b then 64 else 0) OR (if c then 128 else 0)] @ ts"])
      (simp_all add: file_simps split del: if_split)
qed

lemma empty_roundtrip:
  "decodes_to (Ok []) (\<lambda>bs. Ok (e, bs)) e" "decodes_to (Ok [170, 85]) (\<lambda>bs. Ok (e, drop 2 bs)) e"
  by (simp_all add: decodes_to_def is_byte_num)

lemmas file_roundtrips =
  file_ready_roundtrip section_ready_roundtrip section_call_roundtrip last_section_roundtrip
  segment_roundtrip clock_roundtrip directory_roundtrip empty_roundtrip

lemma element_codec_3:
  assumes "io_element_fields_ok_3 e"
  shows "element_roundtrips e"
  using assms unfolding element_typed
  by (cases e) (simp_all add: io_element_fields_ok_3_def element_dispatch element_shapes value_roundtrips
      byte_roundtrip parameter_change_roundtrip freeze_roundtrip two_roundtrip file_roundtrips
      del: to_le_Ok push_bit_and split del: if_split)

theorem element_codec:
  assumes "io_element_ok n e"
  shows "decodes_to (encode_io_element e n) (\<lambda>bs. decode_io_element bs n) e"
  using assms element_codec_1 [of e] element_codec_2 [of e] element_codec_3 [of e]
  unfolding io_element_ok_def by blast

section \<open>A decoder leaves a suffix\<close>

definition leaves :: "(bytes \<Rightarrow> ('a \<times> bytes) result) \<Rightarrow> bool" where
  "leaves dec \<longleftrightarrow> (\<forall>bs x r. dec bs = Ok (x, r) \<longrightarrow> (\<exists>k. r = drop k bs))"

lemma leavesD: "leaves dec \<Longrightarrow> dec bs = Ok (x, r) \<Longrightarrow> \<exists>k. r = drop k bs"
  by (auto simp: leaves_def)

named_theorems leaves_intros \<open>decoders that leave a suffix of their input\<close>

lemma leaves_value_decoders [leaves_intros]:
  "leaves (\<lambda>bs. decode_quality bs qt)" "leaves decode_step_position_value" "leaves decode_bitstring_value"
  "leaves decode_normalized_value" "leaves decode_scaled_value" "leaves decode_floating_value"
  "leaves decode_binary_counter_value" "leaves decode_protection_start_value"
  "leaves decode_protection_command_value" "leaves decode_status_value"
  by (auto simp: leaves_def decode_quality_def decode_step_position_value_def decode_bitstring_value_def
      decode_normalized_value_def decode_scaled_value_def decode_floating_value_def
      decode_binary_counter_value_def decode_protection_start_value_def
      decode_protection_command_value_def decode_status_value_def Let_def split: QualityType.splits)

lemma leaves_peek [leaves_intros]: "leaves (peek f)"
  unfolding leaves_def by (auto simp: peek_def intro: exI [of _ 0])

lemma leaves_bind [leaves_intros]:
  assumes "leaves d" "\<And>x. leaves (d' x)"
  shows "leaves (\<lambda>bs. bindE (d bs) (\<lambda>(x, bs). d' x bs))"
  using assms unfolding leaves_def by (fastforce simp: drop_drop)

lemma leaves_read [leaves_intros]:
  assumes "\<And>x. leaves (d x)"
  shows "leaves (\<lambda>bs. bindE (f bs) (\<lambda>x. d x bs))"
  using assms unfolding leaves_def by auto

lemma leaves_Ok [leaves_intros]: "leaves (\<lambda>bs. Ok (f bs, drop k bs))" "leaves (\<lambda>bs. Ok (f bs, bs))"
  unfolding leaves_def by (auto intro: exI [of _ 0])

lemma leaves_shapes [leaves_intros]:
  "leaves d \<Longrightarrow> leaves (decode_vq d qt c)" "leaves d \<Longrightarrow> leaves (decode_vqt d qt c')"
  "leaves d \<Longrightarrow> leaves (decode_vs d c'')" "leaves d \<Longrightarrow> leaves (decode_vf d d')"
  "leaves (decode_cmd f c3)"
  unfolding decode_vq_def [abs_def] decode_vqt_def [abs_def] decode_vs_def [abs_def]
    decode_vf_def [abs_def] decode_cmd_def [abs_def]
  by (intro leaves_intros; assumption)+

lemma leaves_if [leaves_intros]: "leaves d \<Longrightarrow> leaves d' \<Longrightarrow> leaves (\<lambda>bs. if c then d bs else d' bs)"
  by (cases c) simp_all

lemma leaves_Raise [leaves_intros]: "leaves (\<lambda>bs. Raise e)"
  unfolding leaves_def by simp

lemma leaves_part_1:
  "leaves d \<Longrightarrow> leaves (\<lambda>bs. case decode_io_element_1 ty bs of Some r \<Rightarrow> r | None \<Rightarrow> d bs)"
  unfolding decode_io_element_1_def by (cases ty) (simp_all add: leaves_intros)

lemma leaves_part_2:
  "leaves d \<Longrightarrow> leaves (\<lambda>bs. case decode_io_element_2 ty bs of Some r \<Rightarrow> r | None \<Rightarrow> d bs)"
  unfolding decode_io_element_2_def by (cases ty) (simp_all add: leaves_intros)

lemma leaves_part_3:
  "leaves d \<Longrightarrow> leaves (\<lambda>bs. case decode_io_element_3 ty bs of Some r \<Rightarrow> r | None \<Rightarrow> d bs)"
  unfolding decode_io_element_3_def by (cases ty) (simp_all, (intro leaves_intros; assumption?)+)

lemma leaves_part_4:
  "leaves d \<Longrightarrow> leaves (\<lambda>bs. case decode_io_element_4 ty bs of Some r \<Rightarrow> r | None \<Rightarrow> d bs)"
  unfolding decode_io_element_4_def by (cases ty) (simp_all, (intro leaves_intros; assumption?)+)

theorem element_suffix:
  assumes "decode_io_element bs n = Ok (e, rest)"
  shows "\<exists>p. bs = p @ rest"
proof -
  have "leaves (\<lambda>bs. decode_io_element bs n)"
    unfolding decode_io_element_def
    by (intro leaves_read leaves_part_1 leaves_part_2 leaves_part_3 leaves_part_4 leaves_Raise)
  from leavesD [OF this assms] obtain k where "rest = drop k bs" ..
  then show ?thesis by (metis append_take_drop_id)
qed

section \<open>The class of a decoded element\<close>

text \<open>
  \<open>yields P dec\<close>: whatever \<open>dec\<close> returns satisfies \<open>P\<close>.
\<close>

definition yields :: "('a \<Rightarrow> bool) \<Rightarrow> ('a \<times> bytes) result \<Rightarrow> bool" where
  "yields P m \<longleftrightarrow> (\<forall>x r. m = Ok (x, r) \<longrightarrow> P x)"

lemma yields_bind [simp, intro]: "(\<And>x. yields P (f x)) \<Longrightarrow> yields P (bindE m f)"
  by (cases m) (auto simp: yields_def)

lemma yields_simps [simp]: "yields P (Ok (x, r)) \<longleftrightarrow> P x" "yields P (Raise e)"
  by (simp_all add: yields_def)

lemma yields_shapes [simp]:
  "(\<And>v q. P (con v q)) \<Longrightarrow> yields P (decode_vq d qt con bs)"
  "(\<And>v q t. P (con' v q t)) \<Longrightarrow> yields P (decode_vqt d qt con' bs)"
  "(\<And>v b. P (c1 v b)) \<Longrightarrow> yields P (decode_vs d c1 bs)"
  "(\<And>v n. P (c2 v n)) \<Longrightarrow> yields P (decode_vf d c2 bs)"
  "(\<And>v b n. P (c3 v b n)) \<Longrightarrow> yields P (decode_cmd f c3 bs)"
  by (auto simp: yields_def decode_vq_def decode_vqt_def decode_vs_def decode_vf_def decode_cmd_def)

definition decoded_class :: "AsduType \<Rightarrow> AsduType" where
  "decoded_class ty = (if ty = M_BO_TA then M_BO_NA else ty)"

lemma decoded_class_parts:
  "decode_io_element_1 ty bs = Some r \<Longrightarrow> yields (\<lambda>e. element_asdu_type e = decoded_class ty) r"
  "decode_io_element_2 ty bs = Some r \<Longrightarrow> yields (\<lambda>e. element_asdu_type e = decoded_class ty) r"
  "decode_io_element_3 ty bs = Some r \<Longrightarrow> yields (\<lambda>e. element_asdu_type e = decoded_class ty) r"
  "decode_io_element_4 ty bs = Some r \<Longrightarrow> yields (\<lambda>e. element_asdu_type e = decoded_class ty) r"
  by (cases ty; force simp: decode_io_element_1_def decode_io_element_2_def decode_io_element_3_def
      decode_io_element_4_def decoded_class_def element_asdu_type_def split: prod.splits)+

lemma decoded_element_class:
  assumes "decode_io_element bs n = Ok (e, rest)"
  shows "\<exists>ty. decode_asdu_type n = Ok ty \<and> element_asdu_type e = decoded_class ty"
proof -
  from assms obtain ty where ty: "decode_asdu_type n = Ok ty"
    by (auto simp: decode_io_element_def)
  with assms have "element_asdu_type e = decoded_class ty"
    by (auto simp: decode_io_element_def yields_def dest!: decoded_class_parts split: option.splits)
  with ty show ?thesis by simp
qed

end
