(* ===== verification/Iec101_Encoder.thy ===== *)
theory Iec101_Encoder
  imports Encodings Iec101_Elements
begin

text \<open>
  The class \<open>Encoder\<close> of \<^verbatim>\<open>iec60870/encodings/iec101/encoder.py\<close>: causes of transmission,
  the table of time tag sizes and the data units of IEC 60870-5-101. The element codec is
  passed to the shared ASDU layer as an interpretation of \<open>io_element_codec\<close>; the round trip
  of the shared layer gives that of the class.
\<close>

unbundle bit_operations_syntax

section \<open>Cause of transmission\<close>

definition decode_cause_type :: "int \<Rightarrow> CauseTypeOrOther" where
  "decode_cause_type val =
     (case CauseType_of val of Inr t \<Rightarrow> KnownCause t | Inl _ \<Rightarrow> OtherCause val)"

fun encode_cause_type :: "CauseTypeOrOther \<Rightarrow> int" where
  "encode_cause_type (KnownCause t) = CauseType_value t"
| "encode_cause_type (OtherCause val) = val"

definition decode_cause :: "int \<Rightarrow> CauseSize \<Rightarrow> Cause" where
  "decode_cause cause sz =
     \<lparr>cause_type = decode_cause_type (cause AND 0x3F),
      is_negative_confirm = (cause AND 0x40 \<noteq> 0),
      is_test = (cause AND 0x80 \<noteq> 0),
      originator_address =
        (case sz of CauseSize_ONE \<Rightarrow> 0 | CauseSize_TWO \<Rightarrow> drop_bit 8 cause)\<rparr>"

definition encode_cause :: "Cause \<Rightarrow> CauseSize \<Rightarrow> int" where
  "encode_cause cause sz =
     (let res = (if is_test cause then 0x80 else 0) OR
                (if is_negative_confirm cause then 0x40 else 0) OR
                encode_cause_type (cause_type cause)
      in case sz of
           CauseSize_ONE \<Rightarrow> res
         | CauseSize_TWO \<Rightarrow> res OR push_bit 8 (originator_address cause))"

text \<open>The documented ranges, with \<open>OtherCauseType\<close> used only for values that have no name.\<close>

fun cause_type_ok :: "CauseTypeOrOther \<Rightarrow> bool" where
  "cause_type_ok (KnownCause _) \<longleftrightarrow> True"
| "cause_type_ok (OtherCause n) \<longleftrightarrow> 0 \<le> n \<and> n < 64 \<and> n \<notin> set (map CauseType_value CauseType_members)"

definition cause_ok :: "CauseSize \<Rightarrow> Cause \<Rightarrow> bool" where
  "cause_ok sz cause \<longleftrightarrow>
     cause_type_ok (cause_type cause) \<and>
     (case sz of
        CauseSize_ONE \<Rightarrow> originator_address cause = 0
      | CauseSize_TWO \<Rightarrow> is_byte (originator_address cause))"

lemma CauseType_value_range: "0 \<le> CauseType_value t \<and> CauseType_value t < 64"
  by (cases t) simp_all

lemma encode_cause_type_range: "cause_type_ok t \<Longrightarrow> 0 \<le> encode_cause_type t \<and> encode_cause_type t < 64"
  using CauseType_value_range by (cases t) auto

lemma decode_encode_cause_type: "encode_cause_type (decode_cause_type n) = n"
  by (auto simp: decode_cause_type_def CauseType_of_def CauseType.of_Ok_iff split: sum.splits)

lemma encode_decode_cause_type:
  assumes "cause_type_ok t"
  shows "decode_cause_type (encode_cause_type t) = t"
proof (cases t)
  case (OtherCause n)
  with assms have "n \<notin> CauseType_value ` set CauseType_members" by simp
  then show ?thesis
    using enum_lookup_Raise [of n CauseType_value CauseType_members] OtherCause
    by (auto simp: decode_cause_type_def CauseType_of_def)
qed (simp add: decode_cause_type_def)

lemma decode_cause_type_ok: "0 \<le> n \<Longrightarrow> n < 64 \<Longrightarrow> cause_type_ok (decode_cause_type n)"
  using CauseType.of_value by (auto simp: decode_cause_type_def CauseType_of_def split: sum.splits)

lemma cause_byte:
  fixes n :: int and t c :: bool
  assumes "0 \<le> n" "n < 64"
  defines "b \<equiv> (if t then 0x80 else 0) OR (if c then 0x40 else 0) OR n"
  shows "is_byte b" "b AND 0x3F = n" "(b AND 0x40 = 0) = (\<not> c)" "(b AND 0x80 = 0) = (\<not> t)"
proof -
  have n: "n = n AND 63" using assms by (simp add: mask_mod)
  show "is_byte b"
    using assms unfolding b_def by (intro is_byte_or is_byte_if) (simp_all add: is_byte_num)
  show "b AND 0x3F = n" using n by (simp add: b_def or_mask)
  show "(b AND 0x40 = 0) = (\<not> c)" "(b AND 0x80 = 0) = (\<not> t)"
    unfolding b_def by (subst n, simp add: bit_tests bit_simps)+
qed

lemma high_byte:
  fixes b h :: int
  assumes "is_byte b" "is_byte h"
  shows "b OR push_bit 8 h = b + 256 * h"
    "(b OR push_bit 8 h) AND 63 = b AND 63" "(b OR push_bit 8 h) AND 64 = b AND 64"
    "(b OR push_bit 8 h) AND 128 = b AND 128" "drop_bit 8 (b OR push_bit 8 h) = h"
proof -
  show eq: "b OR push_bit 8 h = b + 256 * h"
    using or_disjoint_add [of "push_bit 8 h" 8 b] assms
    by (simp add: is_byte_def push_bit_eq_mult or.commute)
  have "push_bit 8 h AND 63 = 0"
    by (simp add: mask_mod push_bit_eq_mult)
  moreover have "push_bit 8 h AND 64 = 0" "push_bit 8 h AND 128 = 0"
    by (simp_all only: bit_tests) (simp_all add: bit_push_bit_iff)
  ultimately show "(b OR push_bit 8 h) AND 63 = b AND 63" "(b OR push_bit 8 h) AND 64 = b AND 64"
    "(b OR push_bit 8 h) AND 128 = b AND 128"
    by (simp_all only: or_mask or.right_neutral)
  show "drop_bit 8 (b OR push_bit 8 h) = h"
    unfolding eq using assms by (simp add: is_byte_def drop_bit_eq_div)
qed

lemma encode_decode_cause:
  assumes "cause_ok sz cause"
  shows "decode_cause (encode_cause cause sz) sz = cause"
    and "0 \<le> encode_cause cause sz" and "encode_cause cause sz < 256 ^ CauseSize_value sz"
proof -
  have ty: "cause_type_ok (cause_type cause)" using assms by (simp add: cause_ok_def)
  note r = encode_cause_type_range [OF ty]
  note b = cause_byte [OF r [THEN conjunct1] r [THEN conjunct2], of "is_test cause" "is_negative_confirm cause"]
  define res where "res = (if is_test cause then 0x80 else 0) OR
    (if is_negative_confirm cause then 0x40 else 0) OR encode_cause_type (cause_type cause)"
  note b = b [folded res_def]
  have enc: "encode_cause cause sz =
      (case sz of CauseSize_ONE \<Rightarrow> res | CauseSize_TWO \<Rightarrow> res OR push_bit 8 (originator_address cause))"
    by (simp only: encode_cause_def Let_def res_def)
  have "decode_cause (encode_cause cause sz) sz = cause \<and> 0 \<le> encode_cause cause sz \<and>
    encode_cause cause sz < 256 ^ CauseSize_value sz"
  proof (cases sz)
    case CauseSize_ONE
    with assms have "originator_address cause = 0" by (simp add: cause_ok_def)
    with CauseSize_ONE b encode_decode_cause_type [OF ty] show ?thesis
      unfolding enc by (auto simp: decode_cause_def is_byte_def intro!: Cause.equality)
  next
    case CauseSize_TWO
    with assms have h: "is_byte (originator_address cause)" by (simp add: cause_ok_def)
    from high_byte [OF b(1) h] CauseSize_TWO h b encode_decode_cause_type [OF ty] show ?thesis
      unfolding enc by (auto simp: decode_cause_def is_byte_def intro!: Cause.equality)
  qed
  then show "decode_cause (encode_cause cause sz) sz = cause" "0 \<le> encode_cause cause sz"
    "encode_cause cause sz < 256 ^ CauseSize_value sz"
    by auto
qed

lemma masked_bit:
  fixes x :: int
  shows "(if x AND 64 \<noteq> 0 then 64 else 0) = x AND 64" "(if x AND 128 \<noteq> 0 then 128 else 0) = x AND 128"
proof -
  have "(if bit x n then 2 ^ n else 0) = x AND 2 ^ n" for n
    by (rule bit_eqI) (auto simp: bit_simps)
  from this [of 6] this [of 7, simplified]
  show "(if x AND 64 \<noteq> 0 then 64 else 0) = x AND 64" "(if x AND 128 \<noteq> 0 then 128 else 0) = x AND 128"
    by (auto simp: bit_tests split: if_splits)
qed

lemma split_cause_byte:
  fixes x :: int
  shows "(if x AND 128 \<noteq> 0 then 128 else 0) OR (if x AND 64 \<noteq> 0 then 64 else 0) OR (x AND 63) = x mod 256"
proof -
  have "(x AND 128) OR ((x AND 64) OR (x AND 63)) = x AND (128 OR (64 OR 63))"
    by (simp only: bit.conj_disj_distrib)
  then show ?thesis by (simp only: masked_bit) (simp add: mask_mod)
qed

lemma decode_encode_cause:
  assumes "0 \<le> n" "n < 256 ^ CauseSize_value sz"
  shows "encode_cause (decode_cause n sz) sz = n" "cause_ok sz (decode_cause n sz)"
proof -
  have low: "(if is_test (decode_cause n sz) then 0x80 else 0) OR
      (if is_negative_confirm (decode_cause n sz) then 0x40 else 0) OR
      encode_cause_type (cause_type (decode_cause n sz)) = n mod 256"
    using split_cause_byte [of n] by (simp add: decode_cause_def decode_encode_cause_type)
  have ty: "cause_type_ok (cause_type (decode_cause n sz))"
    by (simp add: decode_cause_def decode_cause_type_ok mask_mod)
  have "encode_cause (decode_cause n sz) sz = n \<and> cause_ok sz (decode_cause n sz)"
  proof (cases sz)
    case CauseSize_ONE
    with low ty assms show ?thesis
      unfolding encode_cause_def low by (simp add: cause_ok_def decode_cause_def)
  next
    case CauseSize_TWO
    have h: "originator_address (decode_cause n sz) = n div 256"
      using CauseSize_TWO by (simp add: decode_cause_def drop_bit_eq_div)
    have "n < 65536" using assms CauseSize_TWO by simp
    then have "n div 256 < 256" by presburger
    then have "is_byte (n div 256)" "is_byte (n mod 256)"
      using assms by (simp_all add: is_byte_def)
    with high_byte(1) [of "n mod 256" "n div 256"] h low ty CauseSize_TWO show ?thesis
      unfolding encode_cause_def low by (simp add: cause_ok_def)
  qed
  then show "encode_cause (decode_cause n sz) sz = n" "cause_ok sz (decode_cause n sz)" by simp_all
qed

section \<open>Time tags of the types\<close>

definition asdu_type_time_sizes_101 :: "int \<Rightarrow> TimeSize option" where
  "asdu_type_time_sizes_101 = map_of
     [(AsduType_value M_SP_TA, TimeSize_THREE),
      (AsduType_value M_DP_TA, TimeSize_THREE),
      (AsduType_value M_ST_TA, TimeSize_THREE),
      (AsduType_value M_BO_TA, TimeSize_THREE),
      (AsduType_value M_ME_TA, TimeSize_THREE),
      (AsduType_value M_ME_TB, TimeSize_THREE),
      (AsduType_value M_ME_TC, TimeSize_THREE),
      (AsduType_value M_IT_TA, TimeSize_THREE),
      (AsduType_value M_EP_TA, TimeSize_THREE),
      (AsduType_value M_EP_TB, TimeSize_THREE),
      (AsduType_value M_EP_TC, TimeSize_THREE),
      (AsduType_value M_SP_TB, TimeSize_SEVEN),
      (AsduType_value M_DP_TB, TimeSize_SEVEN),
      (AsduType_value M_ST_TB, TimeSize_SEVEN),
      (AsduType_value M_BO_TB, TimeSize_SEVEN),
      (AsduType_value M_ME_TD, TimeSize_SEVEN),
      (AsduType_value M_ME_TE, TimeSize_SEVEN),
      (AsduType_value M_ME_TF, TimeSize_SEVEN),
      (AsduType_value M_IT_TB, TimeSize_SEVEN),
      (AsduType_value M_EP_TD, TimeSize_SEVEN),
      (AsduType_value M_EP_TE, TimeSize_SEVEN),
      (AsduType_value M_EP_TF, TimeSize_SEVEN)]"

section \<open>The class Encoder\<close>

record Encoder101 =
  enc_cause_size :: CauseSize
  max_asdu_size :: nat
  asdu_encoder :: "IoElement Encoder"

definition init_encoder_101 :: "CauseSize \<Rightarrow> AsduAddressSize \<Rightarrow> IoAddressSize \<Rightarrow> nat \<Rightarrow> Encoder101" where
  "init_encoder_101 cs as ios mx =
     \<lparr>enc_cause_size = cs, max_asdu_size = mx,
      asdu_encoder =
        \<lparr>cause_size = cs, asdu_address_size = as, io_address_size = ios,
         asdu_type_time_sizes = asdu_type_time_sizes_101, inverted_sequence_bit = False,
         decode_io_element_cb = decode_io_element, encode_io_element_cb = encode_io_element\<rparr>\<rparr>"

definition decode_asdu_101 :: "Encoder101 \<Rightarrow> bytes \<Rightarrow> ((AsduType, Cause, IoElement) ASDU \<times> bytes) result" where
  "decode_asdu_101 enc asdu_bytes =
     bindE (decode_asdu (asdu_encoder enc) asdu_bytes) (\<lambda>(asdu, rest).
     bindE (decode_asdu_type (asdu_type asdu)) (\<lambda>ty.
       Ok (\<lparr>asdu_type = ty, asdu_cause = decode_cause (asdu_cause asdu) (enc_cause_size enc),
           asdu_address = asdu_address asdu, asdu_ios = asdu_ios asdu\<rparr>, rest)))"

text \<open>The data unit that \<open>encode_asdu\<close> hands to the shared layer.\<close>

definition lower_asdu_101 :: "CauseSize \<Rightarrow> (AsduType, Cause, 'e) ASDU \<Rightarrow> (int, int, 'e) ASDU" where
  "lower_asdu_101 cs asdu =
     \<lparr>asdu_type = AsduType_value (asdu_type asdu), asdu_cause = encode_cause (asdu_cause asdu) cs,
      asdu_address = asdu_address asdu, asdu_ios = asdu_ios asdu\<rparr>"

definition encode_asdu_101 :: "Encoder101 \<Rightarrow> (AsduType, Cause, IoElement) ASDU \<Rightarrow> bytes result" where
  "encode_asdu_101 enc asdu = encode_asdu (asdu_encoder enc) (lower_asdu_101 (enc_cause_size enc) asdu)"

section \<open>The round trip of data units\<close>

interpretation el101: io_element_codec decode_io_element encode_io_element io_element_ok
  by unfold_locales (fact element_codec, fact element_suffix)

text \<open>Causes, addresses, time tags and elements within their documented ranges.\<close>

definition asdu_ok_101 :: "Encoder101 \<Rightarrow> (AsduType, Cause, IoElement) ASDU \<Rightarrow> bool" where
  "asdu_ok_101 enc asdu \<longleftrightarrow>
     cause_ok (enc_cause_size enc) (asdu_cause asdu) \<and>
     asdu_ok (asdu_encoder enc) io_element_ok (lower_asdu_101 (enc_cause_size enc) asdu)"

lemma asdu_101_roundtrip:
  assumes enc: "enc = init_encoder_101 cs as ios mx" and ok: "asdu_ok_101 enc asdu"
  shows "\<exists>bs. encode_asdu_101 enc asdu = Ok bs \<and> (\<forall>rest. decode_asdu_101 enc (bs @ rest) = Ok (asdu, rest))"
proof -
  have cbs: "decode_io_element_cb (asdu_encoder enc) = decode_io_element"
    "encode_io_element_cb (asdu_encoder enc) = encode_io_element"
    using enc by (simp_all add: init_encoder_101_def)
  from ok have "asdu_ok (asdu_encoder enc) io_element_ok (lower_asdu_101 (enc_cause_size enc) asdu)"
    and c: "cause_ok (enc_cause_size enc) (asdu_cause asdu)"
    by (simp_all add: asdu_ok_101_def)
  from el101.asdu_roundtrip [OF cbs this(1)] obtain bs where
    bs: "encode_asdu_101 enc asdu = Ok bs"
    "\<And>rest. decode_asdu (asdu_encoder enc) (bs @ rest) = Ok (lower_asdu_101 (enc_cause_size enc) asdu, rest)"
    unfolding encode_asdu_101_def by blast
  then have "decode_asdu_101 enc (bs @ rest) = Ok (asdu, rest)" for rest
    by (simp add: decode_asdu_101_def lower_asdu_101_def encode_decode_cause [OF c])
  with bs(1) show ?thesis by blast
qed

lemma decode_asdu_101_suffix:
  assumes "enc = init_encoder_101 cs as ios mx" "decode_asdu_101 enc bs = Ok (asdu, rest)"
  shows "\<exists>p. bs = p @ rest"
proof -
  have "decode_io_element_cb (asdu_encoder enc) = decode_io_element"
    using assms(1) by (simp add: init_encoder_101_def)
  moreover obtain a where "decode_asdu (asdu_encoder enc) bs = Ok (a, rest)"
    using assms(2) by (auto simp: decode_asdu_101_def)
  ultimately show ?thesis by (rule el101.decode_asdu_suffix)
qed

section \<open>Properties\<close>

text \<open>
  Decoding the cause of transmission is one to one: every number that fits the field is a
  cause with fields in their documented ranges, and each such cause comes from one number.
\<close>

lemma cause_bijection:
  "bij_betw (\<lambda>n. decode_cause n sz) {0..<256 ^ CauseSize_value sz} {cause. cause_ok sz cause}"
  by (rule bij_betw_byWitness [where f' = "\<lambda>cause. encode_cause cause sz"])
    (auto simp: decode_encode_cause encode_decode_cause)

text \<open>
  Every information element whose fields are in range is encoded under the type that it
  belongs to, and decoded to itself, whatever bytes follow.
\<close>

lemma io_element_101_roundtrip:
  assumes "io_element_ok n e"
  shows "\<exists>xs. encode_io_element e n = Ok xs \<and> all_bytes xs \<and>
    (\<forall>rest. decode_io_element (wire xs @ rest) n = Ok (e, rest))"
  using element_codec [OF assms] by (auto simp: decodes_to_def)

lemma io_element_101_roundtrip_witness:
  "\<exists>xs. encode_io_element (IoElement_M_EI_NA True 5) 70 = Ok xs \<and>
    (\<forall>rest. decode_io_element (wire xs @ rest) 70 = Ok (IoElement_M_EI_NA True 5, rest))"
proof -
  have "io_element_ok (AsduType_value M_EI_NA) (IoElement_M_EI_NA True 5)"
    by (simp add: io_element_ok_def io_element_fields_ok_3_def element_asdu_type_def)
  from io_element_101_roundtrip [OF this] show ?thesis by auto
qed

text \<open>
  What is decoded is an element of the class that the type names, with one exception: for
  M_BO_TA the code makes an element of class M_BO_NA.
\<close>

lemma decoded_element_class_101:
  assumes "decode_io_element bs n = Ok (e, rest)"
  shows "\<exists>ty. n = AsduType_value ty \<and> element_asdu_type e = (if ty = M_BO_TA then M_BO_NA else ty)"
proof -
  from decoded_element_class [OF assms] obtain ty where
    ty: "decode_asdu_type n = Ok ty" "element_asdu_type e = decoded_class ty" by blast
  then have "AsduType_of n = Ok ty" by (auto simp: decode_asdu_type_def split: sum.splits)
  then have "n = AsduType_value ty" unfolding AsduType_of_def by (auto dest: enum_lookup_Ok)
  with ty show ?thesis by (auto simp: decoded_class_def)
qed

text \<open>
  C6: every well-formed data unit of IEC 60870-5-101, with any field sizes, is encoded, and decoded to
  itself, whatever bytes follow. Well-formed: the fields are in their ranges and each element and time has the class and size of
  the type, a cause given as a number is not one that has a name, there are at most 127 objects or elements of a sequence,
  normalized values are ones that 16 bits stand for exactly and floats ones that the single format holds. Elements of M_BO_TA are
  not well-formed: they are decoded to the class of M_BO_NA.
\<close>

theorem asdu_101_codec:
  assumes "asdu_ok_101 (init_encoder_101 cs as ios mx) asdu"
  shows "\<exists>bs. encode_asdu_101 (init_encoder_101 cs as ios mx) asdu = Ok bs \<and>
    (\<forall>rest. decode_asdu_101 (init_encoder_101 cs as ios mx) (bs @ rest) = Ok (asdu, rest))"
  using asdu_101_roundtrip [OF refl assms] .

lemma example_asdu_101:
  obtains asdu where "asdu_ok_101 (init_encoder_101 CauseSize_ONE AsduAddressSize_ONE IoAddressSize_TWO 255) asdu"
    "asdu_type asdu = M_EI_NA"
proof (rule that)
  show "asdu_ok_101 (init_encoder_101 CauseSize_ONE AsduAddressSize_ONE IoAddressSize_TWO 255)
    \<lparr>asdu_type = M_EI_NA, asdu_cause = \<lparr>cause_type = KnownCause CauseType_INITIALIZED, is_negative_confirm = False,
        is_test = True, originator_address = 0\<rparr>, asdu_address = 7,
      asdu_ios = [\<lparr>io_address = 0x1234, io_elements = [IoElement_M_EI_NA True 5], io_time = None\<rparr>]\<rparr>"
    by (simp add: asdu_ok_101_def init_encoder_101_def cause_ok_def asdu_ok_def lower_asdu_101_def
        encode_cause_def is_byte_num asdu_is_sequence_def io_ok_def io_element_ok_def element_asdu_type_def
        io_element_fields_ok_3_def asdu_type_time_sizes_101_def)
qed simp

lemma asdu_101_codec_witness:
  "\<exists>asdu bs. asdu_type asdu = M_EI_NA \<and>
    encode_asdu_101 (init_encoder_101 CauseSize_ONE AsduAddressSize_ONE IoAddressSize_TWO 255) asdu = Ok bs \<and>
    (\<forall>rest. decode_asdu_101 (init_encoder_101 CauseSize_ONE AsduAddressSize_ONE IoAddressSize_TWO 255) (bs @ rest) =
      Ok (asdu, rest))"
proof -
  obtain asdu where a: "asdu_ok_101 (init_encoder_101 CauseSize_ONE AsduAddressSize_ONE IoAddressSize_TWO 255) asdu"
    "asdu_type asdu = M_EI_NA"
    by (rule example_asdu_101)
  from asdu_101_codec [OF a(1)] a(2) show ?thesis by blast
qed

text \<open>
  Whatever bytes are decoded as a data unit, it has at most 127 objects with at most 127
  elements each, and the bytes that are left are the end of the input.
\<close>

lemma asdu_101_decode_bounds:
  assumes "decode_asdu_101 (init_encoder_101 cs as ios mx) bs = Ok (asdu, rest)"
  shows "length (asdu_ios asdu) \<le> 127 \<and> (\<forall>io\<in>set (asdu_ios asdu). length (io_elements io) \<le> 127) \<and>
    (\<exists>p. bs = p @ rest)"
proof -
  from assms obtain a where "decode_asdu (asdu_encoder (init_encoder_101 cs as ios mx)) bs = Ok (a, rest)"
    "asdu_ios asdu = asdu_ios a"
    by (auto simp: decode_asdu_101_def)
  with decode_asdu_counts [of _ bs a rest] decode_asdu_101_suffix [OF refl assms] show ?thesis by metis
qed

lemma asdu_101_decode_bounds_witness:
  "\<exists>bs asdu. decode_asdu_101 (init_encoder_101 CauseSize_ONE AsduAddressSize_ONE IoAddressSize_TWO 255) bs = Ok (asdu, [9]) \<and>
    asdu_type asdu = M_EI_NA \<and> length (asdu_ios asdu) \<le> 127"
proof -
  obtain asdu where a: "asdu_ok_101 (init_encoder_101 CauseSize_ONE AsduAddressSize_ONE IoAddressSize_TWO 255) asdu"
    "asdu_type asdu = M_EI_NA"
    by (rule example_asdu_101)
  from asdu_101_roundtrip [OF refl a(1)] obtain bs where
    d: "decode_asdu_101 (init_encoder_101 CauseSize_ONE AsduAddressSize_ONE IoAddressSize_TWO 255) bs = Ok (asdu, [9])"
    by blast
  from asdu_101_decode_bounds [OF d] d a(2) show ?thesis by blast
qed

end
