(* ===== verification/Iec101_Messages.thy ===== *)
theory Iec101_Messages
  imports Iec101_Encoder
begin

text \<open>
  The messages of \<^verbatim>\<open>iec101/common.py\<close>, which \<^verbatim>\<open>iec104/common.py\<close> shares: the causes that a
  message of each kind may have, data, commands and parameters. The causes of a kind are two
  enumerations, of requests and of responses, and numbers for all others. \<open>_decode_cause\<close> and
  \<open>_encode_cause\<close> of \<^verbatim>\<open>iec101/encoder.py\<close> (and the same of \<^verbatim>\<open>iec104/encoder.py\<close>) translate
  between these and the causes of a data unit; the locale \<open>cause_classes\<close> is what they rely on.
\<close>

section \<open>Causes\<close>

datatype (plugins only: code size) DataResCause =
    DataResCause_PERIODIC | DataResCause_BACKGROUND_SCAN | DataResCause_SPONTANEOUS
  | DataResCause_REQUEST | DataResCause_REMOTE_COMMAND | DataResCause_LOCAL_COMMAND
  | DataResCause_INTERROGATED_STATION | DataResCause_INTERROGATED_GROUP01
  | DataResCause_INTERROGATED_GROUP02 | DataResCause_INTERROGATED_GROUP03
  | DataResCause_INTERROGATED_GROUP04 | DataResCause_INTERROGATED_GROUP05
  | DataResCause_INTERROGATED_GROUP06 | DataResCause_INTERROGATED_GROUP07
  | DataResCause_INTERROGATED_GROUP08 | DataResCause_INTERROGATED_GROUP09
  | DataResCause_INTERROGATED_GROUP10 | DataResCause_INTERROGATED_GROUP11
  | DataResCause_INTERROGATED_GROUP12 | DataResCause_INTERROGATED_GROUP13
  | DataResCause_INTERROGATED_GROUP14 | DataResCause_INTERROGATED_GROUP15
  | DataResCause_INTERROGATED_GROUP16 | DataResCause_INTERROGATED_COUNTER
  | DataResCause_INTERROGATED_COUNTER01 | DataResCause_INTERROGATED_COUNTER02
  | DataResCause_INTERROGATED_COUNTER03 | DataResCause_INTERROGATED_COUNTER04

fun DataResCause_value :: "DataResCause \<Rightarrow> int" where
  "DataResCause_value DataResCause_PERIODIC = CauseType_value CauseType_PERIODIC"
| "DataResCause_value DataResCause_BACKGROUND_SCAN = CauseType_value CauseType_BACKGROUND_SCAN"
| "DataResCause_value DataResCause_SPONTANEOUS = CauseType_value CauseType_SPONTANEOUS"
| "DataResCause_value DataResCause_REQUEST = CauseType_value CauseType_REQUEST"
| "DataResCause_value DataResCause_REMOTE_COMMAND = CauseType_value CauseType_REMOTE_COMMAND"
| "DataResCause_value DataResCause_LOCAL_COMMAND = CauseType_value CauseType_LOCAL_COMMAND"
| "DataResCause_value DataResCause_INTERROGATED_STATION = CauseType_value CauseType_INTERROGATED_STATION"
| "DataResCause_value DataResCause_INTERROGATED_GROUP01 = CauseType_value CauseType_INTERROGATED_GROUP01"
| "DataResCause_value DataResCause_INTERROGATED_GROUP02 = CauseType_value CauseType_INTERROGATED_GROUP02"
| "DataResCause_value DataResCause_INTERROGATED_GROUP03 = CauseType_value CauseType_INTERROGATED_GROUP03"
| "DataResCause_value DataResCause_INTERROGATED_GROUP04 = CauseType_value CauseType_INTERROGATED_GROUP04"
| "DataResCause_value DataResCause_INTERROGATED_GROUP05 = CauseType_value CauseType_INTERROGATED_GROUP05"
| "DataResCause_value DataResCause_INTERROGATED_GROUP06 = CauseType_value CauseType_INTERROGATED_GROUP06"
| "DataResCause_value DataResCause_INTERROGATED_GROUP07 = CauseType_value CauseType_INTERROGATED_GROUP07"
| "DataResCause_value DataResCause_INTERROGATED_GROUP08 = CauseType_value CauseType_INTERROGATED_GROUP08"
| "DataResCause_value DataResCause_INTERROGATED_GROUP09 = CauseType_value CauseType_INTERROGATED_GROUP09"
| "DataResCause_value DataResCause_INTERROGATED_GROUP10 = CauseType_value CauseType_INTERROGATED_GROUP10"
| "DataResCause_value DataResCause_INTERROGATED_GROUP11 = CauseType_value CauseType_INTERROGATED_GROUP11"
| "DataResCause_value DataResCause_INTERROGATED_GROUP12 = CauseType_value CauseType_INTERROGATED_GROUP12"
| "DataResCause_value DataResCause_INTERROGATED_GROUP13 = CauseType_value CauseType_INTERROGATED_GROUP13"
| "DataResCause_value DataResCause_INTERROGATED_GROUP14 = CauseType_value CauseType_INTERROGATED_GROUP14"
| "DataResCause_value DataResCause_INTERROGATED_GROUP15 = CauseType_value CauseType_INTERROGATED_GROUP15"
| "DataResCause_value DataResCause_INTERROGATED_GROUP16 = CauseType_value CauseType_INTERROGATED_GROUP16"
| "DataResCause_value DataResCause_INTERROGATED_COUNTER = CauseType_value CauseType_INTERROGATED_COUNTER"
| "DataResCause_value DataResCause_INTERROGATED_COUNTER01 = CauseType_value CauseType_INTERROGATED_COUNTER01"
| "DataResCause_value DataResCause_INTERROGATED_COUNTER02 = CauseType_value CauseType_INTERROGATED_COUNTER02"
| "DataResCause_value DataResCause_INTERROGATED_COUNTER03 = CauseType_value CauseType_INTERROGATED_COUNTER03"
| "DataResCause_value DataResCause_INTERROGATED_COUNTER04 = CauseType_value CauseType_INTERROGATED_COUNTER04"

definition DataResCause_members :: "DataResCause list" where
  "DataResCause_members =
     [DataResCause_PERIODIC, DataResCause_BACKGROUND_SCAN, DataResCause_SPONTANEOUS,
     DataResCause_REQUEST, DataResCause_REMOTE_COMMAND, DataResCause_LOCAL_COMMAND,
     DataResCause_INTERROGATED_STATION, DataResCause_INTERROGATED_GROUP01,
     DataResCause_INTERROGATED_GROUP02, DataResCause_INTERROGATED_GROUP03,
     DataResCause_INTERROGATED_GROUP04, DataResCause_INTERROGATED_GROUP05,
     DataResCause_INTERROGATED_GROUP06, DataResCause_INTERROGATED_GROUP07,
     DataResCause_INTERROGATED_GROUP08, DataResCause_INTERROGATED_GROUP09,
     DataResCause_INTERROGATED_GROUP10, DataResCause_INTERROGATED_GROUP11,
     DataResCause_INTERROGATED_GROUP12, DataResCause_INTERROGATED_GROUP13,
     DataResCause_INTERROGATED_GROUP14, DataResCause_INTERROGATED_GROUP15,
     DataResCause_INTERROGATED_GROUP16, DataResCause_INTERROGATED_COUNTER,
     DataResCause_INTERROGATED_COUNTER01, DataResCause_INTERROGATED_COUNTER02,
     DataResCause_INTERROGATED_COUNTER03, DataResCause_INTERROGATED_COUNTER04]"

definition DataResCause_of :: "int \<Rightarrow> DataResCause result" where
  "DataResCause_of = enum_lookup DataResCause_value DataResCause_members"

interpretation DataResCause: enumeration DataResCause_value DataResCause_members
proof unfold_locales
  show "x \<in> set DataResCause_members" for x by (cases x) (simp_all add: DataResCause_members_def)
  show "distinct (map DataResCause_value DataResCause_members)" by (simp add: DataResCause_members_def)
qed

datatype (plugins only: code size) CommandReqCause =
    CommandReqCause_ACTIVATION | CommandReqCause_DEACTIVATION

fun CommandReqCause_value :: "CommandReqCause \<Rightarrow> int" where
  "CommandReqCause_value CommandReqCause_ACTIVATION = CauseType_value CauseType_ACTIVATION"
| "CommandReqCause_value CommandReqCause_DEACTIVATION = CauseType_value CauseType_DEACTIVATION"

definition CommandReqCause_members :: "CommandReqCause list" where
  "CommandReqCause_members =
     [CommandReqCause_ACTIVATION, CommandReqCause_DEACTIVATION]"

definition CommandReqCause_of :: "int \<Rightarrow> CommandReqCause result" where
  "CommandReqCause_of = enum_lookup CommandReqCause_value CommandReqCause_members"

interpretation CommandReqCause: enumeration CommandReqCause_value CommandReqCause_members
proof unfold_locales
  show "x \<in> set CommandReqCause_members" for x by (cases x) (simp_all add: CommandReqCause_members_def)
  show "distinct (map CommandReqCause_value CommandReqCause_members)" by (simp add: CommandReqCause_members_def)
qed

datatype (plugins only: code size) CommandResCause =
    CommandResCause_ACTIVATION_CONFIRMATION | CommandResCause_DEACTIVATION_CONFIRMATION
  | CommandResCause_ACTIVATION_TERMINATION | CommandResCause_UNKNOWN_TYPE
  | CommandResCause_UNKNOWN_CAUSE | CommandResCause_UNKNOWN_ASDU_ADDRESS
  | CommandResCause_UNKNOWN_IO_ADDRESS

fun CommandResCause_value :: "CommandResCause \<Rightarrow> int" where
  "CommandResCause_value CommandResCause_ACTIVATION_CONFIRMATION = CauseType_value CauseType_ACTIVATION_CONFIRMATION"
| "CommandResCause_value CommandResCause_DEACTIVATION_CONFIRMATION = CauseType_value CauseType_DEACTIVATION_CONFIRMATION"
| "CommandResCause_value CommandResCause_ACTIVATION_TERMINATION = CauseType_value CauseType_ACTIVATION_TERMINATION"
| "CommandResCause_value CommandResCause_UNKNOWN_TYPE = CauseType_value CauseType_UNKNOWN_TYPE"
| "CommandResCause_value CommandResCause_UNKNOWN_CAUSE = CauseType_value CauseType_UNKNOWN_CAUSE"
| "CommandResCause_value CommandResCause_UNKNOWN_ASDU_ADDRESS = CauseType_value CauseType_UNKNOWN_ASDU_ADDRESS"
| "CommandResCause_value CommandResCause_UNKNOWN_IO_ADDRESS = CauseType_value CauseType_UNKNOWN_IO_ADDRESS"

definition CommandResCause_members :: "CommandResCause list" where
  "CommandResCause_members =
     [CommandResCause_ACTIVATION_CONFIRMATION, CommandResCause_DEACTIVATION_CONFIRMATION,
     CommandResCause_ACTIVATION_TERMINATION, CommandResCause_UNKNOWN_TYPE,
     CommandResCause_UNKNOWN_CAUSE, CommandResCause_UNKNOWN_ASDU_ADDRESS,
     CommandResCause_UNKNOWN_IO_ADDRESS]"

definition CommandResCause_of :: "int \<Rightarrow> CommandResCause result" where
  "CommandResCause_of = enum_lookup CommandResCause_value CommandResCause_members"

interpretation CommandResCause: enumeration CommandResCause_value CommandResCause_members
proof unfold_locales
  show "x \<in> set CommandResCause_members" for x by (cases x) (simp_all add: CommandResCause_members_def)
  show "distinct (map CommandResCause_value CommandResCause_members)" by (simp add: CommandResCause_members_def)
qed

datatype (plugins only: code size) InitializationResCause =
    InitializationResCause_LOCAL_POWER | InitializationResCause_LOCAL_RESET
  | InitializationResCause_REMOTE_RESET

fun InitializationResCause_value :: "InitializationResCause \<Rightarrow> int" where
  "InitializationResCause_value InitializationResCause_LOCAL_POWER = 0"
| "InitializationResCause_value InitializationResCause_LOCAL_RESET = 1"
| "InitializationResCause_value InitializationResCause_REMOTE_RESET = 2"

definition InitializationResCause_members :: "InitializationResCause list" where
  "InitializationResCause_members =
     [InitializationResCause_LOCAL_POWER, InitializationResCause_LOCAL_RESET,
     InitializationResCause_REMOTE_RESET]"

definition InitializationResCause_of :: "int \<Rightarrow> InitializationResCause result" where
  "InitializationResCause_of = enum_lookup InitializationResCause_value InitializationResCause_members"

interpretation InitializationResCause: enumeration InitializationResCause_value InitializationResCause_members
proof unfold_locales
  show "x \<in> set InitializationResCause_members" for x by (cases x) (simp_all add: InitializationResCause_members_def)
  show "distinct (map InitializationResCause_value InitializationResCause_members)" by (simp add: InitializationResCause_members_def)
qed

datatype (plugins only: code size) ReadReqCause =
    ReadReqCause_REQUEST

fun ReadReqCause_value :: "ReadReqCause \<Rightarrow> int" where
  "ReadReqCause_value ReadReqCause_REQUEST = CauseType_value CauseType_REQUEST"

definition ReadReqCause_members :: "ReadReqCause list" where
  "ReadReqCause_members =
     [ReadReqCause_REQUEST]"

definition ReadReqCause_of :: "int \<Rightarrow> ReadReqCause result" where
  "ReadReqCause_of = enum_lookup ReadReqCause_value ReadReqCause_members"

interpretation ReadReqCause: enumeration ReadReqCause_value ReadReqCause_members
proof unfold_locales
  show "x \<in> set ReadReqCause_members" for x by (cases x) (simp_all add: ReadReqCause_members_def)
  show "distinct (map ReadReqCause_value ReadReqCause_members)" by (simp add: ReadReqCause_members_def)
qed

datatype (plugins only: code size) ReadResCause =
    ReadResCause_UNKNOWN_TYPE | ReadResCause_UNKNOWN_CAUSE | ReadResCause_UNKNOWN_ASDU_ADDRESS
  | ReadResCause_UNKNOWN_IO_ADDRESS

fun ReadResCause_value :: "ReadResCause \<Rightarrow> int" where
  "ReadResCause_value ReadResCause_UNKNOWN_TYPE = CauseType_value CauseType_UNKNOWN_TYPE"
| "ReadResCause_value ReadResCause_UNKNOWN_CAUSE = CauseType_value CauseType_UNKNOWN_CAUSE"
| "ReadResCause_value ReadResCause_UNKNOWN_ASDU_ADDRESS = CauseType_value CauseType_UNKNOWN_ASDU_ADDRESS"
| "ReadResCause_value ReadResCause_UNKNOWN_IO_ADDRESS = CauseType_value CauseType_UNKNOWN_IO_ADDRESS"

definition ReadResCause_members :: "ReadResCause list" where
  "ReadResCause_members =
     [ReadResCause_UNKNOWN_TYPE, ReadResCause_UNKNOWN_CAUSE, ReadResCause_UNKNOWN_ASDU_ADDRESS,
     ReadResCause_UNKNOWN_IO_ADDRESS]"

definition ReadResCause_of :: "int \<Rightarrow> ReadResCause result" where
  "ReadResCause_of = enum_lookup ReadResCause_value ReadResCause_members"

interpretation ReadResCause: enumeration ReadResCause_value ReadResCause_members
proof unfold_locales
  show "x \<in> set ReadResCause_members" for x by (cases x) (simp_all add: ReadResCause_members_def)
  show "distinct (map ReadResCause_value ReadResCause_members)" by (simp add: ReadResCause_members_def)
qed

datatype (plugins only: code size) ClockSyncReqCause =
    ClockSyncReqCause_ACTIVATION

fun ClockSyncReqCause_value :: "ClockSyncReqCause \<Rightarrow> int" where
  "ClockSyncReqCause_value ClockSyncReqCause_ACTIVATION = CauseType_value CauseType_ACTIVATION"

definition ClockSyncReqCause_members :: "ClockSyncReqCause list" where
  "ClockSyncReqCause_members =
     [ClockSyncReqCause_ACTIVATION]"

definition ClockSyncReqCause_of :: "int \<Rightarrow> ClockSyncReqCause result" where
  "ClockSyncReqCause_of = enum_lookup ClockSyncReqCause_value ClockSyncReqCause_members"

interpretation ClockSyncReqCause: enumeration ClockSyncReqCause_value ClockSyncReqCause_members
proof unfold_locales
  show "x \<in> set ClockSyncReqCause_members" for x by (cases x) (simp_all add: ClockSyncReqCause_members_def)
  show "distinct (map ClockSyncReqCause_value ClockSyncReqCause_members)" by (simp add: ClockSyncReqCause_members_def)
qed

datatype (plugins only: code size) ClockSyncResCause =
    ClockSyncResCause_SPONTANEOUS | ClockSyncResCause_ACTIVATION_CONFIRMATION
  | ClockSyncResCause_UNKNOWN_TYPE | ClockSyncResCause_UNKNOWN_CAUSE
  | ClockSyncResCause_UNKNOWN_ASDU_ADDRESS | ClockSyncResCause_UNKNOWN_IO_ADDRESS

fun ClockSyncResCause_value :: "ClockSyncResCause \<Rightarrow> int" where
  "ClockSyncResCause_value ClockSyncResCause_SPONTANEOUS = CauseType_value CauseType_SPONTANEOUS"
| "ClockSyncResCause_value ClockSyncResCause_ACTIVATION_CONFIRMATION = CauseType_value CauseType_ACTIVATION_CONFIRMATION"
| "ClockSyncResCause_value ClockSyncResCause_UNKNOWN_TYPE = CauseType_value CauseType_UNKNOWN_TYPE"
| "ClockSyncResCause_value ClockSyncResCause_UNKNOWN_CAUSE = CauseType_value CauseType_UNKNOWN_CAUSE"
| "ClockSyncResCause_value ClockSyncResCause_UNKNOWN_ASDU_ADDRESS = CauseType_value CauseType_UNKNOWN_ASDU_ADDRESS"
| "ClockSyncResCause_value ClockSyncResCause_UNKNOWN_IO_ADDRESS = CauseType_value CauseType_UNKNOWN_IO_ADDRESS"

definition ClockSyncResCause_members :: "ClockSyncResCause list" where
  "ClockSyncResCause_members =
     [ClockSyncResCause_SPONTANEOUS, ClockSyncResCause_ACTIVATION_CONFIRMATION,
     ClockSyncResCause_UNKNOWN_TYPE, ClockSyncResCause_UNKNOWN_CAUSE,
     ClockSyncResCause_UNKNOWN_ASDU_ADDRESS, ClockSyncResCause_UNKNOWN_IO_ADDRESS]"

definition ClockSyncResCause_of :: "int \<Rightarrow> ClockSyncResCause result" where
  "ClockSyncResCause_of = enum_lookup ClockSyncResCause_value ClockSyncResCause_members"

interpretation ClockSyncResCause: enumeration ClockSyncResCause_value ClockSyncResCause_members
proof unfold_locales
  show "x \<in> set ClockSyncResCause_members" for x by (cases x) (simp_all add: ClockSyncResCause_members_def)
  show "distinct (map ClockSyncResCause_value ClockSyncResCause_members)" by (simp add: ClockSyncResCause_members_def)
qed

datatype (plugins only: code size) ActivationReqCause =
    ActivationReqCause_ACTIVATION

fun ActivationReqCause_value :: "ActivationReqCause \<Rightarrow> int" where
  "ActivationReqCause_value ActivationReqCause_ACTIVATION = CauseType_value CauseType_ACTIVATION"

definition ActivationReqCause_members :: "ActivationReqCause list" where
  "ActivationReqCause_members =
     [ActivationReqCause_ACTIVATION]"

definition ActivationReqCause_of :: "int \<Rightarrow> ActivationReqCause result" where
  "ActivationReqCause_of = enum_lookup ActivationReqCause_value ActivationReqCause_members"

interpretation ActivationReqCause: enumeration ActivationReqCause_value ActivationReqCause_members
proof unfold_locales
  show "x \<in> set ActivationReqCause_members" for x by (cases x) (simp_all add: ActivationReqCause_members_def)
  show "distinct (map ActivationReqCause_value ActivationReqCause_members)" by (simp add: ActivationReqCause_members_def)
qed

datatype (plugins only: code size) ActivationResCause =
    ActivationResCause_ACTIVATION_CONFIRMATION | ActivationResCause_UNKNOWN_TYPE
  | ActivationResCause_UNKNOWN_CAUSE | ActivationResCause_UNKNOWN_ASDU_ADDRESS
  | ActivationResCause_UNKNOWN_IO_ADDRESS

fun ActivationResCause_value :: "ActivationResCause \<Rightarrow> int" where
  "ActivationResCause_value ActivationResCause_ACTIVATION_CONFIRMATION = CauseType_value CauseType_ACTIVATION_CONFIRMATION"
| "ActivationResCause_value ActivationResCause_UNKNOWN_TYPE = CauseType_value CauseType_UNKNOWN_TYPE"
| "ActivationResCause_value ActivationResCause_UNKNOWN_CAUSE = CauseType_value CauseType_UNKNOWN_CAUSE"
| "ActivationResCause_value ActivationResCause_UNKNOWN_ASDU_ADDRESS = CauseType_value CauseType_UNKNOWN_ASDU_ADDRESS"
| "ActivationResCause_value ActivationResCause_UNKNOWN_IO_ADDRESS = CauseType_value CauseType_UNKNOWN_IO_ADDRESS"

definition ActivationResCause_members :: "ActivationResCause list" where
  "ActivationResCause_members =
     [ActivationResCause_ACTIVATION_CONFIRMATION, ActivationResCause_UNKNOWN_TYPE,
     ActivationResCause_UNKNOWN_CAUSE, ActivationResCause_UNKNOWN_ASDU_ADDRESS,
     ActivationResCause_UNKNOWN_IO_ADDRESS]"

definition ActivationResCause_of :: "int \<Rightarrow> ActivationResCause result" where
  "ActivationResCause_of = enum_lookup ActivationResCause_value ActivationResCause_members"

interpretation ActivationResCause: enumeration ActivationResCause_value ActivationResCause_members
proof unfold_locales
  show "x \<in> set ActivationResCause_members" for x by (cases x) (simp_all add: ActivationResCause_members_def)
  show "distinct (map ActivationResCause_value ActivationResCause_members)" by (simp add: ActivationResCause_members_def)
qed

datatype (plugins only: code size) DelayReqCause =
    DelayReqCause_SPONTANEOUS | DelayReqCause_ACTIVATION

fun DelayReqCause_value :: "DelayReqCause \<Rightarrow> int" where
  "DelayReqCause_value DelayReqCause_SPONTANEOUS = CauseType_value CauseType_SPONTANEOUS"
| "DelayReqCause_value DelayReqCause_ACTIVATION = CauseType_value CauseType_ACTIVATION"

definition DelayReqCause_members :: "DelayReqCause list" where
  "DelayReqCause_members =
     [DelayReqCause_SPONTANEOUS, DelayReqCause_ACTIVATION]"

definition DelayReqCause_of :: "int \<Rightarrow> DelayReqCause result" where
  "DelayReqCause_of = enum_lookup DelayReqCause_value DelayReqCause_members"

interpretation DelayReqCause: enumeration DelayReqCause_value DelayReqCause_members
proof unfold_locales
  show "x \<in> set DelayReqCause_members" for x by (cases x) (simp_all add: DelayReqCause_members_def)
  show "distinct (map DelayReqCause_value DelayReqCause_members)" by (simp add: DelayReqCause_members_def)
qed

datatype (plugins only: code size) DelayResCause =
    DelayResCause_ACTIVATION_CONFIRMATION | DelayResCause_UNKNOWN_TYPE
  | DelayResCause_UNKNOWN_CAUSE | DelayResCause_UNKNOWN_ASDU_ADDRESS
  | DelayResCause_UNKNOWN_IO_ADDRESS

fun DelayResCause_value :: "DelayResCause \<Rightarrow> int" where
  "DelayResCause_value DelayResCause_ACTIVATION_CONFIRMATION = CauseType_value CauseType_ACTIVATION_CONFIRMATION"
| "DelayResCause_value DelayResCause_UNKNOWN_TYPE = CauseType_value CauseType_UNKNOWN_TYPE"
| "DelayResCause_value DelayResCause_UNKNOWN_CAUSE = CauseType_value CauseType_UNKNOWN_CAUSE"
| "DelayResCause_value DelayResCause_UNKNOWN_ASDU_ADDRESS = CauseType_value CauseType_UNKNOWN_ASDU_ADDRESS"
| "DelayResCause_value DelayResCause_UNKNOWN_IO_ADDRESS = CauseType_value CauseType_UNKNOWN_IO_ADDRESS"

definition DelayResCause_members :: "DelayResCause list" where
  "DelayResCause_members =
     [DelayResCause_ACTIVATION_CONFIRMATION, DelayResCause_UNKNOWN_TYPE,
     DelayResCause_UNKNOWN_CAUSE, DelayResCause_UNKNOWN_ASDU_ADDRESS,
     DelayResCause_UNKNOWN_IO_ADDRESS]"

definition DelayResCause_of :: "int \<Rightarrow> DelayResCause result" where
  "DelayResCause_of = enum_lookup DelayResCause_value DelayResCause_members"

interpretation DelayResCause: enumeration DelayResCause_value DelayResCause_members
proof unfold_locales
  show "x \<in> set DelayResCause_members" for x by (cases x) (simp_all add: DelayResCause_members_def)
  show "distinct (map DelayResCause_value DelayResCause_members)" by (simp add: DelayResCause_members_def)
qed

datatype (plugins only: code size) ParameterReqCause =
    ParameterReqCause_SPONTANEOUS | ParameterReqCause_ACTIVATION

fun ParameterReqCause_value :: "ParameterReqCause \<Rightarrow> int" where
  "ParameterReqCause_value ParameterReqCause_SPONTANEOUS = CauseType_value CauseType_SPONTANEOUS"
| "ParameterReqCause_value ParameterReqCause_ACTIVATION = CauseType_value CauseType_ACTIVATION"

definition ParameterReqCause_members :: "ParameterReqCause list" where
  "ParameterReqCause_members =
     [ParameterReqCause_SPONTANEOUS, ParameterReqCause_ACTIVATION]"

definition ParameterReqCause_of :: "int \<Rightarrow> ParameterReqCause result" where
  "ParameterReqCause_of = enum_lookup ParameterReqCause_value ParameterReqCause_members"

interpretation ParameterReqCause: enumeration ParameterReqCause_value ParameterReqCause_members
proof unfold_locales
  show "x \<in> set ParameterReqCause_members" for x by (cases x) (simp_all add: ParameterReqCause_members_def)
  show "distinct (map ParameterReqCause_value ParameterReqCause_members)" by (simp add: ParameterReqCause_members_def)
qed

datatype (plugins only: code size) ParameterResCause =
    ParameterResCause_ACTIVATION_CONFIRMATION | ParameterResCause_INTERROGATED_STATION
  | ParameterResCause_INTERROGATED_GROUP01 | ParameterResCause_INTERROGATED_GROUP02
  | ParameterResCause_INTERROGATED_GROUP03 | ParameterResCause_INTERROGATED_GROUP04
  | ParameterResCause_INTERROGATED_GROUP05 | ParameterResCause_INTERROGATED_GROUP06
  | ParameterResCause_INTERROGATED_GROUP07 | ParameterResCause_INTERROGATED_GROUP08
  | ParameterResCause_INTERROGATED_GROUP09 | ParameterResCause_INTERROGATED_GROUP10
  | ParameterResCause_INTERROGATED_GROUP11 | ParameterResCause_INTERROGATED_GROUP12
  | ParameterResCause_INTERROGATED_GROUP13 | ParameterResCause_INTERROGATED_GROUP14
  | ParameterResCause_INTERROGATED_GROUP15 | ParameterResCause_INTERROGATED_GROUP16
  | ParameterResCause_UNKNOWN_TYPE | ParameterResCause_UNKNOWN_CAUSE
  | ParameterResCause_UNKNOWN_ASDU_ADDRESS | ParameterResCause_UNKNOWN_IO_ADDRESS

fun ParameterResCause_value :: "ParameterResCause \<Rightarrow> int" where
  "ParameterResCause_value ParameterResCause_ACTIVATION_CONFIRMATION = CauseType_value CauseType_ACTIVATION_CONFIRMATION"
| "ParameterResCause_value ParameterResCause_INTERROGATED_STATION = CauseType_value CauseType_INTERROGATED_STATION"
| "ParameterResCause_value ParameterResCause_INTERROGATED_GROUP01 = CauseType_value CauseType_INTERROGATED_GROUP01"
| "ParameterResCause_value ParameterResCause_INTERROGATED_GROUP02 = CauseType_value CauseType_INTERROGATED_GROUP02"
| "ParameterResCause_value ParameterResCause_INTERROGATED_GROUP03 = CauseType_value CauseType_INTERROGATED_GROUP03"
| "ParameterResCause_value ParameterResCause_INTERROGATED_GROUP04 = CauseType_value CauseType_INTERROGATED_GROUP04"
| "ParameterResCause_value ParameterResCause_INTERROGATED_GROUP05 = CauseType_value CauseType_INTERROGATED_GROUP05"
| "ParameterResCause_value ParameterResCause_INTERROGATED_GROUP06 = CauseType_value CauseType_INTERROGATED_GROUP06"
| "ParameterResCause_value ParameterResCause_INTERROGATED_GROUP07 = CauseType_value CauseType_INTERROGATED_GROUP07"
| "ParameterResCause_value ParameterResCause_INTERROGATED_GROUP08 = CauseType_value CauseType_INTERROGATED_GROUP08"
| "ParameterResCause_value ParameterResCause_INTERROGATED_GROUP09 = CauseType_value CauseType_INTERROGATED_GROUP09"
| "ParameterResCause_value ParameterResCause_INTERROGATED_GROUP10 = CauseType_value CauseType_INTERROGATED_GROUP10"
| "ParameterResCause_value ParameterResCause_INTERROGATED_GROUP11 = CauseType_value CauseType_INTERROGATED_GROUP11"
| "ParameterResCause_value ParameterResCause_INTERROGATED_GROUP12 = CauseType_value CauseType_INTERROGATED_GROUP12"
| "ParameterResCause_value ParameterResCause_INTERROGATED_GROUP13 = CauseType_value CauseType_INTERROGATED_GROUP13"
| "ParameterResCause_value ParameterResCause_INTERROGATED_GROUP14 = CauseType_value CauseType_INTERROGATED_GROUP14"
| "ParameterResCause_value ParameterResCause_INTERROGATED_GROUP15 = CauseType_value CauseType_INTERROGATED_GROUP15"
| "ParameterResCause_value ParameterResCause_INTERROGATED_GROUP16 = CauseType_value CauseType_INTERROGATED_GROUP16"
| "ParameterResCause_value ParameterResCause_UNKNOWN_TYPE = CauseType_value CauseType_UNKNOWN_TYPE"
| "ParameterResCause_value ParameterResCause_UNKNOWN_CAUSE = CauseType_value CauseType_UNKNOWN_CAUSE"
| "ParameterResCause_value ParameterResCause_UNKNOWN_ASDU_ADDRESS = CauseType_value CauseType_UNKNOWN_ASDU_ADDRESS"
| "ParameterResCause_value ParameterResCause_UNKNOWN_IO_ADDRESS = CauseType_value CauseType_UNKNOWN_IO_ADDRESS"

definition ParameterResCause_members :: "ParameterResCause list" where
  "ParameterResCause_members =
     [ParameterResCause_ACTIVATION_CONFIRMATION, ParameterResCause_INTERROGATED_STATION,
     ParameterResCause_INTERROGATED_GROUP01, ParameterResCause_INTERROGATED_GROUP02,
     ParameterResCause_INTERROGATED_GROUP03, ParameterResCause_INTERROGATED_GROUP04,
     ParameterResCause_INTERROGATED_GROUP05, ParameterResCause_INTERROGATED_GROUP06,
     ParameterResCause_INTERROGATED_GROUP07, ParameterResCause_INTERROGATED_GROUP08,
     ParameterResCause_INTERROGATED_GROUP09, ParameterResCause_INTERROGATED_GROUP10,
     ParameterResCause_INTERROGATED_GROUP11, ParameterResCause_INTERROGATED_GROUP12,
     ParameterResCause_INTERROGATED_GROUP13, ParameterResCause_INTERROGATED_GROUP14,
     ParameterResCause_INTERROGATED_GROUP15, ParameterResCause_INTERROGATED_GROUP16,
     ParameterResCause_UNKNOWN_TYPE, ParameterResCause_UNKNOWN_CAUSE,
     ParameterResCause_UNKNOWN_ASDU_ADDRESS, ParameterResCause_UNKNOWN_IO_ADDRESS]"

definition ParameterResCause_of :: "int \<Rightarrow> ParameterResCause result" where
  "ParameterResCause_of = enum_lookup ParameterResCause_value ParameterResCause_members"

interpretation ParameterResCause: enumeration ParameterResCause_value ParameterResCause_members
proof unfold_locales
  show "x \<in> set ParameterResCause_members" for x by (cases x) (simp_all add: ParameterResCause_members_def)
  show "distinct (map ParameterResCause_value ParameterResCause_members)" by (simp add: ParameterResCause_members_def)
qed

datatype (plugins only: code size) ParameterActivationReqCause =
    ParameterActivationReqCause_ACTIVATION | ParameterActivationReqCause_DEACTIVATION

fun ParameterActivationReqCause_value :: "ParameterActivationReqCause \<Rightarrow> int" where
  "ParameterActivationReqCause_value ParameterActivationReqCause_ACTIVATION = CauseType_value CauseType_ACTIVATION"
| "ParameterActivationReqCause_value ParameterActivationReqCause_DEACTIVATION = CauseType_value CauseType_DEACTIVATION"

definition ParameterActivationReqCause_members :: "ParameterActivationReqCause list" where
  "ParameterActivationReqCause_members =
     [ParameterActivationReqCause_ACTIVATION, ParameterActivationReqCause_DEACTIVATION]"

definition ParameterActivationReqCause_of :: "int \<Rightarrow> ParameterActivationReqCause result" where
  "ParameterActivationReqCause_of = enum_lookup ParameterActivationReqCause_value ParameterActivationReqCause_members"

interpretation ParameterActivationReqCause: enumeration ParameterActivationReqCause_value ParameterActivationReqCause_members
proof unfold_locales
  show "x \<in> set ParameterActivationReqCause_members" for x by (cases x) (simp_all add: ParameterActivationReqCause_members_def)
  show "distinct (map ParameterActivationReqCause_value ParameterActivationReqCause_members)" by (simp add: ParameterActivationReqCause_members_def)
qed

datatype (plugins only: code size) ParameterActivationResCause =
    ParameterActivationResCause_ACTIVATION_CONFIRMATION
  | ParameterActivationResCause_DEACTIVATION_CONFIRMATION
  | ParameterActivationResCause_UNKNOWN_TYPE | ParameterActivationResCause_UNKNOWN_CAUSE
  | ParameterActivationResCause_UNKNOWN_ASDU_ADDRESS
  | ParameterActivationResCause_UNKNOWN_IO_ADDRESS

fun ParameterActivationResCause_value :: "ParameterActivationResCause \<Rightarrow> int" where
  "ParameterActivationResCause_value ParameterActivationResCause_ACTIVATION_CONFIRMATION = CauseType_value CauseType_ACTIVATION_CONFIRMATION"
| "ParameterActivationResCause_value ParameterActivationResCause_DEACTIVATION_CONFIRMATION = CauseType_value CauseType_DEACTIVATION_CONFIRMATION"
| "ParameterActivationResCause_value ParameterActivationResCause_UNKNOWN_TYPE = CauseType_value CauseType_UNKNOWN_TYPE"
| "ParameterActivationResCause_value ParameterActivationResCause_UNKNOWN_CAUSE = CauseType_value CauseType_UNKNOWN_CAUSE"
| "ParameterActivationResCause_value ParameterActivationResCause_UNKNOWN_ASDU_ADDRESS = CauseType_value CauseType_UNKNOWN_ASDU_ADDRESS"
| "ParameterActivationResCause_value ParameterActivationResCause_UNKNOWN_IO_ADDRESS = CauseType_value CauseType_UNKNOWN_IO_ADDRESS"

definition ParameterActivationResCause_members :: "ParameterActivationResCause list" where
  "ParameterActivationResCause_members =
     [ParameterActivationResCause_ACTIVATION_CONFIRMATION,
     ParameterActivationResCause_DEACTIVATION_CONFIRMATION,
     ParameterActivationResCause_UNKNOWN_TYPE, ParameterActivationResCause_UNKNOWN_CAUSE,
     ParameterActivationResCause_UNKNOWN_ASDU_ADDRESS,
     ParameterActivationResCause_UNKNOWN_IO_ADDRESS]"

definition ParameterActivationResCause_of :: "int \<Rightarrow> ParameterActivationResCause result" where
  "ParameterActivationResCause_of = enum_lookup ParameterActivationResCause_value ParameterActivationResCause_members"

interpretation ParameterActivationResCause: enumeration ParameterActivationResCause_value ParameterActivationResCause_members
proof unfold_locales
  show "x \<in> set ParameterActivationResCause_members" for x by (cases x) (simp_all add: ParameterActivationResCause_members_def)
  show "distinct (map ParameterActivationResCause_value ParameterActivationResCause_members)" by (simp add: ParameterActivationResCause_members_def)
qed

section \<open>Causes of a message\<close>

datatype ('q, 'r) MsgCause = ReqCause 'q | ResCause 'r | OtherMsgCause int

datatype 'r ResMsgCause = OnlyResCause 'r | OtherResCause int

type_synonym DataCause = "DataResCause ResMsgCause"
type_synonym InitializationCause = "InitializationResCause ResMsgCause"
type_synonym CommandCause = "(CommandReqCause, CommandResCause) MsgCause"
type_synonym ReadCause = "(ReadReqCause, ReadResCause) MsgCause"
type_synonym ClockSyncCause = "(ClockSyncReqCause, ClockSyncResCause) MsgCause"
type_synonym ActivationCause = "(ActivationReqCause, ActivationResCause) MsgCause"
type_synonym DelayCause = "(DelayReqCause, DelayResCause) MsgCause"
type_synonym ParameterCause = "(ParameterReqCause, ParameterResCause) MsgCause"
type_synonym ParameterActivationCause = "(ParameterActivationReqCause, ParameterActivationResCause) MsgCause"

text \<open>
  \<open>_decode_cause\<close> for two classes and for one, given by their calls; the argument is the number
  of the cause.
\<close>

definition decode_msg_cause :: "(int \<Rightarrow> 'q result) \<Rightarrow> (int \<Rightarrow> 'r result) \<Rightarrow> int \<Rightarrow> ('q, 'r) MsgCause" where
  "decode_msg_cause req_of res_of n =
     (case req_of n of
        Inr q \<Rightarrow> ReqCause q
      | Inl _ \<Rightarrow> (case res_of n of Inr r \<Rightarrow> ResCause r | Inl _ \<Rightarrow> OtherMsgCause n))"

definition decode_res_cause :: "(int \<Rightarrow> 'r result) \<Rightarrow> int \<Rightarrow> 'r ResMsgCause" where
  "decode_res_cause res_of n = (case res_of n of Inr r \<Rightarrow> OnlyResCause r | Inl _ \<Rightarrow> OtherResCause n)"

fun msg_cause_value :: "('q \<Rightarrow> int) \<Rightarrow> ('r \<Rightarrow> int) \<Rightarrow> ('q, 'r) MsgCause \<Rightarrow> int" where
  "msg_cause_value req_val res_val (ReqCause q) = req_val q"
| "msg_cause_value req_val res_val (ResCause r) = res_val r"
| "msg_cause_value req_val res_val (OtherMsgCause n) = n"

fun res_cause_value :: "('r \<Rightarrow> int) \<Rightarrow> 'r ResMsgCause \<Rightarrow> int" where
  "res_cause_value res_val (OnlyResCause r) = res_val r"
| "res_cause_value res_val (OtherResCause n) = n"

text \<open>
  A cause is well formed where a number stands only for a cause that has no name. The bound
  \<open>k\<close> is 64 for a cause in the header of a data unit.
\<close>

fun msg_cause_ok :: "('q \<Rightarrow> int) \<Rightarrow> ('r \<Rightarrow> int) \<Rightarrow> ('q, 'r) MsgCause \<Rightarrow> bool" where
  "msg_cause_ok req_val res_val (OtherMsgCause n) \<longleftrightarrow>
     0 \<le> n \<and> n < 64 \<and> n \<notin> range req_val \<and> n \<notin> range res_val"
| "msg_cause_ok req_val res_val _ \<longleftrightarrow> True"

fun res_cause_ok :: "int \<Rightarrow> ('r \<Rightarrow> int) \<Rightarrow> 'r ResMsgCause \<Rightarrow> bool" where
  "res_cause_ok k res_val (OtherResCause n) \<longleftrightarrow> 0 \<le> n \<and> n < k \<and> n \<notin> range res_val"
| "res_cause_ok k res_val _ \<longleftrightarrow> True"

locale cause_classes =
  q: enumeration req_val req_members + r: enumeration res_val res_members
  for req_val :: "'q \<Rightarrow> int" and req_members and res_val :: "'r \<Rightarrow> int" and res_members +
  assumes disjoint: "req_val q \<noteq> res_val r"
    and req_range: "0 \<le> req_val q" "req_val q < 64"
    and res_range: "0 \<le> res_val r" "res_val r < 64"
begin

abbreviation decode :: "int \<Rightarrow> ('q, 'r) MsgCause" where
  "decode \<equiv> decode_msg_cause (enum_lookup req_val req_members) (enum_lookup res_val res_members)"

lemma decode_value:
  assumes "msg_cause_ok req_val res_val c"
  shows "decode (msg_cause_value req_val res_val c) = c"
proof (cases c)
  case (ResCause r)
  have "\<exists>e. enum_lookup req_val req_members (res_val r) = Raise e"
    unfolding q.of_Raise_iff using disjoint by (metis rangeE)
  with ResCause show ?thesis by (auto simp: decode_msg_cause_def r.of_value)
next
  case (OtherMsgCause n)
  with assms have "\<exists>e. enum_lookup req_val req_members n = Raise e"
    "\<exists>e. enum_lookup res_val res_members n = Raise e"
    by (simp_all add: q.of_Raise_iff r.of_Raise_iff)
  with OtherMsgCause show ?thesis by (auto simp: decode_msg_cause_def)
qed (simp add: decode_msg_cause_def q.of_value)

lemma value_range:
  assumes "msg_cause_ok req_val res_val c"
  shows "0 \<le> msg_cause_value req_val res_val c" "msg_cause_value req_val res_val c < 64"
  using assms req_range res_range by (cases c; simp)+

end

context enumeration begin

lemma decode_res_value:
  assumes "res_cause_ok k val c"
  shows "decode_res_cause (enum_lookup val members) (res_cause_value val c) = c"
proof (cases c)
  case (OtherResCause n)
  with assms have "\<exists>e. enum_lookup val members n = Raise e" by (simp add: of_Raise_iff)
  with OtherResCause show ?thesis by (auto simp: decode_res_cause_def)
qed (simp add: decode_res_cause_def of_value)

end

interpretation CommandCause: cause_classes CommandReqCause_value CommandReqCause_members CommandResCause_value CommandResCause_members
proof unfold_locales
  fix q r
  show "CommandReqCause_value q \<noteq> CommandResCause_value r" by (cases q; cases r) simp_all
  show "0 \<le> CommandReqCause_value q" "CommandReqCause_value q < 64" by (cases q; simp)+
  show "0 \<le> CommandResCause_value r" "CommandResCause_value r < 64" by (cases r; simp)+
qed

interpretation ReadCause: cause_classes ReadReqCause_value ReadReqCause_members ReadResCause_value ReadResCause_members
proof unfold_locales
  fix q r
  show "ReadReqCause_value q \<noteq> ReadResCause_value r" by (cases q; cases r) simp_all
  show "0 \<le> ReadReqCause_value q" "ReadReqCause_value q < 64" by (cases q; simp)+
  show "0 \<le> ReadResCause_value r" "ReadResCause_value r < 64" by (cases r; simp)+
qed

interpretation ClockSyncCause: cause_classes ClockSyncReqCause_value ClockSyncReqCause_members ClockSyncResCause_value ClockSyncResCause_members
proof unfold_locales
  fix q r
  show "ClockSyncReqCause_value q \<noteq> ClockSyncResCause_value r" by (cases q; cases r) simp_all
  show "0 \<le> ClockSyncReqCause_value q" "ClockSyncReqCause_value q < 64" by (cases q; simp)+
  show "0 \<le> ClockSyncResCause_value r" "ClockSyncResCause_value r < 64" by (cases r; simp)+
qed

interpretation ActivationCause: cause_classes ActivationReqCause_value ActivationReqCause_members ActivationResCause_value ActivationResCause_members
proof unfold_locales
  fix q r
  show "ActivationReqCause_value q \<noteq> ActivationResCause_value r" by (cases q; cases r) simp_all
  show "0 \<le> ActivationReqCause_value q" "ActivationReqCause_value q < 64" by (cases q; simp)+
  show "0 \<le> ActivationResCause_value r" "ActivationResCause_value r < 64" by (cases r; simp)+
qed

interpretation DelayCause: cause_classes DelayReqCause_value DelayReqCause_members DelayResCause_value DelayResCause_members
proof unfold_locales
  fix q r
  show "DelayReqCause_value q \<noteq> DelayResCause_value r" by (cases q; cases r) simp_all
  show "0 \<le> DelayReqCause_value q" "DelayReqCause_value q < 64" by (cases q; simp)+
  show "0 \<le> DelayResCause_value r" "DelayResCause_value r < 64" by (cases r; simp)+
qed

interpretation ParameterCause: cause_classes ParameterReqCause_value ParameterReqCause_members ParameterResCause_value ParameterResCause_members
proof unfold_locales
  fix q r
  show "ParameterReqCause_value q \<noteq> ParameterResCause_value r" by (cases q; cases r) simp_all
  show "0 \<le> ParameterReqCause_value q" "ParameterReqCause_value q < 64" by (cases q; simp)+
  show "0 \<le> ParameterResCause_value r" "ParameterResCause_value r < 64" by (cases r; simp)+
qed

interpretation ParameterActivationCause: cause_classes ParameterActivationReqCause_value ParameterActivationReqCause_members ParameterActivationResCause_value ParameterActivationResCause_members
proof unfold_locales
  fix q r
  show "ParameterActivationReqCause_value q \<noteq> ParameterActivationResCause_value r" by (cases q; cases r) simp_all
  show "0 \<le> ParameterActivationReqCause_value q" "ParameterActivationReqCause_value q < 64" by (cases q; simp)+
  show "0 \<le> ParameterActivationResCause_value r" "ParameterActivationResCause_value r < 64" by (cases r; simp)+
qed

section \<open>Data, commands and parameters\<close>

text \<open>The classes of \<open>Data\<close>, \<open>Command\<close> and \<open>Parameter\<close>, with their fields in order.\<close>

datatype (plugins only: code size) Data =
    SingleData SingleValue Quality
  | DoubleData DoubleValue Quality
  | StepPositionData StepPositionValue Quality
  | BitstringData BitstringValue Quality
  | NormalizedData NormalizedValue "Quality option"
  | ScaledData ScaledValue Quality
  | FloatingData FloatingValue Quality
  | BinaryCounterData BinaryCounterValue Quality
  | ProtectionData ProtectionValue Quality int
  | ProtectionStartData ProtectionStartValue Quality int
  | ProtectionCommandData ProtectionCommandValue Quality int
  | StatusData StatusValue Quality

datatype (plugins only: code size) Command =
    SingleCommand SingleValue bool int
  | DoubleCommand DoubleValue bool int
  | RegulatingCommand RegulatingValue bool int
  | NormalizedCommand NormalizedValue bool
  | ScaledCommand ScaledValue bool
  | FloatingCommand FloatingValue bool
  | BitstringCommand BitstringValue

datatype (plugins only: code size) Parameter =
    NormalizedParameter NormalizedValue int
  | ScaledParameter ScaledValue int
  | FloatingParameter FloatingValue int

text \<open>The documented ranges of their fields.\<close>

fun data_ok :: "Data \<Rightarrow> bool" where
  "data_ok (SingleData v q) \<longleftrightarrow> quality_ok QualityType_INDICATION q"
| "data_ok (DoubleData v q) \<longleftrightarrow> quality_ok QualityType_INDICATION q"
| "data_ok (StepPositionData v q) \<longleftrightarrow> step_position_ok v \<and> quality_ok QualityType_MEASUREMENT q"
| "data_ok (BitstringData v q) \<longleftrightarrow> bitstring_ok v \<and> quality_ok QualityType_MEASUREMENT q"
| "data_ok (NormalizedData v q) \<longleftrightarrow> normalized_ok v \<and> pred_option (quality_ok QualityType_MEASUREMENT) q"
| "data_ok (ScaledData v q) \<longleftrightarrow> scaled_ok v \<and> quality_ok QualityType_MEASUREMENT q"
| "data_ok (FloatingData v q) \<longleftrightarrow> floating_ok v \<and> quality_ok QualityType_MEASUREMENT q"
| "data_ok (BinaryCounterData v q) \<longleftrightarrow> binary_counter_ok v \<and> quality_ok QualityType_COUNTER q"
| "data_ok (ProtectionData v q t) \<longleftrightarrow> quality_ok QualityType_PROTECTION q \<and> 0 \<le> t \<and> t < 65536"
| "data_ok (ProtectionStartData v q t) \<longleftrightarrow> quality_ok QualityType_PROTECTION q \<and> 0 \<le> t \<and> t < 65536"
| "data_ok (ProtectionCommandData v q t) \<longleftrightarrow> quality_ok QualityType_PROTECTION q \<and> 0 \<le> t \<and> t < 65536"
| "data_ok (StatusData v q) \<longleftrightarrow> status_ok v \<and> quality_ok QualityType_MEASUREMENT q"

fun command_ok :: "Command \<Rightarrow> bool" where
  "command_ok (SingleCommand v s ql) \<longleftrightarrow> 0 \<le> ql \<and> ql < 32"
| "command_ok (DoubleCommand v s ql) \<longleftrightarrow> 0 \<le> ql \<and> ql < 32"
| "command_ok (RegulatingCommand v s ql) \<longleftrightarrow> 0 \<le> ql \<and> ql < 32"
| "command_ok (NormalizedCommand v s) \<longleftrightarrow> normalized_ok v"
| "command_ok (ScaledCommand v s) \<longleftrightarrow> scaled_ok v"
| "command_ok (FloatingCommand v s) \<longleftrightarrow> floating_ok v"
| "command_ok (BitstringCommand v) \<longleftrightarrow> bitstring_ok v"

fun parameter_ok :: "Parameter \<Rightarrow> bool" where
  "parameter_ok (NormalizedParameter v ql) \<longleftrightarrow> normalized_ok v \<and> 0 \<le> ql \<and> ql < 256"
| "parameter_ok (ScaledParameter v ql) \<longleftrightarrow> scaled_ok v \<and> 0 \<le> ql \<and> ql < 256"
| "parameter_ok (FloatingParameter v ql) \<longleftrightarrow> floating_ok v \<and> 0 \<le> ql \<and> ql < 256"

text \<open>
  The attributes \<open>value\<close>, \<open>quality\<close>, ... of an element whose class holds a value of the kind
  that is asked for. Under the type of its data unit an element of another kind does not come
  from the decoder of data units; it is an error here.
\<close>

definition single_attributes :: "IoElement \<Rightarrow> (SingleValue \<times> Quality) result" where
  "single_attributes e =
     (case e of
        IoElement_M_SP_NA v q \<Rightarrow> Ok (v, q)
      | IoElement_M_SP_TA v q \<Rightarrow> Ok (v, q)
      | IoElement_M_SP_TB v q \<Rightarrow> Ok (v, q)
      | _ \<Rightarrow> Raise (AttributeError ''value''))"

definition double_attributes :: "IoElement \<Rightarrow> (DoubleValue \<times> Quality) result" where
  "double_attributes e =
     (case e of
        IoElement_M_DP_NA v q \<Rightarrow> Ok (v, q)
      | IoElement_M_DP_TA v q \<Rightarrow> Ok (v, q)
      | IoElement_M_DP_TB v q \<Rightarrow> Ok (v, q)
      | _ \<Rightarrow> Raise (AttributeError ''value''))"

definition step_position_attributes :: "IoElement \<Rightarrow> (StepPositionValue \<times> Quality) result" where
  "step_position_attributes e =
     (case e of
        IoElement_M_ST_NA v q \<Rightarrow> Ok (v, q)
      | IoElement_M_ST_TA v q \<Rightarrow> Ok (v, q)
      | IoElement_M_ST_TB v q \<Rightarrow> Ok (v, q)
      | _ \<Rightarrow> Raise (AttributeError ''value''))"

definition bitstring_attributes :: "IoElement \<Rightarrow> (BitstringValue \<times> Quality) result" where
  "bitstring_attributes e =
     (case e of
        IoElement_M_BO_NA v q \<Rightarrow> Ok (v, q)
      | IoElement_M_BO_TA v q \<Rightarrow> Ok (v, q)
      | IoElement_M_BO_TB v q \<Rightarrow> Ok (v, q)
      | _ \<Rightarrow> Raise (AttributeError ''value''))"

definition normalized_attributes :: "IoElement \<Rightarrow> (NormalizedValue \<times> Quality) result" where
  "normalized_attributes e =
     (case e of
        IoElement_M_ME_NA v q \<Rightarrow> Ok (v, q)
      | IoElement_M_ME_TA v q \<Rightarrow> Ok (v, q)
      | IoElement_M_ME_TD v q \<Rightarrow> Ok (v, q)
      | _ \<Rightarrow> Raise (AttributeError ''value''))"

definition scaled_attributes :: "IoElement \<Rightarrow> (ScaledValue \<times> Quality) result" where
  "scaled_attributes e =
     (case e of
        IoElement_M_ME_NB v q \<Rightarrow> Ok (v, q)
      | IoElement_M_ME_TB v q \<Rightarrow> Ok (v, q)
      | IoElement_M_ME_TE v q \<Rightarrow> Ok (v, q)
      | _ \<Rightarrow> Raise (AttributeError ''value''))"

definition floating_attributes :: "IoElement \<Rightarrow> (FloatingValue \<times> Quality) result" where
  "floating_attributes e =
     (case e of
        IoElement_M_ME_NC v q \<Rightarrow> Ok (v, q)
      | IoElement_M_ME_TC v q \<Rightarrow> Ok (v, q)
      | IoElement_M_ME_TF v q \<Rightarrow> Ok (v, q)
      | _ \<Rightarrow> Raise (AttributeError ''value''))"

definition binary_counter_attributes :: "IoElement \<Rightarrow> (BinaryCounterValue \<times> Quality) result" where
  "binary_counter_attributes e =
     (case e of
        IoElement_M_IT_NA v q \<Rightarrow> Ok (v, q)
      | IoElement_M_IT_TA v q \<Rightarrow> Ok (v, q)
      | IoElement_M_IT_TB v q \<Rightarrow> Ok (v, q)
      | _ \<Rightarrow> Raise (AttributeError ''value''))"

definition protection_attributes :: "IoElement \<Rightarrow> (ProtectionValue \<times> Quality \<times> int) result" where
  "protection_attributes e =
     (case e of
        IoElement_M_EP_TA v q t \<Rightarrow> Ok (v, q, t)
      | IoElement_M_EP_TD v q t \<Rightarrow> Ok (v, q, t)
      | _ \<Rightarrow> Raise (AttributeError ''value''))"

definition protection_start_attributes :: "IoElement \<Rightarrow> (ProtectionStartValue \<times> Quality \<times> int) result" where
  "protection_start_attributes e =
     (case e of
        IoElement_M_EP_TB v q t \<Rightarrow> Ok (v, q, t)
      | IoElement_M_EP_TE v q t \<Rightarrow> Ok (v, q, t)
      | _ \<Rightarrow> Raise (AttributeError ''value''))"

definition protection_command_attributes :: "IoElement \<Rightarrow> (ProtectionCommandValue \<times> Quality \<times> int) result" where
  "protection_command_attributes e =
     (case e of
        IoElement_M_EP_TC v q t \<Rightarrow> Ok (v, q, t)
      | IoElement_M_EP_TF v q t \<Rightarrow> Ok (v, q, t)
      | _ \<Rightarrow> Raise (AttributeError ''value''))"

lemmas attributes_defs =
  single_attributes_def double_attributes_def step_position_attributes_def bitstring_attributes_def
  normalized_attributes_def scaled_attributes_def floating_attributes_def binary_counter_attributes_def
  protection_attributes_def protection_start_attributes_def protection_command_attributes_def

section \<open>Encoding of causes\<close>

text \<open>\<open>_encode_cause\<close>, given the number of a cause, is the same as \<open>decode_cause_type\<close>.\<close>

definition encode_msg_cause :: "int \<Rightarrow> CauseTypeOrOther" where
  "encode_msg_cause n = (case CauseType_of n of Inr t \<Rightarrow> KnownCause t | Inl _ \<Rightarrow> OtherCause n)"

lemma encode_msg_cause_value [simp]: "encode_cause_type (encode_msg_cause n) = n"
  using decode_encode_cause_type [of n] by (simp add: encode_msg_cause_def decode_cause_type_def)

lemma encode_msg_cause_ok: "0 \<le> n \<Longrightarrow> n < 64 \<Longrightarrow> cause_type_ok (encode_msg_cause n)"
  using decode_cause_type_ok [of n] by (simp add: encode_msg_cause_def decode_cause_type_def)

end
