(* ===== verification/Iec101_Driver.thy ===== *)
theory Iec101_Driver
  imports Iec101_Messages
begin

text \<open>
  The driver of IEC 60870-5-101, from \<^verbatim>\<open>iec101/common.py\<close> and \<^verbatim>\<open>iec101/encoder.py\<close>: messages, and
  the class \<open>Encoder\<close> that puts each message into a data unit of its own and takes the messages
  out of a data unit with any number of objects and elements.
\<close>

section \<open>Messages\<close>

text \<open>The classes of \<open>Msg\<close>, with their fields in order.\<close>

datatype (plugins only: code size) Msg =
    DataMsg (msg_is_test: bool) (msg_originator_address: int) (msg_asdu_address: int) int Data "Time option" DataCause
  | CommandMsg (msg_is_test: bool) (msg_originator_address: int) (msg_asdu_address: int) int Command bool CommandCause
  | InitializationMsg (msg_is_test: bool) (msg_originator_address: int) (msg_asdu_address: int) bool InitializationCause
  | InterrogationMsg (msg_is_test: bool) (msg_originator_address: int) (msg_asdu_address: int) int bool CommandCause
  | CounterInterrogationMsg (msg_is_test: bool) (msg_originator_address: int) (msg_asdu_address: int) int FreezeCode bool CommandCause
  | ReadMsg (msg_is_test: bool) (msg_originator_address: int) (msg_asdu_address: int) int ReadCause
  | ClockSyncMsg (msg_is_test: bool) (msg_originator_address: int) (msg_asdu_address: int) Time bool ClockSyncCause
  | TestMsg (msg_is_test: bool) (msg_originator_address: int) (msg_asdu_address: int) ActivationCause
  | ResetMsg (msg_is_test: bool) (msg_originator_address: int) (msg_asdu_address: int) int ActivationCause
  | DelayMsg (msg_is_test: bool) (msg_originator_address: int) (msg_asdu_address: int) int DelayCause
  | ParameterMsg (msg_is_test: bool) (msg_originator_address: int) (msg_asdu_address: int) int Parameter ParameterCause
  | ParameterActivationMsg (msg_is_test: bool) (msg_originator_address: int) (msg_asdu_address: int) int int ParameterActivationCause

section \<open>Encoding\<close>

text \<open>The type for data without time tag, with seven bytes of it, and with three.\<close>

definition timed_type :: "Time option \<Rightarrow> AsduType option \<Rightarrow> AsduType option \<Rightarrow> AsduType option \<Rightarrow> AsduType result" where
  "timed_type time none seven three =
     (case (case time of
              None \<Rightarrow> none
            | Some t \<Rightarrow>
                if TimeSize_value (time_size t) \<ge> TimeSize_value TimeSize_SEVEN then seven
                else if TimeSize_value (time_size t) \<ge> TimeSize_value TimeSize_THREE then three
                else None) of
        None \<Rightarrow> Raise (ValueError ''unsupported data'')
      | Some ty \<Rightarrow> Ok ty)"

definition get_data_asdu_type :: "Data \<Rightarrow> Time option \<Rightarrow> AsduType result" where
  "get_data_asdu_type data time =
     (case data of
        SingleData _ _ \<Rightarrow> timed_type time (Some M_SP_NA) (Some M_SP_TB) (Some M_SP_TA)
      | DoubleData _ _ \<Rightarrow> timed_type time (Some M_DP_NA) (Some M_DP_TB) (Some M_DP_TA)
      | StepPositionData _ _ \<Rightarrow> timed_type time (Some M_ST_NA) (Some M_ST_TB) (Some M_ST_TA)
      | BitstringData _ _ \<Rightarrow> timed_type time (Some M_BO_NA) (Some M_BO_TB) (Some M_BO_TA)
      | NormalizedData _ q \<Rightarrow>
          if q \<noteq> None then timed_type time (Some M_ME_NA) (Some M_ME_TD) (Some M_ME_TA)
          else timed_type time (Some M_ME_ND) None None
      | ScaledData _ _ \<Rightarrow> timed_type time (Some M_ME_NB) (Some M_ME_TE) (Some M_ME_TB)
      | FloatingData _ _ \<Rightarrow> timed_type time (Some M_ME_NC) (Some M_ME_TF) (Some M_ME_TC)
      | BinaryCounterData _ _ \<Rightarrow> timed_type time (Some M_IT_NA) (Some M_IT_TB) (Some M_IT_TA)
      | ProtectionData _ _ _ \<Rightarrow> timed_type time None (Some M_EP_TD) (Some M_EP_TA)
      | ProtectionStartData _ _ _ \<Rightarrow> timed_type time None (Some M_EP_TE) (Some M_EP_TB)
      | ProtectionCommandData _ _ _ \<Rightarrow> timed_type time None (Some M_EP_TF) (Some M_EP_TC)
      | StatusData _ _ \<Rightarrow> timed_type time (Some M_PS_NA) None None)"

definition get_command_asdu_type :: "Command \<Rightarrow> AsduType" where
  "get_command_asdu_type command =
     (case command of
        SingleCommand _ _ _ \<Rightarrow> C_SC_NA
      | DoubleCommand _ _ _ \<Rightarrow> C_DC_NA
      | RegulatingCommand _ _ _ \<Rightarrow> C_RC_NA
      | NormalizedCommand _ _ \<Rightarrow> C_SE_NA
      | ScaledCommand _ _ \<Rightarrow> C_SE_NB
      | FloatingCommand _ _ \<Rightarrow> C_SE_NC
      | BitstringCommand _ \<Rightarrow> C_BO_NA)"

definition get_parameter_asdu_type :: "Parameter \<Rightarrow> AsduType" where
  "get_parameter_asdu_type parameter =
     (case parameter of
        NormalizedParameter _ _ \<Rightarrow> P_ME_NA
      | ScaledParameter _ _ \<Rightarrow> P_ME_NB
      | FloatingParameter _ _ \<Rightarrow> P_ME_NC)"

text \<open>
  The element for a type. Data, command or parameter of another kind than the type stands for do
  not come from the functions above; they are an error here.
\<close>

definition get_data_io_element :: "Data \<Rightarrow> AsduType \<Rightarrow> IoElement result" where
  "get_data_io_element data ty =
     (case data of
        SingleData v q \<Rightarrow>
          (case ty of M_SP_NA \<Rightarrow> Ok (IoElement_M_SP_NA v q) | M_SP_TA \<Rightarrow> Ok (IoElement_M_SP_TA v q)
           | M_SP_TB \<Rightarrow> Ok (IoElement_M_SP_TB v q) | _ \<Rightarrow> Raise (ValueError ''unsupported asdu type''))
      | DoubleData v q \<Rightarrow>
          (case ty of M_DP_NA \<Rightarrow> Ok (IoElement_M_DP_NA v q) | M_DP_TA \<Rightarrow> Ok (IoElement_M_DP_TA v q)
           | M_DP_TB \<Rightarrow> Ok (IoElement_M_DP_TB v q) | _ \<Rightarrow> Raise (ValueError ''unsupported asdu type''))
      | StepPositionData v q \<Rightarrow>
          (case ty of M_ST_NA \<Rightarrow> Ok (IoElement_M_ST_NA v q) | M_ST_TA \<Rightarrow> Ok (IoElement_M_ST_TA v q)
           | M_ST_TB \<Rightarrow> Ok (IoElement_M_ST_TB v q) | _ \<Rightarrow> Raise (ValueError ''unsupported asdu type''))
      | BitstringData v q \<Rightarrow>
          (case ty of M_BO_NA \<Rightarrow> Ok (IoElement_M_BO_NA v q) | M_BO_TA \<Rightarrow> Ok (IoElement_M_BO_TA v q)
           | M_BO_TB \<Rightarrow> Ok (IoElement_M_BO_TB v q) | _ \<Rightarrow> Raise (ValueError ''unsupported asdu type''))
      | NormalizedData v q \<Rightarrow>
          (case (ty, q) of
             (M_ME_ND, _) \<Rightarrow> Ok (IoElement_M_ME_ND v)
           | (M_ME_NA, Some q) \<Rightarrow> Ok (IoElement_M_ME_NA v q)
           | (M_ME_TA, Some q) \<Rightarrow> Ok (IoElement_M_ME_TA v q)
           | (M_ME_TD, Some q) \<Rightarrow> Ok (IoElement_M_ME_TD v q)
           | _ \<Rightarrow> Raise (ValueError ''unsupported asdu type''))
      | ScaledData v q \<Rightarrow>
          (case ty of M_ME_NB \<Rightarrow> Ok (IoElement_M_ME_NB v q) | M_ME_TB \<Rightarrow> Ok (IoElement_M_ME_TB v q)
           | M_ME_TE \<Rightarrow> Ok (IoElement_M_ME_TE v q) | _ \<Rightarrow> Raise (ValueError ''unsupported asdu type''))
      | FloatingData v q \<Rightarrow>
          (case ty of M_ME_NC \<Rightarrow> Ok (IoElement_M_ME_NC v q) | M_ME_TC \<Rightarrow> Ok (IoElement_M_ME_TC v q)
           | M_ME_TF \<Rightarrow> Ok (IoElement_M_ME_TF v q) | _ \<Rightarrow> Raise (ValueError ''unsupported asdu type''))
      | BinaryCounterData v q \<Rightarrow>
          (case ty of M_IT_NA \<Rightarrow> Ok (IoElement_M_IT_NA v q) | M_IT_TA \<Rightarrow> Ok (IoElement_M_IT_TA v q)
           | M_IT_TB \<Rightarrow> Ok (IoElement_M_IT_TB v q) | _ \<Rightarrow> Raise (ValueError ''unsupported asdu type''))
      | ProtectionData v q t \<Rightarrow>
          (case ty of M_EP_TA \<Rightarrow> Ok (IoElement_M_EP_TA v q t) | M_EP_TD \<Rightarrow> Ok (IoElement_M_EP_TD v q t)
           | _ \<Rightarrow> Raise (ValueError ''unsupported asdu type''))
      | ProtectionStartData v q t \<Rightarrow>
          (case ty of M_EP_TB \<Rightarrow> Ok (IoElement_M_EP_TB v q t) | M_EP_TE \<Rightarrow> Ok (IoElement_M_EP_TE v q t)
           | _ \<Rightarrow> Raise (ValueError ''unsupported asdu type''))
      | ProtectionCommandData v q t \<Rightarrow>
          (case ty of M_EP_TC \<Rightarrow> Ok (IoElement_M_EP_TC v q t) | M_EP_TF \<Rightarrow> Ok (IoElement_M_EP_TF v q t)
           | _ \<Rightarrow> Raise (ValueError ''unsupported asdu type''))
      | StatusData v q \<Rightarrow>
          (case ty of M_PS_NA \<Rightarrow> Ok (IoElement_M_PS_NA v q) | _ \<Rightarrow> Raise (ValueError ''unsupported asdu type'')))"

definition get_command_io_element :: "Command \<Rightarrow> AsduType \<Rightarrow> IoElement result" where
  "get_command_io_element command ty =
     (case (ty, command) of
        (C_SC_NA, SingleCommand v sel ql) \<Rightarrow> Ok (IoElement_C_SC_NA v sel ql)
      | (C_DC_NA, DoubleCommand v sel ql) \<Rightarrow> Ok (IoElement_C_DC_NA v sel ql)
      | (C_RC_NA, RegulatingCommand v sel ql) \<Rightarrow> Ok (IoElement_C_RC_NA v sel ql)
      | (C_SE_NA, NormalizedCommand v sel) \<Rightarrow> Ok (IoElement_C_SE_NA v sel)
      | (C_SE_NB, ScaledCommand v sel) \<Rightarrow> Ok (IoElement_C_SE_NB v sel)
      | (C_SE_NC, FloatingCommand v sel) \<Rightarrow> Ok (IoElement_C_SE_NC v sel)
      | (C_BO_NA, BitstringCommand v) \<Rightarrow> Ok (IoElement_C_BO_NA v)
      | _ \<Rightarrow> Raise (ValueError ''unsupported asdu type''))"

definition get_parameter_io_element :: "Parameter \<Rightarrow> AsduType \<Rightarrow> IoElement result" where
  "get_parameter_io_element parameter ty =
     (case (ty, parameter) of
        (P_ME_NA, NormalizedParameter v ql) \<Rightarrow> Ok (IoElement_P_ME_NA v ql)
      | (P_ME_NB, ScaledParameter v ql) \<Rightarrow> Ok (IoElement_P_ME_NB v ql)
      | (P_ME_NC, FloatingParameter v ql) \<Rightarrow> Ok (IoElement_P_ME_NC v ql)
      | _ \<Rightarrow> Raise (ValueError ''unsupported asdu type''))"

text \<open>The end of \<open>_encode_msg\<close>: the cause, one object with one element, and the data unit.\<close>

definition msg_asdu ::
  "Msg \<Rightarrow> AsduType \<Rightarrow> CauseTypeOrOther \<Rightarrow> bool \<Rightarrow> int \<Rightarrow> IoElement \<Rightarrow> Time option \<Rightarrow> (AsduType, Cause, IoElement) ASDU" where
  "msg_asdu msg ty cause_ty neg address e time =
     \<lparr>asdu_type = ty,
      asdu_cause = \<lparr>cause_type = cause_ty, is_negative_confirm = neg, is_test = msg_is_test msg,
        originator_address = msg_originator_address msg\<rparr>,
      asdu_address = msg_asdu_address msg,
      asdu_ios = [\<lparr>io_address = address, io_elements = [e], io_time = time\<rparr>]\<rparr>"

definition encode_msg :: "Msg \<Rightarrow> (AsduType, Cause, IoElement) ASDU result" where
  "encode_msg msg =
     (case msg of
        DataMsg _ _ _ address data time cause \<Rightarrow>
          bindE (get_data_asdu_type data time) (\<lambda>ty. bindE (get_data_io_element data ty) (\<lambda>e.
            Ok (msg_asdu msg ty (encode_msg_cause (res_cause_value DataResCause_value cause)) False address e time)))
      | CommandMsg _ _ _ address command neg cause \<Rightarrow>
          bindE (get_command_io_element command (get_command_asdu_type command)) (\<lambda>e.
            Ok (msg_asdu msg (get_command_asdu_type command)
                 (encode_msg_cause (msg_cause_value CommandReqCause_value CommandResCause_value cause)) neg address e None))
      | InitializationMsg _ _ _ param_change cause \<Rightarrow>
          Ok (msg_asdu msg M_EI_NA (KnownCause CauseType_INITIALIZED) False 0
               (IoElement_M_EI_NA param_change (res_cause_value InitializationResCause_value cause)) None)
      | InterrogationMsg _ _ _ request neg cause \<Rightarrow>
          Ok (msg_asdu msg C_IC_NA
               (encode_msg_cause (msg_cause_value CommandReqCause_value CommandResCause_value cause)) neg 0
               (IoElement_C_IC_NA request) None)
      | CounterInterrogationMsg _ _ _ request freeze neg cause \<Rightarrow>
          Ok (msg_asdu msg C_CI_NA
               (encode_msg_cause (msg_cause_value CommandReqCause_value CommandResCause_value cause)) neg 0
               (IoElement_C_CI_NA request freeze) None)
      | ReadMsg _ _ _ address cause \<Rightarrow>
          Ok (msg_asdu msg C_RD_NA
               (encode_msg_cause (msg_cause_value ReadReqCause_value ReadResCause_value cause)) False address
               IoElement_C_RD_NA None)
      | ClockSyncMsg _ _ _ time neg cause \<Rightarrow>
          Ok (msg_asdu msg C_CS_NA
               (encode_msg_cause (msg_cause_value ClockSyncReqCause_value ClockSyncResCause_value cause)) neg 0
               (IoElement_C_CS_NA time) None)
      | TestMsg _ _ _ cause \<Rightarrow>
          Ok (msg_asdu msg C_TS_NA
               (encode_msg_cause (msg_cause_value ActivationReqCause_value ActivationResCause_value cause)) False 0
               IoElement_C_TS_NA None)
      | ResetMsg _ _ _ qualifier cause \<Rightarrow>
          Ok (msg_asdu msg C_RP_NA
               (encode_msg_cause (msg_cause_value ActivationReqCause_value ActivationResCause_value cause)) False 0
               (IoElement_C_RP_NA qualifier) None)
      | DelayMsg _ _ _ time cause \<Rightarrow>
          Ok (msg_asdu msg C_CD_NA
               (encode_msg_cause (msg_cause_value DelayReqCause_value DelayResCause_value cause)) False 0
               (IoElement_C_CD_NA time) None)
      | ParameterMsg _ _ _ address parameter cause \<Rightarrow>
          bindE (get_parameter_io_element parameter (get_parameter_asdu_type parameter)) (\<lambda>e.
            Ok (msg_asdu msg (get_parameter_asdu_type parameter)
                 (encode_msg_cause (msg_cause_value ParameterReqCause_value ParameterResCause_value cause)) False address e None))
      | ParameterActivationMsg _ _ _ address qualifier cause \<Rightarrow>
          Ok (msg_asdu msg P_AC_NA
               (encode_msg_cause (msg_cause_value ParameterActivationReqCause_value ParameterActivationResCause_value cause))
               False address (IoElement_P_AC_NA qualifier) None))"

definition get_msg_asdu_type :: "Msg \<Rightarrow> AsduType result" where
  "get_msg_asdu_type msg =
     (case msg of
        DataMsg _ _ _ _ data time _ \<Rightarrow> get_data_asdu_type data time
      | CommandMsg _ _ _ _ command _ _ \<Rightarrow> Ok (get_command_asdu_type command)
      | InitializationMsg _ _ _ _ _ \<Rightarrow> Ok M_EI_NA
      | InterrogationMsg _ _ _ _ _ _ \<Rightarrow> Ok C_IC_NA
      | CounterInterrogationMsg _ _ _ _ _ _ _ \<Rightarrow> Ok C_CI_NA
      | ReadMsg _ _ _ _ _ \<Rightarrow> Ok C_RD_NA
      | ClockSyncMsg _ _ _ _ _ _ \<Rightarrow> Ok C_CS_NA
      | TestMsg _ _ _ _ \<Rightarrow> Ok C_TS_NA
      | ResetMsg _ _ _ _ _ \<Rightarrow> Ok C_RP_NA
      | DelayMsg _ _ _ _ _ \<Rightarrow> Ok C_CD_NA
      | ParameterMsg _ _ _ _ parameter _ \<Rightarrow> Ok (get_parameter_asdu_type parameter)
      | ParameterActivationMsg _ _ _ _ _ _ \<Rightarrow> Ok P_AC_NA)"

section \<open>Decoding\<close>

definition decode_data_io_element :: "IoElement \<Rightarrow> AsduType \<Rightarrow> Data result" where
  "decode_data_io_element e ty =
     (if ty \<in> {M_SP_NA, M_SP_TA, M_SP_TB} then bindE (single_attributes e) (\<lambda>(v, q). Ok (SingleData v q))
      else if ty \<in> {M_DP_NA, M_DP_TA, M_DP_TB} then bindE (double_attributes e) (\<lambda>(v, q). Ok (DoubleData v q))
      else if ty \<in> {M_ST_NA, M_ST_TA, M_ST_TB}
      then bindE (step_position_attributes e) (\<lambda>(v, q). Ok (StepPositionData v q))
      else if ty \<in> {M_BO_NA, M_BO_TA, M_BO_TB} then bindE (bitstring_attributes e) (\<lambda>(v, q). Ok (BitstringData v q))
      else if ty \<in> {M_ME_NA, M_ME_TA, M_ME_ND, M_ME_TD}
      then (if ty = M_ME_ND
            then (case e of IoElement_M_ME_ND v \<Rightarrow> Ok (NormalizedData v None) | _ \<Rightarrow> Raise (AttributeError ''value''))
            else bindE (normalized_attributes e) (\<lambda>(v, q). Ok (NormalizedData v (Some q))))
      else if ty \<in> {M_ME_NB, M_ME_TB, M_ME_TE} then bindE (scaled_attributes e) (\<lambda>(v, q). Ok (ScaledData v q))
      else if ty \<in> {M_ME_NC, M_ME_TC, M_ME_TF} then bindE (floating_attributes e) (\<lambda>(v, q). Ok (FloatingData v q))
      else if ty \<in> {M_IT_NA, M_IT_TA, M_IT_TB}
      then bindE (binary_counter_attributes e) (\<lambda>(v, q). Ok (BinaryCounterData v q))
      else if ty \<in> {M_EP_TA, M_EP_TD} then bindE (protection_attributes e) (\<lambda>(v, q, t). Ok (ProtectionData v q t))
      else if ty \<in> {M_EP_TB, M_EP_TE}
      then bindE (protection_start_attributes e) (\<lambda>(v, q, t). Ok (ProtectionStartData v q t))
      else if ty \<in> {M_EP_TC, M_EP_TF}
      then bindE (protection_command_attributes e) (\<lambda>(v, q, t). Ok (ProtectionCommandData v q t))
      else if ty = M_PS_NA
      then (case e of IoElement_M_PS_NA v q \<Rightarrow> Ok (StatusData v q) | _ \<Rightarrow> Raise (AttributeError ''value''))
      else Raise (ValueError ''unsupported asdu type''))"

definition decode_command_io_element :: "IoElement \<Rightarrow> AsduType \<Rightarrow> Command result" where
  "decode_command_io_element e ty =
     (case (ty, e) of
        (C_SC_NA, IoElement_C_SC_NA v sel ql) \<Rightarrow> Ok (SingleCommand v sel ql)
      | (C_DC_NA, IoElement_C_DC_NA v sel ql) \<Rightarrow> Ok (DoubleCommand v sel ql)
      | (C_RC_NA, IoElement_C_RC_NA v sel ql) \<Rightarrow> Ok (RegulatingCommand v sel ql)
      | (C_SE_NA, IoElement_C_SE_NA v sel) \<Rightarrow> Ok (NormalizedCommand v sel)
      | (C_SE_NB, IoElement_C_SE_NB v sel) \<Rightarrow> Ok (ScaledCommand v sel)
      | (C_SE_NC, IoElement_C_SE_NC v sel) \<Rightarrow> Ok (FloatingCommand v sel)
      | (C_BO_NA, IoElement_C_BO_NA v) \<Rightarrow> Ok (BitstringCommand v)
      | _ \<Rightarrow> Raise (ValueError ''unsupported asdu type''))"

definition decode_parameter_io_element :: "IoElement \<Rightarrow> AsduType \<Rightarrow> Parameter result" where
  "decode_parameter_io_element e ty =
     (case (ty, e) of
        (P_ME_NA, IoElement_P_ME_NA v ql) \<Rightarrow> Ok (NormalizedParameter v ql)
      | (P_ME_NB, IoElement_P_ME_NB v ql) \<Rightarrow> Ok (ScaledParameter v ql)
      | (P_ME_NC, IoElement_P_ME_NC v ql) \<Rightarrow> Ok (FloatingParameter v ql)
      | _ \<Rightarrow> Raise (ValueError ''unsupported asdu type''))"

definition data_asdu_types :: "AsduType set" where
  "data_asdu_types =
     {M_SP_NA, M_SP_TA, M_DP_NA, M_DP_TA, M_ST_NA, M_ST_TA, M_BO_NA, M_BO_TA, M_ME_NA, M_ME_TA,
      M_ME_NB, M_ME_TB, M_ME_NC, M_ME_TC, M_IT_NA, M_IT_TA, M_EP_TA, M_EP_TB, M_EP_TC, M_PS_NA,
      M_ME_ND, M_SP_TB, M_DP_TB, M_ST_TB, M_BO_TB, M_ME_TD, M_ME_TE, M_ME_TF, M_IT_TB, M_EP_TD,
      M_EP_TE, M_EP_TF}"

text \<open>\<open>_decode_io_element\<close>: the message for the element with index \<open>i\<close> of an object.\<close>

definition decode_element_msg ::
  "(AsduType, Cause, IoElement) ASDU \<Rightarrow> IoElement IO \<Rightarrow> IoElement \<Rightarrow> nat \<Rightarrow> Msg result" where
  "decode_element_msg asdu io e i =
     (let address = io_address io + int i;
          ty = asdu_type asdu;
          test = is_test (asdu_cause asdu);
          originator = originator_address (asdu_cause asdu);
          a = asdu_address asdu;
          neg = is_negative_confirm (asdu_cause asdu);
          n = encode_cause_type (cause_type (asdu_cause asdu))
      in
        if ty \<in> data_asdu_types
        then bindE (decode_data_io_element e ty) (\<lambda>data.
               Ok (DataMsg test originator a address data (io_time io) (decode_res_cause DataResCause_of n)))
        else if ty \<in> {C_SC_NA, C_DC_NA, C_RC_NA, C_SE_NA, C_SE_NB, C_SE_NC, C_BO_NA}
        then bindE (decode_command_io_element e ty) (\<lambda>command.
               Ok (CommandMsg test originator a address command neg
                    (decode_msg_cause CommandReqCause_of CommandResCause_of n)))
        else (case (ty, e) of
          (M_EI_NA, IoElement_M_EI_NA param_change cause) \<Rightarrow>
            Ok (InitializationMsg test originator a param_change (decode_res_cause InitializationResCause_of cause))
        | (C_IC_NA, IoElement_C_IC_NA qualifier) \<Rightarrow>
            Ok (InterrogationMsg test originator a qualifier neg (decode_msg_cause CommandReqCause_of CommandResCause_of n))
        | (C_CI_NA, IoElement_C_CI_NA request freeze) \<Rightarrow>
            Ok (CounterInterrogationMsg test originator a request freeze neg
                 (decode_msg_cause CommandReqCause_of CommandResCause_of n))
        | (C_RD_NA, _) \<Rightarrow>
            Ok (ReadMsg test originator a address (decode_msg_cause ReadReqCause_of ReadResCause_of n))
        | (C_CS_NA, IoElement_C_CS_NA time) \<Rightarrow>
            Ok (ClockSyncMsg test originator a time neg (decode_msg_cause ClockSyncReqCause_of ClockSyncResCause_of n))
        | (C_TS_NA, _) \<Rightarrow>
            Ok (TestMsg test originator a (decode_msg_cause ActivationReqCause_of ActivationResCause_of n))
        | (C_RP_NA, IoElement_C_RP_NA qualifier) \<Rightarrow>
            Ok (ResetMsg test originator a qualifier (decode_msg_cause ActivationReqCause_of ActivationResCause_of n))
        | (C_CD_NA, IoElement_C_CD_NA time) \<Rightarrow>
            Ok (DelayMsg test originator a time (decode_msg_cause DelayReqCause_of DelayResCause_of n))
        | (P_AC_NA, IoElement_P_AC_NA qualifier) \<Rightarrow>
            Ok (ParameterActivationMsg test originator a address qualifier
                 (decode_msg_cause ParameterActivationReqCause_of ParameterActivationResCause_of n))
        | _ \<Rightarrow>
            if ty \<in> {P_ME_NA, P_ME_NB, P_ME_NC}
            then bindE (decode_parameter_io_element e ty) (\<lambda>parameter.
                   Ok (ParameterMsg test originator a address parameter
                        (decode_msg_cause ParameterReqCause_of ParameterResCause_of n)))
            else Raise (ValueError ''unsupported asdu type'')))"

definition decode_asdu_msgs :: "(AsduType, Cause, IoElement) ASDU \<Rightarrow> Msg list result" where
  "decode_asdu_msgs asdu =
     concatE (\<lambda>io. mapE (\<lambda>(i, e). decode_element_msg asdu io e i) (enumerate 0 (io_elements io))) (asdu_ios asdu)"

section \<open>The class Encoder\<close>

definition encode_msgs_101 :: "Encoder101 \<Rightarrow> Msg list \<Rightarrow> bytes list result" where
  "encode_msgs_101 enc msgs = mapE (\<lambda>msg. bindE (encode_msg msg) (encode_asdu_101 enc)) msgs"

definition decode_msgs_101 :: "Encoder101 \<Rightarrow> bytes \<Rightarrow> Msg list result" where
  "decode_msgs_101 enc data = bindE (decode_asdu_101 enc data) (\<lambda>(asdu, _). decode_asdu_msgs asdu)"

section \<open>Well-formed messages\<close>

text \<open>
  The documented ranges of the fields. A time tag has three or seven bytes where the data can
  carry one; a bit string with three bytes is left out, because the element encoder and decoder
  do not agree on its class.
\<close>

definition data_time_ok :: "Data \<Rightarrow> Time option \<Rightarrow> bool" where
  "data_time_ok data time \<longleftrightarrow>
     (case time of
        None \<Rightarrow>
          (case data of ProtectionData _ _ _ \<Rightarrow> False | ProtectionStartData _ _ _ \<Rightarrow> False
           | ProtectionCommandData _ _ _ \<Rightarrow> False | _ \<Rightarrow> True)
      | Some t \<Rightarrow>
          time_ok t \<and>
          (case data of StatusData _ _ \<Rightarrow> False
           | NormalizedData _ q \<Rightarrow> q \<noteq> None \<and> time_size t \<in> {TimeSize_THREE, TimeSize_SEVEN}
           | BitstringData _ _ \<Rightarrow> time_size t = TimeSize_SEVEN
           | _ \<Rightarrow> time_size t \<in> {TimeSize_THREE, TimeSize_SEVEN}))"

definition header_ok :: "CauseSize \<Rightarrow> AsduAddressSize \<Rightarrow> int \<Rightarrow> int \<Rightarrow> bool" where
  "header_ok cs as originator address \<longleftrightarrow>
     (case cs of CauseSize_ONE \<Rightarrow> originator = 0 | CauseSize_TWO \<Rightarrow> is_byte originator) \<and>
     0 \<le> address \<and> address < 256 ^ AsduAddressSize_value as"

definition address_ok :: "IoAddressSize \<Rightarrow> int \<Rightarrow> bool" where
  "address_ok ios address \<longleftrightarrow> 0 \<le> address \<and> address < 256 ^ IoAddressSize_value ios"

definition msg_ok_101 :: "CauseSize \<Rightarrow> AsduAddressSize \<Rightarrow> IoAddressSize \<Rightarrow> Msg \<Rightarrow> bool" where
  "msg_ok_101 cs as ios msg \<longleftrightarrow>
     header_ok cs as (msg_originator_address msg) (msg_asdu_address msg) \<and>
     (case msg of
        DataMsg _ _ _ address data time cause \<Rightarrow>
          address_ok ios address \<and> data_ok data \<and> data_time_ok data time \<and> res_cause_ok 64 DataResCause_value cause
      | CommandMsg _ _ _ address command _ cause \<Rightarrow>
          address_ok ios address \<and> command_ok command \<and>
          msg_cause_ok CommandReqCause_value CommandResCause_value cause
      | InitializationMsg _ _ _ _ cause \<Rightarrow> res_cause_ok 128 InitializationResCause_value cause
      | InterrogationMsg _ _ _ request _ cause \<Rightarrow>
          0 \<le> request \<and> request < 256 \<and> msg_cause_ok CommandReqCause_value CommandResCause_value cause
      | CounterInterrogationMsg _ _ _ request _ _ cause \<Rightarrow>
          0 \<le> request \<and> request < 64 \<and> msg_cause_ok CommandReqCause_value CommandResCause_value cause
      | ReadMsg _ _ _ address cause \<Rightarrow>
          address_ok ios address \<and> msg_cause_ok ReadReqCause_value ReadResCause_value cause
      | ClockSyncMsg _ _ _ time _ cause \<Rightarrow>
          time_ok time \<and> time_size time = TimeSize_SEVEN \<and>
          msg_cause_ok ClockSyncReqCause_value ClockSyncResCause_value cause
      | TestMsg _ _ _ cause \<Rightarrow> msg_cause_ok ActivationReqCause_value ActivationResCause_value cause
      | ResetMsg _ _ _ qualifier cause \<Rightarrow>
          0 \<le> qualifier \<and> qualifier < 256 \<and> msg_cause_ok ActivationReqCause_value ActivationResCause_value cause
      | DelayMsg _ _ _ time cause \<Rightarrow>
          0 \<le> time \<and> time < 65536 \<and> msg_cause_ok DelayReqCause_value DelayResCause_value cause
      | ParameterMsg _ _ _ address parameter cause \<Rightarrow>
          address_ok ios address \<and> parameter_ok parameter \<and>
          msg_cause_ok ParameterReqCause_value ParameterResCause_value cause
      | ParameterActivationMsg _ _ _ address qualifier cause \<Rightarrow>
          address_ok ios address \<and> 0 \<le> qualifier \<and> qualifier < 256 \<and>
          msg_cause_ok ParameterActivationReqCause_value ParameterActivationResCause_value cause)"

section \<open>Round trip\<close>

text \<open>
  An element \<open>e\<close> with a time tag suits the type \<open>ty\<close>: the encoder of data units accepts it.
\<close>

definition suits :: "AsduType \<Rightarrow> IoElement \<Rightarrow> Time option \<Rightarrow> bool" where
  "suits ty e time \<longleftrightarrow>
     io_element_ok (AsduType_value ty) e \<and>
     (case asdu_type_time_sizes_101 (AsduType_value ty) of
        None \<Rightarrow> time = None
      | Some sz \<Rightarrow> (case time of None \<Rightarrow> False | Some t \<Rightarrow> time_ok t \<and> time_size t = sz))"

lemmas suits_defs =
  suits_def io_element_ok_def io_element_fields_ok_1_def io_element_fields_ok_2_def io_element_fields_ok_3_def
  element_asdu_type_def asdu_type_time_sizes_101_def

lemma timed_type_cases:
  assumes "time = None \<or> (\<exists>t. time = Some t \<and> time_size t \<in> {TimeSize_THREE, TimeSize_SEVEN})"
  obtains "time = None" "\<And>a b c. timed_type time (Some a) b c = Ok a"
  | t where "time = Some t" "time_size t = TimeSize_THREE" "\<And>a b c. timed_type time a b (Some c) = Ok c"
  | t where "time = Some t" "time_size t = TimeSize_SEVEN" "\<And>a b c. timed_type time a (Some b) c = Ok b"
  using assms by (auto simp: timed_type_def)

lemma data_encoding:
  assumes "data_ok data" "data_time_ok data time"
  shows "\<exists>ty e. get_data_asdu_type data time = Ok ty \<and> get_data_io_element data ty = Ok e \<and>
    ty \<in> data_asdu_types \<and> decode_data_io_element e ty = Ok data \<and> suits ty e time"
proof -
  have "time = None \<or> (\<exists>t. time = Some t \<and> time_size t \<in> {TimeSize_THREE, TimeSize_SEVEN})"
    using assms(2) by (cases data) (auto simp: data_time_ok_def split: option.splits)
  then show ?thesis
  proof (cases rule: timed_type_cases)
    case 1
    with assms show ?thesis
      by (cases data)
        (auto simp: data_time_ok_def get_data_asdu_type_def get_data_io_element_def decode_data_io_element_def
          attributes_defs data_asdu_types_def suits_defs)
  next
    case (2 t)
    with assms show ?thesis
      by (cases data)
        (auto simp: data_time_ok_def get_data_asdu_type_def get_data_io_element_def decode_data_io_element_def
          attributes_defs data_asdu_types_def suits_defs)
  next
    case (3 t)
    with assms show ?thesis
      by (cases data)
        (auto simp: data_time_ok_def get_data_asdu_type_def get_data_io_element_def decode_data_io_element_def
          attributes_defs data_asdu_types_def suits_defs)
  qed
qed

lemma command_encoding:
  assumes "command_ok command"
  shows "\<exists>e. get_command_io_element command (get_command_asdu_type command) = Ok e \<and>
    get_command_asdu_type command \<in> {C_SC_NA, C_DC_NA, C_RC_NA, C_SE_NA, C_SE_NB, C_SE_NC, C_BO_NA} \<and>
    decode_command_io_element e (get_command_asdu_type command) = Ok command \<and>
    suits (get_command_asdu_type command) e None"
  using assms
  by (cases command)
    (simp_all add: get_command_io_element_def get_command_asdu_type_def decode_command_io_element_def suits_defs)

lemma parameter_encoding:
  assumes "parameter_ok parameter"
  shows "\<exists>e. get_parameter_io_element parameter (get_parameter_asdu_type parameter) = Ok e \<and>
    get_parameter_asdu_type parameter \<in> {P_ME_NA, P_ME_NB, P_ME_NC} \<and>
    decode_parameter_io_element e (get_parameter_asdu_type parameter) = Ok parameter \<and>
    suits (get_parameter_asdu_type parameter) e None"
  using assms
  by (cases parameter)
    (simp_all add: get_parameter_io_element_def get_parameter_asdu_type_def decode_parameter_io_element_def suits_defs)

lemma msg_asdu_ok:
  assumes "header_ok cs as (msg_originator_address msg) (msg_asdu_address msg)" "suits ty e time" "cause_type_ok cause" "address_ok ios address"
  shows "asdu_ok_101 (init_encoder_101 cs as ios mx) (msg_asdu msg ty cause neg address e time)"
proof -
  let ?cause = "\<lparr>cause_type = cause, is_negative_confirm = neg, is_test = msg_is_test msg,
    originator_address = msg_originator_address msg\<rparr>"
  have c: "cause_ok cs ?cause" using assms(1,3) by (cases cs) (simp_all add: cause_ok_def header_ok_def)
  note encode_decode_cause [OF c]
  moreover have "is_byte (AsduType_value ty)" by (cases ty) (simp_all add: is_byte_num)
  ultimately show ?thesis
    using assms c
    by (simp add: asdu_ok_101_def asdu_ok_def msg_asdu_def init_encoder_101_def lower_asdu_101_def
        asdu_is_sequence_def io_ok_def header_ok_def address_ok_def suits_def split: option.splits)
qed

lemma decode_one_element:
  "decode_asdu_msgs (msg_asdu msg ty cause neg address e time) =
    bindE (decode_element_msg (msg_asdu msg ty cause neg address e time)
      \<lparr>io_address = address, io_elements = [e], io_time = time\<rparr> e 0) (\<lambda>m. Ok [m])"
proof -
  have "appendE (bindE r (\<lambda>m. Ok [m])) (Ok []) = bindE r (\<lambda>m. Ok [m])" for r :: "Msg result"
    by (cases r) simp_all
  then show ?thesis by (simp add: decode_asdu_msgs_def msg_asdu_def)
qed

text \<open>Decoding of the causes of each kind of message.\<close>

lemmas decode_causes =
  CommandCause.decode_value [folded CommandReqCause_of_def CommandResCause_of_def]
  ReadCause.decode_value [folded ReadReqCause_of_def ReadResCause_of_def]
  ClockSyncCause.decode_value [folded ClockSyncReqCause_of_def ClockSyncResCause_of_def]
  ActivationCause.decode_value [folded ActivationReqCause_of_def ActivationResCause_of_def]
  DelayCause.decode_value [folded DelayReqCause_of_def DelayResCause_of_def]
  ParameterCause.decode_value [folded ParameterReqCause_of_def ParameterResCause_of_def]
  ParameterActivationCause.decode_value [folded ParameterActivationReqCause_of_def ParameterActivationResCause_of_def]
  DataResCause.decode_res_value [of 64, folded DataResCause_of_def]
  InitializationResCause.decode_res_value [of 128, folded InitializationResCause_of_def]

lemma DataResCause_range: "0 \<le> DataResCause_value r" "DataResCause_value r < 64"
  by (cases r; simp)+

lemma data_cause_range:
  "res_cause_ok 64 DataResCause_value c \<Longrightarrow> 0 \<le> res_cause_value DataResCause_value c \<and> res_cause_value DataResCause_value c < 64"
  using DataResCause_range by (cases c) auto

lemma initialization_cause_range:
  assumes "res_cause_ok 128 InitializationResCause_value c"
  shows "0 \<le> res_cause_value InitializationResCause_value c" "res_cause_value InitializationResCause_value c < 128"
proof -
  have "0 \<le> InitializationResCause_value r \<and> InitializationResCause_value r < 128" for r by (cases r) simp_all
  with assms show "0 \<le> res_cause_value InitializationResCause_value c"
    "res_cause_value InitializationResCause_value c < 128" by (cases c; auto)+
qed

lemmas cause_ranges =
  CommandCause.value_range ReadCause.value_range ClockSyncCause.value_range ActivationCause.value_range
  DelayCause.value_range ParameterCause.value_range ParameterActivationCause.value_range

lemma msg_asdu_fields [simp]:
  "asdu_type (msg_asdu msg ty cause neg address e time) = ty"
  "cause_type (asdu_cause (msg_asdu msg ty cause neg address e time)) = cause"
  "is_negative_confirm (asdu_cause (msg_asdu msg ty cause neg address e time)) = neg"
  "is_test (asdu_cause (msg_asdu msg ty cause neg address e time)) = msg_is_test msg"
  "originator_address (asdu_cause (msg_asdu msg ty cause neg address e time)) = msg_originator_address msg"
  "asdu_address (msg_asdu msg ty cause neg address e time) = msg_asdu_address msg"
  by (simp_all add: msg_asdu_def)

lemma address_ok_0 [simp]: "address_ok ios 0"
  by (simp add: address_ok_def)

lemma command_types:
  assumes "ty \<in> {C_SC_NA, C_DC_NA, C_RC_NA, C_SE_NA, C_SE_NB, C_SE_NC, C_BO_NA}"
  shows "ty \<notin> data_asdu_types"
  using assms by (auto simp: data_asdu_types_def)

lemma system_types [simp]:
  "M_EI_NA \<notin> data_asdu_types" "C_IC_NA \<notin> data_asdu_types" "C_CI_NA \<notin> data_asdu_types"
  "C_RD_NA \<notin> data_asdu_types" "C_CS_NA \<notin> data_asdu_types" "C_TS_NA \<notin> data_asdu_types"
  "C_RP_NA \<notin> data_asdu_types" "C_CD_NA \<notin> data_asdu_types" "P_AC_NA \<notin> data_asdu_types"
  by (simp_all add: data_asdu_types_def)

lemma system_elements:
  "0 \<le> n \<Longrightarrow> n < 128 \<Longrightarrow> suits M_EI_NA (IoElement_M_EI_NA pc n) None"
  "0 \<le> n \<Longrightarrow> n < 256 \<Longrightarrow> suits C_IC_NA (IoElement_C_IC_NA n) None"
  "0 \<le> n \<Longrightarrow> n < 64 \<Longrightarrow> suits C_CI_NA (IoElement_C_CI_NA n fr) None"
  "suits C_RD_NA IoElement_C_RD_NA None"
  "time_ok t \<Longrightarrow> time_size t = TimeSize_SEVEN \<Longrightarrow> suits C_CS_NA (IoElement_C_CS_NA t) None"
  "suits C_TS_NA IoElement_C_TS_NA None"
  "0 \<le> n \<Longrightarrow> n < 256 \<Longrightarrow> suits C_RP_NA (IoElement_C_RP_NA n) None"
  "0 \<le> n \<Longrightarrow> n < 65536 \<Longrightarrow> suits C_CD_NA (IoElement_C_CD_NA n) None"
  "0 \<le> n \<Longrightarrow> n < 256 \<Longrightarrow> suits P_AC_NA (IoElement_P_AC_NA n) None"
  by (simp_all add: suits_defs)

lemma encode_decode_msg:
  assumes "msg_ok_101 cs as ios msg"
  shows "\<exists>asdu. encode_msg msg = Ok asdu \<and> asdu_ok_101 (init_encoder_101 cs as ios mx) asdu \<and>
    decode_asdu_msgs asdu = Ok [msg]"
proof -
  from assms have h: "header_ok cs as (msg_originator_address msg) (msg_asdu_address msg)" by (simp add: msg_ok_101_def)
  note ok = msg_asdu_ok [OF h]
  show ?thesis
  proof (cases msg)
    case (DataMsg t og a address data time cause)
    with assms data_encoding [of data time] obtain ty e where
      "get_data_asdu_type data time = Ok ty" "get_data_io_element data ty = Ok e" "ty \<in> data_asdu_types"
      "decode_data_io_element e ty = Ok data" "suits ty e time"
      by (auto simp: msg_ok_101_def)
    with assms DataMsg show ?thesis
      by (auto simp: encode_msg_def msg_ok_101_def decode_one_element decode_element_msg_def decode_causes
          intro!: ok [unfolded DataMsg] encode_msg_cause_ok dest: data_cause_range)
  next
    case (CommandMsg t og a address command neg cause)
    with assms command_encoding [of command] obtain e where
      c: "get_command_io_element command (get_command_asdu_type command) = Ok e"
      "get_command_asdu_type command \<in> {C_SC_NA, C_DC_NA, C_RC_NA, C_SE_NA, C_SE_NB, C_SE_NC, C_BO_NA}"
      "decode_command_io_element e (get_command_asdu_type command) = Ok command"
      "suits (get_command_asdu_type command) e None"
      by (auto simp: msg_ok_101_def)
    with assms CommandMsg command_types [OF c(2)] show ?thesis
      by (auto simp: encode_msg_def msg_ok_101_def decode_one_element decode_element_msg_def decode_causes
          intro!: ok [unfolded CommandMsg] encode_msg_cause_ok cause_ranges)
  next
    case (ParameterMsg t og a address parameter cause)
    with assms parameter_encoding [of parameter] obtain e where
      p: "get_parameter_io_element parameter (get_parameter_asdu_type parameter) = Ok e"
      "get_parameter_asdu_type parameter \<in> {P_ME_NA, P_ME_NB, P_ME_NC}"
      "decode_parameter_io_element e (get_parameter_asdu_type parameter) = Ok parameter"
      "suits (get_parameter_asdu_type parameter) e None"
      by (auto simp: msg_ok_101_def)
    with assms ParameterMsg show ?thesis
      by (auto simp: encode_msg_def msg_ok_101_def decode_one_element decode_element_msg_def decode_causes
          data_asdu_types_def intro!: ok [unfolded ParameterMsg] encode_msg_cause_ok cause_ranges)
  next
    case (InitializationMsg t og a pc cause)
    with assms initialization_cause_range [of cause] show ?thesis
      by (simp add: encode_msg_def msg_ok_101_def decode_one_element decode_element_msg_def decode_causes
          ok [unfolded InitializationMsg] system_elements)
  qed (use assms ok in \<open>simp add: encode_msg_def msg_ok_101_def decode_one_element decode_element_msg_def decode_causes
         encode_msg_cause_ok cause_ranges system_elements\<close>)+
qed

lemma encode_decode_msgs:
  assumes "list_all (msg_ok_101 cs as ios) msgs"
  shows "\<exists>datas. encode_msgs_101 (init_encoder_101 cs as ios mx) msgs = Ok datas \<and>
    list_all2 (\<lambda>msg data. decode_msgs_101 (init_encoder_101 cs as ios mx) data = Ok [msg] \<and> data \<noteq> []) msgs datas"
  using assms
proof (induction msgs)
  case (Cons msg msgs)
  let ?enc = "init_encoder_101 cs as ios mx"
  from Cons.prems encode_decode_msg [of cs as ios msg] obtain asdu where
    a: "encode_msg msg = Ok asdu" "asdu_ok_101 ?enc asdu" "decode_asdu_msgs asdu = Ok [msg]" by auto
  from asdu_101_roundtrip [OF refl a(2)] obtain data where
    d: "encode_asdu_101 ?enc asdu = Ok data" "decode_asdu_101 ?enc data = Ok (asdu, [])"
    by (metis append_Nil2)
  have "decode_asdu_101 ?enc [] = Raise IndexError"
    by (simp add: decode_asdu_101_def decode_asdu_def byte_at_def)
  with d have "data \<noteq> []" by auto
  with a d Cons show ?case by (auto simp: encode_msgs_101_def decode_msgs_101_def)
qed (simp add: encode_msgs_101_def)

section \<open>Properties\<close>

text \<open>
  Messages whose fields are in their documented ranges are encoded, one data unit for each,
  and every data unit is decoded to the one message it was made from.
\<close>

lemma messages_101_roundtrip:
  assumes "list_all (msg_ok_101 cs as ios) msgs"
  shows "\<exists>datas. encode_msgs_101 (init_encoder_101 cs as ios mx) msgs = Ok datas \<and>
    mapE (decode_msgs_101 (init_encoder_101 cs as ios mx)) datas = Ok (map (\<lambda>msg. [msg]) msgs)"
proof -
  from encode_decode_msgs [OF assms] obtain datas where
    d: "encode_msgs_101 (init_encoder_101 cs as ios mx) msgs = Ok datas"
    "list_all2 (\<lambda>msg data. decode_msgs_101 (init_encoder_101 cs as ios mx) data = Ok [msg] \<and> data \<noteq> []) msgs datas"
    by blast
  then have "list_all2 (\<lambda>data r. decode_msgs_101 (init_encoder_101 cs as ios mx) data = Ok r) datas (map (\<lambda>msg. [msg]) msgs)"
    by (simp add: list_all2_conv_all_nth)
  with d(1) show ?thesis by (auto simp: mapE_Ok_iff)
qed

text \<open>
  \<open>get_msg_asdu_type\<close> tells the type of the data unit that a message is encoded to, and raises
  what the encoder raises where a message has none.
\<close>

lemma message_type_101:
  "bindE (encode_msg msg) (\<lambda>asdu. Ok (asdu_type asdu)) = get_msg_asdu_type msg"
proof (cases msg)
  case (DataMsg t og a address data time cause)
  have "\<exists>e. get_data_io_element data ty = Ok e" if ty: "get_data_asdu_type data time = Ok ty" for ty
    using ty
    by (cases data)
      (auto simp: get_data_asdu_type_def get_data_io_element_def timed_type_def split: option.splits if_splits)
  with DataMsg show ?thesis
    by (cases "get_data_asdu_type data time") (auto simp: encode_msg_def get_msg_asdu_type_def)
next
  case (CommandMsg t og a address command neg cause)
  then show ?thesis
    by (cases command) (simp_all add: encode_msg_def get_msg_asdu_type_def get_command_io_element_def get_command_asdu_type_def)
next
  case (ParameterMsg t og a address parameter cause)
  then show ?thesis
    by (cases parameter) (simp_all add: encode_msg_def get_msg_asdu_type_def get_parameter_io_element_def get_parameter_asdu_type_def)
qed (simp_all add: encode_msg_def get_msg_asdu_type_def)

end
