(* ===== verification/Framing.thy ===== *)
theory Framing
  imports Prelude
begin

text \<open>
  Framing of messages on a byte stream. The two link layers of the IEC 60870-5 drivers and the
  three modes of Modbus have an encoder with the same three operations: the size that the
  buffered bytes ask for, decoding of one complete frame and encoding of one. The locale
  \<open>stepwise_framing\<close> states what the reading loops rely on, and shows that a loop that reads as
  many bytes as it is asked for consumes exactly one frame, and a sequence of frames one by one.
  What the size function does matters at the ends of its own steps only, the boundaries;
  \<open>framing\<close> is the case in which it is right for every prefix of a frame.

  \<open>fill\<close> is the loop of \<open>Transport.read\<close> in \<^verbatim>\<open>iec60870/apci/transport.py\<close>, of
  \<open>Connection.receive\<close> in \<^verbatim>\<open>modbus/transport/connection.py\<close> and the reading part of
  \<open>Endpoint.receive\<close> in \<^verbatim>\<open>iec60870/link/endpoint.py\<close>. The stream holds all bytes
  that are still to arrive; where they are not enough the connection is lost and reading
  raises ConnectionError, as \<open>readexactly\<close> does.
\<close>

function fill :: "(bytes \<Rightarrow> nat result) \<Rightarrow> bytes \<Rightarrow> bytes \<Rightarrow> (bytes \<times> bytes) result" where
  "fill next_size data stream =
     bindE (next_size data) (\<lambda>n.
       if n \<le> length data then Ok (data, stream)
       else if length stream < n - length data then Raise ConnectionError
       else fill next_size (data @ take (n - length data) stream) (drop (n - length data) stream))"
  by pat_completeness auto
termination by (relation "measure (\<lambda>(_, _, stream). length stream)") auto

declare fill.simps [simp del]

text \<open>One reading of a complete frame, and of as many frames as a count says.\<close>

definition read_frame :: "(bytes \<Rightarrow> nat result) \<Rightarrow> (bytes \<Rightarrow> 'f result) \<Rightarrow> bytes \<Rightarrow> ('f \<times> bytes) result" where
  "read_frame next_size dec stream =
     bindE (fill next_size [] stream) (\<lambda>(data, stream). bindE (dec data) (\<lambda>f. Ok (f, stream)))"

locale stepwise_framing =
  fixes next_size :: "bytes \<Rightarrow> nat result"
    and dec :: "bytes \<Rightarrow> 'f result"
    and enc :: "'f \<Rightarrow> bytes result"
    and ok :: "'f \<Rightarrow> bool"
    and boundary :: "bytes \<Rightarrow> bool"
  assumes enc_dec: "ok f \<Longrightarrow> \<exists>bs. enc f = Ok bs \<and> dec bs = Ok f"
    and size_frame: "ok f \<Longrightarrow> enc f = Ok bs \<Longrightarrow> next_size bs = Ok (length bs)"
    and boundary_Nil: "boundary []"
    and size_boundary: "ok f \<Longrightarrow> enc f = Ok (p @ q) \<Longrightarrow> q \<noteq> [] \<Longrightarrow> boundary p \<Longrightarrow>
      \<exists>n. next_size p = Ok n \<and> length p < n \<and> n \<le> length p + length q \<and> boundary (take n (p @ q))"
begin

lemma fill_frame:
  assumes "ok f" "enc f = Ok (data @ todo)" "boundary data"
  shows "fill next_size data (todo @ rest) = Ok (data @ todo, rest)"
  using assms(2,3)
proof (induction "length todo" arbitrary: data todo rule: less_induct)
  case less
  show ?case
  proof (cases "todo = []")
    case True
    with less.prems(1) size_frame [OF assms(1)] show ?thesis by (simp add: fill.simps)
  next
    case False
    from size_boundary [OF assms(1) less.prems(1) False less.prems(2)] obtain n where
      n: "next_size data = Ok n" "length data < n" "n \<le> length data + length todo" "boundary (take n (data @ todo))"
      by blast
    define k where "k = n - length data"
    have k: "0 < k" "k \<le> length todo" "boundary (data @ take k todo)" using n by (simp_all add: k_def)
    have "enc f = Ok ((data @ take k todo) @ drop k todo)" using less.prems by simp
    with less.hyps [of "drop k todo" "data @ take k todo"] k
    have "fill next_size (data @ take k todo) (drop k todo @ rest) = Ok (data @ todo, rest)" by simp
    with n k show ?thesis
      by (subst fill.simps) (simp add: k_def [symmetric])
  qed
qed

lemma read_one:
  assumes "ok f" "enc f = Ok bs"
  shows "read_frame next_size dec (bs @ rest) = Ok (f, rest)"
proof -
  from enc_dec [OF assms(1)] assms(2) have "dec bs = Ok f" by simp
  moreover have "fill next_size [] (bs @ rest) = Ok (bs, rest)"
    using fill_frame [OF assms(1), of "[]" bs] assms(2) boundary_Nil by simp
  ultimately show ?thesis by (simp add: read_frame_def)
qed

lemma read_all:
  assumes "\<And>f. f \<in> set fs \<Longrightarrow> ok f"
  shows "\<exists>bss. mapE enc fs = Ok bss \<and>
    (\<forall>rest. repeat_decode (read_frame next_size dec) (length fs) (concat bss @ rest) = Ok (fs, rest))"
  using assms
proof (induction fs)
  case Nil
  then show ?case by simp
next
  case (Cons f fs)
  then obtain bs bss where "enc f = Ok bs" "mapE enc fs = Ok bss"
    "\<forall>rest. repeat_decode (read_frame next_size dec) (length fs) (concat bss @ rest) = Ok (fs, rest)"
    using enc_dec [of f] by auto
  with read_one [of f bs] Cons.prems show ?case by simp
qed

end

locale framing =
  fixes next_size :: "bytes \<Rightarrow> nat result"
    and dec :: "bytes \<Rightarrow> 'f result"
    and enc :: "'f \<Rightarrow> bytes result"
    and ok :: "'f \<Rightarrow> bool"
  assumes frame_decoded: "ok f \<Longrightarrow> \<exists>bs. enc f = Ok bs \<and> dec bs = Ok f"
    and frame_size: "ok f \<Longrightarrow> enc f = Ok bs \<Longrightarrow> next_size bs = Ok (length bs)"
    and size_prefix: "ok f \<Longrightarrow> enc f = Ok (p @ q) \<Longrightarrow> q \<noteq> [] \<Longrightarrow>
      \<exists>n. next_size p = Ok n \<and> length p < n \<and> n \<le> length p + length q"

sublocale framing \<subseteq> stepwise_framing next_size dec enc ok "\<lambda>_. True"
  using frame_decoded frame_size size_prefix by unfold_locales auto

text \<open>Whatever the encoder does, the loop consumes a prefix of the stream.\<close>

lemma fill_split:
  "fill next_size data stream = Ok (data', stream') \<Longrightarrow> data @ stream = data' @ stream'"
proof (induction next_size data stream rule: fill.induct)
  case (1 next_size data stream)
  from "1.prems" obtain n where n: "next_size data = Ok n" by (subst (asm) fill.simps) auto
  show ?case
  proof (cases "n \<le> length data")
    case True
    with "1.prems" n show ?thesis by (subst (asm) fill.simps) simp
  next
    case False
    have "\<not> length stream < n - length data"
      using "1.prems" n False by (subst (asm) fill.simps) (auto split: if_splits)
    with "1.IH" [OF n False this] "1.prems" n False show ?thesis
      by (subst (asm) fill.simps) simp
  qed
qed

lemma fill_enough:
  assumes "fill next_size data stream = Ok (data', stream')"
  shows "\<exists>n. next_size data' = Ok n \<and> n \<le> length data'"
  using assms
proof (induction next_size data stream rule: fill.induct)
  case (1 next_size data stream)
  from "1.prems" obtain n where n: "next_size data = Ok n" by (subst (asm) fill.simps) auto
  show ?case
  proof (cases "n \<le> length data")
    case True
    with "1.prems" n show ?thesis by (subst (asm) fill.simps) auto
  next
    case False
    have "\<not> length stream < n - length data"
      using "1.prems" n False by (subst (asm) fill.simps) (auto split: if_splits)
    with "1.IH" [OF n False this] "1.prems" n False show ?thesis
      by (subst (asm) fill.simps) simp
  qed
qed

end
