(* ===== verification/Link_Encoder.thy ===== *)
theory Link_Encoder
  imports Framing
begin

text \<open>
  Frames of the IEC 60870-5-101 data link: \<^verbatim>\<open>iec60870/link/common.py\<close>,
  \<^verbatim>\<open>iec60870/link/encoder.py\<close> and the receiving loop of \<^verbatim>\<open>iec60870/link/endpoint.py\<close>, which
  throws away bytes until it finds a frame that decodes.
\<close>

unbundle bit_operations_syntax

section \<open>Data\<close>

datatype AddressSize = AddressSize_ZERO | AddressSize_ONE | AddressSize_TWO

fun AddressSize_value :: "AddressSize \<Rightarrow> nat" where
  "AddressSize_value AddressSize_ZERO = 0"
| "AddressSize_value AddressSize_ONE = 1"
| "AddressSize_value AddressSize_TWO = 2"

datatype Direction = B_TO_A | A_TO_B

fun Direction_value :: "Direction \<Rightarrow> int" where
  "Direction_value B_TO_A = 0"
| "Direction_value A_TO_B = 1"

definition Direction_members :: "Direction list" where
  "Direction_members =
     [B_TO_A, A_TO_B]"

definition Direction_of :: "int \<Rightarrow> Direction result" where
  "Direction_of = enum_lookup Direction_value Direction_members"

interpretation Direction: enumeration Direction_value Direction_members
proof unfold_locales
  show "x \<in> set Direction_members" for x by (cases x) (simp_all add: Direction_members_def)
  show "distinct (map Direction_value Direction_members)" by (simp add: Direction_members_def)
qed

datatype ReqFunction =
    RESET_LINK | RESET_PROCESS | TEST | DATA | DATA_NO_RES | REQ_ACCESS_DEMAND | REQ_STATUS
  | REQ_DATA_1 | REQ_DATA_2

fun ReqFunction_value :: "ReqFunction \<Rightarrow> int" where
  "ReqFunction_value RESET_LINK = 0"
| "ReqFunction_value RESET_PROCESS = 1"
| "ReqFunction_value TEST = 2"
| "ReqFunction_value DATA = 3"
| "ReqFunction_value DATA_NO_RES = 4"
| "ReqFunction_value REQ_ACCESS_DEMAND = 8"
| "ReqFunction_value REQ_STATUS = 9"
| "ReqFunction_value REQ_DATA_1 = 10"
| "ReqFunction_value REQ_DATA_2 = 11"

definition ReqFunction_members :: "ReqFunction list" where
  "ReqFunction_members =
     [RESET_LINK, RESET_PROCESS, TEST, DATA, DATA_NO_RES, REQ_ACCESS_DEMAND, REQ_STATUS,
      REQ_DATA_1, REQ_DATA_2]"

definition ReqFunction_of :: "int \<Rightarrow> ReqFunction result" where
  "ReqFunction_of = enum_lookup ReqFunction_value ReqFunction_members"

interpretation ReqFunction: enumeration ReqFunction_value ReqFunction_members
proof unfold_locales
  show "x \<in> set ReqFunction_members" for x by (cases x) (simp_all add: ReqFunction_members_def)
  show "distinct (map ReqFunction_value ReqFunction_members)" by (simp add: ReqFunction_members_def)
qed

datatype ResFunction = ACK | NACK | RES_DATA | RES_NACK | RES_STATUS | NOT_FUNCTIONING | NOT_IMPLEMENTED

fun ResFunction_value :: "ResFunction \<Rightarrow> int" where
  "ResFunction_value ACK = 0"
| "ResFunction_value NACK = 1"
| "ResFunction_value RES_DATA = 8"
| "ResFunction_value RES_NACK = 9"
| "ResFunction_value RES_STATUS = 11"
| "ResFunction_value NOT_FUNCTIONING = 14"
| "ResFunction_value NOT_IMPLEMENTED = 15"

definition ResFunction_members :: "ResFunction list" where
  "ResFunction_members =
     [ACK, NACK, RES_DATA, RES_NACK, RES_STATUS, NOT_FUNCTIONING, NOT_IMPLEMENTED]"

definition ResFunction_of :: "int \<Rightarrow> ResFunction result" where
  "ResFunction_of = enum_lookup ResFunction_value ResFunction_members"

interpretation ResFunction: enumeration ResFunction_value ResFunction_members
proof unfold_locales
  show "x \<in> set ResFunction_members" for x by (cases x) (simp_all add: ResFunction_members_def)
  show "distinct (map ResFunction_value ResFunction_members)" by (simp add: ResFunction_members_def)
qed

record ReqFrame =
  req_direction :: "Direction option"
  frame_count_bit :: bool
  frame_count_valid :: bool
  req_function :: ReqFunction
  req_address :: int
  req_data :: bytes

record ResFrame =
  res_direction :: "Direction option"
  access_demand :: bool
  data_flow_control :: bool
  res_function :: ResFunction
  res_address :: int
  res_data :: bytes

datatype Frame = Req ReqFrame | Res ResFrame | ShortFrame

definition get_broadcast_address :: "AddressSize \<Rightarrow> int result" where
  "get_broadcast_address sz =
     (case sz of
        AddressSize_ONE \<Rightarrow> Ok 0xFF
      | AddressSize_TWO \<Rightarrow> Ok 0xFFFF
      | AddressSize_ZERO \<Rightarrow> Raise (ValueError ''unsupported address size''))"

lemma Direction_of_value [simp]: "Direction_of (Direction_value d) = Ok d"
  by (simp add: Direction_of_def Direction.of_value)

lemma ReqFunction_of_value [simp]: "ReqFunction_of (ReqFunction_value f) = Ok f"
  by (simp add: ReqFunction_of_def ReqFunction.of_value)

lemma ResFunction_of_value [simp]: "ResFunction_of (ResFunction_value f) = Ok f"
  by (simp add: ResFunction_of_def ResFunction.of_value)

section \<open>The encoder\<close>

record LinkEncoder =
  address_size :: AddressSize
  direction_valid :: bool

definition get_next_frame_size :: "LinkEncoder \<Rightarrow> bytes \<Rightarrow> nat result" where
  "get_next_frame_size e data =
     (if data = [] \<or> byte_at data 0 = Ok 0xE5 then Ok 1
      else bindE (byte_at data 0) (\<lambda>b0.
        if b0 = 0x10 then Ok (4 + AddressSize_value (address_size e))
        else if b0 = 0x68
        then (if length data < 4 then Ok 4
              else bindE (byte_at data 1) (\<lambda>b1. bindE (byte_at data 2) (\<lambda>b2. bindE (byte_at data 3) (\<lambda>b3.
                if b1 \<noteq> b2 then Raise (Exception ''length not matching'')
                else if b3 \<noteq> 0x68 then Raise (Exception ''invalid repeated start identifier'')
                else Ok (nat b1 + 6)))))
        else Raise (Exception ''invalid start identifier'')))"

text \<open>The last part of \<open>decode\<close>: the frame that a control field, an address and data make.\<close>

definition build_frame :: "LinkEncoder \<Rightarrow> int \<Rightarrow> int \<Rightarrow> bytes \<Rightarrow> Frame result" where
  "build_frame e control_field address data =
     bindE (if direction_valid e
            then bindE (Direction_of (drop_bit 7 control_field)) (\<lambda>d. Ok (Some d))
            else Ok None) (\<lambda>direction.
       if control_field AND 0x40 \<noteq> 0
       then bindE (ReqFunction_of (control_field AND 0x0F)) (\<lambda>f.
         Ok (Req \<lparr>req_direction = direction, frame_count_bit = (control_field AND 0x20 \<noteq> 0),
                  frame_count_valid = (control_field AND 0x10 \<noteq> 0), req_function = f,
                  req_address = address, req_data = data\<rparr>))
       else bindE (ResFunction_of (control_field AND 0x0F)) (\<lambda>f.
         Ok (Res \<lparr>res_direction = direction, access_demand = (control_field AND 0x20 \<noteq> 0),
                  data_flow_control = (control_field AND 0x10 \<noteq> 0), res_function = f,
                  res_address = address, res_data = data\<rparr>)))"

text \<open>The part behind the header: end identifier, checksum and the fields.\<close>

definition decode_link_body :: "LinkEncoder \<Rightarrow> bytes \<Rightarrow> Frame result" where
  "decode_link_body e data =
     bindE (byte_last data 1) (\<lambda>end_id.
     if end_id \<noteq> 0x16 then Raise (Exception ''invalid end identifier'')
     else bindE (byte_last data 2) (\<lambda>crc.
     if crc \<noteq> sum_list (map uint (take (length data - 2) data)) mod 0x100
     then Raise (Exception ''invalid crc'')
     else bindE (byte_at data 0) (\<lambda>control_field.
       let n = AddressSize_value (address_size e);
           address_bytes = slice 1 (1 + n) data;
           data = drop (1 + n) (take (length data - 2) data)
       in build_frame e control_field
            (if address_size e \<noteq> AddressSize_ZERO then from_le address_bytes else 0) data)))"

definition decode_link :: "LinkEncoder \<Rightarrow> bytes \<Rightarrow> Frame result" where
  "decode_link e data =
     bindE (byte_at data 0) (\<lambda>b0.
     if b0 = 0xE5 then Ok ShortFrame
     else if b0 = 0x10
     then decode_link_body e (slice 1 (4 + AddressSize_value (address_size e)) data)
     else if b0 = 0x68
     then bindE (byte_at data 1) (\<lambda>b1. bindE (byte_at data 2) (\<lambda>b2.
          if b1 \<noteq> b2 then Raise (Exception ''length not matching'')
          else bindE (byte_at data 3) (\<lambda>b3.
          if b3 \<noteq> 0x68 then Raise (Exception ''invalid repeated start identifier'')
          else decode_link_body e (slice 4 (nat b1 + 6) data))))
     else Raise (Exception ''invalid start identifier''))"

text \<open>\<open>frame.direction.value << 7 if self._direction_valid else 0\<close>\<close>

definition direction_bit :: "LinkEncoder \<Rightarrow> Direction option \<Rightarrow> int result" where
  "direction_bit e d =
     (if direction_valid e
      then (case d of None \<Rightarrow> Raise (AttributeError ''NoneType object has no attribute value'')
            | Some d \<Rightarrow> Ok (push_bit 7 (Direction_value d)))
      else Ok 0)"

definition encode_link_body :: "LinkEncoder \<Rightarrow> int \<Rightarrow> int \<Rightarrow> bytes \<Rightarrow> bytes result" where
  "encode_link_body e control_field address frame_data =
     bindE (if address_size e \<noteq> AddressSize_ZERO
            then to_le (AddressSize_value (address_size e)) address else Ok []) (\<lambda>address_bytes.
       let data = [control_field] @ address_bytes @ map uint frame_data;
           crc = sum_list data mod 0x100;
           header = (if frame_data \<noteq> [] then [0x68, int (length data), int (length data), 0x68] else [0x10])
       in py_bytes (header @ data @ [crc, 0x16]))"

definition encode_link :: "LinkEncoder \<Rightarrow> Frame \<Rightarrow> bytes result" where
  "encode_link e frame =
     (case frame of
        ShortFrame \<Rightarrow> Ok [0xE5]
      | Req f \<Rightarrow>
          bindE (direction_bit e (req_direction f)) (\<lambda>d.
            encode_link_body e
              (d OR ReqFunction_value (req_function f) OR 0x40 OR
               (if frame_count_bit f then 0x20 else 0) OR (if frame_count_valid f then 0x10 else 0))
              (req_address f) (req_data f))
      | Res f \<Rightarrow>
          bindE (direction_bit e (res_direction f)) (\<lambda>d.
            encode_link_body e
              (d OR ResFunction_value (res_function f) OR
               (if access_demand f then 0x20 else 0) OR (if data_flow_control f then 0x10 else 0))
              (res_address f) (res_data f)))"

section \<open>Receiving\<close>

lemma get_next_frame_size_pos: "get_next_frame_size e data = Ok n \<Longrightarrow> 0 < n"
  by (auto simp: get_next_frame_size_def split: if_splits)

lemma get_next_frame_size_Raise: "get_next_frame_size e data = Raise x \<Longrightarrow> data \<noteq> []"
  by (auto simp: get_next_frame_size_def)

text \<open>
  \<open>Endpoint.receive\<close>: \<open>data\<close> is the instance variable that keeps unread bytes between calls,
  \<open>stream\<close> what the serial port is still to deliver. The result holds the frame and both.
\<close>

function receive :: "LinkEncoder \<Rightarrow> bytes \<Rightarrow> bytes \<Rightarrow> (Frame \<times> bytes \<times> bytes) result" where
  "receive e data stream =
     (case get_next_frame_size e data of
        Inl _ \<Rightarrow> receive e (drop 1 data) stream
      | Inr n \<Rightarrow>
          if length data < n
          then (if length stream < n - length data then Raise ConnectionError
                else receive e (data @ take (n - length data) stream) (drop (n - length data) stream))
          else (case decode_link e (take n data) of
                  Inr msg \<Rightarrow> Ok (msg, drop n data, stream)
                | Inl _ \<Rightarrow> receive e (drop n data) stream))"
  by pat_completeness auto
termination
proof (relation "measures [\<lambda>(_, data, stream). length data + length stream, \<lambda>(_, data, stream). length stream]")
  fix e data stream x
  assume "get_next_frame_size e data = Inl x"
  then have "data \<noteq> []" by (rule get_next_frame_size_Raise)
  then show "((e, drop 1 data, stream), e, data, stream)
      \<in> measures [\<lambda>(_, data, stream). length data + length stream, \<lambda>(_, data, stream). length stream]"
    by (cases data) simp_all
next
  fix e data stream n x
  assume "get_next_frame_size e data = Inr n" "\<not> length data < n"
  then show "((e, drop n data, stream), e, data, stream)
      \<in> measures [\<lambda>(_, data, stream). length data + length stream, \<lambda>(_, data, stream). length stream]"
    using get_next_frame_size_pos [of e data n] by simp
qed auto

declare receive.simps [simp del]

section \<open>Round trip\<close>

definition link_address_ok :: "LinkEncoder \<Rightarrow> int \<Rightarrow> bool" where
  "link_address_ok e a \<longleftrightarrow> 0 \<le> a \<and> a < 256 ^ AddressSize_value (address_size e)"

definition link_data_ok :: "LinkEncoder \<Rightarrow> bytes \<Rightarrow> bool" where
  "link_data_ok e d \<longleftrightarrow> 1 + AddressSize_value (address_size e) + length d \<le> 255"

definition link_frame_ok :: "LinkEncoder \<Rightarrow> Frame \<Rightarrow> bool" where
  "link_frame_ok e frame \<longleftrightarrow>
     (case frame of
        ShortFrame \<Rightarrow> True
      | Req f \<Rightarrow> (req_direction f \<noteq> None \<longleftrightarrow> direction_valid e) \<and>
          link_address_ok e (req_address f) \<and> link_data_ok e (req_data f)
      | Res f \<Rightarrow> (res_direction f \<noteq> None \<longleftrightarrow> direction_valid e) \<and>
          link_address_ok e (res_address f) \<and> link_data_ok e (res_data f))"

lemma control_byte:
  fixes d f m :: int and x y :: bool
  assumes "d \<in> {0, 1}" "0 \<le> f" "f < 16" "m \<in> {0, 64}"
  defines "b \<equiv> push_bit 7 d OR f OR m OR (if x then 32 else 0) OR (if y then 16 else 0)"
  shows "is_byte b" "drop_bit 7 b = d" "b AND 64 = m" "(b AND 32 = 0) = (\<not> x)" "(b AND 16 = 0) = (\<not> y)"
    "b AND 15 = f"
proof -
  have f: "f AND 15 = f" using assms by (simp add: mask_mod)
  then have "f AND k = f AND (15 AND k)" for k by (metis and.assoc)
  from this [of 64] this [of 32] this [of 16] have z: "f AND 64 = 0" "f AND 32 = 0" "f AND 16 = 0"
    by simp_all
  show "is_byte b"
    using assms unfolding b_def by (intro is_byte_or is_byte_if) (auto simp: is_byte_num)
  have "drop_bit 7 f = 0" using assms by (simp add: drop_bit_eq_div)
  then show "drop_bit 7 b = d" using assms by (auto simp: b_def)
  show "b AND 64 = m" "(b AND 32 = 0) = (\<not> x)" "(b AND 16 = 0) = (\<not> y)" "b AND 15 = f"
    using assms(1,4) f z by (auto simp: b_def or_mask)
qed

lemma function_ranges:
  "0 \<le> ReqFunction_value f" "ReqFunction_value f < 16" "0 \<le> ResFunction_value g" "ResFunction_value g < 16"
  by (cases f; cases g; simp)+

lemma Direction_range: "Direction_value d \<in> {0, 1}"
  by (cases d) simp_all

lemma build_req:
  assumes "req_direction f \<noteq> None \<longleftrightarrow> direction_valid e" "direction_bit e (req_direction f) = Ok d"
  shows "build_frame e (d OR ReqFunction_value (req_function f) OR 0x40 OR
      (if frame_count_bit f then 0x20 else 0) OR (if frame_count_valid f then 0x10 else 0))
      (req_address f) (req_data f) = Ok (Req f)"
    and "is_byte (d OR ReqFunction_value (req_function f) OR 0x40 OR
      (if frame_count_bit f then 0x20 else 0) OR (if frame_count_valid f then 0x10 else 0))"
proof -
  obtain dv where d: "d = push_bit 7 dv" "dv \<in> {0, 1}"
    "direction_valid e \<Longrightarrow> \<exists>dir. req_direction f = Some dir \<and> dv = Direction_value dir"
  proof (cases "direction_valid e")
    case True
    with assms that Direction_range show ?thesis
      by (auto simp: direction_bit_def split: option.splits)
  next
    case False
    with assms that [of 0] show ?thesis by (simp add: direction_bit_def)
  qed
  note c = control_byte [OF d(2) function_ranges(1,2), of 64 "req_function f" "frame_count_bit f" "frame_count_valid f"]
  define b where "b = push_bit 7 dv OR ReqFunction_value (req_function f) OR 64 OR
      (if frame_count_bit f then 32 else 0) OR (if frame_count_valid f then 16 else 0)"
  have "build_frame e b (req_address f) (req_data f) = Ok (Req f)"
    using c [folded b_def] d(3) assms(1)
    by (cases "direction_valid e") (auto simp: build_frame_def intro!: ReqFrame.equality)
  then show "build_frame e (d OR ReqFunction_value (req_function f) OR 0x40 OR
      (if frame_count_bit f then 0x20 else 0) OR (if frame_count_valid f then 0x10 else 0))
      (req_address f) (req_data f) = Ok (Req f)"
    unfolding b_def d(1) .
  show "is_byte (d OR ReqFunction_value (req_function f) OR 0x40 OR
      (if frame_count_bit f then 0x20 else 0) OR (if frame_count_valid f then 0x10 else 0))"
    using c(1) unfolding d(1) by simp
qed

lemma build_res:
  assumes "res_direction f \<noteq> None \<longleftrightarrow> direction_valid e" "direction_bit e (res_direction f) = Ok d"
  shows "build_frame e (d OR ResFunction_value (res_function f) OR
      (if access_demand f then 0x20 else 0) OR (if data_flow_control f then 0x10 else 0))
      (res_address f) (res_data f) = Ok (Res f)"
    and "is_byte (d OR ResFunction_value (res_function f) OR
      (if access_demand f then 0x20 else 0) OR (if data_flow_control f then 0x10 else 0))"
proof -
  obtain dv where d: "d = push_bit 7 dv" "dv \<in> {0, 1}"
    "direction_valid e \<Longrightarrow> \<exists>dir. res_direction f = Some dir \<and> dv = Direction_value dir"
  proof (cases "direction_valid e")
    case True
    with assms that Direction_range show ?thesis
      by (auto simp: direction_bit_def split: option.splits)
  next
    case False
    with assms that [of 0] show ?thesis by (simp add: direction_bit_def)
  qed
  note c = control_byte [OF d(2) function_ranges(3,4), of 0 "res_function f" "access_demand f" "data_flow_control f"]
  define b where "b = push_bit 7 dv OR ResFunction_value (res_function f) OR
      (if access_demand f then 32 else 0) OR (if data_flow_control f then 16 else 0)"
  have zero: "push_bit 7 dv OR ResFunction_value (res_function f) OR 0 OR
      (if access_demand f then 32 else 0) OR (if data_flow_control f then 16 else 0) = b"
    by (simp add: b_def)
  have "build_frame e b (res_address f) (res_data f) = Ok (Res f)"
    using c [unfolded zero] d(3) assms(1)
    by (cases "direction_valid e") (auto simp: build_frame_def intro!: ResFrame.equality)
  then show "build_frame e (d OR ResFunction_value (res_function f) OR
      (if access_demand f then 0x20 else 0) OR (if data_flow_control f then 0x10 else 0))
      (res_address f) (res_data f) = Ok (Res f)"
    unfolding b_def d(1) .
  show "is_byte (d OR ResFunction_value (res_function f) OR
      (if access_demand f then 0x20 else 0) OR (if data_flow_control f then 0x10 else 0))"
    using c(1) [unfolded zero] unfolding d(1) b_def by simp
qed

text \<open>The bytes of a frame with data or without, and what the decoder reads of them.\<close>

lemma link_body_roundtrip:
  assumes a: "link_address_ok e address" and d: "link_data_ok e data" and c: "is_byte cf"
  obtains ab crc where
    "encode_link_body e cf address data =
       Ok (wire ((if data \<noteq> [] then [0x68, int (1 + length ab + length data), int (1 + length ab + length data), 0x68]
                  else [0x10]) @ [cf] @ ab @ map uint data @ [crc, 0x16]))"
    "length ab = AddressSize_value (address_size e)"
    "decode_link_body e (wire ([cf] @ ab @ map uint data @ [crc, 0x16])) = build_frame e cf address data"
proof -
  let ?n = "AddressSize_value (address_size e)"
  define ab where "ab = le_digits ?n address"
  define crc where "crc = sum_list ([cf] @ ab @ map uint data) mod 0x100"
  have ab: "length ab = ?n" "all_bytes ab" by (simp_all add: ab_def)
  have enc_ab: "(if address_size e \<noteq> AddressSize_ZERO then to_le ?n address else Ok []) = Ok ab"
    using a by (auto simp: link_address_ok_def ab_def)
  have addr: "(if address_size e \<noteq> AddressSize_ZERO then from_le (wire ab) else 0) = address"
    using a by (auto simp: link_address_ok_def ab_def from_le_wire_digits)
  have crc: "is_byte crc" by (simp add: crc_def byte_intros)
  have crc_sum: "(cf + (sum_list ab + sum_list (map uint data))) mod 256 = crc"
    "data = [] \<Longrightarrow> (cf + sum_list ab) mod 256 = crc"
    by (simp_all add: crc_def)
  have len: "is_byte (int (1 + length ab + length data))"
    using d ab by (simp add: link_data_ok_def is_byte_def)
  show ?thesis
  proof (rule that [of ab crc])
    show "encode_link_body e cf address data =
       Ok (wire ((if data \<noteq> [] then [0x68, int (1 + length ab + length data), int (1 + length ab + length data), 0x68]
                  else [0x10]) @ [cf] @ ab @ map uint data @ [crc, 0x16]))"
      unfolding encode_link_body_def enc_ab
      using c ab crc len crc_sum by (auto simp: py_bytes_def Let_def is_byte_num algebra_simps)
    let ?w = "wire ([cf] @ ab @ map uint data @ [crc, 0x16])"
    have last: "byte_last ?w 1 = Ok 0x16" "byte_last ?w 2 = Ok crc"
      using crc by (simp_all add: byte_last_def nth_append uint_of_byte)
    have init: "take (length ?w - 2) ?w = wire ([cf] @ ab @ map uint data)" by simp
    have "map uint (wire ([cf] @ ab @ map uint data)) = [cf] @ ab @ map uint data"
      using c ab by (intro map_uint_wire) simp
    then have chk: "sum_list (map uint (take (length ?w - 2) ?w)) mod 0x100 = crc"
      unfolding init crc_def by simp
    have ad: "slice 1 (1 + ?n) ?w = wire ab" "drop (1 + ?n) (take (length ?w - 2) ?w) = data"
      unfolding init using ab by (simp_all add: slice_def)
    have b0: "byte_at ?w 0 = Ok cf" using c by (simp add: uint_of_byte)
    show "decode_link_body e ?w = build_frame e cf address data"
      unfolding decode_link_body_def last b0 chk Let_def ad bindE_simps addr by simp
  qed (rule ab(1))
qed

text \<open>The three shapes of a frame.\<close>

definition link_shape :: "LinkEncoder \<Rightarrow> bytes \<Rightarrow> bool" where
  "link_shape e bs \<longleftrightarrow>
     bs = [0xE5] \<or>
     (\<exists>body. bs = 0x10 # body \<and> length body = 3 + AddressSize_value (address_size e)) \<or>
     (\<exists>b body. bs = [0x68, b, b, 0x68] @ body \<and> length body = unat b + 2)"

lemma link_body_shape:
  assumes "link_address_ok e address" "link_data_ok e data" "is_byte cf"
  shows "\<exists>bs. encode_link_body e cf address data = Ok bs \<and> link_shape e bs \<and>
    decode_link e bs = build_frame e cf address data"
proof -
  obtain ab crc where
    enc: "encode_link_body e cf address data =
       Ok (wire ((if data \<noteq> [] then [0x68, int (1 + length ab + length data), int (1 + length ab + length data), 0x68]
                  else [0x10]) @ [cf] @ ab @ map uint data @ [crc, 0x16]))"
    and ab: "length ab = AddressSize_value (address_size e)"
    and dec: "decode_link_body e (wire ([cf] @ ab @ map uint data @ [crc, 0x16])) = build_frame e cf address data"
    by (rule link_body_roundtrip [OF assms])
  define body where "body = wire ([cf] @ ab @ map uint data @ [crc, 0x16])"
  have len: "length body = 3 + AddressSize_value (address_size e) + length data"
    by (simp add: body_def ab)
  show ?thesis
  proof (cases "data = []")
    case True
    then have "encode_link_body e cf address data = Ok (0x10 # body)"
      using enc by (simp add: body_def)
    moreover have "decode_link e (0x10 # body) = build_frame e cf address data"
      using dec len True by (simp add: decode_link_def slice_def body_def)
    moreover have "link_shape e (0x10 # body)"
      using len True by (simp add: link_shape_def)
    ultimately show ?thesis by blast
  next
    case False
    define L where "L = (word_of_nat (1 + length ab + length data) :: byte)"
    have "1 + length ab + length data < 256" using assms(2) ab by (simp add: link_data_ok_def)
    then have L: "unat L = 1 + length ab + length data"
      unfolding L_def unat_of_nat by simp
    then have uL: "nat (uint L) = 1 + length ab + length data" by simp
    have "encode_link_body e cf address data = Ok ([0x68, L, L, 0x68] @ body)"
      using enc False by (simp add: body_def L_def)
    moreover have "decode_link e ([0x68, L, L, 0x68] @ body) = build_frame e cf address data"
      using dec len uL ab by (simp add: decode_link_def slice_def body_def)
    moreover have "link_shape e ([0x68, L, L, 0x68] @ body)"
      using len L ab by (auto simp: link_shape_def)
    ultimately show ?thesis by blast
  qed
qed

lemma encode_link_shape:
  assumes "link_frame_ok e f"
  shows "\<exists>bs. encode_link e f = Ok bs \<and> link_shape e bs \<and> decode_link e bs = Ok f"
proof (cases f)
  case (Req r)
  with assms have ok: "req_direction r \<noteq> None \<longleftrightarrow> direction_valid e" "link_address_ok e (req_address r)"
    "link_data_ok e (req_data r)" by (simp_all add: link_frame_ok_def)
  then obtain d where d: "direction_bit e (req_direction r) = Ok d"
    by (auto simp: direction_bit_def split: option.splits)
  note b = build_req [OF ok(1) d]
  from link_body_shape [OF ok(2,3) b(2)] b(1) d Req show ?thesis
    by (simp add: encode_link_def)
next
  case (Res r)
  with assms have ok: "res_direction r \<noteq> None \<longleftrightarrow> direction_valid e" "link_address_ok e (res_address r)"
    "link_data_ok e (res_data r)" by (simp_all add: link_frame_ok_def)
  then obtain d where d: "direction_bit e (res_direction r) = Ok d"
    by (auto simp: direction_bit_def split: option.splits)
  note b = build_res [OF ok(1) d]
  from link_body_shape [OF ok(2,3) b(2)] b(1) d Res show ?thesis
    by (simp add: encode_link_def)
next
  case ShortFrame
  then show ?thesis by (simp add: encode_link_def decode_link_def link_shape_def)
qed

lemma link_shape_prefix:
  assumes "link_shape e (p @ q)"
  shows "\<exists>n. get_next_frame_size e p = Ok n \<and> (q \<noteq> [] \<longrightarrow> length p < n) \<and> n \<le> length (p @ q)
    \<and> (q = [] \<longrightarrow> n = length p)"
proof (cases p)
  case Nil
  with assms show ?thesis
    by (auto simp: link_shape_def get_next_frame_size_def)
next
  case (Cons a p')
  from assms consider "p @ q = [0xE5]"
    | body where "p @ q = 0x10 # body" "length body = 3 + AddressSize_value (address_size e)"
    | b body where "p @ q = [0x68, b, b, 0x68] @ body" "length body = unat b + 2"
    unfolding link_shape_def by blast
  then show ?thesis
  proof cases
    case 1
    with Cons show ?thesis by (simp add: get_next_frame_size_def)
  next
    case 2
    have "length p + length q = 4 + AddressSize_value (address_size e)"
      using arg_cong [OF 2(1), of length] 2(2) by simp
    with 2 Cons show ?thesis by (cases q) (auto simp: get_next_frame_size_def)
  next
    case 3
    have "length (p @ q) = length ([0x68, b, b, 0x68] @ body)" by (simp only: 3(1))
    then have len: "length p + length q = unat b + 6" using 3(2) by simp
    have a: "a = 0x68" using 3(1) Cons by simp
    show ?thesis
    proof (cases "length p < 4")
      case True
      with a Cons len show ?thesis by (auto simp: get_next_frame_size_def)
    next
      case False
      have "take 4 p = [0x68, b, b, 0x68]"
        using False arg_cong [OF 3(1), of "take 4"] by simp
      then obtain r where "p = [0x68, b, b, 0x68] @ r" by (metis append_take_drop_id)
      with len show ?thesis by (cases q) (auto simp: get_next_frame_size_def)
    qed
  qed
qed

interpretation link: framing "get_next_frame_size e" "decode_link e" "encode_link e" "link_frame_ok e" for e
proof unfold_locales
  fix f
  assume ok: "link_frame_ok e f"
  then show "\<exists>bs. encode_link e f = Ok bs \<and> decode_link e bs = Ok f"
    using encode_link_shape by blast
  fix bs
  assume "encode_link e f = Ok bs"
  with encode_link_shape [OF ok] have "link_shape e (bs @ [])" by auto
  from link_shape_prefix [OF this] show "get_next_frame_size e bs = Ok (length bs)" by auto
next
  fix f p and q :: bytes
  assume ok: "link_frame_ok e f" and "encode_link e f = Ok (p @ q)" "q \<noteq> []"
  with encode_link_shape [OF ok] have "link_shape e (p @ q)" by auto
  from link_shape_prefix [OF this] \<open>q \<noteq> []\<close>
  show "\<exists>n. get_next_frame_size e p = Ok n \<and> length p < n \<and> n \<le> length p + length q" by auto
qed

section \<open>The receiving loop\<close>

lemma receive_fill:
  "fill (get_next_frame_size e) data stream = Ok (data', stream') \<Longrightarrow> receive e data stream = receive e data' stream'"
proof (induction "get_next_frame_size e" data stream rule: fill.induct)
  case (1 data stream)
  from "1.prems" obtain n where n: "get_next_frame_size e data = Ok n" by (subst (asm) fill.simps) auto
  show ?case
  proof (cases "n \<le> length data")
    case True
    with "1.prems" n show ?thesis by (subst (asm) fill.simps) simp
  next
    case False
    have s: "\<not> length stream < n - length data"
      using "1.prems" n False by (subst (asm) fill.simps) (auto split: if_splits)
    with "1.hyps" [OF n False s] "1.prems" n False show ?thesis
      by (subst receive.simps) (subst (asm) fill.simps, simp)
  qed
qed

text \<open>A frame is received whatever part of it was already buffered.\<close>

lemma receive_frame:
  assumes "link_frame_ok e f" "encode_link e f = Ok (data @ todo)"
  shows "receive e data (todo @ rest) = Ok (f, [], rest)"
proof -
  have "fill (get_next_frame_size e) data (todo @ rest) = Ok (data @ todo, rest)"
    by (rule link.fill_frame [OF assms TrueI])
  then have "receive e data (todo @ rest) = receive e (data @ todo) rest"
    by (rule receive_fill)
  also have "\<dots> = Ok (f, [], rest)"
    using link.size_frame [OF assms] link.enc_dec [OF assms(1)] assms(2)
    by (subst receive.simps) simp
  finally show ?thesis .
qed

definition start_bytes :: "byte set" where
  "start_bytes = {0xE5, 0x10, 0x68}"

lemma receive_skip:
  assumes "b \<notin> start_bytes"
  shows "receive e [] (b # stream) = receive e [] stream"
proof -
  have "uint b \<noteq> 0xE5" "uint b \<noteq> 0x10" "uint b \<noteq> 0x68"
    using assms by (auto simp: start_bytes_def word_uint_eq_iff)
  then have "get_next_frame_size e [b] = Raise (Exception ''invalid start identifier'')"
    by (simp add: get_next_frame_size_def)
  moreover have "get_next_frame_size e [] = Ok 1" by (simp add: get_next_frame_size_def)
  ultimately show ?thesis
    by (subst receive.simps, simp, subst receive.simps, simp)
qed

text \<open>Noise in front of a frame, if no byte of it is a start byte, is thrown away.\<close>

lemma receive_resync:
  assumes "set noise \<inter> start_bytes = {}" "link_frame_ok e f" "encode_link e f = Ok bs"
  shows "receive e [] (noise @ bs @ rest) = Ok (f, [], rest)"
  using assms(1)
proof (induction noise)
  case Nil
  with receive_frame [OF assms(2), of "[]" bs rest] assms(3) show ?case by simp
next
  case (Cons b noise)
  then show ?case using receive_skip [of b e] by simp
qed

text \<open>
  No error of the encoder ends the loop: it returns a frame, having consumed bytes from the
  front, or the port is lost.
\<close>

definition consumes :: "('f \<times> bytes \<times> bytes) result \<Rightarrow> bytes \<Rightarrow> bool" where
  "consumes r bs \<longleftrightarrow>
     (case r of
        Inl x \<Rightarrow> x = ConnectionError
      | Inr (f, data, stream) \<Rightarrow> \<exists>p. p \<noteq> [] \<and> bs = p @ data @ stream)"

lemma consumes_more: "consumes r bs \<Longrightarrow> consumes r (q @ bs)"
proof (cases r)
  case (Inr x)
  assume "consumes r bs"
  with Inr obtain p where "p \<noteq> []" "bs = p @ fst (snd x) @ snd (snd x)"
    by (auto simp: consumes_def split: prod.splits)
  then have "q @ p \<noteq> []" "q @ bs = (q @ p) @ fst (snd x) @ snd (snd x)" by simp_all
  with Inr show ?thesis by (cases x) (auto simp: consumes_def)
qed (simp add: consumes_def)

lemma receive_consumes: "consumes (receive e data stream) (data @ stream)"
proof (induction e data stream rule: receive.induct)
  case (1 e data stream)
  show ?case
  proof (cases "get_next_frame_size e data")
    case (Inl x)
    then have "receive e data stream = receive e (drop 1 data) stream"
      by (simp add: receive.simps [of e data])
    moreover have "data @ stream = [hd data] @ drop 1 data @ stream"
      using get_next_frame_size_Raise [OF Inl] by (cases data) simp_all
    ultimately show ?thesis
      using consumes_more [OF "1.IH"(1) [OF Inl], of "[hd data]"] by metis
  next
    case (Inr n)
    note n = get_next_frame_size_pos [OF Inr]
    show ?thesis
    proof (cases "length data < n")
      case True
      show ?thesis
      proof (cases "length stream < n - length data")
        case short: True
        then have "receive e data stream = Raise ConnectionError"
          using Inr True by (subst receive.simps) simp
        then show ?thesis by (simp add: consumes_def)
      next
        case False
        then have "receive e data stream =
            receive e (data @ take (n - length data) stream) (drop (n - length data) stream)"
          using Inr True by (subst receive.simps) simp
        with "1.IH"(2) [OF Inr True False] show ?thesis by simp
      qed
    next
      case False
      show ?thesis
      proof (cases "decode_link e (take n data)")
        case Msg: (Inr msg)
        then have "receive e data stream = Ok (msg, drop n data, stream)"
          using Inr False by (subst receive.simps) simp
        then have "consumes (receive e data stream) ((take n data @ drop n data) @ stream)"
          using n False by (auto simp: consumes_def simp del: append_take_drop_id)
        then show ?thesis by (simp only: append_take_drop_id)
      next
        case Err: (Inl x)
        then have "receive e data stream = receive e (drop n data) stream"
          using Inr False by (subst receive.simps) simp
        with consumes_more [OF "1.IH"(3) [OF Inr False Err], of "take n data"] show ?thesis
          by (simp add: append.assoc [symmetric] del: append.assoc)
      qed
    qed
  qed
qed

section \<open>Error detection\<close>

lemma sum_list_update_int:
  fixes xs :: "int list"
  shows "i < length xs \<Longrightarrow> sum_list (xs[i := x]) = sum_list xs + x - xs ! i"
  by (induction xs arbitrary: i) (auto split: nat.split)

lemma checksum_change:
  fixes b c :: byte
  assumes "b \<noteq> c"
  shows "(s + uint b - uint c) mod 256 \<noteq> s mod 256"
proof
  assume "(s + uint b - uint c) mod 256 = s mod 256"
  then have "256 dvd (s + uint b - uint c) - s" by (simp only: mod_eq_dvd_iff)
  then have "256 dvd uint b - uint c" by (simp add: algebra_simps)
  moreover have "\<bar>uint b - uint c\<bar> < 256"
    using uint_byte_bounds [of b] uint_byte_bounds [of c] by linarith
  ultimately have "uint b - uint c = 0" 
    using dvd_imp_le_int [of "uint b - uint c" 256] by (cases "uint b - uint c = 0") simp_all
  with assms show False by (simp add: word_uint_eq_iff)
qed

lemma decode_link_body_detects:
  assumes ok: "decode_link_body e body = Ok f" and i: "i < length body" and b: "b \<noteq> body ! i"
  shows "\<exists>x. decode_link_body e (body[i := b]) = Raise x"
proof -
  let ?body = "body[i := b]" and ?k = "length body - 2"
  from ok have len: "2 \<le> length body" and end_id: "uint (body ! (length body - 1)) = 0x16"
    and crc: "uint (body ! ?k) = sum_list (map uint (take ?k body)) mod 0x100"
    by (auto simp: decode_link_body_def byte_last_def split: if_splits)
  consider "i = length body - 1" | "i = ?k" | "i < ?k" using i by linarith
  then show ?thesis
  proof cases
    case 1
    then have "uint b \<noteq> 0x16" using b end_id by (auto simp: word_uint_eq_iff)
    with 1 len show ?thesis by (simp add: decode_link_body_def byte_last_def)
  next
    case 2
    then have "uint (?body ! ?k) \<noteq> sum_list (map uint (take ?k ?body)) mod 0x100"
      using crc b i by (simp add: word_uint_eq_iff)
    with len end_id 2 show ?thesis by (simp add: decode_link_body_def byte_last_def)
  next
    case 3
    have "map uint (take ?k ?body) = (map uint (take ?k body))[i := uint b]"
      by (simp add: take_update_swap map_update)
    then have "sum_list (map uint (take ?k ?body)) = sum_list (map uint (take ?k body)) + uint b - uint (body ! i)"
      using 3 by (simp add: sum_list_update_int)
    then have "uint (?body ! ?k) \<noteq> sum_list (map uint (take ?k ?body)) mod 0x100"
      using checksum_change [OF b, of "sum_list (map uint (take ?k body))"] crc 3 by simp
    with len end_id 3 show ?thesis by (simp add: decode_link_body_def byte_last_def)
  qed
qed

section \<open>Properties\<close>

text \<open>
  C10: bytes that cannot start a frame are thrown away, and the frame behind them is received,
  whatever bytes follow it.
\<close>

theorem frame_received_after_noise:
  assumes "link_frame_ok e f" "set noise \<inter> {0xE5, 0x10, 0x68} = {}"
  shows "\<exists>bs. encode_link e f = Ok bs \<and> (\<forall>rest. receive e [] (noise @ bs @ rest) = Ok (f, [], rest))"
proof -
  from link.enc_dec [OF assms(1)] obtain bs where "encode_link e f = Ok bs" by blast
  with receive_resync [OF _ assms(1) this] assms(2) show ?thesis by (auto simp: start_bytes_def)
qed

lemma example_link_frame:
  "link_frame_ok \<lparr>address_size = AddressSize_TWO, direction_valid = True\<rparr>
    (Req \<lparr>req_direction = Some A_TO_B, frame_count_bit = True, frame_count_valid = True, req_function = DATA,
      req_address = 0x1234, req_data = [0x68, 0x16]\<rparr>)"
  by (simp add: link_frame_ok_def link_address_ok_def link_data_ok_def)

lemma frame_received_after_noise_witness:
  "\<exists>bs. encode_link \<lparr>address_size = AddressSize_TWO, direction_valid = True\<rparr>
      (Req \<lparr>req_direction = Some A_TO_B, frame_count_bit = True, frame_count_valid = True, req_function = DATA,
        req_address = 0x1234, req_data = [0x68, 0x16]\<rparr>) = Ok bs \<and>
    (\<forall>rest. receive \<lparr>address_size = AddressSize_TWO, direction_valid = True\<rparr> [] ([0, 0x16] @ bs @ rest) =
      Ok (Req \<lparr>req_direction = Some A_TO_B, frame_count_bit = True, frame_count_valid = True, req_function = DATA,
        req_address = 0x1234, req_data = [0x68, 0x16]\<rparr>, [], rest))"
  by (rule frame_received_after_noise [OF example_link_frame]) simp

text \<open>
  C11: whatever bytes arrive, receiving ends: with a frame, having used up at least one byte from
  the front, or because the port is lost. No error of the decoder leaves the loop.
\<close>

theorem receive_total:
  "case receive e data stream of
     Inl x \<Rightarrow> x = ConnectionError
   | Inr (f, data', stream') \<Rightarrow> \<exists>used. used \<noteq> [] \<and> data @ stream = used @ data' @ stream'"
  using receive_consumes [of e data stream] by (simp add: consumes_def)

text \<open>
  C12: a single changed byte behind the header of a frame that decodes is always detected.
\<close>

theorem single_byte_error_detected:
  assumes "decode_link_body e body = Ok f" "i < length body" "b \<noteq> body ! i"
  shows "\<exists>x. decode_link_body e (body[i := b]) = Raise x"
  using decode_link_body_detects [OF assms] .

lemma single_byte_error_detected_witness:
  "\<exists>x. decode_link_body \<lparr>address_size = AddressSize_ONE, direction_valid = False\<rparr> ([0x49, 5, 0x4E, 0x16][0 := 0x4B]) = Raise x"
proof -
  have "\<exists>f. decode_link_body \<lparr>address_size = AddressSize_ONE, direction_valid = False\<rparr> [0x49, 5, 0x4E, 0x16] = Ok f"
    by (simp add: decode_link_body_def byte_last_def byte_at_def slice_def build_frame_def Let_def ReqFunction_of_def ReqFunction_members_def
        enum_lookup_def)
  then obtain f where "decode_link_body \<lparr>address_size = AddressSize_ONE, direction_valid = False\<rparr> [0x49, 5, 0x4E, 0x16] = Ok f" ..
  from single_byte_error_detected [OF this, of 0 "0x4B"] show ?thesis by simp
qed

text \<open>
  \<open>decode\<close> does not check that the part behind the header is long enough for a control field
  and an address: a frame that says it is empty is decoded to a response, whose control field is
  the checksum and whose address is the end identifier.
\<close>

lemma empty_frame_decodes:
  "decode_link \<lparr>address_size = AddressSize_ONE, direction_valid = False\<rparr> [0x68, 0, 0, 0x68, 0, 0x16] =
    Ok (Res \<lparr>res_direction = None, access_demand = False, data_flow_control = False, res_function = ACK,
      res_address = 0x16, res_data = []\<rparr>)"
  by (simp add: decode_link_def decode_link_body_def byte_last_def byte_at_def slice_def build_frame_def Let_def
      ResFunction_of_def ResFunction_members_def enum_lookup_def)

end
