(* ===== verification/Link_Station.thy ===== *)
theory Link_Station
  imports Link_Encoder
begin

text \<open>
  What the stations of the IEC 60870-5-101 link share: the retry loop inside \<open>_send_loop\<close> of
  \<^verbatim>\<open>iec60870/link/balanced.py\<close> and \<^verbatim>\<open>iec60870/link/unbalanced/master.py\<close>, and the contract of
  the other side, \<open>responder\<close>: a request with a valid frame count bit that repeats the last
  one changes nothing and is answered as before, any other is processed.

  Under this contract a sender that alternates the bit and repeats a request until it gets a
  response transfers each message exactly once, however many requests and responses the line
  loses (\<open>transfer_exactly_once\<close>). The line is a list of \<open>fate\<close>s, one for each transmission.
\<close>

section \<open>Repeating a request\<close>

text \<open>
  \<open>send\<close> is the coroutine that the loop is given; it changes the rest of the world, of type
  \<open>'w\<close>, and raises TimeoutError where no response comes. A response is \<open>None\<close> for requests
  that are not answered.
\<close>

type_synonym 'w send = "ReqFrame \<Rightarrow> 'w \<Rightarrow> Frame option result \<times> 'w"

function retry_loop :: "'w send \<Rightarrow> ReqFrame \<Rightarrow> nat \<Rightarrow> nat \<Rightarrow> 'w \<Rightarrow> Frame option result \<times> 'w" where
  "retry_loop send req send_retry_count retry_counter world =
     (case send req world of
        (Inr res, world) \<Rightarrow> (Ok res, world)
      | (Inl e, world) \<Rightarrow>
          if e \<noteq> TimeoutError then (Raise e, world)
          else if retry_counter \<ge> send_retry_count
          then (Raise (Exception ''send retry count exceeded''), world)
          else retry_loop send req send_retry_count (retry_counter + 1) world)"
  by pat_completeness auto
termination by (relation "measure (\<lambda>(_, _, limit, counter, _). limit - counter)") auto

declare retry_loop.simps [simp del]

section \<open>The sending side of a connection\<close>

record SendEntry =
  se_future :: nat
  se_function :: ReqFunction
  se_data :: bytes

text \<open>
  The local variables of \<open>_send_loop\<close> with the queues and the other instance variables it
  uses. Futures are numbered; \<open>snd_futures\<close> lists those that are done.
\<close>

record LinkSender =
  snd_direction :: "Direction option"
  snd_address :: int
  send_retry_count :: nat
  snd_count_bit :: bool
  snd_flow_control :: bool
  data_flow_queue :: "SendEntry list"
  snd_queue :: "SendEntry list"
  snd_receive_queue :: "bytes list"
  snd_receive_queue_size :: nat
  access_demand_event :: bool
  snd_futures :: "(nat \<times> unit result) list"

definition init_sender :: "Direction option \<Rightarrow> int \<Rightarrow> nat \<Rightarrow> nat \<Rightarrow> LinkSender" where
  "init_sender d addr retries rq =
     \<lparr>snd_direction = d, snd_address = addr, send_retry_count = retries, snd_count_bit = False,
      snd_flow_control = False, data_flow_queue = [], snd_queue = [], snd_receive_queue = [],
      snd_receive_queue_size = rq, access_demand_event = False, snd_futures = []\<rparr>"

definition snd_done :: "LinkSender \<Rightarrow> nat \<Rightarrow> bool" where
  "snd_done s f \<longleftrightarrow> f \<in> set (map fst (snd_futures s))"

definition snd_set :: "nat \<Rightarrow> unit result \<Rightarrow> LinkSender \<Rightarrow> LinkSender" where
  "snd_set f r s = (if snd_done s f then s else s\<lparr>snd_futures := snd_futures s @ [(f, r)]\<rparr>)"

text \<open>The entry that a round takes; \<open>None\<close> where the loop waits for one.\<close>

definition take_send_entry :: "LinkSender \<Rightarrow> (SendEntry \<times> LinkSender) option" where
  "take_send_entry s =
     (case (snd_flow_control s, data_flow_queue s) of
        (False, e # q) \<Rightarrow> Some (e, s\<lparr>data_flow_queue := q\<rparr>)
      | _ \<Rightarrow> (case snd_queue s of [] \<Rightarrow> None | e # q \<Rightarrow> Some (e, s\<lparr>snd_queue := q\<rparr>)))"

definition entry_request :: "SendEntry \<Rightarrow> LinkSender \<Rightarrow> ReqFrame" where
  "entry_request e s =
     \<lparr>req_direction = snd_direction s, frame_count_bit = snd_count_bit s, frame_count_valid = True,
      req_function = se_function e, req_address = snd_address s, req_data = se_data e\<rparr>"

definition flow_control_of :: "Frame option \<Rightarrow> bool" where
  "flow_control_of res = (case res of Some (Res f) \<Rightarrow> data_flow_control f | _ \<Rightarrow> False)"

text \<open>
  One round of \<open>_send_loop\<close>; what is done with a response is the argument \<open>on_response\<close>, the
  only part in which the two classes differ. An exception ends the loop; then the sender is
  returned as the round left it.
\<close>

definition send_round ::
  "(SendEntry \<Rightarrow> Frame option \<Rightarrow> LinkSender \<Rightarrow> LinkSender result) \<Rightarrow> 'w send \<Rightarrow> LinkSender \<Rightarrow> 'w \<Rightarrow>
     (LinkSender \<times> exn option \<times> 'w) option" where
  "send_round on_response send s world =
     (case take_send_entry s of
        None \<Rightarrow> None
      | Some (e, s) \<Rightarrow>
          if snd_flow_control s \<and> se_function e = DATA
          then Some (s\<lparr>data_flow_queue := data_flow_queue s @ [e]\<rparr>, None, world)
          else let s = s\<lparr>snd_count_bit := \<not> snd_count_bit s\<rparr> in
            (case retry_loop send (entry_request e s) (send_retry_count s) 0 world of
               (Inl x, world) \<Rightarrow> Some (s, Some x, world)
             | (Inr res, world) \<Rightarrow>
                 let s = s\<lparr>snd_flow_control := flow_control_of res\<rparr> in
                 (case on_response e res s of
                    Inl x \<Rightarrow> Some (s, Some x, world)
                  | Inr s \<Rightarrow> Some (s, None, world))))"

text \<open>At most \<open>n\<close> rounds; fewer where the loop waits or ends.\<close>

primrec send_rounds ::
  "(SendEntry \<Rightarrow> Frame option \<Rightarrow> LinkSender \<Rightarrow> LinkSender result) \<Rightarrow> 'w send \<Rightarrow> nat \<Rightarrow> LinkSender \<Rightarrow> 'w \<Rightarrow>
     LinkSender \<times> exn option \<times> 'w" where
  "send_rounds on_response send 0 s world = (s, None, world)"
| "send_rounds on_response send (Suc n) s world =
     (case send_round on_response send s world of
        None \<Rightarrow> (s, None, world)
      | Some (s, Some x, world) \<Rightarrow> (s, Some x, world)
      | Some (s, None, world) \<Rightarrow> send_rounds on_response send n s world)"

text \<open>\<open>Connection.send\<close> of both classes: data that is empty is not queued.\<close>

definition conn_send :: "nat \<Rightarrow> bytes \<Rightarrow> LinkSender \<Rightarrow> LinkSender" where
  "conn_send f d s =
     (if d = [] then s
      else s\<lparr>snd_queue := snd_queue s @ [\<lparr>se_future = f, se_function = DATA, se_data = d\<rparr>]\<rparr>)"

text \<open>
  A caller that sends several data, each after the future of the one before is done, and gives up
  at the first exception. Nobody else sends in between.
\<close>

fun send_calls ::
  "(SendEntry \<Rightarrow> Frame option \<Rightarrow> LinkSender \<Rightarrow> LinkSender result) \<Rightarrow> 'w send \<Rightarrow> (nat \<times> bytes) list \<Rightarrow>
     LinkSender \<Rightarrow> 'w \<Rightarrow> unit result \<times> LinkSender \<times> 'w" where
  "send_calls on_response send [] s world = (Ok (), s, world)"
| "send_calls on_response send ((f, d) # ds) s world =
     (if d = [] then send_calls on_response send ds s world
      else case send_rounds on_response send 1 (conn_send f d s) world of
        (s, Some x, world) \<Rightarrow> (Raise ConnectionError, s, world)
      | (s, None, world) \<Rightarrow>
          (case map_of (snd_futures s) f of
             Some (Inr _) \<Rightarrow> send_calls on_response send ds s world
           | Some (Inl x) \<Rightarrow> (Raise x, s, world)
           | None \<Rightarrow> (Raise ConnectionError, s, world)))"

text \<open>The \<open>finally\<close> block: what is still queued gets ConnectionError.\<close>

definition end_sender :: "SendEntry option \<Rightarrow> LinkSender \<Rightarrow> LinkSender" where
  "end_sender current s =
     (let pending = (case current of None \<Rightarrow> [] | Some e \<Rightarrow> [e]) @ snd_queue s @ data_flow_queue s
      in fold (\<lambda>e. snd_set (se_future e) (Raise ConnectionError)) pending
           (s\<lparr>snd_queue := [], data_flow_queue := []\<rparr>))"

text \<open>
  A response handler touches neither the queue to send from nor the frame count bit, and it
  does not turn flow control on.
\<close>

definition response_handler :: "(SendEntry \<Rightarrow> Frame option \<Rightarrow> LinkSender \<Rightarrow> LinkSender result) \<Rightarrow> bool" where
  "response_handler on_response \<longleftrightarrow>
     (\<forall>e res s s'. on_response e res s = Ok s' \<longrightarrow>
        snd_queue s' = snd_queue s \<and> snd_count_bit s' = snd_count_bit s \<and>
        snd_flow_control s' = snd_flow_control s \<and> data_flow_queue s' = data_flow_queue s)"

lemma snd_set_fields [simp]:
  "snd_queue (snd_set f r s) = snd_queue s" "snd_count_bit (snd_set f r s) = snd_count_bit s"
  "snd_flow_control (snd_set f r s) = snd_flow_control s" "data_flow_queue (snd_set f r s) = data_flow_queue s"
  "snd_receive_queue (snd_set f r s) = snd_receive_queue s"
  by (simp_all add: snd_set_def)

text \<open>What a round without flow control did.\<close>

lemma send_round_cases:
  assumes "send_round on_response send s world = Some (s', x, world')"
    and "\<not> snd_flow_control s" "data_flow_queue s = []"
  obtains e q s1 res where "snd_queue s = e # q" "s1 = s\<lparr>snd_queue := q, snd_count_bit := \<not> snd_count_bit s\<rparr>"
    "retry_loop send (entry_request e s1) (send_retry_count s1) 0 world = (res, world')"
    "(\<exists>y. res = Raise y \<and> s' = s1 \<and> x = Some y) \<or>
     (\<exists>r s2. res = Ok r \<and> s2 = s1\<lparr>snd_flow_control := flow_control_of r\<rparr> \<and>
       ((\<exists>y. on_response e r s2 = Raise y \<and> s' = s2 \<and> x = Some y) \<or> on_response e r s2 = Ok s' \<and> x = None))"
proof -
  from assms obtain e q where q: "snd_queue s = e # q"
    by (auto simp: send_round_def take_send_entry_def split: list.splits)
  define s1 where "s1 = s\<lparr>snd_queue := q, snd_count_bit := \<not> snd_count_bit s\<rparr>"
  obtain res w1 where r: "retry_loop send (entry_request e s1) (send_retry_count s1) 0 world = (res, w1)"
    by fastforce
  have t: "take_send_entry s = Some (e, s\<lparr>snd_queue := q\<rparr>)"
    using assms(2,3) q by (simp add: take_send_entry_def)
  have eq: "send_round on_response send s world =
      (case res of
         Inl x \<Rightarrow> Some (s1, Some x, w1)
       | Inr res \<Rightarrow>
           let s = s1\<lparr>snd_flow_control := flow_control_of res\<rparr> in
           (case on_response e res s of
              Inl x \<Rightarrow> Some (s, Some x, w1)
            | Inr s \<Rightarrow> Some (s, None, w1)))"
    using t r assms(2) unfolding s1_def by (simp add: send_round_def Let_def split: sum.split)
  show thesis
    by (rule that [OF q s1_def]) (use r assms(1) eq in \<open>auto simp: Let_def split: sum.splits\<close>)
qed

section \<open>A line that loses frames\<close>

datatype fate = Request_lost | Response_lost | Arrives

text \<open>
  One transmission over the line to a station with the operation \<open>process\<close>. Where no fate is
  left the port is closed.
\<close>

fun line_send :: "(ReqFrame \<Rightarrow> 's \<Rightarrow> Frame option \<times> 's) \<Rightarrow> (fate list \<times> 's) send" where
  "line_send process req ([], s) = (Raise ConnectionError, ([], s))"
| "line_send process req (Request_lost # fates, s) = (Raise TimeoutError, (fates, s))"
| "line_send process req (Response_lost # fates, s) = (Raise TimeoutError, (fates, snd (process req s)))"
| "line_send process req (Arrives # fates, s) = (Ok (fst (process req s)), (fates, snd (process req s)))"

lemma retry_line:
  "retry_loop (line_send process) req limit counter ([], s) = (Raise ConnectionError, ([], s))"
  "retry_loop (line_send process) req limit counter (Request_lost # fates, s) =
     (if counter \<ge> limit then (Raise (Exception ''send retry count exceeded''), (fates, s))
      else retry_loop (line_send process) req limit (counter + 1) (fates, s))"
  "retry_loop (line_send process) req limit counter (Response_lost # fates, s) =
     (if counter \<ge> limit
      then (Raise (Exception ''send retry count exceeded''), (fates, snd (process req s)))
      else retry_loop (line_send process) req limit (counter + 1) (fates, snd (process req s)))"
  "retry_loop (line_send process) req limit counter (Arrives # fates, s) =
     (Ok (fst (process req s)), (fates, snd (process req s)))"
  by (subst retry_loop.simps, simp)+

lemma retry_line_steps:
  "retry_loop (line_send process) req limit counter (Arrives # fates, s) = (Ok (fst (process req s)), (fates, snd (process req s)))"
  "counter < limit \<Longrightarrow> retry_loop (line_send process) req limit counter (Response_lost # fates, s) =
    retry_loop (line_send process) req limit (counter + 1) (fates, snd (process req s))"
  by (simp_all add: retry_line)

definition user_data :: "ReqFrame \<Rightarrow> bytes list" where
  "user_data req =
     (if req_function req \<in> {DATA, DATA_NO_RES} \<and> req_data req \<noteq> [] then [req_data req] else [])"

definition entry_user_data :: "SendEntry \<Rightarrow> bytes list" where
  "entry_user_data e =
     (if se_function e \<in> {DATA, DATA_NO_RES} \<and> se_data e \<noteq> [] then [se_data e] else [])"

section \<open>The contract of a station\<close>

locale responder =
  fixes process :: "ReqFrame \<Rightarrow> 's \<Rightarrow> Frame option \<times> 's"
    and count_bit :: "'s \<Rightarrow> bool option"
    and response :: "'s \<Rightarrow> Frame option"
    and accepted :: "'s \<Rightarrow> bytes list"
  assumes repeated: "frame_count_valid req \<Longrightarrow> count_bit s = Some (frame_count_bit req) \<Longrightarrow>
      process req s = (response s, s)"
    and fresh: "frame_count_valid req \<Longrightarrow> count_bit s \<noteq> Some (frame_count_bit req) \<Longrightarrow>
      process req s = (r, s') \<Longrightarrow>
      count_bit s' = Some (frame_count_bit req) \<and> response s' = r \<and> r \<noteq> None \<and>
      \<not> flow_control_of r \<and> accepted s' = accepted s @ user_data req"
begin

lemma repeated_request:
  assumes "frame_count_valid req" "process req s = (r, s')"
  shows "process req s' = (r, s')"
proof (cases "count_bit s = Some (frame_count_bit req)")
  case True
  with repeated [OF assms(1) True] assms(2) show ?thesis by simp
next
  case False
  with fresh [OF assms(1) False assms(2)] repeated [OF assms(1), of s'] show ?thesis by simp
qed

text \<open>A request that was processed is answered in the same way until a response arrives.\<close>

lemma retry_repeated:
  assumes "frame_count_valid req" "count_bit s = Some (frame_count_bit req)"
    and "retry_loop (line_send process) req limit counter (fates, s) = (res, (fates', s'))"
  shows "s' = s \<and> (\<forall>r. res = Ok r \<longrightarrow> r = response s)"
  using assms(3)
proof (induction fates arbitrary: counter)
  case (Cons f fates)
  with repeated [OF assms(1,2)] show ?case
    by (cases f) (auto simp: retry_line split: if_splits)
qed (auto simp: retry_line)

text \<open>
  Whatever the line loses: a station that has not seen the request before accepts its data at
  most once, and exactly once if a response arrived.
\<close>

lemma transfer_request:
  assumes valid: "frame_count_valid req"
    and new: "count_bit s \<noteq> Some (frame_count_bit req)"
    and run: "retry_loop (line_send process) req limit counter (fates, s) = (res, (fates', s'))"
  shows "s' = s \<and> (\<forall>r. res \<noteq> Ok r) \<or>
    accepted s' = accepted s @ user_data req \<and> count_bit s' = Some (frame_count_bit req) \<and>
    \<not> flow_control_of (response s') \<and> (\<forall>r. res = Ok r \<longrightarrow> r = response s' \<and> r \<noteq> None)"
  using run
proof (induction fates arbitrary: counter)
  case Nil
  then show ?case by (auto simp: retry_line)
next
  case (Cons f fates)
  obtain r1 s1 where p: "process req s = (r1, s1)" by fastforce
  note p1 = fresh [OF valid new p]
  show ?case
  proof (cases f)
    case Request_lost
    with Cons show ?thesis by (auto simp: retry_line split: if_splits)
  next
    case Response_lost
    with Cons.prems p retry_repeated [OF valid, of s1 limit "counter + 1" fates res fates' s'] p1
    show ?thesis by (auto simp: retry_line split: if_splits)
  next
    case Arrives
    with Cons.prems p p1 show ?thesis by (auto simp: retry_line)
  qed
qed

text \<open>What the line did is not seen: either nothing arrived, or the request was processed once.\<close>

lemma retry_once:
  assumes valid: "frame_count_valid req"
    and new: "count_bit s \<noteq> Some (frame_count_bit req)"
    and run: "retry_loop (line_send process) req limit counter (fates, s) = (res, (fates', s'))"
  shows "s' = s \<and> (\<forall>r. res \<noteq> Ok r) \<or>
    s' = snd (process req s) \<and> (\<forall>r. res = Ok r \<longrightarrow> r = fst (process req s))"
  using run
proof (induction fates arbitrary: counter)
  case Nil
  then show ?case by (auto simp: retry_line)
next
  case (Cons f fates)
  obtain r1 s1 where p: "process req s = (r1, s1)" by fastforce
  note p1 = fresh [OF valid new p]
  show ?case
  proof (cases f)
    case Request_lost
    with Cons show ?thesis by (auto simp: retry_line split: if_splits)
  next
    case Response_lost
    with Cons.prems p retry_repeated [OF valid, of s1 limit "counter + 1" fates res fates' s'] p1
    show ?thesis by (auto simp: retry_line split: if_splits)
  next
    case Arrives
    with Cons.prems p show ?thesis by (auto simp: retry_line)
  qed
qed

text \<open>
  \<open>in_step s st\<close>: the sender \<open>s\<close> and the station agree on the frame count bit, as they do
  after RESET_LINK, and no data is held back.
\<close>

definition in_step :: "LinkSender \<Rightarrow> 's \<Rightarrow> bool" where
  "in_step s st \<longleftrightarrow> count_bit st = Some (snd_count_bit s) \<and> \<not> snd_flow_control s \<and> data_flow_queue s = []"

lemma transfer_round:
  assumes "response_handler on_response" "in_step s st"
    and "send_round on_response (line_send process) s (fates, st) = Some (s', x, (fates', st'))"
  obtains e where "snd_queue s = e # snd_queue s'"
    "x = None \<Longrightarrow> in_step s' st' \<and> accepted st' = accepted st @ entry_user_data e"
    "accepted st' = accepted st \<or> accepted st' = accepted st @ entry_user_data e"
proof -
  from assms(2) have step: "count_bit st = Some (snd_count_bit s)" "\<not> snd_flow_control s" "data_flow_queue s = []"
    by (simp_all add: in_step_def)
  from assms(3) step(2,3) obtain e q s1 res where q: "snd_queue s = e # q"
    and s1: "s1 = s\<lparr>snd_queue := q, snd_count_bit := \<not> snd_count_bit s\<rparr>"
    and r: "retry_loop (line_send process) (entry_request e s1) (send_retry_count s1) 0 (fates, st) = (res, (fates', st'))"
    and out: "(\<exists>y. res = Raise y \<and> s' = s1 \<and> x = Some y) \<or>
     (\<exists>r s2. res = Ok r \<and> s2 = s1\<lparr>snd_flow_control := flow_control_of r\<rparr> \<and>
       ((\<exists>y. on_response e r s2 = Raise y \<and> s' = s2 \<and> x = Some y) \<or> on_response e r s2 = Ok s' \<and> x = None))"
    by (rule send_round_cases)
  define req where "req = entry_request e s1"
  have req: "frame_count_valid req" "count_bit st \<noteq> Some (frame_count_bit req)"
    "frame_count_bit req = snd_count_bit s1" "user_data req = entry_user_data e"
    using step s1 by (auto simp: req_def entry_request_def user_data_def entry_user_data_def)
  note T = transfer_request [OF req(1,2) r [folded req_def]]
  from out consider (raised) y where "res = Raise y" "s' = s1" "x = Some y"
    | (answered) rr s2 where "res = Ok rr" "s2 = s1\<lparr>snd_flow_control := flow_control_of rr\<rparr>"
      "(\<exists>y. on_response e rr s2 = Raise y \<and> s' = s2 \<and> x = Some y) \<or> on_response e rr s2 = Ok s' \<and> x = None"
    by blast
  then show thesis
  proof cases
    case raised
    with T q s1 req that show thesis by auto
  next
    case (answered rr s2)
    note rr = answered(1) and s2 = answered(2) and o = answered(3)
    from T rr have flow: "\<not> flow_control_of rr" "accepted st' = accepted st @ user_data req"
      "count_bit st' = Some (frame_count_bit req)" by auto
    from o assms(1) have "snd_queue s' = snd_queue s2 \<and> snd_count_bit s' = snd_count_bit s2 \<and>
      snd_flow_control s' = snd_flow_control s2 \<and> data_flow_queue s' = data_flow_queue s2"
      unfolding response_handler_def by metis
    with flow q s1 s2 req step(3) that show thesis by (simp add: in_step_def)
  qed
qed

text \<open>
  Any number of rounds over any line: what the station accepted is the data of the entries
  taken from the queue, in order and once each. Only the entry in whose round the loop ended
  may be missing.
\<close>

lemma transfer_rounds:
  assumes "response_handler on_response" "in_step s st"
    and "send_rounds on_response (line_send process) n s (fates, st) = (s', x, (fates', st'))"
  shows "\<exists>es. snd_queue s = es @ snd_queue s' \<and>
    (accepted st' = accepted st @ concat (map entry_user_data es) \<or>
     x \<noteq> None \<and> es \<noteq> [] \<and> accepted st' = accepted st @ concat (map entry_user_data (butlast es))) \<and>
    (x = None \<longrightarrow> in_step s' st')"
  using assms(2,3)
proof (induction n arbitrary: s st fates)
  case 0
  then show ?case by simp
next
  case (Suc n)
  show ?case
  proof (cases "send_round on_response (line_send process) s (fates, st)")
    case None
    with Suc.prems show ?thesis by simp
  next
    case (Some a)
    then obtain s1 y fs1 st1 where a: "send_round on_response (line_send process) s (fates, st) = Some (s1, y, (fs1, st1))"
      by (cases a) auto
    obtain e where e: "snd_queue s = e # snd_queue s1"
      "y = None \<Longrightarrow> in_step s1 st1 \<and> accepted st1 = accepted st @ entry_user_data e"
      "accepted st1 = accepted st \<or> accepted st1 = accepted st @ entry_user_data e"
      using transfer_round [OF assms(1) Suc.prems(1) a] by blast
    show ?thesis
    proof (cases y)
      case (Some z)
      with Suc.prems(2) a have "s' = s1" "x = y" "st' = st1" by auto
      with e Some show ?thesis by (intro exI [of _ "[e]"]) auto
    next
      case None
      with Suc.prems(2) a have "send_rounds on_response (line_send process) n s1 (fs1, st1) = (s', x, (fates', st'))"
        by simp
      from Suc.IH [OF conjunct1 [OF e(2) [OF None]] this] obtain es where
        "snd_queue s1 = es @ snd_queue s'"
        "accepted st' = accepted st1 @ concat (map entry_user_data es) \<or>
         x \<noteq> None \<and> es \<noteq> [] \<and> accepted st' = accepted st1 @ concat (map entry_user_data (butlast es))"
        "x = None \<longrightarrow> in_step s' st'" by blast
      with e(1) e(2) [OF None] show ?thesis by (intro exI [of _ "e # es"]) auto
    qed
  qed
qed

text \<open>
  A caller that sends data one by one: the station accepted the first of them, in order and once
  each, and all of them if there was no exception.
\<close>

lemma transfer_calls:
  assumes "response_handler on_response" "in_step s st" "snd_queue s = []" "\<forall>(f, d)\<in>set ds. d \<noteq> []"
    and "send_calls on_response (line_send process) ds s (fates, st) = (res, s', (fates', st'))"
  shows "\<exists>n. accepted st' = accepted st @ map snd (take n ds) \<and> (res = Ok () \<longrightarrow> length ds \<le> n)"
  using assms(2-)
proof (induction ds arbitrary: s st fates)
  case (Cons a ds)
  obtain f d where a: "a = (f, d)" by fastforce
  define s1 where "s1 = conn_send f d s"
  have d: "d \<noteq> []" using Cons.prems(3) a by simp
  then have q: "snd_queue s1 = [\<lparr>se_future = f, se_function = DATA, se_data = d\<rparr>]" and step: "in_step s1 st"
    using Cons.prems(1,2) by (simp_all add: s1_def conn_send_def in_step_def)
  obtain s2 x fs st2 where r: "send_round on_response (line_send process) s1 (fates, st) = Some (s2, x, (fs, st2))"
  proof (cases "send_round on_response (line_send process) s1 (fates, st)")
    case None
    with q step show thesis
      by (auto simp: send_round_def take_send_entry_def in_step_def Let_def split: prod.splits sum.splits)
  next
    case (Some r)
    with that show thesis by (cases r) auto
  qed
  obtain e where e: "snd_queue s1 = e # snd_queue s2"
    "x = None \<Longrightarrow> in_step s2 st2 \<and> accepted st2 = accepted st @ entry_user_data e"
    "accepted st2 = accepted st \<or> accepted st2 = accepted st @ entry_user_data e"
    using transfer_round [OF assms(1) step r] by blast
  with q have u: "entry_user_data e = [d]" "snd_queue s2 = []" using d by (auto simp: entry_user_data_def)
  have calls: "send_calls on_response (line_send process) (a # ds) s (fates, st) =
      (case x of
         Some x \<Rightarrow> (Raise ConnectionError, s2, (fs, st2))
       | None \<Rightarrow>
           (case map_of (snd_futures s2) f of
              Some (Inr _) \<Rightarrow> send_calls on_response (line_send process) ds s2 (fs, st2)
            | Some (Inl x) \<Rightarrow> (Raise x, s2, (fs, st2))
            | None \<Rightarrow> (Raise ConnectionError, s2, (fs, st2))))"
    using r d by (simp add: a s1_def split: option.split)
  show ?case
  proof (cases "x = None \<and> (\<exists>u. map_of (snd_futures s2) f = Some (Inr u))")
    case True
    with calls Cons.prems(4) have "send_calls on_response (line_send process) ds s2 (fs, st2) = (res, s', (fates', st'))"
      by auto
    from Cons.IH [OF _ u(2) _ this] e(2) True Cons.prems(3) obtain n where
      "accepted st' = accepted st2 @ map snd (take n ds)" "res = Ok () \<longrightarrow> length ds \<le> n" by auto
    with e(2) True u a show ?thesis by (intro exI [of _ "Suc n"]) auto
  next
    case False
    with calls Cons.prems(4) have "st' = st2" "res \<noteq> Ok ()"
      by (auto split: option.splits sum.splits)
    with e(3) u a show ?thesis
      by (auto intro: exI [of _ 0] exI [of _ 1])
  qed
qed simp

end

end
