(* ===== verification/Link_Balanced.thy ===== *)
theory Link_Balanced
  imports Link_Station
begin

text \<open>
  The balanced link, from \<^verbatim>\<open>iec60870/link/balanced.py\<close>: connections as stations
  (\<open>BalancedConnection._process\<close>) and as senders (\<open>BalancedConnection._send_loop\<close>), the
  dispatch of requests by direction and address, and the opening of a connection.
\<close>

section \<open>The station\<close>

record BalancedConnection =
  bal_is_open :: bool
  bal_direction :: Direction
  bal_address :: int
  bal_count_bit :: "bool option"
  bal_res :: "Frame option"
  bal_receive_queue :: "bytes list"

definition init_balanced :: "Direction \<Rightarrow> int \<Rightarrow> BalancedConnection" where
  "init_balanced d addr =
     \<lparr>bal_is_open = True, bal_direction = d, bal_address = addr, bal_count_bit = None,
      bal_res = None, bal_receive_queue = []\<rparr>"

definition balanced_process :: "ReqFrame \<Rightarrow> BalancedConnection \<Rightarrow> Frame option \<times> BalancedConnection" where
  "balanced_process req c =
     (if frame_count_valid req \<and> Some (frame_count_bit req) = bal_count_bit c
      then (bal_res c, c)
      else
        let c = (if frame_count_valid req then c\<lparr>bal_count_bit := Some (frame_count_bit req)\<rparr> else c);
            (function, c) =
              (case req_function req of
                 RESET_LINK \<Rightarrow> (ACK, if \<not> frame_count_valid req then c\<lparr>bal_count_bit := Some False\<rparr> else c)
               | RESET_PROCESS \<Rightarrow> (ACK, if \<not> frame_count_valid req then c\<lparr>bal_count_bit := Some False\<rparr> else c)
               | TEST \<Rightarrow> (ACK, c)
               | DATA \<Rightarrow> (ACK, if req_data req \<noteq> []
                    then c\<lparr>bal_receive_queue := bal_receive_queue c @ [req_data req]\<rparr> else c)
               | DATA_NO_RES \<Rightarrow> (ACK, if req_data req \<noteq> []
                    then c\<lparr>bal_receive_queue := bal_receive_queue c @ [req_data req]\<rparr> else c)
               | REQ_STATUS \<Rightarrow> (RES_STATUS, c)
               | _ \<Rightarrow> (NOT_IMPLEMENTED, c));
            res = (if function = ACK then ShortFrame
                   else Res \<lparr>res_direction = Some (bal_direction c), access_demand = False,
                             data_flow_control = False, res_function = function,
                             res_address = bal_address c, res_data = []\<rparr>)
        in (Some res, c\<lparr>bal_res := Some res\<rparr>))"

interpretation bal: responder balanced_process bal_count_bit bal_res bal_receive_queue
proof unfold_locales
  fix req :: ReqFrame and c :: BalancedConnection
  assume "frame_count_valid req" "bal_count_bit c = Some (frame_count_bit req)"
  then show "balanced_process req c = (bal_res c, c)" by (simp add: balanced_process_def)
next
  fix req :: ReqFrame and c c' :: BalancedConnection and r
  assume "frame_count_valid req" "bal_count_bit c \<noteq> Some (frame_count_bit req)"
    and "balanced_process req c = (r, c')"
  then show "bal_count_bit c' = Some (frame_count_bit req) \<and> bal_res c' = r \<and> r \<noteq> None \<and>
      \<not> flow_control_of r \<and> bal_receive_queue c' = bal_receive_queue c @ user_data req"
    by (cases "req_function req")
      (auto simp: balanced_process_def Let_def user_data_def flow_control_of_def split: if_splits)
qed

text \<open>After RESET_LINK a station expects the first bit that a sender uses.\<close>

lemma balanced_reset:
  assumes "req_function req = RESET_LINK" "\<not> frame_count_valid req"
  shows "balanced_process req c = (Some ShortFrame, c\<lparr>bal_count_bit := Some False, bal_res := Some ShortFrame\<rparr>)"
  using assms by (simp add: balanced_process_def)

section \<open>The link\<close>

definition invert_direction :: "Direction \<Rightarrow> Direction" where
  "invert_direction d = (case d of B_TO_A \<Rightarrow> A_TO_B | A_TO_B \<Rightarrow> B_TO_A)"

text \<open>
  The table of connections of a link, in which a closed connection is no longer found. A
  request whose direction is \<open>None\<close> cannot come from the encoder of this link.
\<close>

type_synonym Conns = "((Direction \<times> int) \<times> BalancedConnection) list"

definition update_conn :: "Direction \<times> int \<Rightarrow> BalancedConnection \<Rightarrow> Conns \<Rightarrow> Conns" where
  "update_conn k c conns = map (\<lambda>(k', c'). if k' = k then (k', c) else (k', c')) conns"

definition link_process :: "ReqFrame \<Rightarrow> Conns \<Rightarrow> (Frame list \<times> Conns) result" where
  "link_process req conns =
     (case req_direction req of
        None \<Rightarrow> Raise (ValueError ''unsupported direction'')
      | Some d \<Rightarrow>
          let key = (invert_direction d, req_address req) in
          (case map_of conns key of
             None \<Rightarrow> Ok ([], conns)
           | Some c \<Rightarrow>
               if \<not> bal_is_open c then Ok ([], conns)
               else let (res, c) = balanced_process req c; conns = update_conn key c conns in
                 if req_function req = DATA_NO_RES then Ok ([], conns)
                 else (case res of
                         None \<Rightarrow> Raise (AttributeError ''NoneType object has no attribute direction'')
                       | Some res \<Rightarrow> Ok ([res], conns))))"

text \<open>
  One message in \<open>_receive_loop\<close>: a request is processed; a response is given to the request
  that waits for one. \<open>res_future\<close> is \<open>None\<close> where nothing waits, and holds the response once
  it is there.
\<close>

definition receive_message ::
  "Frame \<Rightarrow> Conns \<Rightarrow> Frame option option \<Rightarrow> (Frame list \<times> Conns \<times> Frame option option) result" where
  "receive_message msg conns res_future =
     (case msg of
        Req req \<Rightarrow> bindE (link_process req conns) (\<lambda>(out, conns). Ok (out, conns, res_future))
      | _ \<Rightarrow> Ok ([], conns, if res_future = Some None then Some (Some msg) else res_future))"

section \<open>The sender\<close>

definition balanced_on_response :: "SendEntry \<Rightarrow> Frame option \<Rightarrow> LinkSender \<Rightarrow> LinkSender result" where
  "balanced_on_response e res s =
     Ok (if snd_done s (se_future e) then s
         else case res of
           Some ShortFrame \<Rightarrow> snd_set (se_future e) (Ok ()) s
         | Some (Res f) \<Rightarrow>
             if res_function f \<in> {ACK, RES_STATUS} then snd_set (se_future e) (Ok ()) s
             else snd_set (se_future e) (Raise (Exception ''received another function'')) s
         | _ \<Rightarrow> snd_set (se_future e) (Raise (Exception ''unexpected response'')) s)"

definition balanced_send_rounds ::
  "'w send \<Rightarrow> nat \<Rightarrow> LinkSender \<Rightarrow> 'w \<Rightarrow> LinkSender \<times> exn option \<times> 'w" where
  "balanced_send_rounds = send_rounds balanced_on_response"

text \<open>\<open>_status_loop\<close> queues a status request where nothing was sent for a while.\<close>

definition status_request :: "nat \<Rightarrow> LinkSender \<Rightarrow> LinkSender" where
  "status_request f s =
     s\<lparr>snd_queue := snd_queue s @ [\<lparr>se_future = f, se_function = REQ_STATUS, se_data = []\<rparr>]\<rparr>"

lemma balanced_on_response_handler: "response_handler balanced_on_response"
  by (auto simp: response_handler_def balanced_on_response_def split: option.splits Frame.splits if_splits)

section \<open>Opening a connection\<close>

definition reset_request :: "Direction option \<Rightarrow> int \<Rightarrow> ReqFrame" where
  "reset_request d addr =
     \<lparr>req_direction = d, frame_count_bit = False, frame_count_valid = False,
      req_function = RESET_LINK, req_address = addr, req_data = []\<rparr>"

definition reset_confirmed :: "Frame option \<Rightarrow> bool" where
  "reset_confirmed res \<longleftrightarrow>
     (case res of Some ShortFrame \<Rightarrow> True | Some (Res f) \<Rightarrow> res_function f = ACK | _ \<Rightarrow> False)"

text \<open>
  The loop of \<open>open_connection\<close> repeats RESET_LINK until it is confirmed. \<open>None\<close>: not within
  \<open>n\<close> transmissions.
\<close>

primrec open_loop :: "'w send \<Rightarrow> ReqFrame \<Rightarrow> nat \<Rightarrow> 'w \<Rightarrow> (unit result \<times> 'w) option" where
  "open_loop send req 0 world = None"
| "open_loop send req (Suc n) world =
     (case send req world of
        (Inr res, world) \<Rightarrow> if reset_confirmed res then Some (Ok (), world) else open_loop send req n world
      | (Inl e, world) \<Rightarrow> if e = TimeoutError then open_loop send req n world else Some (Raise e, world))"

definition check_open :: "AddressSize \<Rightarrow> Direction \<Rightarrow> int \<Rightarrow> Conns \<Rightarrow> unit result" where
  "check_open sz d addr conns =
     (if addr \<ge> push_bit (AddressSize_value sz * 8) 1 then Raise (ValueError ''unsupported address'')
      else if (d, addr) \<in> set (map fst conns) then Raise (Exception ''connection already exists'')
      else Ok ())"

lemma open_loop_reset:
  assumes "open_loop (line_send balanced_process) (reset_request d addr) n (fates, c) = Some (Ok (), (fates', c'))"
  shows "bal_count_bit c' = Some False \<and> bal_receive_queue c' = bal_receive_queue c"
  using assms
proof (induction n arbitrary: fates c)
  case (Suc n)
  have reset: "balanced_process (reset_request d addr) c =
      (Some ShortFrame, c\<lparr>bal_count_bit := Some False, bal_res := Some ShortFrame\<rparr>)" for c
    by (rule balanced_reset) (simp_all add: reset_request_def)
  show ?case
  proof (cases fates)
    case (Cons f fs)
    with Suc reset show ?thesis
      by (cases f) (auto simp: reset_confirmed_def)
  qed (use Suc.prems in simp)
qed simp

text \<open>
  From the opening of a connection on, over any line: the remote side queues the data that
  was sent, in order and once each, and only the message in transfer when the loop ended may
  be missing.
\<close>

lemma balanced_transfer:
  assumes opened: "open_loop (line_send balanced_process) (reset_request (Some d) addr) m (fates, c) = Some (Ok (), (fates1, c1))"
    and queued: "s = (init_sender (Some d) addr retries rq)\<lparr>snd_queue := es\<rparr>"
    and sent: "balanced_send_rounds (line_send balanced_process) n s (fates1, c1) = (s', x, (fates2, c2))"
  shows "\<exists>es1. es = es1 @ snd_queue s' \<and>
    (bal_receive_queue c2 = bal_receive_queue c @ concat (map entry_user_data es1) \<or>
     x \<noteq> None \<and> es1 \<noteq> [] \<and>
     bal_receive_queue c2 = bal_receive_queue c @ concat (map entry_user_data (butlast es1)))"
proof -
  note o = open_loop_reset [OF opened]
  have "bal.in_step s c1" using o queued by (simp add: bal.in_step_def init_sender_def)
  from bal.transfer_rounds [OF balanced_on_response_handler this sent [unfolded balanced_send_rounds_def]]
  show ?thesis using o queued by (auto simp: init_sender_def)
qed

section \<open>Properties\<close>

text \<open>
  C8: over a line that loses any requests and responses, from the opening of a balanced
  connection on, the remote side queues exactly the data of the entries that the sender has
  taken from its queue, in order and once each; only the entry in transfer when the sender ended
  with an error may be missing.
\<close>

theorem balanced_exactly_once:
  assumes "open_loop (line_send balanced_process) (reset_request (Some d) addr) m (fates, c) = Some (Ok (), (fates1, c1))"
    and "balanced_send_rounds (line_send balanced_process) n
      ((init_sender (Some d) addr retries rq)\<lparr>snd_queue := es\<rparr>) (fates1, c1) = (s', x, (fates2, c2))"
  shows "\<exists>taken. es = taken @ snd_queue s' \<and>
    (bal_receive_queue c2 = bal_receive_queue c @ concat (map entry_user_data taken) \<or>
     x \<noteq> None \<and> taken \<noteq> [] \<and>
     bal_receive_queue c2 = bal_receive_queue c @ concat (map entry_user_data (butlast taken)))"
  using balanced_transfer [OF assms(1) refl assms(2)] .

lemma balanced_exactly_once_witness:
  defines "c \<equiv> init_balanced B_TO_A 5" and "e \<equiv> \<lparr>se_future = 0, se_function = DATA, se_data = [1, 2]\<rparr>"
  defines "s \<equiv> (init_sender (Some B_TO_A) 5 3 0)\<lparr>snd_queue := [e]\<rparr>"
  shows "\<exists>c1 s' c2. open_loop (line_send balanced_process) (reset_request (Some B_TO_A) 5) 2
        ([Response_lost, Arrives, Response_lost, Arrives], c) = Some (Ok (), ([Response_lost, Arrives], c1)) \<and>
      balanced_send_rounds (line_send balanced_process) 1 s ([Response_lost, Arrives], c1) = (s', None, ([], c2)) \<and>
      bal_receive_queue c2 = [[1, 2]]"
proof -
  have "\<exists>c1. open_loop (line_send balanced_process) (reset_request (Some B_TO_A) 5) 2
      ([Response_lost, Arrives, Response_lost, Arrives], c) = Some (Ok (), ([Response_lost, Arrives], c1)) \<and>
      c1 = c\<lparr>bal_count_bit := Some False, bal_res := Some ShortFrame\<rparr>"
    by (simp add: numeral_2_eq_2 balanced_reset reset_request_def reset_confirmed_def)
  then obtain c1 where o: "open_loop (line_send balanced_process) (reset_request (Some B_TO_A) 5) 2
      ([Response_lost, Arrives, Response_lost, Arrives], c) = Some (Ok (), ([Response_lost, Arrives], c1))"
    and c1: "c1 = c\<lparr>bal_count_bit := Some False, bal_res := Some ShortFrame\<rparr>" by blast
  have "\<exists>s' c2. balanced_send_rounds (line_send balanced_process) 1 s ([Response_lost, Arrives], c1) = (s', None, ([], c2)) \<and> snd_queue s' = []"
    unfolding c1 c_def s_def e_def
    by (simp add: balanced_send_rounds_def send_round_def take_send_entry_def init_sender_def entry_request_def retry_line_steps
        balanced_process_def init_balanced_def Let_def balanced_on_response_def snd_done_def snd_set_def)
  then obtain s' c2 where r: "balanced_send_rounds (line_send balanced_process) 1 s ([Response_lost, Arrives], c1) = (s', None, ([], c2))"
    and q: "snd_queue s' = []" by blast
  from balanced_exactly_once [OF o r [unfolded s_def]] q have "bal_receive_queue c2 = [[1, 2]]"
    by (simp add: c_def init_balanced_def e_def entry_user_data_def)
  with o r show ?thesis by blast
qed

end
