(* ===== verification/Link_Slave.thy ===== *)
theory Link_Slave
  imports Link_Station
begin

text \<open>
  The unbalanced slave, from \<^verbatim>\<open>iec60870/link/unbalanced/slave.py\<close>: connections as stations
  (\<open>SlaveConnection._process\<close>) and the loop that dispatches requests, to one connection or to
  all of them (\<open>SlaveLink._receive_loop\<close>). What the callback for class 2 data returns is an
  argument: \<open>None\<close> where there is no callback or it returned \<open>None\<close>.
\<close>

section \<open>The station\<close>

record SlaveConnection =
  slv_is_open :: bool
  slv_active :: bool
  slv_address :: int
  slv_count_bit :: "bool option"
  slv_res :: "Frame option"
  slv_keep_alive :: bool
  slv_send_queue :: "(bytes \<times> nat option) list"
  slv_receive_queue :: "bytes list"

definition init_slave :: "int \<Rightarrow> SlaveConnection" where
  "init_slave addr =
     \<lparr>slv_is_open = True, slv_active = False, slv_address = addr, slv_count_bit = None,
      slv_res = None, slv_keep_alive = False, slv_send_queue = [], slv_receive_queue = []\<rparr>"

text \<open>
  The response function, its data and the callback of the message sent with it, and the
  connection after: the chain of tests in \<open>_process\<close>.
\<close>

definition slave_function ::
  "bytes option \<Rightarrow> ReqFrame \<Rightarrow> SlaveConnection \<Rightarrow> (ResFunction \<times> bytes \<times> nat option) \<times> SlaveConnection" where
  "slave_function class2 req c =
     (let reset = (if \<not> frame_count_valid req then c\<lparr>slv_count_bit := Some False\<rparr> else c);
          put = (if req_data req \<noteq> [] then c\<lparr>slv_receive_queue := slv_receive_queue c @ [req_data req]\<rparr> else c);
          pop = (case slv_send_queue c of
                   [] \<Rightarrow> ((RES_NACK, [], None), c)
                 | (d, cb) # q \<Rightarrow> ((RES_DATA, d, cb), c\<lparr>slv_send_queue := q\<rparr>))
      in case req_function req of
           RESET_LINK \<Rightarrow> ((ACK, [], None), reset)
         | RESET_PROCESS \<Rightarrow> ((ACK, [], None), reset)
         | DATA \<Rightarrow> ((ACK, [], None), put)
         | DATA_NO_RES \<Rightarrow> ((ACK, [], None), put)
         | REQ_ACCESS_DEMAND \<Rightarrow> ((RES_NACK, [], None), c)
         | REQ_STATUS \<Rightarrow> ((RES_STATUS, [], None), c)
         | REQ_DATA_1 \<Rightarrow> pop
         | REQ_DATA_2 \<Rightarrow> (case class2 of None \<Rightarrow> pop | Some d \<Rightarrow> ((RES_DATA, d, None), c))
         | TEST \<Rightarrow> ((NOT_IMPLEMENTED, [], None), c))"

text \<open>\<open>_process\<close> behind the marking of the connection as alive.\<close>

definition slave_respond ::
  "bytes option \<Rightarrow> ReqFrame \<Rightarrow> SlaveConnection \<Rightarrow> (Frame option \<times> nat option) \<times> SlaveConnection" where
  "slave_respond class2 req c =
     (if frame_count_valid req \<and> Some (frame_count_bit req) = slv_count_bit c
      then ((slv_res c, None), c)
      else
        let c = (if frame_count_valid req then c\<lparr>slv_count_bit := Some (frame_count_bit req)\<rparr> else c);
            ((function, data, sent_cb), c) = slave_function class2 req c;
            demand = (slv_send_queue c \<noteq> []);
            res = (if \<not> demand \<and> function \<in> {ACK, RES_NACK} then ShortFrame
                   else Res \<lparr>res_direction = None, access_demand = demand,
                             data_flow_control = False, res_function = function,
                             res_address = slv_address c, res_data = data\<rparr>)
        in ((Some res, sent_cb), c\<lparr>slv_res := Some res\<rparr>))"

definition slave_process ::
  "bytes option \<Rightarrow> ReqFrame \<Rightarrow> SlaveConnection \<Rightarrow> (Frame option \<times> nat option) \<times> SlaveConnection" where
  "slave_process class2 req c = slave_respond class2 req (c\<lparr>slv_keep_alive := True, slv_active := True\<rparr>)"

text \<open>\<open>SlaveConnection.send\<close>: data that is empty is not queued.\<close>

definition slave_send :: "bytes \<Rightarrow> nat option \<Rightarrow> SlaveConnection \<Rightarrow> SlaveConnection" where
  "slave_send d cb c = (if d = [] then c else c\<lparr>slv_send_queue := slv_send_queue c @ [(d, cb)]\<rparr>)"

text \<open>\<open>_keep_alive_loop\<close>: at each expiry the connection was used, or it is closed.\<close>

definition slave_keep_alive :: "SlaveConnection \<Rightarrow> SlaveConnection" where
  "slave_keep_alive c = (if slv_keep_alive c then c\<lparr>slv_keep_alive := False\<rparr> else c\<lparr>slv_is_open := False\<rparr>)"

section \<open>The contract\<close>

text \<open>
  Only the response goes back over the line. A connection that is in use is already marked as
  active and alive.
\<close>

definition slave_station :: "bytes option \<Rightarrow> ReqFrame \<Rightarrow> SlaveConnection \<Rightarrow> Frame option \<times> SlaveConnection" where
  "slave_station class2 req c = (let ((res, _), c) = slave_respond class2 req c in (res, c))"

lemma slave_function_fields:
  assumes "slave_function class2 req c = ((f, d, cb), c')"
  shows "frame_count_valid req \<Longrightarrow> slv_count_bit c' = slv_count_bit c"
    and "slv_receive_queue c' = slv_receive_queue c @ user_data req"
    and "slv_address c' = slv_address c"
    and "slv_send_queue c' = slv_send_queue c \<or> f = RES_DATA \<and> slv_send_queue c = (d, cb) # slv_send_queue c'"
  using assms
  by (cases "req_function req"; auto simp: slave_function_def Let_def user_data_def
      split: if_splits list.splits option.splits)+

interpretation slv: responder "slave_station class2" slv_count_bit slv_res slv_receive_queue for class2
proof unfold_locales
  fix req :: ReqFrame and c :: SlaveConnection
  assume "frame_count_valid req" "slv_count_bit c = Some (frame_count_bit req)"
  then show "slave_station class2 req c = (slv_res c, c)"
    by (simp add: slave_station_def slave_respond_def)
next
  fix req :: ReqFrame and c c' :: SlaveConnection and r
  assume a: "frame_count_valid req" "slv_count_bit c \<noteq> Some (frame_count_bit req)"
    "slave_station class2 req c = (r, c')"
  obtain f d cb c1 where c1: "slave_function class2 req (c\<lparr>slv_count_bit := Some (frame_count_bit req)\<rparr>) = ((f, d, cb), c1)"
    by (metis prod.exhaust)
  from slave_function_fields [OF c1] a c1
  show "slv_count_bit c' = Some (frame_count_bit req) \<and> slv_res c' = r \<and> r \<noteq> None \<and>
      \<not> flow_control_of r \<and> slv_receive_queue c' = slv_receive_queue c @ user_data req"
    by (auto simp: slave_station_def slave_respond_def Let_def flow_control_of_def split: if_splits)
qed

text \<open>
  A message leaves the send queue only into a response with its data, and the access demand
  bit of every new response tells whether messages are left.
\<close>

lemma slave_response:
  assumes "slave_respond class2 req c = ((Some res, cb), c')"
    and "\<not> (frame_count_valid req \<and> slv_count_bit c = Some (frame_count_bit req))"
  shows "slv_send_queue c' = slv_send_queue c \<or>
      (\<exists>d. slv_send_queue c = (d, cb) # slv_send_queue c' \<and>
        (\<exists>f. res = Res f \<and> res_function f = RES_DATA \<and> res_data f = d))"
    and "(case res of Res f \<Rightarrow> access_demand f | _ \<Rightarrow> False) = (slv_send_queue c' \<noteq> [])"
proof -
  let ?c = "if frame_count_valid req then c\<lparr>slv_count_bit := Some (frame_count_bit req)\<rparr> else c"
  obtain f d cb' c1 where c1: "slave_function class2 req ?c = ((f, d, cb'), c1)"
    by (metis prod.exhaust)
  with assms have r: "res = (if slv_send_queue c1 = [] \<and> f \<in> {ACK, RES_NACK} then ShortFrame
      else Res \<lparr>res_direction = None, access_demand = (slv_send_queue c1 \<noteq> []), data_flow_control = False,
        res_function = f, res_address = slv_address c1, res_data = d\<rparr>)" "cb = cb'"
    "slv_send_queue c' = slv_send_queue c1"
    by (auto simp: slave_respond_def Let_def split: if_splits)
  from slave_function_fields(4) [OF c1] r
  show "slv_send_queue c' = slv_send_queue c \<or>
      (\<exists>d. slv_send_queue c = (d, cb) # slv_send_queue c' \<and>
        (\<exists>f. res = Res f \<and> res_function f = RES_DATA \<and> res_data f = d))"
    by (auto split: if_splits)
  show "(case res of Res f \<Rightarrow> access_demand f | _ \<Rightarrow> False) = (slv_send_queue c' \<noteq> [])"
    using r by simp
qed

section \<open>The link\<close>

text \<open>
  \<open>_receive_loop\<close> for one request: the connections it is for process it in turn; the responses
  are sent unless the request was broadcast or asks for none. \<open>class2\<close> gives what the
  callback of a connection returns. The result holds the frames written, the callbacks called
  and the table.
\<close>

definition slave_turn ::
  "int \<Rightarrow> (int \<Rightarrow> bytes option) \<Rightarrow> ReqFrame \<Rightarrow> SlaveConnection \<Rightarrow> (Frame list \<times> nat list \<times> SlaveConnection) result" where
  "slave_turn broadcast class2 req c =
     (if \<not> slv_is_open c then Ok ([], [], c)
      else let ((res, sent_cb), c) = slave_process (class2 (slv_address c)) req c in
        if req_address req = broadcast \<or> req_function req = DATA_NO_RES then Ok ([], [], c)
        else (case res of
                None \<Rightarrow> Raise (AttributeError ''NoneType object has no attribute direction'')
              | Some res \<Rightarrow> Ok ([res], (case sent_cb of None \<Rightarrow> [] | Some cb \<Rightarrow> [cb]), c)))"

fun slave_receive ::
  "int \<Rightarrow> (int \<Rightarrow> bytes option) \<Rightarrow> Frame \<Rightarrow> (int \<times> SlaveConnection) list \<Rightarrow>
     (Frame list \<times> nat list \<times> (int \<times> SlaveConnection) list) result" where
  "slave_receive broadcast class2 frame [] = Ok ([], [], [])"
| "slave_receive broadcast class2 frame ((addr, c) # conns) =
     (case frame of
        Req req \<Rightarrow>
          if req_address req = broadcast \<or> req_address req = addr
          then bindE (slave_turn broadcast class2 req c) (\<lambda>(out, cbs, c).
               bindE (slave_receive broadcast class2 frame conns) (\<lambda>(out', cbs', conns).
                 Ok (out @ out', cbs @ cbs', (addr, c) # conns)))
          else bindE (slave_receive broadcast class2 frame conns) (\<lambda>(out, cbs, conns).
                 Ok (out, cbs, (addr, c) # conns))
      | _ \<Rightarrow> Ok ([], [], (addr, c) # conns))"

lemma slave_broadcast_silent:
  assumes "slave_receive broadcast class2 (Req req) conns = Ok (out, cbs, conns')"
    and "req_address req = broadcast \<or> req_function req = DATA_NO_RES"
  shows "out = [] \<and> cbs = []"
  using assms(1)
proof (induction conns arbitrary: out cbs conns')
  case (Cons a conns)
  have "slave_turn broadcast class2 req c = Ok (o1, c1, c') \<Longrightarrow> o1 = [] \<and> c1 = []" for c o1 c1 c'
    using assms(2) by (auto simp: slave_turn_def split: if_splits prod.splits)
  with Cons show ?case by (cases a) (fastforce split: if_splits)
qed simp

lemma slave_receive_keys:
  "slave_receive broadcast class2 frame conns = Ok (out, cbs, conns') \<Longrightarrow> map fst conns' = map fst conns"
proof (induction conns arbitrary: out cbs conns')
  case (Cons a conns)
  then show ?case by (cases a; cases frame) (fastforce split: if_splits)+
qed simp

text \<open>A request for one address leaves the other connections alone and is answered once.\<close>

lemma slave_unicast:
  assumes "distinct (map fst conns)" "req_address req = addr" "addr \<noteq> broadcast"
    and "slave_receive broadcast class2 (Req req) conns = Ok (out, cbs, conns')"
  shows "(\<forall>a. a \<noteq> addr \<longrightarrow> map_of conns' a = map_of conns a) \<and> length out \<le> 1"
  using assms(1,4)
proof (induction conns arbitrary: out cbs conns')
  case (Cons x conns)
  obtain a c where x: "x = (a, c)" by fastforce
  have turn: "slave_turn broadcast class2 req c = Ok (o1, c1, c') \<Longrightarrow> length o1 \<le> 1" for o1 c1 c'
    by (auto simp: slave_turn_def split: if_splits prod.splits option.splits)
  have silent: "slave_receive broadcast class2 (Req req) cs = Ok (o2, c2, cs') \<Longrightarrow> addr \<notin> set (map fst cs) \<Longrightarrow>
      o2 = [] \<and> cs' = cs" for cs o2 c2 cs'
    using assms(2,3) by (induction cs arbitrary: o2 c2 cs') (auto split: if_splits)
  show ?case
  proof (cases "a = addr")
    case True
    with Cons.prems x assms(2) obtain o1 c1 c' o2 c2 cs' where
      "slave_turn broadcast class2 req c = Ok (o1, c1, c')"
      "slave_receive broadcast class2 (Req req) conns = Ok (o2, c2, cs')"
      "out = o1 @ o2" "conns' = (a, c') # cs'"
      by auto
    with turn silent [of conns o2 c2 cs'] Cons.prems(1) True x show ?thesis by auto
  next
    case False
    with Cons.prems x assms(2,3) obtain c2 cs' where
      r: "slave_receive broadcast class2 (Req req) conns = Ok (out, c2, cs')" "conns' = (a, c) # cs'"
      by auto
    with Cons.IH [OF _ r(1)] Cons.prems(1) x show ?thesis by auto
  qed
qed simp

definition check_slave_open :: "int \<Rightarrow> int \<Rightarrow> (int \<times> SlaveConnection) list \<Rightarrow> unit result" where
  "check_slave_open broadcast addr conns =
     (if addr \<ge> broadcast then Raise (ValueError ''unsupported address'')
      else if addr \<in> set (map fst conns) then Raise (Exception ''connection already exists'')
      else Ok ())"

section \<open>Properties\<close>

text \<open>
  A request with a valid frame count bit that is repeated is answered with the same response
  and changes nothing: no message leaves the send queue or enters the receive queue twice.
\<close>

lemma slave_repeated_request:
  assumes "frame_count_valid req" "slave_station class2 req c = (r, c')"
  shows "slave_station class2' req c' = (r, c')"
proof -
  have "slv_count_bit c' = Some (frame_count_bit req) \<and> slv_res c' = r"
    using assms slv.repeated [OF assms(1), of c class2] slv.fresh [OF assms(1) _ assms(2)]
    by (cases "slv_count_bit c = Some (frame_count_bit req)") auto
  then show ?thesis using slv.repeated [OF assms(1)] by blast
qed

lemma slave_repeated_request_witness:
  defines "req \<equiv> \<lparr>req_direction = None, frame_count_bit = True, frame_count_valid = True, req_function = REQ_DATA_1,
      req_address = 5, req_data = []\<rparr>"
  shows "\<exists>r c'. slave_station (Some [9]) req ((init_slave 5)\<lparr>slv_send_queue := [([1], None), ([2], None)]\<rparr>) = (Some r, c') \<and>
    slv_send_queue c' = [([2], None)] \<and> slave_station None req c' = (Some r, c')"
proof -
  let ?c = "(init_slave 5)\<lparr>slv_send_queue := [([1], None), ([2], None)]\<rparr>"
  obtain r c' where s: "slave_station (Some [9]) req ?c = (Some r, c')" "slv_send_queue c' = [([2], None)]"
    by (simp add: slave_station_def slave_respond_def slave_function_def req_def init_slave_def Let_def)
  from slave_repeated_request [OF _ s(1)] s show ?thesis by (auto simp: req_def)
qed

text \<open>
  A new request takes at most the first message from the send queue, only into a response
  that carries its data, and the access demand bit of the response tells whether messages are
  left.
\<close>

lemma slave_access_demand:
  assumes "slave_respond class2 req c = ((Some res, cb), c')"
    and "\<not> (frame_count_valid req \<and> slv_count_bit c = Some (frame_count_bit req))"
  shows "(slv_send_queue c' = slv_send_queue c \<or>
      (\<exists>d f. slv_send_queue c = (d, cb) # slv_send_queue c' \<and> res = Res f \<and> res_function f = RES_DATA \<and> res_data f = d)) \<and>
    (case res of Res f \<Rightarrow> access_demand f | _ \<Rightarrow> False) = (slv_send_queue c' \<noteq> [])"
  using slave_response [OF assms] by blast

lemma slave_access_demand_witness:
  defines "req \<equiv> \<lparr>req_direction = None, frame_count_bit = True, frame_count_valid = True, req_function = REQ_DATA_2,
      req_address = 5, req_data = []\<rparr>"
  shows "\<exists>f c'. slave_respond None req ((init_slave 5)\<lparr>slv_send_queue := [([1], Some 4), ([2], None)]\<rparr>) = ((Some (Res f), Some 4), c') \<and>
    access_demand f \<and> slv_send_queue c' = [([2], None)]"
proof -
  let ?c = "(init_slave 5)\<lparr>slv_send_queue := [([1], Some 4), ([2], None)]\<rparr>"
  obtain f c' where s: "slave_respond None req ?c = ((Some (Res f), Some 4), c')" "slv_send_queue c' = [([2], None)]"
    by (simp add: slave_respond_def slave_function_def req_def init_slave_def Let_def)
  from slave_access_demand [OF s(1)] s show ?thesis by (auto simp: req_def init_slave_def)
qed

text \<open>
  A broadcast request, and one that wants no response, is processed by the connections it is
  for, but no frame is written.
\<close>

lemma slave_broadcast_no_response:
  assumes "slave_receive broadcast class2 (Req req) conns = Ok (out, cbs, conns')"
    and "req_address req = broadcast \<or> req_function req = DATA_NO_RES"
  shows "out = [] \<and> cbs = [] \<and> map fst conns' = map fst conns"
  using slave_broadcast_silent [OF assms] slave_receive_keys [OF assms(1)] by blast

lemma slave_broadcast_no_response_witness:
  defines "req \<equiv> \<lparr>req_direction = None, frame_count_bit = True, frame_count_valid = True, req_function = DATA,
      req_address = 255, req_data = [7]\<rparr>"
  shows "\<exists>conns'. slave_receive 255 (\<lambda>_. None) (Req req) [(1, init_slave 1), (2, init_slave 2)] = Ok ([], [], conns') \<and>
    map fst conns' = [1, 2] \<and> map (slv_receive_queue \<circ> snd) conns' = [[[7]], [[7]]]"
proof -
  obtain out cbs conns' where s: "slave_receive 255 (\<lambda>_. None) (Req req) [(1, init_slave 1), (2, init_slave 2)] = Ok (out, cbs, conns')"
    "map (slv_receive_queue \<circ> snd) conns' = [[[7]], [[7]]]"
    by (simp add: slave_turn_def slave_process_def slave_respond_def slave_function_def req_def init_slave_def Let_def)
  from slave_broadcast_no_response [OF s(1)] s show ?thesis by (auto simp: req_def)
qed

text \<open>
  A request for one address changes no connection with another address, and is answered by
  at most one frame.
\<close>

lemma slave_unicast_isolated:
  assumes "distinct (map fst conns)" "req_address req \<noteq> broadcast"
    and "slave_receive broadcast class2 (Req req) conns = Ok (out, cbs, conns')"
  shows "length out \<le> 1 \<and> (\<forall>a. a \<noteq> req_address req \<longrightarrow> map_of conns' a = map_of conns a)"
  using slave_unicast [OF assms(1) refl assms(2,3)] by blast

lemma slave_unicast_isolated_witness:
  defines "req \<equiv> \<lparr>req_direction = None, frame_count_bit = True, frame_count_valid = True, req_function = DATA,
      req_address = 2, req_data = [7]\<rparr>"
  shows "\<exists>out cbs conns'. slave_receive 255 (\<lambda>_. None) (Req req) [(1, init_slave 1), (2, init_slave 2)] = Ok (out, cbs, conns') \<and>
    out = [ShortFrame] \<and> map_of conns' 1 = Some (init_slave 1)"
proof -
  obtain cbs conns' where s: "slave_receive 255 (\<lambda>_. None) (Req req) [(1, init_slave 1), (2, init_slave 2)] = Ok ([ShortFrame], cbs, conns')"
    by (simp add: slave_turn_def slave_process_def slave_respond_def slave_function_def req_def init_slave_def Let_def)
  from slave_unicast_isolated [OF _ _ s] s show ?thesis by (auto simp: req_def)
qed

end
