(* ===== verification/Link_Master.thy ===== *)
theory Link_Master
  imports Link_Slave
begin

text \<open>
  The unbalanced master, from \<^verbatim>\<open>iec60870/link/unbalanced/master.py\<close>: what a connection does
  with responses (\<open>MasterConnection._send_loop\<close>), and the link that writes one request at a
  time and waits for its response (\<open>MasterLink._send_loop\<close>, \<open>_receive_loop\<close>) as a step
  relation. Together with the slave of \<^verbatim>\<open>slave.py\<close> this gives the transfer in both
  directions over a line that loses frames.
\<close>

section \<open>Responses\<close>

definition master_on_response :: "SendEntry \<Rightarrow> Frame option \<Rightarrow> LinkSender \<Rightarrow> LinkSender result" where
  "master_on_response e res s =
     (let s = (case res of
                 Some (Res f) \<Rightarrow> if access_demand f then s\<lparr>access_demand_event := True\<rparr> else s
               | _ \<Rightarrow> s)
      in if snd_done s (se_future e) then Ok s
         else case res of
           Some ShortFrame \<Rightarrow> Ok (snd_set (se_future e) (Ok ()) s)
         | Some (Res f) \<Rightarrow>
             if res_function f = RES_DATA
             then (if res_data f \<noteq> []
                   then (if 0 < snd_receive_queue_size s \<and> snd_receive_queue_size s \<le> length (snd_receive_queue s)
                         then Raise QueueFullError
                         else Ok (snd_set (se_future e) (Ok ())
                                (s\<lparr>snd_receive_queue := snd_receive_queue s @ [res_data f]\<rparr>)))
                   else Ok (snd_set (se_future e) (Ok ()) s))
             else if res_function f \<in> {ACK, RES_NACK} then Ok (snd_set (se_future e) (Ok ()) s)
             else Ok (snd_set (se_future e) (Raise (Exception ''received another function'')) s)
         | _ \<Rightarrow> Ok (snd_set (se_future e) (Raise (Exception ''unexpected response'')) s))"

definition master_send_rounds :: "'w send \<Rightarrow> nat \<Rightarrow> LinkSender \<Rightarrow> 'w \<Rightarrow> LinkSender \<times> exn option \<times> 'w" where
  "master_send_rounds = send_rounds master_on_response"

text \<open>The two polling loops queue requests for data.\<close>

definition poll_class1 :: "nat \<Rightarrow> LinkSender \<Rightarrow> LinkSender" where
  "poll_class1 f s =
     s\<lparr>access_demand_event := False,
       snd_queue := snd_queue s @ [\<lparr>se_future = f, se_function = REQ_DATA_1, se_data = []\<rparr>]\<rparr>"

definition poll_class2 :: "nat \<Rightarrow> LinkSender \<Rightarrow> LinkSender" where
  "poll_class2 f s =
     s\<lparr>snd_queue := snd_queue s @ [\<lparr>se_future = f, se_function = REQ_DATA_2, se_data = []\<rparr>]\<rparr>"

lemma master_on_response_handler: "response_handler master_on_response"
  by (auto simp: response_handler_def master_on_response_def Let_def split: option.splits Frame.splits if_splits)

section \<open>The link\<close>

text \<open>
  \<open>ml_current\<close> is the request in work with its future, \<open>ml_response\<close> the future that
  \<open>_receive_loop\<close> resolves: \<open>Some None\<close> while nothing came.
\<close>

record MasterLink =
  ml_broadcast :: int
  ml_queue :: "(nat \<times> ReqFrame) list"
  ml_current :: "(nat \<times> ReqFrame) option"
  ml_response :: "Frame option option"
  ml_futures :: "(nat \<times> Frame option result) list"
  ml_written :: "ReqFrame list"

definition init_master_link :: "int \<Rightarrow> MasterLink" where
  "init_master_link broadcast =
     \<lparr>ml_broadcast = broadcast, ml_queue = [], ml_current = None, ml_response = None, ml_futures = [],
      ml_written = []\<rparr>"

definition ml_done :: "MasterLink \<Rightarrow> nat \<Rightarrow> bool" where
  "ml_done l f \<longleftrightarrow> f \<in> set (map fst (ml_futures l))"

definition ml_set :: "nat \<Rightarrow> Frame option result \<Rightarrow> MasterLink \<Rightarrow> MasterLink" where
  "ml_set f r l = (if ml_done l f then l else l\<lparr>ml_futures := ml_futures l @ [(f, r)]\<rparr>)"

text \<open>Taking a request from the queue and writing it.\<close>

definition ml_begin :: "MasterLink \<Rightarrow> MasterLink" where
  "ml_begin l =
     (case ml_queue l of
        [] \<Rightarrow> l
      | (f, req) # q \<Rightarrow>
          let l = l\<lparr>ml_queue := q\<rparr> in
          if ml_done l f then l
          else let l = l\<lparr>ml_written := ml_written l @ [req]\<rparr> in
            if req_address req = ml_broadcast l \<or> req_function req = DATA_NO_RES
            then ml_set f (Ok None) l
            else l\<lparr>ml_current := Some (f, req), ml_response := Some None\<rparr>)"

text \<open>A message in \<open>_receive_loop\<close>: it is not checked whether it is a response, nor whose.\<close>

definition ml_receive :: "Frame \<Rightarrow> MasterLink \<Rightarrow> MasterLink" where
  "ml_receive msg l = (if ml_response l = Some None then l\<lparr>ml_response := Some (Some msg)\<rparr> else l)"

text \<open>The end of the wait: the response, or TimeoutError.\<close>

definition ml_end :: "Frame option result \<Rightarrow> MasterLink \<Rightarrow> MasterLink" where
  "ml_end r l =
     (case ml_current l of
        None \<Rightarrow> l
      | Some (f, _) \<Rightarrow> (ml_set f r l)\<lparr>ml_current := None, ml_response := None\<rparr>)"

inductive master_step :: "MasterLink \<Rightarrow> MasterLink \<Rightarrow> bool" where
  request: "master_step l (l\<lparr>ml_queue := ml_queue l @ [(f, req)]\<rparr>)"
| begin_request: "ml_current l = None \<Longrightarrow> master_step l (ml_begin l)"
| message: "master_step l (ml_receive msg l)"
| answered: "ml_current l = Some (f, req) \<Longrightarrow> ml_response l = Some (Some msg) \<Longrightarrow>
    master_step l (ml_end (Ok (Some msg)) l)"
| timeout: "ml_current l = Some (f, req) \<Longrightarrow> ml_response l = Some None \<Longrightarrow>
    master_step l (ml_end (Raise TimeoutError) l)"

inductive_cases master_stepE: "master_step l l'"

inductive master_reach :: "MasterLink \<Rightarrow> MasterLink \<Rightarrow> bool" for l0 where
  init: "master_reach l0 l0"
| step: "master_reach l0 l \<Longrightarrow> master_step l l' \<Longrightarrow> master_reach l0 l'"

text \<open>
  Nothing waits for a response but the request written last, and a future that got a response
  belongs to a request that was written.
\<close>

definition master_inv :: "MasterLink \<Rightarrow> bool" where
  "master_inv l \<longleftrightarrow>
     (ml_current l = None \<longleftrightarrow> ml_response l = None) \<and>
     (\<forall>f req. ml_current l = Some (f, req) \<longrightarrow> ml_written l \<noteq> [] \<and> last (ml_written l) = req) \<and>
     distinct (map fst (ml_futures l)) \<and> length (ml_futures l) \<le> length (ml_written l) \<and>
     (ml_current l \<noteq> None \<longrightarrow> length (ml_futures l) < length (ml_written l))"

lemma ml_set_fields [simp]:
  "ml_current (ml_set f r l) = ml_current l" "ml_response (ml_set f r l) = ml_response l"
  "ml_written (ml_set f r l) = ml_written l" "ml_queue (ml_set f r l) = ml_queue l"
  "distinct (map fst (ml_futures (ml_set f r l))) = distinct (map fst (ml_futures l))"
  "length (ml_futures (ml_set f r l)) \<le> Suc (length (ml_futures l))"
  by (auto simp: ml_set_def ml_done_def)

lemma master_step_inv:
  assumes "master_step l l'" "master_inv l"
  shows "master_inv l'"
  using assms(1)
proof cases
  case begin_request
  show ?thesis
  proof (cases "ml_queue l")
    case Nil
    with begin_request assms(2) show ?thesis by (simp add: ml_begin_def)
  next
    case (Cons a q)
    obtain f req where a: "a = (f, req)" by fastforce
    with begin_request assms(2) Cons show ?thesis
      by (auto simp: ml_begin_def master_inv_def Let_def intro: order_trans [OF ml_set_fields(6)])
  qed
next
  case (message msg)
  with assms(2) show ?thesis by (auto simp: ml_receive_def master_inv_def)
next
  case (answered f req msg)
  with assms(2) show ?thesis
    by (auto simp: ml_end_def master_inv_def intro: order_trans [OF ml_set_fields(6)])
next
  case (timeout f req)
  with assms(2) show ?thesis
    by (auto simp: ml_end_def master_inv_def intro: order_trans [OF ml_set_fields(6)])
qed (use assms(2) in \<open>auto simp: master_inv_def\<close>)

lemma master_reach_inv: "master_reach (init_master_link broadcast) l \<Longrightarrow> master_inv l"
proof (induction rule: master_reach.induct)
  case init
  show ?case by (simp add: init_master_link_def master_inv_def)
next
  case (step l l')
  then show ?case using master_step_inv by blast
qed

text \<open>A response that comes after its request timed out is taken for that of the next one.\<close>

lemma stale_response:
  assumes "ml_current l = Some (f, req)" "ml_response l = Some None" "\<not> ml_done l f'"
    and "ml_queue l = [(f', req')]" "f \<noteq> f'" "req_address req' \<noteq> ml_broadcast l" "req_function req' \<noteq> DATA_NO_RES"
  shows "map_of (ml_futures (ml_end (Ok (Some late)) (ml_receive late (ml_begin (ml_end (Raise TimeoutError) l))))) f' =
    Some (Ok (Some late))"
proof -
  have "map_of (ml_futures l) f' = None"
    using assms(3) by (simp add: ml_done_def map_of_eq_None_iff)
  with assms show ?thesis
    by (auto simp: ml_end_def ml_begin_def ml_receive_def ml_set_def ml_done_def Let_def map_add_def)
qed

section \<open>Transfer from the master to a slave\<close>

lemma master_transfer:
  assumes "slv_count_bit c = Some False"
    and "s = (init_sender None addr retries rq)\<lparr>snd_queue := es\<rparr>"
    and "master_send_rounds (line_send (slave_station class2)) n s (fates, c) = (s', x, (fates', c'))"
  shows "\<exists>es1. es = es1 @ snd_queue s' \<and>
    (slv_receive_queue c' = slv_receive_queue c @ concat (map entry_user_data es1) \<or>
     x \<noteq> None \<and> es1 \<noteq> [] \<and>
     slv_receive_queue c' = slv_receive_queue c @ concat (map entry_user_data (butlast es1)))"
proof -
  have "slv.in_step s c" using assms by (simp add: slv.in_step_def init_sender_def)
  from slv.transfer_rounds [OF master_on_response_handler this assms(3) [unfolded master_send_rounds_def]]
  show ?thesis using assms(2) by (auto simp: init_sender_def)
qed

section \<open>Transfer from a slave to the master\<close>

text \<open>
  Requests for class 1 data: the messages that the slave queued reach the receive queue of the
  master in order. \<open>poll_entry\<close> says that an entry of the send queue is such a request whose
  future nobody resolved, \<open>polling\<close> that all are, with different futures.
\<close>

definition polling :: "LinkSender \<Rightarrow> bool" where
  "polling s \<longleftrightarrow>
     snd_receive_queue_size s = 0 \<and> distinct (map se_future (snd_queue s)) \<and>
     (\<forall>e\<in>set (snd_queue s). se_function e = REQ_DATA_1 \<and> se_data e = [] \<and> \<not> snd_done s (se_future e))"

definition in_transit :: "LinkSender \<Rightarrow> SlaveConnection \<Rightarrow> bytes list" where
  "in_transit s c = snd_receive_queue s @ map fst (slv_send_queue c)"

lemma snd_done_simps [simp]:
  "snd_done (snd_set f r s) g \<longleftrightarrow> g = f \<or> snd_done s g"
  "snd_done (s\<lparr>snd_queue := q, snd_count_bit := b\<rparr>) = snd_done s"
  "snd_done (s\<lparr>snd_flow_control := b\<rparr>) = snd_done s"
  "snd_done (s\<lparr>access_demand_event := b, snd_receive_queue := ds\<rparr>) = snd_done s"
  "snd_receive_queue_size (snd_set f r s) = snd_receive_queue_size s"
  by (auto simp: snd_done_def snd_set_def fun_eq_iff)

lemma slave_poll:
  assumes "frame_count_valid req" "req_function req = REQ_DATA_1"
    and "slv_count_bit c \<noteq> Some (frame_count_bit req)"
    and "\<forall>d\<in>set (map fst (slv_send_queue c)). d \<noteq> []"
    and "slave_station class2 req c = (Some r, c')"
  shows "case slv_send_queue c of
      [] \<Rightarrow> r = ShortFrame \<and> slv_send_queue c' = []
    | (d, cb) # q \<Rightarrow> slv_send_queue c' = q \<and> d \<noteq> [] \<and>
        (\<exists>f. r = Res f \<and> res_function f = RES_DATA \<and> res_data f = d \<and> access_demand f = (q \<noteq> []))"
  using assms
  by (auto simp: slave_station_def slave_respond_def slave_function_def Let_def split: list.splits)

lemma master_takes_data:
  assumes "snd_receive_queue_size s = 0" "\<not> snd_done s (se_future e)"
  shows "master_on_response e (Some ShortFrame) s = Ok (snd_set (se_future e) (Ok ()) s)"
    and "res_function f = RES_DATA \<Longrightarrow> res_data f \<noteq> [] \<Longrightarrow>
      \<exists>s'. master_on_response e (Some (Res f)) s = Ok s' \<and>
        s' = snd_set (se_future e) (Ok ()) (s\<lparr>access_demand_event := access_demand_event s \<or> access_demand f,
          snd_receive_queue := snd_receive_queue s @ [res_data f]\<rparr>)"
  using assms by (auto simp: master_on_response_def snd_done_def Let_def)

lemma polling_pop:
  assumes "polling s" "snd_queue s = e # snd_queue s'" "snd_receive_queue_size s' = 0"
    and "\<And>f. snd_done s' f \<Longrightarrow> f = se_future e \<or> snd_done s f"
  shows "polling s'"
proof -
  have "\<not> snd_done s' (se_future e')" if e': "e' \<in> set (snd_queue s')" for e'
  proof
    assume d: "snd_done s' (se_future e')"
    have fresh: "se_future e \<notin> se_future ` set (snd_queue s')" "\<not> snd_done s (se_future e')"
      using e' assms(1,2) by (simp_all add: polling_def)
    from assms(4) [OF d] show False
    proof
      assume "se_future e' = se_future e"
      with fresh(1) imageI [OF e', of se_future] show False by simp
    qed (use fresh(2) in blast)
  qed
  with assms(1-3) show ?thesis by (auto simp: polling_def)
qed

lemma poll_round:
  assumes "slv.in_step s c" "polling s" "\<forall>d\<in>set (map fst (slv_send_queue c)). d \<noteq> []"
    and "send_round master_on_response (line_send (slave_station class2)) s (fates, c) = Some (s', x, (fates', c'))"
  shows "polling s' \<and> (\<forall>d\<in>set (map fst (slv_send_queue c')). d \<noteq> []) \<and>
    (x = None \<longrightarrow> slv.in_step s' c' \<and> in_transit s' c' = in_transit s c) \<and>
    (x \<noteq> None \<longrightarrow> snd_receive_queue s' = snd_receive_queue s \<and>
      (slv_send_queue c' = slv_send_queue c \<or> slv_send_queue c' = tl (slv_send_queue c)))"
proof -
  from assms(1) have step: "slv_count_bit c = Some (snd_count_bit s)" "\<not> snd_flow_control s" "data_flow_queue s = []"
    by (simp_all add: slv.in_step_def)
  from assms(4) step(2,3) obtain e q s1 res where q: "snd_queue s = e # q"
    and s1: "s1 = s\<lparr>snd_queue := q, snd_count_bit := \<not> snd_count_bit s\<rparr>"
    and r: "retry_loop (line_send (slave_station class2)) (entry_request e s1) (send_retry_count s1) 0 (fates, c) = (res, (fates', c'))"
    and out: "(\<exists>y. res = Raise y \<and> s' = s1 \<and> x = Some y) \<or>
     (\<exists>r s2. res = Ok r \<and> s2 = s1\<lparr>snd_flow_control := flow_control_of r\<rparr> \<and>
       ((\<exists>y. master_on_response e r s2 = Raise y \<and> s' = s2 \<and> x = Some y) \<or>
         master_on_response e r s2 = Ok s' \<and> x = None))"
    by (rule send_round_cases)
  let ?req = "entry_request e s1"
  have req: "frame_count_valid ?req" "req_function ?req = REQ_DATA_1" "slv_count_bit c \<noteq> Some (frame_count_bit ?req)"
    using step s1 q assms(2) by (simp_all add: entry_request_def polling_def)
  obtain p c1 where p: "slave_station class2 ?req c = (p, c1)" by fastforce
  note fr = slv.fresh [OF req(1,3) p]
  then obtain rf where rf: "p = Some rf" by auto
  note P = slave_poll [OF req assms(3) p [unfolded rf]]
  from slv.retry_once [OF req(1,3) r] p consider (missed) "c' = c" "\<forall>r. res \<noteq> Ok r" | (processed) "c' = c1" "\<forall>r. res = Ok r \<longrightarrow> r = p"
    by auto
  then show ?thesis
  proof cases
    case missed
    with out obtain y where "s' = s1" "x = Some y" by auto
    with s1 q assms(2,3) polling_pop [OF assms(2), of e s1] show ?thesis
      unfolding missed(1) by (simp add: polling_def)
  next
    case processed
    have q': "\<forall>d\<in>set (map fst (slv_send_queue c')). d \<noteq> []" "slv_send_queue c' = tl (slv_send_queue c)"
      using P processed(1) assms(3) by (auto split: list.splits)
    from out consider y where "res = Raise y" "s' = s1" "x = Some y"
      | s2 where "res = Ok p" "s2 = s1\<lparr>snd_flow_control := flow_control_of p\<rparr>"
        "(\<exists>y. master_on_response e p s2 = Raise y \<and> s' = s2 \<and> x = Some y) \<or> master_on_response e p s2 = Ok s' \<and> x = None"
      using processed(2) by blast
    then show ?thesis
    proof cases
      case 1
      with q' s1 q assms(2) polling_pop [OF assms(2), of e s1] show ?thesis by (simp add: polling_def)
    next
      case (2 s2)
      have s2: "snd_receive_queue_size s2 = 0" "\<not> snd_done s2 (se_future e)" "snd_receive_queue s2 = snd_receive_queue s"
        "snd_queue s2 = q" "\<not> snd_flow_control s2" "data_flow_queue s2 = []" "snd_count_bit s2 = (\<not> snd_count_bit s)"
        "snd_done s2 = snd_done s"
        using 2(2) s1 q step fr assms(2) by (auto simp: polling_def)
      have pol: "polling s4" if "snd_queue s4 = q" "snd_receive_queue_size s4 = 0"
        "\<And>f. snd_done s4 f \<longleftrightarrow> f = se_future e \<or> snd_done s f" for s4
        by (rule polling_pop [OF assms(2), of e]) (use q that in simp_all)
      have fcb: "frame_count_bit ?req = (\<not> snd_count_bit s)" by (simp add: entry_request_def s1)
      obtain s3 where s3: "master_on_response e p s2 = Ok s3" "polling s3" "slv.in_step s3 c'"
        "snd_receive_queue s3 @ map fst (slv_send_queue c') = in_transit s c"
      proof (cases "slv_send_queue c")
        case Nil
        with P rf have "p = Some ShortFrame" by simp
        with master_takes_data(1) [OF s2(1,2)] s2 Nil q' q assms(2) fr fcb processed(1) show ?thesis
          by (intro that [of "snd_set (se_future e) (Ok ()) s2"])
            (simp_all add: pol slv.in_step_def in_transit_def)
      next
        case (Cons a l)
        obtain d cb where a: "a = (d, cb)" by fastforce
        from P Cons a rf obtain f where f: "p = Some (Res f)" "res_function f = RES_DATA" "res_data f = d" "d \<noteq> []"
          by auto
        obtain s3 where s3: "master_on_response e p s2 = Ok s3"
          "s3 = snd_set (se_future e) (Ok ()) (s2\<lparr>access_demand_event := access_demand_event s2 \<or> access_demand f,
            snd_receive_queue := snd_receive_queue s2 @ [d]\<rparr>)"
          using master_takes_data(2) [OF s2(1,2)] f by auto
        with s2 Cons a q' q assms(2) fr fcb processed(1) show ?thesis
          by (intro that [of s3])
            (simp_all add: pol slv.in_step_def in_transit_def)
      qed
      with 2(3) have "s' = s3" "x = None" by auto
      with s3 q' show ?thesis by (simp add: in_transit_def)
    qed
  qed
qed

lemma poll_rounds:
  assumes "slv.in_step s c" "polling s" "\<forall>d\<in>set (map fst (slv_send_queue c)). d \<noteq> []"
    and "master_send_rounds (line_send (slave_station class2)) n s (fates, c) = (s', x, (fates', c'))"
  shows "\<exists>lost. snd_receive_queue s' @ lost @ map fst (slv_send_queue c') = in_transit s c \<and>
    length lost \<le> (if x = None then 0 else 1)"
  using assms
proof (induction n arbitrary: s c fates)
  case 0
  then show ?case by (simp add: master_send_rounds_def in_transit_def)
next
  case (Suc n)
  show ?case
  proof (cases "send_round master_on_response (line_send (slave_station class2)) s (fates, c)")
    case None
    with Suc.prems(4) show ?thesis by (simp add: master_send_rounds_def in_transit_def)
  next
    case (Some a)
    then obtain s1 y fs1 c1 where a: "send_round master_on_response (line_send (slave_station class2)) s (fates, c) = Some (s1, y, (fs1, c1))"
      by (cases a) auto
    note R = poll_round [OF Suc.prems(1-3) a]
    show ?thesis
    proof (cases y)
      case None
      with Suc.prems(4) a have "master_send_rounds (line_send (slave_station class2)) n s1 (fs1, c1) = (s', x, (fates', c'))"
        by (simp add: master_send_rounds_def)
      with Suc.IH [of s1 c1 fs1] R None show ?thesis by simp
    next
      case (Some z)
      with Suc.prems(4) a have "s' = s1" "x = Some z" "c' = c1" by (simp_all add: master_send_rounds_def)
      with R Some consider "slv_send_queue c' = slv_send_queue c" | "slv_send_queue c' = tl (slv_send_queue c)"
        by auto
      then show ?thesis
      proof cases
        case 1
        with R Some \<open>s' = s1\<close> show ?thesis by (intro exI [of _ "[]"]) (simp add: in_transit_def)
      next
        case 2
        with R Some \<open>s' = s1\<close> \<open>x = Some z\<close> show ?thesis
          by (cases "slv_send_queue c") (auto simp: in_transit_def intro: exI [of _ "[]"] exI [of _ "[fst (hd (slv_send_queue c))]"])
      qed
    qed
  qed
qed

section \<open>Properties\<close>

text \<open>
  C9: over a line that loses any requests and responses, the slave queues exactly the data of the
  entries that the master has taken from its queue, in order and once each; only the entry in
  transfer when the sending loop ended with an error may be missing.
\<close>

theorem master_exactly_once:
  assumes "slv_count_bit c = Some False"
    and "master_send_rounds (line_send (slave_station class2)) n
      ((init_sender None addr retries rq)\<lparr>snd_queue := es\<rparr>) (fates, c) = (s', x, (fates', c'))"
  shows "\<exists>taken. es = taken @ snd_queue s' \<and>
    (slv_receive_queue c' = slv_receive_queue c @ concat (map entry_user_data taken) \<or>
     x \<noteq> None \<and> taken \<noteq> [] \<and>
     slv_receive_queue c' = slv_receive_queue c @ concat (map entry_user_data (butlast taken)))"
  using master_transfer [OF assms(1) refl assms(2)] .

lemmas master_evaluation =
  master_send_rounds_def send_round_def take_send_entry_def init_sender_def entry_request_def retry_line_steps
  slave_station_def slave_respond_def slave_function_def init_slave_def Let_def master_on_response_def snd_done_def
  snd_set_def flow_control_of_def

lemma master_exactly_once_witness:
  defines "c \<equiv> (init_slave 5)\<lparr>slv_count_bit := Some False\<rparr>" and "e \<equiv> \<lparr>se_future = 0, se_function = DATA, se_data = [1, 2]\<rparr>"
  shows "\<exists>s' c'. master_send_rounds (line_send (slave_station None)) 1 ((init_sender None 5 3 0)\<lparr>snd_queue := [e]\<rparr>)
      ([Response_lost, Arrives], c) = (s', None, ([], c')) \<and> slv_receive_queue c' = [[1, 2]]"
proof -
  obtain s' c' where r: "master_send_rounds (line_send (slave_station None)) 1 ((init_sender None 5 3 0)\<lparr>snd_queue := [e]\<rparr>)
      ([Response_lost, Arrives], c) = (s', None, ([], c'))" and q: "snd_queue s' = []"
    by (simp add: c_def e_def master_evaluation)
  from master_exactly_once [OF _ r] q have "slv_receive_queue c' = [[1, 2]]"
    by (simp add: c_def init_slave_def e_def entry_user_data_def)
  with r show ?thesis by blast
qed

text \<open>
  Over such a line, polling brings the messages of the slave to the receive queue of the
  master in order and once each: what the master received, followed by what the slave still has
  to send, is always the same, but for one message that may be lost when the loop ends with an
  error.
\<close>

lemma polling_exactly_once:
  assumes "slv_count_bit c = Some (snd_count_bit s)" "\<not> snd_flow_control s" "data_flow_queue s = []"
    and "polling s" "\<forall>d\<in>set (map fst (slv_send_queue c)). d \<noteq> []"
    and "master_send_rounds (line_send (slave_station class2)) n s (fates, c) = (s', x, (fates', c'))"
  shows "\<exists>lost. snd_receive_queue s' @ lost @ map fst (slv_send_queue c') =
      snd_receive_queue s @ map fst (slv_send_queue c) \<and> length lost \<le> (if x = None then 0 else 1)"
  using poll_rounds [OF _ assms(4-6)] assms(1-3) by (simp add: slv.in_step_def in_transit_def)

text \<open>
  In every reachable state of the master's link a response is waited for exactly while a
  request is in work, the request in work is the one written last, and no more requests have a
  result than were written, each at most one.
\<close>

lemma master_link_invariant:
  assumes "master_reach (init_master_link broadcast) l"
  shows "(ml_current l = None \<longleftrightarrow> ml_response l = None) \<and>
    (\<forall>f req. ml_current l = Some (f, req) \<longrightarrow> ml_written l \<noteq> [] \<and> last (ml_written l) = req) \<and>
    distinct (map fst (ml_futures l)) \<and> length (ml_futures l) \<le> length (ml_written l)"
  using master_reach_inv [OF assms] by (simp add: master_inv_def)

text \<open>
  Messages are not matched to requests: a response that comes after its request timed out is
  taken as the result of the next request.
\<close>

lemma late_response_mismatched:
  assumes "ml_current l = Some (f, req)" "ml_response l = Some None" "\<not> ml_done l f'"
    and "ml_queue l = [(f', req')]" "f \<noteq> f'" "req_address req' \<noteq> ml_broadcast l" "req_function req' \<noteq> DATA_NO_RES"
  shows "map_of (ml_futures (ml_end (Ok (Some late)) (ml_receive late (ml_begin (ml_end (Raise TimeoutError) l))))) f' =
    Some (Ok (Some late))"
  using stale_response [OF assms] .

end
