(* ===== verification/Iec101_Connection.thy ===== *)
theory Iec101_Connection
  imports Iec101_Driver Link_Balanced Link_Master
begin

text \<open>
  The connection of the driver of IEC 60870-5-101, from \<^verbatim>\<open>iec101/connection.py\<close>: it encodes
  messages and sends the data units one by one over a connection of the link layer, and decodes
  the data that this receives. Over each link this gives the path of messages from one station
  to the other.
\<close>

section \<open>Operations\<close>

text \<open>
  \<open>Connection.send\<close>: all messages are encoded before the first is sent. The futures that the
  link creates are \<open>f\<close>, \<open>f + 1\<close>, ... The call of \<open>sent_cb\<close> after the last is left out.
\<close>

definition send_msgs_101 ::
  "Encoder101 \<Rightarrow> (SendEntry \<Rightarrow> Frame option \<Rightarrow> LinkSender \<Rightarrow> LinkSender result) \<Rightarrow> 'w send \<Rightarrow> nat \<Rightarrow>
     Msg list \<Rightarrow> LinkSender \<Rightarrow> 'w \<Rightarrow> unit result \<times> LinkSender \<times> 'w" where
  "send_msgs_101 enc on_response send f msgs s world =
     (case encode_msgs_101 enc msgs of
        Inl x \<Rightarrow> (Raise x, s, world)
      | Inr datas \<Rightarrow> send_calls on_response send (zip [f..<f + length datas] datas) s world)"

definition receive_msgs_101 :: "Encoder101 \<Rightarrow> bytes \<Rightarrow> Msg list result" where
  "receive_msgs_101 enc data = decode_msgs_101 enc data"

lemma received_prefix:
  assumes "list_all2 (\<lambda>msg d. receive_msgs_101 enc d = Ok [msg] \<and> d \<noteq> []) msgs datas"
  shows "mapE (receive_msgs_101 enc) (take n datas) = Ok (map (\<lambda>msg. [msg]) (take n msgs))"
  using assms by (simp add: mapE_Ok_iff list_all2_conv_all_nth)

lemma map_snd_zip_upt: "map snd (take n (zip [f..<f + length ds] ds)) = take n ds"
  by (simp add: take_zip flip: take_map)

text \<open>What any station accepts of the messages that are sent to it.\<close>

context responder begin

lemma messages_accepted:
  assumes "response_handler on_response" "in_step s st" "snd_queue s = []"
    and "list_all (msg_ok_101 cs as ios) msgs" "enc = init_encoder_101 cs as ios mx"
    and "send_msgs_101 enc on_response (line_send process) f msgs s (fates, st) = (res, s', (fates', st'))"
  shows "\<exists>n. mapE (receive_msgs_101 enc) (drop (length (accepted st)) (accepted st')) =
      Ok (map (\<lambda>msg. [msg]) (take n msgs)) \<and> (res = Ok () \<longrightarrow> length msgs \<le> n)"
proof -
  from encode_decode_msgs [OF assms(4), of mx] obtain datas where
    d: "encode_msgs_101 enc msgs = Ok datas"
    "list_all2 (\<lambda>msg d. receive_msgs_101 enc d = Ok [msg] \<and> d \<noteq> []) msgs datas"
    by (auto simp: assms(5) receive_msgs_101_def)
  then have run: "send_calls on_response (line_send process) (zip [f..<f + length datas] datas) s (fates, st) =
      (res, s', (fates', st'))"
    using assms(6) by (simp add: send_msgs_101_def)
  have "\<forall>(f, d)\<in>set (zip [f..<f + length datas] datas). d \<noteq> []"
    using d(2) by (auto simp: list_all2_conv_all_nth in_set_conv_nth dest!: set_zip_rightD)
  from transfer_calls [OF assms(1-3) this run] obtain n where
    n: "accepted st' = accepted st @ take n datas" "res = Ok () \<longrightarrow> length datas \<le> n"
    by (auto simp: map_snd_zip_upt)
  with received_prefix [OF d(2), of n] list_all2_lengthD [OF d(2)] show ?thesis by auto
qed

end

section \<open>Properties\<close>

text \<open>Calls of \<open>send\<close> one after another; a call that raises is the last. Futures are numbered through all calls.\<close>

fun send_batches_101 ::
  "Encoder101 \<Rightarrow> (SendEntry \<Rightarrow> Frame option \<Rightarrow> LinkSender \<Rightarrow> LinkSender result) \<Rightarrow> 'w send \<Rightarrow> nat \<Rightarrow>
     Msg list list \<Rightarrow> LinkSender \<Rightarrow> 'w \<Rightarrow> unit result \<times> LinkSender \<times> 'w" where
  "send_batches_101 enc on_response send f [] s world = (Ok (), s, world)"
| "send_batches_101 enc on_response send f (msgs # batches) s world =
     (case send_msgs_101 enc on_response send f msgs s world of
        (Inl x, s, world) \<Rightarrow> (Raise x, s, world)
      | (Inr _, s, world) \<Rightarrow> send_batches_101 enc on_response send (f + length msgs) batches s world)"

lemma send_calls_append:
  "send_calls on_response send (ds @ ds') s world =
     (case send_calls on_response send ds s world of
        (Inl x, s, world) \<Rightarrow> (Raise x, s, world)
      | (Inr _, s, world) \<Rightarrow> send_calls on_response send ds' s world)"
  by (induction on_response send ds s world rule: send_calls.induct) (auto split: prod.split option.split sum.split)

lemma zip_upt_append: "zip [f..<f + length (xs @ ys)] (xs @ ys) = zip [f..<f + length xs] xs @ zip [f + length xs..<f + length xs + length ys] ys"
proof -
  have "[f..<f + length (xs @ ys)] = [f..<f + length xs] @ [f + length xs..<f + length xs + length ys]"
    using upt_add_eq_append [of f "f + length xs" "length ys"] by (simp add: add.assoc)
  then show ?thesis by (simp only: zip_append length_upt add_diff_cancel_left')
qed

text \<open>The calls send what one call with all messages sends.\<close>

lemma send_batches_concat:
  assumes "list_all (list_all (msg_ok_101 cs as ios)) batches"
  shows "send_batches_101 (init_encoder_101 cs as ios mx) on_response send f batches s world =
    send_msgs_101 (init_encoder_101 cs as ios mx) on_response send f (concat batches) s world"
  using assms
proof (induction batches arbitrary: f s world)
  case Nil
  then show ?case by (simp add: send_msgs_101_def encode_msgs_101_def)
next
  case (Cons msgs batches)
  let ?enc = "init_encoder_101 cs as ios mx"
  from Cons.prems encode_decode_msgs [of cs as ios msgs mx] obtain ds
    where ds: "encode_msgs_101 ?enc msgs = Ok ds" "length ds = length msgs" by (auto dest: list_all2_lengthD)
  have "list_all (msg_ok_101 cs as ios) (concat batches)" using Cons.prems by (simp add: list_all_iff)
  from encode_decode_msgs [OF this, of mx] obtain ds' where ds': "encode_msgs_101 ?enc (concat batches) = Ok ds'" by blast
  have all: "encode_msgs_101 ?enc (concat (msgs # batches)) = Ok (ds @ ds')"
    using ds(1) ds' by (simp add: encode_msgs_101_def mapE_append)
  show ?case
    using Cons by (simp add: send_msgs_101_def ds ds' all zip_upt_append send_calls_append split: prod.split sum.split del: length_append concat.simps upt_Suc)
qed

text \<open>
  C5: over a balanced link whose line loses any requests and responses, what the remote station
  receives of the well-formed messages that are sent, in any number of calls of \<open>send\<close> after the connection was opened,
  are the first of them, one at a time, in order and without repetition; all of them where every call
  returned. Well-formed are messages whose fields are in their ranges, whose normalized and floating values exist on
  the wire exactly, and whose time tags have a size that their type can carry (three bytes with a bit string not being one, which the element encoder gets wrong).
\<close>

theorem messages_over_balanced_link:
  assumes "list_all (list_all (msg_ok_101 cs as ios)) batches"
    and "open_loop (line_send balanced_process) (reset_request (Some d) addr) m (fates, c) = Some (Ok (), (fates1, c1))"
    and "send_batches_101 (init_encoder_101 cs as ios mx) balanced_on_response (line_send balanced_process) f batches
      (init_sender (Some d) addr retries rq) (fates1, c1) = (res, s', (fates2, c2))"
  shows "\<exists>n. mapE (receive_msgs_101 (init_encoder_101 cs as ios mx))
      (drop (length (bal_receive_queue c)) (bal_receive_queue c2)) = Ok (map (\<lambda>msg. [msg]) (take n (concat batches))) \<and>
    (res = Ok () \<longrightarrow> length (concat batches) \<le> n)"
proof -
  note o = open_loop_reset [OF assms(2)]
  have "bal.in_step (init_sender (Some d) addr retries rq) c1"
    using o by (simp add: bal.in_step_def init_sender_def)
  moreover have "list_all (msg_ok_101 cs as ios) (concat batches)" using assms(1) by (simp add: list_all_iff)
  ultimately show ?thesis
    using bal.messages_accepted [OF balanced_on_response_handler _ _ _ refl assms(3) [unfolded send_batches_concat [OF assms(1)]]] o
    by (simp add: init_sender_def)
qed

text \<open>
  The same from a master to an unbalanced slave that was reset: the slave receives the first
  of the messages, in order and without repetition, and all of them where \<open>send\<close> returned.
\<close>

lemma messages_to_slave:
  assumes "list_all (msg_ok_101 cs as ios) msgs" "slv_count_bit c = Some False"
    and "send_msgs_101 (init_encoder_101 cs as ios mx) master_on_response (line_send (slave_station class2)) f msgs
      (init_sender None addr retries rq) (fates, c) = (res, s', (fates', c'))"
  shows "\<exists>n. mapE (receive_msgs_101 (init_encoder_101 cs as ios mx))
      (drop (length (slv_receive_queue c)) (slv_receive_queue c')) = Ok (map (\<lambda>msg. [msg]) (take n msgs)) \<and>
    (res = Ok () \<longrightarrow> length msgs \<le> n)"
proof -
  have "slv.in_step (init_sender None addr retries rq) c"
    using assms(2) by (simp add: slv.in_step_def init_sender_def)
  from slv.messages_accepted [OF master_on_response_handler this _ assms(1) refl assms(3)] show ?thesis
    by (simp add: init_sender_def)
qed

text \<open>One message over a line that loses the first response.\<close>

definition example_read :: Msg where
  "example_read = ReadMsg False 0 5 300 (ReqCause ReadReqCause_REQUEST)"

lemma example_read_ok: "msg_ok_101 CauseSize_ONE AsduAddressSize_ONE IoAddressSize_TWO example_read"
  by (simp add: example_read_def msg_ok_101_def header_ok_def address_ok_def)

lemma example_read_encoded:
  obtains data where
    "encode_msgs_101 (init_encoder_101 CauseSize_ONE AsduAddressSize_ONE IoAddressSize_TWO 252) [example_read] = Ok [data]"
    "data \<noteq> []"
  using encode_decode_msgs [of CauseSize_ONE AsduAddressSize_ONE IoAddressSize_TWO "[example_read]" 252] example_read_ok
  by (auto simp: list_all2_Cons1)

lemmas balanced_evaluation =
  send_round_def take_send_entry_def init_sender_def entry_request_def retry_line_steps balanced_process_def
  init_balanced_def Let_def balanced_on_response_def snd_done_def snd_set_def conn_send_def flow_control_of_def

lemma messages_over_balanced_link_witness:
  defines "enc \<equiv> init_encoder_101 CauseSize_ONE AsduAddressSize_ONE IoAddressSize_TWO 252"
    and "c \<equiv> init_balanced B_TO_A 5"
  shows "\<exists>c1 s' c2. open_loop (line_send balanced_process) (reset_request (Some B_TO_A) 5) 1
        ([Arrives, Response_lost, Arrives], c) = Some (Ok (), ([Response_lost, Arrives], c1)) \<and>
      send_batches_101 enc balanced_on_response (line_send balanced_process) 0 [[], [example_read]]
        (init_sender (Some B_TO_A) 5 3 0) ([Response_lost, Arrives], c1) = (Ok (), s', ([], c2)) \<and>
      mapE (receive_msgs_101 enc) (bal_receive_queue c2) = Ok [[example_read]]"
proof -
  obtain data where d: "encode_msgs_101 enc [example_read] = Ok [data]" "data \<noteq> []"
    unfolding enc_def by (rule example_read_encoded)
  have "\<exists>c1. open_loop (line_send balanced_process) (reset_request (Some B_TO_A) 5) 1
      ([Arrives, Response_lost, Arrives], c) = Some (Ok (), ([Response_lost, Arrives], c1)) \<and>
      c1 = c\<lparr>bal_count_bit := Some False, bal_res := Some ShortFrame\<rparr>"
    by (simp add: balanced_reset reset_request_def reset_confirmed_def)
  then obtain c1 where o: "open_loop (line_send balanced_process) (reset_request (Some B_TO_A) 5) 1
      ([Arrives, Response_lost, Arrives], c) = Some (Ok (), ([Response_lost, Arrives], c1))"
    and c1: "c1 = c\<lparr>bal_count_bit := Some False, bal_res := Some ShortFrame\<rparr>" by blast
  have "\<exists>s' c2. send_msgs_101 enc balanced_on_response (line_send balanced_process) 0 [example_read]
      (init_sender (Some B_TO_A) 5 3 0) ([Response_lost, Arrives], c1) = (Ok (), s', ([], c2))"
    unfolding c1 c_def using d by (simp add: send_msgs_101_def balanced_evaluation)
  then obtain s' c2 where r: "send_msgs_101 enc balanced_on_response (line_send balanced_process) 0 [example_read]
      (init_sender (Some B_TO_A) 5 3 0) ([Response_lost, Arrives], c1) = (Ok (), s', ([], c2))" by blast
  have ok: "list_all (list_all (msg_ok_101 CauseSize_ONE AsduAddressSize_ONE IoAddressSize_TWO)) [[], [example_read]]"
    using example_read_ok by simp
  have b: "send_batches_101 enc balanced_on_response (line_send balanced_process) 0 [[], [example_read]]
      (init_sender (Some B_TO_A) 5 3 0) ([Response_lost, Arrives], c1) = (Ok (), s', ([], c2))"
    using r unfolding enc_def send_batches_concat [OF ok] by simp
  from messages_over_balanced_link [OF ok o b [unfolded enc_def]]
  have "mapE (receive_msgs_101 enc) (bal_receive_queue c2) = Ok [[example_read]]"
    by (auto simp: c_def init_balanced_def enc_def)
  with o b show ?thesis by blast
qed

lemma messages_to_slave_witness:
  defines "enc \<equiv> init_encoder_101 CauseSize_ONE AsduAddressSize_ONE IoAddressSize_TWO 252"
    and "c \<equiv> (init_slave 5)\<lparr>slv_count_bit := Some False\<rparr>"
  shows "\<exists>s' c'. send_msgs_101 enc master_on_response (line_send (slave_station None)) 0 [example_read]
        (init_sender None 5 3 0) ([Response_lost, Arrives], c) = (Ok (), s', ([], c')) \<and>
      mapE (receive_msgs_101 enc) (slv_receive_queue c') = Ok [[example_read]]"
proof -
  obtain data where d: "encode_msgs_101 enc [example_read] = Ok [data]" "data \<noteq> []"
    unfolding enc_def by (rule example_read_encoded)
  have "\<exists>s' c'. send_msgs_101 enc master_on_response (line_send (slave_station None)) 0 [example_read]
      (init_sender None 5 3 0) ([Response_lost, Arrives], c) = (Ok (), s', ([], c'))"
    unfolding c_def using d by (simp add: send_msgs_101_def master_evaluation conn_send_def)
  then obtain s' c' where r: "send_msgs_101 enc master_on_response (line_send (slave_station None)) 0 [example_read]
      (init_sender None 5 3 0) ([Response_lost, Arrives], c) = (Ok (), s', ([], c'))" by blast
  have "list_all (msg_ok_101 CauseSize_ONE AsduAddressSize_ONE IoAddressSize_TWO) [example_read]"
    using example_read_ok by simp
  from messages_to_slave [OF this _ r [unfolded enc_def]]
  have "mapE (receive_msgs_101 enc) (slv_receive_queue c') = Ok [[example_read]]"
    by (auto simp: c_def init_slave_def enc_def)
  with r show ?thesis by blast
qed

end
