(* ===== verification/Iec104_Encoder.thy ===== *)
theory Iec104_Encoder
  imports Iec101_Encoder
begin

text \<open>
  The encoding of IEC 60870-5-104: \<^verbatim>\<open>iec60870/encodings/iec104/common.py\<close> and
  \<^verbatim>\<open>iec60870/encodings/iec104/encoder.py\<close>. The enumeration of type identifications takes the
  values of its IEC 101 namesakes and adds eight of its own; the element callbacks delegate
  to IEC 101 for the former and handle the latter. The second interpretation of
  \<open>io_element_codec\<close> carries the data unit round trip over.
\<close>

unbundle bit_operations_syntax

section \<open>Type identifications\<close>

datatype (plugins only: code size) AsduType104 =
  I104_M_SP_NA | I104_M_DP_NA | I104_M_ST_NA | I104_M_BO_NA | I104_M_ME_NA | I104_M_ME_NB |
  I104_M_ME_NC | I104_M_IT_NA | I104_M_PS_NA | I104_M_ME_ND | I104_M_SP_TB | I104_M_DP_TB |
  I104_M_ST_TB | I104_M_BO_TB | I104_M_ME_TD | I104_M_ME_TE | I104_M_ME_TF | I104_M_IT_TB |
  I104_M_EP_TD | I104_M_EP_TE | I104_M_EP_TF | I104_C_SC_NA | I104_C_DC_NA | I104_C_RC_NA |
  I104_C_SE_NA | I104_C_SE_NB | I104_C_SE_NC | I104_C_BO_NA | I104_C_SC_TA | I104_C_DC_TA |
  I104_C_RC_TA | I104_C_SE_TA | I104_C_SE_TB | I104_C_SE_TC | I104_C_BO_TA | I104_M_EI_NA |
  I104_C_IC_NA | I104_C_CI_NA | I104_C_RD_NA | I104_C_CS_NA | I104_C_RP_NA | I104_C_TS_TA |
  I104_P_ME_NA | I104_P_ME_NB | I104_P_ME_NC | I104_P_AC_NA | I104_F_FR_NA | I104_F_SR_NA |
  I104_F_SC_NA | I104_F_LS_NA | I104_F_AF_NA | I104_F_SG_NA | I104_F_DR_TA

fun AsduType104_value :: "AsduType104 \<Rightarrow> int" where
  "AsduType104_value I104_M_SP_NA = AsduType_value M_SP_NA"
| "AsduType104_value I104_M_DP_NA = AsduType_value M_DP_NA"
| "AsduType104_value I104_M_ST_NA = AsduType_value M_ST_NA"
| "AsduType104_value I104_M_BO_NA = AsduType_value M_BO_NA"
| "AsduType104_value I104_M_ME_NA = AsduType_value M_ME_NA"
| "AsduType104_value I104_M_ME_NB = AsduType_value M_ME_NB"
| "AsduType104_value I104_M_ME_NC = AsduType_value M_ME_NC"
| "AsduType104_value I104_M_IT_NA = AsduType_value M_IT_NA"
| "AsduType104_value I104_M_PS_NA = AsduType_value M_PS_NA"
| "AsduType104_value I104_M_ME_ND = AsduType_value M_ME_ND"
| "AsduType104_value I104_M_SP_TB = AsduType_value M_SP_TB"
| "AsduType104_value I104_M_DP_TB = AsduType_value M_DP_TB"
| "AsduType104_value I104_M_ST_TB = AsduType_value M_ST_TB"
| "AsduType104_value I104_M_BO_TB = AsduType_value M_BO_TB"
| "AsduType104_value I104_M_ME_TD = AsduType_value M_ME_TD"
| "AsduType104_value I104_M_ME_TE = AsduType_value M_ME_TE"
| "AsduType104_value I104_M_ME_TF = AsduType_value M_ME_TF"
| "AsduType104_value I104_M_IT_TB = AsduType_value M_IT_TB"
| "AsduType104_value I104_M_EP_TD = AsduType_value M_EP_TD"
| "AsduType104_value I104_M_EP_TE = AsduType_value M_EP_TE"
| "AsduType104_value I104_M_EP_TF = AsduType_value M_EP_TF"
| "AsduType104_value I104_C_SC_NA = AsduType_value C_SC_NA"
| "AsduType104_value I104_C_DC_NA = AsduType_value C_DC_NA"
| "AsduType104_value I104_C_RC_NA = AsduType_value C_RC_NA"
| "AsduType104_value I104_C_SE_NA = AsduType_value C_SE_NA"
| "AsduType104_value I104_C_SE_NB = AsduType_value C_SE_NB"
| "AsduType104_value I104_C_SE_NC = AsduType_value C_SE_NC"
| "AsduType104_value I104_C_BO_NA = AsduType_value C_BO_NA"
| "AsduType104_value I104_C_SC_TA = 58"
| "AsduType104_value I104_C_DC_TA = 59"
| "AsduType104_value I104_C_RC_TA = 60"
| "AsduType104_value I104_C_SE_TA = 61"
| "AsduType104_value I104_C_SE_TB = 62"
| "AsduType104_value I104_C_SE_TC = 63"
| "AsduType104_value I104_C_BO_TA = 64"
| "AsduType104_value I104_M_EI_NA = AsduType_value M_EI_NA"
| "AsduType104_value I104_C_IC_NA = AsduType_value C_IC_NA"
| "AsduType104_value I104_C_CI_NA = AsduType_value C_CI_NA"
| "AsduType104_value I104_C_RD_NA = AsduType_value C_RD_NA"
| "AsduType104_value I104_C_CS_NA = AsduType_value C_CS_NA"
| "AsduType104_value I104_C_RP_NA = AsduType_value C_RP_NA"
| "AsduType104_value I104_C_TS_TA = 107"
| "AsduType104_value I104_P_ME_NA = AsduType_value P_ME_NA"
| "AsduType104_value I104_P_ME_NB = AsduType_value P_ME_NB"
| "AsduType104_value I104_P_ME_NC = AsduType_value P_ME_NC"
| "AsduType104_value I104_P_AC_NA = AsduType_value P_AC_NA"
| "AsduType104_value I104_F_FR_NA = AsduType_value F_FR_NA"
| "AsduType104_value I104_F_SR_NA = AsduType_value F_SR_NA"
| "AsduType104_value I104_F_SC_NA = AsduType_value F_SC_NA"
| "AsduType104_value I104_F_LS_NA = AsduType_value F_LS_NA"
| "AsduType104_value I104_F_AF_NA = AsduType_value F_AF_NA"
| "AsduType104_value I104_F_SG_NA = AsduType_value F_SG_NA"
| "AsduType104_value I104_F_DR_TA = AsduType_value F_DR_TA"

definition AsduType104_members :: "AsduType104 list" where
  "AsduType104_members =
     [
      I104_M_SP_NA, I104_M_DP_NA, I104_M_ST_NA, I104_M_BO_NA, I104_M_ME_NA, I104_M_ME_NB,
      I104_M_ME_NC, I104_M_IT_NA, I104_M_PS_NA, I104_M_ME_ND, I104_M_SP_TB, I104_M_DP_TB,
      I104_M_ST_TB, I104_M_BO_TB, I104_M_ME_TD, I104_M_ME_TE, I104_M_ME_TF, I104_M_IT_TB,
      I104_M_EP_TD, I104_M_EP_TE, I104_M_EP_TF, I104_C_SC_NA, I104_C_DC_NA, I104_C_RC_NA,
      I104_C_SE_NA, I104_C_SE_NB, I104_C_SE_NC, I104_C_BO_NA, I104_C_SC_TA, I104_C_DC_TA,
      I104_C_RC_TA, I104_C_SE_TA, I104_C_SE_TB, I104_C_SE_TC, I104_C_BO_TA, I104_M_EI_NA,
      I104_C_IC_NA, I104_C_CI_NA, I104_C_RD_NA, I104_C_CS_NA, I104_C_RP_NA, I104_C_TS_TA,
      I104_P_ME_NA, I104_P_ME_NB, I104_P_ME_NC, I104_P_AC_NA, I104_F_FR_NA, I104_F_SR_NA,
      I104_F_SC_NA, I104_F_LS_NA, I104_F_AF_NA, I104_F_SG_NA, I104_F_DR_TA]"

definition AsduType104_of :: "int \<Rightarrow> AsduType104 result" where
  "AsduType104_of = enum_lookup AsduType104_value AsduType104_members"

interpretation AsduType104: enumeration AsduType104_value AsduType104_members
proof unfold_locales
  show "x \<in> set AsduType104_members" for x by (cases x) (simp_all add: AsduType104_members_def)
  show "distinct (map AsduType104_value AsduType104_members)" by (simp add: AsduType104_members_def)
qed

lemma AsduType104_of_value [simp]: "AsduType104_of (AsduType104_value x) = Ok x"
  by (simp add: AsduType104_of_def AsduType104.of_value)

definition decode_asdu_type_104 :: "int \<Rightarrow> AsduType104 result" where
  "decode_asdu_type_104 asdu_ty =
     (case AsduType104_of asdu_ty of Inl _ \<Rightarrow> Raise (AsduTypeError asdu_ty) | Inr ty \<Rightarrow> Ok ty)"

lemma decode_asdu_type_104_value [simp]: "decode_asdu_type_104 (AsduType104_value ty) = Ok ty"
  by (simp add: decode_asdu_type_104_def)

lemma decode_asdu_type_104_Ok: "decode_asdu_type_104 n = Ok ty \<Longrightarrow> AsduType104_value ty = n"
  using enum_lookup_Ok [of AsduType104_value AsduType104_members n]
  by (auto simp: decode_asdu_type_104_def AsduType104_of_def split: sum.splits)

definition iec101_asdu_types :: "int list" where
  "iec101_asdu_types = map AsduType104_value
     [
      I104_M_SP_NA, I104_M_DP_NA, I104_M_ST_NA, I104_M_BO_NA, I104_M_ME_NA, I104_M_ME_NB,
      I104_M_ME_NC, I104_M_IT_NA, I104_M_PS_NA, I104_M_ME_ND, I104_M_SP_TB, I104_M_DP_TB,
      I104_M_ST_TB, I104_M_BO_TB, I104_M_ME_TD, I104_M_ME_TE, I104_M_ME_TF, I104_M_IT_TB,
      I104_M_EP_TD, I104_M_EP_TE, I104_M_EP_TF, I104_C_SC_NA, I104_C_DC_NA, I104_C_RC_NA,
      I104_C_SE_NA, I104_C_SE_NB, I104_C_SE_NC, I104_C_BO_NA, I104_M_EI_NA, I104_C_IC_NA,
      I104_C_CI_NA, I104_C_RD_NA, I104_C_CS_NA, I104_C_RP_NA, I104_P_ME_NA, I104_P_ME_NB,
      I104_P_ME_NC, I104_P_AC_NA, I104_F_FR_NA, I104_F_SR_NA, I104_F_SC_NA, I104_F_LS_NA,
      I104_F_AF_NA, I104_F_SG_NA, I104_F_DR_TA]"

section \<open>Elements\<close>

datatype IoElement104 =
    I101 IoElement
  | IoElement_C_SC_TA SingleValue bool int
  | IoElement_C_DC_TA DoubleValue bool int
  | IoElement_C_RC_TA RegulatingValue bool int
  | IoElement_C_SE_TA NormalizedValue bool
  | IoElement_C_SE_TB ScaledValue bool
  | IoElement_C_SE_TC FloatingValue bool
  | IoElement_C_BO_TA BitstringValue
  | IoElement_C_TS_TA int

definition decode_io_element_104 :: "bytes \<Rightarrow> int \<Rightarrow> (IoElement104 \<times> bytes) result" where
  "decode_io_element_104 io_bytes asdu_ty =
     bindE (decode_asdu_type_104 asdu_ty) (\<lambda>ty.
       if AsduType104_value ty \<in> set iec101_asdu_types
       then bindE (decode_io_element io_bytes (AsduType104_value ty)) (\<lambda>(e, io_bytes). Ok (I101 e, io_bytes))
       else (case ty of
          I104_C_SC_TA \<Rightarrow>
            decode_cmd (\<lambda>b. SingleValue_of (b AND 1)) IoElement_C_SC_TA io_bytes
        | I104_C_DC_TA \<Rightarrow>
            decode_cmd (\<lambda>b. DoubleValue_of (b AND 3)) IoElement_C_DC_TA io_bytes
        | I104_C_RC_TA \<Rightarrow>
            decode_cmd (\<lambda>b. RegulatingValue_of (b AND 3)) IoElement_C_RC_TA io_bytes
        | I104_C_SE_TA \<Rightarrow>
            decode_vs decode_normalized_value IoElement_C_SE_TA io_bytes
        | I104_C_SE_TB \<Rightarrow>
            decode_vs decode_scaled_value IoElement_C_SE_TB io_bytes
        | I104_C_SE_TC \<Rightarrow>
            decode_vs decode_floating_value IoElement_C_SE_TC io_bytes
        | I104_C_BO_TA \<Rightarrow>
            bindE (decode_bitstring_value io_bytes) (\<lambda>(v, io_bytes). Ok (IoElement_C_BO_TA v, io_bytes))
        | I104_C_TS_TA \<Rightarrow>
            Ok (IoElement_C_TS_TA (from_le (take 2 io_bytes)), drop 2 io_bytes)
        | _ \<Rightarrow> Raise (ValueError ''unsupported ASDU type'')))"

text \<open>
  An element class of IEC 104 alone, passed under a type that IEC 101 shares, reaches the end
  of the IEC 101 chain of tests.
\<close>

definition encode_io_element_104 :: "IoElement104 \<Rightarrow> int \<Rightarrow> int list result" where
  "encode_io_element_104 element asdu_ty =
     bindE (decode_asdu_type_104 asdu_ty) (\<lambda>ty.
       if AsduType104_value ty \<in> set iec101_asdu_types
       then (case element of
               I101 e \<Rightarrow> encode_io_element e (AsduType104_value ty)
             | _ \<Rightarrow> Raise (ValueError ''unsupported IO element''))
       else (case element of
          IoElement_C_SC_TA v sel ql \<Rightarrow>
            Ok [SingleValue_value v OR (if sel then 0x80 else 0) OR push_bit 2 (ql AND 0x1F)]
        | IoElement_C_DC_TA v sel ql \<Rightarrow>
            Ok [DoubleValue_value v OR (if sel then 0x80 else 0) OR push_bit 2 (ql AND 0x1F)]
        | IoElement_C_RC_TA v sel ql \<Rightarrow>
            Ok [RegulatingValue_value v OR (if sel then 0x80 else 0) OR push_bit 2 (ql AND 0x1F)]
        | IoElement_C_SE_TA v sel \<Rightarrow>
            appendE (encode_normalized_value v) (Ok [if sel then 0x80 else 0])
        | IoElement_C_SE_TB v sel \<Rightarrow>
            appendE (encode_scaled_value v) (Ok [if sel then 0x80 else 0])
        | IoElement_C_SE_TC v sel \<Rightarrow>
            appendE (encode_floating_value v) (Ok [if sel then 0x80 else 0])
        | IoElement_C_BO_TA v \<Rightarrow>
            encode_bitstring_value v
        | IoElement_C_TS_TA counter \<Rightarrow>
            to_le 2 counter
        | I101 _ \<Rightarrow> Raise (ValueError ''unsupported IO element'')))"

text \<open>Documented ranges, and the type that an element class is named after.\<close>

definition io_element_ok_104 :: "int \<Rightarrow> IoElement104 \<Rightarrow> bool" where
  "io_element_ok_104 n element \<longleftrightarrow>
     (case element of
        I101 e \<Rightarrow> n \<in> set iec101_asdu_types \<and> io_element_ok n e
      | IoElement_C_SC_TA _ _ ql \<Rightarrow> n = AsduType104_value I104_C_SC_TA \<and> 0 \<le> ql \<and> ql < 32
      | IoElement_C_DC_TA _ _ ql \<Rightarrow> n = AsduType104_value I104_C_DC_TA \<and> 0 \<le> ql \<and> ql < 32
      | IoElement_C_RC_TA _ _ ql \<Rightarrow> n = AsduType104_value I104_C_RC_TA \<and> 0 \<le> ql \<and> ql < 32
      | IoElement_C_SE_TA v _ \<Rightarrow> n = AsduType104_value I104_C_SE_TA \<and> normalized_ok v
      | IoElement_C_SE_TB v _ \<Rightarrow> n = AsduType104_value I104_C_SE_TB \<and> scaled_ok v
      | IoElement_C_SE_TC v _ \<Rightarrow> n = AsduType104_value I104_C_SE_TC \<and> floating_ok v
      | IoElement_C_BO_TA v \<Rightarrow> n = AsduType104_value I104_C_BO_TA \<and> bitstring_ok v
      | IoElement_C_TS_TA counter \<Rightarrow> n = AsduType104_value I104_C_TS_TA \<and> 0 \<le> counter \<and> counter < 65536)"

text \<open>The shared types are exactly those whose value names a type of IEC 101.\<close>

lemma iec101_asdu_types_shared:
  "set iec101_asdu_types = AsduType104_value ` set AsduType104_members \<inter> AsduType_value ` set AsduType_members"
  by (simp add: iec101_asdu_types_def AsduType104_members_def AsduType_members_def)

lemma iec101_asdu_types_own [simp]:
  "n \<in> {58, 59, 60, 61, 62, 63, 64, 107} \<Longrightarrow> n \<notin> set iec101_asdu_types"
  by (auto simp: iec101_asdu_types_def)

lemma element_typed_104:
  "AsduType104_value ty \<in> set iec101_asdu_types \<Longrightarrow>
     decode_io_element_104 bs (AsduType104_value ty) =
       bindE (decode_io_element bs (AsduType104_value ty)) (\<lambda>(e, bs). Ok (I101 e, bs))"
  "AsduType104_value ty \<in> set iec101_asdu_types \<Longrightarrow>
     encode_io_element_104 (I101 e) (AsduType104_value ty) = encode_io_element e (AsduType104_value ty)"
  by (simp_all add: decode_io_element_104_def encode_io_element_104_def)

abbreviation element_roundtrips_104 :: "AsduType104 \<Rightarrow> IoElement104 \<Rightarrow> bool" where
  "element_roundtrips_104 ty e \<equiv>
     decodes_to (encode_io_element_104 e (AsduType104_value ty))
       (\<lambda>bs. decode_io_element_104 bs (AsduType104_value ty)) e"

lemma own_element_codec_104:
  "0 \<le> ql \<Longrightarrow> ql < 32 \<Longrightarrow> element_roundtrips_104 I104_C_SC_TA (IoElement_C_SC_TA sv sel ql)"
  "0 \<le> ql \<Longrightarrow> ql < 32 \<Longrightarrow> element_roundtrips_104 I104_C_DC_TA (IoElement_C_DC_TA dv sel ql)"
  "0 \<le> ql \<Longrightarrow> ql < 32 \<Longrightarrow> element_roundtrips_104 I104_C_RC_TA (IoElement_C_RC_TA rv sel ql)"
  "normalized_ok nv \<Longrightarrow> element_roundtrips_104 I104_C_SE_TA (IoElement_C_SE_TA nv sel)"
  "scaled_ok xv \<Longrightarrow> element_roundtrips_104 I104_C_SE_TB (IoElement_C_SE_TB xv sel)"
  "floating_ok fv \<Longrightarrow> element_roundtrips_104 I104_C_SE_TC (IoElement_C_SE_TC fv sel)"
  "bitstring_ok bv \<Longrightarrow> element_roundtrips_104 I104_C_BO_TA (IoElement_C_BO_TA bv)"
  "0 \<le> c \<Longrightarrow> c < 65536 \<Longrightarrow> element_roundtrips_104 I104_C_TS_TA (IoElement_C_TS_TA c)"
  unfolding encode_io_element_104_def decode_io_element_104_def decode_asdu_type_104_value
  by (simp_all add: element_shapes value_roundtrips two_roundtrip
      del: to_le_Ok push_bit_and split del: if_split)

lemma element_codec_104:
  assumes "io_element_ok_104 n e"
  shows "decodes_to (encode_io_element_104 e n) (\<lambda>bs. decode_io_element_104 bs n) e"
proof (cases e)
  case (I101 e')
  with assms have n: "n \<in> set iec101_asdu_types" "io_element_ok n e'"
    by (simp_all add: io_element_ok_104_def)
  from n(1) have "n \<in> AsduType104_value ` set AsduType104_members"
    unfolding iec101_asdu_types_shared by (rule IntD1)
  then obtain ty where "n = AsduType104_value ty" by blast
  with v_roundtrip [OF element_codec [OF n(2)], of I101] n(1) I101 show ?thesis
    by (simp add: element_typed_104)
qed (use assms own_element_codec_104 in \<open>simp_all add: io_element_ok_104_def\<close>)

lemma leaves_decode_asdu_type_104:
  "leaves (\<lambda>bs. decode_io_element_104 bs n)"
proof -
  have "leaves (\<lambda>bs. decode_io_element bs m)" for m
    using element_suffix [of _ m] unfolding leaves_def by (metis append_eq_conv_conj)
  then have shared: "leaves (\<lambda>bs. bindE (decode_io_element bs m) (\<lambda>(e, bs). Ok (I101 e, bs)))" for m
    by (intro leaves_bind leaves_Ok)
  show ?thesis
    unfolding decode_io_element_104_def
  proof (rule leaves_read, rule leaves_if, rule shared)
    fix ty
    show "leaves (\<lambda>bs. case ty of
          I104_C_SC_TA \<Rightarrow> decode_cmd (\<lambda>b. SingleValue_of (b AND 1)) IoElement_C_SC_TA bs
        | I104_C_DC_TA \<Rightarrow> decode_cmd (\<lambda>b. DoubleValue_of (b AND 3)) IoElement_C_DC_TA bs
        | I104_C_RC_TA \<Rightarrow> decode_cmd (\<lambda>b. RegulatingValue_of (b AND 3)) IoElement_C_RC_TA bs
        | I104_C_SE_TA \<Rightarrow> decode_vs decode_normalized_value IoElement_C_SE_TA bs
        | I104_C_SE_TB \<Rightarrow> decode_vs decode_scaled_value IoElement_C_SE_TB bs
        | I104_C_SE_TC \<Rightarrow> decode_vs decode_floating_value IoElement_C_SE_TC bs
        | I104_C_BO_TA \<Rightarrow> bindE (decode_bitstring_value bs) (\<lambda>(v, bs). Ok (IoElement_C_BO_TA v, bs))
        | I104_C_TS_TA \<Rightarrow> Ok (IoElement_C_TS_TA (from_le (take 2 bs)), drop 2 bs)
        | _ \<Rightarrow> Raise (ValueError ''unsupported ASDU type''))"
      by (cases ty) (simp_all add: leaves_intros)
  qed
qed

lemma element_suffix_104: "decode_io_element_104 bs n = Ok (e, rest) \<Longrightarrow> \<exists>p. bs = p @ rest"
  using leavesD [OF leaves_decode_asdu_type_104] by (metis append_take_drop_id)

interpretation el104: io_element_codec decode_io_element_104 encode_io_element_104 io_element_ok_104
  by unfold_locales (fact element_codec_104, fact element_suffix_104)

section \<open>The class Encoder\<close>

definition asdu_type_time_sizes_104 :: "int \<Rightarrow> TimeSize option" where
  "asdu_type_time_sizes_104 k =
     (case map_of
        [(AsduType104_value I104_C_SC_TA, TimeSize_SEVEN),
         (AsduType104_value I104_C_DC_TA, TimeSize_SEVEN),
         (AsduType104_value I104_C_RC_TA, TimeSize_SEVEN),
         (AsduType104_value I104_C_SE_TA, TimeSize_SEVEN),
         (AsduType104_value I104_C_SE_TB, TimeSize_SEVEN),
         (AsduType104_value I104_C_SE_TC, TimeSize_SEVEN),
         (AsduType104_value I104_C_BO_TA, TimeSize_SEVEN),
         (AsduType104_value I104_C_TS_TA, TimeSize_SEVEN)] k of
        Some sz \<Rightarrow> Some sz
      | None \<Rightarrow> (if k \<in> set iec101_asdu_types then asdu_type_time_sizes_101 k else None))"

record Encoder104 =
  max_asdu_size_104 :: nat
  asdu_encoder_104 :: "IoElement104 Encoder"

definition init_encoder_104 :: "nat \<Rightarrow> Encoder104" where
  "init_encoder_104 mx =
     \<lparr>max_asdu_size_104 = mx,
      asdu_encoder_104 =
        \<lparr>cause_size = CauseSize_TWO, asdu_address_size = AsduAddressSize_TWO,
         io_address_size = IoAddressSize_THREE, asdu_type_time_sizes = asdu_type_time_sizes_104,
         inverted_sequence_bit = False, decode_io_element_cb = decode_io_element_104,
         encode_io_element_cb = encode_io_element_104\<rparr>\<rparr>"

definition decode_asdu_104 :: "Encoder104 \<Rightarrow> bytes \<Rightarrow> ((AsduType104, Cause, IoElement104) ASDU \<times> bytes) result" where
  "decode_asdu_104 enc asdu_bytes =
     bindE (decode_asdu (asdu_encoder_104 enc) asdu_bytes) (\<lambda>(asdu, rest).
     bindE (decode_asdu_type_104 (asdu_type asdu)) (\<lambda>ty.
       Ok (\<lparr>asdu_type = ty, asdu_cause = decode_cause (asdu_cause asdu) CauseSize_TWO,
           asdu_address = asdu_address asdu, asdu_ios = asdu_ios asdu\<rparr>, rest)))"

definition lower_asdu_104 :: "(AsduType104, Cause, 'e) ASDU \<Rightarrow> (int, int, 'e) ASDU" where
  "lower_asdu_104 asdu =
     \<lparr>asdu_type = AsduType104_value (asdu_type asdu), asdu_cause = encode_cause (asdu_cause asdu) CauseSize_TWO,
      asdu_address = asdu_address asdu, asdu_ios = asdu_ios asdu\<rparr>"

definition encode_asdu_104 :: "Encoder104 \<Rightarrow> (AsduType104, Cause, IoElement104) ASDU \<Rightarrow> bytes result" where
  "encode_asdu_104 enc asdu = encode_asdu (asdu_encoder_104 enc) (lower_asdu_104 asdu)"

definition asdu_ok_104 :: "Encoder104 \<Rightarrow> (AsduType104, Cause, IoElement104) ASDU \<Rightarrow> bool" where
  "asdu_ok_104 enc asdu \<longleftrightarrow>
     cause_ok CauseSize_TWO (asdu_cause asdu) \<and>
     asdu_ok (asdu_encoder_104 enc) io_element_ok_104 (lower_asdu_104 asdu)"

lemma asdu_104_roundtrip:
  assumes enc: "enc = init_encoder_104 mx" and ok: "asdu_ok_104 enc asdu"
  shows "\<exists>bs. encode_asdu_104 enc asdu = Ok bs \<and> (\<forall>rest. decode_asdu_104 enc (bs @ rest) = Ok (asdu, rest))"
proof -
  have cbs: "decode_io_element_cb (asdu_encoder_104 enc) = decode_io_element_104"
    "encode_io_element_cb (asdu_encoder_104 enc) = encode_io_element_104"
    using enc by (simp_all add: init_encoder_104_def)
  from ok have "asdu_ok (asdu_encoder_104 enc) io_element_ok_104 (lower_asdu_104 asdu)"
    and c: "cause_ok CauseSize_TWO (asdu_cause asdu)"
    by (simp_all add: asdu_ok_104_def)
  from el104.asdu_roundtrip [OF cbs this(1)] obtain bs where
    bs: "encode_asdu_104 enc asdu = Ok bs"
    "\<And>rest. decode_asdu (asdu_encoder_104 enc) (bs @ rest) = Ok (lower_asdu_104 asdu, rest)"
    unfolding encode_asdu_104_def by blast
  then have "decode_asdu_104 enc (bs @ rest) = Ok (asdu, rest)" for rest
    by (simp add: decode_asdu_104_def lower_asdu_104_def encode_decode_cause [OF c])
  with bs(1) show ?thesis by blast
qed

section \<open>Properties\<close>

text \<open>
  C7: every well-formed data unit of IEC 60870-5-104 is encoded, and decoded to
  itself, whatever bytes follow. Well-formed: the fields are in their ranges and each element and time has the class and size of
  the type, a cause given as a number is not one that has a name, there are at most 127 objects or elements of a sequence,
  normalized values are ones that 16 bits stand for exactly and floats ones that the single format holds. Other
  normalized values and floats in range are rounded.
\<close>

theorem asdu_104_codec:
  assumes "asdu_ok_104 (init_encoder_104 mx) asdu"
  shows "\<exists>bs. encode_asdu_104 (init_encoder_104 mx) asdu = Ok bs \<and>
    (\<forall>rest. decode_asdu_104 (init_encoder_104 mx) (bs @ rest) = Ok (asdu, rest))"
  using asdu_104_roundtrip [OF refl assms] .

lemma example_asdu_104:
  obtains asdu where "asdu_ok_104 (init_encoder_104 255) asdu" "asdu_type asdu = I104_C_SC_TA"
proof (rule that)
  show "asdu_ok_104 (init_encoder_104 255)
    \<lparr>asdu_type = I104_C_SC_TA, asdu_cause = \<lparr>cause_type = KnownCause CauseType_ACTIVATION, is_negative_confirm = False,
       is_test = False, originator_address = 3\<rparr>, asdu_address = 0x1234,
     asdu_ios = [\<lparr>io_address = 0x10203, io_elements = [IoElement_C_SC_TA SingleValue_ON True 1],
       io_time = Some \<lparr>time_size = TimeSize_SEVEN, milliseconds = 59999, invalid = Some False, substituted = Some True,
         minutes = Some 59, summer_time = Some False, hours = Some 23, day_of_week = Some 7, day_of_month = Some 31,
         months = Some 12, years = Some 99\<rparr>\<rparr>]\<rparr>"
  by (simp add: asdu_ok_104_def init_encoder_104_def cause_ok_def asdu_ok_def lower_asdu_104_def
      encode_cause_def is_byte_num asdu_is_sequence_def io_ok_def io_element_ok_104_def asdu_type_time_sizes_104_def
      time_ok_def)
qed simp

lemma asdu_104_codec_witness:
  "\<exists>asdu bs. asdu_type asdu = I104_C_SC_TA \<and> encode_asdu_104 (init_encoder_104 255) asdu = Ok bs \<and>
    (\<forall>rest. decode_asdu_104 (init_encoder_104 255) (bs @ rest) = Ok (asdu, rest))"
proof -
  obtain asdu where a: "asdu_ok_104 (init_encoder_104 255) asdu" "asdu_type asdu = I104_C_SC_TA"
    by (rule example_asdu_104)
  from asdu_104_codec [OF a(1)] a(2) show ?thesis by blast
qed

end
