(* ===== verification/Iec104_Driver.thy ===== *)
theory Iec104_Driver
  imports Iec101_Driver Iec104_Encoder
begin

text \<open>
  The driver of IEC 60870-5-104, from \<^verbatim>\<open>iec104/common.py\<close>, \<^verbatim>\<open>iec104/encoder.py\<close> and
  \<^verbatim>\<open>iec104/connection.py\<close>. It shares data, commands, parameters and causes with the driver of
  IEC 60870-5-101; commands and tests carry time tags, tests a counter, and there is no message
  to acquire the transmission delay.
\<close>

section \<open>Messages\<close>

datatype (plugins only: code size) Msg104 =
    DataMsg104 (msg104_is_test: bool) (msg104_originator_address: int) (msg104_asdu_address: int) int Data "Time option" DataCause
  | CommandMsg104 (msg104_is_test: bool) (msg104_originator_address: int) (msg104_asdu_address: int) int Command bool "Time option" CommandCause
  | InitializationMsg104 (msg104_is_test: bool) (msg104_originator_address: int) (msg104_asdu_address: int) bool InitializationCause
  | InterrogationMsg104 (msg104_is_test: bool) (msg104_originator_address: int) (msg104_asdu_address: int) int bool CommandCause
  | CounterInterrogationMsg104 (msg104_is_test: bool) (msg104_originator_address: int) (msg104_asdu_address: int) int FreezeCode bool CommandCause
  | ReadMsg104 (msg104_is_test: bool) (msg104_originator_address: int) (msg104_asdu_address: int) int ReadCause
  | ClockSyncMsg104 (msg104_is_test: bool) (msg104_originator_address: int) (msg104_asdu_address: int) Time bool ClockSyncCause
  | TestMsg104 (msg104_is_test: bool) (msg104_originator_address: int) (msg104_asdu_address: int) int Time ActivationCause
  | ResetMsg104 (msg104_is_test: bool) (msg104_originator_address: int) (msg104_asdu_address: int) int ActivationCause
  | ParameterMsg104 (msg104_is_test: bool) (msg104_originator_address: int) (msg104_asdu_address: int) int Parameter ParameterCause
  | ParameterActivationMsg104 (msg104_is_test: bool) (msg104_originator_address: int) (msg104_asdu_address: int) int int ParameterActivationCause

section \<open>Encoding\<close>

text \<open>The type for data without time tag and with one, whatever its size.\<close>

definition timed_type_104 :: "Time option \<Rightarrow> AsduType104 option \<Rightarrow> AsduType104 option \<Rightarrow> AsduType104 result" where
  "timed_type_104 time none some =
     (case (case time of None \<Rightarrow> none | Some _ \<Rightarrow> some) of
        None \<Rightarrow> Raise (ValueError ''unsupported data'')
      | Some ty \<Rightarrow> Ok ty)"

definition get_data_asdu_type_104 :: "Data \<Rightarrow> Time option \<Rightarrow> AsduType104 result" where
  "get_data_asdu_type_104 data time =
     (case data of
        SingleData _ _ \<Rightarrow> timed_type_104 time (Some I104_M_SP_NA) (Some I104_M_SP_TB)
      | DoubleData _ _ \<Rightarrow> timed_type_104 time (Some I104_M_DP_NA) (Some I104_M_DP_TB)
      | StepPositionData _ _ \<Rightarrow> timed_type_104 time (Some I104_M_ST_NA) (Some I104_M_ST_TB)
      | BitstringData _ _ \<Rightarrow> timed_type_104 time (Some I104_M_BO_NA) (Some I104_M_BO_TB)
      | NormalizedData _ q \<Rightarrow>
          if q \<noteq> None then timed_type_104 time (Some I104_M_ME_NA) (Some I104_M_ME_TD)
          else timed_type_104 time (Some I104_M_ME_ND) None
      | ScaledData _ _ \<Rightarrow> timed_type_104 time (Some I104_M_ME_NB) (Some I104_M_ME_TE)
      | FloatingData _ _ \<Rightarrow> timed_type_104 time (Some I104_M_ME_NC) (Some I104_M_ME_TF)
      | BinaryCounterData _ _ \<Rightarrow> timed_type_104 time (Some I104_M_IT_NA) (Some I104_M_IT_TB)
      | ProtectionData _ _ _ \<Rightarrow> timed_type_104 time None (Some I104_M_EP_TD)
      | ProtectionStartData _ _ _ \<Rightarrow> timed_type_104 time None (Some I104_M_EP_TE)
      | ProtectionCommandData _ _ _ \<Rightarrow> timed_type_104 time None (Some I104_M_EP_TF)
      | StatusData _ _ \<Rightarrow> timed_type_104 time (Some I104_M_PS_NA) None)"

definition get_command_asdu_type_104 :: "Command \<Rightarrow> Time option \<Rightarrow> AsduType104" where
  "get_command_asdu_type_104 command time =
     (case command of
        SingleCommand _ _ _ \<Rightarrow> if time = None then I104_C_SC_NA else I104_C_SC_TA
      | DoubleCommand _ _ _ \<Rightarrow> if time = None then I104_C_DC_NA else I104_C_DC_TA
      | RegulatingCommand _ _ _ \<Rightarrow> if time = None then I104_C_RC_NA else I104_C_RC_TA
      | NormalizedCommand _ _ \<Rightarrow> if time = None then I104_C_SE_NA else I104_C_SE_TA
      | ScaledCommand _ _ \<Rightarrow> if time = None then I104_C_SE_NB else I104_C_SE_TB
      | FloatingCommand _ _ \<Rightarrow> if time = None then I104_C_SE_NC else I104_C_SE_TC
      | BitstringCommand _ \<Rightarrow> if time = None then I104_C_BO_NA else I104_C_BO_TA)"

definition get_parameter_asdu_type_104 :: "Parameter \<Rightarrow> AsduType104" where
  "get_parameter_asdu_type_104 parameter =
     (case parameter of
        NormalizedParameter _ _ \<Rightarrow> I104_P_ME_NA
      | ScaledParameter _ _ \<Rightarrow> I104_P_ME_NB
      | FloatingParameter _ _ \<Rightarrow> I104_P_ME_NC)"

text \<open>
  The element for a type. As in the driver of IEC 101, data of another kind than the type stands
  for are an error here.
\<close>

definition get_data_io_element_104 :: "Data \<Rightarrow> AsduType104 \<Rightarrow> IoElement104 result" where
  "get_data_io_element_104 data ty =
     (case data of
        SingleData v q \<Rightarrow>
          (case ty of I104_M_SP_NA \<Rightarrow> Ok (I101 (IoElement_M_SP_NA v q)) | I104_M_SP_TB \<Rightarrow> Ok (I101 (IoElement_M_SP_TB v q))
           | _ \<Rightarrow> Raise (ValueError ''unsupported asdu type''))
      | DoubleData v q \<Rightarrow>
          (case ty of I104_M_DP_NA \<Rightarrow> Ok (I101 (IoElement_M_DP_NA v q)) | I104_M_DP_TB \<Rightarrow> Ok (I101 (IoElement_M_DP_TB v q))
           | _ \<Rightarrow> Raise (ValueError ''unsupported asdu type''))
      | StepPositionData v q \<Rightarrow>
          (case ty of I104_M_ST_NA \<Rightarrow> Ok (I101 (IoElement_M_ST_NA v q)) | I104_M_ST_TB \<Rightarrow> Ok (I101 (IoElement_M_ST_TB v q))
           | _ \<Rightarrow> Raise (ValueError ''unsupported asdu type''))
      | BitstringData v q \<Rightarrow>
          (case ty of I104_M_BO_NA \<Rightarrow> Ok (I101 (IoElement_M_BO_NA v q)) | I104_M_BO_TB \<Rightarrow> Ok (I101 (IoElement_M_BO_TB v q))
           | _ \<Rightarrow> Raise (ValueError ''unsupported asdu type''))
      | NormalizedData v q \<Rightarrow>
          (case (ty, q) of
             (I104_M_ME_ND, _) \<Rightarrow> Ok (I101 (IoElement_M_ME_ND v))
           | (I104_M_ME_NA, Some q) \<Rightarrow> Ok (I101 (IoElement_M_ME_NA v q))
           | (I104_M_ME_TD, Some q) \<Rightarrow> Ok (I101 (IoElement_M_ME_TD v q))
           | _ \<Rightarrow> Raise (ValueError ''unsupported asdu type''))
      | ScaledData v q \<Rightarrow>
          (case ty of I104_M_ME_NB \<Rightarrow> Ok (I101 (IoElement_M_ME_NB v q)) | I104_M_ME_TE \<Rightarrow> Ok (I101 (IoElement_M_ME_TE v q))
           | _ \<Rightarrow> Raise (ValueError ''unsupported asdu type''))
      | FloatingData v q \<Rightarrow>
          (case ty of I104_M_ME_NC \<Rightarrow> Ok (I101 (IoElement_M_ME_NC v q)) | I104_M_ME_TF \<Rightarrow> Ok (I101 (IoElement_M_ME_TF v q))
           | _ \<Rightarrow> Raise (ValueError ''unsupported asdu type''))
      | BinaryCounterData v q \<Rightarrow>
          (case ty of I104_M_IT_NA \<Rightarrow> Ok (I101 (IoElement_M_IT_NA v q)) | I104_M_IT_TB \<Rightarrow> Ok (I101 (IoElement_M_IT_TB v q))
           | _ \<Rightarrow> Raise (ValueError ''unsupported asdu type''))
      | ProtectionData v q t \<Rightarrow>
          (case ty of I104_M_EP_TD \<Rightarrow> Ok (I101 (IoElement_M_EP_TD v q t))
           | _ \<Rightarrow> Raise (ValueError ''unsupported asdu type''))
      | ProtectionStartData v q t \<Rightarrow>
          (case ty of I104_M_EP_TE \<Rightarrow> Ok (I101 (IoElement_M_EP_TE v q t))
           | _ \<Rightarrow> Raise (ValueError ''unsupported asdu type''))
      | ProtectionCommandData v q t \<Rightarrow>
          (case ty of I104_M_EP_TF \<Rightarrow> Ok (I101 (IoElement_M_EP_TF v q t))
           | _ \<Rightarrow> Raise (ValueError ''unsupported asdu type''))
      | StatusData v q \<Rightarrow>
          (case ty of I104_M_PS_NA \<Rightarrow> Ok (I101 (IoElement_M_PS_NA v q))
           | _ \<Rightarrow> Raise (ValueError ''unsupported asdu type'')))"

definition get_command_io_element_104 :: "Command \<Rightarrow> AsduType104 \<Rightarrow> IoElement104 result" where
  "get_command_io_element_104 command ty =
     (case command of
        SingleCommand v sel ql \<Rightarrow>
          (case ty of I104_C_SC_NA \<Rightarrow> Ok (I101 (IoElement_C_SC_NA v sel ql)) | I104_C_SC_TA \<Rightarrow> Ok (IoElement_C_SC_TA v sel ql)
           | _ \<Rightarrow> Raise (ValueError ''unsupported asdu type''))
      | DoubleCommand v sel ql \<Rightarrow>
          (case ty of I104_C_DC_NA \<Rightarrow> Ok (I101 (IoElement_C_DC_NA v sel ql)) | I104_C_DC_TA \<Rightarrow> Ok (IoElement_C_DC_TA v sel ql)
           | _ \<Rightarrow> Raise (ValueError ''unsupported asdu type''))
      | RegulatingCommand v sel ql \<Rightarrow>
          (case ty of I104_C_RC_NA \<Rightarrow> Ok (I101 (IoElement_C_RC_NA v sel ql)) | I104_C_RC_TA \<Rightarrow> Ok (IoElement_C_RC_TA v sel ql)
           | _ \<Rightarrow> Raise (ValueError ''unsupported asdu type''))
      | NormalizedCommand v sel \<Rightarrow>
          (case ty of I104_C_SE_NA \<Rightarrow> Ok (I101 (IoElement_C_SE_NA v sel)) | I104_C_SE_TA \<Rightarrow> Ok (IoElement_C_SE_TA v sel)
           | _ \<Rightarrow> Raise (ValueError ''unsupported asdu type''))
      | ScaledCommand v sel \<Rightarrow>
          (case ty of I104_C_SE_NB \<Rightarrow> Ok (I101 (IoElement_C_SE_NB v sel)) | I104_C_SE_TB \<Rightarrow> Ok (IoElement_C_SE_TB v sel)
           | _ \<Rightarrow> Raise (ValueError ''unsupported asdu type''))
      | FloatingCommand v sel \<Rightarrow>
          (case ty of I104_C_SE_NC \<Rightarrow> Ok (I101 (IoElement_C_SE_NC v sel)) | I104_C_SE_TC \<Rightarrow> Ok (IoElement_C_SE_TC v sel)
           | _ \<Rightarrow> Raise (ValueError ''unsupported asdu type''))
      | BitstringCommand v \<Rightarrow>
          (case ty of I104_C_BO_NA \<Rightarrow> Ok (I101 (IoElement_C_BO_NA v)) | I104_C_BO_TA \<Rightarrow> Ok (IoElement_C_BO_TA v)
           | _ \<Rightarrow> Raise (ValueError ''unsupported asdu type'')))"

definition get_parameter_io_element_104 :: "Parameter \<Rightarrow> AsduType104 \<Rightarrow> IoElement104 result" where
  "get_parameter_io_element_104 parameter ty =
     (case (ty, parameter) of
        (I104_P_ME_NA, NormalizedParameter v ql) \<Rightarrow> Ok (I101 (IoElement_P_ME_NA v ql))
      | (I104_P_ME_NB, ScaledParameter v ql) \<Rightarrow> Ok (I101 (IoElement_P_ME_NB v ql))
      | (I104_P_ME_NC, FloatingParameter v ql) \<Rightarrow> Ok (I101 (IoElement_P_ME_NC v ql))
      | _ \<Rightarrow> Raise (ValueError ''unsupported asdu type''))"

text \<open>The end of \<open>_encode_msg\<close>.\<close>

definition msg_asdu_104 ::
  "Msg104 \<Rightarrow> AsduType104 \<Rightarrow> CauseTypeOrOther \<Rightarrow> bool \<Rightarrow> int \<Rightarrow> IoElement104 \<Rightarrow> Time option \<Rightarrow> (AsduType104, Cause, IoElement104) ASDU" where
  "msg_asdu_104 msg ty cause_ty neg address e time =
     \<lparr>asdu_type = ty,
      asdu_cause = \<lparr>cause_type = cause_ty, is_negative_confirm = neg, is_test = msg104_is_test msg,
        originator_address = msg104_originator_address msg\<rparr>,
      asdu_address = msg104_asdu_address msg,
      asdu_ios = [\<lparr>io_address = address, io_elements = [e], io_time = time\<rparr>]\<rparr>"

definition encode_msg_104 :: "Msg104 \<Rightarrow> (AsduType104, Cause, IoElement104) ASDU result" where
  "encode_msg_104 msg =
     (case msg of
        DataMsg104 _ _ _ address data time cause \<Rightarrow>
          bindE (get_data_asdu_type_104 data time) (\<lambda>ty. bindE (get_data_io_element_104 data ty) (\<lambda>e.
            Ok (msg_asdu_104 msg ty (encode_msg_cause (res_cause_value DataResCause_value cause)) False address e time)))
      | CommandMsg104 _ _ _ address command neg time cause \<Rightarrow>
          bindE (get_command_io_element_104 command (get_command_asdu_type_104 command time)) (\<lambda>e.
            Ok (msg_asdu_104 msg (get_command_asdu_type_104 command time)
                 (encode_msg_cause (msg_cause_value CommandReqCause_value CommandResCause_value cause)) neg address e time))
      | InitializationMsg104 _ _ _ param_change cause \<Rightarrow>
          Ok (msg_asdu_104 msg I104_M_EI_NA (KnownCause CauseType_INITIALIZED) False 0
               (I101 (IoElement_M_EI_NA param_change (res_cause_value InitializationResCause_value cause))) None)
      | InterrogationMsg104 _ _ _ request neg cause \<Rightarrow>
          Ok (msg_asdu_104 msg I104_C_IC_NA
               (encode_msg_cause (msg_cause_value CommandReqCause_value CommandResCause_value cause)) neg 0
               (I101 (IoElement_C_IC_NA request)) None)
      | CounterInterrogationMsg104 _ _ _ request freeze neg cause \<Rightarrow>
          Ok (msg_asdu_104 msg I104_C_CI_NA
               (encode_msg_cause (msg_cause_value CommandReqCause_value CommandResCause_value cause)) neg 0
               (I101 (IoElement_C_CI_NA request freeze)) None)
      | ReadMsg104 _ _ _ address cause \<Rightarrow>
          Ok (msg_asdu_104 msg I104_C_RD_NA
               (encode_msg_cause (msg_cause_value ReadReqCause_value ReadResCause_value cause)) False address
               (I101 IoElement_C_RD_NA) None)
      | ClockSyncMsg104 _ _ _ time neg cause \<Rightarrow>
          Ok (msg_asdu_104 msg I104_C_CS_NA
               (encode_msg_cause (msg_cause_value ClockSyncReqCause_value ClockSyncResCause_value cause)) neg 0
               (I101 (IoElement_C_CS_NA time)) None)
      | TestMsg104 _ _ _ counter time cause \<Rightarrow>
          Ok (msg_asdu_104 msg I104_C_TS_TA
               (encode_msg_cause (msg_cause_value ActivationReqCause_value ActivationResCause_value cause)) False 0
               (IoElement_C_TS_TA counter) (Some time))
      | ResetMsg104 _ _ _ qualifier cause \<Rightarrow>
          Ok (msg_asdu_104 msg I104_C_RP_NA
               (encode_msg_cause (msg_cause_value ActivationReqCause_value ActivationResCause_value cause)) False 0
               (I101 (IoElement_C_RP_NA qualifier)) None)
      | ParameterMsg104 _ _ _ address parameter cause \<Rightarrow>
          bindE (get_parameter_io_element_104 parameter (get_parameter_asdu_type_104 parameter)) (\<lambda>e.
            Ok (msg_asdu_104 msg (get_parameter_asdu_type_104 parameter)
                 (encode_msg_cause (msg_cause_value ParameterReqCause_value ParameterResCause_value cause)) False address e None))
      | ParameterActivationMsg104 _ _ _ address qualifier cause \<Rightarrow>
          Ok (msg_asdu_104 msg I104_P_AC_NA
               (encode_msg_cause (msg_cause_value ParameterActivationReqCause_value ParameterActivationResCause_value cause))
               False address (I101 (IoElement_P_AC_NA qualifier)) None))"

definition get_msg_asdu_type_104 :: "Msg104 \<Rightarrow> AsduType104 result" where
  "get_msg_asdu_type_104 msg =
     (case msg of
        DataMsg104 _ _ _ _ data time _ \<Rightarrow> get_data_asdu_type_104 data time
      | CommandMsg104 _ _ _ _ command _ time _ \<Rightarrow> Ok (get_command_asdu_type_104 command time)
      | InitializationMsg104 _ _ _ _ _ \<Rightarrow> Ok I104_M_EI_NA
      | InterrogationMsg104 _ _ _ _ _ _ \<Rightarrow> Ok I104_C_IC_NA
      | CounterInterrogationMsg104 _ _ _ _ _ _ _ \<Rightarrow> Ok I104_C_CI_NA
      | ReadMsg104 _ _ _ _ _ \<Rightarrow> Ok I104_C_RD_NA
      | ClockSyncMsg104 _ _ _ _ _ _ \<Rightarrow> Ok I104_C_CS_NA
      | TestMsg104 _ _ _ _ _ _ \<Rightarrow> Ok I104_C_TS_TA
      | ResetMsg104 _ _ _ _ _ \<Rightarrow> Ok I104_C_RP_NA
      | ParameterMsg104 _ _ _ _ parameter _ \<Rightarrow> Ok (get_parameter_asdu_type_104 parameter)
      | ParameterActivationMsg104 _ _ _ _ _ _ \<Rightarrow> Ok I104_P_AC_NA)"

section \<open>Decoding\<close>

text \<open>The attributes of an element that IEC 104 shares with IEC 101.\<close>

definition shared_element :: "IoElement104 \<Rightarrow> IoElement result" where
  "shared_element e = (case e of I101 e \<Rightarrow> Ok e | _ \<Rightarrow> Raise (AttributeError ''value''))"

definition decode_data_io_element_104 :: "IoElement104 \<Rightarrow> AsduType104 \<Rightarrow> Data result" where
  "decode_data_io_element_104 e ty =
     bindE (shared_element e) (\<lambda>e.
      if ty \<in> {I104_M_SP_NA, I104_M_SP_TB} then bindE (single_attributes e) (\<lambda>(v, q). Ok (SingleData v q))
      else if ty \<in> {I104_M_DP_NA, I104_M_DP_TB} then bindE (double_attributes e) (\<lambda>(v, q). Ok (DoubleData v q))
      else if ty \<in> {I104_M_ST_NA, I104_M_ST_TB}
      then bindE (step_position_attributes e) (\<lambda>(v, q). Ok (StepPositionData v q))
      else if ty \<in> {I104_M_BO_NA, I104_M_BO_TB} then bindE (bitstring_attributes e) (\<lambda>(v, q). Ok (BitstringData v q))
      else if ty \<in> {I104_M_ME_NA, I104_M_ME_ND, I104_M_ME_TD}
      then (if ty = I104_M_ME_ND
            then (case e of IoElement_M_ME_ND v \<Rightarrow> Ok (NormalizedData v None) | _ \<Rightarrow> Raise (AttributeError ''value''))
            else bindE (normalized_attributes e) (\<lambda>(v, q). Ok (NormalizedData v (Some q))))
      else if ty \<in> {I104_M_ME_NB, I104_M_ME_TE} then bindE (scaled_attributes e) (\<lambda>(v, q). Ok (ScaledData v q))
      else if ty \<in> {I104_M_ME_NC, I104_M_ME_TF} then bindE (floating_attributes e) (\<lambda>(v, q). Ok (FloatingData v q))
      else if ty \<in> {I104_M_IT_NA, I104_M_IT_TB}
      then bindE (binary_counter_attributes e) (\<lambda>(v, q). Ok (BinaryCounterData v q))
      else if ty = I104_M_EP_TD then bindE (protection_attributes e) (\<lambda>(v, q, t). Ok (ProtectionData v q t))
      else if ty = I104_M_EP_TE
      then bindE (protection_start_attributes e) (\<lambda>(v, q, t). Ok (ProtectionStartData v q t))
      else if ty = I104_M_EP_TF
      then bindE (protection_command_attributes e) (\<lambda>(v, q, t). Ok (ProtectionCommandData v q t))
      else if ty = I104_M_PS_NA
      then (case e of IoElement_M_PS_NA v q \<Rightarrow> Ok (StatusData v q) | _ \<Rightarrow> Raise (AttributeError ''value''))
      else Raise (ValueError ''unsupported asdu type''))"

definition decode_command_io_element_104 :: "IoElement104 \<Rightarrow> AsduType104 \<Rightarrow> Command result" where
  "decode_command_io_element_104 e ty =
     (case e of
        I101 e \<Rightarrow>
          (case (ty, e) of
             (I104_C_SC_NA, IoElement_C_SC_NA v sel ql) \<Rightarrow> Ok (SingleCommand v sel ql)
           | (I104_C_DC_NA, IoElement_C_DC_NA v sel ql) \<Rightarrow> Ok (DoubleCommand v sel ql)
           | (I104_C_RC_NA, IoElement_C_RC_NA v sel ql) \<Rightarrow> Ok (RegulatingCommand v sel ql)
           | (I104_C_SE_NA, IoElement_C_SE_NA v sel) \<Rightarrow> Ok (NormalizedCommand v sel)
           | (I104_C_SE_NB, IoElement_C_SE_NB v sel) \<Rightarrow> Ok (ScaledCommand v sel)
           | (I104_C_SE_NC, IoElement_C_SE_NC v sel) \<Rightarrow> Ok (FloatingCommand v sel)
           | (I104_C_BO_NA, IoElement_C_BO_NA v) \<Rightarrow> Ok (BitstringCommand v)
           | _ \<Rightarrow> Raise (ValueError ''unsupported asdu type''))
      | IoElement_C_SC_TA v sel ql \<Rightarrow>
          if ty = I104_C_SC_TA then Ok (SingleCommand v sel ql) else Raise (ValueError ''unsupported asdu type'')
      | IoElement_C_DC_TA v sel ql \<Rightarrow>
          if ty = I104_C_DC_TA then Ok (DoubleCommand v sel ql) else Raise (ValueError ''unsupported asdu type'')
      | IoElement_C_RC_TA v sel ql \<Rightarrow>
          if ty = I104_C_RC_TA then Ok (RegulatingCommand v sel ql) else Raise (ValueError ''unsupported asdu type'')
      | IoElement_C_SE_TA v sel \<Rightarrow>
          if ty = I104_C_SE_TA then Ok (NormalizedCommand v sel) else Raise (ValueError ''unsupported asdu type'')
      | IoElement_C_SE_TB v sel \<Rightarrow>
          if ty = I104_C_SE_TB then Ok (ScaledCommand v sel) else Raise (ValueError ''unsupported asdu type'')
      | IoElement_C_SE_TC v sel \<Rightarrow>
          if ty = I104_C_SE_TC then Ok (FloatingCommand v sel) else Raise (ValueError ''unsupported asdu type'')
      | IoElement_C_BO_TA v \<Rightarrow>
          if ty = I104_C_BO_TA then Ok (BitstringCommand v) else Raise (ValueError ''unsupported asdu type'')
      | _ \<Rightarrow> Raise (ValueError ''unsupported asdu type''))"

definition decode_parameter_io_element_104 :: "IoElement104 \<Rightarrow> AsduType104 \<Rightarrow> Parameter result" where
  "decode_parameter_io_element_104 e ty =
     bindE (shared_element e) (\<lambda>e.
       case (ty, e) of
         (I104_P_ME_NA, IoElement_P_ME_NA v ql) \<Rightarrow> Ok (NormalizedParameter v ql)
       | (I104_P_ME_NB, IoElement_P_ME_NB v ql) \<Rightarrow> Ok (ScaledParameter v ql)
       | (I104_P_ME_NC, IoElement_P_ME_NC v ql) \<Rightarrow> Ok (FloatingParameter v ql)
       | _ \<Rightarrow> Raise (ValueError ''unsupported asdu type''))"

definition data_asdu_types_104 :: "AsduType104 set" where
  "data_asdu_types_104 =
     {I104_M_SP_NA, I104_M_DP_NA, I104_M_ST_NA, I104_M_BO_NA, I104_M_ME_NA, I104_M_ME_NB,
      I104_M_ME_NC, I104_M_IT_NA, I104_M_PS_NA, I104_M_ME_ND, I104_M_SP_TB, I104_M_DP_TB,
      I104_M_ST_TB, I104_M_BO_TB, I104_M_ME_TD, I104_M_ME_TE, I104_M_ME_TF, I104_M_IT_TB,
      I104_M_EP_TD, I104_M_EP_TE, I104_M_EP_TF}"

definition command_asdu_types_104 :: "AsduType104 set" where
  "command_asdu_types_104 =
     {I104_C_SC_NA, I104_C_DC_NA, I104_C_RC_NA, I104_C_SE_NA, I104_C_SE_NB, I104_C_SE_NC, I104_C_BO_NA,
      I104_C_SC_TA, I104_C_DC_TA, I104_C_RC_TA, I104_C_SE_TA, I104_C_SE_TB, I104_C_SE_TC, I104_C_BO_TA}"

text \<open>
  \<open>_decode_io_element\<close>: the message for the element with index \<open>i\<close> of an object. A test without
  time tag, which does not come from the decoder of data units, is an error here.
\<close>

definition decode_element_msg_104 ::
  "(AsduType104, Cause, IoElement104) ASDU \<Rightarrow> IoElement104 IO \<Rightarrow> IoElement104 \<Rightarrow> nat \<Rightarrow> Msg104 result" where
  "decode_element_msg_104 asdu io e i =
     (let address = io_address io + int i;
          ty = asdu_type asdu;
          test = is_test (asdu_cause asdu);
          originator = originator_address (asdu_cause asdu);
          a = asdu_address asdu;
          neg = is_negative_confirm (asdu_cause asdu);
          n = encode_cause_type (cause_type (asdu_cause asdu))
      in
        if ty \<in> data_asdu_types_104
        then bindE (decode_data_io_element_104 e ty) (\<lambda>data.
               Ok (DataMsg104 test originator a address data (io_time io) (decode_res_cause DataResCause_of n)))
        else if ty \<in> command_asdu_types_104
        then bindE (decode_command_io_element_104 e ty) (\<lambda>command.
               Ok (CommandMsg104 test originator a address command neg (io_time io)
                    (decode_msg_cause CommandReqCause_of CommandResCause_of n)))
        else (case (ty, e) of
          (I104_M_EI_NA, I101 (IoElement_M_EI_NA param_change cause)) \<Rightarrow>
            Ok (InitializationMsg104 test originator a param_change (decode_res_cause InitializationResCause_of cause))
        | (I104_C_IC_NA, I101 (IoElement_C_IC_NA qualifier)) \<Rightarrow>
            Ok (InterrogationMsg104 test originator a qualifier neg (decode_msg_cause CommandReqCause_of CommandResCause_of n))
        | (I104_C_CI_NA, I101 (IoElement_C_CI_NA request freeze)) \<Rightarrow>
            Ok (CounterInterrogationMsg104 test originator a request freeze neg
                 (decode_msg_cause CommandReqCause_of CommandResCause_of n))
        | (I104_C_RD_NA, _) \<Rightarrow>
            Ok (ReadMsg104 test originator a address (decode_msg_cause ReadReqCause_of ReadResCause_of n))
        | (I104_C_CS_NA, I101 (IoElement_C_CS_NA time)) \<Rightarrow>
            Ok (ClockSyncMsg104 test originator a time neg (decode_msg_cause ClockSyncReqCause_of ClockSyncResCause_of n))
        | (I104_C_TS_TA, IoElement_C_TS_TA counter) \<Rightarrow>
            (case io_time io of
               None \<Rightarrow> Raise (TypeError ''time'')
             | Some time \<Rightarrow>
                 Ok (TestMsg104 test originator a counter time
                      (decode_msg_cause ActivationReqCause_of ActivationResCause_of n)))
        | (I104_C_RP_NA, I101 (IoElement_C_RP_NA qualifier)) \<Rightarrow>
            Ok (ResetMsg104 test originator a qualifier (decode_msg_cause ActivationReqCause_of ActivationResCause_of n))
        | (I104_P_AC_NA, I101 (IoElement_P_AC_NA qualifier)) \<Rightarrow>
            Ok (ParameterActivationMsg104 test originator a address qualifier
                 (decode_msg_cause ParameterActivationReqCause_of ParameterActivationResCause_of n))
        | _ \<Rightarrow>
            if ty \<in> {I104_P_ME_NA, I104_P_ME_NB, I104_P_ME_NC}
            then bindE (decode_parameter_io_element_104 e ty) (\<lambda>parameter.
                   Ok (ParameterMsg104 test originator a address parameter
                        (decode_msg_cause ParameterReqCause_of ParameterResCause_of n)))
            else Raise (ValueError ''unsupported asdu type'')))"

definition decode_asdu_msgs_104 :: "(AsduType104, Cause, IoElement104) ASDU \<Rightarrow> Msg104 list result" where
  "decode_asdu_msgs_104 asdu =
     concatE (\<lambda>io. mapE (\<lambda>(i, e). decode_element_msg_104 asdu io e i) (enumerate 0 (io_elements io))) (asdu_ios asdu)"

section \<open>The class Encoder\<close>

text \<open>The data unit encoder of the driver has the default size limit.\<close>

definition encode_msgs_104 :: "Encoder104 \<Rightarrow> Msg104 list \<Rightarrow> bytes list result" where
  "encode_msgs_104 enc msgs = mapE (\<lambda>msg. bindE (encode_msg_104 msg) (encode_asdu_104 enc)) msgs"

definition decode_msgs_104 :: "Encoder104 \<Rightarrow> bytes \<Rightarrow> Msg104 list result" where
  "decode_msgs_104 enc data = bindE (decode_asdu_104 enc data) (\<lambda>(asdu, _). decode_asdu_msgs_104 asdu)"

section \<open>Well-formed messages\<close>

text \<open>The documented ranges of the fields; every time tag has seven bytes.\<close>

definition data_time_ok_104 :: "Data \<Rightarrow> Time option \<Rightarrow> bool" where
  "data_time_ok_104 data time \<longleftrightarrow>
     data_time_ok data time \<and> (case time of None \<Rightarrow> True | Some t \<Rightarrow> time_size t = TimeSize_SEVEN)"

definition msg_ok_104 :: "Msg104 \<Rightarrow> bool" where
  "msg_ok_104 msg \<longleftrightarrow>
     header_ok CauseSize_TWO AsduAddressSize_TWO (msg104_originator_address msg) (msg104_asdu_address msg) \<and>
     (case msg of
        DataMsg104 _ _ _ address data time cause \<Rightarrow>
          address_ok IoAddressSize_THREE address \<and> data_ok data \<and> data_time_ok_104 data time \<and>
          res_cause_ok 64 DataResCause_value cause
      | CommandMsg104 _ _ _ address command _ time cause \<Rightarrow>
          address_ok IoAddressSize_THREE address \<and> command_ok command \<and>
          (case time of None \<Rightarrow> True | Some t \<Rightarrow> time_ok t \<and> time_size t = TimeSize_SEVEN) \<and>
          msg_cause_ok CommandReqCause_value CommandResCause_value cause
      | InitializationMsg104 _ _ _ _ cause \<Rightarrow> res_cause_ok 128 InitializationResCause_value cause
      | InterrogationMsg104 _ _ _ request _ cause \<Rightarrow>
          0 \<le> request \<and> request < 256 \<and> msg_cause_ok CommandReqCause_value CommandResCause_value cause
      | CounterInterrogationMsg104 _ _ _ request _ _ cause \<Rightarrow>
          0 \<le> request \<and> request < 64 \<and> msg_cause_ok CommandReqCause_value CommandResCause_value cause
      | ReadMsg104 _ _ _ address cause \<Rightarrow>
          address_ok IoAddressSize_THREE address \<and> msg_cause_ok ReadReqCause_value ReadResCause_value cause
      | ClockSyncMsg104 _ _ _ time _ cause \<Rightarrow>
          time_ok time \<and> time_size time = TimeSize_SEVEN \<and>
          msg_cause_ok ClockSyncReqCause_value ClockSyncResCause_value cause
      | TestMsg104 _ _ _ counter time cause \<Rightarrow>
          0 \<le> counter \<and> counter < 65536 \<and> time_ok time \<and> time_size time = TimeSize_SEVEN \<and>
          msg_cause_ok ActivationReqCause_value ActivationResCause_value cause
      | ResetMsg104 _ _ _ qualifier cause \<Rightarrow>
          0 \<le> qualifier \<and> qualifier < 256 \<and> msg_cause_ok ActivationReqCause_value ActivationResCause_value cause
      | ParameterMsg104 _ _ _ address parameter cause \<Rightarrow>
          address_ok IoAddressSize_THREE address \<and> parameter_ok parameter \<and>
          msg_cause_ok ParameterReqCause_value ParameterResCause_value cause
      | ParameterActivationMsg104 _ _ _ address qualifier cause \<Rightarrow>
          address_ok IoAddressSize_THREE address \<and> 0 \<le> qualifier \<and> qualifier < 256 \<and>
          msg_cause_ok ParameterActivationReqCause_value ParameterActivationResCause_value cause)"

section \<open>Round trip\<close>

definition suits_104 :: "AsduType104 \<Rightarrow> IoElement104 \<Rightarrow> Time option \<Rightarrow> bool" where
  "suits_104 ty e time \<longleftrightarrow>
     io_element_ok_104 (AsduType104_value ty) e \<and>
     (case asdu_type_time_sizes_104 (AsduType104_value ty) of
        None \<Rightarrow> time = None
      | Some sz \<Rightarrow> (case time of None \<Rightarrow> False | Some t \<Rightarrow> time_ok t \<and> time_size t = sz))"

lemmas suits_104_defs =
  suits_104_def io_element_ok_104_def io_element_ok_def io_element_fields_ok_1_def io_element_fields_ok_2_def
  io_element_fields_ok_3_def element_asdu_type_def asdu_type_time_sizes_104_def asdu_type_time_sizes_101_def
  iec101_asdu_types_def

lemmas data_codec_104_defs =
  data_time_ok_104_def data_time_ok_def timed_type_104_def get_data_asdu_type_104_def get_data_io_element_104_def
  shared_element_def decode_data_io_element_104_def attributes_defs data_asdu_types_104_def

lemma data_encoding_104:
  assumes "data_ok data" "data_time_ok_104 data time"
  shows "\<exists>ty e. get_data_asdu_type_104 data time = Ok ty \<and> get_data_io_element_104 data ty = Ok e \<and>
    ty \<in> data_asdu_types_104 \<and> decode_data_io_element_104 e ty = Ok data \<and> suits_104 ty e time"
proof (cases time)
  case None
  with assms show ?thesis by (cases data) (auto simp: data_codec_104_defs suits_104_defs)
next
  case (Some t)
  with assms show ?thesis by (cases data) (auto simp: data_codec_104_defs suits_104_defs)
qed

lemma command_encoding_104:
  assumes "command_ok command" "case time of None \<Rightarrow> True | Some t \<Rightarrow> time_ok t \<and> time_size t = TimeSize_SEVEN"
  defines "ty \<equiv> get_command_asdu_type_104 command time"
  shows "\<exists>e. get_command_io_element_104 command ty = Ok e \<and> ty \<in> command_asdu_types_104 \<and>
    decode_command_io_element_104 e ty = Ok command \<and> suits_104 ty e time"
proof (cases time)
  case None
  with assms show ?thesis
    by (cases command) (simp_all add: get_command_io_element_104_def get_command_asdu_type_104_def
        decode_command_io_element_104_def command_asdu_types_104_def suits_104_defs)
next
  case (Some t)
  with assms show ?thesis
    by (cases command) (simp_all add: get_command_io_element_104_def get_command_asdu_type_104_def
        decode_command_io_element_104_def command_asdu_types_104_def suits_104_defs)
qed

lemma parameter_encoding_104:
  assumes "parameter_ok parameter"
  shows "\<exists>e. get_parameter_io_element_104 parameter (get_parameter_asdu_type_104 parameter) = Ok e \<and>
    get_parameter_asdu_type_104 parameter \<in> {I104_P_ME_NA, I104_P_ME_NB, I104_P_ME_NC} \<and>
    decode_parameter_io_element_104 e (get_parameter_asdu_type_104 parameter) = Ok parameter \<and>
    suits_104 (get_parameter_asdu_type_104 parameter) e None"
  using assms
  by (cases parameter)
    (simp_all add: get_parameter_io_element_104_def get_parameter_asdu_type_104_def
      decode_parameter_io_element_104_def shared_element_def suits_104_defs)

lemma msg_asdu_ok_104:
  assumes "header_ok CauseSize_TWO AsduAddressSize_TWO (msg104_originator_address msg) (msg104_asdu_address msg)"
    and "suits_104 ty e time" "cause_type_ok cause" "address_ok IoAddressSize_THREE address"
  shows "asdu_ok_104 (init_encoder_104 mx) (msg_asdu_104 msg ty cause neg address e time)"
proof -
  let ?cause = "\<lparr>cause_type = cause, is_negative_confirm = neg, is_test = msg104_is_test msg,
    originator_address = msg104_originator_address msg\<rparr>"
  have c: "cause_ok CauseSize_TWO ?cause" using assms(1,3) by (simp add: cause_ok_def header_ok_def)
  note encode_decode_cause [OF c]
  moreover have "is_byte (AsduType104_value ty)" by (cases ty) (simp_all add: is_byte_num)
  ultimately show ?thesis
    using assms c
    by (simp add: asdu_ok_104_def asdu_ok_def msg_asdu_104_def init_encoder_104_def lower_asdu_104_def
        asdu_is_sequence_def io_ok_def header_ok_def address_ok_def suits_104_def split: option.splits)
qed

lemma decode_one_element_104:
  "decode_asdu_msgs_104 (msg_asdu_104 msg ty cause neg address e time) =
    bindE (decode_element_msg_104 (msg_asdu_104 msg ty cause neg address e time)
      \<lparr>io_address = address, io_elements = [e], io_time = time\<rparr> e 0) (\<lambda>m. Ok [m])"
proof -
  have "appendE (bindE r (\<lambda>m. Ok [m])) (Ok []) = bindE r (\<lambda>m. Ok [m])" for r :: "Msg104 result"
    by (cases r) simp_all
  then show ?thesis by (simp add: decode_asdu_msgs_104_def msg_asdu_104_def)
qed

lemma msg_asdu_104_fields [simp]:
  "asdu_type (msg_asdu_104 msg ty cause neg address e time) = ty"
  "cause_type (asdu_cause (msg_asdu_104 msg ty cause neg address e time)) = cause"
  "is_negative_confirm (asdu_cause (msg_asdu_104 msg ty cause neg address e time)) = neg"
  "is_test (asdu_cause (msg_asdu_104 msg ty cause neg address e time)) = msg104_is_test msg"
  "originator_address (asdu_cause (msg_asdu_104 msg ty cause neg address e time)) = msg104_originator_address msg"
  "asdu_address (msg_asdu_104 msg ty cause neg address e time) = msg104_asdu_address msg"
  by (simp_all add: msg_asdu_104_def)

lemma command_types_104: "ty \<in> command_asdu_types_104 \<Longrightarrow> ty \<notin> data_asdu_types_104"
  by (auto simp: data_asdu_types_104_def command_asdu_types_104_def)

lemma system_types_104 [simp]:
  "I104_M_EI_NA \<notin> data_asdu_types_104" "I104_M_EI_NA \<notin> command_asdu_types_104"
  "I104_C_IC_NA \<notin> data_asdu_types_104" "I104_C_IC_NA \<notin> command_asdu_types_104"
  "I104_C_CI_NA \<notin> data_asdu_types_104" "I104_C_CI_NA \<notin> command_asdu_types_104"
  "I104_C_RD_NA \<notin> data_asdu_types_104" "I104_C_RD_NA \<notin> command_asdu_types_104"
  "I104_C_CS_NA \<notin> data_asdu_types_104" "I104_C_CS_NA \<notin> command_asdu_types_104"
  "I104_C_TS_TA \<notin> data_asdu_types_104" "I104_C_TS_TA \<notin> command_asdu_types_104"
  "I104_C_RP_NA \<notin> data_asdu_types_104" "I104_C_RP_NA \<notin> command_asdu_types_104"
  "I104_P_AC_NA \<notin> data_asdu_types_104" "I104_P_AC_NA \<notin> command_asdu_types_104"
  by (simp_all add: data_asdu_types_104_def command_asdu_types_104_def)

lemma parameter_types_104:
  assumes "ty \<in> {I104_P_ME_NA, I104_P_ME_NB, I104_P_ME_NC}"
  shows "ty \<notin> data_asdu_types_104" "ty \<notin> command_asdu_types_104"
  using assms by (auto simp: data_asdu_types_104_def command_asdu_types_104_def)

lemma system_elements_104:
  "0 \<le> n \<Longrightarrow> n < 128 \<Longrightarrow> suits_104 I104_M_EI_NA (I101 (IoElement_M_EI_NA pc n)) None"
  "0 \<le> n \<Longrightarrow> n < 256 \<Longrightarrow> suits_104 I104_C_IC_NA (I101 (IoElement_C_IC_NA n)) None"
  "0 \<le> n \<Longrightarrow> n < 64 \<Longrightarrow> suits_104 I104_C_CI_NA (I101 (IoElement_C_CI_NA n fr)) None"
  "suits_104 I104_C_RD_NA (I101 IoElement_C_RD_NA) None"
  "time_ok t \<Longrightarrow> time_size t = TimeSize_SEVEN \<Longrightarrow> suits_104 I104_C_CS_NA (I101 (IoElement_C_CS_NA t)) None"
  "0 \<le> n \<Longrightarrow> n < 65536 \<Longrightarrow> time_ok t \<Longrightarrow> time_size t = TimeSize_SEVEN \<Longrightarrow>
     suits_104 I104_C_TS_TA (IoElement_C_TS_TA n) (Some t)"
  "0 \<le> n \<Longrightarrow> n < 256 \<Longrightarrow> suits_104 I104_C_RP_NA (I101 (IoElement_C_RP_NA n)) None"
  "0 \<le> n \<Longrightarrow> n < 256 \<Longrightarrow> suits_104 I104_P_AC_NA (I101 (IoElement_P_AC_NA n)) None"
  by (simp_all add: suits_104_defs)

lemmas encode_decode_104_defs = encode_msg_104_def msg_ok_104_def decode_one_element_104 decode_element_msg_104_def decode_causes

lemma encode_decode_msg_104:
  assumes "msg_ok_104 msg"
  shows "\<exists>asdu. encode_msg_104 msg = Ok asdu \<and> asdu_ok_104 (init_encoder_104 mx) asdu \<and>
    decode_asdu_msgs_104 asdu = Ok [msg]"
proof -
  from assms have h: "header_ok CauseSize_TWO AsduAddressSize_TWO (msg104_originator_address msg) (msg104_asdu_address msg)"
    by (simp add: msg_ok_104_def)
  note ok = msg_asdu_ok_104 [OF h]
  show ?thesis
  proof (cases msg)
    case (DataMsg104 t og a address data time cause)
    with assms data_encoding_104 [of data time] obtain ty e where
      "get_data_asdu_type_104 data time = Ok ty" "get_data_io_element_104 data ty = Ok e" "ty \<in> data_asdu_types_104"
      "decode_data_io_element_104 e ty = Ok data" "suits_104 ty e time"
      by (auto simp: msg_ok_104_def)
    with assms DataMsg104 show ?thesis
      by (auto simp: encode_decode_104_defs intro!: ok [unfolded DataMsg104] encode_msg_cause_ok dest: data_cause_range)
  next
    case (CommandMsg104 t og a address command neg time cause)
    define ty where "ty = get_command_asdu_type_104 command time"
    from assms CommandMsg104 command_encoding_104 [of command time, folded ty_def] obtain e where
      c: "get_command_io_element_104 command ty = Ok e" "ty \<in> command_asdu_types_104"
      "decode_command_io_element_104 e ty = Ok command" "suits_104 ty e time"
      by (auto simp: msg_ok_104_def)
    with assms CommandMsg104 command_types_104 [OF c(2)] show ?thesis
      by (auto simp: encode_decode_104_defs simp flip: ty_def intro!: ok [unfolded CommandMsg104] encode_msg_cause_ok cause_ranges)
  next
    case (ParameterMsg104 t og a address parameter cause)
    define ty where "ty = get_parameter_asdu_type_104 parameter"
    from assms ParameterMsg104 parameter_encoding_104 [of parameter, folded ty_def] obtain e where
      p: "get_parameter_io_element_104 parameter ty = Ok e" "ty \<in> {I104_P_ME_NA, I104_P_ME_NB, I104_P_ME_NC}"
      "decode_parameter_io_element_104 e ty = Ok parameter" "suits_104 ty e None"
      by (auto simp: msg_ok_104_def)
    with assms ParameterMsg104 parameter_types_104 [OF p(2)] show ?thesis
      by (auto simp: encode_decode_104_defs simp flip: ty_def intro!: ok [unfolded ParameterMsg104] encode_msg_cause_ok cause_ranges)
  next
    case (InitializationMsg104 t og a pc cause)
    with assms initialization_cause_range [of cause] show ?thesis
      by (simp add: encode_decode_104_defs ok [unfolded InitializationMsg104] system_elements_104)
  qed (use assms ok in \<open>simp add: encode_decode_104_defs encode_msg_cause_ok cause_ranges system_elements_104\<close>)+
qed

lemma encode_decode_msgs_104:
  assumes "list_all msg_ok_104 msgs"
  shows "\<exists>datas. encode_msgs_104 (init_encoder_104 mx) msgs = Ok datas \<and>
    list_all2 (\<lambda>msg data. decode_msgs_104 (init_encoder_104 mx) data = Ok [msg] \<and> data \<noteq> []) msgs datas"
  using assms
proof (induction msgs)
  case (Cons msg msgs)
  let ?enc = "init_encoder_104 mx"
  from Cons.prems encode_decode_msg_104 [of msg] obtain asdu where
    a: "encode_msg_104 msg = Ok asdu" "asdu_ok_104 ?enc asdu" "decode_asdu_msgs_104 asdu = Ok [msg]" by auto
  from asdu_104_roundtrip [OF refl a(2)] obtain data where
    d: "encode_asdu_104 ?enc asdu = Ok data" "decode_asdu_104 ?enc data = Ok (asdu, [])"
    by (metis append_Nil2)
  have "decode_asdu_104 ?enc [] = Raise IndexError"
    by (simp add: decode_asdu_104_def decode_asdu_def byte_at_def)
  with d have "data \<noteq> []" by auto
  with a d Cons show ?case by (auto simp: encode_msgs_104_def decode_msgs_104_def)
qed (simp add: encode_msgs_104_def)

section \<open>Properties\<close>

text \<open>
  Messages of IEC 60870-5-104 whose fields are in their documented ranges are encoded, one
  data unit for each, and every data unit is decoded to the one message it was made from.
\<close>

lemma messages_104_roundtrip:
  assumes "list_all msg_ok_104 msgs"
  shows "\<exists>datas. encode_msgs_104 (init_encoder_104 mx) msgs = Ok datas \<and>
    mapE (decode_msgs_104 (init_encoder_104 mx)) datas = Ok (map (\<lambda>msg. [msg]) msgs)"
proof -
  from encode_decode_msgs_104 [OF assms] obtain datas where
    d: "encode_msgs_104 (init_encoder_104 mx) msgs = Ok datas"
    "list_all2 (\<lambda>msg data. decode_msgs_104 (init_encoder_104 mx) data = Ok [msg] \<and> data \<noteq> []) msgs datas"
    by blast
  then have "list_all2 (\<lambda>data r. decode_msgs_104 (init_encoder_104 mx) data = Ok r) datas (map (\<lambda>msg. [msg]) msgs)"
    by (simp add: list_all2_conv_all_nth)
  with d(1) show ?thesis by (auto simp: mapE_Ok_iff)
qed

lemma messages_104_roundtrip_witness:
  defines "msgs \<equiv> [InterrogationMsg104 False 3 5 20 False (ReqCause CommandReqCause_ACTIVATION),
      CommandMsg104 False 3 5 301 (DoubleCommand DoubleValue_ON True 1) False None (OtherMsgCause 63)]"
  shows "\<exists>datas. encode_msgs_104 (init_encoder_104 249) msgs = Ok datas \<and>
    mapE (decode_msgs_104 (init_encoder_104 249)) datas = Ok (map (\<lambda>msg. [msg]) msgs)"
proof (rule messages_104_roundtrip)
  have "63 \<notin> range CommandReqCause_value" "63 \<notin> range CommandResCause_value"
    unfolding CommandReqCause.set_members [symmetric] CommandResCause.set_members [symmetric]
    by (simp_all add: CommandReqCause_members_def CommandResCause_members_def del: CommandReqCause.set_members CommandResCause.set_members)
  then show "list_all msg_ok_104 msgs"
    by (simp add: msgs_def msg_ok_104_def header_ok_def address_ok_def is_byte_num)
qed

end
