(* ===== verification/Apci_Encoder.thy ===== *)
theory Apci_Encoder
  imports Framing
begin

text \<open>
  Frames of IEC 60870-5-104: \<^verbatim>\<open>iec60870/apci/common.py\<close>, \<^verbatim>\<open>iec60870/apci/encoder.py\<close> and the
  reading loop of \<^verbatim>\<open>iec60870/apci/transport.py\<close>. The sequence numbers have 15 bits, and a
  frame carries at most 249 bytes of user data.
\<close>

unbundle bit_operations_syntax

section \<open>Data\<close>

datatype ApduFunction =
    TESTFR_CON | TESTFR_ACT | STOPDT_CON | STOPDT_ACT | STARTDT_CON | STARTDT_ACT

fun ApduFunction_value :: "ApduFunction \<Rightarrow> int" where
  "ApduFunction_value TESTFR_CON = 0x83"
| "ApduFunction_value TESTFR_ACT = 0x43"
| "ApduFunction_value STOPDT_CON = 0x23"
| "ApduFunction_value STOPDT_ACT = 0x13"
| "ApduFunction_value STARTDT_CON = 0x0B"
| "ApduFunction_value STARTDT_ACT = 0x07"

definition ApduFunction_members :: "ApduFunction list" where
  "ApduFunction_members = [TESTFR_CON, TESTFR_ACT, STOPDT_CON, STOPDT_ACT, STARTDT_CON, STARTDT_ACT]"

definition ApduFunction_of :: "int \<Rightarrow> ApduFunction result" where
  "ApduFunction_of = enum_lookup ApduFunction_value ApduFunction_members"

datatype APDU =
    is_APDUI: APDUI (apdu_ssn: int) (apdu_rsn: int) (apdu_data: bytes)
  | APDUS (apdu_rsn: int)
  | APDUU (apdu_function: ApduFunction)

interpretation ApduFunction: enumeration ApduFunction_value ApduFunction_members
proof unfold_locales
  show "x \<in> set ApduFunction_members" for x by (cases x) (simp_all add: ApduFunction_members_def)
  show "distinct (map ApduFunction_value ApduFunction_members)" by (simp add: ApduFunction_members_def)
qed

lemma ApduFunction_of_value [simp]: "ApduFunction_of (ApduFunction_value f) = Ok f"
  by (simp add: ApduFunction_of_def ApduFunction.of_value)

section \<open>The encoder\<close>

definition get_next_apdu_size :: "bytes \<Rightarrow> nat result" where
  "get_next_apdu_size data =
     (if length data < 2 then Ok 2
      else bindE (byte_at data 0) (\<lambda>b0.
        if b0 \<noteq> 0x68 then Raise (Exception ''invalid start identifier'')
        else bindE (byte_at data 1) (\<lambda>b1.
          if b1 < 4 then Raise (Exception ''invalid length'')
          else Ok (nat b1 + 2))))"

definition decode_apdu :: "bytes \<Rightarrow> APDU result" where
  "decode_apdu data =
     bindE (byte_at data 0) (\<lambda>b0.
     if b0 \<noteq> 0x68 then Raise (Exception ''invalid start identifier'')
     else bindE (byte_at data 1) (\<lambda>len.
     if len < 4 then Raise (Exception ''invalid length'')
     else let control_fields = slice 2 6 data; data = slice 6 (2 + nat len) data in
       bindE (byte_at control_fields 0) (\<lambda>c0.
       if c0 AND 1 \<noteq> 0 \<and> c0 AND 2 \<noteq> 0
       then bindE (ApduFunction_of c0) (\<lambda>f. Ok (APDUU f))
       else if c0 AND 1 \<noteq> 0
       then bindE (byte_at control_fields 3) (\<lambda>c3. bindE (byte_at control_fields 2) (\<lambda>c2.
              Ok (APDUS (push_bit 7 c3 OR drop_bit 1 c2))))
       else bindE (byte_at control_fields 1) (\<lambda>c1.
            bindE (byte_at control_fields 3) (\<lambda>c3. bindE (byte_at control_fields 2) (\<lambda>c2.
              Ok (APDUI (push_bit 7 c1 OR drop_bit 1 c0) (push_bit 7 c3 OR drop_bit 1 c2) data)))))))"

definition encode_apdu :: "APDU \<Rightarrow> bytes result" where
  "encode_apdu apdu =
     bindE
       (case apdu of
          APDUI ssn rsn data \<Rightarrow>
            if ssn > 0x7FFF then Raise (ValueError ''invalid send sequence number'')
            else if rsn > 0x7FFF then Raise (ValueError ''invalid receive sequence number'')
            else if length data > 249 then Raise (ValueError ''unsupported data size'')
            else Ok ([push_bit 1 ssn AND 0xFF, drop_bit 7 ssn AND 0xFF,
                      push_bit 1 rsn AND 0xFF, drop_bit 7 rsn AND 0xFF] @ map uint data)
        | APDUS rsn \<Rightarrow>
            if rsn > 0x7FFF then Raise (ValueError ''invalid receive sequence number'')
            else Ok [1, 0, push_bit 1 rsn AND 0xFF, drop_bit 7 rsn AND 0xFF]
        | APDUU f \<Rightarrow> Ok [ApduFunction_value f, 0, 0, 0])
       (\<lambda>data. py_bytes ([0x68, int (length data)] @ data))"

text \<open>\<open>Transport.read\<close>: the bytes of one frame, decoded.\<close>

definition transport_read :: "bytes \<Rightarrow> (APDU \<times> bytes) result" where
  "transport_read = read_frame get_next_apdu_size decode_apdu"

section \<open>Round trip\<close>

definition seq_ok :: "int \<Rightarrow> bool" where
  "seq_ok n \<longleftrightarrow> 0 \<le> n \<and> n \<le> 0x7FFF"

definition apdu_ok :: "APDU \<Rightarrow> bool" where
  "apdu_ok apdu \<longleftrightarrow>
     (case apdu of
        APDUI ssn rsn data \<Rightarrow> seq_ok ssn \<and> seq_ok rsn \<and> length data \<le> 249
      | APDUS rsn \<Rightarrow> seq_ok rsn
      | APDUU _ \<Rightarrow> True)"

lemma sequence_bytes:
  assumes "seq_ok n"
  obtains lo hi where "n * 2 AND 0xFF = lo" "drop_bit 7 n AND 0xFF = hi" "is_byte lo" "is_byte hi"
    "lo AND 1 = 0" "push_bit 7 hi OR drop_bit (Suc 0) lo = n"
proof
  have n: "0 \<le> n" "n \<le> 32767" using assms by (simp_all add: seq_ok_def)
  show lo: "n * 2 AND 0xFF = 2 * (n mod 128)"
    using mult_mod_right [of 2 n 128] by (simp add: mask_mod mult.commute)
  have d: "0 \<le> n div 128" "n div 128 < 256" using n by presburger+
  then show "drop_bit 7 n AND 0xFF = n div 128" by (simp add: drop_bit_eq_div mask_mod)
  show "is_byte (n div 128)" using d by (simp add: is_byte_def)
  have "n mod 128 < 128" "0 \<le> n mod 128" by simp_all
  then show "is_byte (2 * (n mod 128))" by (simp add: is_byte_def)
  show "2 * (n mod 128) AND 1 = 0" by (simp add: mask_mod)
  have "push_bit 7 (n div 128) OR n mod 128 = push_bit 7 (n div 128) + n mod 128"
    by (rule or_disjoint_add [where n = 7]) (simp_all add: push_bit_eq_mult)
  then show "push_bit 7 (n div 128) OR drop_bit (Suc 0) (2 * (n mod 128)) = n"
    by (simp add: push_bit_eq_mult drop_bit_eq_div)
qed

lemma ApduFunction_bits [simp]:
  "ApduFunction_value f AND 1 = 1" "ApduFunction_value f AND 2 = 2" "is_byte (ApduFunction_value f)"
  by (cases f; simp add: is_byte_def)+

lemma encode_apdu_ok:
  assumes "apdu_ok apdu"
  obtains c0 c1 c2 c3 data where
    "encode_apdu apdu = Ok (wire ([0x68, int (4 + length data), c0, c1, c2, c3]) @ data)"
    "length data \<le> 249" "is_byte c0" "is_byte c1" "is_byte c2" "is_byte c3"
    "decode_apdu (wire ([0x68, int (4 + length data), c0, c1, c2, c3]) @ data) = Ok apdu"
proof (cases apdu)
  case (APDUI ssn rsn data)
  with assms have r: "seq_ok ssn" "seq_ok rsn" "length data \<le> 249" by (simp_all add: apdu_ok_def)
  obtain c0 c1 where s: "ssn * 2 AND 0xFF = c0" "drop_bit 7 ssn AND 0xFF = c1" "is_byte c0" "is_byte c1"
    "c0 AND 1 = 0" "push_bit 7 c1 OR drop_bit (Suc 0) c0 = ssn"
    by (rule sequence_bytes [OF r(1)])
  obtain c2 c3 where t: "rsn * 2 AND 0xFF = c2" "drop_bit 7 rsn AND 0xFF = c3" "is_byte c2" "is_byte c3"
    "push_bit 7 c3 OR drop_bit (Suc 0) c2 = rsn"
    by (rule sequence_bytes [OF r(2)])
  have len: "is_byte (4 + int (length data))" using r(3) by (simp add: is_byte_def)
  note l = uint_of_byte [OF len, simplified]
  have le: "ssn \<le> 32767" "rsn \<le> 32767" using r by (simp_all add: seq_ok_def)
  show ?thesis
  proof (rule that [of data c0 c1 c2 c3])
    show "encode_apdu apdu = Ok (wire [0x68, int (4 + length data), c0, c1, c2, c3] @ data)"
      using APDUI r le s t len by (simp add: encode_apdu_def py_bytes_def is_byte_num not_less)
    show "decode_apdu (wire [0x68, int (4 + length data), c0, c1, c2, c3] @ data) = Ok apdu"
      using APDUI s t l by (simp add: decode_apdu_def uint_of_byte slice_def Let_def)
  qed (use r s t in simp_all)
next
  case (APDUS rsn)
  with assms have r: "seq_ok rsn" by (simp add: apdu_ok_def)
  then have le: "rsn \<le> 32767" by (simp add: seq_ok_def)
  obtain c2 c3 where t: "rsn * 2 AND 0xFF = c2" "drop_bit 7 rsn AND 0xFF = c3" "is_byte c2" "is_byte c3"
    "push_bit 7 c3 OR drop_bit (Suc 0) c2 = rsn"
    by (rule sequence_bytes [OF r])
  show ?thesis
    using APDUS t le
    by (intro that [of "[]" 1 0 c2 c3])
      (simp_all add: encode_apdu_def decode_apdu_def py_bytes_def is_byte_num uint_of_byte slice_def)
next
  case (APDUU f)
  show ?thesis
    using APDUU
    by (intro that [of "[]" "ApduFunction_value f" 0 0 0])
      (simp_all add: encode_apdu_def decode_apdu_def py_bytes_def is_byte_num uint_of_byte slice_def)
qed

lemma get_next_apdu_size_prefix:
  assumes "length data \<le> 249"
    and "wire ([0x68, int (4 + length data), c0, c1, c2, c3]) @ data = p @ q"
  shows "get_next_apdu_size p = Ok (if length p < 2 then 2 else 6 + length data)"
proof (cases "length p < 2")
  case False
  then obtain a b r where p: "p = a # b # r"
    by (metis One_nat_def Suc_1 length_Cons lessI less_Suc_eq list.size(3) neq_Nil_conv zero_less_Suc)
  with assms(2) have "a = 0x68" "b = word_of_int (int (4 + length data))" by simp_all
  moreover have "uint (word_of_int (int (4 + length data)) :: byte) = int (4 + length data)"
    using assms(1) by (intro uint_of_byte) (simp add: is_byte_def)
  ultimately show ?thesis using p by (simp add: get_next_apdu_size_def)
qed (simp add: get_next_apdu_size_def)

interpretation apci: framing get_next_apdu_size decode_apdu encode_apdu apdu_ok
proof unfold_locales
  fix f bs
  assume ok: "apdu_ok f"
  show "\<exists>bs. encode_apdu f = Ok bs \<and> decode_apdu bs = Ok f"
    using ok by (rule encode_apdu_ok) blast
  assume enc: "encode_apdu f = Ok bs"
  from ok show "get_next_apdu_size bs = Ok (length bs)"
  proof (rule encode_apdu_ok)
    fix data :: bytes and c0 c1 c2 c3 :: int
    assume "encode_apdu f = Ok (wire [0x68, int (4 + length data), c0, c1, c2, c3] @ data)" "length data \<le> 249"
    with get_next_apdu_size_prefix [of data c0 c1 c2 c3 bs "[]"] enc show ?thesis by auto
  qed
next
  fix f p and q :: bytes
  assume ok: "apdu_ok f" and enc: "encode_apdu f = Ok (p @ q)" and "q \<noteq> []"
  from ok show "\<exists>n. get_next_apdu_size p = Ok n \<and> length p < n \<and> n \<le> length p + length q"
  proof (rule encode_apdu_ok)
    fix data :: bytes and c0 c1 c2 c3 :: int
    assume d: "encode_apdu f = Ok (wire [0x68, int (4 + length data), c0, c1, c2, c3] @ data)" "length data \<le> 249"
    then have eq: "wire [0x68, int (4 + length data), c0, c1, c2, c3] @ data = p @ q" using enc by simp
    then have "length (wire [0x68, int (4 + length data), c0, c1, c2, c3] @ data) = length (p @ q)"
      by (simp only: eq)
    then have "6 + length data = length p + length q" by simp
    with get_next_apdu_size_prefix [OF d(2) eq] \<open>q \<noteq> []\<close> show ?thesis by auto
  qed
qed

lemma transport_read_all:
  assumes "\<And>f. f \<in> set fs \<Longrightarrow> apdu_ok f"
  shows "\<exists>bss. mapE encode_apdu fs = Ok bss \<and>
    (\<forall>rest. repeat_decode transport_read (length fs) (concat bss @ rest) = Ok (fs, rest))"
  unfolding transport_read_def using assms by (rule apci.read_all)

text \<open>Decoding yields well-formed frames only.\<close>

lemma sequence_decode:
  assumes "is_byte h" "is_byte l"
  shows "seq_ok (push_bit 7 h OR drop_bit 1 l)"
proof -
  have l: "0 \<le> drop_bit 1 l" "drop_bit 1 l < 128"
    using assms(2) by (auto simp: is_byte_def drop_bit_eq_div)
  then have "push_bit 7 h OR drop_bit 1 l = push_bit 7 h + drop_bit 1 l"
    by (intro or_disjoint_add [where n = 7]) (simp_all add: push_bit_eq_mult)
  with l assms(1) show ?thesis by (simp add: seq_ok_def is_byte_def push_bit_eq_mult)
qed

lemma decode_apdu_wf:
  assumes "decode_apdu data = Ok apdu"
  shows "case apdu of APDUI ssn rsn d \<Rightarrow> seq_ok ssn \<and> seq_ok rsn | APDUS rsn \<Rightarrow> seq_ok rsn | APDUU f \<Rightarrow> True"
  using assms
  by (auto simp: decode_apdu_def Let_def byte_at_Ok_iff sequence_decode [simplified] split: if_splits)

section \<open>Properties\<close>

text \<open>
  Any sequence of well-formed frames, encoded one after the other and followed by anything,
  is read back frame by frame, and what follows is left for the next reading.
\<close>

lemma apdu_stream_roundtrip:
  assumes "list_all apdu_ok fs"
  shows "\<exists>bss. mapE encode_apdu fs = Ok bss \<and>
    (\<forall>rest. repeat_decode transport_read (length fs) (concat bss @ rest) = Ok (fs, rest))"
  using assms by (intro transport_read_all) (simp add: list_all_iff)

lemma fill_step:
  assumes "next_size data = Ok n" "length data < n" "fill next_size data stream = Ok r"
  shows "n - length data \<le> length stream"
    "fill next_size (data @ take (n - length data) stream) (drop (n - length data) stream) = Ok r"
proof -
  have "fill next_size data stream = (if length stream < n - length data then Raise ConnectionError
      else fill next_size (data @ take (n - length data) stream) (drop (n - length data) stream))"
    using assms(1,2) by (subst fill.simps) simp
  with assms(3) show "n - length data \<le> length stream"
    "fill next_size (data @ take (n - length data) stream) (drop (n - length data) stream) = Ok r"
    by (simp_all split: if_splits)
qed

lemma transport_read_frame:
  assumes "transport_read stream = Ok (apdu, rest)"
  obtains L where "4 \<le> L" "L \<le> 255" "L + 2 \<le> length stream" "rest = drop (L + 2) stream"
    "decode_apdu (take (L + 2) stream) = Ok apdu"
proof -
  from assms obtain data where f: "fill get_next_apdu_size [] stream = Ok (data, rest)" and d: "decode_apdu data = Ok apdu"
    by (auto simp: transport_read_def read_frame_def)
  have "get_next_apdu_size [] = Ok 2" by (simp add: get_next_apdu_size_def)
  note f1 = fill_step [OF this _ f, simplified]
  obtain a b s where s: "stream = a # b # s"
    using f1(1) by (metis One_nat_def Suc_1 Suc_le_length_iff)
  have f2: "fill get_next_apdu_size [a, b] s = Ok (data, rest)" using f1(2) s by simp
  then obtain n where n: "get_next_apdu_size [a, b] = Ok n" by (subst (asm) fill.simps) auto
  define L where "L = nat (uint b)"
  from n have "4 \<le> uint b" and L2: "n = L + 2"
    unfolding L_def by (auto simp: get_next_apdu_size_def split: if_splits simp del: nat_uint_eq)
  then have L: "4 \<le> L" "n = L + 2" unfolding L_def by linarith+
  have L2: "L \<le> 255" using uint_byte_bounds(2) [of b] unfolding L_def by linarith
  note f3 = fill_step [OF n _ f2, unfolded L(2), simplified]
  have len: "L \<le> length s" using f3(1) L(1) by simp
  let ?frame = "a # b # take L s"
  have "get_next_apdu_size ?frame = Ok (L + 2)"
    using n L by (simp add: get_next_apdu_size_def split: if_splits)
  moreover have "fill get_next_apdu_size ?frame (drop L s) = Ok (data, rest)" using f3(2) L(1) by simp
  ultimately have "data = ?frame" "rest = drop L s"
    using len by (subst (asm) fill.simps; simp)+
  with d s len L L2 show thesis by (intro that [of L]) simp_all
qed

lemma transport_read_one:
  "apdu_ok f \<Longrightarrow> encode_apdu f = Ok bs \<Longrightarrow> transport_read (bs @ rest) = Ok (f, rest)"
  unfolding transport_read_def by (rule apci.read_one)

text \<open>
  Whatever bytes arrive, a frame that is read has sequence numbers of 15 bits and at most
  251 bytes of data, and reading it took between 6 and 257 bytes from the front of the stream.
\<close>

lemma transport_read_bounds:
  assumes "transport_read stream = Ok (apdu, rest)"
  shows "(\<exists>frame. stream = frame @ rest \<and> 6 \<le> length frame \<and> length frame \<le> 257) \<and>
    (case apdu of
       APDUI ssn rsn d \<Rightarrow> seq_ok ssn \<and> seq_ok rsn \<and> length d \<le> 251
     | APDUS rsn \<Rightarrow> seq_ok rsn
     | APDUU f \<Rightarrow> True)"
proof -
  from assms obtain L where L: "4 \<le> L" "L \<le> 255" "L + 2 \<le> length stream" "rest = drop (L + 2) stream"
    and d: "decode_apdu (take (L + 2) stream) = Ok apdu" by (rule transport_read_frame)
  have "stream = take (L + 2) stream @ rest" using L by simp
  moreover have "length d \<le> 251" if x: "apdu = APDUI s r d" for s r d
  proof -
    have "length (slice 6 (2 + n) (take (L + 2) stream)) \<le> L + 2 - 6" for n
      using L by (simp add: slice_def)
    moreover obtain n where "d = slice 6 (2 + n) (take (L + 2) stream)"
      using d x by (auto simp: decode_apdu_def Let_def split: if_splits)
    ultimately have "length d \<le> L + 2 - 6" by simp
    with L(2) show ?thesis by linarith
  qed
  ultimately show ?thesis
    using decode_apdu_wf [OF d] L by (intro conjI exI [of _ "take (L + 2) stream"]) (auto split: APDU.splits)
qed

lemma transport_read_bounds_witness:
  "transport_read ([0x68, 4, 1, 0, 2, 0] @ [0x68]) = Ok (APDUS 1, [0x68]) \<and> seq_ok 1"
proof -
  have "encode_apdu (APDUS 1) = Ok [0x68, 4, 1, 0, 2, 0]"
    by (simp add: encode_apdu_def py_bytes_def is_byte_num)
  then have r: "transport_read ([0x68, 4, 1, 0, 2, 0] @ [0x68]) = Ok (APDUS 1, [0x68])"
    by (intro transport_read_one) (simp_all add: apdu_ok_def seq_ok_def)
  with transport_read_bounds [OF r] show ?thesis by simp
qed

end
