(* ===== verification/Apci_Connection.thy ===== *)
theory Apci_Connection
  imports Apci_Encoder
begin

text \<open>
  The connection of IEC 60870-5-104, from \<^verbatim>\<open>iec60870/apci/connection.py\<close>: the record
  \<open>Connection\<close> holds the instance variables, there is one definition for each method and
  handler, and \<open>conn_step\<close> interleaves the three loops, the timers and the callers.

  The loops are coroutines: they run without interruption from one \<open>await\<close> that can suspend
  to the next, so a step of the relation is such a run, and the fields \<open>read_pc\<close> and
  \<open>write_pc\<close> say where a suspended loop waits. \<open>Transport.write\<close> is no such place: on a
  transport that is not paused \<open>Protocol.write\<close> of \<^verbatim>\<open>tcp.py\<close> hands the bytes on and returns
  without suspending; back pressure of the TCP transport is not modelled. What is written is
  collected in \<open>written\<close>. A handle of \<open>call_later\<close> is identified by the number of handles
  created before it, and \<open>cancelled\<close> lists the handles that an acknowledgement cancelled.

  An exception that leaves a loop closes the connection (\<open>close_connection\<close>).
\<close>

section \<open>State\<close>

record SendQueueEntry =
  entry_data :: "bytes option"
  entry_future :: "nat option"
  wait_ack :: bool

datatype ReadPc =
    R_idle \<comment> \<open>in \<open>Transport.read\<close>\<close>
  | R_acked int bytes \<comment> \<open>in \<open>_process_apdui\<close>, after \<open>_set_ack\<close>\<close>
  | R_put bytes \<comment> \<open>in \<open>_process_apdui\<close>, waiting for room in the receive queue\<close>

datatype WritePc =
    W_idle \<comment> \<open>waiting for an entry of the send queue\<close>
  | W_drain SendQueueEntry \<comment> \<open>in \<open>Transport.drain\<close>\<close>
  | W_window SendQueueEntry bytes \<comment> \<open>in \<open>_write_apdui\<close>, waiting for room in the window\<close>

datatype TestPc = T_sleep | T_wait

record Connection =
  is_open :: bool
  always_enabled :: bool
  is_enabled :: bool
  enabled_notifications :: "bool list"
  send_window_size :: nat
  receive_window_size :: nat
  receive_queue_size :: nat
  send_queue_size :: nat
  receive_queue :: "bytes list"
  send_queue :: "SendQueueEntry list"
  test_event :: bool
  ssn :: int
  rsn :: int
  ack :: int
  w :: nat
  supervisory_handle :: bool
  supervisory_tasks :: nat
  waiting_ack_handles :: "(int \<times> nat) list"
  next_handle :: nat
  cancelled :: "nat list"
  written :: "APDU list"
  read_pc :: ReadPc
  write_pc :: WritePc
  test_pc :: TestPc
  wait_ack_tasks :: "(nat \<times> nat) list"
  future_results :: "(nat \<times> unit result) list"

definition init_connection :: "bool \<Rightarrow> nat \<Rightarrow> nat \<Rightarrow> nat \<Rightarrow> nat \<Rightarrow> Connection" where
  "init_connection always k rw sq rq =
     \<lparr>is_open = True, always_enabled = always, is_enabled = always, enabled_notifications = [],
      send_window_size = k, receive_window_size = rw, receive_queue_size = rq, send_queue_size = sq,
      receive_queue = [], send_queue = [], test_event = False, ssn = 0, rsn = 0, ack = 0, w = 0,
      supervisory_handle = False, supervisory_tasks = 0, waiting_ack_handles = [], next_handle = 0, cancelled = [],
      written = [], read_pc = R_idle, write_pc = W_idle, test_pc = T_sleep, wait_ack_tasks = [],
      future_results = []\<rparr>"

section \<open>Writing\<close>

definition transport_write :: "APDU \<Rightarrow> Connection \<Rightarrow> Connection result" where
  "transport_write apdu c = bindE (encode_apdu apdu) (\<lambda>_. Ok (c\<lparr>written := written c @ [apdu]\<rparr>))"

definition start_supervisory_timeout :: "Connection \<Rightarrow> Connection" where
  "start_supervisory_timeout c = (if supervisory_handle c then c else c\<lparr>supervisory_handle := True\<rparr>)"

definition stop_supervisory_timeout :: "Connection \<Rightarrow> Connection" where
  "stop_supervisory_timeout c = (if \<not> supervisory_handle c then c else c\<lparr>supervisory_handle := False\<rparr>)"

definition write_apdus :: "Connection \<Rightarrow> Connection result" where
  "write_apdus c =
     bindE (transport_write (APDUS (rsn c)) c) (\<lambda>c. Ok (stop_supervisory_timeout (c\<lparr>w := 0\<rparr>)))"

text \<open>\<open>_on_supervisory_timeout_async\<close>: an error is only logged.\<close>

definition on_supervisory_timeout :: "Connection \<Rightarrow> Connection" where
  "on_supervisory_timeout c = (case write_apdus c of Inl _ \<Rightarrow> c | Inr c' \<Rightarrow> c')"

text \<open>
  \<open>_write_apdui\<close> in two parts: up to the wait for the window, and after it. The second part
  returns the handle, or \<open>None\<close> where sending is not enabled.
\<close>

definition begin_write_apdui :: "Connection \<Rightarrow> Connection result" where
  "begin_write_apdui c =
     (if ssn c \<in> set (map fst (waiting_ack_handles c))
      then Raise (Exception ''can not reuse already registered ssn'') else Ok c)"

definition window_free :: "Connection \<Rightarrow> bool" where
  "window_free c \<longleftrightarrow> length (waiting_ack_handles c) < send_window_size c"

definition end_write_apdui :: "bytes \<Rightarrow> Connection \<Rightarrow> (nat option \<times> Connection) result" where
  "end_write_apdui data c =
     (if \<not> is_enabled c then Ok (None, c)
      else bindE (transport_write (APDUI (ssn c) (rsn c) data) c) (\<lambda>c.
        let c = stop_supervisory_timeout (c\<lparr>w := 0\<rparr>);
            handle = next_handle c
        in Ok (Some handle,
               c\<lparr>next_handle := handle + 1,
                 waiting_ack_handles := waiting_ack_handles c @ [(ssn c, handle)],
                 ssn := (ssn c + 1) mod 0x8000\<rparr>)))"

section \<open>Acknowledgements\<close>

text \<open>The sequence numbers from \<open>a\<close> up to, but without, \<open>b\<close>.\<close>

definition ack_range :: "int \<Rightarrow> int \<Rightarrow> int list" where
  "ack_range a b = (if b \<ge> a then [a..b - 1] else [a..0x7FFF] @ [0..b - 1])"

primrec pop_acks :: "int list \<Rightarrow> Connection \<Rightarrow> Connection result" where
  "pop_acks [] c = Ok c"
| "pop_acks (s # ss) c =
     (case map_of (waiting_ack_handles c) s of
        None \<Rightarrow> Raise (Exception ''received ack for unsent sequence number'')
      | Some handle \<Rightarrow>
          pop_acks ss (c\<lparr>waiting_ack_handles := filter (\<lambda>(s', _). s' \<noteq> s) (waiting_ack_handles c),
                         cancelled := cancelled c @ [handle]\<rparr>))"

definition set_ack :: "int \<Rightarrow> Connection \<Rightarrow> Connection result" where
  "set_ack a c = bindE (pop_acks (ack_range (ack c) a) c) (\<lambda>c. Ok (c\<lparr>ack := a\<rparr>))"

section \<open>Received frames\<close>

definition process_apduu :: "ApduFunction \<Rightarrow> Connection \<Rightarrow> Connection result" where
  "process_apduu f c =
     (case f of
        STARTDT_ACT \<Rightarrow>
          bindE (transport_write (APDUU STARTDT_CON) (c\<lparr>is_enabled := True\<rparr>)) (\<lambda>c.
            Ok (c\<lparr>enabled_notifications := enabled_notifications c @ [True]\<rparr>))
      | STOPDT_ACT \<Rightarrow>
          if \<not> always_enabled c
          then bindE (write_apdus c) (\<lambda>c.
               bindE (transport_write (APDUU STOPDT_CON) (c\<lparr>is_enabled := False\<rparr>)) (\<lambda>c.
                 Ok (c\<lparr>enabled_notifications := enabled_notifications c @ [False]\<rparr>)))
          else Ok c
      | TESTFR_ACT \<Rightarrow> transport_write (APDUU TESTFR_CON) c
      | TESTFR_CON \<Rightarrow> Ok (c\<lparr>test_event := True\<rparr>)
      | _ \<Rightarrow> Ok c)"

text \<open>
  \<open>_process_apdui\<close> in three parts: acknowledging, checking the sequence number, and counting
  the frame once its data is in the queue.
\<close>

definition finish_apdui :: "Connection \<Rightarrow> Connection result" where
  "finish_apdui c =
     (let c = c\<lparr>w := w c + 1, read_pc := R_idle\<rparr>
      in if w c \<ge> receive_window_size c then write_apdus c else Ok c)"

definition sequence_apdui :: "int \<Rightarrow> bytes \<Rightarrow> Connection \<Rightarrow> Connection result" where
  "sequence_apdui s data c =
     (if s \<noteq> rsn c then Raise (Exception ''missing apdu sequence number'')
      else let c = start_supervisory_timeout (c\<lparr>rsn := (rsn c + 1) mod 0x8000\<rparr>)
           in if data \<noteq> [] then Ok (c\<lparr>read_pc := R_put data\<rparr>) else finish_apdui c)"

text \<open>One frame read by \<open>_read_loop\<close>, up to the first suspension.\<close>

definition process_apdu :: "APDU \<Rightarrow> Connection \<Rightarrow> Connection result" where
  "process_apdu apdu c =
     (case apdu of
        APDUU f \<Rightarrow> process_apduu f c
      | APDUS r \<Rightarrow> set_ack r c
      | APDUI s r data \<Rightarrow> bindE (set_ack r c) (\<lambda>c. Ok (c\<lparr>read_pc := R_acked s data\<rparr>)))"

section \<open>The send queue\<close>

definition future_done :: "Connection \<Rightarrow> nat \<Rightarrow> bool" where
  "future_done c f \<longleftrightarrow> f \<in> set (map fst (future_results c))"

definition set_future :: "nat \<Rightarrow> unit result \<Rightarrow> Connection \<Rightarrow> Connection" where
  "set_future f r c = (if future_done c f then c else c\<lparr>future_results := future_results c @ [(f, r)]\<rparr>)"

text \<open>The end of one round of \<open>_write_loop\<close>.\<close>

definition finish_entry :: "SendQueueEntry \<Rightarrow> nat option \<Rightarrow> Connection \<Rightarrow> Connection" where
  "finish_entry entry handle c =
     (let c = c\<lparr>write_pc := W_idle\<rparr> in
      case entry_future entry of
        None \<Rightarrow> c
      | Some f \<Rightarrow>
          (case handle of
             Some h \<Rightarrow>
               if wait_ack entry \<and> \<not> future_done c f
               then c\<lparr>wait_ack_tasks := wait_ack_tasks c @ [(h, f)]\<rparr>
               else set_future f (Ok ()) c
           | None \<Rightarrow> set_future f (Ok ()) c))"

definition take_entry :: "SendQueueEntry \<Rightarrow> Connection \<Rightarrow> Connection result" where
  "take_entry entry c =
     (case entry_data entry of
        None \<Rightarrow> Ok (c\<lparr>write_pc := W_drain entry\<rparr>)
      | Some data \<Rightarrow> bindE (begin_write_apdui c) (\<lambda>c. Ok (c\<lparr>write_pc := W_window entry data\<rparr>)))"

text \<open>After \<open>Transport.drain\<close>: the entry waits for the frame sent last.\<close>

definition drained_entry :: "SendQueueEntry \<Rightarrow> Connection \<Rightarrow> Connection" where
  "drained_entry entry c =
     (let s = (if ssn c = 0 then 0x8000 else ssn c) - 1
      in finish_entry entry (map_of (waiting_ack_handles c) s) c)"

definition write_entry :: "SendQueueEntry \<Rightarrow> bytes \<Rightarrow> Connection \<Rightarrow> Connection result" where
  "write_entry entry data c =
     bindE (end_write_apdui data c) (\<lambda>(handle, c).
       let c = (case (handle, entry_future entry) of
                  (None, Some f) \<Rightarrow> set_future f (Raise ConnectionDisabledError) c
                | _ \<Rightarrow> c)
       in Ok (finish_entry entry handle c))"

section \<open>Closing\<close>

definition entry_futures :: "SendQueueEntry list \<Rightarrow> nat list" where
  "entry_futures es = List.map_filter entry_future es"

text \<open>
  The \<open>finally\<close> blocks: the futures of the entry in work, of the entries in the queue and of
  the waiting \<open>_wait_ack\<close> tasks get ConnectionError.
\<close>

definition close_connection :: "Connection \<Rightarrow> Connection" where
  "close_connection c =
     (let current = (case write_pc c of W_idle \<Rightarrow> [] | W_drain e \<Rightarrow> [e] | W_window e _ \<Rightarrow> [e]);
          pending = entry_futures (current @ send_queue c) @ map snd (wait_ack_tasks c)
      in fold (\<lambda>f. set_future f (Raise ConnectionError)) pending
           (stop_supervisory_timeout
             (c\<lparr>is_open := False, send_queue := [], wait_ack_tasks := [], write_pc := W_idle,
                read_pc := R_idle\<rparr>)))"

text \<open>A handler that raises closes the connection.\<close>

definition or_close :: "Connection \<Rightarrow> Connection result \<Rightarrow> Connection" where
  "or_close c r = (case r of Inl _ \<Rightarrow> close_connection c | Inr c' \<Rightarrow> c')"

section \<open>Steps\<close>

text \<open>What \<open>decode_apdu\<close> can return: the sequence numbers have 15 bits.\<close>

definition apdu_decoded :: "APDU \<Rightarrow> bool" where
  "apdu_decoded apdu \<longleftrightarrow>
     (case apdu of
        APDUI s r _ \<Rightarrow> seq_ok s \<and> seq_ok r
      | APDUS r \<Rightarrow> seq_ok r
      | APDUU _ \<Rightarrow> True)"

lemma decode_apdu_decoded: "decode_apdu data = Ok apdu \<Longrightarrow> apdu_decoded apdu"
  unfolding apdu_decoded_def by (rule decode_apdu_wf)

text \<open>
  What happens: a frame is read, a suspended loop goes on, a timer fires, a caller calls. A
  label names the frames read, the data handed to the caller of \<open>receive\<close> and the entries that
  \<open>send\<close> and \<open>drain\<close> queue.
\<close>

datatype Label = L_read APDU | L_receive bytes | L_send SendQueueEntry | L_tau

definition room :: "nat \<Rightarrow> 'a list \<Rightarrow> bool" where
  "room n q \<longleftrightarrow> n = 0 \<or> length q < n"

inductive conn_step :: "Connection \<Rightarrow> Label \<Rightarrow> Connection \<Rightarrow> bool" where
  read: "is_open c \<Longrightarrow> read_pc c = R_idle \<Longrightarrow> apdu_decoded apdu \<Longrightarrow>
    conn_step c (L_read apdu) (or_close c (process_apdu apdu c))"
| read_sequence: "is_open c \<Longrightarrow> read_pc c = R_acked s data \<Longrightarrow>
    conn_step c L_tau (or_close c (sequence_apdui s data c))"
| read_put: "is_open c \<Longrightarrow> read_pc c = R_put data \<Longrightarrow> room (receive_queue_size c) (receive_queue c) \<Longrightarrow>
    conn_step c L_tau (or_close c (finish_apdui (c\<lparr>receive_queue := receive_queue c @ [data]\<rparr>)))"
| write_take: "is_open c \<Longrightarrow> write_pc c = W_idle \<Longrightarrow> send_queue c = entry # q \<Longrightarrow>
    conn_step c L_tau (or_close c (take_entry entry (c\<lparr>send_queue := q\<rparr>)))"
| write_drained: "is_open c \<Longrightarrow> write_pc c = W_drain entry \<Longrightarrow>
    conn_step c L_tau (drained_entry entry c)"
| write_entry: "is_open c \<Longrightarrow> write_pc c = W_window entry data \<Longrightarrow> window_free c \<Longrightarrow>
    conn_step c L_tau (or_close c (write_entry entry data c))"
| wait_ack_done: "is_open c \<Longrightarrow> wait_ack_tasks c = ts @ (h, f) # ts' \<Longrightarrow> h \<in> set (cancelled c) \<Longrightarrow>
    conn_step c L_tau (set_future f (Ok ()) (c\<lparr>wait_ack_tasks := ts @ ts'\<rparr>))"
| response_timeout: "is_open c \<Longrightarrow> waiting_ack_handles c \<noteq> [] \<Longrightarrow>
    conn_step c L_tau (close_connection c)"
| supervisory_timeout: "is_open c \<Longrightarrow> supervisory_handle c \<Longrightarrow>
    conn_step c L_tau (c\<lparr>supervisory_tasks := supervisory_tasks c + 1\<rparr>)"
| supervisory_task: "is_open c \<Longrightarrow> supervisory_tasks c = Suc n \<Longrightarrow>
    conn_step c L_tau (on_supervisory_timeout (c\<lparr>supervisory_tasks := n\<rparr>))"
| test_send: "is_open c \<Longrightarrow> test_pc c = T_sleep \<Longrightarrow>
    conn_step c L_tau
      (or_close c (transport_write (APDUU TESTFR_ACT) (c\<lparr>test_event := False, test_pc := T_wait\<rparr>)))"
| test_confirmed: "is_open c \<Longrightarrow> test_pc c = T_wait \<Longrightarrow> test_event c \<Longrightarrow>
    conn_step c L_tau (c\<lparr>test_pc := T_sleep\<rparr>)"
| test_timeout: "is_open c \<Longrightarrow> test_pc c = T_wait \<Longrightarrow>
    conn_step c L_tau (close_connection c)"
| lost: "is_open c \<Longrightarrow> conn_step c L_tau (close_connection c)"
| user_send: "is_open c \<Longrightarrow> room (send_queue_size c) (send_queue c) \<Longrightarrow>
    conn_step c (L_send entry) (c\<lparr>send_queue := send_queue c @ [entry]\<rparr>)"
| user_cancel: "conn_step c L_tau (set_future f (Raise (Exception ''cancelled'')) c)"
| user_receive: "receive_queue c = data # q \<Longrightarrow>
    conn_step c (L_receive data) (c\<lparr>receive_queue := q\<rparr>)"

inductive_cases conn_stepE: "conn_step c l c'"

text \<open>
  The start of a connection by \<open>connect\<close>: STARTDT_ACT is written, then frames are read until
  STARTDT_CON comes. The result holds what was written and the frames that were not read;
  \<open>None\<close> where the confirmation is not among the incoming frames.
\<close>

fun wait_startdt_con :: "APDU list \<Rightarrow> APDU list \<Rightarrow> (APDU list \<times> APDU list) option" where
  "wait_startdt_con [] out = None"
| "wait_startdt_con (APDUU STARTDT_CON # incoming) out = Some (out, incoming)"
| "wait_startdt_con (APDUU TESTFR_ACT # incoming) out =
     wait_startdt_con incoming (out @ [APDUU TESTFR_CON])"
| "wait_startdt_con (_ # incoming) out = wait_startdt_con incoming out"

definition connect :: "nat \<Rightarrow> nat \<Rightarrow> nat \<Rightarrow> nat \<Rightarrow> APDU list \<Rightarrow> (APDU list \<times> APDU list \<times> Connection) option" where
  "connect k rw sq rq incoming =
     (case wait_startdt_con incoming [APDUU STARTDT_ACT] of
        None \<Rightarrow> None
      | Some (out, incoming) \<Rightarrow> Some (out, incoming, init_connection True k rw sq rq))"

text \<open>The sequences of labels of the runs from a state.\<close>

inductive conn_run :: "Connection \<Rightarrow> Label list \<Rightarrow> Connection \<Rightarrow> bool" for c0 where
  start: "conn_run c0 [] c0"
| step: "conn_run c0 ls c \<Longrightarrow> conn_step c l c' \<Longrightarrow> conn_run c0 (ls @ [l]) c'"

section \<open>Sequence numbers\<close>

text \<open>
  The numbers of the frames \<open>a\<close>, \<open>a + 1\<close>, ..., \<open>b - 1\<close>, counted from the first frame sent on
  the connection. The code's circular ranges are these.
\<close>

definition seq_number :: "nat \<Rightarrow> int" where
  "seq_number i = int (i mod 0x8000)"

definition seq_numbers :: "nat \<Rightarrow> nat \<Rightarrow> int list" where
  "seq_numbers a b = map seq_number [a..<b]"

lemma seq_number_bounds: "0 \<le> seq_number i" "seq_number i < 0x8000" "seq_ok (seq_number i)"
proof -
  show b: "0 \<le> seq_number i" "seq_number i < 0x8000" by (simp_all add: seq_number_def)
  from b show "seq_ok (seq_number i)" unfolding seq_ok_def by linarith
qed

lemma seq_number_0 [simp]: "seq_number 0 = 0"
  by (simp add: seq_number_def)

lemma seq_number_Suc: "seq_number (Suc i) = (seq_number i + 1) mod 0x8000"
  by (simp add: seq_number_def zmod_int mod_simps add.commute)

lemma seq_number_block: "y < 0x8000 \<Longrightarrow> seq_number (q * 0x8000 + y) = int y"
  by (simp add: seq_number_def)

lemma seq_number_split:
  obtains q y where "i = q * 0x8000 + y" "y < 0x8000" "seq_number i = int y"
proof
  show "i = i div 0x8000 * 0x8000 + i mod 0x8000" by simp
qed (simp_all add: seq_number_def)

lemma seq_number_inj:
  assumes "seq_number i = seq_number j" "a \<le> i" "i < a + 0x8000" "a \<le> j" "j < a + 0x8000"
  shows "i = j"
proof -
  obtain p x where i: "i = p * 0x8000 + x" "x < 0x8000" "seq_number i = int x" by (rule seq_number_split)
  obtain q y where j: "j = q * 0x8000 + y" "y < 0x8000" "seq_number j = int y" by (rule seq_number_split)
  have xy: "x = y" using assms(1) i j by simp
  consider "p < q" | "q < p" | "p = q" by linarith
  then show ?thesis
    using i j assms xy by cases linarith+
qed

lemma seq_number_surj:
  assumes "seq_ok x"
  obtains b where "a \<le> b" "b < a + 0x8000" "x = seq_number b"
proof
  let ?b = "a + nat ((x - int a) mod 0x8000)"
  show "a \<le> ?b" by simp
  have m: "0 \<le> (x - int a) mod 0x8000" "(x - int a) mod 0x8000 < 0x8000" by simp_all
  then show "?b < a + 0x8000" by linarith
  have "int ?b = int a + (x - int a) mod 0x8000" using m by simp
  then have "int ?b mod 0x8000 = x mod 0x8000" by (simp add: mod_simps)
  moreover have "x mod 0x8000 = x" using assms unfolding seq_ok_def by (intro mod_pos_pos_trivial) auto
  ultimately show "x = seq_number ?b" by (simp add: seq_number_def zmod_int)
qed

lemma seq_numbers_block:
  "y \<le> 0x8000 \<Longrightarrow> seq_numbers (q * 0x8000 + x) (q * 0x8000 + y) = [int x..int y - 1]"
proof (induction y)
  case 0
  then show ?case by (simp add: seq_numbers_def)
next
  case (Suc y)
  show ?case
  proof (cases "x \<le> y")
    case True
    have "[int x..int (Suc y) - 1] = [int x..int y - 1] @ [int y]"
      using True upto_rec2 [of "int x" "int y"] by simp
    moreover have "seq_numbers (q * 0x8000 + x) (q * 0x8000 + Suc y) =
        seq_numbers (q * 0x8000 + x) (q * 0x8000 + y) @ [seq_number (q * 0x8000 + y)]"
      using True by (simp add: seq_numbers_def)
    ultimately show ?thesis using Suc seq_number_block [of y q] by simp
  next
    case False
    then show ?thesis by (simp add: seq_numbers_def)
  qed
qed

lemma seq_numbers_append: "a \<le> m \<Longrightarrow> m \<le> b \<Longrightarrow> seq_numbers a m @ seq_numbers m b = seq_numbers a b"
  using upt_add_eq_append [of a m "b - m"] by (simp add: seq_numbers_def flip: map_append)

lemma ack_range_seq_numbers:
  assumes "a \<le> b" "b < a + 0x8000"
  shows "ack_range (seq_number a) (seq_number b) = seq_numbers a b"
proof -
  obtain q x where a: "a = q * 0x8000 + x" "x < 0x8000" "seq_number a = int x" by (rule seq_number_split)
  obtain p y where b: "b = p * 0x8000 + y" "y < 0x8000" "seq_number b = int y" by (rule seq_number_split)
  consider "p = q" "x \<le> y" | "p = Suc q" "y < x"
  proof -
    have "q \<le> p" "p \<le> Suc q" using a b assms by linarith+
    then consider "p = q" | "p = Suc q" by linarith
    then show thesis using a b assms that by cases auto
  qed
  then show ?thesis
  proof cases
    case 1
    with a b seq_numbers_block [of y q x] show ?thesis by (simp add: ack_range_def)
  next
    case 2
    have "seq_numbers a (q * 0x8000 + 0x8000) = [int x..0x7FFF]"
      using seq_numbers_block [of "0x8000" q x] a by simp
    moreover have "seq_numbers (q * 0x8000 + 0x8000) b = [0..int y - 1]"
      using seq_numbers_block [of y p 0] b 2 by (simp add: add.commute)
    moreover have "seq_numbers a (q * 0x8000 + 0x8000) @ seq_numbers (q * 0x8000 + 0x8000) b = seq_numbers a b"
      using a b 2 by (intro seq_numbers_append) simp_all
    ultimately show ?thesis using a b 2 by (simp add: ack_range_def)
  qed
qed

section \<open>The send window\<close>

definition number_handles :: "nat \<Rightarrow> nat \<Rightarrow> (int \<times> nat) list" where
  "number_handles a s = map (\<lambda>i. (seq_number i, i)) [a..<s]"

lemma number_handles_simps [simp]:
  "length (number_handles a s) = s - a"
  "map fst (number_handles a s) = seq_numbers a s"
  "number_handles a a = []"
  by (simp_all add: number_handles_def seq_numbers_def comp_def)

lemma number_handles_Cons: "a < s \<Longrightarrow> number_handles a s = (seq_number a, a) # number_handles (Suc a) s"
  by (simp add: number_handles_def upt_conv_Cons)

lemma number_handles_snoc: "a \<le> s \<Longrightarrow> number_handles a (Suc s) = number_handles a s @ [(seq_number s, s)]"
  by (simp add: number_handles_def)

lemma filter_number_handles:
  assumes "a < s" "s < a + 0x8000"
  shows "filter (\<lambda>(s', _). s' \<noteq> seq_number a) (number_handles a s) = number_handles (Suc a) s"
proof -
  have "seq_number x \<noteq> seq_number a" if "Suc a \<le> x" "x < s" for x
    using seq_number_inj [of x a a] that assms by auto
  then have "filter (\<lambda>(s', _). s' \<noteq> seq_number a) (number_handles (Suc a) s) = number_handles (Suc a) s"
    by (auto simp: filter_id_conv number_handles_def)
  then show ?thesis using assms by (simp add: number_handles_Cons)
qed

lemma pop_acks_sent:
  assumes "a \<le> b" "b \<le> s" "s < a + 0x8000" "waiting_ack_handles c = number_handles a s"
  shows "pop_acks (seq_numbers a b) c =
    Ok (c\<lparr>waiting_ack_handles := number_handles b s, cancelled := cancelled c @ [a..<b]\<rparr>)"
  using assms
proof (induction "b - a" arbitrary: a c)
  case 0
  then show ?case by (simp add: seq_numbers_def)
next
  case (Suc n)
  then have lt: "a < b" "a < s" by simp_all
  let ?c = "c\<lparr>waiting_ack_handles := number_handles (Suc a) s, cancelled := cancelled c @ [a]\<rparr>"
  have "pop_acks (seq_numbers (Suc a) b) ?c =
      Ok (?c\<lparr>waiting_ack_handles := number_handles b s, cancelled := cancelled ?c @ [Suc a..<b]\<rparr>)"
    using Suc lt by (intro Suc.hyps(1)) simp_all
  moreover have "map_of (number_handles a s) (seq_number a) = Some a"
    using lt by (simp add: number_handles_Cons)
  moreover have "seq_numbers a b = seq_number a # seq_numbers (Suc a) b"
    using lt by (simp add: seq_numbers_def upt_conv_Cons)
  ultimately show ?case
    using Suc.prems lt filter_number_handles [OF lt(2)]
    by (simp add: upt_conv_Cons)
qed

lemma pop_acks_unsent:
  assumes "a \<le> s" "s < b" "b < a + 0x8000" "waiting_ack_handles c = number_handles a s"
  shows "pop_acks (seq_numbers a b) c = Raise (Exception ''received ack for unsent sequence number'')"
  using assms
proof (induction "s - a" arbitrary: a c)
  case 0
  then have "a = s" by simp
  with 0 show ?case by (simp add: seq_numbers_def upt_conv_Cons)
next
  case (Suc n)
  then have lt: "a < s" "a < b" by simp_all
  have "map_of (number_handles a s) (seq_number a) = Some a"
    using lt by (simp add: number_handles_Cons)
  moreover have "seq_numbers a b = seq_number a # seq_numbers (Suc a) b"
    using lt by (simp add: seq_numbers_def upt_conv_Cons)
  moreover have "filter (\<lambda>(s', _). s' \<noteq> seq_number a) (number_handles a s) = number_handles (Suc a) s"
    using lt Suc.prems by (intro filter_number_handles) simp_all
  moreover have "pop_acks (seq_numbers (Suc a) b)
      (c\<lparr>waiting_ack_handles := number_handles (Suc a) s, cancelled := cancelled c @ [a]\<rparr>) =
      Raise (Exception ''received ack for unsent sequence number'')"
    using Suc lt by (intro Suc.hyps(1)) simp_all
  ultimately show ?case using Suc.prems by simp
qed

text \<open>
  \<open>in_window k a s c\<close>: the window has size \<open>k\<close>, \<open>s\<close> frames were sent, the first \<open>a\<close> of them are acknowledged, and the
  handles of exactly the others wait.
\<close>

definition in_window :: "nat \<Rightarrow> nat \<Rightarrow> nat \<Rightarrow> Connection \<Rightarrow> bool" where
  "in_window k a s c \<longleftrightarrow>
     send_window_size c = k \<and> a \<le> s \<and> s - a \<le> k \<and>
     ack c = seq_number a \<and> ssn c = seq_number s \<and>
     waiting_ack_handles c = number_handles a s \<and> next_handle c = s \<and> cancelled c = [0..<a] \<and>
     map apdu_ssn (filter is_APDUI (written c)) = seq_numbers 0 s"

lemma set_ack_window:
  assumes "in_window k a s c" "k < 0x8000" "a \<le> b" "b < a + 0x8000"
  shows "set_ack (seq_number b) c =
    (if b \<le> s
     then Ok (c\<lparr>waiting_ack_handles := number_handles b s, cancelled := [0..<b], ack := seq_number b\<rparr>)
     else Raise (Exception ''received ack for unsent sequence number''))"
proof -
  have r: "ack_range (ack c) (seq_number b) = seq_numbers a b" "s < a + 0x8000"
    using assms ack_range_seq_numbers [of a b] by (auto simp: in_window_def)
  show ?thesis
  proof (cases "b \<le> s")
    case True
    have "[0..<a] @ [a..<b] = [0..<b]"
      using upt_add_eq_append [of 0 a "b - a"] assms(3) by simp
    with True assms r pop_acks_sent [of a b s c] show ?thesis
      by (simp add: set_ack_def in_window_def)
  next
    case False
    with assms r pop_acks_unsent [of a s b c] show ?thesis
      by (simp add: set_ack_def in_window_def)
  qed
qed


text \<open>The fields that \<open>in_window\<close> reads; every step but three leaves them alone.\<close>

definition send_view :: "Connection \<Rightarrow> _" where
  "send_view c = (send_window_size c, ack c, ssn c, waiting_ack_handles c, next_handle c, cancelled c,
     filter is_APDUI (written c))"

lemma send_view_updates [simp]:
  "send_view (c\<lparr>wait_ack_tasks := a1\<rparr>) = send_view c"
  "send_view (c\<lparr>supervisory_tasks := a2\<rparr>) = send_view c"
  "send_view (c\<lparr>test_pc := a3\<rparr>) = send_view c"
  "send_view (c\<lparr>send_queue := a4\<rparr>) = send_view c"
  "send_view (c\<lparr>receive_queue := a5\<rparr>) = send_view c"
  by (simp_all add: send_view_def)

lemma in_window_cong: "send_view c = send_view c' \<Longrightarrow> in_window k a s c = in_window k a s c'"
  by (simp add: send_view_def in_window_def)

lemma transport_write_Ok:
  "transport_write apdu c = Ok c' \<Longrightarrow> c' = c\<lparr>written := written c @ [apdu]\<rparr> \<and> (\<exists>bs. encode_apdu apdu = Ok bs)"
  by (auto simp: transport_write_def)

lemma write_apdus_Ok:
  assumes "write_apdus c = Ok c'"
  shows "c' = c\<lparr>w := 0, supervisory_handle := False, written := written c @ [APDUS (rsn c)]\<rparr>"
  using assms by (auto simp: write_apdus_def stop_supervisory_timeout_def dest!: transport_write_Ok)

lemma set_future_view [simp]:
  "send_view (set_future f r c) = send_view c" "is_open (set_future f r c) = is_open c"
  by (simp_all add: send_view_def set_future_def)

lemma fold_set_future_view [simp]:
  "send_view (fold (\<lambda>f. set_future f r) fs c) = send_view c"
  "is_open (fold (\<lambda>f. set_future f r) fs c) = is_open c"
  by (induction fs arbitrary: c) simp_all

lemma close_view [simp]: "send_view (close_connection c) = send_view c" "\<not> is_open (close_connection c)"
  by (simp_all add: close_connection_def Let_def)
     (simp_all add: send_view_def stop_supervisory_timeout_def)

lemma finish_entry_view [simp]:
  "send_view (finish_entry e h c) = send_view c" "is_open (finish_entry e h c) = is_open c"
  by (auto simp: finish_entry_def Let_def send_view_def set_future_def split: option.splits)

lemma on_supervisory_timeout_view [simp]: "send_view (on_supervisory_timeout c) = send_view c"
  by (cases "write_apdus c") (auto simp: on_supervisory_timeout_def send_view_def dest!: write_apdus_Ok)

lemma process_apduu_view: "process_apduu f c = Ok c' \<Longrightarrow> send_view c' = send_view c"
  by (auto simp: process_apduu_def send_view_def dest!: transport_write_Ok write_apdus_Ok
      split: ApduFunction.splits if_splits)

lemma finish_apdui_view: "finish_apdui c = Ok c' \<Longrightarrow> send_view c' = send_view c"
  by (auto simp: finish_apdui_def send_view_def Let_def dest!: write_apdus_Ok split: if_splits)

lemma sequence_apdui_view: "sequence_apdui x d c = Ok c' \<Longrightarrow> send_view c' = send_view c"
  by (auto simp: sequence_apdui_def Let_def start_supervisory_timeout_def split: if_splits
      dest!: finish_apdui_view) (auto simp: send_view_def)

lemma take_entry_view: "take_entry e c = Ok c' \<Longrightarrow> send_view c' = send_view c"
  by (auto simp: take_entry_def begin_write_apdui_def send_view_def split: option.splits if_splits)

lemma end_write_disabled: "\<not> is_enabled c \<Longrightarrow> end_write_apdui d c = Ok (None, c)"
  by (simp add: end_write_apdui_def)

lemma end_write_enabled:
  assumes "end_write_apdui d c = Ok (h, c')" "is_enabled c"
  shows "h = Some (next_handle c) \<and>
    c' = c\<lparr>w := 0, supervisory_handle := False, written := written c @ [APDUI (ssn c) (rsn c) d],
      next_handle := next_handle c + 1,
      waiting_ack_handles := waiting_ack_handles c @ [(ssn c, next_handle c)],
      ssn := (ssn c + 1) mod 0x8000\<rparr>"
  using assms
  by (auto simp: end_write_apdui_def Let_def stop_supervisory_timeout_def dest!: transport_write_Ok)

lemma end_write_window:
  assumes "end_write_apdui d c = Ok (h, c')" "in_window k a s c" "window_free c"
  shows "in_window k a s c' \<and> h = None \<or> in_window k a (Suc s) c' \<and> h = Some s"
proof (cases "is_enabled c")
  case True
  note e = end_write_enabled [OF assms(1) True]
  from assms(2) have w: "a \<le> s" "ssn c = seq_number s" "next_handle c = s"
    "waiting_ack_handles c = number_handles a s" by (simp_all add: in_window_def)
  have "in_window k a (Suc s) c'"
    using assms(2,3) w e
    by (auto simp: in_window_def window_free_def number_handles_snoc seq_number_Suc seq_numbers_def)
  with e w show ?thesis by simp
qed (use assms end_write_disabled in auto)

lemma write_entry_window:
  assumes "write_entry e d c = Ok c'" "in_window k a s c" "window_free c"
  shows "\<exists>s'. s \<le> s' \<and> in_window k a s' c'"
proof -
  from assms(1) obtain h c1 where c1: "end_write_apdui d c = Ok (h, c1)"
    and c': "send_view c' = send_view c1"
    by (auto simp: write_entry_def Let_def split: option.splits)
  from end_write_window [OF c1 assms(2,3)] in_window_cong [OF c'] show ?thesis
    by (metis le_SucI order_refl)
qed

lemma or_close_view: "(\<And>c'. r = Ok c' \<Longrightarrow> send_view c' = send_view c) \<Longrightarrow> send_view (or_close c r) = send_view c"
  by (cases r) (simp_all add: or_close_def)

lemma process_apdu_window:
  assumes "in_window k a s c" "k < 0x8000" "process_apdu apdu c = Ok c'" "apdu_decoded apdu"
  shows "\<exists>a'. a \<le> a' \<and> in_window k a' s c'"
proof -
  have set: "\<exists>a'. a \<le> a' \<and> in_window k a' s c1" if x: "set_ack x c = Ok c1" "seq_ok x" for x c1
  proof -
    obtain b where b: "a \<le> b" "b < a + 0x8000" "x = seq_number b"
      using seq_number_surj [OF x(2)] by metis
    with set_ack_window [OF assms(1,2) b(1,2)] x(1) assms(1) show ?thesis
      by (auto simp: in_window_def split: if_splits intro!: exI [of _ b])
  qed
  have "in_window k b s (c1\<lparr>read_pc := p\<rparr>) = in_window k b s c1" for b c1 p
    by (rule in_window_cong) (simp add: send_view_def)
  with set assms(3,4) in_window_cong [OF process_apduu_view] assms(1) show ?thesis
    by (cases apdu) (fastforce simp: process_apdu_def apdu_decoded_def)+
qed

lemma or_close_window:
  assumes "in_window k a s c" "\<And>c'. r = Ok c' \<Longrightarrow> \<exists>a' s'. a \<le> a' \<and> s \<le> s' \<and> in_window k a' s' c'"
  shows "\<exists>a' s'. a \<le> a' \<and> s \<le> s' \<and> in_window k a' s' (or_close c r)"
proof (cases r)
  case (Inl x)
  with assms(1) show ?thesis
    using in_window_cong [OF close_view(1) [of c]] by (auto simp: or_close_def)
next
  case (Inr c')
  with assms(2) show ?thesis by (simp add: or_close_def)
qed

lemma same_view_window:
  assumes "in_window k a s c" "send_view c' = send_view c"
  shows "\<exists>a' s'. a \<le> a' \<and> s \<le> s' \<and> in_window k a' s' c'"
  using assms in_window_cong [OF assms(2)] by blast

theorem window_step:
  assumes "conn_step c l c'" "k < 0x8000" "in_window k a s c"
  shows "\<exists>a' s'. a \<le> a' \<and> s \<le> s' \<and> in_window k a' s' c'"
  using assms(1)
proof cases
  case (read apdu)
  show ?thesis
    unfolding read(2) using assms(3)
    by (rule or_close_window) (use process_apdu_window [OF assms(3,2) _ read(5)] in blast)
next
  case (read_sequence x d)
  show ?thesis
    unfolding read_sequence(2)
    by (rule same_view_window [OF assms(3) or_close_view]) (rule sequence_apdui_view)
next
  case (read_put d)
  have "send_view (c\<lparr>receive_queue := q\<rparr>) = send_view c" for q by (simp add: send_view_def)
  then show ?thesis
    unfolding read_put(2)
    by (intro same_view_window [OF assms(3) or_close_view]) (auto dest: finish_apdui_view)
next
  case (write_take e q)
  have "send_view (c\<lparr>send_queue := q\<rparr>) = send_view c" by (simp add: send_view_def)
  then show ?thesis
    unfolding write_take(2)
    by (intro same_view_window [OF assms(3)]) (auto simp: or_close_def dest: take_entry_view split: sum.split)
next
  case (write_drained e)
  then show ?thesis using assms(3) by (intro same_view_window) (simp_all add: drained_entry_def Let_def)
next
  case (write_entry e d)
  show ?thesis
    unfolding write_entry(2) using assms(3)
    by (rule or_close_window) (use write_entry_window [OF _ assms(3) write_entry(5)] in blast)
next
  case (supervisory_task n)
  have "send_view (c\<lparr>supervisory_tasks := n\<rparr>) = send_view c" by (simp add: send_view_def)
  then show ?thesis
    unfolding supervisory_task(2) by (intro same_view_window [OF assms(3)]) simp
next
  case test_send
  show ?thesis
    unfolding test_send(2)
    by (intro same_view_window [OF assms(3) or_close_view]) (auto simp: send_view_def dest!: transport_write_Ok)
qed (rule same_view_window [OF assms(3)], simp)+

section \<open>The receive window\<close>

text \<open>
  The number of received I frames that no written frame acknowledged: the last written
  receive sequence number against the current one.
\<close>

definition last_acked :: "APDU list \<Rightarrow> int" where
  "last_acked apdus =
     fold (\<lambda>apdu r. case apdu of APDUI _ r' _ \<Rightarrow> r' | APDUS r' \<Rightarrow> r' | APDUU _ \<Rightarrow> r) apdus 0"

definition unacknowledged :: "Connection \<Rightarrow> int" where
  "unacknowledged c = (rsn c - last_acked (written c)) mod 0x8000"

lemma last_acked_snoc [simp]:
  "last_acked (xs @ [APDUI s r d]) = r" "last_acked (xs @ [APDUS r]) = r"
  "last_acked (xs @ [APDUU f]) = last_acked xs"
  by (simp_all add: last_acked_def)

text \<open>
  Never more than the window, and the supervisory timer runs while there is a frame to
  acknowledge. A frame whose data waits for room in the receive queue is not yet counted in
  \<open>w\<close>.
\<close>

definition receive_inv :: "Connection \<Rightarrow> bool" where
  "receive_inv c \<longleftrightarrow> is_open c \<longrightarrow>
     seq_ok (rsn c) \<and> w c < receive_window_size c \<and>
     unacknowledged c \<le> int (w c) + (case read_pc c of R_put _ \<Rightarrow> 1 | _ \<Rightarrow> 0) \<and>
     (unacknowledged c > 0 \<longrightarrow> supervisory_handle c)"

definition receive_view :: "Connection \<Rightarrow> _" where
  "receive_view c = (is_open c, receive_window_size c, rsn c, w c, read_pc c, supervisory_handle c,
     last_acked (written c))"

lemma receive_inv_cong: "receive_view c = receive_view c' \<Longrightarrow> receive_inv c = receive_inv c'"
  by (simp add: receive_view_def receive_inv_def unacknowledged_def)

lemma receive_inv_same: "receive_inv c \<Longrightarrow> receive_view c' = receive_view c \<Longrightarrow> receive_inv c'"
  using receive_inv_cong [of c' c] by simp

lemma closed_receive_inv: "\<not> is_open c \<Longrightarrow> receive_inv c"
  by (simp add: receive_inv_def)

lemma set_future_receive_view [simp]: "receive_view (set_future f r c) = receive_view c"
  by (simp add: receive_view_def set_future_def)

lemma finish_entry_receive_view [simp]: "receive_view (finish_entry e h c) = receive_view c"
  by (auto simp: finish_entry_def Let_def receive_view_def set_future_def split: option.splits)

lemma or_close_receive: "(\<And>c'. r = Ok c' \<Longrightarrow> receive_inv c') \<Longrightarrow> receive_inv (or_close c r)"
  by (cases r) (simp_all add: or_close_def closed_receive_inv)

lemma acknowledged_receive_inv:
  assumes "seq_ok (rsn c)" "0 < receive_window_size c" "w c = 0" "last_acked (written c) = rsn c"
  shows "receive_inv c"
  using assms by (simp add: receive_inv_def unacknowledged_def split: ReadPc.split)

lemma set_ack_receive_view: "set_ack x c = Ok c' \<Longrightarrow> receive_view c' = receive_view c"
proof -
  have pop: "pop_acks xs c = Ok c1 \<Longrightarrow> receive_view c1 = receive_view c" for xs c c1
    by (induction xs arbitrary: c) (auto simp: receive_view_def split: option.splits)
  assume "set_ack x c = Ok c'"
  then obtain c1 where "pop_acks (ack_range (ack c) x) c = Ok c1" "c' = c1\<lparr>ack := x\<rparr>"
    by (auto simp: set_ack_def)
  with pop [of _ c c1] show ?thesis by (auto simp: receive_view_def)
qed

lemma increment_bound: "(x + 1 - y) mod 0x8000 \<le> (x - y) mod 0x8000 + (1 :: int)"
proof -
  have "(x + 1 - y) mod 0x8000 = ((x - y) mod 0x8000 + 1) mod 0x8000" by (simp add: mod_simps algebra_simps)
  also have "\<dots> \<le> (x - y) mod 0x8000 + 1" by (rule zmod_le_nonneg_dividend) simp
  finally show ?thesis .
qed

lemma finish_apdui_receive:
  assumes "seq_ok (rsn c)" "w c < receive_window_size c" "unacknowledged c \<le> int (w c) + 1"
    "unacknowledged c > 0 \<longrightarrow> supervisory_handle c" "finish_apdui c = Ok c'"
  shows "receive_inv c'"
proof (cases "w c + 1 \<ge> receive_window_size c")
  case True
  with assms(5) obtain c1 where "write_apdus c1 = Ok c'" "c1 = c\<lparr>w := w c + 1, read_pc := R_idle\<rparr>"
    by (auto simp: finish_apdui_def Let_def split: if_splits)
  with write_apdus_Ok [OF this(1)] assms(1,2) show ?thesis
    by (intro acknowledged_receive_inv) simp_all
next
  case False
  with assms show ?thesis
    by (auto simp: finish_apdui_def Let_def receive_inv_def unacknowledged_def)
qed

lemma sequence_apdui_receive:
  assumes "receive_inv c" "is_open c" "read_pc c = R_acked s0 d0" "sequence_apdui s d c = Ok c'"
  shows "receive_inv c'"
proof -
  from assms have inv: "seq_ok (rsn c)" "w c < receive_window_size c" "unacknowledged c \<le> int (w c)"
    by (simp_all add: receive_inv_def)
  define c1 where "c1 = start_supervisory_timeout (c\<lparr>rsn := (rsn c + 1) mod 0x8000\<rparr>)"
  have c1: "rsn c1 = (rsn c + 1) mod 0x8000" "w c1 = w c" "receive_window_size c1 = receive_window_size c"
    "written c1 = written c" "supervisory_handle c1"
    by (simp_all add: c1_def start_supervisory_timeout_def)
  have "unacknowledged c1 \<le> unacknowledged c + 1"
    using increment_bound [of "rsn c" "last_acked (written c)"]
    by (simp add: unacknowledged_def c1 mod_simps)
  moreover have "seq_ok ((rsn c + 1) mod 0x8000)"
    unfolding seq_ok_def using pos_mod_bound [of "0x8000" "rsn c + 1"] by simp
  ultimately have c1: "seq_ok (rsn c1)" "w c1 < receive_window_size c1" "unacknowledged c1 \<le> int (w c1) + 1"
    "supervisory_handle c1"
    using inv c1 by simp_all
  from assms(4) consider "d \<noteq> []" "c' = c1\<lparr>read_pc := R_put d\<rparr>" | "d = []" "finish_apdui c1 = Ok c'"
    by (auto simp: sequence_apdui_def c1_def Let_def split: if_splits)
  then show ?thesis
  proof cases
    case 1
    with c1 show ?thesis by (simp add: receive_inv_def unacknowledged_def)
  next
    case 2
    with finish_apdui_receive c1 show ?thesis by blast
  qed
qed

lemma write_apdus_receive:
  assumes "write_apdus c = Ok c'" "seq_ok (rsn c)" "0 < receive_window_size c"
  shows "receive_inv c'"
  using write_apdus_Ok [OF assms(1)] assms(2,3) by (intro acknowledged_receive_inv) simp_all

lemma process_apdu_receive:
  assumes "receive_inv c" "is_open c" "read_pc c = R_idle" "process_apdu apdu c = Ok c'"
  shows "receive_inv c'"
proof (cases apdu)
  case (APDUI s r d)
  with assms(4) obtain c1 where c1: "set_ack r c = Ok c1" "c' = c1\<lparr>read_pc := R_acked s d\<rparr>"
    by (auto simp: process_apdu_def)
  with set_ack_receive_view [OF c1(1)] assms show ?thesis
    by (simp add: receive_inv_def unacknowledged_def receive_view_def)
next
  case (APDUS r)
  with assms(4) have "receive_view c' = receive_view c"
    by (intro set_ack_receive_view) (simp add: process_apdu_def)
  with assms(1) show ?thesis by (rule receive_inv_same)
next
  case (APDUU f)
  from assms have inv: "seq_ok (rsn c)" "0 < receive_window_size c" by (auto simp: receive_inv_def)
  show ?thesis
  proof (cases "f = STOPDT_ACT \<and> \<not> always_enabled c")
    case True
    with assms(4) APDUU obtain c1 where c1: "write_apdus c = Ok c1" and
      "receive_view c' = receive_view c1"
      by (auto simp: process_apdu_def process_apduu_def receive_view_def dest!: transport_write_Ok)
    from write_apdus_receive [OF c1 inv] this(2) show ?thesis by (rule receive_inv_same)
  next
    case False
    with assms(4) APDUU have "receive_view c' = receive_view c"
      by (auto simp: process_apdu_def process_apduu_def receive_view_def split: ApduFunction.splits if_splits
          dest!: transport_write_Ok)
    with assms(1) show ?thesis by (rule receive_inv_same)
  qed
qed

lemma write_entry_receive:
  assumes "receive_inv c" "is_open c" "write_entry e d c = Ok c'"
  shows "receive_inv c'"
proof -
  from assms(3) obtain h c1 where c1: "end_write_apdui d c = Ok (h, c1)"
    and c': "receive_view c' = receive_view c1"
    by (auto simp: write_entry_def Let_def split: option.splits)
  from assms have inv: "seq_ok (rsn c)" "0 < receive_window_size c" by (auto simp: receive_inv_def)
  have "receive_inv c1"
  proof (cases "is_enabled c")
    case True
    from end_write_enabled [OF c1 True] inv show ?thesis
      by (intro acknowledged_receive_inv) auto
  next
    case False
    with end_write_disabled [of c d] c1 assms(1) show ?thesis by simp
  qed
  then show ?thesis using c' by (rule receive_inv_same)
qed

theorem receive_step:
  assumes "conn_step c l c'" "receive_inv c"
  shows "receive_inv c'"
proof -
  note view = receive_view_def receive_inv_def unacknowledged_def
  from assms(1) show ?thesis
  proof cases
    case (read apdu)
    with process_apdu_receive assms(2) show ?thesis by (auto intro!: or_close_receive)
  next
    case (read_sequence s d)
    with sequence_apdui_receive assms(2) show ?thesis by (auto intro!: or_close_receive)
  next
    case (read_put d)
    show ?thesis
      unfolding read_put(2)
    proof (rule or_close_receive, rule finish_apdui_receive)
    qed (use assms(2) read_put in \<open>auto simp: receive_inv_def unacknowledged_def\<close>)
  next
    case (write_take e q)
    have "receive_view c1 = receive_view c" if "take_entry e (c\<lparr>send_queue := q\<rparr>) = Ok c1" for c1
      using that by (auto simp: take_entry_def begin_write_apdui_def receive_view_def split: option.splits if_splits)
    with receive_inv_same [OF assms(2)] show ?thesis
      unfolding write_take(2) or_close_def by (auto simp: closed_receive_inv split: sum.split)
  next
    case (write_drained e)
    then show ?thesis
      by (intro receive_inv_same [OF assms(2)]) (simp add: drained_entry_def Let_def)
  next
    case (write_entry e d)
    with write_entry_receive assms(2) show ?thesis by (auto intro!: or_close_receive)
  next
    case (supervisory_task n)
    then show ?thesis
      using assms(2) receive_inv_cong [of "c\<lparr>supervisory_tasks := n\<rparr>" c]
        write_apdus_receive [of "c\<lparr>supervisory_tasks := n\<rparr>"]
      by (auto simp: on_supervisory_timeout_def view split: sum.split)
  next
    case test_send
    have "receive_view c1 = receive_view c"
      if "transport_write (APDUU TESTFR_ACT) (c\<lparr>test_event := False, test_pc := T_wait\<rparr>) = Ok c1" for c1
      using that by (auto simp: receive_view_def dest!: transport_write_Ok)
    with receive_inv_same [OF assms(2)] show ?thesis
      unfolding test_send(2) or_close_def by (auto simp: closed_receive_inv split: sum.split)
  qed (use assms(2) closed_receive_inv in \<open>simp_all add: view set_future_def\<close>)
qed

section \<open>Delivery\<close>

text \<open>What a run read from the transport, and what it handed to the caller.\<close>

definition reads :: "Label list \<Rightarrow> APDU list" where
  "reads ls = List.map_filter (\<lambda>l. case l of L_read apdu \<Rightarrow> Some apdu | _ \<Rightarrow> None) ls"

definition received :: "Label list \<Rightarrow> bytes list" where
  "received ls = List.map_filter (\<lambda>l. case l of L_receive data \<Rightarrow> Some data | _ \<Rightarrow> None) ls"

definition payloads :: "APDU list \<Rightarrow> bytes list" where
  "payloads apdus = filter (\<lambda>d. d \<noteq> []) (map apdu_data apdus)"

lemma label_simps [simp]:
  "reads [] = []" "received [] = []"
  "reads (ls @ [L_read apdu]) = reads ls @ [apdu]" "reads (ls @ [L_receive d]) = reads ls" "reads (ls @ [L_tau]) = reads ls"
  "reads (ls @ [L_send e]) = reads ls" "received (ls @ [L_send e]) = received ls"
  "received (ls @ [L_read apdu]) = received ls" "received (ls @ [L_receive d]) = received ls @ [d]"
  "received (ls @ [L_tau]) = received ls"
  by (simp_all add: reads_def received_def List.map_filter_def)

lemma payloads_simps [simp]:
  "payloads [] = []" "payloads (xs @ ys) = payloads xs @ payloads ys"
  "payloads [x] = (if apdu_data x = [] then [] else [apdu_data x])"
  by (simp_all add: payloads_def)

definition pending :: "Connection \<Rightarrow> bytes list" where
  "pending c = (case read_pc c of R_put d \<Rightarrow> [d] | _ \<Rightarrow> [])"

text \<open>
  \<open>deliver_inv n is ls c\<close>: of the I frames read (\<open>is\<close>) the first \<open>n\<close> came in sequence, and
  their data is what the caller got, followed by what waits for it.
\<close>

definition deliver_inv :: "nat \<Rightarrow> APDU list \<Rightarrow> bytes list \<Rightarrow> Connection \<Rightarrow> bool" where
  "deliver_inv n is got c \<longleftrightarrow>
     n \<le> length is \<and> map apdu_ssn (take n is) = seq_numbers 0 n \<and>
     got @ receive_queue c @ pending c = payloads (take n is) \<and>
     (case read_pc c of R_put d \<Rightarrow> 0 < n \<and> apdu_data (is ! (n - 1)) = d \<and> d \<noteq> [] | _ \<Rightarrow> True) \<and>
     (is_open c \<longrightarrow> rsn c = seq_number n \<and>
       (case read_pc c of
          R_acked s d \<Rightarrow> length is = Suc n \<and> apdu_ssn (is ! n) = s \<and> apdu_data (is ! n) = d
        | _ \<Rightarrow> length is = n))"

definition deliver_view :: "Connection \<Rightarrow> _" where
  "deliver_view c = (is_open c, rsn c, receive_queue c, read_pc c)"

lemma deliver_same: "deliver_inv n is got c \<Longrightarrow> deliver_view c' = deliver_view c \<Longrightarrow> deliver_inv n is got c'"
  by (simp add: deliver_view_def deliver_inv_def pending_def)

lemma close_deliver:
  assumes "deliver_inv n is got c"
  shows "\<exists>n. deliver_inv n is got (close_connection c)"
proof -
  have fold: "receive_queue (fold (\<lambda>f. set_future f r) fs c) = receive_queue c"
    "read_pc (fold (\<lambda>f. set_future f r) fs c) = read_pc c" for fs r c
    by (induction fs arbitrary: c) (simp_all add: set_future_def)
  have close: "receive_queue (close_connection c) = receive_queue c" "read_pc (close_connection c) = R_idle"
    by (simp_all add: close_connection_def Let_def fold stop_supervisory_timeout_def)
  show ?thesis
  proof (cases "\<exists>d. read_pc c = R_put d")
    case True
    then obtain d where d: "read_pc c = R_put d" ..
    with assms have n: "0 < n" "n \<le> length is" "apdu_data (is ! (n - 1)) = d" "d \<noteq> []"
      by (simp_all add: deliver_inv_def)
    then have "take n is = take (n - 1) is @ [is ! (n - 1)]"
      by (metis Suc_diff_1 Suc_le_lessD take_Suc_conv_app_nth)
    moreover have "seq_numbers 0 n = seq_numbers 0 (n - 1) @ [seq_number (n - 1)]"
      using n by (cases n) (simp_all add: seq_numbers_def)
    ultimately have "map apdu_ssn (take (n - 1) is) = seq_numbers 0 (n - 1)"
      and "(got @ receive_queue c) @ [d] = payloads (take (n - 1) is) @ [d]"
      using assms n d by (simp_all add: deliver_inv_def pending_def)
    then have "deliver_inv (n - 1) is got (close_connection c)"
      using n close by (simp add: deliver_inv_def pending_def)
    then show ?thesis ..
  next
    case False
    with assms close have "deliver_inv n is got (close_connection c)"
      by (auto simp: deliver_inv_def pending_def split: ReadPc.splits)
    then show ?thesis ..
  qed
qed

lemma closed_deliver_more:
  "deliver_inv n is got c \<Longrightarrow> \<not> is_open c \<Longrightarrow> deliver_inv n (is @ js) got c"
  by (auto simp: deliver_inv_def nth_append split: ReadPc.splits)

lemma or_close_deliver:
  assumes "deliver_inv n is got c" "\<And>c'. r = Ok c' \<Longrightarrow> \<exists>n. deliver_inv n is got c'"
  shows "\<exists>n. deliver_inv n is got (or_close c r)"
  using assms close_deliver [OF assms(1)] by (cases r) (auto simp: or_close_def)

lemma or_close_same_deliver:
  assumes "deliver_inv n is got c" "\<And>c'. r = Ok c' \<Longrightarrow> deliver_view c' = deliver_view c"
  shows "\<exists>n. deliver_inv n is got (or_close c r)"
  using or_close_deliver [OF assms(1)] deliver_same [OF assms(1) assms(2)] by blast

lemma deliver_views:
  "transport_write apdu c = Ok c' \<Longrightarrow> deliver_view c' = deliver_view c"
  "write_apdus c = Ok c' \<Longrightarrow> deliver_view c' = deliver_view c"
  "process_apduu f c = Ok c' \<Longrightarrow> deliver_view c' = deliver_view c"
  "take_entry e c = Ok c' \<Longrightarrow> deliver_view c' = deliver_view c"
  by (auto simp: deliver_view_def process_apduu_def take_entry_def begin_write_apdui_def
      dest!: transport_write_Ok write_apdus_Ok split: ApduFunction.splits if_splits option.splits)

lemma set_ack_deliver_view: "set_ack x c = Ok c' \<Longrightarrow> deliver_view c' = deliver_view c"
proof -
  have pop: "pop_acks xs c = Ok c1 \<Longrightarrow> deliver_view c1 = deliver_view c" for xs c c1
    by (induction xs arbitrary: c) (auto simp: deliver_view_def split: option.splits)
  assume "set_ack x c = Ok c'"
  then obtain c1 where "pop_acks (ack_range (ack c) x) c = Ok c1" "c' = c1\<lparr>ack := x\<rparr>"
    by (auto simp: set_ack_def)
  with pop [of _ c c1] show ?thesis by (auto simp: deliver_view_def)
qed

lemma finish_entry_deliver_view [simp]:
  "deliver_view (finish_entry e h c) = deliver_view c" "deliver_view (set_future f r c) = deliver_view c"
  by (auto simp: finish_entry_def Let_def deliver_view_def set_future_def split: option.splits)

lemma write_entry_deliver_view: "write_entry e d c = Ok c' \<Longrightarrow> deliver_view c' = deliver_view c"
proof -
  assume "write_entry e d c = Ok c'"
  then obtain h c1 where c1: "end_write_apdui d c = Ok (h, c1)" and c': "deliver_view c' = deliver_view c1"
    by (auto simp: write_entry_def Let_def split: option.splits)
  have "deliver_view c1 = deliver_view c"
  proof (cases "is_enabled c")
    case True
    then show ?thesis using end_write_enabled [OF c1 True] by (simp add: deliver_view_def)
  next
    case False
    then show ?thesis using end_write_disabled [of c d] c1 by simp
  qed
  with c' show ?thesis by simp
qed

lemma finish_apdui_fields:
  assumes "finish_apdui c = Ok c'"
  shows "read_pc c' = R_idle" "rsn c' = rsn c" "receive_queue c' = receive_queue c" "is_open c' = is_open c"
  using assms by (auto simp: finish_apdui_def Let_def dest!: write_apdus_Ok split: if_splits)

lemma read_deliver:
  assumes "deliver_inv n (filter is_APDUI (reads ls)) got c" "is_open c" "read_pc c = R_idle"
    and "process_apdu apdu c = Ok c'"
  shows "deliver_inv n (filter is_APDUI (reads (ls @ [L_read apdu]))) got c'"
proof (cases apdu)
  case (APDUI s r d)
  with assms(4) obtain c1 where c1: "set_ack r c = Ok c1" "c' = c1\<lparr>read_pc := R_acked s d\<rparr>"
    by (auto simp: process_apdu_def)
  from assms(1-3) have i: "length (filter is_APDUI (reads ls)) = n" by (simp add: deliver_inv_def)
  then have "take n (filter is_APDUI (reads ls)) = filter is_APDUI (reads ls)" by simp
  with i c1(2) set_ack_deliver_view [OF c1(1)] assms(1-3) APDUI show ?thesis
    unfolding deliver_inv_def by (simp add: deliver_view_def pending_def nth_append)
next
  case (APDUS r)
  with assms set_ack_deliver_view [of r c c'] show ?thesis
    by (simp add: process_apdu_def deliver_same)
next
  case (APDUU f)
  with assms deliver_views(3) [of f c c'] show ?thesis
    by (simp add: process_apdu_def deliver_same)
qed

lemma sequence_deliver:
  assumes "deliver_inv n is got c" "is_open c" "read_pc c = R_acked s d" "sequence_apdui s d c = Ok c'"
  shows "\<exists>n. deliver_inv n is got c'"
proof -
  from assms(1-3) have n: "length is = Suc n" "apdu_ssn (is ! n) = s" "apdu_data (is ! n) = d"
    "rsn c = seq_number n" "map apdu_ssn (take n is) = seq_numbers 0 n"
    "got @ receive_queue c = payloads (take n is)"
    by (simp_all add: deliver_inv_def pending_def)
  from assms(4) have s: "s = rsn c" by (auto simp: sequence_apdui_def split: if_splits)
  have t: "take (Suc n) is = take n is @ [is ! n]" 
    using n take_Suc_conv_app_nth [of n "is"] by simp
  define c1 where "c1 = start_supervisory_timeout (c\<lparr>rsn := (rsn c + 1) mod 0x8000\<rparr>)"
  have c1: "rsn c1 = seq_number (Suc n)" "receive_queue c1 = receive_queue c" "is_open c1"
    using assms(2) n by (simp_all add: c1_def start_supervisory_timeout_def seq_number_Suc)
  have seqs: "map apdu_ssn (take (Suc n) is) = seq_numbers 0 (Suc n)"
    unfolding t using n s by (simp add: seq_numbers_def)
  have pay: "payloads (take (Suc n) is) = payloads (take n is) @ (if d = [] then [] else [d])"
    unfolding t using n by simp
  from assms(4) consider "d \<noteq> []" "c' = c1\<lparr>read_pc := R_put d\<rparr>" | "d = []" "finish_apdui c1 = Ok c'"
    by (auto simp: sequence_apdui_def c1_def Let_def split: if_splits)
  then have "deliver_inv (Suc n) is got c'"
  proof cases
    case 1
    with n pay c1 seqs show ?thesis by (simp add: deliver_inv_def pending_def flip: append.assoc)
  next
    case 2
    with n pay c1 seqs finish_apdui_fields [OF 2(2)] show ?thesis
      by (simp add: deliver_inv_def pending_def)
  qed
  then show ?thesis ..
qed

theorem deliver_step:
  assumes "conn_step c l c'" "deliver_inv n (filter is_APDUI (reads ls)) (received ls) c"
  shows "\<exists>n. deliver_inv n (filter is_APDUI (reads (ls @ [l]))) (received (ls @ [l])) c'"
proof -
  have same: "?thesis" if "deliver_view c' = deliver_view c" "l = L_tau \<or> (\<exists>e. l = L_send e)"
    using that deliver_same [OF assms(2) that(1)] by auto
  from assms(1) show ?thesis
  proof cases
    case (read apdu)
    show ?thesis
    proof (cases "process_apdu apdu c")
      case (Inl x)
      from close_deliver [OF assms(2)] obtain m where
        "deliver_inv m (filter is_APDUI (reads ls)) (received ls) (close_connection c)" ..
      then have "deliver_inv m (filter is_APDUI (reads (ls @ [l]))) (received (ls @ [l])) (close_connection c)"
        using closed_deliver_more [OF _ close_view(2) [of c]] read(1) by simp
      with Inl read(2) show ?thesis by (auto simp: or_close_def)
    next
      case (Inr c1)
      with read_deliver [OF assms(2) read(3,4) Inr] read show ?thesis by (auto simp: or_close_def)
    qed
  next
    case (read_sequence s d)
    show ?thesis
      unfolding read_sequence(1,2) using assms(2) sequence_deliver read_sequence
      by (auto intro!: or_close_deliver)
  next
    case (read_put d)
    let ?c = "c\<lparr>receive_queue := receive_queue c @ [d]\<rparr>"
    have "deliver_inv n (filter is_APDUI (reads ls)) (received ls) c1" if "finish_apdui ?c = Ok c1" for c1
      using assms(2) read_put(3,4) finish_apdui_fields [OF that] by (auto simp: deliver_inv_def pending_def)
    then show ?thesis
      unfolding read_put(1,2) label_simps by (intro or_close_deliver [OF assms(2)]) blast
  next
    case (write_take e q)
    have "deliver_view (c\<lparr>send_queue := q\<rparr>) = deliver_view c" by (simp add: deliver_view_def)
    then show ?thesis
      unfolding write_take(1,2) label_simps
      by (intro or_close_same_deliver [OF assms(2)]) (simp add: deliver_views(4))
  next
    case (write_drained e)
    then show ?thesis by (intro same) (simp_all add: drained_entry_def Let_def)
  next
    case (write_entry e d)
    show ?thesis
      unfolding write_entry(1,2) label_simps
      by (intro or_close_same_deliver [OF assms(2)] write_entry_deliver_view)
  next
    case (supervisory_task m)
    have "deliver_view (c\<lparr>supervisory_tasks := m\<rparr>) = deliver_view c" by (simp add: deliver_view_def)
    then show ?thesis
      using deliver_views(2) [of "c\<lparr>supervisory_tasks := m\<rparr>"] supervisory_task
      by (intro same) (auto simp: on_supervisory_timeout_def split: sum.split)
  next
    case test_send
    have "deliver_view (c\<lparr>test_event := False, test_pc := T_wait\<rparr>) = deliver_view c"
      by (simp add: deliver_view_def)
    then show ?thesis
      unfolding test_send(1,2) label_simps
      by (intro or_close_same_deliver [OF assms(2)]) (simp add: deliver_views(1))
  next
    case (user_receive d q)
    with assms(2) have "deliver_inv n (filter is_APDUI (reads ls)) (received ls @ [d]) c'"
      by (auto simp: deliver_inv_def pending_def)
    with user_receive show ?thesis by auto
  qed (use close_deliver [OF assms(2)] same in \<open>auto simp: deliver_view_def set_future_def\<close>)
qed

section \<open>Runs\<close>

text \<open>The three invariants over the runs of a new connection.\<close>

lemma init_invariants:
  "in_window k 0 0 (init_connection always k rw sq rq)"
  "0 < rw \<Longrightarrow> receive_inv (init_connection always k rw sq rq)"
  "deliver_inv 0 [] [] (init_connection always k rw sq rq)"
  by (simp_all add: init_connection_def in_window_def receive_inv_def deliver_inv_def pending_def
      unacknowledged_def last_acked_def seq_numbers_def seq_ok_def)

theorem run_window:
  assumes "conn_run (init_connection always k rw sq rq) ls c" "k < 0x8000"
  shows "\<exists>a s. in_window k a s c"
  using assms(1)
proof induction
  case start
  show ?case using init_invariants(1) by blast
next
  case (step ls c l c')
  with window_step [OF step(2) assms(2)] show ?case by blast
qed

theorem run_receive:
  assumes "conn_run (init_connection always k rw sq rq) ls c" "0 < rw"
  shows "receive_inv c"
  using assms(1)
proof induction
  case start
  show ?case using init_invariants(2) assms(2) .
next
  case (step ls c l c')
  with receive_step [OF step(2)] show ?case by blast
qed

theorem run_deliver:
  assumes "conn_run (init_connection always k rw sq rq) ls c"
  shows "\<exists>n. deliver_inv n (filter is_APDUI (reads ls)) (received ls) c"
  using assms
proof induction
  case start
  show ?case by (intro exI [of _ 0]) (simp add: init_invariants)
next
  case (step ls c l c')
  then obtain n where "deliver_inv n (filter is_APDUI (reads ls)) (received ls) c" by blast
  from deliver_step [OF step(2) this] show ?case .
qed

text \<open>The configuration of a connection never changes.\<close>

definition configuration :: "Connection \<Rightarrow> _" where
  "configuration c = (always_enabled c, send_window_size c, receive_window_size c, receive_queue_size c, send_queue_size c)"

lemma configuration_updates [simp]:
  "configuration (set_future f r c) = configuration c"
  "configuration (finish_entry e h c) = configuration c"
  "configuration (start_supervisory_timeout c) = configuration c"
  "configuration (stop_supervisory_timeout c) = configuration c"
  "configuration (c\<lparr>read_pc := p\<rparr>) = configuration c"
  "configuration (c\<lparr>rsn := i\<rparr>) = configuration c"
  "configuration (c\<lparr>receive_queue := ds\<rparr>) = configuration c"
  "configuration (c\<lparr>send_queue := es\<rparr>) = configuration c"
  "configuration (c\<lparr>supervisory_tasks := n\<rparr>) = configuration c"
  "configuration (c\<lparr>wait_ack_tasks := ts\<rparr>) = configuration c"
  "configuration (c\<lparr>test_pc := tp\<rparr>) = configuration c"
  "configuration (c\<lparr>test_event := b, test_pc := tp\<rparr>) = configuration c"
  "configuration (c\<lparr>w := n\<rparr>) = configuration c"
  "configuration (c\<lparr>test_event := b\<rparr>) = configuration c"
  by (auto simp: configuration_def set_future_def finish_entry_def start_supervisory_timeout_def
      stop_supervisory_timeout_def Let_def split: option.split)

lemma configuration_operations:
  "transport_write x c = Ok c' \<Longrightarrow> configuration c' = configuration c"
  "write_apdus c = Ok c' \<Longrightarrow> configuration c' = configuration c"
  "process_apduu f c = Ok c' \<Longrightarrow> configuration c' = configuration c"
  "take_entry e c = Ok c' \<Longrightarrow> configuration c' = configuration c"
  by (auto simp: configuration_def process_apduu_def take_entry_def begin_write_apdui_def
      dest!: transport_write_Ok write_apdus_Ok split: ApduFunction.splits if_splits option.splits)

lemma configuration_set_ack:
  assumes "set_ack x c = Ok c'"
  shows "configuration c' = configuration c"
proof -
  have upd: "configuration (c\<lparr>waiting_ack_handles := hs, cancelled := xs\<rparr>) = configuration c"
    "configuration (c\<lparr>ack := x\<rparr>) = configuration c" for c hs xs x
    by (simp_all add: configuration_def)
  have "pop_acks xs c = Ok c1 \<Longrightarrow> configuration c1 = configuration c" for xs c c1
    by (induction xs arbitrary: c) (auto simp: upd split: option.splits)
  with assms show ?thesis by (auto simp: set_ack_def upd)
qed

lemma configuration_finish: "finish_apdui c = Ok c' \<Longrightarrow> configuration c' = configuration c"
  by (auto simp: finish_apdui_def Let_def dest!: configuration_operations(2) split: if_splits)

lemma configuration_process: "process_apdu x c = Ok c' \<Longrightarrow> configuration c' = configuration c"
  by (cases x) (auto simp: process_apdu_def dest: configuration_set_ack configuration_operations(3))

lemma configuration_sequence: "sequence_apdui s d c = Ok c' \<Longrightarrow> configuration c' = configuration c"
  by (auto simp: sequence_apdui_def Let_def dest!: configuration_finish split: if_splits)

lemma configuration_write_entry:
  assumes "write_entry e d c = Ok c'"
  shows "configuration c' = configuration c"
proof -
  from assms obtain h c1 where c1: "end_write_apdui d c = Ok (h, c1)" and c': "configuration c' = configuration c1"
    by (auto simp: write_entry_def Let_def split: option.splits)
  have "configuration c1 = configuration c"
  proof (cases "is_enabled c")
    case True
    with end_write_enabled [OF c1 True] show ?thesis by (simp add: configuration_def)
  next
    case False
    with end_write_disabled [of c d] c1 show ?thesis by simp
  qed
  with c' show ?thesis by simp
qed

lemma configuration_close [simp]: "configuration (close_connection c) = configuration c"
proof -
  have "configuration (fold (\<lambda>f. set_future f r) fs c) = configuration c" for fs r c
    by (induction fs arbitrary: c) simp_all
  then show ?thesis by (simp add: close_connection_def Let_def) (simp add: configuration_def)
qed

lemma configuration_or_close:
  "(\<And>c'. r = Ok c' \<Longrightarrow> configuration c' = configuration c) \<Longrightarrow> configuration (or_close c r) = configuration c"
  by (cases r) (simp_all add: or_close_def)

lemma configuration_step:
  assumes "conn_step c l c'"
  shows "configuration c' = configuration c"
  using assms
proof cases
  case (supervisory_task n)
  have "write_apdus (c\<lparr>supervisory_tasks := n\<rparr>) = Ok c1 \<Longrightarrow> configuration c1 = configuration c" for c1
    by (drule configuration_operations(2)) simp
  with supervisory_task show ?thesis by (simp add: on_supervisory_timeout_def split: sum.split)
next
  case test_send
  then show ?thesis by (auto intro!: configuration_or_close dest!: configuration_operations(1))
qed (auto intro!: configuration_or_close dest: configuration_process configuration_sequence configuration_finish
    configuration_write_entry configuration_operations simp: drained_entry_def Let_def)

lemma run_configuration:
  "conn_run (init_connection always k rw sq rq) ls c \<Longrightarrow> configuration c = (always, k, rw, rq, sq)"
proof (induction rule: conn_run.induct)
  case start
  show ?case by (simp add: configuration_def init_connection_def)
next
  case (step ls c l c')
  with configuration_step show ?case by metis
qed

section \<open>Properties\<close>

text \<open>
  C3: in every state that a connection reaches, whatever the other side sends, the frames
  written are numbered without gaps modulo 0x8000, at most \<open>k\<close> of them are unacknowledged, and
  handles wait for exactly these.
\<close>

theorem send_window_kept:
  assumes "conn_run (init_connection always k rw sq rq) ls c" "k < 0x8000"
  shows "\<exists>a s. a \<le> s \<and> s - a \<le> k \<and> ack c = seq_number a \<and> ssn c = seq_number s \<and>
    map fst (waiting_ack_handles c) = seq_numbers a s \<and>
    map apdu_ssn (filter is_APDUI (written c)) = seq_numbers 0 s"
proof -
  from run_window [OF assms] obtain a s where "in_window k a s c" by blast
  then show ?thesis by (auto simp: in_window_def)
qed

lemma example_run:
  obtains ls c where "conn_run (init_connection True 12 8 0 0) ls c" "is_open c" "read_pc c = R_idle"
     "map apdu_ssn (filter is_APDUI (written c)) = [0]" "received ls = [[7]]"
proof -
  let ?c0 = "init_connection True 12 8 0 0" and ?e = "\<lparr>entry_data = Some [1], entry_future = None, wait_ack = False\<rparr>"
  let ?c1 = "?c0\<lparr>send_queue := [?e]\<rparr>"
  let ?c2 = "?c0\<lparr>write_pc := W_window ?e [1]\<rparr>"
  let ?c3 = "or_close ?c2 (write_entry ?e [1] ?c2)"
  have enc: "encode_apdu (APDUI 0 0 [1]) = Ok (wire [0x68, 5, 0, 0, 0, 0, 1])"
    by (simp add: encode_apdu_def py_bytes_def is_byte_num)
  have c3: "?c3 = ?c0\<lparr>written := [APDUI 0 0 [1]], next_handle := 1, waiting_ack_handles := [(0, 0)], ssn := 1\<rparr>"
    by (simp add: write_entry_def end_write_apdui_def init_connection_def transport_write_def enc
        stop_supervisory_timeout_def finish_entry_def or_close_def Let_def)
  let ?c4 = "?c3\<lparr>read_pc := R_acked 0 [7]\<rparr>"
  let ?c5 = "?c3\<lparr>rsn := 1, supervisory_handle := True, read_pc := R_put [7]\<rparr>"
  let ?c6 = "?c3\<lparr>rsn := 1, supervisory_handle := True, read_pc := R_idle, receive_queue := [[7]], w := 1\<rparr>"
  have "conn_run ?c0 [] ?c0" by (rule conn_run.start)
  from conn_run.step [OF this user_send [of _ ?e]] have "conn_run ?c0 [L_send ?e] ?c1"
    by (simp add: init_connection_def room_def)
  from conn_run.step [OF this write_take [of ?c1 ?e "[]"]]
  have "conn_run ?c0 [L_send ?e, L_tau] ?c2"
    by (simp add: init_connection_def take_entry_def begin_write_apdui_def or_close_def)
  from conn_run.step [OF this write_entry [of ?c2 ?e "[1]"]]
  have "conn_run ?c0 [L_send ?e, L_tau, L_tau] ?c3"
    by (simp add: init_connection_def window_free_def)
  from conn_run.step [OF this read [of ?c3 "APDUI 0 0 [7]"]]
  have "conn_run ?c0 [L_send ?e, L_tau, L_tau, L_read (APDUI 0 0 [7])] ?c4"
    unfolding c3
    by (simp add: init_connection_def apdu_decoded_def seq_ok_def process_apdu_def set_ack_def ack_range_def or_close_def)
  from conn_run.step [OF this read_sequence [of ?c4 0 "[7]"]]
  have "conn_run ?c0 [L_send ?e, L_tau, L_tau, L_read (APDUI 0 0 [7]), L_tau] ?c5"
    unfolding c3
    by (simp add: init_connection_def sequence_apdui_def start_supervisory_timeout_def or_close_def)
  from conn_run.step [OF this read_put [of ?c5 "[7]"]]
  have "conn_run ?c0 [L_send ?e, L_tau, L_tau, L_read (APDUI 0 0 [7]), L_tau, L_tau] ?c6"
    unfolding c3
    by (simp add: init_connection_def room_def finish_apdui_def or_close_def)
  from conn_run.step [OF this user_receive [of ?c6 "[7]" "[]"]]
  have "conn_run ?c0 [L_send ?e, L_tau, L_tau, L_read (APDUI 0 0 [7]), L_tau, L_tau, L_receive [7]] (?c6\<lparr>receive_queue := []\<rparr>)"
    by simp
  moreover have "is_open (?c6\<lparr>receive_queue := []\<rparr>)" "read_pc (?c6\<lparr>receive_queue := []\<rparr>) = R_idle"
    "map apdu_ssn (filter is_APDUI (written (?c6\<lparr>receive_queue := []\<rparr>))) = [0]"
    unfolding c3 by (simp_all add: init_connection_def)
  moreover have "received [L_send ?e, L_tau, L_tau, L_read (APDUI 0 0 [7]), L_tau, L_tau, L_receive [7]] = [[7]]"
    by (simp add: received_def List.map_filter_simps)
  ultimately show thesis by (rule that)
qed

lemma send_window_kept_witness:
  "\<exists>ls c. conn_run (init_connection True 12 8 0 0) ls c \<and> written c \<noteq> [] \<and>
    (\<exists>a s. a \<le> s \<and> s - a \<le> 12 \<and> ack c = seq_number a \<and> ssn c = seq_number s \<and>
      map fst (waiting_ack_handles c) = seq_numbers a s \<and>
      map apdu_ssn (filter is_APDUI (written c)) = seq_numbers 0 s)"
proof -
  obtain ls c where c: "conn_run (init_connection True 12 8 0 0) ls c"
    "map apdu_ssn (filter is_APDUI (written c)) = [0]" by (rule example_run)
  from c(2) have "written c \<noteq> []" by auto
  with c(1) send_window_kept [OF c(1)] show ?thesis by auto
qed

text \<open>
  An acknowledgement is accepted exactly if it names the first unacknowledged frame, a later
  frame that was sent, or the next one; any other closes the connection. Once accepted, the
  handles of the frames before the named one are cancelled, each once and in order.
\<close>

lemma acknowledgement_accepted:
  assumes "in_window k a s c" "k < 0x8000" "seq_ok r"
  shows "case set_ack r c of
      Inl x \<Rightarrow> r \<notin> set (seq_numbers a (Suc s))
    | Inr c' \<Rightarrow> \<exists>b. a \<le> b \<and> b \<le> s \<and> r = seq_number b \<and> in_window k b s c' \<and>
        cancelled c' = cancelled c @ [a..<b]"
proof -
  from seq_number_surj [OF assms(3)] obtain b where b: "a \<le> b" "b < a + 0x8000" "r = seq_number b" by metis
  note S = set_ack_window [OF assms(1,2) b(1,2), folded b(3)]
  show ?thesis
  proof (cases "b \<le> s")
    case True
    have "[0..<b] = [0..<a] @ [a..<b]" using b(1) upt_add_eq_append [of 0 a "b - a"] by simp
    with True S b(1) assms(1) show ?thesis
      by (auto simp: in_window_def b(3) intro!: exI [of _ b])
  next
    case False
    have "seq_number i \<noteq> seq_number b" if "a \<le> i" "i < Suc s" for i
      using seq_number_inj [of i b a] that False b assms(1,2) by (auto simp: in_window_def)
    then have "r \<notin> set (seq_numbers a (Suc s))" unfolding seq_numbers_def b(3) by force
    with False S show ?thesis by simp
  qed
qed

lemma acknowledgement_accepted_witness:
  defines "c \<equiv> (init_connection True 12 8 0 0)\<lparr>ssn := 2, next_handle := 2, waiting_ack_handles := [(0, 0), (1, 1)],
    written := [APDUI 0 0 [1], APDUI 1 0 [2]]\<rparr>"
  shows "(\<exists>x. set_ack 3 c = Raise x) \<and> (\<exists>c'. set_ack 2 c = Ok c' \<and> cancelled c' = [0, 1]) \<and>
    3 \<notin> set (seq_numbers 0 (Suc 2))"
proof -
  have w: "in_window 12 0 2 c"
    by (simp add: c_def init_connection_def in_window_def seq_numbers_def number_handles_def upt_rec numeral_2_eq_2 seq_number_def)
  have s: "set_ack 3 c = Raise (Exception ''received ack for unsent sequence number'')"
    "set_ack 2 c = Ok (c\<lparr>waiting_ack_handles := [], cancelled := [0, 1], ack := 2\<rparr>)"
    by (simp_all add: c_def init_connection_def set_ack_def ack_range_def upto_rec1)
  from acknowledgement_accepted [OF w, of 3] acknowledgement_accepted [OF w, of 2] s show ?thesis
    by (simp add: seq_ok_def)
qed

text \<open>
  Never more received frames are unacknowledged than the receive window allows, and the
  supervisory timer runs as long as one is.
\<close>

lemma receive_window_kept:
  assumes "conn_run (init_connection always k rw sq rq) ls c" "0 < rw" "is_open c"
  shows "0 \<le> unacknowledged c \<and> unacknowledged c \<le> int rw \<and> (unacknowledged c \<noteq> 0 \<longrightarrow> supervisory_handle c)"
proof -
  have "receive_window_size c = rw"
    using run_configuration [OF assms(1)] by (simp add: configuration_def)
  moreover have "0 \<le> unacknowledged c" by (simp add: unacknowledged_def)
  ultimately show ?thesis
    using run_receive [OF assms(1,2)] assms(3) by (auto simp: receive_inv_def split: ReadPc.splits)
qed

text \<open>
  Whatever the other side sends, the callers of \<open>receive\<close> get, in order and once each,
  data of I frames that carried the sequence numbers 0, 1, 2, ...; empty data is left out.
\<close>

lemma received_in_sequence:
  assumes "conn_run (init_connection always k rw sq rq) ls c"
  shows "\<exists>n. n \<le> length (filter is_APDUI (reads ls)) \<and>
    map apdu_ssn (take n (filter is_APDUI (reads ls))) = seq_numbers 0 n \<and>
    (\<exists>waiting. received ls @ waiting = payloads (take n (filter is_APDUI (reads ls))))"
proof -
  from run_deliver [OF assms] obtain n where "deliver_inv n (filter is_APDUI (reads ls)) (received ls) c" ..
  then show ?thesis by (auto simp: deliver_inv_def)
qed

lemma received_in_sequence_witness:
  "\<exists>ls c. conn_run (init_connection True 12 8 0 0) ls c \<and> received ls = [[7]] \<and>
    (\<exists>n>0. map apdu_ssn (take n (filter is_APDUI (reads ls))) = seq_numbers 0 n)"
proof -
  obtain ls c where c: "conn_run (init_connection True 12 8 0 0) ls c" "received ls = [[7]]" by (rule example_run)
  from received_in_sequence [OF c(1)] c(2) obtain n waiting where
    n: "map apdu_ssn (take n (filter is_APDUI (reads ls))) = seq_numbers 0 n"
    "[7] # waiting = payloads (take n (filter is_APDUI (reads ls)))" by auto
  have "0 < n" using n(2) by (cases n) auto
  with c n(1) show ?thesis by blast
qed

lemma fold_set_future_results:
  "(f, r') \<in> set (future_results (fold (\<lambda>f. set_future f r) fs c)) \<longleftrightarrow>
    (f, r') \<in> set (future_results c) \<or> f \<in> set fs \<and> \<not> future_done c f \<and> r' = r"
proof (induction fs arbitrary: c)
  case (Cons g fs)
  show ?case by (simp add: Cons.IH) (auto simp: set_future_def future_done_def)
qed simp

lemma entry_futures_iff: "f \<in> set (entry_futures es) \<longleftrightarrow> (\<exists>e\<in>set es. entry_future e = Some f)"
  by (induction es) (auto simp: entry_futures_def List.map_filter_simps split: option.split)

lemma close_futures:
  "(f, r) \<in> set (future_results (close_connection c)) \<longleftrightarrow>
    (f, r) \<in> set (future_results c) \<or>
    \<not> future_done c f \<and> r = Raise ConnectionError \<and>
      (f \<in> set (entry_futures ((case write_pc c of W_idle \<Rightarrow> [] | W_drain e \<Rightarrow> [e] | W_window e _ \<Rightarrow> [e]) @ send_queue c)) \<or>
       f \<in> snd ` set (wait_ack_tasks c))"
  by (auto simp: close_connection_def Let_def fold_set_future_results stop_supervisory_timeout_def future_done_def)

text \<open>
  Data that does not fit a frame, written on an enabled connection, closes the connection
  without writing anything, and a caller that waits for it gets ConnectionError.
\<close>

lemma oversized_data_closes:
  assumes "is_enabled c" "249 < length d" "write_pc c = W_window e d" "ssn c \<le> 0x7FFF" "rsn c \<le> 0x7FFF"
  shows "or_close c (write_entry e d c) = close_connection c \<and> written (close_connection c) = written c \<and>
    (\<forall>f. entry_future e = Some f \<and> \<not> future_done c f \<longrightarrow>
      (f, Raise ConnectionError) \<in> set (future_results (close_connection c)))"
proof -
  have "\<exists>x. write_entry e d c = Raise x"
    using assms by (auto simp: write_entry_def end_write_apdui_def transport_write_def encode_apdu_def)
  moreover have "written (fold (\<lambda>f. set_future f r) fs c) = written c" for fs r c
    by (induction fs arbitrary: c) (simp_all add: set_future_def)
  then have "written (close_connection c) = written c"
    by (simp add: close_connection_def Let_def) (simp add: stop_supervisory_timeout_def)
  ultimately show ?thesis
    using assms(3) by (auto simp: or_close_def close_futures entry_futures_iff)
qed

lemma oversized_data_closes_witness:
  defines "e \<equiv> \<lparr>entry_data = Some (replicate 250 0), entry_future = Some 5, wait_ack = True\<rparr>"
  defines "c \<equiv> (init_connection True 12 8 0 0)\<lparr>write_pc := W_window e (replicate 250 0)\<rparr>"
  shows "or_close c (write_entry e (replicate 250 0) c) = close_connection c \<and>
    (5, Raise ConnectionError) \<in> set (future_results (close_connection c))"
  using oversized_data_closes [of c "replicate 250 0" e]
  by (simp add: c_def e_def init_connection_def future_done_def)

text \<open>
  Closing a connection resolves every future that somebody waits for: those of the entry in
  work, of the queued entries and of the waiting acknowledgements; a future that was not done
  gets ConnectionError, one that was done keeps its result, and no other is touched.
\<close>

lemma close_resolves_futures:
  "\<not> is_open (close_connection c) \<and> send_queue (close_connection c) = [] \<and> wait_ack_tasks (close_connection c) = [] \<and>
   (\<forall>f r. (f, r) \<in> set (future_results (close_connection c)) \<longleftrightarrow>
      (f, r) \<in> set (future_results c) \<or>
      r = Raise ConnectionError \<and> \<not> future_done c f \<and>
        (f \<in> snd ` set (wait_ack_tasks c) \<or>
         (\<exists>e. entry_future e = Some f \<and>
           (e \<in> set (send_queue c) \<or> write_pc c = W_drain e \<or> (\<exists>d. write_pc c = W_window e d)))))"
proof -
  have "send_queue (fold (\<lambda>f. set_future f r) fs c) = send_queue c \<and>
      wait_ack_tasks (fold (\<lambda>f. set_future f r) fs c) = wait_ack_tasks c" for fs r c
    by (induction fs arbitrary: c) (simp_all add: set_future_def)
  then have "send_queue (close_connection c) = [] \<and> wait_ack_tasks (close_connection c) = []"
    by (simp add: close_connection_def Let_def) (simp add: stop_supervisory_timeout_def)
  then show ?thesis
    by (auto simp: close_futures entry_futures_iff split: WritePc.splits)
qed

text \<open>
  Where sending is not enabled, data is discarded: nothing is written and no sequence number
  is used, and a caller that waits gets ConnectionDisabledError.
\<close>

lemma disabled_discards:
  assumes "\<not> is_enabled c" "entry_future e = Some f" "\<not> future_done c f"
  shows "\<exists>c'. write_entry e d c = Ok c' \<and> written c' = written c \<and> ssn c' = ssn c \<and>
    waiting_ack_handles c' = waiting_ack_handles c \<and> write_pc c' = W_idle \<and>
    future_results c' = future_results c @ [(f, Raise ConnectionDisabledError)]"
  using assms by (simp add: write_entry_def end_write_disabled finish_entry_def set_future_def future_done_def Let_def)

lemma disabled_discards_witness:
  "\<exists>c'. write_entry \<lparr>entry_data = Some [1], entry_future = Some 0, wait_ack = True\<rparr> [1] (init_connection False 12 8 0 0) = Ok c' \<and>
    written c' = [] \<and> future_results c' = [(0, Raise ConnectionDisabledError)]"
  using disabled_discards [of "init_connection False 12 8 0 0" "\<lparr>entry_data = Some [1], entry_future = Some 0, wait_ack = True\<rparr>" 0 "[1]"]
  by (auto simp: init_connection_def future_done_def)

lemma wait_startdt_con_None: "wait_startdt_con incoming out = None \<longleftrightarrow> APDUU STARTDT_CON \<notin> set incoming"
  by (induction incoming out rule: wait_startdt_con.induct) auto

lemma wait_startdt_con_skip:
  "APDUU STARTDT_CON \<notin> set pre \<Longrightarrow>
    wait_startdt_con (pre @ rest) out =
      wait_startdt_con rest (out @ replicate (count_list pre (APDUU TESTFR_ACT)) (APDUU TESTFR_CON))"
proof (induction pre arbitrary: out)
  case (Cons x pre)
  have r: "[y] @ replicate n y = replicate (Suc n) y" for y :: APDU and n by simp
  from Cons show ?case
  proof (cases x)
    case (APDUU f)
    with Cons show ?thesis by (cases f) (simp_all add: r flip: append_assoc, simp add: append_assoc r)
  qed simp_all
qed simp

text \<open>
  \<open>connect\<close> returns a connection exactly if STARTDT_CON comes, reads no frame after it,
  ignores everything before it except TESTFR_ACT, and answers each of these with TESTFR_CON.
\<close>

lemma connect_handshake:
  "connect k rw sq rq incoming =
    (if APDUU STARTDT_CON \<in> set incoming
     then let pre = takeWhile (\<lambda>x. x \<noteq> APDUU STARTDT_CON) incoming in
       Some (APDUU STARTDT_ACT # replicate (count_list pre (APDUU TESTFR_ACT)) (APDUU TESTFR_CON),
         drop (Suc (length pre)) incoming, init_connection True k rw sq rq)
     else None)"
proof (cases "APDUU STARTDT_CON \<in> set incoming")
  case True
  define pre where "pre = takeWhile (\<lambda>x. x \<noteq> APDUU STARTDT_CON) incoming"
  obtain rest where rest: "dropWhile (\<lambda>x. x \<noteq> APDUU STARTDT_CON) incoming = APDUU STARTDT_CON # rest"
    using True by (metis (mono_tags, lifting) dropWhile_eq_Nil_conv hd_dropWhile list.exhaust_sel)
  then have inc: "incoming = pre @ APDUU STARTDT_CON # rest"
    unfolding pre_def by (metis takeWhile_dropWhile_id)
  have "APDUU STARTDT_CON \<notin> set pre" by (auto simp: pre_def dest: set_takeWhileD)
  from wait_startdt_con_skip [OF this] inc
  have "wait_startdt_con incoming [APDUU STARTDT_ACT] =
      Some (APDUU STARTDT_ACT # replicate (count_list pre (APDUU TESTFR_ACT)) (APDUU TESTFR_CON), rest)"
    by simp
  moreover have "drop (Suc (length pre)) incoming = rest" using inc by simp
  ultimately show ?thesis using True by (simp add: connect_def Let_def flip: pre_def)
next
  case False
  then show ?thesis by (simp add: connect_def wait_startdt_con_None [THEN iffD2])
qed

end
