(* ===== verification/Apci_System.thy ===== *)
theory Apci_System
  imports Apci_Connection "HOL-Library.Sublist"
begin

text \<open>
  Two connections of \<^verbatim>\<open>iec60870/apci/connection.py\<close> over a reliable transport: each reads the
  frames that the other wrote, in order. The theory shows that neither ever finds an error in
  the sequence numbers of the other, and what becomes of the data that is queued for sending.
\<close>

section \<open>What a step does\<close>

text \<open>
  A quiet step leaves the reading loop where it is, and what it writes carries the current
  receive sequence number.
\<close>

definition quiet :: "Connection \<Rightarrow> Connection \<Rightarrow> bool" where
  "quiet c c' \<longleftrightarrow>
     is_open c' = is_open c \<and> rsn c' = rsn c \<and> read_pc c' = read_pc c \<and> cancelled c' = cancelled c \<and>
     (\<exists>xs. written c' = written c @ xs \<and> (\<forall>x\<in>set xs. (\<exists>f. x = APDUU f) \<or> apdu_rsn x = rsn c))"

definition closing :: "Connection \<Rightarrow> Connection \<Rightarrow> bool" where
  "closing c c' \<longleftrightarrow> \<not> is_open c' \<and> written c' = written c \<and> cancelled c' = cancelled c"

lemma quiet_trans:
  assumes "quiet c c'" "quiet c' c''"
  shows "quiet c c''"
proof -
  from assms(1) obtain xs where x: "written c' = written c @ xs"
    "\<forall>x\<in>set xs. (\<exists>f. x = APDUU f) \<or> apdu_rsn x = rsn c" "rsn c' = rsn c"
    by (auto simp: quiet_def)
  from assms(2) obtain ys where y: "written c'' = written c' @ ys"
    "\<forall>x\<in>set ys. (\<exists>f. x = APDUU f) \<or> apdu_rsn x = rsn c'"
    by (auto simp: quiet_def)
  have "written c'' = written c @ (xs @ ys)" using x y by simp
  moreover have "\<forall>x\<in>set (xs @ ys). (\<exists>f. x = APDUU f) \<or> apdu_rsn x = rsn c" using x y by auto
  ultimately show ?thesis using assms unfolding quiet_def by auto
qed

lemma quiet_same:
  "is_open c' = is_open c \<Longrightarrow> rsn c' = rsn c \<Longrightarrow> read_pc c' = read_pc c \<Longrightarrow> cancelled c' = cancelled c \<Longrightarrow>
    written c' = written c \<Longrightarrow> quiet c c'"
  by (simp add: quiet_def)

lemma quiet_write:
  assumes "c' = c\<lparr>written := written c @ [x]\<rparr>" "(\<exists>f. x = APDUU f) \<or> apdu_rsn x = rsn c"
  shows "quiet c c'"
  using assms by (auto simp: quiet_def)

lemma quiet_write_apdus: "write_apdus c = Ok c' \<Longrightarrow> quiet c c'"
  by (auto simp: quiet_def dest!: write_apdus_Ok)

lemma quiet_set_future [simp]: "quiet c (set_future f r c)"
  by (simp add: set_future_def quiet_def)

lemma quiet_finish_entry [simp]: "quiet c (finish_entry e h c)"
  by (auto simp: finish_entry_def Let_def quiet_def set_future_def split: option.splits)

lemma quiet_apduu: "process_apduu f c = Ok c' \<Longrightarrow> quiet c c'"
  by (auto simp: process_apduu_def quiet_def dest!: transport_write_Ok write_apdus_Ok
      split: ApduFunction.splits if_splits)

lemma quiet_write_entry:
  assumes "write_entry e d c = Ok c'"
  shows "quiet c c'"
proof -
  from assms obtain h c1 where c1: "end_write_apdui d c = Ok (h, c1)"
    and "quiet c1 c'"
    using quiet_trans [OF quiet_set_future quiet_finish_entry]
    by (auto simp: write_entry_def Let_def split: option.splits)
  have "quiet c c1"
  proof (cases "is_enabled c")
    case True
    from end_write_enabled [OF c1 True] show ?thesis by (simp add: quiet_def)
  next
    case False
    with end_write_disabled [of c d] c1 show ?thesis by (simp add: quiet_same)
  qed
  then show ?thesis using \<open>quiet c1 c'\<close> quiet_trans by blast
qed

lemma quiet_take_entry: "take_entry e c = Ok c' \<Longrightarrow> quiet c c'"
  by (auto simp: take_entry_def begin_write_apdui_def split: option.splits if_splits intro: quiet_same)

lemma quiet_supervisory: "quiet c (on_supervisory_timeout c)"
  by (auto simp: on_supervisory_timeout_def intro: quiet_write_apdus quiet_same split: sum.split)

lemma closing_close: "closing c (close_connection c)"
proof -
  have "written (fold (\<lambda>f. set_future f r) fs c) = written c \<and>
      cancelled (fold (\<lambda>f. set_future f r) fs c) = cancelled c" for fs r c
    by (induction fs arbitrary: c) (simp_all add: set_future_def)
  then show ?thesis
    by (simp add: closing_def) (simp add: close_connection_def Let_def stop_supervisory_timeout_def)
qed

lemma or_close_cases:
  obtains c' where "r = Ok c'" "or_close c r = c'" | "closing c (or_close c r)"
  using that closing_close by (cases r) (auto simp: or_close_def)

lemma finish_apdui_quiet:
  assumes "finish_apdui c = Ok c'"
  shows "quiet (c\<lparr>read_pc := R_idle\<rparr>) c'"
proof -
  let ?c = "c\<lparr>w := w c + 1, read_pc := R_idle\<rparr>"
  have "quiet (c\<lparr>read_pc := R_idle\<rparr>) ?c" by (simp add: quiet_same)
  moreover from assms have "c' = ?c \<or> write_apdus ?c = Ok c'"
    by (simp add: finish_apdui_def Let_def split: if_splits)
  ultimately show ?thesis using quiet_trans quiet_write_apdus by blast
qed

lemma sequence_apdui_quiet:
  assumes "sequence_apdui s d c = Ok c'"
  obtains p where "s = rsn c" "p = R_idle \<or> p = R_put d"
    "quiet (c\<lparr>rsn := (rsn c + 1) mod 0x8000, read_pc := p\<rparr>) c'"
proof -
  let ?c = "start_supervisory_timeout (c\<lparr>rsn := (rsn c + 1) mod 0x8000\<rparr>)"
  from assms have s: "s = rsn c" by (auto simp: sequence_apdui_def split: if_splits)
  from assms s have "c' = ?c\<lparr>read_pc := R_put d\<rparr> \<or> finish_apdui ?c = Ok c'"
    by (cases "d = []") (simp_all add: sequence_apdui_def Let_def)
  then consider "c' = ?c\<lparr>read_pc := R_put d\<rparr>" | "finish_apdui ?c = Ok c'" by blast
  then show thesis
  proof cases
    case 1
    then have "quiet (c\<lparr>rsn := (rsn c + 1) mod 0x8000, read_pc := R_put d\<rparr>) c'"
      by (auto simp: start_supervisory_timeout_def intro: quiet_same)
    with s that show thesis by blast
  next
    case 2
    have "quiet (c\<lparr>rsn := (rsn c + 1) mod 0x8000, read_pc := R_idle\<rparr>) (?c\<lparr>read_pc := R_idle\<rparr>)"
      by (auto simp: start_supervisory_timeout_def intro: quiet_same)
    from quiet_trans [OF this finish_apdui_quiet [OF 2]] s that show thesis by blast
  qed
qed

lemma or_close_quiet:
  assumes "\<And>c'. r = Ok c' \<Longrightarrow> quiet c c'"
  shows "closing c (or_close c r) \<or> quiet c (or_close c r)"
  using assms closing_close by (cases r) (auto simp: or_close_def)

text \<open>The kinds of steps, as far as reading and acknowledging is concerned.\<close>

definition reads_no_ack :: "Label \<Rightarrow> bool" where
  "reads_no_ack l \<longleftrightarrow> (\<forall>x. l = L_read x \<longrightarrow> (\<exists>f. x = APDUU f))"

lemma step_kinds:
  assumes "conn_step c l c'"
  obtains
    (closes) "closing c c'"
  | (quietly) "quiet c c'" "reads_no_ack l"
  | (acked) r where "l = L_read (APDUS r)" "set_ack r c = Ok c'" "is_open c" "read_pc c = R_idle"
  | (reads_i) s r d c1 where "l = L_read (APDUI s r d)" "set_ack r c = Ok c1"
      "c' = c1\<lparr>read_pc := R_acked s d\<rparr>" "is_open c" "read_pc c = R_idle"
  | (counts) s d p where "l = L_tau" "read_pc c = R_acked s d" "is_open c" "s = rsn c" "p = R_idle \<or> p = R_put d"
      "quiet (c\<lparr>rsn := (rsn c + 1) mod 0x8000, read_pc := p\<rparr>) c'"
  | (put) d where "l = L_tau" "read_pc c = R_put d" "is_open c" "quiet (c\<lparr>read_pc := R_idle\<rparr>) c'"
proof -
  have either: thesis if "closing c c' \<or> quiet c c'" "reads_no_ack l"
    using that closes quietly by blast
  note no = reads_no_ack_def
  from assms show thesis
  proof cases
    case (read apdu)
    show thesis
    proof (cases "process_apdu apdu c")
      case (Inl x)
      with read closing_close have "closing c c'" by (simp add: or_close_def)
      then show thesis by (rule closes)
    next
      case (Inr c1)
      with read have r: "process_apdu apdu c = Ok c'" by (simp add: or_close_def)
      show thesis
      proof (cases apdu)
        case (APDUI s r' d)
        with r obtain c2 where c2: "set_ack r' c = Ok c2" "c' = c2\<lparr>read_pc := R_acked s d\<rparr>"
          by (auto simp: process_apdu_def)
        show thesis by (rule reads_i [OF _ c2 read(3,4)]) (simp add: read(1) APDUI)
      next
        case (APDUS r')
        with r read show thesis by (intro acked) (simp_all add: process_apdu_def)
      next
        case (APDUU f)
        with r read show thesis by (intro quietly) (simp_all add: process_apdu_def quiet_apduu no)
      qed
    qed
  next
    case (read_sequence s d)
    show thesis
    proof (cases "sequence_apdui s d c")
      case (Inl x)
      with read_sequence closing_close have "closing c c'" by (simp add: or_close_def)
      then show thesis by (rule closes)
    next
      case (Inr c1)
      with read_sequence have "sequence_apdui s d c = Ok c'" by (simp add: or_close_def)
      then show thesis
        by (rule sequence_apdui_quiet) (rule counts [OF read_sequence(1,4,3)])
    qed
  next
    case (read_put d)
    let ?c = "c\<lparr>receive_queue := receive_queue c @ [d]\<rparr>"
    have q: "quiet (c\<lparr>read_pc := R_idle\<rparr>) (?c\<lparr>read_pc := R_idle\<rparr>)" by (simp add: quiet_same)
    show thesis
    proof (cases "finish_apdui ?c")
      case (Inl x)
      with read_put closing_close have "closing c c'" by (simp add: or_close_def)
      then show thesis by (rule closes)
    next
      case (Inr c1)
      with read_put have "finish_apdui ?c = Ok c'" by (simp add: or_close_def)
      from quiet_trans [OF q finish_apdui_quiet [OF this]] show thesis
        by (rule put [OF read_put(1,4,3)])
    qed
  next
    case (write_take e q)
    have "quiet c (c\<lparr>send_queue := q\<rparr>)" by (simp add: quiet_same)
    from quiet_trans [OF this quiet_take_entry] show thesis
      by (intro either) (simp_all add: write_take(1,2) or_close_quiet no)
  next
    case (write_drained e)
    then show thesis by (intro quietly) (simp_all add: drained_entry_def Let_def no)
  next
    case (write_entry e d)
    show thesis
      by (intro either) (simp_all add: write_entry(1,2) or_close_quiet quiet_write_entry no)
  next
    case (wait_ack_done ts h f ts')
    have "quiet c (c\<lparr>wait_ack_tasks := ts @ ts'\<rparr>)" by (simp add: quiet_same)
    from quiet_trans [OF this quiet_set_future] have "quiet c c'" unfolding wait_ack_done(2) .
    then show thesis by (rule quietly) (simp add: wait_ack_done(1) no)
  next
    case (supervisory_task n)
    have "quiet c (c\<lparr>supervisory_tasks := n\<rparr>)" by (simp add: quiet_same)
    from quiet_trans [OF this quiet_supervisory] have "quiet c c'" unfolding supervisory_task(2) .
    then show thesis by (rule quietly) (simp add: supervisory_task(1) no)
  next
    case test_send
    have "transport_write (APDUU TESTFR_ACT) (c\<lparr>test_event := False, test_pc := T_wait\<rparr>) = Ok c1 \<Longrightarrow> quiet c c1" for c1
      by (auto simp: quiet_def dest!: transport_write_Ok)
    then show thesis by (intro either) (simp_all add: test_send(1,2) or_close_quiet no)
  next
    case response_timeout
    then show thesis by (intro closes) (simp add: closing_close)
  next
    case test_timeout
    then show thesis by (intro closes) (simp add: closing_close)
  next
    case lost
    then show thesis by (intro closes) (simp add: closing_close)
  next
    case (user_cancel f)
    then show thesis by (intro quietly) (simp_all add: no)
  qed (auto simp: no intro!: quietly quiet_same)
qed

text \<open>A closed connection does nothing but hand out what it received before.\<close>

lemma closed_step:
  assumes "conn_step c l c'" "\<not> is_open c"
  shows "\<not> is_open c' \<and> written c' = written c \<and> reads (ls @ [l]) = reads ls"
  using assms by cases (auto simp: set_future_def)

lemma reads_snoc: "reads (ls @ [l]) = reads ls @ (case l of L_read x \<Rightarrow> [x] | _ \<Rightarrow> [])"
  by (cases l) simp_all

lemma set_ack_written:
  assumes "set_ack x c = Ok c'"
  shows "written c' = written c"
proof -
  have "pop_acks xs c = Ok c1 \<Longrightarrow> written c1 = written c" for xs c c1
    by (induction xs arbitrary: c) (auto split: option.splits)
  with assms show ?thesis by (auto simp: set_ack_def)
qed

section \<open>The history of acknowledgements\<close>

fun carries_ack :: "APDU \<Rightarrow> bool" where
  "carries_ack (APDUU _) \<longleftrightarrow> False"
| "carries_ack _ \<longleftrightarrow> True"

definition ack_numbers :: "APDU list \<Rightarrow> int list" where
  "ack_numbers apdus = map apdu_rsn (filter carries_ack apdus)"

lemma ack_numbers_simps [simp]:
  "ack_numbers [] = []" "ack_numbers (xs @ ys) = ack_numbers xs @ ack_numbers ys"
  "ack_numbers [APDUI s r d] = [r]" "ack_numbers [APDUS r] = [r]" "ack_numbers [APDUU f] = []"
  by (simp_all add: ack_numbers_def)

text \<open>The I frames read, and those of them that were found to be in sequence.\<close>

definition i_count :: "Label list \<Rightarrow> nat" where
  "i_count ls = length (filter is_APDUI (reads ls))"

definition in_sequence :: "Label list \<Rightarrow> Connection \<Rightarrow> nat" where
  "in_sequence ls c = i_count ls - (case read_pc c of R_acked _ _ \<Rightarrow> 1 | _ \<Rightarrow> 0)"

lemma i_count_simps [simp]:
  "i_count (ls @ [L_read (APDUI s r d)]) = Suc (i_count ls)"
  "i_count (ls @ [L_read (APDUS r)]) = i_count ls" "i_count (ls @ [L_read (APDUU f)]) = i_count ls"
  "i_count (ls @ [L_tau]) = i_count ls" "i_count (ls @ [L_receive d]) = i_count ls"
  "i_count (ls @ [L_send e]) = i_count ls"
  by (simp_all add: i_count_def)

lemma i_count_mono: "i_count ls \<le> i_count (ls @ [l])"
  by (simp add: i_count_def reads_snoc split: Label.splits)

lemma in_sequence_le: "in_sequence ls c \<le> i_count ls"
  by (simp add: in_sequence_def)

lemma reads_no_ack_simps:
  assumes "reads_no_ack l"
  shows "i_count (ls @ [l]) = i_count ls" "ack_numbers (reads (ls @ [l])) = ack_numbers (reads ls)"
  using assms by (cases l; auto simp: reads_no_ack_def)+

lemma run_rsn:
  assumes "conn_run (init_connection always k rw sq rq) ls c" "is_open c"
  shows "rsn c = seq_number (in_sequence ls c)"
    and "read_pc c = R_acked s d \<Longrightarrow> i_count ls = Suc (in_sequence ls c) \<and>
      apdu_ssn (filter is_APDUI (reads ls) ! in_sequence ls c) = s"
proof -
  from run_deliver [OF assms(1)] obtain n where d: "deliver_inv n (filter is_APDUI (reads ls)) (received ls) c" ..
  with assms(2) have n: "in_sequence ls c = n"
    by (auto simp: deliver_inv_def in_sequence_def i_count_def split: ReadPc.splits)
  with d assms(2) show "rsn c = seq_number (in_sequence ls c)" by (simp add: deliver_inv_def)
  show "read_pc c = R_acked s d \<Longrightarrow> i_count ls = Suc (in_sequence ls c) \<and>
      apdu_ssn (filter is_APDUI (reads ls) ! in_sequence ls c) = s"
    using d assms(2) n by (simp add: deliver_inv_def i_count_def)
qed

text \<open>
  \<open>ack_hist ms ls c\<close>: the frames written acknowledge \<open>ms\<close> received frames, a growing number
  that never exceeds the frames in sequence.
\<close>

definition ack_hist :: "nat list \<Rightarrow> Label list \<Rightarrow> Connection \<Rightarrow> bool" where
  "ack_hist ms ls c \<longleftrightarrow>
     sorted ms \<and> ack_numbers (written c) = map seq_number ms \<and>
     (\<forall>x\<in>set ms. x \<le> i_count ls \<and> (is_open c \<longrightarrow> x \<le> in_sequence ls c))"

lemma ack_hist_append:
  assumes "ack_hist ms ls c" "is_open c" "written c' = written c @ xs"
    and "\<forall>x\<in>set xs. (\<exists>f. x = APDUU f) \<or> apdu_rsn x = seq_number n"
    and "in_sequence ls c \<le> n" "n \<le> i_count ls'" "n \<le> in_sequence ls' c'"
  shows "\<exists>more. ack_hist (ms @ more) ls' c'"
proof -
  let ?more = "replicate (length (ack_numbers xs)) n"
  have "ack_numbers xs = map seq_number ?more"
    using assms(4) by (induction xs) (auto simp: ack_numbers_def)
  moreover have "sorted (ms @ ?more)"
    using assms(1,2,5) by (fastforce simp: ack_hist_def sorted_append)
  moreover have "\<forall>x\<in>set (ms @ ?more). x \<le> n"
    using assms(1,2,5) by (fastforce simp: ack_hist_def)
  ultimately have "ack_hist (ms @ ?more) ls' c'"
    using assms(1,3,6,7) unfolding ack_hist_def by fastforce
  then show ?thesis ..
qed

lemma ack_hist_same:
  assumes "ack_hist ms ls c" "written c' = written c" "is_open c' \<Longrightarrow> is_open c \<and> in_sequence ls c \<le> in_sequence (ls @ [l]) c'"
  shows "ack_hist ms (ls @ [l]) c'"
  using assms i_count_mono [of ls l] unfolding ack_hist_def by (metis order_trans)

lemma ack_hist_step:
  assumes "conn_step c l c'" "ack_hist ms ls c"
    and "is_open c \<Longrightarrow> rsn c = seq_number (in_sequence ls c)"
    and "is_open c' \<Longrightarrow> rsn c' = seq_number (in_sequence (ls @ [l]) c')"
    and "\<And>s d. is_open c \<Longrightarrow> read_pc c = R_acked s d \<Longrightarrow> i_count ls = Suc (in_sequence ls c)"
  shows "\<exists>more. ack_hist (ms @ more) (ls @ [l]) c'"
proof (cases "is_open c")
  case False
  with closed_step [OF assms(1)] ack_hist_same [OF assms(2)] show ?thesis
    by (metis append_Nil2)
next
  case True
  have appends: ?thesis if q: "quiet c0 c'" "written c0 = written c" "is_open c0"
    and le: "in_sequence ls c \<le> in_sequence (ls @ [l]) c'" for c0
  proof -
    from q have "is_open c'" "rsn c' = rsn c0" by (simp_all add: quiet_def)
    with q(1) assms(4) obtain xs where "written c' = written c0 @ xs"
      "\<forall>x\<in>set xs. (\<exists>f. x = APDUU f) \<or> apdu_rsn x = seq_number (in_sequence (ls @ [l]) c')"
      by (auto simp: quiet_def)
    with ack_hist_append [OF assms(2) True _ _ le in_sequence_le order_refl] q(2) show ?thesis by simp
  qed
  have same: ?thesis if "written c' = written c" "in_sequence ls c \<le> in_sequence (ls @ [l]) c'"
    using ack_hist_same [OF assms(2) that(1)] that(2) True by (metis append_Nil2)
  have w: "written c1 = written c" "read_pc c1 = read_pc c" if "set_ack r c = Ok c1" for r c1
    using set_ack_receive_view [OF that] set_ack_written [OF that] by (simp_all add: receive_view_def)
  from assms(1) show ?thesis
  proof (cases rule: step_kinds)
    case closes
    with ack_hist_same [OF assms(2)] show ?thesis by (metis append_Nil2 closing_def)
  next
    case quietly
    then have "in_sequence ls c = in_sequence (ls @ [l]) c'"
      by (simp add: in_sequence_def reads_no_ack_simps quiet_def)
    with quietly(1) True show ?thesis by (intro appends) simp_all
  next
    case (acked r)
    with w [OF acked(2)] show ?thesis by (intro same) (simp_all add: in_sequence_def)
  next
    case (reads_i s r d c1)
    with w [OF reads_i(2)] show ?thesis by (intro same) (simp_all add: in_sequence_def)
  next
    case (counts s d p)
    have "read_pc c' = p" using counts(6) by (simp add: quiet_def)
    with counts(1,2,5) have "in_sequence ls c \<le> in_sequence (ls @ [l]) c'"
      by (auto simp: in_sequence_def)
    with counts(6) True show ?thesis
      by (intro appends [of "c\<lparr>rsn := (rsn c + 1) mod 0x8000, read_pc := p\<rparr>"]) simp_all
  next
    case (put d)
    have "read_pc c' = R_idle" using put(4) by (simp add: quiet_def)
    with put(1,2) have "in_sequence ls c \<le> in_sequence (ls @ [l]) c'"
      by (simp add: in_sequence_def)
    with put(4) True show ?thesis
      by (intro appends [of "c\<lparr>read_pc := R_idle\<rparr>"]) simp_all
  qed
qed

text \<open>
  \<open>ack_seen ms ls c\<close>: the frames of \<open>c\<close> that are acknowledged are those that the last
  acknowledgement among the frames read names, where the peer's acknowledgements are \<open>ms\<close>.
\<close>

definition ack_seen :: "nat list \<Rightarrow> Label list \<Rightarrow> Connection \<Rightarrow> bool" where
  "ack_seen ms ls c \<longleftrightarrow> is_open c \<longrightarrow>
     length (ack_numbers (reads ls)) \<le> length ms \<and>
     length (cancelled c) = last (0 # take (length (ack_numbers (reads ls))) ms)"

lemma ack_numbers_prefix: "prefix xs ys \<Longrightarrow> prefix (ack_numbers xs) (ack_numbers ys)"
  by (auto simp: prefix_def)

lemma ack_accepted:
  assumes win: "in_window k a s c" "k < 0x8000" and seen: "ack_seen ms ls c" "is_open c"
    and peer: "ack_numbers out = map seq_number ms" "sorted ms" "\<forall>x\<in>set ms. x \<le> s"
    and "prefix (reads ls @ [apdu]) out" "carries_ack apdu"
  defines "m \<equiv> ms ! length (ack_numbers (reads ls))"
  shows "set_ack (apdu_rsn apdu) c =
      Ok (c\<lparr>waiting_ack_handles := number_handles m s, cancelled := [0..<m], ack := seq_number m\<rparr>)"
    and "length (ack_numbers (reads ls)) < length ms"
proof -
  let ?j = "length (ack_numbers (reads ls))"
  have "ack_numbers [apdu] = [apdu_rsn apdu]" using assms(9) by (cases apdu) simp_all
  with ack_numbers_prefix [OF assms(8)] peer(1)
  have p: "prefix (ack_numbers (reads ls) @ [apdu_rsn apdu]) (map seq_number ms)" by simp
  then have j: "?j < length ms"
    using prefix_length_le by fastforce
  then show "?j < length ms" .
  from p have "map seq_number ms ! ?j = apdu_rsn apdu"
    by (auto simp: prefix_def)
  with j have r: "apdu_rsn apdu = seq_number m" by (simp add: m_def)
  have a: "a = length (cancelled c)" "s - a \<le> k" using win by (simp_all add: in_window_def)
  with seen have "a = last (0 # take ?j ms)" by (simp add: ack_seen_def)
  moreover have "last (0 # take ?j ms) \<le> m"
  proof (cases "?j = 0")
    case False
    then obtain i where i: "?j = Suc i" by (cases ?j) auto
    with j have "last (0 # take ?j ms) = ms ! i" by (simp add: take_Suc_conv_app_nth)
    with i j peer(2) show ?thesis by (simp add: m_def sorted_iff_nth_mono)
  qed simp
  ultimately have "a \<le> m" by simp
  moreover have "m \<le> s" using peer(3) j by (simp add: m_def)
  moreover have "m < a + 0x8000" using \<open>m \<le> s\<close> a(2) win(2) by linarith
  ultimately show "set_ack (apdu_rsn apdu) c =
      Ok (c\<lparr>waiting_ack_handles := number_handles m s, cancelled := [0..<m], ack := seq_number m\<rparr>)"
    using set_ack_window [OF win, of m] r by simp
qed

lemma ack_seen_step:
  assumes "conn_step c l c'" "in_window k a s c" "k < 0x8000" "ack_seen ms ls c"
    and peer: "ack_numbers out = map seq_number ms" "sorted ms" "\<forall>x\<in>set ms. x \<le> s"
    and "prefix (reads (ls @ [l])) out"
  shows "ack_seen ms (ls @ [l]) c'"
proof (cases "is_open c \<and> is_open c'")
  case False
  with closed_step [OF assms(1)] show ?thesis by (auto simp: ack_seen_def)
next
  case True
  have quiet: ?thesis if "cancelled c' = cancelled c" "ack_numbers (reads (ls @ [l])) = ack_numbers (reads ls)"
    using that assms(4) True by (simp add: ack_seen_def)
  have acks: ?thesis if "l = L_read apdu" "carries_ack apdu" "set_ack (apdu_rsn apdu) c = Ok c1" "cancelled c' = cancelled c1"
    for apdu c1
  proof -
    have p: "prefix (reads ls @ [apdu]) out" using assms(8) that(1) by simp
    note A = ack_accepted [OF assms(2-4) conjunct1 [OF True] peer p that(2)]
    have "ack_numbers [apdu] = [apdu_rsn apdu]" using that(2) by (cases apdu) simp_all
    with A that show ?thesis
      by (simp add: ack_seen_def take_Suc_conv_app_nth)
  qed
  from assms(1) show ?thesis
  proof (cases rule: step_kinds)
    case (acked r)
    then show ?thesis by (intro acks [of "APDUS r" c']) simp_all
  next
    case (reads_i s r d c1)
    then show ?thesis by (intro acks [of "APDUI s r d" c1]) simp_all
  next
    case (counts s d p)
    then show ?thesis by (intro quiet) (simp_all add: quiet_def)
  next
    case (put d)
    then show ?thesis by (intro quiet) (simp_all add: quiet_def)
  qed (use True in \<open>simp_all add: quiet_def closing_def quiet reads_no_ack_simps\<close>)
qed

section \<open>Two connections\<close>

text \<open>
  Each connection reads what the other wrote: the frames read are a prefix of the frames
  written, and the rest is in flight.
\<close>

inductive system :: "Connection \<Rightarrow> Connection \<Rightarrow> Label list \<Rightarrow> Connection \<Rightarrow> Label list \<Rightarrow> Connection \<Rightarrow> bool"
  for a0 b0 where
  start: "system a0 b0 [] a0 [] b0"
| left: "system a0 b0 la a lb b \<Longrightarrow> conn_step a l a' \<Longrightarrow> prefix (reads (la @ [l])) (written b) \<Longrightarrow>
    system a0 b0 (la @ [l]) a' lb b"
| right: "system a0 b0 la a lb b \<Longrightarrow> conn_step b l b' \<Longrightarrow> prefix (reads (lb @ [l])) (written a) \<Longrightarrow>
    system a0 b0 la a (lb @ [l]) b'"

lemma system_sym: "system a0 b0 la a lb b \<Longrightarrow> system b0 a0 lb b la a"
  by (induction rule: system.induct) (auto intro: system.intros)

lemma system_run: "system a0 b0 la a lb b \<Longrightarrow> conn_run a0 la a"
  by (induction rule: system.induct) (auto intro: conn_run.intros)

lemma written_grows:
  assumes "conn_step c l c'"
  shows "prefix (written c) (written c')"
  using assms
proof (cases rule: step_kinds)
  case (acked r)
  then show ?thesis using set_ack_written [of r c c'] by simp
next
  case (reads_i s r d c1)
  then show ?thesis using set_ack_written [of r c c1] by simp
qed (auto simp: quiet_def closing_def)

text \<open>What the connection \<open>a\<close> knows of what \<open>b\<close> wrote.\<close>

definition linked :: "Label list \<Rightarrow> Connection \<Rightarrow> Label list \<Rightarrow> Connection \<Rightarrow> bool" where
  "linked la a lb b \<longleftrightarrow> prefix (reads la) (written b) \<and> (\<exists>ms. ack_hist ms lb b \<and> ack_seen ms la a)"

lemma run_i_written:
  assumes "in_window k a s c"
  shows "length (filter is_APDUI (written c)) = s"
    and "map apdu_ssn (filter is_APDUI (written c)) = map seq_number [0..<s]"
proof -
  show eq: "map apdu_ssn (filter is_APDUI (written c)) = map seq_number [0..<s]"
    using assms by (simp add: in_window_def seq_numbers_def)
  from arg_cong [OF eq, of length] show "length (filter is_APDUI (written c)) = s" by simp
qed

lemma prefix_filter: "prefix xs ys \<Longrightarrow> prefix (filter P xs) (filter P ys)"
  by (auto simp: prefix_def)

lemma linked_peer_bound:
  assumes "linked lb b la a" "in_window k x s a"
  shows "i_count lb \<le> s"
proof -
  from assms(1) have "prefix (filter is_APDUI (reads lb)) (filter is_APDUI (written a))"
    by (intro prefix_filter) (simp add: linked_def)
  then have "i_count lb \<le> length (filter is_APDUI (written a))"
    unfolding i_count_def by (rule prefix_length_le)
  with run_i_written(1) [OF assms(2)] show ?thesis by simp
qed

text \<open>A step of the side that reads keeps the relation.\<close>

lemma linked_reader:
  assumes "conn_step a l a'" "linked la a lb b" "linked lb b la a"
    and "in_window k x s a" "k < 0x8000" "prefix (reads (la @ [l])) (written b)"
  shows "linked (la @ [l]) a' lb b"
proof -
  from assms(2) obtain ms where ms: "ack_hist ms lb b" "ack_seen ms la a" by (auto simp: linked_def)
  from linked_peer_bound [OF assms(3,4)] ms(1)
  have "ack_numbers (written b) = map seq_number ms" "sorted ms" "\<forall>m\<in>set ms. m \<le> s"
    by (auto simp: ack_hist_def)
  from ack_seen_step [OF assms(1,4,5) ms(2) this assms(6)] ms(1) assms(6) show ?thesis
    by (auto simp: linked_def)
qed

text \<open>A step of the side that writes keeps it, too.\<close>

lemma linked_writer:
  assumes "conn_step b l b'" "linked la a lb b"
    and "conn_run (init_connection always k rw sq rq) lb b"
  shows "linked la a (lb @ [l]) b'"
proof -
  from assms(2) obtain ms where ms: "prefix (reads la) (written b)" "ack_hist ms lb b" "ack_seen ms la a"
    by (auto simp: linked_def)
  have run: "conn_run (init_connection always k rw sq rq) (lb @ [l]) b'"
    using assms(3,1) by (rule conn_run.step)
  have "\<exists>more. ack_hist (ms @ more) (lb @ [l]) b'"
    using run_rsn [OF assms(3)] run_rsn(1) [OF run]
    by (intro ack_hist_step [OF assms(1) ms(2)]) blast+
  moreover have "ack_seen (ms @ more) la a" for more
    using ms(3) by (auto simp: ack_seen_def)
  moreover have "prefix (reads la) (written b')"
    using ms(1) written_grows [OF assms(1)] prefix_order.trans by blast
  ultimately show ?thesis by (auto simp: linked_def)
qed

lemma linked_init: "linked [] (init_connection always k rw sq rq) [] b"
  if "b = init_connection always' k' rw' sq' rq'"
  using that by (auto simp: linked_def ack_hist_def ack_seen_def init_connection_def)

lemma system_linked:
  assumes "system (init_connection ea ka wa sa qa) (init_connection eb kb wb sb qb) la a lb b"
    and "ka < 0x8000" "kb < 0x8000"
  shows "linked la a lb b \<and> linked lb b la a"
  using assms(1)
proof induction
  case start
  show ?case by (simp add: linked_init)
next
  case (left la a lb b l a')
  have run: "conn_run (init_connection ea ka wa sa qa) la a" using left(1) by (rule system_run)
  from run_window [OF run assms(2)] obtain x s where "in_window ka x s a" by blast
  with left linked_reader [OF left(2)] linked_writer [OF left(2) _ run] assms(2) show ?case by blast
next
  case (right la a lb b l b')
  have run: "conn_run (init_connection eb kb wb sb qb) lb b" using system_sym [OF right(1)] by (rule system_run)
  from run_window [OF run assms(3)] obtain x s where "in_window kb x s b" by blast
  with right linked_reader [OF right(2)] linked_writer [OF right(2) _ run] assms(3) show ?case by blast
qed

text \<open>Control frames always encode.\<close>

lemma write_control [simp]:
  "transport_write (APDUU f) c = Ok (c\<lparr>written := written c @ [APDUU f]\<rparr>)"
  "seq_ok r \<Longrightarrow> transport_write (APDUS r) c = Ok (c\<lparr>written := written c @ [APDUS r]\<rparr>)"
proof -
  have "\<exists>bs. encode_apdu (APDUU f) = Ok bs"
    using apci.enc_dec [of "APDUU f"] by (auto simp: apdu_ok_def)
  then show "transport_write (APDUU f) c = Ok (c\<lparr>written := written c @ [APDUU f]\<rparr>)"
    by (auto simp: transport_write_def)
  assume "seq_ok r"
  then have "\<exists>bs. encode_apdu (APDUS r) = Ok bs"
    using apci.enc_dec [of "APDUS r"] by (auto simp: apdu_ok_def)
  then show "transport_write (APDUS r) c = Ok (c\<lparr>written := written c @ [APDUS r]\<rparr>)"
    by (auto simp: transport_write_def)
qed

lemma write_apdus_Ok_iff: "seq_ok (rsn c) \<Longrightarrow> \<exists>c'. write_apdus c = Ok c'"
  by (simp add: write_apdus_def)

lemma i_frames_numbered:
  assumes "in_window k x s b" "prefix fs (filter is_APDUI (written b))" "i < length fs"
  shows "apdu_ssn (fs ! i) = seq_number i"
proof -
  from assms(2) obtain js where js: "filter is_APDUI (written b) = fs @ js" by (auto simp: prefix_def)
  with run_i_written(2) [OF assms(1)] have eq: "map apdu_ssn (fs @ js) = map seq_number [0..<s]" by simp
  from arg_cong [OF eq, of length] assms(3) have "i < s" by simp
  from arg_cong [OF eq, of "\<lambda>xs. xs ! i"] assms(3) \<open>i < s\<close> show ?thesis
    by (simp add: nth_append)
qed

text \<open>Neither check of the reading loop ever fails on a frame of the other side.\<close>

lemma system_accepts:
  assumes sys: "system (init_connection ea ka wa sa qa) (init_connection eb kb wb sb qb) la a lb b"
    and k: "ka < 0x8000" "kb < 0x8000"
    and "is_open a" "prefix (reads la @ [apdu]) (written b)"
  shows "\<exists>a'. process_apdu apdu a = Ok a'"
proof -
  from system_linked [OF sys k] obtain ms where ms: "ack_hist ms lb b" "ack_seen ms la a"
    and peer_link: "linked lb b la a" by (auto simp: linked_def)
  have run: "conn_run (init_connection ea ka wa sa qa) la a" using sys by (rule system_run)
  from run_window [OF run k(1)] obtain x s where win: "in_window ka x s a" by blast
  from linked_peer_bound [OF peer_link win] ms(1)
  have peer: "ack_numbers (written b) = map seq_number ms" "sorted ms" "\<forall>m\<in>set ms. m \<le> s"
    by (auto simp: ack_hist_def)
  note acks = ack_accepted(1) [OF win k(1) ms(2) assms(4) peer assms(5)]
  show ?thesis
  proof (cases apdu)
    case (APDUU f)
    have "seq_ok (rsn a)" using run_rsn(1) [OF run assms(4)] seq_number_bounds(3) by simp
    then have "\<exists>a'. process_apduu f a = Ok a'"
      by (cases f) (simp_all add: process_apduu_def write_apdus_def)
    with APDUU show ?thesis by (simp add: process_apdu_def)
  qed (use acks in \<open>simp_all add: process_apdu_def\<close>)
qed

lemma system_sequence:
  assumes sys: "system (init_connection ea ka wa sa qa) (init_connection eb kb wb sb qb) la a lb b"
    and k: "ka < 0x8000" "kb < 0x8000"
    and "is_open a" "read_pc a = R_acked s d"
  shows "\<exists>a'. sequence_apdui s d a = Ok a'"
proof -
  have run: "conn_run (init_connection ea ka wa sa qa) la a" using sys by (rule system_run)
  have "prefix (filter is_APDUI (reads la)) (filter is_APDUI (written b))"
    using system_linked [OF sys k] by (intro prefix_filter) (simp add: linked_def)
  moreover from run_window [OF system_run [OF system_sym [OF sys]] k(2)] obtain x t where
    "in_window kb x t b" by blast
  ultimately have "s = seq_number (in_sequence la a)"
    using run_rsn(2) [OF run assms(4,5)] i_frames_numbered [of kb x t b "filter is_APDUI (reads la)" "in_sequence la a"]
    by (auto simp: i_count_def)
  with run_rsn(1) [OF run assms(4)] have s: "s = rsn a" by simp
  have "seq_ok ((rsn a + 1) mod 0x8000)"
    unfolding seq_ok_def using pos_mod_bound [of "0x8000" "rsn a + 1"] by simp
  with s show ?thesis
    by (simp add: sequence_apdui_def Let_def finish_apdui_def start_supervisory_timeout_def write_apdus_def)
qed

section \<open>What becomes of queued data\<close>

text \<open>
  \<open>queued\<close> is the data that callers gave to \<open>send\<close>, \<open>sent\<close> the data of the I frames written
  and \<open>unsent\<close> what is still to be written.
\<close>

definition queued :: "Label list \<Rightarrow> bytes list" where
  "queued ls = List.map_filter (\<lambda>l. case l of L_send e \<Rightarrow> entry_data e | _ \<Rightarrow> None) ls"

definition sent :: "Connection \<Rightarrow> bytes list" where
  "sent c = map apdu_data (filter is_APDUI (written c))"

definition unsent :: "Connection \<Rightarrow> bytes list" where
  "unsent c = (case write_pc c of W_window e d \<Rightarrow> [d] | _ \<Rightarrow> []) @ List.map_filter entry_data (send_queue c)"

text \<open>
  Data is sent in the order in which it was queued, and never twice. A connection that is
  always enabled discards nothing while it is open.
\<close>

definition flow_inv :: "Label list \<Rightarrow> Connection \<Rightarrow> bool" where
  "flow_inv ls c \<longleftrightarrow>
     subseq (sent c @ unsent c) (queued ls) \<and>
     (always_enabled c \<longrightarrow> is_enabled c \<and> prefix (sent c @ unsent c) (queued ls) \<and>
       (is_open c \<longrightarrow> sent c @ unsent c = queued ls))"

lemma subseq_skip:
  assumes "subseq (xs @ d # ys) zs"
  shows "subseq (xs @ ys) zs"
proof -
  have "subseq (xs @ ys) (xs @ d # ys)" by (simp add: subseq_append' list_emb_Cons)
  then show ?thesis using assms by (rule subseq_order.trans)
qed

definition flow_view :: "Connection \<Rightarrow> _" where
  "flow_view c = (always_enabled c, is_open c, sent c, unsent c, always_enabled c \<longrightarrow> is_enabled c)"

lemma flow_same: "flow_inv ls c \<Longrightarrow> flow_view c' = flow_view c \<Longrightarrow> flow_inv ls c'"
  by (auto simp: flow_inv_def flow_view_def)

lemma set_future_flow [simp]: "flow_view (set_future f r c) = flow_view c"
  by (simp add: flow_view_def sent_def unsent_def set_future_def)

lemma close_flow:
  assumes "flow_inv ls c"
  shows "flow_inv ls (close_connection c)"
proof -
  have fold: "flow_view (fold (\<lambda>f. set_future f r) fs c) = flow_view c" for fs r c
    by (induction fs arbitrary: c) simp_all
  then have v: "flow_view (close_connection c) =
      (always_enabled c, False, sent c, [], always_enabled c \<longrightarrow> is_enabled c)"
    by (simp add: close_connection_def Let_def)
      (simp add: flow_view_def sent_def unsent_def stop_supervisory_timeout_def)
  have "subseq (sent c) (sent c @ unsent c)" by (intro prefix_imp_subseq) simp
  with assms have "subseq (sent c) (queued ls)"
    using subseq_order.trans by (auto simp: flow_inv_def)
  moreover have "always_enabled c \<Longrightarrow> prefix (sent c) (queued ls)"
    using assms append_prefixD by (auto simp: flow_inv_def)
  ultimately show ?thesis using assms v by (auto simp: flow_inv_def flow_view_def)
qed

lemma or_close_flow:
  assumes "flow_inv ls c" "\<And>c'. r = Ok c' \<Longrightarrow> flow_inv ls c'"
  shows "flow_inv ls (or_close c r)"
  using assms close_flow by (cases r) (auto simp: or_close_def)

lemma or_close_same_flow:
  assumes "flow_inv ls c" "\<And>c'. r = Ok c' \<Longrightarrow> flow_view c' = flow_view c"
  shows "flow_inv ls (or_close c r)"
  by (rule or_close_flow [OF assms(1)]) (use flow_same [OF assms(1)] assms(2) in blast)

lemmas flow_view_defs = flow_view_def sent_def unsent_def

lemma flow_views:
  "write_apdus c = Ok c' \<Longrightarrow> flow_view c' = flow_view c"
  "finish_apdui c = Ok c' \<Longrightarrow> flow_view c' = flow_view c"
  "flow_view (on_supervisory_timeout c) = flow_view c"
  by (auto simp: flow_view_defs finish_apdui_def Let_def on_supervisory_timeout_def
      dest!: write_apdus_Ok split: if_splits sum.split)

lemma sequence_flow_view: "sequence_apdui s d c = Ok c' \<Longrightarrow> flow_view c' = flow_view c"
  by (auto simp: sequence_apdui_def Let_def start_supervisory_timeout_def split: if_splits
      dest!: flow_views(2)) (auto simp: flow_view_defs)

lemma set_ack_flow_view:
  assumes "set_ack x c = Ok c'"
  shows "flow_view c' = flow_view c"
proof -
  have upd: "flow_view (c\<lparr>waiting_ack_handles := hs, cancelled := xs\<rparr>) = flow_view c" for c hs xs
    by (simp add: flow_view_defs)
  have "pop_acks xs c = Ok c1 \<Longrightarrow> flow_view c1 = flow_view c" for xs c c1
    by (induction xs arbitrary: c) (auto simp: upd split: option.splits)
  with assms show ?thesis by (auto simp: set_ack_def) (auto simp: flow_view_defs)
qed

lemma process_apduu_flow:
  assumes "process_apduu f c = Ok c'" "flow_inv ls c"
  shows "flow_inv ls c'"
  using assms
  by (auto simp: process_apduu_def flow_inv_def sent_def unsent_def dest!: transport_write_Ok write_apdus_Ok
      split: ApduFunction.splits if_splits)

lemma process_apdu_flow:
  assumes "process_apdu apdu c = Ok c'" "flow_inv ls c"
  shows "flow_inv ls c'"
proof (cases apdu)
  case (APDUI s r d)
  with assms(1) obtain c1 where c1: "set_ack r c = Ok c1" "c' = c1\<lparr>read_pc := R_acked s d\<rparr>"
    by (auto simp: process_apdu_def)
  have "flow_view c' = flow_view c1" unfolding c1(2) by (simp add: flow_view_defs)
  with set_ack_flow_view [OF c1(1)] flow_same [OF assms(2)] show ?thesis by simp
next
  case (APDUS r)
  with assms(1) have "set_ack r c = Ok c'" by (simp add: process_apdu_def)
  from set_ack_flow_view [OF this] flow_same [OF assms(2)] show ?thesis by blast
next
  case (APDUU f)
  with assms(1) have "process_apduu f c = Ok c'" by (simp add: process_apdu_def)
  from process_apduu_flow [OF this assms(2)] show ?thesis .
qed

lemma write_entry_flow:
  assumes "write_entry e d c = Ok c'" "flow_inv ls c" "write_pc c = W_window e d"
  shows "flow_inv ls c'"
proof -
  have fin: "flow_view (finish_entry e h c) = flow_view (c\<lparr>write_pc := W_idle\<rparr>)" for h c
    by (auto simp: finish_entry_def Let_def flow_view_defs set_future_def split: option.splits)
  have fut: "flow_view ((set_future f r c)\<lparr>write_pc := W_idle\<rparr>) = flow_view (c\<lparr>write_pc := W_idle\<rparr>)" for f r c
    by (simp add: flow_view_defs set_future_def)
  from assms(1) obtain h c1 where c1: "end_write_apdui d c = Ok (h, c1)"
    and v: "flow_view c' = flow_view (c1\<lparr>write_pc := W_idle\<rparr>)"
    using fin fut by (auto simp: write_entry_def Let_def split: option.splits)
  have "flow_inv ls (c1\<lparr>write_pc := W_idle\<rparr>)"
  proof (cases "is_enabled c")
    case True
    from end_write_enabled [OF c1 True] assms(2,3) show ?thesis
      by (simp add: flow_inv_def sent_def unsent_def)
  next
    case False
    with end_write_disabled [of c d] c1 have "c1 = c" by simp
    with False assms(2,3) show ?thesis
      by (auto simp: flow_inv_def sent_def unsent_def elim: subseq_skip)
  qed
  with v flow_same show ?thesis by blast
qed

lemma queued_simps [simp]:
  "queued [] = []" "queued (ls @ [L_read x]) = queued ls" "queued (ls @ [L_receive d]) = queued ls"
  "queued (ls @ [L_tau]) = queued ls"
  "queued (ls @ [L_send e]) = queued ls @ (case entry_data e of None \<Rightarrow> [] | Some d \<Rightarrow> [d])"
  by (simp_all add: queued_def List.map_filter_def split: option.split)

theorem flow_step:
  assumes "conn_step c l c'" "flow_inv ls c"
  shows "flow_inv (ls @ [l]) c'"
proof -
  have same: "flow_inv ls c1" if "flow_view c1 = flow_view c" for c1
    using flow_same [OF assms(2) that] .
  have more: "flow_inv (ls @ [m]) c1" if "flow_inv ls c1" "queued (ls @ [m]) = queued ls" for c1 m
    using that by (simp add: flow_inv_def)
  from assms(1) show ?thesis
  proof cases
    case (read apdu)
    show ?thesis
      unfolding read(1,2) queued_simps
      by (rule more, rule or_close_flow [OF assms(2)])
        (simp_all add: process_apdu_flow [OF _ assms(2)])
  next
    case (read_sequence s d)
    show ?thesis
      unfolding read_sequence(1,2)
      by (rule more, rule or_close_same_flow [OF assms(2)])
        (simp_all add: sequence_flow_view)
  next
    case (read_put d)
    have "flow_view (c\<lparr>receive_queue := q\<rparr>) = flow_view c" for q by (simp add: flow_view_defs)
    then show ?thesis
      unfolding read_put(1,2)
      by (intro more or_close_same_flow [OF assms(2)]) (simp_all add: flow_views(2))
  next
    case (write_take e q)
    have "flow_view c1 = flow_view c" if "take_entry e (c\<lparr>send_queue := q\<rparr>) = Ok c1" for c1
      using that write_take(4,5)
      by (auto simp: take_entry_def begin_write_apdui_def flow_view_defs List.map_filter_simps
          split: option.splits if_splits)
    then show ?thesis
      unfolding write_take(1,2)
      by (intro more or_close_same_flow [OF assms(2)]) simp_all
  next
    case (write_drained e)
    have "flow_view c' = flow_view c"
      using write_drained(2,4)
      by (auto simp: drained_entry_def finish_entry_def Let_def flow_view_defs set_future_def split: option.splits)
    then show ?thesis unfolding write_drained(1) by (intro more same) simp_all
  next
    case (write_entry e d)
    show ?thesis
      unfolding write_entry(1,2)
      by (rule more, rule or_close_flow [OF assms(2)])
        (simp_all add: write_entry_flow [OF _ assms(2) write_entry(4)])
  next
    case (user_send e)
    define x where "x = (case entry_data e of None \<Rightarrow> [] | Some d \<Rightarrow> [d])"
    have q: "queued (ls @ [l]) = queued ls @ x" using user_send by (simp add: x_def)
    have c': "sent c' @ unsent c' = (sent c @ unsent c) @ x"
      using user_send by (simp add: sent_def unsent_def x_def List.map_filter_def split: option.split)
    show ?thesis
      using assms(2) user_send(2,3) unfolding flow_inv_def q c' by (auto simp del: append_assoc)
  next
    case (supervisory_task n)
    have "flow_view (c\<lparr>supervisory_tasks := n\<rparr>) = flow_view c" by (simp add: flow_view_defs)
    then show ?thesis
      unfolding supervisory_task(1,2)
      by (intro more same) (simp_all add: flow_views(3))
  next
    case test_send
    have "flow_view (c\<lparr>test_event := False, test_pc := T_wait, written := written c @ [APDUU TESTFR_ACT]\<rparr>) = flow_view c"
      by (simp add: flow_view_defs)
    then show ?thesis
      unfolding test_send(1,2) by (intro more same) (simp_all add: or_close_def)
  qed (auto intro!: more intro: same close_flow assms(2) simp: flow_view_defs set_future_def)
qed

lemma run_flow:
  assumes "conn_run (init_connection always k rw sq rq) ls c"
  shows "flow_inv ls c"
  using assms
proof induction
  case start
  show ?case by (simp add: flow_inv_def init_connection_def sent_def unsent_def List.map_filter_simps)
next
  case (step ls c l c')
  from flow_step [OF step(2,3)] show ?case .
qed

section \<open>End to end\<close>

text \<open>
  The caller on one side gets a prefix of the data in the frames of the other side, which in
  turn is a part of what was queued there, in order; all of it while a side that is always
  enabled is open.
\<close>

lemma payloads_prefix:
  assumes "prefix fs (written c)"
  shows "prefix (payloads (filter is_APDUI fs)) (filter (\<lambda>d. d \<noteq> []) (sent c))"
  using assms by (auto simp: payloads_def sent_def prefix_def)

lemma system_delivery:
  assumes sys: "system (init_connection ea ka wa sa qa) (init_connection eb kb wb sb qb) la a lb b"
    and k: "ka < 0x8000" "kb < 0x8000"
  shows "prefix (received la) (filter (\<lambda>d. d \<noteq> []) (sent b))"
proof -
  from run_deliver [OF system_run [OF sys]] obtain n where
    "received la @ receive_queue a @ pending a = payloads (take n (filter is_APDUI (reads la)))"
    by (auto simp: deliver_inv_def)
  then have "prefix (received la) (payloads (take n (filter is_APDUI (reads la))))"
    by (metis prefixI)
  also have "prefix \<dots> (payloads (filter is_APDUI (reads la)))"
    by (metis append_take_drop_id payloads_simps(2) prefixI)
  also have "prefix \<dots> (filter (\<lambda>d. d \<noteq> []) (sent b))"
    using system_linked [OF sys k] by (intro payloads_prefix) (simp add: linked_def)
  finally show ?thesis .
qed

lemma delivery_prefix:
  assumes "system (init_connection ea ka wa sa qa) (init_connection True kb wb sb qb) la a lb b"
    and "ka < 0x8000" "kb < 0x8000"
  shows "prefix (received la) (filter (\<lambda>d. d \<noteq> []) (queued lb))"
proof -
  have run: "conn_run (init_connection True kb wb sb qb) lb b"
    using system_run [OF system_sym [OF assms(1)]] .
  have "always_enabled b" using run_configuration [OF run] by (simp add: configuration_def)
  with run_flow [OF run] have "prefix (sent b) (queued lb)"
    by (auto simp: flow_inv_def dest: append_prefixD)
  then have "prefix (filter (\<lambda>d. d \<noteq> []) (sent b)) (filter (\<lambda>d. d \<noteq> []) (queued lb))"
    by (auto simp: prefix_def)
  with system_delivery [OF assms] show ?thesis by (rule prefix_order.trans)
qed

text \<open>Where what is queued are encodings \<open>xs\<close>, a prefix of \<open>xs\<close> is decoded on the other side.\<close>

lemma delivery_decoded:
  assumes "system (init_connection ea ka wa sa qa) (init_connection True kb wb sb qb) la a lb b"
    and "ka < 0x8000" "kb < 0x8000" "list_all2 (\<lambda>x d. dec d = Ok (g x) \<and> d \<noteq> []) xs (queued lb)"
  shows "\<exists>n. mapE dec (received la) = Ok (map g (take n xs))"
proof -
  have "filter (\<lambda>d. d \<noteq> []) (queued lb) = queued lb"
    using assms(4) by (auto simp: filter_id_conv list_all2_conv_all_nth in_set_conv_nth)
  with delivery_prefix [OF assms(1-3)] obtain n where n: "received la = take n (queued lb)"
    by (metis append_eq_conv_conj prefix_def)
  have "mapE dec (take n (queued lb)) = Ok (map g (take n xs))"
    using assms(4) by (simp add: mapE_Ok_iff list_all2_conv_all_nth)
  with n show ?thesis by auto
qed

section \<open>Properties\<close>

text \<open>
  C2: two open connections, with windows below 2^15, never find an error in each other's sequence numbers: whatever
  has been read of what the other wrote, the next frame is accepted, and an I frame that was acknowledged has
  the sequence number that is expected.
\<close>

theorem peers_never_fail:
  assumes "system (init_connection ea ka wa sa qa) (init_connection eb kb wb sb qb) la a lb b"
    and "ka < 0x8000" "kb < 0x8000" "is_open a"
  shows "(prefix (reads la @ [apdu]) (written b) \<longrightarrow> (\<exists>a'. process_apdu apdu a = Ok a')) \<and>
    (read_pc a = R_acked s d \<longrightarrow> (\<exists>a'. sequence_apdui s d a = Ok a'))"
  using system_accepts [OF assms] system_sequence [OF assms] by blast

text \<open>A client that sends one message to a server that reads it.\<close>

lemma example_system:
  obtains la a lb b where
    "system (init_connection True 12 8 0 0) (init_connection False 12 8 0 0) la a lb b"
    "is_open a" "is_open b" "read_pc b = R_acked 0 [1]" "queued la = [[1]]" "sent a = [[1]]"
proof -
  let ?a0 = "init_connection True 12 8 0 0" and ?b0 = "init_connection False 12 8 0 0"
    and ?e = "\<lparr>entry_data = Some [1], entry_future = None, wait_ack = False\<rparr>"
  let ?a1 = "?a0\<lparr>send_queue := [?e]\<rparr>"
  let ?a2 = "?a0\<lparr>write_pc := W_window ?e [1]\<rparr>"
  let ?a3 = "?a0\<lparr>written := [APDUI 0 0 [1]], next_handle := 1, waiting_ack_handles := [(0, 0)], ssn := 1\<rparr>"
  let ?b1 = "?b0\<lparr>read_pc := R_acked 0 [1]\<rparr>"
  have enc: "encode_apdu (APDUI 0 0 [1]) = Ok (wire [0x68, 5, 0, 0, 0, 0, 1])"
    by (simp add: encode_apdu_def py_bytes_def is_byte_num)
  have c3: "or_close ?a2 (write_entry ?e [1] ?a2) = ?a3"
    by (simp add: write_entry_def end_write_apdui_def init_connection_def transport_write_def enc
        stop_supervisory_timeout_def finish_entry_def or_close_def Let_def)
  have "system ?a0 ?b0 [] ?a0 [] ?b0" by (rule system.start)
  from left [OF this user_send [of _ ?e]] have "system ?a0 ?b0 [L_send ?e] ?a1 [] ?b0"
    by (simp add: init_connection_def room_def reads_def List.map_filter_simps)
  from left [OF this write_take [of ?a1 ?e "[]"]] have "system ?a0 ?b0 [L_send ?e, L_tau] ?a2 [] ?b0"
    by (simp add: init_connection_def take_entry_def begin_write_apdui_def or_close_def reads_def List.map_filter_simps)
  from left [OF this write_entry [of ?a2 ?e "[1]"]] have "system ?a0 ?b0 [L_send ?e, L_tau, L_tau] ?a3 [] ?b0"
    unfolding c3 by (simp add: init_connection_def window_free_def reads_def List.map_filter_simps)
  from right [OF this read [of ?b0 "APDUI 0 0 [1]"]]
  have "system ?a0 ?b0 [L_send ?e, L_tau, L_tau] ?a3 [L_read (APDUI 0 0 [1])] ?b1"
    by (simp add: init_connection_def apdu_decoded_def seq_ok_def process_apdu_def set_ack_def ack_range_def
        or_close_def reads_def List.map_filter_simps)
  moreover have "is_open ?a3" "is_open ?b1" "read_pc ?b1 = R_acked 0 [1]"
    "queued [L_send ?e, L_tau, L_tau] = [[1]]" "sent ?a3 = [[1]]"
    by (simp_all add: init_connection_def sent_def queued_def List.map_filter_simps)
  ultimately show thesis by (rule that)
qed

lemma peers_never_fail_witness:
  "\<exists>b b'. is_open b \<and> read_pc b = R_acked 0 [1] \<and> sequence_apdui 0 [1] b = Ok b'"
proof -
  obtain la a lb b where s: "system (init_connection True 12 8 0 0) (init_connection False 12 8 0 0) la a lb b"
    "is_open b" "read_pc b = R_acked 0 [1]"
    by (rule example_system)
  with peers_never_fail [OF system_sym [OF s(1)]] show ?thesis by auto
qed

text \<open>
  C1: end to end, what the callers on one side receive is a prefix of the data that was sent on
  the other side, without the empty messages, and this is taken from the data that was queued
  there, in order and without repetition. A side that is always enabled, as a client is, sends
  everything: what was queued is what was sent followed by what still waits.
\<close>

theorem delivery_end_to_end:
  assumes "system (init_connection ea ka wa sa qa) (init_connection eb kb wb sb qb) la a lb b"
    and "ka < 0x8000" "kb < 0x8000"
  shows "prefix (received la) (filter (\<lambda>d. d \<noteq> []) (sent b)) \<and> subseq (sent b) (queued lb) \<and>
    (eb \<longrightarrow> prefix (sent b) (queued lb)) \<and>
    (eb \<and> is_open b \<longrightarrow> queued lb = sent b @ unsent b)"
proof -
  have run: "conn_run (init_connection eb kb wb sb qb) lb b"
    using system_run [OF system_sym [OF assms(1)]] .
  have "subseq (sent b) (sent b @ unsent b)" by (intro prefix_imp_subseq) simp
  moreover have "always_enabled b = eb" using run_configuration [OF run] by (simp add: configuration_def)
  ultimately show ?thesis
    using system_delivery [OF assms] run_flow [OF run] unfolding flow_inv_def
    by (metis append_prefixD subseq_order.trans)
qed

lemma delivery_end_to_end_witness:
  "\<exists>la a lb b. system (init_connection True 12 8 0 0) (init_connection False 12 8 0 0) la a lb b \<and>
    sent a = [[1]] \<and> prefix (received lb) [[1]] \<and> queued la = sent a @ unsent a"
proof -
  obtain la a lb b where s: "system (init_connection True 12 8 0 0) (init_connection False 12 8 0 0) la a lb b"
    "is_open a" "sent a = [[1]]"
    by (rule example_system)
  from delivery_end_to_end [OF system_sym [OF s(1)]] s(2,3)
  have "prefix (received lb) [[1]]" "queued la = sent a @ unsent a" by auto
  with s(1,3) show ?thesis by (intro exI conjI)
qed

text \<open>
  The writing loop never finds a sequence number in use: an entry that it takes from the send
  queue is always accepted.
\<close>

lemma sequence_number_free:
  assumes "conn_run (init_connection always k rw sq rq) ls c" "k < 0x8000"
  shows "\<exists>c'. take_entry e c = Ok c'"
proof -
  from run_window [OF assms] obtain a s where w: "in_window k a s c" by blast
  have bound: "s < a + 0x8000" using w assms(2) by (auto simp: in_window_def)
  have "seq_number i \<noteq> seq_number s" if i: "a \<le> i" "i < s" for i
    using seq_number_inj [of i s a] i bound by linarith
  with w have "ssn c \<notin> set (map fst (waiting_ack_handles c))"
    by (force simp: in_window_def seq_numbers_def)
  then show ?thesis by (simp add: take_entry_def begin_write_apdui_def split: option.split)
qed

lemma sequence_number_free_witness:
  "\<exists>c c'. map apdu_ssn (filter is_APDUI (written c)) = [0] \<and>
    take_entry \<lparr>entry_data = Some [2], entry_future = None, wait_ack = False\<rparr> c = Ok c'"
proof -
  obtain ls c where c: "conn_run (init_connection True 12 8 0 0) ls c"
    "map apdu_ssn (filter is_APDUI (written c)) = [0]" by (rule example_run)
  from sequence_number_free [OF c(1)] c(2) show ?thesis by force
qed

end
