(* ===== verification/Iec104_Connection.thy ===== *)
theory Iec104_Connection
  imports Iec104_Driver Apci_System
begin

text \<open>
  The connection of the driver of IEC 60870-5-104, from \<^verbatim>\<open>iec104/connection.py\<close>: it encodes
  messages and hands the data units to the connection of \<^verbatim>\<open>iec60870/apci\<close>, and decodes the data
  that this receives. With the system of two such connections this gives the path of messages
  from one application to the other.
\<close>

section \<open>Operations\<close>

text \<open>The encoder of a connection has the default size limit.\<close>

definition encoder_104 :: Encoder104 where
  "encoder_104 = init_encoder_104 249"

text \<open>
  \<open>Connection.send\<close>: all messages are encoded before the first is queued; the caller waits for
  an acknowledgement of the last alone, with the future \<open>f\<close>. The result are the entries of the
  send queue.
\<close>

fun send_entries :: "nat option \<Rightarrow> bytes list \<Rightarrow> SendQueueEntry list" where
  "send_entries f [] = []"
| "send_entries f [d] = [\<lparr>entry_data = Some d, entry_future = f, wait_ack = (f \<noteq> None)\<rparr>]"
| "send_entries f (d # d' # ds) =
     \<lparr>entry_data = Some d, entry_future = None, wait_ack = False\<rparr> # send_entries f (d' # ds)"

definition send_msgs :: "Msg104 list \<Rightarrow> nat option \<Rightarrow> SendQueueEntry list result" where
  "send_msgs msgs f = bindE (encode_msgs_104 encoder_104 msgs) (\<lambda>datas. Ok (send_entries f datas))"

definition receive_msgs :: "bytes \<Rightarrow> Msg104 list result" where
  "receive_msgs data = decode_msgs_104 encoder_104 data"

section \<open>What the connection below gets\<close>

definition entries :: "Label list \<Rightarrow> SendQueueEntry list" where
  "entries ls = List.map_filter (\<lambda>l. case l of L_send e \<Rightarrow> Some e | _ \<Rightarrow> None) ls"

lemma queued_entries: "queued ls = List.map_filter entry_data (entries ls)"
proof (induction ls)
  case (Cons l ls)
  then show ?case
    by (cases l) (simp_all add: queued_def entries_def List.map_filter_simps split: option.split)
qed (simp add: queued_def entries_def List.map_filter_simps)

lemma send_entries_data: "List.map_filter entry_data (send_entries f ds) = ds"
  by (induction f ds rule: send_entries.induct) (simp_all add: List.map_filter_simps)

lemma map_filter_append: "List.map_filter f (xs @ ys) = List.map_filter f xs @ List.map_filter f ys"
  by (simp add: List.map_filter_def)

text \<open>The data of several calls of \<open>send\<close>, one after the other.\<close>

lemma batches_encoded:
  assumes "mapE (\<lambda>(msgs, f). send_msgs msgs f) batches = Ok ess" "\<forall>(msgs, f)\<in>set batches. list_all msg_ok_104 msgs"
  shows "list_all2 (\<lambda>msg d. receive_msgs d = Ok [msg] \<and> d \<noteq> []) (concat (map fst batches))
    (List.map_filter entry_data (concat ess))"
  using assms
proof (induction batches arbitrary: ess)
  case (Cons b batches)
  obtain msgs f where b: "b = (msgs, f)" by fastforce
  with Cons.prems obtain es ess' where
    e: "send_msgs msgs f = Ok es" "mapE (\<lambda>(msgs, f). send_msgs msgs f) batches = Ok ess'" "ess = es # ess'"
    by auto
  from Cons.prems b encode_decode_msgs_104 [of msgs 249] obtain datas where
    d: "encode_msgs_104 encoder_104 msgs = Ok datas"
    "list_all2 (\<lambda>msg d. receive_msgs d = Ok [msg] \<and> d \<noteq> []) msgs datas"
    by (auto simp: encoder_104_def receive_msgs_def)
  with e(1) have "es = send_entries f datas" by (simp add: send_msgs_def)
  with d Cons.IH [OF e(2)] Cons.prems(2) show ?case
    by (auto simp: b e(3) send_entries_data map_filter_append intro!: list_all2_appendI)
qed (simp add: List.map_filter_simps)

section \<open>Properties\<close>

text \<open>
  C4: a client that sends well-formed messages, in any number of calls, gets each of them to the
  server at most once and in order: what the server receives, one message at a time, is a prefix
  of what the client sent, as long as the transport delivers what it does deliver in order.
\<close>

theorem messages_end_to_end:
  assumes "system (init_connection ea ka wa sa qa) (init_connection True kb wb sb qb) la a lb b"
    and "ka < 0x8000" "kb < 0x8000" "\<forall>(msgs, f)\<in>set batches. list_all msg_ok_104 msgs"
    and "mapE (\<lambda>(msgs, f). send_msgs msgs f) batches = Ok ess" "entries lb = concat ess"
  shows "\<exists>n. mapE receive_msgs (received la) = Ok (map (\<lambda>msg. [msg]) (take n (concat (map fst batches))))"
  by (rule delivery_decoded [OF assms(1-3)])
    (use batches_encoded [OF assms(5,4)] assms(6) in \<open>simp add: queued_entries\<close>)

text \<open>Any one message, queued at a client and received at the server.\<close>

lemma one_delivery:
  assumes "encode_apdu (APDUI 0 0 data) = Ok frame" "data \<noteq> []"
  obtains la a lb b where
    "system (init_connection True 12 8 0 0) (init_connection False 12 8 0 0) la a lb b"
    "entries la = [\<lparr>entry_data = Some data, entry_future = None, wait_ack = False\<rparr>]" "received lb = [data]"
proof -
  let ?a0 = "init_connection True 12 8 0 0" and ?b0 = "init_connection False 12 8 0 0"
    and ?e = "\<lparr>entry_data = Some data, entry_future = None, wait_ack = False\<rparr>"
  let ?a1 = "?a0\<lparr>send_queue := [?e]\<rparr>"
  let ?a2 = "?a0\<lparr>write_pc := W_window ?e data\<rparr>"
  let ?a3 = "?a0\<lparr>written := [APDUI 0 0 data], next_handle := 1, waiting_ack_handles := [(0, 0)], ssn := 1\<rparr>"
  let ?b1 = "?b0\<lparr>read_pc := R_acked 0 data\<rparr>"
  let ?b2 = "?b0\<lparr>read_pc := R_put data, rsn := 1, supervisory_handle := True\<rparr>"
  let ?b3 = "?b0\<lparr>rsn := 1, supervisory_handle := True, w := 1\<rparr>"
  have c3: "or_close ?a2 (write_entry ?e data ?a2) = ?a3"
    by (simp add: write_entry_def end_write_apdui_def init_connection_def transport_write_def assms(1)
        stop_supervisory_timeout_def finish_entry_def or_close_def Let_def)
  have "system ?a0 ?b0 [] ?a0 [] ?b0" by (rule system.start)
  from left [OF this user_send [of _ ?e]] have "system ?a0 ?b0 [L_send ?e] ?a1 [] ?b0"
    by (simp add: init_connection_def room_def reads_def List.map_filter_simps)
  from left [OF this write_take [of ?a1 ?e "[]"]] have "system ?a0 ?b0 [L_send ?e, L_tau] ?a2 [] ?b0"
    by (simp add: init_connection_def take_entry_def begin_write_apdui_def or_close_def reads_def List.map_filter_simps)
  from left [OF this write_entry [of ?a2 ?e data]] have "system ?a0 ?b0 [L_send ?e, L_tau, L_tau] ?a3 [] ?b0"
    unfolding c3 by (simp add: init_connection_def window_free_def reads_def List.map_filter_simps)
  from right [OF this read [of ?b0 "APDUI 0 0 data"]]
  have "system ?a0 ?b0 [L_send ?e, L_tau, L_tau] ?a3 [L_read (APDUI 0 0 data)] ?b1"
    by (simp add: init_connection_def apdu_decoded_def seq_ok_def process_apdu_def set_ack_def ack_range_def
        or_close_def reads_def List.map_filter_simps)
  from right [OF this read_sequence [of ?b1 0 data]]
  have "system ?a0 ?b0 [L_send ?e, L_tau, L_tau] ?a3 [L_read (APDUI 0 0 data), L_tau] ?b2"
    using assms(2)
    by (simp add: init_connection_def sequence_apdui_def start_supervisory_timeout_def or_close_def reads_def
        List.map_filter_simps)
  from right [OF this read_put [of ?b2 data]]
  have "system ?a0 ?b0 [L_send ?e, L_tau, L_tau] ?a3 [L_read (APDUI 0 0 data), L_tau, L_tau]
      (?b3\<lparr>receive_queue := [data]\<rparr>)"
    by (simp add: init_connection_def finish_apdui_def room_def or_close_def reads_def List.map_filter_simps)
  from right [OF this user_receive [of _ data "[]"]]
  have "system ?a0 ?b0 [L_send ?e, L_tau, L_tau] ?a3 [L_read (APDUI 0 0 data), L_tau, L_tau, L_receive data] ?b3"
    by (simp add: init_connection_def reads_def List.map_filter_simps)
  moreover have "entries [L_send ?e, L_tau, L_tau] = [?e]"
    "received [L_read (APDUI 0 0 data), L_tau, L_tau, L_receive data] = [data]"
    by (simp_all add: entries_def received_def List.map_filter_simps)
  ultimately show thesis by (rule that)
qed

definition example_msg :: Msg104 where
  "example_msg = InterrogationMsg104 False 3 5 20 False (ReqCause CommandReqCause_ACTIVATION)"

lemma example_msg_encoded:
  obtains data where "encode_msgs_104 encoder_104 [example_msg] = Ok [data]" "receive_msgs data = Ok [example_msg]"
    "length data = 10" "msg_ok_104 example_msg"
proof -
  have ok: "msg_ok_104 example_msg"
    by (simp add: example_msg_def msg_ok_104_def header_ok_def is_byte_num)
  from encode_decode_msgs_104 [of "[example_msg]" 249] ok obtain data where
    d: "encode_msgs_104 encoder_104 [example_msg] = Ok [data]" "receive_msgs data = Ok [example_msg]"
    by (auto simp: encoder_104_def receive_msgs_def list_all2_Cons1)
  have "encode_msg_cause 6 = KnownCause CauseType_ACTIVATION"
    by (simp add: encode_msg_cause_def CauseType_of_def enum_lookup_def CauseType_members_def)
  moreover have "decode_asdu_type_104 100 = Ok I104_C_IC_NA"
    using decode_asdu_type_104_value [of I104_C_IC_NA] by simp
  moreover have "decode_asdu_type 100 = Ok C_IC_NA"
    using decode_asdu_type_value [of C_IC_NA] by simp
  ultimately have "length data = 10"
    using d(1)
    by (auto simp: encoder_104_def example_msg_def encode_msgs_104_def encode_msg_104_def msg_asdu_104_def
        encode_asdu_104_def init_encoder_104_def lower_asdu_104_def encode_asdu_def encode_cause_def asdu_is_sequence_def
        encode_io_def encode_int_def asdu_type_time_sizes_104_def asdu_type_time_sizes_101_def
        encode_io_element_104_def encode_io_element_def encode_io_element_1_def encode_io_element_2_def
        encode_io_element_3_def iec101_asdu_types_def bindE_Ok_iff py_bytes_Ok_iff wire_def)
  from that [OF d this ok] show thesis .
qed

lemma messages_end_to_end_witness:
  "\<exists>la a lb b data. system (init_connection True 12 8 0 0) (init_connection False 12 8 0 0) la a lb b \<and>
    received lb = [data] \<and> receive_msgs data = Ok [example_msg]"
proof -
  obtain data where d: "encode_msgs_104 encoder_104 [example_msg] = Ok [data]" "length data = 10" "msg_ok_104 example_msg"
    by (rule example_msg_encoded)
  have "apdu_ok (APDUI 0 0 data)" using d(2) by (simp add: apdu_ok_def seq_ok_def)
  from apci.enc_dec [OF this] obtain frame where f: "encode_apdu (APDUI 0 0 data) = Ok frame" by blast
  have "data \<noteq> []" using d(2) by auto
  from one_delivery [OF f this] obtain la a lb b where
    s: "system (init_connection True 12 8 0 0) (init_connection False 12 8 0 0) la a lb b"
      "entries la = [\<lparr>entry_data = Some data, entry_future = None, wait_ack = False\<rparr>]" "received lb = [data]" .
  have "mapE (\<lambda>(msgs, f). send_msgs msgs f) [([example_msg], None)] = Ok [entries la]"
    using d(1) s(2) by (simp add: send_msgs_def)
  from messages_end_to_end [OF system_sym [OF s(1)] _ _ _ this] d(3) obtain n where
    "mapE receive_msgs (received lb) = Ok (map (\<lambda>msg. [msg]) (take n [example_msg]))" by auto
  then have "receive_msgs data = Ok [example_msg]" by (cases n) (auto simp: s(3))
  with s(1,3) show ?thesis by blast
qed

end
