(* ===== verification/Iec103_Common.thy ===== *)
theory Iec103_Common
  imports Encodings Py_Float
begin

text \<open>
  The data of \<^verbatim>\<open>iec60870/encodings/iec103/common.py\<close>. Names that the other encodings have too end in
  103 here. A value of an enumeration stands in the union \<open>Value\<close> under a constructor of its own.
\<close>

section \<open>Enumerations\<close>

datatype (plugins only: code size) AsduType103 =
    I103_TIME_TAGGED_MESSAGE | I103_TIME_TAGGED_MESSAGE_WITH_RELATIVE_TIME | I103_MEASURANDS_1 |
    I103_TIME_TAGGED_MEASURANDS_WITH_RELATIVE_TIME | I103_IDENTIFICATION | I103_TIME_SYNCHRONIZATION |
    I103_GENERAL_INTERROGATION | I103_GENERAL_INTERROGATION_TERMINATION | I103_MEASURANDS_2 |
    I103_GENERIC_DATA | I103_GENERIC_IDENTIFICATION | I103_GENERAL_COMMAND | I103_GENERIC_COMMAND |
    I103_LIST_OF_RECORDED_DISTURBANCES | I103_ORDER_FOR_DISTURBANCE_DATA_TRANSMISSION |
    I103_ACKNOWLEDGEMENT_FOR_DISTURBANCE_DATA_TRANSMISSION | I103_READY_FOR_TRANSMISSION_OF_DISTURBANCE_DATA |
    I103_READY_FOR_TRANSMISSION_OF_A_CHANNEL | I103_READY_FOR_TRANSMISSION_OF_TAGS | I103_TRANSMISSION_OF_TAGS |
    I103_TRANSMISSION_OF_DISTURBANCE_VALUES | I103_END_OF_TRANSMISSION

fun AsduType103_value :: "AsduType103 \<Rightarrow> int" where
  "AsduType103_value I103_TIME_TAGGED_MESSAGE = 1"
| "AsduType103_value I103_TIME_TAGGED_MESSAGE_WITH_RELATIVE_TIME = 2"
| "AsduType103_value I103_MEASURANDS_1 = 3"
| "AsduType103_value I103_TIME_TAGGED_MEASURANDS_WITH_RELATIVE_TIME = 4"
| "AsduType103_value I103_IDENTIFICATION = 5"
| "AsduType103_value I103_TIME_SYNCHRONIZATION = 6"
| "AsduType103_value I103_GENERAL_INTERROGATION = 7"
| "AsduType103_value I103_GENERAL_INTERROGATION_TERMINATION = 8"
| "AsduType103_value I103_MEASURANDS_2 = 9"
| "AsduType103_value I103_GENERIC_DATA = 10"
| "AsduType103_value I103_GENERIC_IDENTIFICATION = 11"
| "AsduType103_value I103_GENERAL_COMMAND = 20"
| "AsduType103_value I103_GENERIC_COMMAND = 21"
| "AsduType103_value I103_LIST_OF_RECORDED_DISTURBANCES = 23"
| "AsduType103_value I103_ORDER_FOR_DISTURBANCE_DATA_TRANSMISSION = 24"
| "AsduType103_value I103_ACKNOWLEDGEMENT_FOR_DISTURBANCE_DATA_TRANSMISSION = 25"
| "AsduType103_value I103_READY_FOR_TRANSMISSION_OF_DISTURBANCE_DATA = 26"
| "AsduType103_value I103_READY_FOR_TRANSMISSION_OF_A_CHANNEL = 27"
| "AsduType103_value I103_READY_FOR_TRANSMISSION_OF_TAGS = 28"
| "AsduType103_value I103_TRANSMISSION_OF_TAGS = 29"
| "AsduType103_value I103_TRANSMISSION_OF_DISTURBANCE_VALUES = 30"
| "AsduType103_value I103_END_OF_TRANSMISSION = 31"

definition AsduType103_members :: "AsduType103 list" where
  "AsduType103_members =
     [
      I103_TIME_TAGGED_MESSAGE, I103_TIME_TAGGED_MESSAGE_WITH_RELATIVE_TIME, I103_MEASURANDS_1,
      I103_TIME_TAGGED_MEASURANDS_WITH_RELATIVE_TIME, I103_IDENTIFICATION, I103_TIME_SYNCHRONIZATION,
      I103_GENERAL_INTERROGATION, I103_GENERAL_INTERROGATION_TERMINATION, I103_MEASURANDS_2, I103_GENERIC_DATA,
      I103_GENERIC_IDENTIFICATION, I103_GENERAL_COMMAND, I103_GENERIC_COMMAND,
      I103_LIST_OF_RECORDED_DISTURBANCES, I103_ORDER_FOR_DISTURBANCE_DATA_TRANSMISSION,
      I103_ACKNOWLEDGEMENT_FOR_DISTURBANCE_DATA_TRANSMISSION, I103_READY_FOR_TRANSMISSION_OF_DISTURBANCE_DATA,
      I103_READY_FOR_TRANSMISSION_OF_A_CHANNEL, I103_READY_FOR_TRANSMISSION_OF_TAGS, I103_TRANSMISSION_OF_TAGS,
      I103_TRANSMISSION_OF_DISTURBANCE_VALUES, I103_END_OF_TRANSMISSION]"

definition AsduType103_of :: "int \<Rightarrow> AsduType103 result" where
  "AsduType103_of = enum_lookup AsduType103_value AsduType103_members"

interpretation AsduType103: enumeration AsduType103_value AsduType103_members
proof unfold_locales
  show "x \<in> set AsduType103_members" for x by (cases x) (simp_all add: AsduType103_members_def)
  show "distinct (map AsduType103_value AsduType103_members)" by (simp add: AsduType103_members_def)
qed

lemma AsduType103_of_value [simp]: "AsduType103_of (AsduType103_value x) = Ok x"
  by (simp add: AsduType103_of_def AsduType103.of_value)

datatype (plugins only: code size) Cause103 =
    Cause103_SPONTANEOUS | Cause103_CYCLIC | Cause103_RESET_FRAME_COUNT_BIT |
    Cause103_RESET_COMMUNICATION_UNIT | Cause103_START_RESTART | Cause103_POWER_ON | Cause103_TEST_MODE |
    Cause103_TIME_SYNCHRONIZATION | Cause103_GENERAL_INTERROGATION |
    Cause103_TERMINATION_OF_GENERAL_INTERROGATION | Cause103_LOCAL_OPERATION | Cause103_REMOTE_OPERATION |
    Cause103_GENERAL_COMMAND | Cause103_GENERAL_COMMAND_NACK | Cause103_TRANSMISSION_OF_DISTURBANCE_DATA |
    Cause103_GENERIC_WRITE_COMMAND | Cause103_GENERIC_WRITE_COMMAND_NACK | Cause103_GENERIC_READ_COMMAND |
    Cause103_GENERIC_READ_COMMAND_NACK | Cause103_GENERIC_WRITE_CONFIRMATION

fun Cause103_value :: "Cause103 \<Rightarrow> int" where
  "Cause103_value Cause103_SPONTANEOUS = 1"
| "Cause103_value Cause103_CYCLIC = 2"
| "Cause103_value Cause103_RESET_FRAME_COUNT_BIT = 3"
| "Cause103_value Cause103_RESET_COMMUNICATION_UNIT = 4"
| "Cause103_value Cause103_START_RESTART = 5"
| "Cause103_value Cause103_POWER_ON = 6"
| "Cause103_value Cause103_TEST_MODE = 7"
| "Cause103_value Cause103_TIME_SYNCHRONIZATION = 8"
| "Cause103_value Cause103_GENERAL_INTERROGATION = 9"
| "Cause103_value Cause103_TERMINATION_OF_GENERAL_INTERROGATION = 10"
| "Cause103_value Cause103_LOCAL_OPERATION = 11"
| "Cause103_value Cause103_REMOTE_OPERATION = 12"
| "Cause103_value Cause103_GENERAL_COMMAND = 20"
| "Cause103_value Cause103_GENERAL_COMMAND_NACK = 21"
| "Cause103_value Cause103_TRANSMISSION_OF_DISTURBANCE_DATA = 31"
| "Cause103_value Cause103_GENERIC_WRITE_COMMAND = 40"
| "Cause103_value Cause103_GENERIC_WRITE_COMMAND_NACK = 41"
| "Cause103_value Cause103_GENERIC_READ_COMMAND = 42"
| "Cause103_value Cause103_GENERIC_READ_COMMAND_NACK = 43"
| "Cause103_value Cause103_GENERIC_WRITE_CONFIRMATION = 44"

definition Cause103_members :: "Cause103 list" where
  "Cause103_members =
     [
      Cause103_SPONTANEOUS, Cause103_CYCLIC, Cause103_RESET_FRAME_COUNT_BIT, Cause103_RESET_COMMUNICATION_UNIT,
      Cause103_START_RESTART, Cause103_POWER_ON, Cause103_TEST_MODE, Cause103_TIME_SYNCHRONIZATION,
      Cause103_GENERAL_INTERROGATION, Cause103_TERMINATION_OF_GENERAL_INTERROGATION, Cause103_LOCAL_OPERATION,
      Cause103_REMOTE_OPERATION, Cause103_GENERAL_COMMAND, Cause103_GENERAL_COMMAND_NACK,
      Cause103_TRANSMISSION_OF_DISTURBANCE_DATA, Cause103_GENERIC_WRITE_COMMAND,
      Cause103_GENERIC_WRITE_COMMAND_NACK, Cause103_GENERIC_READ_COMMAND, Cause103_GENERIC_READ_COMMAND_NACK,
      Cause103_GENERIC_WRITE_CONFIRMATION]"

definition Cause103_of :: "int \<Rightarrow> Cause103 result" where
  "Cause103_of = enum_lookup Cause103_value Cause103_members"

interpretation Cause103: enumeration Cause103_value Cause103_members
proof unfold_locales
  show "x \<in> set Cause103_members" for x by (cases x) (simp_all add: Cause103_members_def)
  show "distinct (map Cause103_value Cause103_members)" by (simp add: Cause103_members_def)
qed

lemma Cause103_of_value [simp]: "Cause103_of (Cause103_value x) = Ok x"
  by (simp add: Cause103_of_def Cause103.of_value)

datatype (plugins only: code size) Description =
    Description_NOT_SPECIFIED | Description_ACTUAL_VALUE | Description_DEFAULT_VALUE | Description_RANGE |
    Description_PRECISION | Description_FACTOR | Description_REFERENCE | Description_ENUMERATION |
    Description_DIMENSION | Description_DESCRIPTION | Description_PASSWORD | Description_READ_ONLY |
    Description_WRITE_ONLY | Description_IO_ADDRESS | Description_EVENT | Description_TEXT_ARRAY |
    Description_VALUE_ARRAY | Description_RELATED

fun Description_value :: "Description \<Rightarrow> int" where
  "Description_value Description_NOT_SPECIFIED = 0"
| "Description_value Description_ACTUAL_VALUE = 1"
| "Description_value Description_DEFAULT_VALUE = 2"
| "Description_value Description_RANGE = 3"
| "Description_value Description_PRECISION = 5"
| "Description_value Description_FACTOR = 6"
| "Description_value Description_REFERENCE = 7"
| "Description_value Description_ENUMERATION = 8"
| "Description_value Description_DIMENSION = 9"
| "Description_value Description_DESCRIPTION = 10"
| "Description_value Description_PASSWORD = 12"
| "Description_value Description_READ_ONLY = 13"
| "Description_value Description_WRITE_ONLY = 14"
| "Description_value Description_IO_ADDRESS = 19"
| "Description_value Description_EVENT = 20"
| "Description_value Description_TEXT_ARRAY = 21"
| "Description_value Description_VALUE_ARRAY = 22"
| "Description_value Description_RELATED = 23"

definition Description_members :: "Description list" where
  "Description_members =
     [
      Description_NOT_SPECIFIED, Description_ACTUAL_VALUE, Description_DEFAULT_VALUE, Description_RANGE,
      Description_PRECISION, Description_FACTOR, Description_REFERENCE, Description_ENUMERATION,
      Description_DIMENSION, Description_DESCRIPTION, Description_PASSWORD, Description_READ_ONLY,
      Description_WRITE_ONLY, Description_IO_ADDRESS, Description_EVENT, Description_TEXT_ARRAY,
      Description_VALUE_ARRAY, Description_RELATED]"

definition Description_of :: "int \<Rightarrow> Description result" where
  "Description_of = enum_lookup Description_value Description_members"

interpretation Description: enumeration Description_value Description_members
proof unfold_locales
  show "x \<in> set Description_members" for x by (cases x) (simp_all add: Description_members_def)
  show "distinct (map Description_value Description_members)" by (simp add: Description_members_def)
qed

lemma Description_of_value [simp]: "Description_of (Description_value x) = Ok x"
  by (simp add: Description_of_def Description.of_value)

datatype (plugins only: code size) OrderType =
    OrderType_SELECTION_OF_FAULT | OrderType_REQUEST_FOR_DISTURBANCE_DATA |
    OrderType_ABORTION_OF_DISTURBANCE_DATA | OrderType_REQUEST_FOR_CHANNEL | OrderType_ABORTION_OF_CHANNEL |
    OrderType_REQUEST_FOR_TAGS | OrderType_ABORTION_OF_TAGS |
    OrderType_REQUEST_FOR_LIST_OF_RECORDED_DISTURBANCES |
    OrderType_END_OF_DISTURBANCE_DATA_TRANSMISSION_WITHOUT_ABORTION |
    OrderType_END_OF_DISTURBANCE_DATA_TRANSMISSION_WITH_ABORTION_BY_CONTROL_SYSTEM |
    OrderType_END_OF_DISTURBANCE_DATA_TRANSMISSION_WITH_ABORTION_BY_THE_PROTECTION_EQUIPMENT |
    OrderType_END_OF_CHANNEL_TRANSMISSION_WITHOUT_ABORTION |
    OrderType_END_OF_CHANNEL_TRANSMISSION_WITH_ABORTION_BY_CONTROL_SYSTEM |
    OrderType_END_OF_CHANNEL_TRANSMISSION_WITH_ABORTION_BY_THE_PROTECTION_EQUIPMENT |
    OrderType_END_OF_TAG_TRANSMISSION_WITHOUT_ABORTION |
    OrderType_END_OF_TAG_TRANSMISSION_WITH_ABORTION_BY_CONTROL_SYSTEM |
    OrderType_END_OF_TAG_TRANSMISSION_WITH_ABORTION_BY_THE_PROTECTION_EQUIPMENT |
    OrderType_DISTURBANCE_DATA_TRANSMITTED_SUCCESSFULLY |
    OrderType_DISTURBANCE_DATA_TRANSMITTED_NOT_SUCCESSFULLY | OrderType_CHANNEL_TRANSMITTED_SUCCESSFULLY |
    OrderType_CHANNEL_TRANSMITTED_NOT_SUCCESSFULLY | OrderType_TAGS_TRANSMITTED_SUCCESSFULLY |
    OrderType_TAGS_TRANSMITTED_NOT_SUCCESSFULLY

fun OrderType_value :: "OrderType \<Rightarrow> int" where
  "OrderType_value OrderType_SELECTION_OF_FAULT = 1"
| "OrderType_value OrderType_REQUEST_FOR_DISTURBANCE_DATA = 2"
| "OrderType_value OrderType_ABORTION_OF_DISTURBANCE_DATA = 3"
| "OrderType_value OrderType_REQUEST_FOR_CHANNEL = 8"
| "OrderType_value OrderType_ABORTION_OF_CHANNEL = 9"
| "OrderType_value OrderType_REQUEST_FOR_TAGS = 16"
| "OrderType_value OrderType_ABORTION_OF_TAGS = 17"
| "OrderType_value OrderType_REQUEST_FOR_LIST_OF_RECORDED_DISTURBANCES = 24"
| "OrderType_value OrderType_END_OF_DISTURBANCE_DATA_TRANSMISSION_WITHOUT_ABORTION = 32"
| "OrderType_value OrderType_END_OF_DISTURBANCE_DATA_TRANSMISSION_WITH_ABORTION_BY_CONTROL_SYSTEM = 33"
| "OrderType_value OrderType_END_OF_DISTURBANCE_DATA_TRANSMISSION_WITH_ABORTION_BY_THE_PROTECTION_EQUIPMENT = 34"
| "OrderType_value OrderType_END_OF_CHANNEL_TRANSMISSION_WITHOUT_ABORTION = 35"
| "OrderType_value OrderType_END_OF_CHANNEL_TRANSMISSION_WITH_ABORTION_BY_CONTROL_SYSTEM = 36"
| "OrderType_value OrderType_END_OF_CHANNEL_TRANSMISSION_WITH_ABORTION_BY_THE_PROTECTION_EQUIPMENT = 37"
| "OrderType_value OrderType_END_OF_TAG_TRANSMISSION_WITHOUT_ABORTION = 38"
| "OrderType_value OrderType_END_OF_TAG_TRANSMISSION_WITH_ABORTION_BY_CONTROL_SYSTEM = 39"
| "OrderType_value OrderType_END_OF_TAG_TRANSMISSION_WITH_ABORTION_BY_THE_PROTECTION_EQUIPMENT = 40"
| "OrderType_value OrderType_DISTURBANCE_DATA_TRANSMITTED_SUCCESSFULLY = 64"
| "OrderType_value OrderType_DISTURBANCE_DATA_TRANSMITTED_NOT_SUCCESSFULLY = 65"
| "OrderType_value OrderType_CHANNEL_TRANSMITTED_SUCCESSFULLY = 66"
| "OrderType_value OrderType_CHANNEL_TRANSMITTED_NOT_SUCCESSFULLY = 67"
| "OrderType_value OrderType_TAGS_TRANSMITTED_SUCCESSFULLY = 68"
| "OrderType_value OrderType_TAGS_TRANSMITTED_NOT_SUCCESSFULLY = 69"

definition OrderType_members :: "OrderType list" where
  "OrderType_members =
     [
      OrderType_SELECTION_OF_FAULT, OrderType_REQUEST_FOR_DISTURBANCE_DATA,
      OrderType_ABORTION_OF_DISTURBANCE_DATA, OrderType_REQUEST_FOR_CHANNEL, OrderType_ABORTION_OF_CHANNEL,
      OrderType_REQUEST_FOR_TAGS, OrderType_ABORTION_OF_TAGS,
      OrderType_REQUEST_FOR_LIST_OF_RECORDED_DISTURBANCES,
      OrderType_END_OF_DISTURBANCE_DATA_TRANSMISSION_WITHOUT_ABORTION,
      OrderType_END_OF_DISTURBANCE_DATA_TRANSMISSION_WITH_ABORTION_BY_CONTROL_SYSTEM,
      OrderType_END_OF_DISTURBANCE_DATA_TRANSMISSION_WITH_ABORTION_BY_THE_PROTECTION_EQUIPMENT,
      OrderType_END_OF_CHANNEL_TRANSMISSION_WITHOUT_ABORTION,
      OrderType_END_OF_CHANNEL_TRANSMISSION_WITH_ABORTION_BY_CONTROL_SYSTEM,
      OrderType_END_OF_CHANNEL_TRANSMISSION_WITH_ABORTION_BY_THE_PROTECTION_EQUIPMENT,
      OrderType_END_OF_TAG_TRANSMISSION_WITHOUT_ABORTION,
      OrderType_END_OF_TAG_TRANSMISSION_WITH_ABORTION_BY_CONTROL_SYSTEM,
      OrderType_END_OF_TAG_TRANSMISSION_WITH_ABORTION_BY_THE_PROTECTION_EQUIPMENT,
      OrderType_DISTURBANCE_DATA_TRANSMITTED_SUCCESSFULLY,
      OrderType_DISTURBANCE_DATA_TRANSMITTED_NOT_SUCCESSFULLY, OrderType_CHANNEL_TRANSMITTED_SUCCESSFULLY,
      OrderType_CHANNEL_TRANSMITTED_NOT_SUCCESSFULLY, OrderType_TAGS_TRANSMITTED_SUCCESSFULLY,
      OrderType_TAGS_TRANSMITTED_NOT_SUCCESSFULLY]"

definition OrderType_of :: "int \<Rightarrow> OrderType result" where
  "OrderType_of = enum_lookup OrderType_value OrderType_members"

interpretation OrderType: enumeration OrderType_value OrderType_members
proof unfold_locales
  show "x \<in> set OrderType_members" for x by (cases x) (simp_all add: OrderType_members_def)
  show "distinct (map OrderType_value OrderType_members)" by (simp add: OrderType_members_def)
qed

lemma OrderType_of_value [simp]: "OrderType_of (OrderType_value x) = Ok x"
  by (simp add: OrderType_of_def OrderType.of_value)

datatype (plugins only: code size) Channel =
    Channel_GLOBAL | Channel_I_L1 | Channel_I_L2 | Channel_I_L3 | Channel_I_N | Channel_V_L1E | Channel_V_L2E |
    Channel_V_L3E | Channel_V_EN

fun Channel_value :: "Channel \<Rightarrow> int" where
  "Channel_value Channel_GLOBAL = 0"
| "Channel_value Channel_I_L1 = 1"
| "Channel_value Channel_I_L2 = 2"
| "Channel_value Channel_I_L3 = 3"
| "Channel_value Channel_I_N = 4"
| "Channel_value Channel_V_L1E = 5"
| "Channel_value Channel_V_L2E = 6"
| "Channel_value Channel_V_L3E = 7"
| "Channel_value Channel_V_EN = 8"

definition Channel_members :: "Channel list" where
  "Channel_members =
     [
      Channel_GLOBAL, Channel_I_L1, Channel_I_L2, Channel_I_L3, Channel_I_N, Channel_V_L1E, Channel_V_L2E,
      Channel_V_L3E, Channel_V_EN]"

definition Channel_of :: "int \<Rightarrow> Channel result" where
  "Channel_of = enum_lookup Channel_value Channel_members"

interpretation Channel: enumeration Channel_value Channel_members
proof unfold_locales
  show "x \<in> set Channel_members" for x by (cases x) (simp_all add: Channel_members_def)
  show "distinct (map Channel_value Channel_members)" by (simp add: Channel_members_def)
qed

lemma Channel_of_value [simp]: "Channel_of (Channel_value x) = Ok x"
  by (simp add: Channel_of_def Channel.of_value)

datatype (plugins only: code size) ValueType =
    ValueType_NONE | ValueType_TEXT | ValueType_BITSTRING | ValueType_UINT | ValueType_INT | ValueType_UFIXED |
    ValueType_FIXED | ValueType_REAL32 | ValueType_REAL64 | ValueType_DOUBLE | ValueType_SINGLE |
    ValueType_EXTENDED_DOUBLE | ValueType_MEASURAND | ValueType_TIME | ValueType_IDENTIFICATION |
    ValueType_RELATIVE_TIME | ValueType_IO_ADDRESS | ValueType_DOUBLE_WITH_TIME |
    ValueType_DOUBLE_WITH_RELATIVE_TIME | ValueType_MEASURAND_WITH_RELATIVE_TIME | ValueType_TEXT_NUMBER |
    ValueType_REPLY | ValueType_ARRAY | ValueType_INDEX

fun ValueType_value :: "ValueType \<Rightarrow> int" where
  "ValueType_value ValueType_NONE = 0"
| "ValueType_value ValueType_TEXT = 1"
| "ValueType_value ValueType_BITSTRING = 2"
| "ValueType_value ValueType_UINT = 3"
| "ValueType_value ValueType_INT = 4"
| "ValueType_value ValueType_UFIXED = 5"
| "ValueType_value ValueType_FIXED = 6"
| "ValueType_value ValueType_REAL32 = 7"
| "ValueType_value ValueType_REAL64 = 8"
| "ValueType_value ValueType_DOUBLE = 9"
| "ValueType_value ValueType_SINGLE = 10"
| "ValueType_value ValueType_EXTENDED_DOUBLE = 11"
| "ValueType_value ValueType_MEASURAND = 12"
| "ValueType_value ValueType_TIME = 14"
| "ValueType_value ValueType_IDENTIFICATION = 15"
| "ValueType_value ValueType_RELATIVE_TIME = 16"
| "ValueType_value ValueType_IO_ADDRESS = 17"
| "ValueType_value ValueType_DOUBLE_WITH_TIME = 18"
| "ValueType_value ValueType_DOUBLE_WITH_RELATIVE_TIME = 19"
| "ValueType_value ValueType_MEASURAND_WITH_RELATIVE_TIME = 20"
| "ValueType_value ValueType_TEXT_NUMBER = 21"
| "ValueType_value ValueType_REPLY = 22"
| "ValueType_value ValueType_ARRAY = 23"
| "ValueType_value ValueType_INDEX = 24"

definition ValueType_members :: "ValueType list" where
  "ValueType_members =
     [
      ValueType_NONE, ValueType_TEXT, ValueType_BITSTRING, ValueType_UINT, ValueType_INT, ValueType_UFIXED,
      ValueType_FIXED, ValueType_REAL32, ValueType_REAL64, ValueType_DOUBLE, ValueType_SINGLE,
      ValueType_EXTENDED_DOUBLE, ValueType_MEASURAND, ValueType_TIME, ValueType_IDENTIFICATION,
      ValueType_RELATIVE_TIME, ValueType_IO_ADDRESS, ValueType_DOUBLE_WITH_TIME,
      ValueType_DOUBLE_WITH_RELATIVE_TIME, ValueType_MEASURAND_WITH_RELATIVE_TIME, ValueType_TEXT_NUMBER,
      ValueType_REPLY, ValueType_ARRAY, ValueType_INDEX]"

definition ValueType_of :: "int \<Rightarrow> ValueType result" where
  "ValueType_of = enum_lookup ValueType_value ValueType_members"

interpretation ValueType: enumeration ValueType_value ValueType_members
proof unfold_locales
  show "x \<in> set ValueType_members" for x by (cases x) (simp_all add: ValueType_members_def)
  show "distinct (map ValueType_value ValueType_members)" by (simp add: ValueType_members_def)
qed

lemma ValueType_of_value [simp]: "ValueType_of (ValueType_value x) = Ok x"
  by (simp add: ValueType_of_def ValueType.of_value)

datatype (plugins only: code size) DoubleValue103 =
    DoubleValue103_TRANSIENT | DoubleValue103_OFF | DoubleValue103_ON | DoubleValue103_ERROR

fun DoubleValue103_value :: "DoubleValue103 \<Rightarrow> int" where
  "DoubleValue103_value DoubleValue103_TRANSIENT = 0"
| "DoubleValue103_value DoubleValue103_OFF = 1"
| "DoubleValue103_value DoubleValue103_ON = 2"
| "DoubleValue103_value DoubleValue103_ERROR = 3"

definition DoubleValue103_members :: "DoubleValue103 list" where
  "DoubleValue103_members =
     [
      DoubleValue103_TRANSIENT, DoubleValue103_OFF, DoubleValue103_ON, DoubleValue103_ERROR]"

definition DoubleValue103_of :: "int \<Rightarrow> DoubleValue103 result" where
  "DoubleValue103_of = enum_lookup DoubleValue103_value DoubleValue103_members"

interpretation DoubleValue103: enumeration DoubleValue103_value DoubleValue103_members
proof unfold_locales
  show "x \<in> set DoubleValue103_members" for x by (cases x) (simp_all add: DoubleValue103_members_def)
  show "distinct (map DoubleValue103_value DoubleValue103_members)" by (simp add: DoubleValue103_members_def)
qed

lemma DoubleValue103_of_value [simp]: "DoubleValue103_of (DoubleValue103_value x) = Ok x"
  by (simp add: DoubleValue103_of_def DoubleValue103.of_value)

datatype (plugins only: code size) SingleValue103 =
    SingleValue103_OFF | SingleValue103_ON

fun SingleValue103_value :: "SingleValue103 \<Rightarrow> int" where
  "SingleValue103_value SingleValue103_OFF = 0"
| "SingleValue103_value SingleValue103_ON = 1"

definition SingleValue103_members :: "SingleValue103 list" where
  "SingleValue103_members =
     [
      SingleValue103_OFF, SingleValue103_ON]"

definition SingleValue103_of :: "int \<Rightarrow> SingleValue103 result" where
  "SingleValue103_of = enum_lookup SingleValue103_value SingleValue103_members"

interpretation SingleValue103: enumeration SingleValue103_value SingleValue103_members
proof unfold_locales
  show "x \<in> set SingleValue103_members" for x by (cases x) (simp_all add: SingleValue103_members_def)
  show "distinct (map SingleValue103_value SingleValue103_members)" by (simp add: SingleValue103_members_def)
qed

lemma SingleValue103_of_value [simp]: "SingleValue103_of (SingleValue103_value x) = Ok x"
  by (simp add: SingleValue103_of_def SingleValue103.of_value)

datatype (plugins only: code size) ExtendedDoubleValue =
    ExtendedDoubleValue_TRANSIENT | ExtendedDoubleValue_OFF | ExtendedDoubleValue_ON | ExtendedDoubleValue_ERROR

fun ExtendedDoubleValue_value :: "ExtendedDoubleValue \<Rightarrow> int" where
  "ExtendedDoubleValue_value ExtendedDoubleValue_TRANSIENT = 0"
| "ExtendedDoubleValue_value ExtendedDoubleValue_OFF = 1"
| "ExtendedDoubleValue_value ExtendedDoubleValue_ON = 2"
| "ExtendedDoubleValue_value ExtendedDoubleValue_ERROR = 3"

definition ExtendedDoubleValue_members :: "ExtendedDoubleValue list" where
  "ExtendedDoubleValue_members =
     [
      ExtendedDoubleValue_TRANSIENT, ExtendedDoubleValue_OFF, ExtendedDoubleValue_ON, ExtendedDoubleValue_ERROR]"

definition ExtendedDoubleValue_of :: "int \<Rightarrow> ExtendedDoubleValue result" where
  "ExtendedDoubleValue_of = enum_lookup ExtendedDoubleValue_value ExtendedDoubleValue_members"

interpretation ExtendedDoubleValue: enumeration ExtendedDoubleValue_value ExtendedDoubleValue_members
proof unfold_locales
  show "x \<in> set ExtendedDoubleValue_members" for x by (cases x) (simp_all add: ExtendedDoubleValue_members_def)
  show "distinct (map ExtendedDoubleValue_value ExtendedDoubleValue_members)" by (simp add: ExtendedDoubleValue_members_def)
qed

lemma ExtendedDoubleValue_of_value [simp]: "ExtendedDoubleValue_of (ExtendedDoubleValue_value x) = Ok x"
  by (simp add: ExtendedDoubleValue_of_def ExtendedDoubleValue.of_value)

datatype (plugins only: code size) ReplyValue =
    ReplyValue_ACK | ReplyValue_INVALID_IDENTIFICATION | ReplyValue_DATA_NOT_EXISTS |
    ReplyValue_DATA_NOT_AVAILABLE | ReplyValue_VERIFY_ERROR | ReplyValue_OUT_OF_RANGE |
    ReplyValue_ENTRY_TO_LARGE | ReplyValue_TOO_MANY_COMMANDS | ReplyValue_ENTRY_READ_ONLY |
    ReplyValue_PASSWORD_PROTECTED | ReplyValue_IN_PROGRESS | ReplyValue_FOLLOWING_DESCRIPTION

fun ReplyValue_value :: "ReplyValue \<Rightarrow> int" where
  "ReplyValue_value ReplyValue_ACK = 0"
| "ReplyValue_value ReplyValue_INVALID_IDENTIFICATION = 1"
| "ReplyValue_value ReplyValue_DATA_NOT_EXISTS = 2"
| "ReplyValue_value ReplyValue_DATA_NOT_AVAILABLE = 3"
| "ReplyValue_value ReplyValue_VERIFY_ERROR = 4"
| "ReplyValue_value ReplyValue_OUT_OF_RANGE = 5"
| "ReplyValue_value ReplyValue_ENTRY_TO_LARGE = 6"
| "ReplyValue_value ReplyValue_TOO_MANY_COMMANDS = 7"
| "ReplyValue_value ReplyValue_ENTRY_READ_ONLY = 8"
| "ReplyValue_value ReplyValue_PASSWORD_PROTECTED = 9"
| "ReplyValue_value ReplyValue_IN_PROGRESS = 10"
| "ReplyValue_value ReplyValue_FOLLOWING_DESCRIPTION = 11"

definition ReplyValue_members :: "ReplyValue list" where
  "ReplyValue_members =
     [
      ReplyValue_ACK, ReplyValue_INVALID_IDENTIFICATION, ReplyValue_DATA_NOT_EXISTS,
      ReplyValue_DATA_NOT_AVAILABLE, ReplyValue_VERIFY_ERROR, ReplyValue_OUT_OF_RANGE,
      ReplyValue_ENTRY_TO_LARGE, ReplyValue_TOO_MANY_COMMANDS, ReplyValue_ENTRY_READ_ONLY,
      ReplyValue_PASSWORD_PROTECTED, ReplyValue_IN_PROGRESS, ReplyValue_FOLLOWING_DESCRIPTION]"

definition ReplyValue_of :: "int \<Rightarrow> ReplyValue result" where
  "ReplyValue_of = enum_lookup ReplyValue_value ReplyValue_members"

interpretation ReplyValue: enumeration ReplyValue_value ReplyValue_members
proof unfold_locales
  show "x \<in> set ReplyValue_members" for x by (cases x) (simp_all add: ReplyValue_members_def)
  show "distinct (map ReplyValue_value ReplyValue_members)" by (simp add: ReplyValue_members_def)
qed

lemma ReplyValue_of_value [simp]: "ReplyValue_of (ReplyValue_value x) = Ok x"
  by (simp add: ReplyValue_of_def ReplyValue.of_value)

lemma enumeration_bytes [simp]:
  "is_byte (AsduType103_value a)"
  "is_byte (Cause103_value c)"
  "is_byte (Description_value d)"
  "is_byte (OrderType_value r)"
  "is_byte (Channel_value h)"
  "is_byte (ValueType_value t)"
  "is_byte (DoubleValue103_value v)"
  "is_byte (SingleValue103_value s)"
  "is_byte (ExtendedDoubleValue_value e)"
  "is_byte (ReplyValue_value y)"
proof -
  show "is_byte (AsduType103_value a)" by (cases a) (simp_all add: is_byte_def)
  show "is_byte (Cause103_value c)" by (cases c) (simp_all add: is_byte_def)
  show "is_byte (Description_value d)" by (cases d) (simp_all add: is_byte_def)
  show "is_byte (OrderType_value r)" by (cases r) (simp_all add: is_byte_def)
  show "is_byte (Channel_value h)" by (cases h) (simp_all add: is_byte_def)
  show "is_byte (ValueType_value t)" by (cases t) (simp_all add: is_byte_def)
  show "is_byte (DoubleValue103_value v)" by (cases v) (simp_all add: is_byte_def)
  show "is_byte (SingleValue103_value s)" by (cases s) (simp_all add: is_byte_def)
  show "is_byte (ExtendedDoubleValue_value e)" by (cases e) (simp_all add: is_byte_def)
  show "is_byte (ReplyValue_value y)" by (cases y) (simp_all add: is_byte_def)
qed

section \<open>Values\<close>

record IoAddress =
  function_type :: int
  information_number :: int

record Identification =
  group_id :: int
  entry_id :: int

datatype Value =
    NoneValue
  | TextValue bytes
  | BitstringValue "bool list"
  | UIntValue int
  | IntValue int
  | UFixedValue pyfloat
  | FixedValue pyfloat
  | Real32Value pyfloat
  | Real64Value pyfloat
  | DoubleV DoubleValue103
  | SingleV SingleValue103
  | ExtendedDoubleV ExtendedDoubleValue
  | MeasurandValue bool bool pyfloat
  | TimeValue Time
  | IdentificationValue Identification
  | RelativeTimeValue int
  | IoAddressValue IoAddress
  | DoubleWithTimeValue DoubleValue103 Time int
  | DoubleWithRelativeTimeValue DoubleValue103 int int Time int
  | MeasurandWithRelativeTimeValue pyfloat int int Time
  | TextNumberValue int
  | ReplyV ReplyValue
  | ArrayValue ValueType bool "Value list"
  | IndexValue int

record DescriptiveData =
  description :: Description
  descriptive_value :: Value

section \<open>Information elements\<close>

datatype IoElement103 =
    IoElement_TIME_TAGGED_MESSAGE Value
  | IoElement_TIME_TAGGED_MESSAGE_WITH_RELATIVE_TIME Value
  | IoElement_MEASURANDS_1 Value
  | IoElement_TIME_TAGGED_MEASURANDS_WITH_RELATIVE_TIME Value
  | IoElement_IDENTIFICATION int bytes bytes
  | IoElement_TIME_SYNCHRONIZATION Time
  | IoElement_GENERAL_INTERROGATION int
  | IoElement_GENERAL_INTERROGATION_TERMINATION int
  | IoElement_MEASURANDS_2 Value
  | IoElement_GENERIC_DATA int bool bool "(Identification \<times> DescriptiveData) list"
  | IoElement_GENERIC_IDENTIFICATION int Identification bool bool "DescriptiveData list"
  | IoElement_GENERAL_COMMAND Value int
  | IoElement_GENERIC_COMMAND int "(Identification \<times> Description) list"
  | IoElement_LIST_OF_RECORDED_DISTURBANCES int bool bool bool bool Time
  | IoElement_ORDER_FOR_DISTURBANCE_DATA_TRANSMISSION OrderType int Channel
  | IoElement_ACKNOWLEDGEMENT_FOR_DISTURBANCE_DATA_TRANSMISSION OrderType int Channel
  | IoElement_READY_FOR_TRANSMISSION_OF_DISTURBANCE_DATA int int int int int Time
  | IoElement_READY_FOR_TRANSMISSION_OF_A_CHANNEL int Channel Value Value Value
  | IoElement_READY_FOR_TRANSMISSION_OF_TAGS int
  | IoElement_TRANSMISSION_OF_TAGS int int "(IoAddress \<times> Value) list"
  | IoElement_TRANSMISSION_OF_DISTURBANCE_VALUES int Channel int "pyfloat list"
  | IoElement_END_OF_TRANSMISSION OrderType int Channel

text \<open>A data unit has an information object with an \<open>IoAddress\<close> where the other encodings have a number.\<close>

record IO103 =
  io103_address :: IoAddress
  io103_elements :: "IoElement103 list"

text \<open>\<open>Cause | OtherCause\<close>\<close>

datatype Cause103_or_other = KnownCause103 Cause103 | OtherCause103 int

record ASDU103 =
  asdu103_type :: AsduType103
  asdu103_cause :: Cause103_or_other
  asdu103_address :: int
  asdu103_ios :: "IO103 list"

end
