(* ===== verification/Iec103_Fixed.thy ===== *)
theory Iec103_Fixed
  imports Py_Float
begin

text \<open>
  The fixed point numbers of \<^verbatim>\<open>iec60870/encodings/iec103/encoder.py\<close> (\<open>_decode_fixed\<close> and
  \<open>_encode_fixed\<close>): numbers between -1 or 0 and 1 in a field of some bits, at an offset. A number
  that such a field holds exactly comes back, and any other is cut off towards zero.
\<close>

unbundle bit_operations_syntax

section \<open>Fixed point numbers\<close>

definition decode_fixed :: "bytes \<Rightarrow> nat \<Rightarrow> nat \<Rightarrow> bool \<Rightarrow> pyfloat result" where
  "decode_fixed data bit_offset bit_size is_signed =
     (if is_signed \<and> bit_size = 0 then Raise (ValueError ''negative shift count'')
      else let limit = push_bit (bit_size - (if is_signed then 1 else 0)) 1;
               n = (bit_offset + bit_size + 7) div 8
        in if length data < n then Raise (ValueError ''invalid data length'')
           else let v = from_le (take n data);
                    v = drop_bit bit_offset v AND (push_bit bit_size 1 - 1);
                    v = (if is_signed \<and> v AND limit \<noteq> 0 then v OR push_bit bit_size (-1) else v)
             in Ok (int_truediv v limit))"

text \<open>\<open>lo <= value < 1\<close>\<close>

fun below_one :: "int \<Rightarrow> pyfloat \<Rightarrow> bool" where
  "below_one lo (Finite x) \<longleftrightarrow> of_int lo \<le> x \<and> x < 1"
| "below_one lo NegZero \<longleftrightarrow> lo \<le> 0"
| "below_one lo (Infinity s) \<longleftrightarrow> False"
| "below_one lo NaN \<longleftrightarrow> False"

definition encode_fixed :: "pyfloat \<Rightarrow> nat \<Rightarrow> nat \<Rightarrow> bool \<Rightarrow> int list result" where
  "encode_fixed val bit_offset bit_size is_signed =
     (if \<not> below_one (if is_signed then -1 else 0) val then Raise (ValueError ''unsupported value'')
      else if is_signed \<and> bit_size = 0 then Raise (ValueError ''negative shift count'')
      else let limit = push_bit (bit_size - (if is_signed then 1 else 0)) 1;
               n = (bit_offset + bit_size + 7) div 8
        in bindE (py_int (float_times val limit)) (\<lambda>data.
             let data = (if data < 0 then data AND (push_bit bit_size 1 - 1) else data)
             in to_le n (push_bit bit_offset data)))"

section \<open>Fixed point numbers come back\<close>

text \<open>The bits that a fixed point number is kept in, and the number that such bits stand for.\<close>

definition fixed_bits :: "nat \<Rightarrow> nat \<Rightarrow> int \<Rightarrow> int list" where
  "fixed_bits bit_offset bit_size k = le_digits ((bit_offset + bit_size + 7) div 8) (push_bit bit_offset (k mod 2 ^ bit_size))"

definition truncated :: "nat \<Rightarrow> rat \<Rightarrow> int" where
  "truncated L x = (if x < 0 then \<lceil>x * 2 ^ L\<rceil> else \<lfloor>x * 2 ^ L\<rfloor>)"

lemma truncated_bounds:
  assumes "x < 1" "(if is_signed then -1 else 0) \<le> x"
  shows "(if is_signed then - (2 ^ L) else 0) \<le> truncated L x" "truncated L x < 2 ^ L"
    "\<bar>x - of_int (truncated L x) / 2 ^ L\<bar> < 1 / 2 ^ L"
proof -
  let ?y = "x * 2 ^ L"
  have y: "?y < 2 ^ L" "x < 0 \<longleftrightarrow> ?y < 0" using assms(1) by (simp_all add: mult_less_0_iff)
  have lo: "- (2 ^ L) \<le> ?y" if is_signed
    using mult_right_mono [of "-1" x "2 ^ L"] assms(2) that by simp
  show "(if is_signed then - (2 ^ L) else 0) \<le> truncated L x"
  proof (cases is_signed)
    case True
    then have "(of_int (- (2 ^ L)) :: rat) \<le> ?y" using lo by simp
    then show ?thesis using True by (simp add: truncated_def le_floor_iff le_ceiling_iff)
  next
    case False
    then show ?thesis using assms(2) by (simp add: truncated_def)
  qed
  show "truncated L x < 2 ^ L"
  proof (cases "x < 0")
    case True
    then have "\<lceil>?y\<rceil> \<le> 0" using y(2) by (simp add: ceiling_le_iff)
    also have "0 < (2::int) ^ L" by simp
    finally show ?thesis using True by (simp only: truncated_def if_True)
  next
    case False
    with y(1) show ?thesis by (simp add: truncated_def floor_less_iff)
  qed
  have "\<bar>?y - of_int (truncated L x)\<bar> < 1"
    unfolding truncated_def using y(2) by (cases "x < 0") (simp_all, linarith+)
  moreover have "\<bar>?y - of_int (truncated L x)\<bar> = \<bar>x - of_int (truncated L x) / 2 ^ L\<bar> * 2 ^ L"
    using abs_mult [of "x - of_int (truncated L x) / 2 ^ L" "2 ^ L"] by (simp add: left_diff_distrib)
  ultimately show "\<bar>x - of_int (truncated L x) / 2 ^ L\<bar> < 1 / 2 ^ L" by (simp add: pos_less_divide_eq)
qed

lemma mask_mod_exp: "(x :: int) AND (push_bit n 1 - 1) = x mod 2 ^ n"
  by (simp add: and_mask_mod push_bit_eq_mult)

lemma encode_fixed_truncated:
  assumes "below_one (if is_signed then -1 else 0) (Finite x)" "0 < bit_size"
    and L: "L = bit_size - (if is_signed then 1 else 0)"
    and exact: "float_times (Finite x) (2 ^ L) = Finite (x * 2 ^ L)"
  shows "encode_fixed (Finite x) bit_offset bit_size is_signed = Ok (fixed_bits bit_offset bit_size (truncated L x))"
proof -
  let ?k = "truncated L x" and ?n = "(bit_offset + bit_size + 7) div 8"
  have x: "(if is_signed then -1 else 0) \<le> x" "x < 1" using assms(1) by (auto split: if_splits)
  note b = truncated_bounds [OF x(2,1), of L]
  have "(2::int) ^ L \<le> 2 ^ bit_size" using L by (intro power_increasing) auto
  then have "?k mod 2 ^ bit_size = ?k" if "\<not> ?k < 0" using b(2) that by (intro mod_pos_pos_trivial) linarith+
  then have data: "(if ?k < 0 then ?k AND (push_bit bit_size 1 - 1) else ?k) = ?k mod 2 ^ bit_size"
    by (simp only: mask_mod_exp if_cancel split: if_split) simp
  have "py_int (Finite (x * 2 ^ L)) = Ok ?k" by (simp add: truncated_def mult_less_0_iff)
  moreover have "push_bit bit_offset (?k mod 2 ^ bit_size) < 256 ^ ?n"
  proof -
    have "push_bit bit_offset (?k mod 2 ^ bit_size) < 2 ^ bit_size * 2 ^ bit_offset"
      unfolding push_bit_eq_mult by (intro mult_strict_right_mono) simp_all
    also have "\<dots> = 2 ^ (bit_offset + bit_size)" by (simp add: power_add)
    also have "\<dots> \<le> 2 ^ (8 * ?n)" by (rule power_increasing) presburger+
    finally show ?thesis by (simp add: power_mult)
  qed
  ultimately show ?thesis
    using assms(1,2) exact data
    by (simp add: encode_fixed_def Let_def push_bit_eq_mult [of _ 1] L [symmetric] fixed_bits_def)
qed

lemma decode_fixed_bits:
  assumes n: "(bit_offset + bit_size + 7) div 8 \<le> length data" and "0 < bit_size" "bit_size \<le> 50"
    and L: "L = bit_size - (if is_signed then 1 else 0)"
    and k: "(if is_signed then - (2 ^ L) else 0) \<le> k" "k < 2 ^ L"
    and bits: "drop_bit bit_offset (from_le (take ((bit_offset + bit_size + 7) div 8) data)) mod 2 ^ bit_size = k mod 2 ^ bit_size"
  shows "decode_fixed data bit_offset bit_size is_signed = Ok (Finite (of_int k / 2 ^ L))"
proof -
  let ?v = "k mod 2 ^ bit_size"
  have val: "(if is_signed \<and> ?v AND push_bit L 1 \<noteq> 0 then ?v OR push_bit bit_size (-1) else ?v) = k"
  proof (cases is_signed)
    case True
    then have bs: "bit_size = Suc L" using L assms(2) by simp
    have bit: "?v AND push_bit L 1 \<noteq> 0 \<longleftrightarrow> k < 0"
    proof -
      have "?v AND push_bit L 1 \<noteq> 0 \<longleftrightarrow> bit k L"
        using bit_take_bit_iff [of bit_size k L]
        by (simp add: and_exp_eq_0_iff_not_bit push_bit_eq_mult take_bit_eq_mod bs)
      also have "\<dots> \<longleftrightarrow> odd (k div 2 ^ L)" by (simp add: bit_iff_odd)
      also have "\<dots> \<longleftrightarrow> k < 0"
      proof (cases "k < 0")
        case True
        have "k div 2 ^ L = -1" using True k(1) \<open>is_signed\<close> by (intro int_div_pos_eq [where r = "k + 2 ^ L"]) simp_all
        with True show ?thesis by simp
      next
        case False
        with k(2) show ?thesis by simp
      qed
      finally show ?thesis .
    qed
    show ?thesis
    proof (cases "k < 0")
      case neg: True
      have vk: "?v = k + 2 ^ bit_size"
        using k neg True bs by (subst mod_add_self2 [symmetric]) (intro mod_pos_pos_trivial, simp_all)
      have "?v OR push_bit bit_size (-1) = push_bit bit_size (-1) OR ?v" by (rule or.commute)
      also have "\<dots> = push_bit bit_size (-1) + ?v"
        by (rule or_disjoint_add [where n = bit_size]) (simp_all add: push_bit_eq_mult)
      also have "\<dots> = k" unfolding vk by (simp add: push_bit_eq_mult)
      finally show ?thesis using neg True bit by simp
    next
      case False
      then show ?thesis using True bit k(2) bs by simp
    qed
  next
    case False
    then show ?thesis using L k by simp
  qed
  have "L \<le> 50" using L assms(3) by auto
  then have L50: "(2::int) ^ L \<le> 2 ^ 50" by (intro power_increasing) simp_all
  have "- (2 ^ L) \<le> k" using k(1) by (cases is_signed) (simp_all, meson le_minus_iff order_trans zero_le_power zero_le_numeral neg_le_0_iff_le)
  then have "\<bar>k\<bar> < 2 ^ 53" using k(2) L50 by (simp add: abs_less_iff)
  then have "int_truediv k (push_bit L 1) = Finite (of_int k / 2 ^ L)"
    using to_double_quot [of k L] \<open>L \<le> 50\<close> by (simp add: int_truediv_def push_bit_eq_mult)
  with n assms(2) val show ?thesis
    unfolding decode_fixed_def Let_def mask_mod_exp bits L [symmetric] by (simp only: not_less [symmetric]) simp
qed

text \<open>Numbers that the field holds exactly.\<close>

fun fixed_ok :: "nat \<Rightarrow> bool \<Rightarrow> pyfloat \<Rightarrow> bool" where
  "fixed_ok L is_signed (Finite x) \<longleftrightarrow>
     below_one (if is_signed then -1 else 0) (Finite x) \<and> of_int \<lfloor>x * 2 ^ L\<rfloor> = x * 2 ^ L"
| "fixed_ok L is_signed _ \<longleftrightarrow> False"

lemma fixed_ok_truncated:
  assumes "fixed_ok L is_signed v" "L \<le> 50"
  obtains x where "v = Finite x" "below_one (if is_signed then -1 else 0) (Finite x)"
    "float_times (Finite x) (2 ^ L) = Finite (x * 2 ^ L)" "x = of_int (truncated L x) / 2 ^ L"
proof -
  obtain x where v: "v = Finite x" using assms(1) by (cases v) auto
  define k where "k = \<lfloor>x * 2 ^ L\<rfloor>"
  have x: "(if is_signed then -1 else 0) \<le> x" "x < 1" and k: "of_int k = x * 2 ^ L"
    using assms(1) v by (auto simp: k_def split: if_splits)
  then have trunc: "truncated L x = k" by (simp add: truncated_def flip: k)
  then have "x = of_int (truncated L x) / 2 ^ L" using k by simp
  moreover have "float_times (Finite x) (2 ^ L) = Finite (x * 2 ^ L)"
  proof -
    have "(2::int) ^ L \<le> 2 ^ 50" using assms(2) by (intro power_increasing) simp_all
    then have "\<bar>k\<bar> < 2 ^ 53"
      using truncated_bounds(1,2) [OF x(2,1), of L] zero_less_power [of "2::int" L] trunc by (cases is_signed) auto
    from to_double_quot [OF this, of 0] k show ?thesis by simp
  qed
  ultimately show thesis using that v assms(1) by auto
qed

lemma from_le_fixed_bits:
  assumes "n = (bit_offset + bit_size + 7) div 8"
  shows "from_le (wire (fixed_bits bit_offset bit_size k)) = push_bit bit_offset (k mod 2 ^ bit_size)"
    "length (fixed_bits bit_offset bit_size k) = n" "all_bytes (fixed_bits bit_offset bit_size k)"
proof -
  have "push_bit bit_offset (k mod 2 ^ bit_size) < 2 ^ bit_size * 2 ^ bit_offset"
    unfolding push_bit_eq_mult by (intro mult_strict_right_mono) simp_all
  also have "\<dots> = 2 ^ (bit_offset + bit_size)" by (simp add: power_add)
  also have "\<dots> \<le> 2 ^ (8 * n)" unfolding assms by (rule power_increasing) presburger+
  finally have "push_bit bit_offset (k mod 2 ^ bit_size) < 256 ^ n" by (simp add: power_mult)
  then show "from_le (wire (fixed_bits bit_offset bit_size k)) = push_bit bit_offset (k mod 2 ^ bit_size)"
    by (simp add: fixed_bits_def from_le_wire_digits assms)
  show "length (fixed_bits bit_offset bit_size k) = n" "all_bytes (fixed_bits bit_offset bit_size k)"
    by (simp_all add: fixed_bits_def assms)
qed

lemma decode_fixed_truncated:
  assumes "below_one (if is_signed then -1 else 0) (Finite x)" "0 < bit_size" "bit_size \<le> 50"
    and L: "L = bit_size - (if is_signed then 1 else 0)"
  shows "decode_fixed (wire (fixed_bits bit_offset bit_size (truncated L x)) @ rest) bit_offset bit_size is_signed =
    Ok (Finite (of_int (truncated L x) / 2 ^ L))"
proof -
  have x: "(if is_signed then -1 else 0) \<le> x" "x < 1" using assms(1) by (auto split: if_splits)
  show ?thesis
    using from_le_fixed_bits [OF refl, of bit_offset bit_size "truncated L x"] truncated_bounds(1,2) [OF x(2,1), of L]
    by (intro decode_fixed_bits [OF _ assms(2,3) L]) (simp_all add: push_bit_eq_mult drop_bit_eq_div)
qed

lemma fixed_codec:
  assumes "fixed_ok L is_signed v" "0 < bit_size" "bit_size \<le> 50" and L: "L = bit_size - (if is_signed then 1 else 0)"
  shows "\<exists>k. encode_fixed v bit_offset bit_size is_signed = Ok (fixed_bits bit_offset bit_size k) \<and>
    (\<forall>data. (bit_offset + bit_size + 7) div 8 \<le> length data \<longrightarrow>
      drop_bit bit_offset (from_le (take ((bit_offset + bit_size + 7) div 8) data)) = k mod 2 ^ bit_size \<longrightarrow>
      decode_fixed data bit_offset bit_size is_signed = Ok v)"
proof -
  have "L \<le> 50" using L assms(3) by simp
  then obtain x where v: "v = Finite x" "below_one (if is_signed then -1 else 0) (Finite x)"
    "float_times (Finite x) (2 ^ L) = Finite (x * 2 ^ L)" "x = of_int (truncated L x) / 2 ^ L"
    using assms(1) by (blast elim: fixed_ok_truncated)
  have x: "(if is_signed then -1 else 0) \<le> x" "x < 1" using v(2) by (auto split: if_splits)
  have "decode_fixed data bit_offset bit_size is_signed = Ok v"
    if "(bit_offset + bit_size + 7) div 8 \<le> length data"
      "drop_bit bit_offset (from_le (take ((bit_offset + bit_size + 7) div 8) data)) = truncated L x mod 2 ^ bit_size" for data
    using decode_fixed_bits [OF that(1) assms(2,3) L truncated_bounds(1,2) [OF x(2,1), of L]] that(2) v(1,4) by simp
  with encode_fixed_truncated [OF v(2) assms(2) L v(3)] v(1) show ?thesis by blast
qed

text \<open>A field of two whole bytes.\<close>

lemma fixed_word_codec:
  assumes "fixed_ok (16 - (if is_signed then 1 else 0)) is_signed v"
  obtains ds where "encode_fixed v 0 16 is_signed = Ok ds" "length ds = 2" "all_bytes ds"
    "decode_fixed (wire ds) 0 16 is_signed = Ok v"
proof -
  from fixed_codec [OF assms _ _ refl, of 0] obtain k where
    k: "encode_fixed v 0 16 is_signed = Ok (fixed_bits 0 16 k)"
    "\<And>data. 2 \<le> length data \<Longrightarrow> from_le (take 2 data) = k mod 2 ^ 16 \<Longrightarrow> decode_fixed data 0 16 is_signed = Ok v"
    by auto
  have "decode_fixed (wire (fixed_bits 0 16 k)) 0 16 is_signed = Ok v"
    using from_le_fixed_bits [of 2 0 16 k] by (intro k(2)) simp_all
  with k(1) from_le_fixed_bits [of 2 0 16 k] show thesis by (intro that) simp_all
qed

section \<open>Properties\<close>

text \<open>
  C24: a float within the range of a fixed point field of up to 50 bits is encoded, and decoded to a
  number that differs from it by less than the unit of the field and is not further from zero.
\<close>

theorem fixed_point_error:
  assumes "is_double (Finite x)" "below_one (if is_signed then -1 else 0) (Finite x)" "0 < bit_size" "bit_size \<le> 50"
    and "L = bit_size - (if is_signed then 1 else 0)"
  shows "\<exists>ds y. encode_fixed (Finite x) bit_offset bit_size is_signed = Ok ds \<and>
    (\<forall>rest. decode_fixed (wire ds @ rest) bit_offset bit_size is_signed = Ok (Finite y)) \<and>
    \<bar>x - y\<bar> < 1 / 2 ^ L \<and> \<bar>y\<bar> \<le> \<bar>x\<bar>"
proof -
  have x: "(if is_signed then -1 else 0) \<le> x" "x < 1" using assms(2) by (auto split: if_splits)
  then have "\<bar>x\<bar> \<le> 1" by (auto split: if_splits)
  with assms have "float_times (Finite x) (2 ^ L) = Finite (x * 2 ^ L)" by (intro float_times_exact) auto
  note e = encode_fixed_truncated [OF assms(2,3,5) this, of bit_offset]
  let ?k = "truncated L x"
  have "\<bar>of_int ?k\<bar> \<le> \<bar>x * 2 ^ L\<bar>"
  proof (cases "x < 0")
    case True
    then have "x * 2 ^ L \<le> of_int ?k" "of_int ?k \<le> (0 :: rat)"
      by (simp_all add: truncated_def ceiling_le_iff mult_le_0_iff)
    then show ?thesis by simp
  next
    case False
    then have "of_int ?k \<le> x * 2 ^ L" "0 \<le> (of_int ?k :: rat)" by (simp_all add: truncated_def)
    then show ?thesis by simp
  qed
  then have "\<bar>of_int ?k / 2 ^ L\<bar> \<le> \<bar>x\<bar>" by (simp add: abs_mult pos_divide_le_eq)
  with e decode_fixed_truncated [OF assms(2-5)] truncated_bounds(3) [OF x(2,1), of L] show ?thesis by blast
qed

lemma fixed_point_error_witness:
  "\<exists>ds y. encode_fixed (Finite (3 / 8)) 3 3 True = Ok ds \<and>
    (\<forall>rest. decode_fixed (wire ds @ rest) 3 3 True = Ok (Finite y)) \<and> \<bar>3 / 8 - y\<bar> < 1 / 2 ^ 2 \<and> \<bar>y\<bar> \<le> \<bar>3 / 8\<bar>"
proof (rule fixed_point_error)
  have "flog2 (3 / 8) = -2" by (rule flog2_eq) (simp_all add: power_int_minus)
  then have "round_prec 53 (-1074) (3 / 8) = 3 / 8"
    by (intro round_prec_exact [where m = 3 and e = "-3"]) (simp_all add: power_int_minus)
  then show "is_double (Finite (3 / 8))" by (simp add: min_exponent_def)
qed simp_all

end
