(* ===== verification/Iec103_Values.thy ===== *)
theory Iec103_Values
  imports Iec103_Common Iec103_Fixed
begin

text \<open>
  The values of \<^verbatim>\<open>iec60870/encodings/iec103/encoder.py\<close>: the functions \<open>_decode_value\<close> and \<open>_encode_value\<close> with the types and sizes of values, and the round trip of
  values, arrays included.
\<close>

unbundle bit_operations_syntax

section \<open>Types and sizes of values\<close>

fun get_value_type :: "Value \<Rightarrow> ValueType" where
  "get_value_type NoneValue = ValueType_NONE"
| "get_value_type (TextValue _) = ValueType_TEXT"
| "get_value_type (BitstringValue _) = ValueType_BITSTRING"
| "get_value_type (UIntValue _) = ValueType_UINT"
| "get_value_type (IntValue _) = ValueType_INT"
| "get_value_type (UFixedValue _) = ValueType_UFIXED"
| "get_value_type (FixedValue _) = ValueType_FIXED"
| "get_value_type (Real32Value _) = ValueType_REAL32"
| "get_value_type (Real64Value _) = ValueType_REAL64"
| "get_value_type (DoubleV _) = ValueType_DOUBLE"
| "get_value_type (SingleV _) = ValueType_SINGLE"
| "get_value_type (ExtendedDoubleV _) = ValueType_EXTENDED_DOUBLE"
| "get_value_type (MeasurandValue _ _ _) = ValueType_MEASURAND"
| "get_value_type (TimeValue _) = ValueType_TIME"
| "get_value_type (IdentificationValue _) = ValueType_IDENTIFICATION"
| "get_value_type (RelativeTimeValue _) = ValueType_RELATIVE_TIME"
| "get_value_type (IoAddressValue _) = ValueType_IO_ADDRESS"
| "get_value_type (DoubleWithTimeValue _ _ _) = ValueType_DOUBLE_WITH_TIME"
| "get_value_type (DoubleWithRelativeTimeValue _ _ _ _ _) = ValueType_DOUBLE_WITH_RELATIVE_TIME"
| "get_value_type (MeasurandWithRelativeTimeValue _ _ _ _) = ValueType_MEASURAND_WITH_RELATIVE_TIME"
| "get_value_type (TextNumberValue _) = ValueType_TEXT_NUMBER"
| "get_value_type (ReplyV _) = ValueType_REPLY"
| "get_value_type (ArrayValue _ _ _) = ValueType_ARRAY"
| "get_value_type (IndexValue _) = ValueType_INDEX"

text \<open>\<open>x.bit_length()\<close>, and \<open>max(xs, default=0)\<close> of numbers that are not negative.\<close>

definition int_bit_length :: "int \<Rightarrow> nat" where
  "int_bit_length x = bit_length (nat \<bar>x\<bar>)"

definition max_default :: "nat list \<Rightarrow> nat" where
  "max_default xs = foldr max xs 0"

fun get_value_min_size :: "Value \<Rightarrow> nat" where
  "get_value_min_size NoneValue = 0"
| "get_value_min_size (TextValue val) = length val"
| "get_value_min_size (BitstringValue val) = (length val + 7) div 8"
| "get_value_min_size (UIntValue val) = (int_bit_length val + 7) div 8"
| "get_value_min_size (IntValue val) = (int_bit_length val + 8) div 8"
| "get_value_min_size (UFixedValue _) = 2"
| "get_value_min_size (FixedValue _) = 2"
| "get_value_min_size (Real32Value _) = 4"
| "get_value_min_size (Real64Value _) = 8"
| "get_value_min_size (DoubleV _) = 1"
| "get_value_min_size (SingleV _) = 1"
| "get_value_min_size (ExtendedDoubleV _) = 1"
| "get_value_min_size (MeasurandValue _ _ _) = 2"
| "get_value_min_size (TimeValue _) = 7"
| "get_value_min_size (IdentificationValue _) = 2"
| "get_value_min_size (RelativeTimeValue _) = 2"
| "get_value_min_size (IoAddressValue _) = 2"
| "get_value_min_size (DoubleWithTimeValue _ _ _) = 6"
| "get_value_min_size (DoubleWithRelativeTimeValue _ _ _ _ _) = 10"
| "get_value_min_size (MeasurandWithRelativeTimeValue _ _ _ _) = 12"
| "get_value_min_size (TextNumberValue val) = (int_bit_length val + 7) div 8"
| "get_value_min_size (ReplyV _) = 1"
| "get_value_min_size (ArrayValue _ _ vs) = 3 + length vs * max_default (map get_value_min_size vs)"
| "get_value_min_size (IndexValue val) = (int_bit_length val + 7) div 8"

section \<open>Encoding\<close>

text \<open>The inner loop for bitstrings, and the numbers of bits of the elements of an array of bitstrings.\<close>

definition bits_byte :: "bool list \<Rightarrow> nat \<Rightarrow> int" where
  "bits_byte val i =
     foldl (\<lambda>acc j. if i * 8 + j < length val \<and> val ! (i * 8 + j) then acc OR push_bit j 1 else acc) 0 [0..<8]"

fun bit_count :: "Value \<Rightarrow> nat" where
  "bit_count (BitstringValue val) = length val"
| "bit_count _ = 0"

text \<open>\<open>itertools.repeat(0, n - k)\<close> gives nothing where \<open>n < k\<close>.\<close>

definition zeros :: "nat \<Rightarrow> nat \<Rightarrow> int list result" where
  "zeros n k = Ok (replicate (n - k) 0)"

fun encode_value :: "Value \<Rightarrow> nat option \<Rightarrow> int list result" where
  "encode_value val sz =
     (if (case sz of None \<Rightarrow> False | Some n \<Rightarrow> n < get_value_min_size val) then Raise (ValueError ''invalid size'')
      else let n = (case sz of None \<Rightarrow> get_value_min_size val | Some n \<Rightarrow> n)
        in (case val of
             NoneValue \<Rightarrow> zeros n 0
           | TextValue v \<Rightarrow> appendE (Ok (map uint v)) (zeros n (length v))
           | BitstringValue v \<Rightarrow> Ok (map (bits_byte v) [0..<n])
           | UIntValue v \<Rightarrow> to_le n v
           | IntValue v \<Rightarrow> to_le n (v AND (push_bit (8 * n) 1 - 1))
           | UFixedValue v \<Rightarrow> encode_fixed v 0 (8 * n) False
           | FixedValue v \<Rightarrow> encode_fixed v 0 (8 * n) True
           | Real32Value v \<Rightarrow> appendE (pack_float v) (zeros n 4)
           | Real64Value v \<Rightarrow> appendE (pack_double v) (zeros n 8)
           | DoubleV v \<Rightarrow> appendE (Ok [DoubleValue103_value v]) (zeros n 1)
           | SingleV v \<Rightarrow> appendE (Ok [SingleValue103_value v]) (zeros n 1)
           | ExtendedDoubleV v \<Rightarrow> appendE (Ok [ExtendedDoubleValue_value v]) (zeros n 1)
           | MeasurandValue overflow is_invalid v \<Rightarrow>
               bindE (encode_fixed v 3 13 True) (\<lambda>data.
                 appendE (Ok (data[0 := data ! 0 OR ((if overflow then 0x01 else 0x00) OR (if is_invalid then 0x02 else 0x00))]))
                   (zeros n 2))
           | TimeValue v \<Rightarrow> appendE (encode_time v TimeSize_SEVEN) (zeros n 7)
           | IdentificationValue v \<Rightarrow> appendE (Ok [group_id v, entry_id v]) (zeros n 2)
           | RelativeTimeValue v \<Rightarrow> appendE (to_le 2 v) (zeros n 2)
           | IoAddressValue v \<Rightarrow> appendE (Ok [function_type v, information_number v]) (zeros n 2)
           | DoubleWithTimeValue v t supplementary \<Rightarrow>
               appendE (Ok [DoubleValue103_value v])
              (appendE (encode_time t TimeSize_FOUR)
              (appendE (Ok [supplementary]) (zeros n 6)))
           | DoubleWithRelativeTimeValue v relative_time fault_number t supplementary \<Rightarrow>
               appendE (Ok [DoubleValue103_value v])
              (appendE (to_le 2 relative_time)
              (appendE (to_le 2 fault_number)
              (appendE (encode_time t TimeSize_FOUR)
              (appendE (Ok [supplementary]) (zeros n 10)))))
           | MeasurandWithRelativeTimeValue v relative_time fault_number t \<Rightarrow>
               appendE (pack_float v)
              (appendE (to_le 2 relative_time)
              (appendE (to_le 2 fault_number)
              (appendE (encode_time t TimeSize_FOUR) (zeros n 12))))
           | TextNumberValue v \<Rightarrow> to_le n v
           | ReplyV v \<Rightarrow> appendE (Ok [ReplyValue_value v]) (zeros n 12)
           | ArrayValue ty more_follows vs \<Rightarrow>
               if list_ex (\<lambda>v. get_value_type v \<noteq> ty) vs then Raise (ValueError ''invalid array value'')
               else let m = max_default (map get_value_min_size vs)
                 in appendE (Ok [ValueType_value ty,
                              if ty \<noteq> ValueType_BITSTRING then int m else int (max_default (map bit_count vs)),
                              (if more_follows then 0x80 else 0x00) OR (int (length vs) AND 0x7F)])
                      (concatE (\<lambda>v. encode_value v (Some m)) vs)
           | IndexValue v \<Rightarrow> to_le n v))"

declare encode_value.simps [simp del]

section \<open>Decoding\<close>

text \<open>The decoding of every type but arrays.\<close>

definition decode_scalar :: "bytes \<Rightarrow> ValueType \<Rightarrow> (Value \<times> bytes) result" where
  "decode_scalar data ty =
     (case ty of
        ValueType_NONE \<Rightarrow> Ok (NoneValue, data)
      | ValueType_TEXT \<Rightarrow> Ok (TextValue data, [])
      | ValueType_BITSTRING \<Rightarrow>
          Ok (BitstringValue (concat (map (\<lambda>i. map (\<lambda>j. uint i AND push_bit j 1 \<noteq> 0) [0..<8]) data)), [])
      | ValueType_UINT \<Rightarrow> Ok (UIntValue (from_le data), [])
      | ValueType_INT \<Rightarrow>
          bindE (byte_last data 1) (\<lambda>b.
            Ok (IntValue (if b AND 0x80 \<noteq> 0 then push_bit (8 * length data) (-1) OR from_le data else from_le data), []))
      | ValueType_FIXED \<Rightarrow> bindE (decode_fixed data 0 (8 * length data) True) (\<lambda>v. Ok (FixedValue v, []))
      | ValueType_UFIXED \<Rightarrow> bindE (decode_fixed data 0 (8 * length data) False) (\<lambda>v. Ok (FixedValue v, []))
      | ValueType_REAL32 \<Rightarrow> bindE (unpack_float (take 4 data)) (\<lambda>v. Ok (Real32Value v, drop 4 data))
      | ValueType_REAL64 \<Rightarrow> bindE (unpack_double (take 8 data)) (\<lambda>v. Ok (Real64Value v, drop 8 data))
      | ValueType_DOUBLE \<Rightarrow>
          bindE (byte_at data 0) (\<lambda>b. bindE (DoubleValue103_of b) (\<lambda>v. Ok (DoubleV v, drop 1 data)))
      | ValueType_SINGLE \<Rightarrow>
          bindE (byte_at data 0) (\<lambda>b. bindE (SingleValue103_of b) (\<lambda>v. Ok (SingleV v, drop 1 data)))
      | ValueType_EXTENDED_DOUBLE \<Rightarrow>
          bindE (byte_at data 0) (\<lambda>b. bindE (ExtendedDoubleValue_of b) (\<lambda>v. Ok (ExtendedDoubleV v, drop 1 data)))
      | ValueType_MEASURAND \<Rightarrow>
          bindE (byte_at data 0) (\<lambda>b.
          bindE (decode_fixed data 3 13 True) (\<lambda>v.
            Ok (MeasurandValue (b AND 0x01 \<noteq> 0) (b AND 0x02 \<noteq> 0) v, drop 2 data)))
      | ValueType_TIME \<Rightarrow> bindE (decode_time data TimeSize_SEVEN) (\<lambda>v. Ok (TimeValue v, drop 7 data))
      | ValueType_IDENTIFICATION \<Rightarrow>
          bindE (byte_at data 0) (\<lambda>g. bindE (byte_at data 1) (\<lambda>e.
            Ok (IdentificationValue \<lparr>group_id = g, entry_id = e\<rparr>, drop 2 data)))
      | ValueType_RELATIVE_TIME \<Rightarrow> Ok (RelativeTimeValue (from_le (take 2 data)), drop 2 data)
      | ValueType_IO_ADDRESS \<Rightarrow>
          bindE (byte_at data 0) (\<lambda>f. bindE (byte_at data 1) (\<lambda>i.
            Ok (IoAddressValue \<lparr>function_type = f, information_number = i\<rparr>, drop 2 data)))
      | ValueType_DOUBLE_WITH_TIME \<Rightarrow>
          bindE (byte_at data 0) (\<lambda>b. bindE (DoubleValue103_of b) (\<lambda>v.
          bindE (decode_time (slice 1 5 data) TimeSize_FOUR) (\<lambda>t.
          bindE (byte_at data 5) (\<lambda>supplementary.
            Ok (DoubleWithTimeValue v t supplementary, drop 6 data)))))
      | ValueType_DOUBLE_WITH_RELATIVE_TIME \<Rightarrow>
          bindE (byte_at data 0) (\<lambda>b. bindE (DoubleValue103_of b) (\<lambda>v.
          bindE (decode_time (slice 5 9 data) TimeSize_FOUR) (\<lambda>t.
          bindE (byte_at data 9) (\<lambda>supplementary.
            Ok (DoubleWithRelativeTimeValue v (from_le (slice 1 3 data)) (from_le (slice 3 5 data)) t supplementary,
                drop 10 data)))))
      | ValueType_MEASURAND_WITH_RELATIVE_TIME \<Rightarrow>
          bindE (unpack_float (take 4 data)) (\<lambda>v.
          bindE (decode_time (slice 8 12 data) TimeSize_FOUR) (\<lambda>t.
            Ok (MeasurandWithRelativeTimeValue v (from_le (slice 4 6 data)) (from_le (slice 6 8 data)) t,
                drop 12 data)))
      | ValueType_TEXT_NUMBER \<Rightarrow> Ok (TextNumberValue (from_le data), [])
      | ValueType_REPLY \<Rightarrow>
          bindE (byte_at data 0) (\<lambda>b. bindE (ReplyValue_of b) (\<lambda>v. Ok (ReplyV v, drop 1 data)))
      | ValueType_INDEX \<Rightarrow> Ok (IndexValue (from_le data), [])
      | ValueType_ARRAY \<Rightarrow> Raise (ValueError ''unsupported value type''))"

text \<open>
  \<open>_decode_value\<close>, and the loop over the elements of an array: every element is read from a slice
  of the given number of bytes, whatever it takes of it.
\<close>

function decode_value :: "bytes \<Rightarrow> ValueType \<Rightarrow> (Value \<times> bytes) result"
  and decode_values :: "nat \<Rightarrow> nat \<Rightarrow> ValueType \<Rightarrow> bytes \<Rightarrow> (Value list \<times> bytes) result" where
  "decode_value data ty =
     (if ty \<noteq> ValueType_ARRAY then decode_scalar data ty
      else bindE (byte_at data 0) (\<lambda>b0. bindE (ValueType_of b0) (\<lambda>data_type.
           bindE (byte_at data 1) (\<lambda>data_size.
           bindE (byte_at data 2) (\<lambda>b2.
             let byte_size = (if data_type = ValueType_BITSTRING then (nat data_size + 7) div 8 else nat data_size)
             in bindE (decode_values (nat (b2 AND 0x7F)) byte_size data_type (drop 3 data)) (\<lambda>(vs, rest).
                  Ok (ArrayValue data_type (b2 AND 0x80 \<noteq> 0) vs, rest)))))))"
| "decode_values number byte_size data_type data =
     (if number = 0 then Ok ([], data)
      else bindE (decode_value (take byte_size data) data_type) (\<lambda>(v, _).
           bindE (decode_values (number - 1) byte_size data_type (drop byte_size data)) (\<lambda>(vs, rest).
             Ok (v # vs, rest))))"
  by pat_completeness auto
termination
  by (relation "inv_image (less_than <*lex*> less_than)
      (\<lambda>x. case x of Inl (data, _) \<Rightarrow> (length data, 0) | Inr (number, _, _, data) \<Rightarrow> (length data, Suc number))")
    (auto simp: byte_at_Ok_iff)

declare decode_value.simps [simp del] decode_values.simps [simp del]

end
