(* ===== verification/Iec103_Value_Codec.thy ===== *)
theory Iec103_Value_Codec
  imports Iec103_Values
begin

text \<open>
  What is read back of a value: \<open>fit n v\<close> is the value \<open>v\<close> as its encoding in \<open>n\<close> bytes is decoded,
  and \<open>value_codec\<close> the round trip, by induction over arrays of arrays.
\<close>

unbundle bit_operations_syntax

section \<open>Values that come back\<close>

text \<open>
  A value that is encoded in a given number of bytes is decoded as it fits them: a text and a
  bitstring are filled up, and an unsigned fixed point number comes back in the class of the signed
  ones. The elements of an array have as many bytes as the largest of them needs.
\<close>

fun fit :: "nat \<Rightarrow> Value \<Rightarrow> Value" where
  "fit n (TextValue v) = TextValue (v @ replicate (n - length v) 0)"
| "fit n (BitstringValue v) = BitstringValue (v @ replicate (8 * n - length v) False)"
| "fit n (UFixedValue v) = FixedValue v"
| "fit n (ArrayValue ty more_follows vs) =
     ArrayValue ty more_follows (map (fit (max_default (map get_value_min_size vs))) vs)"
| "fit n v = v"

definition word_ok :: "int \<Rightarrow> bool" where
  "word_ok x \<longleftrightarrow> 0 \<le> x \<and> x < 0x10000"

fun value_ok :: "nat \<Rightarrow> Value \<Rightarrow> bool" where
  "value_ok n (UIntValue v) \<longleftrightarrow> 0 \<le> v"
| "value_ok n (UFixedValue v) \<longleftrightarrow> n = 2 \<and> fixed_ok 16 False v"
| "value_ok n (FixedValue v) \<longleftrightarrow> n = 2 \<and> fixed_ok 15 True v"
| "value_ok n (Real32Value v) \<longleftrightarrow> is_single v"
| "value_ok n (Real64Value v) \<longleftrightarrow> is_double v"
| "value_ok n (MeasurandValue overflow is_invalid v) \<longleftrightarrow> fixed_ok 12 True v"
| "value_ok n (TimeValue v) \<longleftrightarrow> time_ok v \<and> time_size v = TimeSize_SEVEN"
| "value_ok n (IdentificationValue v) \<longleftrightarrow> is_byte (group_id v) \<and> is_byte (entry_id v)"
| "value_ok n (RelativeTimeValue v) \<longleftrightarrow> word_ok v"
| "value_ok n (IoAddressValue v) \<longleftrightarrow> is_byte (function_type v) \<and> is_byte (information_number v)"
| "value_ok n (DoubleWithTimeValue v t supplementary) \<longleftrightarrow>
     time_ok t \<and> time_size t = TimeSize_FOUR \<and> is_byte supplementary"
| "value_ok n (DoubleWithRelativeTimeValue v relative_time fault_number t supplementary) \<longleftrightarrow>
     word_ok relative_time \<and> word_ok fault_number \<and> time_ok t \<and> time_size t = TimeSize_FOUR \<and> is_byte supplementary"
| "value_ok n (MeasurandWithRelativeTimeValue v relative_time fault_number t) \<longleftrightarrow>
     is_single v \<and> word_ok relative_time \<and> word_ok fault_number \<and> time_ok t \<and> time_size t = TimeSize_FOUR"
| "value_ok n (TextNumberValue v) \<longleftrightarrow> 0 \<le> v"
| "value_ok n (ReplyV v) \<longleftrightarrow> n = 1"
| "value_ok n (ArrayValue ty more_follows vs) \<longleftrightarrow>
     (let m = max_default (map get_value_min_size vs) in
      n = 3 + length vs * m \<and> length vs \<le> 127 \<and>
      (if ty = ValueType_BITSTRING then max_default (map bit_count vs) \<le> 255 else m \<le> 255) \<and>
      (\<forall>v\<in>set vs. get_value_type v = ty \<and> value_ok m v))"
| "value_ok n (IndexValue v) \<longleftrightarrow> 0 \<le> v"
| "value_ok n _ \<longleftrightarrow> True"

text \<open>The types whose decoder takes all bytes that it is given.\<close>

definition greedy :: "ValueType \<Rightarrow> bool" where
  "greedy ty \<longleftrightarrow> ty \<in> {ValueType_TEXT, ValueType_BITSTRING, ValueType_UINT, ValueType_INT, ValueType_FIXED,
     ValueType_UFIXED, ValueType_TEXT_NUMBER, ValueType_INDEX}"

lemma int_bit_length_less: "\<bar>x\<bar> < 2 ^ int_bit_length x"
proof (cases "x = 0")
  case False
  then have "nat \<bar>x\<bar> < 2 ^ int_bit_length x"
    using bit_length_bounds [of "nat \<bar>x\<bar>"] by (simp add: int_bit_length_def)
  then show ?thesis by (simp add: nat_less_iff)
qed simp

lemma int_fits: "int_bit_length x \<le> k \<Longrightarrow> \<bar>x\<bar> < 2 ^ k"
  using int_bit_length_less [of x] power_increasing [of "int_bit_length x" k "2::int"] by linarith

lemma bit_bits_byte: "bit (bits_byte v i) j \<longleftrightarrow> j < 8 \<and> i * 8 + j < length v \<and> v ! (i * 8 + j)"
  unfolding bits_byte_def by (subst bit_set_bits) auto

lemma is_byte_bits_byte [simp]: "is_byte (bits_byte v i)"
  by (rule is_byte_bits) (simp add: bit_bits_byte)

lemma bits_of_bytes:
  assumes "length v \<le> 8 * n"
  shows "concat (map (\<lambda>i. map (\<lambda>j. uint i AND push_bit j 1 \<noteq> 0) [0..<8]) (wire (map (bits_byte v) [0..<n]))) =
    v @ replicate (8 * n - length v) False"
proof -
  have b: "(x :: int) AND 2 ^ j \<noteq> 0 \<longleftrightarrow> bit x j" for x j by (simp add: and_exp_eq_0_iff_not_bit)
  have "concat (map (\<lambda>i. map (\<lambda>j. uint i AND push_bit j 1 \<noteq> 0) [0..<8]) (wire (map (bits_byte v) [0..<n]))) =
      concat (map (\<lambda>i. map (\<lambda>j. bit (bits_byte v i) j) [0..<8]) [0..<n])"
    by (simp add: wire_def comp_def uint_of_byte push_bit_eq_mult b)
  also have "\<dots> = map (\<lambda>k. bit (bits_byte v (k div 8)) (k mod 8)) [0..<8 * n]"
    by (rule concat_eight)
  also have "\<dots> = v @ replicate (8 * n - length v) False"
    using assms by (intro nth_equalityI) (auto simp: bit_bits_byte nth_append)
  finally show ?thesis .
qed

lemma int_value_bytes:
  assumes "\<bar>v\<bar> < 2 ^ (8 * n - 1)" "0 < n"
  defines "ds \<equiv> le_digits n (v AND (push_bit (8 * n) 1 - 1))"
  shows "to_le n (v AND (push_bit (8 * n) 1 - 1)) = Ok ds"
    "decode_scalar (wire ds) ValueType_INT = Ok (IntValue v, [])"
proof -
  have p: "(256::int) ^ n = 2 ^ (8 * n)" by (simp add: power_mult)
  have half: "(2::int) ^ (8 * n) = 2 * 2 ^ (8 * n - 1)" using assms(2) by (cases n) (simp_all add: power_add)
  let ?u = "v mod 2 ^ (8 * n)"
  have u: "0 \<le> ?u" "?u < 256 ^ n" "?u = (if v < 0 then v + 2 ^ (8 * n) else v)"
  proof -
    show "?u = (if v < 0 then v + 2 ^ (8 * n) else v)"
    proof (cases "v < 0")
      case True
      have "(v + 2 ^ (8 * n)) mod 2 ^ (8 * n) = v + 2 ^ (8 * n)"
        using True assms(1) half by (intro mod_pos_pos_trivial) simp_all
      with True show ?thesis by simp
    next
      case False
      with assms(1) half show ?thesis by (auto intro!: mod_pos_pos_trivial)
    qed
  qed (simp_all add: p)
  have ds: "ds = le_digits n ?u" unfolding ds_def mask_mod_exp ..
  show "to_le n (v AND (push_bit (8 * n) 1 - 1)) = Ok ds"
    using u(1,2) unfolding ds mask_mod_exp by simp
  have len: "length (wire ds) = n" by (simp add: ds)
  have le: "from_le (wire ds) = ?u" using u by (simp add: ds from_le_wire_digits)
  have digit: "le_digits n x ! i = x div 256 ^ i mod 256" if "i < n" for n x i
    using that by (induction n arbitrary: x i) (auto simp: nth_Cons zdiv_zmult2_eq split: nat.splits)
  have "uint (wire ds ! (n - 1)) = ?u div 256 ^ (n - 1) mod 256"
    using assms(2) by (simp add: ds wire_def digit uint_word_of_int)
  then have last: "byte_last (wire ds) 1 = Ok (?u div 256 ^ (n - 1) mod 256)"
    using len assms(2) by (simp add: byte_last_def)
  have sign: "(?u div 256 ^ (n - 1) mod 256) AND 0x80 \<noteq> 0 \<longleftrightarrow> v < 0"
  proof -
    have e: "8 * n - Suc 0 = 8 * (n - Suc 0) + 7" using assms(2) by simp
    have "(?u div 256 ^ (n - 1) mod 256) AND 0x80 \<noteq> 0 \<longleftrightarrow> bit (?u div 256 ^ (n - 1)) 7"
      using bit_take_bit_iff [of 8 "?u div 256 ^ (n - 1)" 7] by (simp add: bit_tests take_bit_eq_mod)
    also have "\<dots> \<longleftrightarrow> bit ?u (8 * n - 1)"
      using bit_drop_bit_eq [of "8 * (n - 1)" ?u] by (simp add: e drop_bit_eq_div power_mult fun_eq_iff)
    also have "\<dots> \<longleftrightarrow> odd (?u div 2 ^ (8 * n - 1))" by (simp add: bit_iff_odd)
    also have "\<dots> \<longleftrightarrow> v < 0"
    proof (cases "v < 0")
      case True
      have "?u div 2 ^ (8 * n - 1) = 1"
        using True assms(1) u(3) half by (intro int_div_pos_eq [where r = "v + 2 ^ (8 * n - 1)"]) simp_all
      with True show ?thesis by simp
    next
      case False
      with u(3) assms(1) show ?thesis by simp
    qed
    finally show ?thesis .
  qed
  have "push_bit (8 * n) (-1) OR ?u = v" if "v < 0"
  proof -
    have "push_bit (8 * n) (-1) OR ?u = push_bit (8 * n) (-1) + ?u"
      using u(1,2) by (intro or_disjoint_add [where n = "8 * n"]) (simp_all add: push_bit_eq_mult p)
    then show ?thesis using that u(3) by (simp add: push_bit_eq_mult)
  qed
  with last sign len le u(3) show "decode_scalar (wire ds) ValueType_INT = Ok (IntValue v, [])"
    by (simp add: decode_scalar_def)
qed

text \<open>Scalars that end by themselves: what they are encoded to, with the padding, and read from.\<close>

lemma word_ok_pow: "word_ok x \<longleftrightarrow> 0 \<le> x \<and> x < 256 ^ 2"
  by (simp add: word_ok_def)

lemma time_bytes:
  assumes "time_ok t"
  obtains ts where "encode_time t (time_size t) = Ok ts" "length ts = TimeSize_value (time_size t)" "all_bytes ts"
    "\<And>rest. decode_time (wire ts @ rest) (time_size t) = Ok t"
  using encode_decode_time [OF assms, of "time_size t"] time_restrict_same [OF assms] by auto

lemma scalar_codec:
  assumes ok: "value_ok n v" and ty: "\<not> greedy (get_value_type v)" "get_value_type v \<noteq> ValueType_ARRAY"
    and n: "get_value_min_size v \<le> n"
  shows "\<exists>ys. encode_value v (Some n) = Ok (ys @ replicate (n - get_value_min_size v) 0) \<and>
    length ys = get_value_min_size v \<and> all_bytes ys \<and>
    (\<forall>rest. decode_scalar (wire ys @ rest) (get_value_type v) = Ok (v, rest))"
proof (cases v)
  case (Real32Value x)
  with ok single.unpack_pack [of x] n show ?thesis
    by (auto simp: encode_value.simps decode_scalar_def zeros_def)
next
  case (Real64Value x)
  with ok double.unpack_pack [of x] n show ?thesis
    by (auto simp: encode_value.simps decode_scalar_def zeros_def)
next
  case (MeasurandValue overflow is_invalid x)
  then have "fixed_ok 12 True x" using ok by simp
  from fixed_codec [OF this, of 13 3] obtain k where
    k: "encode_fixed x 3 13 True = Ok (fixed_bits 3 13 k)"
    "\<And>data. 2 \<le> length data \<Longrightarrow> drop_bit 3 (from_le (take 2 data)) = k mod 2 ^ 13 \<Longrightarrow> decode_fixed data 3 13 True = Ok x"
    by auto
  define fl where "fl = (if overflow then 0x01 else 0x00) OR (if is_invalid then 0x02 else (0x00 :: int))"
  have fl: "0 \<le> fl" "fl < 4" "fl AND 1 \<noteq> 0 \<longleftrightarrow> overflow" "fl AND 2 \<noteq> 0 \<longleftrightarrow> is_invalid" by (simp_all add: fl_def)
  define a where "a = (k mod 2 ^ 13) * 8"
  have ds: "fixed_bits 3 13 k = [a mod 256, a div 256 mod 256]"
    by (simp add: fixed_bits_def a_def push_bit_eq_mult numeral_2_eq_2)
  have a: "0 \<le> a" "a < 65536" "a mod 8 = 0" by (simp_all add: a_def)
  have a256: "a mod 256 mod 8 = 0" using a(3) by (simp add: mod_mod_cancel)
  have first: "a mod 256 OR fl = a mod 256 + fl"
    using fl(1,2) a256 by (intro or_disjoint_add [where n = 3]) simp_all
  define c where "c = a mod 256 + fl"
  let ?ys = "[c, a div 256 mod 256]"
  have le: "c < 256" using fl(2) a256 pos_mod_bound [of 256 a] unfolding c_def by presburger
  have b: "all_bytes ?ys" using le fl(1) by (simp add: is_byte_def c_def)
  have u: "uint (word_of_int c :: byte) = c"
    "uint (word_of_int (a div 256 mod 256) :: byte) = a div 256 mod 256"
    using b by (simp_all add: uint_of_byte)
  have "a div 256 mod 256 = a div 256" using a by simp
  then have "from_le (take 2 (wire ?ys @ rest)) = a + fl" for rest
    using u by (simp add: numeral_2_eq_2 c_def)
  moreover have "drop_bit 3 (a + fl) = k mod 2 ^ 13" using fl(1,2) by (simp add: drop_bit_eq_div a_def)
  ultimately have dec: "decode_fixed (wire ?ys @ rest) 3 13 True = Ok x" for rest by (intro k(2)) simp_all
  have flags: "c AND 1 \<noteq> 0 \<longleftrightarrow> overflow" "c AND 2 \<noteq> 0 \<longleftrightarrow> is_invalid"
  proof -
    have "a mod 256 = push_bit 3 (a mod 256 div 8)" using a256 by (simp add: push_bit_eq_mult) presburger
    then have "\<not> bit (a mod 256) 0" "\<not> bit (a mod 256) 1" by (metis bit_push_bit_iff_int not_numeral_le_zero, metis bit_push_bit_iff_int numeral_le_one_iff semiring_norm(70))
    then show "c AND 1 \<noteq> 0 \<longleftrightarrow> overflow" "c AND 2 \<noteq> 0 \<longleftrightarrow> is_invalid"
      using fl(3,4) unfolding c_def first [symmetric] by (simp_all add: bit_tests bit_simps)
  qed
  from MeasurandValue n k(1) ds b dec flags u show ?thesis
    by (intro exI [of _ ?ys])
      (simp add: encode_value.simps decode_scalar_def zeros_def first c_def [symmetric] fl_def [symmetric])
next
  case (TimeValue t)
  then have "time_ok t" "time_size t = TimeSize_SEVEN" using ok by simp_all
  with time_bytes [of t] obtain ts where ts: "encode_time t TimeSize_SEVEN = Ok ts" "length ts = 7" "all_bytes ts"
    "\<And>rest. decode_time (wire ts @ rest) TimeSize_SEVEN = Ok t" by auto
  with TimeValue n show ?thesis
    by (intro exI [of _ ts]) (simp add: encode_value.simps decode_scalar_def zeros_def)
next
  case (DoubleWithTimeValue d t s)
  then have "time_ok t" "time_size t = TimeSize_FOUR" "is_byte s" using ok by simp_all
  with time_bytes [of t] obtain ts where ts: "encode_time t TimeSize_FOUR = Ok ts" "length ts = 4" "all_bytes ts"
    "\<And>rest. decode_time (wire ts @ rest) TimeSize_FOUR = Ok t" by auto
  from ts(4) [of "[]"] have t: "decode_time (wire ts) TimeSize_FOUR = Ok t" by simp
  with DoubleWithTimeValue n ts \<open>is_byte s\<close> show ?thesis
    by (intro exI [of _ "DoubleValue103_value d # ts @ [s]"])
      (auto simp: encode_value.simps decode_scalar_def zeros_def slice_def uint_of_byte byte_at_def nth_append numeral_eq_Suc)
next
  case (DoubleWithRelativeTimeValue d r f t s)
  then have "time_ok t" "time_size t = TimeSize_FOUR" "is_byte s" and w: "word_ok r" "word_ok f" using ok by simp_all
  with time_bytes [of t] obtain ts where ts: "encode_time t TimeSize_FOUR = Ok ts" "length ts = 4" "all_bytes ts"
    "\<And>rest. decode_time (wire ts @ rest) TimeSize_FOUR = Ok t" by auto
  from ts(4) [of "[]"] have t: "decode_time (wire ts) TimeSize_FOUR = Ok t" by simp
  have le: "from_le (wire (le_digits 2 r)) = r" "from_le (wire (le_digits 2 f)) = f"
    using w by (simp_all add: from_le_wire_digits word_ok_def)
  let ?ys = "DoubleValue103_value d # le_digits 2 r @ le_digits 2 f @ ts @ [s]"
  have sl: "slice 1 3 (wire ?ys @ rest) = wire (le_digits 2 r)" "slice 3 5 (wire ?ys @ rest) = wire (le_digits 2 f)"
    "slice 5 9 (wire ?ys @ rest) = wire ts" "byte_at (wire ?ys @ rest) 9 = Ok s" for rest
    using ts(2) \<open>is_byte s\<close> by (simp_all add: slice_def byte_at_def nth_append uint_of_byte)
  from DoubleWithRelativeTimeValue n ts t w \<open>is_byte s\<close> sl le show ?thesis
    by (intro exI [of _ ?ys]) (simp add: encode_value.simps decode_scalar_def zeros_def word_ok_pow uint_of_byte)
next
  case (MeasurandWithRelativeTimeValue x r f t)
  then have "time_ok t" "time_size t = TimeSize_FOUR" "is_single x" and w: "word_ok r" "word_ok f" using ok by simp_all
  with time_bytes [of t] obtain ts where ts: "encode_time t TimeSize_FOUR = Ok ts" "length ts = 4" "all_bytes ts"
    "\<And>rest. decode_time (wire ts @ rest) TimeSize_FOUR = Ok t" by auto
  from ts(4) [of "[]"] have t: "decode_time (wire ts) TimeSize_FOUR = Ok t" by simp
  from single.unpack_pack [OF \<open>is_single x\<close>] obtain fs where
    fs: "pack_float x = Ok fs" "length fs = 4" "all_bytes fs" "unpack_float (wire fs) = Ok x" by blast
  have le: "from_le (wire (le_digits 2 r)) = r" "from_le (wire (le_digits 2 f)) = f"
    using w by (simp_all add: from_le_wire_digits word_ok_def)
  let ?ys = "fs @ le_digits 2 r @ le_digits 2 f @ ts"
  have sl: "slice 4 6 (wire ?ys @ rest) = wire (le_digits 2 r)" "slice 6 8 (wire ?ys @ rest) = wire (le_digits 2 f)"
    "slice 8 12 (wire ?ys @ rest) = wire ts" for rest
    using ts(2) fs(2) by (simp_all add: slice_def)
  from MeasurandWithRelativeTimeValue n ts t w fs sl le show ?thesis
    by (intro exI [of _ ?ys]) (simp add: encode_value.simps decode_scalar_def zeros_def word_ok_pow)
next
  case (RelativeTimeValue x)
  with ok n show ?thesis
    by (intro exI [of _ "le_digits 2 x"])
      (simp add: encode_value.simps decode_scalar_def zeros_def word_ok_pow from_le_wire_digits)
qed (use ok ty n in \<open>auto simp: greedy_def encode_value.simps decode_scalar_def zeros_def uint_of_byte\<close>)


text \<open>Values that take all bytes: their padding is part of them.\<close>

lemma padding_bytes [simp]: "all_bytes (replicate k 0)" "wire (replicate k 0) = replicate k 0"
  by (simp_all add: all_bytes_def list_all_iff is_byte_def wire_def)

lemma length_concat_const: "(\<And>x. x \<in> set xs \<Longrightarrow> length (f x) = m) \<Longrightarrow> length (concat (map f xs)) = length xs * m"
  by (induction xs) simp_all

lemma unsigned_bytes:
  assumes "0 \<le> v" "(int_bit_length v + 7) div 8 \<le> n"
  shows "to_le n v = Ok (le_digits n v)" "from_le (wire (le_digits n v)) = v"
proof -
  have "int_bit_length v \<le> 8 * n" using assms(2) by presburger
  then have "v < 256 ^ n" using int_fits [of v "8 * n"] assms(1) by (simp add: power_mult)
  with assms(1) show "to_le n v = Ok (le_digits n v)" "from_le (wire (le_digits n v)) = v"
    by (simp_all add: from_le_wire_digits)
qed

lemma greedy_codec:
  assumes ok: "value_ok n v" and ty: "greedy (get_value_type v)" and n: "get_value_min_size v \<le> n"
  shows "\<exists>ys. encode_value v (Some n) = Ok ys \<and> length ys = n \<and> all_bytes ys \<and>
    decode_scalar (wire ys) (get_value_type v) = Ok (fit n v, [])"
proof (cases v)
  case (TextValue t)
  with n show ?thesis by (simp add: encode_value.simps decode_scalar_def zeros_def)
next
  case (BitstringValue b)
  then have "length b \<le> 8 * n" using n by simp
  from bits_of_bytes [OF this] BitstringValue n show ?thesis
    by (simp add: encode_value.simps decode_scalar_def all_bytes_def list_all_iff)
next
  case (UIntValue x)
  with ok n unsigned_bytes [of x n] show ?thesis by (simp add: encode_value.simps decode_scalar_def)
next
  case (IntValue x)
  then have n: "(int_bit_length x + 8) div 8 \<le> n" using n by simp
  then have "0 < n" "int_bit_length x \<le> 8 * n - 1" by presburger+
  from int_value_bytes [OF int_fits [OF this(2)] this(1)] IntValue n show ?thesis
    by (simp add: encode_value.simps)
next
  case (TextNumberValue x)
  with ok n unsigned_bytes [of x n] show ?thesis by (simp add: encode_value.simps decode_scalar_def)
next
  case (IndexValue x)
  with ok n unsigned_bytes [of x n] show ?thesis by (simp add: encode_value.simps decode_scalar_def)
next
  case (UFixedValue x)
  then have n2: "n = 2" and x: "fixed_ok (16 - (if False then 1 else 0)) False x" using ok by auto
  from fixed_word_codec [OF x] obtain ds where "encode_fixed x 0 16 False = Ok ds" "length ds = 2" "all_bytes ds"
    "decode_fixed (wire ds) 0 16 False = Ok x" .
  with UFixedValue n2 show ?thesis by (simp add: encode_value.simps decode_scalar_def)
next
  case (FixedValue x)
  then have n2: "n = 2" and x: "fixed_ok (16 - (if True then 1 else 0)) True x" using ok by auto
  from fixed_word_codec [OF x] obtain ds where "encode_fixed x 0 16 True = Ok ds" "length ds = 2" "all_bytes ds"
    "decode_fixed (wire ds) 0 16 True = Ok x" .
  with FixedValue n2 show ?thesis by (simp add: encode_value.simps decode_scalar_def)
qed (use ty in \<open>simp_all add: greedy_def\<close>)

text \<open>Arrays: every element is read from the bytes that it was written to.\<close>

lemma max_default_upper: "x \<in> set xs \<Longrightarrow> x \<le> max_default xs"
  by (induction xs) (auto simp: max_default_def le_max_iff_disj)

lemma decode_values_all:
  assumes "\<And>v. v \<in> set vs \<Longrightarrow> length (enc v) = m" "\<And>v. v \<in> set vs \<Longrightarrow> \<exists>r. decode_value (wire (enc v)) ty = Ok (g v, r)"
  shows "decode_values (length vs) m ty (wire (concat (map enc vs)) @ rest) = Ok (map g vs, rest)"
  using assms
proof (induction vs)
  case (Cons v vs)
  then obtain r where "decode_value (wire (enc v)) ty = Ok (g v, r)" "length (enc v) = m" by auto
  with Cons show ?case by (simp add: decode_values.simps [of "Suc _"])
qed (simp add: decode_values.simps)

lemma concatE_Ok: "(\<And>x. x \<in> set xs \<Longrightarrow> f x = Ok (g x)) \<Longrightarrow> concatE f xs = Ok (concat (map g xs))"
  by (induction xs) auto

lemma bit_count_size:
  "(\<forall>v\<in>set vs. get_value_type v = ValueType_BITSTRING) \<Longrightarrow>
    (max_default (map bit_count vs) + 7) div 8 = max_default (map get_value_min_size vs)"
proof (induction vs)
  case (Cons v vs)
  then obtain b where "v = BitstringValue b" by (cases v) auto
  moreover have "(max x y + 7) div 8 = max ((x + 7) div 8) ((y + 7) div 8)" for x y :: nat
    by (cases "x \<le> y") (simp_all add: max_def div_le_mono le_antisym)
  ultimately show ?case using Cons by (simp add: max_default_def)
qed (simp add: max_default_def)

lemma scalar_value_codec:
  assumes "value_ok n v" "get_value_min_size v \<le> n" and ty: "get_value_type v \<noteq> ValueType_ARRAY"
  shows "\<exists>ys. encode_value v (Some n) = Ok ys \<and> length ys = n \<and> all_bytes ys \<and>
    (\<exists>r. decode_value (wire ys) (get_value_type v) = Ok (fit n v, r)) \<and>
    (n = get_value_min_size v \<longrightarrow> \<not> greedy (get_value_type v) \<longrightarrow>
      (\<forall>rest. decode_value (wire ys @ rest) (get_value_type v) = Ok (fit n v, rest)))"
proof -
  have dec: "decode_value data (get_value_type v) = decode_scalar data (get_value_type v)" for data
    using ty by (simp add: decode_value.simps)
  show ?thesis
  proof (cases "greedy (get_value_type v)")
    case True
    from greedy_codec [OF assms(1) True assms(2)] True show ?thesis unfolding dec by blast
  next
    case False
    then have "fit m v = v" for m using ty by (cases v) (simp_all add: greedy_def)
    moreover from scalar_codec [OF assms(1) False ty assms(2)] obtain ys where
      "encode_value v (Some n) = Ok (ys @ replicate (n - get_value_min_size v) 0)"
      "length ys = get_value_min_size v" "all_bytes ys"
      "\<And>rest. decode_scalar (wire ys @ rest) (get_value_type v) = Ok (v, rest)" by blast
    ultimately show ?thesis using assms(2) unfolding dec
      by (intro exI [of _ "ys @ replicate (n - get_value_min_size v) 0"]) simp
  qed
qed

lemma value_codec:
  assumes "value_ok n v" "get_value_min_size v \<le> n"
  shows "\<exists>ys. encode_value v (Some n) = Ok ys \<and> length ys = n \<and> all_bytes ys \<and>
    (\<exists>r. decode_value (wire ys) (get_value_type v) = Ok (fit n v, r)) \<and>
    (n = get_value_min_size v \<longrightarrow> \<not> greedy (get_value_type v) \<longrightarrow>
      (\<forall>rest. decode_value (wire ys @ rest) (get_value_type v) = Ok (fit n v, rest)))"
  using assms
proof (induction v arbitrary: n)
  case (ArrayValue ty more_follows vs)
  let ?m = "max_default (map get_value_min_size vs)"
  have ok: "n = 3 + length vs * ?m" "length vs \<le> 127"
    "if ty = ValueType_BITSTRING then max_default (map bit_count vs) \<le> 255 else ?m \<le> 255"
    and els: "\<And>v. v \<in> set vs \<Longrightarrow> get_value_type v = ty" "\<And>v. v \<in> set vs \<Longrightarrow> value_ok ?m v"
    using ArrayValue.prems by (auto simp: Let_def)
  have "\<exists>ys. encode_value v (Some ?m) = Ok ys \<and> length ys = ?m \<and> all_bytes ys \<and>
      (\<exists>r. decode_value (wire ys) ty = Ok (fit ?m v, r))" if "v \<in> set vs" for v
    using ArrayValue.IH [OF that els(2) [OF that]] els(1) [OF that] max_default_upper [of "get_value_min_size v"] that by auto
  then obtain enc where enc: "\<And>v. v \<in> set vs \<Longrightarrow> encode_value v (Some ?m) = Ok (enc v) \<and> length (enc v) = ?m \<and>
      all_bytes (enc v) \<and> (\<exists>r. decode_value (wire (enc v)) ty = Ok (fit ?m v, r))" by metis
  let ?size = "if ty \<noteq> ValueType_BITSTRING then ?m else max_default (map bit_count vs)"
  let ?last = "(if more_follows then 0x80 else 0x00) OR int (length vs)"
  let ?body = "concat (map enc vs)" and ?head = "[ValueType_value ty, int ?size, ?last]"
  have count: "int (length vs) AND 0x7F = int (length vs)" using ok(2) by (simp add: mask_mod)
  have last: "is_byte ?last" "nat (?last AND 0x7F) = length vs" "?last AND 0x80 \<noteq> 0 \<longleftrightarrow> more_follows"
    using sequence_bit [OF ok(2)] by (cases more_follows; simp)+
  have size: "is_byte (int ?size)" using ok(3) by (auto simp: is_byte_def split: if_splits)
  have body: "concatE (\<lambda>v. encode_value v (Some ?m)) vs = Ok ?body" by (rule concatE_Ok) (use enc in blast)
  have len: "length ?body = length vs * ?m" by (rule length_concat_const) (use enc in blast)
  have bytes: "all_bytes ?body" using enc by (auto simp: all_bytes_def list_all_iff)
  have "encode_value (ArrayValue ty more_follows vs) (Some n) = Ok (?head @ ?body)"
    using ok(1) els(1) body by (simp add: encode_value.simps [of "ArrayValue ty more_follows vs"] list_ex_iff Let_def count)
  moreover have "decode_value (wire (?head @ ?body) @ rest) ValueType_ARRAY = Ok (fit n (ArrayValue ty more_follows vs), rest)" for rest
  proof -
    have byte_size: "(if ty = ValueType_BITSTRING then (nat (int ?size) + 7) div 8 else nat (int ?size)) = ?m"
      using bit_count_size [of vs] els(1) by auto
    have vals: "decode_values (length vs) ?m ty (wire ?body @ rest) = Ok (map (fit ?m) vs, rest)"
      by (rule decode_values_all) (use enc in blast)+
    have u: "uint (word_of_int (ValueType_value ty) :: byte) = ValueType_value ty"
      "uint (word_of_int (int ?size) :: byte) = int ?size" "uint (word_of_int ?last :: byte) = ?last"
      using size last(1) by (simp_all only: uint_of_byte enumeration_bytes)
    have b: "byte_at (wire (?head @ ?body) @ rest) 0 = Ok (ValueType_value ty)"
      "byte_at (wire (?head @ ?body) @ rest) 1 = Ok (int ?size)" "byte_at (wire (?head @ ?body) @ rest) 2 = Ok ?last"
      unfolding wire_simps append_Cons append_Nil by (simp_all only: byte_at_Cons byte_at_Cons_num u One_nat_def numeral_2_eq_2)
    have d: "drop 3 (wire (?head @ ?body) @ rest) = wire ?body @ rest" by (simp add: numeral_3_eq_3)
    show ?thesis
      unfolding decode_value.simps [of _ ValueType_ARRAY] b d Let_def bindE_simps ValueType_of_value byte_size last vals
      by simp
  qed
  ultimately have codec: "encode_value (ArrayValue ty more_follows vs) (Some n) = Ok (?head @ ?body)"
    "\<And>rest. decode_value (wire (?head @ ?body) @ rest) ValueType_ARRAY = Ok (fit n (ArrayValue ty more_follows vs), rest)"
    by blast+
  have "length (?head @ ?body) = n" using len ok(1) by simp
  moreover have "all_bytes (?head @ ?body)"
    using size last(1) bytes enumeration_bytes(6) [of ty] by (simp only: all_bytes_simps append_Cons append_Nil)
  ultimately show ?case
    using codec codec(2) [of "[]"] unfolding get_value_type.simps append_Nil2 by blast
qed (rule scalar_value_codec; simp)+

section \<open>Properties\<close>

text \<open>
  A value encoded in at least as many bytes as it needs takes exactly these, and is decoded to
  itself, filled up where its type says; where its type ends by itself, whatever bytes follow. This
  holds for arrays, and arrays of arrays, of all types.
\<close>

lemma value_103_roundtrip:
  assumes "value_ok n v" "get_value_min_size v \<le> n"
  shows "\<exists>ys. encode_value v (Some n) = Ok ys \<and> length ys = n \<and> all_bytes ys \<and>
    (\<exists>r. decode_value (wire ys) (get_value_type v) = Ok (fit n v, r)) \<and>
    (n = get_value_min_size v \<longrightarrow> \<not> greedy (get_value_type v) \<longrightarrow>
      (\<forall>rest. decode_value (wire ys @ rest) (get_value_type v) = Ok (fit n v, rest)))"
  using assms by (rule value_codec)

text \<open>
  An array of unsigned fixed point numbers is decoded to an array with elements of the class of
  the signed ones, which the encoder refuses to encode.
\<close>

lemma unsigned_fixed_not_reencoded:
  assumes "value_ok n (ArrayValue ValueType_UFIXED more_follows vs)" "vs \<noteq> []"
  shows "\<exists>ys v. encode_value (ArrayValue ValueType_UFIXED more_follows vs) None = Ok ys \<and>
    decode_value (wire ys) ValueType_ARRAY = Ok (v, []) \<and>
    encode_value v None = Raise (ValueError ''invalid array value'')"
proof -
  let ?a = "ArrayValue ValueType_UFIXED more_follows vs" and ?m = "max_default (map get_value_min_size vs)"
  have n: "n = get_value_min_size ?a" "\<forall>v\<in>set vs. get_value_type v = ValueType_UFIXED" using assms(1) by (auto simp: Let_def)
  from value_codec [OF assms(1)] n(1) obtain ys where "encode_value ?a (Some n) = Ok ys"
    "\<forall>rest. decode_value (wire ys @ rest) ValueType_ARRAY = Ok (fit n ?a, rest)" by (auto simp: greedy_def)
  then have "encode_value ?a None = Ok ys" "decode_value (wire ys) ValueType_ARRAY = Ok (fit n ?a, [])"
    using n(1) by (auto simp: encode_value.simps [of ?a] dest: spec [of _ "[]"])
  moreover have "get_value_type (fit k v) = ValueType_FIXED" if "get_value_type v = ValueType_UFIXED" for k v
    using that by (cases v) simp_all
  then have "list_ex (\<lambda>v. get_value_type v \<noteq> ValueType_UFIXED) (map (fit ?m) vs)"
    using n(2) assms(2) by (cases vs) simp_all
  then have "encode_value (fit n ?a) None = Raise (ValueError ''invalid array value'')"
    by (simp add: encode_value.simps [of "ArrayValue _ _ _"])
  ultimately show ?thesis by blast
qed

text \<open>An array of an array of one number and one of two.\<close>

definition uneven_arrays :: Value where
  "uneven_arrays = ArrayValue ValueType_ARRAY False
     [ArrayValue ValueType_UINT False [UIntValue 1], ArrayValue ValueType_UINT False [UIntValue 1, UIntValue 2]]"

lemma int_bit_length_num [simp]: "int_bit_length 1 = 1" "int_bit_length 2 = 2"
  by (simp_all add: int_bit_length_def bit_length.simps)

text \<open>
  The elements of an array are not filled up to the common size where they are arrays: an array
  of an array of one number and one of two is encoded, and decoded to something else.
\<close>

lemma uneven_arrays_misread:
  "\<exists>ys v rest. encode_value uneven_arrays None = Ok ys \<and> decode_value (wire ys) ValueType_ARRAY = Ok (v, rest) \<and>
    v \<noteq> uneven_arrays"
proof -
  have u: "encode_value (UIntValue 1) (Some (Suc 0)) = Ok [1]" "encode_value (UIntValue 2) (Some (Suc 0)) = Ok [2]"
    by (simp_all add: encode_value.simps)
  have a: "encode_value (ArrayValue ValueType_UINT False [UIntValue 1]) (Some 5) = Ok [3, 1, 1, 1]"
    "encode_value (ArrayValue ValueType_UINT False [UIntValue 1, UIntValue 2]) (Some 5) = Ok [3, 1, 2, 1, 2]"
    by (simp_all add: encode_value.simps [of "ArrayValue _ _ _"] max_default_def u)
  have "encode_value uneven_arrays None = Ok [23, 5, 2, 3, 1, 1, 1, 3, 1, 2, 1, 2]"
    using a by (simp add: encode_value.simps [of "ArrayValue ValueType_ARRAY _ _"] uneven_arrays_def max_default_def)
  moreover have t: "ValueType_of 23 = Ok ValueType_ARRAY" "ValueType_of 3 = Ok ValueType_UINT" "ValueType_of 1 = Ok ValueType_TEXT"
    using ValueType_of_value [of ValueType_ARRAY] ValueType_of_value [of ValueType_UINT] ValueType_of_value [of ValueType_TEXT]
    by simp_all
  have "decode_value (wire [23, 5, 2, 3, 1, 1, 1, 3, 1, 2, 1, 2]) ValueType_ARRAY =
    Ok (ArrayValue ValueType_ARRAY False [ArrayValue ValueType_UINT False [UIntValue 1],
      ArrayValue ValueType_TEXT False [TextValue [2]]], [])"
    by (simp add: decode_value.simps decode_values.simps decode_scalar_def t)
  ultimately show ?thesis by (auto simp: uneven_arrays_def)
qed

end
