(* ===== verification/Iec103_Encoder.thy ===== *)
theory Iec103_Encoder
  imports Iec103_Value_Codec
begin

text \<open>
  The information elements and data units of \<^verbatim>\<open>iec60870/encodings/iec103/encoder.py\<close>. The third
  interpretation of \<open>io_element_codec\<close> carries the round trip of data units over to IEC 103.
\<close>

unbundle bit_operations_syntax

section \<open>Parts of elements\<close>

definition decode_asdu_type_103 :: "int \<Rightarrow> AsduType103 result" where
  "decode_asdu_type_103 asdu_ty =
     (case AsduType103_of asdu_ty of Inl _ \<Rightarrow> Raise (AsduTypeError asdu_ty) | Inr ty \<Rightarrow> Ok ty)"

text \<open>\<open>value.value\<close> of a value that was decoded as an identification or an address.\<close>

definition decode_identification :: "bytes \<Rightarrow> (Identification \<times> bytes) result" where
  "decode_identification bs =
     bindE (decode_value bs ValueType_IDENTIFICATION) (\<lambda>(v, rest).
       case v of IdentificationValue i \<Rightarrow> Ok (i, rest) | _ \<Rightarrow> Raise (AttributeError ''value''))"

definition decode_address :: "bytes \<Rightarrow> (IoAddress \<times> bytes) result" where
  "decode_address bs =
     bindE (decode_value bs ValueType_IO_ADDRESS) (\<lambda>(v, rest).
       case v of IoAddressValue i \<Rightarrow> Ok (i, rest) | _ \<Rightarrow> Raise (AttributeError ''value''))"

definition decode_descriptive_data :: "bytes \<Rightarrow> (DescriptiveData \<times> bytes) result" where
  "decode_descriptive_data data =
     bindE (byte_at data 0) (\<lambda>b. bindE (Description_of b) (\<lambda>d.
     bindE (decode_value (drop 1 data) ValueType_ARRAY) (\<lambda>(v, data).
       Ok (\<lparr>description = d, descriptive_value = v\<rparr>, data))))"

definition encode_descriptive_data :: "DescriptiveData \<Rightarrow> int list result" where
  "encode_descriptive_data data =
     appendE (Ok [Description_value (description data)]) (encode_value (descriptive_value data) None)"

text \<open>The bodies of the loops over the parts of an element.\<close>

definition decode_identified_data :: "bytes \<Rightarrow> ((Identification \<times> DescriptiveData) \<times> bytes) result" where
  "decode_identified_data bs =
     bindE (decode_identification bs) (\<lambda>(i, bs).
     bindE (decode_descriptive_data bs) (\<lambda>(d, bs). Ok ((i, d), bs)))"

definition decode_identified_description :: "bytes \<Rightarrow> ((Identification \<times> Description) \<times> bytes) result" where
  "decode_identified_description bs =
     bindE (decode_identification bs) (\<lambda>(i, bs).
     bindE (byte_at bs 0) (\<lambda>b. bindE (Description_of b) (\<lambda>d. Ok ((i, d), drop 1 bs))))"

definition decode_tag :: "bytes \<Rightarrow> ((IoAddress \<times> Value) \<times> bytes) result" where
  "decode_tag bs =
     bindE (decode_address bs) (\<lambda>(a, bs).
     bindE (decode_value bs ValueType_DOUBLE) (\<lambda>(v, bs). Ok ((a, v), bs)))"

definition decode_disturbance_value :: "bytes \<Rightarrow> (pyfloat \<times> bytes) result" where
  "decode_disturbance_value bs = bindE (decode_fixed (take 2 bs) 0 16 True) (\<lambda>v. Ok (v, drop 2 bs))"

section \<open>Decoding of elements\<close>

text \<open>An element that holds one value.\<close>

definition decode_one_value :: "(Value \<Rightarrow> IoElement103) \<Rightarrow> ValueType \<Rightarrow> bytes \<Rightarrow> (IoElement103 \<times> bytes) result" where
  "decode_one_value element ty bs = bindE (decode_value bs ty) (\<lambda>(v, rest). Ok (element v, rest))"

definition decode_order :: "(OrderType \<Rightarrow> int \<Rightarrow> Channel \<Rightarrow> IoElement103) \<Rightarrow> bytes \<Rightarrow> (IoElement103 \<times> bytes) result" where
  "decode_order element bs =
     bindE (byte_at bs 0) (\<lambda>b0. bindE (OrderType_of b0) (\<lambda>order_type.
     bindE (byte_at bs 4) (\<lambda>b4. bindE (Channel_of b4) (\<lambda>channel.
       Ok (element order_type (from_le (slice 2 4 bs)) channel, drop 5 bs)))))"

text \<open>The second half, of the types for disturbance data.\<close>

definition decode_disturbance_element :: "AsduType103 \<Rightarrow> bytes \<Rightarrow> (IoElement103 \<times> bytes) result" where
  "decode_disturbance_element ty io_bytes =
     (case ty of
         I103_LIST_OF_RECORDED_DISTURBANCES \<Rightarrow>
           bindE (byte_at io_bytes 2) (\<lambda>b2.
           bindE (decode_time (slice 3 10 io_bytes) TimeSize_SEVEN) (\<lambda>t.
             Ok (IoElement_LIST_OF_RECORDED_DISTURBANCES (from_le (take 2 io_bytes)) (b2 AND 0x01 \<noteq> 0)
                   (b2 AND 0x02 \<noteq> 0) (b2 AND 0x04 \<noteq> 0) (b2 AND 0x08 \<noteq> 0) t, drop 10 io_bytes)))
       | I103_ORDER_FOR_DISTURBANCE_DATA_TRANSMISSION \<Rightarrow>
           decode_order IoElement_ORDER_FOR_DISTURBANCE_DATA_TRANSMISSION io_bytes
       | I103_ACKNOWLEDGEMENT_FOR_DISTURBANCE_DATA_TRANSMISSION \<Rightarrow>
           decode_order IoElement_ACKNOWLEDGEMENT_FOR_DISTURBANCE_DATA_TRANSMISSION io_bytes
       | I103_READY_FOR_TRANSMISSION_OF_DISTURBANCE_DATA \<Rightarrow>
           bindE (byte_at io_bytes 5) (\<lambda>number_of_channels.
           bindE (decode_time (slice 10 14 io_bytes) TimeSize_FOUR) (\<lambda>t.
             Ok (IoElement_READY_FOR_TRANSMISSION_OF_DISTURBANCE_DATA (from_le (slice 1 3 io_bytes))
                   (from_le (slice 3 5 io_bytes)) number_of_channels (from_le (slice 6 8 io_bytes))
                   (from_le (slice 8 10 io_bytes)) t, drop 14 io_bytes)))
       | I103_READY_FOR_TRANSMISSION_OF_A_CHANNEL \<Rightarrow>
           bindE (byte_at io_bytes 3) (\<lambda>b3. bindE (Channel_of b3) (\<lambda>channel.
           bindE (decode_value (drop 4 io_bytes) ValueType_REAL32) (\<lambda>(primary, rest).
           bindE (decode_value rest ValueType_REAL32) (\<lambda>(secondary, rest).
           bindE (decode_value rest ValueType_REAL32) (\<lambda>(reference, rest).
             Ok (IoElement_READY_FOR_TRANSMISSION_OF_A_CHANNEL (from_le (slice 1 3 io_bytes)) channel
                   primary secondary reference, rest))))))
       | I103_READY_FOR_TRANSMISSION_OF_TAGS \<Rightarrow>
           Ok (IoElement_READY_FOR_TRANSMISSION_OF_TAGS (from_le (slice 2 4 io_bytes)), drop 4 io_bytes)
       | I103_TRANSMISSION_OF_TAGS \<Rightarrow>
           bindE (byte_at io_bytes 2) (\<lambda>values_size.
           bindE (repeat_decode decode_tag (nat values_size) (drop 5 io_bytes)) (\<lambda>(tags, rest).
             Ok (IoElement_TRANSMISSION_OF_TAGS (from_le (take 2 io_bytes)) (from_le (slice 3 5 io_bytes)) tags, rest)))
       | I103_TRANSMISSION_OF_DISTURBANCE_VALUES \<Rightarrow>
           bindE (byte_at io_bytes 3) (\<lambda>b3. bindE (Channel_of b3) (\<lambda>channel.
           bindE (byte_at io_bytes 4) (\<lambda>values_size.
           bindE (repeat_decode decode_disturbance_value (nat values_size) (drop 7 io_bytes)) (\<lambda>(vs, rest).
             Ok (IoElement_TRANSMISSION_OF_DISTURBANCE_VALUES (from_le (slice 1 3 io_bytes)) channel
                   (from_le (slice 5 7 io_bytes)) vs, rest)))))
       | I103_END_OF_TRANSMISSION \<Rightarrow> decode_order IoElement_END_OF_TRANSMISSION io_bytes
       | _ \<Rightarrow> Raise (ValueError ''unsupported ASDU type''))"

definition decode_io_element_103 :: "bytes \<Rightarrow> int \<Rightarrow> (IoElement103 \<times> bytes) result" where
  "decode_io_element_103 io_bytes asdu_ty =
     bindE (decode_asdu_type_103 asdu_ty) (\<lambda>ty.
       case ty of
         I103_TIME_TAGGED_MESSAGE \<Rightarrow>
           decode_one_value IoElement_TIME_TAGGED_MESSAGE ValueType_DOUBLE_WITH_TIME io_bytes
       | I103_TIME_TAGGED_MESSAGE_WITH_RELATIVE_TIME \<Rightarrow>
           decode_one_value IoElement_TIME_TAGGED_MESSAGE_WITH_RELATIVE_TIME ValueType_DOUBLE_WITH_RELATIVE_TIME io_bytes
       | I103_MEASURANDS_1 \<Rightarrow> decode_one_value IoElement_MEASURANDS_1 ValueType_MEASURAND io_bytes
       | I103_TIME_TAGGED_MEASURANDS_WITH_RELATIVE_TIME \<Rightarrow>
           decode_one_value IoElement_TIME_TAGGED_MEASURANDS_WITH_RELATIVE_TIME
             ValueType_MEASURAND_WITH_RELATIVE_TIME io_bytes
       | I103_IDENTIFICATION \<Rightarrow>
           bindE (byte_at io_bytes 0) (\<lambda>compatibility.
             Ok (IoElement_IDENTIFICATION compatibility (slice 1 9 io_bytes) (slice 9 13 io_bytes), drop 13 io_bytes))
       | I103_TIME_SYNCHRONIZATION \<Rightarrow>
           bindE (decode_time (take 7 io_bytes) TimeSize_SEVEN) (\<lambda>t. Ok (IoElement_TIME_SYNCHRONIZATION t, drop 7 io_bytes))
       | I103_GENERAL_INTERROGATION \<Rightarrow>
           bindE (byte_at io_bytes 0) (\<lambda>n. Ok (IoElement_GENERAL_INTERROGATION n, drop 1 io_bytes))
       | I103_GENERAL_INTERROGATION_TERMINATION \<Rightarrow>
           bindE (byte_at io_bytes 0) (\<lambda>n. Ok (IoElement_GENERAL_INTERROGATION_TERMINATION n, drop 1 io_bytes))
       | I103_MEASURANDS_2 \<Rightarrow> decode_one_value IoElement_MEASURANDS_2 ValueType_MEASURAND io_bytes
       | I103_GENERIC_DATA \<Rightarrow>
           bindE (byte_at io_bytes 0) (\<lambda>return_identifier.
           bindE (byte_at io_bytes 1) (\<lambda>b1.
           bindE (repeat_decode decode_identified_data (nat (b1 AND 0x3F)) (drop 2 io_bytes)) (\<lambda>(data, rest).
             Ok (IoElement_GENERIC_DATA return_identifier (b1 AND 0x40 \<noteq> 0) (b1 AND 0x80 \<noteq> 0) data, rest))))
       | I103_GENERIC_IDENTIFICATION \<Rightarrow>
           bindE (byte_at io_bytes 0) (\<lambda>return_identifier.
           bindE (decode_identification (slice 1 3 io_bytes)) (\<lambda>(identification, _).
           bindE (byte_at io_bytes 3) (\<lambda>b3.
           bindE (repeat_decode decode_descriptive_data (nat (b3 AND 0x3F)) (drop 4 io_bytes)) (\<lambda>(data, rest).
             Ok (IoElement_GENERIC_IDENTIFICATION return_identifier identification (b3 AND 0x40 \<noteq> 0)
                   (b3 AND 0x80 \<noteq> 0) data, rest)))))
       | I103_GENERAL_COMMAND \<Rightarrow>
           bindE (decode_value io_bytes ValueType_DOUBLE) (\<lambda>(v, _).
           bindE (byte_at io_bytes 1) (\<lambda>return_identifier.
             Ok (IoElement_GENERAL_COMMAND v return_identifier, drop 2 io_bytes)))
       | I103_GENERIC_COMMAND \<Rightarrow>
           bindE (byte_at io_bytes 0) (\<lambda>return_identifier.
           bindE (byte_at io_bytes 1) (\<lambda>data_size.
           bindE (repeat_decode decode_identified_description (nat data_size) (drop 2 io_bytes)) (\<lambda>(data, rest).
             Ok (IoElement_GENERIC_COMMAND return_identifier data, rest))))
       | _ \<Rightarrow> decode_disturbance_element ty io_bytes)"

lemmas decode_io_element_103_defs = decode_io_element_103_def decode_disturbance_element_def

section \<open>Encoding of elements\<close>

text \<open>
  The encoder goes by the type of the data unit and takes what it needs from the attributes of the
  element, whatever its class: an attribute that several classes have is a function on all of them.
  The value of an identification is not of a class that \<open>_encode_value\<close> knows.
\<close>

fun element_value :: "IoElement103 \<Rightarrow> Value result" where
  "element_value (IoElement_TIME_TAGGED_MESSAGE v) = Ok v"
| "element_value (IoElement_TIME_TAGGED_MESSAGE_WITH_RELATIVE_TIME v) = Ok v"
| "element_value (IoElement_MEASURANDS_1 v) = Ok v"
| "element_value (IoElement_TIME_TAGGED_MEASURANDS_WITH_RELATIVE_TIME v) = Ok v"
| "element_value (IoElement_MEASURANDS_2 v) = Ok v"
| "element_value (IoElement_GENERAL_COMMAND v _) = Ok v"
| "element_value (IoElement_IDENTIFICATION _ _ _) = Raise (ValueError ''unsupported value type'')"
| "element_value _ = Raise (AttributeError ''value'')"

fun element_time :: "IoElement103 \<Rightarrow> Time result" where
  "element_time (IoElement_TIME_SYNCHRONIZATION t) = Ok t"
| "element_time (IoElement_LIST_OF_RECORDED_DISTURBANCES _ _ _ _ _ t) = Ok t"
| "element_time (IoElement_READY_FOR_TRANSMISSION_OF_DISTURBANCE_DATA _ _ _ _ _ t) = Ok t"
| "element_time _ = Raise (AttributeError ''time'')"

fun element_scan_number :: "IoElement103 \<Rightarrow> int result" where
  "element_scan_number (IoElement_GENERAL_INTERROGATION n) = Ok n"
| "element_scan_number (IoElement_GENERAL_INTERROGATION_TERMINATION n) = Ok n"
| "element_scan_number _ = Raise (AttributeError ''scan_number'')"

fun element_order :: "IoElement103 \<Rightarrow> (OrderType \<times> int \<times> Channel) result" where
  "element_order (IoElement_ORDER_FOR_DISTURBANCE_DATA_TRANSMISSION r f c) = Ok (r, f, c)"
| "element_order (IoElement_ACKNOWLEDGEMENT_FOR_DISTURBANCE_DATA_TRANSMISSION r f c) = Ok (r, f, c)"
| "element_order (IoElement_END_OF_TRANSMISSION r f c) = Ok (r, f, c)"
| "element_order _ = Raise (AttributeError ''order_type'')"

fun element_fault_number :: "IoElement103 \<Rightarrow> int result" where
  "element_fault_number (IoElement_LIST_OF_RECORDED_DISTURBANCES f _ _ _ _ _) = Ok f"
| "element_fault_number (IoElement_ORDER_FOR_DISTURBANCE_DATA_TRANSMISSION _ f _) = Ok f"
| "element_fault_number (IoElement_ACKNOWLEDGEMENT_FOR_DISTURBANCE_DATA_TRANSMISSION _ f _) = Ok f"
| "element_fault_number (IoElement_READY_FOR_TRANSMISSION_OF_DISTURBANCE_DATA f _ _ _ _ _) = Ok f"
| "element_fault_number (IoElement_READY_FOR_TRANSMISSION_OF_A_CHANNEL f _ _ _ _) = Ok f"
| "element_fault_number (IoElement_READY_FOR_TRANSMISSION_OF_TAGS f) = Ok f"
| "element_fault_number (IoElement_TRANSMISSION_OF_TAGS f _ _) = Ok f"
| "element_fault_number (IoElement_TRANSMISSION_OF_DISTURBANCE_VALUES f _ _ _) = Ok f"
| "element_fault_number (IoElement_END_OF_TRANSMISSION _ f _) = Ok f"
| "element_fault_number _ = Raise (AttributeError ''fault_number'')"

definition encode_one_value :: "IoElement103 \<Rightarrow> int list result" where
  "encode_one_value e = bindE (element_value e) (\<lambda>v. encode_value v None)"

definition encode_order :: "IoElement103 \<Rightarrow> int list result" where
  "encode_order e =
     bindE (element_order e) (\<lambda>(order_type, fault_number, channel).
       appendE (Ok [OrderType_value order_type, 0x01])
      (appendE (to_le 2 fault_number) (Ok [Channel_value channel])))"

definition encode_scan_number :: "IoElement103 \<Rightarrow> int list result" where
  "encode_scan_number e = bindE (element_scan_number e) (\<lambda>n. Ok [n])"

definition encode_identification :: "Identification \<Rightarrow> int list result" where
  "encode_identification i = encode_value (IdentificationValue i) None"

definition encode_identified_data :: "Identification \<times> DescriptiveData \<Rightarrow> int list result" where
  "encode_identified_data = (\<lambda>(i, d). appendE (encode_identification i) (encode_descriptive_data d))"

definition encode_identified_description :: "Identification \<times> Description \<Rightarrow> int list result" where
  "encode_identified_description = (\<lambda>(i, d). appendE (encode_identification i) (Ok [Description_value d]))"

definition encode_tag :: "IoAddress \<times> Value \<Rightarrow> int list result" where
  "encode_tag = (\<lambda>(a, v). appendE (encode_value (IoAddressValue a) None) (encode_value v None))"

text \<open>\<open>counter\<close>, \<open>more_follows\<close> and the number of parts in one byte.\<close>

definition data_head :: "bool \<Rightarrow> bool \<Rightarrow> nat \<Rightarrow> int" where
  "data_head counter more_follows n =
     (if more_follows then 0x80 else 0x00) OR ((if counter then 0x40 else 0x00) OR (int n AND 0x3F))"

text \<open>
  Elements of the generic types in place of each other: their parts do not have the attributes that
  are looked up in them, or give what is not an integer, so that only one without parts is encoded.
\<close>

definition no_parts :: "'a list \<Rightarrow> exn \<Rightarrow> int list result \<Rightarrow> int list result" where
  "no_parts data x r = (if data = [] then r else Raise x)"

definition encode_generic_data :: "IoElement103 \<Rightarrow> int list result" where
  "encode_generic_data e =
     (case e of
        IoElement_GENERIC_DATA return_identifier counter more_follows data \<Rightarrow>
          appendE (Ok [return_identifier, data_head counter more_follows (length data)]) (concatE encode_identified_data data)
      | IoElement_GENERIC_IDENTIFICATION return_identifier _ counter more_follows data \<Rightarrow>
          no_parts data (AttributeError ''group_id'') (Ok [return_identifier, data_head counter more_follows 0])
      | _ \<Rightarrow> Raise (AttributeError ''data''))"

definition encode_generic_command :: "IoElement103 \<Rightarrow> int list result" where
  "encode_generic_command e =
     (case e of
        IoElement_GENERIC_COMMAND return_identifier data \<Rightarrow>
          appendE (Ok [return_identifier, int (length data)]) (concatE encode_identified_description data)
      | IoElement_GENERIC_DATA return_identifier _ _ data \<Rightarrow>
          no_parts data (TypeError ''an integer is required'') (Ok [return_identifier, 0])
      | IoElement_GENERIC_IDENTIFICATION return_identifier _ _ _ data \<Rightarrow>
          no_parts data (AttributeError ''group_id'') (Ok [return_identifier, 0])
      | _ \<Rightarrow> Raise (AttributeError ''data''))"

definition encode_io_element_103 :: "IoElement103 \<Rightarrow> int \<Rightarrow> int list result" where
  "encode_io_element_103 element asdu_ty =
     bindE (decode_asdu_type_103 asdu_ty) (\<lambda>ty.
       case ty of
         I103_TIME_TAGGED_MESSAGE \<Rightarrow> encode_one_value element
       | I103_TIME_TAGGED_MESSAGE_WITH_RELATIVE_TIME \<Rightarrow> encode_one_value element
       | I103_MEASURANDS_1 \<Rightarrow> encode_one_value element
       | I103_TIME_TAGGED_MEASURANDS_WITH_RELATIVE_TIME \<Rightarrow> encode_one_value element
       | I103_IDENTIFICATION \<Rightarrow>
           (case element of
              IoElement_IDENTIFICATION compatibility val software \<Rightarrow>
                Ok (compatibility # map uint (take 8 val) @ replicate (8 - length val) 0 @
                      map uint (take 4 software) @ replicate (4 - length software) 0)
            | _ \<Rightarrow> Raise (AttributeError ''compatibility''))
       | I103_TIME_SYNCHRONIZATION \<Rightarrow> bindE (element_time element) (\<lambda>t. encode_time t TimeSize_SEVEN)
       | I103_GENERAL_INTERROGATION \<Rightarrow> encode_scan_number element
       | I103_GENERAL_INTERROGATION_TERMINATION \<Rightarrow> encode_scan_number element
       | I103_MEASURANDS_2 \<Rightarrow> encode_one_value element
       | I103_GENERIC_DATA \<Rightarrow> encode_generic_data element
       | I103_GENERIC_IDENTIFICATION \<Rightarrow>
           (case element of
              IoElement_GENERIC_IDENTIFICATION return_identifier identification counter more_follows data \<Rightarrow>
                appendE (Ok [return_identifier])
               (appendE (encode_identification identification)
               (appendE (Ok [data_head counter more_follows (length data)]) (concatE encode_descriptive_data data)))
            | _ \<Rightarrow> Raise (AttributeError ''identification''))
       | I103_GENERAL_COMMAND \<Rightarrow>
           (case element of
              IoElement_GENERAL_COMMAND v return_identifier \<Rightarrow> appendE (encode_value v None) (Ok [return_identifier])
            | _ \<Rightarrow> bindE (encode_one_value element) (\<lambda>_. Raise (AttributeError ''return_identifier'')))
       | I103_GENERIC_COMMAND \<Rightarrow> encode_generic_command element
       | I103_LIST_OF_RECORDED_DISTURBANCES \<Rightarrow>
           (case element of
              IoElement_LIST_OF_RECORDED_DISTURBANCES fault_number trip transmitted test other t \<Rightarrow>
                appendE (to_le 2 fault_number)
               (appendE (Ok [(if other then 0x08 else 0x00) OR ((if test then 0x04 else 0x00) OR
                              ((if transmitted then 0x02 else 0x00) OR (if trip then 0x01 else 0x00)))])
                  (encode_time t TimeSize_SEVEN))
            | _ \<Rightarrow> Raise (AttributeError ''other''))
       | I103_ORDER_FOR_DISTURBANCE_DATA_TRANSMISSION \<Rightarrow> encode_order element
       | I103_ACKNOWLEDGEMENT_FOR_DISTURBANCE_DATA_TRANSMISSION \<Rightarrow> encode_order element
       | I103_READY_FOR_TRANSMISSION_OF_DISTURBANCE_DATA \<Rightarrow>
           (case element of
              IoElement_READY_FOR_TRANSMISSION_OF_DISTURBANCE_DATA fault_number number_of_faults number_of_channels
                  number_of_elements interval t \<Rightarrow>
                appendE (Ok [0x01]) (appendE (to_le 2 fault_number) (appendE (to_le 2 number_of_faults)
               (appendE (Ok [number_of_channels]) (appendE (to_le 2 number_of_elements)
               (appendE (to_le 2 interval) (encode_time t TimeSize_FOUR))))))
            | _ \<Rightarrow> Raise (AttributeError ''number_of_faults''))
       | I103_READY_FOR_TRANSMISSION_OF_A_CHANNEL \<Rightarrow>
           (case element of
              IoElement_READY_FOR_TRANSMISSION_OF_A_CHANNEL fault_number channel primary secondary reference \<Rightarrow>
                appendE (Ok [0x01]) (appendE (to_le 2 fault_number) (appendE (Ok [Channel_value channel])
               (appendE (encode_value primary None) (appendE (encode_value secondary None) (encode_value reference None)))))
            | _ \<Rightarrow> Raise (AttributeError ''primary''))
       | I103_READY_FOR_TRANSMISSION_OF_TAGS \<Rightarrow>
           bindE (element_fault_number element) (\<lambda>fault_number. appendE (Ok [0x00, 0x00]) (to_le 2 fault_number))
       | I103_TRANSMISSION_OF_TAGS \<Rightarrow>
           (case element of
              IoElement_TRANSMISSION_OF_TAGS fault_number tag_position tags \<Rightarrow>
                appendE (to_le 2 fault_number) (appendE (Ok [int (length tags)])
               (appendE (to_le 2 tag_position) (concatE encode_tag tags)))
            | _ \<Rightarrow> Raise (AttributeError ''tag_position''))
       | I103_TRANSMISSION_OF_DISTURBANCE_VALUES \<Rightarrow>
           (case element of
              IoElement_TRANSMISSION_OF_DISTURBANCE_VALUES fault_number channel element_number vs \<Rightarrow>
                appendE (Ok [0x01]) (appendE (to_le 2 fault_number) (appendE (Ok [Channel_value channel, int (length vs)])
               (appendE (to_le 2 element_number) (concatE (\<lambda>v. encode_fixed v 0 16 True) vs))))
            | _ \<Rightarrow> Raise (AttributeError ''element_number''))
       | I103_END_OF_TRANSMISSION \<Rightarrow> encode_order element)"

section \<open>Data units\<close>

definition decode_cause_103 :: "int \<Rightarrow> Cause103_or_other" where
  "decode_cause_103 val = (case Cause103_of val of Inr c \<Rightarrow> KnownCause103 c | Inl _ \<Rightarrow> OtherCause103 val)"

fun encode_cause_103 :: "Cause103_or_other \<Rightarrow> int" where
  "encode_cause_103 (KnownCause103 c) = Cause103_value c"
| "encode_cause_103 (OtherCause103 val) = val"

definition decode_io_address :: "int \<Rightarrow> IoAddress" where
  "decode_io_address a = \<lparr>function_type = a AND 0xFF, information_number = drop_bit 8 a\<rparr>"

definition encode_io_address :: "IoAddress \<Rightarrow> int" where
  "encode_io_address a = function_type a OR push_bit 8 (information_number a)"

text \<open>The encoder that \<open>Encoder.__init__\<close> creates.\<close>

definition encoder_103 :: "IoElement103 Encoder" where
  "encoder_103 =
     \<lparr>cause_size = CauseSize_ONE, asdu_address_size = AsduAddressSize_ONE, io_address_size = IoAddressSize_TWO,
      asdu_type_time_sizes = Map.empty, inverted_sequence_bit = True,
      decode_io_element_cb = decode_io_element_103, encode_io_element_cb = encode_io_element_103\<rparr>"

definition decode_asdu_103 :: "bytes \<Rightarrow> (ASDU103 \<times> bytes) result" where
  "decode_asdu_103 asdu_bytes =
     bindE (decode_asdu encoder_103 asdu_bytes) (\<lambda>(asdu, rest).
     bindE (decode_asdu_type_103 (asdu_type asdu)) (\<lambda>ty.
       Ok (\<lparr>asdu103_type = ty, asdu103_cause = decode_cause_103 (asdu_cause asdu), asdu103_address = asdu_address asdu,
            asdu103_ios = map (\<lambda>io. \<lparr>io103_address = decode_io_address (io_address io), io103_elements = io_elements io\<rparr>)
              (asdu_ios asdu)\<rparr>, rest)))"

definition lower_asdu_103 :: "ASDU103 \<Rightarrow> (int, int, IoElement103) ASDU" where
  "lower_asdu_103 asdu =
     \<lparr>asdu_type = AsduType103_value (asdu103_type asdu), asdu_cause = encode_cause_103 (asdu103_cause asdu),
      asdu_address = asdu103_address asdu,
      asdu_ios = map (\<lambda>io. \<lparr>io_address = encode_io_address (io103_address io), io_elements = io103_elements io,
        io_time = None\<rparr>) (asdu103_ios asdu)\<rparr>"

definition encode_asdu_103 :: "ASDU103 \<Rightarrow> bytes result" where
  "encode_asdu_103 asdu = encode_asdu encoder_103 (lower_asdu_103 asdu)"

end
