(* ===== verification/Iec103_Codec.thy ===== *)
theory Iec103_Codec
  imports Iec103_Encoder "HOL-Library.Sublist"
begin

text \<open>
  Round trips of the information elements and data units of IEC 103: the third interpretation of
  \<open>io_element_codec\<close> carries over what was proved of the common encoder.
\<close>

unbundle bit_operations_syntax

section \<open>Elements that come back\<close>

lemma decode_asdu_type_103_value [simp]: "decode_asdu_type_103 (AsduType103_value ty) = Ok ty"
  by (simp add: decode_asdu_type_103_def)

declare AsduType103_value.simps [simp del]

text \<open>A value that ends by itself, in as many bytes as it needs, and is not changed by them.\<close>

definition self_ok :: "Value \<Rightarrow> bool" where
  "self_ok v \<longleftrightarrow> (let n = get_value_min_size v in value_ok n v \<and> fit n v = v \<and> \<not> greedy (get_value_type v))"

lemma encode_value_None: "encode_value v None = encode_value v (Some (get_value_min_size v))"
  by (simp add: encode_value.simps [of v None] encode_value.simps [of v "Some _"])

lemma value_decodes:
  assumes "self_ok v"
  shows "decodes_to (encode_value v None) (\<lambda>bs. decode_value bs (get_value_type v)) v"
  using value_codec [of "get_value_min_size v" v] assms
  by (auto simp: self_ok_def Let_def encode_value_None intro: decodes_toI)

definition identification_ok :: "Identification \<Rightarrow> bool" where
  "identification_ok i \<longleftrightarrow> is_byte (group_id i) \<and> is_byte (entry_id i)"

definition address_ok :: "IoAddress \<Rightarrow> bool" where
  "address_ok a \<longleftrightarrow> is_byte (function_type a) \<and> is_byte (information_number a)"

definition descriptive_ok :: "DescriptiveData \<Rightarrow> bool" where
  "descriptive_ok d \<longleftrightarrow> self_ok (descriptive_value d) \<and> get_value_type (descriptive_value d) = ValueType_ARRAY"

lemma identification_decodes: "identification_ok i \<Longrightarrow> decodes_to (encode_identification i) decode_identification i"
  using value_decodes [of "IdentificationValue i"]
  by (auto simp: self_ok_def identification_ok_def greedy_def encode_identification_def decode_identification_def
      elim!: decodes_toE intro: decodes_toI)

lemma address_decodes: "address_ok a \<Longrightarrow> decodes_to (encode_value (IoAddressValue a) None) decode_address a"
  using value_decodes [of "IoAddressValue a"]
  by (auto simp: self_ok_def address_ok_def greedy_def decode_address_def elim!: decodes_toE intro: decodes_toI)

lemma descriptive_decodes: "descriptive_ok d \<Longrightarrow> decodes_to (encode_descriptive_data d) decode_descriptive_data d"
  using value_decodes [of "descriptive_value d"]
  by (cases d) (auto simp: descriptive_ok_def encode_descriptive_data_def decode_descriptive_data_def uint_of_byte
      elim!: decodes_toE intro!: decodes_toI)

lemma identified_data_decodes:
  "identification_ok i \<Longrightarrow> descriptive_ok d \<Longrightarrow> decodes_to (encode_identified_data (i, d)) decode_identified_data (i, d)"
  using decodes_to_seq2 [OF identification_decodes descriptive_decodes, of i d Pair]
  by (simp add: encode_identified_data_def decode_identified_data_def [abs_def])

lemma identified_description_decodes:
  "identification_ok i \<Longrightarrow> decodes_to (encode_identified_description (i, d)) decode_identified_description (i, d)"
  using identification_decodes [of i]
  by (auto simp: encode_identified_description_def decode_identified_description_def uint_of_byte
      elim!: decodes_toE intro!: decodes_toI)

lemma tag_decodes:
  "address_ok a \<Longrightarrow> self_ok v \<Longrightarrow> get_value_type v = ValueType_DOUBLE \<Longrightarrow> decodes_to (encode_tag (a, v)) decode_tag (a, v)"
  using decodes_to_seq2 [OF address_decodes value_decodes, of a v Pair]
  by (simp add: encode_tag_def decode_tag_def [abs_def])

lemma disturbance_value_decodes:
  assumes "fixed_ok 15 True v"
  shows "decodes_to (encode_fixed v 0 16 True) decode_disturbance_value v"
proof -
  have "fixed_ok (16 - (if True then 1 else 0)) True v" using assms by simp
  from fixed_word_codec [OF this] obtain ds where ds: "encode_fixed v 0 16 True = Ok ds" "length ds = 2" "all_bytes ds"
    "decode_fixed (wire ds) 0 16 True = Ok v" .
  then show ?thesis by (intro decodes_toI [OF ds(1,3)]) (simp add: decode_disturbance_value_def)
qed

fun element_type_103 :: "IoElement103 \<Rightarrow> AsduType103" where
  "element_type_103 (IoElement_TIME_TAGGED_MESSAGE _) = I103_TIME_TAGGED_MESSAGE"
| "element_type_103 (IoElement_TIME_TAGGED_MESSAGE_WITH_RELATIVE_TIME _) = I103_TIME_TAGGED_MESSAGE_WITH_RELATIVE_TIME"
| "element_type_103 (IoElement_MEASURANDS_1 _) = I103_MEASURANDS_1"
| "element_type_103 (IoElement_TIME_TAGGED_MEASURANDS_WITH_RELATIVE_TIME _) = I103_TIME_TAGGED_MEASURANDS_WITH_RELATIVE_TIME"
| "element_type_103 (IoElement_IDENTIFICATION _ _ _) = I103_IDENTIFICATION"
| "element_type_103 (IoElement_TIME_SYNCHRONIZATION _) = I103_TIME_SYNCHRONIZATION"
| "element_type_103 (IoElement_GENERAL_INTERROGATION _) = I103_GENERAL_INTERROGATION"
| "element_type_103 (IoElement_GENERAL_INTERROGATION_TERMINATION _) = I103_GENERAL_INTERROGATION_TERMINATION"
| "element_type_103 (IoElement_MEASURANDS_2 _) = I103_MEASURANDS_2"
| "element_type_103 (IoElement_GENERIC_DATA _ _ _ _) = I103_GENERIC_DATA"
| "element_type_103 (IoElement_GENERIC_IDENTIFICATION _ _ _ _ _) = I103_GENERIC_IDENTIFICATION"
| "element_type_103 (IoElement_GENERAL_COMMAND _ _) = I103_GENERAL_COMMAND"
| "element_type_103 (IoElement_GENERIC_COMMAND _ _) = I103_GENERIC_COMMAND"
| "element_type_103 (IoElement_LIST_OF_RECORDED_DISTURBANCES _ _ _ _ _ _) = I103_LIST_OF_RECORDED_DISTURBANCES"
| "element_type_103 (IoElement_ORDER_FOR_DISTURBANCE_DATA_TRANSMISSION _ _ _) = I103_ORDER_FOR_DISTURBANCE_DATA_TRANSMISSION"
| "element_type_103 (IoElement_ACKNOWLEDGEMENT_FOR_DISTURBANCE_DATA_TRANSMISSION _ _ _) =
     I103_ACKNOWLEDGEMENT_FOR_DISTURBANCE_DATA_TRANSMISSION"
| "element_type_103 (IoElement_READY_FOR_TRANSMISSION_OF_DISTURBANCE_DATA _ _ _ _ _ _) =
     I103_READY_FOR_TRANSMISSION_OF_DISTURBANCE_DATA"
| "element_type_103 (IoElement_READY_FOR_TRANSMISSION_OF_A_CHANNEL _ _ _ _ _) = I103_READY_FOR_TRANSMISSION_OF_A_CHANNEL"
| "element_type_103 (IoElement_READY_FOR_TRANSMISSION_OF_TAGS _) = I103_READY_FOR_TRANSMISSION_OF_TAGS"
| "element_type_103 (IoElement_TRANSMISSION_OF_TAGS _ _ _) = I103_TRANSMISSION_OF_TAGS"
| "element_type_103 (IoElement_TRANSMISSION_OF_DISTURBANCE_VALUES _ _ _ _) = I103_TRANSMISSION_OF_DISTURBANCE_VALUES"
| "element_type_103 (IoElement_END_OF_TRANSMISSION _ _ _) = I103_END_OF_TRANSMISSION"

definition typed_ok :: "ValueType \<Rightarrow> Value \<Rightarrow> bool" where
  "typed_ok ty v \<longleftrightarrow> self_ok v \<and> get_value_type v = ty"

fun element_fields_ok :: "IoElement103 \<Rightarrow> bool" where
  "element_fields_ok (IoElement_TIME_TAGGED_MESSAGE v) \<longleftrightarrow> typed_ok ValueType_DOUBLE_WITH_TIME v"
| "element_fields_ok (IoElement_TIME_TAGGED_MESSAGE_WITH_RELATIVE_TIME v) \<longleftrightarrow> typed_ok ValueType_DOUBLE_WITH_RELATIVE_TIME v"
| "element_fields_ok (IoElement_MEASURANDS_1 v) \<longleftrightarrow> typed_ok ValueType_MEASURAND v"
| "element_fields_ok (IoElement_TIME_TAGGED_MEASURANDS_WITH_RELATIVE_TIME v) \<longleftrightarrow>
     typed_ok ValueType_MEASURAND_WITH_RELATIVE_TIME v"
| "element_fields_ok (IoElement_IDENTIFICATION compatibility v software) \<longleftrightarrow>
     is_byte compatibility \<and> length v = 8 \<and> length software = 4"
| "element_fields_ok (IoElement_TIME_SYNCHRONIZATION t) \<longleftrightarrow> time_ok t \<and> time_size t = TimeSize_SEVEN"
| "element_fields_ok (IoElement_GENERAL_INTERROGATION n) \<longleftrightarrow> is_byte n"
| "element_fields_ok (IoElement_GENERAL_INTERROGATION_TERMINATION n) \<longleftrightarrow> is_byte n"
| "element_fields_ok (IoElement_MEASURANDS_2 v) \<longleftrightarrow> typed_ok ValueType_MEASURAND v"
| "element_fields_ok (IoElement_GENERIC_DATA r counter more_follows data) \<longleftrightarrow>
     is_byte r \<and> length data \<le> 63 \<and> (\<forall>(i, d)\<in>set data. identification_ok i \<and> descriptive_ok d)"
| "element_fields_ok (IoElement_GENERIC_IDENTIFICATION r i counter more_follows data) \<longleftrightarrow>
     is_byte r \<and> identification_ok i \<and> length data \<le> 63 \<and> (\<forall>d\<in>set data. descriptive_ok d)"
| "element_fields_ok (IoElement_GENERAL_COMMAND v r) \<longleftrightarrow> typed_ok ValueType_DOUBLE v \<and> is_byte r"
| "element_fields_ok (IoElement_GENERIC_COMMAND r data) \<longleftrightarrow>
     is_byte r \<and> length data \<le> 255 \<and> (\<forall>(i, d)\<in>set data. identification_ok i)"
| "element_fields_ok (IoElement_LIST_OF_RECORDED_DISTURBANCES f _ _ _ _ t) \<longleftrightarrow>
     word_ok f \<and> time_ok t \<and> time_size t = TimeSize_SEVEN"
| "element_fields_ok (IoElement_ORDER_FOR_DISTURBANCE_DATA_TRANSMISSION _ f _) \<longleftrightarrow> word_ok f"
| "element_fields_ok (IoElement_ACKNOWLEDGEMENT_FOR_DISTURBANCE_DATA_TRANSMISSION _ f _) \<longleftrightarrow> word_ok f"
| "element_fields_ok (IoElement_READY_FOR_TRANSMISSION_OF_DISTURBANCE_DATA f faults channels elements interval t) \<longleftrightarrow>
     word_ok f \<and> word_ok faults \<and> is_byte channels \<and> word_ok elements \<and> word_ok interval \<and>
     time_ok t \<and> time_size t = TimeSize_FOUR"
| "element_fields_ok (IoElement_READY_FOR_TRANSMISSION_OF_A_CHANNEL f _ primary secondary reference) \<longleftrightarrow>
     word_ok f \<and> typed_ok ValueType_REAL32 primary \<and> typed_ok ValueType_REAL32 secondary \<and>
     typed_ok ValueType_REAL32 reference"
| "element_fields_ok (IoElement_READY_FOR_TRANSMISSION_OF_TAGS f) \<longleftrightarrow> word_ok f"
| "element_fields_ok (IoElement_TRANSMISSION_OF_TAGS f position tags) \<longleftrightarrow>
     word_ok f \<and> word_ok position \<and> length tags \<le> 255 \<and>
     (\<forall>(a, v)\<in>set tags. address_ok a \<and> typed_ok ValueType_DOUBLE v)"
| "element_fields_ok (IoElement_TRANSMISSION_OF_DISTURBANCE_VALUES f _ n vs) \<longleftrightarrow>
     word_ok f \<and> word_ok n \<and> length vs \<le> 255 \<and> (\<forall>v\<in>set vs. fixed_ok 15 True v)"
| "element_fields_ok (IoElement_END_OF_TRANSMISSION _ f _) \<longleftrightarrow> word_ok f"

definition io_element_ok_103 :: "int \<Rightarrow> IoElement103 \<Rightarrow> bool" where
  "io_element_ok_103 n e \<longleftrightarrow> n = AsduType103_value (element_type_103 e) \<and> element_fields_ok e"


lemma data_head_bits:
  fixes n :: nat
  assumes "n \<le> 63"
  shows "is_byte (data_head counter more_follows n)" "nat (data_head counter more_follows n AND 0x3F) = n"
    "data_head counter more_follows n AND 0x40 \<noteq> 0 \<longleftrightarrow> counter"
    "data_head counter more_follows n AND 0x80 \<noteq> 0 \<longleftrightarrow> more_follows"
proof -
  have n: "int n AND 0x3F = int n" "is_byte (int n)" using assms by (simp_all add: mask_mod is_byte_def)
  then show "is_byte (data_head counter more_follows n)"
    by (simp add: data_head_def byte_intros)
  have "data_head counter more_follows n AND 0x3F = int n"
    using n by (simp add: data_head_def or_mask)
  then show "nat (data_head counter more_follows n AND 0x3F) = n" by simp
  have "\<not> bit (int n AND 0x3F) 6" "\<not> bit (int n AND 0x3F) 7" by (simp_all add: bit_simps)
  then have "\<not> bit (int n) 6" "\<not> bit (int n) 7" unfolding n(1) by simp_all
  then show "data_head counter more_follows n AND 0x40 \<noteq> 0 \<longleftrightarrow> counter"
    "data_head counter more_follows n AND 0x80 \<noteq> 0 \<longleftrightarrow> more_follows"
    unfolding data_head_def n(1) by (simp_all add: bit_tests bit_simps)
qed

lemma one_value_decodes:
  assumes "typed_ok ty v" "element_value (f v) = Ok v"
  shows "decodes_to (encode_one_value (f v)) (decode_one_value f ty) (f v)"
  using value_decodes [of v] assms
  by (auto simp: typed_ok_def encode_one_value_def decode_one_value_def elim!: decodes_toE intro!: decodes_toI)

lemma word_bytes: "word_ok f \<Longrightarrow> to_le 2 f = Ok (le_digits 2 f)" "word_ok f \<Longrightarrow> from_le (wire (le_digits 2 f)) = f"
  by (simp_all add: word_ok_def from_le_wire_digits)

lemma order_decodes:
  assumes "word_ok f" "element_order (g r f c) = Ok (r, f, c)"
  shows "decodes_to (encode_order (g r f c)) (decode_order g) (g r f c)"
proof -
  let ?ys = "OrderType_value r # 1 # le_digits 2 f @ [Channel_value c]"
  have "slice 2 4 (wire ?ys @ rest) = wire (le_digits 2 f)" "byte_at (wire ?ys @ rest) 4 = Ok (Channel_value c)" for rest
    by (simp_all add: slice_def byte_at_def nth_append uint_of_byte)
  with assms word_bytes [OF assms(1)] show ?thesis
    by (intro decodes_toI [where ys = ?ys]) (simp_all add: encode_order_def decode_order_def uint_of_byte is_byte_num)
qed

lemma decodes_to_list:
  assumes "\<forall>x\<in>set xs. decodes_to (enc x) dec x"
  obtains ys where "concatE enc xs = Ok ys" "all_bytes ys" "\<And>rest. repeat_decode dec (length xs) (wire ys @ rest) = Ok (xs, rest)"
proof -
  have "decodes_to (concatE enc xs) (repeat_decode dec (length xs)) xs" by (rule decodes_to_repeat) (use assms in blast)
  then show thesis by (rule decodes_toE) (use that in blast)
qed

lemma io_element_decodes_103:
  assumes "element_fields_ok e"
  shows "decodes_to (encode_io_element_103 e (AsduType103_value (element_type_103 e)))
    (\<lambda>bs. decode_io_element_103 bs (AsduType103_value (element_type_103 e))) e"
proof (cases e)
  case (IoElement_IDENTIFICATION c v software)
  with assms show ?thesis
    by (intro decodes_toI [where ys = "c # map uint v @ map uint software"])
      (simp_all add: encode_io_element_103_def decode_io_element_103_defs slice_def uint_of_byte)
next
  case (IoElement_TIME_SYNCHRONIZATION t)
  then have "time_ok t" "time_size t = TimeSize_SEVEN" using assms by simp_all
  with time_bytes [of t] obtain ts where ts: "encode_time t TimeSize_SEVEN = Ok ts" "length ts = 7" "all_bytes ts"
    "\<And>rest. decode_time (wire ts @ rest) TimeSize_SEVEN = Ok t" by auto
  from ts(4) [of "[]"] have "decode_time (wire ts) TimeSize_SEVEN = Ok t" by simp
  with IoElement_TIME_SYNCHRONIZATION ts show ?thesis
    by (intro decodes_toI [OF _ ts(3)]) (simp_all add: encode_io_element_103_def decode_io_element_103_defs)
next
  case (IoElement_GENERIC_DATA r counter more_follows data)
  then have ok: "is_byte r" "length data \<le> 63" "\<forall>x\<in>set data. decodes_to (encode_identified_data x) decode_identified_data x"
    using assms by (auto intro: identified_data_decodes)
  from decodes_to_list [OF ok(3)] obtain ys where ys: "concatE encode_identified_data data = Ok ys" "all_bytes ys"
    "\<And>rest. repeat_decode decode_identified_data (length data) (wire ys @ rest) = Ok (data, rest)" by blast
  from IoElement_GENERIC_DATA ok(1) ys data_head_bits [OF ok(2), of counter more_follows] show ?thesis
    by (intro decodes_toI [where ys = "r # data_head counter more_follows (length data) # ys"])
      (simp_all add: encode_io_element_103_def decode_io_element_103_defs encode_generic_data_def uint_of_byte numeral_2_eq_2)
next
  case (IoElement_GENERIC_IDENTIFICATION r i counter more_follows data)
  then have ok: "is_byte r" "identification_ok i" "length data \<le> 63"
    "\<forall>x\<in>set data. decodes_to (encode_descriptive_data x) decode_descriptive_data x"
    using assms by (auto intro: descriptive_decodes)
  from decodes_to_list [OF ok(4)] obtain ys where ys: "concatE encode_descriptive_data data = Ok ys" "all_bytes ys"
    "\<And>rest. repeat_decode decode_descriptive_data (length data) (wire ys @ rest) = Ok (data, rest)" by blast
  from identification_decodes [OF ok(2)] obtain xs where xs: "encode_identification i = Ok xs" "all_bytes xs"
    "\<forall>rest. decode_identification (wire xs @ rest) = Ok (i, rest)" by (rule decodes_toE)
  have xs2: "length xs = 2"
    using xs(1) by (auto simp: encode_identification_def encode_value.simps zeros_def)
  have dec: "decode_identification (wire xs) = Ok (i, [])" using xs(3) by (metis append_Nil2)
  let ?ys = "r # xs @ data_head counter more_follows (length data) # ys"
  have "slice 1 3 (wire ?ys @ rest) = wire xs"
    "byte_at (wire ?ys @ rest) 3 = Ok (data_head counter more_follows (length data))"
    "drop 4 (wire ?ys @ rest) = wire ys @ rest" for rest
    using xs2 data_head_bits(1) [OF ok(3), of counter more_follows]
    by (simp_all add: slice_def byte_at_def nth_append uint_of_byte)
  with IoElement_GENERIC_IDENTIFICATION ok(1) ys xs dec data_head_bits [OF ok(3), of counter more_follows] show ?thesis
    by (intro decodes_toI [where ys = ?ys]) (simp_all add: encode_io_element_103_def decode_io_element_103_defs uint_of_byte)
next
  case (IoElement_GENERAL_COMMAND v r)
  then have ok: "typed_ok ValueType_DOUBLE v" "is_byte r" using assms by simp_all
  then obtain d where v: "v = DoubleV d" by (cases v) (auto simp: typed_ok_def)
  from IoElement_GENERAL_COMMAND ok v show ?thesis
    by (intro decodes_toI [where ys = "[DoubleValue103_value d, r]"])
      (simp_all add: encode_io_element_103_def decode_io_element_103_defs encode_value.simps zeros_def
        decode_value.simps decode_scalar_def uint_of_byte numeral_2_eq_2)
next
  case (IoElement_GENERIC_COMMAND r data)
  then have ok: "is_byte r" "length data \<le> 255"
    "\<forall>x\<in>set data. decodes_to (encode_identified_description x) decode_identified_description x"
    using assms by (auto intro: identified_description_decodes)
  from decodes_to_list [OF ok(3)] obtain ys where ys: "concatE encode_identified_description data = Ok ys" "all_bytes ys"
    "\<And>rest. repeat_decode decode_identified_description (length data) (wire ys @ rest) = Ok (data, rest)" by blast
  from IoElement_GENERIC_COMMAND ok(1,2) ys show ?thesis
    by (intro decodes_toI [where ys = "r # int (length data) # ys"])
      (simp_all add: encode_io_element_103_def decode_io_element_103_defs encode_generic_command_def uint_of_byte
        is_byte_num numeral_2_eq_2 unsigned_of_nat take_bit_nat_eq_self)
next
  case (IoElement_LIST_OF_RECORDED_DISTURBANCES f trip transmitted test other t)
  then have w: "word_ok f" and t: "time_ok t" "time_size t = TimeSize_SEVEN" using assms by simp_all
  from time_bytes [OF t(1)] t(2) obtain ts where ts: "encode_time t TimeSize_SEVEN = Ok ts" "length ts = 7" "all_bytes ts"
    "\<And>rest. decode_time (wire ts @ rest) TimeSize_SEVEN = Ok t" by auto
  from ts(4) [of "[]"] have dec: "decode_time (wire ts) TimeSize_SEVEN = Ok t" by simp
  define b where "b = (if other then 0x08 else 0x00) OR ((if test then 0x04 else 0x00) OR
    ((if transmitted then 0x02 else 0x00) OR (if trip then 0x01 else (0x00 :: int))))"
  have b: "is_byte b" "b AND 1 \<noteq> 0 \<longleftrightarrow> trip" "b AND 2 \<noteq> 0 \<longleftrightarrow> transmitted" "b AND 4 \<noteq> 0 \<longleftrightarrow> test" "b AND 8 \<noteq> 0 \<longleftrightarrow> other"
    by (simp_all add: b_def is_byte_def)
  let ?ys = "le_digits 2 f @ b # ts"
  have "byte_at (wire ?ys @ rest) 2 = Ok b" "slice 3 10 (wire ?ys @ rest) = wire ts" "take 2 (wire ?ys @ rest) = wire (le_digits 2 f)"
    "drop 10 (wire ?ys @ rest) = rest" for rest
    using ts(2) b(1) by (simp_all add: slice_def byte_at_def nth_append uint_of_byte)
  with IoElement_LIST_OF_RECORDED_DISTURBANCES word_bytes [OF w] ts(1,3) dec b show ?thesis
    by (intro decodes_toI [where ys = ?ys]) (simp_all add: encode_io_element_103_def decode_io_element_103_defs b_def [symmetric])
next
  case (IoElement_READY_FOR_TRANSMISSION_OF_DISTURBANCE_DATA f faults channels els interval t)
  then have w: "word_ok f" "word_ok faults" "word_ok els" "word_ok interval" "is_byte channels"
    and t: "time_ok t" "time_size t = TimeSize_FOUR" using assms by simp_all
  from time_bytes [OF t(1)] t(2) obtain ts where ts: "encode_time t TimeSize_FOUR = Ok ts" "length ts = 4" "all_bytes ts"
    "\<And>rest. decode_time (wire ts @ rest) TimeSize_FOUR = Ok t" by auto
  from ts(4) [of "[]"] have dec: "decode_time (wire ts) TimeSize_FOUR = Ok t" by simp
  let ?ys = "1 # le_digits 2 f @ le_digits 2 faults @ channels # le_digits 2 els @ le_digits 2 interval @ ts"
  have "slice 1 3 (wire ?ys @ rest) = wire (le_digits 2 f)" "slice 3 5 (wire ?ys @ rest) = wire (le_digits 2 faults)"
    "byte_at (wire ?ys @ rest) 5 = Ok channels" "slice 6 8 (wire ?ys @ rest) = wire (le_digits 2 els)"
    "slice 8 10 (wire ?ys @ rest) = wire (le_digits 2 interval)" "slice 10 14 (wire ?ys @ rest) = wire ts"
    "drop 14 (wire ?ys @ rest) = rest" for rest
    using ts(2) w(5) by (simp_all add: slice_def byte_at_def nth_append uint_of_byte)
  with IoElement_READY_FOR_TRANSMISSION_OF_DISTURBANCE_DATA w word_bytes w ts(1,3) dec show ?thesis
    by (intro decodes_toI [where ys = ?ys]) (simp_all add: encode_io_element_103_def decode_io_element_103_defs is_byte_num)
next
  case (IoElement_READY_FOR_TRANSMISSION_OF_A_CHANNEL f c v1 v2 v3)
  then have w: "word_ok f" and v: "self_ok v1" "self_ok v2" "self_ok v3" "get_value_type v1 = ValueType_REAL32"
    "get_value_type v2 = ValueType_REAL32" "get_value_type v3 = ValueType_REAL32"
    using assms by (simp_all add: typed_ok_def)
  from value_decodes [OF v(1)] v(4) obtain y1 where y1: "encode_value v1 None = Ok y1" "all_bytes y1"
    "\<And>rest. decode_value (wire y1 @ rest) ValueType_REAL32 = Ok (v1, rest)" by (auto elim: decodes_toE)
  from value_decodes [OF v(2)] v(5) obtain y2 where y2: "encode_value v2 None = Ok y2" "all_bytes y2"
    "\<And>rest. decode_value (wire y2 @ rest) ValueType_REAL32 = Ok (v2, rest)" by (auto elim: decodes_toE)
  from value_decodes [OF v(3)] v(6) obtain y3 where y3: "encode_value v3 None = Ok y3" "all_bytes y3"
    "\<And>rest. decode_value (wire y3 @ rest) ValueType_REAL32 = Ok (v3, rest)" by (auto elim: decodes_toE)
  let ?ys = "1 # le_digits 2 f @ Channel_value c # y1 @ y2 @ y3"
  have "slice 1 3 (wire ?ys @ rest) = wire (le_digits 2 f)" "byte_at (wire ?ys @ rest) 3 = Ok (Channel_value c)"
    "drop 4 (wire ?ys @ rest) = wire y1 @ wire y2 @ wire y3 @ rest" for rest
    by (simp_all add: slice_def byte_at_def nth_append uint_of_byte)
  with IoElement_READY_FOR_TRANSMISSION_OF_A_CHANNEL word_bytes [OF w] y1 y2 y3 show ?thesis
    by (intro decodes_toI [where ys = ?ys]) (simp_all add: encode_io_element_103_def decode_io_element_103_defs is_byte_num)
next
  case (IoElement_READY_FOR_TRANSMISSION_OF_TAGS f)
  then have w: "word_ok f" using assms by simp
  with IoElement_READY_FOR_TRANSMISSION_OF_TAGS word_bytes [OF w] show ?thesis
    by (intro decodes_toI [where ys = "0 # 0 # le_digits 2 f"])
      (simp_all add: encode_io_element_103_def decode_io_element_103_defs is_byte_num slice_def)
next
  case (IoElement_TRANSMISSION_OF_TAGS f position tags)
  then have w: "word_ok f" "word_ok position" "length tags \<le> 255" "\<forall>x\<in>set tags. decodes_to (encode_tag x) decode_tag x"
    using assms by (auto simp: typed_ok_def intro: tag_decodes)
  from decodes_to_list [OF w(4)] obtain ys where ys: "concatE encode_tag tags = Ok ys" "all_bytes ys"
    "\<And>rest. repeat_decode decode_tag (length tags) (wire ys @ rest) = Ok (tags, rest)" by blast
  let ?ys = "le_digits 2 f @ int (length tags) # le_digits 2 position @ ys"
  have "take 2 (wire ?ys @ rest) = wire (le_digits 2 f)" "byte_at (wire ?ys @ rest) 2 = Ok (int (length tags))"
    "slice 3 5 (wire ?ys @ rest) = wire (le_digits 2 position)" "drop 5 (wire ?ys @ rest) = wire ys @ rest" for rest
    using w(3) by (simp_all add: slice_def byte_at_def nth_append unsigned_of_nat take_bit_nat_eq_self)
  with IoElement_TRANSMISSION_OF_TAGS w(3) word_bytes w(1,2) ys show ?thesis
    by (intro decodes_toI [where ys = ?ys]) (simp_all add: encode_io_element_103_def decode_io_element_103_defs is_byte_num)
next
  case (IoElement_TRANSMISSION_OF_DISTURBANCE_VALUES f c n vs)
  then have w: "word_ok f" "word_ok n" "length vs \<le> 255"
    "\<forall>x\<in>set vs. decodes_to (encode_fixed x 0 16 True) decode_disturbance_value x"
    using assms by (auto intro: disturbance_value_decodes)
  from decodes_to_list [OF w(4)] obtain ys where ys: "concatE (\<lambda>v. encode_fixed v 0 16 True) vs = Ok ys" "all_bytes ys"
    "\<And>rest. repeat_decode decode_disturbance_value (length vs) (wire ys @ rest) = Ok (vs, rest)" by blast
  let ?ys = "1 # le_digits 2 f @ Channel_value c # int (length vs) # le_digits 2 n @ ys"
  have "slice 1 3 (wire ?ys @ rest) = wire (le_digits 2 f)" "byte_at (wire ?ys @ rest) 3 = Ok (Channel_value c)"
    "byte_at (wire ?ys @ rest) 4 = Ok (int (length vs))"
    "slice 5 7 (wire ?ys @ rest) = wire (le_digits 2 n)" "drop 7 (wire ?ys @ rest) = wire ys @ rest" for rest
    using w(3) by (simp_all add: slice_def byte_at_def nth_append uint_of_byte unsigned_of_nat take_bit_nat_eq_self)
  with IoElement_TRANSMISSION_OF_DISTURBANCE_VALUES w(3) word_bytes w(1,2) ys show ?thesis
    by (intro decodes_toI [where ys = ?ys]) (simp_all add: encode_io_element_103_def decode_io_element_103_defs is_byte_num)
next
  case (IoElement_GENERAL_INTERROGATION n)
  with assms show ?thesis
    by (intro decodes_toI [where ys = "[n]"])
      (simp_all add: encode_io_element_103_def decode_io_element_103_defs encode_scan_number_def uint_of_byte)
next
  case (IoElement_GENERAL_INTERROGATION_TERMINATION n)
  with assms show ?thesis
    by (intro decodes_toI [where ys = "[n]"])
      (simp_all add: encode_io_element_103_def decode_io_element_103_defs encode_scan_number_def uint_of_byte)
qed (use assms one_value_decodes order_decodes in
    \<open>simp_all add: encode_io_element_103_def [abs_def] decode_io_element_103_defs [abs_def]\<close>)


section \<open>What is left of the input\<close>

lemma decode_scalar_suffix: "decode_scalar data ty = Ok (v, rest) \<Longrightarrow> suffix rest data"
  by (cases ty) (auto simp: decode_scalar_def suffix_drop)

lemma decode_value_suffix:
  "decode_value data ty = Ok (v, rest) \<Longrightarrow> suffix rest data"
  "decode_values number byte_size ty data = Ok (vs, rest) \<Longrightarrow> suffix rest data"
proof (induction data ty and number byte_size ty data arbitrary: v rest and vs rest rule: decode_value_decode_values.induct)
  case (1 data ty)
  show ?case
  proof (cases "ty = ValueType_ARRAY")
    case True
    with "1.prems" obtain n k t vs b0 b1 b2 where r: "decode_values n k t (drop 3 data) = Ok (vs, rest)"
      and "byte_at data 0 = Ok b0" "ValueType_of b0 = Ok t" "byte_at data 1 = Ok b1" "byte_at data 2 = Ok b2"
      "n = nat (b2 AND 0x7F)" "k = (if t = ValueType_BITSTRING then (nat b1 + 7) div 8 else nat b1)"
      by (auto simp: decode_value.simps [of data] Let_def)
    with "1.IH" True have "suffix rest (drop 3 data)" by blast
    then show ?thesis by (meson suffix_drop suffix_order.trans)
  next
    case False
    with "1.prems" show ?thesis by (auto simp: decode_value.simps [of data] intro: decode_scalar_suffix)
  qed
next
  case (2 number byte_size ty data)
  show ?case
  proof (cases "number = 0")
    case True
    with "2.prems" show ?thesis by (simp add: decode_values.simps)
  next
    case False
    with "2.prems" obtain v r vs' where "decode_value (take byte_size data) ty = Ok (v, r)"
      and d: "decode_values (number - 1) byte_size ty (drop byte_size data) = Ok (vs', rest)"
      by (auto simp: decode_values.simps [of number])
    with "2.IH"(2) [OF False this(1) refl d] have "suffix rest (drop byte_size data)" by blast
    then show ?thesis by (meson suffix_drop suffix_order.trans)
  qed
qed

lemma repeat_decode_suffix':
  assumes "\<And>bs x rest. dec bs = Ok (x, rest) \<Longrightarrow> suffix rest bs" "repeat_decode dec n bs = Ok (xs, rest)"
  shows "suffix rest bs"
  using repeat_decode_suffix [OF _ assms(2)] assms(1) by (auto simp: suffix_def)

lemma suffix_of_drop: "suffix rest (drop k bs) \<Longrightarrow> suffix rest bs"
  by (meson suffix_drop suffix_order.trans)

lemma decode_identification_suffix: "decode_identification bs = Ok (i, rest) \<Longrightarrow> suffix rest bs"
  by (auto simp: decode_identification_def split: Value.splits dest: decode_value_suffix(1))

lemma decode_address_suffix: "decode_address bs = Ok (i, rest) \<Longrightarrow> suffix rest bs"
  by (auto simp: decode_address_def split: Value.splits dest: decode_value_suffix(1))

lemma decode_descriptive_data_suffix: "decode_descriptive_data bs = Ok (d, rest) \<Longrightarrow> suffix rest bs"
  by (auto simp: decode_descriptive_data_def dest!: decode_value_suffix(1) intro: suffix_of_drop)

lemma part_suffix:
  "decode_identified_data bs = Ok (x, rest) \<Longrightarrow> suffix rest bs"
  "decode_identified_description bs = Ok (y, rest) \<Longrightarrow> suffix rest bs"
  "decode_tag bs = Ok (z, rest) \<Longrightarrow> suffix rest bs"
  "decode_disturbance_value bs = Ok (f, rest) \<Longrightarrow> suffix rest bs"
  by (auto simp: decode_identified_data_def decode_identified_description_def decode_tag_def decode_disturbance_value_def
      dest!: decode_value_suffix(1) decode_identification_suffix decode_address_suffix decode_descriptive_data_suffix
      intro: suffix_order.trans suffix_drop)

lemma parts_suffix:
  "repeat_decode decode_identified_data n bs = Ok (xs, rest) \<Longrightarrow> suffix rest bs"
  "repeat_decode decode_identified_description n bs = Ok (ys, rest) \<Longrightarrow> suffix rest bs"
  "repeat_decode decode_tag n bs = Ok (zs, rest) \<Longrightarrow> suffix rest bs"
  "repeat_decode decode_disturbance_value n bs = Ok (fs, rest) \<Longrightarrow> suffix rest bs"
  "repeat_decode decode_descriptive_data n bs = Ok (ds, rest) \<Longrightarrow> suffix rest bs"
  by (rule repeat_decode_suffix', erule part_suffix decode_descriptive_data_suffix, assumption)+

lemma io_element_suffix_103:
  assumes "decode_io_element_103 bs n = Ok (e, rest)"
  shows "suffix rest bs"
proof -
  from assms obtain ty where ty: "decode_asdu_type_103 n = Ok ty" by (auto simp: decode_io_element_103_defs)
  show ?thesis
    using assms ty
    by (cases ty) (auto simp: decode_io_element_103_defs decode_one_value_def decode_order_def suffix_drop
        dest!: parts_suffix decode_value_suffix(1) intro: suffix_of_drop suffix_order.trans)
qed

interpretation el103: io_element_codec decode_io_element_103 encode_io_element_103 io_element_ok_103
proof unfold_locales
  show "decodes_to (encode_io_element_103 e ty) (\<lambda>bs. decode_io_element_103 bs ty) e"
    if "io_element_ok_103 ty e" for ty e
    using that io_element_decodes_103 [of e] by (auto simp: io_element_ok_103_def)
  show "\<exists>p. bs = p @ rest" if "decode_io_element_103 bs ty = Ok (e, rest)" for bs ty e rest
    using io_element_suffix_103 [OF that] by (simp add: suffix_def)
qed

section \<open>Data units that come back\<close>

fun cause_ok_103 :: "Cause103_or_other \<Rightarrow> bool" where
  "cause_ok_103 (KnownCause103 c) \<longleftrightarrow> True"
| "cause_ok_103 (OtherCause103 n) \<longleftrightarrow> n \<notin> Cause103_value ` set Cause103_members"

definition asdu_ok_103 :: "ASDU103 \<Rightarrow> bool" where
  "asdu_ok_103 asdu \<longleftrightarrow>
     cause_ok_103 (asdu103_cause asdu) \<and> (\<forall>io\<in>set (asdu103_ios asdu). address_ok (io103_address io)) \<and>
     asdu_ok encoder_103 io_element_ok_103 (lower_asdu_103 asdu)"

lemma decode_encode_cause_103:
  assumes "cause_ok_103 c"
  shows "decode_cause_103 (encode_cause_103 c) = c"
proof (cases c)
  case (OtherCause103 n)
  with assms have "\<exists>e. Cause103_of n = Raise e"
    using Cause103.of_Raise_iff [of n] by (simp add: Cause103_of_def)
  with OtherCause103 show ?thesis by (auto simp: decode_cause_103_def)
qed (simp add: decode_cause_103_def)

lemma decode_encode_io_address:
  assumes "address_ok a"
  shows "decode_io_address (encode_io_address a) = a"
proof -
  let ?f = "function_type a" and ?i = "information_number a"
  have r: "0 \<le> ?f" "?f < 256" using assms by (simp_all add: address_ok_def is_byte_def)
  have "?f OR push_bit 8 ?i = push_bit 8 ?i OR ?f" by (rule or.commute)
  also have "\<dots> = push_bit 8 ?i + ?f" using r by (intro or_disjoint_add [where n = 8]) (simp_all add: push_bit_eq_mult)
  finally have "?f OR push_bit 8 ?i = ?i * 256 + ?f" by (simp add: push_bit_eq_mult)
  with r show ?thesis by (cases a) (simp add: decode_io_address_def encode_io_address_def mask_mod drop_bit_eq_div)
qed

lemma asdu_roundtrip_103:
  assumes "asdu_ok_103 asdu"
  shows "\<exists>bs. encode_asdu_103 asdu = Ok bs \<and> (\<forall>rest. decode_asdu_103 (bs @ rest) = Ok (asdu, rest))"
proof -
  have cbs: "decode_io_element_cb encoder_103 = decode_io_element_103" "encode_io_element_cb encoder_103 = encode_io_element_103"
    by (simp_all add: encoder_103_def)
  from assms have ok: "asdu_ok encoder_103 io_element_ok_103 (lower_asdu_103 asdu)" "cause_ok_103 (asdu103_cause asdu)"
    "\<forall>io\<in>set (asdu103_ios asdu). address_ok (io103_address io)" by (simp_all add: asdu_ok_103_def)
  from el103.asdu_roundtrip [OF cbs ok(1)] obtain bs where
    bs: "encode_asdu_103 asdu = Ok bs"
    "\<And>rest. decode_asdu encoder_103 (bs @ rest) = Ok (lower_asdu_103 asdu, rest)"
    unfolding encode_asdu_103_def by blast
  have "map (\<lambda>io. \<lparr>io103_address = decode_io_address (encode_io_address (io103_address io)), io103_elements = io103_elements io\<rparr>)
      (asdu103_ios asdu) = asdu103_ios asdu"
    using ok(3) by (intro map_idI) (auto simp: decode_encode_io_address)
  with bs(2) have "decode_asdu_103 (bs @ rest) = Ok (asdu, rest)" for rest
    by (simp add: decode_asdu_103_def lower_asdu_103_def decode_encode_cause_103 [OF ok(2)] comp_def)
  with bs(1) show ?thesis by blast
qed

section \<open>Properties\<close>

text \<open>
  C23: every well-formed data unit of IEC 60870-5-103 is encoded, and decoded to
  itself, whatever bytes follow. Well-formed: the fields are in their ranges and of the types that the element has, a cause given
  as a number is not one that has a name, the value of descriptive data is an array, floats and fixed point numbers are ones
  that their fields hold exactly, and no encoding pads or retypes a value: arrays in an array have equal sizes, and values of
  the type UFIXED, which are decoded to the class FixedValue, do not occur.
\<close>

theorem asdu_103_codec:
  assumes "asdu_ok_103 asdu"
  shows "\<exists>bs. encode_asdu_103 asdu = Ok bs \<and> (\<forall>rest. decode_asdu_103 (bs @ rest) = Ok (asdu, rest))"
  by (rule asdu_roundtrip_103 [OF assms])

text \<open>A generic data unit with an array of two bitstrings.\<close>

definition example_generic :: ASDU103 where
  "example_generic =
     \<lparr>asdu103_type = I103_GENERIC_DATA, asdu103_cause = OtherCause103 77, asdu103_address = 5,
      asdu103_ios = [\<lparr>io103_address = \<lparr>function_type = 254, information_number = 245\<rparr>,
        io103_elements = [IoElement_GENERIC_DATA 9 False True
          [(\<lparr>group_id = 1, entry_id = 2\<rparr>, \<lparr>description = Description_VALUE_ARRAY,
            descriptive_value = ArrayValue ValueType_BITSTRING False
              [BitstringValue (replicate 8 True), BitstringValue (replicate 8 False)]\<rparr>)]]\<rparr>]\<rparr>"

lemma asdu_103_codec_witness:
  "\<exists>bs. encode_asdu_103 example_generic = Ok bs \<and> decode_asdu_103 (bs @ [1, 2]) = Ok (example_generic, [1, 2])"
proof -
  have "asdu_ok_103 example_generic"
    by (simp add: example_generic_def asdu_ok_103_def address_ok_def is_byte_def Cause103_members_def asdu_ok_def
        lower_asdu_103_def encoder_103_def asdu_is_sequence_def io_ok_def io_element_ok_103_def encode_io_address_def
        identification_ok_def descriptive_ok_def self_ok_def greedy_def max_default_def AsduType103_value.simps)
  from asdu_103_codec [OF this] show ?thesis by blast
qed

end
