(* ===== verification/Iec103_Driver.thy ===== *)
theory Iec103_Driver
  imports Iec103_Codec
begin

text \<open>
  The data of the driver, \<^verbatim>\<open>iec103/common.py\<close>, and how the master of \<^verbatim>\<open>iec103/master/__init__.py\<close>
  processes what it receives. The callbacks of the application are arguments, which return or raise;
  the calls that were made of them are part of the state.
\<close>

section \<open>Causes and data\<close>

datatype (plugins only: code size) DataCause103 =
    DataCause103_SPONTANEOUS | DataCause103_CYCLIC | DataCause103_TEST_MODE | DataCause103_GENERAL_INTERROGATION | DataCause103_LOCAL_OPERATION | DataCause103_REMOTE_OPERATION

fun DataCause103_value :: "DataCause103 \<Rightarrow> int" where
  "DataCause103_value DataCause103_SPONTANEOUS = Cause103_value Cause103_SPONTANEOUS"
| "DataCause103_value DataCause103_CYCLIC = Cause103_value Cause103_CYCLIC"
| "DataCause103_value DataCause103_TEST_MODE = Cause103_value Cause103_TEST_MODE"
| "DataCause103_value DataCause103_GENERAL_INTERROGATION = Cause103_value Cause103_GENERAL_INTERROGATION"
| "DataCause103_value DataCause103_LOCAL_OPERATION = Cause103_value Cause103_LOCAL_OPERATION"
| "DataCause103_value DataCause103_REMOTE_OPERATION = Cause103_value Cause103_REMOTE_OPERATION"

definition DataCause103_members :: "DataCause103 list" where
  "DataCause103_members =
     [DataCause103_SPONTANEOUS, DataCause103_CYCLIC, DataCause103_TEST_MODE, DataCause103_GENERAL_INTERROGATION, DataCause103_LOCAL_OPERATION, DataCause103_REMOTE_OPERATION]"

definition DataCause103_of :: "int \<Rightarrow> DataCause103 result" where
  "DataCause103_of = enum_lookup DataCause103_value DataCause103_members"

interpretation DataCause103: enumeration DataCause103_value DataCause103_members
proof unfold_locales
  show "x \<in> set DataCause103_members" for x by (cases x) (simp_all add: DataCause103_members_def)
  show "distinct (map DataCause103_value DataCause103_members)" by (simp add: DataCause103_members_def)
qed

datatype (plugins only: code size) GenericDataCause =
    GenericDataCause_SPONTANEOUS | GenericDataCause_CYCLIC | GenericDataCause_TEST_MODE | GenericDataCause_GENERAL_INTERROGATION | GenericDataCause_LOCAL_OPERATION | GenericDataCause_REMOTE_OPERATION | GenericDataCause_WRITE_ACK | GenericDataCause_WRITE_NACK | GenericDataCause_READ_ACK | GenericDataCause_READ_NACK | GenericDataCause_WRITE_CONFIRMATION

fun GenericDataCause_value :: "GenericDataCause \<Rightarrow> int" where
  "GenericDataCause_value GenericDataCause_SPONTANEOUS = Cause103_value Cause103_SPONTANEOUS"
| "GenericDataCause_value GenericDataCause_CYCLIC = Cause103_value Cause103_CYCLIC"
| "GenericDataCause_value GenericDataCause_TEST_MODE = Cause103_value Cause103_TEST_MODE"
| "GenericDataCause_value GenericDataCause_GENERAL_INTERROGATION = Cause103_value Cause103_GENERAL_INTERROGATION"
| "GenericDataCause_value GenericDataCause_LOCAL_OPERATION = Cause103_value Cause103_LOCAL_OPERATION"
| "GenericDataCause_value GenericDataCause_REMOTE_OPERATION = Cause103_value Cause103_REMOTE_OPERATION"
| "GenericDataCause_value GenericDataCause_WRITE_ACK = Cause103_value Cause103_GENERIC_WRITE_COMMAND"
| "GenericDataCause_value GenericDataCause_WRITE_NACK = Cause103_value Cause103_GENERIC_WRITE_COMMAND_NACK"
| "GenericDataCause_value GenericDataCause_READ_ACK = Cause103_value Cause103_GENERIC_READ_COMMAND"
| "GenericDataCause_value GenericDataCause_READ_NACK = Cause103_value Cause103_GENERIC_READ_COMMAND_NACK"
| "GenericDataCause_value GenericDataCause_WRITE_CONFIRMATION = Cause103_value Cause103_GENERIC_WRITE_CONFIRMATION"

definition GenericDataCause_members :: "GenericDataCause list" where
  "GenericDataCause_members =
     [GenericDataCause_SPONTANEOUS, GenericDataCause_CYCLIC, GenericDataCause_TEST_MODE, GenericDataCause_GENERAL_INTERROGATION, GenericDataCause_LOCAL_OPERATION, GenericDataCause_REMOTE_OPERATION, GenericDataCause_WRITE_ACK, GenericDataCause_WRITE_NACK, GenericDataCause_READ_ACK, GenericDataCause_READ_NACK, GenericDataCause_WRITE_CONFIRMATION]"

definition GenericDataCause_of :: "int \<Rightarrow> GenericDataCause result" where
  "GenericDataCause_of = enum_lookup GenericDataCause_value GenericDataCause_members"

interpretation GenericDataCause: enumeration GenericDataCause_value GenericDataCause_members
proof unfold_locales
  show "x \<in> set GenericDataCause_members" for x by (cases x) (simp_all add: GenericDataCause_members_def)
  show "distinct (map GenericDataCause_value GenericDataCause_members)" by (simp add: GenericDataCause_members_def)
qed

text \<open>\<open>DataCause | OtherCause\<close>\<close>

datatype 'c or_other = Known 'c | Other int

datatype (plugins only: code size) MeasurandType =
    M1_I_L2 | M1_U_L12 | M1_P | M1_Q | M2_I_L1 | M2_I_L2 | M2_I_L3 | M2_U_L1E | M2_U_L2E | M2_U_L3E | M2_P | M2_Q | M2_F

fun MeasurandType_value :: "MeasurandType \<Rightarrow> int \<times> nat" where
  "MeasurandType_value M1_I_L2 = (AsduType103_value I103_MEASURANDS_1, 0)"
| "MeasurandType_value M1_U_L12 = (AsduType103_value I103_MEASURANDS_1, 1)"
| "MeasurandType_value M1_P = (AsduType103_value I103_MEASURANDS_1, 2)"
| "MeasurandType_value M1_Q = (AsduType103_value I103_MEASURANDS_1, 3)"
| "MeasurandType_value M2_I_L1 = (AsduType103_value I103_MEASURANDS_2, 0)"
| "MeasurandType_value M2_I_L2 = (AsduType103_value I103_MEASURANDS_2, 1)"
| "MeasurandType_value M2_I_L3 = (AsduType103_value I103_MEASURANDS_2, 2)"
| "MeasurandType_value M2_U_L1E = (AsduType103_value I103_MEASURANDS_2, 3)"
| "MeasurandType_value M2_U_L2E = (AsduType103_value I103_MEASURANDS_2, 4)"
| "MeasurandType_value M2_U_L3E = (AsduType103_value I103_MEASURANDS_2, 5)"
| "MeasurandType_value M2_P = (AsduType103_value I103_MEASURANDS_2, 6)"
| "MeasurandType_value M2_Q = (AsduType103_value I103_MEASURANDS_2, 7)"
| "MeasurandType_value M2_F = (AsduType103_value I103_MEASURANDS_2, 8)"

definition MeasurandType_members :: "MeasurandType list" where
  "MeasurandType_members =
     [M1_I_L2, M1_U_L12, M1_P, M1_Q, M2_I_L1, M2_I_L2, M2_I_L3, M2_U_L1E, M2_U_L2E, M2_U_L3E, M2_P, M2_Q, M2_F]"

definition MeasurandType_of :: "int \<times> nat \<Rightarrow> MeasurandType result" where
  "MeasurandType_of x =
     (case find (\<lambda>m. MeasurandType_value m = x) MeasurandType_members of
        Some m \<Rightarrow> Ok m | None \<Rightarrow> Raise (ValueError ''not a valid MeasurandType''))"

text \<open>\<open>MeasurandValues\<close> has a dictionary: the list has its items in the order of their insertion.\<close>

datatype DataValue103 = OneValue Value | MeasurandValues "(MeasurandType \<times> Value) list"

record Data103 =
  data_asdu_address :: int
  data_io_address :: IoAddress
  data_cause :: "DataCause103 or_other"
  data_value :: DataValue103

record GenericData103 =
  generic_asdu_address :: int
  generic_io_address :: IoAddress
  generic_cause :: "GenericDataCause or_other"
  generic_identification :: Identification
  generic_description :: Description
  generic_value :: Value

text \<open>\<open>_try_decode_cause\<close> for an enumeration with the given lookup.\<close>

definition try_decode_cause :: "(int \<Rightarrow> 'c result) \<Rightarrow> Cause103_or_other \<Rightarrow> 'c or_other" where
  "try_decode_cause enum_of cause =
     (let val = encode_cause_103 cause in case enum_of val of Inr c \<Rightarrow> Known c | Inl _ \<Rightarrow> Other val)"

end
