(* ===== verification/Iec103_Master.thy ===== *)
theory Iec103_Master
  imports Iec103_Driver
begin

text \<open>
  The master of \<^verbatim>\<open>iec103/master/__init__.py\<close>: the requests that it sends, the processing of what it
  receives, and the class as a step relation. There are three kinds of requests, of which one each
  waits for its answer at a time; a caller that waits is a future with a number.
\<close>

section \<open>Requests\<close>

datatype RequestKind = Interrogate | Command | InterrogateGeneric

definition global_address :: IoAddress where
  "global_address = \<lparr>function_type = 255, information_number = 0\<rparr>"

definition generic_address :: IoAddress where
  "generic_address = \<lparr>function_type = 254, information_number = 245\<rparr>"

definition time_sync_asdu :: "Time \<Rightarrow> int \<Rightarrow> ASDU103" where
  "time_sync_asdu t address =
     \<lparr>asdu103_type = I103_TIME_SYNCHRONIZATION, asdu103_cause = KnownCause103 Cause103_TIME_SYNCHRONIZATION,
      asdu103_address = address,
      asdu103_ios = [\<lparr>io103_address = global_address, io103_elements = [IoElement_TIME_SYNCHRONIZATION t]\<rparr>]\<rparr>"

definition interrogate_asdu :: "int \<Rightarrow> int \<Rightarrow> ASDU103" where
  "interrogate_asdu address scan_number =
     \<lparr>asdu103_type = I103_GENERAL_INTERROGATION, asdu103_cause = KnownCause103 Cause103_GENERAL_INTERROGATION,
      asdu103_address = address,
      asdu103_ios = [\<lparr>io103_address = global_address, io103_elements = [IoElement_GENERAL_INTERROGATION scan_number]\<rparr>]\<rparr>"

definition command_asdu :: "int \<Rightarrow> IoAddress \<Rightarrow> DoubleValue103 \<Rightarrow> int \<Rightarrow> ASDU103" where
  "command_asdu address io_addr v return_identifier =
     \<lparr>asdu103_type = I103_GENERAL_COMMAND, asdu103_cause = KnownCause103 Cause103_GENERAL_COMMAND,
      asdu103_address = address,
      asdu103_ios = [\<lparr>io103_address = io_addr, io103_elements = [IoElement_GENERAL_COMMAND (DoubleV v) return_identifier]\<rparr>]\<rparr>"

definition interrogate_generic_asdu :: "int \<Rightarrow> int \<Rightarrow> ASDU103" where
  "interrogate_generic_asdu address return_identifier =
     \<lparr>asdu103_type = I103_GENERIC_COMMAND, asdu103_cause = KnownCause103 Cause103_GENERAL_INTERROGATION,
      asdu103_address = address,
      asdu103_ios = [\<lparr>io103_address = generic_address, io103_elements = [IoElement_GENERIC_COMMAND return_identifier []]\<rparr>]\<rparr>"

section \<open>The state\<close>

text \<open>
  For each kind, \<open>m_current\<close> has the identifier and the future of the request that waits, if any.
  \<open>m_results\<close> has what the futures were set to, \<open>m_events\<close> the calls of the callbacks, \<open>m_sent\<close> what
  was given to the connection. \<open>m_requests\<close> and \<open>m_received\<close> are a history: for every future its
  kind, identifier, and how many data units had been received before it, and all that were received.
\<close>

datatype Answer = Answered bool | Unanswered exn | Abandoned

datatype Event103 = DataEvent Data103 | GenericEvent GenericData103

record Master103 =
  m_next_id :: nat
  m_current :: "RequestKind \<Rightarrow> (int \<times> nat) option"
  m_results :: "nat \<Rightarrow> Answer option"
  m_events :: "Event103 list"
  m_sent :: "bytes list"
  m_open :: bool
  m_requests :: "(RequestKind \<times> int \<times> nat) list"
  m_received :: "ASDU103 list"

definition init_master_103 :: Master103 where
  "init_master_103 =
     \<lparr>m_next_id = 0, m_current = Map.empty, m_results = Map.empty, m_events = [], m_sent = [], m_open = True,
      m_requests = [], m_received = []\<rparr>"

definition m_done :: "Master103 \<Rightarrow> nat \<Rightarrow> bool" where
  "m_done m f \<longleftrightarrow> m_results m f \<noteq> None"

text \<open>\<open>_try_set_result\<close> and \<open>_try_set_exception\<close> on the future of a kind.\<close>

definition try_set :: "RequestKind \<Rightarrow> Answer \<Rightarrow> Master103 \<Rightarrow> Master103" where
  "try_set k a m =
     (case m_current m k of
        None \<Rightarrow> m
      | Some (_, f) \<Rightarrow> if m_done m f then m else m\<lparr>m_results := (m_results m)(f \<mapsto> a)\<rparr>)"

text \<open>
  A request up to its first suspension: it takes an identifier, and if its data unit can be encoded
  it gets a future and is given to the connection. Only one of a kind holds the lock.
\<close>

definition m_request :: "RequestKind \<Rightarrow> (int \<Rightarrow> ASDU103) \<Rightarrow> Master103 \<Rightarrow> nat result \<times> Master103" where
  "m_request k asdu_of m =
     (if \<not> m_open m then (Raise ConnectionError, m)
      else let i = int (m_next_id m mod 0x100); m = m\<lparr>m_next_id := m_next_id m + 1\<rparr>; f = length (m_requests m)
        in (case encode_asdu_103 (asdu_of i) of
              Inl e \<Rightarrow> (Raise e, m)
            | Inr data \<Rightarrow>
                (Ok f, m\<lparr>m_current := (m_current m)(k \<mapsto> (i, f)), m_sent := m_sent m @ [data],
                   m_requests := m_requests m @ [(k, i, length (m_received m))]\<rparr>)))"

definition m_time_sync :: "Time \<Rightarrow> int \<Rightarrow> Master103 \<Rightarrow> unit result \<times> Master103" where
  "m_time_sync t address m =
     (if \<not> m_open m then (Raise ConnectionError, m)
      else (case encode_asdu_103 (time_sync_asdu t address) of
              Inl e \<Rightarrow> (Raise e, m)
            | Inr data \<Rightarrow> (Ok (), m\<lparr>m_sent := m_sent m @ [data]\<rparr>)))"

text \<open>
  The end of a request: its future is done, or the caller gives up or sending fails, where the future
  is not used any more.
\<close>

definition m_finish :: "RequestKind \<Rightarrow> Master103 \<Rightarrow> Master103" where
  "m_finish k m = (let m = try_set k Abandoned m in m\<lparr>m_current := (m_current m)(k := None)\<rparr>)"

section \<open>Processing of received data units\<close>

text \<open>Handlers may raise: the rest of a data unit is then not processed.\<close>

type_synonym handler = "Master103 \<Rightarrow> unit result \<times> Master103"

definition pass :: handler where
  "pass m = (Ok (), m)"

primrec for_each :: "('a \<Rightarrow> handler) \<Rightarrow> 'a list \<Rightarrow> handler" where
  "for_each h [] m = (Ok (), m)"
| "for_each h (x # xs) m = (case h x m of (Inl e, m) \<Rightarrow> (Raise e, m) | (Inr _, m) \<Rightarrow> for_each h xs m)"

definition with_result :: "'a result \<Rightarrow> ('a \<Rightarrow> handler) \<Rightarrow> handler" where
  "with_result r h m = (case r of Inl e \<Rightarrow> (Raise e, m) | Inr x \<Rightarrow> h x m)"

type_synonym 'd callback = "('d \<Rightarrow> unit result) option"

definition call_data_cb :: "Data103 callback \<Rightarrow> Data103 \<Rightarrow> handler" where
  "call_data_cb cb d m =
     (case cb of None \<Rightarrow> (Ok (), m) | Some f \<Rightarrow> (f d, m\<lparr>m_events := m_events m @ [DataEvent d]\<rparr>))"

definition call_generic_cb :: "GenericData103 callback \<Rightarrow> GenericData103 \<Rightarrow> handler" where
  "call_generic_cb cb d m =
     (case cb of None \<Rightarrow> (Ok (), m) | Some f \<Rightarrow> (f d, m\<lparr>m_events := m_events m @ [GenericEvent d]\<rparr>))"

definition data_103 :: "Cause103_or_other \<Rightarrow> int \<Rightarrow> IoAddress \<Rightarrow> DataValue103 \<Rightarrow> Data103" where
  "data_103 cause address io_addr v =
     \<lparr>data_asdu_address = address, data_io_address = io_addr,
      data_cause = try_decode_cause DataCause103_of cause, data_value = v\<rparr>"

fun value_supplementary :: "Value \<Rightarrow> int result" where
  "value_supplementary (DoubleWithTimeValue _ _ s) = Ok s"
| "value_supplementary (DoubleWithRelativeTimeValue _ _ _ _ s) = Ok s"
| "value_supplementary _ = Raise (AttributeError ''supplementary'')"

text \<open>\<open>number == self._..._req_id\<close>, where there may be no request.\<close>

definition is_current_id :: "RequestKind \<Rightarrow> int \<Rightarrow> Master103 \<Rightarrow> bool" where
  "is_current_id k i m \<longleftrightarrow> (case m_current m k of None \<Rightarrow> False | Some (j, _) \<Rightarrow> i = j)"

definition process_TIME_TAGGED_MESSAGE ::
  "Data103 callback \<Rightarrow> Cause103_or_other \<Rightarrow> int \<Rightarrow> IoAddress \<Rightarrow> IoElement103 \<Rightarrow> handler" where
  "process_TIME_TAGGED_MESSAGE cb cause address io_addr element =
     with_result (element_value element) (\<lambda>v.
       if cause = KnownCause103 Cause103_GENERAL_COMMAND
       then with_result (value_supplementary v) (\<lambda>s m.
              (Ok (), if is_current_id Command s m then try_set Command (Answered True) m else m))
       else if cause = KnownCause103 Cause103_GENERAL_COMMAND_NACK
       then with_result (value_supplementary v) (\<lambda>s m.
              (Ok (), if is_current_id Command s m then try_set Command (Answered False) m else m))
       else call_data_cb cb (data_103 cause address io_addr (OneValue v)))"

definition process_one_value ::
  "Data103 callback \<Rightarrow> Cause103_or_other \<Rightarrow> int \<Rightarrow> IoAddress \<Rightarrow> IoElement103 \<Rightarrow> handler" where
  "process_one_value cb cause address io_addr element =
     with_result (element_value element) (\<lambda>v. call_data_cb cb (data_103 cause address io_addr (OneValue v)))"

text \<open>The measurands of a type, numbered from 0: more than the enumeration has raise.\<close>

definition measurand_values :: "AsduType103 \<Rightarrow> IoElement103 list \<Rightarrow> (MeasurandType \<times> Value) list result" where
  "measurand_values ty elements =
     mapE (\<lambda>(i, element). bindE (MeasurandType_of (AsduType103_value ty, i)) (\<lambda>t.
       bindE (element_value element) (\<lambda>v. Ok (t, v)))) (enumerate 0 elements)"

definition process_MEASURANDS ::
  "Data103 callback \<Rightarrow> AsduType103 \<Rightarrow> Cause103_or_other \<Rightarrow> int \<Rightarrow> IoAddress \<Rightarrow> IoElement103 list \<Rightarrow> handler" where
  "process_MEASURANDS cb ty cause address io_addr elements =
     with_result (measurand_values ty elements) (\<lambda>vs.
       call_data_cb cb (data_103 cause address io_addr (MeasurandValues vs)))"

definition process_GENERAL_INTERROGATION_TERMINATION :: "IoElement103 \<Rightarrow> handler" where
  "process_GENERAL_INTERROGATION_TERMINATION element =
     with_result (element_scan_number element) (\<lambda>n m.
       (Ok (), if is_current_id Interrogate n m then try_set Interrogate (Answered True) m else m))"

fun generic_parts :: "IoElement103 \<Rightarrow> (int \<times> (Identification \<times> DescriptiveData) list) result" where
  "generic_parts (IoElement_GENERIC_DATA r _ _ data) = Ok (r, data)"
| "generic_parts _ = Raise (AttributeError ''data'')"

definition process_GENERIC_DATA ::
  "GenericData103 callback \<Rightarrow> Cause103_or_other \<Rightarrow> int \<Rightarrow> IoAddress \<Rightarrow> IoElement103 \<Rightarrow> handler" where
  "process_GENERIC_DATA cb cause address io_addr element =
     with_result (generic_parts element) (\<lambda>(r, data).
       if cause = KnownCause103 Cause103_TERMINATION_OF_GENERAL_INTERROGATION
       then (\<lambda>m. (Ok (), if is_current_id InterrogateGeneric r m
              then try_set InterrogateGeneric (Answered True) m else m))
       else for_each (\<lambda>(i, d). call_generic_cb cb
              \<lparr>generic_asdu_address = address, generic_io_address = io_addr,
               generic_cause = try_decode_cause GenericDataCause_of cause, generic_identification = i,
               generic_description = description d, generic_value = descriptive_value d\<rparr>) data)"

text \<open>The two dictionaries of handlers.\<close>

definition process_single ::
  "Data103 callback \<Rightarrow> GenericData103 callback \<Rightarrow> AsduType103 \<Rightarrow> Cause103_or_other \<Rightarrow> int \<Rightarrow> IoAddress \<Rightarrow>
    (IoElement103 \<Rightarrow> handler) option" where
  "process_single data_cb generic_cb ty cause address io_addr =
     (case ty of
        I103_TIME_TAGGED_MESSAGE \<Rightarrow> Some (process_TIME_TAGGED_MESSAGE data_cb cause address io_addr)
      | I103_TIME_TAGGED_MESSAGE_WITH_RELATIVE_TIME \<Rightarrow> Some (process_one_value data_cb cause address io_addr)
      | I103_TIME_TAGGED_MEASURANDS_WITH_RELATIVE_TIME \<Rightarrow> Some (process_one_value data_cb cause address io_addr)
      | I103_IDENTIFICATION \<Rightarrow> Some (\<lambda>_. pass)
      | I103_TIME_SYNCHRONIZATION \<Rightarrow> Some (\<lambda>_. pass)
      | I103_GENERAL_INTERROGATION_TERMINATION \<Rightarrow> Some process_GENERAL_INTERROGATION_TERMINATION
      | I103_GENERIC_DATA \<Rightarrow> Some (process_GENERIC_DATA generic_cb cause address io_addr)
      | I103_GENERIC_IDENTIFICATION \<Rightarrow> Some (\<lambda>_. pass)
      | I103_READY_FOR_TRANSMISSION_OF_DISTURBANCE_DATA \<Rightarrow> Some (\<lambda>_. pass)
      | I103_READY_FOR_TRANSMISSION_OF_A_CHANNEL \<Rightarrow> Some (\<lambda>_. pass)
      | I103_READY_FOR_TRANSMISSION_OF_TAGS \<Rightarrow> Some (\<lambda>_. pass)
      | I103_TRANSMISSION_OF_TAGS \<Rightarrow> Some (\<lambda>_. pass)
      | I103_TRANSMISSION_OF_DISTURBANCE_VALUES \<Rightarrow> Some (\<lambda>_. pass)
      | I103_END_OF_TRANSMISSION \<Rightarrow> Some (\<lambda>_. pass)
      | _ \<Rightarrow> None)"

definition process_multiple ::
  "Data103 callback \<Rightarrow> AsduType103 \<Rightarrow> Cause103_or_other \<Rightarrow> int \<Rightarrow> IoAddress \<Rightarrow> (IoElement103 list \<Rightarrow> handler) option" where
  "process_multiple data_cb ty cause address io_addr =
     (case ty of
        I103_MEASURANDS_1 \<Rightarrow> Some (process_MEASURANDS data_cb ty cause address io_addr)
      | I103_MEASURANDS_2 \<Rightarrow> Some (process_MEASURANDS data_cb ty cause address io_addr)
      | I103_LIST_OF_RECORDED_DISTURBANCES \<Rightarrow> Some (\<lambda>_. pass)
      | _ \<Rightarrow> None)"

definition process_io :: "Data103 callback \<Rightarrow> GenericData103 callback \<Rightarrow> ASDU103 \<Rightarrow> IO103 \<Rightarrow> handler" where
  "process_io data_cb generic_cb asdu io =
     (case process_single data_cb generic_cb (asdu103_type asdu) (asdu103_cause asdu) (asdu103_address asdu)
             (io103_address io) of
        Some h \<Rightarrow> for_each h (io103_elements io)
      | None \<Rightarrow>
          (case process_multiple data_cb (asdu103_type asdu) (asdu103_cause asdu) (asdu103_address asdu)
                  (io103_address io) of
             Some h \<Rightarrow> h (io103_elements io)
           | None \<Rightarrow> (\<lambda>m. (Raise (ValueError ''unsupported asdu type''), m))))"

text \<open>The end of the receiving loop.\<close>

definition m_close :: "Master103 \<Rightarrow> Master103" where
  "m_close m =
     (let x = Unanswered ConnectionError
      in try_set InterrogateGeneric x (try_set Command x (try_set Interrogate x (m\<lparr>m_open := False\<rparr>))))"

text \<open>One turn of the receiving loop: a data unit of an unknown type is ignored, any other error ends it.\<close>

definition m_receive :: "Data103 callback \<Rightarrow> GenericData103 callback \<Rightarrow> bytes \<Rightarrow> Master103 \<Rightarrow> Master103" where
  "m_receive data_cb generic_cb data m =
     (case decode_asdu_103 data of
        Inl (AsduTypeError _) \<Rightarrow> m
      | Inl _ \<Rightarrow> m_close m
      | Inr (asdu, _) \<Rightarrow>
          (case for_each (process_io data_cb generic_cb asdu) (asdu103_ios asdu) (m\<lparr>m_received := m_received m @ [asdu]\<rparr>) of
             (Inl _, m) \<Rightarrow> m_close m
           | (Inr _, m) \<Rightarrow> m))"

section \<open>The class as a step relation\<close>

inductive m_step :: "Master103 \<Rightarrow> Master103 \<Rightarrow> bool" where
  time_sync: "m_step m (snd (m_time_sync t address m))"
| interrogate: "m_current m Interrogate = None \<Longrightarrow> m_step m (snd (m_request Interrogate (interrogate_asdu address) m))"
| command: "m_current m Command = None \<Longrightarrow> m_step m (snd (m_request Command (command_asdu address io_addr v) m))"
| interrogate_generic: "m_current m InterrogateGeneric = None \<Longrightarrow>
    m_step m (snd (m_request InterrogateGeneric (interrogate_generic_asdu address) m))"
| finish: "m_step m (m_finish k m)"
| receive: "m_open m \<Longrightarrow> m_step m (m_receive data_cb generic_cb data m)"
| close: "m_step m (m_close m)"

abbreviation m_steps :: "Master103 \<Rightarrow> Master103 \<Rightarrow> bool" where
  "m_steps \<equiv> m_step\<^sup>*\<^sup>*"

section \<open>What handlers keep\<close>

text \<open>A handler keeps a predicate whether it raises or not.\<close>

definition keeps :: "(Master103 \<Rightarrow> bool) \<Rightarrow> handler \<Rightarrow> bool" where
  "keeps P h \<longleftrightarrow> (\<forall>m. P m \<longrightarrow> P (snd (h m)))"

named_theorems keepsI

lemma keepsD: "keeps P h \<Longrightarrow> P m \<Longrightarrow> h m = (r, m') \<Longrightarrow> P m'"
  by (metis keeps_def snd_conv)

lemma keeps_const [keepsI]: "keeps P (Pair r)"
  by (simp add: keeps_def)

lemma keeps_pass [keepsI]: "keeps P pass"
  by (simp add: keeps_def pass_def)

lemma keeps_with_result [keepsI]: "(\<And>x. r = Ok x \<Longrightarrow> keeps P (h x)) \<Longrightarrow> keeps P (with_result r h)"
  by (auto simp: keeps_def with_result_def split: sum.splits)

lemma keeps_for_each [keepsI]: "(\<And>x. x \<in> set xs \<Longrightarrow> keeps P (h x)) \<Longrightarrow> keeps P (for_each h xs)"
proof (induction xs)
  case (Cons x xs)
  then have x: "keeps P (h x)" and xs: "keeps P (for_each h xs)" by simp_all
  have "P (snd (for_each h (x # xs) m))" if "P m" for m
  proof (cases "h x m")
    case (Pair r m')
    with keepsD [OF x that] xs show ?thesis by (cases r) (auto simp: keeps_def)
  qed
  then show ?case by (simp add: keeps_def)
qed (simp add: keeps_def)

definition event_free :: "(Master103 \<Rightarrow> bool) \<Rightarrow> bool" where
  "event_free P \<longleftrightarrow> (\<forall>m e. P m \<longrightarrow> P (m\<lparr>m_events := e\<rparr>))"

lemma keeps_callbacks [keepsI]:
  "event_free P \<Longrightarrow> keeps P (call_data_cb cb d)"
  "event_free P \<Longrightarrow> keeps P (call_generic_cb cb' d')"
  by (auto simp: keeps_def event_free_def call_data_cb_def call_generic_cb_def split: option.splits)

section \<open>What answers a request\<close>

text \<open>The data units that answer a request of a kind with an identifier, positively or not.\<close>

definition element_answers :: "RequestKind \<Rightarrow> int \<Rightarrow> IoElement103 \<Rightarrow> bool" where
  "element_answers k i e =
     (case k of
        Interrogate \<Rightarrow> element_scan_number e = Ok i
      | Command \<Rightarrow> bindE (element_value e) value_supplementary = Ok i
      | InterrogateGeneric \<Rightarrow> bindE (generic_parts e) (\<lambda>(r, _). Ok r) = Ok i)"

definition answers :: "RequestKind \<Rightarrow> int \<Rightarrow> bool \<Rightarrow> ASDU103 \<Rightarrow> bool" where
  "answers k i b asdu \<longleftrightarrow>
     (case k of
        Interrogate \<Rightarrow> asdu103_type asdu = I103_GENERAL_INTERROGATION_TERMINATION \<and> b
      | Command \<Rightarrow> asdu103_type asdu = I103_TIME_TAGGED_MESSAGE \<and>
          asdu103_cause asdu = KnownCause103 (if b then Cause103_GENERAL_COMMAND else Cause103_GENERAL_COMMAND_NACK)
      | InterrogateGeneric \<Rightarrow> asdu103_type asdu = I103_GENERIC_DATA \<and> b \<and>
          asdu103_cause asdu = KnownCause103 Cause103_TERMINATION_OF_GENERAL_INTERROGATION) \<and>
     list_ex (\<lambda>io. list_ex (element_answers k i) (io103_elements io)) (asdu103_ios asdu)"

definition answered_by :: "RequestKind \<times> int \<times> nat \<Rightarrow> bool \<Rightarrow> ASDU103 list \<Rightarrow> bool" where
  "answered_by = (\<lambda>(k, i, n) b received. list_ex (answers k i b) (drop n received))"

lemma answered_by_append: "answered_by r b received \<Longrightarrow> answered_by r b (received @ later)"
  by (cases r) (auto simp: answered_by_def list_ex_iff)

section \<open>The invariant\<close>

definition waits_ok :: "Master103 \<Rightarrow> bool" where
  "waits_ok m \<longleftrightarrow> (\<forall>k i f. m_current m k = Some (i, f) \<longrightarrow>
     f < length (m_requests m) \<and> (\<exists>n. m_requests m ! f = (k, i, n)))"

definition results_ok :: "Master103 \<Rightarrow> bool" where
  "results_ok m \<longleftrightarrow> (\<forall>f. m_done m f \<longrightarrow> f < length (m_requests m)) \<and>
     (\<forall>f b. m_results m f = Some (Answered b) \<longrightarrow> answered_by (m_requests m ! f) b (m_received m))"

definition none_lost :: "Master103 \<Rightarrow> bool" where
  "none_lost m \<longleftrightarrow> (\<forall>f<length (m_requests m). m_done m f \<or>
     (m_open m \<and> (\<exists>i. m_current m (fst (m_requests m ! f)) = Some (i, f))))"

definition counts_ok :: "Master103 \<Rightarrow> bool" where
  "counts_ok m \<longleftrightarrow> (\<forall>(k, i, n)\<in>set (m_requests m). n \<le> length (m_received m))"

definition master_ok :: "Master103 \<Rightarrow> bool" where
  "master_ok m \<longleftrightarrow> waits_ok m \<and> results_ok m \<and> none_lost m \<and> counts_ok m"

lemma try_set_same [simp]:
  "m_current (try_set k a m) = m_current m" "m_requests (try_set k a m) = m_requests m"
  "m_received (try_set k a m) = m_received m" "m_open (try_set k a m) = m_open m"
  "m_sent (try_set k a m) = m_sent m" "m_events (try_set k a m) = m_events m" "m_next_id (try_set k a m) = m_next_id m"
  by (simp_all add: try_set_def split: option.splits)

lemma try_set_results:
  "m_results (try_set k a m) f =
     (case m_current m k of Some (_, g) \<Rightarrow> if f = g \<and> \<not> m_done m f then Some a else m_results m f | None \<Rightarrow> m_results m f)"
  by (auto simp: try_set_def split: option.splits)

lemma try_set_done: "m_done (try_set k a m) f \<longleftrightarrow> m_done m f \<or> (\<exists>i. m_current m k = Some (i, f))"
  by (auto simp: m_done_def try_set_results split: option.splits)

lemma try_set_master_ok:
  assumes "master_ok m"
    and "\<And>b i f. a = Answered b \<Longrightarrow> m_current m k = Some (i, f) \<Longrightarrow> answered_by (m_requests m ! f) b (m_received m)"
  shows "master_ok (try_set k a m)"
proof -
  have w: "waits_ok m" and r: "results_ok m" and l: "none_lost m" and c: "counts_ok m" using assms(1) by (simp_all add: master_ok_def)
  have "waits_ok (try_set k a m)" using w by (simp add: waits_ok_def)
  moreover have "counts_ok (try_set k a m)" using c by (simp add: counts_ok_def)
  moreover have "none_lost (try_set k a m)" using l by (auto simp: none_lost_def try_set_done)
  moreover have "results_ok (try_set k a m)"
    using r w assms(2) by (auto simp: results_ok_def try_set_done try_set_results waits_ok_def split: option.splits if_splits)
  ultimately show ?thesis by (simp add: master_ok_def)
qed

lemma init_master_ok: "master_ok init_master_103"
  by (simp add: master_ok_def waits_ok_def results_ok_def none_lost_def counts_ok_def init_master_103_def m_done_def)

lemma m_request_ok:
  assumes "master_ok m" "m_current m k = None"
  shows "master_ok (snd (m_request k asdu_of m))"
proof (cases "m_open m \<and> (\<exists>data. encode_asdu_103 (asdu_of (int (m_next_id m mod 0x100))) = Ok data)")
  case False
  with assms(1) show ?thesis
    by (auto simp: m_request_def Let_def master_ok_def waits_ok_def results_ok_def none_lost_def counts_ok_def m_done_def
        split: sum.splits)
next
  case True
  then obtain data where data: "m_open m" "encode_asdu_103 (asdu_of (int (m_next_id m mod 0x100))) = Ok data" by blast
  let ?i = "int (m_next_id m mod 0x100)" and ?f = "length (m_requests m)"
  let ?m = "m\<lparr>m_next_id := m_next_id m + 1, m_current := (m_current m)(k \<mapsto> (?i, ?f)), m_sent := m_sent m @ [data],
     m_requests := m_requests m @ [(k, ?i, length (m_received m))]\<rparr>"
  have eq: "snd (m_request k asdu_of m) = ?m" using data by (simp add: m_request_def Let_def)
  have w: "waits_ok m" and r: "results_ok m" and l: "none_lost m" and c: "counts_ok m"
    using assms(1) by (simp_all add: master_ok_def)
  have "waits_ok ?m" using w by (fastforce simp: waits_ok_def nth_append)
  moreover have "results_ok ?m" using r by (fastforce simp: results_ok_def nth_append m_done_def)
  moreover have "counts_ok ?m" using c by (auto simp: counts_ok_def)
  moreover have "none_lost ?m"
    using l data(1) assms(2) by (fastforce simp: none_lost_def nth_append m_done_def less_Suc_eq)
  ultimately show ?thesis unfolding eq by (simp add: master_ok_def)
qed

lemma m_time_sync_ok: "master_ok m \<Longrightarrow> master_ok (snd (m_time_sync t address m))"
  by (auto simp: m_time_sync_def master_ok_def waits_ok_def results_ok_def none_lost_def counts_ok_def m_done_def
      split: sum.splits)

lemma m_finish_ok:
  assumes "master_ok m"
  shows "master_ok (m_finish k m)"
proof -
  let ?m = "try_set k Abandoned m" and ?n = "m_finish k m"
  have "master_ok ?m" using assms by (intro try_set_master_ok) simp_all
  then have w: "waits_ok ?m" and r: "results_ok ?m" and l: "none_lost ?m" and c: "counts_ok ?m"
    by (simp_all add: master_ok_def)
  have eq: "m_current ?n = (m_current m)(k := None)" "m_requests ?n = m_requests m" "m_received ?n = m_received m"
    "m_results ?n = m_results ?m" "m_open ?n = m_open m"
    by (simp_all add: m_finish_def Let_def)
  then have d: "m_done ?n = m_done ?m" by (simp add: m_done_def fun_eq_iff)
  have k: "m_current m k = Some (i, f) \<Longrightarrow> m_done ?m f" for i f by (simp add: try_set_done)
  have "waits_ok ?n" using w by (simp add: waits_ok_def eq)
  moreover have "results_ok ?n" using r by (simp add: results_ok_def eq d)
  moreover have "counts_ok ?n" using c by (simp add: counts_ok_def eq)
  moreover have "none_lost ?n" using l k by (auto simp: none_lost_def eq d)
  ultimately show ?thesis by (simp add: master_ok_def)
qed

lemma m_close_ok:
  assumes "master_ok m"
  shows "master_ok (m_close m)"
proof -
  let ?m = "m_close m"
  have w: "waits_ok m" and r: "results_ok m" and l: "none_lost m" and c: "counts_ok m"
    using assms by (simp_all add: master_ok_def)
  have eq: "m_current ?m = m_current m" "m_requests ?m = m_requests m" "m_received ?m = m_received m"
    by (simp_all add: m_close_def Let_def)
  have d: "m_done ?m f \<longleftrightarrow> m_done m f \<or> (\<exists>k i. m_current m k = Some (i, f))" for f
  proof -
    have "(\<exists>k i. m_current m k = Some (i, f)) \<longleftrightarrow> (\<exists>i. m_current m Interrogate = Some (i, f)) \<or>
        (\<exists>i. m_current m Command = Some (i, f)) \<or> (\<exists>i. m_current m InterrogateGeneric = Some (i, f))"
      by (metis RequestKind.exhaust)
    moreover have "m_done (m\<lparr>m_open := False\<rparr>) f = m_done m f" by (simp add: m_done_def)
    ultimately show ?thesis by (auto simp: m_close_def Let_def try_set_done)
  qed
  have a: "m_results ?m f = Some (Answered b) \<Longrightarrow> m_results m f = Some (Answered b)" for f b
    by (auto simp: m_close_def Let_def try_set_results split: option.splits if_splits)
  have "waits_ok ?m" using w by (simp add: waits_ok_def eq)
  moreover have "counts_ok ?m" using c by (simp add: counts_ok_def eq)
  moreover have "results_ok ?m" using r w a by (auto simp: results_ok_def eq d waits_ok_def)
  moreover have "none_lost ?m" using l by (auto simp: none_lost_def eq d)
  ultimately show ?thesis by (simp add: master_ok_def)
qed

text \<open>While a data unit is processed, it is the last one received, and later than all requests.\<close>

definition processing :: "ASDU103 \<Rightarrow> Master103 \<Rightarrow> bool" where
  "processing asdu m \<longleftrightarrow> master_ok m \<and>
     (\<exists>n. n < length (m_received m) \<and> m_received m ! n = asdu \<and> (\<forall>(k, i, j)\<in>set (m_requests m). j \<le> n))"

lemma event_free_processing [simp]: "event_free (processing asdu)"
  by (simp add: event_free_def processing_def master_ok_def waits_ok_def results_ok_def none_lost_def counts_ok_def m_done_def)

lemma processing_answer:
  assumes "answers k i b asdu"
  shows "keeps (processing asdu) (\<lambda>m. (Ok (), if is_current_id k i m then try_set k (Answered b) m else m))"
proof -
  have "processing asdu (try_set k (Answered b) m)" if p: "processing asdu m" and c: "is_current_id k i m" for m
  proof -
    from p obtain n where ok: "master_ok m" and n: "n < length (m_received m)" "m_received m ! n = asdu"
      "\<forall>(k, i, j)\<in>set (m_requests m). j \<le> n"
      by (auto simp: processing_def)
    have "answered_by (m_requests m ! f) b (m_received m)" if f: "m_current m k = Some (j, f)" for j f
    proof -
      from f c have "j = i" by (simp add: is_current_id_def)
      with ok f obtain q where "f < length (m_requests m)" and q: "m_requests m ! f = (k, i, q)"
        by (fastforce simp: master_ok_def waits_ok_def)
      then have "(k, i, q) \<in> set (m_requests m)" by (metis nth_mem)
      with n(3) have "q \<le> n" by auto
      with n(1,2) have "asdu \<in> set (drop q (m_received m))" by (auto simp: in_set_conv_nth intro!: exI [of _ "n - q"])
      with q assms show ?thesis by (auto simp: answered_by_def list_ex_iff)
    qed
    with ok have "master_ok (try_set k (Answered b) m)" by (intro try_set_master_ok) auto
    with n show ?thesis by (auto simp: processing_def)
  qed
  then show ?thesis by (simp add: keeps_def)
qed

lemma answersI:
  "io \<in> set (asdu103_ios asdu) \<Longrightarrow> e \<in> set (io103_elements io) \<Longrightarrow> element_answers k i e \<Longrightarrow>
   (case k of
        Interrogate \<Rightarrow> asdu103_type asdu = I103_GENERAL_INTERROGATION_TERMINATION \<and> b
      | Command \<Rightarrow> asdu103_type asdu = I103_TIME_TAGGED_MESSAGE \<and>
          asdu103_cause asdu = KnownCause103 (if b then Cause103_GENERAL_COMMAND else Cause103_GENERAL_COMMAND_NACK)
      | InterrogateGeneric \<Rightarrow> asdu103_type asdu = I103_GENERIC_DATA \<and> b \<and>
          asdu103_cause asdu = KnownCause103 Cause103_TERMINATION_OF_GENERAL_INTERROGATION) \<Longrightarrow> answers k i b asdu"
  by (auto simp: answers_def list_ex_iff)

lemma process_io_keeps:
  assumes "io \<in> set (asdu103_ios asdu)"
  shows "keeps (processing asdu) (process_io data_cb generic_cb asdu io)"
proof -
  have message: "keeps (processing asdu) (process_TIME_TAGGED_MESSAGE data_cb (asdu103_cause asdu) address a e)"
    if "asdu103_type asdu = I103_TIME_TAGGED_MESSAGE" "e \<in> set (io103_elements io)" for address a e
    unfolding process_TIME_TAGGED_MESSAGE_def
    by (auto intro!: keepsI processing_answer answersI [OF assms that(2)] simp: that(1) element_answers_def)
  have terminates: "keeps (processing asdu) (process_GENERAL_INTERROGATION_TERMINATION e)"
    if "asdu103_type asdu = I103_GENERAL_INTERROGATION_TERMINATION" "e \<in> set (io103_elements io)" for e
    unfolding process_GENERAL_INTERROGATION_TERMINATION_def
    by (auto intro!: keepsI processing_answer answersI [OF assms that(2)] simp: that(1) element_answers_def)
  have generic: "keeps (processing asdu) (process_GENERIC_DATA generic_cb (asdu103_cause asdu) address a e)"
    if "asdu103_type asdu = I103_GENERIC_DATA" "e \<in> set (io103_elements io)" for address a e
    unfolding process_GENERIC_DATA_def
    by (auto intro!: keepsI processing_answer answersI [OF assms that(2)] simp: that(1) element_answers_def)
  have one: "keeps (processing asdu) (process_one_value data_cb c address a e)" for c address a e
    unfolding process_one_value_def by (auto intro!: keepsI)
  have measurands: "keeps (processing asdu) (process_MEASURANDS data_cb ty c address a es)" for ty c address a es
    unfolding process_MEASURANDS_def by (auto intro!: keepsI)
  show ?thesis
    by (cases "asdu103_type asdu")
      (auto simp: process_io_def process_single_def process_multiple_def
        intro!: keepsI message terminates generic one measurands)
qed

lemma m_receive_ok:
  assumes "master_ok m"
  shows "master_ok (m_receive data_cb generic_cb data m)"
proof (cases "decode_asdu_103 data")
  case (Inl e)
  with assms m_close_ok show ?thesis by (cases e) (simp_all add: m_receive_def)
next
  case (Inr x)
  obtain asdu rest where x: "x = (asdu, rest)" by (cases x)
  let ?m = "m\<lparr>m_received := m_received m @ [asdu]\<rparr>" and ?h = "for_each (process_io data_cb generic_cb asdu) (asdu103_ios asdu)"
  have "master_ok ?m"
    using assms by (auto simp: master_ok_def waits_ok_def results_ok_def none_lost_def counts_ok_def m_done_def answered_by_append)
  moreover from assms have "counts_ok m" by (simp add: master_ok_def)
  ultimately have p: "processing asdu ?m" unfolding processing_def counts_ok_def by (auto intro!: exI [of _ "length (m_received m)"])
  have k: "keeps (processing asdu) ?h" by (intro keepsI process_io_keeps)
  obtain r m' where h: "?h ?m = (r, m')" by (cases "?h ?m")
  from keepsD [OF k p h] have "master_ok m'" by (simp add: processing_def)
  with h Inr x m_close_ok show ?thesis by (cases r) (simp_all add: m_receive_def)
qed

lemma m_step_ok: "m_step m m' \<Longrightarrow> master_ok m \<Longrightarrow> master_ok m'"
  by (induction rule: m_step.induct) (auto intro: m_time_sync_ok m_request_ok m_finish_ok m_receive_ok m_close_ok)

lemma m_steps_ok: "m_steps init_master_103 m \<Longrightarrow> master_ok m"
  by (induction rule: rtranclp_induct) (auto intro: init_master_ok m_step_ok)

section \<open>Delivery\<close>

text \<open>A data unit with one object of one element, and what is left of its processing.\<close>

lemma receive_single:
  assumes "asdu_ok_103 asdu" "encode_asdu_103 asdu = Ok data" "asdu103_ios asdu = [\<lparr>io103_address = a, io103_elements = [e]\<rparr>]"
    and "process_single data_cb generic_cb (asdu103_type asdu) (asdu103_cause asdu) (asdu103_address asdu) a = Some h"
    and "h e (m\<lparr>m_received := m_received m @ [asdu]\<rparr>) = (Ok (), m')"
  shows "m_receive data_cb generic_cb (data @ rest) m = m'"
proof -
  from asdu_roundtrip_103 [OF assms(1)] assms(2) have "decode_asdu_103 (data @ rest) = Ok (asdu, rest)" by auto
  with assms(3-) show ?thesis by (simp add: m_receive_def process_io_def)
qed

text \<open>The response of a slave to a command.\<close>

definition command_response :: "int \<Rightarrow> IoAddress \<Rightarrow> Time \<Rightarrow> DoubleValue103 \<Rightarrow> int \<Rightarrow> bool \<Rightarrow> ASDU103" where
  "command_response address a t v i positive =
     \<lparr>asdu103_type = I103_TIME_TAGGED_MESSAGE,
      asdu103_cause = KnownCause103 (if positive then Cause103_GENERAL_COMMAND else Cause103_GENERAL_COMMAND_NACK),
      asdu103_address = address,
      asdu103_ios = [\<lparr>io103_address = a, io103_elements = [IoElement_TIME_TAGGED_MESSAGE (DoubleWithTimeValue v t i)]\<rparr>]\<rparr>"

lemma measurand_values_excess:
  assumes "ty \<in> {I103_MEASURANDS_1, I103_MEASURANDS_2}" "length elements > (if ty = I103_MEASURANDS_1 then 4 else 9)"
  shows "\<exists>e. measurand_values ty elements = Raise e"
proof -
  let ?n = "if ty = I103_MEASURANDS_1 then 4 else 9 :: nat"
  have "(?n, elements ! ?n) \<in> set (enumerate 0 elements)"
    using assms(2) by (simp add: in_set_enumerate_eq)
  moreover have "MeasurandType_of (AsduType103_value ty, ?n) = Raise (ValueError ''not a valid MeasurandType'')"
    using assms(1) by (auto simp: MeasurandType_of_def MeasurandType_members_def AsduType103_value.simps)
  ultimately show ?thesis unfolding measurand_values_def by (intro mapE_Raise) (assumption, simp)
qed

section \<open>An exchange\<close>

text \<open>A command and the response to it.\<close>

definition example_address :: IoAddress where
  "example_address = \<lparr>function_type = 128, information_number = 19\<rparr>"

definition example_time :: Time where
  "example_time =
     \<lparr>time_size = TimeSize_FOUR, milliseconds = 10000, invalid = Some False, substituted = Some False, minutes = Some 30,
      summer_time = Some False, hours = Some 12, day_of_week = None, day_of_month = None, months = None, years = None\<rparr>"

definition example_master :: Master103 where
  "example_master = snd (m_request Command (command_asdu 1 example_address DoubleValue103_ON) init_master_103)"

definition example_answer :: bytes where
  "example_answer = [1, 0x81, 20, 1, 128, 19, 2, 0x10, 0x27, 30, 12, 0]"

definition example_answered :: Master103 where
  "example_answered = m_receive None None example_answer example_master"

text \<open>Five measurands of the first type.\<close>

definition example_measurands :: ASDU103 where
  "example_measurands =
     \<lparr>asdu103_type = I103_MEASURANDS_1, asdu103_cause = KnownCause103 Cause103_CYCLIC, asdu103_address = 1,
      asdu103_ios = [\<lparr>io103_address = example_address,
        io103_elements = replicate 5 (IoElement_MEASURANDS_1 (MeasurandValue False False (Finite 0)))\<rparr>]\<rparr>"

lemma example_reached: "m_steps init_master_103 example_master" "m_steps init_master_103 example_answered"
proof -
  have 1: "m_step init_master_103 example_master"
    unfolding example_master_def by (rule m_step.command) (simp add: init_master_103_def)
  have "m_open example_master" by code_simp
  then have "m_step example_master example_answered" unfolding example_answered_def by (rule m_step.receive)
  with 1 show "m_steps init_master_103 example_master" "m_steps init_master_103 example_answered" by simp_all
qed

section \<open>Properties\<close>

text \<open>
  C20: the result of a request is the answer to it: if a command returned true or false, or an
  interrogation returned, then since the request was sent a data unit was received of the type and
  cause that confirm, refuse or terminate a request of its kind, with its own identifier.
\<close>

theorem request_answered:
  assumes "m_steps init_master_103 m" "m_results m f = Some (Answered b)"
  shows "f < length (m_requests m) \<and> answered_by (m_requests m ! f) b (m_received m)"
  using m_steps_ok [OF assms(1)] assms(2) by (auto simp: master_ok_def results_ok_def m_done_def)

lemma request_answered_witness:
  "answered_by (Command, 0, 0) True (m_received example_answered)"
proof -
  have "m_results example_answered 0 = Some (Answered True)" "m_requests example_answered = [(Command, 0, 0)]" by code_simp+
  with request_answered [OF example_reached(2), of 0 True] show ?thesis by simp
qed

text \<open>
  C21: no request is forgotten: in every state that is reached, it has its result, or the connection
  is open and it is the one of its kind that the next matching data unit, or the end of the
  connection, completes. When the connection is closed, all requests have a result.
\<close>

theorem no_request_forgotten:
  assumes "m_steps init_master_103 m" "f < length (m_requests m)"
  shows "m_done m f \<or> (m_open m \<and> (\<exists>i. m_current m (fst (m_requests m ! f)) = Some (i, f)))"
  using m_steps_ok [OF assms(1)] assms(2) by (auto simp: master_ok_def none_lost_def)

lemma no_request_forgotten_witness:
  "m_done example_master 0 \<or> (m_open example_master \<and> (\<exists>i. m_current example_master Command = Some (i, 0)))"
proof -
  have "m_requests example_master = [(Command, 0, 0)]" by code_simp
  with no_request_forgotten [OF example_reached(1), of 0] show ?thesis by simp
qed

text \<open>
  C22: the encoded response to the command that waits completes it with true if it is positive and
  false if not, and calls no callback.
\<close>

theorem command_completes:
  assumes "m_current m Command = Some (i, f)" "\<not> m_done m f"
    and "asdu_ok_103 (command_response address a t v i positive)"
    and "encode_asdu_103 (command_response address a t v i positive) = Ok data"
  shows "m_results (m_receive data_cb generic_cb data m) f = Some (Answered positive) \<and>
         m_events (m_receive data_cb generic_cb data m) = m_events m \<and>
         m_open (m_receive data_cb generic_cb data m) = m_open m"
proof -
  let ?r = "command_response address a t v i positive"
  let ?m = "m\<lparr>m_received := m_received m @ [?r]\<rparr>"
  have "m_receive data_cb generic_cb (data @ []) m = try_set Command (Answered positive) ?m"
    using assms(3,4)
  proof (rule receive_single)
    show "asdu103_ios ?r = [\<lparr>io103_address = a, io103_elements = [IoElement_TIME_TAGGED_MESSAGE (DoubleWithTimeValue v t i)]\<rparr>]"
      by (simp add: command_response_def)
    show "process_single data_cb generic_cb (asdu103_type ?r) (asdu103_cause ?r) (asdu103_address ?r) a =
        Some (process_TIME_TAGGED_MESSAGE data_cb (asdu103_cause ?r) address a)"
      by (simp add: command_response_def process_single_def)
    show "process_TIME_TAGGED_MESSAGE data_cb (asdu103_cause ?r) address a
        (IoElement_TIME_TAGGED_MESSAGE (DoubleWithTimeValue v t i)) ?m = (Ok (), try_set Command (Answered positive) ?m)"
      using assms(1) by (simp add: process_TIME_TAGGED_MESSAGE_def command_response_def with_result_def is_current_id_def)
  qed
  with assms(1,2) show ?thesis by (simp add: try_set_results m_done_def)
qed

lemma command_completes_witness:
  "m_results (m_receive None None example_answer example_master) 0 = Some (Answered True)"
proof -
  have "m_current example_master Command = Some (0, 0)" "\<not> m_done example_master 0"
    "encode_asdu_103 (command_response 1 example_address example_time DoubleValue103_ON 0 True) = Ok example_answer"
    by code_simp+
  moreover have "asdu_ok_103 (command_response 1 example_address example_time DoubleValue103_ON 0 True)"
    by (simp add: command_response_def example_address_def example_time_def asdu_ok_103_def address_ok_def is_byte_def
        asdu_ok_def lower_asdu_103_def encoder_103_def asdu_is_sequence_def io_ok_def io_element_ok_103_def
        encode_io_address_def time_ok_def typed_ok_def self_ok_def greedy_def AsduType103_value.simps)
  ultimately show ?thesis using command_completes by blast
qed

text \<open>
  More measurands than the enumeration of measurand types has, four in the first type and nine
  in the second, end the connection as its loss does: it is closed, and nothing of the data unit is
  delivered.
\<close>

lemma excess_measurands_close:
  assumes "decode_asdu_103 data = Ok (asdu, rest)" "asdu103_type asdu \<in> {I103_MEASURANDS_1, I103_MEASURANDS_2}"
    and "asdu103_ios asdu = [io]"
    and "length (io103_elements io) > (if asdu103_type asdu = I103_MEASURANDS_1 then 4 else 9)"
  shows "m_receive data_cb generic_cb data m = m_close (m\<lparr>m_received := m_received m @ [asdu]\<rparr>) \<and>
         \<not> m_open (m_receive data_cb generic_cb data m) \<and>
         m_events (m_receive data_cb generic_cb data m) = m_events m"
proof -
  let ?m = "m\<lparr>m_received := m_received m @ [asdu]\<rparr>"
  from measurand_values_excess [OF assms(2,4)]
  obtain e where "measurand_values (asdu103_type asdu) (io103_elements io) = Raise e" by blast
  with assms(2) have "process_io data_cb generic_cb asdu io ?m = (Raise e, ?m)"
    by (auto simp: process_io_def process_single_def process_multiple_def process_MEASURANDS_def with_result_def)
  with assms(1,3) have "m_receive data_cb generic_cb data m = m_close ?m" by (simp add: m_receive_def)
  then show ?thesis by (simp add: m_close_def Let_def)
qed

end
