(* ===== verification/Py_Struct.thy ===== *)
theory Py_Struct
  imports Prelude
begin

text \<open>
  More of Python's standard library: \<open>struct.pack\<close> and \<open>struct.unpack\<close> of unsigned fields in
  big-endian order, slices whose bound may be negative, and \<open>int(s, 16)\<close> for short strings.
\<close>

section \<open>Unsigned fields in big-endian order\<close>

text \<open>
  A format is the list of its field sizes: \<open>'>HHHB'\<close> is \<open>[2, 2, 2, 1]\<close>. \<open>pack_be\<close> takes the
  fields with their sizes.
\<close>

definition pack_field :: "nat \<Rightarrow> int \<Rightarrow> int list result" where
  "pack_field n x =
     (if 0 \<le> x \<and> x < 256 ^ n then Ok (rev (le_digits n x)) else Raise (StructError ''argument out of range''))"

definition pack_be :: "(nat \<times> int) list \<Rightarrow> int list result" where
  "pack_be fields = concatE (\<lambda>(n, x). pack_field n x) fields"

primrec split_fields :: "nat list \<Rightarrow> bytes \<Rightarrow> int list" where
  "split_fields [] bs = []"
| "split_fields (n # ns) bs = from_be (take n bs) # split_fields ns (drop n bs)"

definition unpack_be :: "nat list \<Rightarrow> bytes \<Rightarrow> int list result" where
  "unpack_be ns bs =
     (if length bs = sum_list ns then Ok (split_fields ns bs)
      else Raise (StructError ''unpack requires a buffer of another size''))"

definition fields_ok :: "(nat \<times> int) list \<Rightarrow> bool" where
  "fields_ok fields \<longleftrightarrow> list_all (\<lambda>(n, x). 0 \<le> x \<and> x < 256 ^ n) fields"

lemma fields_ok_simps [simp]:
  "fields_ok []"
  "fields_ok ((n, x) # fields) \<longleftrightarrow> 0 \<le> x \<and> x < 256 ^ n \<and> fields_ok fields"
  by (simp_all add: fields_ok_def)

lemma all_bytes_rev [simp]: "all_bytes (rev xs) \<longleftrightarrow> all_bytes xs"
  by (simp add: all_bytes_def)

lemma from_be_digits: "from_be (wire (rev (le_digits n x))) = x mod 256 ^ n"
  by (simp add: from_be_def wire_def rev_map [symmetric] from_le_wire_digits [unfolded wire_def])

lemma pack_field_Ok_iff: "pack_field n x = Ok ds \<longleftrightarrow> 0 \<le> x \<and> x < 256 ^ n \<and> ds = rev (le_digits n x)"
  by (auto simp: pack_field_def)

lemma pack_be_Ok:
  assumes "fields_ok fields"
  obtains ds where "pack_be fields = Ok ds" "length ds = sum_list (map fst fields)" "all_bytes ds"
    "unpack_be (map fst fields) (wire ds) = Ok (map snd fields)"
proof -
  have "\<exists>ds. pack_be fields = Ok ds \<and> length ds = sum_list (map fst fields) \<and> all_bytes ds \<and>
      split_fields (map fst fields) (wire ds) = map snd fields"
    using assms
  proof (induction fields)
    case Nil
    then show ?case by (simp add: pack_be_def)
  next
    case (Cons f fields)
    obtain n x where f: "f = (n, x)" by fastforce
    with Cons obtain ds where ds: "pack_be fields = Ok ds" "length ds = sum_list (map fst fields)" "all_bytes ds"
        "split_fields (map fst fields) (wire ds) = map snd fields" by auto
    with Cons.prems f show ?case
      by (simp add: pack_be_def pack_field_def from_be_digits)
  qed
  with that show thesis by (auto simp: unpack_be_def)
qed

lemma pack_be_Ok_iff_fields: "(\<exists>ds. pack_be fields = Ok ds) \<longleftrightarrow> fields_ok fields"
proof (induction fields)
  case (Cons f fields)
  then show ?case
    by (cases f; cases "pack_be fields") (auto simp: pack_be_def pack_field_def)
qed (simp add: pack_be_def)

section \<open>Slices with a bound that may be negative\<close>

text \<open>\<open>xs[:k]\<close> and \<open>xs[k:]\<close> for any integer \<open>k\<close>.\<close>

definition slice_bound :: "int \<Rightarrow> 'a list \<Rightarrow> nat" where
  "slice_bound k xs = nat (if k < 0 then int (length xs) + k else k)"

definition slice_to :: "int \<Rightarrow> 'a list \<Rightarrow> 'a list" where
  "slice_to k xs = take (slice_bound k xs) xs"

definition slice_from :: "int \<Rightarrow> 'a list \<Rightarrow> 'a list" where
  "slice_from k xs = drop (slice_bound k xs) xs"

lemma slice_to_from_nat [simp]:
  "slice_to (int n) xs = take n xs" "slice_from (int n) xs = drop n xs"
  by (simp_all add: slice_to_def slice_from_def slice_bound_def)

lemma slice_to_from: "slice_to k xs @ slice_from k xs = xs"
  by (simp add: slice_to_def slice_from_def)

section \<open>Hexadecimal numbers\<close>

text \<open>The codes of the characters that are digits, and those that \<open>int\<close> skips around a number.\<close>

definition hex_digit :: "int \<Rightarrow> int option" where
  "hex_digit c =
     (if 0x30 \<le> c \<and> c \<le> 0x39 then Some (c - 0x30)
      else if 0x41 \<le> c \<and> c \<le> 0x46 then Some (c - 0x41 + 10)
      else if 0x61 \<le> c \<and> c \<le> 0x66 then Some (c - 0x61 + 10)
      else None)"

definition is_space :: "int \<Rightarrow> bool" where
  "is_space c \<longleftrightarrow> 9 \<le> c \<and> c \<le> 13 \<or> c = 0x20"

text \<open>
  \<open>int(str(bs, 'ascii'), 16)\<close> for at most two characters: after the spaces are stripped, one or
  two digits, or a sign and a digit. A prefix \<open>0x\<close> or an underscore needs more characters.
\<close>

definition hex_int :: "bytes \<Rightarrow> int result" where
  "hex_int bs =
     (let cs = map uint bs;
          error = Raise (ValueError ''invalid literal for int() with base 16'');
          digits = rev (dropWhile is_space (rev (dropWhile is_space cs)))
      in
        if list_ex (\<lambda>c. 128 \<le> c) cs then Raise (ValueError ''ordinal not in range(128)'')
        else (case digits of
          [c] \<Rightarrow> (case hex_digit c of Some d \<Rightarrow> Ok d | None \<Rightarrow> error)
        | [c, c'] \<Rightarrow>
            (case (hex_digit c, hex_digit c') of
               (Some d, Some d') \<Rightarrow> Ok (16 * d + d')
             | (None, Some d') \<Rightarrow> if c = 0x2B then Ok d' else if c = 0x2D then Ok (- d') else error
             | _ \<Rightarrow> error)
        | _ \<Rightarrow> error))"

text \<open>\<open>f'{i:02X}'\<close> for a byte.\<close>

definition hex_char :: "int \<Rightarrow> int" where
  "hex_char d = (if d < 10 then 0x30 + d else 0x41 + (d - 10))"

definition hex_byte :: "int \<Rightarrow> int list" where
  "hex_byte i = [hex_char (i div 16), hex_char (i mod 16)]"

lemma hex_digit_char: "0 \<le> d \<Longrightarrow> d < 16 \<Longrightarrow> hex_digit (hex_char d) = Some d"
  by (simp add: hex_digit_def hex_char_def)

lemma hex_char_bounds: "0 \<le> d \<Longrightarrow> d < 16 \<Longrightarrow> 0x30 \<le> hex_char d \<and> hex_char d \<le> 0x46 \<and> hex_char d \<noteq> 0x3A"
  by (simp add: hex_char_def)

lemma nibbles:
  assumes "is_byte i"
  shows "0 \<le> i div 16" "i div 16 < 16" "0 \<le> i mod 16" "i mod 16 < 16"
  using assms by (auto simp: is_byte_def)

lemma is_byte_hex_char: "0 \<le> d \<Longrightarrow> d < 16 \<Longrightarrow> is_byte (hex_char d)"
  using hex_char_bounds [of d] by (simp add: is_byte_def)

lemma all_bytes_hex_byte [simp]: "is_byte i \<Longrightarrow> all_bytes (hex_byte i)"
  by (simp add: hex_byte_def is_byte_hex_char nibbles)

lemma hex_int_byte [simp]:
  assumes "is_byte i"
  shows "hex_int (wire (hex_byte i)) = Ok i"
proof -
  note n = nibbles [OF assms]
  note b = hex_char_bounds [OF n(1,2)] hex_char_bounds [OF n(3,4)]
  have "\<not> is_space (hex_char (i div 16))" "\<not> is_space (hex_char (i mod 16))"
    using b by (simp_all add: is_space_def)
  with b n show ?thesis
    by (simp add: hex_int_def hex_byte_def uint_of_byte is_byte_hex_char hex_digit_char)
qed

end
