(* ===== verification/Modbus_Common.thy ===== *)
theory Modbus_Common
  imports Py_Struct
begin

text \<open>
  Data of the Modbus driver: \<^verbatim>\<open>modbus/common.py\<close> and \<^verbatim>\<open>modbus/transport/common.py\<close>. Coil
  values and register values are Python integers; where the code tests the truth of a coil value
  the model compares it with zero, and \<open>bool(x)\<close>, which is an integer, is 0 or 1.
\<close>

unbundle bit_operations_syntax

section \<open>Requests and responses of the application\<close>

datatype ModbusType = TCP | RTU | ASCII

datatype DataType = COIL | DISCRETE_INPUT | HOLDING_REGISTER | INPUT_REGISTER | QUEUE

datatype Error =
    INVALID_FUNCTION_CODE | INVALID_DATA_ADDRESS | INVALID_DATA_VALUE | FUNCTION_ERROR
  | GATEWAY_PATH_UNAVAILABLE | GATEWAY_TARGET_DEVICE_FAILED_TO_RESPOND

fun Error_value :: "Error \<Rightarrow> int" where
  "Error_value INVALID_FUNCTION_CODE = 0x01"
| "Error_value INVALID_DATA_ADDRESS = 0x02"
| "Error_value INVALID_DATA_VALUE = 0x03"
| "Error_value FUNCTION_ERROR = 0x04"
| "Error_value GATEWAY_PATH_UNAVAILABLE = 0x0A"
| "Error_value GATEWAY_TARGET_DEVICE_FAILED_TO_RESPOND = 0x0B"

definition Error_members :: "Error list" where
  "Error_members =
     [INVALID_FUNCTION_CODE, INVALID_DATA_ADDRESS, INVALID_DATA_VALUE,
      FUNCTION_ERROR, GATEWAY_PATH_UNAVAILABLE, GATEWAY_TARGET_DEVICE_FAILED_TO_RESPOND]"

definition Error_of :: "int \<Rightarrow> Error result" where
  "Error_of = enum_lookup Error_value Error_members"

interpretation Error: enumeration Error_value Error_members
proof unfold_locales
  show "x \<in> set Error_members" for x by (cases x) (simp_all add: Error_members_def)
  show "distinct (map Error_value Error_members)" by (simp add: Error_members_def)
qed

lemma Error_of_value [simp]: "Error_of (Error_value x) = Ok x"
  by (simp add: Error_of_def Error.of_value)

text \<open>
  The class names \<open>ReadReq\<close>, \<open>WriteReq\<close> and \<open>WriteMaskReq\<close> are the constructors of the union
  \<open>Request\<close>. A response is a list of values, an instance of \<open>Success\<close> or an error.
\<close>

datatype Request =
    ReadReq (req_device_id: int) DataType int int
  | WriteReq (req_device_id: int) DataType int "int list"
  | WriteMaskReq (req_device_id: int) int int int

datatype Response = Values "int list" | Success | Failure Error

definition apply_mask :: "int \<Rightarrow> int \<Rightarrow> int \<Rightarrow> int" where
  "apply_mask value and_mask or_mask = (value AND and_mask) OR (or_mask AND (NOT and_mask))"

text \<open>A bit of the result comes from the value where the first mask has a one, else from the second.\<close>

lemma bit_apply_mask:
  "bit (apply_mask value and_mask or_mask) n \<longleftrightarrow> (if bit and_mask n then bit value n else bit or_mask n)"
  by (auto simp: apply_mask_def bit_simps)

section \<open>Protocol data units\<close>

datatype Direction = REQUEST | RESPONSE

datatype FunctionCode =
    READ_COILS | READ_DISCRETE_INPUTS | READ_HOLDING_REGISTERS | READ_INPUT_REGISTERS
  | WRITE_SINGLE_COIL | WRITE_SINGLE_REGISTER | WRITE_MULTIPLE_COILS | WRITE_MULTIPLE_REGISTER
  | MASK_WRITE_REGISTER | READ_FIFO_QUEUE

fun FunctionCode_value :: "FunctionCode \<Rightarrow> int" where
  "FunctionCode_value READ_COILS = 1"
| "FunctionCode_value READ_DISCRETE_INPUTS = 2"
| "FunctionCode_value READ_HOLDING_REGISTERS = 3"
| "FunctionCode_value READ_INPUT_REGISTERS = 4"
| "FunctionCode_value WRITE_SINGLE_COIL = 5"
| "FunctionCode_value WRITE_SINGLE_REGISTER = 6"
| "FunctionCode_value WRITE_MULTIPLE_COILS = 15"
| "FunctionCode_value WRITE_MULTIPLE_REGISTER = 16"
| "FunctionCode_value MASK_WRITE_REGISTER = 22"
| "FunctionCode_value READ_FIFO_QUEUE = 24"

definition FunctionCode_members :: "FunctionCode list" where
  "FunctionCode_members =
     [READ_COILS, READ_DISCRETE_INPUTS, READ_HOLDING_REGISTERS,
      READ_INPUT_REGISTERS, WRITE_SINGLE_COIL, WRITE_SINGLE_REGISTER,
      WRITE_MULTIPLE_COILS, WRITE_MULTIPLE_REGISTER, MASK_WRITE_REGISTER,
      READ_FIFO_QUEUE]"

definition FunctionCode_of :: "int \<Rightarrow> FunctionCode result" where
  "FunctionCode_of = enum_lookup FunctionCode_value FunctionCode_members"

interpretation FunctionCode: enumeration FunctionCode_value FunctionCode_members
proof unfold_locales
  show "x \<in> set FunctionCode_members" for x by (cases x) (simp_all add: FunctionCode_members_def)
  show "distinct (map FunctionCode_value FunctionCode_members)" by (simp add: FunctionCode_members_def)
qed

lemma FunctionCode_of_value [simp]: "FunctionCode_of (FunctionCode_value x) = Ok x"
  by (simp add: FunctionCode_of_def FunctionCode.of_value)

datatype ReqPdu =
    ReadCoilsReq int int
  | ReadDiscreteInputsReq int int
  | ReadHoldingRegistersReq int int
  | ReadInputRegistersReq int int
  | WriteSingleCoilReq int int
  | WriteSingleRegisterReq int int
  | WriteMultipleCoilsReq int "int list"
  | WriteMultipleRegistersReq int "int list"
  | MaskWriteRegisterReq int int int
  | ReadFifoQueueReq int

datatype ResPdu =
    ErrorRes FunctionCode Error
  | ReadCoilsRes "int list"
  | ReadDiscreteInputsRes "int list"
  | ReadHoldingRegistersRes "int list"
  | ReadInputRegistersRes "int list"
  | WriteSingleCoilRes int int
  | WriteSingleRegisterRes int int
  | WriteMultipleCoilsRes int int
  | WriteMultipleRegistersRes int int
  | MaskWriteRegisterRes int int int
  | ReadFifoQueueRes "int list"

datatype Pdu = PduReq ReqPdu | PduRes ResPdu

datatype Adu =
    TcpAdu (adu_transaction_id: int) (adu_device_id: int) (adu_pdu: Pdu)
  | RtuAdu (adu_device_id: int) (adu_pdu: Pdu)
  | AsciiAdu (adu_device_id: int) (adu_pdu: Pdu)

fun get_req_function_code :: "ReqPdu \<Rightarrow> FunctionCode" where
  "get_req_function_code (ReadCoilsReq _ _) = READ_COILS"
| "get_req_function_code (ReadDiscreteInputsReq _ _) = READ_DISCRETE_INPUTS"
| "get_req_function_code (ReadHoldingRegistersReq _ _) = READ_HOLDING_REGISTERS"
| "get_req_function_code (ReadInputRegistersReq _ _) = READ_INPUT_REGISTERS"
| "get_req_function_code (WriteSingleCoilReq _ _) = WRITE_SINGLE_COIL"
| "get_req_function_code (WriteSingleRegisterReq _ _) = WRITE_SINGLE_REGISTER"
| "get_req_function_code (WriteMultipleCoilsReq _ _) = WRITE_MULTIPLE_COILS"
| "get_req_function_code (WriteMultipleRegistersReq _ _) = WRITE_MULTIPLE_REGISTER"
| "get_req_function_code (MaskWriteRegisterReq _ _ _) = MASK_WRITE_REGISTER"
| "get_req_function_code (ReadFifoQueueReq _) = READ_FIFO_QUEUE"

fun get_res_function_code :: "ResPdu \<Rightarrow> FunctionCode" where
  "get_res_function_code (ErrorRes fc _) = fc"
| "get_res_function_code (ReadCoilsRes _) = READ_COILS"
| "get_res_function_code (ReadDiscreteInputsRes _) = READ_DISCRETE_INPUTS"
| "get_res_function_code (ReadHoldingRegistersRes _) = READ_HOLDING_REGISTERS"
| "get_res_function_code (ReadInputRegistersRes _) = READ_INPUT_REGISTERS"
| "get_res_function_code (WriteSingleCoilRes _ _) = WRITE_SINGLE_COIL"
| "get_res_function_code (WriteSingleRegisterRes _ _) = WRITE_SINGLE_REGISTER"
| "get_res_function_code (WriteMultipleCoilsRes _ _) = WRITE_MULTIPLE_COILS"
| "get_res_function_code (WriteMultipleRegistersRes _ _) = WRITE_MULTIPLE_REGISTER"
| "get_res_function_code (MaskWriteRegisterRes _ _ _) = MASK_WRITE_REGISTER"
| "get_res_function_code (ReadFifoQueueRes _) = READ_FIFO_QUEUE"

definition get_pdu_function_code :: "Pdu \<Rightarrow> FunctionCode" where
  "get_pdu_function_code pdu =
     (case pdu of PduReq req \<Rightarrow> get_req_function_code req | PduRes res \<Rightarrow> get_res_function_code res)"

end
