(* ===== verification/Modbus_Pdu.thy ===== *)
theory Modbus_Pdu
  imports Modbus_Common
begin

text \<open>
  Encoding and decoding of protocol data units, from \<^verbatim>\<open>modbus/transport/encoder.py\<close>. A
  generator is the list of the integers that it yields, or what it raises; \<open>py_bytes\<close> turns
  these into bytes where the code collects them.
\<close>

unbundle bit_operations_syntax

section \<open>Packed values\<close>

text \<open>The byte with index \<open>i\<close> of packed coil values, eight in a byte from the lowest bit.\<close>

definition coil_byte :: "int list \<Rightarrow> nat \<Rightarrow> int" where
  "coil_byte values i =
     foldl (\<lambda>data_byte j.
       if length values > i * 8 + j \<and> values ! (i * 8 + j) \<noteq> 0 then data_byte OR push_bit j 1 else data_byte)
     0 [0..<8]"

definition coil_count :: "int list \<Rightarrow> nat" where
  "coil_count values = length values div 8 + (if length values mod 8 \<noteq> 0 then 1 else 0)"

definition coil_bytes :: "int list \<Rightarrow> int list" where
  "coil_bytes values = map (coil_byte values) [0..<coil_count values]"

text \<open>Register values in a request, as the code takes them apart, and in a response.\<close>

definition register_request_bytes :: "int list \<Rightarrow> int list" where
  "register_request_bytes values =
     map (\<lambda>i. drop_bit (if i mod 2 \<noteq> 0 then 0 else 8) (values ! (i div 2)) AND 0xFF) [0..<2 * length values]"

definition register_bytes :: "int list \<Rightarrow> int list" where
  "register_bytes values = concat (map (\<lambda>i. [drop_bit 8 i AND 0xFF, i AND 0xFF]) values)"

text \<open>The values of a number of coils in a request, and of all coils in the bytes of a response.\<close>

definition decode_coils :: "nat \<Rightarrow> bytes \<Rightarrow> int list result" where
  "decode_coils quantity values_bytes =
     mapE (\<lambda>i. bindE (byte_at values_bytes (i div 8)) (\<lambda>b.
       Ok (if b AND push_bit (i mod 8) 1 \<noteq> 0 then 1 else 0))) [0..<quantity]"

definition all_coils :: "bytes \<Rightarrow> int list" where
  "all_coils values_bytes = concat (map (\<lambda>i. map (\<lambda>j. drop_bit j (uint i) AND 1) [0..<8]) values_bytes)"

definition decode_registers :: "nat \<Rightarrow> bytes \<Rightarrow> int list" where
  "decode_registers n values_bytes = map (\<lambda>i. from_be (slice (i * 2) ((i + 1) * 2) values_bytes)) [0..<n]"

section \<open>Encoding\<close>

fun encode_req :: "ReqPdu \<Rightarrow> int list result" where
  "encode_req (ReadCoilsReq address quantity) =
     appendE (Ok [FunctionCode_value READ_COILS]) (pack_be [(2, address), (2, quantity)])"
| "encode_req (ReadDiscreteInputsReq address quantity) =
     appendE (Ok [FunctionCode_value READ_DISCRETE_INPUTS]) (pack_be [(2, address), (2, quantity)])"
| "encode_req (ReadHoldingRegistersReq address quantity) =
     appendE (Ok [FunctionCode_value READ_HOLDING_REGISTERS]) (pack_be [(2, address), (2, quantity)])"
| "encode_req (ReadInputRegistersReq address quantity) =
     appendE (Ok [FunctionCode_value READ_INPUT_REGISTERS]) (pack_be [(2, address), (2, quantity)])"
| "encode_req (WriteSingleCoilReq address value) =
     appendE (Ok [FunctionCode_value WRITE_SINGLE_COIL])
       (pack_be [(2, address), (2, if value \<noteq> 0 then 0xFF00 else 0)])"
| "encode_req (WriteSingleRegisterReq address value) =
     appendE (Ok [FunctionCode_value WRITE_SINGLE_REGISTER]) (pack_be [(2, address), (2, value)])"
| "encode_req (WriteMultipleCoilsReq address values) =
     appendE (Ok [FunctionCode_value WRITE_MULTIPLE_COILS])
       (appendE (pack_be [(2, address), (2, int (length values)), (1, int (coil_count values))])
         (Ok (coil_bytes values)))"
| "encode_req (WriteMultipleRegistersReq address values) =
     appendE (Ok [FunctionCode_value WRITE_MULTIPLE_REGISTER])
       (appendE (pack_be [(2, address), (2, int (length values)), (1, 2 * int (length values))])
         (Ok (register_request_bytes values)))"
| "encode_req (MaskWriteRegisterReq address and_mask or_mask) =
     appendE (Ok [FunctionCode_value MASK_WRITE_REGISTER]) (pack_be [(2, address), (2, and_mask), (2, or_mask)])"
| "encode_req (ReadFifoQueueReq address) =
     appendE (Ok [FunctionCode_value READ_FIFO_QUEUE]) (pack_be [(2, address)])"

fun encode_res :: "ResPdu \<Rightarrow> int list result" where
  "encode_res (ErrorRes fc error) = Ok [FunctionCode_value fc OR 0x80, Error_value error]"
| "encode_res (ReadCoilsRes values) =
     Ok ([FunctionCode_value READ_COILS, int (coil_count values)] @ coil_bytes values)"
| "encode_res (ReadDiscreteInputsRes values) =
     Ok ([FunctionCode_value READ_DISCRETE_INPUTS, int (coil_count values)] @ coil_bytes values)"
| "encode_res (ReadHoldingRegistersRes values) =
     Ok ([FunctionCode_value READ_HOLDING_REGISTERS, int (length values) * 2] @ register_bytes values)"
| "encode_res (ReadInputRegistersRes values) =
     Ok ([FunctionCode_value READ_INPUT_REGISTERS, int (length values) * 2] @ register_bytes values)"
| "encode_res (WriteSingleCoilRes address value) =
     appendE (Ok [FunctionCode_value WRITE_SINGLE_COIL])
       (pack_be [(2, address), (2, if value \<noteq> 0 then 0xFF00 else 0)])"
| "encode_res (WriteSingleRegisterRes address value) =
     appendE (Ok [FunctionCode_value WRITE_SINGLE_REGISTER]) (pack_be [(2, address), (2, value)])"
| "encode_res (WriteMultipleCoilsRes address quantity) =
     appendE (Ok [FunctionCode_value WRITE_MULTIPLE_COILS]) (pack_be [(2, address), (2, quantity)])"
| "encode_res (WriteMultipleRegistersRes address quantity) =
     appendE (Ok [FunctionCode_value WRITE_MULTIPLE_REGISTER]) (pack_be [(2, address), (2, quantity)])"
| "encode_res (MaskWriteRegisterRes address and_mask or_mask) =
     appendE (Ok [FunctionCode_value MASK_WRITE_REGISTER]) (pack_be [(2, address), (2, and_mask), (2, or_mask)])"
| "encode_res (ReadFifoQueueRes values) =
     Ok ([FunctionCode_value READ_FIFO_QUEUE, int (length values) * 2] @ register_bytes values)"

definition encode_pdu :: "Pdu \<Rightarrow> int list result" where
  "encode_pdu pdu = (case pdu of PduReq req \<Rightarrow> encode_req req | PduRes res \<Rightarrow> encode_res res)"

section \<open>Decoding\<close>

definition decode_req :: "bytes \<Rightarrow> (ReqPdu \<times> bytes) result" where
  "decode_req data =
     bindE (byte_at data 0) (\<lambda>b. bindE (FunctionCode_of b) (\<lambda>fc.
     let rest = drop 1 data in
       (case fc of
          READ_COILS \<Rightarrow>
            bindE (unpack_be [2, 2] (take 4 rest)) (\<lambda>v. Ok (ReadCoilsReq (v ! 0) (v ! 1), drop 4 rest))
        | READ_DISCRETE_INPUTS \<Rightarrow>
            bindE (unpack_be [2, 2] (take 4 rest)) (\<lambda>v. Ok (ReadDiscreteInputsReq (v ! 0) (v ! 1), drop 4 rest))
        | READ_HOLDING_REGISTERS \<Rightarrow>
            bindE (unpack_be [2, 2] (take 4 rest)) (\<lambda>v. Ok (ReadHoldingRegistersReq (v ! 0) (v ! 1), drop 4 rest))
        | READ_INPUT_REGISTERS \<Rightarrow>
            bindE (unpack_be [2, 2] (take 4 rest)) (\<lambda>v. Ok (ReadInputRegistersReq (v ! 0) (v ! 1), drop 4 rest))
        | WRITE_SINGLE_COIL \<Rightarrow>
            bindE (unpack_be [2, 2] (take 4 rest)) (\<lambda>v.
              Ok (WriteSingleCoilReq (v ! 0) (if v ! 1 \<noteq> 0 then 1 else 0), drop 4 rest))
        | WRITE_SINGLE_REGISTER \<Rightarrow>
            bindE (unpack_be [2, 2] (take 4 rest)) (\<lambda>v. Ok (WriteSingleRegisterReq (v ! 0) (v ! 1), drop 4 rest))
        | WRITE_MULTIPLE_COILS \<Rightarrow>
            bindE (unpack_be [2, 2, 1] (take 5 rest)) (\<lambda>v.
              let n = nat (v ! 2) in
              bindE (decode_coils (nat (v ! 1)) (slice 5 (n + 5) rest)) (\<lambda>values.
                Ok (WriteMultipleCoilsReq (v ! 0) values, drop (n + 5) rest)))
        | WRITE_MULTIPLE_REGISTER \<Rightarrow>
            bindE (unpack_be [2, 2, 1] (take 5 rest)) (\<lambda>v.
              let n = nat (v ! 2) in
              Ok (WriteMultipleRegistersReq (v ! 0) (decode_registers (nat (v ! 1)) (slice 5 (n + 5) rest)),
                drop (n + 5) rest))
        | MASK_WRITE_REGISTER \<Rightarrow>
            bindE (unpack_be [2, 2, 2] (take 6 rest)) (\<lambda>v.
              Ok (MaskWriteRegisterReq (v ! 0) (v ! 1) (v ! 2), drop 6 rest))
        | READ_FIFO_QUEUE \<Rightarrow> Ok (ReadFifoQueueReq (from_be (take 2 rest)), drop 2 rest))))"

text \<open>The byte count and the values of a response that carries registers.\<close>

definition counted_registers :: "bytes \<Rightarrow> (int list \<times> bytes) result" where
  "counted_registers rest =
     bindE (byte_at rest 0) (\<lambda>byte_count.
       if byte_count mod 2 \<noteq> 0 then Raise (Exception ''invalid number of bytes'')
       else let n = nat byte_count in
         Ok (decode_registers (n div 2) (slice 1 (n + 1) rest), drop (n + 1) rest))"

definition counted_coils :: "bytes \<Rightarrow> (int list \<times> bytes) result" where
  "counted_coils rest =
     bindE (byte_at rest 0) (\<lambda>byte_count.
       let n = nat byte_count in Ok (all_coils (slice 1 (n + 1) rest), drop (n + 1) rest))"

definition decode_res :: "bytes \<Rightarrow> (ResPdu \<times> bytes) result" where
  "decode_res data =
     bindE (byte_at data 0) (\<lambda>b. bindE (FunctionCode_of (b AND 0x7F)) (\<lambda>fc.
     let rest = drop 1 data in
       if b AND 0x80 \<noteq> 0
       then bindE (byte_at rest 0) (\<lambda>e. bindE (Error_of e) (\<lambda>error. Ok (ErrorRes fc error, drop 1 rest)))
       else (case fc of
          READ_COILS \<Rightarrow> bindE (counted_coils rest) (\<lambda>(values, rest). Ok (ReadCoilsRes values, rest))
        | READ_DISCRETE_INPUTS \<Rightarrow>
            bindE (counted_coils rest) (\<lambda>(values, rest). Ok (ReadDiscreteInputsRes values, rest))
        | READ_HOLDING_REGISTERS \<Rightarrow>
            bindE (counted_registers rest) (\<lambda>(values, rest). Ok (ReadHoldingRegistersRes values, rest))
        | READ_INPUT_REGISTERS \<Rightarrow>
            bindE (counted_registers rest) (\<lambda>(values, rest). Ok (ReadInputRegistersRes values, rest))
        | WRITE_SINGLE_COIL \<Rightarrow>
            Ok (WriteSingleCoilRes (from_be (take 2 rest)) (if from_be (take 2 (drop 2 rest)) \<noteq> 0 then 1 else 0),
              drop 4 rest)
        | WRITE_SINGLE_REGISTER \<Rightarrow>
            Ok (WriteSingleRegisterRes (from_be (take 2 rest)) (from_be (take 2 (drop 2 rest))), drop 4 rest)
        | WRITE_MULTIPLE_COILS \<Rightarrow>
            Ok (WriteMultipleCoilsRes (from_be (take 2 rest)) (from_be (take 2 (drop 2 rest))), drop 4 rest)
        | WRITE_MULTIPLE_REGISTER \<Rightarrow>
            Ok (WriteMultipleRegistersRes (from_be (take 2 rest)) (from_be (take 2 (drop 2 rest))), drop 4 rest)
        | MASK_WRITE_REGISTER \<Rightarrow>
            bindE (unpack_be [2, 2, 2] (take 6 rest)) (\<lambda>v.
              Ok (MaskWriteRegisterRes (v ! 0) (v ! 1) (v ! 2), drop 6 rest))
        | READ_FIFO_QUEUE \<Rightarrow>
            bindE (counted_registers rest) (\<lambda>(values, rest). Ok (ReadFifoQueueRes values, rest)))))"

definition decode_pdu :: "Direction \<Rightarrow> bytes \<Rightarrow> (Pdu \<times> bytes) result" where
  "decode_pdu direction data =
     (case direction of
        REQUEST \<Rightarrow> bindE (decode_req data) (\<lambda>(req, rest). Ok (PduReq req, rest))
      | RESPONSE \<Rightarrow> bindE (decode_res data) (\<lambda>(res, rest). Ok (PduRes res, rest)))"

section \<open>Sizes\<close>

definition get_next_req_size :: "bytes \<Rightarrow> nat \<Rightarrow> nat result" where
  "get_next_req_size data offset =
     (if length data < offset + 1 then Ok 1
      else bindE (byte_at data offset) (\<lambda>b. bindE (FunctionCode_of b) (\<lambda>fc.
        if fc \<in> {READ_COILS, READ_DISCRETE_INPUTS, READ_HOLDING_REGISTERS, READ_INPUT_REGISTERS,
          WRITE_SINGLE_COIL, WRITE_SINGLE_REGISTER} then Ok 5
        else if fc \<in> {WRITE_MULTIPLE_COILS, WRITE_MULTIPLE_REGISTER}
        then (if length data < offset + 6 then Ok 6
              else bindE (byte_at data (offset + 5)) (\<lambda>n. Ok (nat n + 6)))
        else if fc = MASK_WRITE_REGISTER then Ok 7
        else if fc = READ_FIFO_QUEUE then Ok 3
        else Raise (ValueError ''unsupported function code''))))"

definition get_next_res_size :: "bytes \<Rightarrow> nat \<Rightarrow> nat result" where
  "get_next_res_size data offset =
     (if length data < offset + 1 then Ok 1
      else bindE (byte_at data offset) (\<lambda>b.
        if b AND 0x80 \<noteq> 0 then Ok 2
        else bindE (FunctionCode_of b) (\<lambda>fc.
          if fc \<in> {READ_COILS, READ_DISCRETE_INPUTS, READ_HOLDING_REGISTERS, READ_INPUT_REGISTERS, READ_FIFO_QUEUE}
          then (if length data < offset + 2 then Ok 2
                else bindE (byte_at data (offset + 1)) (\<lambda>n. Ok (nat n + 2)))
          else if fc \<in> {WRITE_SINGLE_COIL, WRITE_SINGLE_REGISTER, WRITE_MULTIPLE_COILS, WRITE_MULTIPLE_REGISTER}
          then Ok 5
          else if fc = MASK_WRITE_REGISTER then Ok 7
          else Raise (ValueError ''unsupported function code''))))"

definition get_next_pdu_size :: "Direction \<Rightarrow> bytes \<Rightarrow> nat \<Rightarrow> nat result" where
  "get_next_pdu_size direction data offset =
     (case direction of REQUEST \<Rightarrow> get_next_req_size data offset | RESPONSE \<Rightarrow> get_next_res_size data offset)"

section \<open>Packed vs are unpacked\<close>

lemma bit_coil_byte:
  "bit (coil_byte vs i) j \<longleftrightarrow> j < 8 \<and> i * 8 + j < length vs \<and> vs ! (i * 8 + j) \<noteq> 0"
  unfolding coil_byte_def by (subst bit_set_bits) auto

lemma is_byte_coil_byte [simp]: "is_byte (coil_byte vs i)"
  by (rule is_byte_bits) (simp add: bit_coil_byte)

lemma all_bytes_coil_bytes [simp]: "all_bytes (coil_bytes vs)"
  by (simp add: all_bytes_def coil_bytes_def list_all_iff)

lemma length_coil_bytes [simp]: "length (coil_bytes vs) = coil_count vs"
  by (simp add: coil_bytes_def)

lemma coil_count_bounds: "length vs \<le> 8 * coil_count vs" "8 * coil_count vs < length vs + 8"
  by (auto simp: coil_count_def) presburger+

lemma coil_count_le: "length vs \<le> 2040 \<Longrightarrow> coil_count vs \<le> 255"
  using coil_count_bounds [of vs] by linarith

definition coil_value :: "int \<Rightarrow> int" where
  "coil_value v = (if v \<noteq> 0 then 1 else 0)"

lemma nth_coil_bytes: "i < coil_count vs \<Longrightarrow> uint (wire (coil_bytes vs) ! i) = coil_byte vs i"
  by (simp add: wire_def coil_bytes_def uint_of_byte)

lemma decode_coils_bytes: "decode_coils (length vs) (wire (coil_bytes vs)) = Ok (map coil_value vs)"
proof -
  have "bindE (byte_at (wire (coil_bytes vs)) (i div 8)) (\<lambda>b. Ok (if b AND push_bit (i mod 8) 1 \<noteq> 0 then 1 else 0)) =
      Ok (coil_value (vs ! i))" if "i < length vs" for i
  proof -
    have "i div 8 < coil_count vs" using coil_count_bounds(1) [of vs] that by linarith
    moreover have "bit (coil_byte vs (i div 8)) (i mod 8) \<longleftrightarrow> vs ! i \<noteq> 0"
      using that by (simp add: bit_coil_byte)
    ultimately show ?thesis
      by (simp add: byte_at_def nth_coil_bytes push_bit_eq_mult and_exp_eq_0_iff_not_bit coil_value_def)
  qed
  then have "decode_coils (length vs) (wire (coil_bytes vs)) =
      Ok (map (\<lambda>i. coil_value (vs ! i)) [0..<length vs])"
    unfolding decode_coils_def by (intro mapE_Ok) simp
  also have "map (\<lambda>i. coil_value (vs ! i)) [0..<length vs] = map coil_value vs"
    by (rule nth_equalityI) simp_all
  finally show ?thesis .
qed

text \<open>The vs of coils that are read back from whole bytes.\<close>

definition padded_coils :: "int list \<Rightarrow> int list" where
  "padded_coils vs = map coil_value vs @ replicate (8 * coil_count vs - length vs) 0"

lemma take_padded_coils: "take (length vs) (padded_coils vs) = map coil_value vs"
  by (simp add: padded_coils_def)

lemma all_coils_bytes: "all_coils (wire (coil_bytes vs)) = padded_coils vs"
proof -
  let ?n = "coil_count vs"
  have "all_coils (wire (coil_bytes vs)) =
      concat (map (\<lambda>i. map (\<lambda>j. drop_bit j (coil_byte vs i) AND 1) [0..<8]) [0..<?n])"
    by (simp add: all_coils_def wire_def coil_bytes_def uint_of_byte comp_def)
  also have "\<dots> = map (\<lambda>k. drop_bit (k mod 8) (coil_byte vs (k div 8)) AND 1) [0..<8 * ?n]"
    by (rule concat_eight)
  also have "\<dots> = padded_coils vs"
  proof (rule nth_equalityI)
    show "length (map (\<lambda>k. drop_bit (k mod 8) (coil_byte vs (k div 8)) AND 1) [0..<8 * ?n]) = length (padded_coils vs)"
      using coil_count_bounds(1) [of vs] by (simp add: padded_coils_def)
    fix k
    assume "k < length (map (\<lambda>k. drop_bit (k mod 8) (coil_byte vs (k div 8)) AND 1) [0..<8 * ?n])"
    then have k: "k < 8 * ?n" by simp
    have "drop_bit (k mod 8) (coil_byte vs (k div 8)) AND 1 = of_bool (bit (coil_byte vs (k div 8)) (k mod 8))"
      by (simp add: and_one_eq bit_iff_odd_drop_bit odd_iff_mod_2_eq_one of_bool_def)
    also have "\<dots> = (if k < length vs then coil_value (vs ! k) else 0)"
      by (simp add: bit_coil_byte coil_value_def)
    finally show "map (\<lambda>k. drop_bit (k mod 8) (coil_byte vs (k div 8)) AND 1) [0..<8 * ?n] ! k = padded_coils vs ! k"
      using k by (simp add: padded_coils_def nth_append)
  qed
  finally show ?thesis .
qed

definition register_ok :: "int \<Rightarrow> bool" where
  "register_ok v \<longleftrightarrow> 0 \<le> v \<and> v < 0x10000"

lemma register_bytes_simps [simp]:
  "register_bytes [] = []"
  "register_bytes (v # vs) = [drop_bit 8 v AND 0xFF, v AND 0xFF] @ register_bytes vs"
  by (simp_all add: register_bytes_def)

lemma length_register_bytes [simp]: "length (register_bytes vs) = 2 * length vs"
  by (induction vs) auto

lemma all_bytes_register_bytes [simp]: "all_bytes (register_bytes vs)"
  by (induction vs) (auto simp: mask_mod byte_intros)

lemma register_request_bytes: "register_request_bytes vs = register_bytes vs"
proof (induction vs rule: rev_induct)
  case (snoc v vs)
  have "map (\<lambda>i. drop_bit (if i mod 2 \<noteq> 0 then 0 else 8) ((vs @ [v]) ! (i div 2)) AND 0xFF) [0..<2 * length vs] =
      register_request_bytes vs"
    unfolding register_request_bytes_def by (intro map_cong) (auto simp: nth_append)
  with snoc show ?case
    by (simp add: register_request_bytes_def register_bytes_def nth_append)
qed (simp add: register_request_bytes_def)

lemma decode_registers_bytes:
  assumes "list_all register_ok vs"
  shows "decode_registers (length vs) (wire (register_bytes vs)) = vs"
  using assms
proof (induction vs)
  case (Cons v vs)
  have "v mod 256 + 256 * (v div 256 mod 256) = v"
  proof -
    have "0 \<le> v div 256" "v div 256 < 256" using Cons.prems by (auto simp: register_ok_def)
    then show ?thesis by simp
  qed
  then have "from_be (wire [drop_bit 8 v AND 0xFF, v AND 0xFF]) = v"
    by (simp add: from_be_def uint_of_byte byte_intros mask_mod drop_bit_eq_div)
  moreover have "[0..<length (v # vs)] = 0 # map Suc [0..<length vs]"
    using upt_conv_Cons [of 0 "Suc (length vs)"] map_Suc_upt [of 0 "length vs"] by (simp del: upt_Suc)
  ultimately show ?case
    using Cons by (simp add: decode_registers_def slice_def comp_def from_be_def)
qed (simp add: decode_registers_def)

section \<open>Round trip\<close>

text \<open>
  The requests and responses that decoding gives: coil values are 0 or 1, and a response has whole
  bytes of them.
\<close>

definition coils_ok :: "int list \<Rightarrow> bool" where
  "coils_ok vs \<longleftrightarrow> list_all (\<lambda>v. v = 0 \<or> v = 1) vs \<and> length vs \<le> 2040"

definition registers_ok :: "int list \<Rightarrow> bool" where
  "registers_ok vs \<longleftrightarrow> list_all register_ok vs \<and> length vs \<le> 127"

fun req_ok :: "ReqPdu \<Rightarrow> bool" where
  "req_ok (ReadCoilsReq a n) \<longleftrightarrow> register_ok a \<and> register_ok n"
| "req_ok (ReadDiscreteInputsReq a n) \<longleftrightarrow> register_ok a \<and> register_ok n"
| "req_ok (ReadHoldingRegistersReq a n) \<longleftrightarrow> register_ok a \<and> register_ok n"
| "req_ok (ReadInputRegistersReq a n) \<longleftrightarrow> register_ok a \<and> register_ok n"
| "req_ok (WriteSingleCoilReq a v) \<longleftrightarrow> register_ok a \<and> (v = 0 \<or> v = 1)"
| "req_ok (WriteSingleRegisterReq a v) \<longleftrightarrow> register_ok a \<and> register_ok v"
| "req_ok (WriteMultipleCoilsReq a vs) \<longleftrightarrow> register_ok a \<and> coils_ok vs"
| "req_ok (WriteMultipleRegistersReq a vs) \<longleftrightarrow> register_ok a \<and> registers_ok vs"
| "req_ok (MaskWriteRegisterReq a m n) \<longleftrightarrow> register_ok a \<and> register_ok m \<and> register_ok n"
| "req_ok (ReadFifoQueueReq a) \<longleftrightarrow> register_ok a"

fun res_ok :: "ResPdu \<Rightarrow> bool" where
  "res_ok (ErrorRes fc e) \<longleftrightarrow> True"
| "res_ok (ReadCoilsRes vs) \<longleftrightarrow> coils_ok vs \<and> length vs mod 8 = 0"
| "res_ok (ReadDiscreteInputsRes vs) \<longleftrightarrow> coils_ok vs \<and> length vs mod 8 = 0"
| "res_ok (ReadHoldingRegistersRes vs) \<longleftrightarrow> registers_ok vs"
| "res_ok (ReadInputRegistersRes vs) \<longleftrightarrow> registers_ok vs"
| "res_ok (WriteSingleCoilRes a v) \<longleftrightarrow> register_ok a \<and> (v = 0 \<or> v = 1)"
| "res_ok (WriteSingleRegisterRes a v) \<longleftrightarrow> register_ok a \<and> register_ok v"
| "res_ok (WriteMultipleCoilsRes a n) \<longleftrightarrow> register_ok a \<and> register_ok n"
| "res_ok (WriteMultipleRegistersRes a n) \<longleftrightarrow> register_ok a \<and> register_ok n"
| "res_ok (MaskWriteRegisterRes a m n) \<longleftrightarrow> register_ok a \<and> register_ok m \<and> register_ok n"
| "res_ok (ReadFifoQueueRes vs) \<longleftrightarrow> registers_ok vs"

definition pdu_ok :: "Direction \<Rightarrow> Pdu \<Rightarrow> bool" where
  "pdu_ok direction pdu \<longleftrightarrow>
     (case (direction, pdu) of (REQUEST, PduReq req) \<Rightarrow> req_ok req | (RESPONSE, PduRes res) \<Rightarrow> res_ok res | _ \<Rightarrow> False)"

lemma coil_value_id: "list_all (\<lambda>v. v = 0 \<or> v = 1) vs \<Longrightarrow> map coil_value vs = vs"
  by (induction vs) (auto simp: coil_value_def)

lemma padded_coils_id: "coils_ok vs \<Longrightarrow> length vs mod 8 = 0 \<Longrightarrow> padded_coils vs = vs"
proof -
  assume "coils_ok vs" "length vs mod 8 = 0"
  moreover from this have "8 * coil_count vs = length vs" by (simp add: coil_count_def) presburger
  ultimately show ?thesis by (simp add: padded_coils_def coils_ok_def coil_value_id)
qed

text \<open>
  The integers that the generators yield, with one or two bytes of which the first is the function
  code, are the arguments of the following rules for fixed fields.
\<close>

lemma pack_two:
  assumes "register_ok a" "register_ok b"
  obtains ds where "pack_be [(2, a), (2, b)] = Ok ds" "length ds = 4" "all_bytes ds"
    "unpack_be [2, 2] (wire ds) = Ok [a, b]" "from_be (take 2 (wire ds)) = a" "from_be (take 2 (drop 2 (wire ds))) = b"
proof -
  have "fields_ok [(2, a), (2, b)]" using assms by (simp add: register_ok_def)
  from pack_be_Ok [OF this] obtain ds where "pack_be [(2, a), (2, b)] = Ok ds" "length ds = 4" "all_bytes ds"
    "unpack_be [2, 2] (wire ds) = Ok [a, b]" by auto
  with that show thesis by (simp add: unpack_be_def)
qed

lemma pack_three:
  assumes "register_ok a" "register_ok b" "register_ok c"
  obtains ds where "pack_be [(2, a), (2, b), (2, c)] = Ok ds" "length ds = 6" "all_bytes ds"
    "unpack_be [2, 2, 2] (wire ds) = Ok [a, b, c]"
proof -
  have "fields_ok [(2, a), (2, b), (2, c)]" using assms by (simp add: register_ok_def)
  from pack_be_Ok [OF this] that show thesis by auto
qed

lemma pack_counted:
  assumes "register_ok a" "register_ok b" "is_byte c"
  obtains ds where "pack_be [(2, a), (2, b), (1, c)] = Ok ds" "length ds = 5" "all_bytes ds"
    "unpack_be [2, 2, 1] (wire ds) = Ok [a, b, c]" "uint (wire ds ! 4) = c"
proof -
  have "fields_ok [(2, a), (2, b), (1, c)]" using assms by (simp add: register_ok_def is_byte_def)
  from pack_be_Ok [OF this] obtain ds where ds: "pack_be [(2, a), (2, b), (1, c)] = Ok ds" "length ds = 5" "all_bytes ds"
    "unpack_be [2, 2, 1] (wire ds) = Ok [a, b, c]" by auto
  then have "from_be (take 1 (drop 4 (wire ds))) = c" by (simp add: unpack_be_def)
  moreover have "take 1 (drop 4 (wire ds)) = [wire ds ! 4]" using ds(2) Cons_nth_drop_Suc [of 4 "wire ds"] by simp
  ultimately show thesis using that ds by (simp add: from_be_def)
qed

lemma FunctionCode_byte [simp]:
  "is_byte (FunctionCode_value fc)" "FunctionCode_value fc AND 0x80 = 0" "FunctionCode_value fc AND 0x7F = FunctionCode_value fc"
  by (cases fc; simp add: is_byte_num)+

lemma error_code_byte [simp]:
  "is_byte (FunctionCode_value fc OR 0x80)" "(FunctionCode_value fc OR 0x80) AND 0x80 \<noteq> 0"
  "(FunctionCode_value fc OR 0x80) AND 0x7F = FunctionCode_value fc"
  by (cases fc; simp add: is_byte_num)+

lemma Error_byte [simp]: "is_byte (Error_value e)"
  by (cases e; simp add: is_byte_num)

lemma FunctionCode_of_nums:
  "FunctionCode_of 1 = Ok READ_COILS" "FunctionCode_of 2 = Ok READ_DISCRETE_INPUTS"
  "FunctionCode_of 3 = Ok READ_HOLDING_REGISTERS" "FunctionCode_of 4 = Ok READ_INPUT_REGISTERS"
  "FunctionCode_of 5 = Ok WRITE_SINGLE_COIL" "FunctionCode_of 6 = Ok WRITE_SINGLE_REGISTER"
  "FunctionCode_of 15 = Ok WRITE_MULTIPLE_COILS" "FunctionCode_of 16 = Ok WRITE_MULTIPLE_REGISTER"
  "FunctionCode_of 22 = Ok MASK_WRITE_REGISTER" "FunctionCode_of 24 = Ok READ_FIFO_QUEUE"
  using FunctionCode_of_value [of READ_COILS] FunctionCode_of_value [of READ_DISCRETE_INPUTS]
    FunctionCode_of_value [of READ_HOLDING_REGISTERS] FunctionCode_of_value [of READ_INPUT_REGISTERS]
    FunctionCode_of_value [of WRITE_SINGLE_COIL] FunctionCode_of_value [of WRITE_SINGLE_REGISTER]
    FunctionCode_of_value [of WRITE_MULTIPLE_COILS] FunctionCode_of_value [of WRITE_MULTIPLE_REGISTER]
    FunctionCode_of_value [of MASK_WRITE_REGISTER] FunctionCode_of_value [of READ_FIFO_QUEUE]
  by simp_all

lemma byte_of_nat [simp]:
  "n \<le> 255 \<Longrightarrow> uint (word_of_nat n :: byte) = int n" "n \<le> 255 \<Longrightarrow> unat (word_of_nat n :: byte) = n"
  by (simp_all add: unat_of_nat unsigned_of_nat take_bit_nat_eq_self)

text \<open>A function code and two fields, decoded with \<open>struct.unpack\<close> or with \<open>int.from_bytes\<close>.\<close>

lemma two_fields_unpacked:
  assumes "register_ok a" "register_ok b" "is_byte c"
    and "\<And>bs. dec (word_of_int c # bs) = bindE (unpack_be [2, 2] (take 4 bs)) (\<lambda>v. Ok (f (v ! 0) (v ! 1), drop 4 bs))"
  shows "decodes_to (appendE (Ok [c]) (pack_be [(2, a), (2, b)])) dec (f a b)"
proof -
  obtain ds where "pack_be [(2, a), (2, b)] = Ok ds" "length ds = 4" "all_bytes ds"
    "unpack_be [2, 2] (wire ds) = Ok [a, b]" using pack_two [OF assms(1,2)] by metis
  with assms(3,4) show ?thesis by (intro decodes_toI [where ys = "c # ds"]) simp_all
qed

lemma two_fields_sliced:
  assumes "register_ok a" "register_ok b" "is_byte c"
    and "\<And>bs. dec (word_of_int c # bs) = Ok (f (from_be (take 2 bs)) (from_be (take 2 (drop 2 bs))), drop 4 bs)"
  shows "decodes_to (appendE (Ok [c]) (pack_be [(2, a), (2, b)])) dec (f a b)"
proof -
  obtain ds where "pack_be [(2, a), (2, b)] = Ok ds" "length ds = 4" "all_bytes ds"
    "from_be (take 2 (wire ds)) = a" "from_be (take 2 (drop 2 (wire ds))) = b" using pack_two [OF assms(1,2)] by metis
  with assms(3,4) show ?thesis by (intro decodes_toI [where ys = "c # ds"]) simp_all
qed

lemma coil_field: "register_ok (if v \<noteq> 0 then 0xFF00 else 0)"
  by (simp add: register_ok_def)

lemmas decode_req_simps = decode_req_def Let_def FunctionCode_of_nums is_byte_num
lemmas decode_res_simps = decode_res_def Let_def FunctionCode_of_nums is_byte_num

lemma req_codec: "req_ok req \<Longrightarrow> decodes_to (encode_req req) decode_req req"
proof (cases req)
  case (WriteMultipleCoilsReq a vs)
  assume "req_ok req"
  then have ok: "register_ok a" "coils_ok vs" by (simp_all add: WriteMultipleCoilsReq)
  have n: "coil_count vs \<le> 255" "register_ok (int (length vs))" "is_byte (int (coil_count vs))"
    using ok(2) coil_count_le [of vs] by (auto simp: coils_ok_def register_ok_def is_byte_def)
  from pack_counted [OF ok(1) n(2,3)] obtain ds where
    ds: "pack_be [(2, a), (2, int (length vs)), (1, int (coil_count vs))] = Ok ds" "length ds = 5" "all_bytes ds"
    "unpack_be [2, 2, 1] (wire ds) = Ok [a, int (length vs), int (coil_count vs)]" by metis
  have "map coil_value vs = vs" using ok(2) by (simp add: coils_ok_def coil_value_id)
  with ds show ?thesis
    by (intro decodes_toI [where ys = "FunctionCode_value WRITE_MULTIPLE_COILS # ds @ coil_bytes vs"])
      (simp_all add: WriteMultipleCoilsReq decode_req_simps slice_def
        decode_coils_bytes)
next
  case (WriteMultipleRegistersReq a vs)
  assume "req_ok req"
  then have ok: "register_ok a" "registers_ok vs" by (simp_all add: WriteMultipleRegistersReq)
  have n: "register_ok (int (length vs))" "is_byte (2 * int (length vs))"
    using ok(2) by (auto simp: registers_ok_def register_ok_def is_byte_def)
  from pack_counted [OF ok(1) n] obtain ds where
    ds: "pack_be [(2, a), (2, int (length vs)), (1, 2 * int (length vs))] = Ok ds" "length ds = 5" "all_bytes ds"
    "unpack_be [2, 2, 1] (wire ds) = Ok [a, int (length vs), 2 * int (length vs)]" by metis
  have "decode_registers (length vs) (wire (register_bytes vs)) = vs"
    using ok(2) by (intro decode_registers_bytes) (simp add: registers_ok_def)
  with ds show ?thesis
    by (intro decodes_toI [where ys = "FunctionCode_value WRITE_MULTIPLE_REGISTER # ds @ register_bytes vs"])
      (simp_all add: WriteMultipleRegistersReq decode_req_simps slice_def
        nat_mult_distrib register_request_bytes)
next
  case (MaskWriteRegisterReq a m n)
  assume "req_ok req"
  then obtain ds where "pack_be [(2, a), (2, m), (2, n)] = Ok ds" "length ds = 6" "all_bytes ds"
    "unpack_be [2, 2, 2] (wire ds) = Ok [a, m, n]"
    using pack_three [of a m n] MaskWriteRegisterReq by auto
  then show ?thesis
    by (intro decodes_toI [where ys = "FunctionCode_value MASK_WRITE_REGISTER # ds"])
      (simp_all add: MaskWriteRegisterReq decode_req_simps)
next
  case (ReadCoilsReq a n)
  assume "req_ok req"
  then show ?thesis
    using two_fields_unpacked [of a n "FunctionCode_value READ_COILS" decode_req ReadCoilsReq]
    by (simp add: ReadCoilsReq decode_req_simps)
next
  case (ReadDiscreteInputsReq a n)
  assume "req_ok req"
  then show ?thesis
    using two_fields_unpacked [of a n "FunctionCode_value READ_DISCRETE_INPUTS" decode_req ReadDiscreteInputsReq]
    by (simp add: ReadDiscreteInputsReq decode_req_simps)
next
  case (ReadHoldingRegistersReq a n)
  assume "req_ok req"
  then show ?thesis
    using two_fields_unpacked [of a n "FunctionCode_value READ_HOLDING_REGISTERS" decode_req ReadHoldingRegistersReq]
    by (simp add: ReadHoldingRegistersReq decode_req_simps)
next
  case (ReadInputRegistersReq a n)
  assume "req_ok req"
  then show ?thesis
    using two_fields_unpacked [of a n "FunctionCode_value READ_INPUT_REGISTERS" decode_req ReadInputRegistersReq]
    by (simp add: ReadInputRegistersReq decode_req_simps)
next
  case (WriteSingleRegisterReq a n)
  assume "req_ok req"
  then show ?thesis
    using two_fields_unpacked [of a n "FunctionCode_value WRITE_SINGLE_REGISTER" decode_req WriteSingleRegisterReq]
    by (simp add: WriteSingleRegisterReq decode_req_simps)
next
  case (WriteSingleCoilReq a v)
  assume "req_ok req"
  then show ?thesis
    using two_fields_unpacked [of a _ "FunctionCode_value WRITE_SINGLE_COIL" decode_req
        "\<lambda>a b. WriteSingleCoilReq a (if b \<noteq> 0 then 1 else 0)", OF _ coil_field [of v]]
    by (auto simp: WriteSingleCoilReq decode_req_simps)
next
  case (ReadFifoQueueReq a)
  assume "req_ok req"
  then have "pack_be [(2, a)] = Ok (rev (le_digits 2 a))" "from_be (wire (rev (le_digits 2 a))) = a"
    by (simp_all add: ReadFifoQueueReq register_ok_def pack_be_def pack_field_def from_be_digits)
  then show ?thesis
    by (intro decodes_toI [where ys = "FunctionCode_value READ_FIFO_QUEUE # rev (le_digits 2 a)"])
      (simp_all add: ReadFifoQueueReq decode_req_simps)
qed

lemma counted_coils_bytes:
  assumes "coils_ok vs" "length vs mod 8 = 0"
  shows "counted_coils (wire (int (coil_count vs) # coil_bytes vs) @ rest) = Ok (vs, rest)"
    "is_byte (int (coil_count vs))"
proof -
  have n: "coil_count vs \<le> 255" using assms(1) coil_count_le [of vs] by (simp add: coils_ok_def)
  then show "is_byte (int (coil_count vs))" by (simp add: is_byte_def)
  from n show "counted_coils (wire (int (coil_count vs) # coil_bytes vs) @ rest) = Ok (vs, rest)"
    by (simp add: counted_coils_def slice_def all_coils_bytes padded_coils_id [OF assms])
qed

lemma counted_registers_bytes:
  assumes "registers_ok vs"
  shows "counted_registers (wire (int (length vs) * 2 # register_bytes vs) @ rest) = Ok (vs, rest)"
    "is_byte (int (length vs) * 2)"
proof -
  show b: "is_byte (int (length vs) * 2)" using assms by (simp add: registers_ok_def is_byte_def)
  have "decode_registers (length vs) (wire (register_bytes vs)) = vs"
    using assms by (intro decode_registers_bytes) (simp add: registers_ok_def)
  with uint_of_byte [OF b] show "counted_registers (wire (int (length vs) * 2 # register_bytes vs) @ rest) = Ok (vs, rest)"
    by (simp add: counted_registers_def slice_def nat_mult_distrib Let_def mult.commute)
qed

lemma res_codec: "res_ok res \<Longrightarrow> decodes_to (encode_res res) decode_res res"
proof (cases res)
  case (ErrorRes fc e)
  then show ?thesis
    by (intro decodes_toI [where ys = "[FunctionCode_value fc OR 0x80, Error_value e]"])
      (simp_all add: decode_res_def Let_def uint_of_byte)
next
  case (ReadCoilsRes vs)
  assume "res_ok res"
  then show ?thesis
    using counted_coils_bytes [of vs]
    by (intro decodes_toI [where ys = "FunctionCode_value READ_COILS # int (coil_count vs) # coil_bytes vs"])
      (simp_all add: ReadCoilsRes decode_res_simps)
next
  case (ReadDiscreteInputsRes vs)
  assume "res_ok res"
  then show ?thesis
    using counted_coils_bytes [of vs]
    by (intro decodes_toI [where ys = "FunctionCode_value READ_DISCRETE_INPUTS # int (coil_count vs) # coil_bytes vs"])
      (simp_all add: ReadDiscreteInputsRes decode_res_simps)
next
  case (ReadHoldingRegistersRes vs)
  assume "res_ok res"
  then show ?thesis
    using counted_registers_bytes [of vs]
    by (intro decodes_toI [where ys = "FunctionCode_value READ_HOLDING_REGISTERS # int (length vs) * 2 # register_bytes vs"])
      (simp_all add: ReadHoldingRegistersRes decode_res_simps)
next
  case (ReadInputRegistersRes vs)
  assume "res_ok res"
  then show ?thesis
    using counted_registers_bytes [of vs]
    by (intro decodes_toI [where ys = "FunctionCode_value READ_INPUT_REGISTERS # int (length vs) * 2 # register_bytes vs"])
      (simp_all add: ReadInputRegistersRes decode_res_simps)
next
  case (ReadFifoQueueRes vs)
  assume "res_ok res"
  then show ?thesis
    using counted_registers_bytes [of vs]
    by (intro decodes_toI [where ys = "FunctionCode_value READ_FIFO_QUEUE # int (length vs) * 2 # register_bytes vs"])
      (simp_all add: ReadFifoQueueRes decode_res_simps)
next
  case (WriteSingleRegisterRes a n)
  assume "res_ok res"
  then show ?thesis
    using two_fields_sliced [of a n "FunctionCode_value WRITE_SINGLE_REGISTER" decode_res WriteSingleRegisterRes]
    by (simp add: WriteSingleRegisterRes decode_res_simps)
next
  case (WriteMultipleCoilsRes a n)
  assume "res_ok res"
  then show ?thesis
    using two_fields_sliced [of a n "FunctionCode_value WRITE_MULTIPLE_COILS" decode_res WriteMultipleCoilsRes]
    by (simp add: WriteMultipleCoilsRes decode_res_simps)
next
  case (WriteMultipleRegistersRes a n)
  assume "res_ok res"
  then show ?thesis
    using two_fields_sliced [of a n "FunctionCode_value WRITE_MULTIPLE_REGISTER" decode_res WriteMultipleRegistersRes]
    by (simp add: WriteMultipleRegistersRes decode_res_simps)
next
  case (WriteSingleCoilRes a v)
  assume "res_ok res"
  then show ?thesis
    using two_fields_sliced [of a _ "FunctionCode_value WRITE_SINGLE_COIL" decode_res
        "\<lambda>a b. WriteSingleCoilRes a (if b \<noteq> 0 then 1 else 0)", OF _ coil_field [of v]]
    by (auto simp: WriteSingleCoilRes decode_res_simps)
next
  case (MaskWriteRegisterRes a m n)
  assume "res_ok res"
  then obtain ds where "pack_be [(2, a), (2, m), (2, n)] = Ok ds" "length ds = 6" "all_bytes ds"
    "unpack_be [2, 2, 2] (wire ds) = Ok [a, m, n]"
    using pack_three [of a m n] MaskWriteRegisterRes by auto
  then show ?thesis
    by (intro decodes_toI [where ys = "FunctionCode_value MASK_WRITE_REGISTER # ds"])
      (simp_all add: MaskWriteRegisterRes decode_res_simps)
qed

lemma pdu_codec: "pdu_ok direction pdu \<Longrightarrow> decodes_to (encode_pdu pdu) (decode_pdu direction) pdu"
  using req_codec res_codec
  by (fastforce simp: pdu_ok_def encode_pdu_def decode_pdu_def decodes_to_def split: Direction.splits Pdu.splits)

section \<open>The size of a unit is known from its first bytes\<close>

lemma pack_be_length: "pack_be fields = Ok ds \<Longrightarrow> length ds = sum_list (map fst fields)"
proof -
  assume ok: "pack_be fields = Ok ds"
  then have "fields_ok fields" using pack_be_Ok_iff_fields by blast
  from pack_be_Ok [OF this] ok show ?thesis by auto
qed

text \<open>What follows the function code.\<close>

fun req_body :: "FunctionCode \<Rightarrow> int list \<Rightarrow> bool" where
  "req_body WRITE_MULTIPLE_COILS ds \<longleftrightarrow> (\<exists>n. ds ! 4 = int n \<and> length ds = 5 + n)"
| "req_body WRITE_MULTIPLE_REGISTER ds \<longleftrightarrow> (\<exists>n. ds ! 4 = int n \<and> length ds = 5 + n)"
| "req_body MASK_WRITE_REGISTER ds \<longleftrightarrow> length ds = 6"
| "req_body READ_FIFO_QUEUE ds \<longleftrightarrow> length ds = 2"
| "req_body _ ds \<longleftrightarrow> length ds = 4"

fun res_body :: "FunctionCode \<Rightarrow> int list \<Rightarrow> bool" where
  "res_body WRITE_SINGLE_COIL ds \<longleftrightarrow> length ds = 4"
| "res_body WRITE_SINGLE_REGISTER ds \<longleftrightarrow> length ds = 4"
| "res_body WRITE_MULTIPLE_COILS ds \<longleftrightarrow> length ds = 4"
| "res_body WRITE_MULTIPLE_REGISTER ds \<longleftrightarrow> length ds = 4"
| "res_body MASK_WRITE_REGISTER ds \<longleftrightarrow> length ds = 6"
| "res_body _ ds \<longleftrightarrow> (\<exists>n. ds ! 0 = int n \<and> length ds = 1 + n)"

lemma req_shape:
  assumes "encode_req req = Ok ys"
  obtains ds where "ys = FunctionCode_value (get_req_function_code req) # ds"
    "req_body (get_req_function_code req) ds"
proof -
  have counted: "ds ! 4 = c \<and> length ds = 5" if "pack_be [(2, a), (2, b), (1, c)] = Ok ds" for a b c ds
    using that by (auto simp: pack_be_def appendE_Ok_iff pack_field_Ok_iff nth_append)
  show thesis
  proof (cases req)
    case (WriteMultipleCoilsReq a vs)
    with assms obtain ds where ds: "pack_be [(2, a), (2, int (length vs)), (1, int (coil_count vs))] = Ok ds"
      "ys = FunctionCode_value WRITE_MULTIPLE_COILS # ds @ coil_bytes vs" by (auto simp: appendE_Ok_iff)
    with counted [OF ds(1)] WriteMultipleCoilsReq that [of "ds @ coil_bytes vs"] show thesis by (simp add: nth_append)
  next
    case (WriteMultipleRegistersReq a vs)
    with assms obtain ds where ds: "pack_be [(2, a), (2, int (length vs)), (1, 2 * int (length vs))] = Ok ds"
      "ys = FunctionCode_value WRITE_MULTIPLE_REGISTER # ds @ register_bytes vs"
      by (auto simp: appendE_Ok_iff register_request_bytes)
    with counted [OF ds(1)] WriteMultipleRegistersReq that [of "ds @ register_bytes vs"] show thesis
      by (simp add: nth_append)
  qed (use assms that in \<open>auto simp: appendE_Ok_iff dest!: pack_be_length\<close>)
qed

lemma res_shape:
  assumes "encode_res res = Ok ys"
  obtains (failure) fc e where "res = ErrorRes fc e" "ys = [FunctionCode_value fc OR 0x80, Error_value e]"
  | (result) ds where "ys = FunctionCode_value (get_res_function_code res) # ds"
    "res_body (get_res_function_code res) ds"
proof -
  have counted: "\<exists>n. int (length vs) * 2 = int n \<and> length (register_bytes vs) = n" for vs :: "int list"
    by (intro exI [of _ "2 * length vs"]) simp
  show thesis
    using assms that counted by (cases res) (auto simp: appendE_Ok_iff dest!: pack_be_length)
qed

lemma byte_at_prefix: "p @ q = xs \<Longrightarrow> i < length p \<Longrightarrow> byte_at p i = byte_at xs i"
  by (auto simp: byte_at_append)

text \<open>
  After the address of a device and a prefix of the unit, the size that the code computes is the
  size of the unit or, while this is not known, enough for the bytes that tell it.
\<close>

lemma req_size:
  assumes "encode_req req = Ok ys" "all_bytes ys" "b # wire ys @ c = p @ q" "p \<noteq> []"
  shows "\<exists>n. get_next_req_size p 1 = Ok n \<and> n \<le> length ys \<and> (n = length ys \<or> length p \<le> n)"
proof -
  let ?fc = "get_req_function_code req"
  obtain ds where ys: "ys = FunctionCode_value ?fc # ds"
    and ds: "req_body ?fc ds" using req_shape [OF assms(1)] by metis
  show ?thesis
  proof (cases "length p < 2")
    case True
    with assms(4) ys show ?thesis by (cases p) (auto simp: get_next_req_size_def)
  next
    case False
    then have one: "byte_at p 1 = Ok (FunctionCode_value ?fc)"
      using byte_at_prefix [OF assms(3) [symmetric], of 1] ys by (simp add: uint_of_byte)
    show ?thesis
    proof (cases "?fc \<in> {WRITE_MULTIPLE_COILS, WRITE_MULTIPLE_REGISTER}")
      case multiple: True
      with ds obtain n where n: "ds ! 4 = int n" "length ds = 5 + n" by auto
      have "byte_at p 6 = Ok (int n)" if "7 \<le> length p"
      proof -
        have "all_bytes ds" using assms(2) ys by simp
        then have "is_byte (ds ! 4)" using n(2) by (auto simp: all_bytes_def list_all_length)
        then have "n \<le> 255" using n(1) by (simp add: is_byte_def)
        moreover have "wire ds ! 4 = word_of_int (ds ! 4)" using n by (simp add: wire_def)
        ultimately show ?thesis
          using byte_at_prefix [OF assms(3) [symmetric], of 6] that ys n
          by (simp add: byte_at_def nth_append)
      qed
      then have "get_next_req_size p 1 = Ok (if length p < 7 then 6 else n + 6)"
        using one False multiple by (auto simp: get_next_req_size_def)
      with n ys show ?thesis by auto
    next
      case False
      with ds have "get_next_req_size p 1 = Ok (length ys)"
        using one \<open>\<not> length p < 2\<close> by (cases ?fc) (simp_all add: get_next_req_size_def ys FunctionCode_of_nums)
      then show ?thesis by simp
    qed
  qed
qed

lemma res_size:
  assumes "encode_res res = Ok ys" "all_bytes ys" "b # wire ys @ c = p @ q" "p \<noteq> []"
  shows "\<exists>n. get_next_res_size p 1 = Ok n \<and> n \<le> length ys \<and> (n = length ys \<or> length p \<le> n)"
proof (cases "length p < 2")
  case True
  then have "get_next_res_size p 1 = Ok 1" "length p = 1"
    using assms(4) by (cases p; simp add: get_next_res_size_def)+
  moreover have "1 \<le> length ys" by (rule res_shape [OF assms(1)]) simp_all
  ultimately show ?thesis by simp
next
  case False
  note one = byte_at_prefix [OF assms(3) [symmetric], of 1]
  show ?thesis
  proof (rule res_shape [OF assms(1)])
    fix fc e
    assume "ys = [FunctionCode_value fc OR 0x80, Error_value e]"
    with one False show ?thesis by (simp add: get_next_res_size_def uint_of_byte)
  next
    fix ds
    let ?fc = "get_res_function_code res"
    assume ys: "ys = FunctionCode_value ?fc # ds"
      and ds: "res_body ?fc ds"
    have one: "byte_at p 1 = Ok (FunctionCode_value ?fc)" using one False ys by (simp add: uint_of_byte)
    show ?thesis
    proof (cases "?fc \<in> {READ_COILS, READ_DISCRETE_INPUTS, READ_HOLDING_REGISTERS, READ_INPUT_REGISTERS, READ_FIFO_QUEUE}")
      case counted: True
      with ds obtain n where n: "ds ! 0 = int n" "length ds = 1 + n" by auto
      then obtain es where es: "ds = int n # es" by (cases ds) auto
      have "is_byte (int n)" using assms(2) ys es by simp
      then have "n \<le> 255" by (simp add: is_byte_def)
      then have "byte_at p 2 = Ok (int n)" if "3 \<le> length p"
        using byte_at_prefix [OF assms(3) [symmetric], of 2] that ys es by simp
      then have "get_next_res_size p 1 = Ok (if length p < 3 then 2 else n + 2)"
        using one \<open>\<not> length p < 2\<close> counted by (auto simp: get_next_res_size_def numeral_2_eq_2)
      with n ys show ?thesis by auto
    next
      case False
      with ds have "get_next_res_size p 1 = Ok (length ys)"
        using one \<open>\<not> length p < 2\<close> by (cases ?fc) (simp_all add: get_next_res_size_def ys FunctionCode_of_nums)
      then show ?thesis by simp
    qed
  qed
qed

lemma pdu_size:
  assumes "pdu_ok direction pdu" "encode_pdu pdu = Ok ys" "all_bytes ys" "b # wire ys @ c = p @ q" "p \<noteq> []"
  shows "\<exists>n. get_next_pdu_size direction p 1 = Ok n \<and> n \<le> length ys \<and> (n = length ys \<or> length p \<le> n)"
  using assms req_size [OF _ assms(3-5)] res_size [OF _ assms(3-5)]
  by (auto simp: pdu_ok_def encode_pdu_def get_next_pdu_size_def split: Direction.splits Pdu.splits)

text \<open>No unit is longer than 256 bytes or so; the length field of a TCP unit has room for it.\<close>

lemma pdu_length:
  assumes "encode_pdu pdu = Ok ys" "all_bytes ys"
  shows "1 \<le> length ys \<and> length ys \<le> 261"
proof -
  have b: "n \<le> 255" if "ds ! i = int n" "all_bytes ds" "i < length ds" for ds i n
    using that by (auto simp: all_bytes_def list_all_length is_byte_def dest!: spec [of _ i])
  have "1 \<le> length ys \<and> length ys \<le> 261" if "encode_req req = Ok ys" for req
    using that
  proof (rule req_shape)
    fix ds
    assume "ys = FunctionCode_value (get_req_function_code req) # ds"
      "req_body (get_req_function_code req) ds"
    with assms(2) b [of ds 4] show ?thesis by (cases "get_req_function_code req") auto
  qed
  moreover have "1 \<le> length ys \<and> length ys \<le> 261" if "encode_res res = Ok ys" for res
    using that
  proof (rule res_shape)
    fix ds
    assume "ys = FunctionCode_value (get_res_function_code res) # ds"
      "res_body (get_res_function_code res) ds"
    with assms(2) b [of ds 0] show ?thesis by (cases ds; cases "get_res_function_code res") auto
  qed simp
  ultimately show ?thesis using assms(1) by (cases pdu) (auto simp: encode_pdu_def)
qed

end
