(* ===== verification/Modbus_Checks.thy ===== *)
theory Modbus_Checks
  imports Prelude
begin

text \<open>
  The two checksums of Modbus, from \<^verbatim>\<open>modbus/transport/encoder.py\<close>: \<open>_calculate_crc\<close> of the
  RTU mode, which the driver also has in C (\<^verbatim>\<open>src_c/py/modbus/_encoder.c\<close>, used where the
  extension is built), and \<open>_calculate_lrc\<close> of the ASCII mode.
\<close>

unbundle bit_operations_syntax

section \<open>Definitions\<close>

text \<open>One round of the inner loop, the inner loop for a byte, and the function.\<close>

definition crc_round :: "int \<Rightarrow> int" where
  "crc_round crc =
     (let lsb = crc AND 1;
          crc = drop_bit 1 crc
      in if lsb \<noteq> 0 then crc XOR 0xA001 else crc)"

definition crc_byte :: "int \<Rightarrow> int \<Rightarrow> int" where
  "crc_byte crc i = (crc_round ^^ 8) (crc XOR i)"

abbreviation crc_from :: "int \<Rightarrow> bytes \<Rightarrow> int" where
  "crc_from \<equiv> foldl (\<lambda>crc b. crc_byte crc (uint b))"

definition calculate_crc :: "bytes \<Rightarrow> int" where
  "calculate_crc data = crc_from 0xFFFF data"

text \<open>The function of the C extension, on 16-bit unsigned integers.\<close>

definition c_crc_round :: "16 word \<Rightarrow> 16 word" where
  "c_crc_round crc = (if crc AND 1 \<noteq> 0 then (drop_bit 1 crc) XOR 0xA001 else drop_bit 1 crc)"

definition c_crc_byte :: "16 word \<Rightarrow> 8 word \<Rightarrow> 16 word" where
  "c_crc_byte crc b = (c_crc_round ^^ 8) (crc XOR ucast b)"

definition c_calculate_crc :: "bytes \<Rightarrow> 16 word" where
  "c_calculate_crc data = foldl c_crc_byte 0xFFFF data"

definition calculate_lrc :: "bytes \<Rightarrow> int" where
  "calculate_lrc data = (NOT (sum_list (map uint data)) + 1) AND 0xFF"

section \<open>The two implementations agree\<close>

definition is_word16 :: "int \<Rightarrow> bool" where
  "is_word16 x \<longleftrightarrow> 0 \<le> x \<and> x < 0x10000"

lemma is_word16_uint [simp]: "is_word16 (uint (w :: 16 word))"
  using uint_lt2p [of w] by (simp add: is_word16_def)

lemma is_word16_xor [intro]: "is_word16 x \<Longrightarrow> is_word16 y \<Longrightarrow> is_word16 (x XOR y)"
  using XOR_upper [of x 16 y] by (simp add: is_word16_def)

lemma is_word16_byte [intro]: "is_byte x \<Longrightarrow> is_word16 x"
  by (simp add: is_word16_def is_byte_def)

lemma is_word16_drop_bit [intro]: "is_word16 x \<Longrightarrow> is_word16 (drop_bit (Suc 0) x)"
  by (auto simp: is_word16_def drop_bit_eq_div)

lemma is_word16_crc_round [intro]: "is_word16 x \<Longrightarrow> is_word16 (crc_round x)"
  by (auto simp: crc_round_def Let_def is_word16_drop_bit intro!: is_word16_xor) (simp_all add: is_word16_def)

lemma is_word16_crc_rounds: "is_word16 x \<Longrightarrow> is_word16 ((crc_round ^^ n) x)"
  by (induction n) auto

lemma is_word16_crc_byte [intro]: "is_word16 crc \<Longrightarrow> is_byte i \<Longrightarrow> is_word16 (crc_byte crc i)"
  by (auto simp: crc_byte_def intro!: is_word16_crc_rounds)

lemma is_word16_crc: "is_word16 (calculate_crc data)"
proof -
  have "is_word16 crc \<Longrightarrow> is_word16 (crc_from crc data)" for crc
    by (induction data arbitrary: crc) (simp_all add: is_word16_crc_byte)
  then show ?thesis by (simp add: calculate_crc_def is_word16_def)
qed

lemma uint_c_crc_round: "uint (c_crc_round w) = crc_round (uint w)"
proof -
  have "w AND 1 = 0 \<longleftrightarrow> uint w AND 1 = 0"
    by (metis uint_1 uint_and uint_0_iff)
  moreover have "take_bit 16 (uint w) = uint w"
    using uint_lt2p [of w] by (simp add: take_bit_eq_mod)
  ultimately show ?thesis
    by (simp add: c_crc_round_def crc_round_def Let_def uint_xor unsigned_drop_bit_eq)
qed

lemma uint_c_crc_rounds: "uint ((c_crc_round ^^ n) w) = (crc_round ^^ n) (uint w)"
  by (induction n) (simp_all add: uint_c_crc_round)

lemma uint_c_crc_byte: "uint (c_crc_byte w b) = crc_byte (uint w) (uint b)"
  by (simp add: c_crc_byte_def crc_byte_def uint_c_crc_rounds uint_xor unsigned_ucast_eq take_bit_eq_mod
      uint_byte_bounds order_less_le_trans [OF uint_byte_bounds(2)])

section \<open>Every change of one byte changes the checksums\<close>

text \<open>
  A round is injective on 16-bit numbers: its highest result bit is the bit that was shifted out.
\<close>

lemma crc_round_bit: "bit (crc_round x) n \<longleftrightarrow> (bit x (Suc n) \<noteq> (bit x 0 \<and> bit (0xA001 :: int) n))"
  by (auto simp: crc_round_def Let_def bit_simps bit_tests)

lemma not_bit_word16: "is_word16 x \<Longrightarrow> 16 \<le> n \<Longrightarrow> \<not> bit x n"
proof -
  assume "is_word16 x" "16 \<le> n"
  then have "take_bit 16 x = x" by (simp add: is_word16_def take_bit_eq_mod)
  with \<open>16 \<le> n\<close> show ?thesis by (metis bit_take_bit_iff not_less)
qed

lemma crc_round_inj: "is_word16 x \<Longrightarrow> is_word16 y \<Longrightarrow> crc_round x = crc_round y \<longleftrightarrow> x = y"
proof
  assume w: "is_word16 x" "is_word16 y" and eq: "crc_round x = crc_round y"
  have r: "bit (crc_round x) n = bit (crc_round y) n" for n by (simp add: eq)
  from r [of 15] w have b0: "bit x 0 = bit y 0"
    by (simp add: crc_round_bit not_bit_word16 bit_numeral_rec)
  have "bit x (Suc n) = bit y (Suc n)" for n
    using r [of n] b0 by (auto simp: crc_round_bit)
  with b0 have "bit x n = bit y n" for n by (cases n) auto
  then show "x = y" by (intro bit_eqI) simp
qed simp

lemma crc_rounds_inj: "is_word16 x \<Longrightarrow> is_word16 y \<Longrightarrow> (crc_round ^^ n) x = (crc_round ^^ n) y \<longleftrightarrow> x = y"
  by (induction n) (simp_all add: crc_round_inj is_word16_crc_rounds)

lemma xor_cancel [simp]: "x XOR z = y XOR z \<longleftrightarrow> x = y" "z XOR x = z XOR y \<longleftrightarrow> x = y" for x y z :: int
  by (auto simp: bit_eq_iff bit_xor_iff)

lemma crc_byte_inj:
  "is_word16 c \<Longrightarrow> is_word16 d \<Longrightarrow> is_byte i \<Longrightarrow> crc_byte c i = crc_byte d i \<longleftrightarrow> c = d"
  "is_word16 c \<Longrightarrow> is_byte i \<Longrightarrow> is_byte j \<Longrightarrow> crc_byte c i = crc_byte c j \<longleftrightarrow> i = j"
  by (simp_all add: crc_byte_def crc_rounds_inj is_word16_xor is_word16_byte)

lemma crc_foldl_inj:
  assumes "is_word16 c" "is_word16 d"
  shows "crc_from c data = crc_from d data \<longleftrightarrow> c = d"
  using assms
proof (induction data arbitrary: c d)
  case (Cons b data)
  then show ?case using crc_byte_inj(1) [of c d "uint b"] by (simp add: is_word16_crc_byte)
qed simp

lemma is_word16_foldl: "is_word16 c \<Longrightarrow> is_word16 (crc_from c data)"
  by (induction data arbitrary: c) (simp_all add: is_word16_crc_byte)

lemma crc_detects_byte:
  assumes "b \<noteq> b'"
  shows "calculate_crc (p @ b # q) \<noteq> calculate_crc (p @ b' # q)"
proof -
  let ?c = "crc_from 0xFFFF p"
  have c: "is_word16 ?c" by (rule is_word16_foldl) (simp add: is_word16_def)
  have "crc_byte ?c (uint b) \<noteq> crc_byte ?c (uint b')" using assms c by (simp add: crc_byte_inj word_uint_eq_iff)
  then show ?thesis using c by (simp add: calculate_crc_def crc_foldl_inj is_word16_crc_byte)
qed

lemma calculate_lrc_mod: "calculate_lrc data = (- sum_list (map uint data)) mod 256"
  by (simp add: calculate_lrc_def mask_mod minus_eq_not_plus_1 [symmetric])

lemma is_byte_lrc [simp]: "is_byte (calculate_lrc data)"
  by (simp add: calculate_lrc_mod is_byte_mod)

lemma lrc_detects_byte:
  assumes "b \<noteq> b'"
  shows "calculate_lrc (p @ b # q) \<noteq> calculate_lrc (p @ b' # q)"
proof
  assume eq: "calculate_lrc (p @ b # q) = calculate_lrc (p @ b' # q)"
  define s where "s = sum_list (map uint p) + sum_list (map uint q)"
  from eq have "(- (uint b + s)) mod 256 = (- (uint b' + s)) mod 256"
    by (simp add: calculate_lrc_mod s_def algebra_simps)
  then have "256 dvd uint b - uint b'" by (simp add: mod_eq_dvd_iff dvd_diff_commute)
  moreover have "\<bar>uint b - uint b'\<bar> < 256"
    using uint_byte_bounds [of b] uint_byte_bounds [of b'] by linarith
  ultimately have "uint b = uint b'" by (meson dvd_imp_le_int not_le right_minus_eq abs_ge_zero dual_order.strict_trans1 zdvd_not_zless zero_less_abs_iff dvd_abs_iff)
  with assms show False by (simp add: word_uint_eq_iff)
qed

section \<open>Properties\<close>

text \<open>
  C16: the two implementations of the checksum of the RTU mode, in Python and in C, agree on all
  data.
\<close>

theorem crc_implementations_agree: "calculate_crc data = uint (c_calculate_crc data)"
proof -
  have "uint (foldl c_crc_byte w data) = crc_from (uint w) data" for w
    by (induction data arbitrary: w) (simp_all add: uint_c_crc_byte)
  from this [of "0xFFFF"] show ?thesis by (simp add: calculate_crc_def c_calculate_crc_def)
qed

end
