(* ===== verification/Modbus_Encoder.thy ===== *)
theory Modbus_Encoder
  imports Modbus_Pdu Modbus_Checks Framing
begin

text \<open>
  Application data units of the three modes of Modbus, and the loop that reads one of them, from
  \<^verbatim>\<open>modbus/transport/encoder.py\<close> and \<open>Connection.receive\<close> in
  \<^verbatim>\<open>modbus/transport/connection.py\<close>. All three are interpretations of the locale \<open>framing\<close>.
\<close>

unbundle bit_operations_syntax

section \<open>Decoding\<close>

definition decode_tcp_adu :: "Direction \<Rightarrow> bytes \<Rightarrow> (Adu \<times> bytes) result" where
  "decode_tcp_adu direction data =
     bindE (unpack_be [2, 2, 2, 1] (take 7 data)) (\<lambda>v.
       let rest = drop 7 data in
       if v ! 1 \<noteq> 0 then Raise (Exception ''invalid protocol identifier'')
       else bindE (decode_pdu direction (slice_to (v ! 2 - 1) rest)) (\<lambda>(pdu, _).
         Ok (TcpAdu (v ! 0) (v ! 3) pdu, slice_from (v ! 2 - 1) rest)))"

definition decode_rtu_adu :: "Direction \<Rightarrow> bytes \<Rightarrow> (Adu \<times> bytes) result" where
  "decode_rtu_adu direction data =
     bindE (byte_at data 0) (\<lambda>device_id.
     bindE (decode_pdu direction (drop 1 data)) (\<lambda>(pdu, rest).
       let crc = from_le (take 2 rest);
           rest = drop 2 rest;
           calculated_crc = calculate_crc (slice_to (int (length data) - int (length rest) - 2) data)
       in if crc \<noteq> calculated_crc then Raise (Exception ''CRC did not match received message'')
          else Ok (RtuAdu device_id pdu, rest)))"

text \<open>The two loops of \<open>_decode_ascii_adu\<close>: to the first colon, and over pairs of characters.\<close>

fun skip_to_colon :: "bytes \<Rightarrow> bytes result" where
  "skip_to_colon [] = Raise IndexError"
| "skip_to_colon (b # bs) = (if b = 0x3A then Ok bs else skip_to_colon bs)"

lemma hex_int_Nil [simp]: "hex_int [] = Raise (ValueError ''invalid literal for int() with base 16'')"
  by (simp add: hex_int_def)

function ascii_pairs :: "bytes \<Rightarrow> (bytes \<times> bytes) result" where
  "ascii_pairs rest =
     (if take 2 rest = [13, 10] then Ok ([], drop 2 rest)
      else bindE (hex_int (take 2 rest)) (\<lambda>x. bindE (py_bytes [x]) (\<lambda>bs.
        bindE (ascii_pairs (drop 2 rest)) (\<lambda>(adu_bytes, rest). Ok (bs @ adu_bytes, rest)))))"
  by pat_completeness auto
termination
proof (relation "measure length")
  fix rest x bs
  assume "hex_int (take 2 rest) = Ok x"
  then have "rest \<noteq> []" by auto
  then show "(drop 2 rest, rest) \<in> measure length" by simp
qed simp

declare ascii_pairs.simps [simp del]

definition decode_ascii_adu :: "Direction \<Rightarrow> bytes \<Rightarrow> (Adu \<times> bytes) result" where
  "decode_ascii_adu direction data =
     bindE (skip_to_colon data) (\<lambda>rest.
     bindE (ascii_pairs rest) (\<lambda>(adu_bytes, rest).
     bindE (byte_at adu_bytes 0) (\<lambda>device_id.
     bindE (decode_pdu direction (drop 1 adu_bytes)) (\<lambda>(pdu, _).
     bindE (byte_last adu_bytes 1) (\<lambda>lrc.
       if lrc \<noteq> calculate_lrc (butlast adu_bytes) then Raise (Exception ''LRC did not match received message'')
       else Ok (AsciiAdu device_id pdu, rest))))))"

definition decode_adu :: "ModbusType \<Rightarrow> Direction \<Rightarrow> bytes \<Rightarrow> (Adu \<times> bytes) result" where
  "decode_adu modbus_type direction data =
     (case modbus_type of
        TCP \<Rightarrow> decode_tcp_adu direction data
      | RTU \<Rightarrow> decode_rtu_adu direction data
      | ASCII \<Rightarrow> decode_ascii_adu direction data)"

section \<open>Encoding\<close>

fun encode_adu :: "Adu \<Rightarrow> bytes result" where
  "encode_adu (TcpAdu transaction_id device_id pdu) =
     bindE (bindE (encode_pdu pdu) py_bytes) (\<lambda>pdu_bytes.
     bindE (pack_be [(2, transaction_id), (2, 0), (2, int (length pdu_bytes) + 1), (1, device_id)]) (\<lambda>header.
       Ok (wire header @ pdu_bytes)))"
| "encode_adu (RtuAdu device_id pdu) =
     bindE (py_bytes [device_id]) (\<lambda>d. bindE (bindE (encode_pdu pdu) py_bytes) (\<lambda>pdu_bytes.
     bindE (to_le 2 (calculate_crc (d @ pdu_bytes))) (\<lambda>crc_bytes.
       Ok (d @ pdu_bytes @ wire crc_bytes))))"
| "encode_adu (AsciiAdu device_id pdu) =
     bindE (py_bytes [device_id]) (\<lambda>d. bindE (bindE (encode_pdu pdu) py_bytes) (\<lambda>pdu_bytes.
     bindE (py_bytes [calculate_lrc (d @ pdu_bytes)]) (\<lambda>lrc.
       Ok (wire ([0x3A] @ concat (map (\<lambda>i. hex_byte (uint i)) (d @ pdu_bytes @ lrc)) @ [13, 10])))))"

section \<open>Sizes and reading\<close>

definition get_next_tcp_adu_size :: "bytes \<Rightarrow> nat result" where
  "get_next_tcp_adu_size data =
     (if length data < 6 then Ok 6 else Ok (nat (from_be (slice 4 6 data)) + 6))"

definition get_next_rtu_adu_size :: "Direction \<Rightarrow> bytes \<Rightarrow> nat result" where
  "get_next_rtu_adu_size direction data =
     (if length data < 1 then Ok 1 else bindE (get_next_pdu_size direction data 1) (\<lambda>pdu_size. Ok (pdu_size + 3)))"

text \<open>How far the second loop of \<open>_get_next_ascii_adu_size\<close> moves; it may pass the end by one.\<close>

fun ascii_scan :: "bytes \<Rightarrow> nat" where
  "ascii_scan [] = 0"
| "ascii_scan [b] = 2"
| "ascii_scan (b # c # bs) = (if b = 13 \<and> c = 10 then 0 else 2 + ascii_scan bs)"

definition get_next_ascii_adu_size :: "bytes \<Rightarrow> nat result" where
  "get_next_ascii_adu_size data =
     (let size = length (takeWhile (\<lambda>b. b \<noteq> 0x3A) data) in
      if length data \<le> size then Ok (size + 1)
      else Ok (size + 1 + ascii_scan (drop (size + 1) data) + 2))"

definition get_next_adu_size :: "ModbusType \<Rightarrow> Direction \<Rightarrow> bytes \<Rightarrow> nat result" where
  "get_next_adu_size modbus_type direction data =
     (case modbus_type of
        TCP \<Rightarrow> get_next_tcp_adu_size data
      | RTU \<Rightarrow> get_next_rtu_adu_size direction data
      | ASCII \<Rightarrow> get_next_ascii_adu_size data)"

definition decode_one_adu :: "ModbusType \<Rightarrow> Direction \<Rightarrow> bytes \<Rightarrow> Adu result" where
  "decode_one_adu modbus_type direction buff = bindE (decode_adu modbus_type direction buff) (\<lambda>(adu, _). Ok adu)"

definition receive_adu :: "ModbusType \<Rightarrow> Direction \<Rightarrow> bytes \<Rightarrow> (Adu \<times> bytes) result" where
  "receive_adu modbus_type direction =
     read_frame (get_next_adu_size modbus_type direction) (decode_one_adu modbus_type direction)"

section \<open>Each mode is a framing\<close>

fun adu_ok :: "ModbusType \<Rightarrow> Direction \<Rightarrow> Adu \<Rightarrow> bool" where
  "adu_ok TCP direction (TcpAdu t d pdu) \<longleftrightarrow> register_ok t \<and> is_byte d \<and> pdu_ok direction pdu"
| "adu_ok RTU direction (RtuAdu d pdu) \<longleftrightarrow> is_byte d \<and> pdu_ok direction pdu"
| "adu_ok ASCII direction (AsciiAdu d pdu) \<longleftrightarrow> is_byte d \<and> pdu_ok direction pdu"
| "adu_ok _ _ _ \<longleftrightarrow> False"

lemma pdu_bytes:
  assumes "pdu_ok direction pdu"
  obtains ys where "encode_pdu pdu = Ok ys" "py_bytes ys = Ok (wire ys)" "all_bytes ys"
    "\<And>rest. decode_pdu direction (wire ys @ rest) = Ok (pdu, rest)" "1 \<le> length ys" "length ys \<le> 261"
proof -
  from pdu_codec [OF assms] obtain ys where ys: "encode_pdu pdu = Ok ys" "all_bytes ys"
    "\<forall>rest. decode_pdu direction (wire ys @ rest) = Ok (pdu, rest)" by (rule decodes_toE)
  with pdu_length [OF ys(1,2)] that [of ys] show thesis by (simp add: py_bytes_def)
qed

subsection \<open>TCP\<close>

lemma tcp_frame:
  assumes "register_ok t" "is_byte d" "pdu_ok direction pdu"
  obtains h ys where "encode_adu (TcpAdu t d pdu) = Ok (wire h @ wire ys)" "length h = 7"
    "from_be (slice 4 6 (wire h)) = int (length ys) + 1" "decode_tcp_adu direction (wire h @ wire ys) = Ok (TcpAdu t d pdu, [])"
proof -
  obtain ys where ys: "encode_pdu pdu = Ok ys" "py_bytes ys = Ok (wire ys)" "length ys \<le> 261"
    "\<And>rest. decode_pdu direction (wire ys @ rest) = Ok (pdu, rest)" using pdu_bytes [OF assms(3)] by metis
  let ?fields = "[(2, t), (2, 0), (2, int (length ys) + 1), (1, d)] :: (nat \<times> int) list"
  have "fields_ok ?fields" using assms(1,2) ys(3) by (simp add: register_ok_def is_byte_def)
  from pack_be_Ok [OF this] obtain h where
    h: "pack_be ?fields = Ok h" "length h = 7" "unpack_be [2, 2, 2, 1] (wire h) = Ok [t, 0, int (length ys) + 1, d]" by auto
  show thesis
  proof (rule that [of h ys])
    show "encode_adu (TcpAdu t d pdu) = Ok (wire h @ wire ys)" using h ys by simp
    show "from_be (slice 4 6 (wire h)) = int (length ys) + 1"
      using h(2,3) by (simp add: unpack_be_def slice_def)
    show "decode_tcp_adu direction (wire h @ wire ys) = Ok (TcpAdu t d pdu, [])"
      using h(2,3) ys(4) [of "[]"] slice_to_from_nat(1) [of "length ys" "wire ys"] slice_to_from_nat(2) [of "length ys" "wire ys"]
      by (simp add: decode_tcp_adu_def del: slice_to_from_nat)
  qed (use h in simp)
qed

lemma tcp_size:
  assumes "p @ q = h @ ys" "length h = 7" "from_be (slice 4 6 h) = int (length ys) + 1"
  shows "get_next_tcp_adu_size p = Ok (if length p < 6 then 6 else length h + length ys)"
proof (cases "length p < 6")
  case False
  have "slice 4 6 p = slice 4 6 (p @ q)" using False by (simp add: slice_def)
  also have "\<dots> = slice 4 6 h" using assms(2) by (simp add: assms(1) slice_def)
  finally show ?thesis using False assms(2,3) by (simp add: get_next_tcp_adu_size_def nat_add_distrib)
qed (simp add: get_next_tcp_adu_size_def)

subsection \<open>RTU\<close>

lemma rtu_frame:
  assumes "is_byte d" "pdu_ok direction pdu"
  obtains ys crc where "encode_adu (RtuAdu d pdu) = Ok (word_of_int d # wire ys @ crc)" "length crc = 2"
    "encode_pdu pdu = Ok ys" "all_bytes ys" "decode_rtu_adu direction (word_of_int d # wire ys @ crc) = Ok (RtuAdu d pdu, [])"
proof -
  obtain ys where ys: "encode_pdu pdu = Ok ys" "py_bytes ys = Ok (wire ys)" "all_bytes ys"
    "\<And>rest. decode_pdu direction (wire ys @ rest) = Ok (pdu, rest)" using pdu_bytes [OF assms(2)] by metis
  let ?crc = "calculate_crc (word_of_int d # wire ys)"
  have c: "to_le 2 ?crc = Ok (le_digits 2 ?crc)" "from_le (wire (le_digits 2 ?crc)) = ?crc"
    using is_word16_crc [of "word_of_int d # wire ys"] by (simp_all add: is_word16_def from_le_wire_digits)
  show thesis
  proof (rule that [of ys "wire (le_digits 2 ?crc)"])
    show "encode_adu (RtuAdu d pdu) = Ok (word_of_int d # wire ys @ wire (le_digits 2 ?crc))"
      using assms(1) ys c by (simp add: py_bytes_def)
    show "decode_rtu_adu direction (word_of_int d # wire ys @ wire (le_digits 2 ?crc)) = Ok (RtuAdu d pdu, [])"
      using assms(1) ys(4) c(2) slice_to_from_nat(1) [of "Suc (length ys)" "word_of_int d # wire ys @ wire (le_digits 2 ?crc)"]
      by (simp add: decode_rtu_adu_def uint_of_byte del: slice_to_from_nat)
  qed (use ys in simp_all)
qed

subsection \<open>ASCII\<close>

abbreviation hex_bytes :: "bytes \<Rightarrow> bytes" where
  "hex_bytes m \<equiv> wire (concat (map (\<lambda>i. hex_byte (uint i)) m))"

lemma length_hex_bytes [simp]: "length (concat (map (\<lambda>i. hex_byte (uint i)) m)) = 2 * length m" for m :: bytes
  by (induction m) (simp_all add: hex_byte_def)

lemma hex_byte_not_end:
  "wire (hex_byte (uint b)) \<noteq> [13, 10]" for b :: byte
proof
  assume "wire (hex_byte (uint b)) = [13, 10]"
  then have "uint (word_of_int (hex_char (uint b div 16)) :: byte) = 13" by (simp add: hex_byte_def)
  with nibbles [of "uint b"] hex_char_bounds [of "uint b div 16"] is_byte_hex_char [of "uint b div 16"]
  show False by (simp add: uint_of_byte)
qed

lemma ascii_pairs_hex: "ascii_pairs (hex_bytes m @ [13, 10] @ rest) = Ok (m, rest)"
proof (induction m)
  case Nil
  then show ?case by (simp add: ascii_pairs.simps)
next
  case (Cons b m)
  have l: "length (wire (hex_byte (uint b))) = 2" by (simp add: hex_byte_def)
  then have "take 2 (hex_bytes (b # m) @ [13, 10] @ rest) = wire (hex_byte (uint b))"
    "drop 2 (hex_bytes (b # m) @ [13, 10] @ rest) = hex_bytes m @ [13, 10] @ rest" by simp_all
  then show ?case
    using Cons hex_byte_not_end [of b] by (subst ascii_pairs.simps) (simp add: py_bytes_def)
qed

lemma ascii_scan_prefix:
  assumes "p @ q = hex_bytes m @ [13, 10]" "even (length p)"
  shows "ascii_scan p = min (length p) (2 * length m)"
  using assms
proof (induction m arbitrary: p)
  case Nil
  then show ?case by (cases p rule: ascii_scan.cases) auto
next
  case (Cons b m)
  show ?case
  proof (cases p rule: ascii_scan.cases)
    case (3 x y p')
    with Cons.prems have "[x, y] = wire (hex_byte (uint b))" "p' @ q = hex_bytes m @ [13, 10]"
      by (simp_all add: hex_byte_def)
    moreover from this have "\<not> (x = 13 \<and> y = 10)" using hex_byte_not_end [of b] by auto
    ultimately show ?thesis using 3 Cons by simp
  qed (use Cons.prems in simp_all)
qed

lemma skip_to_colon_noise: "0x3A \<notin> set noise \<Longrightarrow> skip_to_colon (noise @ 0x3A # bs) = Ok bs"
  by (induction noise) auto

lemma ascii_frame:
  assumes "is_byte d" "pdu_ok direction pdu" "0x3A \<notin> set noise"
  obtains m where "encode_adu (AsciiAdu d pdu) = Ok (0x3A # hex_bytes m @ [13, 10])"
    "decode_ascii_adu direction (noise @ 0x3A # hex_bytes m @ [13, 10]) = Ok (AsciiAdu d pdu, [])"
proof -
  obtain ys where ys: "encode_pdu pdu = Ok ys" "py_bytes ys = Ok (wire ys)" "all_bytes ys"
    "\<And>rest. decode_pdu direction (wire ys @ rest) = Ok (pdu, rest)" using pdu_bytes [OF assms(2)] by metis
  define b :: bytes where "b = word_of_int d # wire ys"
  define lrc :: byte where "lrc = word_of_int (calculate_lrc b)"
  have u: "uint lrc = calculate_lrc b" by (simp add: lrc_def uint_of_byte)
  show thesis
  proof (rule that [of "b @ [lrc]"])
    have "py_bytes [calculate_lrc b] = Ok [lrc]" by (simp add: py_bytes_def lrc_def)
    then show "encode_adu (AsciiAdu d pdu) = Ok (0x3A # hex_bytes (b @ [lrc]) @ [13, 10])"
      using assms(1) ys by (simp add: py_bytes_def b_def)
    have "byte_at (b @ [lrc]) 0 = Ok d" "drop 1 (b @ [lrc]) = wire ys @ [lrc]" "byte_last (b @ [lrc]) 1 = Ok (calculate_lrc b)"
      using assms(1) u by (simp_all add: b_def uint_of_byte byte_last_def nth_append)
    then show "decode_ascii_adu direction (noise @ 0x3A # hex_bytes (b @ [lrc]) @ [13, 10]) = Ok (AsciiAdu d pdu, [])"
      using ys(4) ascii_pairs_hex [of "b @ [lrc]" "[]"] skip_to_colon_noise [OF assms(3)]
      by (simp add: decode_ascii_adu_def del: map_append)
  qed
qed

lemma ascii_size:
  assumes "0x3A \<notin> set noise" "p @ q = hex_bytes m @ [13, 10]" "even (length p)"
  shows "get_next_ascii_adu_size (noise @ 0x3A # p) = Ok (length noise + 3 + min (length p) (2 * length m))"
proof -
  have "takeWhile (\<lambda>b. b \<noteq> 0x3A) (noise @ 0x3A # p) = noise"
    using assms(1) by (subst takeWhile_append2) auto
  then show ?thesis using ascii_scan_prefix [OF assms(2,3)] by (simp add: get_next_ascii_adu_size_def)
qed

lemma ascii_size_noise: "0x3A \<notin> set p \<Longrightarrow> get_next_ascii_adu_size p = Ok (length p + 1)"
proof -
  assume "0x3A \<notin> set p"
  then have "takeWhile (\<lambda>b. b \<noteq> 0x3A) p = p" by (auto simp: takeWhile_eq_all_conv)
  then show ?thesis unfolding get_next_ascii_adu_size_def Let_def by (simp only: order_refl if_True)
qed

subsection \<open>The interpretations\<close>

interpretation tcp: framing "get_next_adu_size TCP direction" "decode_one_adu TCP direction" encode_adu "adu_ok TCP direction"
  for direction
proof unfold_locales
  fix f :: Adu
  assume "adu_ok TCP direction f"
  then obtain t d pdu where f: "f = TcpAdu t d pdu" "register_ok t" "is_byte d" "pdu_ok direction pdu" by (cases f) auto
  obtain h ys where frame: "encode_adu f = Ok (wire h @ wire ys)" "length h = 7"
    "from_be (slice 4 6 (wire h)) = int (length ys) + 1"
    "decode_tcp_adu direction (wire h @ wire ys) = Ok (f, [])" using tcp_frame [OF f(2-4)] f(1) by metis
  then show "\<exists>bs. encode_adu f = Ok bs \<and> decode_one_adu TCP direction bs = Ok f"
    by (simp add: decode_one_adu_def decode_adu_def)
  note size = tcp_size [of _ _ "wire h" "wire ys"]
  show "get_next_adu_size TCP direction bs = Ok (length bs)" if "encode_adu f = Ok bs" for bs
    using that frame size [of bs "[]"] by (auto simp: get_next_adu_size_def)
  show "\<exists>n. get_next_adu_size TCP direction p = Ok n \<and> length p < n \<and> n \<le> length p + length q"
    if "encode_adu f = Ok (p @ q)" "q \<noteq> []" for p q
  proof -
    from that frame(1) have eq: "p @ q = wire h @ wire ys" by simp
    then have "length (p @ q) = length (wire h @ wire ys)" by (simp only: eq)
    then have "length p + length q = 7 + length ys" using frame(2) by simp
    moreover from this have "length p < 7 + length ys" using that(2) by (cases q) auto
    ultimately show ?thesis using size [OF eq] frame by (auto simp: get_next_adu_size_def)
  qed
qed

interpretation rtu: framing "get_next_adu_size RTU direction" "decode_one_adu RTU direction" encode_adu "adu_ok RTU direction"
  for direction
proof unfold_locales
  fix f :: Adu
  assume "adu_ok RTU direction f"
  then obtain d pdu where f: "f = RtuAdu d pdu" "is_byte d" "pdu_ok direction pdu" by (cases f) auto
  obtain ys crc where frame: "encode_adu f = Ok (word_of_int d # wire ys @ crc)" "length crc = 2"
    "encode_pdu pdu = Ok ys" "all_bytes ys" "decode_rtu_adu direction (word_of_int d # wire ys @ crc) = Ok (f, [])"
    using rtu_frame [OF f(2,3)] f(1) by metis
  then show "\<exists>bs. encode_adu f = Ok bs \<and> decode_one_adu RTU direction bs = Ok f"
    by (simp add: decode_one_adu_def decode_adu_def)
  note size = pdu_size [OF f(3) frame(3,4), of "word_of_int d" crc]
  have "1 \<le> length ys" using pdu_length [OF frame(3,4)] ..
  show "get_next_adu_size RTU direction bs = Ok (length bs)" if "encode_adu f = Ok bs" for bs
  proof -
    from that frame(1) have bs: "bs = word_of_int d # wire ys @ crc" by simp
    with size [of bs "[]"] frame(2) show ?thesis by (auto simp: get_next_adu_size_def get_next_rtu_adu_size_def)
  qed
  show "\<exists>n. get_next_adu_size RTU direction p = Ok n \<and> length p < n \<and> n \<le> length p + length q"
    if "encode_adu f = Ok (p @ q)" "q \<noteq> []" for p q
  proof -
    from that frame(1) have eq: "word_of_int d # wire ys @ crc = p @ q" by simp
    then have "length (word_of_int d # wire ys @ crc) = length (p @ q)" by (simp only: eq)
    then have "length p + length q = 3 + length ys" using frame(2) by simp
    moreover from this have "length p < length ys + 3" using that(2) by (cases q) auto
    ultimately show ?thesis using size [OF eq] \<open>1 \<le> length ys\<close>
      by (cases "p = []") (auto simp: get_next_adu_size_def get_next_rtu_adu_size_def)
  qed
qed

text \<open>
  For ASCII any bytes before a frame that are no colon are skipped. The size function is right
  where an even number of characters after the colon has been read, and no other point is reached.
\<close>

definition after_noise :: "bytes \<Rightarrow> Adu \<Rightarrow> bytes result" where
  "after_noise noise adu = bindE (encode_adu adu) (\<lambda>bs. Ok (noise @ bs))"

interpretation ascii: stepwise_framing "get_next_adu_size ASCII direction" "decode_one_adu ASCII direction"
  "after_noise noise" "\<lambda>adu. adu_ok ASCII direction adu \<and> 0x3A \<notin> set noise"
  "\<lambda>p. length p \<le> length noise \<or> odd (length p - length noise)"
  for direction noise
proof unfold_locales
  fix f :: Adu
  assume ok: "adu_ok ASCII direction f \<and> 0x3A \<notin> set noise"
  then obtain d pdu where f: "f = AsciiAdu d pdu" "is_byte d" "pdu_ok direction pdu" by (cases f) auto
  from ok have n: "0x3A \<notin> set noise" ..
  obtain m where m: "encode_adu f = Ok (0x3A # hex_bytes m @ [13, 10])"
    "decode_ascii_adu direction (noise @ 0x3A # hex_bytes m @ [13, 10]) = Ok (f, [])"
    using f(2,3) n unfolding f(1) by (rule ascii_frame)
  then have frame: "after_noise noise f = Ok (noise @ 0x3A # hex_bytes m @ [13, 10])"
    "decode_ascii_adu direction (noise @ 0x3A # hex_bytes m @ [13, 10]) = Ok (f, [])"
    by (simp_all add: after_noise_def)
  then show "\<exists>bs. after_noise noise f = Ok bs \<and> decode_one_adu ASCII direction bs = Ok f"
    by (simp add: decode_one_adu_def decode_adu_def)
  show "get_next_adu_size ASCII direction bs = Ok (length bs)" if "after_noise noise f = Ok bs" for bs
    using that frame(1) ascii_size [OF n, of "hex_bytes m @ [13, 10]" "[]" m] by (auto simp: get_next_adu_size_def)
  show "\<exists>k. get_next_adu_size ASCII direction p = Ok k \<and> length p < k \<and> k \<le> length p + length q \<and>
      (length (take k (p @ q)) \<le> length noise \<or> odd (length (take k (p @ q)) - length noise))"
    if e: "after_noise noise f = Ok (p @ q)" "q \<noteq> []"
      and b: "length p \<le> length noise \<or> odd (length p - length noise)" for p q
  proof -
    from e(1) frame(1) have eq: "p @ q = noise @ 0x3A # hex_bytes m @ [13, 10]" by simp
    then have "length (p @ q) = length (noise @ 0x3A # hex_bytes m @ [13, 10])" by (simp only: eq)
    then have l: "length p + length q = length noise + 3 + 2 * length m" by simp
    have q: "length p < length p + length q" using e(2) by (cases q) auto
    show ?thesis
    proof (cases "length p \<le> length noise")
      case True
      with eq have "set p \<subseteq> set noise" by (metis append_eq_append_conv_if set_take_subset)
      with n have "get_next_ascii_adu_size p = Ok (length p + 1)" by (intro ascii_size_noise) blast
      with True q l show ?thesis by (cases "length p = length noise") (auto simp: get_next_adu_size_def)
    next
      case False
      with eq have r: "take (length noise) p = noise" "drop (length noise) p @ q = 0x3A # hex_bytes m @ [13, 10]"
        by (simp_all add: append_eq_append_conv_if)
      from False obtain c p' where d: "drop (length noise) p = c # p'" by (cases "drop (length noise) p") auto
      with r have p': "p = noise @ 0x3A # p'" "p' @ q = hex_bytes m @ [13, 10]"
        by (metis append_take_drop_id append_Cons list.inject)+
      with b have "even (length p')" by simp
      from ascii_size [OF n p'(2) this] have "get_next_ascii_adu_size p = Ok (length noise + 3 + min (length p') (2 * length m))"
        by (simp add: p'(1))
      moreover have "length p' < 2 * length m + 2" using l e(2) p'(1) by (cases q) auto
      with \<open>even (length p')\<close> have "min (length p') (2 * length m) = length p'" by (auto elim!: evenE)
      ultimately show ?thesis using l q p' \<open>even (length p')\<close> by (auto simp: get_next_adu_size_def)
    qed
  qed
qed simp

end
