(* ===== verification/Modbus_Connection.thy ===== *)
theory Modbus_Connection
  imports Modbus_Encoder
begin

text \<open>
  \<open>Connection.receive\<close> of \<^verbatim>\<open>modbus/transport/connection.py\<close> for callers that go on after an
  error: what is raised comes with the bytes that are still to be read. The properties of the
  encoder that are about streams are here.
\<close>

section \<open>Receiving with errors\<close>

text \<open>
  The loop of \<open>receive\<close>. Where the connection is lost the bytes that had arrived are lost too.
\<close>

function fill_or_rest :: "(bytes \<Rightarrow> nat result) \<Rightarrow> bytes \<Rightarrow> bytes \<Rightarrow> bytes result \<times> bytes" where
  "fill_or_rest next_size data stream =
     (case next_size data of
        Inl e \<Rightarrow> (Raise e, stream)
      | Inr n \<Rightarrow>
          if n \<le> length data then (Ok data, stream)
          else if length stream < n - length data then (Raise ConnectionError, [])
          else fill_or_rest next_size (data @ take (n - length data) stream) (drop (n - length data) stream))"
  by pat_completeness auto
termination by (relation "measure (\<lambda>(_, _, stream). length stream)") auto

declare fill_or_rest.simps [simp del]

definition receive_or_rest :: "ModbusType \<Rightarrow> Direction \<Rightarrow> bytes \<Rightarrow> Adu result \<times> bytes" where
  "receive_or_rest modbus_type direction stream =
     (let (data, rest) = fill_or_rest (get_next_adu_size modbus_type direction) [] stream
      in (bindE data (decode_one_adu modbus_type direction), rest))"

lemma fill_or_rest_Ok: "fill_or_rest next_size data stream = (Ok d, rest) \<longleftrightarrow> fill next_size data stream = Ok (d, rest)"
proof (induction next_size data stream rule: fill_or_rest.induct)
  case (1 next_size data stream)
  show ?case
  proof (cases "next_size data")
    case (Inl e)
    then show ?thesis by (simp add: fill_or_rest.simps [of next_size data] fill.simps [of next_size data])
  next
    case (Inr n)
    with "1.IH" [OF Inr] show ?thesis
      by (simp add: fill_or_rest.simps [of next_size data] fill.simps [of next_size data])
  qed
qed

lemma receive_or_rest_Ok:
  "receive_or_rest modbus_type direction stream = (Ok adu, rest) \<longleftrightarrow> receive_adu modbus_type direction stream = Ok (adu, rest)"
proof -
  obtain data rest' where f: "fill_or_rest (get_next_adu_size modbus_type direction) [] stream = (data, rest')" by fastforce
  show ?thesis
  proof (cases data)
    case (Inl e)
    with f fill_or_rest_Ok [of "get_next_adu_size modbus_type direction" "[]" stream]
    have "fill (get_next_adu_size modbus_type direction) [] stream \<noteq> Ok (d, r)" for d r by (metis Pair_inject sum.simps(4))
    with f Inl show ?thesis
      by (cases "fill (get_next_adu_size modbus_type direction) [] stream")
        (auto simp: receive_or_rest_def receive_adu_def read_frame_def)
  next
    case (Inr d)
    with f fill_or_rest_Ok have "fill (get_next_adu_size modbus_type direction) [] stream = Ok (d, rest')" by metis
    with f Inr show ?thesis
      by (cases "decode_one_adu modbus_type direction d") (auto simp: receive_or_rest_def receive_adu_def read_frame_def)
  qed
qed

text \<open>Every reading that does not lose the connection takes at least one byte.\<close>

lemma fill_or_rest_length:
  "fill_or_rest next_size data stream = (r, rest) \<Longrightarrow> length rest \<le> length stream"
proof (induction next_size data stream rule: fill_or_rest.induct)
  case (1 next_size data stream)
  show ?case
  proof (cases "next_size data")
    case (Inr n)
    show ?thesis
    proof (cases "n \<le> length data \<or> length stream < n - length data")
      case True
      with "1.prems" Inr show ?thesis by (auto simp: fill_or_rest.simps [of next_size data] split: if_splits)
    next
      case False
      with "1.prems" Inr have "length rest \<le> length (drop (n - length data) stream)"
        by (intro "1.IH" [OF Inr]) (auto simp: fill_or_rest.simps [of next_size data])
      then show ?thesis by simp
    qed
  qed (use "1.prems" in \<open>auto simp: fill_or_rest.simps [of next_size data]\<close>)
qed

lemma get_next_adu_size_Nil: "\<exists>n. get_next_adu_size modbus_type direction [] = Ok (Suc n)"
  by (cases modbus_type)
    (auto simp: get_next_adu_size_def get_next_tcp_adu_size_def get_next_rtu_adu_size_def get_next_ascii_adu_size_def)

lemma receive_or_rest_length:
  assumes "receive_or_rest modbus_type direction stream = (r, rest)"
  shows "r = Raise ConnectionError \<or> length rest < length stream"
proof -
  let ?next = "get_next_adu_size modbus_type direction"
  obtain n where n: "?next [] = Ok (Suc n)" using get_next_adu_size_Nil by blast
  obtain data where f: "fill_or_rest ?next [] stream = (data, rest)" "r = bindE data (decode_one_adu modbus_type direction)"
    using assms by (auto simp: receive_or_rest_def Let_def split: prod.splits)
  show ?thesis
  proof (cases "length stream < Suc n")
    case True
    with f n show ?thesis by (auto simp: fill_or_rest.simps [of _ "[]"])
  next
    case False
    with f n have "fill_or_rest ?next (take (Suc n) stream) (drop (Suc n) stream) = (data, rest)"
      by (simp add: fill_or_rest.simps [of _ "[]"])
    from fill_or_rest_length [OF this] False show ?thesis by (cases stream) auto
  qed
qed

text \<open>A well-formed unit is received from the front of a stream, in every mode.\<close>

lemma after_no_noise: "after_noise [] = encode_adu"
proof
  show "after_noise [] adu = encode_adu adu" for adu by (cases "encode_adu adu") (simp_all add: after_noise_def)
qed

lemma receive_adu_one:
  assumes "adu_ok modbus_type direction adu" "encode_adu adu = Ok bs"
  shows "receive_adu modbus_type direction (bs @ rest) = Ok (adu, rest)"
  unfolding receive_adu_def
proof (cases modbus_type)
  case TCP
  with assms tcp.read_one show "read_frame (get_next_adu_size modbus_type direction) (decode_one_adu modbus_type direction)
      (bs @ rest) = Ok (adu, rest)" by simp
next
  case RTU
  with assms rtu.read_one show "read_frame (get_next_adu_size modbus_type direction) (decode_one_adu modbus_type direction)
      (bs @ rest) = Ok (adu, rest)" by simp
next
  case ASCII
  with assms ascii.read_one [of direction adu "[]"] show "read_frame (get_next_adu_size modbus_type direction)
      (decode_one_adu modbus_type direction) (bs @ rest) = Ok (adu, rest)" by (simp add: after_no_noise)
qed

lemma encode_adu_ok:
  assumes "adu_ok modbus_type direction adu"
  obtains bs where "encode_adu adu = Ok bs"
  using assms tcp.enc_dec [of direction adu] rtu.enc_dec [of direction adu] ascii.enc_dec [of direction adu "[]"]
  by (cases modbus_type) (auto simp: after_no_noise)

section \<open>Properties\<close>

text \<open>
  C14: in each of the three modes and for each direction, any sequence of well-formed units,
  encoded one after the other and followed by anything, is received unit by unit.
\<close>

theorem modbus_stream_roundtrip:
  assumes "list_all (adu_ok modbus_type direction) adus"
  shows "\<exists>bss. mapE encode_adu adus = Ok bss \<and>
    (\<forall>rest. repeat_decode (receive_adu modbus_type direction) (length adus) (concat bss @ rest) = Ok (adus, rest))"
  using assms
proof (induction adus)
  case (Cons adu adus)
  then obtain bss where bss: "mapE encode_adu adus = Ok bss"
    "\<forall>rest. repeat_decode (receive_adu modbus_type direction) (length adus) (concat bss @ rest) = Ok (adus, rest)" by auto
  from Cons.prems obtain bs where bs: "encode_adu adu = Ok bs" by (auto elim: encode_adu_ok)
  from receive_adu_one [OF _ bs] Cons.prems bss bs show ?case by simp
qed simp

lemma modbus_stream_roundtrip_witness:
  defines "adus \<equiv> [RtuAdu 17 (PduReq (WriteMultipleCoilsReq 19 [1, 0, 1, 1, 0, 0, 1, 1, 1, 0])), RtuAdu 17 (PduReq (ReadFifoQueueReq 0x4DE))]"
  shows "\<exists>bss. mapE encode_adu adus = Ok bss \<and>
    (\<forall>rest. repeat_decode (receive_adu RTU REQUEST) (length adus) (concat bss @ rest) = Ok (adus, rest))"
  by (rule modbus_stream_roundtrip)
    (simp add: adus_def pdu_ok_def register_ok_def coils_ok_def is_byte_def)

text \<open>
  Bytes without a colon in front of a frame of the ASCII mode, left over by noise or by a
  frame that was cut, do not disturb its reception.
\<close>

lemma ascii_noise_skipped:
  assumes "0x3A \<notin> set noise" "adu_ok ASCII direction adu" "encode_adu adu = Ok bs"
  shows "receive_adu ASCII direction (noise @ bs @ rest) = Ok (adu, rest)"
proof -
  have "after_noise noise adu = Ok (noise @ bs)" using assms(3) by (simp add: after_noise_def)
  from ascii.read_one [OF _ this] assms(1,2) show ?thesis by (simp add: receive_adu_def)
qed

lemma ascii_noise_skipped_witness:
  "\<exists>bs. encode_adu (AsciiAdu 1 (PduRes (ErrorRes READ_COILS INVALID_DATA_ADDRESS))) = Ok bs \<and>
    receive_adu ASCII RESPONSE ([0x30, 13, 10] @ bs @ [7]) = Ok (AsciiAdu 1 (PduRes (ErrorRes READ_COILS INVALID_DATA_ADDRESS)), [7])"
proof -
  have ok: "adu_ok ASCII RESPONSE (AsciiAdu 1 (PduRes (ErrorRes READ_COILS INVALID_DATA_ADDRESS)))"
    by (simp add: pdu_ok_def is_byte_def)
  then obtain bs where bs: "encode_adu (AsciiAdu 1 (PduRes (ErrorRes READ_COILS INVALID_DATA_ADDRESS))) = Ok bs"
    by (rule encode_adu_ok)
  from ascii_noise_skipped [OF _ ok bs, of "[0x30, 13, 10]" "[7]"] bs show ?thesis by simp
qed

end
