(* ===== verification/Modbus_Rtu.thy ===== *)
theory Modbus_Rtu
  imports Modbus_Connection
begin

text \<open>
  Detection of errors by the reading loop of the RTU mode, whose frames have no delimiters: the
  size of a frame, and with it the place of the checksum, comes from bytes that may be wrong.
\<close>

section \<open>The reading loop takes exactly one frame\<close>

text \<open>
  A loop whose sizes only grow stops with exactly the bytes that the size function asks for at
  the end.
\<close>

lemma fill_exact:
  assumes mono: "\<And>p q a b. next_size p = Ok a \<Longrightarrow> next_size (p @ q) = Ok b \<Longrightarrow> a \<le> b"
    and "fill next_size data stream = Ok (data', rest)" "next_size data = Ok a" "length data \<le> a"
  shows "next_size data' = Ok (length data')"
  using assms(2-4)
proof (induction "length stream" arbitrary: data stream a rule: less_induct)
  case less
  show ?case
  proof (cases "a \<le> length data")
    case True
    with less.prems show ?thesis by (simp add: fill.simps [of next_size data])
  next
    case False
    let ?k = "a - length data"
    have "fill next_size data stream = (if length stream < ?k then Raise ConnectionError
        else fill next_size (data @ take ?k stream) (drop ?k stream))"
      using less.prems(2) False by (subst fill.simps) simp
    with less.prems(1) have f: "fill next_size (data @ take ?k stream) (drop ?k stream) = Ok (data', rest)" "?k \<le> length stream"
      by (simp_all split: if_splits)
    then obtain b where b: "next_size (data @ take ?k stream) = Ok b"
      by (subst (asm) fill.simps) auto
    have "length (drop ?k stream) < length stream" using f(2) False by simp
    moreover have "length (data @ take ?k stream) \<le> b" using mono [OF less.prems(2) b] f(2) False by simp
    ultimately show ?thesis using less.hyps f(1) b by blast
  qed
qed

lemma get_next_pdu_size_mono:
  assumes "get_next_pdu_size direction p (Suc 0) = Ok a" "get_next_pdu_size direction (p @ q) (Suc 0) = Ok b"
  shows "a \<le> b"
proof (cases "length p < 2")
  case True
  with assms show ?thesis
    by (cases direction)
      (auto simp: get_next_pdu_size_def get_next_req_size_def get_next_res_size_def split: if_splits)
next
  case False
  then have one: "byte_at (p @ q) (Suc 0) = byte_at p (Suc 0)" by (simp add: byte_at_append)
  have six: "byte_at (p @ q) 6 = byte_at p 6" if "7 \<le> length p" using that by (simp add: byte_at_append)
  have two: "byte_at (p @ q) (Suc (Suc 0)) = byte_at p (Suc (Suc 0))" if "3 \<le> length p" using that by (simp add: byte_at_append)
  show ?thesis
  proof (cases direction)
    case REQUEST
    from assms(1) REQUEST False obtain c fc where "byte_at p (Suc 0) = Ok c" "FunctionCode_of c = Ok fc"
      by (auto simp: get_next_pdu_size_def get_next_req_size_def)
    with REQUEST assms False one six show ?thesis
      by (cases fc) (auto simp: get_next_pdu_size_def get_next_req_size_def split: if_splits)
  next
    case RESPONSE
    from assms(1) RESPONSE False obtain c where c: "byte_at p (Suc 0) = Ok c"
      by (auto simp: get_next_pdu_size_def get_next_res_size_def)
    show ?thesis
    proof (cases "c AND 0x80 = 0")
      case True
      with assms(1) RESPONSE False c obtain fc where "FunctionCode_of c = Ok fc"
        by (auto simp: get_next_pdu_size_def get_next_res_size_def)
      with RESPONSE True assms False one two c show ?thesis
        by (cases fc) (auto simp: get_next_pdu_size_def get_next_res_size_def split: if_splits)
    next
      case high: False
      with RESPONSE assms False one c show ?thesis
        by (simp add: get_next_pdu_size_def get_next_res_size_def)
    qed
  qed
qed

lemma get_next_rtu_adu_size_mono:
  "get_next_rtu_adu_size direction p = Ok a \<Longrightarrow> get_next_rtu_adu_size direction (p @ q) = Ok b \<Longrightarrow> a \<le> b"
  using get_next_pdu_size_mono [of direction p _ q]
  by (cases p) (auto simp: get_next_rtu_adu_size_def split: if_splits)

text \<open>Decoding takes as many bytes as the size function says.\<close>

lemma decode_req_consumes:
  assumes "get_next_req_size data (Suc 0) = Ok k" "k + 3 \<le> length data" "decode_req (drop (Suc 0) data) = Ok (req, rest)"
  shows "rest = drop (Suc k) data"
proof -
  have len: "2 \<le> length data" using assms(2) by simp
  then obtain c fc where c: "byte_at data (Suc 0) = Ok c" "FunctionCode_of c = Ok fc"
    using assms(1) by (auto simp: get_next_req_size_def)
  with len have c0: "byte_at (drop (Suc 0) data) 0 = Ok c" by (simp add: byte_at_Ok_iff)
  have count: "v ! 2 = uint (data ! 6)" if "unpack_be [2, 2, Suc 0] (take 5 (drop (Suc (Suc 0)) data)) = Ok v" for v
  proof -
    have "7 \<le> length data" using that by (auto simp: unpack_be_def split: if_splits)
    then have "take 1 (drop 4 (take 5 (drop (Suc (Suc 0)) data))) = [data ! 6]"
      by (intro nth_equalityI) (simp_all add: nth_drop)
    with that show ?thesis by (auto simp: unpack_be_def from_be_def split: if_splits)
  qed
  show ?thesis
    using assms len c c0
    by (cases fc) (auto simp: get_next_req_size_def decode_req_def Let_def byte_at_Ok_iff
        dest!: count split: if_splits)
qed

lemma decode_res_consumes:
  assumes "get_next_res_size data (Suc 0) = Ok k" "k + 3 \<le> length data" "decode_res (drop (Suc 0) data) = Ok (res, rest)"
  shows "rest = drop (Suc k) data"
proof -
  have len: "2 \<le> length data" using assms(2) by simp
  then obtain c where c: "byte_at data (Suc 0) = Ok c"
    using assms(1) by (auto simp: get_next_res_size_def)
  with len have c0: "byte_at (drop (Suc 0) data) 0 = Ok c" by (simp add: byte_at_Ok_iff)
  have c1: "byte_at (drop (Suc (Suc 0)) data) 0 = byte_at data (Suc (Suc 0))" by (auto simp: byte_at_def)
  show ?thesis
  proof (cases "c AND 0x80 = 0")
    case False
    with assms len c c0 show ?thesis
      by (auto simp: get_next_res_size_def decode_res_def Let_def eval_nat_numeral)
  next
    case True
    with assms(1) len c obtain fc where fc: "FunctionCode_of c = Ok fc" by (auto simp: get_next_res_size_def)
    have "c AND 0x7F = c"
      using True c uint_byte_bounds [of "data ! Suc 0"] FunctionCode.of_Ok_iff [of c fc] fc
      by (auto simp: FunctionCode_of_def)
    with assms True len c c0 c1 fc show ?thesis
      by (cases fc) (auto simp: get_next_res_size_def decode_res_def Let_def eval_nat_numeral
          counted_registers_def counted_coils_def split: if_splits)
  qed
qed

lemma decode_pdu_consumes:
  assumes "get_next_pdu_size direction data (Suc 0) = Ok k" "k + 3 \<le> length data"
    and "decode_pdu direction (drop (Suc 0) data) = Ok (pdu, rest)"
  shows "rest = drop (Suc k) data"
  using assms decode_req_consumes [of data k _ rest] decode_res_consumes [of data k _ rest]
  by (cases direction) (auto simp: get_next_pdu_size_def decode_pdu_def)

section \<open>The checksum\<close>

definition crc_valid :: "bytes \<Rightarrow> bool" where
  "crc_valid frame \<longleftrightarrow> from_le (drop (length frame - 2) frame) = calculate_crc (take (length frame - 2) frame)"

lemma encoded_crc_valid:
  assumes "encode_adu (RtuAdu d pdu) = Ok bs"
  shows "crc_valid bs \<and> 2 \<le> length bs"
proof -
  from assms obtain db pb crc where "bs = db @ pb @ wire crc" "to_le 2 (calculate_crc (db @ pb)) = Ok crc"
    by (auto simp: bindE_Ok_iff)
  then obtain h where bs: "bs = h @ wire crc" "to_le 2 (calculate_crc h) = Ok crc" by (metis append.assoc)
  then have "length crc = 2" by (auto simp: to_le_def split: if_splits)
  with bs from_le_to_le [OF bs(2)] show ?thesis by (simp add: crc_valid_def)
qed

lemma crc_valid_byte:
  assumes "crc_valid (p @ b # q)" "crc_valid (p @ b' # q)" "2 \<le> length (p @ b # q)"
  shows "b = b'"
proof (cases "2 \<le> length q")
  case True
  define n where "n = length q - 2"
  have "length (p @ c # q) - 2 = length p + Suc n" for c using True by (simp add: n_def)
  then have "from_le (drop n q) = calculate_crc (p @ c # take n q)" if "crc_valid (p @ c # q)" for c
    using that unfolding crc_valid_def by simp
  with assms(1,2) crc_detects_byte [of b b' p "take n q"] show ?thesis by metis
next
  case False
  define n where "n = length (p @ b # q) - 2"
  have n: "n \<le> length p" "length (p @ c # q) - 2 = n" for c using False by (simp_all add: n_def)
  then have "from_le (drop n p @ b # q) = from_le (drop n p @ b' # q)"
    using assms(1,2) unfolding crc_valid_def by simp
  moreover have "length (drop n p @ b # q) = length (drop n p @ b' # q)" by simp
  ultimately have "map uint (drop n p @ b # q) = map uint (drop n p @ b' # q)"
    by (metis le_digits_from_le)
  then show ?thesis by (simp add: word_uint_eq_iff)
qed

text \<open>What is received was read as a frame of the size that its own bytes tell, and its checksum holds.\<close>

lemma received_frame:
  assumes "receive_adu RTU direction stream = Ok (adu, rest)"
  obtains frame where "stream = frame @ rest" "get_next_rtu_adu_size direction frame = Ok (length frame)" "crc_valid frame"
proof -
  let ?next = "get_next_adu_size RTU direction"
  from assms obtain data where f: "fill ?next [] stream = Ok (data, rest)" and d: "decode_one_adu RTU direction data = Ok adu"
    by (auto simp: receive_adu_def read_frame_def)
  have next_eq: "?next = get_next_rtu_adu_size direction" by (rule ext) (simp add: get_next_adu_size_def)
  have size: "?next data = Ok (length data)"
  proof (rule fill_exact [OF _ f])
    show "a \<le> b" if "?next p = Ok a" "?next (p @ q) = Ok b" for p q a b
      using that unfolding next_eq by (rule get_next_rtu_adu_size_mono)
    show "?next [] = Ok 1" by (simp add: next_eq get_next_rtu_adu_size_def)
  qed simp
  then have "\<exists>k. get_next_pdu_size direction data (Suc 0) = Ok k \<and> length data = k + 3"
    by (auto simp: next_eq get_next_rtu_adu_size_def bindE_Ok_iff split: if_splits)
  then obtain k where k: "get_next_pdu_size direction data (Suc 0) = Ok k" "length data = k + 3" by blast
  from d obtain rest where d: "decode_rtu_adu direction data = Ok (adu, rest)"
    by (auto simp: decode_one_adu_def decode_adu_def)
  then obtain pdu r where r: "decode_pdu direction (drop 1 data) = Ok (pdu, r)"
    "from_le (take 2 r) = calculate_crc (slice_to (int (length data) - int (length (drop 2 r)) - 2) data)"
    by (auto simp: decode_rtu_adu_def Let_def split: if_splits)
  have "r = drop (Suc k) data" using decode_pdu_consumes [OF k(1)] r(1) k(2) by simp
  then have "length r = 2" "drop 2 r = []" "take 2 r = drop (length data - 2) data" using k(2) by simp_all
  with r(2) k(2) slice_to_from_nat(1) [of "k + 1" data] have "crc_valid data"
    by (simp add: crc_valid_def del: slice_to_from_nat)
  with fill_split [OF f] size show ?thesis by (auto simp: next_eq intro: that)
qed

section \<open>The bytes that tell the size\<close>

text \<open>The function code, and the byte count of the functions that have one.\<close>

definition tells_size :: "Direction \<Rightarrow> bytes \<Rightarrow> nat \<Rightarrow> bool" where
  "tells_size direction frame i \<longleftrightarrow> i = 1 \<or>
     (case direction of
        REQUEST \<Rightarrow> i = 6 \<and> uint (frame ! 1) \<in> {15, 16}
      | RESPONSE \<Rightarrow> i = 2 \<and> uint (frame ! 1) \<in> {1, 2, 3, 4, 24})"

lemma tells_size_take: "i < length (take n xs) \<Longrightarrow> tells_size direction (take n xs) i \<Longrightarrow> tells_size direction xs i"
  by (cases direction) (auto simp: tells_size_def)

text \<open>Other bytes of a stream may be any: the size of each of its beginnings is the same.\<close>

lemma size_of_changed:
  assumes "length frame = length frame'" "\<And>i. i < length frame \<Longrightarrow> tells_size direction frame i \<Longrightarrow> frame ! i = frame' ! i"
  shows "get_next_rtu_adu_size direction frame' = get_next_rtu_adu_size direction frame"
proof (cases "length frame < 2")
  case True
  with assms(1) show ?thesis
    by (cases direction)
      (simp_all add: get_next_rtu_adu_size_def get_next_pdu_size_def get_next_req_size_def get_next_res_size_def)
next
  case False
  have one: "frame ! 1 = frame' ! 1" using assms(2) [of 1] False by (simp add: tells_size_def)
  have code: "FunctionCode_of c = Ok fc \<Longrightarrow> c = FunctionCode_value fc" for c fc
    using FunctionCode.of_Ok_iff [of c fc] by (simp add: FunctionCode_of_def)
  show ?thesis
  proof (cases "FunctionCode_of (uint (frame ! 1))")
    case (Inl e)
    with one False assms(1) show ?thesis
      by (cases direction) (simp_all add: get_next_rtu_adu_size_def get_next_pdu_size_def get_next_req_size_def
          get_next_res_size_def byte_at_def)
  next
    case (Inr fc)
    from code [OF Inr] have c: "uint (frame ! 1) = FunctionCode_value fc" .
    have six: "frame ! 6 = frame' ! 6" if "direction = REQUEST" "fc \<in> {WRITE_MULTIPLE_COILS, WRITE_MULTIPLE_REGISTER}" "6 < length frame"
      using assms(2) [of 6] that c by (auto simp: tells_size_def)
    have two: "frame ! 2 = frame' ! 2"
      if "direction = RESPONSE" "fc \<in> {READ_COILS, READ_DISCRETE_INPUTS, READ_HOLDING_REGISTERS, READ_INPUT_REGISTERS, READ_FIFO_QUEUE}"
        "2 < length frame"
      using assms(2) [of 2] that c by (auto simp: tells_size_def)
    from one False assms(1) Inr six two show ?thesis
      by (cases direction; cases fc)
        (simp_all add: get_next_rtu_adu_size_def get_next_pdu_size_def get_next_req_size_def get_next_res_size_def byte_at_def
          numeral_2_eq_2)
  qed
qed

text \<open>A size that was reached does not depend on what follows.\<close>

lemma size_reached:
  assumes "get_next_rtu_adu_size direction p = Ok n" "n \<le> length p"
  shows "get_next_rtu_adu_size direction (p @ q) = Ok n"
proof -
  from assms obtain k where k: "get_next_pdu_size direction p (Suc 0) = Ok k" "n = k + 3"
    by (auto simp: get_next_rtu_adu_size_def split: if_splits)
  then have "3 \<le> length p" using assms(2) by simp
  then have "byte_at (p @ q) (Suc 0) = byte_at p (Suc 0)" "byte_at (p @ q) (Suc (Suc 0)) = byte_at p (Suc (Suc 0))"
    "7 \<le> length p \<Longrightarrow> byte_at (p @ q) 6 = byte_at p 6"
    by (simp_all add: byte_at_append)
  with k assms(2) show ?thesis
    by (cases direction)
      (auto simp: get_next_rtu_adu_size_def get_next_pdu_size_def get_next_req_size_def get_next_res_size_def split: if_splits)
qed

text \<open>
  C15: In the RTU mode a frame in which any one byte was changed is not received as a unit that ends where
  the frame ends, be the byte the address, the function code, a length, a value or the checksum itself. Where the frame is well formed
  and the byte is neither the function code nor a byte count, nothing is received from it, whatever bytes
  follow; with another function code or count the loop may take fewer or more bytes for a frame, and is left with their checksum.
\<close>

theorem rtu_byte_error_detected:
  assumes "encode_adu (RtuAdu d pdu) = Ok (p @ b # q)" "b' \<noteq> b"
  shows "(receive_adu RTU direction (p @ b' # q @ more) = Ok (adu, rest) \<longrightarrow> length rest \<noteq> length more) \<and>
    (adu_ok RTU direction (RtuAdu d pdu) \<and> \<not> tells_size direction (p @ b # q) (length p) \<longrightarrow>
      receive_adu RTU direction (p @ b' # q @ more) \<noteq> Ok (adu, rest))"
proof -
  let ?frame = "p @ b # q" and ?changed = "p @ b' # q"
  have whole: "length rest \<noteq> length more" if received: "receive_adu RTU direction (?changed @ more) = Ok (adu, rest)"
  proof
    assume len: "length rest = length more"
    from received obtain frame where frame: "(?changed @ more) = frame @ rest" "crc_valid frame" by (rule received_frame)
    with len have "frame = ?changed" by (metis append_eq_append_conv)
    with frame(2) have "crc_valid ?changed" by simp
    with encoded_crc_valid [OF assms(1)] crc_valid_byte [of p b q b'] assms(2) show False by simp
  qed
  have "False" if ok: "adu_ok RTU direction (RtuAdu d pdu)" and no: "\<not> tells_size direction ?frame (length p)"
    and received: "receive_adu RTU direction (?changed @ more) = Ok (adu, rest)"
  proof -
    from received obtain frame where f: "?changed @ more = frame @ rest" "get_next_rtu_adu_size direction frame = Ok (length frame)"
      by (rule received_frame)
    have next_eq: "get_next_adu_size RTU direction = get_next_rtu_adu_size direction" by (rule ext) (simp add: get_next_adu_size_def)
    have size: "get_next_rtu_adu_size direction (take n ?changed) = get_next_rtu_adu_size direction (take n ?frame)" for n
    proof (rule size_of_changed)
      fix i assume "i < length (take n ?frame)" "tells_size direction (take n ?frame) i"
      moreover from this have "tells_size direction ?frame i" by (rule tells_size_take)
      moreover from this no have "i \<noteq> length p" by metis
      ultimately show "take n ?frame ! i = take n ?changed ! i" by (auto simp: nth_append nth_Cons')
    qed simp
    have full: "get_next_rtu_adu_size direction ?changed = Ok (length ?changed)"
      using size [of "length ?frame"] rtu.frame_size [OF ok assms(1)] by (simp add: next_eq)
    have "length frame = length ?changed"
    proof (rule ccontr)
      assume ne: "length frame \<noteq> length ?changed"
      show False
      proof (cases "length frame < length ?changed")
        case True
        define n where "n = length frame"
        have "frame = take n (?changed @ more)" unfolding f(1) by (simp add: n_def)
        also have "\<dots> = take n ?changed" using True by (subst take_append) (simp add: n_def)
        finally have frame: "frame = take n ?changed" .
        have n: "n < length ?frame" using True by (simp add: n_def)
        have "get_next_rtu_adu_size direction (take n ?changed) = Ok n" using f(2) frame n_def by metis
        with size [of n] have "get_next_rtu_adu_size direction (take n ?frame) = Ok n" by simp
        moreover have "encode_adu (RtuAdu d pdu) = Ok (take n ?frame @ drop n ?frame)" "drop n ?frame \<noteq> []"
          unfolding append_take_drop_id drop_eq_Nil using assms(1) n by (blast, simp only: not_le)
        ultimately show False using rtu.size_prefix [OF ok, of "take n ?frame" "drop n ?frame"] n by (auto simp: next_eq)
      next
        case False
        from f(1) obtain ext where "?changed = frame @ ext \<or> ?changed @ ext = frame"
          unfolding append_eq_append_conv2 by blast
        then have ext: "frame = ?changed @ ext"
        proof
          assume "?changed = frame @ ext"
          then have "length ?changed = length frame + length ext" by (metis length_append)
          with False ne show ?thesis by simp
        qed simp
        with f(2) size_reached [OF full, of ext] ne show False by simp
      qed
    qed
    with f(1) have "length rest = length more" by (metis add_left_cancel length_append)
    with whole [OF received] show False by simp
  qed
  with whole show ?thesis by auto
qed

lemma rtu_byte_error_detected_witness:
  "\<exists>p q. encode_adu (RtuAdu 1 (PduReq (ReadCoilsReq 10 3))) = Ok (p @ 10 # q) \<and>
    (\<forall>adu rest. receive_adu RTU REQUEST (p @ 11 # q @ [1, 1, 0]) \<noteq> Ok (adu, rest))"
proof -
  have ok: "adu_ok RTU REQUEST (RtuAdu 1 (PduReq (ReadCoilsReq 10 3)))"
    by (simp add: pdu_ok_def register_ok_def is_byte_def)
  obtain bs where bs: "encode_adu (RtuAdu 1 (PduReq (ReadCoilsReq 10 3))) = Ok bs" using encode_adu_ok [OF ok] .
  then obtain q where q: "bs = [1, 1, 0] @ 10 # q"
    by (auto simp: encode_pdu_def pack_be_def pack_field_def py_bytes_def is_byte_num numeral_2_eq_2)
  have "receive_adu RTU REQUEST ([1, 1, 0] @ 11 # q @ [1, 1, 0]) \<noteq> Ok (adu, rest)" for adu rest
    using rtu_byte_error_detected [OF bs [unfolded q], of 11 REQUEST "[1, 1, 0]" adu rest] ok by (simp add: tells_size_def)
  with bs q show ?thesis by blast
qed

end
