(* ===== verification/Modbus_Master.thy ===== *)
theory Modbus_Master
  imports Modbus_Connection "HOL-Library.Sublist"
begin

text \<open>
  The master of \<^verbatim>\<open>modbus/master.py\<close>: what \<open>send\<close> makes of a request and of the response to it, the
  loop that waits for a matching response, and the class with its queue of requests as a step
  relation. A caller that waits is a future with a number.
\<close>

section \<open>Requests and responses\<close>

text \<open>The first half of \<open>send\<close>.\<close>

fun request_unit :: "Request \<Rightarrow> ReqPdu result" where
  "request_unit (ReadReq _ data_type start_address quantity) =
     (case data_type of
        COIL \<Rightarrow> Ok (ReadCoilsReq start_address quantity)
      | DISCRETE_INPUT \<Rightarrow> Ok (ReadDiscreteInputsReq start_address quantity)
      | HOLDING_REGISTER \<Rightarrow> Ok (ReadHoldingRegistersReq start_address quantity)
      | INPUT_REGISTER \<Rightarrow> Ok (ReadInputRegistersReq start_address quantity)
      | QUEUE \<Rightarrow> Ok (ReadFifoQueueReq start_address))"
| "request_unit (WriteReq _ data_type start_address values) =
     (case data_type of
        COIL \<Rightarrow>
          Ok (if length values = 1 then WriteSingleCoilReq start_address (values ! 0)
              else WriteMultipleCoilsReq start_address values)
      | HOLDING_REGISTER \<Rightarrow>
          Ok (if length values = 1 then WriteSingleRegisterReq start_address (values ! 0)
              else WriteMultipleRegistersReq start_address values)
      | _ \<Rightarrow> Raise (ValueError ''unsupported data type''))"
| "request_unit (WriteMaskReq _ address and_mask or_mask) = Ok (MaskWriteRegisterReq address and_mask or_mask)"

text \<open>The second half of \<open>send\<close>; \<open>values[:quantity]\<close> is \<open>slice_to\<close>.\<close>

definition unit_result :: "Request \<Rightarrow> ResPdu \<Rightarrow> Response result" where
  "unit_result req res_pdu =
     (case (req, res_pdu) of
        (_, ErrorRes _ error) \<Rightarrow> Ok (Failure error)
      | (ReadReq _ _ _ quantity, ReadCoilsRes vs) \<Rightarrow> Ok (Values (slice_to quantity vs))
      | (ReadReq _ _ _ quantity, ReadDiscreteInputsRes vs) \<Rightarrow> Ok (Values (slice_to quantity vs))
      | (ReadReq _ _ _ quantity, ReadHoldingRegistersRes vs) \<Rightarrow> Ok (Values (slice_to quantity vs))
      | (ReadReq _ _ _ quantity, ReadInputRegistersRes vs) \<Rightarrow> Ok (Values (slice_to quantity vs))
      | (ReadReq _ _ _ _, ReadFifoQueueRes vs) \<Rightarrow> Ok (Values vs)
      | (ReadReq _ _ _ _, _) \<Rightarrow> Raise (ValueError ''unsupported response pdu'')
      | (WriteReq _ _ start_address vs, WriteSingleCoilRes address v) \<Rightarrow>
          if address \<noteq> start_address then Raise (Exception ''invalid response pdu address'')
          else bindE (list_at vs 0) (\<lambda>v'.
            if v \<noteq> v' then Raise (Exception ''invalid response pdu value'') else Ok Success)
      | (WriteReq _ _ start_address vs, WriteSingleRegisterRes address v) \<Rightarrow>
          if address \<noteq> start_address then Raise (Exception ''invalid response pdu address'')
          else bindE (list_at vs 0) (\<lambda>v'.
            if v \<noteq> v' then Raise (Exception ''invalid response pdu value'') else Ok Success)
      | (WriteReq _ _ start_address vs, WriteMultipleCoilsRes address quantity) \<Rightarrow>
          if address \<noteq> start_address then Raise (Exception ''invalid response pdu address'')
          else if quantity \<noteq> int (length vs) then Raise (Exception ''invalid response pdu quantity'') else Ok Success
      | (WriteReq _ _ start_address vs, WriteMultipleRegistersRes address quantity) \<Rightarrow>
          if address \<noteq> start_address then Raise (Exception ''invalid response pdu address'')
          else if quantity \<noteq> int (length vs) then Raise (Exception ''invalid response pdu quantity'') else Ok Success
      | (WriteReq _ _ _ _, _) \<Rightarrow> Raise (ValueError ''unsupported response pdu'')
      | (WriteMaskReq _ address and_mask or_mask, MaskWriteRegisterRes address' and_mask' or_mask') \<Rightarrow>
          if address' \<noteq> address then Raise (Exception ''invalid response pdu address'')
          else if and_mask' \<noteq> and_mask then Raise (Exception ''invalid response pdu and mask'')
          else if or_mask' \<noteq> or_mask then Raise (Exception ''invalid response pdu or mask'')
          else Ok Success
      | (WriteMaskReq _ _ _ _, _) \<Rightarrow> Raise (ValueError ''unsupported response pdu''))"

text \<open>The unit that \<open>_send\<close> queues; the transaction identifiers count from 1 with 16 bits.\<close>

definition request_adu :: "ModbusType \<Rightarrow> int \<Rightarrow> int \<Rightarrow> ReqPdu \<Rightarrow> Adu" where
  "request_adu modbus_type transaction_id device_id req =
     (case modbus_type of
        TCP \<Rightarrow> TcpAdu transaction_id device_id (PduReq req)
      | RTU \<Rightarrow> RtuAdu device_id (PduReq req)
      | ASCII \<Rightarrow> AsciiAdu device_id (PduReq req))"

text \<open>The tests of \<open>_receive\<close>, and its loop on all bytes that arrive until the connection is lost.\<close>

definition response_matches :: "Adu \<Rightarrow> Adu \<Rightarrow> bool" where
  "response_matches req_adu res_adu \<longleftrightarrow>
     (case res_adu of TcpAdu t _ _ \<Rightarrow> t = adu_transaction_id req_adu | _ \<Rightarrow> True) \<and>
     adu_device_id res_adu = adu_device_id req_adu \<and>
     get_pdu_function_code (adu_pdu res_adu) = get_pdu_function_code (adu_pdu req_adu)"

function receive_response :: "ModbusType \<Rightarrow> Adu \<Rightarrow> bytes \<Rightarrow> Adu result \<times> bytes" where
  "receive_response modbus_type req_adu stream =
     (case receive_or_rest modbus_type RESPONSE stream of
        (Inl e, rest) \<Rightarrow> (Raise e, rest)
      | (Inr res_adu, rest) \<Rightarrow>
          if response_matches req_adu res_adu then (Ok res_adu, rest)
          else receive_response modbus_type req_adu rest)"
  by pat_completeness auto
termination
  by (relation "measure (\<lambda>(_, _, stream). length stream)") (auto dest!: receive_or_rest_length [OF sym])

declare receive_response.simps [simp del]

text \<open>Units that do not match are discarded, whatever their number.\<close>

lemma receive_response_adu:
  assumes "adu_ok modbus_type RESPONSE adu" "encode_adu adu = Ok bs"
  shows "receive_response modbus_type req_adu (bs @ rest) =
    (if response_matches req_adu adu then (Ok adu, rest) else receive_response modbus_type req_adu rest)"
proof -
  have "receive_or_rest modbus_type RESPONSE (bs @ rest) = (Ok adu, rest)"
    using receive_adu_one [OF assms] by (simp add: receive_or_rest_Ok)
  then show ?thesis by (simp add: receive_response.simps [of modbus_type req_adu "bs @ rest"])
qed

lemma receive_response_skips:
  assumes "list_all (\<lambda>adu. adu_ok modbus_type RESPONSE adu \<and> \<not> response_matches req_adu adu) others"
    and "mapE encode_adu others = Ok bss"
    and "adu_ok modbus_type RESPONSE adu" "encode_adu adu = Ok bs" "response_matches req_adu adu"
  shows "receive_response modbus_type req_adu (concat bss @ bs @ rest) = (Ok adu, rest)"
  using assms(1,2)
proof (induction others arbitrary: bss)
  case Nil
  with assms(3-5) show ?case by (simp add: receive_response_adu)
next
  case (Cons other others)
  then obtain b bss' where "encode_adu other = Ok b" "mapE encode_adu others = Ok bss'" "bss = b # bss'" by auto
  with Cons receive_response_adu [of modbus_type other b req_adu] show ?case by simp
qed

lemma receive_response_result:
  "receive_response modbus_type req_adu stream = (Ok adu, rest) \<Longrightarrow> response_matches req_adu adu"
proof (induction modbus_type req_adu stream rule: receive_response.induct)
  case (1 modbus_type req_adu stream)
  obtain r rest' where r: "receive_or_rest modbus_type RESPONSE stream = (r, rest')" by fastforce
  show ?case
  proof (cases r)
    case (Inl e)
    with "1.prems" r show ?thesis by (simp add: receive_response.simps [of modbus_type req_adu stream])
  next
    case (Inr res)
    from "1.IH" [OF r [symmetric] Inr] "1.prems" r Inr show ?thesis
      by (auto simp: receive_response.simps [of modbus_type req_adu stream] split: if_splits)
  qed
qed

section \<open>The class Master\<close>

text \<open>
  The queue holds units with the futures of their callers. \<open>mm_current\<close> is the request that the
  sending loop has taken, from when it was written to when its future is done. \<open>mm_results\<close> has
  what the futures were set to; a caller that gives up cancels its future. \<open>mm_requests\<close> is a
  history: which unit every future is for.
\<close>

datatype Outcome = Response_received Adu | Failed exn | Cancelled

record Master =
  mm_type :: ModbusType
  mm_next_transaction_id :: int
  mm_queue :: "(Adu \<times> nat) list"
  mm_current :: "(Adu \<times> nat) option"
  mm_results :: "nat \<Rightarrow> Outcome option"
  mm_requests :: "Adu list"
  mm_written :: "Adu list"
  mm_open :: bool

definition init_master :: "ModbusType \<Rightarrow> Master" where
  "init_master modbus_type =
     \<lparr>mm_type = modbus_type, mm_next_transaction_id = 1, mm_queue = [], mm_current = None,
      mm_results = Map.empty, mm_requests = [], mm_written = [], mm_open = True\<rparr>"

definition mm_done :: "Master \<Rightarrow> nat \<Rightarrow> bool" where
  "mm_done m f \<longleftrightarrow> mm_results m f \<noteq> None"

text \<open>Setting a future that is done does not happen: the code tests \<open>done()\<close> first.\<close>

definition mm_set :: "nat \<Rightarrow> Outcome \<Rightarrow> Master \<Rightarrow> Master" where
  "mm_set f x m = (if mm_done m f then m else m\<lparr>mm_results := (mm_results m)(f \<mapsto> x)\<rparr>)"

text \<open>
  \<open>_send\<close> while the queue is open: the number of the new future is the number of earlier
  requests. With a closed queue the caller gets a ConnectionError and nothing changes but the
  counter of transactions.
\<close>

definition mm_send :: "int \<Rightarrow> ReqPdu \<Rightarrow> Master \<Rightarrow> nat result \<times> Master" where
  "mm_send device_id req m =
     (let adu = request_adu (mm_type m) (mm_next_transaction_id m) device_id req;
          f = length (mm_requests m);
          m = (if mm_type m = TCP then m\<lparr>mm_next_transaction_id := (mm_next_transaction_id m + 1) mod 0x10000\<rparr> else m)
      in if mm_open m
         then (Ok f, m\<lparr>mm_queue := mm_queue m @ [(adu, f)], mm_requests := mm_requests m @ [adu]\<rparr>)
         else (Raise ConnectionError, m))"

text \<open>The end of \<open>_send_loop\<close>: the callers of the current request and of all queued ones fail.\<close>

definition mm_close :: "Master \<Rightarrow> Master" where
  "mm_close m =
     (let m = (case mm_current m of None \<Rightarrow> m | Some (_, f) \<Rightarrow> mm_set f (Failed ConnectionError) m);
          m = foldl (\<lambda>m (_, f). mm_set f (Failed ConnectionError) m) m (mm_queue m)
      in m\<lparr>mm_queue := [], mm_current := None, mm_open := False\<rparr>)"

text \<open>
  Taking the next request: entries with a future that is done are dropped. A unit that cannot be
  encoded raises in the sending loop, which ends it.
\<close>

definition mm_take :: "Master \<Rightarrow> Master" where
  "mm_take m =
     (case dropWhile (\<lambda>(_, f). mm_done m f) (mm_queue m) of
        [] \<Rightarrow> m\<lparr>mm_queue := []\<rparr>
      | (adu, f) # queue \<Rightarrow>
          let m = m\<lparr>mm_queue := queue, mm_current := Some (adu, f)\<rparr>
          in (case encode_adu adu of
                Inl _ \<Rightarrow> mm_close m
              | Inr _ \<Rightarrow> m\<lparr>mm_written := mm_written m @ [adu]\<rparr>))"

text \<open>
  What ends the waiting for a response: a matching unit, an error in receiving (the result of
  the receiving task raises in the sending loop, which ends it), the timeout, or a caller that gave up.
\<close>

definition mm_received :: "Adu \<Rightarrow> Master \<Rightarrow> Master" where
  "mm_received res m =
     (case mm_current m of
        None \<Rightarrow> m
      | Some (req, f) \<Rightarrow>
          if response_matches req res then (mm_set f (Response_received res) m)\<lparr>mm_current := None\<rparr> else m)"

definition mm_timeout :: "Master \<Rightarrow> Master" where
  "mm_timeout m =
     (case mm_current m of
        None \<Rightarrow> m
      | Some (_, f) \<Rightarrow> (mm_set f (Failed TimeoutError) m)\<lparr>mm_current := None\<rparr>)"

definition mm_given_up :: "Master \<Rightarrow> Master" where
  "mm_given_up m =
     (case mm_current m of
        None \<Rightarrow> m
      | Some (_, f) \<Rightarrow> if mm_done m f then m\<lparr>mm_current := None\<rparr> else m)"

inductive mm_step :: "Master \<Rightarrow> Master \<Rightarrow> bool" where
  send: "mm_step m (snd (mm_send device_id req m))"
| cancel: "f < length (mm_requests m) \<Longrightarrow> mm_step m (mm_set f Cancelled m)"
| take: "mm_open m \<Longrightarrow> mm_current m = None \<Longrightarrow> mm_step m (mm_take m)"
| received: "mm_step m (mm_received res m)"
| receive_error: "mm_current m = Some (req, f) \<Longrightarrow> \<not> mm_done m f \<Longrightarrow> mm_step m (mm_close m)"
| timeout: "mm_step m (mm_timeout m)"
| given_up: "mm_step m (mm_given_up m)"
| close: "mm_step m (mm_close m)"

abbreviation mm_steps :: "Master \<Rightarrow> Master \<Rightarrow> bool" where
  "mm_steps \<equiv> mm_step\<^sup>*\<^sup>*"

section \<open>Invariants of the master\<close>

definition mm_waiting :: "Master \<Rightarrow> nat set" where
  "mm_waiting m = snd ` set (mm_queue m) \<union> (case mm_current m of None \<Rightarrow> {} | Some (_, f) \<Rightarrow> {f})"

text \<open>
  Every future is done or waits in the queue or as the current one, a response that was received
  matches the request of its caller, and requests are written in their order, each at most once.
\<close>

definition mm_inv :: "Master \<Rightarrow> bool" where
  "mm_inv m \<longleftrightarrow>
     (\<forall>(adu, f)\<in>set (mm_queue m). f < length (mm_requests m) \<and> mm_requests m ! f = adu) \<and>
     (\<forall>adu f. mm_current m = Some (adu, f) \<longrightarrow> f < length (mm_requests m) \<and> mm_requests m ! f = adu) \<and>
     (\<forall>f < length (mm_requests m). mm_done m f \<or> f \<in> mm_waiting m) \<and>
     (\<forall>f res. mm_results m f = Some (Response_received res) \<longrightarrow>
        f < length (mm_requests m) \<and> response_matches (mm_requests m ! f) res) \<and>
     subseq (mm_written m @ map fst (mm_queue m)) (mm_requests m) \<and>
     (\<not> mm_open m \<longrightarrow> mm_queue m = [] \<and> mm_current m = None)"

lemma mm_invI:
  assumes "\<And>adu f. (adu, f) \<in> set (mm_queue m) \<Longrightarrow> f < length (mm_requests m) \<and> mm_requests m ! f = adu"
    and "\<And>adu f. mm_current m = Some (adu, f) \<Longrightarrow> f < length (mm_requests m) \<and> mm_requests m ! f = adu"
    and "\<And>f. f < length (mm_requests m) \<Longrightarrow> \<not> mm_done m f \<Longrightarrow> f \<in> mm_waiting m"
    and "\<And>f res. mm_results m f = Some (Response_received res) \<Longrightarrow>
      f < length (mm_requests m) \<and> response_matches (mm_requests m ! f) res"
    and "subseq (mm_written m @ map fst (mm_queue m)) (mm_requests m)"
    and "\<not> mm_open m \<Longrightarrow> mm_queue m = [] \<and> mm_current m = None"
  shows "mm_inv m"
  unfolding mm_inv_def using assms by fast

lemma mm_invD:
  assumes "mm_inv m"
  shows "(adu, f) \<in> set (mm_queue m) \<Longrightarrow> f < length (mm_requests m) \<and> mm_requests m ! f = adu"
    and "mm_current m = Some (adu, f) \<Longrightarrow> f < length (mm_requests m) \<and> mm_requests m ! f = adu"
    and "f < length (mm_requests m) \<Longrightarrow> mm_done m f \<or> f \<in> mm_waiting m"
    and "mm_results m f = Some (Response_received res) \<Longrightarrow>
      f < length (mm_requests m) \<and> response_matches (mm_requests m ! f) res"
    and "subseq (mm_written m @ map fst (mm_queue m)) (mm_requests m)"
    and "\<not> mm_open m \<Longrightarrow> mm_queue m = [] \<and> mm_current m = None"
  using assms unfolding mm_inv_def by blast+

lemma mm_set_simps [simp]:
  "mm_queue (mm_set f x m) = mm_queue m" "mm_current (mm_set f x m) = mm_current m"
  "mm_requests (mm_set f x m) = mm_requests m" "mm_written (mm_set f x m) = mm_written m"
  "mm_open (mm_set f x m) = mm_open m" "mm_type (mm_set f x m) = mm_type m"
  "mm_next_transaction_id (mm_set f x m) = mm_next_transaction_id m"
  by (simp_all add: mm_set_def)

lemma mm_done_set [simp]: "mm_done (mm_set f x m) g \<longleftrightarrow> mm_done m g \<or> g = f"
  by (auto simp: mm_set_def mm_done_def)

lemma mm_done_update [simp]:
  "mm_done (mm_queue_update g m) f = mm_done m f" "mm_done (mm_current_update h m) f = mm_done m f"
  "mm_done (mm_open_update k m) f = mm_done m f" "mm_done (mm_written_update l m) f = mm_done m f"
  "mm_done (mm_requests_update n m) f = mm_done m f" "mm_done (mm_next_transaction_id_update i m) f = mm_done m f"
  by (simp_all add: mm_done_def)

lemma subseq_front: "subseq (xs @ ys) zs \<Longrightarrow> subseq xs zs"
  by (rule subseq_order.trans [of _ "xs @ ys"]) (auto intro: list_emb_prefix)

lemma subseq_without: "subseq (xs @ ds @ ys) zs \<Longrightarrow> subseq (xs @ ys) zs"
proof -
  have "subseq (xs @ ys) (xs @ ds @ ys)" by (rule list_emb_append_mono) (auto intro: list_emb_append2)
  then show "subseq (xs @ ds @ ys) zs \<Longrightarrow> subseq (xs @ ys) zs" by (rule subseq_order.trans)
qed

lemma mm_set_received:
  "mm_results (mm_set f x m) g = Some (Response_received res) \<Longrightarrow>
    mm_results m g = Some (Response_received res) \<or> g = f \<and> x = Response_received res"
  by (auto simp: mm_set_def split: if_splits)

lemma mm_inv_set:
  assumes "mm_inv m" "\<And>res. x = Response_received res \<Longrightarrow> f < length (mm_requests m) \<and> response_matches (mm_requests m ! f) res"
  shows "mm_inv (mm_set f x m)"
  using assms mm_set_received [of f x m] unfolding mm_inv_def mm_waiting_def by simp blast

text \<open>The sequence of failures at the end of the sending loop.\<close>

definition mm_fail_all :: "nat list \<Rightarrow> Master \<Rightarrow> Master" where
  "mm_fail_all fs m = foldl (\<lambda>m f. mm_set f (Failed ConnectionError) m) m fs"

lemma mm_fail_all_simps [simp]:
  "mm_queue (mm_fail_all fs m) = mm_queue m" "mm_current (mm_fail_all fs m) = mm_current m"
  "mm_requests (mm_fail_all fs m) = mm_requests m" "mm_written (mm_fail_all fs m) = mm_written m"
  "mm_type (mm_fail_all fs m) = mm_type m" "mm_next_transaction_id (mm_fail_all fs m) = mm_next_transaction_id m"
  by (induction fs arbitrary: m) (simp_all add: mm_fail_all_def)

lemma mm_done_fail_all [simp]: "mm_done (mm_fail_all fs m) g \<longleftrightarrow> mm_done m g \<or> g \<in> set fs"
  by (induction fs arbitrary: m) (auto simp: mm_fail_all_def)

lemma mm_results_fail_all:
  "mm_results (mm_fail_all fs m) g = (if g \<in> set fs \<and> \<not> mm_done m g then Some (Failed ConnectionError) else mm_results m g)"
  by (induction fs arbitrary: m) (auto simp: mm_fail_all_def mm_set_def mm_done_def)

lemma mm_inv_fail_all: "mm_inv m \<Longrightarrow> mm_inv (mm_fail_all fs m)"
proof (induction fs arbitrary: m)
  case (Cons f fs)
  from Cons.prems have "mm_inv (mm_set f (Failed ConnectionError) m)" by (rule mm_inv_set) simp
  from Cons.IH [OF this] show ?case by (simp add: mm_fail_all_def)
qed (simp add: mm_fail_all_def)

lemma mm_close_eq:
  "mm_close m = (mm_fail_all ((case mm_current m of None \<Rightarrow> [] | Some (_, f) \<Rightarrow> [f]) @ map snd (mm_queue m)) m)
     \<lparr>mm_queue := [], mm_current := None, mm_open := False\<rparr>"
  by (simp add: mm_close_def mm_fail_all_def foldl_map case_prod_unfold split: option.split)

lemma mm_close_done:
  assumes "mm_inv m" "f < length (mm_requests m)"
  shows "mm_done (mm_close m) f"
proof -
  have "mm_done m f \<or> f \<in> mm_waiting m" using assms by (simp add: mm_inv_def)
  then show ?thesis
    by (force simp: mm_close_eq mm_waiting_def split: option.splits)
qed

lemma mm_inv_close: "mm_inv m \<Longrightarrow> mm_inv (mm_close m)"
proof -
  assume inv: "mm_inv m"
  let ?fs = "(case mm_current m of None \<Rightarrow> [] | Some (_, f) \<Rightarrow> [f]) @ map snd (mm_queue m)"
  have "mm_inv (mm_fail_all ?fs m)" using inv by (rule mm_inv_fail_all)
  moreover have "mm_done (mm_fail_all ?fs m) f" if "f < length (mm_requests m)" for f
    using mm_close_done [OF inv that] by (simp add: mm_close_eq)
  moreover have "subseq (mm_written m) (mm_requests m)"
    using inv by (auto simp: mm_inv_def intro: subseq_front)
  ultimately show ?thesis
    by (simp add: mm_close_eq mm_inv_def mm_waiting_def)
qed

lemma mm_inv_take:
  assumes "mm_inv m" "mm_open m" "mm_current m = None"
  shows "mm_inv (mm_take m)"
proof (cases "dropWhile (\<lambda>(_, f). mm_done m f) (mm_queue m)")
  case Nil
  then have take: "mm_take m = m\<lparr>mm_queue := []\<rparr>" unfolding mm_take_def by (simp only: list.case)
  from Nil have d: "\<forall>(adu, f)\<in>set (mm_queue m). mm_done m f" by (auto simp: dropWhile_eq_Nil_conv)
  have "subseq (mm_written m) (mm_requests m)"
    using assms(1) by (auto simp: mm_inv_def intro: subseq_front)
  moreover have "\<forall>f < length (mm_requests m). mm_done m f"
    using d assms(1,3) by (fastforce simp: mm_inv_def mm_waiting_def)
  ultimately show ?thesis using assms by (simp add: take mm_inv_def mm_waiting_def)
next
  case (Cons e queue)
  obtain adu f where e: "e = (adu, f)" by fastforce
  define dropped where "dropped = takeWhile (\<lambda>(_, f). mm_done m f) (mm_queue m)"
  have q: "mm_queue m = dropped @ (adu, f) # queue"
    using Cons e takeWhile_dropWhile_id [of "\<lambda>(_, f). mm_done m f" "mm_queue m"] by (simp add: dropped_def)
  have d: "\<forall>(adu, f)\<in>set dropped. mm_done m f" by (auto simp: dropped_def dest: set_takeWhileD)
  let ?m = "m\<lparr>mm_queue := queue, mm_current := Some (adu, f)\<rparr>"
  have sub: "subseq (mm_written m @ adu # map fst queue) (mm_requests m)"
    using assms(1) q by (auto simp: mm_inv_def intro: subseq_without [of _ "map fst dropped"])
  then have "subseq (mm_written m @ map fst queue) (mm_requests m)"
    using subseq_without [of "mm_written m" "[adu]"] by simp
  then have inv: "mm_inv ?m"
  proof (intro mm_invI)
    fix g
    assume "g < length (mm_requests ?m)" "\<not> mm_done ?m g"
    with mm_invD(3) [OF assms(1), of g] d q assms(3) show "g \<in> mm_waiting ?m"
      by (auto simp: mm_waiting_def)
  qed (use mm_invD [OF assms(1)] q assms(2) in auto)
  show ?thesis
  proof (cases "encode_adu adu")
    case (Inl x)
    with Cons e mm_inv_close [OF inv] show ?thesis by (simp add: mm_take_def Let_def)
  next
    case (Inr x)
    with Cons e inv sub show ?thesis by (simp add: mm_take_def Let_def mm_inv_def mm_waiting_def)
  qed
qed

lemma mm_inv_next [simp]:
  "mm_inv (m\<lparr>mm_next_transaction_id := i\<rparr>) \<longleftrightarrow> mm_inv m"
  "mm_inv (m\<lparr>mm_next_transaction_id := i, mm_queue := q, mm_requests := r\<rparr>) \<longleftrightarrow> mm_inv (m\<lparr>mm_queue := q, mm_requests := r\<rparr>)"
  by (simp_all add: mm_inv_def mm_waiting_def)

lemma mm_inv_enqueue:
  assumes "mm_inv m" "mm_open m"
  shows "mm_inv (m\<lparr>mm_queue := mm_queue m @ [(adu, length (mm_requests m))], mm_requests := mm_requests m @ [adu]\<rparr>)"
    (is "mm_inv ?m")
proof (rule mm_invI)
  fix a f
  show "f < length (mm_requests ?m) \<and> mm_requests ?m ! f = a" if "(a, f) \<in> set (mm_queue ?m)"
    using that mm_invD(1) [OF assms(1), of a f] by (auto simp: nth_append)
  show "f < length (mm_requests ?m) \<and> mm_requests ?m ! f = a" if "mm_current ?m = Some (a, f)"
    using that mm_invD(2) [OF assms(1), of a f] by (simp add: nth_append)
  show "f < length (mm_requests ?m) \<and> response_matches (mm_requests ?m ! f) res"
    if "mm_results ?m f = Some (Response_received res)" for res
    using that mm_invD(4) [OF assms(1), of f res] by (simp add: nth_append)
  show "f \<in> mm_waiting ?m" if "f < length (mm_requests ?m)" "\<not> mm_done ?m f"
    using that mm_invD(3) [OF assms(1), of f] by (auto simp: mm_waiting_def less_Suc_eq)
next
  show "subseq (mm_written ?m @ map fst (mm_queue ?m)) (mm_requests ?m)"
    using list_emb_append_mono [OF mm_invD(5) [OF assms(1)], of "[adu]" "[adu]"] by simp
qed (use assms(2) in simp)

lemma mm_inv_send: "mm_inv m \<Longrightarrow> mm_inv (snd (mm_send device_id req m))"
  using mm_inv_enqueue [of m] by (simp add: mm_send_def Let_def)

lemma mm_inv_finish:
  assumes "mm_inv m" "\<And>adu f. mm_current m = Some (adu, f) \<Longrightarrow> mm_done m f"
  shows "mm_inv (m\<lparr>mm_current := None\<rparr>)"
proof (rule mm_invI)
  fix f
  assume "f < length (mm_requests (m\<lparr>mm_current := None\<rparr>))" "\<not> mm_done (m\<lparr>mm_current := None\<rparr>) f"
  with mm_invD(3) [OF assms(1), of f] assms(2) show "f \<in> mm_waiting (m\<lparr>mm_current := None\<rparr>)"
    by (cases "mm_current m") (auto simp: mm_waiting_def)
qed (use mm_invD(1,4,5,6) [OF assms(1)] in simp_all)

lemma mm_inv_received: "mm_inv m \<Longrightarrow> mm_inv (mm_received res m)"
proof -
  assume inv: "mm_inv m"
  have "mm_inv ((mm_set f (Response_received res) m)\<lparr>mm_current := None\<rparr>)"
    if c: "mm_current m = Some (req, f)" and "response_matches req res" for req f
  proof (rule mm_inv_finish)
    show "mm_inv (mm_set f (Response_received res) m)"
      using inv that by (intro mm_inv_set) (auto simp: mm_inv_def)
  qed (use c in simp)
  with inv show ?thesis by (auto simp: mm_received_def split: option.splits)
qed

lemma mm_inv_timeout: "mm_inv m \<Longrightarrow> mm_inv (mm_timeout m)"
proof -
  assume inv: "mm_inv m"
  have "mm_inv ((mm_set f (Failed TimeoutError) m)\<lparr>mm_current := None\<rparr>)" if "mm_current m = Some (req, f)" for req f
    using inv that by (intro mm_inv_finish mm_inv_set) simp_all
  with inv show ?thesis by (auto simp: mm_timeout_def split: option.splits)
qed

lemma mm_inv_given_up: "mm_inv m \<Longrightarrow> mm_inv (mm_given_up m)"
  by (auto simp: mm_given_up_def split: option.splits intro: mm_inv_finish)

lemma mm_inv_step: "mm_step m m' \<Longrightarrow> mm_inv m \<Longrightarrow> mm_inv m'"
  by (induction rule: mm_step.induct)
    (auto intro: mm_inv_set simp: mm_inv_send mm_inv_take mm_inv_received mm_inv_close mm_inv_timeout mm_inv_given_up)

lemma mm_inv_init: "mm_inv (init_master modbus_type)"
  by (simp add: mm_inv_def init_master_def)

lemma mm_inv_steps: "mm_steps (init_master modbus_type) m \<Longrightarrow> mm_inv m"
  by (induction rule: rtranclp_induct) (simp_all add: mm_inv_init mm_inv_step)

subsection \<open>Transactions\<close>

text \<open>With TCP the unit of future \<open>f\<close> has the identifier \<open>f + 1\<close>, of 16 bits.\<close>

definition mm_ids :: "Master \<Rightarrow> bool" where
  "mm_ids m \<longleftrightarrow> mm_type m = TCP \<and>
     (mm_open m \<longrightarrow> mm_next_transaction_id m = int (length (mm_requests m) + 1) mod 0x10000) \<and>
     (\<forall>f < length (mm_requests m). adu_transaction_id (mm_requests m ! f) = int (f + 1) mod 0x10000)"

lemma mm_received_simps [simp]:
  "mm_type (mm_received res m) = mm_type m" "mm_requests (mm_received res m) = mm_requests m"
  "mm_next_transaction_id (mm_received res m) = mm_next_transaction_id m" "mm_open (mm_received res m) = mm_open m"
  by (simp_all add: mm_received_def split: option.split)

lemma mm_timeout_simps [simp]:
  "mm_type (mm_timeout m) = mm_type m" "mm_requests (mm_timeout m) = mm_requests m"
  "mm_next_transaction_id (mm_timeout m) = mm_next_transaction_id m" "mm_open (mm_timeout m) = mm_open m"
  by (simp_all add: mm_timeout_def split: option.split)

lemma mm_given_up_simps [simp]:
  "mm_type (mm_given_up m) = mm_type m" "mm_requests (mm_given_up m) = mm_requests m"
  "mm_next_transaction_id (mm_given_up m) = mm_next_transaction_id m" "mm_open (mm_given_up m) = mm_open m"
  by (simp_all add: mm_given_up_def split: option.split)

lemma mm_close_simps [simp]:
  "mm_type (mm_close m) = mm_type m" "mm_requests (mm_close m) = mm_requests m"
  "mm_next_transaction_id (mm_close m) = mm_next_transaction_id m" "\<not> mm_open (mm_close m)"
  by (simp_all add: mm_close_eq)

lemma mm_take_simps:
  "mm_type (mm_take m) = mm_type m" "mm_requests (mm_take m) = mm_requests m"
  "mm_next_transaction_id (mm_take m) = mm_next_transaction_id m" "mm_open (mm_take m) \<Longrightarrow> mm_open m"
  by (auto simp: mm_take_def Let_def split: list.splits prod.splits sum.splits)

lemma mm_ids_step: "mm_step m m' \<Longrightarrow> mm_ids m \<Longrightarrow> mm_ids m'"
proof (induction rule: mm_step.induct)
  case (send m device_id req)
  then show ?case
    by (auto simp: mm_ids_def mm_send_def Let_def nth_append less_Suc_eq request_adu_def mod_simps add.commute)
next
  case (take m)
  then show ?case using mm_take_simps [of m] by (auto simp: mm_ids_def)
qed (simp_all add: mm_ids_def)

lemma mm_ids_steps: "mm_steps (init_master TCP) m \<Longrightarrow> mm_ids m"
proof (induction rule: rtranclp_induct)
  case base
  then show ?case by (simp add: mm_ids_def init_master_def)
qed (rule mm_ids_step)

subsection \<open>The request of an answer\<close>

lemma mm_step_grows: "mm_step m m' \<Longrightarrow> prefix (mm_requests m) (mm_requests m') \<and> mm_type m' = mm_type m"
  by (induction rule: mm_step.induct) (auto simp: mm_send_def Let_def mm_take_simps)

lemma mm_steps_grow: "mm_steps m m' \<Longrightarrow> prefix (mm_requests m) (mm_requests m') \<and> mm_type m' = mm_type m"
  by (induction rule: rtranclp_induct) (auto dest: mm_step_grows intro: prefix_order.trans)

text \<open>Only a request that was written is waited for, and answered.\<close>

definition mm_asked :: "Master \<Rightarrow> bool" where
  "mm_asked m \<longleftrightarrow> (\<forall>adu f. mm_current m = Some (adu, f) \<longrightarrow> adu \<in> set (mm_written m)) \<and>
     (\<forall>f res. mm_results m f = Some (Response_received res) \<longrightarrow> mm_requests m ! f \<in> set (mm_written m))"

lemma mm_asked_set: "mm_asked m \<Longrightarrow> \<forall>res. x \<noteq> Response_received res \<Longrightarrow> mm_asked (mm_set f x m)"
  by (auto simp: mm_asked_def mm_set_def)

lemma mm_asked_idle: "mm_asked m \<Longrightarrow> mm_asked (m\<lparr>mm_current := None\<rparr>)"
  by (simp add: mm_asked_def)

lemma mm_asked_close: "mm_asked m \<Longrightarrow> mm_asked (mm_close m)"
  by (auto simp: mm_close_eq mm_asked_def mm_results_fail_all split: if_splits)

lemma mm_asked_step: "mm_step m m' \<Longrightarrow> mm_inv m \<Longrightarrow> mm_asked m \<Longrightarrow> mm_asked m'"
proof (induction rule: mm_step.induct)
  case (send m device_id req)
  then show ?case
    using mm_invD(4) [OF send(1)] by (auto simp: mm_send_def Let_def mm_asked_def nth_append)
next
  case (cancel f m)
  then show ?case by (simp add: mm_asked_set)
next
  case (take m)
  then show ?case
    by (auto simp: mm_take_def Let_def mm_asked_def mm_close_eq mm_results_fail_all split: list.splits prod.splits sum.splits if_splits)
next
  case (received m res)
  show ?case
  proof (cases "mm_current m")
    case (Some c)
    obtain req f where c: "c = (req, f)" by (cases c)
    with received Some mm_invD(2) [OF received(1), of req f] show ?thesis
      by (auto simp: mm_received_def mm_asked_def mm_set_def)
  qed (use received in \<open>simp add: mm_received_def\<close>)
next
  case (timeout m)
  then show ?case by (auto simp: mm_timeout_def mm_asked_set mm_asked_idle split: option.splits)
next
  case (given_up m)
  then show ?case by (auto simp: mm_given_up_def mm_asked_idle split: option.splits)
qed (simp_all add: mm_asked_close)

lemma mm_asked_steps: "mm_steps (init_master modbus_type) m \<Longrightarrow> mm_asked m"
proof (induction rule: rtranclp_induct)
  case base
  then show ?case by (simp add: mm_asked_def init_master_def)
qed (rule mm_asked_step, auto intro: mm_inv_steps)

section \<open>Properties\<close>

text \<open>
  C18: whatever units and errors come from the connection, and however requests, timeouts and
  callers that give up interleave before and after a call, a response that this call gets has the device and
  the function code of the call and, with TCP, the transaction identifier that the call took, and
  the unit of the call had been written.
\<close>

theorem response_answers_request:
  assumes "mm_steps (init_master modbus_type) m0" "mm_send device_id req m0 = (Ok f, m1)" "mm_steps m1 m"
    and "mm_results m f = Some (Response_received res)"
  shows "adu_device_id res = device_id \<and> get_pdu_function_code (adu_pdu res) = get_req_function_code req \<and>
    (\<forall>t d pdu. modbus_type = TCP \<and> res = TcpAdu t d pdu \<longrightarrow> t = mm_next_transaction_id m0) \<and>
    request_adu modbus_type (mm_next_transaction_id m0) device_id req \<in> set (mm_written m)"
proof -
  let ?adu = "request_adu modbus_type (mm_next_transaction_id m0) device_id req"
  have "mm_type m0 = modbus_type" using mm_steps_grow [OF assms(1)] by (simp add: init_master_def)
  then have f: "f = length (mm_requests m0)" "mm_requests m1 = mm_requests m0 @ [?adu]"
    using assms(2) by (auto simp: mm_send_def Let_def split: if_splits)
  have "mm_steps m0 m1" using mm_step.send [of m0 device_id req] assms(2) by auto
  with assms(1,3) have m: "mm_steps (init_master modbus_type) m" by auto
  from mm_steps_grow [OF assms(3)] f have adu: "mm_requests m ! f = ?adu" by (auto simp: prefix_def nth_append)
  from mm_invD(4) [OF mm_inv_steps [OF m] assms(4)] adu have "response_matches ?adu res" by simp
  moreover from mm_asked_steps [OF m] assms(4) adu have "?adu \<in> set (mm_written m)" by (auto simp: mm_asked_def)
  ultimately show ?thesis
    by (cases modbus_type) (auto simp: response_matches_def request_adu_def get_pdu_function_code_def)
qed
text \<open>
  C19: no caller is forgotten: while the master is open, a request without an outcome is queued or
  being processed, and once it is closed every request has an outcome; requests are written in the
  order of the calls and each at most once.
\<close>

theorem every_request_has_an_outcome:
  assumes "mm_steps (init_master modbus_type) m"
  shows "(\<forall>f < length (mm_requests m). mm_done m f \<or> mm_open m \<and> f \<in> mm_waiting m) \<and>
    subseq (mm_written m) (mm_requests m)"
proof -
  note inv = mm_inv_steps [OF assms]
  have "mm_open m" if "f \<in> mm_waiting m" for f
    using that mm_invD(6) [OF inv] by (cases "mm_open m") (simp_all add: mm_waiting_def)
  with mm_invD(3) [OF inv] subseq_front [OF mm_invD(5) [OF inv]] show ?thesis by blast
qed

text \<open>
  C17: with TCP a response that comes late, after its request timed out or was given up, is never
  taken for the answer to one of the 65535 requests after it.
\<close>

theorem late_response_discarded:
  assumes "mm_steps (init_master TCP) m" "mm_current m = Some (req, g)"
    and "f < g" "g < f + 0x10000" "response_matches (mm_requests m ! f) (TcpAdu t d pdu)"
  shows "mm_received (TcpAdu t d pdu) m = m"
proof -
  note inv = mm_inv_steps [OF assms(1)] and ids = mm_ids_steps [OF assms(1)]
  have g: "g < length (mm_requests m)" "mm_requests m ! g = req" using mm_invD(2) [OF inv assms(2)] by auto
  have "t = int (f + 1) mod 0x10000"
    using assms(3,5) g(1) ids by (simp add: response_matches_def mm_ids_def)
  moreover have "adu_transaction_id req = int (g + 1) mod 0x10000" using g ids by (auto simp: mm_ids_def)
  moreover have "int (f + 1) mod 0x10000 \<noteq> int (g + 1) mod 0x10000"
  proof
    assume "int (f + 1) mod 0x10000 = int (g + 1) mod 0x10000"
    then have "0x10000 dvd int (g + 1) - int (f + 1)" by (metis mod_eq_dvd_iff)
    with assms(3,4) show False by (auto dest!: zdvd_imp_le)
  qed
  ultimately have "\<not> response_matches req (TcpAdu t d pdu)" by (simp add: response_matches_def)
  with assms(2) show ?thesis by (simp add: mm_received_def)
qed

text \<open>
  A request that cannot be encoded, with an address of more than 16 bits say, ends the sending
  loop: its caller and all callers that wait behind it get a ConnectionError, and the master is closed.
\<close>

lemma invalid_request_closes:
  assumes "mm_steps (init_master modbus_type) m" "mm_open m" "mm_current m = None"
    and "mm_queue m = (adu, f) # queue" "\<not> mm_done m f" "encode_adu adu = Raise x"
  shows "\<not> mm_open (mm_take m) \<and> mm_results (mm_take m) f = Some (Failed ConnectionError) \<and>
    (\<forall>g < length (mm_requests m). mm_done (mm_take m) g)"
proof -
  let ?m = "m\<lparr>mm_queue := queue, mm_current := Some (adu, f)\<rparr>"
  have t: "mm_take m = mm_close ?m" using assms(4-6) by (simp add: mm_take_def Let_def)
  note inv = mm_inv_steps [OF assms(1)]
  have inv': "mm_inv (mm_take m)" using inv assms(2,3) by (rule mm_inv_take)
  have closed: "\<not> mm_open (mm_take m)" by (simp add: t)
  have "mm_done (mm_take m) g" if "g < length (mm_requests m)" for g
  proof -
    have "mm_requests (mm_take m) = mm_requests m" by (rule mm_take_simps)
    with mm_invD(3) [OF inv', of g] mm_invD(6) [OF inv' closed] that show ?thesis by (simp add: mm_waiting_def)
  qed
  moreover have "mm_results (mm_take m) f = Some (Failed ConnectionError)"
    using assms(5) by (simp add: t mm_close_eq mm_results_fail_all)
  ultimately show ?thesis using closed by blast
qed

text \<open>
  A run with TCP: the first of two requests times out, its response comes while the second is
  processed, and then the response to that.
\<close>

definition example_queued :: Master where
  "example_queued =
     snd (mm_send 1 (ReadHoldingRegistersReq 20 1) (snd (mm_send 1 (ReadHoldingRegistersReq 10 1) (init_master TCP))))"

definition example_run :: Master where
  "example_run = mm_take (mm_timeout (mm_take example_queued))"

lemma example_unit_encodable:
  "register_ok t \<Longrightarrow> register_ok a \<Longrightarrow> \<exists>bs. encode_adu (TcpAdu t 1 (PduReq (ReadHoldingRegistersReq a 1))) = Ok bs"
  using encode_adu_ok [of TCP REQUEST "TcpAdu t 1 (PduReq (ReadHoldingRegistersReq a 1))"]
  by (auto simp: pdu_ok_def register_ok_def is_byte_def simp del: encode_adu.simps)

lemma example_run_state:
  "mm_steps (init_master TCP) example_run"
  "mm_requests example_run = [TcpAdu 1 1 (PduReq (ReadHoldingRegistersReq 10 1)), TcpAdu 2 1 (PduReq (ReadHoldingRegistersReq 20 1))]"
  "mm_current example_run = Some (TcpAdu 2 1 (PduReq (ReadHoldingRegistersReq 20 1)), 1)"
  "mm_results example_run = [0 \<mapsto> Failed TimeoutError]"
proof -
  obtain bs bs' where "encode_adu (TcpAdu 1 1 (PduReq (ReadHoldingRegistersReq 10 1))) = Ok bs"
    "encode_adu (TcpAdu 2 1 (PduReq (ReadHoldingRegistersReq 20 1))) = Ok bs'"
    using example_unit_encodable [of 1 10] example_unit_encodable [of 2 20] by (auto simp: register_ok_def)
  note eval = this example_queued_def mm_send_def init_master_def request_adu_def mm_take_def mm_timeout_def
    mm_done_def mm_set_def Let_def
  have "mm_steps (init_master TCP) example_queued"
    unfolding example_queued_def by (meson mm_step.send rtranclp.rtrancl_into_rtrancl rtranclp.rtrancl_refl)
  moreover have "mm_step example_queued (mm_take example_queued)"
    by (rule mm_step.take) (simp_all add: eval del: encode_adu.simps)
  moreover have "mm_step (mm_timeout (mm_take example_queued)) example_run"
    unfolding example_run_def by (rule mm_step.take) (simp_all add: eval del: encode_adu.simps)
  ultimately show "mm_steps (init_master TCP) example_run"
    by (meson mm_step.timeout rtranclp.rtrancl_into_rtrancl)
  show "mm_requests example_run = [TcpAdu 1 1 (PduReq (ReadHoldingRegistersReq 10 1)), TcpAdu 2 1 (PduReq (ReadHoldingRegistersReq 20 1))]"
    "mm_current example_run = Some (TcpAdu 2 1 (PduReq (ReadHoldingRegistersReq 20 1)), 1)"
    "mm_results example_run = [0 \<mapsto> Failed TimeoutError]"
    by (simp_all add: example_run_def eval del: encode_adu.simps)
qed

lemma late_response_discarded_witness:
  "mm_received (TcpAdu 1 1 (PduRes (ReadHoldingRegistersRes [7]))) example_run = example_run"
  by (rule late_response_discarded [OF example_run_state(1,3), of 0])
    (simp_all add: example_run_state(2) response_matches_def get_pdu_function_code_def)

lemma every_request_has_an_outcome_witness:
  "(mm_done example_run 0 \<or> mm_open example_run \<and> 0 \<in> mm_waiting example_run) \<and>
    (mm_done example_run 1 \<or> mm_open example_run \<and> 1 \<in> mm_waiting example_run) \<and> subseq (mm_written example_run)
    [TcpAdu 1 1 (PduReq (ReadHoldingRegistersReq 10 1)), TcpAdu 2 1 (PduReq (ReadHoldingRegistersReq 20 1))]"
  using every_request_has_an_outcome [OF example_run_state(1)] by (simp add: example_run_state(2))

lemma example_run_steps: "mm_steps example_queued example_run"
proof -
  obtain bs bs' where "encode_adu (TcpAdu 1 1 (PduReq (ReadHoldingRegistersReq 10 1))) = Ok bs"
    "encode_adu (TcpAdu 2 1 (PduReq (ReadHoldingRegistersReq 20 1))) = Ok bs'"
    using example_unit_encodable [of 1 10] example_unit_encodable [of 2 20] by (auto simp: register_ok_def)
  note eval = this example_queued_def mm_send_def init_master_def request_adu_def mm_take_def mm_timeout_def
    mm_done_def mm_set_def Let_def
  have "mm_step example_queued (mm_take example_queued)"
    by (rule mm_step.take) (simp_all add: eval del: encode_adu.simps)
  moreover have "mm_step (mm_timeout (mm_take example_queued)) example_run"
    unfolding example_run_def by (rule mm_step.take) (simp_all add: eval del: encode_adu.simps)
  ultimately show ?thesis by (meson mm_step.timeout rtranclp.rtrancl_into_rtrancl rtranclp.rtrancl_refl)
qed

lemma response_answers_request_witness:
  defines "res \<equiv> TcpAdu 2 1 (PduRes (ReadHoldingRegistersRes [8]))"
  shows "mm_results (mm_received res example_run) 1 = Some (Response_received res) \<and>
    TcpAdu 2 1 (PduReq (ReadHoldingRegistersReq 20 1)) \<in> set (mm_written (mm_received res example_run))"
proof -
  let ?m = "mm_received res example_run" and ?first = "snd (mm_send 1 (ReadHoldingRegistersReq 10 1) (init_master TCP))"
  have r: "mm_results ?m 1 = Some (Response_received res)"
    by (simp add: mm_received_def example_run_state res_def response_matches_def get_pdu_function_code_def mm_set_def mm_done_def)
  have "mm_steps (init_master TCP) ?first" by (meson mm_step.send rtranclp.rtrancl_into_rtrancl rtranclp.rtrancl_refl)
  moreover have "mm_send 1 (ReadHoldingRegistersReq 20 1) ?first = (Ok 1, example_queued)" "mm_next_transaction_id ?first = 2"
    by (simp_all add: example_queued_def mm_send_def init_master_def Let_def)
  moreover have "mm_steps example_queued ?m"
    using example_run_steps mm_step.received by (rule rtranclp.rtrancl_into_rtrancl)
  ultimately show ?thesis using response_answers_request [OF _ _ _ r, of TCP ?first 1 "ReadHoldingRegistersReq 20 1" example_queued] r
    by (simp add: request_adu_def)
qed

lemma invalid_request_closes_witness:
  defines "m \<equiv> snd (mm_send 1 (ReadCoilsReq 5 1) (snd (mm_send 1 (ReadCoilsReq 70000 1) (init_master RTU))))"
  shows "\<not> mm_open (mm_take m) \<and> mm_results (mm_take m) 0 = Some (Failed ConnectionError) \<and> mm_done (mm_take m) 1"
proof -
  have s: "mm_steps (init_master RTU) m"
    unfolding m_def by (meson mm_step.send rtranclp.rtrancl_into_rtrancl rtranclp.rtrancl_refl)
  have "encode_adu (RtuAdu 1 (PduReq (ReadCoilsReq 70000 1))) = Raise (StructError ''argument out of range'')"
    by (simp add: encode_pdu_def pack_be_def pack_field_def py_bytes_def is_byte_def)
  moreover have "mm_open m" "mm_current m = None" "\<not> mm_done m 0" "length (mm_requests m) = 2"
    "mm_queue m = [(RtuAdu 1 (PduReq (ReadCoilsReq 70000 1)), 0), (RtuAdu 1 (PduReq (ReadCoilsReq 5 1)), 1)]"
    by (simp_all add: m_def mm_send_def init_master_def request_adu_def mm_done_def Let_def)
  ultimately show ?thesis using invalid_request_closes [OF s] by auto
qed

end
