(* ===== verification/Modbus_Slave.thy ===== *)
theory Modbus_Slave
  imports Modbus_Connection
begin

text \<open>
  The slave of \<^verbatim>\<open>modbus/slave.py\<close>. The request callback of the application is an argument, with
  a state of its own: it returns a response, no response, or raises. A slave without callback is
  one whose argument is \<open>None\<close>.
\<close>

type_synonym 's request_cb = "Request \<Rightarrow> 's \<Rightarrow> Response option result \<times> 's"

section \<open>Processing of one request\<close>

text \<open>The request that \<open>_process_request\<close> makes of a protocol data unit.\<close>

fun unit_request :: "int \<Rightarrow> ReqPdu \<Rightarrow> Request" where
  "unit_request device_id (ReadCoilsReq address quantity) = ReadReq device_id COIL address quantity"
| "unit_request device_id (ReadDiscreteInputsReq address quantity) = ReadReq device_id DISCRETE_INPUT address quantity"
| "unit_request device_id (ReadHoldingRegistersReq address quantity) = ReadReq device_id HOLDING_REGISTER address quantity"
| "unit_request device_id (ReadInputRegistersReq address quantity) = ReadReq device_id INPUT_REGISTER address quantity"
| "unit_request device_id (WriteSingleCoilReq address value) = WriteReq device_id COIL address [value]"
| "unit_request device_id (WriteSingleRegisterReq address value) = WriteReq device_id HOLDING_REGISTER address [value]"
| "unit_request device_id (WriteMultipleCoilsReq address values) = WriteReq device_id COIL address values"
| "unit_request device_id (WriteMultipleRegistersReq address values) = WriteReq device_id HOLDING_REGISTER address values"
| "unit_request device_id (MaskWriteRegisterReq address and_mask or_mask) = WriteMaskReq device_id address and_mask or_mask"
| "unit_request device_id (ReadFifoQueueReq address) = ReadReq device_id QUEUE address 0"

text \<open>\<open>Success\<close> is an empty tuple: where the code takes it for a sequence of values it has none.\<close>

fun response_values :: "Response \<Rightarrow> int list" where
  "response_values (Values vs) = vs"
| "response_values _ = []"

fun unit_response :: "ReqPdu \<Rightarrow> Response \<Rightarrow> ResPdu" where
  "unit_response req (Failure error) = ErrorRes (get_req_function_code req) error"
| "unit_response (ReadCoilsReq _ _) res = ReadCoilsRes (response_values res)"
| "unit_response (ReadDiscreteInputsReq _ _) res = ReadDiscreteInputsRes (response_values res)"
| "unit_response (ReadHoldingRegistersReq _ _) res = ReadHoldingRegistersRes (response_values res)"
| "unit_response (ReadInputRegistersReq _ _) res = ReadInputRegistersRes (response_values res)"
| "unit_response (WriteSingleCoilReq address value) res = WriteSingleCoilRes address value"
| "unit_response (WriteSingleRegisterReq address value) res = WriteSingleRegisterRes address value"
| "unit_response (WriteMultipleCoilsReq address values) res = WriteMultipleCoilsRes address (int (length values))"
| "unit_response (WriteMultipleRegistersReq address values) res = WriteMultipleRegistersRes address (int (length values))"
| "unit_response (MaskWriteRegisterReq address and_mask or_mask) res = MaskWriteRegisterRes address and_mask or_mask"
| "unit_response (ReadFifoQueueReq _) res = ReadFifoQueueRes (response_values res)"

text \<open>
  \<open>_process_request\<close>. The receiving of requests gives no unit of another kind; one raises a
  TypeError all the same.
\<close>

definition process_request :: "'s request_cb option \<Rightarrow> int \<Rightarrow> Pdu \<Rightarrow> 's \<Rightarrow> ResPdu option result \<times> 's" where
  "process_request request_cb device_id pdu s =
     (case request_cb of
        None \<Rightarrow> (Ok None, s)
      | Some cb \<Rightarrow>
          (case pdu of
             PduReq req \<Rightarrow>
               (case cb (unit_request device_id req) s of
                  (Inl e, s) \<Rightarrow> (Raise e, s)
                | (Inr None, s) \<Rightarrow> (Ok None, s)
                | (Inr (Some res), s) \<Rightarrow> (Ok (Some (unit_response req res)), s))
           | PduRes _ \<Rightarrow> (Raise (TypeError ''unsupported request''), s)))"

definition response_adu :: "ModbusType \<Rightarrow> Adu \<Rightarrow> ResPdu \<Rightarrow> Adu" where
  "response_adu modbus_type req_adu res =
     (case modbus_type of
        TCP \<Rightarrow> TcpAdu (adu_transaction_id req_adu) (adu_device_id req_adu) (PduRes res)
      | RTU \<Rightarrow> RtuAdu (adu_device_id req_adu) (PduRes res)
      | ASCII \<Rightarrow> AsciiAdu (adu_device_id req_adu) (PduRes res))"

text \<open>
  One turn of the loop after a request was received: the bytes that are written, if any. An error
  in the callback or in the encoder is logged and the loop goes on; writing itself does not fail
  here.
\<close>

definition serve_turn :: "ModbusType \<Rightarrow> 's request_cb option \<Rightarrow> Adu \<Rightarrow> 's \<Rightarrow> bytes option \<times> 's" where
  "serve_turn modbus_type request_cb req_adu s =
     (case process_request request_cb (adu_device_id req_adu) (adu_pdu req_adu) s of
        (Inl _, s) \<Rightarrow> (None, s)
      | (Inr None, s) \<Rightarrow> (None, s)
      | (Inr (Some res), s) \<Rightarrow>
          (case encode_adu (response_adu modbus_type req_adu res) of Inl _ \<Rightarrow> (None, s) | Inr bs \<Rightarrow> (Some bs, s)))"

section \<open>The receiving loop\<close>

text \<open>
  \<open>_receive_loop\<close> on all bytes that arrive until the connection is lost: the responses that are
  written, and the last state of the application.
\<close>

function receive_loop :: "ModbusType \<Rightarrow> 's request_cb option \<Rightarrow> bytes \<Rightarrow> 's \<Rightarrow> bytes list \<times> 's" where
  "receive_loop modbus_type request_cb stream s =
     (case receive_or_rest modbus_type REQUEST stream of
        (Inl e, rest) \<Rightarrow> if e = ConnectionError then ([], s) else receive_loop modbus_type request_cb rest s
      | (Inr req_adu, rest) \<Rightarrow>
          (let (written, s) = serve_turn modbus_type request_cb req_adu s;
               (more, s) = receive_loop modbus_type request_cb rest s
           in (case written of None \<Rightarrow> more | Some bs \<Rightarrow> bs # more, s)))"
  by pat_completeness auto
termination
  by (relation "measure (\<lambda>(_, _, stream, _). length stream)") (auto dest!: receive_or_rest_length [OF sym])

declare receive_loop.simps [simp del]

lemma receive_loop_request:
  assumes "adu_ok modbus_type REQUEST adu" "encode_adu adu = Ok bs"
  shows "receive_loop modbus_type request_cb (bs @ rest) s =
    (let (written, s) = serve_turn modbus_type request_cb adu s;
         (more, s) = receive_loop modbus_type request_cb rest s
     in (case written of None \<Rightarrow> more | Some bs \<Rightarrow> bs # more, s))"
proof -
  have "receive_or_rest modbus_type REQUEST (bs @ rest) = (Ok adu, rest)"
    using receive_adu_one [OF assms] by (simp add: receive_or_rest_Ok)
  then show ?thesis by (simp add: receive_loop.simps [of modbus_type request_cb "bs @ rest"])
qed

lemma receive_loop_Nil: "receive_loop modbus_type request_cb [] s = ([], s)"
proof -
  have "receive_or_rest modbus_type REQUEST [] = (Raise ConnectionError, [])"
    using get_next_adu_size_Nil [of modbus_type REQUEST] by (auto simp: receive_or_rest_def fill_or_rest.simps)
  then show ?thesis by (simp add: receive_loop.simps)
qed

text \<open>A request that is well formed has a response with the function code of the request.\<close>

lemma unit_response_function_code: "get_res_function_code (unit_response req res) = get_req_function_code req"
  by (cases req; cases res) simp_all

end
