(* ===== verification/Modbus_System.thy ===== *)
theory Modbus_System
  imports Modbus_Master Modbus_Slave
begin

text \<open>
  A master and a slave that are connected: a call of \<open>Master.send\<close> is written to the connection,
  served by the receiving loop of the slave, and its response is received and interpreted by the
  master. The application at the slave is any callback; through the connection a client gets the
  responses that the callback gives, as if it called it directly.
\<close>

section \<open>One call\<close>

text \<open>
  \<open>Master.send\<close> with the transaction identifier that it takes. Before the response other units may
  arrive, late responses to earlier requests for example: \<open>before\<close> are their bytes.
\<close>

definition remote_call ::
  "ModbusType \<Rightarrow> 's request_cb \<Rightarrow> int \<Rightarrow> bytes \<Rightarrow> Request \<Rightarrow> 's \<Rightarrow> Response result \<times> 's" where
  "remote_call modbus_type cb transaction_id before req s =
     (case request_unit req of
        Inl e \<Rightarrow> (Raise e, s)
      | Inr req_pdu \<Rightarrow>
          (let req_adu = request_adu modbus_type transaction_id (req_device_id req) req_pdu
           in (case encode_adu req_adu of
                 Inl e \<Rightarrow> (Raise ConnectionError, s)
               | Inr bs \<Rightarrow>
                   (let (written, s) = receive_loop modbus_type (Some cb) bs s
                    in (case fst (receive_response modbus_type req_adu (before @ concat written)) of
                          Inl e \<Rightarrow> (Raise ConnectionError, s)
                        | Inr res_adu \<Rightarrow>
                            (case adu_pdu res_adu of
                               PduRes res_pdu \<Rightarrow> (unit_result req res_pdu, s)
                             | PduReq _ \<Rightarrow> (Raise (ValueError ''unsupported response pdu''), s)))))))"

section \<open>Requests that are transparent\<close>

text \<open>The request that the callback gets: the quantity of a queue is not transferred.\<close>

fun delivered :: "Request \<Rightarrow> Request" where
  "delivered (ReadReq d QUEUE address quantity) = ReadReq d QUEUE address 0"
| "delivered req = req"

fun request_ok :: "Request \<Rightarrow> bool" where
  "request_ok (ReadReq d data_type address quantity) \<longleftrightarrow>
     is_byte d \<and> register_ok address \<and> (data_type \<noteq> QUEUE \<longrightarrow> register_ok quantity)"
| "request_ok (WriteReq d COIL address vs) \<longleftrightarrow> is_byte d \<and> register_ok address \<and> coils_ok vs"
| "request_ok (WriteReq d HOLDING_REGISTER address vs) \<longleftrightarrow> is_byte d \<and> register_ok address \<and> registers_ok vs"
| "request_ok (WriteReq d _ address vs) \<longleftrightarrow> False"
| "request_ok (WriteMaskReq d address m n) \<longleftrightarrow> is_byte d \<and> register_ok address \<and> register_ok m \<and> register_ok n"

text \<open>The responses that suit a request: as many values as it asks for, or success.\<close>

fun response_ok :: "Request \<Rightarrow> Response \<Rightarrow> bool" where
  "response_ok req (Failure e) \<longleftrightarrow> True"
| "response_ok (ReadReq d COIL address quantity) (Values vs) \<longleftrightarrow> coils_ok vs \<and> int (length vs) = quantity"
| "response_ok (ReadReq d DISCRETE_INPUT address quantity) (Values vs) \<longleftrightarrow> coils_ok vs \<and> int (length vs) = quantity"
| "response_ok (ReadReq d HOLDING_REGISTER address quantity) (Values vs) \<longleftrightarrow> registers_ok vs \<and> int (length vs) = quantity"
| "response_ok (ReadReq d INPUT_REGISTER address quantity) (Values vs) \<longleftrightarrow> registers_ok vs \<and> int (length vs) = quantity"
| "response_ok (ReadReq d QUEUE address quantity) (Values vs) \<longleftrightarrow> registers_ok vs"
| "response_ok (ReadReq _ _ _ _) Success \<longleftrightarrow> False"
| "response_ok _ (Values _) \<longleftrightarrow> False"
| "response_ok _ Success \<longleftrightarrow> True"

lemma request_unit_ok:
  assumes "request_ok req"
  obtains pdu where "request_unit req = Ok pdu" "req_ok pdu" "unit_request (req_device_id req) pdu = delivered req"
    "is_byte (req_device_id req)"
  using assms
proof (cases req)
  case (ReadReq d ty a n)
  with assms that show thesis by (cases ty) simp_all
next
  case (WriteReq d ty a vs)
  have one: "vs = [vs ! 0]" if "length vs = 1" using that by (cases vs) simp_all
  from WriteReq assms that one show thesis
    by (cases ty; cases "length vs = 1") (auto simp: coils_ok_def registers_ok_def list_all_length)
next
  case (WriteMaskReq d a m n)
  with assms that show thesis by simp
qed

section \<open>Responses with coils are padded to whole bytes\<close>

fun padded_res :: "ResPdu \<Rightarrow> ResPdu" where
  "padded_res (ReadCoilsRes vs) = ReadCoilsRes (padded_coils vs)"
| "padded_res (ReadDiscreteInputsRes vs) = ReadDiscreteInputsRes (padded_coils vs)"
| "padded_res res = res"

lemma length_padded_coils [simp]: "length (padded_coils vs) = 8 * coil_count vs"
  using coil_count_bounds(1) [of vs] by (simp add: padded_coils_def)

lemma coil_count_padded [simp]: "coil_count (padded_coils vs) = coil_count vs"
  by (simp add: coil_count_def [of "padded_coils vs"])

lemma coil_bytes_padded [simp]: "coil_bytes (padded_coils vs) = coil_bytes vs"
proof -
  have "coil_byte (padded_coils vs) i = coil_byte vs i" if "i < coil_count vs" for i
  proof (rule bit_eqI)
    fix j
    have "i * 8 + j < 8 * coil_count vs" if "j < 8" using that \<open>i < coil_count vs\<close> by simp
    then show "bit (coil_byte (padded_coils vs) i) j = bit (coil_byte vs i) j"
      by (auto simp: bit_coil_byte padded_coils_def nth_append coil_value_def)
  qed
  then show ?thesis by (simp add: coil_bytes_def)
qed

lemma encode_padded_res: "encode_res (padded_res res) = encode_res res"
  by (cases res) simp_all

lemma coils_ok_padded: "coils_ok vs \<Longrightarrow> coils_ok (padded_coils vs)"
  using coil_count_le [of vs] by (auto simp: coils_ok_def padded_coils_def coil_value_def list_all_iff)

lemma unit_response_ok:
  assumes "request_ok req" "request_unit req = Ok pdu" "response_ok req res"
  shows "res_ok (padded_res (unit_response pdu res))" "unit_result req (padded_res (unit_response pdu res)) = Ok res"
proof -
  have vals: "slice_to (int (length vs)) (padded_coils vs) = vs" if "coils_ok vs" for vs
    using that coil_count_bounds(1) [of vs] take_padded_coils [of vs] by (simp add: coils_ok_def coil_value_id)
  have one: "list_at vs 0 = Ok (vs ! 0)" if "length vs = 1" for vs :: "int list" using that by (simp add: list_at_def)
  have "res_ok (padded_res (unit_response pdu res)) \<and> unit_result req (padded_res (unit_response pdu res)) = Ok res"
  proof (cases req)
    case (ReadReq d ty a n)
    with assms vals coils_ok_padded show ?thesis
      by (cases ty; cases res) (auto simp: unit_result_def)
  next
    case (WriteReq d ty a vs)
    have v: "vs ! 0 = 0 \<or> vs ! 0 = 1" if "length vs = 1" "coils_ok vs"
      using that by (auto simp: coils_ok_def list_all_length)
    have r: "register_ok (vs ! 0)" if "length vs = 1" "registers_ok vs"
      using that by (auto simp: registers_ok_def list_all_length)
    have n: "register_ok (int (length vs))" if "length vs \<le> 2040" using that by (simp add: register_ok_def)
    from WriteReq assms one v r n show ?thesis
      by (cases ty; cases res; cases "length vs = 1") (auto simp: unit_result_def coils_ok_def registers_ok_def)
  next
    case (WriteMaskReq d a m k)
    with assms show ?thesis by (cases res) (auto simp: unit_result_def)
  qed
  then show "res_ok (padded_res (unit_response pdu res))" "unit_result req (padded_res (unit_response pdu res)) = Ok res" by auto
qed

lemma encode_pdu_padded: "encode_pdu (PduRes (padded_res res)) = encode_pdu (PduRes res)"
  by (simp add: encode_pdu_def encode_padded_res)

lemma encode_response_padded:
  "encode_adu (response_adu modbus_type req_adu (padded_res res)) = encode_adu (response_adu modbus_type req_adu res)"
  by (cases modbus_type) (simp_all add: response_adu_def encode_pdu_padded)

lemma padded_function_code: "get_res_function_code (padded_res res) = get_res_function_code res"
  by (cases res) simp_all

section \<open>Properties\<close>

lemma request_adu_simps [simp]:
  "adu_device_id (request_adu modbus_type t d req) = d"
  "adu_pdu (request_adu modbus_type t d req) = PduReq req"
  by (cases modbus_type; simp add: request_adu_def)+

lemma response_adu_simps [simp]:
  "adu_device_id (response_adu modbus_type adu res) = adu_device_id adu"
  "adu_pdu (response_adu modbus_type adu res) = PduRes res"
  by (cases modbus_type; simp add: response_adu_def)+

lemma request_adu_ok:
  "register_ok t \<Longrightarrow> is_byte d \<Longrightarrow> req_ok req \<Longrightarrow> adu_ok modbus_type REQUEST (request_adu modbus_type t d req)"
  by (cases modbus_type) (simp_all add: request_adu_def pdu_ok_def)

lemma response_adu_ok:
  "register_ok t \<Longrightarrow> is_byte d \<Longrightarrow> res_ok res \<Longrightarrow>
    adu_ok modbus_type RESPONSE (response_adu modbus_type (request_adu modbus_type t d req) res)"
  by (cases modbus_type) (simp_all add: response_adu_def request_adu_def pdu_ok_def)

lemma response_adu_matches:
  "get_res_function_code res = get_req_function_code req \<Longrightarrow>
    response_matches (request_adu modbus_type t d req) (response_adu modbus_type (request_adu modbus_type t d req) res)"
  by (cases modbus_type) (simp_all add: response_matches_def response_adu_def request_adu_def get_pdu_function_code_def)

text \<open>
  C13: a well-formed request through a master, the connection and a slave has the result and the
  effect of the application's callback on that request, where the callback returns a response that
  fits it (as many values as were asked for, or a failure). Any number of late responses may arrive
  first, if each is from another device, has another function code or, with TCP, another
  transaction identifier; in the other two modes a late response of the same device and function cannot be told apart.
\<close>

theorem remote_call_transparent:
  assumes req: "request_ok req" and tid: "register_ok transaction_id"
    and cb: "cb (delivered req) s = (Ok (Some res), s')" and res: "response_ok req res"
    and pdu: "request_unit req = Ok req_pdu"
    and req_adu: "req_adu = request_adu modbus_type transaction_id (req_device_id req) req_pdu"
    and late: "list_all (\<lambda>adu. adu_ok modbus_type RESPONSE adu \<and>
      (adu_device_id adu \<noteq> req_device_id req \<or> get_pdu_function_code (adu_pdu adu) \<noteq> get_req_function_code req_pdu \<or>
       (\<exists>t d pdu. adu = TcpAdu t d pdu \<and> t \<noteq> transaction_id))) others"
    and bss: "mapE encode_adu others = Ok bss"
  shows "remote_call modbus_type cb transaction_id (concat bss) req s = (Ok res, s')"
proof -
  have others: "list_all (\<lambda>adu. adu_ok modbus_type RESPONSE adu \<and> \<not> response_matches req_adu adu) others"
    using late unfolding list_all_iff req_adu
    by (cases modbus_type) (auto simp: response_matches_def request_adu_def get_pdu_function_code_def elim: adu_ok.elims)
  from request_unit_ok [OF req] pdu
  have ok: "req_ok req_pdu" "unit_request (req_device_id req) req_pdu = delivered req" "is_byte (req_device_id req)" by auto
  let ?padded = "padded_res (unit_response req_pdu res)"
  let ?res_adu = "response_adu modbus_type req_adu ?padded"
  obtain bs where bs: "encode_adu req_adu = Ok bs"
    using encode_adu_ok [OF request_adu_ok [OF tid ok(3,1)], of modbus_type] req_adu by blast
  have padded: "res_ok ?padded" "unit_result req ?padded = Ok res" using unit_response_ok [OF req pdu res] by auto
  have res_ok: "adu_ok modbus_type RESPONSE ?res_adu" unfolding req_adu by (rule response_adu_ok [OF tid ok(3) padded(1)])
  then obtain rs where rs: "encode_adu ?res_adu = Ok rs" by (rule encode_adu_ok)
  have "serve_turn modbus_type (Some cb) req_adu s = (Some rs, s')"
    using cb ok(2) rs by (simp add: serve_turn_def process_request_def req_adu encode_response_padded)
  with receive_loop_request [of modbus_type req_adu bs "Some cb" "[]" s] bs request_adu_ok [OF tid ok(3,1)]
  have slave: "receive_loop modbus_type (Some cb) bs s = ([rs], s')" by (simp add: req_adu receive_loop_Nil)
  have "response_matches req_adu ?res_adu"
    unfolding req_adu by (rule response_adu_matches) (simp add: padded_function_code unit_response_function_code)
  from receive_response_skips [OF others bss res_ok rs this, of "[]"]
  have "fst (receive_response modbus_type req_adu (concat bss @ rs)) = Ok ?res_adu" by simp
  with pdu bs slave padded(2) show ?thesis by (simp add: remote_call_def Let_def req_adu [symmetric])
qed

text \<open>A device with one block of holding registers as the application.\<close>

fun memory_cb :: "(int list) request_cb" where
  "memory_cb (ReadReq _ HOLDING_REGISTER address quantity) regs =
     (Ok (Some (if nat (address + quantity) \<le> length regs
                then Values (take (nat quantity) (drop (nat address) regs))
                else Failure INVALID_DATA_ADDRESS)), regs)"
| "memory_cb (WriteMaskReq _ address and_mask or_mask) regs =
     (if nat address < length regs
      then (Ok (Some Success), regs[nat address := apply_mask (regs ! nat address) and_mask or_mask])
      else (Ok (Some (Failure INVALID_DATA_ADDRESS)), regs))"
| "memory_cb _ regs = (Ok (Some (Failure INVALID_FUNCTION_CODE)), regs)"

lemma remote_call_transparent_witness:
  "\<exists>bs. encode_adu (TcpAdu 6 1 (PduRes (MaskWriteRegisterRes 1 0xF2 0x25))) = Ok bs \<and>
    remote_call TCP memory_cb 7 (concat [bs]) (WriteMaskReq 1 1 0xF2 0x25) [5, 0x12, 9] = (Ok Success, [5, 0x17, 9])"
proof -
  let ?late = "TcpAdu 6 1 (PduRes (MaskWriteRegisterRes 1 0xF2 0x25))"
  have ok: "adu_ok TCP RESPONSE ?late" by (simp add: pdu_ok_def register_ok_def is_byte_def)
  then obtain bs where bs: "encode_adu ?late = Ok bs" by (rule encode_adu_ok)
  have "remote_call TCP memory_cb 7 (concat [bs]) (WriteMaskReq 1 1 0xF2 0x25) [5, 0x12, 9] = (Ok Success, [5, 0x17, 9])"
  proof (rule remote_call_transparent [where others = "[?late]"])
    show "memory_cb (delivered (WriteMaskReq 1 1 0xF2 0x25)) [5, 0x12, 9] = (Ok (Some Success), [5, 0x17, 9])"
      by (simp add: apply_mask_def)
    show "mapE encode_adu [?late] = Ok [bs]" by (simp only: mapE.simps bs bindE_simps)
  qed (use ok in \<open>simp_all add: register_ok_def is_byte_def\<close>)
  with bs show ?thesis by blast
qed

end
