(* ===== verification/Py_Str.thy ===== *)
theory Py_Str
  imports Prelude
begin

text \<open>
  Python's strings with their encoding in UTF-8: \<open>s.encode()\<close> and \<open>str(data, encoding='utf-8')\<close>,
  both strict. A string is the list of its code points. Of a UnicodeError it is only kept that it
  was raised.
\<close>

section \<open>Encoding\<close>

type_synonym pystr = "int list"

text \<open>A literal of characters below 128.\<close>

definition py_str :: "string \<Rightarrow> pystr" where
  "py_str s = map of_char s"

definition surrogate :: "int \<Rightarrow> bool" where
  "surrogate c \<longleftrightarrow> 0xD800 \<le> c \<and> c \<le> 0xDFFF"

definition utf8_char :: "int \<Rightarrow> int list result" where
  "utf8_char c =
     (if c < 0x80 then Ok [c]
      else if c < 0x800 then Ok [0xC0 + c div 0x40, 0x80 + c mod 0x40]
      else if surrogate c then Raise UnicodeError
      else if c < 0x10000 then Ok [0xE0 + c div 0x1000, 0x80 + c div 0x40 mod 0x40, 0x80 + c mod 0x40]
      else Ok [0xF0 + c div 0x40000, 0x80 + c div 0x1000 mod 0x40, 0x80 + c div 0x40 mod 0x40, 0x80 + c mod 0x40])"

definition utf8_encode :: "pystr \<Rightarrow> int list result" where
  "utf8_encode s = concatE utf8_char s"

section \<open>Decoding\<close>

text \<open>
  The first byte tells how many more there are, the first bits of the code point, and the least one
  that is not written shorter.
\<close>

definition utf8_lead :: "int \<Rightarrow> nat \<times> int \<times> int" where
  "utf8_lead b =
     (if b < 0x80 then (0, b, 0)
      else if b < 0xE0 then (1, b - 0xC0, 0x80)
      else if b < 0xF0 then (2, b - 0xE0, 0x800)
      else (3, b - 0xF0, 0x10000))"

definition utf8_next :: "bytes \<Rightarrow> (int \<times> bytes) result" where
  "utf8_next bs =
     bindE (byte_at bs 0) (\<lambda>b.
       let (n, lead, least) = utf8_lead b;
           more = map uint (take n (drop 1 bs));
           c = foldl (\<lambda>c x. c * 0x40 + (x - 0x80)) lead more
       in if length more = n \<and> list_all (\<lambda>x. 0x80 \<le> x \<and> x < 0xC0) more \<and> least \<le> c \<and> c \<le> 0x10FFFF \<and> \<not> surrogate c
          then Ok (c, drop (n + 1) bs) else Raise UnicodeError)"

lemma utf8_next_length: "utf8_next bs = Ok (c, rest) \<Longrightarrow> length rest < length bs"
  by (cases bs) (auto simp: utf8_next_def Let_def split: if_splits prod.splits)

function utf8_decode :: "bytes \<Rightarrow> pystr result" where
  "utf8_decode bs =
     (if bs = [] then Ok []
      else bindE (utf8_next bs) (\<lambda>(c, rest). bindE (utf8_decode rest) (\<lambda>cs. Ok (c # cs))))"
  by pat_completeness auto
termination by (relation "measure length") (auto dest: utf8_next_length)

declare utf8_decode.simps [simp del]

lemma utf8_decode_Nil [simp]: "utf8_decode [] = Ok []"
  by (simp add: utf8_decode.simps)

section \<open>Round trips\<close>

definition str_ok :: "pystr \<Rightarrow> bool" where
  "str_ok s \<longleftrightarrow> list_all (\<lambda>c. 0 \<le> c \<and> c \<le> 0x10FFFF) s"

text \<open>A number in digits of six bits.\<close>

lemma six_bits:
  fixes h l :: int
  assumes "0 \<le> l" "l < 64"
  shows "(h * 64 + l) div 64 = h" "(h * 64 + l) mod 64 = l"
  using assms by simp_all

lemma three_digits:
  fixes c p q r :: int
  assumes "c = (p * 64 + q) * 64 + r" "0 \<le> q" "q < 64" "0 \<le> r" "r < 64"
  shows "c div 4096 = p" "c div 64 mod 64 = q" "c mod 64 = r"
proof -
  have d: "c div 64 = p * 64 + q" and m: "c mod 64 = r" using assms six_bits [of r "p * 64 + q"] by simp_all
  have "c div 4096 = c div 64 div 64" by (simp add: div_mult2_eq [symmetric])
  then show "c div 4096 = p" "c div 64 mod 64 = q" "c mod 64 = r" unfolding d m using six_bits [OF assms(2,3)] by simp_all
qed

lemma four_digits:
  fixes c p q r t :: int
  assumes "c = ((p * 64 + q) * 64 + r) * 64 + t" "0 \<le> q" "q < 64" "0 \<le> r" "r < 64" "0 \<le> t" "t < 64"
  shows "c div 262144 = p" "c div 4096 mod 64 = q" "c div 64 mod 64 = r" "c mod 64 = t"
proof -
  have h: "c div 4096 = p * 64 + q" "c div 64 mod 64 = r" "c mod 64 = t"
    by (rule three_digits [OF assms(1,4-7)])+
  have "c div 262144 = c div 4096 div 64" by (simp add: div_mult2_eq [symmetric])
  then have "c div 262144 = p" "c div 4096 mod 64 = q" unfolding h(1) using six_bits [OF assms(2,3)] by simp_all
  with h show "c div 262144 = p" "c div 4096 mod 64 = q" "c div 64 mod 64 = r" "c mod 64 = t" by blast+
qed

lemma digits_exist:
  fixes c :: int
  obtains p q where "c = p * 64 + q" "0 \<le> q" "q < 64"
  by (rule that [of "c div 64" "c mod 64"]) simp_all

lemma utf8_next_wire:
  assumes "is_byte b" "list_all (\<lambda>x. 0x80 \<le> x \<and> x < 0xC0) more" "utf8_lead b = (length more, lead, least)"
    and "c = foldl (\<lambda>c x. c * 0x40 + (x - 0x80)) lead more" "least \<le> c" "c \<le> 0x10FFFF" "\<not> surrogate c"
  shows "all_bytes (b # more) \<and> utf8_next (wire (b # more) @ rest) = Ok (c, rest)"
proof -
  have m: "all_bytes more" using assms(2) by (auto simp: all_bytes_def is_byte_def list_all_iff)
  then have "map uint (wire more) = more" by (rule map_uint_wire)
  with assms m show ?thesis by (simp add: utf8_next_def uint_of_byte)
qed

lemma utf8_char_next:
  assumes "utf8_char c = Ok ys" "0 \<le> c" "c \<le> 0x10FFFF"
  shows "all_bytes ys \<and> ys \<noteq> [] \<and> utf8_next (wire ys @ rest) = Ok (c, rest)"
proof -
  consider "c < 0x80" | "0x80 \<le> c" "c < 0x800" | "0x800 \<le> c" "c < 0x10000" | "0x10000 \<le> c" by linarith
  then obtain b more lead least where "ys = b # more" "is_byte b" "list_all (\<lambda>x. 0x80 \<le> x \<and> x < 0xC0) more"
    "utf8_lead b = (length more, lead, least)" "c = foldl (\<lambda>c x. c * 0x40 + (x - 0x80)) lead more" "least \<le> c" "\<not> surrogate c"
  proof cases
    case 1
    with assms that [of c "[]" c 0] show thesis by (simp add: utf8_char_def utf8_lead_def is_byte_def surrogate_def)
  next
    case 2
    obtain p q where c: "c = p * 64 + q" "0 \<le> q" "q < 64" by (rule digits_exist)
    with assms(1) 2 have "ys = [0xC0 + p, 0x80 + q]" by (simp add: utf8_char_def six_bits)
    then show thesis using 2 c by (intro that [of "0xC0 + p" "[0x80 + q]" p "0x80"]) (simp_all add: utf8_lead_def is_byte_def surrogate_def)
  next
    case 3
    obtain h r where h: "c = h * 64 + r" "0 \<le> r" "r < 64" by (rule digits_exist)
    obtain p q where p: "h = p * 64 + q" "0 \<le> q" "q < 64" by (rule digits_exist)
    from h p have c: "c = (p * 64 + q) * 64 + r" by simp
    have ys: "ys = [0xE0 + p, 0x80 + q, 0x80 + r]" "\<not> surrogate c"
      using assms(1) 3 by (simp_all add: utf8_char_def three_digits [OF c p(2,3) h(2,3)] split: if_splits)
    have "0 \<le> p" "p < 16" using 3 c p h by linarith+
    with ys c 3 p h show thesis
      by (intro that [of "0xE0 + p" "[0x80 + q, 0x80 + r]" p "0x800"]) (simp_all add: utf8_lead_def is_byte_def)
  next
    case 4
    obtain h t where h: "c = h * 64 + t" "0 \<le> t" "t < 64" by (rule digits_exist)
    obtain g r where g: "h = g * 64 + r" "0 \<le> r" "r < 64" by (rule digits_exist)
    obtain p q where p: "g = p * 64 + q" "0 \<le> q" "q < 64" by (rule digits_exist)
    from h g p have c: "c = ((p * 64 + q) * 64 + r) * 64 + t" by simp
    have ys: "ys = [0xF0 + p, 0x80 + q, 0x80 + r, 0x80 + t]" "\<not> surrogate c"
      using assms(1) 4 by (simp_all add: utf8_char_def four_digits [OF c p(2,3) g(2,3) h(2,3)] surrogate_def split: if_splits)
    have "0 \<le> p" "p < 5" using 4 c p g h assms(3) by linarith+
    with ys c 4 p g h show thesis
      by (intro that [of "0xF0 + p" "[0x80 + q, 0x80 + r, 0x80 + t]" p "0x10000"]) (simp_all add: utf8_lead_def is_byte_def)
  qed
  with utf8_next_wire [of b more lead least c rest] assms(3) show ?thesis by simp
qed

lemma utf8_next_char:
  assumes "utf8_next bs = Ok (c, rest)"
  shows "\<exists>ys. utf8_char c = Ok ys \<and> bs = wire ys @ rest \<and> 0 \<le> c \<and> c \<le> 0x10FFFF"
proof -
  obtain b bs' where bs: "bs = b # bs'" using assms by (cases bs) (auto simp: utf8_next_def)
  define x where "x = (\<lambda>i. uint (bs' ! i))"
  have b: "0 \<le> uint b" "uint b < 256" by (rule uint_byte_bounds)+
  consider "uint b < 0x80" | "0x80 \<le> uint b" "uint b < 0xE0" | "0xE0 \<le> uint b" "uint b < 0xF0" | "0xF0 \<le> uint b" by linarith
  then show ?thesis
  proof cases
    case 1
    with assms b bs show ?thesis
      by (intro exI [of _ "[uint b]"]) (auto simp: utf8_next_def utf8_lead_def utf8_char_def Let_def split: if_splits)
  next
    case 2
    with assms bs obtain y rest' where y: "bs' = y # rest'" by (cases bs') (auto simp: utf8_next_def utf8_lead_def Let_def split: if_splits)
    with 2 assms bs have c: "c = (uint b - 0xC0) * 64 + (uint y - 0x80)" "0x80 \<le> uint y" "uint y < 0xC0" "0x80 \<le> c" "rest = rest'"
      by (auto simp: utf8_next_def utf8_lead_def Let_def split: if_splits)
    then have "c div 64 = uint b - 0xC0" "c mod 64 = uint y - 0x80" "c < 0x800"
      using 2 six_bits [of "uint y - 0x80" "uint b - 0xC0"] by simp_all
    with c y bs show ?thesis by (simp add: utf8_char_def)
  next
    case 3
    with assms bs obtain y z rest' where y: "bs' = y # z # rest'"
      by (cases bs'; cases "tl bs'") (auto simp: utf8_next_def utf8_lead_def Let_def split: if_splits)
    with 3 assms bs have c: "c = ((uint b - 0xE0) * 64 + (uint y - 0x80)) * 64 + (uint z - 0x80)" "0x80 \<le> uint y" "uint y < 0xC0"
      "0x80 \<le> uint z" "uint z < 0xC0" "0x800 \<le> c" "rest = rest'" "\<not> surrogate c"
      by (auto simp: utf8_next_def utf8_lead_def numeral_2_eq_2 Let_def split: if_splits)
    note d = three_digits [OF c(1)]
    have "c div 4096 = uint b - 0xE0" "c div 64 mod 64 = uint y - 0x80" "c mod 64 = uint z - 0x80"
      by (rule d; use c(2-5) in linarith)+
    moreover have "c < 0x10000" using c(1,3,5) 3(2) by (simp add: algebra_simps)
    ultimately show ?thesis using c(6,7,8) y bs by (simp add: utf8_char_def)
  next
    case 4
    with assms bs obtain y z w rest' where y: "bs' = y # z # w # rest'"
      by (cases bs'; cases "tl bs'"; cases "tl (tl bs')") (auto simp: utf8_next_def utf8_lead_def Let_def split: if_splits)
    with 4 assms bs have c: "c = (((uint b - 0xF0) * 64 + (uint y - 0x80)) * 64 + (uint z - 0x80)) * 64 + (uint w - 0x80)"
      "0x80 \<le> uint y" "uint y < 0xC0" "0x80 \<le> uint z" "uint z < 0xC0" "0x80 \<le> uint w" "uint w < 0xC0"
      "0x10000 \<le> c" "c \<le> 0x10FFFF" "rest = rest'" "\<not> surrogate c"
      by (auto simp: utf8_next_def utf8_lead_def numeral_3_eq_3 Let_def split: if_splits)
    note d = four_digits [OF c(1)]
    have h: "c div 0x40000 = uint b - 0xF0" "c div 0x1000 mod 0x40 = uint y - 0x80" "c div 0x40 mod 0x40 = uint z - 0x80"
      "c mod 0x40 = uint w - 0x80"
      by (rule d; use c(2-7) in linarith)+
    have n: "\<not> c < 0x80" "\<not> c < 0x800" "\<not> c < 0x10000" using c(8) by linarith+
    have "utf8_char c = Ok [uint b, uint y, uint z, uint w]"
      unfolding utf8_char_def by (simp only: n c(11) if_False h) simp
    with c(8-10) y bs show ?thesis by (intro exI [of _ "[uint b, uint y, uint z, uint w]"]) simp
  qed
qed

lemma utf8_roundtrip:
  assumes "utf8_encode s = Ok ys" "str_ok s"
  shows "all_bytes ys \<and> utf8_decode (wire ys) = Ok s"
  using assms
proof (induction s arbitrary: ys)
  case (Cons c s)
  then obtain xs zs where x: "utf8_char c = Ok xs" and z: "utf8_encode s = Ok zs" and ys: "ys = xs @ zs"
    by (auto simp: utf8_encode_def appendE_Ok_iff)
  have c: "0 \<le> c" "c \<le> 0x10FFFF" "str_ok s" using Cons.prems(2) by (simp_all add: str_ok_def)
  from utf8_char_next [OF x c(1,2), of "wire zs"] Cons.IH [OF z c(3)] ys show ?case
    by (simp add: utf8_decode.simps [of "wire xs @ wire zs"])
qed (simp add: utf8_encode_def)

text \<open>Decoding is strict: what is decoded is the encoding of the string, and of no other.\<close>

lemma utf8_decode_encode:
  "utf8_decode bs = Ok s \<Longrightarrow> utf8_encode s = Ok (map uint bs) \<and> str_ok s"
proof (induction bs arbitrary: s rule: utf8_decode.induct)
  case (1 bs)
  show ?case
  proof (cases "bs = []")
    case False
    with "1.prems" obtain c rest cs where n: "utf8_next bs = Ok (c, rest)" and d: "utf8_decode rest = Ok cs" and s: "s = c # cs"
      by (subst (asm) utf8_decode.simps) auto
    from utf8_next_char [OF n] obtain ys where ys: "utf8_char c = Ok ys" "bs = wire ys @ rest" "0 \<le> c" "c \<le> 0x10FFFF" by blast
    from utf8_char_next [OF ys(1,3,4)] have "map uint (wire ys) = ys" by (simp add: map_uint_wire)
    with "1.IH" [OF False n refl d] ys s show ?thesis by (simp add: utf8_encode_def str_ok_def)
  qed (use "1.prems" in \<open>simp add: utf8_encode_def str_ok_def\<close>)
qed

end
