(* ===== verification/Mqtt_Common.thy ===== *)
theory Mqtt_Common
  imports Py_Str
begin

text \<open>
  Data of the MQTT driver: \<^verbatim>\<open>mqtt/common.py\<close>, \<^verbatim>\<open>mqtt/transport/common.py\<close>, and the types of
  packets and properties of \<^verbatim>\<open>mqtt/transport/encoder.py\<close>. Collections are lists; a payload is text
  or bytes. Of the description of an MqttError the name of the property that it is about is left out.
\<close>

section \<open>Enumerations\<close>

datatype (plugins only: code size) QoS =
    QoS_AT_MOST_ONCE | QoS_AT_LEAST_ONCE | QoS_EXACLTY_ONCE

fun QoS_value :: "QoS \<Rightarrow> int" where
  "QoS_value QoS_AT_MOST_ONCE = 0"
| "QoS_value QoS_AT_LEAST_ONCE = 1"
| "QoS_value QoS_EXACLTY_ONCE = 2"

definition QoS_members :: "QoS list" where
  "QoS_members =
     [QoS_AT_MOST_ONCE, QoS_AT_LEAST_ONCE, QoS_EXACLTY_ONCE]"

definition QoS_of :: "int \<Rightarrow> QoS result" where
  "QoS_of = enum_lookup QoS_value QoS_members"

interpretation QoS: enumeration QoS_value QoS_members
proof unfold_locales
  show "x \<in> set QoS_members" for x by (cases x) (simp_all add: QoS_members_def)
  show "distinct (map QoS_value QoS_members)" by (simp add: QoS_members_def)
qed

lemma QoS_of_value [simp]: "QoS_of (QoS_value x) = Ok x"
  by (simp add: QoS_of_def QoS.of_value)

datatype (plugins only: code size) RetainHandling =
    RetainHandling_SEND_ON_SUBSCRIBE | RetainHandling_SEND_ON_NEW_SUBSCRIBE | RetainHandling_DONT_SEND

fun RetainHandling_value :: "RetainHandling \<Rightarrow> int" where
  "RetainHandling_value RetainHandling_SEND_ON_SUBSCRIBE = 0"
| "RetainHandling_value RetainHandling_SEND_ON_NEW_SUBSCRIBE = 1"
| "RetainHandling_value RetainHandling_DONT_SEND = 2"

definition RetainHandling_members :: "RetainHandling list" where
  "RetainHandling_members =
     [RetainHandling_SEND_ON_SUBSCRIBE, RetainHandling_SEND_ON_NEW_SUBSCRIBE, RetainHandling_DONT_SEND]"

definition RetainHandling_of :: "int \<Rightarrow> RetainHandling result" where
  "RetainHandling_of = enum_lookup RetainHandling_value RetainHandling_members"

interpretation RetainHandling: enumeration RetainHandling_value RetainHandling_members
proof unfold_locales
  show "x \<in> set RetainHandling_members" for x by (cases x) (simp_all add: RetainHandling_members_def)
  show "distinct (map RetainHandling_value RetainHandling_members)" by (simp add: RetainHandling_members_def)
qed

lemma RetainHandling_of_value [simp]: "RetainHandling_of (RetainHandling_value x) = Ok x"
  by (simp add: RetainHandling_of_def RetainHandling.of_value)

datatype (plugins only: code size) Reason =
    Reason_SUCCESS | Reason_GRANTED_QOS_1 | Reason_GRANTED_QOS_2 | Reason_DISCONNECT_WITH_WILL_MESSAGE |
    Reason_NO_MATCHING_SUBSCRIBERS | Reason_NO_SUBSCRIPTION_EXISTED | Reason_CONTINUE_AUTHENTICATION |
    Reason_RE_AUTHENTICATE | Reason_UNSPECIFIED_ERROR | Reason_MALFORMED_PACKET |
    Reason_PROTOCOL_ERROR | Reason_IMPLEMENTATION_SPECIFIC_ERROR | Reason_UNSUPPORTED_PROTOCOL_VERSION |
    Reason_CLIENT_IDENTIFIER_NOT_VALID | Reason_BAD_USER_NAME_OR_PASSWORD | Reason_NOT_AUTHORIZED |
    Reason_SERVER_UNAVAILABLE | Reason_SERVER_BUSY | Reason_BANNED | Reason_SERVER_SHUTTING_DOWN |
    Reason_BAD_AUTHENTICATION_METHOD | Reason_KEEP_ALIVE_TIMEOUT | Reason_SESSION_TAKEN_OVER |
    Reason_TOPIC_FILTER_INVALID | Reason_TOPIC_NAME_INVALID | Reason_PACKET_IDENTIFIER_IN_USE |
    Reason_PACKET_IDENTIFIER_NOT_FOUND | Reason_RECEIVE_MAXIMUM_EXCEEDED | Reason_TOPIC_ALIAS_INVALID |
    Reason_PACKET_TOO_LARGE | Reason_MESSAGE_RATE_TOO_HIGH | Reason_QUOTA_EXCEEDED |
    Reason_ADMINISTRATIVE_ACTION | Reason_PAYLOAD_FORMAT_INVALID | Reason_RETAIN_NOT_SUPPORTED |
    Reason_QOS_NOT_SUPPORTED | Reason_USE_ANOTHER_SERVER | Reason_SERVER_MOVED |
    Reason_SHARED_SUBSCRIPTIONS_NOT_SUPPORTED | Reason_CONNECTION_RATE_EXCEEDED |
    Reason_MAXIMUM_CONNECT_TIME | Reason_SUBSCRIPTION_IDENTIFIERS_NOT_SUPPORTED |
    Reason_WILDCARD_SUBSCRIPTIONS_NOT_SUPPORTED

fun Reason_value :: "Reason \<Rightarrow> int" where
  "Reason_value Reason_SUCCESS = 0x00"
| "Reason_value Reason_GRANTED_QOS_1 = 0x01"
| "Reason_value Reason_GRANTED_QOS_2 = 0x02"
| "Reason_value Reason_DISCONNECT_WITH_WILL_MESSAGE = 0x04"
| "Reason_value Reason_NO_MATCHING_SUBSCRIBERS = 0x10"
| "Reason_value Reason_NO_SUBSCRIPTION_EXISTED = 0x11"
| "Reason_value Reason_CONTINUE_AUTHENTICATION = 0x24"
| "Reason_value Reason_RE_AUTHENTICATE = 0x25"
| "Reason_value Reason_UNSPECIFIED_ERROR = 0x80"
| "Reason_value Reason_MALFORMED_PACKET = 0x81"
| "Reason_value Reason_PROTOCOL_ERROR = 0x82"
| "Reason_value Reason_IMPLEMENTATION_SPECIFIC_ERROR = 0x83"
| "Reason_value Reason_UNSUPPORTED_PROTOCOL_VERSION = 0x84"
| "Reason_value Reason_CLIENT_IDENTIFIER_NOT_VALID = 0x85"
| "Reason_value Reason_BAD_USER_NAME_OR_PASSWORD = 0x86"
| "Reason_value Reason_NOT_AUTHORIZED = 0x87"
| "Reason_value Reason_SERVER_UNAVAILABLE = 0x88"
| "Reason_value Reason_SERVER_BUSY = 0x89"
| "Reason_value Reason_BANNED = 0x8a"
| "Reason_value Reason_SERVER_SHUTTING_DOWN = 0x8b"
| "Reason_value Reason_BAD_AUTHENTICATION_METHOD = 0x8c"
| "Reason_value Reason_KEEP_ALIVE_TIMEOUT = 0x8d"
| "Reason_value Reason_SESSION_TAKEN_OVER = 0x8e"
| "Reason_value Reason_TOPIC_FILTER_INVALID = 0x8f"
| "Reason_value Reason_TOPIC_NAME_INVALID = 0x90"
| "Reason_value Reason_PACKET_IDENTIFIER_IN_USE = 0x91"
| "Reason_value Reason_PACKET_IDENTIFIER_NOT_FOUND = 0x92"
| "Reason_value Reason_RECEIVE_MAXIMUM_EXCEEDED = 0x93"
| "Reason_value Reason_TOPIC_ALIAS_INVALID = 0x94"
| "Reason_value Reason_PACKET_TOO_LARGE = 0x95"
| "Reason_value Reason_MESSAGE_RATE_TOO_HIGH = 0x96"
| "Reason_value Reason_QUOTA_EXCEEDED = 0x97"
| "Reason_value Reason_ADMINISTRATIVE_ACTION = 0x98"
| "Reason_value Reason_PAYLOAD_FORMAT_INVALID = 0x99"
| "Reason_value Reason_RETAIN_NOT_SUPPORTED = 0x9a"
| "Reason_value Reason_QOS_NOT_SUPPORTED = 0x9b"
| "Reason_value Reason_USE_ANOTHER_SERVER = 0x9c"
| "Reason_value Reason_SERVER_MOVED = 0x9d"
| "Reason_value Reason_SHARED_SUBSCRIPTIONS_NOT_SUPPORTED = 0x9e"
| "Reason_value Reason_CONNECTION_RATE_EXCEEDED = 0x9f"
| "Reason_value Reason_MAXIMUM_CONNECT_TIME = 0xa0"
| "Reason_value Reason_SUBSCRIPTION_IDENTIFIERS_NOT_SUPPORTED = 0xa1"
| "Reason_value Reason_WILDCARD_SUBSCRIPTIONS_NOT_SUPPORTED = 0xa2"

definition Reason_members :: "Reason list" where
  "Reason_members =
     [Reason_SUCCESS, Reason_GRANTED_QOS_1, Reason_GRANTED_QOS_2, Reason_DISCONNECT_WITH_WILL_MESSAGE,
      Reason_NO_MATCHING_SUBSCRIBERS, Reason_NO_SUBSCRIPTION_EXISTED, Reason_CONTINUE_AUTHENTICATION,
      Reason_RE_AUTHENTICATE, Reason_UNSPECIFIED_ERROR, Reason_MALFORMED_PACKET, Reason_PROTOCOL_ERROR,
      Reason_IMPLEMENTATION_SPECIFIC_ERROR, Reason_UNSUPPORTED_PROTOCOL_VERSION,
      Reason_CLIENT_IDENTIFIER_NOT_VALID, Reason_BAD_USER_NAME_OR_PASSWORD, Reason_NOT_AUTHORIZED,
      Reason_SERVER_UNAVAILABLE, Reason_SERVER_BUSY, Reason_BANNED, Reason_SERVER_SHUTTING_DOWN,
      Reason_BAD_AUTHENTICATION_METHOD, Reason_KEEP_ALIVE_TIMEOUT, Reason_SESSION_TAKEN_OVER,
      Reason_TOPIC_FILTER_INVALID, Reason_TOPIC_NAME_INVALID, Reason_PACKET_IDENTIFIER_IN_USE,
      Reason_PACKET_IDENTIFIER_NOT_FOUND, Reason_RECEIVE_MAXIMUM_EXCEEDED, Reason_TOPIC_ALIAS_INVALID,
      Reason_PACKET_TOO_LARGE, Reason_MESSAGE_RATE_TOO_HIGH, Reason_QUOTA_EXCEEDED,
      Reason_ADMINISTRATIVE_ACTION, Reason_PAYLOAD_FORMAT_INVALID, Reason_RETAIN_NOT_SUPPORTED,
      Reason_QOS_NOT_SUPPORTED, Reason_USE_ANOTHER_SERVER, Reason_SERVER_MOVED,
      Reason_SHARED_SUBSCRIPTIONS_NOT_SUPPORTED, Reason_CONNECTION_RATE_EXCEEDED,
      Reason_MAXIMUM_CONNECT_TIME, Reason_SUBSCRIPTION_IDENTIFIERS_NOT_SUPPORTED,
      Reason_WILDCARD_SUBSCRIPTIONS_NOT_SUPPORTED]"

definition Reason_of :: "int \<Rightarrow> Reason result" where
  "Reason_of = enum_lookup Reason_value Reason_members"

interpretation Reason: enumeration Reason_value Reason_members
proof unfold_locales
  show "x \<in> set Reason_members" for x by (cases x) (simp_all add: Reason_members_def)
  show "distinct (map Reason_value Reason_members)" by (simp add: Reason_members_def)
qed

lemma Reason_of_value [simp]: "Reason_of (Reason_value x) = Ok x"
  by (simp add: Reason_of_def Reason.of_value)

datatype (plugins only: code size) PacketType =
    PacketType_CONNECT | PacketType_CONNACK | PacketType_PUBLISH | PacketType_PUBACK |
    PacketType_PUBREC | PacketType_PUBREL | PacketType_PUBCOMP | PacketType_SUBSCRIBE |
    PacketType_SUBACK | PacketType_UNSUBSCRIBE | PacketType_UNSUBACK | PacketType_PINGREQ |
    PacketType_PINGRESP | PacketType_DISCONNECT | PacketType_AUTH

fun PacketType_value :: "PacketType \<Rightarrow> int" where
  "PacketType_value PacketType_CONNECT = 1"
| "PacketType_value PacketType_CONNACK = 2"
| "PacketType_value PacketType_PUBLISH = 3"
| "PacketType_value PacketType_PUBACK = 4"
| "PacketType_value PacketType_PUBREC = 5"
| "PacketType_value PacketType_PUBREL = 6"
| "PacketType_value PacketType_PUBCOMP = 7"
| "PacketType_value PacketType_SUBSCRIBE = 8"
| "PacketType_value PacketType_SUBACK = 9"
| "PacketType_value PacketType_UNSUBSCRIBE = 10"
| "PacketType_value PacketType_UNSUBACK = 11"
| "PacketType_value PacketType_PINGREQ = 12"
| "PacketType_value PacketType_PINGRESP = 13"
| "PacketType_value PacketType_DISCONNECT = 14"
| "PacketType_value PacketType_AUTH = 15"

definition PacketType_members :: "PacketType list" where
  "PacketType_members =
     [PacketType_CONNECT, PacketType_CONNACK, PacketType_PUBLISH, PacketType_PUBACK, PacketType_PUBREC,
      PacketType_PUBREL, PacketType_PUBCOMP, PacketType_SUBSCRIBE, PacketType_SUBACK,
      PacketType_UNSUBSCRIBE, PacketType_UNSUBACK, PacketType_PINGREQ, PacketType_PINGRESP,
      PacketType_DISCONNECT, PacketType_AUTH]"

definition PacketType_of :: "int \<Rightarrow> PacketType result" where
  "PacketType_of = enum_lookup PacketType_value PacketType_members"

interpretation PacketType: enumeration PacketType_value PacketType_members
proof unfold_locales
  show "x \<in> set PacketType_members" for x by (cases x) (simp_all add: PacketType_members_def)
  show "distinct (map PacketType_value PacketType_members)" by (simp add: PacketType_members_def)
qed

lemma PacketType_of_value [simp]: "PacketType_of (PacketType_value x) = Ok x"
  by (simp add: PacketType_of_def PacketType.of_value)

datatype (plugins only: code size) PropertyType =
    Property_PAYLOAD_FORMAT_INDICATOR | Property_MESSAGE_EXPIRY_INTERVAL | Property_CONTENT_TYPE |
    Property_RESPONSE_TOPIC | Property_CORRELATION_DATA | Property_SUBSCRIPTION_IDENTIFIER |
    Property_SESSION_EXPIRY_INTERVAL | Property_ASSIGNED_CLIENT_IDENTIFIER |
    Property_SERVER_KEEP_ALIVE | Property_AUTHENTICATION_METHOD | Property_AUTHENTICATION_DATA |
    Property_REQUEST_PROBLEM_INFORMATION | Property_WILL_DELAY_INTERVAL |
    Property_REQUEST_RESPONSE_INFORMATION | Property_RESPONSE_INFORMATION | Property_SERVER_REFERENCE |
    Property_REASON_STRING | Property_RECEIVE_MAXIMUM | Property_TOPIC_ALIAS_MAXIMUM |
    Property_TOPIC_ALIAS | Property_MAXIMUM_QOS | Property_RETAIN_AVAILABLE | Property_USER_PROPERTY |
    Property_MAXIMUM_PACKET_SIZE | Property_WILDCARD_SUBSCRIPTION_AVAILABLE |
    Property_SUBSCRIPTION_IDENTIFIER_AVAILABLE | Property_SHARED_SUBSCRIPTION_AVAILABLE

fun PropertyType_value :: "PropertyType \<Rightarrow> int" where
  "PropertyType_value Property_PAYLOAD_FORMAT_INDICATOR = 1"
| "PropertyType_value Property_MESSAGE_EXPIRY_INTERVAL = 2"
| "PropertyType_value Property_CONTENT_TYPE = 3"
| "PropertyType_value Property_RESPONSE_TOPIC = 8"
| "PropertyType_value Property_CORRELATION_DATA = 9"
| "PropertyType_value Property_SUBSCRIPTION_IDENTIFIER = 11"
| "PropertyType_value Property_SESSION_EXPIRY_INTERVAL = 17"
| "PropertyType_value Property_ASSIGNED_CLIENT_IDENTIFIER = 18"
| "PropertyType_value Property_SERVER_KEEP_ALIVE = 19"
| "PropertyType_value Property_AUTHENTICATION_METHOD = 21"
| "PropertyType_value Property_AUTHENTICATION_DATA = 22"
| "PropertyType_value Property_REQUEST_PROBLEM_INFORMATION = 23"
| "PropertyType_value Property_WILL_DELAY_INTERVAL = 24"
| "PropertyType_value Property_REQUEST_RESPONSE_INFORMATION = 25"
| "PropertyType_value Property_RESPONSE_INFORMATION = 26"
| "PropertyType_value Property_SERVER_REFERENCE = 28"
| "PropertyType_value Property_REASON_STRING = 31"
| "PropertyType_value Property_RECEIVE_MAXIMUM = 33"
| "PropertyType_value Property_TOPIC_ALIAS_MAXIMUM = 34"
| "PropertyType_value Property_TOPIC_ALIAS = 35"
| "PropertyType_value Property_MAXIMUM_QOS = 36"
| "PropertyType_value Property_RETAIN_AVAILABLE = 37"
| "PropertyType_value Property_USER_PROPERTY = 38"
| "PropertyType_value Property_MAXIMUM_PACKET_SIZE = 39"
| "PropertyType_value Property_WILDCARD_SUBSCRIPTION_AVAILABLE = 40"
| "PropertyType_value Property_SUBSCRIPTION_IDENTIFIER_AVAILABLE = 41"
| "PropertyType_value Property_SHARED_SUBSCRIPTION_AVAILABLE = 42"

definition PropertyType_members :: "PropertyType list" where
  "PropertyType_members =
     [Property_PAYLOAD_FORMAT_INDICATOR, Property_MESSAGE_EXPIRY_INTERVAL, Property_CONTENT_TYPE,
      Property_RESPONSE_TOPIC, Property_CORRELATION_DATA, Property_SUBSCRIPTION_IDENTIFIER,
      Property_SESSION_EXPIRY_INTERVAL, Property_ASSIGNED_CLIENT_IDENTIFIER, Property_SERVER_KEEP_ALIVE,
      Property_AUTHENTICATION_METHOD, Property_AUTHENTICATION_DATA, Property_REQUEST_PROBLEM_INFORMATION,
      Property_WILL_DELAY_INTERVAL, Property_REQUEST_RESPONSE_INFORMATION, Property_RESPONSE_INFORMATION,
      Property_SERVER_REFERENCE, Property_REASON_STRING, Property_RECEIVE_MAXIMUM,
      Property_TOPIC_ALIAS_MAXIMUM, Property_TOPIC_ALIAS, Property_MAXIMUM_QOS, Property_RETAIN_AVAILABLE,
      Property_USER_PROPERTY, Property_MAXIMUM_PACKET_SIZE, Property_WILDCARD_SUBSCRIPTION_AVAILABLE,
      Property_SUBSCRIPTION_IDENTIFIER_AVAILABLE, Property_SHARED_SUBSCRIPTION_AVAILABLE]"

definition PropertyType_of :: "int \<Rightarrow> PropertyType result" where
  "PropertyType_of = enum_lookup PropertyType_value PropertyType_members"

interpretation PropertyType: enumeration PropertyType_value PropertyType_members
proof unfold_locales
  show "x \<in> set PropertyType_members" for x by (cases x) (simp_all add: PropertyType_members_def)
  show "distinct (map PropertyType_value PropertyType_members)" by (simp add: PropertyType_members_def)
qed

lemma PropertyType_of_value [simp]: "PropertyType_of (PropertyType_value x) = Ok x"
  by (simp add: PropertyType_of_def PropertyType.of_value)

definition mqtt_error :: "Reason \<Rightarrow> string \<Rightarrow> 'a result" where
  "mqtt_error reason description = Raise (MqttError (Reason_value reason) description)"

definition is_error_reason :: "Reason \<Rightarrow> bool" where
  "is_error_reason reason \<longleftrightarrow> Reason_value reason \<ge> 0x80"

text \<open>\<open>except ValueError as e: raise MqttError(reason, str(e))\<close>\<close>

definition value_error_to :: "Reason \<Rightarrow> 'a result \<Rightarrow> 'a result" where
  "value_error_to reason r = (case r of Inl (ValueError e) \<Rightarrow> mqtt_error reason e | _ \<Rightarrow> r)"

lemma value_error_to_Ok [simp]: "value_error_to reason (Ok x) = Ok x"
  by (simp add: value_error_to_def)

lemma value_error_to_Ok_iff: "value_error_to reason r = Ok x \<longleftrightarrow> r = Ok x"
  by (auto simp: value_error_to_def mqtt_error_def split: sum.splits exn.splits)

lemma mqtt_error_not_Ok [simp]: "mqtt_error reason description \<noteq> Ok x" "bindE (mqtt_error reason description) f = mqtt_error reason description"
  by (simp_all add: mqtt_error_def)

section \<open>Packets\<close>

datatype Payload = Text pystr | Binary bytes

record Subscription =
  sub_topic_filter :: pystr
  sub_maximum_qos :: QoS
  sub_no_local :: bool
  sub_retain_as_published :: bool
  sub_retain_handling :: RetainHandling

record Will =
  will_qos :: QoS
  will_retain :: bool
  will_delay_interval :: int
  will_message_expiry_interval :: "int option"
  will_content_type :: "pystr option"
  will_response_topic :: "pystr option"
  will_correlation_data :: "bytes option"
  will_user_properties :: "(pystr \<times> pystr) list"
  will_topic :: pystr
  will_payload :: Payload

record ConnectPacket =
  connect_clean_start :: bool
  connect_keep_alive :: int
  connect_session_expiry_interval :: int
  connect_receive_maximum :: int
  connect_maximum_packet_size :: "int option"
  connect_topic_alias_maximum :: int
  connect_request_response_information :: bool
  connect_request_problem_information :: bool
  connect_user_properties :: "(pystr \<times> pystr) list"
  connect_authentication_method :: "pystr option"
  connect_authentication_data :: "bytes option"
  connect_client_identifier :: pystr
  connect_will :: "Will option"
  connect_user_name :: "pystr option"
  connect_password :: "bytes option"

record ConnAckPacket =
  connack_session_present :: bool
  connack_reason :: Reason
  connack_session_expiry_interval :: "int option"
  connack_receive_maximum :: int
  connack_maximum_qos :: QoS
  connack_retain_available :: bool
  connack_maximum_packet_size :: "int option"
  connack_assigned_client_identifier :: "pystr option"
  connack_topic_alias_maximum :: int
  connack_reason_string :: "pystr option"
  connack_user_properties :: "(pystr \<times> pystr) list"
  connack_wildcard_subscription_available :: bool
  connack_subscription_identifier_available :: bool
  connack_shared_subscription_available :: bool
  connack_server_keep_alive :: "int option"
  connack_response_information :: "pystr option"
  connack_server_reference :: "pystr option"
  connack_authentication_method :: "pystr option"
  connack_authentication_data :: "bytes option"

record PublishPacket =
  publish_duplicate :: bool
  publish_qos :: QoS
  publish_retain :: bool
  publish_topic_name :: pystr
  publish_packet_identifier :: "int option"
  publish_message_expiry_interval :: "int option"
  publish_topic_alias :: "int option"
  publish_response_topic :: "pystr option"
  publish_correlation_data :: "bytes option"
  publish_user_properties :: "(pystr \<times> pystr) list"
  publish_subscription_identifiers :: "int list"
  publish_content_type :: "pystr option"
  publish_payload :: Payload

text \<open>The classes of the four acknowledgements of publishing have the same fields.\<close>

record AckPacket =
  ack_packet_identifier :: int
  ack_reason :: Reason
  ack_reason_string :: "pystr option"
  ack_user_properties :: "(pystr \<times> pystr) list"

record SubscribePacket =
  subscribe_packet_identifier :: int
  subscribe_subscription_identifier :: "int option"
  subscribe_user_properties :: "(pystr \<times> pystr) list"
  subscribe_subscriptions :: "Subscription list"

record SubAckPacket =
  suback_packet_identifier :: int
  suback_reason_string :: "pystr option"
  suback_user_properties :: "(pystr \<times> pystr) list"
  suback_reasons :: "Reason list"

record UnsubscribePacket =
  unsubscribe_packet_identifier :: int
  unsubscribe_user_properties :: "(pystr \<times> pystr) list"
  unsubscribe_topic_filters :: "pystr list"

record UnsubAckPacket =
  unsuback_packet_identifier :: int
  unsuback_reason_string :: "pystr option"
  unsuback_user_properties :: "(pystr \<times> pystr) list"
  unsuback_reasons :: "Reason list"

record DisconnectPacket =
  disconnect_reason :: Reason
  disconnect_session_expiry_interval :: "int option"
  disconnect_reason_string :: "pystr option"
  disconnect_user_properties :: "(pystr \<times> pystr) list"
  disconnect_server_reference :: "pystr option"

record AuthPacket =
  auth_reason :: Reason
  auth_authentication_method :: pystr
  auth_authentication_data :: "bytes option"
  auth_reason_string :: "pystr option"
  auth_user_properties :: "(pystr \<times> pystr) list"

datatype Packet =
    Connect ConnectPacket | ConnAck ConnAckPacket | Publish PublishPacket
  | PubAck AckPacket | PubRec AckPacket | PubRel AckPacket | PubComp AckPacket
  | Subscribe SubscribePacket | SubAck SubAckPacket | Unsubscribe UnsubscribePacket | UnsubAck UnsubAckPacket
  | PingReq | PingRes | Disconnect DisconnectPacket | Auth AuthPacket

end
