(* ===== verification/Reads.thy ===== *)
theory Reads
  imports Prelude
begin

text \<open>
  Encoders that may refuse, with decoders that read back what they accept. \<open>reads m dec x\<close>: if the
  encoder returns, it has given bytes from which \<open>dec\<close> reads \<open>x\<close>, whatever follows; \<open>reads_all\<close> is the
  same for a decoder that takes all of its input. Unlike \<open>decodes_to\<close> they let the encoder refuse.
\<close>

definition reads :: "int list result \<Rightarrow> (bytes \<Rightarrow> ('a \<times> bytes) result) \<Rightarrow> 'a \<Rightarrow> bool" where
  "reads m dec x \<longleftrightarrow> (\<forall>ys. m = Ok ys \<longrightarrow> all_bytes ys \<and> (\<forall>rest. dec (wire ys @ rest) = Ok (x, rest)))"

lemma readsI: "(\<And>ys. m = Ok ys \<Longrightarrow> all_bytes ys \<and> (\<forall>rest. dec (wire ys @ rest) = Ok (x, rest))) \<Longrightarrow> reads m dec x"
  by (simp add: reads_def)

lemma readsD: "reads m dec x \<Longrightarrow> m = Ok ys \<Longrightarrow> dec (wire ys @ rest) = Ok (x, rest)"
  by (simp add: reads_def)

lemma reads_bytes: "reads m dec x \<Longrightarrow> m = Ok ys \<Longrightarrow> all_bytes ys"
  by (simp add: reads_def)

lemma reads_append:
  assumes "reads m dec x" "reads m' (F x) y"
  shows "reads (appendE m m') (\<lambda>data. bindE (dec data) (case_prod F)) y"
  using assms by (auto simp: reads_def appendE_Ok_iff)

lemma reads_last:
  assumes "reads m dec x" "\<And>data. F x data = Ok (y, data)"
  shows "reads m (\<lambda>data. bindE (dec data) (case_prod F)) y"
  using assms by (auto simp: reads_def)

definition reads_all :: "int list result \<Rightarrow> (bytes \<Rightarrow> ('a \<times> bytes) result) \<Rightarrow> 'a \<Rightarrow> bool" where
  "reads_all m dec x \<longleftrightarrow> (\<forall>ys. m = Ok ys \<longrightarrow> all_bytes ys \<and> dec (wire ys) = Ok (x, []))"

lemma reads_imp_all: "reads m dec x \<Longrightarrow> reads_all m dec x"
  unfolding reads_def reads_all_def by (metis append_Nil2)

lemma reads_append_all:
  assumes "reads m dec x" "reads_all m' (F x) y"
  shows "reads_all (appendE m m') (\<lambda>data. bindE (dec data) (case_prod F)) y"
  using assms by (auto simp: reads_def reads_all_def appendE_Ok_iff)

end
