(* ===== verification/Mqtt_Basic.thy ===== *)
theory Mqtt_Basic
  imports Mqtt_Common Reads
begin

text \<open>
  The integers, strings, binaries and reasons of \<^verbatim>\<open>mqtt/transport/encoder.py\<close>. For each there is a
  law of the kind \<open>reads\<close>: what the encoder accepts is bytes, and the decoder reads it back.
\<close>

unbundle bit_operations_syntax

section \<open>Integers\<close>

definition encode_uint8 :: "int \<Rightarrow> int list result" where
  "encode_uint8 val =
     (if val < 0 \<or> val > 0xff then Raise (ValueError ''unsupported one byte integer value'') else Ok [val])"

definition decode_uint8 :: "bytes \<Rightarrow> (int \<times> bytes) result" where
  "decode_uint8 data =
     (if length data < 1 then mqtt_error Reason_MALFORMED_PACKET ''invalid data length''
      else Ok (uint (data ! 0), drop 1 data))"

definition encode_uint16 :: "int \<Rightarrow> int list result" where
  "encode_uint16 val =
     (if val < 0 \<or> val > 0xffff then Raise (ValueError ''unsupported two byte integer value'')
      else Ok [drop_bit 8 val AND 0xff, val AND 0xff])"

definition decode_uint16 :: "bytes \<Rightarrow> (int \<times> bytes) result" where
  "decode_uint16 data =
     (if length data < 2 then mqtt_error Reason_MALFORMED_PACKET ''invalid data length''
      else Ok (push_bit 8 (uint (data ! 0)) OR uint (data ! 1), drop 2 data))"

definition encode_uint32 :: "int \<Rightarrow> int list result" where
  "encode_uint32 val =
     (if val < 0 \<or> val > 0xffffffff then Raise (ValueError ''unsupported four byte integer value'')
      else Ok [drop_bit 24 val AND 0xff, drop_bit 16 val AND 0xff, drop_bit 8 val AND 0xff, val AND 0xff])"

definition decode_uint32 :: "bytes \<Rightarrow> (int \<times> bytes) result" where
  "decode_uint32 data =
     (if length data < 4 then mqtt_error Reason_MALFORMED_PACKET ''invalid data length''
      else Ok (push_bit 24 (uint (data ! 0)) OR push_bit 16 (uint (data ! 1)) OR push_bit 8 (uint (data ! 2))
                 OR uint (data ! 3), drop 4 data))"

text \<open>The loop that gives seven bits in each byte, the lowest first.\<close>

function uintvar_bytes :: "nat \<Rightarrow> int list" where
  "uintvar_bytes val =
     (let byte = val AND 0x7f; val = drop_bit 7 val
      in if val \<noteq> 0 then int (byte OR 0x80) # uintvar_bytes val else [int byte])"
  by pat_completeness auto
termination by (relation "measure id") (auto simp: drop_bit_eq_div intro!: div_less_dividend gr0I)

declare uintvar_bytes.simps [simp del]

definition encode_uintvar :: "int \<Rightarrow> int list result" where
  "encode_uintvar val =
     (if val < 0 \<or> val > 0x0fffffff then Raise (ValueError ''unsupported variable byte integer value'')
      else Ok (uintvar_bytes (nat val)))"

text \<open>The loop, with its index and the value so far.\<close>

function uintvar_loop :: "bytes \<Rightarrow> nat \<Rightarrow> int \<Rightarrow> (int \<times> bytes) result" where
  "uintvar_loop data i val =
     (if i > 3 then mqtt_error Reason_MALFORMED_PACKET ''invalid variable byte integer encoding''
      else if length data < i + 1 then mqtt_error Reason_MALFORMED_PACKET ''invalid data length''
      else let b = uint (data ! i); val = val OR push_bit (i * 7) (b AND 0x7f)
        in if b AND 0x80 \<noteq> 0 then uintvar_loop data (i + 1) val else Ok (val, drop (i + 1) data))"
  by pat_completeness auto
termination by (relation "measure (\<lambda>(_, i, _). 4 - i)") auto

declare uintvar_loop.simps [simp del]

definition decode_uintvar :: "bytes \<Rightarrow> (int \<times> bytes) result" where
  "decode_uintvar data = uintvar_loop data 0 0"

section \<open>Strings, binaries and reasons\<close>

definition encode_string :: "pystr \<Rightarrow> int list result" where
  "encode_string val =
     bindE (utf8_encode val) (\<lambda>value_bytes. appendE (encode_uint16 (int (length value_bytes))) (Ok value_bytes))"

definition decode_string :: "bytes \<Rightarrow> (pystr \<times> bytes) result" where
  "decode_string data =
     bindE (decode_uint16 data) (\<lambda>(value_len, data).
       if length data < nat value_len then mqtt_error Reason_MALFORMED_PACKET ''invalid data length''
       else (case utf8_decode (take (nat value_len) data) of
               Inl _ \<Rightarrow> mqtt_error Reason_MALFORMED_PACKET ''invalid utf-8 encoding''
             | Inr val \<Rightarrow> Ok (val, drop (nat value_len) data)))"

definition encode_binary :: "bytes \<Rightarrow> int list result" where
  "encode_binary val = appendE (encode_uint16 (int (length val))) (Ok (map uint val))"

definition decode_binary :: "bytes \<Rightarrow> (bytes \<times> bytes) result" where
  "decode_binary data =
     bindE (decode_uint16 data) (\<lambda>(value_len, data).
       if length data < nat value_len then mqtt_error Reason_MALFORMED_PACKET ''invalid data length''
       else Ok (take (nat value_len) data, drop (nat value_len) data))"

definition encode_reason :: "Reason \<Rightarrow> int list result" where
  "encode_reason reason = Ok [Reason_value reason]"

definition decode_reason :: "bytes \<Rightarrow> (Reason \<times> bytes) result" where
  "decode_reason data =
     (if data = [] then mqtt_error Reason_MALFORMED_PACKET ''invalid data length''
      else value_error_to Reason_MALFORMED_PACKET
        (bindE (Reason_of (uint (data ! 0))) (\<lambda>reason. Ok (reason, drop 1 data))))"

section \<open>What is encoded is read back\<close>

named_theorems reads_basic

lemma reads_uint8 [reads_basic]: "reads (encode_uint8 n) decode_uint8 n"
  by (auto simp: reads_def encode_uint8_def decode_uint8_def is_byte_def uint_word_of_int split: if_splits)

lemma join_bytes:
  assumes "0 \<le> x" "x < 256"
  shows "push_bit 8 y OR x = y * 256 + (x :: int)"
proof -
  have "push_bit 8 y OR x = push_bit 8 y + x" using assms by (intro or_disjoint_add [where n = 8]) (simp_all add: push_bit_eq_mult)
  then show ?thesis by (simp add: push_bit_eq_mult)
qed

lemma reads_uint16 [reads_basic]: "reads (encode_uint16 n) decode_uint16 n"
proof (rule readsI)
  fix ys assume "encode_uint16 n = Ok ys"
  then have n: "0 \<le> n" "n < 65536" and ys: "ys = [n div 256 mod 256, n mod 256]"
    by (auto simp: encode_uint16_def mask_mod drop_bit_eq_div split: if_splits)
  have "push_bit 8 (n div 256 mod 256) OR n mod 256 = n" using n by (simp add: join_bytes)
  with ys show "all_bytes ys \<and> (\<forall>rest. decode_uint16 (wire ys @ rest) = Ok (n, rest))"
    by (simp add: decode_uint16_def uint_of_byte byte_intros numeral_2_eq_2)
qed

lemma is_byte_take_bit: "is_byte (take_bit 8 x)"
  by (simp add: is_byte_def take_bit_eq_mod)

lemma decode_uint32_wire:
  assumes "all_bytes [a, b, c, d]"
  shows "decode_uint32 (wire [a, b, c, d] @ rest) = Ok (push_bit 24 a OR push_bit 16 b OR push_bit 8 c OR d, rest)"
  using assms by (simp add: decode_uint32_def uint_of_byte eval_nat_numeral)

lemma reads_uint32 [reads_basic]: "reads (encode_uint32 n) decode_uint32 n"
proof (rule readsI)
  fix ys assume "encode_uint32 n = Ok ys"
  then have n: "0 \<le> n" "n < 2 ^ 32" and
    ys: "ys = [drop_bit 24 n AND 0xff, drop_bit 16 n AND 0xff, drop_bit 8 n AND 0xff, n AND 0xff]"
    by (auto simp: encode_uint32_def split: if_splits)
  have low: "x AND 0xff = take_bit 8 x" for x :: int by (simp add: take_bit_eq_mod mask_mod)
  have "push_bit 24 (take_bit 8 (drop_bit 24 n)) OR push_bit 16 (take_bit 8 (drop_bit 16 n)) OR push_bit 8 (take_bit 8 (drop_bit 8 n))
      OR take_bit 8 n = take_bit 32 n" (is "?x = _")
  proof (rule bit_eqI)
    fix k :: nat
    consider "k < 8" | "8 \<le> k" "k < 16" | "16 \<le> k" "k < 24" | "24 \<le> k" "k < 32" | "32 \<le> k" by linarith
    then show "bit ?x k = bit (take_bit 32 n) k" by cases (auto simp: bit_simps)
  qed
  also have "take_bit 32 n = n" using n by (simp add: take_bit_int_eq_self)
  finally show "all_bytes ys \<and> (\<forall>rest. decode_uint32 (wire ys @ rest) = Ok (n, rest))"
    unfolding ys low by (simp only: decode_uint32_wire all_bytes_simps is_byte_take_bit simp_thms)
qed

lemma seven_bits:
  fixes v :: nat
  shows "v AND 0x7f = v mod 128" "drop_bit 7 v = v div 128" "(v mod 128) OR 0x80 = v mod 128 + 128"
proof -
  have "int (v AND 0x7f) = int (v mod 128)" using and_mask_mod [of "int v" 7] by (simp add: zmod_int of_nat_and_eq)
  then show "v AND 0x7f = v mod 128" by (simp only: of_nat_eq_iff)
  show "drop_bit 7 v = v div 128" by (simp add: drop_bit_eq_div)
  have "int ((v mod 128) OR 0x80) = 128 OR int (v mod 128)" by (simp add: or.commute of_nat_or_eq)
  also have "\<dots> = 128 + int (v mod 128)" by (rule or_disjoint_add [where n = 7]) simp_all
  finally show "(v mod 128) OR 0x80 = v mod 128 + 128" by linarith
qed

lemma seven_bits_byte:
  fixes l :: int
  assumes "0 \<le> l" "l < 128"
  shows "(l + 128) AND 0x80 \<noteq> 0" "(l + 128) AND 0x7f = l" "l AND 0x80 = 0" "l AND 0x7f = l"
proof -
  have "(l + 128) div 128 = 1" "l div 128 = 0" using assms by simp_all
  then show "(l + 128) AND 0x80 \<noteq> 0" "l AND 0x80 = 0" by (simp_all add: bit_tests bit_iff_odd)
  show "(l + 128) AND 0x7f = l" "l AND 0x7f = l" using assms by (simp_all add: mask_mod)
qed

lemma join_seven_bits:
  fixes v :: nat
  shows "(acc OR push_bit k (int (v mod 128))) OR push_bit (k + 7) (int (v div 128)) = acc OR push_bit k (int v)"
proof -
  have "push_bit (k + 7) (int (v div 128)) = push_bit k (push_bit 7 (drop_bit 7 (int v)))"
    by (simp add: push_bit_push_bit drop_bit_eq_div zdiv_int add.commute)
  moreover have "int (v mod 128) = take_bit 7 (int v)" by (simp add: take_bit_eq_mod zmod_int)
  moreover have "take_bit 7 (int v) OR push_bit 7 (drop_bit 7 (int v)) = int v"
  proof (rule bit_eqI)
    show "bit (take_bit 7 (int v) OR push_bit 7 (drop_bit 7 (int v))) n = bit (int v) n" for n
      by (cases "n < 7") (simp_all add: bit_simps)
  qed
  then have "push_bit k (take_bit 7 (int v)) OR push_bit k (push_bit 7 (drop_bit 7 (int v))) = push_bit k (int v)"
    by (metis push_bit_or)
  ultimately show ?thesis by (simp add: or.assoc)
qed

lemma uintvar_loop_last:
  assumes "i \<le> 3" "i < length data" "uint (data ! i) = l" "l AND 0x80 = 0" "l AND 0x7f = l"
  shows "uintvar_loop data i val = Ok (val OR push_bit (i * 7) l, drop (i + 1) data)"
  using assms by (subst uintvar_loop.simps) (simp add: Let_def del: push_bit_and)

lemma uintvar_loop_more:
  assumes "i \<le> 3" "i < length data" "uint (data ! i) = l + 128" "(l + 128) AND 0x80 \<noteq> 0" "(l + 128) AND 0x7f = l"
  shows "uintvar_loop data i val = uintvar_loop data (i + 1) (val OR push_bit (i * 7) l)"
  using assms by (subst uintvar_loop.simps) (simp add: Let_def del: push_bit_and)

lemma uintvar_bytes_loop:
  assumes "v < 128 ^ (4 - length pre)" "length pre \<le> 3"
  shows "all_bytes (uintvar_bytes v) \<and>
    uintvar_loop (pre @ wire (uintvar_bytes v) @ rest) (length pre) acc = Ok (acc OR push_bit (length pre * 7) (int v), rest)"
  using assms
proof (induction v arbitrary: pre acc rule: uintvar_bytes.induct)
  case (1 v)
  show ?case
  proof (cases "v div 128 = 0")
    case True
    then have v: "v < 128" by (simp add: div_eq_0_iff)
    then have "uintvar_bytes v = [int v]" by (simp add: uintvar_bytes.simps seven_bits)
    moreover have "uintvar_loop (pre @ word_of_int (int v) # rest) (length pre) acc =
        Ok (acc OR push_bit (length pre * 7) (int v), drop (length pre + 1) (pre @ word_of_int (int v) # rest))"
      using v "1.prems"(2) seven_bits_byte [of "int v"]
      by (intro uintvar_loop_last) (simp_all add: is_byte_def uint_of_byte del: of_int_of_nat_eq)
    ultimately show ?thesis using v by (simp add: is_byte_def)
  next
    case False
    define b :: byte where "b = word_of_int (int (v mod 128) + 128)"
    let ?ys = "uintvar_bytes (v div 128)" and ?pre = "pre @ [b]"
    have m: "0 \<le> int (v mod 128)" "int (v mod 128) < 128" by simp_all
    have byte: "is_byte (int (v mod 128) + 128)" using m by (simp add: is_byte_def)
    have b: "uint b = int (v mod 128) + 128" unfolding b_def by (rule uint_of_byte [OF byte])
    have ys: "uintvar_bytes v = (int (v mod 128) + 128) # ?ys"
      using False by (subst uintvar_bytes.simps) (simp add: seven_bits)
    have i: "length pre < 3"
    proof (rule ccontr)
      assume "\<not> length pre < 3"
      with "1.prems" have "length pre = 3" by simp
      with "1.prems"(1) have "v < 128" by simp
      with False show False by simp
    qed
    then have "4 - length pre = Suc (4 - length ?pre)" by simp
    with "1.prems"(1) have "v < 128 * 128 ^ (4 - length ?pre)" by simp
    then have less: "v div 128 < 128 ^ (4 - length ?pre)" by (simp add: less_mult_imp_div_less mult.commute)
    have "drop_bit 7 v = v div 128" by (rule seven_bits)
    with "1.IH" [OF refl refl, of ?pre "acc OR push_bit (length pre * 7) (int (v mod 128))"] False less i
    have IH: "all_bytes ?ys" "uintvar_loop (?pre @ wire ?ys @ rest) (length ?pre) (acc OR push_bit (length pre * 7) (int (v mod 128))) =
        Ok ((acc OR push_bit (length pre * 7) (int (v mod 128))) OR push_bit (length ?pre * 7) (int (v div 128)), rest)"
      by simp_all
    have data: "pre @ wire (uintvar_bytes v) @ rest = ?pre @ wire ?ys @ rest" by (simp add: ys b_def)
    have "uintvar_loop (?pre @ wire ?ys @ rest) (length pre) acc =
        uintvar_loop (?pre @ wire ?ys @ rest) (length ?pre) (acc OR push_bit (length pre * 7) (int (v mod 128)))"
      using i seven_bits_byte [OF m] uintvar_loop_more [of "length pre" "?pre @ wire ?ys @ rest" "int (v mod 128)" acc]
      by (simp add: b)
    also have "\<dots> = Ok (acc OR push_bit (length pre * 7) (int v), rest)"
      using IH(2) join_seven_bits [of acc "length pre * 7" v] by (simp add: add.commute)
    finally show ?thesis using IH(1) byte unfolding data by (simp add: ys)
  qed
qed

lemma reads_uintvar [reads_basic]: "reads (encode_uintvar n) decode_uintvar n"
proof (rule readsI)
  fix ys assume "encode_uintvar n = Ok ys"
  then have "0 \<le> n" "nat n < 128 ^ 4" "ys = uintvar_bytes (nat n)" by (auto simp: encode_uintvar_def split: if_splits)
  then show "all_bytes ys \<and> (\<forall>rest. decode_uintvar (wire ys @ rest) = Ok (n, rest))"
    using uintvar_bytes_loop [of "nat n" "[]" _ 0] by (simp add: decode_uintvar_def)
qed

lemma reads_binary [reads_basic]: "reads (encode_binary b) decode_binary b"
proof (rule readsI)
  fix ys assume "encode_binary b = Ok ys"
  then obtain xs where x: "encode_uint16 (int (length b)) = Ok xs" and ys: "ys = xs @ map uint b"
    by (auto simp: encode_binary_def appendE_Ok_iff)
  from readsD [OF reads_uint16 x] reads_bytes [OF reads_uint16 x] ys
  show "all_bytes ys \<and> (\<forall>rest. decode_binary (wire ys @ rest) = Ok (b, rest))"
    by (simp add: decode_binary_def)
qed

lemma reads_string [reads_basic]: "str_ok s \<Longrightarrow> reads (encode_string s) decode_string s"
proof (rule readsI)
  fix ys assume s: "str_ok s" and "encode_string s = Ok ys"
  then obtain bs xs where b: "utf8_encode s = Ok bs" and x: "encode_uint16 (int (length bs)) = Ok xs" and ys: "ys = xs @ bs"
    by (auto simp: encode_string_def appendE_Ok_iff)
  from readsD [OF reads_uint16 x] reads_bytes [OF reads_uint16 x] utf8_roundtrip [OF b s] ys
  show "all_bytes ys \<and> (\<forall>rest. decode_string (wire ys @ rest) = Ok (s, rest))"
    by (simp add: decode_string_def)
qed

lemma reads_reason [reads_basic]: "reads (encode_reason r) decode_reason r"
proof -
  have "is_byte (Reason_value r)" by (cases r) (simp_all add: is_byte_def)
  then show ?thesis by (simp add: reads_def encode_reason_def decode_reason_def uint_of_byte)
qed

section \<open>What decoders take\<close>

text \<open>A decoder leaves less than it was given, so that the loops of the encoder end.\<close>

lemma uintvar_loop_length: "uintvar_loop data i val = Ok (n, rest) \<Longrightarrow> length rest < length data"
proof (induction data i val rule: uintvar_loop.induct)
  case (1 data i val)
  let ?b = "uint (data ! i)" and ?val = "val OR push_bit (i * 7) (uint (data ! i) AND 0x7f)"
  have i: "\<not> i > 3" "\<not> length data < i + 1" using "1.prems" by (subst (asm) uintvar_loop.simps; simp split: if_splits)+
  show ?case
  proof (cases "?b AND 0x80 = 0")
    case True
    with "1.prems" i show ?thesis by (subst (asm) uintvar_loop.simps) (auto simp: Let_def)
  next
    case False
    with "1.prems" i have "uintvar_loop data (i + 1) ?val = Ok (n, rest)" by (subst (asm) uintvar_loop.simps) (simp add: Let_def)
    with "1.IH" [OF i refl refl False] show ?thesis by simp
  qed
qed

lemma decode_length:
  "decode_uintvar data = Ok (n, rest) \<Longrightarrow> length rest < length data"
  "decode_uint8 data = Ok (i, rest) \<Longrightarrow> length rest < length data"
  "decode_uint16 data = Ok (j, rest) \<Longrightarrow> length rest < length data"
  "decode_uint32 data = Ok (k, rest) \<Longrightarrow> length rest < length data"
  "decode_reason data = Ok (r, rest) \<Longrightarrow> length rest < length data"
  by (auto simp: decode_uintvar_def decode_uint8_def decode_uint16_def decode_uint32_def decode_reason_def
      value_error_to_Ok_iff dest: uintvar_loop_length split: if_splits)

lemma decode_text_length:
  "decode_string data = Ok (s, rest) \<Longrightarrow> length rest < length data"
  "decode_binary data = Ok (b, rest) \<Longrightarrow> length rest < length data"
  by (auto simp: decode_string_def decode_binary_def dest!: decode_length(3) split: if_splits sum.splits)

end
