(* ===== verification/Mqtt_Props.thy ===== *)
theory Mqtt_Props
  imports Mqtt_Basic
begin

text \<open>
  The properties of packets, \<open>_encode_props\<close> and \<open>_decode_props\<close> of \<^verbatim>\<open>mqtt/transport/encoder.py\<close>. A
  dictionary from property types to values is an association list, in the order of insertion.
\<close>

section \<open>Dictionaries of properties\<close>

datatype PropValue =
    IntProp int | StringProp pystr | BinaryProp bytes | QoSProp QoS
  | UserProp "(pystr \<times> pystr) list" | IdentifiersProp "int list"

type_synonym Props = "(PropertyType \<times> PropValue) list"

text \<open>\<open>props.get(t)\<close>, for each type of values.\<close>

definition get_int :: "PropertyType \<Rightarrow> Props \<Rightarrow> int option" where
  "get_int t props = (case map_of props t of Some (IntProp n) \<Rightarrow> Some n | _ \<Rightarrow> None)"

definition get_string :: "PropertyType \<Rightarrow> Props \<Rightarrow> pystr option" where
  "get_string t props = (case map_of props t of Some (StringProp s) \<Rightarrow> Some s | _ \<Rightarrow> None)"

definition get_binary :: "PropertyType \<Rightarrow> Props \<Rightarrow> bytes option" where
  "get_binary t props = (case map_of props t of Some (BinaryProp b) \<Rightarrow> Some b | _ \<Rightarrow> None)"

definition get_qos :: "PropertyType \<Rightarrow> Props \<Rightarrow> QoS option" where
  "get_qos t props = (case map_of props t of Some (QoSProp q) \<Rightarrow> Some q | _ \<Rightarrow> None)"

definition get_user :: "PropertyType \<Rightarrow> Props \<Rightarrow> (pystr \<times> pystr) list" where
  "get_user t props = (case map_of props t of Some (UserProp us) \<Rightarrow> us | _ \<Rightarrow> [])"

definition get_identifiers :: "PropertyType \<Rightarrow> Props \<Rightarrow> int list" where
  "get_identifiers t props = (case map_of props t of Some (IdentifiersProp ns) \<Rightarrow> ns | _ \<Rightarrow> [])"

text \<open>\<open>if c: props[t] = v\<close>, as a piece of the dictionary.\<close>

definition prop_if :: "bool \<Rightarrow> PropertyType \<Rightarrow> PropValue \<Rightarrow> Props" where
  "prop_if c t v = (if c then [(t, v)] else [])"

definition prop_of :: "('a \<Rightarrow> PropValue) \<Rightarrow> PropertyType \<Rightarrow> 'a option \<Rightarrow> Props" where
  "prop_of f t x = (case x of None \<Rightarrow> [] | Some v \<Rightarrow> [(t, f v)])"

section \<open>Encoding\<close>

definition multiple_prop_types :: "PropertyType list" where
  "multiple_prop_types = [Property_USER_PROPERTY, Property_SUBSCRIPTION_IDENTIFIER]"

definition invalid_value :: "int list result" where
  "invalid_value = Raise (Exception ''invalid property value'')"

definition wrong_type :: "int list result" where
  "wrong_type = Raise (TypeError ''unsupported operand type'')"

definition encode_int_prop :: "(int \<Rightarrow> int list result) \<Rightarrow> PropValue \<Rightarrow> int list result" where
  "encode_int_prop enc prop = (case prop of IntProp n \<Rightarrow> enc n | _ \<Rightarrow> wrong_type)"

definition encode_string_prop :: "PropValue \<Rightarrow> int list result" where
  "encode_string_prop prop = (case prop of StringProp s \<Rightarrow> encode_string s | _ \<Rightarrow> wrong_type)"

definition encode_binary_prop :: "PropValue \<Rightarrow> int list result" where
  "encode_binary_prop prop = (case prop of BinaryProp b \<Rightarrow> encode_binary b | _ \<Rightarrow> wrong_type)"

definition encode_flag_prop :: "PropValue \<Rightarrow> int list result" where
  "encode_flag_prop = encode_int_prop (\<lambda>n. if n \<notin> {0, 1} then invalid_value else encode_uint8 n)"

definition encode_positive_prop :: "(int \<Rightarrow> int list result) \<Rightarrow> PropValue \<Rightarrow> int list result" where
  "encode_positive_prop enc = encode_int_prop (\<lambda>n. if n = 0 then invalid_value else enc n)"

definition encode_identifier :: "PropertyType \<Rightarrow> int \<Rightarrow> int list result" where
  "encode_identifier t i =
     (if i = 0 then invalid_value else appendE (encode_uintvar (PropertyType_value t)) (encode_uintvar i))"

definition encode_user_prop :: "PropertyType \<Rightarrow> pystr \<times> pystr \<Rightarrow> int list result" where
  "encode_user_prop t = (\<lambda>(k, v).
     appendE (encode_uintvar (PropertyType_value t)) (appendE (encode_string k) (encode_string v)))"

definition encode_prop :: "PropertyType \<Rightarrow> PropValue \<Rightarrow> int list result" where
  "encode_prop t prop =
     (case t of
        Property_PAYLOAD_FORMAT_INDICATOR \<Rightarrow> encode_flag_prop prop
      | Property_MESSAGE_EXPIRY_INTERVAL \<Rightarrow> encode_int_prop encode_uint32 prop
      | Property_CONTENT_TYPE \<Rightarrow> encode_string_prop prop
      | Property_RESPONSE_TOPIC \<Rightarrow> encode_string_prop prop
      | Property_CORRELATION_DATA \<Rightarrow> encode_binary_prop prop
      | Property_SUBSCRIPTION_IDENTIFIER \<Rightarrow>
          (case prop of IdentifiersProp ns \<Rightarrow> concatE (encode_identifier t) ns | _ \<Rightarrow> wrong_type)
      | Property_SESSION_EXPIRY_INTERVAL \<Rightarrow> encode_int_prop encode_uint32 prop
      | Property_ASSIGNED_CLIENT_IDENTIFIER \<Rightarrow> encode_string_prop prop
      | Property_SERVER_KEEP_ALIVE \<Rightarrow> encode_int_prop encode_uint16 prop
      | Property_AUTHENTICATION_METHOD \<Rightarrow> encode_string_prop prop
      | Property_AUTHENTICATION_DATA \<Rightarrow> encode_binary_prop prop
      | Property_REQUEST_PROBLEM_INFORMATION \<Rightarrow> encode_flag_prop prop
      | Property_WILL_DELAY_INTERVAL \<Rightarrow> encode_int_prop encode_uint32 prop
      | Property_REQUEST_RESPONSE_INFORMATION \<Rightarrow> encode_flag_prop prop
      | Property_RESPONSE_INFORMATION \<Rightarrow> encode_string_prop prop
      | Property_SERVER_REFERENCE \<Rightarrow> encode_string_prop prop
      | Property_REASON_STRING \<Rightarrow> encode_string_prop prop
      | Property_RECEIVE_MAXIMUM \<Rightarrow> encode_positive_prop encode_uint16 prop
      | Property_TOPIC_ALIAS_MAXIMUM \<Rightarrow> encode_int_prop encode_uint16 prop
      | Property_TOPIC_ALIAS \<Rightarrow> encode_int_prop encode_uint16 prop
      | Property_MAXIMUM_QOS \<Rightarrow>
          (case prop of
             QoSProp q \<Rightarrow>
               if q \<notin> {QoS_AT_MOST_ONCE, QoS_AT_LEAST_ONCE} then invalid_value else encode_uint8 (QoS_value q)
           | _ \<Rightarrow> invalid_value)
      | Property_RETAIN_AVAILABLE \<Rightarrow> encode_flag_prop prop
      | Property_USER_PROPERTY \<Rightarrow> (case prop of UserProp us \<Rightarrow> concatE (encode_user_prop t) us | _ \<Rightarrow> wrong_type)
      | Property_MAXIMUM_PACKET_SIZE \<Rightarrow> encode_positive_prop encode_uint32 prop
      | Property_WILDCARD_SUBSCRIPTION_AVAILABLE \<Rightarrow> encode_flag_prop prop
      | Property_SUBSCRIPTION_IDENTIFIER_AVAILABLE \<Rightarrow> encode_flag_prop prop
      | Property_SHARED_SUBSCRIPTION_AVAILABLE \<Rightarrow> encode_flag_prop prop)"

definition encode_typed_prop :: "PropertyType \<times> PropValue \<Rightarrow> int list result" where
  "encode_typed_prop = (\<lambda>(t, prop).
     appendE (if t \<notin> set multiple_prop_types then encode_uintvar (PropertyType_value t) else Ok []) (encode_prop t prop))"

definition encode_props :: "Props \<Rightarrow> int list result" where
  "encode_props props =
     bindE (concatE encode_typed_prop props) (\<lambda>props_bytes.
       appendE (encode_uintvar (int (length props_bytes))) (Ok props_bytes))"

section \<open>Decoding\<close>

definition invalid_prop :: "(PropValue \<times> bytes) result" where
  "invalid_prop = mqtt_error Reason_PROTOCOL_ERROR ''invalid property value''"

definition decode_int_prop :: "(bytes \<Rightarrow> (int \<times> bytes) result) \<Rightarrow> bytes \<Rightarrow> (PropValue \<times> bytes) result" where
  "decode_int_prop dec data = bindE (dec data) (\<lambda>(n, data). Ok (IntProp n, data))"

definition decode_string_prop :: "bytes \<Rightarrow> (PropValue \<times> bytes) result" where
  "decode_string_prop data = bindE (decode_string data) (\<lambda>(s, data). Ok (StringProp s, data))"

definition decode_binary_prop :: "bytes \<Rightarrow> (PropValue \<times> bytes) result" where
  "decode_binary_prop data = bindE (decode_binary data) (\<lambda>(b, data). Ok (BinaryProp b, data))"

definition decode_flag_prop :: "bytes \<Rightarrow> (PropValue \<times> bytes) result" where
  "decode_flag_prop data =
     bindE (decode_uint8 data) (\<lambda>(n, data). if n \<notin> {0, 1} then invalid_prop else Ok (IntProp n, data))"

definition decode_positive_prop :: "(bytes \<Rightarrow> (int \<times> bytes) result) \<Rightarrow> bytes \<Rightarrow> (PropValue \<times> bytes) result" where
  "decode_positive_prop dec data =
     bindE (dec data) (\<lambda>(n, data). if n = 0 then invalid_prop else Ok (IntProp n, data))"

definition decode_identifier_prop :: "bytes \<Rightarrow> (PropValue \<times> bytes) result" where
  "decode_identifier_prop data =
     bindE (decode_uintvar data) (\<lambda>(n, data). if n = 0 then invalid_prop else Ok (IdentifiersProp [n], data))"

definition decode_qos_prop :: "bytes \<Rightarrow> (PropValue \<times> bytes) result" where
  "decode_qos_prop data =
     bindE (decode_uint8 data) (\<lambda>(n, data).
     bindE (value_error_to Reason_PROTOCOL_ERROR (QoS_of n)) (\<lambda>q.
       if q = QoS_EXACLTY_ONCE then invalid_prop else Ok (QoSProp q, data)))"

definition decode_user_prop :: "bytes \<Rightarrow> (PropValue \<times> bytes) result" where
  "decode_user_prop data =
     bindE (decode_string data) (\<lambda>(k, data). bindE (decode_string data) (\<lambda>(v, data). Ok (UserProp [(k, v)], data)))"

definition decode_prop :: "PropertyType \<Rightarrow> bytes \<Rightarrow> (PropValue \<times> bytes) result" where
  "decode_prop t data =
     (case t of
        Property_PAYLOAD_FORMAT_INDICATOR \<Rightarrow> decode_flag_prop data
      | Property_MESSAGE_EXPIRY_INTERVAL \<Rightarrow> decode_int_prop decode_uint32 data
      | Property_CONTENT_TYPE \<Rightarrow> decode_string_prop data
      | Property_RESPONSE_TOPIC \<Rightarrow> decode_string_prop data
      | Property_CORRELATION_DATA \<Rightarrow> decode_binary_prop data
      | Property_SUBSCRIPTION_IDENTIFIER \<Rightarrow> decode_identifier_prop data
      | Property_SESSION_EXPIRY_INTERVAL \<Rightarrow> decode_int_prop decode_uint32 data
      | Property_ASSIGNED_CLIENT_IDENTIFIER \<Rightarrow> decode_string_prop data
      | Property_SERVER_KEEP_ALIVE \<Rightarrow> decode_int_prop decode_uint16 data
      | Property_AUTHENTICATION_METHOD \<Rightarrow> decode_string_prop data
      | Property_AUTHENTICATION_DATA \<Rightarrow> decode_binary_prop data
      | Property_REQUEST_PROBLEM_INFORMATION \<Rightarrow> decode_flag_prop data
      | Property_WILL_DELAY_INTERVAL \<Rightarrow> decode_int_prop decode_uint32 data
      | Property_REQUEST_RESPONSE_INFORMATION \<Rightarrow> decode_flag_prop data
      | Property_RESPONSE_INFORMATION \<Rightarrow> decode_string_prop data
      | Property_SERVER_REFERENCE \<Rightarrow> decode_string_prop data
      | Property_REASON_STRING \<Rightarrow> decode_string_prop data
      | Property_RECEIVE_MAXIMUM \<Rightarrow> decode_positive_prop decode_uint16 data
      | Property_TOPIC_ALIAS_MAXIMUM \<Rightarrow> decode_int_prop decode_uint16 data
      | Property_TOPIC_ALIAS \<Rightarrow> decode_int_prop decode_uint16 data
      | Property_MAXIMUM_QOS \<Rightarrow> decode_qos_prop data
      | Property_RETAIN_AVAILABLE \<Rightarrow> decode_flag_prop data
      | Property_USER_PROPERTY \<Rightarrow> decode_user_prop data
      | Property_MAXIMUM_PACKET_SIZE \<Rightarrow> decode_positive_prop decode_uint32 data
      | Property_WILDCARD_SUBSCRIPTION_AVAILABLE \<Rightarrow> decode_flag_prop data
      | Property_SUBSCRIPTION_IDENTIFIER_AVAILABLE \<Rightarrow> decode_flag_prop data
      | Property_SHARED_SUBSCRIPTION_AVAILABLE \<Rightarrow> decode_flag_prop data)"

text \<open>\<open>props[t].append(prop)\<close> for the types that may occur more than once, \<open>props[t] = prop\<close> for others.\<close>

fun append_value :: "PropValue \<Rightarrow> PropValue \<Rightarrow> PropValue" where
  "append_value (UserProp us) (UserProp vs) = UserProp (us @ vs)"
| "append_value (IdentifiersProp ms) (IdentifiersProp ns) = IdentifiersProp (ms @ ns)"
| "append_value _ prop = prop"

fun add_prop :: "PropertyType \<Rightarrow> PropValue \<Rightarrow> Props \<Rightarrow> Props" where
  "add_prop t prop [] = [(t, prop)]"
| "add_prop t prop ((t', prop') # props) =
     (if t' = t then (t, append_value prop' prop) # props else (t', prop') # add_prop t prop props)"

text \<open>A value takes at least one byte, so that the loop below ends.\<close>

lemma error_not_Ok [simp]: "invalid_prop \<noteq> Ok x" "invalid_value \<noteq> Ok y" "wrong_type \<noteq> Ok z"
  by (simp_all add: invalid_prop_def invalid_value_def wrong_type_def)

lemma flag_prop_length: "decode_flag_prop data = Ok (v, rest) \<Longrightarrow> length rest < length data"
  by (auto simp: decode_flag_prop_def simp del: insert_iff dest: decode_length(2) split: if_splits)

lemma int_prop_length:
  "decode_int_prop decode_uint16 data = Ok (v, rest) \<Longrightarrow> length rest < length data"
  "decode_int_prop decode_uint32 data = Ok (v, rest) \<Longrightarrow> length rest < length data"
  by (auto simp: decode_int_prop_def dest: decode_length)

lemma positive_prop_length:
  "decode_positive_prop decode_uint16 data = Ok (v, rest) \<Longrightarrow> length rest < length data"
  "decode_positive_prop decode_uint32 data = Ok (v, rest) \<Longrightarrow> length rest < length data"
  by (auto simp: decode_positive_prop_def dest: decode_length split: if_splits)

lemma text_prop_length:
  "decode_string_prop data = Ok (v, rest) \<Longrightarrow> length rest < length data"
  "decode_binary_prop data = Ok (v, rest) \<Longrightarrow> length rest < length data"
  by (auto simp: decode_string_prop_def decode_binary_prop_def dest: decode_text_length)

lemma special_prop_length:
  "decode_identifier_prop data = Ok (v, rest) \<Longrightarrow> length rest < length data"
  "decode_qos_prop data = Ok (v, rest) \<Longrightarrow> length rest < length data"
  "decode_user_prop data = Ok (v, rest) \<Longrightarrow> length rest < length data"
  by (auto simp: decode_identifier_prop_def decode_qos_prop_def decode_user_prop_def
      dest: decode_length dest!: decode_text_length split: if_splits)

lemmas prop_lengths = flag_prop_length int_prop_length positive_prop_length text_prop_length special_prop_length

lemma decode_prop_length: "decode_prop t data = Ok (v, rest) \<Longrightarrow> length rest < length data"
  by (cases t; simp only: decode_prop_def PropertyType.case; erule prop_lengths)

function decode_props_loop :: "PropertyType list \<Rightarrow> bytes \<Rightarrow> Props \<Rightarrow> Props result" where
  "decode_props_loop valid_prop_types data props =
     (if data = [] then Ok props
      else bindE (decode_uintvar data) (\<lambda>(n, data).
           bindE (value_error_to Reason_MALFORMED_PACKET (PropertyType_of n)) (\<lambda>t.
             if t \<notin> set valid_prop_types then mqtt_error Reason_PROTOCOL_ERROR ''invalid property''
             else if t \<in> fst ` set props \<and> t \<notin> set multiple_prop_types
             then mqtt_error Reason_PROTOCOL_ERROR ''multiple property entries''
             else bindE (decode_prop t data) (\<lambda>(prop, data).
               decode_props_loop valid_prop_types data (add_prop t prop props)))))"
  by pat_completeness auto
termination
  by (relation "measure (\<lambda>(_, data, _). length data)") (auto dest!: decode_length(1) decode_prop_length)

declare decode_props_loop.simps [simp del]

definition decode_props :: "PropertyType list \<Rightarrow> bytes \<Rightarrow> (Props \<times> bytes) result" where
  "decode_props valid_prop_types data =
     bindE (decode_uintvar data) (\<lambda>(props_data_len, data).
       if length data < nat props_data_len then mqtt_error Reason_MALFORMED_PACKET ''invalid property length''
       else bindE (decode_props_loop valid_prop_types (take (nat props_data_len) data) []) (\<lambda>props.
         Ok (props, drop (nat props_data_len) data)))"

end
