(* ===== verification/Mqtt_Encoder.thy ===== *)
theory Mqtt_Encoder
  imports Mqtt_Props Framing
begin

text \<open>
  The packets of \<^verbatim>\<open>mqtt/transport/encoder.py\<close>, and sending and receiving of
  \<^verbatim>\<open>mqtt/transport/connection.py\<close>. For a packet with properties, \<open>..._props\<close> is the dictionary that its
  encoder builds.
\<close>

unbundle bit_operations_syntax

section \<open>Common parts\<close>

text \<open>\<open>if x is not None: yield from f(x)\<close>, its counterpart, and \<open>props.get(t, default)\<close>.\<close>

definition optE :: "('a \<Rightarrow> int list result) \<Rightarrow> 'a option \<Rightarrow> int list result" where
  "optE f x = (case x of None \<Rightarrow> Ok [] | Some v \<Rightarrow> f v)"

definition decode_opt :: "bool \<Rightarrow> (bytes \<Rightarrow> ('a \<times> bytes) result) \<Rightarrow> bytes \<Rightarrow> ('a option \<times> bytes) result" where
  "decode_opt c dec data = (if c then bindE (dec data) (\<lambda>(x, data). Ok (Some x, data)) else Ok (None, data))"

definition get_or :: "'a \<Rightarrow> 'a option \<Rightarrow> 'a" where
  "get_or d x = (case x of None \<Rightarrow> d | Some v \<Rightarrow> v)"

abbreviation user_props :: "(pystr \<times> pystr) list \<Rightarrow> Props" where
  "user_props us \<equiv> prop_if (us \<noteq> []) Property_USER_PROPERTY (UserProp us)"

fun is_text :: "Payload \<Rightarrow> bool" where
  "is_text (Text _) \<longleftrightarrow> True"
| "is_text (Binary _) \<longleftrightarrow> False"

section \<open>Wills, subscriptions\<close>

definition will_props :: "Will \<Rightarrow> Props" where
  "will_props w =
      prop_if (will_delay_interval w \<noteq> 0) Property_WILL_DELAY_INTERVAL (IntProp (will_delay_interval w)) @
      prop_if (is_text (will_payload w)) Property_PAYLOAD_FORMAT_INDICATOR (IntProp 1) @
      prop_of IntProp Property_MESSAGE_EXPIRY_INTERVAL (will_message_expiry_interval w) @
      prop_of StringProp Property_CONTENT_TYPE (will_content_type w) @
      prop_of StringProp Property_RESPONSE_TOPIC (will_response_topic w) @
      prop_of BinaryProp Property_CORRELATION_DATA (will_correlation_data w) @
      user_props (will_user_properties w) @
      []"

definition encode_will :: "Will \<Rightarrow> int list result" where
  "encode_will w =
     appendE (encode_props (will_props w)) (appendE (encode_string (will_topic w))
       (case will_payload w of Text s \<Rightarrow> encode_string s | Binary b \<Rightarrow> encode_binary b))"

definition will_prop_types :: "PropertyType list" where
  "will_prop_types =
     [Property_WILL_DELAY_INTERVAL, Property_PAYLOAD_FORMAT_INDICATOR, Property_MESSAGE_EXPIRY_INTERVAL,
      Property_CONTENT_TYPE, Property_RESPONSE_TOPIC, Property_CORRELATION_DATA, Property_USER_PROPERTY]"

text \<open>A value of 0 is falsy, as a missing one is.\<close>

definition has_format_indicator :: "Props \<Rightarrow> bool" where
  "has_format_indicator props \<longleftrightarrow> get_or 0 (get_int Property_PAYLOAD_FORMAT_INDICATOR props) \<noteq> 0"

definition decode_payload :: "bool \<Rightarrow> bytes \<Rightarrow> (Payload \<times> bytes) result" where
  "decode_payload text data =
     (if text then bindE (decode_string data) (\<lambda>(s, data). Ok (Text s, data))
      else bindE (decode_binary data) (\<lambda>(b, data). Ok (Binary b, data)))"

definition decode_will :: "QoS \<Rightarrow> bool \<Rightarrow> bytes \<Rightarrow> (Will \<times> bytes) result" where
  "decode_will qos retain data =
     bindE (decode_props will_prop_types data) (\<lambda>(props, data).
     bindE (decode_string data) (\<lambda>(topic, data).
     bindE (decode_payload (has_format_indicator props) data) (\<lambda>(payload, data).
       Ok (\<lparr>will_qos = qos, will_retain = retain,
            will_delay_interval = get_or 0 (get_int Property_WILL_DELAY_INTERVAL props),
            will_message_expiry_interval = get_int Property_MESSAGE_EXPIRY_INTERVAL props,
            will_content_type = get_string Property_CONTENT_TYPE props,
            will_response_topic = get_string Property_RESPONSE_TOPIC props,
            will_correlation_data = get_binary Property_CORRELATION_DATA props,
            will_user_properties = get_user Property_USER_PROPERTY props,
            will_topic = topic, will_payload = payload\<rparr>, data))))"

definition encode_subscription :: "Subscription \<Rightarrow> int list result" where
  "encode_subscription s =
     appendE (encode_string (sub_topic_filter s))
       (Ok [QoS_value (sub_maximum_qos s) OR (if sub_no_local s then 0x03 else 0x00) OR
            (if sub_retain_as_published s then 0x04 else 0x00) OR push_bit 4 (RetainHandling_value (sub_retain_handling s))])"

definition decode_subscription :: "bytes \<Rightarrow> (Subscription \<times> bytes) result" where
  "decode_subscription data =
     bindE (decode_string data) (\<lambda>(topic_filter, data).
     bindE (decode_uint8 data) (\<lambda>(options, data).
     bindE (value_error_to Reason_PROTOCOL_ERROR (QoS_of (options AND 0x03))) (\<lambda>maximum_qos.
     bindE (value_error_to Reason_PROTOCOL_ERROR (RetainHandling_of (drop_bit 4 options AND 0x03))) (\<lambda>retain_handling.
       Ok (\<lparr>sub_topic_filter = topic_filter, sub_maximum_qos = maximum_qos, sub_no_local = options AND 0x04 \<noteq> 0,
            sub_retain_as_published = options AND 0x08 \<noteq> 0, sub_retain_handling = retain_handling\<rparr>, data)))))"

section \<open>Connecting\<close>

definition connect_props :: "ConnectPacket \<Rightarrow> Props" where
  "connect_props p =
      prop_if (connect_session_expiry_interval p \<noteq> 0) Property_SESSION_EXPIRY_INTERVAL (IntProp (connect_session_expiry_interval p)) @
      prop_if (connect_receive_maximum p \<noteq> 0xffff) Property_RECEIVE_MAXIMUM (IntProp (connect_receive_maximum p)) @
      prop_of IntProp Property_MAXIMUM_PACKET_SIZE (connect_maximum_packet_size p) @
      prop_if (connect_topic_alias_maximum p \<noteq> 0) Property_TOPIC_ALIAS_MAXIMUM (IntProp (connect_topic_alias_maximum p)) @
      prop_if (connect_request_response_information p) Property_REQUEST_RESPONSE_INFORMATION (IntProp 1) @
      prop_if (\<not> connect_request_problem_information p) Property_REQUEST_PROBLEM_INFORMATION (IntProp 0) @
      user_props (connect_user_properties p) @
      prop_of StringProp Property_AUTHENTICATION_METHOD (connect_authentication_method p) @
      prop_of BinaryProp Property_AUTHENTICATION_DATA (connect_authentication_data p) @
      []"

definition connect_flags :: "ConnectPacket \<Rightarrow> int" where
  "connect_flags p =
     (if connect_clean_start p then 0x02 else 0x00) OR
     (case connect_will p of None \<Rightarrow> 0x00 | Some w \<Rightarrow> 0x04 OR push_bit 3 (QoS_value (will_qos w)) OR (if will_retain w then 0x20 else 0x00)) OR
     (if connect_user_name p \<noteq> None then 0x80 else 0x00) OR
     (if connect_password p \<noteq> None then 0x40 else 0x00)"

definition encode_connect_packet :: "ConnectPacket \<Rightarrow> int list result" where
  "encode_connect_packet p =
     appendE (encode_string (py_str ''MQTT'')) (appendE (Ok [5, connect_flags p])
    (appendE (encode_uint16 (connect_keep_alive p)) (appendE (encode_props (connect_props p))
    (appendE (encode_string (connect_client_identifier p)) (appendE (optE encode_will (connect_will p))
    (appendE (optE encode_string (connect_user_name p)) (optE encode_binary (connect_password p))))))))"

definition connect_prop_types :: "PropertyType list" where
  "connect_prop_types =
     [Property_SESSION_EXPIRY_INTERVAL, Property_RECEIVE_MAXIMUM, Property_MAXIMUM_PACKET_SIZE, Property_TOPIC_ALIAS_MAXIMUM,
      Property_REQUEST_RESPONSE_INFORMATION, Property_REQUEST_PROBLEM_INFORMATION, Property_USER_PROPERTY,
      Property_AUTHENTICATION_METHOD, Property_AUTHENTICATION_DATA]"

definition decode_connect_packet :: "bytes \<Rightarrow> (ConnectPacket \<times> bytes) result" where
  "decode_connect_packet data =
     bindE (decode_string data) (\<lambda>(protocol_name, data).
     if protocol_name \<noteq> py_str ''MQTT'' then mqtt_error Reason_UNSUPPORTED_PROTOCOL_VERSION ''invalid protocol name''
     else bindE (decode_uint8 data) (\<lambda>(protocol_version, data).
     if protocol_version \<noteq> 5 then mqtt_error Reason_UNSUPPORTED_PROTOCOL_VERSION ''unsupported protocol version''
     else bindE (decode_uint8 data) (\<lambda>(flags, data).
     bindE (value_error_to Reason_MALFORMED_PACKET (QoS_of (drop_bit 3 flags AND 0x03))) (\<lambda>qos.
     bindE (decode_uint16 data) (\<lambda>(keep_alive, data).
     bindE (decode_props connect_prop_types data) (\<lambda>(props, data).
     if get_string Property_AUTHENTICATION_METHOD props = None \<and> get_binary Property_AUTHENTICATION_DATA props \<noteq> None
     then mqtt_error Reason_PROTOCOL_ERROR ''authentication method not specified''
     else bindE (decode_string data) (\<lambda>(client_identifier, data).
     bindE (decode_opt (flags AND 0x04 \<noteq> 0) (decode_will qos (flags AND 0x20 \<noteq> 0)) data) (\<lambda>(w, data).
     bindE (decode_opt (flags AND 0x80 \<noteq> 0) decode_string data) (\<lambda>(user_name, data).
     bindE (decode_opt (flags AND 0x40 \<noteq> 0) decode_binary data) (\<lambda>(password, data).
       Ok (\<lparr>connect_clean_start = (flags AND 0x02 \<noteq> 0), connect_keep_alive = keep_alive,
            connect_session_expiry_interval = get_or 0 (get_int Property_SESSION_EXPIRY_INTERVAL props),
            connect_receive_maximum = get_or 0xffff (get_int Property_RECEIVE_MAXIMUM props),
            connect_maximum_packet_size = get_int Property_MAXIMUM_PACKET_SIZE props,
            connect_topic_alias_maximum = get_or 0 (get_int Property_TOPIC_ALIAS_MAXIMUM props),
            connect_request_response_information = (get_or 0 (get_int Property_REQUEST_RESPONSE_INFORMATION props) \<noteq> 0),
            connect_request_problem_information = (get_or 1 (get_int Property_REQUEST_PROBLEM_INFORMATION props) \<noteq> 0),
            connect_user_properties = get_user Property_USER_PROPERTY props,
            connect_authentication_method = get_string Property_AUTHENTICATION_METHOD props,
            connect_authentication_data = get_binary Property_AUTHENTICATION_DATA props,
            connect_client_identifier = client_identifier, connect_will = w, connect_user_name = user_name,
            connect_password = password\<rparr>, data)))))))))))"

definition connack_props :: "ConnAckPacket \<Rightarrow> Props" where
  "connack_props p =
      prop_of IntProp Property_SESSION_EXPIRY_INTERVAL (connack_session_expiry_interval p) @
      prop_if (connack_receive_maximum p \<noteq> 0xffff) Property_RECEIVE_MAXIMUM (IntProp (connack_receive_maximum p)) @
      prop_if (connack_maximum_qos p \<noteq> QoS_EXACLTY_ONCE) Property_MAXIMUM_QOS (QoSProp (connack_maximum_qos p)) @
      prop_if (\<not> connack_retain_available p) Property_RETAIN_AVAILABLE (IntProp 0) @
      prop_of IntProp Property_MAXIMUM_PACKET_SIZE (connack_maximum_packet_size p) @
      prop_of StringProp Property_ASSIGNED_CLIENT_IDENTIFIER (connack_assigned_client_identifier p) @
      prop_if (connack_topic_alias_maximum p \<noteq> 0) Property_TOPIC_ALIAS_MAXIMUM (IntProp (connack_topic_alias_maximum p)) @
      prop_of StringProp Property_REASON_STRING (connack_reason_string p) @
      user_props (connack_user_properties p) @
      prop_if (\<not> connack_wildcard_subscription_available p) Property_WILDCARD_SUBSCRIPTION_AVAILABLE (IntProp 0) @
      prop_if (\<not> connack_subscription_identifier_available p) Property_SUBSCRIPTION_IDENTIFIER_AVAILABLE (IntProp 0) @
      prop_if (\<not> connack_shared_subscription_available p) Property_SHARED_SUBSCRIPTION_AVAILABLE (IntProp 0) @
      prop_of IntProp Property_SERVER_KEEP_ALIVE (connack_server_keep_alive p) @
      prop_of StringProp Property_RESPONSE_INFORMATION (connack_response_information p) @
      prop_of StringProp Property_SERVER_REFERENCE (connack_server_reference p) @
      prop_of StringProp Property_AUTHENTICATION_METHOD (connack_authentication_method p) @
      prop_of BinaryProp Property_AUTHENTICATION_DATA (connack_authentication_data p) @
      []"

definition encode_connack_packet :: "ConnAckPacket \<Rightarrow> int list result" where
  "encode_connack_packet p =
     appendE (Ok [if connack_session_present p then 0x01 else 0x00])
    (appendE (encode_reason (connack_reason p)) (encode_props (connack_props p)))"

definition connack_prop_types :: "PropertyType list" where
  "connack_prop_types =
     [Property_SESSION_EXPIRY_INTERVAL, Property_RECEIVE_MAXIMUM, Property_MAXIMUM_QOS, Property_RETAIN_AVAILABLE,
      Property_MAXIMUM_PACKET_SIZE, Property_ASSIGNED_CLIENT_IDENTIFIER, Property_TOPIC_ALIAS_MAXIMUM, Property_REASON_STRING,
      Property_USER_PROPERTY, Property_WILDCARD_SUBSCRIPTION_AVAILABLE, Property_SUBSCRIPTION_IDENTIFIER_AVAILABLE,
      Property_SHARED_SUBSCRIPTION_AVAILABLE, Property_SERVER_KEEP_ALIVE, Property_RESPONSE_INFORMATION,
      Property_SERVER_REFERENCE, Property_AUTHENTICATION_METHOD, Property_AUTHENTICATION_DATA]"

definition decode_connack_packet :: "bytes \<Rightarrow> (ConnAckPacket \<times> bytes) result" where
  "decode_connack_packet data =
     bindE (decode_uint8 data) (\<lambda>(flags, data).
     bindE (decode_reason data) (\<lambda>(reason, data).
     bindE (decode_props connack_prop_types data) (\<lambda>(props, data).
       Ok (\<lparr>connack_session_present = (flags AND 0x01 \<noteq> 0), connack_reason = reason,
            connack_session_expiry_interval = get_int Property_SESSION_EXPIRY_INTERVAL props,
            connack_receive_maximum = get_or 0xffff (get_int Property_RECEIVE_MAXIMUM props),
            connack_maximum_qos = get_or QoS_EXACLTY_ONCE (get_qos Property_MAXIMUM_QOS props),
            connack_retain_available = (get_or 1 (get_int Property_RETAIN_AVAILABLE props) \<noteq> 0),
            connack_maximum_packet_size = get_int Property_MAXIMUM_PACKET_SIZE props,
            connack_assigned_client_identifier = get_string Property_ASSIGNED_CLIENT_IDENTIFIER props,
            connack_topic_alias_maximum = get_or 0 (get_int Property_TOPIC_ALIAS_MAXIMUM props),
            connack_reason_string = get_string Property_REASON_STRING props,
            connack_user_properties = get_user Property_USER_PROPERTY props,
            connack_wildcard_subscription_available = (get_or 1 (get_int Property_WILDCARD_SUBSCRIPTION_AVAILABLE props) \<noteq> 0),
            connack_subscription_identifier_available = (get_or 1 (get_int Property_SUBSCRIPTION_IDENTIFIER_AVAILABLE props) \<noteq> 0),
            connack_shared_subscription_available = (get_or 1 (get_int Property_SHARED_SUBSCRIPTION_AVAILABLE props) \<noteq> 0),
            connack_server_keep_alive = get_int Property_SERVER_KEEP_ALIVE props,
            connack_response_information = get_string Property_RESPONSE_INFORMATION props,
            connack_server_reference = get_string Property_SERVER_REFERENCE props,
            connack_authentication_method = get_string Property_AUTHENTICATION_METHOD props,
            connack_authentication_data = get_binary Property_AUTHENTICATION_DATA props\<rparr>, data))))"

section \<open>Publishing\<close>

text \<open>
  The code asks the packet for an attribute \<open>subscription_identifier\<close> that its class does not have,
  so that a packet with subscription identifiers raises AttributeError after the first properties
  were collected and before any was encoded.
\<close>

definition publish_props :: "PublishPacket \<Rightarrow> Props" where
  "publish_props p =
      prop_if (is_text (publish_payload p)) Property_PAYLOAD_FORMAT_INDICATOR (IntProp 1) @
      prop_of IntProp Property_MESSAGE_EXPIRY_INTERVAL (publish_message_expiry_interval p) @
      prop_of IntProp Property_TOPIC_ALIAS (publish_topic_alias p) @
      prop_of StringProp Property_RESPONSE_TOPIC (publish_response_topic p) @
      prop_of BinaryProp Property_CORRELATION_DATA (publish_correlation_data p) @
      user_props (publish_user_properties p) @
      prop_of StringProp Property_CONTENT_TYPE (publish_content_type p) @
      []"

definition encode_packet_identifier :: "PublishPacket \<Rightarrow> int list result" where
  "encode_packet_identifier p =
     (if publish_qos p = QoS_AT_MOST_ONCE then Ok []
      else (case publish_packet_identifier p of
              None \<Rightarrow> Raise (Exception ''invalid packet identifier'') | Some i \<Rightarrow> encode_uint16 i))"

definition encode_publish_props :: "PublishPacket \<Rightarrow> int list result" where
  "encode_publish_props p =
     (if publish_subscription_identifiers p \<noteq> [] then Raise (AttributeError ''subscription_identifier'')
      else encode_props (publish_props p))"

definition encode_publish_packet :: "PublishPacket \<Rightarrow> int list result" where
  "encode_publish_packet p =
     appendE (encode_string (publish_topic_name p)) (appendE (encode_packet_identifier p)
    (appendE (encode_publish_props p)
      (case publish_payload p of Text s \<Rightarrow> utf8_encode s | Binary b \<Rightarrow> Ok (map uint b))))"

definition publish_prop_types :: "PropertyType list" where
  "publish_prop_types =
     [Property_PAYLOAD_FORMAT_INDICATOR, Property_MESSAGE_EXPIRY_INTERVAL, Property_TOPIC_ALIAS, Property_RESPONSE_TOPIC,
      Property_CORRELATION_DATA, Property_USER_PROPERTY, Property_SUBSCRIPTION_IDENTIFIER, Property_CONTENT_TYPE]"

definition decode_publish_payload :: "bool \<Rightarrow> bytes \<Rightarrow> Payload result" where
  "decode_publish_payload text data =
     (if text then (case utf8_decode data of
                      Inl _ \<Rightarrow> mqtt_error Reason_MALFORMED_PACKET ''invalid utf-8 encoding'' | Inr s \<Rightarrow> Ok (Text s))
      else Ok (Binary data))"

definition decode_publish_packet :: "bool \<Rightarrow> QoS \<Rightarrow> bool \<Rightarrow> bytes \<Rightarrow> (PublishPacket \<times> bytes) result" where
  "decode_publish_packet duplicate qos retain data =
     bindE (decode_string data) (\<lambda>(topic_name, data).
     bindE (decode_opt (qos \<noteq> QoS_AT_MOST_ONCE) decode_uint16 data) (\<lambda>(packet_identifier, data).
     bindE (decode_props publish_prop_types data) (\<lambda>(props, data).
     bindE (decode_publish_payload (has_format_indicator props) data) (\<lambda>payload.
       Ok (\<lparr>publish_duplicate = duplicate, publish_qos = qos, publish_retain = retain, publish_topic_name = topic_name,
            publish_packet_identifier = packet_identifier,
            publish_message_expiry_interval = get_int Property_MESSAGE_EXPIRY_INTERVAL props,
            publish_topic_alias = get_int Property_TOPIC_ALIAS props,
            publish_response_topic = get_string Property_RESPONSE_TOPIC props,
            publish_correlation_data = get_binary Property_CORRELATION_DATA props,
            publish_user_properties = get_user Property_USER_PROPERTY props,
            publish_subscription_identifiers = get_identifiers Property_SUBSCRIPTION_IDENTIFIER props,
            publish_content_type = get_string Property_CONTENT_TYPE props, publish_payload = payload\<rparr>, [])))))"

text \<open>The four acknowledgements.\<close>

definition reason_props :: "pystr option \<Rightarrow> (pystr \<times> pystr) list \<Rightarrow> Props" where
  "reason_props reason_string us = prop_of StringProp Property_REASON_STRING reason_string @ user_props us @ []"

definition reason_prop_types :: "PropertyType list" where
  "reason_prop_types = [Property_REASON_STRING, Property_USER_PROPERTY]"

definition encode_puback_packet :: "AckPacket \<Rightarrow> int list result" where
  "encode_puback_packet p =
     appendE (encode_uint16 (ack_packet_identifier p)) (appendE (encode_reason (ack_reason p))
       (encode_props (reason_props (ack_reason_string p) (ack_user_properties p))))"

definition decode_puback_packet :: "bytes \<Rightarrow> (AckPacket \<times> bytes) result" where
  "decode_puback_packet data =
     bindE (decode_uint16 data) (\<lambda>(packet_identifier, data).
     bindE (decode_reason data) (\<lambda>(reason, data).
     bindE (decode_props reason_prop_types data) (\<lambda>(props, data).
       Ok (\<lparr>ack_packet_identifier = packet_identifier, ack_reason = reason,
            ack_reason_string = get_string Property_REASON_STRING props,
            ack_user_properties = get_user Property_USER_PROPERTY props\<rparr>, data))))"

definition encode_pubrec_packet :: "AckPacket \<Rightarrow> int list result" where
  "encode_pubrec_packet p =
     appendE (encode_uint16 (ack_packet_identifier p)) (appendE (encode_reason (ack_reason p))
       (encode_props (reason_props (ack_reason_string p) (ack_user_properties p))))"

definition decode_pubrec_packet :: "bytes \<Rightarrow> (AckPacket \<times> bytes) result" where
  "decode_pubrec_packet data =
     bindE (decode_uint16 data) (\<lambda>(packet_identifier, data).
     bindE (decode_reason data) (\<lambda>(reason, data).
     bindE (decode_props reason_prop_types data) (\<lambda>(props, data).
       Ok (\<lparr>ack_packet_identifier = packet_identifier, ack_reason = reason,
            ack_reason_string = get_string Property_REASON_STRING props,
            ack_user_properties = get_user Property_USER_PROPERTY props\<rparr>, data))))"

definition encode_pubrel_packet :: "AckPacket \<Rightarrow> int list result" where
  "encode_pubrel_packet p =
     appendE (encode_uint16 (ack_packet_identifier p)) (appendE (encode_reason (ack_reason p))
       (encode_props (reason_props (ack_reason_string p) (ack_user_properties p))))"

definition decode_pubrel_packet :: "bytes \<Rightarrow> (AckPacket \<times> bytes) result" where
  "decode_pubrel_packet data =
     bindE (decode_uint16 data) (\<lambda>(packet_identifier, data).
     bindE (decode_reason data) (\<lambda>(reason, data).
     bindE (decode_props reason_prop_types data) (\<lambda>(props, data).
       Ok (\<lparr>ack_packet_identifier = packet_identifier, ack_reason = reason,
            ack_reason_string = get_string Property_REASON_STRING props,
            ack_user_properties = get_user Property_USER_PROPERTY props\<rparr>, data))))"

definition encode_pubcomp_packet :: "AckPacket \<Rightarrow> int list result" where
  "encode_pubcomp_packet p =
     appendE (encode_uint16 (ack_packet_identifier p)) (appendE (encode_reason (ack_reason p))
       (encode_props (reason_props (ack_reason_string p) (ack_user_properties p))))"

definition decode_pubcomp_packet :: "bytes \<Rightarrow> (AckPacket \<times> bytes) result" where
  "decode_pubcomp_packet data =
     bindE (decode_uint16 data) (\<lambda>(packet_identifier, data).
     bindE (decode_reason data) (\<lambda>(reason, data).
     bindE (decode_props reason_prop_types data) (\<lambda>(props, data).
       Ok (\<lparr>ack_packet_identifier = packet_identifier, ack_reason = reason,
            ack_reason_string = get_string Property_REASON_STRING props,
            ack_user_properties = get_user Property_USER_PROPERTY props\<rparr>, data))))"

section \<open>Subscribing\<close>

definition subscribe_props :: "SubscribePacket \<Rightarrow> Props" where
  "subscribe_props p =
      prop_of (\<lambda>i. IdentifiersProp [i]) Property_SUBSCRIPTION_IDENTIFIER (subscribe_subscription_identifier p) @
      user_props (subscribe_user_properties p) @
      []"

definition encode_list :: "('a \<Rightarrow> int list result) \<Rightarrow> string \<Rightarrow> 'a list \<Rightarrow> int list result" where
  "encode_list enc description xs = (if xs = [] then Raise (Exception description) else concatE enc xs)"

definition encode_subscribe_packet :: "SubscribePacket \<Rightarrow> int list result" where
  "encode_subscribe_packet p =
     appendE (encode_uint16 (subscribe_packet_identifier p)) (appendE (encode_props (subscribe_props p))
       (encode_list encode_subscription ''invalid subscriptions length'' (subscribe_subscriptions p)))"

text \<open>The loops \<open>while data\<close>: each turn takes a byte at least.\<close>

lemma decode_subscription_length: "decode_subscription data = Ok (s, rest) \<Longrightarrow> length rest < length data"
  by (auto simp: decode_subscription_def dest!: decode_text_length(1) decode_length(2))

function decode_subscriptions :: "bytes \<Rightarrow> Subscription list result" where
  "decode_subscriptions data =
     (if data = [] then Ok []
      else bindE (decode_subscription data) (\<lambda>(s, data). bindE (decode_subscriptions data) (\<lambda>ss. Ok (s # ss))))"
  by pat_completeness auto
termination by (relation "measure length") (auto dest: decode_subscription_length)

function decode_reasons :: "bytes \<Rightarrow> Reason list result" where
  "decode_reasons data =
     (if data = [] then Ok []
      else bindE (decode_reason data) (\<lambda>(r, data). bindE (decode_reasons data) (\<lambda>rs. Ok (r # rs))))"
  by pat_completeness auto
termination by (relation "measure length") (auto dest: decode_length(5))

function decode_strings :: "bytes \<Rightarrow> pystr list result" where
  "decode_strings data =
     (if data = [] then Ok []
      else bindE (decode_string data) (\<lambda>(s, data). bindE (decode_strings data) (\<lambda>ss. Ok (s # ss))))"
  by pat_completeness auto
termination by (relation "measure length") (auto dest: decode_text_length(1))

declare decode_subscriptions.simps [simp del] decode_reasons.simps [simp del] decode_strings.simps [simp del]

definition not_empty :: "string \<Rightarrow> 'a list \<Rightarrow> 'a list result" where
  "not_empty description xs = (if xs = [] then mqtt_error Reason_PROTOCOL_ERROR description else Ok xs)"

definition single_identifier :: "int list \<Rightarrow> int option result" where
  "single_identifier ns =
     (if length ns > 1 then mqtt_error Reason_PROTOCOL_ERROR ''multiple SUBSCRIPTION_IDENTIFIER entries''
      else Ok (if ns = [] then None else Some (ns ! 0)))"

definition decode_subscribe_packet :: "bytes \<Rightarrow> (SubscribePacket \<times> bytes) result" where
  "decode_subscribe_packet data =
     bindE (decode_uint16 data) (\<lambda>(packet_identifier, data).
     bindE (decode_props [Property_SUBSCRIPTION_IDENTIFIER, Property_USER_PROPERTY] data) (\<lambda>(props, data).
     bindE (single_identifier (get_identifiers Property_SUBSCRIPTION_IDENTIFIER props)) (\<lambda>identifier.
     bindE (bindE (decode_subscriptions data) (not_empty ''invalid subscriptions length'')) (\<lambda>subscriptions.
       Ok (\<lparr>subscribe_packet_identifier = packet_identifier, subscribe_subscription_identifier = identifier,
            subscribe_user_properties = get_user Property_USER_PROPERTY props,
            subscribe_subscriptions = subscriptions\<rparr>, [])))))"

definition encode_suback_packet :: "SubAckPacket \<Rightarrow> int list result" where
  "encode_suback_packet p =
     appendE (encode_uint16 (suback_packet_identifier p))
    (appendE (encode_props (reason_props (suback_reason_string p) (suback_user_properties p)))
       (encode_list encode_reason ''invalid reasons length'' (suback_reasons p)))"

definition decode_suback_packet :: "bytes \<Rightarrow> (SubAckPacket \<times> bytes) result" where
  "decode_suback_packet data =
     bindE (decode_uint16 data) (\<lambda>(packet_identifier, data).
     bindE (decode_props reason_prop_types data) (\<lambda>(props, data).
     bindE (bindE (decode_reasons data) (not_empty ''invalid reasons length'')) (\<lambda>reasons.
       Ok (\<lparr>suback_packet_identifier = packet_identifier,
            suback_reason_string = get_string Property_REASON_STRING props,
            suback_user_properties = get_user Property_USER_PROPERTY props, suback_reasons = reasons\<rparr>, []))))"

definition encode_unsubscribe_packet :: "UnsubscribePacket \<Rightarrow> int list result" where
  "encode_unsubscribe_packet p =
     appendE (encode_uint16 (unsubscribe_packet_identifier p))
    (appendE (encode_props (user_props (unsubscribe_user_properties p) @ []))
       (encode_list encode_string ''invalid topic filters length'' (unsubscribe_topic_filters p)))"

definition decode_unsubscribe_packet :: "bytes \<Rightarrow> (UnsubscribePacket \<times> bytes) result" where
  "decode_unsubscribe_packet data =
     bindE (decode_uint16 data) (\<lambda>(packet_identifier, data).
     bindE (decode_props [Property_USER_PROPERTY] data) (\<lambda>(props, data).
     bindE (bindE (decode_strings data) (not_empty ''invalid topic filters length'')) (\<lambda>topic_filters.
       Ok (\<lparr>unsubscribe_packet_identifier = packet_identifier,
            unsubscribe_user_properties = get_user Property_USER_PROPERTY props,
            unsubscribe_topic_filters = topic_filters\<rparr>, []))))"

definition encode_unsuback_packet :: "UnsubAckPacket \<Rightarrow> int list result" where
  "encode_unsuback_packet p =
     appendE (encode_uint16 (unsuback_packet_identifier p))
    (appendE (encode_props (reason_props (unsuback_reason_string p) (unsuback_user_properties p)))
       (encode_list encode_reason ''invalid reasons length'' (unsuback_reasons p)))"

definition decode_unsuback_packet :: "bytes \<Rightarrow> (UnsubAckPacket \<times> bytes) result" where
  "decode_unsuback_packet data =
     bindE (decode_uint16 data) (\<lambda>(packet_identifier, data).
     bindE (decode_props reason_prop_types data) (\<lambda>(props, data).
     bindE (bindE (decode_reasons data) (not_empty ''invalid reasons length'')) (\<lambda>reasons.
       Ok (\<lparr>unsuback_packet_identifier = packet_identifier,
            unsuback_reason_string = get_string Property_REASON_STRING props,
            unsuback_user_properties = get_user Property_USER_PROPERTY props, unsuback_reasons = reasons\<rparr>, []))))"

section \<open>Disconnecting and authentication\<close>

definition disconnect_props :: "DisconnectPacket \<Rightarrow> Props" where
  "disconnect_props p =
      prop_of IntProp Property_SESSION_EXPIRY_INTERVAL (disconnect_session_expiry_interval p) @
      prop_of StringProp Property_REASON_STRING (disconnect_reason_string p) @
      user_props (disconnect_user_properties p) @
      prop_of StringProp Property_SERVER_REFERENCE (disconnect_server_reference p) @
      []"

definition encode_disconnect_packet :: "DisconnectPacket \<Rightarrow> int list result" where
  "encode_disconnect_packet p = appendE (encode_reason (disconnect_reason p)) (encode_props (disconnect_props p))"

definition disconnect_prop_types :: "PropertyType list" where
  "disconnect_prop_types =
     [Property_SESSION_EXPIRY_INTERVAL, Property_REASON_STRING, Property_USER_PROPERTY, Property_SERVER_REFERENCE]"

definition decode_disconnect_packet :: "bytes \<Rightarrow> (DisconnectPacket \<times> bytes) result" where
  "decode_disconnect_packet data =
     bindE (decode_reason data) (\<lambda>(reason, data).
     bindE (decode_props disconnect_prop_types data) (\<lambda>(props, data).
       Ok (\<lparr>disconnect_reason = reason,
            disconnect_session_expiry_interval = get_int Property_SESSION_EXPIRY_INTERVAL props,
            disconnect_reason_string = get_string Property_REASON_STRING props,
            disconnect_user_properties = get_user Property_USER_PROPERTY props,
            disconnect_server_reference = get_string Property_SERVER_REFERENCE props\<rparr>, data)))"

definition auth_props :: "AuthPacket \<Rightarrow> Props" where
  "auth_props p =
      prop_of StringProp Property_AUTHENTICATION_METHOD (Some (auth_authentication_method p)) @
      prop_of BinaryProp Property_AUTHENTICATION_DATA (auth_authentication_data p) @
      prop_of StringProp Property_REASON_STRING (auth_reason_string p) @
      user_props (auth_user_properties p) @
      []"

definition encode_auth_packet :: "AuthPacket \<Rightarrow> int list result" where
  "encode_auth_packet p = appendE (encode_reason (auth_reason p)) (encode_props (auth_props p))"

definition auth_prop_types :: "PropertyType list" where
  "auth_prop_types =
     [Property_AUTHENTICATION_METHOD, Property_AUTHENTICATION_DATA, Property_REASON_STRING, Property_USER_PROPERTY]"

definition decode_auth_packet :: "bytes \<Rightarrow> (AuthPacket \<times> bytes) result" where
  "decode_auth_packet data =
     bindE (decode_reason data) (\<lambda>(reason, data).
     bindE (decode_props auth_prop_types data) (\<lambda>(props, data).
       case get_string Property_AUTHENTICATION_METHOD props of
         None \<Rightarrow> mqtt_error Reason_PROTOCOL_ERROR ''missing authentication method''
       | Some authentication_method \<Rightarrow>
           Ok (\<lparr>auth_reason = reason, auth_authentication_method = authentication_method,
                auth_authentication_data = get_binary Property_AUTHENTICATION_DATA props,
                auth_reason_string = get_string Property_REASON_STRING props,
                auth_user_properties = get_user Property_USER_PROPERTY props\<rparr>, data)))"

section \<open>Packets\<close>

text \<open>The type and the fixed header flags of a packet, and its body.\<close>

fun packet_header :: "Packet \<Rightarrow> PacketType \<times> bool \<times> QoS \<times> bool" where
  "packet_header (Connect _) = (PacketType_CONNECT, False, QoS_AT_MOST_ONCE, False)"
| "packet_header (ConnAck _) = (PacketType_CONNACK, False, QoS_AT_MOST_ONCE, False)"
| "packet_header (Publish p) = (PacketType_PUBLISH, publish_duplicate p, publish_qos p, publish_retain p)"
| "packet_header (PubAck _) = (PacketType_PUBACK, False, QoS_AT_MOST_ONCE, False)"
| "packet_header (PubRec _) = (PacketType_PUBREC, False, QoS_AT_MOST_ONCE, False)"
| "packet_header (PubRel _) = (PacketType_PUBREL, False, QoS_AT_LEAST_ONCE, False)"
| "packet_header (PubComp _) = (PacketType_PUBCOMP, False, QoS_AT_MOST_ONCE, False)"
| "packet_header (Subscribe _) = (PacketType_SUBSCRIBE, False, QoS_AT_LEAST_ONCE, False)"
| "packet_header (SubAck _) = (PacketType_SUBACK, False, QoS_AT_MOST_ONCE, False)"
| "packet_header (Unsubscribe _) = (PacketType_UNSUBSCRIBE, False, QoS_AT_LEAST_ONCE, False)"
| "packet_header (UnsubAck _) = (PacketType_UNSUBACK, False, QoS_AT_MOST_ONCE, False)"
| "packet_header PingReq = (PacketType_PINGREQ, False, QoS_AT_MOST_ONCE, False)"
| "packet_header PingRes = (PacketType_PINGRESP, False, QoS_AT_MOST_ONCE, False)"
| "packet_header (Disconnect _) = (PacketType_DISCONNECT, False, QoS_AT_MOST_ONCE, False)"
| "packet_header (Auth _) = (PacketType_AUTH, False, QoS_AT_MOST_ONCE, False)"

fun encode_body :: "Packet \<Rightarrow> int list result" where
  "encode_body (Connect p) = encode_connect_packet p"
| "encode_body (ConnAck p) = encode_connack_packet p"
| "encode_body (Publish p) = encode_publish_packet p"
| "encode_body (PubAck p) = encode_puback_packet p"
| "encode_body (PubRec p) = encode_pubrec_packet p"
| "encode_body (PubRel p) = encode_pubrel_packet p"
| "encode_body (PubComp p) = encode_pubcomp_packet p"
| "encode_body (Subscribe p) = encode_subscribe_packet p"
| "encode_body (SubAck p) = encode_suback_packet p"
| "encode_body (Unsubscribe p) = encode_unsubscribe_packet p"
| "encode_body (UnsubAck p) = encode_unsuback_packet p"
| "encode_body PingReq = Ok []"
| "encode_body PingRes = Ok []"
| "encode_body (Disconnect p) = encode_disconnect_packet p"
| "encode_body (Auth p) = encode_auth_packet p"

definition header_byte :: "PacketType \<times> bool \<times> QoS \<times> bool \<Rightarrow> int" where
  "header_byte = (\<lambda>(packet_type, duplicate, qos, retain).
     push_bit 4 (PacketType_value packet_type) OR (if duplicate then 0x08 else 0x00) OR
     push_bit 1 (QoS_value qos) OR (if retain then 0x01 else 0x00))"

definition encode_packet :: "Packet \<Rightarrow> bytes result" where
  "encode_packet packet =
     bindE (encode_body packet) (\<lambda>packet_data.
     bindE (appendE (Ok [header_byte (packet_header packet)])
             (appendE (encode_uintvar (int (length packet_data))) (Ok packet_data))) py_bytes)"

definition with_flags :: "QoS \<Rightarrow> ('a \<Rightarrow> Packet) \<Rightarrow> (bytes \<Rightarrow> ('a \<times> bytes) result) \<Rightarrow>
    bool \<Rightarrow> QoS \<Rightarrow> bool \<Rightarrow> bytes \<Rightarrow> (Packet \<times> bytes) result" where
  "with_flags expected packet dec duplicate qos retain data =
     (if duplicate \<or> qos \<noteq> expected \<or> retain then mqtt_error Reason_MALFORMED_PACKET ''invalid fixed header flags''
      else bindE (dec data) (\<lambda>(p, data). Ok (packet p, data)))"

definition decode_body :: "PacketType \<Rightarrow> bool \<Rightarrow> QoS \<Rightarrow> bool \<Rightarrow> bytes \<Rightarrow> (Packet \<times> bytes) result" where
  "decode_body packet_type duplicate qos retain data =
     (case packet_type of
        PacketType_CONNECT \<Rightarrow>
          with_flags QoS_AT_MOST_ONCE Connect decode_connect_packet duplicate qos retain data
      | PacketType_CONNACK \<Rightarrow>
          with_flags QoS_AT_MOST_ONCE ConnAck decode_connack_packet duplicate qos retain data
      | PacketType_PUBLISH \<Rightarrow>
          bindE (decode_publish_packet duplicate qos retain data) (\<lambda>(p, data). Ok (Publish p, data))
      | PacketType_PUBACK \<Rightarrow>
          with_flags QoS_AT_MOST_ONCE PubAck decode_puback_packet duplicate qos retain data
      | PacketType_PUBREC \<Rightarrow>
          with_flags QoS_AT_MOST_ONCE PubRec decode_pubrec_packet duplicate qos retain data
      | PacketType_PUBREL \<Rightarrow>
          with_flags QoS_AT_LEAST_ONCE PubRel decode_pubrel_packet duplicate qos retain data
      | PacketType_PUBCOMP \<Rightarrow>
          with_flags QoS_AT_MOST_ONCE PubComp decode_pubcomp_packet duplicate qos retain data
      | PacketType_SUBSCRIBE \<Rightarrow>
          with_flags QoS_AT_LEAST_ONCE Subscribe decode_subscribe_packet duplicate qos retain data
      | PacketType_SUBACK \<Rightarrow>
          with_flags QoS_AT_MOST_ONCE SubAck decode_suback_packet duplicate qos retain data
      | PacketType_UNSUBSCRIBE \<Rightarrow>
          with_flags QoS_AT_LEAST_ONCE Unsubscribe decode_unsubscribe_packet duplicate qos retain data
      | PacketType_UNSUBACK \<Rightarrow>
          with_flags QoS_AT_MOST_ONCE UnsubAck decode_unsuback_packet duplicate qos retain data
      | PacketType_PINGREQ \<Rightarrow>
          with_flags QoS_AT_MOST_ONCE (\<lambda>_. PingReq) (\<lambda>data. Ok ((), data)) duplicate qos retain data
      | PacketType_PINGRESP \<Rightarrow>
          with_flags QoS_AT_MOST_ONCE (\<lambda>_. PingRes) (\<lambda>data. Ok ((), data)) duplicate qos retain data
      | PacketType_DISCONNECT \<Rightarrow>
          with_flags QoS_AT_MOST_ONCE Disconnect decode_disconnect_packet duplicate qos retain data
      | PacketType_AUTH \<Rightarrow>
          with_flags QoS_AT_MOST_ONCE Auth decode_auth_packet duplicate qos retain data)"

definition decode_packet :: "bytes \<Rightarrow> Packet result" where
  "decode_packet data =
     (if length data < 2 then mqtt_error Reason_MALFORMED_PACKET ''insufficient packet data''
      else let b = uint (data ! 0) in
        bindE (value_error_to Reason_MALFORMED_PACKET (PacketType_of (drop_bit 4 b))) (\<lambda>packet_type.
        bindE (value_error_to Reason_MALFORMED_PACKET (QoS_of (drop_bit 1 b AND 0x03))) (\<lambda>qos.
        bindE (decode_uintvar (drop 1 data)) (\<lambda>(remaining_len, data).
          if int (length data) \<noteq> remaining_len then mqtt_error Reason_MALFORMED_PACKET ''invalid data length''
          else bindE (decode_body packet_type (b AND 0x08 \<noteq> 0) qos (b AND 0x01 \<noteq> 0) data) (\<lambda>(packet, data).
            if data \<noteq> [] then mqtt_error Reason_MALFORMED_PACKET ''excess packet data'' else Ok packet)))))"

section \<open>Packets in a stream\<close>

function next_size_loop :: "bytes \<Rightarrow> nat \<Rightarrow> nat result" where
  "next_size_loop data i =
     (if i > 3 then mqtt_error Reason_MALFORMED_PACKET ''invalid variable byte integer encoding''
      else if length data < i + 2 then Ok (i + 2)
      else if uint (data ! (i + 1)) AND 0x80 = 0
      then bindE (decode_uintvar (drop 1 data)) (\<lambda>(remaining_len, _). Ok (2 + i + nat remaining_len))
      else next_size_loop data (i + 1))"
  by pat_completeness auto
termination by (relation "measure (\<lambda>(_, i). 4 - i)") auto

declare next_size_loop.simps [simp del]

definition get_next_packet_size :: "bytes \<Rightarrow> nat result" where
  "get_next_packet_size data = (if length data < 2 then Ok 2 else next_size_loop data 0)"

text \<open>\<open>Connection.send\<close> gives the bytes of a packet to the stream, \<open>Connection.receive\<close> takes those of one.\<close>

definition send_packet :: "Packet \<Rightarrow> bytes \<Rightarrow> bytes result" where
  "send_packet packet stream = bindE (encode_packet packet) (\<lambda>packet_bytes. Ok (stream @ packet_bytes))"

definition receive_packet :: "bytes \<Rightarrow> (Packet \<times> bytes) result" where
  "receive_packet stream = read_frame get_next_packet_size decode_packet stream"

end
