(* ===== verification/Mqtt_Props_Codec.thy ===== *)
theory Mqtt_Props_Codec
  imports Mqtt_Props
begin

text \<open>The round trip of properties: what \<open>encode_props\<close> accepts is read back by \<open>decode_props\<close>.\<close>

section \<open>Lookup in a dictionary made of pieces\<close>

named_theorems prop_pieces

lemma map_of_pieces [prop_pieces]:
  "map_of [] t = None"
  "map_of (prop_if c t' v @ props) t = (if c \<and> t' = t then Some v else map_of props t)"
  "map_of (prop_of f t' x @ props) t = (if x \<noteq> None \<and> t' = t then Some (f (the x)) else map_of props t)"
  by (auto simp: prop_if_def prop_of_def split: option.splits)

lemma keys_pieces [prop_pieces]:
  "t \<in> fst ` set (prop_if c t' v @ props) \<longleftrightarrow> c \<and> t = t' \<or> t \<in> fst ` set props"
  "t \<in> fst ` set (prop_of f t' x @ props) \<longleftrightarrow> x \<noteq> None \<and> t = t' \<or> t \<in> fst ` set props"
  by (auto simp: prop_if_def prop_of_def split: option.splits)

section \<open>One value\<close>

text \<open>Text consists of code points. Lists are not empty.\<close>

fun value_str_ok :: "PropValue \<Rightarrow> bool" where
  "value_str_ok (StringProp s) \<longleftrightarrow> str_ok s"
| "value_str_ok (UserProp us) \<longleftrightarrow> us \<noteq> [] \<and> list_all (\<lambda>(k, v). str_ok k \<and> str_ok v) us"
| "value_str_ok (IdentifiersProp ns) \<longleftrightarrow> ns \<noteq> []"
| "value_str_ok _ \<longleftrightarrow> True"

lemma reads_flag_prop: "reads (encode_flag_prop prop) decode_flag_prop prop"
  using reads_uint8 by (cases "prop") (auto simp: reads_def encode_flag_prop_def encode_int_prop_def decode_flag_prop_def)

lemma reads_int_prop:
  assumes "\<And>n. reads (enc n) dec n"
  shows "reads (encode_int_prop enc prop) (decode_int_prop dec) prop"
    "reads (encode_positive_prop enc prop) (decode_positive_prop dec) prop"
  using assms
  by (cases "prop"; auto simp: reads_def encode_int_prop_def decode_int_prop_def encode_positive_prop_def decode_positive_prop_def split: if_splits)+

lemma reads_string_prop: "value_str_ok prop \<Longrightarrow> reads (encode_string_prop prop) decode_string_prop prop"
  by (cases "prop") (auto simp: encode_string_prop_def decode_string_prop_def reads_def dest: reads_string [unfolded reads_def, rule_format])

lemma reads_binary_prop: "reads (encode_binary_prop prop) decode_binary_prop prop"
  using reads_binary by (cases "prop") (auto simp: encode_binary_prop_def decode_binary_prop_def reads_def)

lemma reads_qos_prop: "reads (encode_prop Property_MAXIMUM_QOS prop) decode_qos_prop prop"
  using reads_uint8 [of "QoS_value QoS_AT_MOST_ONCE"] reads_uint8 [of "QoS_value QoS_AT_LEAST_ONCE"]
    QoS_of_value [of QoS_AT_MOST_ONCE] QoS_of_value [of QoS_AT_LEAST_ONCE]
  by (cases "prop") (auto simp: encode_prop_def decode_qos_prop_def reads_def)

lemmas reads_kinds = reads_flag_prop reads_int_prop [OF reads_uint16] reads_int_prop [OF reads_uint32] reads_string_prop
  reads_binary_prop

lemma reads_prop:
  assumes "t \<notin> set multiple_prop_types" "value_str_ok prop"
  shows "reads (encode_prop t prop) (decode_prop t) prop"
proof (cases "t = Property_MAXIMUM_QOS")
  case True
  then show ?thesis using reads_qos_prop by (simp add: decode_prop_def [abs_def])
next
  case False
  with assms show ?thesis
    by (cases t; simp add: multiple_prop_types_def encode_prop_def decode_prop_def [abs_def] reads_kinds)
qed

lemma reads_user_prop:
  assumes "str_ok k" "str_ok v"
  shows "reads (appendE (encode_string k) (encode_string v)) (decode_prop Property_USER_PROPERTY) (UserProp [(k, v)])"
  using reads_string [OF assms(1)] reads_string [OF assms(2)]
  by (auto simp: reads_def appendE_Ok_iff decode_prop_def decode_user_prop_def)

lemma reads_identifier_prop:
  assumes "i \<noteq> 0"
  shows "reads (encode_uintvar i) (decode_prop Property_SUBSCRIPTION_IDENTIFIER) (IdentifiersProp [i])"
  using reads_uintvar [of i] assms by (auto simp: reads_def decode_prop_def decode_identifier_prop_def)

section \<open>The loop\<close>

lemma appendE_Nil [simp]: "appendE (Ok []) m = m"
  by (cases m) simp_all


lemma add_prop_new: "t \<notin> fst ` set props \<Longrightarrow> add_prop t v props = props @ [(t, v)]"
  by (induction props) auto

lemma add_prop_last: "t \<notin> fst ` set props \<Longrightarrow> add_prop t v (props @ [(t, v')]) = props @ [(t, append_value v' v)]"
  by (induction props) auto

lemma loop_step:
  assumes "reads m (decode_prop t) v" "appendE (encode_uintvar (PropertyType_value t)) m = Ok ys"
    and "t \<in> set valid" "t \<notin> fst ` set props \<or> t \<in> set multiple_prop_types"
  shows "all_bytes ys \<and> decode_props_loop valid (wire ys @ rest) props = decode_props_loop valid rest (add_prop t v props)"
proof -
  obtain xs zs where x: "encode_uintvar (PropertyType_value t) = Ok xs" and z: "m = Ok zs" and ys: "ys = xs @ zs"
    using assms(2) by (auto simp: appendE_Ok_iff)
  have d: "decode_uintvar (wire xs @ wire zs @ rest) = Ok (PropertyType_value t, wire zs @ rest)"
    by (rule readsD [OF reads_uintvar x])
  then have "wire ys @ rest \<noteq> []" using decode_length(1) [OF d] ys by auto
  with d ys readsD [OF assms(1) z] assms(3,4) reads_bytes [OF reads_uintvar x] reads_bytes [OF assms(1) z] show ?thesis
    by (subst decode_props_loop.simps) auto
qed

lemma loop_users:
  assumes "list_all (\<lambda>(k, v). str_ok k \<and> str_ok v) us" "concatE (encode_user_prop Property_USER_PROPERTY) us = Ok ys"
    and "Property_USER_PROPERTY \<in> set valid" "Property_USER_PROPERTY \<notin> fst ` set props"
  shows "all_bytes ys \<and> decode_props_loop valid (wire ys @ rest) (props @ [(Property_USER_PROPERTY, UserProp us')]) =
    decode_props_loop valid rest (props @ [(Property_USER_PROPERTY, UserProp (us' @ us))])"
  using assms(1,2)
proof (induction us arbitrary: ys us')
  case (Cons u us)
  obtain k v where u: "u = (k, v)" by (cases u)
  from Cons.prems u obtain xs zs where
    x: "appendE (encode_uintvar (PropertyType_value Property_USER_PROPERTY)) (appendE (encode_string k) (encode_string v)) = Ok xs"
    and z: "concatE (encode_user_prop Property_USER_PROPERTY) us = Ok zs" and ys: "ys = xs @ zs"
    by (auto simp: appendE_Ok_iff encode_user_prop_def [of Property_USER_PROPERTY])
  from Cons.prems u have "str_ok k" "str_ok v" by simp_all
  note step = loop_step [OF reads_user_prop [OF this] x assms(3), of "props @ [(Property_USER_PROPERTY, UserProp us')]" "wire zs @ rest"]
  from Cons.IH [OF _ z, of "us' @ [u]"] Cons.prems(1) step ys u show ?case
    by (simp add: add_prop_last [OF assms(4)] multiple_prop_types_def)
qed simp

lemma loop_identifiers:
  assumes "concatE (encode_identifier Property_SUBSCRIPTION_IDENTIFIER) ns = Ok ys"
    and "Property_SUBSCRIPTION_IDENTIFIER \<in> set valid" "Property_SUBSCRIPTION_IDENTIFIER \<notin> fst ` set props"
  shows "all_bytes ys \<and>
    decode_props_loop valid (wire ys @ rest) (props @ [(Property_SUBSCRIPTION_IDENTIFIER, IdentifiersProp ns')]) =
    decode_props_loop valid rest (props @ [(Property_SUBSCRIPTION_IDENTIFIER, IdentifiersProp (ns' @ ns))])"
  using assms(1)
proof (induction ns arbitrary: ys ns')
  case (Cons i ns)
  then obtain xs zs where i: "i \<noteq> 0"
    and x: "appendE (encode_uintvar (PropertyType_value Property_SUBSCRIPTION_IDENTIFIER)) (encode_uintvar i) = Ok xs"
    and z: "concatE (encode_identifier Property_SUBSCRIPTION_IDENTIFIER) ns = Ok zs" and ys: "ys = xs @ zs"
    by (auto simp: appendE_Ok_iff encode_identifier_def [of _ i] split: if_splits)
  note step = loop_step [OF reads_identifier_prop [OF i] x assms(2),
    of "props @ [(Property_SUBSCRIPTION_IDENTIFIER, IdentifiersProp ns')]" "wire zs @ rest"]
  from Cons.IH [OF z, of "ns' @ [i]"] step ys show ?case
    by (simp add: add_prop_last [OF assms(3)] multiple_prop_types_def)
qed simp

text \<open>One key with its value, and then all of them.\<close>

lemma loop_prop:
  assumes "encode_typed_prop (t, prop) = Ok ys" "value_str_ok prop" "t \<in> set valid" "t \<notin> fst ` set props"
  shows "all_bytes ys \<and> decode_props_loop valid (wire ys @ rest) props = decode_props_loop valid rest (props @ [(t, prop)])"
proof (cases "t \<in> set multiple_prop_types")
  case False
  with assms(1) have "appendE (encode_uintvar (PropertyType_value t)) (encode_prop t prop) = Ok ys"
    by (simp add: encode_typed_prop_def)
  from loop_step [OF reads_prop [OF False assms(2)] this assms(3), of props rest] assms(4) show ?thesis
    by (simp add: add_prop_new)
next
  case True
  then consider "t = Property_USER_PROPERTY" | "t = Property_SUBSCRIPTION_IDENTIFIER" by (auto simp: multiple_prop_types_def)
  then show ?thesis
  proof cases
    case 1
    with assms(1) obtain us where p: "prop = UserProp us" and e: "concatE (encode_user_prop t) us = Ok ys"
      by (cases "prop") (auto simp: encode_typed_prop_def multiple_prop_types_def encode_prop_def)
    from p assms(2) obtain k v us' where us: "us = (k, v) # us'" by (cases us) auto
    with e 1 obtain xs zs where
      x: "appendE (encode_uintvar (PropertyType_value t)) (appendE (encode_string k) (encode_string v)) = Ok xs"
      and z: "concatE (encode_user_prop Property_USER_PROPERTY) us' = Ok zs" and ys: "ys = xs @ zs"
      by (auto simp: appendE_Ok_iff encode_user_prop_def [of Property_USER_PROPERTY])
    have s: "str_ok k" "str_ok v" "list_all (\<lambda>(k, v). str_ok k \<and> str_ok v) us'" using assms(2) p us by simp_all
    from loop_step [OF reads_user_prop [OF s(1,2)] x [unfolded 1] assms(3) [unfolded 1], of props "wire zs @ rest"]
      loop_users [OF s(3) z assms(3) [unfolded 1] assms(4) [unfolded 1], of rest "[(k, v)]"] assms(4) 1 ys us p
    show ?thesis by (simp add: add_prop_new)
  next
    case 2
    with assms(1) obtain ns where p: "prop = IdentifiersProp ns" and e: "concatE (encode_identifier t) ns = Ok ys"
      by (cases "prop") (auto simp: encode_typed_prop_def multiple_prop_types_def encode_prop_def)
    from p assms(2) obtain i ns' where ns: "ns = i # ns'" by (cases ns) auto
    with e 2 obtain xs zs where i: "i \<noteq> 0"
      and x: "appendE (encode_uintvar (PropertyType_value t)) (encode_uintvar i) = Ok xs"
      and z: "concatE (encode_identifier Property_SUBSCRIPTION_IDENTIFIER) ns' = Ok zs" and ys: "ys = xs @ zs"
      by (auto simp: appendE_Ok_iff encode_identifier_def [of _ i] split: if_splits)
    from loop_step [OF reads_identifier_prop [OF i] x [unfolded 2] assms(3) [unfolded 2], of props "wire zs @ rest"]
      loop_identifiers [OF z assms(3) [unfolded 2] assms(4) [unfolded 2], of rest "[i]"] assms(4) 2 ys ns p
    show ?thesis by (simp add: add_prop_new)
  qed
qed

definition props_ok :: "PropertyType list \<Rightarrow> Props \<Rightarrow> bool" where
  "props_ok valid props \<longleftrightarrow> distinct (map fst props) \<and> list_all (\<lambda>(t, prop). t \<in> set valid \<and> value_str_ok prop) props"

lemma loop_all:
  assumes "concatE encode_typed_prop props = Ok ys" "props_ok valid props" "fst ` set props \<inter> fst ` set props' = {}"
  shows "all_bytes ys \<and> decode_props_loop valid (wire ys) props' = Ok (props' @ props)"
  using assms
proof (induction props arbitrary: ys props')
  case (Cons p props)
  obtain t v where p: "p = (t, v)" by (cases p)
  from Cons.prems(1) p obtain xs zs where x: "encode_typed_prop (t, v) = Ok xs" and z: "concatE encode_typed_prop props = Ok zs"
    and ys: "ys = xs @ zs" by (auto simp: appendE_Ok_iff)
  from Cons.prems(2) p have ok: "props_ok valid props" "t \<notin> fst ` set props" "t \<in> set valid" "value_str_ok v"
    by (auto simp: props_ok_def)
  from Cons.prems(3) p have new: "t \<notin> fst ` set props'" "fst ` set props \<inter> fst ` set (props' @ [(t, v)]) = {}" using ok(2) by auto
  from loop_prop [OF x ok(4,3) new(1), of "wire zs"] Cons.IH [OF z ok(1) new(2)] ys p show ?case by simp
qed (simp add: decode_props_loop.simps)

lemma reads_props:
  assumes "props_ok valid props"
  shows "reads (encode_props props) (decode_props valid) props"
proof (rule readsI)
  fix ys assume "encode_props props = Ok ys"
  then obtain bs xs where b: "concatE encode_typed_prop props = Ok bs" and x: "encode_uintvar (int (length bs)) = Ok xs"
    and ys: "ys = xs @ bs" by (auto simp: encode_props_def appendE_Ok_iff)
  from loop_all [OF b assms, of "[]"] readsD [OF reads_uintvar x] reads_bytes [OF reads_uintvar x] ys
  show "all_bytes ys \<and> (\<forall>rest. decode_props valid (wire ys @ rest) = Ok (props, rest))"
    by (simp add: decode_props_def)
qed

end
