(* ===== verification/Mqtt_Codec.thy ===== *)
theory Mqtt_Codec
  imports Mqtt_Encoder Mqtt_Props_Codec
begin

text \<open>
  The round trip of MQTT packets: every packet that the encoder accepts is decoded to itself, with
  the exceptions that \<open>packet_ok\<close> lists, and a stream of packets is received one by one.
\<close>

unbundle bit_operations_syntax

section \<open>Composition\<close>

lemma reads_opt:
  assumes "\<And>v. x = Some v \<Longrightarrow> reads (enc v) dec v" "c \<longleftrightarrow> x \<noteq> None"
  shows "reads (optE enc x) (decode_opt c dec) x"
proof (cases x)
  case None
  then show ?thesis using assms(2) by (simp add: reads_def optE_def decode_opt_def)
next
  case (Some v)
  with assms show ?thesis by (fastforce simp: reads_def optE_def decode_opt_def)
qed

section \<open>Lookups\<close>

text \<open>
  The dictionaries of the encoders are lists of pieces that end with the empty one; the rules about
  pieces want it kept.
\<close>

declare append_Nil2 [simp del] append.right_neutral [simp del]

definition opt_ok :: "('a \<Rightarrow> bool) \<Rightarrow> 'a option \<Rightarrow> bool" where
  "opt_ok P x \<longleftrightarrow> (case x of None \<Rightarrow> True | Some v \<Rightarrow> P v)"

lemma opt_ok_simps [simp]: "opt_ok P None" "opt_ok P (Some v) \<longleftrightarrow> P v"
  by (simp_all add: opt_ok_def)

lemma opt_ok_the: "opt_ok P x \<Longrightarrow> x = None \<or> P (the x)"
  by (cases x) simp_all

definition users_ok :: "(pystr \<times> pystr) list \<Rightarrow> bool" where
  "users_ok us \<longleftrightarrow> list_all (\<lambda>(k, v). str_ok k \<and> str_ok v) us"

lemma value_str_ok_users: "value_str_ok (UserProp us) \<longleftrightarrow> us \<noteq> [] \<and> users_ok us"
  by (simp add: users_ok_def)

declare value_str_ok.simps(2) [simp del] value_str_ok_users [simp]

lemma props_ok_pieces [prop_pieces]:
  "props_ok valid []"
  "props_ok valid (prop_if c t v @ props) \<longleftrightarrow>
     (c \<longrightarrow> t \<in> set valid \<and> value_str_ok v \<and> t \<notin> fst ` set props) \<and> props_ok valid props"
  "props_ok valid (prop_of f t x @ props) \<longleftrightarrow>
     (x \<noteq> None \<longrightarrow> t \<in> set valid \<and> value_str_ok (f (the x)) \<and> t \<notin> fst ` set props) \<and> props_ok valid props"
  by (auto simp: props_ok_def prop_if_def prop_of_def split: option.splits)

lemmas get_defs = get_int_def get_string_def get_binary_def get_qos_def get_user_def get_identifiers_def

lemma get_pieces [prop_pieces]:
  "get_int t [] = None" "get_string t [] = None" "get_binary t [] = None" "get_qos t [] = None" "get_user t [] = []"
  "get_identifiers t [] = []"
  "t' \<noteq> t \<Longrightarrow> get_int t (prop_if c t' v @ props) = get_int t props"
  "t' \<noteq> t \<Longrightarrow> get_string t (prop_if c t' v @ props) = get_string t props"
  "t' \<noteq> t \<Longrightarrow> get_binary t (prop_if c t' v @ props) = get_binary t props"
  "t' \<noteq> t \<Longrightarrow> get_qos t (prop_if c t' v @ props) = get_qos t props"
  "t' \<noteq> t \<Longrightarrow> get_user t (prop_if c t' v @ props) = get_user t props"
  "t' \<noteq> t \<Longrightarrow> get_identifiers t (prop_if c t' v @ props) = get_identifiers t props"
  "t' \<noteq> t \<Longrightarrow> get_int t (prop_of f t' x @ props) = get_int t props"
  "t' \<noteq> t \<Longrightarrow> get_string t (prop_of f t' x @ props) = get_string t props"
  "t' \<noteq> t \<Longrightarrow> get_binary t (prop_of f t' x @ props) = get_binary t props"
  "t' \<noteq> t \<Longrightarrow> get_qos t (prop_of f t' x @ props) = get_qos t props"
  "t' \<noteq> t \<Longrightarrow> get_user t (prop_of f t' x @ props) = get_user t props"
  "t' \<noteq> t \<Longrightarrow> get_identifiers t (prop_of f t' x @ props) = get_identifiers t props"
  by (simp_all add: get_defs map_of_pieces del: map_of_append)

lemma get_hits [prop_pieces]:
  "get_int t (prop_if c t (IntProp n) @ props) = (if c then Some n else get_int t props)"
  "get_qos t (prop_if c t (QoSProp q) @ props) = (if c then Some q else get_qos t props)"
  "get_user t (prop_if c t (UserProp us) @ props) = (if c then us else get_user t props)"
  "get_int t (prop_of IntProp t x @ props) = (if x = None then get_int t props else x)"
  "get_string t (prop_of StringProp t y @ props) = (if y = None then get_string t props else y)"
  "get_binary t (prop_of BinaryProp t z @ props) = (if z = None then get_binary t props else z)"
  "get_identifiers t (prop_of (\<lambda>i. IdentifiersProp [i]) t x @ props) = (if x = None then get_identifiers t props else [the x])"
  by (auto simp: get_defs map_of_pieces simp del: map_of_append)

lemma get_or_simps [simp]:
  "get_or d None = d" "get_or d (Some v) = v" "get_or d (if c then Some v else None) = (if c then v else d)"
  by (simp_all add: get_or_def)

lemma None_if [simp]: "(if x = None then None else x) = x" "(if us = [] then [] else us) = us" "(if us \<noteq> [] then us else []) = us"
  by auto

section \<open>Acknowledgements\<close>

lemma reads_reason_props:
  assumes "opt_ok str_ok s" "users_ok us"
  shows "reads (encode_props (reason_props s us)) (decode_props reason_prop_types) (reason_props s us)"
  using assms opt_ok_the [OF assms(1)]
  by (intro reads_props) (auto simp: reason_props_def reason_prop_types_def prop_pieces simp del: image_iff set_append)

lemma reason_props_get [simp]:
  "get_string Property_REASON_STRING (reason_props s us) = s"
  "get_user Property_USER_PROPERTY (reason_props s us) = us"
  by (simp_all add: reason_props_def prop_pieces)

definition ack_ok :: "AckPacket \<Rightarrow> bool" where
  "ack_ok p \<longleftrightarrow> opt_ok str_ok (ack_reason_string p) \<and> users_ok (ack_user_properties p)"

lemma reads_acks:
  assumes "ack_ok p"
  shows "reads (encode_puback_packet p) decode_puback_packet p" "reads (encode_pubrec_packet p) decode_pubrec_packet p"
    "reads (encode_pubrel_packet p) decode_pubrel_packet p" "reads (encode_pubcomp_packet p) decode_pubcomp_packet p"
proof -
  from assms have ok: "opt_ok str_ok (ack_reason_string p)" "users_ok (ack_user_properties p)" by (simp_all add: ack_ok_def)
  show "reads (encode_puback_packet p) decode_puback_packet p"
    unfolding encode_puback_packet_def decode_puback_packet_def
    by (rule reads_append [OF reads_uint16] reads_append [OF reads_reason] reads_last [OF reads_reason_props [OF ok]])+ simp
  then show "reads (encode_pubrec_packet p) decode_pubrec_packet p" "reads (encode_pubrel_packet p) decode_pubrel_packet p"
    "reads (encode_pubcomp_packet p) decode_pubcomp_packet p"
    by (simp_all only: encode_puback_packet_def encode_pubrec_packet_def encode_pubrel_packet_def encode_pubcomp_packet_def
        decode_puback_packet_def [abs_def] decode_pubrec_packet_def [abs_def] decode_pubrel_packet_def [abs_def]
        decode_pubcomp_packet_def [abs_def])
qed

section \<open>Disconnecting and authentication\<close>

lemma keep_default [simp]: "(if c \<noteq> d then c else d) = c" "(if c = d then d else c) = c"
  by auto

definition disconnect_ok :: "DisconnectPacket \<Rightarrow> bool" where
  "disconnect_ok p \<longleftrightarrow> opt_ok str_ok (disconnect_reason_string p) \<and> users_ok (disconnect_user_properties p) \<and>
     opt_ok str_ok (disconnect_server_reference p)"

lemma props_ok_disconnect: "disconnect_ok p \<Longrightarrow> props_ok disconnect_prop_types (disconnect_props p)"
  by (auto simp: disconnect_ok_def disconnect_props_def disconnect_prop_types_def prop_pieces
      simp del: image_iff set_append dest: opt_ok_the)

lemma reads_disconnect:
  assumes "disconnect_ok p"
  shows "reads (encode_disconnect_packet p) decode_disconnect_packet p"
  unfolding encode_disconnect_packet_def decode_disconnect_packet_def
  by (rule reads_append [OF reads_reason] reads_last [OF reads_props [OF props_ok_disconnect [OF assms]]])+
    (simp add: disconnect_props_def prop_pieces)

definition auth_ok :: "AuthPacket \<Rightarrow> bool" where
  "auth_ok p \<longleftrightarrow> str_ok (auth_authentication_method p) \<and> opt_ok str_ok (auth_reason_string p) \<and> users_ok (auth_user_properties p)"

lemma props_ok_auth: "auth_ok p \<Longrightarrow> props_ok auth_prop_types (auth_props p)"
  by (auto simp: auth_ok_def auth_props_def auth_prop_types_def prop_pieces
      simp del: image_iff set_append dest: opt_ok_the)

lemma reads_auth:
  assumes "auth_ok p"
  shows "reads (encode_auth_packet p) decode_auth_packet p"
  unfolding encode_auth_packet_def decode_auth_packet_def
  by (rule reads_append [OF reads_reason] reads_last [OF reads_props [OF props_ok_auth [OF assms]]])+
    (simp add: auth_props_def prop_pieces)

section \<open>Connecting\<close>

fun payload_ok :: "Payload \<Rightarrow> bool" where
  "payload_ok (Text s) \<longleftrightarrow> str_ok s"
| "payload_ok (Binary _) \<longleftrightarrow> True"

definition will_ok :: "Will \<Rightarrow> bool" where
  "will_ok w \<longleftrightarrow> opt_ok str_ok (will_content_type w) \<and> opt_ok str_ok (will_response_topic w) \<and>
     users_ok (will_user_properties w) \<and> str_ok (will_topic w) \<and> payload_ok (will_payload w)"

lemma props_ok_will: "will_ok w \<Longrightarrow> props_ok will_prop_types (will_props w)"
  by (auto simp: will_ok_def will_props_def will_prop_types_def prop_pieces simp del: image_iff set_append dest: opt_ok_the)

lemma reads_payload:
  assumes "payload_ok x"
  shows "reads (case x of Text s \<Rightarrow> encode_string s | Binary b \<Rightarrow> encode_binary b) (decode_payload (is_text x)) x"
  using assms reads_string reads_binary by (cases x) (fastforce simp: reads_def decode_payload_def [abs_def])+

lemma will_format: "has_format_indicator (will_props w) \<longleftrightarrow> is_text (will_payload w)"
  by (simp add: has_format_indicator_def will_props_def prop_pieces)

lemma reads_will:
  assumes "will_ok w"
  shows "reads (encode_will w) (decode_will (will_qos w) (will_retain w)) w"
proof -
  from assms have ok: "str_ok (will_topic w)" "payload_ok (will_payload w)" by (simp_all add: will_ok_def)
  show ?thesis
    unfolding encode_will_def decode_will_def
    by (rule reads_append [OF reads_props [OF props_ok_will [OF assms]]] reads_append [OF reads_string [OF ok(1)]]
        reads_last [OF reads_payload [OF ok(2), folded will_format]])+
      (simp add: will_props_def prop_pieces)
qed

definition connect_ok :: "ConnectPacket \<Rightarrow> bool" where
  "connect_ok p \<longleftrightarrow> users_ok (connect_user_properties p) \<and> opt_ok str_ok (connect_authentication_method p) \<and>
     (connect_authentication_data p \<noteq> None \<longrightarrow> connect_authentication_method p \<noteq> None) \<and>
     str_ok (connect_client_identifier p) \<and> opt_ok will_ok (connect_will p) \<and> opt_ok str_ok (connect_user_name p)"

lemma props_ok_connect: "connect_ok p \<Longrightarrow> props_ok connect_prop_types (connect_props p)"
  by (auto simp: connect_ok_def connect_props_def connect_prop_types_def prop_pieces
      simp del: image_iff set_append dest: opt_ok_the)

lemma connect_flags_bits:
  "connect_flags p AND 0x02 \<noteq> 0 \<longleftrightarrow> connect_clean_start p"
  "connect_flags p AND 0x04 \<noteq> 0 \<longleftrightarrow> connect_will p \<noteq> None"
  "connect_flags p AND 0x80 \<noteq> 0 \<longleftrightarrow> connect_user_name p \<noteq> None"
  "connect_flags p AND 0x40 \<noteq> 0 \<longleftrightarrow> connect_password p \<noteq> None"
  "connect_will p = Some w \<Longrightarrow> connect_flags p AND 0x20 \<noteq> 0 \<longleftrightarrow> will_retain w"
  "connect_will p = Some w \<Longrightarrow> drop_bit 3 (connect_flags p) AND 0x03 = QoS_value (will_qos w)"
  "connect_will p = None \<Longrightarrow> drop_bit 3 (connect_flags p) AND 0x03 = QoS_value QoS_AT_MOST_ONCE"
  "is_byte (connect_flags p)"
proof -
  define q where "q = (case connect_will p of None \<Rightarrow> QoS_AT_MOST_ONCE | Some w \<Rightarrow> will_qos w)"
  define r where "r = (case connect_will p of None \<Rightarrow> False | Some w \<Rightarrow> will_retain w)"
  have f: "connect_flags p = (if connect_clean_start p then 0x02 else 0x00) OR
      (if connect_will p = None then 0x00 else 0x04 OR push_bit 3 (QoS_value q) OR (if r then 0x20 else 0x00)) OR
      (if connect_user_name p \<noteq> None then 0x80 else 0x00) OR (if connect_password p \<noteq> None then 0x40 else 0x00)"
    by (auto simp: connect_flags_def q_def r_def split: option.splits)
  note all = f [abs_def] q_def [symmetric] r_def [symmetric]
  show "connect_flags p AND 0x02 \<noteq> 0 \<longleftrightarrow> connect_clean_start p"
    "connect_flags p AND 0x04 \<noteq> 0 \<longleftrightarrow> connect_will p \<noteq> None"
    "connect_flags p AND 0x80 \<noteq> 0 \<longleftrightarrow> connect_user_name p \<noteq> None"
    "connect_flags p AND 0x40 \<noteq> 0 \<longleftrightarrow> connect_password p \<noteq> None"
    "is_byte (connect_flags p)"
    unfolding f by (cases q; simp add: is_byte_def)+
  show "connect_will p = Some w \<Longrightarrow> connect_flags p AND 0x20 \<noteq> 0 \<longleftrightarrow> will_retain w"
    "connect_will p = Some w \<Longrightarrow> drop_bit 3 (connect_flags p) AND 0x03 = QoS_value (will_qos w)"
    "connect_will p = None \<Longrightarrow> drop_bit 3 (connect_flags p) AND 0x03 = QoS_value QoS_AT_MOST_ONCE"
    unfolding f by (cases q; simp add: q_def r_def)+
qed

lemma decode_uint8_Cons: "is_byte n \<Longrightarrow> decode_uint8 (word_of_int n # data) = Ok (n, data)"
  by (simp add: decode_uint8_def uint_of_byte)

lemma reads_connect:
  assumes "connect_ok p"
  shows "reads (encode_connect_packet p) decode_connect_packet p"
proof (rule readsI)
  fix ys assume "encode_connect_packet p = Ok ys"
  then obtain n k ps c w u pw where e: "encode_string (py_str ''MQTT'') = Ok n" "encode_uint16 (connect_keep_alive p) = Ok k"
      "encode_props (connect_props p) = Ok ps" "encode_string (connect_client_identifier p) = Ok c"
      "optE encode_will (connect_will p) = Ok w" "optE encode_string (connect_user_name p) = Ok u"
      "optE encode_binary (connect_password p) = Ok pw"
    and ys: "ys = n @ [5, connect_flags p] @ k @ ps @ c @ w @ u @ pw"
    by (auto simp: encode_connect_packet_def appendE_Ok_iff)
  define q where "q = (case connect_will p of None \<Rightarrow> QoS_AT_MOST_ONCE | Some w \<Rightarrow> will_qos w)"
  have five: "decode_uint8 (word_of_int 5 # data) = Ok (5, data)" for data by (simp add: decode_uint8_def)
  have q: "drop_bit 3 (connect_flags p) AND 0x03 = QoS_value q"
    using connect_flags_bits(6,7) by (cases "connect_will p") (simp_all add: q_def)
  have will: "reads (optE encode_will (connect_will p))
      (decode_opt (connect_flags p AND 0x04 \<noteq> 0) (decode_will q (connect_flags p AND 0x20 \<noteq> 0))) (connect_will p)"
  proof (rule reads_opt)
    show "reads (encode_will v) (decode_will q (connect_flags p AND 0x20 \<noteq> 0)) v" if "connect_will p = Some v" for v
      using that assms reads_will [of v] by (simp add: connect_flags_bits(5) q_def connect_ok_def)
  qed (simp add: connect_flags_bits)
  have user: "reads (optE encode_string (connect_user_name p)) (decode_opt (connect_flags p AND 0x80 \<noteq> 0) decode_string)
      (connect_user_name p)"
    using assms by (intro reads_opt) (simp_all add: connect_flags_bits reads_string connect_ok_def)
  have pass: "reads (optE encode_binary (connect_password p)) (decode_opt (connect_flags p AND 0x40 \<noteq> 0) decode_binary)
      (connect_password p)"
    by (intro reads_opt) (simp_all add: connect_flags_bits reads_binary)
  have "str_ok (py_str ''MQTT'')" by (simp add: str_ok_def py_str_def)
  note name = reads_string [OF this]
  from assms have id: "str_ok (connect_client_identifier p)" by (simp add: connect_ok_def)
  note keep = reads_uint16 [of "connect_keep_alive p"] and ps = reads_props [OF props_ok_connect [OF assms]]
    and cl = reads_string [OF id]
  have bytes: "all_bytes ys"
    unfolding ys using reads_bytes [OF name e(1)] reads_bytes [OF keep e(2)] reads_bytes [OF ps e(3)] reads_bytes [OF cl e(4)]
      reads_bytes [OF will e(5)] reads_bytes [OF user e(6)] reads_bytes [OF pass e(7)]
    by (simp add: connect_flags_bits is_byte_def [of 5])
  have auth: "\<not> (get_string Property_AUTHENTICATION_METHOD (connect_props p) = None \<and>
      get_binary Property_AUTHENTICATION_DATA (connect_props p) \<noteq> None)"
    using assms by (auto simp: connect_ok_def connect_props_def prop_pieces)
  have "decode_connect_packet (wire ys @ rest) = Ok (p, rest)" for rest
    unfolding decode_connect_packet_def ys
    by (simp only: wire_simps append_assoc append_Cons append_Nil prod.case bindE_simps refl
        readsD [OF name e(1)] readsD [OF keep e(2)] readsD [OF ps e(3)] readsD [OF cl e(4)] readsD [OF will e(5)]
        readsD [OF user e(6)] readsD [OF pass e(7)] decode_uint8_Cons [OF connect_flags_bits(8)] five q QoS_of_value
        value_error_to_Ok not_not auth if_False simp_thms)
      (simp add: connect_flags_bits connect_props_def prop_pieces)
  with bytes show "all_bytes ys \<and> (\<forall>rest. decode_connect_packet (wire ys @ rest) = Ok (p, rest))" by simp
qed

definition connack_ok :: "ConnAckPacket \<Rightarrow> bool" where
  "connack_ok p \<longleftrightarrow> opt_ok str_ok (connack_assigned_client_identifier p) \<and> opt_ok str_ok (connack_reason_string p) \<and>
     users_ok (connack_user_properties p) \<and> opt_ok str_ok (connack_response_information p) \<and>
     opt_ok str_ok (connack_server_reference p) \<and> opt_ok str_ok (connack_authentication_method p)"

lemma props_ok_connack: "connack_ok p \<Longrightarrow> props_ok connack_prop_types (connack_props p)"
  by (auto simp: connack_ok_def connack_props_def connack_prop_types_def prop_pieces
      simp del: image_iff set_append dest: opt_ok_the)

lemma reads_connack:
  assumes "connack_ok p"
  shows "reads (encode_connack_packet p) decode_connack_packet p"
proof -
  let ?f = "if connack_session_present p then 0x01 else 0x00 :: int"
  have f: "reads (Ok [?f]) decode_uint8 ?f" using reads_uint8 [of ?f] by (simp add: encode_uint8_def split: if_splits)
  show ?thesis
    unfolding encode_connack_packet_def decode_connack_packet_def
    by (rule reads_append [OF f] reads_append [OF reads_reason] reads_last [OF reads_props [OF props_ok_connack [OF assms]]])+
      (simp add: connack_props_def prop_pieces)
qed

section \<open>Publishing\<close>

definition publish_ok :: "PublishPacket \<Rightarrow> bool" where
  "publish_ok p \<longleftrightarrow> str_ok (publish_topic_name p) \<and> (publish_qos p = QoS_AT_MOST_ONCE \<longrightarrow> publish_packet_identifier p = None) \<and>
     opt_ok str_ok (publish_response_topic p) \<and> users_ok (publish_user_properties p) \<and>
     opt_ok str_ok (publish_content_type p) \<and> payload_ok (publish_payload p)"

lemma props_ok_publish: "publish_ok p \<Longrightarrow> props_ok publish_prop_types (publish_props p)"
  by (auto simp: publish_ok_def publish_props_def publish_prop_types_def prop_pieces
      simp del: image_iff set_append dest: opt_ok_the)

lemma reads_publish:
  assumes "publish_ok p"
  shows "reads_all (encode_publish_packet p)
    (decode_publish_packet (publish_duplicate p) (publish_qos p) (publish_retain p)) p"
proof (cases "publish_subscription_identifiers p = []")
  case False
  then have "encode_publish_packet p \<noteq> Ok ys" for ys
    by (auto simp: encode_publish_packet_def encode_publish_props_def appendE_Ok_iff)
  then show ?thesis by (simp add: reads_all_def)
next
  case True
  from assms have ok: "str_ok (publish_topic_name p)" "payload_ok (publish_payload p)" by (simp_all add: publish_ok_def)
  have id: "reads (encode_packet_identifier p) (decode_opt (publish_qos p \<noteq> QoS_AT_MOST_ONCE) decode_uint16)
      (publish_packet_identifier p)"
    using assms reads_uint16
    by (fastforce simp: encode_packet_identifier_def decode_opt_def reads_def publish_ok_def split: option.splits)
  have ps: "reads (encode_publish_props p) (decode_props publish_prop_types) (publish_props p)"
    using True reads_props [OF props_ok_publish [OF assms]] by (simp add: encode_publish_props_def)
  have fmt: "has_format_indicator (publish_props p) \<longleftrightarrow> is_text (publish_payload p)"
    by (simp add: has_format_indicator_def publish_props_def prop_pieces)
  have payload: "reads_all (case publish_payload p of Text s \<Rightarrow> utf8_encode s | Binary b \<Rightarrow> Ok (map uint b))
      (\<lambda>data. bindE (decode_publish_payload (has_format_indicator (publish_props p)) data) (\<lambda>x. f x)) y"
    if "f (publish_payload p) = Ok (y, [])" for f and y :: PublishPacket
    using ok(2) that utf8_roundtrip
    by (cases "publish_payload p") (auto simp: reads_all_def fmt decode_publish_payload_def)
  show ?thesis
    unfolding encode_publish_packet_def decode_publish_packet_def
    by (rule reads_append_all [OF reads_string [OF ok(1)]] reads_append_all [OF id] reads_append_all [OF ps] payload)+
      (use True in \<open>simp add: publish_props_def prop_pieces\<close>)
qed

section \<open>Lists\<close>

lemma reads_list:
  assumes dec: "\<And>data. decs data = (if data = [] then Ok []
      else bindE (dec data) (\<lambda>(x, data). bindE (decs data) (\<lambda>xs. Ok (x # xs))))"
    and one: "\<And>x. x \<in> set xs \<Longrightarrow> reads (enc x) dec x"
    and less: "\<And>data x rest. dec data = Ok (x, rest) \<Longrightarrow> length rest < length data"
    and enc: "concatE enc xs = Ok ys"
  shows "all_bytes ys \<and> decs (wire ys) = Ok xs"
  using one enc
proof (induction xs arbitrary: ys)
  case Nil
  then show ?case by (simp add: dec)
next
  case (Cons x xs)
  from Cons.prems(2) obtain bs zs where b: "enc x = Ok bs" and z: "concatE enc xs = Ok zs" and ys: "ys = bs @ zs"
    by (auto simp: appendE_Ok_iff)
  have x: "dec (wire ys) = Ok (x, wire zs)" using readsD [OF Cons.prems(1) b] ys by simp
  then have "wire ys \<noteq> []" using less [OF x] by auto
  with x Cons.IH [OF Cons.prems(1) z] reads_bytes [OF Cons.prems(1) b] ys show ?case by (subst dec) auto
qed

lemma reads_list_all:
  assumes dec: "\<And>data. decs data = (if data = [] then Ok []
      else bindE (dec data) (\<lambda>(x, data). bindE (decs data) (\<lambda>xs. Ok (x # xs))))"
    and one: "\<And>x. x \<in> set xs \<Longrightarrow> reads (enc x) dec x"
    and less: "\<And>data x rest. dec data = Ok (x, rest) \<Longrightarrow> length rest < length data"
    and fin: "f xs = Ok (y, [])"
  shows "reads_all (encode_list enc description xs) (\<lambda>data. bindE (bindE (decs data) (not_empty description)) f) y"
  using reads_list [OF dec one less] fin
  by (auto simp: reads_all_def encode_list_def not_empty_def split: if_splits)

lemma reads_subscription:
  assumes "str_ok (sub_topic_filter s)" "\<not> sub_no_local s" "\<not> sub_retain_as_published s"
  shows "reads (encode_subscription s) decode_subscription s"
proof -
  define opts where "opts = QoS_value (sub_maximum_qos s) OR push_bit 4 (RetainHandling_value (sub_retain_handling s))"
  have o: "opts AND 0x03 = QoS_value (sub_maximum_qos s)" "drop_bit 4 opts AND 0x03 = RetainHandling_value (sub_retain_handling s)"
      "opts AND 0x04 = 0" "opts AND 0x08 = 0" "is_byte opts"
    unfolding opts_def by (cases "sub_maximum_qos s"; cases "sub_retain_handling s"; simp add: is_byte_def)+
  have r: "reads (Ok [opts]) decode_uint8 opts" using o(5) by (simp add: reads_def decode_uint8_Cons)
  have e: "encode_subscription s = appendE (encode_string (sub_topic_filter s)) (Ok [opts])"
    using assms(2,3) by (simp add: encode_subscription_def opts_def)
  show ?thesis
    unfolding e decode_subscription_def
    by (rule reads_append [OF reads_string [OF assms(1)]] reads_last [OF r])+ (use assms(2,3) in \<open>simp add: o\<close>)
qed

lemma reads_bind_Ok: "r = Ok x \<Longrightarrow> reads_all m (F x) y \<Longrightarrow> reads_all m (\<lambda>data. bindE r (\<lambda>x. F x data)) y"
  by simp

lemmas reads_subscriptions = reads_list_all [OF decode_subscriptions.simps _ decode_subscription_length]
lemmas reads_reasons = reads_list_all [OF decode_reasons.simps reads_reason decode_length(5)]
lemmas reads_strings = reads_list_all [OF decode_strings.simps _ decode_text_length(1)]

definition subscribe_ok :: "SubscribePacket \<Rightarrow> bool" where
  "subscribe_ok p \<longleftrightarrow> users_ok (subscribe_user_properties p) \<and>
     list_all (\<lambda>s. str_ok (sub_topic_filter s) \<and> \<not> sub_no_local s \<and> \<not> sub_retain_as_published s) (subscribe_subscriptions p)"

lemma reads_subscribe:
  assumes "subscribe_ok p"
  shows "reads_all (encode_subscribe_packet p) decode_subscribe_packet p"
proof -
  have ps: "props_ok [Property_SUBSCRIPTION_IDENTIFIER, Property_USER_PROPERTY] (subscribe_props p)"
    using assms by (auto simp: subscribe_ok_def subscribe_props_def prop_pieces simp del: image_iff set_append)
  have single: "single_identifier (get_identifiers Property_SUBSCRIPTION_IDENTIFIER (subscribe_props p)) =
      Ok (subscribe_subscription_identifier p)"
    by (auto simp: subscribe_props_def prop_pieces single_identifier_def)
  have subs: "reads (encode_subscription s) decode_subscription s" if "s \<in> set (subscribe_subscriptions p)" for s
    using assms that by (intro reads_subscription) (auto simp: subscribe_ok_def list_all_iff)
  show ?thesis
    unfolding encode_subscribe_packet_def decode_subscribe_packet_def
    by (rule reads_append_all [OF reads_uint16] reads_append_all [OF reads_props [OF ps]] reads_bind_Ok [OF single]
        reads_subscriptions [OF subs])+ (simp_all add: subscribe_props_def prop_pieces)
qed

definition suback_ok :: "SubAckPacket \<Rightarrow> bool" where
  "suback_ok p \<longleftrightarrow> opt_ok str_ok (suback_reason_string p) \<and> users_ok (suback_user_properties p)"

lemma reads_suback:
  assumes "suback_ok p"
  shows "reads_all (encode_suback_packet p) decode_suback_packet p"
proof -
  from assms have ok: "opt_ok str_ok (suback_reason_string p)" "users_ok (suback_user_properties p)" by (simp_all add: suback_ok_def)
  show ?thesis
    unfolding encode_suback_packet_def decode_suback_packet_def
    by (rule reads_append_all [OF reads_uint16] reads_append_all [OF reads_reason_props [OF ok]] reads_reasons)+ simp_all
qed

definition unsubscribe_ok :: "UnsubscribePacket \<Rightarrow> bool" where
  "unsubscribe_ok p \<longleftrightarrow> users_ok (unsubscribe_user_properties p) \<and> list_all str_ok (unsubscribe_topic_filters p)"

lemma reads_unsubscribe:
  assumes "unsubscribe_ok p"
  shows "reads_all (encode_unsubscribe_packet p) decode_unsubscribe_packet p"
proof -
  have ps: "props_ok [Property_USER_PROPERTY] (user_props (unsubscribe_user_properties p) @ [])"
    using assms by (auto simp: unsubscribe_ok_def prop_pieces simp del: image_iff set_append)
  have filters: "reads (encode_string s) decode_string s" if "s \<in> set (unsubscribe_topic_filters p)" for s
    using assms that by (intro reads_string) (auto simp: unsubscribe_ok_def list_all_iff)
  show ?thesis
    unfolding encode_unsubscribe_packet_def decode_unsubscribe_packet_def
    by (rule reads_append_all [OF reads_uint16] reads_append_all [OF reads_props [OF ps]] reads_strings [OF filters])+
      (simp_all add: prop_pieces)
qed

definition unsuback_ok :: "UnsubAckPacket \<Rightarrow> bool" where
  "unsuback_ok p \<longleftrightarrow> opt_ok str_ok (unsuback_reason_string p) \<and> users_ok (unsuback_user_properties p)"

lemma reads_unsuback:
  assumes "unsuback_ok p"
  shows "reads_all (encode_unsuback_packet p) decode_unsuback_packet p"
proof -
  from assms have ok: "opt_ok str_ok (unsuback_reason_string p)" "users_ok (unsuback_user_properties p)"
    by (simp_all add: unsuback_ok_def)
  show ?thesis
    unfolding encode_unsuback_packet_def decode_unsuback_packet_def
    by (rule reads_append_all [OF reads_uint16] reads_append_all [OF reads_reason_props [OF ok]] reads_reasons)+ simp_all
qed

section \<open>Packets\<close>

text \<open>
  What the encoder loses or the decoder rejects: subscriptions with the options that the encoder
  puts at other bits, a packet identifier where QoS has none, authentication data without a method,
  and text that is not made of code points, which Python's type does not have.
\<close>

fun packet_ok :: "Packet \<Rightarrow> bool" where
  "packet_ok (Connect p) \<longleftrightarrow> connect_ok p"
| "packet_ok (ConnAck p) \<longleftrightarrow> connack_ok p"
| "packet_ok (Publish p) \<longleftrightarrow> publish_ok p"
| "packet_ok (PubAck p) \<longleftrightarrow> ack_ok p"
| "packet_ok (PubRec p) \<longleftrightarrow> ack_ok p"
| "packet_ok (PubRel p) \<longleftrightarrow> ack_ok p"
| "packet_ok (PubComp p) \<longleftrightarrow> ack_ok p"
| "packet_ok (Subscribe p) \<longleftrightarrow> subscribe_ok p"
| "packet_ok (SubAck p) \<longleftrightarrow> suback_ok p"
| "packet_ok (Unsubscribe p) \<longleftrightarrow> unsubscribe_ok p"
| "packet_ok (UnsubAck p) \<longleftrightarrow> unsuback_ok p"
| "packet_ok PingReq \<longleftrightarrow> True"
| "packet_ok PingRes \<longleftrightarrow> True"
| "packet_ok (Disconnect p) \<longleftrightarrow> disconnect_ok p"
| "packet_ok (Auth p) \<longleftrightarrow> auth_ok p"

lemma reads_all_with_flags:
  "reads_all m dec p \<Longrightarrow> reads_all m (with_flags q packet dec False q False) (packet p)"
  by (simp add: reads_all_def with_flags_def)

lemma reads_body:
  assumes "packet_ok p"
  shows "reads_all (encode_body p) (case_prod (\<lambda>t. case_prod (\<lambda>d. case_prod (decode_body t d))) (packet_header p)) p"
proof (cases p)
  case (Publish pp)
  with assms reads_publish [of pp] show ?thesis by (simp add: reads_all_def decode_body_def)
next
  case PingReq
  then show ?thesis by (simp add: reads_all_def decode_body_def with_flags_def)
next
  case PingRes
  then show ?thesis by (simp add: reads_all_def decode_body_def with_flags_def)
qed (use assms in \<open>simp_all add: decode_body_def [abs_def] reads_all_with_flags reads_imp_all reads_connect reads_connack reads_acks
      reads_subscribe reads_suback reads_unsubscribe reads_unsuback reads_disconnect reads_auth\<close>)

lemma header_byte_bits:
  assumes "packet_header p = (t, d, q, r)"
  shows "is_byte (header_byte (t, d, q, r))" "drop_bit 4 (header_byte (t, d, q, r)) = PacketType_value t"
    "drop_bit 1 (header_byte (t, d, q, r)) AND 0x03 = QoS_value q" "header_byte (t, d, q, r) AND 0x08 \<noteq> 0 \<longleftrightarrow> d"
    "header_byte (t, d, q, r) AND 0x01 \<noteq> 0 \<longleftrightarrow> r"
  unfolding header_byte_def by (cases t; cases d; cases q; cases r; simp add: is_byte_def)+

lemma packet_bytes:
  assumes "encode_packet p = Ok bs" "packet_header p = (t, d, q, r)"
  obtains ys ls where "encode_body p = Ok ys" "encode_uintvar (int (length ys)) = Ok ls"
    "bs = word_of_int (header_byte (t, d, q, r)) # wire ls @ wire ys"
  using assms by (auto simp: encode_packet_def appendE_Ok_iff py_bytes_Ok_iff)

lemma decode_encoded_packet:
  assumes "encode_packet p = Ok bs" "packet_ok p"
  shows "decode_packet bs = Ok p"
proof -
  obtain t d q r where h: "packet_header p = (t, d, q, r)" by (cases "packet_header p")
  from assms(1) h obtain ys ls where y: "encode_body p = Ok ys" and l: "encode_uintvar (int (length ys)) = Ok ls"
    and bs: "bs = word_of_int (header_byte (t, d, q, r)) # wire ls @ wire ys" by (rule packet_bytes)
  note len = readsD [OF reads_uintvar l, of "wire ys"]
  from decode_length(1) [OF len] have "0 < length ls" by simp
  with reads_body [OF assms(2)] y h len header_byte_bits [OF h] show ?thesis
    by (simp add: decode_packet_def bs reads_all_def uint_of_byte del: drop_bit_of_1)
qed

section \<open>Packets in a stream\<close>

definition seven_bit_groups :: "int list \<Rightarrow> bool" where
  "seven_bit_groups ls \<longleftrightarrow> ls \<noteq> [] \<and> all_bytes ls \<and> last ls AND 0x80 = 0 \<and> (\<forall>l \<in> set (butlast ls). l AND 0x80 \<noteq> 0)"

lemma uintvar_bytes_groups: "v < 128 ^ k \<Longrightarrow> 0 < k \<Longrightarrow> seven_bit_groups (uintvar_bytes v) \<and> length (uintvar_bytes v) \<le> k"
proof (induction v arbitrary: k rule: uintvar_bytes.induct)
  case (1 v)
  show ?case
  proof (cases "v div 128 = 0")
    case True
    then have "v < 128" by (simp add: div_eq_0_iff)
    with "1.prems" show ?thesis
      using seven_bits_byte [of "int v"] by (subst (1 2) uintvar_bytes.simps) (simp add: seven_bits seven_bit_groups_def is_byte_def)
  next
    case False
    define l :: int where "l = int (v mod 128) + 128"
    have l: "is_byte l" "l AND 0x80 \<noteq> 0"
      using seven_bits_byte(1) [of "int (v mod 128)"] by (simp_all add: l_def is_byte_def)
    have ys: "uintvar_bytes v = l # uintvar_bytes (v div 128)"
      using False by (subst uintvar_bytes.simps) (simp add: seven_bits l_def)
    obtain k' where k: "k = Suc k'" using "1.prems"(2) by (cases k) simp_all
    with "1.prems"(1) have less: "v div 128 < 128 ^ k'" by (simp add: less_mult_imp_div_less mult.commute)
    with False have "0 < k'" by (cases k') simp_all
    have "drop_bit 7 v = v div 128" by (rule seven_bits)
    with "1.IH" [OF refl refl, of k'] False less \<open>0 < k'\<close>
    have "seven_bit_groups (uintvar_bytes (v div 128)) \<and> length (uintvar_bytes (v div 128)) \<le> k'" by simp
    with ys l k show ?thesis by (auto simp: seven_bit_groups_def)
  qed
qed

lemma encode_uintvar_groups: "encode_uintvar n = Ok ls \<Longrightarrow> seven_bit_groups ls \<and> length ls \<le> 4"
  using uintvar_bytes_groups [of "nat n" 4] by (auto simp: encode_uintvar_def split: if_splits)

lemma size_loop_partial:
  assumes "\<forall>l \<in> set pre. l AND 0x80 \<noteq> 0" "all_bytes pre" "length pre \<le> 3" "i \<le> length pre"
  shows "next_size_loop (b # wire pre) i = Ok (length pre + 2)"
  using assms(4)
proof (induction "length pre - i" arbitrary: i)
  case 0
  then show ?case using assms(3) by (subst next_size_loop.simps) simp
next
  case (Suc k)
  then have i: "i < length pre" by simp
  then have "uint ((b # wire pre) ! (i + 1)) = pre ! i"
    using assms(2) by (simp add: wire_def all_bytes_def list_all_length uint_of_byte)
  moreover from i have "pre ! i AND 0x80 \<noteq> 0" using assms(1) by simp
  moreover have "next_size_loop (b # wire pre) (i + 1) = Ok (length pre + 2)" using Suc i by simp
  ultimately show ?case using i assms(3) by (subst next_size_loop.simps) simp
qed

lemma size_loop_full:
  assumes "seven_bit_groups ls" "length ls \<le> 4" "decode_uintvar (wire ls @ rest) = Ok (n, rest')" "i < length ls"
  shows "next_size_loop (b # wire ls @ rest) i = Ok (1 + length ls + nat n)"
  using assms(4)
proof (induction "length ls - i" arbitrary: i)
  case (Suc k)
  have byte: "uint ((b # wire ls @ rest) ! (i + 1)) = ls ! i"
    using Suc.prems assms(1) by (simp add: wire_def all_bytes_def list_all_length uint_of_byte nth_append seven_bit_groups_def)
  show ?case
  proof (cases "Suc i = length ls")
    case True
    then have "ls ! i = last ls" using assms(1) by (simp add: last_conv_nth seven_bit_groups_def flip: True)
    with True assms byte show ?thesis by (subst next_size_loop.simps) (simp add: seven_bit_groups_def)
  next
    case False
    with Suc.prems have i: "i < length (butlast ls)" by simp
    then have "ls ! i AND 0x80 \<noteq> 0" using assms(1) nth_mem [OF i] by (simp add: seven_bit_groups_def nth_butlast)
    moreover have "next_size_loop (b # wire ls @ rest) (i + 1) = Ok (1 + length ls + nat n)"
      using Suc False by simp
    ultimately show ?thesis using byte Suc.prems assms(2) by (subst next_size_loop.simps) simp
  qed
qed simp

lemma packet_size:
  assumes "encode_uintvar (int (length ys)) = Ok ls" "p @ q = b # wire ls @ wire ys"
  shows "\<exists>n. get_next_packet_size p = Ok n \<and> n \<le> length p + length q \<and> (if q = [] then n = length p else length p < n)"
proof -
  from encode_uintvar_groups [OF assms(1)] have g: "seven_bit_groups ls" "length ls \<le> 4" by simp_all
  have total: "length p + length q = 1 + length ls + length ys" using arg_cong [OF assms(2), of length] by simp
  have ls: "0 < length ls" using g(1) by (simp add: seven_bit_groups_def)
  consider "length p < 2" | "2 \<le> length p" "length p \<le> length ls" | "length ls < length p" "2 \<le> length p" by linarith
  then show ?thesis
  proof cases
    case 1
    then have "get_next_packet_size p = Ok 2" by (simp add: get_next_packet_size_def)
    moreover have two: "2 \<le> length p + length q" using total ls by linarith
    moreover have "q \<noteq> []" using two 1 by auto
    ultimately show ?thesis using 1 by auto
  next
    case 2
    then obtain a p' where p: "p = a # p'" by (cases p) simp_all
    with assms(2) have "p' @ q = wire ls @ wire ys" and a: "a = b" by simp_all
    have k: "length p' < length ls" using 2 p by simp
    then have "take (length p') (p' @ q) = wire (take (length p') ls)"
      unfolding \<open>p' @ q = wire ls @ wire ys\<close> by (simp add: wire_def take_map append_Nil2)
    then have p': "p' = wire (take (length p') ls)" by (simp add: append_Nil2)
    let ?pre = "take (length p') ls"
    have "?pre = take (length p') (butlast ls)" using k by (simp add: butlast_conv_take)
    then have "\<forall>l \<in> set ?pre. l AND 0x80 \<noteq> 0" using g(1) by (auto simp: seven_bit_groups_def dest: in_set_takeD)
    moreover have "all_bytes ?pre" using g(1) by (auto simp: seven_bit_groups_def all_bytes_def list_all_iff dest: in_set_takeD)
    ultimately have "next_size_loop (b # wire ?pre) 0 = Ok (length ?pre + 2)"
      using k g(2) by (intro size_loop_partial) simp_all
    then have "get_next_packet_size p = Ok (length p + 1)"
      using 2 p p' k a by (simp add: get_next_packet_size_def)
    moreover have "q \<noteq> []" using total 2 by auto
    ultimately show ?thesis using total 2 by auto
  next
    case 3
    then obtain a p' where p: "p = a # p'" by (cases p) simp_all
    with assms(2) have "p' @ q = wire ls @ wire ys" and a: "a = b" by simp_all
    then have "take (length ls) (p' @ q) = wire ls" by (simp add: append_Nil2)
    then have "take (length ls) p' = wire ls" using 3 p by (simp add: append_Nil2)
    then obtain rest where p': "p' = wire ls @ rest" by (metis append_take_drop_id)
    have "decode_uintvar (wire ls @ rest) = Ok (int (length ys), rest)" by (rule readsD [OF reads_uintvar assms(1)])
    from size_loop_full [OF g this ls] 3 ls have "get_next_packet_size p = Ok (1 + length ls + length ys)"
      by (simp add: get_next_packet_size_def p p' a)
    with total show ?thesis by (cases q) auto
  qed
qed

definition packet_sent :: "Packet \<Rightarrow> bool" where
  "packet_sent p \<longleftrightarrow> packet_ok p \<and> (case encode_packet p of Inl _ \<Rightarrow> False | Inr _ \<Rightarrow> True)"

lemma packet_sentE:
  assumes "packet_sent p"
  obtains bs where "packet_ok p" "encode_packet p = Ok bs"
  using assms by (auto simp: packet_sent_def split: sum.splits)

lemma packet_bytes_size:
  assumes "encode_packet p = Ok (xs @ ys)"
  shows "\<exists>n. get_next_packet_size xs = Ok n \<and> n \<le> length xs + length ys \<and> (if ys = [] then n = length xs else length xs < n)"
proof -
  obtain t d q r where "packet_header p = (t, d, q, r)" by (cases "packet_header p")
  with assms obtain zs ls b where "encode_uintvar (int (length zs)) = Ok ls" "xs @ ys = b # wire ls @ wire zs"
    by (rule packet_bytes) blast
  then show ?thesis by (rule packet_size)
qed

interpretation mqtt: framing get_next_packet_size decode_packet encode_packet packet_sent
proof unfold_locales
  fix p
  assume "packet_sent p"
  then obtain bs where p: "packet_ok p" "encode_packet p = Ok bs" by (rule packet_sentE)
  then show "\<exists>bs. encode_packet p = Ok bs \<and> decode_packet bs = Ok p" using decode_encoded_packet by blast
  show "get_next_packet_size bs = Ok (length bs)" if "encode_packet p = Ok bs" for bs
    using packet_bytes_size [of p bs "[]"] that by (auto simp: append_Nil2)
  show "\<exists>n. get_next_packet_size xs = Ok n \<and> length xs < n \<and> n \<le> length xs + length ys"
    if "encode_packet p = Ok (xs @ ys)" "ys \<noteq> []" for xs ys
    using packet_bytes_size [OF that(1)] that(2) by auto
qed

text \<open>
  C26: a well-formed packet that the encoder accepts is decoded to itself. Well-formed: strings are of code points, no
  publication with quality of service 0 has a packet identifier (it would not be sent), authentication data come with a
  method, and no subscription has the options no_local or retain_as_published, whose bits the encoder gets wrong.
\<close>

theorem packet_roundtrip:
  assumes "encode_packet p = Ok bs" "packet_ok p"
  shows "decode_packet bs = Ok p"
  using assms by (rule decode_encoded_packet)

theorem packet_roundtrip_witness:
  "decode_packet [0x40, 4, 0, 7, 0x10, 0] = Ok (PubAck \<lparr>ack_packet_identifier = 7, ack_reason = Reason_NO_MATCHING_SUBSCRIBERS,
     ack_reason_string = None, ack_user_properties = []\<rparr>)"
proof (rule packet_roundtrip)
  show "encode_packet (PubAck \<lparr>ack_packet_identifier = 7, ack_reason = Reason_NO_MATCHING_SUBSCRIBERS,
     ack_reason_string = None, ack_user_properties = []\<rparr>) = Ok [0x40, 4, 0, 7, 0x10, 0]"
    by code_simp
qed (simp add: ack_ok_def users_ok_def)

text \<open>
  C25: well-formed packets that the encoder accepts, sent one after another, are received as they were sent, and the bytes
  after them are left. Well-formed: strings are of code points, no publication with quality of service 0 has a packet
  identifier, authentication data come with a method, and no subscription has the options no_local or retain_as_published, whose
  bits the encoder gets wrong.
\<close>

theorem packet_stream_roundtrip:
  assumes "list_all packet_ok ps" "mapE encode_packet ps = Ok bss"
  shows "repeat_decode receive_packet (length ps) (concat bss @ rest) = Ok (ps, rest)"
proof -
  have "packet_sent p" if "p \<in> set ps" for p
    using that assms by (fastforce simp: packet_sent_def list_all_iff mapE_Ok_iff list_all2_conv_all_nth in_set_conv_nth)
  from mqtt.read_all [of ps, OF this] assms(2) show ?thesis by (simp add: receive_packet_def [abs_def])
qed

theorem packet_stream_roundtrip_witness:
  "repeat_decode receive_packet 2 [0xC0, 0, 0x40, 4, 0, 7, 0x10, 0, 0xD0] =
     Ok ([PingReq, PubAck \<lparr>ack_packet_identifier = 7, ack_reason = Reason_NO_MATCHING_SUBSCRIBERS,
            ack_reason_string = None, ack_user_properties = []\<rparr>], [0xD0])"
proof -
  let ?p = "PubAck \<lparr>ack_packet_identifier = 7, ack_reason = Reason_NO_MATCHING_SUBSCRIBERS,
    ack_reason_string = None, ack_user_properties = []\<rparr>"
  have "mapE encode_packet [PingReq, ?p] = Ok [[0xC0, 0], [0x40, 4, 0, 7, 0x10, 0]]" by code_simp
  from packet_stream_roundtrip [OF _ this, of "[0xD0]"] show ?thesis
    by (simp add: ack_ok_def users_ok_def eval_nat_numeral)
qed

section \<open>What is lost\<close>

text \<open>
  A subscription that asks for no messages of its own client is encoded with both bits of QoS,
  and no decoder accepts it; one that asks for retained messages as they were published is decoded as
  one that asks for no messages of its own client.
\<close>

lemma subscription_options_lost:
  assumes "encode_subscription s = Ok bs" "str_ok (sub_topic_filter s)"
  shows "(if sub_no_local s then decode_subscription (wire bs) =
            Raise (MqttError (Reason_value Reason_PROTOCOL_ERROR) ''not a valid enumeration value'')
          else decode_subscription (wire bs) =
            Ok (s\<lparr>sub_no_local := sub_retain_as_published s, sub_retain_as_published := False\<rparr>, []))"
proof -
  define opts where "opts = QoS_value (sub_maximum_qos s) OR (if sub_no_local s then 0x03 else 0x00) OR
    (if sub_retain_as_published s then 0x04 else 0x00) OR push_bit 4 (RetainHandling_value (sub_retain_handling s))"
  from assms(1) obtain xs where x: "encode_string (sub_topic_filter s) = Ok xs" and bs: "bs = xs @ [opts]"
    by (auto simp: encode_subscription_def appendE_Ok_iff opts_def)
  have o: "is_byte opts" "opts AND 0x03 = (if sub_no_local s then 3 else QoS_value (sub_maximum_qos s))"
    "drop_bit 4 opts AND 0x03 = RetainHandling_value (sub_retain_handling s)"
    "opts AND 0x04 \<noteq> 0 \<longleftrightarrow> sub_retain_as_published s" "opts AND 0x08 = 0"
    unfolding opts_def by (cases "sub_maximum_qos s"; cases "sub_retain_handling s"; simp add: is_byte_def)+
  have three: "value_error_to Reason_PROTOCOL_ERROR (QoS_of 3) =
      Raise (MqttError (Reason_value Reason_PROTOCOL_ERROR) ''not a valid enumeration value'')"
    by code_simp
  have "decode_subscription (wire bs) = bindE (value_error_to Reason_PROTOCOL_ERROR (QoS_of (opts AND 0x03)))
      (\<lambda>q. bindE (value_error_to Reason_PROTOCOL_ERROR (RetainHandling_of (drop_bit 4 opts AND 0x03)))
      (\<lambda>h. Ok (\<lparr>sub_topic_filter = sub_topic_filter s, sub_maximum_qos = q, sub_no_local = opts AND 0x04 \<noteq> 0,
            sub_retain_as_published = opts AND 0x08 \<noteq> 0, sub_retain_handling = h\<rparr>, [])))"
    using readsD [OF reads_string [OF assms(2)] x, of "[word_of_int opts]"]
    by (simp only: decode_subscription_def bs wire_simps bindE_simps prod.case append_Nil decode_uint8_Cons [OF o(1)])
  then show ?thesis
    by (simp add: o three)
qed

text \<open>No packet with subscription identifiers can be sent: an attribute that the class does not have is asked for.\<close>

lemma subscription_identifiers_raise:
  assumes "publish_subscription_identifiers p \<noteq> []" "encode_string (publish_topic_name p) = Ok xs"
    and "encode_packet_identifier p = Ok ys"
  shows "encode_packet (Publish p) = Raise (AttributeError ''subscription_identifier'')"
  using assms by (simp add: encode_packet_def encode_publish_packet_def encode_publish_props_def)

text \<open>
  The standard lets a sender of an acknowledgement leave the reason and the properties out where the
  reason is success, and a sender of DISCONNECT where it is a normal one; such packets are rejected.
\<close>

lemma short_packets_rejected:
  "list_all (\<lambda>b. decode_packet [b, 2, i, j] =
     Raise (MqttError (Reason_value Reason_MALFORMED_PACKET) ''invalid data length'')) [0x40, 0x50, 0x62, 0x70] \<and>
   decode_packet [0xE0, 0] = Raise (MqttError (Reason_value Reason_MALFORMED_PACKET) ''invalid data length'')"
proof -
  have types: "PacketType_of 4 = Ok PacketType_PUBACK" "PacketType_of 5 = Ok PacketType_PUBREC"
    "PacketType_of 6 = Ok PacketType_PUBREL" "PacketType_of 7 = Ok PacketType_PUBCOMP" "PacketType_of 14 = Ok PacketType_DISCONNECT"
    "QoS_of 0 = Ok QoS_AT_MOST_ONCE" "QoS_of 1 = Ok QoS_AT_LEAST_ONCE"
    by code_simp+
  have len: "decode_uintvar (2 # data) = Ok (2, data)" "decode_uintvar (0 # data) = Ok (0, data)" for data
    by (simp_all add: decode_uintvar_def uintvar_loop.simps)
  have two: "decode_uint16 [a, b] = Ok (push_bit 8 (uint a) OR uint b, [])" for a b
    by (simp add: decode_uint16_def)
  note defs = decode_packet_def Let_def types len two decode_body_def with_flags_def decode_puback_packet_def
    decode_pubrec_packet_def decode_pubrel_packet_def decode_pubcomp_packet_def decode_disconnect_packet_def
    decode_reason_def mqtt_error_def
  show ?thesis
    by (simp add: defs)
qed

declare append_Nil2 [simp] append.right_neutral [simp]

end
