(* ===== verification/Py_Text.thy ===== *)
theory Py_Text
  imports Py_Str Py_Struct
begin

text \<open>
  Python's numbers as text, slices of text between separators, and dictionaries: \<open>str(n)\<close>, \<open>int(s)\<close>, \<open>s.split(sep)\<close>,
  \<open>s.rfind(c)\<close>. A dictionary is the list of its items in the order of insertion. \<open>int(s)\<close> is the one of ASCII text:
  digits of other alphabets, which Python takes too, are refused.
\<close>

section \<open>Numbers in text\<close>

definition is_digit :: "int \<Rightarrow> bool" where
  "is_digit c \<longleftrightarrow> 0x30 \<le> c \<and> c \<le> 0x39"

text \<open>\<open>int(s)\<close> for ASCII text: between spaces an optional sign, and digits with single underscores between them.\<close>

fun dec_digits :: "int \<Rightarrow> pystr \<Rightarrow> int option" where
  "dec_digits n [] = Some n"
| "dec_digits n (c # cs) =
     (if is_digit c then dec_digits (n * 10 + (c - 0x30)) cs
      else if c = 0x5F \<and> cs \<noteq> [] \<and> is_digit (hd cs) then dec_digits n cs
      else None)"

definition unsigned_int :: "pystr \<Rightarrow> int result" where
  "unsigned_int s =
     (case (if s \<noteq> [] \<and> is_digit (hd s) then dec_digits 0 s else None) of
        Some n \<Rightarrow> Ok n | None \<Rightarrow> Raise (ValueError ''invalid literal for int() with base 10''))"

definition py_int_str :: "pystr \<Rightarrow> int result" where
  "py_int_str s =
     (case rev (dropWhile is_space (rev (dropWhile is_space s))) of
        [] \<Rightarrow> unsigned_int []
      | c # cs \<Rightarrow>
          if c = 0x2B then unsigned_int cs
          else if c = 0x2D then bindE (unsigned_int cs) (\<lambda>n. Ok (- n))
          else unsigned_int (c # cs))"

text \<open>\<open>str(n)\<close> and \<open>f'{n:02}'\<close>\<close>

fun decimal :: "nat \<Rightarrow> pystr" where
  "decimal n = (if n < 10 then [0x30 + int n] else decimal (n div 10) @ [0x30 + int (n mod 10)])"

declare decimal.simps [simp del]

definition py_str_int :: "int \<Rightarrow> pystr" where
  "py_str_int n = (if n < 0 then 0x2D # decimal (nat (- n)) else decimal (nat n))"

definition format_02 :: "int \<Rightarrow> pystr" where
  "format_02 n = (if 0 \<le> n \<and> n < 10 then 0x30 # py_str_int n else py_str_int n)"

lemma format_02_digits:
  assumes "0 \<le> n" "n < 100"
  shows "format_02 n = [0x30 + n div 10, 0x30 + n mod 10]"
proof (cases "n < 10")
  case True
  with assms show ?thesis by (simp add: format_02_def py_str_int_def decimal.simps)
next
  case False
  then have "\<not> nat n < 10" by simp
  then have "decimal (nat n) = decimal (nat n div 10) @ [0x30 + int (nat n mod 10)]" by (subst decimal.simps) simp
  moreover have "nat n div 10 < 10" using assms by linarith
  ultimately show ?thesis
    using assms False by (simp add: format_02_def py_str_int_def decimal.simps [of "nat n div 10"] zdiv_int zmod_int)
qed

lemma two_digits:
  assumes "0 \<le> a" "a < 10" "0 \<le> b" "b < 10"
  shows "py_int_str [0x30 + a, 0x30 + b] = Ok (a * 10 + b)"
  using assms by (simp add: py_int_str_def is_space_def unsigned_int_def is_digit_def)

lemma one_digit: "0 \<le> a \<Longrightarrow> a < 10 \<Longrightarrow> py_int_str [0x30 + a] = Ok a"
  by (simp add: py_int_str_def is_space_def unsigned_int_def is_digit_def)

lemma decimal_small: "n < 10 \<Longrightarrow> decimal n = [0x30 + int n]"
  by (subst decimal.simps) simp

lemma decimal_large: "\<not> n < 10 \<Longrightarrow> decimal n = decimal (n div 10) @ [0x30 + int (n mod 10)]"
  by (subst decimal.simps) simp

lemma decimal_digits: "decimal n \<noteq> [] \<and> is_digit (hd (decimal n)) \<and> list_all is_digit (decimal n)"
proof (induction n rule: decimal.induct)
  case (1 n)
  show ?case
  proof (cases "n < 10")
    case True
    then show ?thesis by (simp add: decimal_small is_digit_def)
  next
    case False
    with 1 show ?thesis by (simp add: decimal_large is_digit_def hd_append)
  qed
qed

lemma dec_digits_append: "dec_digits m s = Some n \<Longrightarrow> list_all is_digit s \<Longrightarrow> dec_digits m (s @ t) = dec_digits n t"
  by (induction s arbitrary: m) auto

lemma dec_digits_decimal: "dec_digits 0 (decimal n) = Some (int n)"
proof (induction n rule: decimal.induct)
  case (1 n)
  show ?case
  proof (cases "n < 10")
    case True
    then show ?thesis by (simp add: decimal_small is_digit_def)
  next
    case False
    have "dec_digits 0 (decimal n) = dec_digits (int (n div 10)) [0x30 + int (n mod 10)]"
      using dec_digits_append [OF 1 [OF False]] decimal_digits [of "n div 10"] False by (simp add: decimal_large)
    also have "\<dots> = Some (int n)"
    proof -
      have "int (n div 10) * 10 + int (n mod 10) = int n" by presburger
      then show ?thesis by (simp add: is_digit_def)
    qed
    finally show ?thesis .
  qed
qed

text \<open>\<open>int(str(n)) == n\<close>\<close>

lemma py_int_str_of_int [simp]: "py_int_str (py_str_int n) = Ok n"
proof -
  have u: "unsigned_int (decimal k) = Ok (int k)" for k
    using decimal_digits [of k] dec_digits_decimal [of k] by (simp add: unsigned_int_def)
  have d: "\<not> is_space c \<and> c \<noteq> 0x2B \<and> c \<noteq> 0x2D" if "is_digit c" for c
    using that by (auto simp: is_digit_def is_space_def)
  have "\<not> is_space c" if "c \<in> set (py_str_int n)" for c
    using that decimal_digits d by (auto simp: py_str_int_def list_all_iff is_space_def split: if_splits)
  then have strip: "rev (dropWhile is_space (rev (dropWhile is_space (py_str_int n)))) = py_str_int n"
    by (simp add: dropWhile_eq_self_iff last_rev) (metis dropWhile_eq_self_iff hd_in_set rev_rev_ident set_rev)
  show ?thesis
  proof (cases "n < 0")
    case True
    with strip u [of "nat (- n)"] show ?thesis by (simp add: py_int_str_def py_str_int_def)
  next
    case False
    obtain c cs where c: "decimal (nat n) = c # cs" "is_digit c"
      using decimal_digits [of "nat n"] by (cases "decimal (nat n)") auto
    with False strip u [of "nat n"] d [OF c(2)] show ?thesis by (simp add: py_int_str_def py_str_int_def)
  qed
qed

lemma py_str_int_chars: "c \<in> set (py_str_int n) \<Longrightarrow> c = 0x2D \<or> is_digit c"
  using decimal_digits by (auto simp: py_str_int_def list_all_iff split: if_splits)

section \<open>Separators\<close>

text \<open>\<open>s.split(c)\<close>, \<open>s.split(c, 1)\<close> and \<open>s.rfind(c)\<close>, where it is found\<close>

fun split_on :: "int \<Rightarrow> pystr \<Rightarrow> pystr list" where
  "split_on c [] = [[]]"
| "split_on c (x # xs) =
     (if x = c then [] # split_on c xs else (case split_on c xs of [] \<Rightarrow> [[x]] | y # ys \<Rightarrow> (x # y) # ys))"

definition split_once :: "int \<Rightarrow> pystr \<Rightarrow> pystr list" where
  "split_once c s = (case dropWhile (\<lambda>x. x \<noteq> c) s of [] \<Rightarrow> [s] | _ # rest \<Rightarrow> [takeWhile (\<lambda>x. x \<noteq> c) s, rest])"

fun rfind :: "int \<Rightarrow> pystr \<Rightarrow> nat option" where
  "rfind c [] = None"
| "rfind c (x # xs) = (case rfind c xs of Some i \<Rightarrow> Some (Suc i) | None \<Rightarrow> if x = c then Some 0 else None)"

lemma split_on_none [simp]: "c \<notin> set s \<Longrightarrow> split_on c s = [s]"
  by (induction s) auto

lemma split_on_append [simp]: "c \<notin> set s \<Longrightarrow> split_on c (s @ c # t) = s # split_on c t"
  by (induction s) auto

lemma split_once_append [simp]:
  assumes "c \<notin> set s" shows "split_once c (s @ c # t) = [s, t]"
proof -
  have "dropWhile (\<lambda>x. x \<noteq> c) (s @ c # t) = c # t" "takeWhile (\<lambda>x. x \<noteq> c) (s @ c # t) = s"
    using assms by (induction s) auto
  then show ?thesis by (simp add: split_once_def)
qed

lemma rfind_none: "rfind c s = None \<longleftrightarrow> c \<notin> set s"
  by (induction s) (auto split: option.splits)

lemma rfind_append: "c \<notin> set t \<Longrightarrow> rfind c (s @ c # t) = Some (length s)"
  by (induction s) (auto simp: rfind_none split: option.splits)

lemma rfind_less: "rfind c s = Some i \<Longrightarrow> i < length s"
  by (induction s arbitrary: i) (auto split: option.splits if_splits)

section \<open>Dictionaries\<close>

fun dict_set :: "'k \<Rightarrow> 'v \<Rightarrow> ('k \<times> 'v) list \<Rightarrow> ('k \<times> 'v) list" where
  "dict_set k v [] = [(k, v)]"
| "dict_set k v ((k', v') # d) = (if k' = k then (k, v) # d else (k', v') # dict_set k v d)"

lemma dict_set_new: "k \<notin> fst ` set d \<Longrightarrow> dict_set k v d = d @ [(k, v)]"
  by (induction d) auto

end
