(* ===== verification/Smpp_Common.thy ===== *)
theory Smpp_Common
  imports Py_Str Py_Float
begin

text \<open>
  Data of the SMPP driver: \<^verbatim>\<open>smpp/common.py\<close>, \<^verbatim>\<open>smpp/transport/common.py\<close>, and the command identifiers
  and headers of \<^verbatim>\<open>smpp/transport/encoder.py\<close>. A dictionary of optional parameters is a list in the order of
  insertion. A datetime object is the record of its fields with the offset from UTC, in microseconds,
  if it has a time zone.
\<close>

section \<open>Enumerations\<close>

datatype (plugins only: code size) Priority =
    Priority_BULK | Priority_NORMAL | Priority_URGENT | Priority_VERY_URGENT

fun Priority_value :: "Priority \<Rightarrow> int" where
  "Priority_value Priority_BULK = 0"
| "Priority_value Priority_NORMAL = 1"
| "Priority_value Priority_URGENT = 2"
| "Priority_value Priority_VERY_URGENT = 3"

definition Priority_members :: "Priority list" where
  "Priority_members =
     [Priority_BULK, Priority_NORMAL, Priority_URGENT, Priority_VERY_URGENT]"

definition Priority_of :: "int \<Rightarrow> Priority result" where
  "Priority_of = enum_lookup Priority_value Priority_members"

interpretation Priority: enumeration Priority_value Priority_members
proof unfold_locales
  show "x \<in> set Priority_members" for x by (cases x) (simp_all add: Priority_members_def)
  show "distinct (map Priority_value Priority_members)" by (simp add: Priority_members_def)
qed

lemma Priority_of_value [simp]: "Priority_of (Priority_value x) = Ok x"
  by (simp add: Priority_of_def Priority.of_value)

datatype (plugins only: code size) TypeOfNumber =
    TypeOfNumber_UNKNOWN | TypeOfNumber_INTERNATIONAL | TypeOfNumber_NATIONAL |
    TypeOfNumber_NETWORK_SPECIFIC | TypeOfNumber_SUBSCRIBER_NUMBER | TypeOfNumber_ALPHANUMERIC |
    TypeOfNumber_ABBREVIATED

fun TypeOfNumber_value :: "TypeOfNumber \<Rightarrow> int" where
  "TypeOfNumber_value TypeOfNumber_UNKNOWN = 0"
| "TypeOfNumber_value TypeOfNumber_INTERNATIONAL = 1"
| "TypeOfNumber_value TypeOfNumber_NATIONAL = 2"
| "TypeOfNumber_value TypeOfNumber_NETWORK_SPECIFIC = 3"
| "TypeOfNumber_value TypeOfNumber_SUBSCRIBER_NUMBER = 4"
| "TypeOfNumber_value TypeOfNumber_ALPHANUMERIC = 5"
| "TypeOfNumber_value TypeOfNumber_ABBREVIATED = 6"

definition TypeOfNumber_members :: "TypeOfNumber list" where
  "TypeOfNumber_members =
     [TypeOfNumber_UNKNOWN, TypeOfNumber_INTERNATIONAL, TypeOfNumber_NATIONAL,
      TypeOfNumber_NETWORK_SPECIFIC, TypeOfNumber_SUBSCRIBER_NUMBER, TypeOfNumber_ALPHANUMERIC,
      TypeOfNumber_ABBREVIATED]"

definition TypeOfNumber_of :: "int \<Rightarrow> TypeOfNumber result" where
  "TypeOfNumber_of = enum_lookup TypeOfNumber_value TypeOfNumber_members"

interpretation TypeOfNumber: enumeration TypeOfNumber_value TypeOfNumber_members
proof unfold_locales
  show "x \<in> set TypeOfNumber_members" for x by (cases x) (simp_all add: TypeOfNumber_members_def)
  show "distinct (map TypeOfNumber_value TypeOfNumber_members)" by (simp add: TypeOfNumber_members_def)
qed

lemma TypeOfNumber_of_value [simp]: "TypeOfNumber_of (TypeOfNumber_value x) = Ok x"
  by (simp add: TypeOfNumber_of_def TypeOfNumber.of_value)

datatype (plugins only: code size) DataCoding =
    DataCoding_DEFAULT | DataCoding_ASCII | DataCoding_UNSPECIFIED_1 | DataCoding_LATIN_1 |
    DataCoding_UNSPECIFIED_2 | DataCoding_JIS | DataCoding_CYRLLIC | DataCoding_LATIN_HEBREW |
    DataCoding_UCS2 | DataCoding_PICTOGRAM | DataCoding_MUSIC | DataCoding_EXTENDED_KANJI |
    DataCoding_KS

fun DataCoding_value :: "DataCoding \<Rightarrow> int" where
  "DataCoding_value DataCoding_DEFAULT = 0"
| "DataCoding_value DataCoding_ASCII = 1"
| "DataCoding_value DataCoding_UNSPECIFIED_1 = 2"
| "DataCoding_value DataCoding_LATIN_1 = 3"
| "DataCoding_value DataCoding_UNSPECIFIED_2 = 4"
| "DataCoding_value DataCoding_JIS = 5"
| "DataCoding_value DataCoding_CYRLLIC = 6"
| "DataCoding_value DataCoding_LATIN_HEBREW = 7"
| "DataCoding_value DataCoding_UCS2 = 8"
| "DataCoding_value DataCoding_PICTOGRAM = 9"
| "DataCoding_value DataCoding_MUSIC = 10"
| "DataCoding_value DataCoding_EXTENDED_KANJI = 13"
| "DataCoding_value DataCoding_KS = 14"

definition DataCoding_members :: "DataCoding list" where
  "DataCoding_members =
     [DataCoding_DEFAULT, DataCoding_ASCII, DataCoding_UNSPECIFIED_1, DataCoding_LATIN_1,
      DataCoding_UNSPECIFIED_2, DataCoding_JIS, DataCoding_CYRLLIC, DataCoding_LATIN_HEBREW,
      DataCoding_UCS2, DataCoding_PICTOGRAM, DataCoding_MUSIC, DataCoding_EXTENDED_KANJI, DataCoding_KS]"

definition DataCoding_of :: "int \<Rightarrow> DataCoding result" where
  "DataCoding_of = enum_lookup DataCoding_value DataCoding_members"

interpretation DataCoding: enumeration DataCoding_value DataCoding_members
proof unfold_locales
  show "x \<in> set DataCoding_members" for x by (cases x) (simp_all add: DataCoding_members_def)
  show "distinct (map DataCoding_value DataCoding_members)" by (simp add: DataCoding_members_def)
qed

lemma DataCoding_of_value [simp]: "DataCoding_of (DataCoding_value x) = Ok x"
  by (simp add: DataCoding_of_def DataCoding.of_value)

datatype (plugins only: code size) CommandStatus =
    ESME_ROK | ESME_RINVMSGLEN | ESME_RINVCMDLEN | ESME_RINVCMDID | ESME_RINVBNDSTS |
    ESME_RALYBND | ESME_RINVPRTFLG | ESME_RINVREGDLVFLG | ESME_RSYSERR | ESME_RINVSRCADR |
    ESME_RINVDSTADR | ESME_RINVMSGID | ESME_RBINDFAIL | ESME_RINVPASWD | ESME_RINVSYSID |
    ESME_RCANCELFAIL | ESME_RREPLACEFAIL | ESME_RMSGQFUL | ESME_RINVSERTYP | ESME_RINVNUMDESTS |
    ESME_RINVDLNAME | ESME_RINVDESTFLAG | ESME_RINVSUBREP | ESME_RINVESMCLASS | ESME_RCNTSUBDL |
    ESME_RSUBMITFAIL | ESME_RINVSRCTON | ESME_RINVSRCNPI | ESME_RINVDSTTON | ESME_RINVDSTNPI |
    ESME_RINVSYSTYP | ESME_RINVREPFLAG | ESME_RINVNUMMSGS | ESME_RTHROTTLED | ESME_RINVSCHED |
    ESME_RINVEXPIRY | ESME_RINVDFTMSGID | ESME_RX_T_APPN | ESME_RX_P_APPN | ESME_RX_R_APPN |
    ESME_RQUERYFAIL | ESME_RINVOPTPARSTREAM | ESME_ROPTPARNOTALLWD | ESME_RINVPARLEN |
    ESME_RMISSINGOPTPARAM | ESME_RINVOPTPARAMVAL | ESME_RDELIVERYFAILURE | ESME_RUNKNOWNERR

fun CommandStatus_value :: "CommandStatus \<Rightarrow> int" where
  "CommandStatus_value ESME_ROK = 0x00"
| "CommandStatus_value ESME_RINVMSGLEN = 0x01"
| "CommandStatus_value ESME_RINVCMDLEN = 0x02"
| "CommandStatus_value ESME_RINVCMDID = 0x03"
| "CommandStatus_value ESME_RINVBNDSTS = 0x04"
| "CommandStatus_value ESME_RALYBND = 0x05"
| "CommandStatus_value ESME_RINVPRTFLG = 0x06"
| "CommandStatus_value ESME_RINVREGDLVFLG = 0x07"
| "CommandStatus_value ESME_RSYSERR = 0x08"
| "CommandStatus_value ESME_RINVSRCADR = 0x0a"
| "CommandStatus_value ESME_RINVDSTADR = 0x0b"
| "CommandStatus_value ESME_RINVMSGID = 0x0c"
| "CommandStatus_value ESME_RBINDFAIL = 0x0d"
| "CommandStatus_value ESME_RINVPASWD = 0x0e"
| "CommandStatus_value ESME_RINVSYSID = 0x0f"
| "CommandStatus_value ESME_RCANCELFAIL = 0x11"
| "CommandStatus_value ESME_RREPLACEFAIL = 0x13"
| "CommandStatus_value ESME_RMSGQFUL = 0x14"
| "CommandStatus_value ESME_RINVSERTYP = 0x15"
| "CommandStatus_value ESME_RINVNUMDESTS = 0x33"
| "CommandStatus_value ESME_RINVDLNAME = 0x34"
| "CommandStatus_value ESME_RINVDESTFLAG = 0x40"
| "CommandStatus_value ESME_RINVSUBREP = 0x42"
| "CommandStatus_value ESME_RINVESMCLASS = 0x43"
| "CommandStatus_value ESME_RCNTSUBDL = 0x44"
| "CommandStatus_value ESME_RSUBMITFAIL = 0x45"
| "CommandStatus_value ESME_RINVSRCTON = 0x48"
| "CommandStatus_value ESME_RINVSRCNPI = 0x49"
| "CommandStatus_value ESME_RINVDSTTON = 0x50"
| "CommandStatus_value ESME_RINVDSTNPI = 0x51"
| "CommandStatus_value ESME_RINVSYSTYP = 0x53"
| "CommandStatus_value ESME_RINVREPFLAG = 0x54"
| "CommandStatus_value ESME_RINVNUMMSGS = 0x55"
| "CommandStatus_value ESME_RTHROTTLED = 0x58"
| "CommandStatus_value ESME_RINVSCHED = 0x61"
| "CommandStatus_value ESME_RINVEXPIRY = 0x62"
| "CommandStatus_value ESME_RINVDFTMSGID = 0x63"
| "CommandStatus_value ESME_RX_T_APPN = 0x64"
| "CommandStatus_value ESME_RX_P_APPN = 0x65"
| "CommandStatus_value ESME_RX_R_APPN = 0x66"
| "CommandStatus_value ESME_RQUERYFAIL = 0x67"
| "CommandStatus_value ESME_RINVOPTPARSTREAM = 0xc0"
| "CommandStatus_value ESME_ROPTPARNOTALLWD = 0xc1"
| "CommandStatus_value ESME_RINVPARLEN = 0xc2"
| "CommandStatus_value ESME_RMISSINGOPTPARAM = 0xc3"
| "CommandStatus_value ESME_RINVOPTPARAMVAL = 0xc4"
| "CommandStatus_value ESME_RDELIVERYFAILURE = 0xfe"
| "CommandStatus_value ESME_RUNKNOWNERR = 0xff"

definition CommandStatus_members :: "CommandStatus list" where
  "CommandStatus_members =
     [ESME_ROK, ESME_RINVMSGLEN, ESME_RINVCMDLEN, ESME_RINVCMDID, ESME_RINVBNDSTS, ESME_RALYBND,
      ESME_RINVPRTFLG, ESME_RINVREGDLVFLG, ESME_RSYSERR, ESME_RINVSRCADR, ESME_RINVDSTADR,
      ESME_RINVMSGID, ESME_RBINDFAIL, ESME_RINVPASWD, ESME_RINVSYSID, ESME_RCANCELFAIL,
      ESME_RREPLACEFAIL, ESME_RMSGQFUL, ESME_RINVSERTYP, ESME_RINVNUMDESTS, ESME_RINVDLNAME,
      ESME_RINVDESTFLAG, ESME_RINVSUBREP, ESME_RINVESMCLASS, ESME_RCNTSUBDL, ESME_RSUBMITFAIL,
      ESME_RINVSRCTON, ESME_RINVSRCNPI, ESME_RINVDSTTON, ESME_RINVDSTNPI, ESME_RINVSYSTYP,
      ESME_RINVREPFLAG, ESME_RINVNUMMSGS, ESME_RTHROTTLED, ESME_RINVSCHED, ESME_RINVEXPIRY,
      ESME_RINVDFTMSGID, ESME_RX_T_APPN, ESME_RX_P_APPN, ESME_RX_R_APPN, ESME_RQUERYFAIL,
      ESME_RINVOPTPARSTREAM, ESME_ROPTPARNOTALLWD, ESME_RINVPARLEN, ESME_RMISSINGOPTPARAM,
      ESME_RINVOPTPARAMVAL, ESME_RDELIVERYFAILURE, ESME_RUNKNOWNERR]"

definition CommandStatus_of :: "int \<Rightarrow> CommandStatus result" where
  "CommandStatus_of = enum_lookup CommandStatus_value CommandStatus_members"

interpretation CommandStatus: enumeration CommandStatus_value CommandStatus_members
proof unfold_locales
  show "x \<in> set CommandStatus_members" for x by (cases x) (simp_all add: CommandStatus_members_def)
  show "distinct (map CommandStatus_value CommandStatus_members)" by (simp add: CommandStatus_members_def)
qed

lemma CommandStatus_of_value [simp]: "CommandStatus_of (CommandStatus_value x) = Ok x"
  by (simp add: CommandStatus_of_def CommandStatus.of_value)

datatype BindType = BindType_TRANSMITTER | BindType_RECEIVER | BindType_TRANSCEIVER

datatype (plugins only: code size) NumericPlanIndicator =
    NumericPlanIndicator_UNKNOWN | NumericPlanIndicator_ISDN | NumericPlanIndicator_DATA |
    NumericPlanIndicator_TELEX | NumericPlanIndicator_LAND_MOBILE | NumericPlanIndicator_NATIONAL |
    NumericPlanIndicator_PRIVATE | NumericPlanIndicator_ERMES | NumericPlanIndicator_INTERNET |
    NumericPlanIndicator_WAP_CLIENT_ID

fun NumericPlanIndicator_value :: "NumericPlanIndicator \<Rightarrow> int" where
  "NumericPlanIndicator_value NumericPlanIndicator_UNKNOWN = 0"
| "NumericPlanIndicator_value NumericPlanIndicator_ISDN = 1"
| "NumericPlanIndicator_value NumericPlanIndicator_DATA = 3"
| "NumericPlanIndicator_value NumericPlanIndicator_TELEX = 4"
| "NumericPlanIndicator_value NumericPlanIndicator_LAND_MOBILE = 6"
| "NumericPlanIndicator_value NumericPlanIndicator_NATIONAL = 8"
| "NumericPlanIndicator_value NumericPlanIndicator_PRIVATE = 9"
| "NumericPlanIndicator_value NumericPlanIndicator_ERMES = 10"
| "NumericPlanIndicator_value NumericPlanIndicator_INTERNET = 14"
| "NumericPlanIndicator_value NumericPlanIndicator_WAP_CLIENT_ID = 18"

definition NumericPlanIndicator_members :: "NumericPlanIndicator list" where
  "NumericPlanIndicator_members =
     [NumericPlanIndicator_UNKNOWN, NumericPlanIndicator_ISDN, NumericPlanIndicator_DATA,
      NumericPlanIndicator_TELEX, NumericPlanIndicator_LAND_MOBILE, NumericPlanIndicator_NATIONAL,
      NumericPlanIndicator_PRIVATE, NumericPlanIndicator_ERMES, NumericPlanIndicator_INTERNET,
      NumericPlanIndicator_WAP_CLIENT_ID]"

definition NumericPlanIndicator_of :: "int \<Rightarrow> NumericPlanIndicator result" where
  "NumericPlanIndicator_of = enum_lookup NumericPlanIndicator_value NumericPlanIndicator_members"

interpretation NumericPlanIndicator: enumeration NumericPlanIndicator_value NumericPlanIndicator_members
proof unfold_locales
  show "x \<in> set NumericPlanIndicator_members" for x by (cases x) (simp_all add: NumericPlanIndicator_members_def)
  show "distinct (map NumericPlanIndicator_value NumericPlanIndicator_members)" by (simp add: NumericPlanIndicator_members_def)
qed

lemma NumericPlanIndicator_of_value [simp]: "NumericPlanIndicator_of (NumericPlanIndicator_value x) = Ok x"
  by (simp add: NumericPlanIndicator_of_def NumericPlanIndicator.of_value)

datatype (plugins only: code size) MessagingMode =
    MessagingMode_DEFAULT | MessagingMode_DATAGRAM | MessagingMode_FORWARD |
    MessagingMode_STORE_AND_FORWARD

fun MessagingMode_value :: "MessagingMode \<Rightarrow> int" where
  "MessagingMode_value MessagingMode_DEFAULT = 0"
| "MessagingMode_value MessagingMode_DATAGRAM = 1"
| "MessagingMode_value MessagingMode_FORWARD = 2"
| "MessagingMode_value MessagingMode_STORE_AND_FORWARD = 3"

definition MessagingMode_members :: "MessagingMode list" where
  "MessagingMode_members =
     [MessagingMode_DEFAULT, MessagingMode_DATAGRAM, MessagingMode_FORWARD,
      MessagingMode_STORE_AND_FORWARD]"

definition MessagingMode_of :: "int \<Rightarrow> MessagingMode result" where
  "MessagingMode_of = enum_lookup MessagingMode_value MessagingMode_members"

interpretation MessagingMode: enumeration MessagingMode_value MessagingMode_members
proof unfold_locales
  show "x \<in> set MessagingMode_members" for x by (cases x) (simp_all add: MessagingMode_members_def)
  show "distinct (map MessagingMode_value MessagingMode_members)" by (simp add: MessagingMode_members_def)
qed

lemma MessagingMode_of_value [simp]: "MessagingMode_of (MessagingMode_value x) = Ok x"
  by (simp add: MessagingMode_of_def MessagingMode.of_value)

datatype (plugins only: code size) MessageType =
    MessageType_DEFAULT | MessageType_DELIVERY_RECEIPT | MessageType_DELIVERY_ACKNOWLEDGEMENT |
    MessageType_MANUAL_ACKNOWLEDGEMENT | MessageType_CONVERSATION_ABORT |
    MessageType_INTERMEDIATE_DELIVERY_NOTIFICATION

fun MessageType_value :: "MessageType \<Rightarrow> int" where
  "MessageType_value MessageType_DEFAULT = 0"
| "MessageType_value MessageType_DELIVERY_RECEIPT = 1"
| "MessageType_value MessageType_DELIVERY_ACKNOWLEDGEMENT = 2"
| "MessageType_value MessageType_MANUAL_ACKNOWLEDGEMENT = 4"
| "MessageType_value MessageType_CONVERSATION_ABORT = 6"
| "MessageType_value MessageType_INTERMEDIATE_DELIVERY_NOTIFICATION = 8"

definition MessageType_members :: "MessageType list" where
  "MessageType_members =
     [MessageType_DEFAULT, MessageType_DELIVERY_RECEIPT, MessageType_DELIVERY_ACKNOWLEDGEMENT,
      MessageType_MANUAL_ACKNOWLEDGEMENT, MessageType_CONVERSATION_ABORT,
      MessageType_INTERMEDIATE_DELIVERY_NOTIFICATION]"

definition MessageType_of :: "int \<Rightarrow> MessageType result" where
  "MessageType_of = enum_lookup MessageType_value MessageType_members"

interpretation MessageType: enumeration MessageType_value MessageType_members
proof unfold_locales
  show "x \<in> set MessageType_members" for x by (cases x) (simp_all add: MessageType_members_def)
  show "distinct (map MessageType_value MessageType_members)" by (simp add: MessageType_members_def)
qed

lemma MessageType_of_value [simp]: "MessageType_of (MessageType_value x) = Ok x"
  by (simp add: MessageType_of_def MessageType.of_value)

datatype (plugins only: code size) GsmFeature =
    GsmFeature_UDHI | GsmFeature_REPLY_PATH

fun GsmFeature_value :: "GsmFeature \<Rightarrow> int" where
  "GsmFeature_value GsmFeature_UDHI = 1"
| "GsmFeature_value GsmFeature_REPLY_PATH = 2"

definition GsmFeature_members :: "GsmFeature list" where
  "GsmFeature_members =
     [GsmFeature_UDHI, GsmFeature_REPLY_PATH]"

definition GsmFeature_of :: "int \<Rightarrow> GsmFeature result" where
  "GsmFeature_of = enum_lookup GsmFeature_value GsmFeature_members"

interpretation GsmFeature: enumeration GsmFeature_value GsmFeature_members
proof unfold_locales
  show "x \<in> set GsmFeature_members" for x by (cases x) (simp_all add: GsmFeature_members_def)
  show "distinct (map GsmFeature_value GsmFeature_members)" by (simp add: GsmFeature_members_def)
qed

lemma GsmFeature_of_value [simp]: "GsmFeature_of (GsmFeature_value x) = Ok x"
  by (simp add: GsmFeature_of_def GsmFeature.of_value)

datatype (plugins only: code size) DeliveryReceipt =
    DeliveryReceipt_NO_RECEIPT | DeliveryReceipt_RECEIPT | DeliveryReceipt_RECEIPT_ON_FAILURE

fun DeliveryReceipt_value :: "DeliveryReceipt \<Rightarrow> int" where
  "DeliveryReceipt_value DeliveryReceipt_NO_RECEIPT = 0"
| "DeliveryReceipt_value DeliveryReceipt_RECEIPT = 1"
| "DeliveryReceipt_value DeliveryReceipt_RECEIPT_ON_FAILURE = 2"

definition DeliveryReceipt_members :: "DeliveryReceipt list" where
  "DeliveryReceipt_members =
     [DeliveryReceipt_NO_RECEIPT, DeliveryReceipt_RECEIPT, DeliveryReceipt_RECEIPT_ON_FAILURE]"

definition DeliveryReceipt_of :: "int \<Rightarrow> DeliveryReceipt result" where
  "DeliveryReceipt_of = enum_lookup DeliveryReceipt_value DeliveryReceipt_members"

interpretation DeliveryReceipt: enumeration DeliveryReceipt_value DeliveryReceipt_members
proof unfold_locales
  show "x \<in> set DeliveryReceipt_members" for x by (cases x) (simp_all add: DeliveryReceipt_members_def)
  show "distinct (map DeliveryReceipt_value DeliveryReceipt_members)" by (simp add: DeliveryReceipt_members_def)
qed

lemma DeliveryReceipt_of_value [simp]: "DeliveryReceipt_of (DeliveryReceipt_value x) = Ok x"
  by (simp add: DeliveryReceipt_of_def DeliveryReceipt.of_value)

datatype (plugins only: code size) Acknowledgement =
    Acknowledgement_DELIVERY | Acknowledgement_MANUAL

fun Acknowledgement_value :: "Acknowledgement \<Rightarrow> int" where
  "Acknowledgement_value Acknowledgement_DELIVERY = 1"
| "Acknowledgement_value Acknowledgement_MANUAL = 2"

definition Acknowledgement_members :: "Acknowledgement list" where
  "Acknowledgement_members =
     [Acknowledgement_DELIVERY, Acknowledgement_MANUAL]"

definition Acknowledgement_of :: "int \<Rightarrow> Acknowledgement result" where
  "Acknowledgement_of = enum_lookup Acknowledgement_value Acknowledgement_members"

interpretation Acknowledgement: enumeration Acknowledgement_value Acknowledgement_members
proof unfold_locales
  show "x \<in> set Acknowledgement_members" for x by (cases x) (simp_all add: Acknowledgement_members_def)
  show "distinct (map Acknowledgement_value Acknowledgement_members)" by (simp add: Acknowledgement_members_def)
qed

lemma Acknowledgement_of_value [simp]: "Acknowledgement_of (Acknowledgement_value x) = Ok x"
  by (simp add: Acknowledgement_of_def Acknowledgement.of_value)

datatype (plugins only: code size) Subunit =
    Subunit_UNKNOWN | Subunit_MS_DISPLAY | Subunit_MOBILE_EQUIPMENT | Subunit_SMART_CARD |
    Subunit_EXTERNAL_UNIT

fun Subunit_value :: "Subunit \<Rightarrow> int" where
  "Subunit_value Subunit_UNKNOWN = 0"
| "Subunit_value Subunit_MS_DISPLAY = 1"
| "Subunit_value Subunit_MOBILE_EQUIPMENT = 2"
| "Subunit_value Subunit_SMART_CARD = 3"
| "Subunit_value Subunit_EXTERNAL_UNIT = 4"

definition Subunit_members :: "Subunit list" where
  "Subunit_members =
     [Subunit_UNKNOWN, Subunit_MS_DISPLAY, Subunit_MOBILE_EQUIPMENT, Subunit_SMART_CARD,
      Subunit_EXTERNAL_UNIT]"

definition Subunit_of :: "int \<Rightarrow> Subunit result" where
  "Subunit_of = enum_lookup Subunit_value Subunit_members"

interpretation Subunit: enumeration Subunit_value Subunit_members
proof unfold_locales
  show "x \<in> set Subunit_members" for x by (cases x) (simp_all add: Subunit_members_def)
  show "distinct (map Subunit_value Subunit_members)" by (simp add: Subunit_members_def)
qed

lemma Subunit_of_value [simp]: "Subunit_of (Subunit_value x) = Ok x"
  by (simp add: Subunit_of_def Subunit.of_value)

datatype (plugins only: code size) NetworkType =
    NetworkType_UNKNOWN | NetworkType_GSM | NetworkType_TDMA | NetworkType_CDMA | NetworkType_PDC |
    NetworkType_PHS | NetworkType_IDEN | NetworkType_AMPS | NetworkType_PAGING_NETWORK

fun NetworkType_value :: "NetworkType \<Rightarrow> int" where
  "NetworkType_value NetworkType_UNKNOWN = 0"
| "NetworkType_value NetworkType_GSM = 1"
| "NetworkType_value NetworkType_TDMA = 2"
| "NetworkType_value NetworkType_CDMA = 3"
| "NetworkType_value NetworkType_PDC = 4"
| "NetworkType_value NetworkType_PHS = 5"
| "NetworkType_value NetworkType_IDEN = 6"
| "NetworkType_value NetworkType_AMPS = 7"
| "NetworkType_value NetworkType_PAGING_NETWORK = 8"

definition NetworkType_members :: "NetworkType list" where
  "NetworkType_members =
     [NetworkType_UNKNOWN, NetworkType_GSM, NetworkType_TDMA, NetworkType_CDMA, NetworkType_PDC,
      NetworkType_PHS, NetworkType_IDEN, NetworkType_AMPS, NetworkType_PAGING_NETWORK]"

definition NetworkType_of :: "int \<Rightarrow> NetworkType result" where
  "NetworkType_of = enum_lookup NetworkType_value NetworkType_members"

interpretation NetworkType: enumeration NetworkType_value NetworkType_members
proof unfold_locales
  show "x \<in> set NetworkType_members" for x by (cases x) (simp_all add: NetworkType_members_def)
  show "distinct (map NetworkType_value NetworkType_members)" by (simp add: NetworkType_members_def)
qed

lemma NetworkType_of_value [simp]: "NetworkType_of (NetworkType_value x) = Ok x"
  by (simp add: NetworkType_of_def NetworkType.of_value)

datatype (plugins only: code size) BearerType =
    BearerType_UNKNOWN | BearerType_SMS | BearerType_CSD | BearerType_PACKET_DATA | BearerType_USSD |
    BearerType_CDPD | BearerType_DATATAC | BearerType_FLEX | BearerType_CELL_BROADCAST

fun BearerType_value :: "BearerType \<Rightarrow> int" where
  "BearerType_value BearerType_UNKNOWN = 0"
| "BearerType_value BearerType_SMS = 1"
| "BearerType_value BearerType_CSD = 2"
| "BearerType_value BearerType_PACKET_DATA = 3"
| "BearerType_value BearerType_USSD = 4"
| "BearerType_value BearerType_CDPD = 5"
| "BearerType_value BearerType_DATATAC = 6"
| "BearerType_value BearerType_FLEX = 7"
| "BearerType_value BearerType_CELL_BROADCAST = 8"

definition BearerType_members :: "BearerType list" where
  "BearerType_members =
     [BearerType_UNKNOWN, BearerType_SMS, BearerType_CSD, BearerType_PACKET_DATA, BearerType_USSD,
      BearerType_CDPD, BearerType_DATATAC, BearerType_FLEX, BearerType_CELL_BROADCAST]"

definition BearerType_of :: "int \<Rightarrow> BearerType result" where
  "BearerType_of = enum_lookup BearerType_value BearerType_members"

interpretation BearerType: enumeration BearerType_value BearerType_members
proof unfold_locales
  show "x \<in> set BearerType_members" for x by (cases x) (simp_all add: BearerType_members_def)
  show "distinct (map BearerType_value BearerType_members)" by (simp add: BearerType_members_def)
qed

lemma BearerType_of_value [simp]: "BearerType_of (BearerType_value x) = Ok x"
  by (simp add: BearerType_of_def BearerType.of_value)

datatype (plugins only: code size) MessageWaitingIndicator =
    MessageWaitingIndicator_VOICEMAIL | MessageWaitingIndicator_FAX |
    MessageWaitingIndicator_ELECTRONICE_MAIL | MessageWaitingIndicator_OTHER

fun MessageWaitingIndicator_value :: "MessageWaitingIndicator \<Rightarrow> int" where
  "MessageWaitingIndicator_value MessageWaitingIndicator_VOICEMAIL = 0"
| "MessageWaitingIndicator_value MessageWaitingIndicator_FAX = 1"
| "MessageWaitingIndicator_value MessageWaitingIndicator_ELECTRONICE_MAIL = 2"
| "MessageWaitingIndicator_value MessageWaitingIndicator_OTHER = 3"

definition MessageWaitingIndicator_members :: "MessageWaitingIndicator list" where
  "MessageWaitingIndicator_members =
     [MessageWaitingIndicator_VOICEMAIL, MessageWaitingIndicator_FAX,
      MessageWaitingIndicator_ELECTRONICE_MAIL, MessageWaitingIndicator_OTHER]"

definition MessageWaitingIndicator_of :: "int \<Rightarrow> MessageWaitingIndicator result" where
  "MessageWaitingIndicator_of = enum_lookup MessageWaitingIndicator_value MessageWaitingIndicator_members"

interpretation MessageWaitingIndicator: enumeration MessageWaitingIndicator_value MessageWaitingIndicator_members
proof unfold_locales
  show "x \<in> set MessageWaitingIndicator_members" for x by (cases x) (simp_all add: MessageWaitingIndicator_members_def)
  show "distinct (map MessageWaitingIndicator_value MessageWaitingIndicator_members)" by (simp add: MessageWaitingIndicator_members_def)
qed

lemma MessageWaitingIndicator_of_value [simp]: "MessageWaitingIndicator_of (MessageWaitingIndicator_value x) = Ok x"
  by (simp add: MessageWaitingIndicator_of_def MessageWaitingIndicator.of_value)

datatype (plugins only: code size) SubaddressType =
    SubaddressType_NSAP_EVEN | SubaddressType_NSAP_ODD | SubaddressType_USER

fun SubaddressType_value :: "SubaddressType \<Rightarrow> int" where
  "SubaddressType_value SubaddressType_NSAP_EVEN = 0x80"
| "SubaddressType_value SubaddressType_NSAP_ODD = 0x88"
| "SubaddressType_value SubaddressType_USER = 0xa0"

definition SubaddressType_members :: "SubaddressType list" where
  "SubaddressType_members =
     [SubaddressType_NSAP_EVEN, SubaddressType_NSAP_ODD, SubaddressType_USER]"

definition SubaddressType_of :: "int \<Rightarrow> SubaddressType result" where
  "SubaddressType_of = enum_lookup SubaddressType_value SubaddressType_members"

interpretation SubaddressType: enumeration SubaddressType_value SubaddressType_members
proof unfold_locales
  show "x \<in> set SubaddressType_members" for x by (cases x) (simp_all add: SubaddressType_members_def)
  show "distinct (map SubaddressType_value SubaddressType_members)" by (simp add: SubaddressType_members_def)
qed

lemma SubaddressType_of_value [simp]: "SubaddressType_of (SubaddressType_value x) = Ok x"
  by (simp add: SubaddressType_of_def SubaddressType.of_value)

datatype (plugins only: code size) OptionalParamTag =
    Tag_DEST_ADDR_SUBUNIT | Tag_DEST_NETWORK_TYPE | Tag_DEST_BEARER_TYPE | Tag_DEST_TELEMATICS_ID |
    Tag_SOURCE_ADDR_SUBUNIT | Tag_SOURCE_NETWORK_TYPE | Tag_SOURCE_BEARER_TYPE |
    Tag_SOURCE_TELEMATICS_ID | Tag_QOS_TIME_TO_LIVE | Tag_PAYLOAD_TYPE |
    Tag_ADDITIONAL_STATUS_INFO_TEXT | Tag_RECEIPTED_MESSAGE_ID | Tag_MS_MSG_WAIT_FACILITIES |
    Tag_PRIVACY_INDICATOR | Tag_SOURCE_SUBADDRESS | Tag_DEST_SUBADDRESS | Tag_USER_MESSAGE_REFERENCE |
    Tag_USER_RESPONSE_CODE | Tag_SOURCE_PORT | Tag_DESTINATION_PORT | Tag_SAR_MSG_REF_NUM |
    Tag_LANGUAGE_INDICATOR | Tag_SAR_TOTAL_SEGMENTS | Tag_SAR_SEGMENT_SEQNUM |
    Tag_SC_INTERFACE_VERSION | Tag_CALLBACK_NUM_PRES_IND | Tag_CALLBACK_NUM_ATAG |
    Tag_NUMBER_OF_MESSAGES | Tag_CALLBACK_NUM | Tag_DPF_RESULT | Tag_SET_DPF |
    Tag_MS_AVAILABILITY_STATUS | Tag_NETWORK_ERROR_CODE | Tag_MESSAGE_PAYLOAD |
    Tag_DELIVERY_FAILURE_REASON | Tag_MORE_MESSAGES_TO_SEND | Tag_MESSAGE_STATE | Tag_USSD_SERVICE_OP |
    Tag_DISPLAY_TIME | Tag_SMS_SIGNAL | Tag_MS_VALIDITY | Tag_ALERT_ON_MESSAGE_DELIVERY |
    Tag_ITS_REPLY_TYPE | Tag_ITS_SESSION_INFO

fun OptionalParamTag_value :: "OptionalParamTag \<Rightarrow> int" where
  "OptionalParamTag_value Tag_DEST_ADDR_SUBUNIT = 0x0005"
| "OptionalParamTag_value Tag_DEST_NETWORK_TYPE = 0x0006"
| "OptionalParamTag_value Tag_DEST_BEARER_TYPE = 0x0007"
| "OptionalParamTag_value Tag_DEST_TELEMATICS_ID = 0x0008"
| "OptionalParamTag_value Tag_SOURCE_ADDR_SUBUNIT = 0x000d"
| "OptionalParamTag_value Tag_SOURCE_NETWORK_TYPE = 0x000e"
| "OptionalParamTag_value Tag_SOURCE_BEARER_TYPE = 0x000f"
| "OptionalParamTag_value Tag_SOURCE_TELEMATICS_ID = 0x0010"
| "OptionalParamTag_value Tag_QOS_TIME_TO_LIVE = 0x0017"
| "OptionalParamTag_value Tag_PAYLOAD_TYPE = 0x0019"
| "OptionalParamTag_value Tag_ADDITIONAL_STATUS_INFO_TEXT = 0x001d"
| "OptionalParamTag_value Tag_RECEIPTED_MESSAGE_ID = 0x001e"
| "OptionalParamTag_value Tag_MS_MSG_WAIT_FACILITIES = 0x0030"
| "OptionalParamTag_value Tag_PRIVACY_INDICATOR = 0x0201"
| "OptionalParamTag_value Tag_SOURCE_SUBADDRESS = 0x0202"
| "OptionalParamTag_value Tag_DEST_SUBADDRESS = 0x0203"
| "OptionalParamTag_value Tag_USER_MESSAGE_REFERENCE = 0x0204"
| "OptionalParamTag_value Tag_USER_RESPONSE_CODE = 0x0205"
| "OptionalParamTag_value Tag_SOURCE_PORT = 0x020a"
| "OptionalParamTag_value Tag_DESTINATION_PORT = 0x020b"
| "OptionalParamTag_value Tag_SAR_MSG_REF_NUM = 0x020c"
| "OptionalParamTag_value Tag_LANGUAGE_INDICATOR = 0x020d"
| "OptionalParamTag_value Tag_SAR_TOTAL_SEGMENTS = 0x020e"
| "OptionalParamTag_value Tag_SAR_SEGMENT_SEQNUM = 0x020f"
| "OptionalParamTag_value Tag_SC_INTERFACE_VERSION = 0x0210"
| "OptionalParamTag_value Tag_CALLBACK_NUM_PRES_IND = 0x0302"
| "OptionalParamTag_value Tag_CALLBACK_NUM_ATAG = 0x0303"
| "OptionalParamTag_value Tag_NUMBER_OF_MESSAGES = 0x0304"
| "OptionalParamTag_value Tag_CALLBACK_NUM = 0x0381"
| "OptionalParamTag_value Tag_DPF_RESULT = 0x0420"
| "OptionalParamTag_value Tag_SET_DPF = 0x0421"
| "OptionalParamTag_value Tag_MS_AVAILABILITY_STATUS = 0x0422"
| "OptionalParamTag_value Tag_NETWORK_ERROR_CODE = 0x0423"
| "OptionalParamTag_value Tag_MESSAGE_PAYLOAD = 0x0424"
| "OptionalParamTag_value Tag_DELIVERY_FAILURE_REASON = 0x0425"
| "OptionalParamTag_value Tag_MORE_MESSAGES_TO_SEND = 0x0426"
| "OptionalParamTag_value Tag_MESSAGE_STATE = 0x0427"
| "OptionalParamTag_value Tag_USSD_SERVICE_OP = 0x0501"
| "OptionalParamTag_value Tag_DISPLAY_TIME = 0x1201"
| "OptionalParamTag_value Tag_SMS_SIGNAL = 0x1203"
| "OptionalParamTag_value Tag_MS_VALIDITY = 0x1204"
| "OptionalParamTag_value Tag_ALERT_ON_MESSAGE_DELIVERY = 0x130c"
| "OptionalParamTag_value Tag_ITS_REPLY_TYPE = 0x1380"
| "OptionalParamTag_value Tag_ITS_SESSION_INFO = 0x1383"

definition OptionalParamTag_members :: "OptionalParamTag list" where
  "OptionalParamTag_members =
     [Tag_DEST_ADDR_SUBUNIT, Tag_DEST_NETWORK_TYPE, Tag_DEST_BEARER_TYPE, Tag_DEST_TELEMATICS_ID,
      Tag_SOURCE_ADDR_SUBUNIT, Tag_SOURCE_NETWORK_TYPE, Tag_SOURCE_BEARER_TYPE, Tag_SOURCE_TELEMATICS_ID,
      Tag_QOS_TIME_TO_LIVE, Tag_PAYLOAD_TYPE, Tag_ADDITIONAL_STATUS_INFO_TEXT, Tag_RECEIPTED_MESSAGE_ID,
      Tag_MS_MSG_WAIT_FACILITIES, Tag_PRIVACY_INDICATOR, Tag_SOURCE_SUBADDRESS, Tag_DEST_SUBADDRESS,
      Tag_USER_MESSAGE_REFERENCE, Tag_USER_RESPONSE_CODE, Tag_SOURCE_PORT, Tag_DESTINATION_PORT,
      Tag_SAR_MSG_REF_NUM, Tag_LANGUAGE_INDICATOR, Tag_SAR_TOTAL_SEGMENTS, Tag_SAR_SEGMENT_SEQNUM,
      Tag_SC_INTERFACE_VERSION, Tag_CALLBACK_NUM_PRES_IND, Tag_CALLBACK_NUM_ATAG, Tag_NUMBER_OF_MESSAGES,
      Tag_CALLBACK_NUM, Tag_DPF_RESULT, Tag_SET_DPF, Tag_MS_AVAILABILITY_STATUS, Tag_NETWORK_ERROR_CODE,
      Tag_MESSAGE_PAYLOAD, Tag_DELIVERY_FAILURE_REASON, Tag_MORE_MESSAGES_TO_SEND, Tag_MESSAGE_STATE,
      Tag_USSD_SERVICE_OP, Tag_DISPLAY_TIME, Tag_SMS_SIGNAL, Tag_MS_VALIDITY,
      Tag_ALERT_ON_MESSAGE_DELIVERY, Tag_ITS_REPLY_TYPE, Tag_ITS_SESSION_INFO]"

definition OptionalParamTag_of :: "int \<Rightarrow> OptionalParamTag result" where
  "OptionalParamTag_of = enum_lookup OptionalParamTag_value OptionalParamTag_members"

interpretation OptionalParamTag: enumeration OptionalParamTag_value OptionalParamTag_members
proof unfold_locales
  show "x \<in> set OptionalParamTag_members" for x by (cases x) (simp_all add: OptionalParamTag_members_def)
  show "distinct (map OptionalParamTag_value OptionalParamTag_members)" by (simp add: OptionalParamTag_members_def)
qed

lemma OptionalParamTag_of_value [simp]: "OptionalParamTag_of (OptionalParamTag_value x) = Ok x"
  by (simp add: OptionalParamTag_of_def OptionalParamTag.of_value)

datatype (plugins only: code size) PayloadType =
    PayloadType_DEFAULT | PayloadType_WCMP

fun PayloadType_value :: "PayloadType \<Rightarrow> int" where
  "PayloadType_value PayloadType_DEFAULT = 0"
| "PayloadType_value PayloadType_WCMP = 1"

definition PayloadType_members :: "PayloadType list" where
  "PayloadType_members =
     [PayloadType_DEFAULT, PayloadType_WCMP]"

definition PayloadType_of :: "int \<Rightarrow> PayloadType result" where
  "PayloadType_of = enum_lookup PayloadType_value PayloadType_members"

interpretation PayloadType: enumeration PayloadType_value PayloadType_members
proof unfold_locales
  show "x \<in> set PayloadType_members" for x by (cases x) (simp_all add: PayloadType_members_def)
  show "distinct (map PayloadType_value PayloadType_members)" by (simp add: PayloadType_members_def)
qed

lemma PayloadType_of_value [simp]: "PayloadType_of (PayloadType_value x) = Ok x"
  by (simp add: PayloadType_of_def PayloadType.of_value)

datatype (plugins only: code size) PrivacyIndicator =
    PrivacyIndicator_NOT_RESTRICTED | PrivacyIndicator_RESTRICTED | PrivacyIndicator_CONFIDENTAL |
    PrivacyIndicator_SECRET

fun PrivacyIndicator_value :: "PrivacyIndicator \<Rightarrow> int" where
  "PrivacyIndicator_value PrivacyIndicator_NOT_RESTRICTED = 0"
| "PrivacyIndicator_value PrivacyIndicator_RESTRICTED = 1"
| "PrivacyIndicator_value PrivacyIndicator_CONFIDENTAL = 2"
| "PrivacyIndicator_value PrivacyIndicator_SECRET = 3"

definition PrivacyIndicator_members :: "PrivacyIndicator list" where
  "PrivacyIndicator_members =
     [PrivacyIndicator_NOT_RESTRICTED, PrivacyIndicator_RESTRICTED, PrivacyIndicator_CONFIDENTAL,
      PrivacyIndicator_SECRET]"

definition PrivacyIndicator_of :: "int \<Rightarrow> PrivacyIndicator result" where
  "PrivacyIndicator_of = enum_lookup PrivacyIndicator_value PrivacyIndicator_members"

interpretation PrivacyIndicator: enumeration PrivacyIndicator_value PrivacyIndicator_members
proof unfold_locales
  show "x \<in> set PrivacyIndicator_members" for x by (cases x) (simp_all add: PrivacyIndicator_members_def)
  show "distinct (map PrivacyIndicator_value PrivacyIndicator_members)" by (simp add: PrivacyIndicator_members_def)
qed

lemma PrivacyIndicator_of_value [simp]: "PrivacyIndicator_of (PrivacyIndicator_value x) = Ok x"
  by (simp add: PrivacyIndicator_of_def PrivacyIndicator.of_value)

datatype (plugins only: code size) MsAvailabilityStatus =
    MsAvailabilityStatus_AVAILABLE | MsAvailabilityStatus_DENIED | MsAvailabilityStatus_UNAVAILABLE

fun MsAvailabilityStatus_value :: "MsAvailabilityStatus \<Rightarrow> int" where
  "MsAvailabilityStatus_value MsAvailabilityStatus_AVAILABLE = 0"
| "MsAvailabilityStatus_value MsAvailabilityStatus_DENIED = 1"
| "MsAvailabilityStatus_value MsAvailabilityStatus_UNAVAILABLE = 2"

definition MsAvailabilityStatus_members :: "MsAvailabilityStatus list" where
  "MsAvailabilityStatus_members =
     [MsAvailabilityStatus_AVAILABLE, MsAvailabilityStatus_DENIED, MsAvailabilityStatus_UNAVAILABLE]"

definition MsAvailabilityStatus_of :: "int \<Rightarrow> MsAvailabilityStatus result" where
  "MsAvailabilityStatus_of = enum_lookup MsAvailabilityStatus_value MsAvailabilityStatus_members"

interpretation MsAvailabilityStatus: enumeration MsAvailabilityStatus_value MsAvailabilityStatus_members
proof unfold_locales
  show "x \<in> set MsAvailabilityStatus_members" for x by (cases x) (simp_all add: MsAvailabilityStatus_members_def)
  show "distinct (map MsAvailabilityStatus_value MsAvailabilityStatus_members)" by (simp add: MsAvailabilityStatus_members_def)
qed

lemma MsAvailabilityStatus_of_value [simp]: "MsAvailabilityStatus_of (MsAvailabilityStatus_value x) = Ok x"
  by (simp add: MsAvailabilityStatus_of_def MsAvailabilityStatus.of_value)

datatype (plugins only: code size) DeliveryFailureReason =
    DeliveryFailureReason_DESTINATION_UNAVAILABLE | DeliveryFailureReason_DESTINATION_ADDRESS_INVALID |
    DeliveryFailureReason_PERMANENT_NETWORK_ERROR | DeliveryFailureReason_TEMPORARY_NETWORK_ERROR

fun DeliveryFailureReason_value :: "DeliveryFailureReason \<Rightarrow> int" where
  "DeliveryFailureReason_value DeliveryFailureReason_DESTINATION_UNAVAILABLE = 0"
| "DeliveryFailureReason_value DeliveryFailureReason_DESTINATION_ADDRESS_INVALID = 1"
| "DeliveryFailureReason_value DeliveryFailureReason_PERMANENT_NETWORK_ERROR = 2"
| "DeliveryFailureReason_value DeliveryFailureReason_TEMPORARY_NETWORK_ERROR = 3"

definition DeliveryFailureReason_members :: "DeliveryFailureReason list" where
  "DeliveryFailureReason_members =
     [DeliveryFailureReason_DESTINATION_UNAVAILABLE, DeliveryFailureReason_DESTINATION_ADDRESS_INVALID,
      DeliveryFailureReason_PERMANENT_NETWORK_ERROR, DeliveryFailureReason_TEMPORARY_NETWORK_ERROR]"

definition DeliveryFailureReason_of :: "int \<Rightarrow> DeliveryFailureReason result" where
  "DeliveryFailureReason_of = enum_lookup DeliveryFailureReason_value DeliveryFailureReason_members"

interpretation DeliveryFailureReason: enumeration DeliveryFailureReason_value DeliveryFailureReason_members
proof unfold_locales
  show "x \<in> set DeliveryFailureReason_members" for x by (cases x) (simp_all add: DeliveryFailureReason_members_def)
  show "distinct (map DeliveryFailureReason_value DeliveryFailureReason_members)" by (simp add: DeliveryFailureReason_members_def)
qed

lemma DeliveryFailureReason_of_value [simp]: "DeliveryFailureReason_of (DeliveryFailureReason_value x) = Ok x"
  by (simp add: DeliveryFailureReason_of_def DeliveryFailureReason.of_value)

datatype (plugins only: code size) MessageState =
    MessageState_ENROUTE | MessageState_DELIVERED | MessageState_EXPIRED | MessageState_DELETED |
    MessageState_UNDELIVERABLE | MessageState_ACCEPTED | MessageState_UNKNOWN | MessageState_REJECTED

fun MessageState_value :: "MessageState \<Rightarrow> int" where
  "MessageState_value MessageState_ENROUTE = 1"
| "MessageState_value MessageState_DELIVERED = 2"
| "MessageState_value MessageState_EXPIRED = 3"
| "MessageState_value MessageState_DELETED = 4"
| "MessageState_value MessageState_UNDELIVERABLE = 5"
| "MessageState_value MessageState_ACCEPTED = 6"
| "MessageState_value MessageState_UNKNOWN = 7"
| "MessageState_value MessageState_REJECTED = 8"

definition MessageState_members :: "MessageState list" where
  "MessageState_members =
     [MessageState_ENROUTE, MessageState_DELIVERED, MessageState_EXPIRED, MessageState_DELETED,
      MessageState_UNDELIVERABLE, MessageState_ACCEPTED, MessageState_UNKNOWN, MessageState_REJECTED]"

definition MessageState_of :: "int \<Rightarrow> MessageState result" where
  "MessageState_of = enum_lookup MessageState_value MessageState_members"

interpretation MessageState: enumeration MessageState_value MessageState_members
proof unfold_locales
  show "x \<in> set MessageState_members" for x by (cases x) (simp_all add: MessageState_members_def)
  show "distinct (map MessageState_value MessageState_members)" by (simp add: MessageState_members_def)
qed

lemma MessageState_of_value [simp]: "MessageState_of (MessageState_value x) = Ok x"
  by (simp add: MessageState_of_def MessageState.of_value)

datatype (plugins only: code size) DisplayTime =
    DisplayTime_TEMPORARY | DisplayTime_DEFAULT | DisplayTime_INVOKE

fun DisplayTime_value :: "DisplayTime \<Rightarrow> int" where
  "DisplayTime_value DisplayTime_TEMPORARY = 0"
| "DisplayTime_value DisplayTime_DEFAULT = 1"
| "DisplayTime_value DisplayTime_INVOKE = 2"

definition DisplayTime_members :: "DisplayTime list" where
  "DisplayTime_members =
     [DisplayTime_TEMPORARY, DisplayTime_DEFAULT, DisplayTime_INVOKE]"

definition DisplayTime_of :: "int \<Rightarrow> DisplayTime result" where
  "DisplayTime_of = enum_lookup DisplayTime_value DisplayTime_members"

interpretation DisplayTime: enumeration DisplayTime_value DisplayTime_members
proof unfold_locales
  show "x \<in> set DisplayTime_members" for x by (cases x) (simp_all add: DisplayTime_members_def)
  show "distinct (map DisplayTime_value DisplayTime_members)" by (simp add: DisplayTime_members_def)
qed

lemma DisplayTime_of_value [simp]: "DisplayTime_of (DisplayTime_value x) = Ok x"
  by (simp add: DisplayTime_of_def DisplayTime.of_value)

datatype (plugins only: code size) MsValidity =
    MsValidity_STORE_INDEFINITELY | MsValidity_POWER_DOWN | MsValidity_REGISTRATION_AREA |
    MsValidity_DISPLAY_ONLY

fun MsValidity_value :: "MsValidity \<Rightarrow> int" where
  "MsValidity_value MsValidity_STORE_INDEFINITELY = 0"
| "MsValidity_value MsValidity_POWER_DOWN = 1"
| "MsValidity_value MsValidity_REGISTRATION_AREA = 2"
| "MsValidity_value MsValidity_DISPLAY_ONLY = 3"

definition MsValidity_members :: "MsValidity list" where
  "MsValidity_members =
     [MsValidity_STORE_INDEFINITELY, MsValidity_POWER_DOWN, MsValidity_REGISTRATION_AREA,
      MsValidity_DISPLAY_ONLY]"

definition MsValidity_of :: "int \<Rightarrow> MsValidity result" where
  "MsValidity_of = enum_lookup MsValidity_value MsValidity_members"

interpretation MsValidity: enumeration MsValidity_value MsValidity_members
proof unfold_locales
  show "x \<in> set MsValidity_members" for x by (cases x) (simp_all add: MsValidity_members_def)
  show "distinct (map MsValidity_value MsValidity_members)" by (simp add: MsValidity_members_def)
qed

lemma MsValidity_of_value [simp]: "MsValidity_of (MsValidity_value x) = Ok x"
  by (simp add: MsValidity_of_def MsValidity.of_value)

datatype (plugins only: code size) ItsReplyType =
    ItsReplyType_DIGIT | ItsReplyType_NUMBER | ItsReplyType_TELEPHONE_NUMBER | ItsReplyType_PASSWORD |
    ItsReplyType_CHARACTER_LINE | ItsReplyType_MENU | ItsReplyType_DATE | ItsReplyType_TIME |
    ItsReplyType_CONTINUE

fun ItsReplyType_value :: "ItsReplyType \<Rightarrow> int" where
  "ItsReplyType_value ItsReplyType_DIGIT = 0"
| "ItsReplyType_value ItsReplyType_NUMBER = 1"
| "ItsReplyType_value ItsReplyType_TELEPHONE_NUMBER = 2"
| "ItsReplyType_value ItsReplyType_PASSWORD = 3"
| "ItsReplyType_value ItsReplyType_CHARACTER_LINE = 4"
| "ItsReplyType_value ItsReplyType_MENU = 5"
| "ItsReplyType_value ItsReplyType_DATE = 6"
| "ItsReplyType_value ItsReplyType_TIME = 7"
| "ItsReplyType_value ItsReplyType_CONTINUE = 8"

definition ItsReplyType_members :: "ItsReplyType list" where
  "ItsReplyType_members =
     [ItsReplyType_DIGIT, ItsReplyType_NUMBER, ItsReplyType_TELEPHONE_NUMBER, ItsReplyType_PASSWORD,
      ItsReplyType_CHARACTER_LINE, ItsReplyType_MENU, ItsReplyType_DATE, ItsReplyType_TIME,
      ItsReplyType_CONTINUE]"

definition ItsReplyType_of :: "int \<Rightarrow> ItsReplyType result" where
  "ItsReplyType_of = enum_lookup ItsReplyType_value ItsReplyType_members"

interpretation ItsReplyType: enumeration ItsReplyType_value ItsReplyType_members
proof unfold_locales
  show "x \<in> set ItsReplyType_members" for x by (cases x) (simp_all add: ItsReplyType_members_def)
  show "distinct (map ItsReplyType_value ItsReplyType_members)" by (simp add: ItsReplyType_members_def)
qed

lemma ItsReplyType_of_value [simp]: "ItsReplyType_of (ItsReplyType_value x) = Ok x"
  by (simp add: ItsReplyType_of_def ItsReplyType.of_value)

datatype (plugins only: code size) CommandId =
    CommandId_GENERIC_NACK | CommandId_BIND_RECEIVER_REQ | CommandId_BIND_RECEIVER_RESP |
    CommandId_BIND_TRANSMITTER_REQ | CommandId_BIND_TRANSMITTER_RESP | CommandId_QUERY_SM_REQ |
    CommandId_QUERY_SM_RESP | CommandId_SUBMIT_SM_REQ | CommandId_SUBMIT_SM_RESP |
    CommandId_DELIVER_SM_REQ | CommandId_DELIVER_SM_RESP | CommandId_UNBIND_REQ |
    CommandId_UNBIND_RESP | CommandId_REPLACE_SM_REQ | CommandId_REPLACE_SM_RESP |
    CommandId_CANCEL_SM_REQ | CommandId_CANCEL_SM_RESP | CommandId_BIND_TRANSCEIVER_REQ |
    CommandId_BIND_TRANSCEIVER_RESP | CommandId_OUTBIND | CommandId_ENQUIRE_LINK_REQ |
    CommandId_ENQUIRE_LINK_RESP | CommandId_SUBMIT_MULTI_REQ | CommandId_SUBMIT_MULTI_RESP |
    CommandId_ALERT_NOTIFICATION | CommandId_DATA_SM_REQ | CommandId_DATA_SM_RESP

fun CommandId_value :: "CommandId \<Rightarrow> int" where
  "CommandId_value CommandId_GENERIC_NACK = 0x80000000"
| "CommandId_value CommandId_BIND_RECEIVER_REQ = 0x00000001"
| "CommandId_value CommandId_BIND_RECEIVER_RESP = 0x80000001"
| "CommandId_value CommandId_BIND_TRANSMITTER_REQ = 0x00000002"
| "CommandId_value CommandId_BIND_TRANSMITTER_RESP = 0x80000002"
| "CommandId_value CommandId_QUERY_SM_REQ = 0x00000003"
| "CommandId_value CommandId_QUERY_SM_RESP = 0x80000003"
| "CommandId_value CommandId_SUBMIT_SM_REQ = 0x00000004"
| "CommandId_value CommandId_SUBMIT_SM_RESP = 0x80000004"
| "CommandId_value CommandId_DELIVER_SM_REQ = 0x00000005"
| "CommandId_value CommandId_DELIVER_SM_RESP = 0x80000005"
| "CommandId_value CommandId_UNBIND_REQ = 0x00000006"
| "CommandId_value CommandId_UNBIND_RESP = 0x80000006"
| "CommandId_value CommandId_REPLACE_SM_REQ = 0x00000007"
| "CommandId_value CommandId_REPLACE_SM_RESP = 0x80000007"
| "CommandId_value CommandId_CANCEL_SM_REQ = 0x00000008"
| "CommandId_value CommandId_CANCEL_SM_RESP = 0x80000008"
| "CommandId_value CommandId_BIND_TRANSCEIVER_REQ = 0x00000009"
| "CommandId_value CommandId_BIND_TRANSCEIVER_RESP = 0x80000009"
| "CommandId_value CommandId_OUTBIND = 0x0000000b"
| "CommandId_value CommandId_ENQUIRE_LINK_REQ = 0x00000015"
| "CommandId_value CommandId_ENQUIRE_LINK_RESP = 0x80000015"
| "CommandId_value CommandId_SUBMIT_MULTI_REQ = 0x00000021"
| "CommandId_value CommandId_SUBMIT_MULTI_RESP = 0x80000021"
| "CommandId_value CommandId_ALERT_NOTIFICATION = 0x00000102"
| "CommandId_value CommandId_DATA_SM_REQ = 0x00000103"
| "CommandId_value CommandId_DATA_SM_RESP = 0x80000103"

definition CommandId_members :: "CommandId list" where
  "CommandId_members =
     [CommandId_GENERIC_NACK, CommandId_BIND_RECEIVER_REQ, CommandId_BIND_RECEIVER_RESP,
      CommandId_BIND_TRANSMITTER_REQ, CommandId_BIND_TRANSMITTER_RESP, CommandId_QUERY_SM_REQ,
      CommandId_QUERY_SM_RESP, CommandId_SUBMIT_SM_REQ, CommandId_SUBMIT_SM_RESP,
      CommandId_DELIVER_SM_REQ, CommandId_DELIVER_SM_RESP, CommandId_UNBIND_REQ, CommandId_UNBIND_RESP,
      CommandId_REPLACE_SM_REQ, CommandId_REPLACE_SM_RESP, CommandId_CANCEL_SM_REQ,
      CommandId_CANCEL_SM_RESP, CommandId_BIND_TRANSCEIVER_REQ, CommandId_BIND_TRANSCEIVER_RESP,
      CommandId_OUTBIND, CommandId_ENQUIRE_LINK_REQ, CommandId_ENQUIRE_LINK_RESP,
      CommandId_SUBMIT_MULTI_REQ, CommandId_SUBMIT_MULTI_RESP, CommandId_ALERT_NOTIFICATION,
      CommandId_DATA_SM_REQ, CommandId_DATA_SM_RESP]"

definition CommandId_of :: "int \<Rightarrow> CommandId result" where
  "CommandId_of = enum_lookup CommandId_value CommandId_members"

interpretation CommandId: enumeration CommandId_value CommandId_members
proof unfold_locales
  show "x \<in> set CommandId_members" for x by (cases x) (simp_all add: CommandId_members_def)
  show "distinct (map CommandId_value CommandId_members)" by (simp add: CommandId_members_def)
qed

lemma CommandId_of_value [simp]: "CommandId_of (CommandId_value x) = Ok x"
  by (simp add: CommandId_of_def CommandId.of_value)

section \<open>Values\<close>

record EsmClass =
  esm_messaging_mode :: MessagingMode
  esm_message_type :: MessageType
  esm_gsm_features :: "GsmFeature set"

record DateTime =
  dt_year :: int
  dt_month :: int
  dt_day :: int
  dt_hour :: int
  dt_minute :: int
  dt_second :: int
  dt_microsecond :: int
  dt_utcoffset :: "int option"

record RelativeTime =
  rel_years :: int
  rel_months :: int
  rel_days :: int
  rel_hours :: int
  rel_minutes :: int
  rel_seconds :: pyfloat

datatype SmppTime = Absolute DateTime | Relative RelativeTime

record RegisteredDelivery =
  reg_delivery_receipt :: DeliveryReceipt
  reg_acknowledgements :: "Acknowledgement set"
  reg_intermediate_notification :: bool

record Subaddress =
  subaddress_type :: SubaddressType
  subaddress_value :: bytes

record MsMsgWaitFacilities =
  wait_active :: bool
  wait_indicator :: MessageWaitingIndicator

record NetworkErrorCode =
  network_network_type :: int
  network_error_code :: int

record ItsSessionInfo =
  its_session_number :: int
  its_sequence_number :: int
  its_end_of_session :: bool

text \<open>
  The value of an optional parameter: Python's type tells apart the enumerations, integers, text,
  bytes, truth values and tuples.
\<close>

datatype OptionalParamValue =
    SubunitVal Subunit | NetworkTypeVal NetworkType | BearerTypeVal BearerType | IntVal int | PayloadTypeVal PayloadType
  | StrVal pystr | BytesVal bytes | WaitFacilitiesVal MsMsgWaitFacilities | PrivacyIndicatorVal PrivacyIndicator
  | SubaddressVal Subaddress | BoolVal bool | MsAvailabilityStatusVal MsAvailabilityStatus | NetworkErrorCodeVal NetworkErrorCode
  | DeliveryFailureReasonVal DeliveryFailureReason | MessageStateVal MessageState | DisplayTimeVal DisplayTime
  | MsValidityVal MsValidity | EmptyTuple | ItsReplyTypeVal ItsReplyType | ItsSessionInfoVal ItsSessionInfo

type_synonym OptionalParams = "(OptionalParamTag \<times> OptionalParamValue) list"

section \<open>Requests, responses, notifications\<close>

record BindReq =
  bind_bind_type :: BindType
  bind_system_id :: pystr
  bind_password :: pystr
  bind_system_type :: pystr
  bind_interface_version :: int
  bind_addr_ton :: TypeOfNumber
  bind_addr_npi :: NumericPlanIndicator
  bind_address_range :: pystr

record SubmitSmReq =
  submit_service_type :: pystr
  submit_source_addr_ton :: TypeOfNumber
  submit_source_addr_npi :: NumericPlanIndicator
  submit_source_addr :: pystr
  submit_dest_addr_ton :: TypeOfNumber
  submit_dest_addr_npi :: NumericPlanIndicator
  submit_destination_addr :: pystr
  submit_esm_class :: EsmClass
  submit_protocol_id :: int
  submit_priority_flag :: Priority
  submit_schedule_delivery_time :: "SmppTime option"
  submit_validity_period :: "SmppTime option"
  submit_registered_delivery :: RegisteredDelivery
  submit_replace_if_present_flag :: bool
  submit_data_coding :: DataCoding
  submit_sm_default_msg_id :: int
  submit_short_message :: bytes
  submit_optional_params :: OptionalParams

record DeliverSmReq =
  deliver_service_type :: pystr
  deliver_source_addr_ton :: TypeOfNumber
  deliver_source_addr_npi :: NumericPlanIndicator
  deliver_source_addr :: pystr
  deliver_dest_addr_ton :: TypeOfNumber
  deliver_dest_addr_npi :: NumericPlanIndicator
  deliver_destination_addr :: pystr
  deliver_esm_class :: EsmClass
  deliver_protocol_id :: int
  deliver_priority_flag :: Priority
  deliver_registered_delivery :: RegisteredDelivery
  deliver_data_coding :: DataCoding
  deliver_short_message :: bytes
  deliver_optional_params :: OptionalParams

record DataSmReq =
  datasm_service_type :: pystr
  datasm_source_addr_ton :: TypeOfNumber
  datasm_source_addr_npi :: NumericPlanIndicator
  datasm_source_addr :: pystr
  datasm_dest_addr_ton :: TypeOfNumber
  datasm_dest_addr_npi :: NumericPlanIndicator
  datasm_destination_addr :: pystr
  datasm_esm_class :: EsmClass
  datasm_registered_delivery :: RegisteredDelivery
  datasm_data_coding :: DataCoding
  datasm_optional_params :: OptionalParams

record QuerySmReq =
  query_message_id :: bytes
  query_source_addr_ton :: TypeOfNumber
  query_source_addr_npi :: NumericPlanIndicator
  query_source_addr :: pystr

record CancelSmReq =
  cancel_service_type :: pystr
  cancel_message_id :: bytes
  cancel_source_addr_ton :: TypeOfNumber
  cancel_source_addr_npi :: NumericPlanIndicator
  cancel_source_addr :: pystr
  cancel_dest_addr_ton :: TypeOfNumber
  cancel_dest_addr_npi :: NumericPlanIndicator
  cancel_destination_addr :: pystr

record ReplaceSmReq =
  replace_message_id :: bytes
  replace_source_addr_ton :: TypeOfNumber
  replace_source_addr_npi :: NumericPlanIndicator
  replace_source_addr :: pystr
  replace_schedule_delivery_time :: "SmppTime option"
  replace_validity_period :: "SmppTime option"
  replace_registered_delivery :: RegisteredDelivery
  replace_sm_default_msg_id :: int
  replace_short_message :: bytes

datatype SmppRequest =
    Req_Bind BindReq | Req_Unbind | Req_SubmitSm SubmitSmReq | Req_SubmitMulti | Req_DeliverSm DeliverSmReq
  | Req_DataSm DataSmReq | Req_QuerySm QuerySmReq | Req_CancelSm CancelSmReq | Req_ReplaceSm ReplaceSmReq | Req_EnquireLink

record BindRes =
  bindres_bind_type :: BindType
  bindres_system_id :: pystr
  bindres_optional_params :: OptionalParams

record SubmitSmRes =
  submitres_message_id :: bytes

record DataSmRes =
  datares_message_id :: bytes
  datares_optional_params :: OptionalParams

record QuerySmRes =
  queryres_message_id :: bytes
  queryres_final_date :: "SmppTime option"
  queryres_message_state :: MessageState
  queryres_error_code :: int

datatype SmppResponse =
    Res_Bind BindRes | Res_Unbind | Res_SubmitSm SubmitSmRes | Res_SubmitMulti | Res_DeliverSm
  | Res_DataSm DataSmRes | Res_QuerySm QuerySmRes | Res_CancelSm | Res_ReplaceSm | Res_EnquireLink

record OutbindNotification =
  outbind_system_id :: pystr
  outbind_password :: pystr

record AlertNotification =
  alert_source_addr_ton :: TypeOfNumber
  alert_source_addr_npi :: NumericPlanIndicator
  alert_source_addr :: pystr
  alert_esme_addr_ton :: TypeOfNumber
  alert_esme_addr_npi :: NumericPlanIndicator
  alert_esme_addr :: pystr
  alert_optional_params :: OptionalParams

datatype Notification = Outbind OutbindNotification | Alert AlertNotification

datatype Body = BodyReq SmppRequest | BodyRes SmppResponse | BodyNotify Notification

record Header =
  header_command_length :: int
  header_command_id :: CommandId
  header_command_status :: CommandStatus
  header_sequence_number :: int

end
