(* ===== verification/Smpp_Time.thy ===== *)
theory Smpp_Time
  imports Py_Text Smpp_Common Py_Struct Reads
begin

text \<open>
  Text and times of \<^verbatim>\<open>smpp/transport/encoder.py\<close>: strings that end with a zero, and their use for times.
  The generators of the code give their values to \<open>bytes\<close> one by one, which checks each.
\<close>

section \<open>Text\<close>

definition yield_byte :: "int \<Rightarrow> int list result" where
  "yield_byte n = (if is_byte n then Ok [n] else Raise (ValueError ''bytes must be in range(0, 256)''))"

definition encode_ascii :: "pystr \<Rightarrow> int list result" where
  "encode_ascii s = concatE (\<lambda>c. if 0 \<le> c \<and> c < 128 then Ok [c] else Raise UnicodeError) s"

definition decode_ascii :: "bytes \<Rightarrow> pystr result" where
  "decode_ascii data = (if list_ex (\<lambda>b. 128 \<le> uint b) data then Raise UnicodeError else Ok (map uint data))"

text \<open>\<open>i = 0; while data[i] != 0: i += 1\<close>\<close>

fun zero_index :: "bytes \<Rightarrow> nat result" where
  "zero_index [] = Raise IndexError"
| "zero_index (b # bs) = (if b = 0 then Ok 0 else bindE (zero_index bs) (\<lambda>i. Ok (Suc i)))"

definition decode_cstring :: "bytes \<Rightarrow> (pystr \<times> bytes) result" where
  "decode_cstring data =
     bindE (zero_index data) (\<lambda>i. bindE (decode_ascii (take i data)) (\<lambda>s. Ok (s, drop (i + 1) data)))"

definition encode_cstring :: "pystr \<Rightarrow> int list result" where
  "encode_cstring s = appendE (encode_ascii s) (Ok [0])"

definition decode_cbytes :: "bytes \<Rightarrow> (bytes \<times> bytes) result" where
  "decode_cbytes data = bindE (zero_index data) (\<lambda>i. Ok (take i data, drop (i + 1) data))"

definition encode_cbytes :: "bytes \<Rightarrow> int list result" where
  "encode_cbytes bs = Ok (map uint bs @ [0])"

text \<open>Text without the character that ends it, and without those that are not in ASCII.\<close>

definition cstr_ok :: "pystr \<Rightarrow> bool" where
  "cstr_ok s \<longleftrightarrow> list_all (\<lambda>c. 0 < c \<and> c < 128) s"

definition cbytes_ok :: "bytes \<Rightarrow> bool" where
  "cbytes_ok bs \<longleftrightarrow> 0 \<notin> set bs"

lemma zero_index_wire: "0 \<notin> set bs \<Longrightarrow> zero_index (bs @ 0 # rest) = Ok (length bs)"
  by (induction bs) auto

lemma reads_cbytes: "cbytes_ok bs \<Longrightarrow> reads (encode_cbytes bs) decode_cbytes bs"
  by (simp add: reads_def encode_cbytes_def decode_cbytes_def cbytes_ok_def zero_index_wire is_byte_def)

lemma encode_ascii_ok: "cstr_ok s \<Longrightarrow> encode_ascii s = Ok s"
  by (induction s) (simp_all add: encode_ascii_def cstr_ok_def)

lemma word_of_ascii: "0 < c \<Longrightarrow> c < 128 \<Longrightarrow> uint (word_of_int c :: byte) = c \<and> (word_of_int c :: byte) \<noteq> 0"
  using uint_of_byte [of c] by (auto simp: is_byte_def)

lemma cstr_wire:
  assumes "cstr_ok s"
  shows "0 \<notin> set (wire s)" "decode_ascii (wire s) = Ok s" "all_bytes s"
  using assms by (induction s) (auto simp: cstr_ok_def decode_ascii_def word_of_ascii is_byte_def split: if_splits)

lemma reads_cstring: "cstr_ok s \<Longrightarrow> reads (encode_cstring s) decode_cstring s"
  by (simp add: reads_def encode_cstring_def decode_cstring_def encode_ascii_ok zero_index_wire cstr_wire is_byte_def)

section \<open>Times\<close>

definition leap_year :: "int \<Rightarrow> bool" where
  "leap_year y \<longleftrightarrow> y mod 4 = 0 \<and> (y mod 100 \<noteq> 0 \<or> y mod 400 = 0)"

definition days_in_month :: "int \<Rightarrow> int \<Rightarrow> int" where
  "days_in_month y m = (if m = 2 then (if leap_year y then 29 else 28) else if m \<in> {4, 6, 9, 11} then 30 else 31)"

text \<open>What the constructors of datetime and timezone accept: an offset is less than a day.\<close>

definition valid_datetime :: "DateTime \<Rightarrow> bool" where
  "valid_datetime dt \<longleftrightarrow>
     1 \<le> dt_year dt \<and> dt_year dt \<le> 9999 \<and> 1 \<le> dt_month dt \<and> dt_month dt \<le> 12 \<and>
     1 \<le> dt_day dt \<and> dt_day dt \<le> days_in_month (dt_year dt) (dt_month dt) \<and>
     0 \<le> dt_hour dt \<and> dt_hour dt < 24 \<and> 0 \<le> dt_minute dt \<and> dt_minute dt < 60 \<and>
     0 \<le> dt_second dt \<and> dt_second dt < 60 \<and> 0 \<le> dt_microsecond dt \<and> dt_microsecond dt < 1000000 \<and>
     (case dt_utcoffset dt of None \<Rightarrow> True | Some off \<Rightarrow> \<bar>off\<bar> < 86400000000)"

definition new_datetime :: "DateTime \<Rightarrow> DateTime result" where
  "new_datetime dt = (if valid_datetime dt then Ok dt else Raise (ValueError ''value out of range''))"

definition decode_smpp_time :: "bytes \<Rightarrow> (SmppTime option \<times> bytes) result" where
  "decode_smpp_time time_bytes =
     bindE (decode_cstring time_bytes) (\<lambda>(time_str, rest).
     if time_str = [] then Ok (None, rest)
     else if length time_str \<noteq> 16 then Raise (Exception ''invalid time string length'')
     else
       bindE (py_int_str (take 2 time_str)) (\<lambda>years.
       bindE (py_int_str (take 2 (drop 2 time_str))) (\<lambda>months.
       bindE (py_int_str (take 2 (drop 4 time_str))) (\<lambda>days.
       bindE (py_int_str (take 2 (drop 6 time_str))) (\<lambda>hours.
       bindE (py_int_str (take 2 (drop 8 time_str))) (\<lambda>mins.
       bindE (py_int_str (take 2 (drop 10 time_str))) (\<lambda>seconds.
       bindE (py_int_str [time_str ! 12]) (\<lambda>tenths.
       bindE (py_int_str (take 2 (drop 13 time_str))) (\<lambda>offset.
         let direction = time_str ! 15;
             absolute = (\<lambda>delta.
               bindE (new_datetime \<lparr>dt_year = 2000 + years, dt_month = months, dt_day = days, dt_hour = hours,
                   dt_minute = mins, dt_second = seconds, dt_microsecond = tenths * 100000, dt_utcoffset = Some delta\<rparr>)
                 (\<lambda>dt. Ok (Some (Absolute dt), rest)))
         in
           if direction = 0x52 then
             Ok (Some (Relative \<lparr>rel_years = years, rel_months = months, rel_days = days, rel_hours = hours,
                   rel_minutes = mins, rel_seconds = int_plus_float seconds (float_times (to_double (1 / 10)) tenths)\<rparr>), rest)
           else if direction = 0x2B then absolute (15 * offset * 60000000)
           else if direction = 0x2D then absolute (- 15 * offset * 60000000)
           else Raise (Exception ''invalid direction sign''))))))))))"

text \<open>
  \<open>local_offset\<close> gives the offset of a time without time zone, as \<open>astimezone\<close> finds it in the settings of
  the system.
\<close>

definition time_text :: "(DateTime \<Rightarrow> int result) \<Rightarrow> SmppTime option \<Rightarrow> pystr result" where
  "time_text local_offset time =
     (case time of
        None \<Rightarrow> Ok []
      | Some (Relative t) \<Rightarrow>
          bindE (py_int (rel_seconds t)) (\<lambda>seconds.
          bindE (py_round (float_times (rel_seconds t) 10)) (\<lambda>tenths.
            Ok (format_02 (rel_years t) @ format_02 (rel_months t) @ format_02 (rel_days t) @ format_02 (rel_hours t) @
                format_02 (rel_minutes t) @ format_02 seconds @ py_str_int (tenths mod 10) @ py_str ''00R'')))
      | Some (Absolute dt) \<Rightarrow>
          bindE (py_round (int_truediv (dt_microsecond dt) 100000)) (\<lambda>tenths.
          bindE (case dt_utcoffset dt of Some off \<Rightarrow> Ok off | None \<Rightarrow> local_offset dt) (\<lambda>off.
          bindE (py_round (float_over (float_over (int_truediv off 1000000) 60) 15)) (\<lambda>offset.
            Ok (format_02 (dt_year dt mod 100) @ format_02 (dt_month dt) @ format_02 (dt_day dt) @ format_02 (dt_hour dt) @
                format_02 (dt_minute dt) @ format_02 (dt_second dt) @ py_str_int tenths @ format_02 \<bar>offset\<bar> @
                (if offset < 0 then py_str ''-'' else py_str ''+''))))))"

definition encode_smpp_time :: "(DateTime \<Rightarrow> int result) \<Rightarrow> SmppTime option \<Rightarrow> int list result" where
  "encode_smpp_time local_offset time =
     bindE (time_text local_offset time) (\<lambda>time_str.
       if length time_str \<notin> {0, 16} then Raise (Exception ''invalid time string length'')
       else encode_cstring time_str)"

section \<open>Round trip of times\<close>

text \<open>
  Times of this century with tenths of seconds and an offset in quarters of an hour; and those of the
  values that the decoder gives for a relative time.
\<close>

definition absolute_ok :: "DateTime \<Rightarrow> bool" where
  "absolute_ok dt \<longleftrightarrow> valid_datetime dt \<and> 2000 \<le> dt_year dt \<and> dt_year dt \<le> 2099 \<and> dt_microsecond dt mod 100000 = 0 \<and>
     (case dt_utcoffset dt of None \<Rightarrow> False | Some off \<Rightarrow> off mod 900000000 = 0)"

definition two_ok :: "int \<Rightarrow> bool" where
  "two_ok n \<longleftrightarrow> 0 \<le> n \<and> n < 100"

definition seconds_of :: "int \<Rightarrow> int \<Rightarrow> pyfloat" where
  "seconds_of s t = int_plus_float s (float_times (to_double (1 / 10)) t)"

definition relative_ok :: "RelativeTime \<Rightarrow> bool" where
  "relative_ok t \<longleftrightarrow> two_ok (rel_years t) \<and> two_ok (rel_months t) \<and> two_ok (rel_days t) \<and> two_ok (rel_hours t) \<and>
     two_ok (rel_minutes t) \<and> (\<exists>s \<in> {0..99}. \<exists>d \<in> {0..9}. rel_seconds t = seconds_of s d)"

fun smpp_time_ok :: "SmppTime option \<Rightarrow> bool" where
  "smpp_time_ok None \<longleftrightarrow> True"
| "smpp_time_ok (Some (Absolute dt)) \<longleftrightarrow> absolute_ok dt"
| "smpp_time_ok (Some (Relative t)) \<longleftrightarrow> relative_ok t"

lemma cstr_ok_simps [simp]:
  "cstr_ok []" "cstr_ok (c # s) \<longleftrightarrow> 0 < c \<and> c < 128 \<and> cstr_ok s" "cstr_ok (s @ s') \<longleftrightarrow> cstr_ok s \<and> cstr_ok s'"
  by (simp_all add: cstr_ok_def)

lemma reads_time_text:
  assumes "time_text local_offset x = Ok s" "cstr_ok s"
    and "\<And>rest. decode_smpp_time (wire s @ 0 # rest) = Ok (x, rest)"
  shows "reads (encode_smpp_time local_offset x) decode_smpp_time x"
  using assms by (simp add: reads_def encode_smpp_time_def encode_cstring_def encode_ascii_ok cstr_wire is_byte_def)

lemma decode_time_text:
  assumes "cstr_ok s"
  shows "decode_cstring (wire s @ 0 # rest) = Ok (s, rest)"
  using readsD [OF reads_cstring [OF assms], of "s @ [0]" rest] assms by (simp add: encode_cstring_def encode_ascii_ok)

lemma pairs:
  assumes "0 \<le> n" "n < 100"
  shows "py_int_str [0x30 + n div 10, 0x30 + n mod 10] = Ok n"
  using two_digits [of "n div 10" "n mod 10"] assms by simp

text \<open>The characters of a time.\<close>

definition time_chars :: "int \<Rightarrow> int \<Rightarrow> int \<Rightarrow> int \<Rightarrow> int \<Rightarrow> int \<Rightarrow> int \<Rightarrow> int \<Rightarrow> int \<Rightarrow> pystr" where
  "time_chars y mo d h mi s t off dir =
     format_02 y @ format_02 mo @ format_02 d @ format_02 h @ format_02 mi @ format_02 s @ py_str_int t @ format_02 off @ [dir]"

lemma decode_time_chars:
  assumes "two_ok y" "two_ok mo" "two_ok d" "two_ok h" "two_ok mi" "two_ok s" "0 \<le> t" "t < 10" "two_ok off" "0 < dir" "dir < 128"
  shows "cstr_ok (time_chars y mo d h mi s t off dir)" "length (time_chars y mo d h mi s t off dir) = 16"
    "decode_smpp_time (wire (time_chars y mo d h mi s t off dir) @ 0 # rest) =
      (let absolute = (\<lambda>delta.
               bindE (new_datetime \<lparr>dt_year = 2000 + y, dt_month = mo, dt_day = d, dt_hour = h,
                   dt_minute = mi, dt_second = s, dt_microsecond = t * 100000, dt_utcoffset = Some delta\<rparr>)
                 (\<lambda>dt. Ok (Some (Absolute dt), rest)))
       in if dir = 0x52 then
             Ok (Some (Relative \<lparr>rel_years = y, rel_months = mo, rel_days = d, rel_hours = h,
                   rel_minutes = mi, rel_seconds = seconds_of s t\<rparr>), rest)
          else if dir = 0x2B then absolute (15 * off * 60000000)
          else if dir = 0x2D then absolute (- 15 * off * 60000000)
          else Raise (Exception ''invalid direction sign''))"
proof -
  have t: "py_str_int t = [0x30 + t]" using assms(7,8) by (simp add: py_str_int_def decimal.simps)
  have d2: "format_02 n = [0x30 + n div 10, 0x30 + n mod 10]" "py_int_str [0x30 + n div 10, 0x30 + n mod 10] = Ok n"
    "0 \<le> n div 10" "n div 10 < 10" "0 \<le> n mod 10" "n mod 10 < 10" if "two_ok n" for n
    using format_02_digits [of n] pairs [of n] that by (auto simp: two_ok_def)
  note pair = assms(1-6,9) [THEN d2(1)]
  have chars: "time_chars y mo d h mi s t off dir = [0x30 + y div 10, 0x30 + y mod 10, 0x30 + mo div 10, 0x30 + mo mod 10,
      0x30 + d div 10, 0x30 + d mod 10, 0x30 + h div 10, 0x30 + h mod 10, 0x30 + mi div 10, 0x30 + mi mod 10,
      0x30 + s div 10, 0x30 + s mod 10, 0x30 + t, 0x30 + off div 10, 0x30 + off mod 10, dir]"
    unfolding time_chars_def pair t by simp
  have digit: "0 < 0x30 + n div 10 \<and> 0x30 + n div 10 < 128 \<and> 0 < 0x30 + n mod 10 \<and> 0x30 + n mod 10 < 128" if "two_ok n" for n
    using d2(3-6) [OF that] by linarith
  show ok: "cstr_ok (time_chars y mo d h mi s t off dir)"
    unfolding chars using assms(1-6,9) [THEN digit] assms(7,8,10,11) by (simp only: cstr_ok_simps simp_thms) simp
  show "length (time_chars y mo d h mi s t off dir) = 16" unfolding chars by simp
  show "decode_smpp_time (wire (time_chars y mo d h mi s t off dir) @ 0 # rest) =
      (let absolute = (\<lambda>delta.
               bindE (new_datetime \<lparr>dt_year = 2000 + y, dt_month = mo, dt_day = d, dt_hour = h,
                   dt_minute = mi, dt_second = s, dt_microsecond = t * 100000, dt_utcoffset = Some delta\<rparr>)
                 (\<lambda>dt. Ok (Some (Absolute dt), rest)))
       in if dir = 0x52 then
             Ok (Some (Relative \<lparr>rel_years = y, rel_months = mo, rel_days = d, rel_hours = h,
                   rel_minutes = mi, rel_seconds = seconds_of s t\<rparr>), rest)
          else if dir = 0x2B then absolute (15 * off * 60000000)
          else if dir = 0x2D then absolute (- 15 * off * 60000000)
          else Raise (Exception ''invalid direction sign''))"
  proof -
    define p where "p = (\<lambda>n::int. 0x30 + n div 10)"
    define q where "q = (\<lambda>n::int. 0x30 + n mod 10)"
    define r where "r = (\<lambda>n::int. 0x30 + n)"
    note pq = p_def [THEN fun_cong, symmetric] q_def [THEN fun_cong, symmetric]
    have parse: "py_int_str [p n, q n] = Ok n" if "two_ok n" for n using d2(2) [OF that] by (simp add: p_def q_def)
    have one: "py_int_str [r t] = Ok t" using one_digit [OF assms(7,8)] by (simp add: r_def)
    have c: "time_chars y mo d h mi s t off dir = [p y, q y, p mo, q mo, p d, q d, p h, q h, p mi, q mi, p s, q s, r t,
        p off, q off, dir]" unfolding chars p_def q_def r_def ..
    show ?thesis
      unfolding decode_smpp_time_def decode_time_text [OF ok] bindE_simps prod.case
      unfolding c
      by (simp add: eval_nat_numeral parse [OF assms(1)] parse [OF assms(2)] parse [OF assms(3)] parse [OF assms(4)]
          parse [OF assms(5)] parse [OF assms(6)] parse [OF assms(9)] one seconds_of_def Let_def del: bindE_simps(1))
  qed
qed

text \<open>The seconds of a relative time are read back: the three roundings err by less than a tenth.\<close>

lemma seconds_of_near:
  assumes "0 \<le> s" "s \<le> 99" "0 \<le> t" "t \<le> 9"
  obtains x where "seconds_of s t = Finite x" "\<bar>x - (of_int s + of_int t / 10)\<bar> \<le> 1 / 2 ^ 33" "t = 0 \<Longrightarrow> x = of_int s"
proof -
  define a where "a = round_prec 53 (-1074) (1 / 10)"
  have a: "to_double (1 / 10) = Finite a" and a2: "\<bar>a - 1 / 10\<bar> \<le> 1 / 2 ^ 37" using to_double_small [of "1 / 10"] by (simp_all add: a_def)
  have tiny: "1 / 2 ^ 37 \<le> (1 / 100 :: rat)" by simp
  have a1: "\<bar>a - 1 / 10\<bar> \<le> 1 / 100" by (rule order_trans [OF a2 tiny])
  then have a0: "1 / 20 \<le> a" "0 \<le> a" "a \<le> 1" by linarith+
  have t: "0 \<le> (of_int t :: rat)" "(of_int t :: rat) \<le> 9" using assms(3,4) by simp_all
  then have at: "0 \<le> a * of_int t" "a * of_int t \<le> 9"
    using a0 mult_mono [of a 1 "of_int t" 9] by simp_all
  define b where "b = round_prec 53 (-1074) (a * of_int t)"
  have b: "to_double (a * of_int t) = Finite b" "\<bar>b - a * of_int t\<bar> \<le> 1 / 2 ^ 37"
    using to_double_small [of "a * of_int t"] at by (simp_all add: b_def)
  have s: "0 \<le> (of_int s :: rat)" "(of_int s :: rat) \<le> 99" using assms(1,2) by simp_all
  show thesis
  proof (cases "t = 0")
    case True
    then have "to_double (a * of_int t) = Finite 0" by (simp add: to_double_def round_prec_def Let_def)
    moreover have "to_double (of_int s) = Finite (of_int s)" using to_double_dyadic [of s 0] assms(1,2) by simp
    ultimately have "seconds_of s t = Finite (of_int s)" by (simp add: seconds_of_def a)
    with that [of "of_int s"] True show thesis by simp
  next
    case False
    with assms have t1: "1 \<le> (of_int t :: rat)" by simp
    with a0(1) have "1 / 20 * 1 \<le> a * of_int t" by (intro mult_mono) simp_all
    with order_trans [OF b(2) tiny] have b0: "0 \<le> b" "b \<le> 10" using at by linarith+
    define c where "c = round_prec 53 (-1074) (of_int s + b)"
    have c: "to_double (of_int s + b) = Finite c" "\<bar>c - (of_int s + b)\<bar> \<le> 1 / 2 ^ 37"
      using to_double_small [of "of_int s + b"] b0 s by (simp_all add: c_def)
    have "a * of_int t - of_int t / 10 = (a - 1 / 10) * of_int t" by (simp add: left_diff_distrib)
    then have "\<bar>a * of_int t - of_int t / 10\<bar> = \<bar>a - 1 / 10\<bar> * of_int t" using t by (simp only: abs_mult abs_of_nonneg)
    also have "\<dots> \<le> 1 / 2 ^ 37 * 9" using a2 t by (intro mult_mono) simp_all
    finally have "\<bar>c - (of_int s + of_int t / 10)\<bar> \<le> 1 / 2 ^ 37 * 11" using b(2) c(2) by linarith
    also have "\<dots> \<le> (1 / 2 ^ 33 :: rat)" by simp
    finally show thesis using that [of c] c(1) b(1) a False by (simp add: seconds_of_def)
  qed
qed

lemma seconds_of_text:
  assumes "0 \<le> s" "s \<le> 99" "0 \<le> t" "t \<le> 9"
  shows "py_int (seconds_of s t) = Ok s" "bindE (py_round (float_times (seconds_of s t) 10)) (\<lambda>n. Ok (n mod 10)) = Ok t"
proof -
  obtain x where x: "seconds_of s t = Finite x" "\<bar>x - (of_int s + of_int t / 10)\<bar> \<le> 1 / 2 ^ 33" "t = 0 \<Longrightarrow> x = of_int s"
    using seconds_of_near [OF assms] by blast
  have small: "1 / 2 ^ 33 \<le> (1 / 1000 :: rat)" "1 / 2 ^ 37 \<le> (1 / 1000 :: rat)" by simp_all
  note near = order_trans [OF x(2) small(1)]
  have s: "0 \<le> (of_int s :: rat)" "(of_int s :: rat) \<le> 99" and t: "0 \<le> (of_int t :: rat)" "(of_int t :: rat) \<le> 9"
    using assms by simp_all
  have "of_int s \<le> x \<and> x < of_int s + 1"
  proof (cases "t = 0")
    case False
    with assms have "1 \<le> (of_int t :: rat)" by simp
    with near t show ?thesis by linarith
  qed (use x(3) in simp)
  then have x0: "0 \<le> x" "\<lfloor>x\<rfloor> = s" "x \<le> 100" using s by (simp_all add: floor_unique)
  then show "py_int (seconds_of s t) = Ok s" by (simp add: x(1))
  define y where "y = round_prec 53 (-1074) (x * 10)"
  have y: "to_double (x * 10) = Finite y" "\<bar>y - x * 10\<bar> \<le> 1 / 2 ^ 37"
    using to_double_small [of "x * 10"] x0 by (simp_all add: y_def)
  have "\<bar>y - (of_int s * 10 + of_int t)\<bar> < 1 / 2" using near order_trans [OF y(2) small(2)] by linarith
  then have "\<bar>y - of_int (s * 10 + t)\<bar> < 1 / 2" by simp
  then have "round_half_even y = s * 10 + t" by (rule round_half_even_near)
  with x(1) y(1) assms(3,4) show "bindE (py_round (float_times (seconds_of s t) 10)) (\<lambda>n. Ok (n mod 10)) = Ok t" by simp
qed

lemma exact_quotient:
  assumes "\<bar>k\<bar> < 2 ^ 53" "d \<noteq> 0"
  shows "int_truediv (k * d) d = Finite (of_int k)" "float_over (Finite (of_int (k * d))) d = Finite (of_int k)"
  using to_double_dyadic [of k 0] assms by (simp_all add: int_truediv_def)

lemma reads_smpp_time:
  assumes "smpp_time_ok x"
  shows "reads (encode_smpp_time local_offset x) decode_smpp_time x"
proof (cases x)
  case None
  then show ?thesis
    by (intro reads_time_text [where s = "[]"])
      (simp_all add: time_text_def decode_smpp_time_def decode_time_text [of "[]", simplified])
next
  case (Some tm)
  show ?thesis
  proof (cases tm)
    case (Relative t)
    from assms Some Relative obtain s d where ok: "two_ok (rel_years t)" "two_ok (rel_months t)" "two_ok (rel_days t)"
        "two_ok (rel_hours t)" "two_ok (rel_minutes t)" "two_ok s" "0 \<le> d" "d < 10" "two_ok 0"
      and sd: "0 \<le> s" "s \<le> 99" "0 \<le> d" "d \<le> 9" and sec: "rel_seconds t = seconds_of s d"
      by (auto simp: relative_ok_def two_ok_def)
    from seconds_of_text [OF sd] obtain n where n: "py_round (float_times (seconds_of s d) 10) = Ok n" "n mod 10 = d"
      "py_int (seconds_of s d) = Ok s" by auto
    have zero: "format_02 0 @ [0x52] = py_str ''00R''" by (simp add: format_02_digits py_str_def)
    note chars = decode_time_chars [OF ok, of "0x52"]
    have "time_text local_offset x = Ok (time_chars (rel_years t) (rel_months t) (rel_days t) (rel_hours t) (rel_minutes t) s d 0 0x52)"
      by (simp add: Some Relative time_text_def sec n time_chars_def zero)
    then show ?thesis
      by (rule reads_time_text) (use chars in \<open>simp_all add: Some Relative sec [symmetric] Let_def\<close>)
  next
    case (Absolute dt)
    from assms Some Absolute obtain off where ok: "valid_datetime dt" "2000 \<le> dt_year dt" "dt_year dt \<le> 2099"
        "dt_microsecond dt mod 100000 = 0" "dt_utcoffset dt = Some off" "off mod 900000000 = 0"
      by (auto simp: absolute_ok_def split: option.splits)
    define t where "t = dt_microsecond dt div 100000"
    define k where "k = off div 900000000"
    have t: "dt_microsecond dt = t * 100000" "0 \<le> t" "t < 10"
      using ok(1,4) by (auto simp: t_def valid_datetime_def)
    have k: "off = k * 900000000" "\<bar>k\<bar> < 96" using ok(1,5,6) by (auto simp: k_def valid_datetime_def)
    have off: "off = k * 900 * 1000000" using k(1) by simp
    have v: "0 < dt_month dt" "dt_month dt \<le> 12" "0 < dt_day dt" "dt_day dt \<le> 31" "0 \<le> dt_hour dt" "dt_hour dt < 24"
      "0 \<le> dt_minute dt" "dt_minute dt < 60" "0 \<le> dt_second dt" "dt_second dt < 60"
      using ok(1) by (auto simp: valid_datetime_def days_in_month_def split: if_splits)
    let ?y = "dt_year dt mod 100"
    have y: "dt_year dt = 2000 + ?y" using ok(2,3) by presburger
    have two: "two_ok ?y" "two_ok (dt_month dt)" "two_ok (dt_day dt)" "two_ok (dt_hour dt)" "two_ok (dt_minute dt)"
      "two_ok (dt_second dt)" using v by (simp_all add: two_ok_def)
    have two_k: "two_ok \<bar>k\<bar>" using k(2) by (simp add: two_ok_def)
    have tenths: "int_truediv (dt_microsecond dt) 100000 = Finite (of_int t)"
      unfolding t(1) by (rule exact_quotient) (use t in simp_all)
    have "int_truediv off 1000000 = Finite (of_int (k * 900))"
      unfolding off by (rule exact_quotient) (use k in simp_all)
    moreover have "float_over (Finite (of_int (k * 900))) 60 = Finite (of_int (k * 15))"
      using exact_quotient(2) [of "k * 15" 60] k(2) by simp
    moreover have "float_over (Finite (of_int (k * 15))) 15 = Finite (of_int k)"
      using exact_quotient(2) [of k 15] k(2) by simp
    ultimately have offset: "float_over (float_over (int_truediv off 1000000) 60) 15 = Finite (of_int k)" by simp
    let ?dir = "if k < 0 then 0x2D else 0x2B :: int"
    have dir: "0 < ?dir" "?dir < 128" by simp_all
    note chars = decode_time_chars [OF two t(2,3) two_k dir]
    have "time_text local_offset x = Ok (time_chars ?y (dt_month dt) (dt_day dt) (dt_hour dt) (dt_minute dt) (dt_second dt) t \<bar>k\<bar> ?dir)"
      by (simp add: Some Absolute time_text_def tenths ok(5) offset time_chars_def py_str_def)
    moreover have "decode_smpp_time (wire (time_chars ?y (dt_month dt) (dt_day dt) (dt_hour dt) (dt_minute dt) (dt_second dt) t \<bar>k\<bar> ?dir)
        @ 0 # rest) = Ok (x, rest)" for rest
    proof -
      let ?dt = "\<lparr>dt_year = 2000 + ?y, dt_month = dt_month dt, dt_day = dt_day dt, dt_hour = dt_hour dt, dt_minute = dt_minute dt,
        dt_second = dt_second dt, dt_microsecond = t * 100000, dt_utcoffset = Some off\<rparr>"
      have "?dt = dt" using y t(1) ok(5) by (simp flip: y)
      then have new: "new_datetime ?dt = Ok dt" using ok(1) by (simp add: new_datetime_def)
      show ?thesis
      proof (cases "k < 0")
        case True
        then have "- 15 * \<bar>k\<bar> * 60000000 = off" using k(1) by simp
        with True chars(3) new show ?thesis by (simp add: Some Absolute Let_def)
      next
        case False
        then have "15 * \<bar>k\<bar> * 60000000 = off" using k(1) by simp
        with False chars(3) new show ?thesis by (simp add: Some Absolute Let_def)
      qed
    qed
    ultimately show ?thesis using chars(1) by (intro reads_time_text) simp_all
  qed
qed

section \<open>Where rounding goes wrong\<close>

lemma round_half_even_above:
  assumes "of_int n - 1 / 2 < x" "x < of_int n + 1 / 2"
  shows "round_half_even x = n"
  by (rule round_half_even_near) (use assms in linarith)

text \<open>The rounded number of quarters of an hour of an offset below a day.\<close>

definition moderate :: "pyfloat \<Rightarrow> bool" where
  "moderate y \<longleftrightarrow> y = NegZero \<or> (\<exists>z. y = Finite z \<and> \<bar>z\<bar> < 2 ^ 17)"

lemma to_double_moderate:
  assumes "\<bar>x\<bar> \<le> 100000" shows "moderate (to_double x)"
proof (cases "x < 0 \<and> round_prec 53 (-1074) x = 0")
  case True
  then show ?thesis by (simp add: to_double_def moderate_def)
next
  case False
  have "\<bar>x\<bar> < 2 ^ 17" using assms by simp
  note small = to_double_small [OF this] 
  have "\<not> x < 0 \<or> round_prec 53 (-1074) x \<noteq> 0" using False by blast
  note small = small [OF this]
  have "1 / 2 ^ 37 \<le> (1 :: rat)" by simp
  with small(2) assms have "\<bar>round_prec 53 (-1074) x\<bar> \<le> 100001" by linarith
  with small(1) show ?thesis by (simp add: moderate_def)
qed

lemma float_over_moderate:
  assumes "moderate y" "2 \<le> n" shows "moderate (float_over y n)"
proof (cases "y = NegZero")
  case False
  with assms(1) obtain z where z: "y = Finite z" "\<bar>z\<bar> < 2 ^ 17" by (auto simp: moderate_def)
  have n: "(2 :: rat) \<le> of_int n" using assms(2) by simp
  then have "\<bar>z / of_int n\<bar> = \<bar>z\<bar> / of_int n" by (simp add: abs_divide)
  also have "\<dots> \<le> \<bar>z\<bar> / 2" using n by (intro divide_left_mono) simp_all
  finally have "\<bar>z / of_int n\<bar> \<le> \<bar>z\<bar> / 2" .
  moreover have "\<bar>z\<bar> / 2 \<le> 100000" using z(2) by simp
  ultimately have "\<bar>z / of_int n\<bar> \<le> 100000" by (rule order_trans)
  then show ?thesis using to_double_moderate z(1) by simp
qed (simp add: moderate_def)

lemma offset_rounds:
  assumes "\<bar>off\<bar> < 86400000000"
  shows "\<exists>n. py_round (float_over (float_over (int_truediv off 1000000) 60) 15) = Ok n"
proof -
  have "\<bar>of_int off :: rat\<bar> < 86400000000" using assms by (metis of_int_abs of_int_less_iff of_int_numeral)
  then have "\<bar>of_int off / of_int 1000000 :: rat\<bar> \<le> 100000" by (simp add: abs_divide)
  then have "moderate (int_truediv off 1000000)" unfolding int_truediv_def by (rule to_double_moderate)
  then have "moderate (float_over (float_over (int_truediv off 1000000) 60) 15)" by (intro float_over_moderate) simp_all
  then show ?thesis by (auto simp: moderate_def)
qed

lemma decimal_not_Nil: "decimal k \<noteq> []"
  by (subst decimal.simps) simp

lemma format_02_length:
  assumes "0 \<le> n" shows "2 \<le> length (format_02 n)"
proof (cases "n < 10")
  case True
  with assms show ?thesis by (simp add: format_02_def py_str_int_def decimal.simps [of "nat n"])
next
  case False
  then have "\<not> nat n < 10" by simp
  then have "decimal (nat n) = decimal (nat n div 10) @ [0x30 + int (nat n mod 10)]" by (subst decimal.simps) simp
  moreover have "1 \<le> length (decimal (nat n div 10))" using decimal_not_Nil by (simp add: Suc_le_eq)
  ultimately show ?thesis using False assms by (simp add: format_02_def py_str_int_def)
qed

text \<open>
  C30: The last twentieth of a second of an absolute time is rounded to ten tenths: a time in it cannot be encoded, whatever
  its offset or, where it has none, that of the local zone.
\<close>

theorem last_tenths_rejected:
  assumes "valid_datetime dt" "950000 \<le> dt_microsecond dt"
    and "dt_utcoffset dt = None \<Longrightarrow> local_offset dt = Ok off \<and> \<bar>off\<bar> < 86400000000"
  shows "encode_smpp_time local_offset (Some (Absolute dt)) = Raise (Exception ''invalid time string length'')"
proof -
  define m where "m = dt_microsecond dt"
  have m: "950000 \<le> m" "m < 1000000" using assms(1,2) by (simp_all add: valid_datetime_def m_def)
  let ?q = "of_int m / 100000 :: rat"
  have q: "19 / 2 \<le> ?q" "?q < 10" using m by simp_all
  define x where "x = round_prec 53 (-1074) ?q"
  have x: "int_truediv m 100000 = Finite x" "\<bar>x - ?q\<bar> \<le> 1 / 2 ^ 37"
    using to_double_small [of ?q] q by (simp_all add: x_def int_truediv_def)
  have ten: "round_half_even x = 10"
  proof (cases "m = 950000")
    case True
    have "to_double (19 / 2) = Finite (19 / 2)" using to_double_quot [of 19 1] by simp
    with x(1) True have "x = 19 / 2" by (simp add: int_truediv_def)
    have "\<lfloor>19 / 2 :: rat\<rfloor> = 9" by (rule floor_unique) simp_all
    then show ?thesis unfolding \<open>x = 19 / 2\<close> by (simp only: round_half_even_def Let_def) simp
  next
    case False
    with m have "950001 \<le> m" by simp
    then have "950001 \<le> (of_int m :: rat)" by (metis of_int_le_iff of_int_numeral)
    then have "95 / 10 + 1 / 100000 \<le> ?q" by simp
    moreover have "1 / 2 ^ 37 \<le> (1 / 1000000 :: rat)" by simp
    note order_trans [OF x(2) this]
    ultimately show ?thesis using q by (intro round_half_even_above; linarith)
  qed
  obtain off' where off': "(case dt_utcoffset dt of Some off \<Rightarrow> Ok off | None \<Rightarrow> local_offset dt) = Ok off'" "\<bar>off'\<bar> < 86400000000"
    using assms(1,3) by (cases "dt_utcoffset dt") (auto simp: valid_datetime_def)
  from offset_rounds [OF off'(2)] obtain n where off: "py_round (float_over (float_over (int_truediv off' 1000000) 60) 15) = Ok n" ..
  have "2 \<le> length (format_02 \<bar>n\<bar>)" by (rule format_02_length) simp
  have v: "0 < dt_month dt" "dt_month dt \<le> 12" "0 < dt_day dt" "dt_day dt \<le> 31" "0 \<le> dt_hour dt" "dt_hour dt < 24"
      "0 \<le> dt_minute dt" "dt_minute dt < 60" "0 \<le> dt_second dt" "dt_second dt < 60"
    using assms(1) by (auto simp: valid_datetime_def days_in_month_def split: if_splits)
  have len: "length (format_02 n) = 2" if "0 \<le> n" "n < 100" for n using format_02_digits [OF that] by simp
  have "length (py_str_int 10) = 2" by (simp add: py_str_int_def decimal.simps)
  have sign: "length (if n < 0 then py_str ''-'' else py_str ''+'') = 1" by (simp add: py_str_def)
  let ?text = "format_02 (dt_year dt mod 100) @ format_02 (dt_month dt) @ format_02 (dt_day dt) @ format_02 (dt_hour dt) @
    format_02 (dt_minute dt) @ format_02 (dt_second dt) @ py_str_int 10 @ format_02 \<bar>n\<bar> @ (if n < 0 then py_str ''-'' else py_str ''+'')"
  have round: "py_round (int_truediv (dt_microsecond dt) 100000) = Ok 10" using ten by (simp add: x(1) [unfolded m_def])
  have written: "time_text local_offset (Some (Absolute dt)) = Ok ?text"
    by (simp only: time_text_def option.case SmppTime.case round off' off bindE_simps)
  have size_eq: "length ?text = 15 + length (format_02 \<bar>n\<bar>)"
    using v by (simp only: length_append sign len \<open>length (py_str_int 10) = 2\<close>)
  have "length ?text \<notin> {0, 16}" unfolding size_eq using \<open>2 \<le> length (format_02 \<bar>n\<bar>)\<close> by simp
  then show ?thesis by (simp only: encode_smpp_time_def written bindE_simps if_True not_False_eq_True)
qed

theorem last_tenths_rejected_witness:
  "encode_smpp_time (\<lambda>_. Ok 0) (Some (Absolute \<lparr>dt_year = 2024, dt_month = 2, dt_day = 29, dt_hour = 23, dt_minute = 59, dt_second = 59,
     dt_microsecond = 987654, dt_utcoffset = Some 19800000000\<rparr>)) = Raise (Exception ''invalid time string length'')"
  by (rule last_tenths_rejected) (simp_all add: valid_datetime_def days_in_month_def leap_year_def)

text \<open>
  The last twentieth of a second of a relative time is lost, where it should be carried: seconds are cut
  off, but tenths are rounded.
\<close>

lemma carry_of_tenths_lost:
  assumes "rel_seconds t = Finite x" "of_int s + 951 / 1000 \<le> x" "x < of_int s + 1" "0 \<le> s" "s \<le> 59"
  shows "encode_smpp_time local_offset (Some (Relative t)) =
    encode_smpp_time local_offset (Some (Relative (t\<lparr>rel_seconds := Finite (of_int s)\<rparr>)))"
proof -
  have s: "0 \<le> (of_int s :: rat)" "(of_int s :: rat) \<le> 59" using assms(4,5) by simp_all
  with assms(2,3) have x: "0 \<le> x" "x \<le> 60" "\<lfloor>x\<rfloor> = s" by (simp_all add: floor_unique)
  define y where "y = round_prec 53 (-1074) (x * 10)"
  have y: "to_double (x * 10) = Finite y" "\<bar>y - x * 10\<bar> \<le> 1 / 2 ^ 37"
    using to_double_small [of "x * 10"] x by (simp_all add: y_def)
  have "1 / 2 ^ 37 \<le> (1 / 1000 :: rat)" by simp
  note near = order_trans [OF y(2) this]
  have "of_int (s * 10 + 10) - 1 / 2 < y" "y < of_int (s * 10 + 10) + 1 / 2"
    using near assms(2,3) unfolding of_int_add of_int_mult of_int_numeral by linarith+
  then have "round_half_even y = s * 10 + 10" by (rule round_half_even_above)
  moreover have "to_double (of_int (s * 10)) = Finite (of_int (s * 10))"
    using to_double_dyadic [of "s * 10" 0] assms(4,5) by simp
  moreover have "round_half_even (of_int s * 10) = s * 10" using round_half_even_int [of "s * 10"] by simp
  ultimately show ?thesis
    using x assms(1,4) y(1) by (simp add: encode_smpp_time_def time_text_def)
qed

end
