(* ===== verification/Smpp_Params.thy ===== *)
theory Smpp_Params
  imports Smpp_Time
begin

text \<open>
  The optional parameters of \<^verbatim>\<open>smpp/transport/encoder.py\<close>, and their round trip.
\<close>

unbundle bit_operations_syntax

section \<open>Decoding\<close>

definition decode_wait_facilities :: "bytes \<Rightarrow> OptionalParamValue result" where
  "decode_wait_facilities value_bytes =
     bindE (byte_at value_bytes 0) (\<lambda>b.
     bindE (MessageWaitingIndicator_of (b AND 0x03)) (\<lambda>indicator.
       Ok (WaitFacilitiesVal \<lparr>wait_active = b AND 0x80 \<noteq> 0, wait_indicator = indicator\<rparr>)))"

definition decode_subaddress :: "bytes \<Rightarrow> OptionalParamValue result" where
  "decode_subaddress value_bytes =
     bindE (byte_at value_bytes 0) (\<lambda>b.
     bindE (SubaddressType_of b) (\<lambda>t.
       Ok (SubaddressVal \<lparr>subaddress_type = t, subaddress_value = drop 1 value_bytes\<rparr>)))"

definition decode_network_error :: "bytes \<Rightarrow> OptionalParamValue result" where
  "decode_network_error value_bytes =
     bindE (byte_at value_bytes 0) (\<lambda>b.
       Ok (NetworkErrorCodeVal \<lparr>network_network_type = b, network_error_code = from_be (drop 1 value_bytes)\<rparr>))"

definition decode_session_info :: "bytes \<Rightarrow> OptionalParamValue result" where
  "decode_session_info value_bytes =
     bindE (byte_at value_bytes 0) (\<lambda>b.
     bindE (byte_at value_bytes 1) (\<lambda>c.
       Ok (ItsSessionInfoVal \<lparr>its_session_number = b, its_sequence_number = drop_bit 1 c, its_end_of_session = c AND 0x01 \<noteq> 0\<rparr>)))"

definition decode_optional_param_value :: "OptionalParamTag \<Rightarrow> bytes \<Rightarrow> OptionalParamValue result" where
  "decode_optional_param_value tag value_bytes =
     (case tag of
        Tag_DEST_ADDR_SUBUNIT \<Rightarrow> bindE (Subunit_of (from_be value_bytes)) (\<lambda>v. Ok (SubunitVal v))
      | Tag_DEST_NETWORK_TYPE \<Rightarrow> bindE (NetworkType_of (from_be value_bytes)) (\<lambda>v. Ok (NetworkTypeVal v))
      | Tag_DEST_BEARER_TYPE \<Rightarrow> bindE (BearerType_of (from_be value_bytes)) (\<lambda>v. Ok (BearerTypeVal v))
      | Tag_DEST_TELEMATICS_ID \<Rightarrow> Ok (IntVal (from_be value_bytes))
      | Tag_SOURCE_ADDR_SUBUNIT \<Rightarrow> bindE (Subunit_of (from_be value_bytes)) (\<lambda>v. Ok (SubunitVal v))
      | Tag_SOURCE_NETWORK_TYPE \<Rightarrow> bindE (NetworkType_of (from_be value_bytes)) (\<lambda>v. Ok (NetworkTypeVal v))
      | Tag_SOURCE_BEARER_TYPE \<Rightarrow> bindE (BearerType_of (from_be value_bytes)) (\<lambda>v. Ok (BearerTypeVal v))
      | Tag_SOURCE_TELEMATICS_ID \<Rightarrow> Ok (IntVal (from_be value_bytes))
      | Tag_QOS_TIME_TO_LIVE \<Rightarrow> Ok (IntVal (from_be value_bytes))
      | Tag_PAYLOAD_TYPE \<Rightarrow> bindE (PayloadType_of (from_be value_bytes)) (\<lambda>v. Ok (PayloadTypeVal v))
      | Tag_ADDITIONAL_STATUS_INFO_TEXT \<Rightarrow> bindE (decode_cstring value_bytes) (\<lambda>(v, _). Ok (StrVal v))
      | Tag_RECEIPTED_MESSAGE_ID \<Rightarrow> bindE (decode_cbytes value_bytes) (\<lambda>(v, _). Ok (BytesVal v))
      | Tag_MS_MSG_WAIT_FACILITIES \<Rightarrow> decode_wait_facilities value_bytes
      | Tag_PRIVACY_INDICATOR \<Rightarrow> bindE (PrivacyIndicator_of (from_be value_bytes)) (\<lambda>v. Ok (PrivacyIndicatorVal v))
      | Tag_SOURCE_SUBADDRESS \<Rightarrow> decode_subaddress value_bytes
      | Tag_DEST_SUBADDRESS \<Rightarrow> decode_subaddress value_bytes
      | Tag_USER_MESSAGE_REFERENCE \<Rightarrow> Ok (IntVal (from_be value_bytes))
      | Tag_USER_RESPONSE_CODE \<Rightarrow> Ok (IntVal (from_be value_bytes))
      | Tag_SOURCE_PORT \<Rightarrow> Ok (IntVal (from_be value_bytes))
      | Tag_DESTINATION_PORT \<Rightarrow> Ok (IntVal (from_be value_bytes))
      | Tag_SAR_MSG_REF_NUM \<Rightarrow> Ok (IntVal (from_be value_bytes))
      | Tag_LANGUAGE_INDICATOR \<Rightarrow> Ok (IntVal (from_be value_bytes))
      | Tag_SAR_TOTAL_SEGMENTS \<Rightarrow> Ok (IntVal (from_be value_bytes))
      | Tag_SAR_SEGMENT_SEQNUM \<Rightarrow> Ok (IntVal (from_be value_bytes))
      | Tag_SC_INTERFACE_VERSION \<Rightarrow> Ok (IntVal (from_be value_bytes))
      | Tag_CALLBACK_NUM_PRES_IND \<Rightarrow> Ok (IntVal (from_be value_bytes))
      | Tag_CALLBACK_NUM_ATAG \<Rightarrow> Ok (BytesVal value_bytes)
      | Tag_NUMBER_OF_MESSAGES \<Rightarrow> Ok (IntVal (from_be value_bytes))
      | Tag_CALLBACK_NUM \<Rightarrow> Ok (BytesVal value_bytes)
      | Tag_DPF_RESULT \<Rightarrow> bindE (byte_at value_bytes 0) (\<lambda>b. Ok (BoolVal (b \<noteq> 0)))
      | Tag_SET_DPF \<Rightarrow> bindE (byte_at value_bytes 0) (\<lambda>b. Ok (BoolVal (b \<noteq> 0)))
      | Tag_MS_AVAILABILITY_STATUS \<Rightarrow> bindE (MsAvailabilityStatus_of (from_be value_bytes)) (\<lambda>v. Ok (MsAvailabilityStatusVal v))
      | Tag_NETWORK_ERROR_CODE \<Rightarrow> decode_network_error value_bytes
      | Tag_MESSAGE_PAYLOAD \<Rightarrow> Ok (BytesVal value_bytes)
      | Tag_DELIVERY_FAILURE_REASON \<Rightarrow> bindE (DeliveryFailureReason_of (from_be value_bytes)) (\<lambda>v. Ok (DeliveryFailureReasonVal v))
      | Tag_MORE_MESSAGES_TO_SEND \<Rightarrow> bindE (byte_at value_bytes 0) (\<lambda>b. Ok (BoolVal (b \<noteq> 0)))
      | Tag_MESSAGE_STATE \<Rightarrow> bindE (MessageState_of (from_be value_bytes)) (\<lambda>v. Ok (MessageStateVal v))
      | Tag_USSD_SERVICE_OP \<Rightarrow> Ok (IntVal (from_be value_bytes))
      | Tag_DISPLAY_TIME \<Rightarrow> bindE (DisplayTime_of (from_be value_bytes)) (\<lambda>v. Ok (DisplayTimeVal v))
      | Tag_SMS_SIGNAL \<Rightarrow> Ok (IntVal (from_be value_bytes))
      | Tag_MS_VALIDITY \<Rightarrow> bindE (MsValidity_of (from_be value_bytes)) (\<lambda>v. Ok (MsValidityVal v))
      | Tag_ALERT_ON_MESSAGE_DELIVERY \<Rightarrow> Ok EmptyTuple
      | Tag_ITS_REPLY_TYPE \<Rightarrow> bindE (ItsReplyType_of (from_be value_bytes)) (\<lambda>v. Ok (ItsReplyTypeVal v))
      | Tag_ITS_SESSION_INFO \<Rightarrow> decode_session_info value_bytes)"

text \<open>The dictionary \<open>_valid_optional_params\<close>; every other command identifier has the empty set.\<close>

definition valid_optional_params :: "CommandId \<Rightarrow> OptionalParamTag list" where
  "valid_optional_params command_id =
     (case command_id of
        CommandId_BIND_RECEIVER_RESP \<Rightarrow> [Tag_SC_INTERFACE_VERSION]
      | CommandId_BIND_TRANSMITTER_RESP \<Rightarrow> [Tag_SC_INTERFACE_VERSION]
      | CommandId_SUBMIT_SM_REQ \<Rightarrow> [Tag_USER_MESSAGE_REFERENCE, Tag_SOURCE_PORT, Tag_SOURCE_ADDR_SUBUNIT, Tag_DESTINATION_PORT,
          Tag_DEST_ADDR_SUBUNIT, Tag_SAR_MSG_REF_NUM, Tag_SAR_TOTAL_SEGMENTS, Tag_SAR_SEGMENT_SEQNUM,
          Tag_MORE_MESSAGES_TO_SEND, Tag_PAYLOAD_TYPE, Tag_MESSAGE_PAYLOAD, Tag_PRIVACY_INDICATOR, Tag_CALLBACK_NUM,
          Tag_CALLBACK_NUM_PRES_IND, Tag_CALLBACK_NUM_ATAG, Tag_SOURCE_SUBADDRESS, Tag_DEST_SUBADDRESS,
          Tag_USER_RESPONSE_CODE, Tag_DISPLAY_TIME, Tag_SMS_SIGNAL, Tag_MS_VALIDITY, Tag_MS_MSG_WAIT_FACILITIES,
          Tag_NUMBER_OF_MESSAGES, Tag_ALERT_ON_MESSAGE_DELIVERY, Tag_LANGUAGE_INDICATOR, Tag_ITS_REPLY_TYPE,
          Tag_ITS_SESSION_INFO, Tag_USSD_SERVICE_OP]
      | CommandId_DELIVER_SM_REQ \<Rightarrow> [Tag_USER_MESSAGE_REFERENCE, Tag_SOURCE_PORT, Tag_DESTINATION_PORT, Tag_SAR_MSG_REF_NUM,
          Tag_SAR_TOTAL_SEGMENTS, Tag_SAR_SEGMENT_SEQNUM, Tag_USER_RESPONSE_CODE, Tag_PRIVACY_INDICATOR,
          Tag_PAYLOAD_TYPE, Tag_MESSAGE_PAYLOAD, Tag_CALLBACK_NUM, Tag_SOURCE_SUBADDRESS, Tag_DEST_SUBADDRESS,
          Tag_LANGUAGE_INDICATOR, Tag_ITS_SESSION_INFO, Tag_NETWORK_ERROR_CODE, Tag_MESSAGE_STATE,
          Tag_RECEIPTED_MESSAGE_ID]
      | CommandId_BIND_TRANSCEIVER_RESP \<Rightarrow> [Tag_SC_INTERFACE_VERSION]
      | CommandId_SUBMIT_MULTI_REQ \<Rightarrow> [Tag_USER_MESSAGE_REFERENCE, Tag_SOURCE_PORT, Tag_SOURCE_ADDR_SUBUNIT, Tag_DESTINATION_PORT,
          Tag_DEST_ADDR_SUBUNIT, Tag_SAR_MSG_REF_NUM, Tag_SAR_TOTAL_SEGMENTS, Tag_SAR_SEGMENT_SEQNUM,
          Tag_PAYLOAD_TYPE, Tag_MESSAGE_PAYLOAD, Tag_PRIVACY_INDICATOR, Tag_CALLBACK_NUM, Tag_CALLBACK_NUM_PRES_IND,
          Tag_CALLBACK_NUM_ATAG, Tag_SOURCE_SUBADDRESS, Tag_DEST_SUBADDRESS, Tag_DISPLAY_TIME, Tag_SMS_SIGNAL,
          Tag_MS_VALIDITY, Tag_MS_MSG_WAIT_FACILITIES, Tag_ALERT_ON_MESSAGE_DELIVERY, Tag_LANGUAGE_INDICATOR]
      | CommandId_ALERT_NOTIFICATION \<Rightarrow> [Tag_MS_AVAILABILITY_STATUS]
      | CommandId_DATA_SM_REQ \<Rightarrow> [Tag_SOURCE_PORT, Tag_SOURCE_ADDR_SUBUNIT, Tag_SOURCE_NETWORK_TYPE, Tag_SOURCE_BEARER_TYPE,
          Tag_SOURCE_TELEMATICS_ID, Tag_DESTINATION_PORT, Tag_DEST_ADDR_SUBUNIT, Tag_DEST_NETWORK_TYPE,
          Tag_DEST_BEARER_TYPE, Tag_DEST_TELEMATICS_ID, Tag_SAR_MSG_REF_NUM, Tag_SAR_TOTAL_SEGMENTS,
          Tag_SAR_SEGMENT_SEQNUM, Tag_MORE_MESSAGES_TO_SEND, Tag_QOS_TIME_TO_LIVE, Tag_PAYLOAD_TYPE,
          Tag_MESSAGE_PAYLOAD, Tag_SET_DPF, Tag_RECEIPTED_MESSAGE_ID, Tag_MESSAGE_STATE, Tag_NETWORK_ERROR_CODE,
          Tag_USER_MESSAGE_REFERENCE, Tag_PRIVACY_INDICATOR, Tag_CALLBACK_NUM, Tag_CALLBACK_NUM_PRES_IND,
          Tag_CALLBACK_NUM_ATAG, Tag_SOURCE_SUBADDRESS, Tag_DEST_SUBADDRESS, Tag_USER_RESPONSE_CODE, Tag_DISPLAY_TIME,
          Tag_SMS_SIGNAL, Tag_MS_VALIDITY, Tag_MS_MSG_WAIT_FACILITIES, Tag_NUMBER_OF_MESSAGES,
          Tag_ALERT_ON_MESSAGE_DELIVERY, Tag_LANGUAGE_INDICATOR, Tag_ITS_REPLY_TYPE, Tag_ITS_SESSION_INFO]
      | CommandId_DATA_SM_RESP \<Rightarrow> [Tag_DELIVERY_FAILURE_REASON, Tag_NETWORK_ERROR_CODE, Tag_ADDITIONAL_STATUS_INFO_TEXT, Tag_DPF_RESULT]
      | _ \<Rightarrow> [])"

definition command_status_error :: "CommandStatus \<Rightarrow> 'a result" where
  "command_status_error status = Raise (CommandStatusError (CommandStatus_value status))"

text \<open>\<open>except ValueError\<close> and \<open>except Exception\<close> that raise CommandStatusError instead.\<close>

definition value_error_status :: "CommandStatus \<Rightarrow> 'a result \<Rightarrow> 'a result" where
  "value_error_status status r = (case r of Inl (ValueError _) \<Rightarrow> command_status_error status | _ \<Rightarrow> r)"

definition any_error_status :: "CommandStatus \<Rightarrow> 'a result \<Rightarrow> 'a result" where
  "any_error_status status r = (case r of Inl _ \<Rightarrow> command_status_error status | Inr _ \<Rightarrow> r)"

function decode_params_loop :: "CommandId \<Rightarrow> bytes \<Rightarrow> OptionalParams \<Rightarrow> OptionalParams result" where
  "decode_params_loop command_id rest optional_params =
     (if rest = [] then Ok optional_params
      else bindE (unpack_be [2, 2] (take 4 rest)) (\<lambda>v.
           bindE (value_error_status ESME_ROPTPARNOTALLWD (OptionalParamTag_of (v ! 0))) (\<lambda>tag.
             if tag \<notin> set (valid_optional_params command_id) then command_status_error ESME_ROPTPARNOTALLWD
             else bindE (any_error_status ESME_RINVOPTPARAMVAL
                    (decode_optional_param_value tag (take (nat (v ! 1)) (drop 4 rest)))) (\<lambda>x.
                  decode_params_loop command_id (drop (nat (v ! 1)) (drop 4 rest)) (dict_set tag x optional_params)))))"
  by pat_completeness auto
termination
  by (relation "measure (\<lambda>(_, rest, _). length rest)") (auto simp: unpack_be_def split: if_splits)

declare decode_params_loop.simps [simp del]

definition decode_optional_params :: "CommandId \<Rightarrow> bytes \<Rightarrow> OptionalParams result" where
  "decode_optional_params command_id data = decode_params_loop command_id data []"

section \<open>Encoding\<close>

definition wrong_param_type :: "int list result" where
  "wrong_param_type = Raise (TypeError ''invalid value type'')"

text \<open>A truth value is an integer.\<close>

fun as_int :: "OptionalParamValue \<Rightarrow> int option" where
  "as_int (IntVal n) = Some n"
| "as_int (BoolVal b) = Some (if b then 1 else 0)"
| "as_int _ = None"

definition yield_int :: "OptionalParamValue \<Rightarrow> int list result" where
  "yield_int x = (case as_int x of Some n \<Rightarrow> yield_byte n | None \<Rightarrow> wrong_param_type)"

definition yield_uint :: "nat \<Rightarrow> OptionalParamValue \<Rightarrow> int list result" where
  "yield_uint width x = (case as_int x of Some n \<Rightarrow> pack_be [(width, n)] | None \<Rightarrow> wrong_param_type)"

definition encode_wait_facilities :: "MsMsgWaitFacilities \<Rightarrow> int list result" where
  "encode_wait_facilities w =
     yield_byte ((if wait_active w then 0x80 else 0x00) OR (MessageWaitingIndicator_value (wait_indicator w) AND 0x03))"

definition encode_subaddress :: "Subaddress \<Rightarrow> int list result" where
  "encode_subaddress a = appendE (yield_byte (SubaddressType_value (subaddress_type a))) (Ok (map uint (subaddress_value a)))"

definition encode_network_error :: "NetworkErrorCode \<Rightarrow> int list result" where
  "encode_network_error c = appendE (yield_byte (network_network_type c)) (pack_be [(2, network_error_code c)])"

definition encode_session_info :: "ItsSessionInfo \<Rightarrow> int list result" where
  "encode_session_info i =
     appendE (yield_byte (its_session_number i))
       (yield_byte (push_bit 1 (its_sequence_number i) OR (if its_end_of_session i then 1 else 0)))"

definition encode_optional_param_value :: "OptionalParamTag \<Rightarrow> OptionalParamValue \<Rightarrow> int list result" where
  "encode_optional_param_value tag x =
     (case tag of
        Tag_DEST_ADDR_SUBUNIT \<Rightarrow> (case x of SubunitVal v \<Rightarrow> yield_byte (Subunit_value v) | _ \<Rightarrow> wrong_param_type)
      | Tag_DEST_NETWORK_TYPE \<Rightarrow> (case x of NetworkTypeVal v \<Rightarrow> yield_byte (NetworkType_value v) | _ \<Rightarrow> wrong_param_type)
      | Tag_DEST_BEARER_TYPE \<Rightarrow> (case x of BearerTypeVal v \<Rightarrow> yield_byte (BearerType_value v) | _ \<Rightarrow> wrong_param_type)
      | Tag_DEST_TELEMATICS_ID \<Rightarrow> yield_uint 2 x
      | Tag_SOURCE_ADDR_SUBUNIT \<Rightarrow> (case x of SubunitVal v \<Rightarrow> yield_byte (Subunit_value v) | _ \<Rightarrow> wrong_param_type)
      | Tag_SOURCE_NETWORK_TYPE \<Rightarrow> (case x of NetworkTypeVal v \<Rightarrow> yield_byte (NetworkType_value v) | _ \<Rightarrow> wrong_param_type)
      | Tag_SOURCE_BEARER_TYPE \<Rightarrow> (case x of BearerTypeVal v \<Rightarrow> yield_byte (BearerType_value v) | _ \<Rightarrow> wrong_param_type)
      | Tag_SOURCE_TELEMATICS_ID \<Rightarrow> yield_uint 2 x
      | Tag_QOS_TIME_TO_LIVE \<Rightarrow> yield_uint 4 x
      | Tag_PAYLOAD_TYPE \<Rightarrow> (case x of PayloadTypeVal v \<Rightarrow> yield_byte (PayloadType_value v) | _ \<Rightarrow> wrong_param_type)
      | Tag_ADDITIONAL_STATUS_INFO_TEXT \<Rightarrow> (case x of StrVal s \<Rightarrow> encode_cstring s | _ \<Rightarrow> wrong_param_type)
      | Tag_RECEIPTED_MESSAGE_ID \<Rightarrow> (case x of BytesVal bs \<Rightarrow> encode_cbytes bs | _ \<Rightarrow> wrong_param_type)
      | Tag_MS_MSG_WAIT_FACILITIES \<Rightarrow> (case x of WaitFacilitiesVal w \<Rightarrow> encode_wait_facilities w | _ \<Rightarrow> wrong_param_type)
      | Tag_PRIVACY_INDICATOR \<Rightarrow> (case x of PrivacyIndicatorVal v \<Rightarrow> yield_byte (PrivacyIndicator_value v) | _ \<Rightarrow> wrong_param_type)
      | Tag_SOURCE_SUBADDRESS \<Rightarrow> (case x of SubaddressVal a \<Rightarrow> encode_subaddress a | _ \<Rightarrow> wrong_param_type)
      | Tag_DEST_SUBADDRESS \<Rightarrow> (case x of SubaddressVal a \<Rightarrow> encode_subaddress a | _ \<Rightarrow> wrong_param_type)
      | Tag_USER_MESSAGE_REFERENCE \<Rightarrow> yield_uint 2 x
      | Tag_USER_RESPONSE_CODE \<Rightarrow> yield_int x
      | Tag_SOURCE_PORT \<Rightarrow> yield_uint 2 x
      | Tag_DESTINATION_PORT \<Rightarrow> yield_uint 2 x
      | Tag_SAR_MSG_REF_NUM \<Rightarrow> yield_uint 2 x
      | Tag_LANGUAGE_INDICATOR \<Rightarrow> yield_int x
      | Tag_SAR_TOTAL_SEGMENTS \<Rightarrow> yield_int x
      | Tag_SAR_SEGMENT_SEQNUM \<Rightarrow> yield_int x
      | Tag_SC_INTERFACE_VERSION \<Rightarrow> yield_int x
      | Tag_CALLBACK_NUM_PRES_IND \<Rightarrow> yield_int x
      | Tag_CALLBACK_NUM_ATAG \<Rightarrow> (case x of BytesVal bs \<Rightarrow> Ok (map uint bs) | _ \<Rightarrow> wrong_param_type)
      | Tag_NUMBER_OF_MESSAGES \<Rightarrow> yield_int x
      | Tag_CALLBACK_NUM \<Rightarrow> (case x of BytesVal bs \<Rightarrow> Ok (map uint bs) | _ \<Rightarrow> wrong_param_type)
      | Tag_DPF_RESULT \<Rightarrow> (case x of BoolVal b \<Rightarrow> yield_byte (if b then 1 else 0) | _ \<Rightarrow> wrong_param_type)
      | Tag_SET_DPF \<Rightarrow> (case x of BoolVal b \<Rightarrow> yield_byte (if b then 1 else 0) | _ \<Rightarrow> wrong_param_type)
      | Tag_MS_AVAILABILITY_STATUS \<Rightarrow> (case x of MsAvailabilityStatusVal v \<Rightarrow> yield_byte (MsAvailabilityStatus_value v) | _ \<Rightarrow> wrong_param_type)
      | Tag_NETWORK_ERROR_CODE \<Rightarrow> (case x of NetworkErrorCodeVal c \<Rightarrow> encode_network_error c | _ \<Rightarrow> wrong_param_type)
      | Tag_MESSAGE_PAYLOAD \<Rightarrow> (case x of BytesVal bs \<Rightarrow> Ok (map uint bs) | _ \<Rightarrow> wrong_param_type)
      | Tag_DELIVERY_FAILURE_REASON \<Rightarrow> (case x of DeliveryFailureReasonVal v \<Rightarrow> yield_byte (DeliveryFailureReason_value v) | _ \<Rightarrow> wrong_param_type)
      | Tag_MORE_MESSAGES_TO_SEND \<Rightarrow> (case x of BoolVal b \<Rightarrow> yield_byte (if b then 1 else 0) | _ \<Rightarrow> wrong_param_type)
      | Tag_MESSAGE_STATE \<Rightarrow> (case x of MessageStateVal v \<Rightarrow> yield_byte (MessageState_value v) | _ \<Rightarrow> wrong_param_type)
      | Tag_USSD_SERVICE_OP \<Rightarrow> yield_int x
      | Tag_DISPLAY_TIME \<Rightarrow> (case x of DisplayTimeVal v \<Rightarrow> yield_byte (DisplayTime_value v) | _ \<Rightarrow> wrong_param_type)
      | Tag_SMS_SIGNAL \<Rightarrow> yield_uint 2 x
      | Tag_MS_VALIDITY \<Rightarrow> (case x of MsValidityVal v \<Rightarrow> yield_byte (MsValidity_value v) | _ \<Rightarrow> wrong_param_type)
      | Tag_ALERT_ON_MESSAGE_DELIVERY \<Rightarrow> Ok []
      | Tag_ITS_REPLY_TYPE \<Rightarrow> (case x of ItsReplyTypeVal v \<Rightarrow> yield_byte (ItsReplyType_value v) | _ \<Rightarrow> wrong_param_type)
      | Tag_ITS_SESSION_INFO \<Rightarrow> (case x of ItsSessionInfoVal i \<Rightarrow> encode_session_info i | _ \<Rightarrow> wrong_param_type))"

definition encode_optional_param :: "CommandId \<Rightarrow> OptionalParamTag \<times> OptionalParamValue \<Rightarrow> int list result" where
  "encode_optional_param command_id = (\<lambda>(tag, x).
     if tag \<notin> set (valid_optional_params command_id) then command_status_error ESME_ROPTPARNOTALLWD
     else bindE (encode_optional_param_value tag x) (\<lambda>value_bytes.
       appendE (pack_be [(2, OptionalParamTag_value tag), (2, int (length value_bytes))]) (Ok value_bytes)))"

definition encode_optional_params :: "CommandId \<Rightarrow> OptionalParams \<Rightarrow> int list result" where
  "encode_optional_params command_id optional_params = concatE (encode_optional_param command_id) optional_params"

section \<open>Round trip of one value\<close>

text \<open>
  The encoder takes a truth value for an integer and anything for an empty parameter; text has to be
  free of zeros.
\<close>

fun param_ok :: "OptionalParamTag \<times> OptionalParamValue \<Rightarrow> bool" where
  "param_ok (tag, BoolVal b) \<longleftrightarrow> tag \<in> {Tag_DPF_RESULT, Tag_SET_DPF, Tag_MORE_MESSAGES_TO_SEND}"
| "param_ok (tag, StrVal s) \<longleftrightarrow> cstr_ok s \<and> tag \<noteq> Tag_ALERT_ON_MESSAGE_DELIVERY"
| "param_ok (tag, BytesVal bs) \<longleftrightarrow> (tag = Tag_RECEIPTED_MESSAGE_ID \<longrightarrow> cbytes_ok bs) \<and> tag \<noteq> Tag_ALERT_ON_MESSAGE_DELIVERY"
| "param_ok (tag, EmptyTuple) \<longleftrightarrow> True"
| "param_ok (tag, _) \<longleftrightarrow> tag \<noteq> Tag_ALERT_ON_MESSAGE_DELIVERY"

text \<open>\<open>decodes\<close>: what was encoded is bytes, and decoded as a whole.\<close>

definition decodes :: "int list result \<Rightarrow> (bytes \<Rightarrow> 'a result) \<Rightarrow> 'a \<Rightarrow> bool" where
  "decodes m dec x \<longleftrightarrow> (\<forall>ys. m = Ok ys \<longrightarrow> all_bytes ys \<and> dec (wire ys) = Ok x)"

lemma decodesI: "(\<And>ys. m = Ok ys \<Longrightarrow> all_bytes ys \<and> dec (wire ys) = Ok x) \<Longrightarrow> decodes m dec x"
  by (simp add: decodes_def)

lemma wrong_type_decodes [simp]: "decodes wrong_param_type dec x" "wrong_param_type \<noteq> Ok ys"
  by (simp_all add: decodes_def wrong_param_type_def)

lemma yield_byte_Ok [simp]: "yield_byte n = Ok ys \<longleftrightarrow> is_byte n \<and> ys = [n]"
  by (auto simp: yield_byte_def)

lemma from_be_single: "is_byte n \<Longrightarrow> from_be (wire [n]) = n"
  by (simp add: from_be_def uint_of_byte)

lemma decodes_byte: "decodes (yield_int (IntVal n)) (\<lambda>bs. Ok (IntVal (from_be bs))) (IntVal n)"
  by (simp add: decodes_def yield_int_def from_be_single [simplified])

lemma decodes_uint: "decodes (yield_uint k (IntVal n)) (\<lambda>bs. Ok (IntVal (from_be bs))) (IntVal n)"
proof (rule decodesI)
  fix ys assume "yield_uint k (IntVal n) = Ok ys"
  then have "0 \<le> n" "n < 256 ^ k" "ys = rev (le_digits k n)" by (auto simp: yield_uint_def pack_be_def pack_field_Ok_iff appendE_Ok_iff)
  then show "all_bytes ys \<and> Ok (IntVal (from_be (wire ys))) = Ok (IntVal n)" by (simp add: from_be_digits)
qed

lemma decodes_no_int [simp]:
  assumes "as_int x = None"
  shows "decodes (yield_int x) dec y" "decodes (yield_uint k x) dec' z"
  using assms by (simp_all add: yield_int_def yield_uint_def)

lemma decodes_enum:
  assumes "is_byte (val v)" "of_int' (val v) = Ok v"
  shows "decodes (yield_byte (val v)) (\<lambda>bs. bindE (of_int' (from_be bs)) (\<lambda>v. Ok (C v))) (C v)"
  using assms by (simp add: decodes_def from_be_single [simplified])

lemma decodes_bool: "decodes (yield_byte (if b then 1 else 0)) (\<lambda>bs. bindE (byte_at bs 0) (\<lambda>b. Ok (BoolVal (b \<noteq> 0)))) (BoolVal b)"
  by (simp add: decodes_def is_byte_def)

lemma decodes_bytes: "decodes (Ok (map uint bs)) (\<lambda>bs. Ok (BytesVal bs)) (BytesVal bs)"
  by (simp add: decodes_def)

lemma decodes_text:
  "cstr_ok s \<Longrightarrow> decodes (encode_cstring s) (\<lambda>bs. bindE (decode_cstring bs) (\<lambda>(v, _). Ok (StrVal v))) (StrVal s)"
  "cbytes_ok c \<Longrightarrow> decodes (encode_cbytes c) (\<lambda>bs. bindE (decode_cbytes bs) (\<lambda>(v, _). Ok (BytesVal v))) (BytesVal c)"
  using readsD [OF reads_cstring [of s], of _ "[]"] reads_bytes [OF reads_cstring [of s]]
    readsD [OF reads_cbytes [of c], of _ "[]"] reads_bytes [OF reads_cbytes [of c]]
  by (auto simp: decodes_def)

lemma decodes_wait: "decodes (encode_wait_facilities w) decode_wait_facilities (WaitFacilitiesVal w)"
proof -
  let ?b = "(if wait_active w then 0x80 else 0x00) OR (MessageWaitingIndicator_value (wait_indicator w) AND 0x03)"
  have b: "is_byte ?b" "?b AND 0x03 = MessageWaitingIndicator_value (wait_indicator w)" "?b AND 0x80 \<noteq> 0 \<longleftrightarrow> wait_active w"
    by (cases "wait_indicator w"; simp add: is_byte_def)+
  then show ?thesis
    by (simp only: decodes_def encode_wait_facilities_def decode_wait_facilities_def yield_byte_Ok) (auto simp: uint_of_byte)
qed

lemma decodes_subaddress: "decodes (encode_subaddress a) decode_subaddress (SubaddressVal a)"
proof -
  have "is_byte (SubaddressType_value (subaddress_type a))" by (cases "subaddress_type a") (simp_all add: is_byte_def)
  then show ?thesis
    by (auto simp: decodes_def encode_subaddress_def decode_subaddress_def appendE_Ok_iff uint_of_byte)
qed

lemma decodes_network_error: "decodes (encode_network_error c) decode_network_error (NetworkErrorCodeVal c)"
proof (rule decodesI)
  fix ys assume "encode_network_error c = Ok ys"
  then have "is_byte (network_network_type c)" "0 \<le> network_error_code c" "network_error_code c < 256 ^ 2"
    "ys = network_network_type c # rev (le_digits 2 (network_error_code c))"
    by (auto simp: encode_network_error_def appendE_Ok_iff pack_be_def pack_field_Ok_iff)
  then show "all_bytes ys \<and> decode_network_error (wire ys) = Ok (NetworkErrorCodeVal c)"
    by (simp add: decode_network_error_def uint_of_byte from_be_digits)
qed

lemma shifted_flag:
  fixes n :: int
  shows "drop_bit 1 (push_bit 1 n OR (if b then 1 else 0)) = n" "(push_bit 1 n OR (if b then 1 else 0)) AND 1 \<noteq> 0 \<longleftrightarrow> b"
  by (simp_all add: push_bit_eq_mult or_one_eq drop_bit_eq_div and_one_eq)

lemma decodes_session_info: "decodes (encode_session_info i) decode_session_info (ItsSessionInfoVal i)"
proof (rule decodesI)
  define c where "c = push_bit 1 (its_sequence_number i) OR (if its_end_of_session i then 1 else 0)"
  fix ys assume "encode_session_info i = Ok ys"
  then have y: "is_byte (its_session_number i)" "is_byte c" "ys = [its_session_number i, c]"
    by (auto simp: encode_session_info_def appendE_Ok_iff c_def)
  moreover have "drop_bit 1 c = its_sequence_number i" "c AND 1 \<noteq> 0 \<longleftrightarrow> its_end_of_session i"
    unfolding c_def by (rule shifted_flag)+
  ultimately show "all_bytes ys \<and> decode_session_info (wire ys) = Ok (ItsSessionInfoVal i)"
    by (simp add: decode_session_info_def uint_of_byte del: drop_bit_of_1)
qed

lemma enum_bytes:
  "is_byte (Subunit_value x0)"
  "is_byte (NetworkType_value x1)"
  "is_byte (BearerType_value x2)"
  "is_byte (PayloadType_value x3)"
  "is_byte (PrivacyIndicator_value x4)"
  "is_byte (MsAvailabilityStatus_value x5)"
  "is_byte (DeliveryFailureReason_value x6)"
  "is_byte (MessageState_value x7)"
  "is_byte (DisplayTime_value x8)"
  "is_byte (MsValidity_value x9)"
  "is_byte (ItsReplyType_value x10)"
  "is_byte (TypeOfNumber_value x11)"
  "is_byte (NumericPlanIndicator_value x12)"
  "is_byte (Priority_value x13)"
  "is_byte (DataCoding_value x14)"
proof -
  show "is_byte (Subunit_value x0)" by (cases x0) (simp_all add: is_byte_def)
  show "is_byte (NetworkType_value x1)" by (cases x1) (simp_all add: is_byte_def)
  show "is_byte (BearerType_value x2)" by (cases x2) (simp_all add: is_byte_def)
  show "is_byte (PayloadType_value x3)" by (cases x3) (simp_all add: is_byte_def)
  show "is_byte (PrivacyIndicator_value x4)" by (cases x4) (simp_all add: is_byte_def)
  show "is_byte (MsAvailabilityStatus_value x5)" by (cases x5) (simp_all add: is_byte_def)
  show "is_byte (DeliveryFailureReason_value x6)" by (cases x6) (simp_all add: is_byte_def)
  show "is_byte (MessageState_value x7)" by (cases x7) (simp_all add: is_byte_def)
  show "is_byte (DisplayTime_value x8)" by (cases x8) (simp_all add: is_byte_def)
  show "is_byte (MsValidity_value x9)" by (cases x9) (simp_all add: is_byte_def)
  show "is_byte (ItsReplyType_value x10)" by (cases x10) (simp_all add: is_byte_def)
  show "is_byte (TypeOfNumber_value x11)" by (cases x11) (simp_all add: is_byte_def)
  show "is_byte (NumericPlanIndicator_value x12)" by (cases x12) (simp_all add: is_byte_def)
  show "is_byte (Priority_value x13)" by (cases x13) (simp_all add: is_byte_def)
  show "is_byte (DataCoding_value x14)" by (cases x14) (simp_all add: is_byte_def)
qed

lemma decodes_empty [simp]: "decodes (Ok []) (\<lambda>bs. Ok x) x"
  by (simp add: decodes_def)

lemma decodes_param:
  assumes "param_ok (tag, x)"
  shows "decodes (encode_optional_param_value tag x) (decode_optional_param_value tag) x"
  using assms decodes_byte decodes_uint decodes_bool decodes_bytes decodes_text decodes_wait decodes_subaddress
    decodes_network_error decodes_session_info
  by (cases tag; cases x)
    (simp_all add: encode_optional_param_value_def decode_optional_param_value_def [abs_def] decodes_enum enum_bytes)

section \<open>Round trip of parameters\<close>

definition params_ok :: "OptionalParams \<Rightarrow> bool" where
  "params_ok ps \<longleftrightarrow> distinct (map fst ps) \<and> list_all param_ok ps"

lemma status_error_simps [simp]:
  "value_error_status status (Ok x) = Ok x" "any_error_status status (Ok x) = Ok x" "command_status_error status \<noteq> Ok y"
  by (simp_all add: value_error_status_def any_error_status_def command_status_error_def)

lemma params_loop_step:
  assumes "encode_optional_param c (tag, x) = Ok xs" "param_ok (tag, x)"
  shows "all_bytes xs \<and> decode_params_loop c (wire xs @ rest) acc = decode_params_loop c rest (dict_set tag x acc)"
proof -
  from assms(1) obtain bs hdr where v: "tag \<in> set (valid_optional_params c)" "encode_optional_param_value tag x = Ok bs"
    and h: "pack_be [(2, OptionalParamTag_value tag), (2, int (length bs))] = Ok hdr" and xs: "xs = hdr @ bs"
    by (auto simp: encode_optional_param_def appendE_Ok_iff split: if_splits)
  have "fields_ok [(2, OptionalParamTag_value tag), (2, int (length bs))]" using h pack_be_Ok_iff_fields by blast
  then obtain hdr' where "pack_be [(2, OptionalParamTag_value tag), (2, int (length bs))] = Ok hdr'" "length hdr' = 4" "all_bytes hdr'"
    "unpack_be [2, 2] (wire hdr') = Ok [OptionalParamTag_value tag, int (length bs)]"
    by (rule pack_be_Ok) simp
  with h have hdr: "length hdr = 4" "all_bytes hdr" "unpack_be [2, 2] (wire hdr) = Ok [OptionalParamTag_value tag, int (length bs)]"
    by simp_all
  from decodes_param [OF assms(2)] v(2) have bs: "all_bytes bs" "decode_optional_param_value tag (wire bs) = Ok x"
    by (simp_all add: decodes_def)
  have "hdr \<noteq> []" using hdr(1) by auto
  with hdr bs v(1) xs show ?thesis
    by (subst decode_params_loop.simps) simp
qed

lemma params_loop_all:
  assumes "concatE (encode_optional_param c) ps = Ok ys" "params_ok ps" "fst ` set ps \<inter> fst ` set acc = {}"
  shows "all_bytes ys \<and> decode_params_loop c (wire ys) acc = Ok (acc @ ps)"
  using assms
proof (induction ps arbitrary: ys acc)
  case (Cons p ps)
  obtain tag x where p: "p = (tag, x)" by (cases p)
  from Cons.prems(1) p obtain xs zs where xs: "encode_optional_param c (tag, x) = Ok xs"
    and zs: "concatE (encode_optional_param c) ps = Ok zs" and ys: "ys = xs @ zs"
    by (auto simp: appendE_Ok_iff)
  from Cons.prems(2) p have ok: "params_ok ps" "param_ok (tag, x)" "tag \<notin> fst ` set ps" by (auto simp: params_ok_def)
  from Cons.prems(3) p ok(3) have new: "tag \<notin> fst ` set acc" "fst ` set ps \<inter> fst ` set (acc @ [(tag, x)]) = {}" by auto
  from params_loop_step [OF xs ok(2), of "wire zs" acc] Cons.IH [OF zs ok(1) new(2)] ys p show ?case
    by (simp add: dict_set_new [OF new(1)])
qed (simp add: decode_params_loop.simps)

lemma decodes_params: "params_ok ps \<Longrightarrow> decodes (encode_optional_params c ps) (decode_optional_params c) ps"
  using params_loop_all [of c ps _ "[]"] by (simp add: decodes_def encode_optional_params_def decode_optional_params_def)

end
