(* ===== verification/Smpp_Encoder.thy ===== *)
theory Smpp_Encoder
  imports Smpp_Params Framing
begin

text \<open>
  Bodies, headers and units of \<^verbatim>\<open>smpp/transport/encoder.py\<close>. The argument \<open>local_offset\<close> is that of
  \<open>time_text\<close>. The bodies of submit_multi are not implemented by the code; the empty ones have no functions
  of their own here.
\<close>

unbundle bit_operations_syntax

section \<open>Parts\<close>

definition next_byte :: "bytes \<Rightarrow> (int \<times> bytes) result" where
  "next_byte rest = bindE (byte_at rest 0) (\<lambda>b. Ok (b, drop 1 rest))"

definition next_bool :: "bytes \<Rightarrow> (bool \<times> bytes) result" where
  "next_bool rest = bindE (byte_at rest 0) (\<lambda>b. Ok (b \<noteq> 0, drop 1 rest))"

text \<open>\<open>rest = rest[1:]\<close> does not raise.\<close>

definition skip_byte :: "bytes \<Rightarrow> (unit \<times> bytes) result" where
  "skip_byte rest = Ok ((), drop 1 rest)"

definition decode_enum_byte :: "(int \<Rightarrow> 'a result) \<Rightarrow> CommandStatus \<Rightarrow> bytes \<Rightarrow> ('a \<times> bytes) result" where
  "decode_enum_byte of_int' status data =
     value_error_status status (bindE (byte_at data 0) (\<lambda>b. bindE (of_int' b) (\<lambda>x. Ok (x, drop 1 data))))"

definition decode_source_addr_ton :: "bytes \<Rightarrow> (TypeOfNumber \<times> bytes) result" where
  "decode_source_addr_ton = decode_enum_byte TypeOfNumber_of ESME_RINVSRCTON"

definition decode_source_addr_npi :: "bytes \<Rightarrow> (NumericPlanIndicator \<times> bytes) result" where
  "decode_source_addr_npi = decode_enum_byte NumericPlanIndicator_of ESME_RINVSRCNPI"

definition decode_dest_addr_ton :: "bytes \<Rightarrow> (TypeOfNumber \<times> bytes) result" where
  "decode_dest_addr_ton = decode_enum_byte TypeOfNumber_of ESME_RINVDSTTON"

definition decode_dest_addr_npi :: "bytes \<Rightarrow> (NumericPlanIndicator \<times> bytes) result" where
  "decode_dest_addr_npi = decode_enum_byte NumericPlanIndicator_of ESME_RINVDSTNPI"

definition decode_priority_flag :: "bytes \<Rightarrow> (Priority \<times> bytes) result" where
  "decode_priority_flag = decode_enum_byte Priority_of ESME_RINVPRTFLG"

definition decode_schedule_delivery_time :: "bytes \<Rightarrow> (SmppTime option \<times> bytes) result" where
  "decode_schedule_delivery_time data = any_error_status ESME_RINVSCHED (decode_smpp_time data)"

definition decode_validity_period :: "bytes \<Rightarrow> (SmppTime option \<times> bytes) result" where
  "decode_validity_period data = any_error_status ESME_RINVEXPIRY (decode_smpp_time data)"

text \<open>A set of flags, from and to the bits of a number.\<close>

definition flags_of :: "('a \<Rightarrow> int) \<Rightarrow> 'a list \<Rightarrow> int \<Rightarrow> 'a set" where
  "flags_of val members n = set (filter (\<lambda>i. n AND val i \<noteq> 0) members)"

definition or_flags :: "('a \<Rightarrow> int) \<Rightarrow> 'a list \<Rightarrow> nat \<Rightarrow> 'a set \<Rightarrow> int \<Rightarrow> int" where
  "or_flags val members k S n = fold (\<lambda>i n. if i \<in> S then n OR push_bit k (val i) else n) members n"

definition decode_registered_delivery :: "bytes \<Rightarrow> (RegisteredDelivery \<times> bytes) result" where
  "decode_registered_delivery data =
     value_error_status ESME_RINVREGDLVFLG
       (bindE (byte_at data 0) (\<lambda>b. bindE (DeliveryReceipt_of (b AND 0x03)) (\<lambda>receipt.
          Ok (\<lparr>reg_delivery_receipt = receipt,
               reg_acknowledgements = flags_of Acknowledgement_value Acknowledgement_members (drop_bit 2 b),
               reg_intermediate_notification = b AND 0x10 \<noteq> 0\<rparr>, drop 1 data))))"

definition encode_registered_delivery :: "RegisteredDelivery \<Rightarrow> int list result" where
  "encode_registered_delivery r =
     (let n = or_flags Acknowledgement_value Acknowledgement_members 2 (reg_acknowledgements r)
                (DeliveryReceipt_value (reg_delivery_receipt r))
      in yield_byte (if reg_intermediate_notification r then n OR 0x10 else n))"

definition decode_esm_class :: "bytes \<Rightarrow> (EsmClass \<times> bytes) result" where
  "decode_esm_class data =
     bindE (byte_at data 0) (\<lambda>b.
     bindE (MessagingMode_of (b AND 0x03)) (\<lambda>mode.
     bindE (MessageType_of (drop_bit 2 b AND 0x0f)) (\<lambda>t.
       Ok (\<lparr>esm_messaging_mode = mode, esm_message_type = t,
            esm_gsm_features = flags_of GsmFeature_value GsmFeature_members (drop_bit 6 b)\<rparr>, drop 1 data))))"

definition encode_esm_class :: "EsmClass \<Rightarrow> int list result" where
  "encode_esm_class c =
     yield_byte (or_flags GsmFeature_value GsmFeature_members 6 (esm_gsm_features c)
       (MessagingMode_value (esm_messaging_mode c) OR push_bit 2 (MessageType_value (esm_message_type c))))"

definition decode_data_coding :: "bytes \<Rightarrow> (DataCoding \<times> bytes) result" where
  "decode_data_coding rest =
     bindE (byte_at rest 0) (\<lambda>b. bindE (DataCoding_of (b AND 0x0f)) (\<lambda>x. Ok (x, drop 1 rest)))"

definition decode_message_state :: "bytes \<Rightarrow> (MessageState \<times> bytes) result" where
  "decode_message_state rest =
     bindE (byte_at rest 0) (\<lambda>b. bindE (MessageState_of b) (\<lambda>x. Ok (x, drop 1 rest)))"

definition decode_short_message :: "bytes \<Rightarrow> (bytes \<times> bytes) result" where
  "decode_short_message rest =
     bindE (byte_at rest 0) (\<lambda>n. Ok (take (nat n) (drop 1 rest), drop (nat n) (drop 1 rest)))"

definition encode_short_message :: "bytes \<Rightarrow> int list result" where
  "encode_short_message bs =
     (if length bs > 254 then command_status_error ESME_RINVMSGLEN
      else appendE (yield_byte (int (length bs))) (Ok (map uint bs)))"

section \<open>Requests\<close>

definition decode_bind_req :: "BindType \<Rightarrow> bytes \<Rightarrow> BindReq result" where
  "decode_bind_req bind_type rest =
     bindE (decode_cstring rest) (\<lambda>(system_id, rest).
     bindE (decode_cstring rest) (\<lambda>(password, rest).
     bindE (decode_cstring rest) (\<lambda>(system_type, rest).
     bindE (next_byte rest) (\<lambda>(interface_version, rest).
     bindE (decode_source_addr_ton rest) (\<lambda>(addr_ton, rest).
     bindE (decode_source_addr_npi rest) (\<lambda>(addr_npi, rest).
     bindE (decode_cstring rest) (\<lambda>(address_range, rest).
       Ok \<lparr>bind_bind_type = bind_type, bind_system_id = system_id, bind_password = password, bind_system_type =
            system_type, bind_interface_version = interface_version, bind_addr_ton = addr_ton, bind_addr_npi =
            addr_npi, bind_address_range = address_range\<rparr>)))))))"

definition encode_bind_req :: "BindReq \<Rightarrow> int list result" where
  "encode_bind_req p =
     appendE (encode_cstring (bind_system_id p))
    (appendE (encode_cstring (bind_password p))
    (appendE (encode_cstring (bind_system_type p))
    (appendE (yield_byte (bind_interface_version p))
    (appendE (yield_byte (TypeOfNumber_value (bind_addr_ton p)))
    (appendE (yield_byte (NumericPlanIndicator_value (bind_addr_npi p)))
      (encode_cstring (bind_address_range p)))))))"

definition decode_submit_sm_req :: "bytes \<Rightarrow> SubmitSmReq result" where
  "decode_submit_sm_req rest =
     bindE (decode_cstring rest) (\<lambda>(service_type, rest).
     bindE (decode_source_addr_ton rest) (\<lambda>(source_addr_ton, rest).
     bindE (decode_source_addr_npi rest) (\<lambda>(source_addr_npi, rest).
     bindE (decode_cstring rest) (\<lambda>(source_addr, rest).
     bindE (decode_dest_addr_ton rest) (\<lambda>(dest_addr_ton, rest).
     bindE (decode_dest_addr_npi rest) (\<lambda>(dest_addr_npi, rest).
     bindE (decode_cstring rest) (\<lambda>(destination_addr, rest).
     bindE (decode_esm_class rest) (\<lambda>(esm_class, rest).
     bindE (next_byte rest) (\<lambda>(protocol_id, rest).
     bindE (decode_priority_flag rest) (\<lambda>(priority_flag, rest).
     bindE (decode_schedule_delivery_time rest) (\<lambda>(schedule_delivery_time, rest).
     bindE (decode_validity_period rest) (\<lambda>(validity_period, rest).
     bindE (decode_registered_delivery rest) (\<lambda>(registered_delivery, rest).
     bindE (next_bool rest) (\<lambda>(replace_if_present_flag, rest).
     bindE (decode_data_coding rest) (\<lambda>(data_coding, rest).
     bindE (next_byte rest) (\<lambda>(sm_default_msg_id, rest).
     bindE (decode_short_message rest) (\<lambda>(short_message, rest).
     bindE (decode_optional_params CommandId_SUBMIT_SM_REQ rest) (\<lambda>optional_params.
       Ok \<lparr>submit_service_type = service_type, submit_source_addr_ton = source_addr_ton, submit_source_addr_npi =
            source_addr_npi, submit_source_addr = source_addr, submit_dest_addr_ton = dest_addr_ton,
            submit_dest_addr_npi = dest_addr_npi, submit_destination_addr = destination_addr, submit_esm_class =
            esm_class, submit_protocol_id = protocol_id, submit_priority_flag = priority_flag,
            submit_schedule_delivery_time = schedule_delivery_time, submit_validity_period = validity_period,
            submit_registered_delivery = registered_delivery, submit_replace_if_present_flag =
            replace_if_present_flag, submit_data_coding = data_coding, submit_sm_default_msg_id = sm_default_msg_id,
            submit_short_message = short_message, submit_optional_params = optional_params\<rparr>))))))))))))))))))"

definition encode_submit_sm_req :: "(DateTime \<Rightarrow> int result) \<Rightarrow> SubmitSmReq \<Rightarrow> int list result" where
  "encode_submit_sm_req local_offset p =
     appendE (encode_cstring (submit_service_type p))
    (appendE (yield_byte (TypeOfNumber_value (submit_source_addr_ton p)))
    (appendE (yield_byte (NumericPlanIndicator_value (submit_source_addr_npi p)))
    (appendE (encode_cstring (submit_source_addr p))
    (appendE (yield_byte (TypeOfNumber_value (submit_dest_addr_ton p)))
    (appendE (yield_byte (NumericPlanIndicator_value (submit_dest_addr_npi p)))
    (appendE (encode_cstring (submit_destination_addr p))
    (appendE (encode_esm_class (submit_esm_class p))
    (appendE (yield_byte (submit_protocol_id p))
    (appendE (yield_byte (Priority_value (submit_priority_flag p)))
    (appendE (encode_smpp_time local_offset (submit_schedule_delivery_time p))
    (appendE (encode_smpp_time local_offset (submit_validity_period p))
    (appendE (encode_registered_delivery (submit_registered_delivery p))
    (appendE (yield_byte (if submit_replace_if_present_flag p then 1 else 0))
    (appendE (yield_byte (DataCoding_value (submit_data_coding p)))
    (appendE (yield_byte (submit_sm_default_msg_id p))
    (appendE (encode_short_message (submit_short_message p))
      (encode_optional_params CommandId_SUBMIT_SM_REQ (submit_optional_params p))))))))))))))))))"

definition decode_deliver_sm_req :: "bytes \<Rightarrow> DeliverSmReq result" where
  "decode_deliver_sm_req rest =
     bindE (decode_cstring rest) (\<lambda>(service_type, rest).
     bindE (decode_source_addr_ton rest) (\<lambda>(source_addr_ton, rest).
     bindE (decode_source_addr_npi rest) (\<lambda>(source_addr_npi, rest).
     bindE (decode_cstring rest) (\<lambda>(source_addr, rest).
     bindE (decode_dest_addr_ton rest) (\<lambda>(dest_addr_ton, rest).
     bindE (decode_dest_addr_npi rest) (\<lambda>(dest_addr_npi, rest).
     bindE (decode_cstring rest) (\<lambda>(destination_addr, rest).
     bindE (decode_esm_class rest) (\<lambda>(esm_class, rest).
     bindE (next_byte rest) (\<lambda>(protocol_id, rest).
     bindE (decode_priority_flag rest) (\<lambda>(priority_flag, rest).
     bindE (decode_cstring rest) (\<lambda>(_, rest).
     bindE (decode_cstring rest) (\<lambda>(_, rest).
     bindE (decode_registered_delivery rest) (\<lambda>(registered_delivery, rest).
     bindE (skip_byte rest) (\<lambda>(_, rest).
     bindE (decode_data_coding rest) (\<lambda>(data_coding, rest).
     bindE (skip_byte rest) (\<lambda>(_, rest).
     bindE (decode_short_message rest) (\<lambda>(short_message, rest).
     bindE (decode_optional_params CommandId_DELIVER_SM_REQ rest) (\<lambda>optional_params.
       Ok \<lparr>deliver_service_type = service_type, deliver_source_addr_ton = source_addr_ton, deliver_source_addr_npi =
            source_addr_npi, deliver_source_addr = source_addr, deliver_dest_addr_ton = dest_addr_ton,
            deliver_dest_addr_npi = dest_addr_npi, deliver_destination_addr = destination_addr, deliver_esm_class =
            esm_class, deliver_protocol_id = protocol_id, deliver_priority_flag = priority_flag,
            deliver_registered_delivery = registered_delivery, deliver_data_coding = data_coding,
            deliver_short_message = short_message, deliver_optional_params = optional_params\<rparr>))))))))))))))))))"

definition encode_deliver_sm_req :: "DeliverSmReq \<Rightarrow> int list result" where
  "encode_deliver_sm_req p =
     appendE (encode_cstring (deliver_service_type p))
    (appendE (yield_byte (TypeOfNumber_value (deliver_source_addr_ton p)))
    (appendE (yield_byte (NumericPlanIndicator_value (deliver_source_addr_npi p)))
    (appendE (encode_cstring (deliver_source_addr p))
    (appendE (yield_byte (TypeOfNumber_value (deliver_dest_addr_ton p)))
    (appendE (yield_byte (NumericPlanIndicator_value (deliver_dest_addr_npi p)))
    (appendE (encode_cstring (deliver_destination_addr p))
    (appendE (encode_esm_class (deliver_esm_class p))
    (appendE (yield_byte (deliver_protocol_id p))
    (appendE (yield_byte (Priority_value (deliver_priority_flag p)))
    (appendE (Ok [0])
    (appendE (Ok [0])
    (appendE (encode_registered_delivery (deliver_registered_delivery p))
    (appendE (Ok [0])
    (appendE (yield_byte (DataCoding_value (deliver_data_coding p)))
    (appendE (Ok [0])
    (appendE (encode_short_message (deliver_short_message p))
      (encode_optional_params CommandId_DELIVER_SM_REQ (deliver_optional_params p))))))))))))))))))"

definition decode_data_sm_req :: "bytes \<Rightarrow> DataSmReq result" where
  "decode_data_sm_req rest =
     bindE (decode_cstring rest) (\<lambda>(service_type, rest).
     bindE (decode_source_addr_ton rest) (\<lambda>(source_addr_ton, rest).
     bindE (decode_source_addr_npi rest) (\<lambda>(source_addr_npi, rest).
     bindE (decode_cstring rest) (\<lambda>(source_addr, rest).
     bindE (decode_dest_addr_ton rest) (\<lambda>(dest_addr_ton, rest).
     bindE (decode_dest_addr_npi rest) (\<lambda>(dest_addr_npi, rest).
     bindE (decode_cstring rest) (\<lambda>(destination_addr, rest).
     bindE (decode_esm_class rest) (\<lambda>(esm_class, rest).
     bindE (decode_registered_delivery rest) (\<lambda>(registered_delivery, rest).
     bindE (decode_data_coding rest) (\<lambda>(data_coding, rest).
     bindE (decode_optional_params CommandId_DATA_SM_REQ rest) (\<lambda>optional_params.
       Ok \<lparr>datasm_service_type = service_type, datasm_source_addr_ton = source_addr_ton, datasm_source_addr_npi =
            source_addr_npi, datasm_source_addr = source_addr, datasm_dest_addr_ton = dest_addr_ton,
            datasm_dest_addr_npi = dest_addr_npi, datasm_destination_addr = destination_addr, datasm_esm_class =
            esm_class, datasm_registered_delivery = registered_delivery, datasm_data_coding = data_coding,
            datasm_optional_params = optional_params\<rparr>)))))))))))"

definition encode_data_sm_req :: "DataSmReq \<Rightarrow> int list result" where
  "encode_data_sm_req p =
     appendE (encode_cstring (datasm_service_type p))
    (appendE (yield_byte (TypeOfNumber_value (datasm_source_addr_ton p)))
    (appendE (yield_byte (NumericPlanIndicator_value (datasm_source_addr_npi p)))
    (appendE (encode_cstring (datasm_source_addr p))
    (appendE (yield_byte (TypeOfNumber_value (datasm_dest_addr_ton p)))
    (appendE (yield_byte (NumericPlanIndicator_value (datasm_dest_addr_npi p)))
    (appendE (encode_cstring (datasm_destination_addr p))
    (appendE (encode_esm_class (datasm_esm_class p))
    (appendE (encode_registered_delivery (datasm_registered_delivery p))
    (appendE (yield_byte (DataCoding_value (datasm_data_coding p)))
      (encode_optional_params CommandId_DATA_SM_REQ (datasm_optional_params p)))))))))))"

definition decode_query_sm_req :: "bytes \<Rightarrow> QuerySmReq result" where
  "decode_query_sm_req rest =
     bindE (decode_cbytes rest) (\<lambda>(message_id, rest).
     bindE (decode_source_addr_ton rest) (\<lambda>(source_addr_ton, rest).
     bindE (decode_source_addr_npi rest) (\<lambda>(source_addr_npi, rest).
     bindE (decode_cstring rest) (\<lambda>(source_addr, rest).
       Ok \<lparr>query_message_id = message_id, query_source_addr_ton = source_addr_ton, query_source_addr_npi =
            source_addr_npi, query_source_addr = source_addr\<rparr>))))"

definition encode_query_sm_req :: "QuerySmReq \<Rightarrow> int list result" where
  "encode_query_sm_req p =
     appendE (encode_cbytes (query_message_id p))
    (appendE (yield_byte (TypeOfNumber_value (query_source_addr_ton p)))
    (appendE (yield_byte (NumericPlanIndicator_value (query_source_addr_npi p)))
      (encode_cstring (query_source_addr p))))"

definition decode_cancel_sm_req :: "bytes \<Rightarrow> CancelSmReq result" where
  "decode_cancel_sm_req rest =
     bindE (decode_cstring rest) (\<lambda>(service_type, rest).
     bindE (decode_cbytes rest) (\<lambda>(message_id, rest).
     bindE (decode_source_addr_ton rest) (\<lambda>(source_addr_ton, rest).
     bindE (decode_source_addr_npi rest) (\<lambda>(source_addr_npi, rest).
     bindE (decode_cstring rest) (\<lambda>(source_addr, rest).
     bindE (decode_dest_addr_ton rest) (\<lambda>(dest_addr_ton, rest).
     bindE (decode_dest_addr_npi rest) (\<lambda>(dest_addr_npi, rest).
     bindE (decode_cstring rest) (\<lambda>(destination_addr, rest).
       Ok \<lparr>cancel_service_type = service_type, cancel_message_id = message_id, cancel_source_addr_ton =
            source_addr_ton, cancel_source_addr_npi = source_addr_npi, cancel_source_addr = source_addr,
            cancel_dest_addr_ton = dest_addr_ton, cancel_dest_addr_npi = dest_addr_npi, cancel_destination_addr =
            destination_addr\<rparr>))))))))"

definition encode_cancel_sm_req :: "CancelSmReq \<Rightarrow> int list result" where
  "encode_cancel_sm_req p =
     appendE (encode_cstring (cancel_service_type p))
    (appendE (encode_cbytes (cancel_message_id p))
    (appendE (yield_byte (TypeOfNumber_value (cancel_source_addr_ton p)))
    (appendE (yield_byte (NumericPlanIndicator_value (cancel_source_addr_npi p)))
    (appendE (encode_cstring (cancel_source_addr p))
    (appendE (yield_byte (TypeOfNumber_value (cancel_dest_addr_ton p)))
    (appendE (yield_byte (NumericPlanIndicator_value (cancel_dest_addr_npi p)))
      (encode_cstring (cancel_destination_addr p))))))))"

definition decode_replace_sm_req :: "bytes \<Rightarrow> ReplaceSmReq result" where
  "decode_replace_sm_req rest =
     bindE (decode_cbytes rest) (\<lambda>(message_id, rest).
     bindE (decode_source_addr_ton rest) (\<lambda>(source_addr_ton, rest).
     bindE (decode_source_addr_npi rest) (\<lambda>(source_addr_npi, rest).
     bindE (decode_cstring rest) (\<lambda>(source_addr, rest).
     bindE (decode_schedule_delivery_time rest) (\<lambda>(schedule_delivery_time, rest).
     bindE (decode_validity_period rest) (\<lambda>(validity_period, rest).
     bindE (decode_registered_delivery rest) (\<lambda>(registered_delivery, rest).
     bindE (next_byte rest) (\<lambda>(sm_default_msg_id, rest).
     bindE (decode_short_message rest) (\<lambda>(short_message, rest).
       Ok \<lparr>replace_message_id = message_id, replace_source_addr_ton = source_addr_ton, replace_source_addr_npi =
            source_addr_npi, replace_source_addr = source_addr, replace_schedule_delivery_time =
            schedule_delivery_time, replace_validity_period = validity_period, replace_registered_delivery =
            registered_delivery, replace_sm_default_msg_id = sm_default_msg_id, replace_short_message = short_message\<rparr>)))))))))"

definition encode_replace_sm_req :: "(DateTime \<Rightarrow> int result) \<Rightarrow> ReplaceSmReq \<Rightarrow> int list result" where
  "encode_replace_sm_req local_offset p =
     appendE (encode_cbytes (replace_message_id p))
    (appendE (yield_byte (TypeOfNumber_value (replace_source_addr_ton p)))
    (appendE (yield_byte (NumericPlanIndicator_value (replace_source_addr_npi p)))
    (appendE (encode_cstring (replace_source_addr p))
    (appendE (encode_smpp_time local_offset (replace_schedule_delivery_time p))
    (appendE (encode_smpp_time local_offset (replace_validity_period p))
    (appendE (encode_registered_delivery (replace_registered_delivery p))
    (appendE (yield_byte (replace_sm_default_msg_id p))
      (encode_short_message (replace_short_message p)))))))))"

section \<open>Responses\<close>

definition decode_bind_res :: "BindType \<Rightarrow> bytes \<Rightarrow> BindRes result" where
  "decode_bind_res bind_type rest =
     bindE (decode_cstring rest) (\<lambda>(system_id, rest).
     bindE (decode_optional_params CommandId_BIND_RECEIVER_RESP rest) (\<lambda>optional_params.
       Ok \<lparr>bindres_bind_type = bind_type, bindres_system_id = system_id, bindres_optional_params = optional_params\<rparr>))"

definition encode_bind_res :: "BindRes \<Rightarrow> int list result" where
  "encode_bind_res p =
     appendE (encode_cstring (bindres_system_id p))
      (encode_optional_params CommandId_BIND_RECEIVER_RESP (bindres_optional_params p))"

definition decode_submit_sm_res :: "bytes \<Rightarrow> SubmitSmRes result" where
  "decode_submit_sm_res rest =
     bindE (decode_cbytes rest) (\<lambda>(message_id, rest).
       Ok \<lparr>submitres_message_id = message_id\<rparr>)"

definition encode_submit_sm_res :: "SubmitSmRes \<Rightarrow> int list result" where
  "encode_submit_sm_res p =
     encode_cbytes (submitres_message_id p)"

definition decode_data_sm_res :: "bytes \<Rightarrow> DataSmRes result" where
  "decode_data_sm_res rest =
     bindE (decode_cbytes rest) (\<lambda>(message_id, rest).
     bindE (decode_optional_params CommandId_DATA_SM_RESP rest) (\<lambda>optional_params.
       Ok \<lparr>datares_message_id = message_id, datares_optional_params = optional_params\<rparr>))"

definition encode_data_sm_res :: "DataSmRes \<Rightarrow> int list result" where
  "encode_data_sm_res p =
     appendE (encode_cbytes (datares_message_id p))
      (encode_optional_params CommandId_DATA_SM_RESP (datares_optional_params p))"

definition decode_query_sm_res :: "bytes \<Rightarrow> QuerySmRes result" where
  "decode_query_sm_res rest =
     bindE (decode_cbytes rest) (\<lambda>(message_id, rest).
     bindE (decode_smpp_time rest) (\<lambda>(final_date, rest).
     bindE (decode_message_state rest) (\<lambda>(message_state, rest).
     bindE (next_byte rest) (\<lambda>(error_code, rest).
       Ok \<lparr>queryres_message_id = message_id, queryres_final_date = final_date, queryres_message_state =
            message_state, queryres_error_code = error_code\<rparr>))))"

definition encode_query_sm_res :: "(DateTime \<Rightarrow> int result) \<Rightarrow> QuerySmRes \<Rightarrow> int list result" where
  "encode_query_sm_res local_offset p =
     appendE (encode_cbytes (queryres_message_id p))
    (appendE (encode_smpp_time local_offset (queryres_final_date p))
    (appendE (yield_byte (MessageState_value (queryres_message_state p)))
      (yield_byte (queryres_error_code p))))"

section \<open>Notifications\<close>

definition decode_outbind_notification :: "bytes \<Rightarrow> OutbindNotification result" where
  "decode_outbind_notification rest =
     bindE (decode_cstring rest) (\<lambda>(system_id, rest).
     bindE (decode_cstring rest) (\<lambda>(password, rest).
       Ok \<lparr>outbind_system_id = system_id, outbind_password = password\<rparr>))"

definition encode_outbind_notification :: "OutbindNotification \<Rightarrow> int list result" where
  "encode_outbind_notification p =
     appendE (encode_cstring (outbind_system_id p))
      (encode_cstring (outbind_password p))"

definition decode_alert_notification :: "bytes \<Rightarrow> AlertNotification result" where
  "decode_alert_notification rest =
     bindE (decode_source_addr_ton rest) (\<lambda>(source_addr_ton, rest).
     bindE (decode_source_addr_npi rest) (\<lambda>(source_addr_npi, rest).
     bindE (decode_cstring rest) (\<lambda>(source_addr, rest).
     bindE (decode_dest_addr_ton rest) (\<lambda>(esme_addr_ton, rest).
     bindE (decode_dest_addr_npi rest) (\<lambda>(esme_addr_npi, rest).
     bindE (decode_cstring rest) (\<lambda>(esme_addr, rest).
     bindE (decode_optional_params CommandId_ALERT_NOTIFICATION rest) (\<lambda>optional_params.
       Ok \<lparr>alert_source_addr_ton = source_addr_ton, alert_source_addr_npi = source_addr_npi, alert_source_addr =
            source_addr, alert_esme_addr_ton = esme_addr_ton, alert_esme_addr_npi = esme_addr_npi, alert_esme_addr =
            esme_addr, alert_optional_params = optional_params\<rparr>)))))))"

definition encode_alert_notification :: "AlertNotification \<Rightarrow> int list result" where
  "encode_alert_notification p =
     appendE (yield_byte (TypeOfNumber_value (alert_source_addr_ton p)))
    (appendE (yield_byte (NumericPlanIndicator_value (alert_source_addr_npi p)))
    (appendE (encode_cstring (alert_source_addr p))
    (appendE (yield_byte (TypeOfNumber_value (alert_esme_addr_ton p)))
    (appendE (yield_byte (NumericPlanIndicator_value (alert_esme_addr_npi p)))
    (appendE (encode_cstring (alert_esme_addr p))
      (encode_optional_params CommandId_ALERT_NOTIFICATION (alert_optional_params p)))))))"

section \<open>Bodies\<close>

definition decode_smpp_body :: "CommandId \<Rightarrow> bytes \<Rightarrow> Body result" where
  "decode_smpp_body command_id body_bytes =
     (case command_id of
        CommandId_GENERIC_NACK \<Rightarrow> command_status_error ESME_RUNKNOWNERR
      | CommandId_BIND_RECEIVER_REQ \<Rightarrow> bindE (decode_bind_req BindType_RECEIVER body_bytes) (\<lambda>p. Ok (BodyReq (Req_Bind p)))
      | CommandId_BIND_RECEIVER_RESP \<Rightarrow> bindE (decode_bind_res BindType_RECEIVER body_bytes) (\<lambda>p. Ok (BodyRes (Res_Bind p)))
      | CommandId_BIND_TRANSMITTER_REQ \<Rightarrow> bindE (decode_bind_req BindType_TRANSMITTER body_bytes) (\<lambda>p. Ok (BodyReq (Req_Bind p)))
      | CommandId_BIND_TRANSMITTER_RESP \<Rightarrow> bindE (decode_bind_res BindType_TRANSMITTER body_bytes) (\<lambda>p. Ok (BodyRes (Res_Bind p)))
      | CommandId_QUERY_SM_REQ \<Rightarrow> bindE (decode_query_sm_req body_bytes) (\<lambda>p. Ok (BodyReq (Req_QuerySm p)))
      | CommandId_QUERY_SM_RESP \<Rightarrow> bindE (decode_query_sm_res body_bytes) (\<lambda>p. Ok (BodyRes (Res_QuerySm p)))
      | CommandId_SUBMIT_SM_REQ \<Rightarrow> bindE (decode_submit_sm_req body_bytes) (\<lambda>p. Ok (BodyReq (Req_SubmitSm p)))
      | CommandId_SUBMIT_SM_RESP \<Rightarrow> bindE (decode_submit_sm_res body_bytes) (\<lambda>p. Ok (BodyRes (Res_SubmitSm p)))
      | CommandId_DELIVER_SM_REQ \<Rightarrow> bindE (decode_deliver_sm_req body_bytes) (\<lambda>p. Ok (BodyReq (Req_DeliverSm p)))
      | CommandId_DELIVER_SM_RESP \<Rightarrow> Ok (BodyRes Res_DeliverSm)
      | CommandId_UNBIND_REQ \<Rightarrow> Ok (BodyReq Req_Unbind)
      | CommandId_UNBIND_RESP \<Rightarrow> Ok (BodyRes Res_Unbind)
      | CommandId_REPLACE_SM_REQ \<Rightarrow> bindE (decode_replace_sm_req body_bytes) (\<lambda>p. Ok (BodyReq (Req_ReplaceSm p)))
      | CommandId_REPLACE_SM_RESP \<Rightarrow> Ok (BodyRes Res_ReplaceSm)
      | CommandId_CANCEL_SM_REQ \<Rightarrow> bindE (decode_cancel_sm_req body_bytes) (\<lambda>p. Ok (BodyReq (Req_CancelSm p)))
      | CommandId_CANCEL_SM_RESP \<Rightarrow> Ok (BodyRes Res_CancelSm)
      | CommandId_BIND_TRANSCEIVER_REQ \<Rightarrow> bindE (decode_bind_req BindType_TRANSCEIVER body_bytes) (\<lambda>p. Ok (BodyReq (Req_Bind p)))
      | CommandId_BIND_TRANSCEIVER_RESP \<Rightarrow> bindE (decode_bind_res BindType_TRANSCEIVER body_bytes) (\<lambda>p. Ok (BodyRes (Res_Bind p)))
      | CommandId_OUTBIND \<Rightarrow> bindE (decode_outbind_notification body_bytes) (\<lambda>p. Ok (BodyNotify (Outbind p)))
      | CommandId_ENQUIRE_LINK_REQ \<Rightarrow> Ok (BodyReq Req_EnquireLink)
      | CommandId_ENQUIRE_LINK_RESP \<Rightarrow> Ok (BodyRes Res_EnquireLink)
      | CommandId_SUBMIT_MULTI_REQ \<Rightarrow> Ok (BodyReq Req_SubmitMulti)
      | CommandId_SUBMIT_MULTI_RESP \<Rightarrow> Ok (BodyRes Res_SubmitMulti)
      | CommandId_ALERT_NOTIFICATION \<Rightarrow> bindE (decode_alert_notification body_bytes) (\<lambda>p. Ok (BodyNotify (Alert p)))
      | CommandId_DATA_SM_REQ \<Rightarrow> bindE (decode_data_sm_req body_bytes) (\<lambda>p. Ok (BodyReq (Req_DataSm p)))
      | CommandId_DATA_SM_RESP \<Rightarrow> bindE (decode_data_sm_res body_bytes) (\<lambda>p. Ok (BodyRes (Res_DataSm p))))"

text \<open>\<open>submit_multi\<close> is a TODO of the code.\<close>

fun encode_smpp_body :: "(DateTime \<Rightarrow> int result) \<Rightarrow> Body \<Rightarrow> int list result" where
  "encode_smpp_body local_offset (BodyReq (Req_Bind p)) = encode_bind_req p"
| "encode_smpp_body local_offset (BodyRes (Res_Bind p)) = encode_bind_res p"
| "encode_smpp_body local_offset (BodyReq Req_Unbind) = Ok []"
| "encode_smpp_body local_offset (BodyRes Res_Unbind) = Ok []"
| "encode_smpp_body local_offset (BodyReq (Req_SubmitSm p)) = encode_submit_sm_req local_offset p"
| "encode_smpp_body local_offset (BodyRes (Res_SubmitSm p)) = encode_submit_sm_res p"
| "encode_smpp_body local_offset (BodyReq Req_SubmitMulti) = Raise NotImplementedError"
| "encode_smpp_body local_offset (BodyRes Res_SubmitMulti) = Raise NotImplementedError"
| "encode_smpp_body local_offset (BodyReq (Req_DeliverSm p)) = encode_deliver_sm_req p"
| "encode_smpp_body local_offset (BodyRes Res_DeliverSm) = Ok []"
| "encode_smpp_body local_offset (BodyReq (Req_DataSm p)) = encode_data_sm_req p"
| "encode_smpp_body local_offset (BodyRes (Res_DataSm p)) = encode_data_sm_res p"
| "encode_smpp_body local_offset (BodyReq (Req_QuerySm p)) = encode_query_sm_req p"
| "encode_smpp_body local_offset (BodyRes (Res_QuerySm p)) = encode_query_sm_res local_offset p"
| "encode_smpp_body local_offset (BodyReq (Req_CancelSm p)) = encode_cancel_sm_req p"
| "encode_smpp_body local_offset (BodyRes Res_CancelSm) = Ok []"
| "encode_smpp_body local_offset (BodyReq (Req_ReplaceSm p)) = encode_replace_sm_req local_offset p"
| "encode_smpp_body local_offset (BodyRes Res_ReplaceSm) = Ok []"
| "encode_smpp_body local_offset (BodyReq Req_EnquireLink) = Ok []"
| "encode_smpp_body local_offset (BodyRes Res_EnquireLink) = Ok []"
| "encode_smpp_body local_offset (BodyNotify (Outbind p)) = encode_outbind_notification p"
| "encode_smpp_body local_offset (BodyNotify (Alert p)) = encode_alert_notification p"

section \<open>Headers\<close>

definition decode_sequence_number :: "bytes \<Rightarrow> int result" where
  "decode_sequence_number header_bytes = bindE (unpack_be [4] (drop 12 header_bytes)) (\<lambda>v. Ok (v ! 0))"

definition decode_header :: "bytes \<Rightarrow> Header result" where
  "decode_header header_bytes =
     bindE (unpack_be [4, 4, 4, 4] header_bytes) (\<lambda>v.
     if v ! 0 < 16 then command_status_error ESME_RINVCMDLEN
     else bindE (value_error_status ESME_RINVCMDID (CommandId_of (v ! 1))) (\<lambda>command_id.
       Ok \<lparr>header_command_length = v ! 0, header_command_id = command_id,
           header_command_status = (case CommandStatus_of (v ! 2) of Inl _ \<Rightarrow> ESME_RUNKNOWNERR | Inr status \<Rightarrow> status),
           header_sequence_number = v ! 3\<rparr>))"

definition encode_header :: "Header \<Rightarrow> int list result" where
  "encode_header h =
     pack_be [(4, header_command_length h), (4, CommandId_value (header_command_id h)),
       (4, CommandStatus_value (header_command_status h)), (4, header_sequence_number h)]"

section \<open>Command identifiers\<close>

text \<open>\<open>_get_request_command_id\<close> and its counterparts in \<^verbatim>\<open>smpp/transport/connection.py\<close>.\<close>

fun get_request_command_id :: "SmppRequest \<Rightarrow> CommandId" where
  "get_request_command_id (Req_Bind p) =
     (case bind_bind_type p of
        BindType_TRANSMITTER \<Rightarrow> CommandId_BIND_TRANSMITTER_REQ
      | BindType_RECEIVER \<Rightarrow> CommandId_BIND_RECEIVER_REQ
      | BindType_TRANSCEIVER \<Rightarrow> CommandId_BIND_TRANSCEIVER_REQ)"
| "get_request_command_id Req_Unbind = CommandId_UNBIND_REQ"
| "get_request_command_id (Req_SubmitSm _) = CommandId_SUBMIT_SM_REQ"
| "get_request_command_id Req_SubmitMulti = CommandId_SUBMIT_MULTI_REQ"
| "get_request_command_id (Req_DeliverSm _) = CommandId_DELIVER_SM_REQ"
| "get_request_command_id (Req_DataSm _) = CommandId_DATA_SM_REQ"
| "get_request_command_id (Req_QuerySm _) = CommandId_QUERY_SM_REQ"
| "get_request_command_id (Req_CancelSm _) = CommandId_CANCEL_SM_REQ"
| "get_request_command_id (Req_ReplaceSm _) = CommandId_REPLACE_SM_REQ"
| "get_request_command_id Req_EnquireLink = CommandId_ENQUIRE_LINK_REQ"

fun get_response_command_id :: "SmppResponse \<Rightarrow> CommandId" where
  "get_response_command_id (Res_Bind p) =
     (case bindres_bind_type p of
        BindType_TRANSMITTER \<Rightarrow> CommandId_BIND_TRANSMITTER_RESP
      | BindType_RECEIVER \<Rightarrow> CommandId_BIND_RECEIVER_RESP
      | BindType_TRANSCEIVER \<Rightarrow> CommandId_BIND_TRANSCEIVER_RESP)"
| "get_response_command_id Res_Unbind = CommandId_UNBIND_RESP"
| "get_response_command_id (Res_SubmitSm _) = CommandId_SUBMIT_SM_RESP"
| "get_response_command_id Res_SubmitMulti = CommandId_SUBMIT_MULTI_RESP"
| "get_response_command_id Res_DeliverSm = CommandId_DELIVER_SM_RESP"
| "get_response_command_id (Res_DataSm _) = CommandId_DATA_SM_RESP"
| "get_response_command_id (Res_QuerySm _) = CommandId_QUERY_SM_RESP"
| "get_response_command_id Res_CancelSm = CommandId_CANCEL_SM_RESP"
| "get_response_command_id Res_ReplaceSm = CommandId_REPLACE_SM_RESP"
| "get_response_command_id Res_EnquireLink = CommandId_ENQUIRE_LINK_RESP"

fun get_notification_command_id :: "Notification \<Rightarrow> CommandId" where
  "get_notification_command_id (Outbind _) = CommandId_OUTBIND"
| "get_notification_command_id (Alert _) = CommandId_ALERT_NOTIFICATION"

fun body_command_id :: "Body \<Rightarrow> CommandId" where
  "body_command_id (BodyReq r) = get_request_command_id r"
| "body_command_id (BodyRes r) = get_response_command_id r"
| "body_command_id (BodyNotify n) = get_notification_command_id n"

end
