(* ===== verification/Smpp_Codec.thy ===== *)
theory Smpp_Codec
  imports Smpp_Encoder
begin

text \<open>
  The round trip of SMPP bodies and headers. Text has to be ASCII without zeros, identifiers of messages
  without zeros, times and optional parameters as \<open>smpp_time_ok\<close> and \<open>params_ok\<close> say.
\<close>

unbundle bit_operations_syntax

section \<open>Composition\<close>

lemma decodes_append:
  assumes "reads m dec x" "decodes m' (F x) y"
  shows "decodes (appendE m m') (\<lambda>data. bindE (dec data) (case_prod F)) y"
  using assms by (auto simp: reads_def decodes_def appendE_Ok_iff)

lemma decodes_last:
  assumes "reads m dec x" "\<And>data. F x data = Ok y"
  shows "decodes m (\<lambda>data. bindE (dec data) (case_prod F)) y"
  using assms readsD [OF assms(1), of _ "[]"] by (auto simp: decodes_def reads_bytes)

lemma decodes_whole:
  assumes "decodes m dec x" "F x = Ok y"
  shows "decodes m (\<lambda>data. bindE (dec data) F) y"
  using assms by (auto simp: decodes_def)

section \<open>Parts\<close>

lemma reads_yield:
  assumes "\<And>rest. is_byte n \<Longrightarrow> dec (word_of_int n # rest) = Ok (x, rest)"
  shows "reads (yield_byte n) dec x"
  using assms by (simp add: reads_def)

lemma reads_next_byte: "reads (yield_byte n) next_byte n"
  by (rule reads_yield) (simp add: next_byte_def uint_of_byte)

lemma reads_next_bool: "reads (yield_byte (if b then 1 else 0)) next_bool b"
  by (rule reads_yield) (simp add: next_bool_def)

lemma reads_skip: "reads (Ok [0]) skip_byte ()"
  by (simp add: reads_def skip_byte_def is_byte_def)

lemma reads_empty: "reads (Ok [0]) decode_cstring []"
  by (simp add: reads_def decode_cstring_def decode_ascii_def is_byte_def)

lemma reads_enum_byte:
  assumes "of_int' (val x) = Ok x"
  shows "reads (yield_byte (val x)) (decode_enum_byte of_int' status) x"
  using assms by (intro reads_yield) (simp add: decode_enum_byte_def uint_of_byte)

lemma reads_enums:
  "reads (yield_byte (TypeOfNumber_value t)) decode_source_addr_ton t" "reads (yield_byte (TypeOfNumber_value t)) decode_dest_addr_ton t"
  "reads (yield_byte (NumericPlanIndicator_value n)) decode_source_addr_npi n"
  "reads (yield_byte (NumericPlanIndicator_value n)) decode_dest_addr_npi n"
  "reads (yield_byte (Priority_value p)) decode_priority_flag p"
  by (simp_all only: decode_source_addr_ton_def decode_dest_addr_ton_def decode_source_addr_npi_def decode_dest_addr_npi_def
      decode_priority_flag_def reads_enum_byte TypeOfNumber_of_value NumericPlanIndicator_of_value Priority_of_value)

lemma reads_data_coding: "reads (yield_byte (DataCoding_value c)) decode_data_coding c"
proof (rule reads_yield)
  have c: "DataCoding_value c AND 0x0f = DataCoding_value c" by (cases c) simp_all
  show "is_byte (DataCoding_value c) \<Longrightarrow> decode_data_coding (word_of_int (DataCoding_value c) # rest) = Ok (c, rest)" for rest
    by (simp add: decode_data_coding_def uint_of_byte c)
qed

lemma reads_message_state: "reads (yield_byte (MessageState_value s)) decode_message_state s"
  by (rule reads_yield) (simp add: decode_message_state_def uint_of_byte)

lemma reads_times:
  assumes "smpp_time_ok x"
  shows "reads (encode_smpp_time local_offset x) decode_schedule_delivery_time x"
    "reads (encode_smpp_time local_offset x) decode_validity_period x"
  using reads_smpp_time [OF assms] by (simp_all add: reads_def decode_schedule_delivery_time_def decode_validity_period_def)

lemma reads_short_message: "reads (encode_short_message bs) decode_short_message bs"
  by (auto simp: reads_def encode_short_message_def decode_short_message_def appendE_Ok_iff uint_of_byte simp del: of_int_of_nat_eq split: if_splits)

lemma reads_esm_class: "reads (encode_esm_class c) decode_esm_class c"
proof -
  let ?S = "esm_gsm_features c"
  define n where "n = or_flags GsmFeature_value GsmFeature_members 6 ?S
    (MessagingMode_value (esm_messaging_mode c) OR push_bit 2 (MessageType_value (esm_message_type c)))"
  have "n = (let n = MessagingMode_value (esm_messaging_mode c) OR push_bit 2 (MessageType_value (esm_message_type c));
      n = (if GsmFeature_UDHI \<in> ?S then n OR 0x40 else n) in if GsmFeature_REPLY_PATH \<in> ?S then n OR 0x80 else n)"
    by (simp add: n_def or_flags_def GsmFeature_members_def Let_def)
  then have bits: "n AND 0x03 = MessagingMode_value (esm_messaging_mode c)" "drop_bit 2 n AND 0x0f = MessageType_value (esm_message_type c)"
      "drop_bit 6 n AND 1 \<noteq> 0 \<longleftrightarrow> GsmFeature_UDHI \<in> ?S" "drop_bit 6 n AND 2 \<noteq> 0 \<longleftrightarrow> GsmFeature_REPLY_PATH \<in> ?S"
    by (cases "GsmFeature_UDHI \<in> ?S"; cases "GsmFeature_REPLY_PATH \<in> ?S"; cases "esm_messaging_mode c"; cases "esm_message_type c"; simp)+
  have S: "flags_of GsmFeature_value GsmFeature_members (drop_bit 6 n) = ?S"
  proof (rule set_eqI)
    show "x \<in> flags_of GsmFeature_value GsmFeature_members (drop_bit 6 n) \<longleftrightarrow> x \<in> ?S" for x
      using bits(3,4) by (cases x) (simp_all add: flags_of_def GsmFeature_members_def)
  qed
  have "reads (yield_byte n) decode_esm_class c"
    by (rule reads_yield) (simp add: decode_esm_class_def uint_of_byte bits(1,2) S)
  then show ?thesis by (simp only: encode_esm_class_def n_def)
qed

lemma reads_registered_delivery: "reads (encode_registered_delivery r) decode_registered_delivery r"
proof -
  let ?S = "reg_acknowledgements r"
  define m where "m = or_flags Acknowledgement_value Acknowledgement_members 2 ?S (DeliveryReceipt_value (reg_delivery_receipt r))"
  define n where "n = (if reg_intermediate_notification r then m OR 0x10 else m)"
  have "n = (let n = DeliveryReceipt_value (reg_delivery_receipt r); n = (if Acknowledgement_DELIVERY \<in> ?S then n OR 0x04 else n);
      n = (if Acknowledgement_MANUAL \<in> ?S then n OR 0x08 else n) in if reg_intermediate_notification r then n OR 0x10 else n)"
    by (simp add: n_def m_def or_flags_def Acknowledgement_members_def Let_def)
  then have bits: "n AND 0x03 = DeliveryReceipt_value (reg_delivery_receipt r)" "n AND 0x10 \<noteq> 0 \<longleftrightarrow> reg_intermediate_notification r"
      "drop_bit 2 n AND 1 \<noteq> 0 \<longleftrightarrow> Acknowledgement_DELIVERY \<in> ?S" "drop_bit 2 n AND 2 \<noteq> 0 \<longleftrightarrow> Acknowledgement_MANUAL \<in> ?S"
    by (cases "Acknowledgement_DELIVERY \<in> ?S"; cases "Acknowledgement_MANUAL \<in> ?S"; cases "reg_delivery_receipt r";
        cases "reg_intermediate_notification r"; simp)+
  have S: "flags_of Acknowledgement_value Acknowledgement_members (drop_bit 2 n) = ?S"
  proof (rule set_eqI)
    show "x \<in> flags_of Acknowledgement_value Acknowledgement_members (drop_bit 2 n) \<longleftrightarrow> x \<in> ?S" for x
      using bits(3,4) by (cases x) (simp_all add: flags_of_def Acknowledgement_members_def)
  qed
  have "reads (yield_byte n) decode_registered_delivery r"
    by (rule reads_yield) (simp add: decode_registered_delivery_def uint_of_byte bits(1,2) S)
  then show ?thesis by (simp only: encode_registered_delivery_def n_def m_def Let_def)
qed

lemmas reads_parts = reads_next_byte reads_next_bool reads_skip reads_empty reads_enums reads_data_coding reads_message_state
  reads_short_message reads_esm_class reads_registered_delivery

section \<open>Bodies\<close>

definition bind_req_ok :: "BindReq \<Rightarrow> bool" where
  "bind_req_ok p \<longleftrightarrow>
     cstr_ok (bind_system_id p) \<and> cstr_ok (bind_password p) \<and> cstr_ok (bind_system_type p) \<and> cstr_ok
     (bind_address_range p)"

lemma decodes_bind_req:
  assumes "bind_req_ok p"
  shows "decodes (encode_bind_req p) (decode_bind_req (bind_bind_type p)) p"
proof -
  from assms have ok: "cstr_ok (bind_system_id p)" "cstr_ok (bind_password p)" "cstr_ok (bind_system_type p)" "cstr_ok (bind_address_range p)"
    by (simp_all add: bind_req_ok_def)
  note parts = reads_parts reads_cstring [OF ok(1)] reads_cstring [OF ok(2)] reads_cstring [OF ok(3)] reads_cstring [OF ok(4)]
  show ?thesis
    unfolding encode_bind_req_def decode_bind_req_def
    by (rule parts [THEN decodes_append] parts [THEN decodes_last])+ simp
qed

definition submit_sm_req_ok :: "SubmitSmReq \<Rightarrow> bool" where
  "submit_sm_req_ok p \<longleftrightarrow>
     cstr_ok (submit_service_type p) \<and> cstr_ok (submit_source_addr p) \<and> cstr_ok (submit_destination_addr p)
     \<and> smpp_time_ok (submit_schedule_delivery_time p) \<and> smpp_time_ok (submit_validity_period p) \<and> params_ok
     (submit_optional_params p)"

lemma decodes_submit_sm_req:
  assumes "submit_sm_req_ok p"
  shows "decodes (encode_submit_sm_req local_offset p) decode_submit_sm_req p"
proof -
  from assms have ok: "cstr_ok (submit_service_type p)" "cstr_ok (submit_source_addr p)" "cstr_ok (submit_destination_addr p)" "smpp_time_ok (submit_schedule_delivery_time p)" "smpp_time_ok (submit_validity_period p)" "params_ok (submit_optional_params p)"
    by (simp_all add: submit_sm_req_ok_def)
  note parts = reads_parts reads_cstring [OF ok(1)] reads_cstring [OF ok(2)] reads_cstring [OF ok(3)] reads_times(1) [OF ok(4)] reads_times(2) [OF ok(5)]
  show ?thesis
    unfolding encode_submit_sm_req_def decode_submit_sm_req_def
    by (rule parts [THEN decodes_append] decodes_whole [OF decodes_params [OF ok(6)]])+ simp
qed

definition deliver_sm_req_ok :: "DeliverSmReq \<Rightarrow> bool" where
  "deliver_sm_req_ok p \<longleftrightarrow>
     cstr_ok (deliver_service_type p) \<and> cstr_ok (deliver_source_addr p) \<and> cstr_ok (deliver_destination_addr p)
     \<and> params_ok (deliver_optional_params p)"

lemma decodes_deliver_sm_req:
  assumes "deliver_sm_req_ok p"
  shows "decodes (encode_deliver_sm_req p) decode_deliver_sm_req p"
proof -
  from assms have ok: "cstr_ok (deliver_service_type p)" "cstr_ok (deliver_source_addr p)" "cstr_ok (deliver_destination_addr p)" "params_ok (deliver_optional_params p)"
    by (simp_all add: deliver_sm_req_ok_def)
  note parts = reads_parts reads_cstring [OF ok(1)] reads_cstring [OF ok(2)] reads_cstring [OF ok(3)]
  show ?thesis
    unfolding encode_deliver_sm_req_def decode_deliver_sm_req_def
    by (rule parts [THEN decodes_append] decodes_whole [OF decodes_params [OF ok(4)]])+ simp
qed

definition data_sm_req_ok :: "DataSmReq \<Rightarrow> bool" where
  "data_sm_req_ok p \<longleftrightarrow>
     cstr_ok (datasm_service_type p) \<and> cstr_ok (datasm_source_addr p) \<and> cstr_ok (datasm_destination_addr p)
     \<and> params_ok (datasm_optional_params p)"

lemma decodes_data_sm_req:
  assumes "data_sm_req_ok p"
  shows "decodes (encode_data_sm_req p) decode_data_sm_req p"
proof -
  from assms have ok: "cstr_ok (datasm_service_type p)" "cstr_ok (datasm_source_addr p)" "cstr_ok (datasm_destination_addr p)" "params_ok (datasm_optional_params p)"
    by (simp_all add: data_sm_req_ok_def)
  note parts = reads_parts reads_cstring [OF ok(1)] reads_cstring [OF ok(2)] reads_cstring [OF ok(3)]
  show ?thesis
    unfolding encode_data_sm_req_def decode_data_sm_req_def
    by (rule parts [THEN decodes_append] decodes_whole [OF decodes_params [OF ok(4)]])+ simp
qed

definition query_sm_req_ok :: "QuerySmReq \<Rightarrow> bool" where
  "query_sm_req_ok p \<longleftrightarrow>
     cbytes_ok (query_message_id p) \<and> cstr_ok (query_source_addr p)"

lemma decodes_query_sm_req:
  assumes "query_sm_req_ok p"
  shows "decodes (encode_query_sm_req p) decode_query_sm_req p"
proof -
  from assms have ok: "cbytes_ok (query_message_id p)" "cstr_ok (query_source_addr p)"
    by (simp_all add: query_sm_req_ok_def)
  note parts = reads_parts reads_cbytes [OF ok(1)] reads_cstring [OF ok(2)]
  show ?thesis
    unfolding encode_query_sm_req_def decode_query_sm_req_def
    by (rule parts [THEN decodes_append] parts [THEN decodes_last])+ simp
qed

definition cancel_sm_req_ok :: "CancelSmReq \<Rightarrow> bool" where
  "cancel_sm_req_ok p \<longleftrightarrow>
     cstr_ok (cancel_service_type p) \<and> cbytes_ok (cancel_message_id p) \<and> cstr_ok (cancel_source_addr p) \<and>
     cstr_ok (cancel_destination_addr p)"

lemma decodes_cancel_sm_req:
  assumes "cancel_sm_req_ok p"
  shows "decodes (encode_cancel_sm_req p) decode_cancel_sm_req p"
proof -
  from assms have ok: "cstr_ok (cancel_service_type p)" "cbytes_ok (cancel_message_id p)" "cstr_ok (cancel_source_addr p)" "cstr_ok (cancel_destination_addr p)"
    by (simp_all add: cancel_sm_req_ok_def)
  note parts = reads_parts reads_cstring [OF ok(1)] reads_cbytes [OF ok(2)] reads_cstring [OF ok(3)] reads_cstring [OF ok(4)]
  show ?thesis
    unfolding encode_cancel_sm_req_def decode_cancel_sm_req_def
    by (rule parts [THEN decodes_append] parts [THEN decodes_last])+ simp
qed

definition replace_sm_req_ok :: "ReplaceSmReq \<Rightarrow> bool" where
  "replace_sm_req_ok p \<longleftrightarrow>
     cbytes_ok (replace_message_id p) \<and> cstr_ok (replace_source_addr p) \<and> smpp_time_ok
     (replace_schedule_delivery_time p) \<and> smpp_time_ok (replace_validity_period p)"

lemma decodes_replace_sm_req:
  assumes "replace_sm_req_ok p"
  shows "decodes (encode_replace_sm_req local_offset p) decode_replace_sm_req p"
proof -
  from assms have ok: "cbytes_ok (replace_message_id p)" "cstr_ok (replace_source_addr p)" "smpp_time_ok (replace_schedule_delivery_time p)" "smpp_time_ok (replace_validity_period p)"
    by (simp_all add: replace_sm_req_ok_def)
  note parts = reads_parts reads_cbytes [OF ok(1)] reads_cstring [OF ok(2)] reads_times(1) [OF ok(3)] reads_times(2) [OF ok(4)]
  show ?thesis
    unfolding encode_replace_sm_req_def decode_replace_sm_req_def
    by (rule parts [THEN decodes_append] parts [THEN decodes_last])+ simp
qed

definition bind_res_ok :: "BindRes \<Rightarrow> bool" where
  "bind_res_ok p \<longleftrightarrow>
     cstr_ok (bindres_system_id p) \<and> params_ok (bindres_optional_params p)"

lemma decodes_bind_res:
  assumes "bind_res_ok p"
  shows "decodes (encode_bind_res p) (decode_bind_res (bindres_bind_type p)) p"
proof -
  from assms have ok: "cstr_ok (bindres_system_id p)" "params_ok (bindres_optional_params p)"
    by (simp_all add: bind_res_ok_def)
  note parts = reads_cstring [OF ok(1)]
  show ?thesis
    unfolding encode_bind_res_def decode_bind_res_def
    by (rule parts [THEN decodes_append] decodes_whole [OF decodes_params [OF ok(2)]])+ simp
qed

definition submit_sm_res_ok :: "SubmitSmRes \<Rightarrow> bool" where
  "submit_sm_res_ok p \<longleftrightarrow>
     cbytes_ok (submitres_message_id p)"

lemma decodes_submit_sm_res:
  assumes "submit_sm_res_ok p"
  shows "decodes (encode_submit_sm_res p) decode_submit_sm_res p"
proof -
  from assms have ok: "cbytes_ok (submitres_message_id p)"
    by (simp_all add: submit_sm_res_ok_def)
  note parts = reads_cbytes [OF ok]
  show ?thesis
    unfolding encode_submit_sm_res_def decode_submit_sm_res_def
    by (rule parts [THEN decodes_append] parts [THEN decodes_last])+ simp
qed

definition data_sm_res_ok :: "DataSmRes \<Rightarrow> bool" where
  "data_sm_res_ok p \<longleftrightarrow>
     cbytes_ok (datares_message_id p) \<and> params_ok (datares_optional_params p)"

lemma decodes_data_sm_res:
  assumes "data_sm_res_ok p"
  shows "decodes (encode_data_sm_res p) decode_data_sm_res p"
proof -
  from assms have ok: "cbytes_ok (datares_message_id p)" "params_ok (datares_optional_params p)"
    by (simp_all add: data_sm_res_ok_def)
  note parts = reads_cbytes [OF ok(1)]
  show ?thesis
    unfolding encode_data_sm_res_def decode_data_sm_res_def
    by (rule parts [THEN decodes_append] decodes_whole [OF decodes_params [OF ok(2)]])+ simp
qed

definition query_sm_res_ok :: "QuerySmRes \<Rightarrow> bool" where
  "query_sm_res_ok p \<longleftrightarrow>
     cbytes_ok (queryres_message_id p) \<and> smpp_time_ok (queryres_final_date p)"

lemma decodes_query_sm_res:
  assumes "query_sm_res_ok p"
  shows "decodes (encode_query_sm_res local_offset p) decode_query_sm_res p"
proof -
  from assms have ok: "cbytes_ok (queryres_message_id p)" "smpp_time_ok (queryres_final_date p)"
    by (simp_all add: query_sm_res_ok_def)
  note parts = reads_parts reads_cbytes [OF ok(1)] reads_smpp_time [OF ok(2)]
  show ?thesis
    unfolding encode_query_sm_res_def decode_query_sm_res_def
    by (rule parts [THEN decodes_append] parts [THEN decodes_last])+ simp
qed

definition outbind_notification_ok :: "OutbindNotification \<Rightarrow> bool" where
  "outbind_notification_ok p \<longleftrightarrow>
     cstr_ok (outbind_system_id p) \<and> cstr_ok (outbind_password p)"

lemma decodes_outbind_notification:
  assumes "outbind_notification_ok p"
  shows "decodes (encode_outbind_notification p) decode_outbind_notification p"
proof -
  from assms have ok: "cstr_ok (outbind_system_id p)" "cstr_ok (outbind_password p)"
    by (simp_all add: outbind_notification_ok_def)
  note parts = reads_cstring [OF ok(1)] reads_cstring [OF ok(2)]
  show ?thesis
    unfolding encode_outbind_notification_def decode_outbind_notification_def
    by (rule parts [THEN decodes_append] parts [THEN decodes_last])+ simp
qed

definition alert_notification_ok :: "AlertNotification \<Rightarrow> bool" where
  "alert_notification_ok p \<longleftrightarrow>
     cstr_ok (alert_source_addr p) \<and> cstr_ok (alert_esme_addr p) \<and> params_ok (alert_optional_params p)"

lemma decodes_alert_notification:
  assumes "alert_notification_ok p"
  shows "decodes (encode_alert_notification p) decode_alert_notification p"
proof -
  from assms have ok: "cstr_ok (alert_source_addr p)" "cstr_ok (alert_esme_addr p)" "params_ok (alert_optional_params p)"
    by (simp_all add: alert_notification_ok_def)
  note parts = reads_parts reads_cstring [OF ok(1)] reads_cstring [OF ok(2)]
  show ?thesis
    unfolding encode_alert_notification_def decode_alert_notification_def
    by (rule parts [THEN decodes_append] decodes_whole [OF decodes_params [OF ok(3)]])+ simp
qed

fun body_ok :: "Body \<Rightarrow> bool" where
  "body_ok (BodyReq (Req_Bind p)) \<longleftrightarrow> bind_req_ok p"
| "body_ok (BodyReq (Req_SubmitSm p)) \<longleftrightarrow> submit_sm_req_ok p"
| "body_ok (BodyReq (Req_DeliverSm p)) \<longleftrightarrow> deliver_sm_req_ok p"
| "body_ok (BodyReq (Req_DataSm p)) \<longleftrightarrow> data_sm_req_ok p"
| "body_ok (BodyReq (Req_QuerySm p)) \<longleftrightarrow> query_sm_req_ok p"
| "body_ok (BodyReq (Req_CancelSm p)) \<longleftrightarrow> cancel_sm_req_ok p"
| "body_ok (BodyReq (Req_ReplaceSm p)) \<longleftrightarrow> replace_sm_req_ok p"
| "body_ok (BodyRes (Res_Bind p)) \<longleftrightarrow> bind_res_ok p"
| "body_ok (BodyRes (Res_SubmitSm p)) \<longleftrightarrow> submit_sm_res_ok p"
| "body_ok (BodyRes (Res_DataSm p)) \<longleftrightarrow> data_sm_res_ok p"
| "body_ok (BodyRes (Res_QuerySm p)) \<longleftrightarrow> query_sm_res_ok p"
| "body_ok (BodyNotify (Outbind p)) \<longleftrightarrow> outbind_notification_ok p"
| "body_ok (BodyNotify (Alert p)) \<longleftrightarrow> alert_notification_ok p"
| "body_ok _ \<longleftrightarrow> True"

lemma decodes_refused [simp]: "decodes (Raise e) dec x"
  by (simp add: decodes_def)

lemma decodes_bind:
  "decodes m dec x \<Longrightarrow> decodes m (\<lambda>data. bindE (dec data) (\<lambda>p. Ok (C p))) (C x)"
  by (auto simp: decodes_def)

lemmas decodes_parts = decodes_bind_req decodes_submit_sm_req decodes_deliver_sm_req decodes_data_sm_req decodes_query_sm_req
  decodes_cancel_sm_req decodes_replace_sm_req decodes_bind_res decodes_submit_sm_res decodes_data_sm_res decodes_query_sm_res
  decodes_outbind_notification decodes_alert_notification

lemma decodes_request:
  assumes "body_ok (BodyReq r)"
  shows "decodes (encode_smpp_body local_offset (BodyReq r)) (decode_smpp_body (get_request_command_id r)) (BodyReq r)"
proof (cases r)
  case (Req_Bind p)
  with assms have "decodes (encode_bind_req p) (decode_bind_req (bind_bind_type p)) p" by (simp add: decodes_bind_req)
  from decodes_bind [OF this, of "\<lambda>p. BodyReq (Req_Bind p)"] Req_Bind show ?thesis
    by (cases "bind_bind_type p") (simp_all add: decode_smpp_body_def [abs_def])
qed (use assms in \<open>auto simp: decode_smpp_body_def [abs_def] decodes_def [of "Ok []"] intro: decodes_bind decodes_parts\<close>)

lemma decodes_response:
  assumes "body_ok (BodyRes r)"
  shows "decodes (encode_smpp_body local_offset (BodyRes r)) (decode_smpp_body (get_response_command_id r)) (BodyRes r)"
proof (cases r)
  case (Res_Bind p)
  with assms have "decodes (encode_bind_res p) (decode_bind_res (bindres_bind_type p)) p" by (simp add: decodes_bind_res)
  from decodes_bind [OF this, of "\<lambda>p. BodyRes (Res_Bind p)"] Res_Bind show ?thesis
    by (cases "bindres_bind_type p") (simp_all add: decode_smpp_body_def [abs_def])
qed (use assms in \<open>auto simp: decode_smpp_body_def [abs_def] decodes_def [of "Ok []"] intro: decodes_bind decodes_parts\<close>)

lemma decodes_notification:
  assumes "body_ok (BodyNotify n)"
  shows "decodes (encode_smpp_body local_offset (BodyNotify n)) (decode_smpp_body (get_notification_command_id n)) (BodyNotify n)"
  using assms by (cases n) (auto simp: decode_smpp_body_def [abs_def] intro: decodes_bind decodes_parts)

lemma decodes_body:
  "body_ok b \<Longrightarrow> decodes (encode_smpp_body local_offset b) (decode_smpp_body (body_command_id b)) b"
  by (cases b) (simp_all add: decodes_request decodes_response decodes_notification)

text \<open>C28: What the encoder accepts of a well-formed body is decoded, with the command identifier of the body, to the body.\<close>

theorem smpp_body_roundtrip:
  assumes "encode_smpp_body local_offset b = Ok ys" "body_ok b"
  shows "py_bytes ys = Ok (wire ys) \<and> decode_smpp_body (body_command_id b) (wire ys) = Ok b"
  using decodes_body [where local_offset = local_offset, OF assms(2)] assms(1) by (simp add: decodes_def py_bytes_def)

theorem smpp_body_roundtrip_witness:
  "decode_smpp_body CommandId_QUERY_SM_RESP [0x37, 0, 0, 3, 9] =
     Ok (BodyRes (Res_QuerySm \<lparr>queryres_message_id = [0x37], queryres_final_date = None,
       queryres_message_state = MessageState_EXPIRED, queryres_error_code = 9\<rparr>))"
proof -
  let ?b = "BodyRes (Res_QuerySm \<lparr>queryres_message_id = [0x37], queryres_final_date = None,
    queryres_message_state = MessageState_EXPIRED, queryres_error_code = 9\<rparr>)"
  have "encode_smpp_body (\<lambda>_. Ok 0) ?b = Ok [0x37, 0, 0, 3, 9]" by code_simp
  from smpp_body_roundtrip [OF this] show ?thesis by (simp add: query_sm_res_ok_def cbytes_ok_def)
qed

section \<open>Headers\<close>

definition smpp_header_ok :: "Header \<Rightarrow> bool" where
  "smpp_header_ok h \<longleftrightarrow> 16 \<le> header_command_length h \<and> header_command_length h < 2 ^ 32 \<and>
     0 \<le> header_sequence_number h \<and> header_sequence_number h < 2 ^ 32"

lemma id_bounds: "0 \<le> CommandId_value c" "CommandId_value c < 256 ^ 4" "0 \<le> CommandStatus_value s" "CommandStatus_value s < 256 ^ 4"
proof -
  show "0 \<le> CommandId_value c" "CommandId_value c < 256 ^ 4" by (cases c; simp)+
  show "0 \<le> CommandStatus_value s" "CommandStatus_value s < 256 ^ 4" by (cases s; simp)+
qed

lemma header_roundtrip:
  assumes "smpp_header_ok h"
  obtains hs where "encode_header h = Ok hs" "length hs = 16" "all_bytes hs" "decode_header (wire hs) = Ok h"
proof -
  let ?fs = "[(4, header_command_length h), (4, CommandId_value (header_command_id h)),
    (4, CommandStatus_value (header_command_status h)), (4, header_sequence_number h)] :: (nat \<times> int) list"
  have "fields_ok ?fs" using assms id_bounds(1,2) [of "header_command_id h"] id_bounds(3,4) [of "header_command_status h"]
    by (simp add: smpp_header_ok_def)
  then obtain hs where hs: "pack_be ?fs = Ok hs" "length hs = sum_list (map fst ?fs)" "all_bytes hs"
    "unpack_be (map fst ?fs) (wire hs) = Ok (map snd ?fs)" by (rule pack_be_Ok)
  show thesis
  proof (rule that)
    show "encode_header h = Ok hs" using hs(1) by (simp add: encode_header_def)
    show "length hs = 16" "all_bytes hs" using hs(2,3) by simp_all
    show "decode_header (wire hs) = Ok h" using hs(4) assms by (simp add: decode_header_def smpp_header_ok_def eval_nat_numeral)
  qed
qed

end
