(* ===== verification/Smpp_Connection.thy ===== *)
theory Smpp_Connection
  imports Smpp_Codec
begin

text \<open>
  \<^verbatim>\<open>smpp/transport/connection.py\<close>: requests with their sequence numbers and futures, and the receiving loop.
  A future is named by the value of the counter that its sequence number is made from. Writing is atomic,
  as is a call of a callback, which is an argument: a function with a state of its own that may raise.
  All that was written is kept. A caller whose future is done, or who gave it up, takes its entry out.
\<close>

unbundle bit_operations_syntax

section \<open>State\<close>

datatype SmppOutcome = Answer Body | Status CommandStatus | Cancelled

record SmppConnection =
  smpp_open :: bool
  smpp_count :: nat
  smpp_futures :: "(int \<times> nat) list"
  smpp_results :: "(nat \<times> SmppOutcome) list"
  smpp_written :: bytes

definition init_smpp :: SmppConnection where
  "init_smpp = \<lparr>smpp_open = True, smpp_count = 0, smpp_futures = [], smpp_results = [], smpp_written = []\<rparr>"

definition smpp_done :: "nat \<Rightarrow> SmppConnection \<Rightarrow> bool" where
  "smpp_done f c \<longleftrightarrow> f \<in> fst ` set (smpp_results c)"

text \<open>\<open>(i % 0x7ffffffe) + 1\<close>\<close>

definition sequence_number :: "nat \<Rightarrow> int" where
  "sequence_number i = int i mod 0x7ffffffe + 1"

section \<open>Sending\<close>

definition smpp_unit :: "(DateTime \<Rightarrow> int result) \<Rightarrow> CommandId \<Rightarrow> CommandStatus \<Rightarrow> int \<Rightarrow> Body option \<Rightarrow> bytes result" where
  "smpp_unit local_offset command_id command_status number body =
     bindE (case body of None \<Rightarrow> Ok [] | Some b \<Rightarrow> bindE (encode_smpp_body local_offset b) py_bytes) (\<lambda>body_bytes.
     bindE (encode_header \<lparr>header_command_length = 16 + int (length body_bytes), header_command_id = command_id,
              header_command_status = command_status, header_sequence_number = number\<rparr>) (\<lambda>header_bytes.
       Ok (wire header_bytes @ body_bytes)))"

definition smpp_write :: "bytes \<Rightarrow> SmppConnection \<Rightarrow> SmppConnection" where
  "smpp_write data c = c\<lparr>smpp_written := smpp_written c @ data\<rparr>"

text \<open>\<open>send\<close> until it waits for its future; the entry of a request that cannot be encoded is taken out again.\<close>

definition smpp_send :: "(DateTime \<Rightarrow> int result) \<Rightarrow> SmppRequest \<Rightarrow> SmppConnection \<Rightarrow> unit result \<times> SmppConnection" where
  "smpp_send local_offset request c =
     (if \<not> smpp_open c then (Raise ConnectionError, c)
      else
        let i = smpp_count c; number = sequence_number i; c = c\<lparr>smpp_count := i + 1\<rparr> in
        if number \<in> fst ` set (smpp_futures c) then (Raise (Exception ''sequence number in use''), c)
        else
          (case smpp_unit local_offset (get_request_command_id request) ESME_ROK number (Some (BodyReq request)) of
             Inl e \<Rightarrow> (Raise e, c)
           | Inr data \<Rightarrow> (Ok (), smpp_write data (c\<lparr>smpp_futures := smpp_futures c @ [(number, i)]\<rparr>))))"

definition smpp_notify :: "(DateTime \<Rightarrow> int result) \<Rightarrow> Notification \<Rightarrow> SmppConnection \<Rightarrow> unit result \<times> SmppConnection" where
  "smpp_notify local_offset notification c =
     (if \<not> smpp_open c then (Raise ConnectionError, c)
      else
        let i = smpp_count c; number = sequence_number i; c = c\<lparr>smpp_count := i + 1\<rparr> in
        if number \<in> fst ` set (smpp_futures c) then (Raise (Exception ''sequence number in use''), c)
        else
          (case smpp_unit local_offset (get_notification_command_id notification) ESME_ROK number (Some (BodyNotify notification)) of
             Inl e \<Rightarrow> (Raise e, c)
           | Inr data \<Rightarrow> (Ok (), smpp_write data c)))"

text \<open>\<open>finally: self._sequence_number_futures.pop(sequence_number)\<close>\<close>

definition smpp_pop :: "nat \<Rightarrow> SmppConnection \<Rightarrow> SmppConnection" where
  "smpp_pop f c = c\<lparr>smpp_futures := filter (\<lambda>(_, g). g \<noteq> f) (smpp_futures c)\<rparr>"

section \<open>Receiving\<close>

definition set_outcome :: "nat \<Rightarrow> SmppOutcome \<Rightarrow> SmppConnection \<Rightarrow> SmppConnection" where
  "set_outcome f x c = (if smpp_done f c then c else c\<lparr>smpp_results := smpp_results c @ [(f, x)]\<rparr>)"

definition smpp_close :: "SmppConnection \<Rightarrow> SmppConnection" where
  "smpp_close c = fold (\<lambda>(_, f). set_outcome f Cancelled) (smpp_futures c) (c\<lparr>smpp_open := False\<rparr>)"

type_synonym 's smpp_cb = "('s \<Rightarrow> Body \<Rightarrow> 's \<times> (SmppResponse + CommandStatus) result) option"

type_synonym 's notification_cb = "('s \<Rightarrow> Body \<Rightarrow> 's \<times> unit result) option"

text \<open>The status that a CommandStatusError carries is one that the code made it with.\<close>

definition status_of :: "int \<Rightarrow> CommandStatus" where
  "status_of n = (case CommandStatus_of n of Inl _ \<Rightarrow> ESME_RUNKNOWNERR | Inr status \<Rightarrow> status)"

definition received_request :: "Header \<Rightarrow> bytes \<Rightarrow> CommandStatus + Body" where
  "received_request header body_bytes =
     (case decode_smpp_body (header_command_id header) body_bytes of
        Inr req \<Rightarrow> Inr req
      | Inl (CommandStatusError n) \<Rightarrow> Inl (status_of n)
      | Inl _ \<Rightarrow> Inl ESME_RUNKNOWNERR)"

text \<open>The status and the body of the response.\<close>

definition call_request_cb :: "'s smpp_cb \<Rightarrow> Header \<Rightarrow> bytes \<Rightarrow> 's \<Rightarrow> 's \<times> CommandStatus \<times> SmppResponse option" where
  "call_request_cb request_cb header body_bytes s =
     (case request_cb of
        None \<Rightarrow> (s, ESME_RINVCMDID, None)
      | Some cb \<Rightarrow>
          if header_command_status header \<noteq> ESME_ROK then (s, ESME_RUNKNOWNERR, None)
          else
            (case received_request header body_bytes of
               Inl status \<Rightarrow> (s, status, None)
             | Inr req \<Rightarrow>
                 (case cb s req of
                    (s, Inl _) \<Rightarrow> (s, ESME_RSYSERR, None)
                  | (s, Inr (Inr status)) \<Rightarrow> (s, if status = ESME_ROK then ESME_RSYSERR else status, None)
                  | (s, Inr (Inl res)) \<Rightarrow> (s, ESME_ROK, Some res))))"

definition response_command_id :: "CommandId \<Rightarrow> CommandId result" where
  "response_command_id command_id = CommandId_of (CommandId_value command_id OR 0x80000000)"

definition process_smpp_request ::
    "(DateTime \<Rightarrow> int result) \<Rightarrow> 's smpp_cb \<Rightarrow> Header \<Rightarrow> bytes \<Rightarrow> 's \<Rightarrow> 's \<times> bytes result" where
  "process_smpp_request local_offset request_cb header body_bytes s =
     (let (s, status, res) = call_request_cb request_cb header body_bytes s in
        (s, bindE (response_command_id (header_command_id header)) (\<lambda>res_id.
              let (status, res) =
                (case res of
                   None \<Rightarrow> (status, None)
                 | Some r \<Rightarrow> if get_response_command_id r \<noteq> res_id then (ESME_RSYSERR, None) else (status, Some r))
              in smpp_unit local_offset res_id status (header_sequence_number header) (map_option BodyRes res))))"

definition process_smpp_response :: "Header \<Rightarrow> bytes \<Rightarrow> SmppConnection \<Rightarrow> SmppConnection" where
  "process_smpp_response header body_bytes c =
     (case map_of (smpp_futures c) (header_sequence_number header) of
        None \<Rightarrow> c
      | Some f \<Rightarrow>
          if smpp_done f c then c
          else if header_command_status header \<noteq> ESME_ROK then set_outcome f (Status (header_command_status header)) c
          else
            (case decode_smpp_body (header_command_id header) body_bytes of
               Inl _ \<Rightarrow> set_outcome f (Status ESME_RUNKNOWNERR) c
             | Inr res \<Rightarrow> set_outcome f (Answer res) c))"

definition process_notification :: "'s notification_cb \<Rightarrow> Header \<Rightarrow> bytes \<Rightarrow> 's \<Rightarrow> 's" where
  "process_notification notification_cb header body_bytes s =
     (case notification_cb of
        None \<Rightarrow> s
      | Some cb \<Rightarrow>
          (case decode_smpp_body (header_command_id header) body_bytes of
             Inl _ \<Rightarrow> s
           | Inr notification \<Rightarrow> fst (cb s notification)))"

definition request_command_ids :: "CommandId list" where
  "request_command_ids =
     [CommandId_BIND_RECEIVER_REQ, CommandId_BIND_TRANSMITTER_REQ, CommandId_QUERY_SM_REQ, CommandId_SUBMIT_SM_REQ,
      CommandId_DELIVER_SM_REQ, CommandId_UNBIND_REQ, CommandId_REPLACE_SM_REQ, CommandId_CANCEL_SM_REQ,
      CommandId_BIND_TRANSCEIVER_REQ, CommandId_ENQUIRE_LINK_REQ, CommandId_SUBMIT_MULTI_REQ, CommandId_DATA_SM_REQ]"

definition response_command_ids :: "CommandId list" where
  "response_command_ids =
     [CommandId_GENERIC_NACK, CommandId_BIND_RECEIVER_RESP, CommandId_BIND_TRANSMITTER_RESP, CommandId_QUERY_SM_RESP,
      CommandId_SUBMIT_SM_RESP, CommandId_DELIVER_SM_RESP, CommandId_UNBIND_RESP, CommandId_REPLACE_SM_RESP,
      CommandId_CANCEL_SM_RESP, CommandId_BIND_TRANSCEIVER_RESP, CommandId_ENQUIRE_LINK_RESP,
      CommandId_SUBMIT_MULTI_RESP, CommandId_DATA_SM_RESP]"

definition notification_command_ids :: "CommandId list" where
  "notification_command_ids = [CommandId_OUTBIND, CommandId_ALERT_NOTIFICATION]"

text \<open>
  One turn of the receiving loop, with the bytes that are still to arrive; where they are not enough, the
  connection is lost. An error ends the loop, which closes the connection.
\<close>

definition smpp_dispatch ::
    "(DateTime \<Rightarrow> int result) \<Rightarrow> 's smpp_cb \<Rightarrow> 's notification_cb \<Rightarrow> Header \<Rightarrow> bytes \<Rightarrow> 's \<Rightarrow> SmppConnection \<Rightarrow>
     's \<times> SmppConnection" where
  "smpp_dispatch local_offset request_cb notification_cb header body_bytes s c =
     (if header_command_id header \<in> set request_command_ids then
        (case process_smpp_request local_offset request_cb header body_bytes s of
           (s, Inl _) \<Rightarrow> (s, smpp_close c)
         | (s, Inr data) \<Rightarrow> (s, smpp_write data c))
      else if header_command_id header \<in> set response_command_ids then (s, process_smpp_response header body_bytes c)
      else if header_command_id header \<in> set notification_command_ids
      then (process_notification notification_cb header body_bytes s, c)
      else (s, smpp_close c))"

definition smpp_receive ::
    "(DateTime \<Rightarrow> int result) \<Rightarrow> 's smpp_cb \<Rightarrow> 's notification_cb \<Rightarrow> bytes \<Rightarrow> 's \<Rightarrow> SmppConnection \<Rightarrow>
     's \<times> SmppConnection \<times> bytes" where
  "smpp_receive local_offset request_cb notification_cb stream s c =
     (if length stream < 16 then (s, smpp_close c, [])
      else
        (case decode_header (take 16 stream) of
           Inl (CommandStatusError n) \<Rightarrow>
             (case bindE (decode_sequence_number (take 16 stream)) (\<lambda>number.
                     smpp_unit local_offset CommandId_GENERIC_NACK (status_of n) number None) of
                Inl _ \<Rightarrow> (s, smpp_close c, drop 16 stream)
              | Inr data \<Rightarrow> (s, smpp_close (smpp_write data c), drop 16 stream))
         | Inl _ \<Rightarrow> (s, smpp_close c, drop 16 stream)
         | Inr header \<Rightarrow>
             let n = nat (header_command_length header - 16); stream = drop 16 stream in
             if length stream < n then (s, smpp_close c, [])
             else
               let (s, c) = smpp_dispatch local_offset request_cb notification_cb header (take n stream) s c
               in (s, c, drop n stream)))"

section \<open>A unit is received as it was sent\<close>

lemma encode_header_Ok:
  assumes "encode_header h = Ok hs" "16 \<le> header_command_length h"
  shows "length hs = 16" "decode_header (wire hs) = Ok h"
proof -
  have "\<exists>ds. pack_be [(4, header_command_length h), (4, CommandId_value (header_command_id h)),
    (4, CommandStatus_value (header_command_status h)), (4, header_sequence_number h)] = Ok ds"
    using assms(1) by (auto simp: encode_header_def)
  then have "smpp_header_ok h" using assms(2) unfolding pack_be_Ok_iff_fields by (simp add: smpp_header_ok_def)
  then obtain hs' where "encode_header h = Ok hs'" "length hs' = 16" "decode_header (wire hs') = Ok h" by (rule header_roundtrip)
  with assms(1) show "length hs = 16" "decode_header (wire hs) = Ok h" by simp_all
qed

definition unit_header :: "CommandId \<Rightarrow> CommandStatus \<Rightarrow> int \<Rightarrow> bytes \<Rightarrow> Header" where
  "unit_header command_id status number body_bytes =
     \<lparr>header_command_length = 16 + int (length body_bytes), header_command_id = command_id, header_command_status = status,
      header_sequence_number = number\<rparr>"

lemma unit_header_simps [simp]:
  "header_command_length (unit_header i st n bs) = 16 + int (length bs)" "header_command_id (unit_header i st n bs) = i"
  "header_command_status (unit_header i st n bs) = st" "header_sequence_number (unit_header i st n bs) = n"
  by (simp_all add: unit_header_def)

lemma smpp_unit_received:
  assumes "smpp_unit lo' i st n b = Ok data"
  obtains bs where
    "(case b of None \<Rightarrow> Ok [] | Some x \<Rightarrow> bindE (encode_smpp_body lo' x) py_bytes) = Ok bs"
    "smpp_receive lo rcb ncb (data @ rest) s c =
      (case smpp_dispatch lo rcb ncb (unit_header i st n bs) bs s c of (s, c) \<Rightarrow> (s, c, rest))"
proof -
  from assms obtain bs hs where bs: "(case b of None \<Rightarrow> Ok [] | Some x \<Rightarrow> bindE (encode_smpp_body lo' x) py_bytes) = Ok bs"
    and hs: "encode_header (unit_header i st n bs) = Ok hs" and data: "data = wire hs @ bs"
    by (auto simp: smpp_unit_def unit_header_def)
  from encode_header_Ok [OF hs] have h: "length hs = 16" "decode_header (wire hs) = Ok (unit_header i st n bs)" by simp_all
  show thesis
  proof (rule that [OF bs])
    have t: "take 16 (data @ rest) = wire hs" "drop 16 (data @ rest) = bs @ rest" using h(1) data by simp_all
    have "\<not> length (data @ rest) < 16" using h(1) data by simp
    with h(2) show "smpp_receive lo rcb ncb (data @ rest) s c =
      (case smpp_dispatch lo rcb ncb (unit_header i st n bs) bs s c of (s, c) \<Rightarrow> (s, c, rest))"
      unfolding smpp_receive_def t by (simp split: prod.splits)
  qed
qed

section \<open>A call of the other side\<close>

lemma request_ids:
  "get_request_command_id r \<in> set request_command_ids"
  "response_command_id (get_request_command_id r) = Ok i \<Longrightarrow> i \<in> set response_command_ids \<and> i \<notin> set request_command_ids"
proof -
  show "get_request_command_id r \<in> set request_command_ids"
    by (cases r; simp add: request_command_ids_def split: BindType.splits)
  show "i \<in> set response_command_ids \<and> i \<notin> set request_command_ids" if "response_command_id (get_request_command_id r) = Ok i"
  proof -
    have "\<forall>q \<in> set request_command_ids. (case response_command_id q of Inl _ \<Rightarrow> False
        | Inr i \<Rightarrow> i \<in> set response_command_ids \<and> i \<notin> set request_command_ids)"
      by code_simp
    with \<open>get_request_command_id r \<in> set request_command_ids\<close> that show ?thesis by auto
  qed
qed

text \<open>What the caller gets, from what the callback of the other side returns.\<close>

fun call_outcome :: "CommandId result \<Rightarrow> (SmppResponse + CommandStatus) result \<Rightarrow> SmppOutcome" where
  "call_outcome res_id (Inl _) = Status ESME_RSYSERR"
| "call_outcome res_id (Inr (Inr status)) = Status (if status = ESME_ROK then ESME_RSYSERR else status)"
| "call_outcome res_id (Inr (Inl res)) =
     (if Ok (get_response_command_id res) = res_id then Answer (BodyRes res) else Status ESME_RSYSERR)"

lemma process_request_unit:
  assumes "bindE (encode_smpp_body lo' (BodyReq r)) py_bytes = Ok bs" "body_ok (BodyReq r)" "cb s (BodyReq r) = (s', x)"
    and "response_command_id (get_request_command_id r) = Ok i"
  shows "process_smpp_request lo (Some cb) (unit_header (get_request_command_id r) ESME_ROK n bs) bs s =
    (s', case call_outcome (Ok i) x of
       Answer (BodyRes res) \<Rightarrow> smpp_unit lo i ESME_ROK n (Some (BodyRes res))
     | Status status \<Rightarrow> smpp_unit lo i status n None
     | _ \<Rightarrow> Raise IndexError)"
proof -
  from assms(1) obtain ys where "encode_smpp_body lo' (BodyReq r) = Ok ys" "bs = wire ys" by (auto simp: py_bytes_Ok_iff)
  with decodes_body [where local_offset = lo', OF assms(2)] have d: "decode_smpp_body (get_request_command_id r) bs = Ok (BodyReq r)"
    by (simp add: decodes_def)
  show ?thesis
  proof (cases x)
    case (Inl e)
    with d assms(3,4) show ?thesis by (simp add: process_smpp_request_def call_request_cb_def received_request_def)
  next
    case (Inr y)
    with d assms(3,4) show ?thesis
      by (cases y) (auto simp: process_smpp_request_def call_request_cb_def received_request_def)
  qed
qed


lemma call_outcome_Answer: "call_outcome (Ok i) x = Answer y \<Longrightarrow> \<exists>res. y = BodyRes res \<and> x = Ok (Inl res) \<and> get_response_command_id res = i"
  by (cases "(Ok i, x)" rule: call_outcome.cases) (auto split: if_splits)

lemma call_outcome_not_Cancelled: "call_outcome i x \<noteq> Cancelled"
  by (cases "(i, x)" rule: call_outcome.cases) auto

lemma call_outcome_not_ROK: "call_outcome i x \<noteq> Status ESME_ROK"
  by (cases "(i, x)" rule: call_outcome.cases) auto

lemma request_response_id:
  obtains i where "response_command_id (get_request_command_id r) = Ok i"
proof -
  have "\<forall>q \<in> set request_command_ids. (case response_command_id q of Inl _ \<Rightarrow> False | Inr i \<Rightarrow> True)" by code_simp
  then have "case response_command_id (get_request_command_id r) of Inl _ \<Rightarrow> False | Inr i \<Rightarrow> True"
    using request_ids(1) by (rule bspec)
  with that show thesis by (cases "response_command_id (get_request_command_id r)") simp_all
qed

lemma smpp_send_Ok:
  assumes "smpp_send lo r c = (Ok (), c')"
  obtains data where "smpp_unit lo (get_request_command_id r) ESME_ROK (sequence_number (smpp_count c)) (Some (BodyReq r)) = Ok data"
    "smpp_open c" "sequence_number (smpp_count c) \<notin> fst ` set (smpp_futures c)"
    "smpp_futures c' = smpp_futures c @ [(sequence_number (smpp_count c), smpp_count c)]"
    "smpp_results c' = smpp_results c" "smpp_written c' = smpp_written c @ data"
  using assms by (auto simp: smpp_send_def Let_def smpp_write_def split: if_splits sum.splits)

lemma response_received:
  assumes unit: "smpp_unit lo' i status n b = Ok data" and i: "i \<in> set response_command_ids" "i \<notin> set request_command_ids"
    and f: "map_of (smpp_futures c) n = Some f"
    and x: "case b of None \<Rightarrow> status \<noteq> ESME_ROK \<and> x = Status status
      | Some y \<Rightarrow> status = ESME_ROK \<and> x = Answer y \<and> body_ok y \<and> body_command_id y = i"
  shows "smpp_receive lo rcb ncb (data @ rest) s c = (s, set_outcome f x c, rest)"
proof -
  from smpp_unit_received [OF unit, of lo rcb ncb rest s c] obtain bs where
    bs: "(case b of None \<Rightarrow> Ok [] | Some x \<Rightarrow> bindE (encode_smpp_body lo' x) py_bytes) = Ok bs"
    and r: "smpp_receive lo rcb ncb (data @ rest) s c =
      (case smpp_dispatch lo rcb ncb (unit_header i status n bs) bs s c of (s, c) \<Rightarrow> (s, c, rest))" by blast
  have "process_smpp_response (unit_header i status n bs) bs c = set_outcome f x c"
  proof (cases b)
    case None
    with f x show ?thesis by (simp add: process_smpp_response_def set_outcome_def)
  next
    case (Some y)
    with bs obtain ys where "encode_smpp_body lo' y = Ok ys" "bs = wire ys" by (auto simp: py_bytes_Ok_iff)
    with decodes_body [where local_offset = lo', of y] Some x have "decode_smpp_body i bs = Ok y" by (auto simp: decodes_def)
    with f x Some show ?thesis by (simp add: process_smpp_response_def set_outcome_def)
  qed
  with i show ?thesis unfolding r by (simp add: smpp_dispatch_def)
qed


section \<open>Every request is settled\<close>

inductive smpp_step ::
    "(DateTime \<Rightarrow> int result) \<Rightarrow> 's smpp_cb \<Rightarrow> 's notification_cb \<Rightarrow> 's \<times> SmppConnection \<Rightarrow> 's \<times> SmppConnection \<Rightarrow> bool"
  for local_offset request_cb notification_cb where
  smpp_sends: "smpp_send local_offset request c = (r, c') \<Longrightarrow> smpp_step local_offset request_cb notification_cb (s, c) (s, c')"
| smpp_notifies: "smpp_notify local_offset notification c = (r, c') \<Longrightarrow> smpp_step local_offset request_cb notification_cb (s, c) (s, c')"
| smpp_gives_up: "smpp_step local_offset request_cb notification_cb (s, c) (s, smpp_pop f c)"
| smpp_receives:
    "smpp_open c \<Longrightarrow> smpp_receive local_offset request_cb notification_cb stream s c = (s', c', rest) \<Longrightarrow>
     smpp_step local_offset request_cb notification_cb (s, c) (s', c')"
| smpp_closes: "smpp_step local_offset request_cb notification_cb (s, c) (s, smpp_close c)"

inductive smpp_reachable ::
    "(DateTime \<Rightarrow> int result) \<Rightarrow> 's smpp_cb \<Rightarrow> 's notification_cb \<Rightarrow> 's \<times> SmppConnection \<Rightarrow> bool"
  for local_offset request_cb notification_cb where
  smpp_start: "smpp_reachable local_offset request_cb notification_cb (s, init_smpp)"
| smpp_later:
    "smpp_reachable local_offset request_cb notification_cb x \<Longrightarrow> smpp_step local_offset request_cb notification_cb x y \<Longrightarrow>
     smpp_reachable local_offset request_cb notification_cb y"

definition smpp_tidy :: "SmppConnection \<Rightarrow> bool" where
  "smpp_tidy c \<longleftrightarrow>
     distinct (map fst (smpp_futures c)) \<and>
     (\<forall>(n, f) \<in> set (smpp_futures c). n = sequence_number f \<and> f < smpp_count c) \<and>
     distinct (map fst (smpp_results c)) \<and> (\<forall>f \<in> fst ` set (smpp_results c). f < smpp_count c)"

definition smpp_settled :: "SmppConnection \<Rightarrow> bool" where
  "smpp_settled c \<longleftrightarrow> smpp_tidy c \<and> (smpp_open c \<or> (\<forall>(n, f) \<in> set (smpp_futures c). smpp_done f c))"

lemma set_outcome_frame [simp]:
  "smpp_open (set_outcome f x c) = smpp_open c" "smpp_count (set_outcome f x c) = smpp_count c"
  "smpp_futures (set_outcome f x c) = smpp_futures c" "smpp_written (set_outcome f x c) = smpp_written c"
  by (simp_all add: set_outcome_def)

lemma smpp_done_set_outcome [simp]: "smpp_done g (set_outcome f x c) \<longleftrightarrow> g = f \<or> smpp_done g c"
  by (auto simp: set_outcome_def smpp_done_def)

lemma smpp_done_open [simp]: "smpp_done f (c\<lparr>smpp_open := b\<rparr>) \<longleftrightarrow> smpp_done f c"
  by (simp add: smpp_done_def)

lemma tidy_open [simp]: "smpp_tidy (c\<lparr>smpp_open := b\<rparr>) \<longleftrightarrow> smpp_tidy c"
  by (simp add: smpp_tidy_def)

lemma tidy_set_outcome:
  assumes "smpp_tidy c" "f < smpp_count c" shows "smpp_tidy (set_outcome f x c)"
  using assms by (auto simp: smpp_tidy_def set_outcome_def smpp_done_def)

lemma settled_set_outcome:
  assumes "smpp_settled c" "f < smpp_count c" shows "smpp_settled (set_outcome f x c)"
  using assms tidy_set_outcome by (auto simp: smpp_settled_def)

lemma tidy_outcomes:
  assumes "smpp_tidy c" "\<forall>(n, f) \<in> set fs. f < smpp_count c"
  shows "smpp_tidy (fold (\<lambda>(_, f). set_outcome f x) fs c)"
  using assms
proof (induction fs arbitrary: c)
  case (Cons p fs)
  obtain n f where p: "p = (n, f)" by (cases p)
  with Cons.prems have "smpp_tidy (set_outcome f x c)" by (auto intro: tidy_set_outcome)
  with Cons p show ?case by simp
qed simp

lemma outcomes_frame [simp]:
  "smpp_open (fold (\<lambda>(_, f). set_outcome f x) fs c) = smpp_open c"
  "smpp_futures (fold (\<lambda>(_, f). set_outcome f x) fs c) = smpp_futures c"
  "smpp_count (fold (\<lambda>(_, f). set_outcome f x) fs c) = smpp_count c"
  "smpp_written (fold (\<lambda>(_, f). set_outcome f x) fs c) = smpp_written c"
  "smpp_done g (fold (\<lambda>(_, f). set_outcome f x) fs c) \<longleftrightarrow> g \<in> snd ` set fs \<or> smpp_done g c"
  by (induction fs arbitrary: c) (auto split: prod.splits)

lemma settled_close:
  assumes "smpp_settled c" shows "smpp_settled (smpp_close c)"
proof -
  have "smpp_tidy (smpp_close c)"
    unfolding smpp_close_def by (rule tidy_outcomes) (use assms in \<open>auto simp: smpp_settled_def smpp_tidy_def\<close>)
  then show ?thesis by (force simp: smpp_settled_def smpp_close_def)
qed

lemma smpp_close_open [simp]: "\<not> smpp_open (smpp_close c)"
  by (simp add: smpp_close_def)

lemma settled_written [simp]: "smpp_settled (smpp_write data c) \<longleftrightarrow> smpp_settled c"
  by (simp add: smpp_settled_def smpp_tidy_def smpp_write_def smpp_done_def)

lemma settled_counted: "smpp_settled c \<Longrightarrow> smpp_settled (c\<lparr>smpp_count := smpp_count c + 1\<rparr>)"
  by (force simp: smpp_settled_def smpp_tidy_def smpp_done_def less_Suc_eq)

lemma settled_send:
  assumes "smpp_settled c" "smpp_send lo request c = (r, c')" shows "smpp_settled c'"
proof -
  have "smpp_settled (c\<lparr>smpp_count := Suc (smpp_count c), smpp_futures := smpp_futures c @ [(sequence_number (smpp_count c), smpp_count c)]\<rparr>)"
    if "smpp_open c" "sequence_number (smpp_count c) \<notin> fst ` set (smpp_futures c)"
    using settled_counted [OF assms(1)] that by (auto simp: smpp_settled_def smpp_tidy_def smpp_done_def)
  with assms settled_counted [OF assms(1)] show ?thesis
    by (auto simp: smpp_send_def Let_def split: if_splits sum.splits)
qed

lemma settled_notify:
  assumes "smpp_settled c" "smpp_notify lo notification c = (r, c')" shows "smpp_settled c'"
  using assms settled_counted [OF assms(1)] by (auto simp: smpp_notify_def Let_def split: if_splits sum.splits)

lemma settled_pop: "smpp_settled c \<Longrightarrow> smpp_settled (smpp_pop f c)"
  by (auto simp: smpp_settled_def smpp_tidy_def smpp_pop_def smpp_done_def distinct_map_filter)

lemma settled_response:
  assumes "smpp_settled c" shows "smpp_settled (process_smpp_response header bs c)"
proof (cases "map_of (smpp_futures c) (header_sequence_number header)")
  case (Some f)
  then have "f < smpp_count c" using assms by (auto dest!: map_of_SomeD simp: smpp_settled_def smpp_tidy_def)
  with Some assms show ?thesis by (auto simp: process_smpp_response_def intro: settled_set_outcome split: sum.splits)
qed (use assms in \<open>simp add: process_smpp_response_def\<close>)

lemma settled_dispatch:
  assumes "smpp_settled c" "smpp_dispatch lo rcb ncb header bs s c = (s', c')" shows "smpp_settled c'"
  using assms settled_close settled_response by (auto simp: smpp_dispatch_def split: if_splits prod.splits sum.splits)

lemma settled_receive:
  assumes "smpp_settled c" "smpp_receive lo rcb ncb stream s c = (s', c', rest)" shows "smpp_settled c'"
proof (cases "length stream < 16")
  case True
  with assms show ?thesis by (auto simp: smpp_receive_def intro: settled_close)
next
  case False
  show ?thesis
  proof (cases "decode_header (take 16 stream)")
    case (Inl e)
    have "c' = smpp_close c \<or> (\<exists>data. c' = smpp_close (smpp_write data c))"
      using assms(2) False Inl by (cases e) (auto simp: smpp_receive_def split: sum.splits)
    with assms(1) show ?thesis by (auto intro: settled_close)
  next
    case (Inr header)
    then have "c' = smpp_close c \<or> (\<exists>bs. smpp_dispatch lo rcb ncb header bs s c = (s', c'))"
      using assms(2) False by (auto simp: smpp_receive_def Let_def split: if_splits prod.splits)
    with assms(1) show ?thesis by (auto intro: settled_close settled_dispatch)
  qed
qed

lemma settled_step:
  assumes "smpp_step lo rcb ncb (s, c) (s', c')" "smpp_settled c" shows "smpp_settled c'"
  using assms(1)
proof (cases rule: smpp_step.cases)
  case (smpp_sends request r)
  with assms(2) show ?thesis by (blast intro: settled_send)
next
  case (smpp_notifies notification r)
  with assms(2) show ?thesis by (blast intro: settled_notify)
next
  case (smpp_gives_up f)
  with assms(2) show ?thesis by (blast intro: settled_pop)
next
  case (smpp_receives stream rest)
  with assms(2) show ?thesis by (blast intro: settled_receive)
next
  case smpp_closes
  with assms(2) show ?thesis by (blast intro: settled_close)
qed

lemma settled_reachable: "smpp_reachable lo rcb ncb x \<Longrightarrow> smpp_settled (snd x)"
proof (induction rule: smpp_reachable.induct)
  case (smpp_start s)
  show ?case by (simp add: smpp_settled_def smpp_tidy_def init_smpp_def)
next
  case (smpp_later x y)
  then show ?case by (metis settled_step prod.collapse)
qed

text \<open>
  C29: Whatever arrives and whatever is sent, the numbers of the pending requests are different, each is the number its
  request was sent with, no future gets two results, and no caller waits on a closed connection: when it has closed, every pending
  future is done.
\<close>

theorem smpp_requests_settled:
  assumes "smpp_reachable local_offset request_cb notification_cb (s, c)"
  shows "distinct (map fst (smpp_futures c)) \<and> (\<forall>(n, f) \<in> set (smpp_futures c). n = sequence_number f \<and> f < smpp_count c) \<and>
    distinct (map fst (smpp_results c)) \<and> (smpp_open c \<or> (\<forall>(n, f) \<in> set (smpp_futures c). smpp_done f c))"
  using settled_reachable [OF assms] by (auto simp: smpp_settled_def smpp_tidy_def)

theorem smpp_requests_settled_witness:
  "smpp_futures (smpp_close (snd (smpp_send (\<lambda>_. Ok 0) Req_EnquireLink init_smpp))) = [(1, 0)] \<and>
   smpp_done 0 (smpp_close (snd (smpp_send (\<lambda>_. Ok 0) Req_EnquireLink init_smpp)))"
proof -
  let ?c = "snd (smpp_send (\<lambda>_. Ok 0) Req_EnquireLink init_smpp)"
  have "smpp_step (\<lambda>_. Ok 0) None None ((), init_smpp) ((), ?c)" by (rule smpp_sends) (rule surjective_pairing)
  with smpp_start have "smpp_reachable (\<lambda>_. Ok 0) None None ((), ?c)" by (rule smpp_later)
  then have "smpp_reachable (\<lambda>_. Ok 0) None None ((), smpp_close ?c)" using smpp_closes by (rule smpp_later)
  from smpp_requests_settled [OF this] have "smpp_open (smpp_close ?c) \<or> (\<forall>(n, f) \<in> set (smpp_futures (smpp_close ?c)). smpp_done f (smpp_close ?c))"
    by (elim conjE)
  moreover have "smpp_futures (smpp_close ?c) = [(1, 0)]" by code_simp
  ultimately show ?thesis by simp
qed

section \<open>Transparent calls\<close>

text \<open>
  C27: a call between two connections is transparent, where the request, and the response if the callback returns one, are
  well-formed bodies. When the request has been sent, the other side passes exactly
  that request to its callback, changes the callback's state as the callback does and nothing else; when it stays open (its
  answer could be encoded), the caller's future gets what the callback returned: its response, its status, or ESME_RSYSERR
  where it raised, returned ESME_ROK or a response of another kind. Well-formed: text is ASCII and, like identifiers of messages,
  without zeros; absolute times are of this century, with an offset in quarters of an hour and whole tenths of a second; relative
  times have fields of two digits and seconds as a decoder of tenths makes them; optional parameters are of different tags, with
  values of the class that is decoded. Other times are sent rounded.
\<close>

theorem smpp_call_transparent:
  assumes "smpp_send local_offset request c = (Ok (), c')" "smpp_written c' = smpp_written c @ sent"
    and "body_ok (BodyReq request)" "cb s (BodyReq request) = (s', x)"
    and "\<And>response. x = Ok (Inl response) \<Longrightarrow> body_ok (BodyRes response)"
    and "smpp_receive offset' (Some cb) ncb (sent @ rest) s d = (s1, d', rest')" "smpp_open d'" "smpp_written d' = smpp_written d @ answer"
  shows "s1 = s' \<and> rest' = rest \<and> d' = smpp_write answer d \<and>
    smpp_receive local_offset rcb ncb' (answer @ rest2) t c' =
      (t, set_outcome (smpp_count c) (call_outcome (response_command_id (get_request_command_id request)) x) c', rest2)"
proof -
  let ?n = "sequence_number (smpp_count c)" and ?id = "get_request_command_id request"
  from assms(1) obtain data where u: "smpp_unit local_offset ?id ESME_ROK ?n (Some (BodyReq request)) = Ok data"
    and c: "?n \<notin> fst ` set (smpp_futures c)" "smpp_futures c' = smpp_futures c @ [(?n, smpp_count c)]"
      "smpp_written c' = smpp_written c @ data" by (rule smpp_send_Ok)
  from c have f: "map_of (smpp_futures c') ?n = Some (smpp_count c)" by (simp add: map_add_def split: option.splits) (force dest: map_of_SomeD)
  from assms(2) c(3) have sent: "sent = data" by simp
  obtain i where i: "response_command_id ?id = Ok i" by (rule request_response_id)
  note ids = request_ids(2) [OF i, THEN conjunct1] request_ids(2) [OF i, THEN conjunct2]
  from smpp_unit_received [OF u, of offset' "Some cb" ncb rest s d] obtain bs where bs: "bindE (encode_smpp_body local_offset (BodyReq request)) py_bytes = Ok bs"
    and r: "smpp_receive offset' (Some cb) ncb (data @ rest) s d =
      (case smpp_dispatch offset' (Some cb) ncb (unit_header ?id ESME_ROK ?n bs) bs s d of (s, c) \<Rightarrow> (s, c, rest))" by auto
  let ?reply = "case call_outcome (Ok i) x of
       Answer (BodyRes res) \<Rightarrow> smpp_unit offset' i ESME_ROK ?n (Some (BodyRes res))
     | Status status \<Rightarrow> smpp_unit offset' i status ?n None
     | _ \<Rightarrow> Raise IndexError"
  have "process_smpp_request offset' (Some cb) (unit_header ?id ESME_ROK ?n bs) bs s = (s', ?reply)"
    using bs assms(3,4) i by (rule process_request_unit)
  with r assms(6) request_ids(1) [of request] have d: "s1 = s'" "rest' = rest"
    "d' = (case ?reply of Inl _ \<Rightarrow> smpp_close d | Inr data \<Rightarrow> smpp_write data d)"
    unfolding sent by (auto simp: smpp_dispatch_def split: sum.splits)
  with assms(7) obtain reply where reply: "?reply = Ok reply" "d' = smpp_write reply d"
    by (cases ?reply) auto
  from reply(2) assms(8) have answer: "answer = reply" by (simp add: smpp_write_def)
  have "smpp_receive local_offset rcb ncb' (reply @ rest2) t c' =
      (t, set_outcome (smpp_count c) (call_outcome (Ok i) x) c', rest2)"
  proof (cases "call_outcome (Ok i) x")
    case (Answer y)
    then obtain res where y: "y = BodyRes res" "x = Ok (Inl res)" "get_response_command_id res = i" by (auto dest: call_outcome_Answer)
    with reply(1) Answer have "smpp_unit offset' i ESME_ROK ?n (Some (BodyRes res)) = Ok reply" by simp
    then show ?thesis using ids f by (rule response_received) (use Answer y assms(5) in simp_all)
  next
    case (Status status)
    with reply(1) have "smpp_unit offset' i status ?n None = Ok reply" by simp
    moreover have "status \<noteq> ESME_ROK" using Status call_outcome_not_ROK by metis
    ultimately show ?thesis using ids f Status by (intro response_received [where b = None]) simp_all
  next
    case Cancelled
    with call_outcome_not_Cancelled show ?thesis by metis
  qed
  with d reply(2) answer i show ?thesis by simp
qed

theorem smpp_call_transparent_witness:
  "smpp_results (fst (snd (smpp_receive (\<lambda>_. Ok 0) None None
      [0, 0, 0, 21, 0x80, 0, 0, 3, 0, 0, 0, 0, 0, 0, 0, 1, 0x37, 0, 0, 3, 9] ()
      (snd (smpp_send (\<lambda>_. Ok 0) (Req_QuerySm \<lparr>query_message_id = [0x37], query_source_addr_ton = TypeOfNumber_NATIONAL,
        query_source_addr_npi = NumericPlanIndicator_ISDN, query_source_addr = [49]\<rparr>) init_smpp))))) =
   [(0, Answer (BodyRes (Res_QuerySm \<lparr>queryres_message_id = [0x37], queryres_final_date = None,
       queryres_message_state = MessageState_EXPIRED, queryres_error_code = 9\<rparr>)))]"
proof -
  let ?q = "Req_QuerySm \<lparr>query_message_id = [0x37], query_source_addr_ton = TypeOfNumber_NATIONAL,
    query_source_addr_npi = NumericPlanIndicator_ISDN, query_source_addr = [49]\<rparr>"
  let ?r = "Res_QuerySm \<lparr>queryres_message_id = [0x37], queryres_final_date = None,
    queryres_message_state = MessageState_EXPIRED, queryres_error_code = 9\<rparr>"
  let ?cb = "\<lambda>(s :: unit) (_ :: Body). (s, Ok (Inl ?r) :: (SmppResponse + CommandStatus) result)"
  let ?offset = "\<lambda>_. Ok 0"
  let ?sent = "[0, 0, 0, 22, 0, 0, 0, 3, 0, 0, 0, 0, 0, 0, 0, 1, 0x37, 0, 2, 1, 49, 0] :: bytes"
  let ?answer = "[0, 0, 0, 21, 0x80, 0, 0, 3, 0, 0, 0, 0, 0, 0, 0, 1, 0x37, 0, 0, 3, 9] :: bytes"
  let ?c = "snd (smpp_send ?offset ?q init_smpp)"
  have sent: "smpp_send ?offset ?q init_smpp = (Ok (), ?c)" by code_simp
  have written: "smpp_written ?c = smpp_written init_smpp @ ?sent" by code_simp
  have received: "smpp_receive ?offset (Some ?cb) None (?sent @ []) () init_smpp =
      ((), smpp_write ?answer init_smpp, [])" by code_simp
  have "smpp_receive ?offset None None (?answer @ []) () ?c =
      ((), set_outcome (smpp_count init_smpp) (call_outcome (response_command_id (get_request_command_id ?q)) (Ok (Inl ?r))) ?c, [])"
  proof (rule smpp_call_transparent [OF sent written _ _ _ received, THEN conjunct2, THEN conjunct2, THEN conjunct2])
    show "body_ok (BodyReq ?q)" by (simp add: query_sm_req_ok_def cbytes_ok_def cstr_ok_def)
    show "?cb () (BodyReq ?q) = ((), Ok (Inl ?r))" by simp
    show "body_ok (BodyRes response)" if "Ok (Inl ?r) = (Ok (Inl response) :: (SmppResponse + CommandStatus) result)" for response
      using that by (auto simp: query_sm_res_ok_def cbytes_ok_def)
    show "smpp_open (smpp_write ?answer init_smpp)" "smpp_written (smpp_write ?answer init_smpp) = smpp_written init_smpp @ ?answer"
      by code_simp+
  qed
  moreover have "smpp_results (set_outcome (smpp_count init_smpp) (call_outcome (response_command_id (get_request_command_id ?q)) (Ok (Inl ?r))) ?c) =
    [(0, Answer (BodyRes ?r))]" by code_simp
  ultimately show ?thesis by simp
qed

end
