(* ===== verification/Mms_Common.thy ===== *)
theory Mms_Common
  imports Py_Str Py_Float
begin

text \<open>
  Data of the MMS driver: \<^verbatim>\<open>mms/common.py\<close>, and the values that the package \<^verbatim>\<open>hat.asn1\<close> encodes. The object
  identifiers of that package are the type parameter \<open>'oid\<close>. A datetime object with a time zone is the number of
  microseconds since 1970; the driver makes no other ones, and other ones have no place in the values that it sends.
\<close>

section \<open>Enumerations\<close>

datatype (plugins only: code size) DataAccessError =
    DataAccessError_OBJECT_INVALIDATED | DataAccessError_HARDWARE_FAULT |
    DataAccessError_TEMPORARILY_UNAVAILABLE | DataAccessError_OBJECT_ACCESS_DENIED |
    DataAccessError_OBJECT_UNDEFINED | DataAccessError_INVALID_ADDRESS |
    DataAccessError_TYPE_UNSUPPORTED | DataAccessError_TYPE_INCONSISTENT |
    DataAccessError_OBJECT_ATTRIBUTE_INCONSISTENT | DataAccessError_OBJECT_ACCESS_UNSUPPORTED |
    DataAccessError_OBJECT_NON_EXISTENT | DataAccessError_OBJECT_VALUE_INVALID

fun DataAccessError_value :: "DataAccessError \<Rightarrow> int" where
  "DataAccessError_value DataAccessError_OBJECT_INVALIDATED = 0"
| "DataAccessError_value DataAccessError_HARDWARE_FAULT = 1"
| "DataAccessError_value DataAccessError_TEMPORARILY_UNAVAILABLE = 2"
| "DataAccessError_value DataAccessError_OBJECT_ACCESS_DENIED = 3"
| "DataAccessError_value DataAccessError_OBJECT_UNDEFINED = 4"
| "DataAccessError_value DataAccessError_INVALID_ADDRESS = 5"
| "DataAccessError_value DataAccessError_TYPE_UNSUPPORTED = 6"
| "DataAccessError_value DataAccessError_TYPE_INCONSISTENT = 7"
| "DataAccessError_value DataAccessError_OBJECT_ATTRIBUTE_INCONSISTENT = 8"
| "DataAccessError_value DataAccessError_OBJECT_ACCESS_UNSUPPORTED = 9"
| "DataAccessError_value DataAccessError_OBJECT_NON_EXISTENT = 10"
| "DataAccessError_value DataAccessError_OBJECT_VALUE_INVALID = 11"

definition DataAccessError_members :: "DataAccessError list" where
  "DataAccessError_members =
     [DataAccessError_OBJECT_INVALIDATED, DataAccessError_HARDWARE_FAULT,
      DataAccessError_TEMPORARILY_UNAVAILABLE, DataAccessError_OBJECT_ACCESS_DENIED,
      DataAccessError_OBJECT_UNDEFINED, DataAccessError_INVALID_ADDRESS, DataAccessError_TYPE_UNSUPPORTED,
      DataAccessError_TYPE_INCONSISTENT, DataAccessError_OBJECT_ATTRIBUTE_INCONSISTENT,
      DataAccessError_OBJECT_ACCESS_UNSUPPORTED, DataAccessError_OBJECT_NON_EXISTENT,
      DataAccessError_OBJECT_VALUE_INVALID]"

definition DataAccessError_of :: "int \<Rightarrow> DataAccessError result" where
  "DataAccessError_of = enum_lookup DataAccessError_value DataAccessError_members"

interpretation DataAccessError: enumeration DataAccessError_value DataAccessError_members
proof unfold_locales
  show "x \<in> set DataAccessError_members" for x by (cases x) (simp_all add: DataAccessError_members_def)
  show "distinct (map DataAccessError_value DataAccessError_members)" by (simp add: DataAccessError_members_def)
qed

lemma DataAccessError_of_value [simp]: "DataAccessError_of (DataAccessError_value x) = Ok x"
  by (simp add: DataAccessError_of_def DataAccessError.of_value)

datatype (plugins only: code size) ObjectClass =
    ObjectClass_NAMED_VARIABLE | ObjectClass_NAMED_VARIABLE_LIST | ObjectClass_JOURNAL |
    ObjectClass_DOMAIN | ObjectClass_UNDEFINED

fun ObjectClass_value :: "ObjectClass \<Rightarrow> int" where
  "ObjectClass_value ObjectClass_NAMED_VARIABLE = 0"
| "ObjectClass_value ObjectClass_NAMED_VARIABLE_LIST = 2"
| "ObjectClass_value ObjectClass_JOURNAL = 8"
| "ObjectClass_value ObjectClass_DOMAIN = 9"
| "ObjectClass_value ObjectClass_UNDEFINED = 0xFF"

definition ObjectClass_members :: "ObjectClass list" where
  "ObjectClass_members =
     [ObjectClass_NAMED_VARIABLE, ObjectClass_NAMED_VARIABLE_LIST, ObjectClass_JOURNAL,
      ObjectClass_DOMAIN, ObjectClass_UNDEFINED]"

definition ObjectClass_of :: "int \<Rightarrow> ObjectClass result" where
  "ObjectClass_of = enum_lookup ObjectClass_value ObjectClass_members"

interpretation ObjectClass: enumeration ObjectClass_value ObjectClass_members
proof unfold_locales
  show "x \<in> set ObjectClass_members" for x by (cases x) (simp_all add: ObjectClass_members_def)
  show "distinct (map ObjectClass_value ObjectClass_members)" by (simp add: ObjectClass_members_def)
qed

lemma ObjectClass_of_value [simp]: "ObjectClass_of (ObjectClass_value x) = Ok x"
  by (simp add: ObjectClass_of_def ObjectClass.of_value)

datatype (plugins only: code size) VmdStateError =
    VmdStateError_OTHER | VmdStateError_VMD_STATE_CONFLICT | VmdStateError_VMD_OPERATIONAL_PROBLEM |
    VmdStateError_DOMAIN_TRANSFER_PROBLEM | VmdStateError_STATE_MACHINE_ID_INVALID

fun VmdStateError_value :: "VmdStateError \<Rightarrow> int" where
  "VmdStateError_value VmdStateError_OTHER = 0"
| "VmdStateError_value VmdStateError_VMD_STATE_CONFLICT = 1"
| "VmdStateError_value VmdStateError_VMD_OPERATIONAL_PROBLEM = 2"
| "VmdStateError_value VmdStateError_DOMAIN_TRANSFER_PROBLEM = 3"
| "VmdStateError_value VmdStateError_STATE_MACHINE_ID_INVALID = 4"

definition VmdStateError_members :: "VmdStateError list" where
  "VmdStateError_members =
     [VmdStateError_OTHER, VmdStateError_VMD_STATE_CONFLICT, VmdStateError_VMD_OPERATIONAL_PROBLEM,
      VmdStateError_DOMAIN_TRANSFER_PROBLEM, VmdStateError_STATE_MACHINE_ID_INVALID]"

definition VmdStateError_of :: "int \<Rightarrow> VmdStateError result" where
  "VmdStateError_of = enum_lookup VmdStateError_value VmdStateError_members"

interpretation VmdStateError: enumeration VmdStateError_value VmdStateError_members
proof unfold_locales
  show "x \<in> set VmdStateError_members" for x by (cases x) (simp_all add: VmdStateError_members_def)
  show "distinct (map VmdStateError_value VmdStateError_members)" by (simp add: VmdStateError_members_def)
qed

lemma VmdStateError_of_value [simp]: "VmdStateError_of (VmdStateError_value x) = Ok x"
  by (simp add: VmdStateError_of_def VmdStateError.of_value)

datatype (plugins only: code size) ApplicationReferenceError =
    ApplicationReferenceError_OTHER | ApplicationReferenceError_APPLICATION_UNREACHABLE |
    ApplicationReferenceError_CONNECTION_LOST |
    ApplicationReferenceError_APPLICATION_REFERENCE_INVALID |
    ApplicationReferenceError_CONTEXT_UNSUPPORTED

fun ApplicationReferenceError_value :: "ApplicationReferenceError \<Rightarrow> int" where
  "ApplicationReferenceError_value ApplicationReferenceError_OTHER = 0"
| "ApplicationReferenceError_value ApplicationReferenceError_APPLICATION_UNREACHABLE = 1"
| "ApplicationReferenceError_value ApplicationReferenceError_CONNECTION_LOST = 2"
| "ApplicationReferenceError_value ApplicationReferenceError_APPLICATION_REFERENCE_INVALID = 3"
| "ApplicationReferenceError_value ApplicationReferenceError_CONTEXT_UNSUPPORTED = 4"

definition ApplicationReferenceError_members :: "ApplicationReferenceError list" where
  "ApplicationReferenceError_members =
     [ApplicationReferenceError_OTHER, ApplicationReferenceError_APPLICATION_UNREACHABLE,
      ApplicationReferenceError_CONNECTION_LOST, ApplicationReferenceError_APPLICATION_REFERENCE_INVALID,
      ApplicationReferenceError_CONTEXT_UNSUPPORTED]"

definition ApplicationReferenceError_of :: "int \<Rightarrow> ApplicationReferenceError result" where
  "ApplicationReferenceError_of = enum_lookup ApplicationReferenceError_value ApplicationReferenceError_members"

interpretation ApplicationReferenceError: enumeration ApplicationReferenceError_value ApplicationReferenceError_members
proof unfold_locales
  show "x \<in> set ApplicationReferenceError_members" for x by (cases x) (simp_all add: ApplicationReferenceError_members_def)
  show "distinct (map ApplicationReferenceError_value ApplicationReferenceError_members)" by (simp add: ApplicationReferenceError_members_def)
qed

lemma ApplicationReferenceError_of_value [simp]: "ApplicationReferenceError_of (ApplicationReferenceError_value x) = Ok x"
  by (simp add: ApplicationReferenceError_of_def ApplicationReferenceError.of_value)

datatype (plugins only: code size) DefinitionError =
    DefinitionError_OTHER | DefinitionError_OBJECT_UNDEFINED | DefinitionError_INVALID_ADDRESS |
    DefinitionError_TYPE_UNSUPPORTED | DefinitionError_TYPE_INCONSISTENT |
    DefinitionError_OBJECT_EXISTS | DefinitionError_OBJECT_ATTRIBUTE_INCONSISTENT

fun DefinitionError_value :: "DefinitionError \<Rightarrow> int" where
  "DefinitionError_value DefinitionError_OTHER = 0"
| "DefinitionError_value DefinitionError_OBJECT_UNDEFINED = 1"
| "DefinitionError_value DefinitionError_INVALID_ADDRESS = 2"
| "DefinitionError_value DefinitionError_TYPE_UNSUPPORTED = 3"
| "DefinitionError_value DefinitionError_TYPE_INCONSISTENT = 4"
| "DefinitionError_value DefinitionError_OBJECT_EXISTS = 5"
| "DefinitionError_value DefinitionError_OBJECT_ATTRIBUTE_INCONSISTENT = 6"

definition DefinitionError_members :: "DefinitionError list" where
  "DefinitionError_members =
     [DefinitionError_OTHER, DefinitionError_OBJECT_UNDEFINED, DefinitionError_INVALID_ADDRESS,
      DefinitionError_TYPE_UNSUPPORTED, DefinitionError_TYPE_INCONSISTENT, DefinitionError_OBJECT_EXISTS,
      DefinitionError_OBJECT_ATTRIBUTE_INCONSISTENT]"

definition DefinitionError_of :: "int \<Rightarrow> DefinitionError result" where
  "DefinitionError_of = enum_lookup DefinitionError_value DefinitionError_members"

interpretation DefinitionError: enumeration DefinitionError_value DefinitionError_members
proof unfold_locales
  show "x \<in> set DefinitionError_members" for x by (cases x) (simp_all add: DefinitionError_members_def)
  show "distinct (map DefinitionError_value DefinitionError_members)" by (simp add: DefinitionError_members_def)
qed

lemma DefinitionError_of_value [simp]: "DefinitionError_of (DefinitionError_value x) = Ok x"
  by (simp add: DefinitionError_of_def DefinitionError.of_value)

datatype (plugins only: code size) ResourceError =
    ResourceError_OTHER | ResourceError_MEMORY_UNAVAILABLE |
    ResourceError_PROCESSOR_RESOURCE_UNAVAILABLE | ResourceError_MASS_STORAGE_UNAVAILABLE |
    ResourceError_CAPABILITY_UNAVAILABLE | ResourceError_CAPABILITY_UNKNOWN

fun ResourceError_value :: "ResourceError \<Rightarrow> int" where
  "ResourceError_value ResourceError_OTHER = 0"
| "ResourceError_value ResourceError_MEMORY_UNAVAILABLE = 1"
| "ResourceError_value ResourceError_PROCESSOR_RESOURCE_UNAVAILABLE = 2"
| "ResourceError_value ResourceError_MASS_STORAGE_UNAVAILABLE = 3"
| "ResourceError_value ResourceError_CAPABILITY_UNAVAILABLE = 4"
| "ResourceError_value ResourceError_CAPABILITY_UNKNOWN = 5"

definition ResourceError_members :: "ResourceError list" where
  "ResourceError_members =
     [ResourceError_OTHER, ResourceError_MEMORY_UNAVAILABLE, ResourceError_PROCESSOR_RESOURCE_UNAVAILABLE,
      ResourceError_MASS_STORAGE_UNAVAILABLE, ResourceError_CAPABILITY_UNAVAILABLE,
      ResourceError_CAPABILITY_UNKNOWN]"

definition ResourceError_of :: "int \<Rightarrow> ResourceError result" where
  "ResourceError_of = enum_lookup ResourceError_value ResourceError_members"

interpretation ResourceError: enumeration ResourceError_value ResourceError_members
proof unfold_locales
  show "x \<in> set ResourceError_members" for x by (cases x) (simp_all add: ResourceError_members_def)
  show "distinct (map ResourceError_value ResourceError_members)" by (simp add: ResourceError_members_def)
qed

lemma ResourceError_of_value [simp]: "ResourceError_of (ResourceError_value x) = Ok x"
  by (simp add: ResourceError_of_def ResourceError.of_value)

datatype (plugins only: code size) ServiceError =
    ServiceError_OTHER | ServiceError_PRIMITIVES_OUT_OF_SEQUENCE | ServiceError_OBJECT_STATE_CONFLICT |
    ServiceError_PDU_SIZE | ServiceError_CONTINUATION_INVALID | ServiceError_OBJECT_CONSTRAINT_CONFLICT

fun ServiceError_value :: "ServiceError \<Rightarrow> int" where
  "ServiceError_value ServiceError_OTHER = 0"
| "ServiceError_value ServiceError_PRIMITIVES_OUT_OF_SEQUENCE = 1"
| "ServiceError_value ServiceError_OBJECT_STATE_CONFLICT = 2"
| "ServiceError_value ServiceError_PDU_SIZE = 3"
| "ServiceError_value ServiceError_CONTINUATION_INVALID = 4"
| "ServiceError_value ServiceError_OBJECT_CONSTRAINT_CONFLICT = 5"

definition ServiceError_members :: "ServiceError list" where
  "ServiceError_members =
     [ServiceError_OTHER, ServiceError_PRIMITIVES_OUT_OF_SEQUENCE, ServiceError_OBJECT_STATE_CONFLICT,
      ServiceError_PDU_SIZE, ServiceError_CONTINUATION_INVALID, ServiceError_OBJECT_CONSTRAINT_CONFLICT]"

definition ServiceError_of :: "int \<Rightarrow> ServiceError result" where
  "ServiceError_of = enum_lookup ServiceError_value ServiceError_members"

interpretation ServiceError: enumeration ServiceError_value ServiceError_members
proof unfold_locales
  show "x \<in> set ServiceError_members" for x by (cases x) (simp_all add: ServiceError_members_def)
  show "distinct (map ServiceError_value ServiceError_members)" by (simp add: ServiceError_members_def)
qed

lemma ServiceError_of_value [simp]: "ServiceError_of (ServiceError_value x) = Ok x"
  by (simp add: ServiceError_of_def ServiceError.of_value)

datatype (plugins only: code size) ServicePreemptError =
    ServicePreemptError_OTHER | ServicePreemptError_TIMEOUT | ServicePreemptError_DEADLOCK |
    ServicePreemptError_CANCEL

fun ServicePreemptError_value :: "ServicePreemptError \<Rightarrow> int" where
  "ServicePreemptError_value ServicePreemptError_OTHER = 0"
| "ServicePreemptError_value ServicePreemptError_TIMEOUT = 1"
| "ServicePreemptError_value ServicePreemptError_DEADLOCK = 2"
| "ServicePreemptError_value ServicePreemptError_CANCEL = 3"

definition ServicePreemptError_members :: "ServicePreemptError list" where
  "ServicePreemptError_members =
     [ServicePreemptError_OTHER, ServicePreemptError_TIMEOUT, ServicePreemptError_DEADLOCK,
      ServicePreemptError_CANCEL]"

definition ServicePreemptError_of :: "int \<Rightarrow> ServicePreemptError result" where
  "ServicePreemptError_of = enum_lookup ServicePreemptError_value ServicePreemptError_members"

interpretation ServicePreemptError: enumeration ServicePreemptError_value ServicePreemptError_members
proof unfold_locales
  show "x \<in> set ServicePreemptError_members" for x by (cases x) (simp_all add: ServicePreemptError_members_def)
  show "distinct (map ServicePreemptError_value ServicePreemptError_members)" by (simp add: ServicePreemptError_members_def)
qed

lemma ServicePreemptError_of_value [simp]: "ServicePreemptError_of (ServicePreemptError_value x) = Ok x"
  by (simp add: ServicePreemptError_of_def ServicePreemptError.of_value)

datatype (plugins only: code size) TimeResolutionError =
    TimeResolutionError_OTHER | TimeResolutionError_UNSUPPORTABLE_TIME_RESOLUTION

fun TimeResolutionError_value :: "TimeResolutionError \<Rightarrow> int" where
  "TimeResolutionError_value TimeResolutionError_OTHER = 0"
| "TimeResolutionError_value TimeResolutionError_UNSUPPORTABLE_TIME_RESOLUTION = 1"

definition TimeResolutionError_members :: "TimeResolutionError list" where
  "TimeResolutionError_members =
     [TimeResolutionError_OTHER, TimeResolutionError_UNSUPPORTABLE_TIME_RESOLUTION]"

definition TimeResolutionError_of :: "int \<Rightarrow> TimeResolutionError result" where
  "TimeResolutionError_of = enum_lookup TimeResolutionError_value TimeResolutionError_members"

interpretation TimeResolutionError: enumeration TimeResolutionError_value TimeResolutionError_members
proof unfold_locales
  show "x \<in> set TimeResolutionError_members" for x by (cases x) (simp_all add: TimeResolutionError_members_def)
  show "distinct (map TimeResolutionError_value TimeResolutionError_members)" by (simp add: TimeResolutionError_members_def)
qed

lemma TimeResolutionError_of_value [simp]: "TimeResolutionError_of (TimeResolutionError_value x) = Ok x"
  by (simp add: TimeResolutionError_of_def TimeResolutionError.of_value)

datatype (plugins only: code size) AccessError =
    AccessError_OTHER | AccessError_OBJECT_ACCESS_UNSUPPORTED | AccessError_OBJECT_NON_EXISTENT |
    AccessError_OBJECT_ACCESS_DENIED | AccessError_OBJECT_INVALIDATED

fun AccessError_value :: "AccessError \<Rightarrow> int" where
  "AccessError_value AccessError_OTHER = 0"
| "AccessError_value AccessError_OBJECT_ACCESS_UNSUPPORTED = 1"
| "AccessError_value AccessError_OBJECT_NON_EXISTENT = 2"
| "AccessError_value AccessError_OBJECT_ACCESS_DENIED = 3"
| "AccessError_value AccessError_OBJECT_INVALIDATED = 4"

definition AccessError_members :: "AccessError list" where
  "AccessError_members =
     [AccessError_OTHER, AccessError_OBJECT_ACCESS_UNSUPPORTED, AccessError_OBJECT_NON_EXISTENT,
      AccessError_OBJECT_ACCESS_DENIED, AccessError_OBJECT_INVALIDATED]"

definition AccessError_of :: "int \<Rightarrow> AccessError result" where
  "AccessError_of = enum_lookup AccessError_value AccessError_members"

interpretation AccessError: enumeration AccessError_value AccessError_members
proof unfold_locales
  show "x \<in> set AccessError_members" for x by (cases x) (simp_all add: AccessError_members_def)
  show "distinct (map AccessError_value AccessError_members)" by (simp add: AccessError_members_def)
qed

lemma AccessError_of_value [simp]: "AccessError_of (AccessError_value x) = Ok x"
  by (simp add: AccessError_of_def AccessError.of_value)

datatype (plugins only: code size) InitiateError =
    InitiateError_OTHER | InitiateError_MAX_SERVICES_OUTSTANDING_CALLING_INSUFFICIENT |
    InitiateError_MAX_SERVICES_OUTSTANDING_CALLED_INSUFFICIENT |
    InitiateError_SERVICE_CBB_INSUFFICIENT | InitiateError_PARAMETER_CBB_INSUFFICIENT |
    InitiateError_NESTING_LEVEL_INSUFFICIENT

fun InitiateError_value :: "InitiateError \<Rightarrow> int" where
  "InitiateError_value InitiateError_OTHER = 0"
| "InitiateError_value InitiateError_MAX_SERVICES_OUTSTANDING_CALLING_INSUFFICIENT = 3"
| "InitiateError_value InitiateError_MAX_SERVICES_OUTSTANDING_CALLED_INSUFFICIENT = 4"
| "InitiateError_value InitiateError_SERVICE_CBB_INSUFFICIENT = 5"
| "InitiateError_value InitiateError_PARAMETER_CBB_INSUFFICIENT = 6"
| "InitiateError_value InitiateError_NESTING_LEVEL_INSUFFICIENT = 7"

definition InitiateError_members :: "InitiateError list" where
  "InitiateError_members =
     [InitiateError_OTHER, InitiateError_MAX_SERVICES_OUTSTANDING_CALLING_INSUFFICIENT,
      InitiateError_MAX_SERVICES_OUTSTANDING_CALLED_INSUFFICIENT, InitiateError_SERVICE_CBB_INSUFFICIENT,
      InitiateError_PARAMETER_CBB_INSUFFICIENT, InitiateError_NESTING_LEVEL_INSUFFICIENT]"

definition InitiateError_of :: "int \<Rightarrow> InitiateError result" where
  "InitiateError_of = enum_lookup InitiateError_value InitiateError_members"

interpretation InitiateError: enumeration InitiateError_value InitiateError_members
proof unfold_locales
  show "x \<in> set InitiateError_members" for x by (cases x) (simp_all add: InitiateError_members_def)
  show "distinct (map InitiateError_value InitiateError_members)" by (simp add: InitiateError_members_def)
qed

lemma InitiateError_of_value [simp]: "InitiateError_of (InitiateError_value x) = Ok x"
  by (simp add: InitiateError_of_def InitiateError.of_value)

datatype (plugins only: code size) ConcludeError =
    ConcludeError_OTHER | ConcludeError_FURTHER_COMMUNICATION_REQUIRED

fun ConcludeError_value :: "ConcludeError \<Rightarrow> int" where
  "ConcludeError_value ConcludeError_OTHER = 0"
| "ConcludeError_value ConcludeError_FURTHER_COMMUNICATION_REQUIRED = 1"

definition ConcludeError_members :: "ConcludeError list" where
  "ConcludeError_members =
     [ConcludeError_OTHER, ConcludeError_FURTHER_COMMUNICATION_REQUIRED]"

definition ConcludeError_of :: "int \<Rightarrow> ConcludeError result" where
  "ConcludeError_of = enum_lookup ConcludeError_value ConcludeError_members"

interpretation ConcludeError: enumeration ConcludeError_value ConcludeError_members
proof unfold_locales
  show "x \<in> set ConcludeError_members" for x by (cases x) (simp_all add: ConcludeError_members_def)
  show "distinct (map ConcludeError_value ConcludeError_members)" by (simp add: ConcludeError_members_def)
qed

lemma ConcludeError_of_value [simp]: "ConcludeError_of (ConcludeError_value x) = Ok x"
  by (simp add: ConcludeError_of_def ConcludeError.of_value)

datatype (plugins only: code size) CancelError =
    CancelError_OTHER | CancelError_INVOKE_ID_UNKNOWN | CancelError_CANCEL_NOT_POSSIBLE

fun CancelError_value :: "CancelError \<Rightarrow> int" where
  "CancelError_value CancelError_OTHER = 0"
| "CancelError_value CancelError_INVOKE_ID_UNKNOWN = 1"
| "CancelError_value CancelError_CANCEL_NOT_POSSIBLE = 2"

definition CancelError_members :: "CancelError list" where
  "CancelError_members =
     [CancelError_OTHER, CancelError_INVOKE_ID_UNKNOWN, CancelError_CANCEL_NOT_POSSIBLE]"

definition CancelError_of :: "int \<Rightarrow> CancelError result" where
  "CancelError_of = enum_lookup CancelError_value CancelError_members"

interpretation CancelError: enumeration CancelError_value CancelError_members
proof unfold_locales
  show "x \<in> set CancelError_members" for x by (cases x) (simp_all add: CancelError_members_def)
  show "distinct (map CancelError_value CancelError_members)" by (simp add: CancelError_members_def)
qed

lemma CancelError_of_value [simp]: "CancelError_of (CancelError_value x) = Ok x"
  by (simp add: CancelError_of_def CancelError.of_value)

datatype (plugins only: code size) FileError =
    FileError_OTHER | FileError_FILENAME_AMBIGUOUS | FileError_FILE_BUSY |
    FileError_FILENAME_SYNTAX_ERROR | FileError_CONTENT_TYPE_INVALID | FileError_POSITION_INVALID |
    FileError_FILE_ACCESS_DENIED | FileError_FILE_NON_EXISTENT | FileError_DUPLICATE_FILENAME |
    FileError_INSUFFICIENT_SPACE_IN_FILESTORE

fun FileError_value :: "FileError \<Rightarrow> int" where
  "FileError_value FileError_OTHER = 0"
| "FileError_value FileError_FILENAME_AMBIGUOUS = 1"
| "FileError_value FileError_FILE_BUSY = 2"
| "FileError_value FileError_FILENAME_SYNTAX_ERROR = 3"
| "FileError_value FileError_CONTENT_TYPE_INVALID = 4"
| "FileError_value FileError_POSITION_INVALID = 5"
| "FileError_value FileError_FILE_ACCESS_DENIED = 6"
| "FileError_value FileError_FILE_NON_EXISTENT = 7"
| "FileError_value FileError_DUPLICATE_FILENAME = 8"
| "FileError_value FileError_INSUFFICIENT_SPACE_IN_FILESTORE = 9"

definition FileError_members :: "FileError list" where
  "FileError_members =
     [FileError_OTHER, FileError_FILENAME_AMBIGUOUS, FileError_FILE_BUSY, FileError_FILENAME_SYNTAX_ERROR,
      FileError_CONTENT_TYPE_INVALID, FileError_POSITION_INVALID, FileError_FILE_ACCESS_DENIED,
      FileError_FILE_NON_EXISTENT, FileError_DUPLICATE_FILENAME, FileError_INSUFFICIENT_SPACE_IN_FILESTORE]"

definition FileError_of :: "int \<Rightarrow> FileError result" where
  "FileError_of = enum_lookup FileError_value FileError_members"

interpretation FileError: enumeration FileError_value FileError_members
proof unfold_locales
  show "x \<in> set FileError_members" for x by (cases x) (simp_all add: FileError_members_def)
  show "distinct (map FileError_value FileError_members)" by (simp add: FileError_members_def)
qed

lemma FileError_of_value [simp]: "FileError_of (FileError_value x) = Ok x"
  by (simp add: FileError_of_def FileError.of_value)

section \<open>Names\<close>

datatype ObjectName =
    AaSpecificObjectName pystr | DomainSpecificObjectName pystr pystr | VmdSpecificObjectName pystr

datatype ObjectScope = AaSpecificObjectScope | DomainSpecificObjectScope pystr | VmdSpecificObjectScope

text \<open>An address is an integer, a text or bytes.\<close>

datatype MmsAddress = NumericAddress int | SymbolicAddress pystr | UnconstrainedAddress bytes

section \<open>Data\<close>

record UtcTime =
  utc_value :: int
  utc_leap_second :: bool
  utc_clock_failure :: bool
  utc_not_synchronized :: bool
  utc_accuracy :: "int option"

datatype 'oid MmsData =
    ArrayData "'oid MmsData list" | BcdData int | BinaryTimeData int | BitStringData "bool list" | BooleanData bool
  | BooleanArrayData "bool list" | FloatingPointData pyfloat | GeneralizedTimeData pystr | IntegerData int
  | MmsStringData pystr | ObjIdData 'oid | OctetStringData bytes | StructureData "'oid MmsData list" | UnsignedData int
  | UtcTimeData UtcTime | VisibleStringData pystr

section \<open>Types and variables\<close>

text \<open>Where a type description or a name is allowed, a sum of the two.\<close>

datatype TypeDescription =
    ArrayTypeDescription int "TypeDescription + ObjectName" | BcdTypeDescription int | BinaryTimeTypeDescription bool
  | BitStringTypeDescription int | BooleanTypeDescription | FloatingPointTypeDescription int int
  | GeneralizedTimeTypeDescription | IntegerTypeDescription int | MmsStringTypeDescription int | ObjIdTypeDescription
  | OctetStringTypeDescription int | StructureTypeDescription "(pystr option \<times> (TypeDescription + ObjectName)) list"
  | UnsignedTypeDescription int | UtcTimeTypeDescription | VisibleStringTypeDescription int

datatype VariableSpecification =
    AddressVariableSpecification MmsAddress | InvalidatedVariableSpecification | NameVariableSpecification ObjectName
  | ScatteredAccessDescriptionVariableSpecification "VariableSpecification list"
  | VariableDescriptionVariableSpecification MmsAddress "TypeDescription + ObjectName"

type_synonym Specification = "VariableSpecification list + ObjectName"

section \<open>Requests, responses, errors, unconfirmed services\<close>

datatype 'oid MmsRequest =
    StatusRequest | GetNameListRequest ObjectClass ObjectScope "pystr option" | IdentifyRequest
  | GetVariableAccessAttributesRequest "ObjectName + MmsAddress" | GetNamedVariableListAttributesRequest ObjectName
  | ReadRequest Specification | WriteRequest Specification "'oid MmsData list"
  | DefineNamedVariableListRequest ObjectName "VariableSpecification list" | DeleteNamedVariableListRequest "ObjectName list"

datatype 'oid MmsResponse =
    StatusResponse int int | GetNameListResponse "pystr list" bool | IdentifyResponse pystr pystr pystr "'oid list option"
  | GetVariableAccessAttributesResponse bool TypeDescription
  | GetNamedVariableListAttributesResponse bool "VariableSpecification list"
  | ReadResponse "(DataAccessError + 'oid MmsData) list" | WriteResponse "DataAccessError option list"
  | DefineNamedVariableListResponse | DeleteNamedVariableListResponse int int

datatype MmsError =
    VmdState VmdStateError | ApplicationReference ApplicationReferenceError | Definition DefinitionError | Resource ResourceError
  | Service ServiceError | ServicePreempt ServicePreemptError | TimeResolution TimeResolutionError | Access AccessError
  | Initiate InitiateError | Conclude ConcludeError | Cancel CancelError | File FileError | OtherError int

section \<open>Values of ASN.1\<close>

text \<open>A value of a choice is a pair of a name and a value, one of a sequence or set a dictionary, one of a sequence of a list.\<close>

datatype 'oid Asn1 =
    Asn1None | Asn1Bool bool | Asn1Int int | Asn1Str pystr | Asn1Bytes bytes | Asn1Oid 'oid | Asn1List "'oid Asn1 list"
  | Asn1Dict "(string \<times> 'oid Asn1) list" | Asn1Choice string "'oid Asn1"

text \<open>
  The time of an event is annotated as data, but it is an ASN.1 value that is passed on as it is (None and integers
  choose their alternative).
\<close>

datatype 'oid Unconfirmed =
    EventNotificationUnconfirmed ObjectName ObjectName int "'oid Asn1"
  | InformationReportUnconfirmed Specification "(DataAccessError + 'oid MmsData) list"
  | UnsolicitedStatusUnconfirmed int int

section \<open>Access to values\<close>

text \<open>
  Python has no types, and a value of another shape than the schema says is refused sooner or later, or kept in a
  place where it does not belong. The package \<^verbatim>\<open>hat.asn1\<close> gives values of the schema only; here all others are
  refused with a TypeError when they are read.
\<close>

definition bad_value :: "'a result" where
  "bad_value = Raise (TypeError ''unexpected value'')"

fun asn1_choice :: "'oid Asn1 \<Rightarrow> (string \<times> 'oid Asn1) result" where
  "asn1_choice (Asn1Choice n v) = Ok (n, v)"
| "asn1_choice _ = bad_value"

fun asn1_item :: "string \<Rightarrow> 'oid Asn1 \<Rightarrow> 'oid Asn1 result" where
  "asn1_item k (Asn1Dict kvs) = (case map_of kvs k of None \<Rightarrow> Raise (KeyError k) | Some v \<Rightarrow> Ok v)"
| "asn1_item k _ = bad_value"

fun asn1_get :: "string \<Rightarrow> 'oid Asn1 \<Rightarrow> 'oid Asn1 option result" where
  "asn1_get k (Asn1Dict kvs) = Ok (map_of kvs k)"
| "asn1_get k _ = bad_value"

fun asn1_list :: "'oid Asn1 \<Rightarrow> 'oid Asn1 list result" where
  "asn1_list (Asn1List xs) = Ok xs"
| "asn1_list _ = bad_value"

fun asn1_int :: "'oid Asn1 \<Rightarrow> int result" where
  "asn1_int (Asn1Int n) = Ok n"
| "asn1_int _ = bad_value"

fun asn1_bool :: "'oid Asn1 \<Rightarrow> bool result" where
  "asn1_bool (Asn1Bool b) = Ok b"
| "asn1_bool _ = bad_value"

fun asn1_str :: "'oid Asn1 \<Rightarrow> pystr result" where
  "asn1_str (Asn1Str s) = Ok s"
| "asn1_str _ = bad_value"

fun asn1_bytes :: "'oid Asn1 \<Rightarrow> bytes result" where
  "asn1_bytes (Asn1Bytes bs) = Ok bs"
| "asn1_bytes _ = bad_value"

fun asn1_oid :: "'oid Asn1 \<Rightarrow> 'oid result" where
  "asn1_oid (Asn1Oid i) = Ok i"
| "asn1_oid _ = bad_value"

end
