(* ===== verification/Mms_Time.thy ===== *)
theory Mms_Time
  imports Py_Float Py_Struct
begin

text \<open>
  The times of MMS data, in \<^verbatim>\<open>mms/encoder.py\<close>: seconds and days since 1984, and seconds since 1970 with a fraction of 24
  bits, which the code computes with floats. A datetime object with a time zone is the number of microseconds since 1970.
\<close>

unbundle bit_operations_syntax

section \<open>Floats\<close>

text \<open>The difference to a rational that is a float, and the comparison with it.\<close>

fun float_minus :: "pyfloat \<Rightarrow> rat \<Rightarrow> pyfloat" where
  "float_minus (Finite x) y = to_double (x - y)"
| "float_minus NegZero y = to_double (- y)"
| "float_minus (Infinity s) y = Infinity s"
| "float_minus NaN y = NaN"

fun float_plus :: "pyfloat \<Rightarrow> rat \<Rightarrow> pyfloat" where
  "float_plus (Finite x) y = to_double (x + y)"
| "float_plus NegZero y = to_double y"
| "float_plus (Infinity s) y = Infinity s"
| "float_plus NaN y = NaN"

fun float_ge :: "pyfloat \<Rightarrow> rat \<Rightarrow> bool" where
  "float_ge (Finite x) y \<longleftrightarrow> y \<le> x"
| "float_ge NegZero y \<longleftrightarrow> y \<le> 0"
| "float_ge (Infinity s) y \<longleftrightarrow> \<not> s"
| "float_ge NaN y \<longleftrightarrow> False"

text \<open>\<open>value.timestamp()\<close> and \<open>datetime.fromtimestamp(ts, timezone.utc)\<close>, for times in the range of datetime.\<close>

definition timestamp :: "int \<Rightarrow> pyfloat" where
  "timestamp us = int_truediv us 1000000"

definition from_timestamp :: "pyfloat \<Rightarrow> int result" where
  "from_timestamp ts =
     bindE (py_int ts) (\<lambda>n.
     bindE (py_round (float_times (float_minus ts (of_int n)) 1000000)) (\<lambda>us. Ok (n * 1000000 + us)))"

section \<open>Binary times\<close>

definition epoch_1984 :: int where
  "epoch_1984 = 441763200000000"

definition encode_binary_time :: "int \<Rightarrow> bytes result" where
  "encode_binary_time t =
     (let delta = t - epoch_1984; days = delta div 86400000000; seconds = delta mod 86400000000 div 1000000 in
      bindE (py_bytes [0xFF AND drop_bit 24 seconds, 0xFF AND drop_bit 16 seconds, 0xFF AND drop_bit 8 seconds, 0xFF AND seconds,
        0xFF AND drop_bit 8 days, 0xFF AND days]) Ok)"

definition decode_binary_time :: "bytes \<Rightarrow> int result" where
  "decode_binary_time data =
     bindE (byte_at data 4) (\<lambda>d4. bindE (byte_at data 5) (\<lambda>d5.
     bindE (byte_at data 0) (\<lambda>d0. bindE (byte_at data 1) (\<lambda>d1. bindE (byte_at data 2) (\<lambda>d2. bindE (byte_at data 3) (\<lambda>d3.
       Ok (epoch_1984 + (push_bit 8 d4 OR d5) * 86400000000
         + (push_bit 24 d0 OR push_bit 16 d1 OR push_bit 8 d2 OR d3) * 1000000)))))))"

section \<open>UTC times\<close>

text \<open>One turn of the loop: what is left of the fraction, and the three bytes.\<close>

definition fraction_step :: "pyfloat \<times> int list \<Rightarrow> nat \<Rightarrow> pyfloat \<times> int list" where
  "fraction_step s i =
     (case s of (decimal, fraction) \<Rightarrow>
        if float_ge decimal (1 / 2 ^ (i + 1))
        then (float_minus decimal (1 / 2 ^ (i + 1)), fraction[i div 8 := fraction ! (i div 8) OR 2 ^ (7 - i mod 8)])
        else (decimal, fraction))"

definition encode_fraction :: "pyfloat \<Rightarrow> int list" where
  "encode_fraction decimal = snd (foldl fraction_step (decimal, [0, 0, 0]) [0..<24])"

definition encode_utc_seconds :: "int \<Rightarrow> int list result" where
  "encode_utc_seconds t =
     (let ts = timestamp t in
      bindE (py_int ts) (\<lambda>n.
        let fraction = encode_fraction (float_minus ts (of_int n)) in
        appendE (pack_be [(4, n)]) (Ok fraction)))"

text \<open>\<open>data[4 + i // 8] & (1 << (7 - (i % 8)))\<close>\<close>

definition decode_fraction :: "bytes \<Rightarrow> pyfloat \<Rightarrow> nat \<Rightarrow> pyfloat result" where
  "decode_fraction data ts i =
     bindE (byte_at data (4 + i div 8)) (\<lambda>b.
       Ok (if b AND 2 ^ (7 - i mod 8) \<noteq> 0 then float_plus ts (1 / 2 ^ (i + 1)) else ts))"

definition decode_utc_seconds :: "bytes \<Rightarrow> int result" where
  "decode_utc_seconds data =
     bindE (unpack_be [4] (take 4 data)) (\<lambda>ns.
     bindE (foldl (\<lambda>m i. bindE m (\<lambda>ts. decode_fraction data ts i)) (Ok (Finite (of_int (hd ns)))) [0..<24]) from_timestamp)"


section \<open>Exact floats\<close>

text \<open>The multiples of a power of two with 53 bits.\<close>

definition grid :: "int \<Rightarrow> rat \<Rightarrow> bool" where
  "grid e x \<longleftrightarrow> -1074 \<le> e \<and> e \<le> 0 \<and> (\<exists>m. x = of_int m * 2 powi e \<and> 0 \<le> m \<and> m < 2 ^ 53)"

lemma grid_bounds:
  assumes "grid e x" shows "0 \<le> x \<and> x < 2 ^ 53"
proof -
  from assms obtain m where x: "x = of_int m * 2 powi e" and m: "0 \<le> m" "m < 2 ^ 53" and e: "e \<le> 0"
    by (auto simp: grid_def)
  have "(2::rat) powi e \<le> 2 powi 0" by (rule power_int_increasing) (use e in simp_all)
  then have "x \<le> of_int m * 1" unfolding x by (intro mult_left_mono) (use m in simp_all)
  also have "\<dots> < 2 ^ 53" using m by (metis mult_1_right of_int_less_iff of_int_numeral of_int_power)
  finally show ?thesis using m x by simp
qed

lemma to_double_grid:
  assumes "grid e x" shows "to_double x = Finite x"
proof (cases "x = 0")
  case True
  then show ?thesis by (simp add: to_double_def round_prec_def)
next
  case False
  from assms obtain m where m: "x = of_int m * 2 powi e" "0 \<le> m" "m < 2 ^ 53" and e: "-1074 \<le> e" by (auto simp: grid_def)
  from grid_bounds [OF assms] False have x: "0 < x" "x < 2 ^ 53" by auto
  have "(2::rat) powi flog2 x \<le> x" by (rule flog2_bounds(1)) (rule x)
  also have "x < 2 ^ 53 * 2 powi e"
    unfolding m(1) using m(3) by (intro mult_strict_right_mono) (metis of_int_less_iff of_int_numeral of_int_power, simp)
  also have "\<dots> = (2::rat) powi (53 + e)" by (simp add: power_int_add)
  finally have "flog2 x < 53 + e" by (rule powi_less_imp_less)
  then have "round_prec 53 (-1074) x = x" using e x m(1) by (intro round_prec_exact [of x m e]) auto
  moreover have "x < 2 ^ 1024" using x(2) by (rule less_trans) simp
  ultimately show ?thesis using x(1) by (simp add: to_double_def)
qed

lemma grid_part:
  assumes "grid e x" "int k \<le> - e" "0 \<le> j" "of_int j / 2 ^ k \<le> x"
  shows "grid e (of_int j / 2 ^ k)" "grid e (x - of_int j / 2 ^ k)"
proof -
  from assms(1) obtain m where m: "x = of_int m * 2 powi e" "0 \<le> m" "m < 2 ^ 53" and e: "-1074 \<le> e" "e \<le> 0" by (auto simp: grid_def)
  define j' where "j' = j * 2 ^ nat (- e - int k)"
  have "(2::rat) ^ nat (- e - int k) * 2 powi e = 2 powi (- int k)"
    using assms(2) by (simp add: power_int_add [symmetric] flip: power_int_of_nat)
  then have y: "of_int j / 2 ^ k = of_int j' * (2::rat) powi e"
    by (simp add: j'_def power_int_minus divide_inverse mult.assoc)
  with assms(4) m(1) have "of_int j' * (2::rat) powi e \<le> of_int m * 2 powi e" by simp
  then have "j' \<le> m" by (simp add: mult_le_cancel_right)
  moreover have "0 \<le> j'" using assms(3) by (simp add: j'_def)
  ultimately show "grid e (of_int j / 2 ^ k)" "grid e (x - of_int j / 2 ^ k)"
    using y m e by (auto simp: grid_def intro!: exI [of _ j'] exI [of _ "m - j'"] simp: algebra_simps)
qed

lemma round_prec_grid:
  assumes "0 \<le> x" "x < 2 ^ 52"
  obtains e where "grid e (round_prec 53 (-1074) x)"
proof (cases "x = 0")
  case True
  then have "grid 0 (round_prec 53 (-1074) x)" by (auto simp: grid_def round_prec_def)
  with that show thesis .
next
  case False
  with assms have x: "0 < x" by simp
  define e where "e = max (-1074) (flog2 x - 52)"
  define m where "m = round_half_even (x / 2 powi e)"
  have r: "round_prec 53 (-1074) x = of_int m * 2 powi e"
    using x by (simp add: round_prec_def e_def m_def Let_def)
  have "(2::rat) powi flog2 x < 2 powi 52" using flog2_bounds(1) [OF x] assms(2) by simp
  then have "flog2 x < 52" by (rule powi_less_imp_less)
  then have e: "-1074 \<le> e" "e \<le> -1" by (simp_all add: e_def)
  have "x < 2 powi (flog2 x + 1)" by (rule flog2_bounds(2) [OF x])
  also have "\<dots> \<le> 2 powi (53 + e)" by (rule power_int_increasing) (simp_all add: e_def)
  finally have "x / 2 powi e < 2 ^ 53" by (simp add: power_int_add pos_divide_less_eq)
  moreover have "0 \<le> x / 2 powi e" using x by simp
  moreover have "\<bar>of_int m - x / 2 powi e\<bar> \<le> 1 / 2" unfolding m_def by (rule round_half_even_error)
  ultimately have "(-1 :: rat) < of_int m" "(of_int m :: rat) < 2 ^ 53 + 1" by linarith+
  then have "of_int (-1) < (of_int m :: rat)" "(of_int m :: rat) < of_int (2 ^ 53 + 1)" by simp_all
  then have "0 \<le> m" "m \<le> 2 ^ 53" unfolding of_int_less_iff by simp_all
  show thesis
  proof (cases "m = 2 ^ 53")
    case True
    have "round_prec 53 (-1074) x = of_int (2 ^ 52) * 2 powi (e + 1)" unfolding r True by (simp add: power_int_add)
    then have "grid (e + 1) (round_prec 53 (-1074) x)" using e by (auto simp: grid_def intro: exI [of _ "2 ^ 52"])
    with that show thesis .
  next
    case False
    then have "grid e (round_prec 53 (-1074) x)" using r e \<open>0 \<le> m\<close> \<open>m \<le> 2 ^ 53\<close> by (auto simp: grid_def)
    with that show thesis .
  qed
qed

section \<open>The digits of a fraction\<close>

definition prefix_of :: "rat \<Rightarrow> nat \<Rightarrow> int" where
  "prefix_of d k = \<lfloor>d * 2 ^ k\<rfloor>"

lemma prefix_of_bounds: "of_int (prefix_of d k) / 2 ^ k \<le> d" "d < (of_int (prefix_of d k) + 1) / 2 ^ k"
  using floor_correct [of "d * 2 ^ k"] by (simp_all add: prefix_of_def pos_divide_le_eq pos_less_divide_eq)

lemma prefix_of_Suc:
  "prefix_of d (Suc k) = 2 * prefix_of d k + (if 1 / 2 ^ Suc k \<le> d - of_int (prefix_of d k) / 2 ^ k then 1 else 0)"
proof -
  obtain p where p: "prefix_of d k = p" "of_int p \<le> d * 2 ^ k" "d * 2 ^ k < of_int p + 1"
  proof (rule that [of "\<lfloor>d * 2 ^ k\<rfloor>"])
    show "of_int \<lfloor>d * 2 ^ k\<rfloor> \<le> d * 2 ^ k" "d * 2 ^ k < of_int \<lfloor>d * 2 ^ k\<rfloor> + 1" using floor_correct [of "d * 2 ^ k"] by simp_all
  qed (simp add: prefix_of_def)
  have eq: "1 / 2 ^ Suc k \<le> d - of_int p / 2 ^ k \<longleftrightarrow> 1 \<le> 2 * (d * 2 ^ k - of_int p)"
    by (simp add: field_simps)
  have "\<lfloor>d * 2 ^ Suc k\<rfloor> = 2 * p + (if 1 \<le> 2 * (d * 2 ^ k - of_int p) then 1 else 0)"
    by (rule floor_unique) (use p in auto)
  then show ?thesis unfolding p(1) eq by (simp add: prefix_of_def)
qed

lemma prefix_of_div: "prefix_of d (k + n) div 2 ^ n = prefix_of d k"
proof (induction n)
  case (Suc n)
  have "prefix_of d (k + Suc n) div 2 ^ Suc n = prefix_of d (Suc (k + n)) div 2 div 2 ^ n" by (simp add: zdiv_zmult2_eq)
  also have "prefix_of d (Suc (k + n)) div 2 = prefix_of d (k + n)" unfolding prefix_of_Suc by simp
  finally show ?case using Suc by simp
qed simp

lemma grid_prefix:
  assumes "grid e x" "0 \<le> n" "of_int n \<le> x" and d: "d = x - of_int n"
  shows "grid e (of_int n + of_int (prefix_of d k) / 2 ^ k)" "grid e (d - of_int (prefix_of d k) / 2 ^ k)"
proof -
  from assms(1) have e: "e \<le> 0" by (simp add: grid_def)
  have p0: "0 \<le> prefix_of d k" using assms(3) d by (simp add: prefix_of_def)
  have sum: "of_int n + of_int (prefix_of d k) / 2 ^ k = (of_int (n * 2 ^ k + prefix_of d k) / 2 ^ k :: rat)"
    by (simp add: add_divide_distrib)
  have diff: "d - of_int (prefix_of d k) / 2 ^ k = x - of_int (n * 2 ^ k + prefix_of d k) / 2 ^ k"
    using d sum by simp
  have "grid e (of_int n + of_int (prefix_of d k) / 2 ^ k) \<and> grid e (d - of_int (prefix_of d k) / 2 ^ k)"
  proof (cases "int k \<le> - e")
    case True
    have "of_int (n * 2 ^ k + prefix_of d k) / 2 ^ k \<le> x" using prefix_of_bounds(1) [of d k] sum d by simp
    moreover have "0 \<le> n * 2 ^ k + prefix_of d k" using assms(2) p0 by simp
    ultimately show ?thesis unfolding diff sum using grid_part [OF assms(1) True] by blast
  next
    case False
    from assms(1) obtain m where m: "x = of_int m * 2 powi e" by (auto simp: grid_def)
    have "(2::rat) powi e * 2 ^ k = of_int (2 ^ nat (int k + e))"
      using False e by (simp add: power_int_add [symmetric] add.commute flip: power_int_of_nat)
    then have "d * 2 ^ k = of_int (m * 2 ^ nat (int k + e) - n * 2 ^ k)"
      unfolding d m by (simp add: algebra_simps)
    then have "of_int (prefix_of d k) = d * 2 ^ k" unfolding prefix_of_def by (metis floor_of_int)
    then have "of_int (prefix_of d k) / 2 ^ k = d" by simp
    with assms(1) d show ?thesis by (simp add: grid_def)
  qed
  then show "grid e (of_int n + of_int (prefix_of d k) / 2 ^ k)" "grid e (d - of_int (prefix_of d k) / 2 ^ k)" by simp_all
qed


section \<open>The loops\<close>

lemma or_power:
  fixes x :: int
  assumes "x mod 2 ^ Suc n = 0" shows "x OR 2 ^ n = x + 2 ^ n"
proof -
  have "\<not> bit (take_bit (Suc n) x) n" using assms by (simp add: take_bit_eq_mod)
  then have "\<not> bit x n" by (simp add: bit_take_bit_iff)
  then show ?thesis by (simp add: disjunctive_add_eq_or and_exp_eq_0_iff_not_bit)
qed

definition three_bytes :: "int \<Rightarrow> int list" where
  "three_bytes N = [take_bit 8 (drop_bit 16 N), take_bit 8 (drop_bit 8 N), take_bit 8 N]"

lemma lt_24:
  fixes k :: nat
  assumes "k < 24" "P 0" "P 1" "P 2" "P 3" "P 4" "P 5" "P 6" "P 7" "P 8" "P 9" "P 10" "P 11" "P 12" "P 13" "P 14" "P 15"
    "P 16" "P 17" "P 18" "P 19" "P 20" "P 21" "P 22" "P 23"
  shows "P k"
proof -
  have "k \<in> set [0..<24]" using assms(1) by simp
  also have "[0..<24] = [0, 1, 2, 3, 4, 5, 6, 7, 8, 9, 10, 11, 12, 13, 14, 15, 16, 17, 18, 19, 20, 21, 22, 23]"
    by (simp add: upt_rec)
  finally show ?thesis using assms by auto
qed

lemma three_bytes_set:
  "k < 24 \<Longrightarrow> three_bytes (N OR 2 ^ (23 - k)) = (three_bytes N)[k div 8 := three_bytes N ! (k div 8) OR 2 ^ (7 - k mod 8)]"
  by (erule lt_24) (simp_all add: three_bytes_def drop_bit_or take_bit_or)

lemma three_bytes_bit:
  assumes "k < 24"
  shows "three_bytes N ! (k div 8) AND 2 ^ (7 - k mod 8) \<noteq> 0 \<longleftrightarrow> bit N (23 - k)"
  unfolding and_exp_eq_0_iff_not_bit not_not
  by (rule lt_24 [OF assms]) (simp_all add: three_bytes_def bit_take_bit_iff bit_drop_bit_eq)

lemma fraction_prefix:
  fixes d :: rat
  assumes "k < 24"
  defines "F \<equiv> prefix_of d 24"
  shows "bit F (23 - k) \<longleftrightarrow> 1 / 2 ^ Suc k \<le> d - of_int (prefix_of d k) / 2 ^ k"
    "prefix_of d (Suc k) * 2 ^ (23 - k) =
      (if bit F (23 - k) then prefix_of d k * 2 ^ (24 - k) OR 2 ^ (23 - k) else prefix_of d k * 2 ^ (24 - k))"
proof -
  have e: "24 - k = Suc (23 - k)" "Suc k + (23 - k) = 24" using assms(1) by simp_all
  have "F div 2 ^ (23 - k) = prefix_of d (Suc k)"
    using prefix_of_div [of d "Suc k" "23 - k"] unfolding F_def e(2) .
  then have b: "bit F (23 - k) \<longleftrightarrow> odd (prefix_of d (Suc k))" by (simp add: bit_iff_odd)
  then show c: "bit F (23 - k) \<longleftrightarrow> 1 / 2 ^ Suc k \<le> d - of_int (prefix_of d k) / 2 ^ k"
    unfolding prefix_of_Suc by simp
  have "prefix_of d k * 2 ^ (24 - k) OR 2 ^ (23 - k) = prefix_of d k * 2 ^ (24 - k) + 2 ^ (23 - k)"
    unfolding e(1) by (rule or_power) simp
  then show "prefix_of d (Suc k) * 2 ^ (23 - k) =
      (if bit F (23 - k) then prefix_of d k * 2 ^ (24 - k) OR 2 ^ (23 - k) else prefix_of d k * 2 ^ (24 - k))"
    unfolding c prefix_of_Suc e(1) by (simp add: algebra_simps)
qed

lemma encode_fraction_prefix:
  assumes "grid e x" "0 \<le> n" "of_int n \<le> x" "d = x - of_int n" "d < 1" "k \<le> 24"
  shows "foldl fraction_step (Finite d, [0, 0, 0]) [0..<k] =
    (Finite (d - of_int (prefix_of d k) / 2 ^ k), three_bytes (prefix_of d k * 2 ^ (24 - k)))"
  using assms(6)
proof (induction k)
  case 0
  have "prefix_of d 0 = 0" using assms by (simp add: prefix_of_def floor_eq_iff)
  then show ?case by (simp add: three_bytes_def)
next
  case (Suc k)
  then have k: "k < 24" by simp
  note b = fraction_prefix [OF k, of d]
  have p: "Suc k \<le> 24 \<Longrightarrow> 24 - Suc k = 23 - k" by simp
  have step: "d - of_int (prefix_of d k) / 2 ^ k - 1 / 2 ^ Suc k = d - of_int (prefix_of d (Suc k)) / 2 ^ Suc k"
    if "1 / 2 ^ Suc k \<le> d - of_int (prefix_of d k) / 2 ^ k"
    using that by (simp add: prefix_of_Suc add_divide_distrib)
  have same: "of_int (prefix_of d (Suc k)) / 2 ^ Suc k = (of_int (prefix_of d k) / 2 ^ k :: rat)"
    if "\<not> 1 / 2 ^ Suc k \<le> d - of_int (prefix_of d k) / 2 ^ k"
    using that by (simp add: prefix_of_Suc)
  have g: "to_double (d - of_int (prefix_of d (Suc k)) / 2 ^ Suc k) = Finite (d - of_int (prefix_of d (Suc k)) / 2 ^ Suc k)"
    using grid_prefix(2) [OF assms(1-4)] by (rule to_double_grid)
  show ?case
  proof (cases "1 / 2 ^ Suc k \<le> d - of_int (prefix_of d k) / 2 ^ k")
    case True
    have "to_double (d - of_int (prefix_of d k) / 2 ^ k - 1 / 2 ^ Suc k) = Finite (d - of_int (prefix_of d (Suc k)) / 2 ^ Suc k)"
      unfolding step [OF True] by (rule g)
    with True show ?thesis
      using Suc.IH k b three_bytes_set [OF k, of "prefix_of d k * 2 ^ (24 - k)"] p
      by (simp add: fraction_step_def)
  next
    case False
    then show ?thesis using Suc.IH k b same [OF False] p by (simp add: fraction_step_def)
  qed
qed

lemma decode_fraction_prefix:
  assumes "grid e x" "0 \<le> n" "of_int n \<le> x" "d = x - of_int n" "k \<le> 24" "d < 1"
    and "take 3 (drop 4 data) = wire (three_bytes (prefix_of d 24))"
  shows "foldl (\<lambda>m i. bindE m (\<lambda>ts. decode_fraction data ts i)) (Ok (Finite (of_int n))) [0..<k] =
    Ok (Finite (of_int n + of_int (prefix_of d k) / 2 ^ k))"
  using assms(5)
proof (induction k)
  case 0
  have "prefix_of d 0 = 0" using assms by (simp add: prefix_of_def floor_eq_iff)
  then show ?case by simp
next
  case (Suc k)
  then have k: "k < 24" by simp
  note b = fraction_prefix [OF k, of d]
  have all: "all_bytes (three_bytes N)" for N
    by (simp add: three_bytes_def all_bytes_def is_byte_def take_bit_int_less_exp [of 8, simplified])
  have len: "length (take 3 (drop 4 data)) = 3" unfolding assms(7) by (simp add: three_bytes_def wire_def)
  have i: "k div 8 < 3" using k by simp
  then have "byte_at data (4 + k div 8) = byte_at (take 3 (drop 4 data)) (k div 8)"
    using len by (simp add: byte_at_def)
  also have "\<dots> = Ok (three_bytes (prefix_of d 24) ! (k div 8))"
  proof -
    have "is_byte (three_bytes (prefix_of d 24) ! (k div 8))"
      using all [of "prefix_of d 24"] i by (simp add: all_bytes_def list_all_length three_bytes_def)
    moreover have "length (three_bytes (prefix_of d 24)) = 3" by (simp add: three_bytes_def)
    ultimately show ?thesis using i unfolding assms(7) by (simp add: byte_at_def wire_def uint_of_byte)
  qed
  finally have at: "byte_at data (4 + k div 8) = Ok (three_bytes (prefix_of d 24) ! (k div 8))" .
  have step: "of_int n + of_int (prefix_of d k) / 2 ^ k + 1 / 2 ^ Suc k = (of_int n :: rat) + of_int (prefix_of d (Suc k)) / 2 ^ Suc k"
    if "1 / 2 ^ Suc k \<le> d - of_int (prefix_of d k) / 2 ^ k"
    using that by (simp add: prefix_of_Suc add_divide_distrib)
  have same: "of_int (prefix_of d (Suc k)) / 2 ^ Suc k = (of_int (prefix_of d k) / 2 ^ k :: rat)"
    if "\<not> 1 / 2 ^ Suc k \<le> d - of_int (prefix_of d k) / 2 ^ k"
    using that by (simp add: prefix_of_Suc)
  have g: "to_double (of_int n + of_int (prefix_of d (Suc k)) / 2 ^ Suc k) = Finite (of_int n + of_int (prefix_of d (Suc k)) / 2 ^ Suc k)"
    using grid_prefix(1) [OF assms(1-4)] by (rule to_double_grid)
  show ?case
  proof (cases "1 / 2 ^ Suc k \<le> d - of_int (prefix_of d k) / 2 ^ k")
    case True
    have "to_double (of_int n + of_int (prefix_of d k) / 2 ^ k + 1 / 2 ^ Suc k) = Finite (of_int n + of_int (prefix_of d (Suc k)) / 2 ^ Suc k)"
      unfolding step [OF True] by (rule g)
    with True show ?thesis
      using Suc.IH k b(1) at three_bytes_bit [OF k, of "prefix_of d 24"] by (simp add: decode_fraction_def)
  next
    case False
    then show ?thesis
      using Suc.IH k b(1) same [OF False] at three_bytes_bit [OF k, of "prefix_of d 24"] by (simp add: decode_fraction_def)
  qed
qed


section \<open>Round trips\<close>

lemma near_sum:
  fixes a b c :: rat
  assumes "\<bar>a - b\<bar> \<le> 1 / 1000" "\<bar>b - c\<bar> \<le> 3 / 10" shows "\<bar>a - c\<bar> < 1 / 2"
  using assms by linarith

lemma utc_seconds_roundtrip:
  assumes "0 \<le> t" "t < 4294967296000000"
  obtains ys where "encode_utc_seconds t = Ok ys" "length ys = 7" "all_bytes ys"
    "\<And>rest. decode_utc_seconds (wire ys @ rest) = Ok t"
proof -
  define r where "r = (of_int t / 1000000 :: rat)"
  define x where "x = round_prec 53 (-1074) r"
  define n where "n = \<lfloor>x\<rfloor>"
  define d where "d = x - of_int n"
  have r: "0 \<le> r" "r \<le> 4294967296 - 1 / 1000000"
  proof -
    show "0 \<le> r" using assms(1) by (simp add: r_def)
    have "(of_int t :: rat) \<le> of_int (4294967296000000 - 1)" unfolding of_int_le_iff using assms(2) by simp
    then show "r \<le> 4294967296 - 1 / 1000000" by (simp add: r_def)
  qed
  have "\<bar>x - r\<bar> \<le> 2 powi (32 - int 53) / 2"
    unfolding x_def by (rule round_prec_error) (use r in simp_all)
  also have "(2::rat) powi (32 - int 53) / 2 = 1 / 4194304" by (simp add: power_int_def power_divide)
  finally have err: "\<bar>x - r\<bar> \<le> 1 / 4194304" .
  have "0 \<le> r" "r < 2 ^ 52" using r by simp_all
  then obtain e where g: "grid e x" unfolding x_def by (rule round_prec_grid)
  from grid_bounds [OF g] have x0: "0 \<le> x" by simp
  have x1: "x < 4294967296" using err r(2) by linarith
  have n: "0 \<le> n" "n < 4294967296" "of_int n \<le> x" "d < 1" "0 \<le> d"
    using x0 x1 by (simp_all add: n_def d_def floor_less_iff) linarith+
  have dd: "d = x - of_int n" by (rule d_def)
  have ts: "timestamp t = Finite x"
    using x0 x1 r(1) by (simp add: timestamp_def int_truediv_def to_double_def r_def [symmetric] x_def [symmetric] Let_def)
  have i: "py_int (Finite x) = Ok n" using x0 by (simp add: n_def)
  have "prefix_of d 0 = 0" using n by (simp add: prefix_of_def floor_eq_iff)
  then have gd: "grid e d" using grid_prefix(2) [OF g n(1) n(3) dd, of 0] by simp
  then have m: "float_minus (Finite x) (of_int n) = Finite d" unfolding d_def by (simp add: to_double_grid)
  define F where "F = prefix_of d 24"
  have fr: "encode_fraction (Finite d) = three_bytes F"
    unfolding encode_fraction_def using encode_fraction_prefix [OF g n(1) n(3) dd n(4), of 24] by (simp add: F_def)
  have "fields_ok [(4, n)]" using n by simp
  then obtain ds where ds: "pack_be [(4, n)] = Ok ds" "length ds = 4" "all_bytes ds" "unpack_be [4] (wire ds) = Ok [n]"
    by (rule pack_be_Ok) simp
  define ys where "ys = ds @ three_bytes F"
  have len: "length (three_bytes F) = 3" by (simp add: three_bytes_def)
  have all: "all_bytes (three_bytes F)"
    by (simp add: three_bytes_def all_bytes_def is_byte_def take_bit_int_less_exp [of 8, simplified])
  show thesis
  proof (rule that)
    show "encode_utc_seconds t = Ok ys"
      by (simp add: encode_utc_seconds_def ts i m fr ds(1) ys_def del: py_int.simps float_minus.simps)
    show "length ys = 7" using ds(2) len by (simp add: ys_def)
    show "all_bytes ys" using ds(3) all by (simp add: ys_def)
    fix rest
    have data: "take 4 (wire ys @ rest) = wire ds" "take 3 (drop 4 (wire ys @ rest)) = wire (three_bytes F)"
      using ds(2) len by (simp_all add: ys_def)
    define v where "v = (of_int n + of_int F / 2 ^ 24 :: rat)"
    have v: "foldl (\<lambda>m i. bindE m (\<lambda>ts. decode_fraction (wire ys @ rest) ts i)) (Ok (Finite (of_int n))) [0..<24] = Ok (Finite v)"
      unfolding v_def F_def
      by (rule decode_fraction_prefix [OF g n(1) n(3) dd]) (use n data(2) in \<open>simp_all add: F_def\<close>)
    have F: "of_int F / 2 ^ 24 \<le> d" "d < (of_int F + 1) / 2 ^ 24" unfolding F_def by (rule prefix_of_bounds)+
    have F0: "0 \<le> F" using n(5) by (simp add: F_def prefix_of_def)
    have v1: "of_int n \<le> v" "v < of_int n + 1" using F0 F n(4) by (simp_all add: v_def)
    have iv: "py_int (Finite v) = Ok n"
    proof -
      have "\<lfloor>v\<rfloor> = n" using v1 by (simp add: floor_eq_iff)
      moreover have "\<not> v < 0" using v1 n(1) by simp
      ultimately show ?thesis by simp
    qed
    define f where "f = (of_int F / 2 ^ 24 :: rat)"
    have "grid e v" unfolding v_def F_def by (rule grid_prefix(1) [OF g n(1) n(3) dd])
    moreover have "prefix_of (v - of_int n) 0 = 0" using v1 by (simp add: prefix_of_def floor_eq_iff)
    ultimately have "grid e (v - of_int n)" using grid_prefix(2) [of e v n "v - of_int n" 0] n(1) v1(1) by simp
    then have mv: "float_minus (Finite v) (of_int n) = Finite f" by (simp add: to_double_grid v_def f_def)
    have f: "0 \<le> f" "f < 1" using F0 F n(4) by (simp_all add: f_def)
    define w where "w = round_prec 53 (-1074) (f * 1000000)"
    have "\<bar>w - f * 1000000\<bar> \<le> 2 powi (20 - int 53) / 2"
      unfolding w_def by (rule round_prec_error) (use f in simp_all)
    also have "\<dots> \<le> (1 / 1000 :: rat)" by (simp add: power_int_def power_divide)
    finally have werr: "\<bar>w - f * 1000000\<bar> \<le> 1 / 1000" .
    have w: "\<bar>w\<bar> < 2 ^ 1024"
    proof -
      have "\<bar>w\<bar> < 1073741824" using werr f by linarith
      also have "\<dots> = (2 :: rat) ^ 30" by simp
      also have "\<dots> < (2 :: rat) ^ 1024" by (rule power_strict_increasing) simp_all
      finally show ?thesis .
    qed
    have fin: "float_times (Finite f) 1000000 = Finite w"
      using w f by (simp add: to_double_def w_def [symmetric] Let_def)
    have near: "round_half_even w = t - n * 1000000"
    proof (rule round_half_even_near)
      have "r = of_int t / 1000000" by (rule r_def)
      then have t: "of_int t = r * 1000000" by simp
      have "\<bar>f - d\<bar> \<le> 1 / 16777216" using F by (simp add: f_def)
      then have "\<bar>f + of_int n - r\<bar> \<le> 1 / 16777216 + 1 / 4194304" using err unfolding d_def by linarith
      then have "\<bar>f * 1000000 - of_int (t - n * 1000000)\<bar> \<le> 3 / 10"
      proof -
        have "f * 1000000 - of_int (t - n * 1000000) = (f + of_int n - r) * 1000000"
          unfolding of_int_diff of_int_mult t of_int_numeral by (simp add: algebra_simps)
        then have "\<bar>f * 1000000 - of_int (t - n * 1000000)\<bar> = \<bar>f + of_int n - r\<bar> * 1000000" by (simp only: abs_mult abs_numeral)
        also have "\<dots> \<le> (1 / 16777216 + 1 / 4194304) * 1000000"
          by (rule mult_right_mono) (use \<open>\<bar>f + of_int n - r\<bar> \<le> 1 / 16777216 + 1 / 4194304\<close> in simp_all)
        also have "\<dots> \<le> 3 / 10" by simp
        finally show ?thesis .
      qed
      with werr show "\<bar>w - of_int (t - n * 1000000)\<bar> < 1 / 2" by (rule near_sum)
    qed
    show "decode_utc_seconds (wire ys @ rest) = Ok t"
      unfolding decode_utc_seconds_def data(1) ds(4) bindE_simps list.sel v from_timestamp_def iv mv fin
      by (simp add: near)
  qed
qed


text \<open>Binary times keep whole seconds.\<close>

lemma binary_time_bytes:
  fixes s n :: int
  assumes "0 \<le> s" "s < 2 ^ 32" "0 \<le> n" "n < 2 ^ 16"
  shows "push_bit 8 (0xFF AND drop_bit 8 n) OR (0xFF AND n) = n"
    "push_bit 24 (0xFF AND drop_bit 24 s) OR push_bit 16 (0xFF AND drop_bit 16 s) OR push_bit 8 (0xFF AND drop_bit 8 s) OR (0xFF AND s) = s"
proof -
  have m: "0xFF AND x = take_bit 8 x" for x :: int
    using and_mask_mod [of x 8] by (simp add: and.commute [of 255] take_bit_eq_mod)
  have "n = take_bit 16 n" "s = take_bit 32 s" using assms by (simp_all add: take_bit_int_eq_self)
  then have nb: "bit n i \<Longrightarrow> i < 16" and sb: "bit s i \<Longrightarrow> i < 32" for i
    by (metis bit_take_bit_iff)+
  show "push_bit 8 (0xFF AND drop_bit 8 n) OR (0xFF AND n) = n"
    unfolding m
  proof (rule bit_eqI)
    show "bit (push_bit 8 (take_bit 8 (drop_bit 8 n)) OR take_bit 8 n) i \<longleftrightarrow> bit n i" for i
      using nb [of i] by (cases "i < 8") (auto simp: bit_simps)
  qed
  show "push_bit 24 (0xFF AND drop_bit 24 s) OR push_bit 16 (0xFF AND drop_bit 16 s) OR push_bit 8 (0xFF AND drop_bit 8 s) OR (0xFF AND s) = s"
    unfolding m
  proof (rule bit_eqI)
    show "bit (push_bit 24 (take_bit 8 (drop_bit 24 s)) OR push_bit 16 (take_bit 8 (drop_bit 16 s)) OR push_bit 8 (take_bit 8 (drop_bit 8 s))
        OR take_bit 8 s) i \<longleftrightarrow> bit s i" for i
      using sb [of i] by (cases "i < 8"; cases "i < 16"; cases "i < 24") (auto simp: bit_simps)
  qed
qed

lemma binary_time_roundtrip:
  assumes "epoch_1984 \<le> t" "t < epoch_1984 + 65536 * 86400000000"
  obtains bs where "encode_binary_time t = Ok bs" "length bs = 6" "decode_binary_time bs = Ok (t - t mod 1000000)"
proof -
  define u days seconds where "u = t - epoch_1984" and "days = u div 86400000000" and "seconds = u mod 86400000000 div 1000000"
  have b: "0 \<le> days" "days < 2 ^ 16" "0 \<le> seconds" "seconds < 2 ^ 32"
    using assms by (auto simp: days_def seconds_def u_def)
  have split: "epoch_1984 + days * 86400000000 + seconds * 1000000 = t - t mod 1000000"
  proof -
    have "u mod 86400000000 mod 1000000 = u mod 1000000" by (rule mod_mod_cancel) simp
    moreover have "u mod 1000000 = t mod 1000000"
    proof -
      have "t mod 1000000 = (u + 441763200 * 1000000) mod 1000000" by (simp add: u_def epoch_1984_def)
      then show ?thesis by (simp only: mod_mult_self1)
    qed
    moreover have "u = days * 86400000000 + u mod 86400000000" "u mod 86400000000 = seconds * 1000000 + u mod 86400000000 mod 1000000"
      by (simp_all only: days_def seconds_def div_mult_mod_eq)
    ultimately show ?thesis by (simp add: u_def)
  qed
  let ?ds = "[0xFF AND drop_bit 24 seconds, 0xFF AND drop_bit 16 seconds, 0xFF AND drop_bit 8 seconds, 0xFF AND seconds,
    0xFF AND drop_bit 8 days, 0xFF AND days]"
  have byte: "is_byte (0xFF AND x)" for x by (simp add: mask_mod is_byte_def and.commute [of 255])
  have decoded: "decode_binary_time (wire [d0, d1, d2, d3, d4, d5]) =
      Ok (epoch_1984 + (push_bit 8 d4 OR d5) * 86400000000 + (push_bit 24 d0 OR push_bit 16 d1 OR push_bit 8 d2 OR d3) * 1000000)"
    if "is_byte d0" "is_byte d1" "is_byte d2" "is_byte d3" "is_byte d4" "is_byte d5" for d0 d1 d2 d3 d4 d5
    using that by (simp add: decode_binary_time_def wire_def uint_of_byte)
  have "all_bytes ?ds" by (simp add: all_bytes_def byte)
  then have "encode_binary_time t = Ok (wire ?ds)"
    by (simp add: encode_binary_time_def Let_def u_def [symmetric] days_def [symmetric] seconds_def [symmetric] py_bytes_def)
  moreover have "decode_binary_time (wire ?ds) = Ok (epoch_1984 + days * 86400000000 + seconds * 1000000)"
    unfolding decoded [OF byte byte byte byte byte byte] binary_time_bytes [OF b(3,4,1,2)] ..
  ultimately show thesis using that split by (simp add: wire_def)
qed

end
