(* ===== verification/Mms_Encoder.thy ===== *)
theory Mms_Encoder
  imports Mms_Common Mms_Time
begin

text \<open>
  \<^verbatim>\<open>mms/encoder.py\<close>: requests, responses, errors and unconfirmed services as values of ASN.1, and back. The function
  that takes a value apart asks for the name of a choice and the items of a dictionary, as the code does.
\<close>

unbundle bit_operations_syntax

section \<open>Sizes of the parts of a value\<close>

lemma asn1_choice_size [termination_simp]: "asn1_choice v = Ok (n, d) \<Longrightarrow> size d < size v"
  by (cases v) (auto simp: bad_value_def)

lemma asn1_list_size [termination_simp]: "asn1_list v = Ok xs \<Longrightarrow> x \<in> set xs \<Longrightarrow> size x < size v"
  by (cases v) (auto simp: bad_value_def less_Suc_eq_le dest: size_list_estimation' [OF _ order_refl])

lemma asn1_item_size [termination_simp]: "asn1_item k v = Ok x \<Longrightarrow> size x < size v"
proof (cases v)
  case (Asn1Dict kvs)
  assume "asn1_item k v = Ok x"
  with Asn1Dict have "(k, x) \<in> set kvs" by (auto simp: bad_value_def split: option.splits dest: map_of_SomeD)
  then have "size_prod (\<lambda>_. 0) size (k, x) \<le> size_list (size_prod (\<lambda>_. 0) size) kvs"
    by (rule size_list_estimation') simp
  with Asn1Dict show ?thesis by simp
qed (auto simp: bad_value_def)

section \<open>Names, scopes and addresses\<close>

fun encode_object_name :: "ObjectName \<Rightarrow> 'oid Asn1" where
  "encode_object_name (AaSpecificObjectName i) = Asn1Choice ''aa-specific'' (Asn1Str i)"
| "encode_object_name (DomainSpecificObjectName d i) =
     Asn1Choice ''domain-specific'' (Asn1Dict [(''domainID'', Asn1Str d), (''itemID'', Asn1Str i)])"
| "encode_object_name (VmdSpecificObjectName i) = Asn1Choice ''vmd-specific'' (Asn1Str i)"

definition decode_object_name :: "'oid Asn1 \<Rightarrow> ObjectName result" where
  "decode_object_name v =
     bindE (asn1_choice v) (\<lambda>(name, data).
       if name = ''aa-specific'' then bindE (asn1_str data) (\<lambda>i. Ok (AaSpecificObjectName i))
       else if name = ''domain-specific'' then
         bindE (bindE (asn1_item ''domainID'' data) asn1_str) (\<lambda>d.
         bindE (bindE (asn1_item ''itemID'' data) asn1_str) (\<lambda>i. Ok (DomainSpecificObjectName d i)))
       else if name = ''vmd-specific'' then bindE (asn1_str data) (\<lambda>i. Ok (VmdSpecificObjectName i))
       else Raise (ValueError ''unsupported name''))"

fun encode_object_scope :: "ObjectScope \<Rightarrow> 'oid Asn1" where
  "encode_object_scope AaSpecificObjectScope = Asn1Choice ''aaSpecific'' Asn1None"
| "encode_object_scope (DomainSpecificObjectScope i) = Asn1Choice ''domainSpecific'' (Asn1Str i)"
| "encode_object_scope VmdSpecificObjectScope = Asn1Choice ''vmdSpecific'' Asn1None"

definition decode_object_scope :: "'oid Asn1 \<Rightarrow> ObjectScope result" where
  "decode_object_scope v =
     bindE (asn1_choice v) (\<lambda>(name, data).
       if name = ''aaSpecific'' then Ok AaSpecificObjectScope
       else if name = ''domainSpecific'' then bindE (asn1_str data) (\<lambda>i. Ok (DomainSpecificObjectScope i))
       else if name = ''vmdSpecific'' then Ok VmdSpecificObjectScope
       else Raise (ValueError ''unsupported name''))"

fun encode_mms_address :: "MmsAddress \<Rightarrow> 'oid Asn1" where
  "encode_mms_address (NumericAddress n) = Asn1Choice ''numericAddress'' (Asn1Int n)"
| "encode_mms_address (SymbolicAddress s) = Asn1Choice ''symbolicAddress'' (Asn1Str s)"
| "encode_mms_address (UnconstrainedAddress bs) = Asn1Choice ''unconstrainedAddress'' (Asn1Bytes bs)"

text \<open>The name is not looked at.\<close>

definition decode_mms_address :: "'oid Asn1 \<Rightarrow> MmsAddress result" where
  "decode_mms_address v =
     bindE (asn1_choice v) (\<lambda>(_, data).
       case data of
         Asn1Int n \<Rightarrow> Ok (NumericAddress n)
       | Asn1Str s \<Rightarrow> Ok (SymbolicAddress s)
       | Asn1Bytes bs \<Rightarrow> Ok (UnconstrainedAddress bs)
       | _ \<Rightarrow> bad_value)"

section \<open>Data\<close>

definition encode_utc_time :: "UtcTime \<Rightarrow> bytes result" where
  "encode_utc_time u =
     (if (case utc_accuracy u of None \<Rightarrow> False | Some a \<Rightarrow> \<not> (0 \<le> a \<and> a \<le> 24)) then Raise (ValueError ''invalid UtcTime accuracy'')
      else
        bindE (encode_utc_seconds (utc_value u)) (\<lambda>ys.
          let quality = (if utc_leap_second u then 0x80 else 0) OR (if utc_clock_failure u then 0x40 else 0) OR
                (if utc_not_synchronized u then 0x20 else 0) OR (case utc_accuracy u of None \<Rightarrow> 0x1F | Some a \<Rightarrow> a)
          in py_bytes (ys @ [quality])))"

definition decode_utc_time :: "bytes \<Rightarrow> UtcTime result" where
  "decode_utc_time data =
     bindE (decode_utc_seconds data) (\<lambda>t.
     bindE (byte_at data 7) (\<lambda>q.
       let accuracy = 0x1F AND q in
       Ok \<lparr>utc_value = t, utc_leap_second = (0x80 AND q \<noteq> 0), utc_clock_failure = (0x40 AND q \<noteq> 0),
         utc_not_synchronized = (0x20 AND q \<noteq> 0), utc_accuracy = (if 24 < accuracy then None else Some accuracy)\<rparr>))"

text \<open>\<open>b'\x08' + struct.pack('>f', value)\<close>\<close>

definition encode_floating_point :: "pyfloat \<Rightarrow> bytes result" where
  "encode_floating_point x = bindE (pack_float x) (\<lambda>ys. py_bytes (8 # rev ys))"

definition decode_floating_point :: "bytes \<Rightarrow> pyfloat result" where
  "decode_floating_point data = unpack_float (rev (drop 1 data))"

fun encode_data :: "'oid MmsData \<Rightarrow> 'oid Asn1 result" where
  "encode_data (ArrayData elements) = bindE (mapE encode_data elements) (\<lambda>xs. Ok (Asn1Choice ''array'' (Asn1List xs)))"
| "encode_data (BcdData n) = Ok (Asn1Choice ''bcd'' (Asn1Int n))"
| "encode_data (BinaryTimeData t) = bindE (encode_binary_time t) (\<lambda>bs. Ok (Asn1Choice ''binary-time'' (Asn1Bytes bs)))"
| "encode_data (BitStringData bits) = Ok (Asn1Choice ''bit-string'' (Asn1List (map Asn1Bool bits)))"
| "encode_data (BooleanData b) = Ok (Asn1Choice ''boolean'' (Asn1Bool b))"
| "encode_data (BooleanArrayData bits) = Ok (Asn1Choice ''booleanArray'' (Asn1List (map Asn1Bool bits)))"
| "encode_data (FloatingPointData x) = bindE (encode_floating_point x) (\<lambda>bs. Ok (Asn1Choice ''floating-point'' (Asn1Bytes bs)))"
| "encode_data (GeneralizedTimeData s) = Ok (Asn1Choice ''generalized-time'' (Asn1Str s))"
| "encode_data (IntegerData n) = Ok (Asn1Choice ''integer'' (Asn1Int n))"
| "encode_data (MmsStringData s) = Ok (Asn1Choice ''mMSString'' (Asn1Str s))"
| "encode_data (ObjIdData i) = Ok (Asn1Choice ''objId'' (Asn1Oid i))"
| "encode_data (OctetStringData bs) = Ok (Asn1Choice ''octet-string'' (Asn1Bytes bs))"
| "encode_data (StructureData elements) = bindE (mapE encode_data elements) (\<lambda>xs. Ok (Asn1Choice ''structure'' (Asn1List xs)))"
| "encode_data (UnsignedData n) = Ok (Asn1Choice ''unsigned'' (Asn1Int n))"
| "encode_data (UtcTimeData u) = bindE (encode_utc_time u) (\<lambda>bs. Ok (Asn1Choice ''utc-time'' (Asn1Bytes bs)))"
| "encode_data (VisibleStringData s) = Ok (Asn1Choice ''visible-string'' (Asn1Str s))"

function decode_data :: "'oid Asn1 \<Rightarrow> 'oid MmsData result" where
  "decode_data v =
     bindE (asn1_choice v) (\<lambda>(name, data).
       if name = ''array'' then bindE (asn1_list data) (\<lambda>xs. bindE (mapE decode_data xs) (\<lambda>ys. Ok (ArrayData ys)))
       else if name = ''bcd'' then bindE (asn1_int data) (\<lambda>x. Ok (BcdData x))
       else if name = ''binary-time'' then bindE (bindE (asn1_bytes data) decode_binary_time) (\<lambda>x. Ok (BinaryTimeData x))
       else if name = ''bit-string'' then bindE (bindE (asn1_list data) (mapE asn1_bool)) (\<lambda>bits. Ok (BitStringData bits))
       else if name = ''boolean'' then bindE (asn1_bool data) (\<lambda>x. Ok (BooleanData x))
       else if name = ''booleanArray'' then bindE (bindE (asn1_list data) (mapE asn1_bool)) (\<lambda>bits. Ok (BooleanArrayData bits))
       else if name = ''floating-point'' then bindE (bindE (asn1_bytes data) decode_floating_point) (\<lambda>x. Ok (FloatingPointData x))
       else if name = ''generalized-time'' then bindE (asn1_str data) (\<lambda>x. Ok (GeneralizedTimeData x))
       else if name = ''integer'' then bindE (asn1_int data) (\<lambda>x. Ok (IntegerData x))
       else if name = ''mMSString'' then bindE (asn1_str data) (\<lambda>x. Ok (MmsStringData x))
       else if name = ''objId'' then bindE (asn1_oid data) (\<lambda>x. Ok (ObjIdData x))
       else if name = ''octet-string'' then bindE (asn1_bytes data) (\<lambda>x. Ok (OctetStringData x))
       else if name = ''structure'' then bindE (asn1_list data) (\<lambda>xs. bindE (mapE decode_data xs) (\<lambda>ys. Ok (StructureData ys)))
       else if name = ''unsigned'' then bindE (asn1_int data) (\<lambda>x. Ok (UnsignedData x))
       else if name = ''utc-time'' then bindE (bindE (asn1_bytes data) decode_utc_time) (\<lambda>x. Ok (UtcTimeData x))
       else if name = ''visible-string'' then bindE (asn1_str data) (\<lambda>x. Ok (VisibleStringData x))
       else Raise (ValueError ''unsupported name''))"
  by pat_completeness auto
termination
  by (relation "measure size") (auto dest!: asn1_choice_size asn1_list_size)

declare decode_data.simps [simp del]

section \<open>Type descriptions\<close>

text \<open>A description or a name, given the function for descriptions.\<close>

fun encode_typed :: "(TypeDescription \<Rightarrow> 'oid Asn1) \<Rightarrow> TypeDescription + ObjectName \<Rightarrow> 'oid Asn1" where
  "encode_typed enc (Inl t) = Asn1Choice ''typeDescription'' (enc t)"
| "encode_typed enc (Inr n) = Asn1Choice ''typeName'' (encode_object_name n)"

lemma encode_typed_cong [fundef_cong]:
  "t = t' \<Longrightarrow> (\<And>d. t' = Inl d \<Longrightarrow> enc d = enc' d) \<Longrightarrow> encode_typed enc t = encode_typed enc' t'"
  by (cases t') auto

definition decode_typed :: "('oid Asn1 \<Rightarrow> TypeDescription result) \<Rightarrow> 'oid Asn1 \<Rightarrow> (TypeDescription + ObjectName) result" where
  "decode_typed dec v =
     bindE (asn1_choice v) (\<lambda>(subname, subdata).
       if subname = ''typeDescription'' then bindE (dec subdata) (\<lambda>t. Ok (Inl t))
       else if subname = ''typeName'' then bindE (decode_object_name subdata) (\<lambda>n. Ok (Inr n))
       else Raise (ValueError ''unsupported subname''))"

lemma decode_typed_cong [fundef_cong]:
  "v = v' \<Longrightarrow> (\<And>n d. asn1_choice v' = Ok (n, d) \<Longrightarrow> dec d = dec' d) \<Longrightarrow> decode_typed dec v = decode_typed dec' v'"
  by (cases "asn1_choice v'") (auto simp: decode_typed_def)

fun encode_type_description :: "TypeDescription \<Rightarrow> 'oid Asn1" where
  "encode_type_description (ArrayTypeDescription n t) =
     Asn1Choice ''array'' (Asn1Dict [(''numberOfElements'', Asn1Int n), (''elementType'', encode_typed encode_type_description t)])"
| "encode_type_description (BcdTypeDescription x) = Asn1Choice ''bcd'' (Asn1Int x)"
| "encode_type_description (BinaryTimeTypeDescription x) = Asn1Choice ''binary-time'' (Asn1Bool x)"
| "encode_type_description (BitStringTypeDescription x) = Asn1Choice ''bit-string'' (Asn1Int x)"
| "encode_type_description BooleanTypeDescription = Asn1Choice ''boolean'' Asn1None"
| "encode_type_description (FloatingPointTypeDescription f e) =
     Asn1Choice ''floating-point'' (Asn1Dict [(''format-width'', Asn1Int f), (''exponent-width'', Asn1Int e)])"
| "encode_type_description GeneralizedTimeTypeDescription = Asn1Choice ''generalized-time'' Asn1None"
| "encode_type_description (IntegerTypeDescription x) = Asn1Choice ''integer'' (Asn1Int x)"
| "encode_type_description (MmsStringTypeDescription x) = Asn1Choice ''mMSString'' (Asn1Int x)"
| "encode_type_description ObjIdTypeDescription = Asn1Choice ''objId'' Asn1None"
| "encode_type_description (OctetStringTypeDescription x) = Asn1Choice ''octet-string'' (Asn1Int x)"
| "encode_type_description (StructureTypeDescription components) =
     Asn1Choice ''structure'' (Asn1Dict [(''components'', Asn1List (map (\<lambda>(k, t).
       Asn1Dict ((''componentType'', encode_typed encode_type_description t) #
         (case k of None \<Rightarrow> [] | Some s \<Rightarrow> [(''componentName'', Asn1Str s)]))) components))])"
| "encode_type_description (UnsignedTypeDescription x) = Asn1Choice ''unsigned'' (Asn1Int x)"
| "encode_type_description UtcTimeTypeDescription = Asn1Choice ''utc-time'' Asn1None"
| "encode_type_description (VisibleStringTypeDescription x) = Asn1Choice ''visible-string'' (Asn1Int x)"

text \<open>\<open>d.get(k)\<close> of an item of some type.\<close>

definition optional :: "('oid Asn1 \<Rightarrow> 'a result) \<Rightarrow> 'oid Asn1 option result \<Rightarrow> 'a option result" where
  "optional f m = bindE m (\<lambda>x. case x of None \<Rightarrow> Ok None | Some v \<Rightarrow> bindE (f v) (\<lambda>y. Ok (Some y)))"

function decode_type_description :: "'oid Asn1 \<Rightarrow> TypeDescription result" where
  "decode_type_description v =
     bindE (asn1_choice v) (\<lambda>(name, data).
       if name = ''array'' then 
         bindE (asn1_item ''elementType'' data) (\<lambda>e.
         bindE (decode_typed decode_type_description e) (\<lambda>t.
         bindE (bindE (asn1_item ''numberOfElements'' data) asn1_int) (\<lambda>n. Ok (ArrayTypeDescription n t))))
       else if name = ''bcd'' then bindE (asn1_int data) (\<lambda>x. Ok (BcdTypeDescription x))
       else if name = ''binary-time'' then bindE (asn1_bool data) (\<lambda>x. Ok (BinaryTimeTypeDescription x))
       else if name = ''bit-string'' then bindE (asn1_int data) (\<lambda>x. Ok (BitStringTypeDescription x))
       else if name = ''boolean'' then Ok BooleanTypeDescription
       else if name = ''floating-point'' then 
         bindE (bindE (asn1_item ''format-width'' data) asn1_int) (\<lambda>f.
         bindE (bindE (asn1_item ''exponent-width'' data) asn1_int) (\<lambda>e. Ok (FloatingPointTypeDescription f e)))
       else if name = ''generalized-time'' then Ok GeneralizedTimeTypeDescription
       else if name = ''integer'' then bindE (asn1_int data) (\<lambda>x. Ok (IntegerTypeDescription x))
       else if name = ''mMSString'' then bindE (asn1_int data) (\<lambda>x. Ok (MmsStringTypeDescription x))
       else if name = ''objId'' then Ok ObjIdTypeDescription
       else if name = ''octet-string'' then bindE (asn1_int data) (\<lambda>x. Ok (OctetStringTypeDescription x))
       else if name = ''structure'' then 
         bindE (asn1_item ''components'' data) (\<lambda>cs.
         bindE (asn1_list cs) (\<lambda>xs.
         bindE (mapE (\<lambda>i.
             bindE (asn1_item ''componentType'' i) (\<lambda>e.
             bindE (decode_typed decode_type_description e) (\<lambda>t.
             bindE (optional asn1_str (asn1_get ''componentName'' i)) (\<lambda>k. Ok (k, t))))) xs) (\<lambda>ys.
           Ok (StructureTypeDescription ys))))
       else if name = ''unsigned'' then bindE (asn1_int data) (\<lambda>x. Ok (UnsignedTypeDescription x))
       else if name = ''utc-time'' then Ok UtcTimeTypeDescription
       else if name = ''visible-string'' then bindE (asn1_int data) (\<lambda>x. Ok (VisibleStringTypeDescription x))
       else Raise (ValueError ''unsupported name''))"
  by pat_completeness auto
termination
  by (relation "measure size") (auto dest!: asn1_choice_size asn1_list_size asn1_item_size)

declare decode_type_description.simps [simp del]

section \<open>Variables\<close>

fun encode_variable_specification :: "VariableSpecification \<Rightarrow> 'oid Asn1" where
  "encode_variable_specification (AddressVariableSpecification a) = Asn1Choice ''address'' (encode_mms_address a)"
| "encode_variable_specification InvalidatedVariableSpecification = Asn1Choice ''invalidated'' Asn1None"
| "encode_variable_specification (NameVariableSpecification n) = Asn1Choice ''name'' (encode_object_name n)"
| "encode_variable_specification (ScatteredAccessDescriptionVariableSpecification vs) =
     Asn1Choice ''scatteredAccessDescription''
       (Asn1List (map (\<lambda>i. Asn1Dict [(''variableSpecification'', encode_variable_specification i)]) vs))"
| "encode_variable_specification (VariableDescriptionVariableSpecification a t) =
     Asn1Choice ''variableDescription''
       (Asn1Dict [(''address'', encode_mms_address a), (''typeSpecification'', encode_typed encode_type_description t)])"

function decode_variable_specification :: "'oid Asn1 \<Rightarrow> VariableSpecification result" where
  "decode_variable_specification v =
     bindE (asn1_choice v) (\<lambda>(name, data).
       if name = ''address'' then bindE (decode_mms_address data) (\<lambda>a. Ok (AddressVariableSpecification a))
       else if name = ''invalidated'' then Ok InvalidatedVariableSpecification
       else if name = ''name'' then bindE (decode_object_name data) (\<lambda>n. Ok (NameVariableSpecification n))
       else if name = ''scatteredAccessDescription'' then
         bindE (asn1_list data) (\<lambda>xs.
         bindE (mapE (\<lambda>i. bindE (asn1_item ''variableSpecification'' i) decode_variable_specification) xs) (\<lambda>vs.
           Ok (ScatteredAccessDescriptionVariableSpecification vs)))
       else if name = ''variableDescription'' then
         bindE (bindE (asn1_item ''typeSpecification'' data) (decode_typed decode_type_description)) (\<lambda>t.
         bindE (bindE (asn1_item ''address'' data) decode_mms_address) (\<lambda>a. Ok (VariableDescriptionVariableSpecification a t)))
       else Raise (ValueError ''unsupported name''))"
  by pat_completeness auto
termination
  by (relation "measure size") (auto dest!: asn1_choice_size asn1_list_size asn1_item_size)

declare decode_variable_specification.simps [simp del]

end
