(* ===== verification/Mms_Services.thy ===== *)
theory Mms_Services
  imports Mms_Encoder
begin

text \<open>
  The requests, responses, errors and unconfirmed services of \<^verbatim>\<open>mms/encoder.py\<close>.
\<close>

section \<open>Lists of variables and of results\<close>

definition encode_variables :: "VariableSpecification list \<Rightarrow> 'oid Asn1" where
  "encode_variables vs = Asn1List (map (\<lambda>i. Asn1Dict [(''variableSpecification'', encode_variable_specification i)]) vs)"

definition decode_variables :: "'oid Asn1 \<Rightarrow> VariableSpecification list result" where
  "decode_variables v =
     bindE (asn1_list v) (mapE (\<lambda>i. bindE (asn1_item ''variableSpecification'' i) decode_variable_specification))"

fun encode_specification :: "Specification \<Rightarrow> 'oid Asn1" where
  "encode_specification (Inr name) = Asn1Choice ''variableListName'' (encode_object_name name)"
| "encode_specification (Inl vs) = Asn1Choice ''listOfVariable'' (encode_variables vs)"

definition decode_specification :: "'oid Asn1 \<Rightarrow> Specification result" where
  "decode_specification v =
     bindE (asn1_choice v) (\<lambda>(subname, subdata).
       if subname = ''variableListName'' then bindE (decode_object_name subdata) (\<lambda>n. Ok (Inr n))
       else if subname = ''listOfVariable'' then bindE (decode_variables subdata) (\<lambda>vs. Ok (Inl vs))
       else Raise (ValueError ''unsupported subname''))"

fun encode_access_result :: "DataAccessError + 'oid MmsData \<Rightarrow> 'oid Asn1 result" where
  "encode_access_result (Inl e) = Ok (Asn1Choice ''failure'' (Asn1Int (DataAccessError_value e)))"
| "encode_access_result (Inr d) = bindE (encode_data d) (\<lambda>v. Ok (Asn1Choice ''success'' v))"

definition decode_access_result :: "'oid Asn1 \<Rightarrow> (DataAccessError + 'oid MmsData) result" where
  "decode_access_result v =
     bindE (asn1_choice v) (\<lambda>(k, data).
       if k = ''failure'' then bindE (bindE (asn1_int data) DataAccessError_of) (\<lambda>e. Ok (Inl e))
       else bindE (decode_data data) (\<lambda>d. Ok (Inr d)))"

definition asn1_strs :: "'oid Asn1 \<Rightarrow> pystr list result" where
  "asn1_strs v = bindE (asn1_list v) (mapE asn1_str)"

section \<open>Requests\<close>

fun encode_request :: "'oid MmsRequest \<Rightarrow> 'oid Asn1 result" where
  "encode_request StatusRequest = Ok (Asn1Choice ''status'' (Asn1Bool False))"
| "encode_request (GetNameListRequest object_class object_scope continue_after) =
     Ok (Asn1Choice ''getNameList'' (Asn1Dict
       ([(''objectClass'', Asn1Choice ''basicObjectClass'' (Asn1Int (ObjectClass_value object_class))),
         (''objectScope'', encode_object_scope object_scope)] @
        (case continue_after of None \<Rightarrow> [] | Some s \<Rightarrow> [(''continueAfter'', Asn1Str s)]))))"
| "encode_request IdentifyRequest = Ok (Asn1Choice ''identify'' Asn1None)"
| "encode_request (GetVariableAccessAttributesRequest val) =
     Ok (Asn1Choice ''getVariableAccessAttributes''
       (case val of
          Inl name \<Rightarrow> Asn1Choice ''name'' (encode_object_name name)
        | Inr address \<Rightarrow> Asn1Choice ''address'' (encode_mms_address address)))"
| "encode_request (GetNamedVariableListAttributesRequest name) =
     Ok (Asn1Choice ''getNamedVariableListAttributes'' (encode_object_name name))"
| "encode_request (ReadRequest specification) =
     Ok (Asn1Choice ''read'' (Asn1Dict [(''variableAccessSpecification'', encode_specification specification)]))"
| "encode_request (WriteRequest specification ds) =
     bindE (mapE encode_data ds) (\<lambda>vs.
       Ok (Asn1Choice ''write'' (Asn1Dict
         [(''variableAccessSpecification'', encode_specification specification), (''listOfData'', Asn1List vs)])))"
| "encode_request (DefineNamedVariableListRequest name specification) =
     Ok (Asn1Choice ''defineNamedVariableList'' (Asn1Dict
       [(''variableListName'', encode_object_name name), (''listOfVariable'', encode_variables specification)]))"
| "encode_request (DeleteNamedVariableListRequest names) =
     Ok (Asn1Choice ''deleteNamedVariableList'' (Asn1Dict
       [(''listOfVariableListName'', Asn1List (map encode_object_name names))]))"

definition decode_request :: "'oid Asn1 \<Rightarrow> 'oid MmsRequest result" where
  "decode_request req =
     bindE (asn1_choice req) (\<lambda>(name, data).
       if name = ''status'' then Ok StatusRequest
       else if name = ''getNameList'' then
         bindE (bindE (asn1_item ''objectClass'' data) asn1_choice) (\<lambda>(subname, subdata).
         bindE (if subname = ''basicObjectClass'' then bindE (asn1_int subdata) ObjectClass_of else Ok ObjectClass_UNDEFINED)
           (\<lambda>object_class.
         bindE (bindE (asn1_item ''objectScope'' data) decode_object_scope) (\<lambda>object_scope.
         bindE (optional asn1_str (asn1_get ''continueAfter'' data)) (\<lambda>continue_after.
           Ok (GetNameListRequest object_class object_scope continue_after)))))
       else if name = ''identify'' then Ok IdentifyRequest
       else if name = ''getVariableAccessAttributes'' then
         bindE (asn1_choice data) (\<lambda>(subname, subdata).
           if subname = ''address'' then bindE (decode_mms_address subdata) (\<lambda>a. Ok (GetVariableAccessAttributesRequest (Inr a)))
           else if subname = ''name'' then bindE (decode_object_name subdata) (\<lambda>n. Ok (GetVariableAccessAttributesRequest (Inl n)))
           else Raise (ValueError ''unsupported subname''))
       else if name = ''getNamedVariableListAttributes'' then
         bindE (decode_object_name data) (\<lambda>n. Ok (GetNamedVariableListAttributesRequest n))
       else if name = ''read'' then
         bindE (bindE (asn1_item ''variableAccessSpecification'' data) decode_specification) (\<lambda>specification.
           Ok (ReadRequest specification))
       else if name = ''write'' then
         bindE (bindE (asn1_item ''variableAccessSpecification'' data) decode_specification) (\<lambda>specification.
         bindE (bindE (asn1_item ''listOfData'' data) asn1_list) (\<lambda>vs.
         bindE (mapE decode_data vs) (\<lambda>ds. Ok (WriteRequest specification ds))))
       else if name = ''defineNamedVariableList'' then
         bindE (bindE (asn1_item ''variableListName'' data) decode_object_name) (\<lambda>list_name.
         bindE (bindE (asn1_item ''listOfVariable'' data) decode_variables) (\<lambda>specification.
           Ok (DefineNamedVariableListRequest list_name specification)))
       else if name = ''deleteNamedVariableList'' then
         bindE (asn1_get ''listOfVariableListName'' data) (\<lambda>v.
         bindE (case v of None \<Rightarrow> Ok [] | Some ns \<Rightarrow> bindE (asn1_list ns) (mapE decode_object_name)) (\<lambda>names.
           Ok (DeleteNamedVariableListRequest names)))
       else Raise (ValueError ''unsupported name''))"

section \<open>Responses\<close>

fun encode_response :: "'oid MmsResponse \<Rightarrow> 'oid Asn1 result" where
  "encode_response (StatusResponse logical physical) =
     Ok (Asn1Choice ''status'' (Asn1Dict [(''vmdLogicalStatus'', Asn1Int logical), (''vmdPhysicalStatus'', Asn1Int physical)]))"
| "encode_response (GetNameListResponse identifiers more_follows) =
     Ok (Asn1Choice ''getNameList'' (Asn1Dict
       [(''listOfIdentifier'', Asn1List (map Asn1Str identifiers)), (''moreFollows'', Asn1Bool more_follows)]))"
| "encode_response (IdentifyResponse vendor model revision syntaxes) =
     Ok (Asn1Choice ''identify'' (Asn1Dict
       ([(''vendorName'', Asn1Str vendor), (''modelName'', Asn1Str model), (''revision'', Asn1Str revision)] @
        (case syntaxes of None \<Rightarrow> [] | Some ids \<Rightarrow> [(''listOfAbstractSyntaxes'', Asn1List (map Asn1Oid ids))]))))"
| "encode_response (GetVariableAccessAttributesResponse mms_deletable type_description) =
     Ok (Asn1Choice ''getVariableAccessAttributes'' (Asn1Dict
       [(''mmsDeletable'', Asn1Bool mms_deletable), (''typeDescription'', encode_type_description type_description)]))"
| "encode_response (GetNamedVariableListAttributesResponse mms_deletable specification) =
     Ok (Asn1Choice ''getNamedVariableListAttributes'' (Asn1Dict
       [(''mmsDeletable'', Asn1Bool mms_deletable), (''listOfVariable'', encode_variables specification)]))"
| "encode_response (ReadResponse results) =
     bindE (mapE encode_access_result results) (\<lambda>vs. Ok (Asn1Choice ''read'' (Asn1Dict [(''listOfAccessResult'', Asn1List vs)])))"
| "encode_response (WriteResponse results) =
     Ok (Asn1Choice ''write'' (Asn1List (map (\<lambda>i. case i of
         None \<Rightarrow> Asn1Choice ''success'' Asn1None
       | Some e \<Rightarrow> Asn1Choice ''failure'' (Asn1Int (DataAccessError_value e))) results)))"
| "encode_response DefineNamedVariableListResponse = Ok (Asn1Choice ''defineNamedVariableList'' Asn1None)"
| "encode_response (DeleteNamedVariableListResponse matched deleted) =
     Ok (Asn1Choice ''deleteNamedVariableList'' (Asn1Dict [(''numberMatched'', Asn1Int matched), (''numberDeleted'', Asn1Int deleted)]))"

definition decode_response :: "'oid Asn1 \<Rightarrow> 'oid MmsResponse result" where
  "decode_response res =
     bindE (asn1_choice res) (\<lambda>(name, data).
       if name = ''status'' then
         bindE (bindE (asn1_item ''vmdLogicalStatus'' data) asn1_int) (\<lambda>logical.
         bindE (bindE (asn1_item ''vmdPhysicalStatus'' data) asn1_int) (\<lambda>physical. Ok (StatusResponse logical physical)))
       else if name = ''getNameList'' then
         bindE (bindE (asn1_item ''listOfIdentifier'' data) asn1_strs) (\<lambda>identifiers.
         bindE (optional asn1_bool (asn1_get ''moreFollows'' data)) (\<lambda>more_follows.
           Ok (GetNameListResponse identifiers (case more_follows of None \<Rightarrow> True | Some b \<Rightarrow> b))))
       else if name = ''identify'' then
         bindE (bindE (asn1_item ''vendorName'' data) asn1_str) (\<lambda>vendor.
         bindE (bindE (asn1_item ''modelName'' data) asn1_str) (\<lambda>model.
         bindE (bindE (asn1_item ''revision'' data) asn1_str) (\<lambda>revision.
         bindE (optional (\<lambda>v. bindE (asn1_list v) (mapE asn1_oid)) (asn1_get ''listOfAbstractSyntaxes'' data)) (\<lambda>syntaxes.
           Ok (IdentifyResponse vendor model revision syntaxes)))))
       else if name = ''getVariableAccessAttributes'' then
         bindE (bindE (asn1_item ''mmsDeletable'' data) asn1_bool) (\<lambda>mms_deletable.
         bindE (bindE (asn1_item ''typeDescription'' data) decode_type_description) (\<lambda>t.
           Ok (GetVariableAccessAttributesResponse mms_deletable t)))
       else if name = ''getNamedVariableListAttributes'' then
         bindE (bindE (asn1_item ''listOfVariable'' data) decode_variables) (\<lambda>specification.
         bindE (bindE (asn1_item ''mmsDeletable'' data) asn1_bool) (\<lambda>mms_deletable.
           Ok (GetNamedVariableListAttributesResponse mms_deletable specification)))
       else if name = ''read'' then
         bindE (bindE (asn1_item ''listOfAccessResult'' data) asn1_list) (\<lambda>vs.
         bindE (mapE decode_access_result vs) (\<lambda>results. Ok (ReadResponse results)))
       else if name = ''write'' then
         bindE (asn1_list data) (\<lambda>vs.
         bindE (mapE (\<lambda>i. bindE (asn1_choice i) (\<lambda>(k, v).
             if k = ''success'' then Ok None
             else bindE (bindE (asn1_int v) DataAccessError_of) (\<lambda>e. Ok (Some e)))) vs) (\<lambda>results.
           Ok (WriteResponse results)))
       else if name = ''defineNamedVariableList'' then Ok DefineNamedVariableListResponse
       else if name = ''deleteNamedVariableList'' then
         bindE (bindE (asn1_item ''numberMatched'' data) asn1_int) (\<lambda>matched.
         bindE (bindE (asn1_item ''numberDeleted'' data) asn1_int) (\<lambda>deleted. Ok (DeleteNamedVariableListResponse matched deleted)))
       else Raise (ValueError ''unsupported name''))"

section \<open>Errors\<close>

fun error_class :: "MmsError \<Rightarrow> string \<times> int" where
  "error_class (VmdState e) = (''vmd-state'', VmdStateError_value e)"
| "error_class (ApplicationReference e) = (''application-reference'', ApplicationReferenceError_value e)"
| "error_class (Definition e) = (''definition'', DefinitionError_value e)"
| "error_class (Resource e) = (''resource'', ResourceError_value e)"
| "error_class (Service e) = (''service'', ServiceError_value e)"
| "error_class (ServicePreempt e) = (''service-preempt'', ServicePreemptError_value e)"
| "error_class (TimeResolution e) = (''time-resolution'', TimeResolutionError_value e)"
| "error_class (Access e) = (''access'', AccessError_value e)"
| "error_class (Initiate e) = (''initiate'', InitiateError_value e)"
| "error_class (Conclude e) = (''conclude'', ConcludeError_value e)"
| "error_class (Cancel e) = (''cancel'', CancelError_value e)"
| "error_class (File e) = (''file'', FileError_value e)"
| "error_class (OtherError n) = (''others'', n)"

definition encode_error :: "MmsError \<Rightarrow> 'oid Asn1" where
  "encode_error e = (case error_class e of (name, n) \<Rightarrow> Asn1Dict [(''errorClass'', Asn1Choice name (Asn1Int n))])"

definition decode_error :: "'oid Asn1 \<Rightarrow> MmsError result" where
  "decode_error v =
     bindE (bindE (asn1_item ''errorClass'' v) asn1_choice) (\<lambda>(name, data).
       if name = ''vmd-state'' then bindE (bindE (asn1_int data) VmdStateError_of) (\<lambda>e. Ok (VmdState e))
       else if name = ''application-reference'' then
         bindE (bindE (asn1_int data) ApplicationReferenceError_of) (\<lambda>e. Ok (ApplicationReference e))
       else if name = ''definition'' then bindE (bindE (asn1_int data) DefinitionError_of) (\<lambda>e. Ok (Definition e))
       else if name = ''resource'' then bindE (bindE (asn1_int data) ResourceError_of) (\<lambda>e. Ok (Resource e))
       else if name = ''service'' then bindE (bindE (asn1_int data) ServiceError_of) (\<lambda>e. Ok (Service e))
       else if name = ''service-preempt'' then bindE (bindE (asn1_int data) ServicePreemptError_of) (\<lambda>e. Ok (ServicePreempt e))
       else if name = ''time-resolution'' then bindE (bindE (asn1_int data) TimeResolutionError_of) (\<lambda>e. Ok (TimeResolution e))
       else if name = ''access'' then bindE (bindE (asn1_int data) AccessError_of) (\<lambda>e. Ok (Access e))
       else if name = ''initiate'' then bindE (bindE (asn1_int data) InitiateError_of) (\<lambda>e. Ok (Initiate e))
       else if name = ''conclude'' then bindE (bindE (asn1_int data) ConcludeError_of) (\<lambda>e. Ok (Conclude e))
       else if name = ''cancel'' then bindE (bindE (asn1_int data) CancelError_of) (\<lambda>e. Ok (Cancel e))
       else if name = ''file'' then bindE (bindE (asn1_int data) FileError_of) (\<lambda>e. Ok (File e))
       else if name = ''others'' then bindE (asn1_int data) (\<lambda>n. Ok (OtherError n))
       else Raise (ValueError ''unsupported name''))"

section \<open>Unconfirmed services\<close>

fun encode_transition_time :: "'oid Asn1 \<Rightarrow> 'oid Asn1" where
  "encode_transition_time Asn1None = Asn1Choice ''undefined'' Asn1None"
| "encode_transition_time (Asn1Int n) = Asn1Choice ''timeSequenceIdentifier'' (Asn1Int n)"
| "encode_transition_time (Asn1Bool b) = Asn1Choice ''timeSequenceIdentifier'' (Asn1Bool b)"
| "encode_transition_time v = Asn1Choice ''timeOfDay'' v"

fun encode_unconfirmed :: "'oid Unconfirmed \<Rightarrow> 'oid Asn1 result" where
  "encode_unconfirmed (EventNotificationUnconfirmed enrollment condition severity time) =
     Ok (Asn1Choice ''eventNotification'' (Asn1Dict
       [(''eventEnrollmentName'', encode_object_name enrollment), (''eventConditionName'', encode_object_name condition),
        (''severity'', Asn1Int severity), (''transitionTime'', encode_transition_time time)]))"
| "encode_unconfirmed (InformationReportUnconfirmed specification ds) =
     bindE (mapE encode_access_result ds) (\<lambda>vs.
       Ok (Asn1Choice ''informationReport'' (Asn1Dict
         [(''variableAccessSpecification'', encode_specification specification), (''listOfAccessResult'', Asn1List vs)])))"
| "encode_unconfirmed (UnsolicitedStatusUnconfirmed logical physical) =
     Ok (Asn1Choice ''unsolicitedStatus'' (Asn1Dict
       [(''vmdLogicalStatus'', Asn1Int logical), (''vmdPhysicalStatus'', Asn1Int physical)]))"

definition decode_unconfirmed :: "'oid Asn1 \<Rightarrow> 'oid Unconfirmed result" where
  "decode_unconfirmed v =
     bindE (asn1_choice v) (\<lambda>(name, data).
       if name = ''eventNotification'' then
         bindE (bindE (asn1_item ''eventEnrollmentName'' data) decode_object_name) (\<lambda>enrollment.
         bindE (bindE (asn1_item ''eventConditionName'' data) decode_object_name) (\<lambda>condition.
         bindE (bindE (asn1_item ''severity'' data) asn1_int) (\<lambda>severity.
         bindE (bindE (asn1_item ''transitionTime'' data) asn1_choice) (\<lambda>(_, time).
           Ok (EventNotificationUnconfirmed enrollment condition severity time)))))
       else if name = ''informationReport'' then
         bindE (bindE (asn1_item ''variableAccessSpecification'' data) decode_specification) (\<lambda>specification.
         bindE (bindE (asn1_item ''listOfAccessResult'' data) asn1_list) (\<lambda>vs.
         bindE (mapE decode_access_result vs) (\<lambda>ds. Ok (InformationReportUnconfirmed specification ds))))
       else if name = ''unsolicitedStatus'' then
         bindE (bindE (asn1_item ''vmdLogicalStatus'' data) asn1_int) (\<lambda>logical.
         bindE (bindE (asn1_item ''vmdPhysicalStatus'' data) asn1_int) (\<lambda>physical. Ok (UnsolicitedStatusUnconfirmed logical physical)))
       else Raise (ValueError ''unsupported name''))"

end
