(* ===== verification/Mms_Codec.thy ===== *)
theory Mms_Codec
  imports Mms_Services
begin

text \<open>
  The round trips of \<^verbatim>\<open>mms/encoder.py\<close>: what the encoder makes of a request, response, error or unconfirmed service, the
  decoder takes apart to the same. Of times, UTC times of the 32 bit range come back exactly, though the code computes them with
  floats, and binary times without the fraction of a second; of floats, those of the single format.
\<close>

unbundle bit_operations_syntax

section \<open>Helpers\<close>

lemma asn1_dict_items [simp]:
  "optional f (Ok None) = Ok None" "optional f (Ok (Some v)) = bindE (f v) (\<lambda>y. Ok (Some y))"
  by (simp_all add: optional_def)

lemma mapE_map_Ok: "(\<And>x. x \<in> set xs \<Longrightarrow> f (g x) = Ok x) \<Longrightarrow> mapE f (map g xs) = Ok xs"
  by (induction xs) auto

lemma mapE_inverse:
  assumes "mapE f xs = Ok ys" "\<And>x y. x \<in> set xs \<Longrightarrow> f x = Ok y \<Longrightarrow> g y = Ok x"
  shows "mapE g ys = Ok xs"
  using assms
proof (induction xs arbitrary: ys)
  case (Cons x xs)
  from Cons.prems(1) obtain z zs where z: "f x = Ok z" "mapE f xs = Ok zs" "ys = z # zs" by auto
  have "g z = Ok x" by (rule Cons.prems(2)) (use z in simp_all)
  moreover have "mapE g zs = Ok xs" by (rule Cons.IH) (use z Cons.prems(2) in auto)
  ultimately show ?case using z by simp
qed simp

lemma asn1_lists [simp]:
  "mapE asn1_bool (map Asn1Bool bs) = Ok bs" "mapE asn1_str (map Asn1Str ss) = Ok ss" "mapE asn1_oid (map Asn1Oid is) = Ok is"
  by (rule mapE_map_Ok; simp)+

section \<open>Names\<close>

lemma object_name_roundtrip [simp]: "decode_object_name (encode_object_name n) = Ok n"
  by (cases n) (simp_all add: decode_object_name_def)

lemma object_scope_roundtrip [simp]: "decode_object_scope (encode_object_scope s) = Ok s"
  by (cases s) (simp_all add: decode_object_scope_def)

lemma mms_address_roundtrip [simp]: "decode_mms_address (encode_mms_address a) = Ok a"
  by (cases a) (simp_all add: decode_mms_address_def)

section \<open>Types and variables\<close>

lemma typed_roundtrip: "(\<And>t. x = Inl t \<Longrightarrow> dec (enc t) = Ok t) \<Longrightarrow> decode_typed dec (encode_typed enc x) = Ok x"
  by (cases x) (auto simp: decode_typed_def)

lemma type_description_roundtrip [simp]: "decode_type_description (encode_type_description t :: 'oid Asn1) = Ok t"
proof (induction t)
  case (ArrayTypeDescription n x)
  have "decode_typed decode_type_description (encode_typed encode_type_description x :: 'oid Asn1) = Ok x"
    by (rule typed_roundtrip) (use ArrayTypeDescription in \<open>auto simp: setl.simps\<close>)
  then show ?case by (subst decode_type_description.simps) simp
next
  case (StructureTypeDescription cs)
  have "decode_typed decode_type_description (encode_typed encode_type_description x :: 'oid Asn1) = Ok x" if "(k, x) \<in> set cs" for k x
    by (rule typed_roundtrip) (use StructureTypeDescription that in \<open>fastforce simp: setl.simps\<close>)
  then have "mapE (\<lambda>i.
             bindE (asn1_item ''componentType'' i) (\<lambda>e.
             bindE (decode_typed decode_type_description e) (\<lambda>t.
             bindE (optional asn1_str (asn1_get ''componentName'' i)) (\<lambda>k. Ok (k, t)))))
      (map (\<lambda>(k, t). Asn1Dict ((''componentType'', encode_typed encode_type_description t :: 'oid Asn1) #
         (case k of None \<Rightarrow> [] | Some s \<Rightarrow> [(''componentName'', Asn1Str s)]))) cs) = Ok cs"
    by (intro mapE_map_Ok) (auto split: option.splits)
  then show ?case by (subst decode_type_description.simps) simp
qed (subst decode_type_description.simps, simp)+

lemma typed_type_roundtrip [simp]: "decode_typed decode_type_description (encode_typed encode_type_description x) = Ok x"
  by (rule typed_roundtrip) simp

lemma variable_specification_roundtrip [simp]: "decode_variable_specification (encode_variable_specification v :: 'oid Asn1) = Ok v"
proof (induction v)
  case (ScatteredAccessDescriptionVariableSpecification vs)
  then have "mapE (\<lambda>i. bindE (asn1_item ''variableSpecification'' i) decode_variable_specification)
      (map (\<lambda>i. Asn1Dict [(''variableSpecification'', encode_variable_specification i :: 'oid Asn1)]) vs) = Ok vs"
    by (intro mapE_map_Ok) auto
  then show ?case by (subst decode_variable_specification.simps) simp
qed (subst decode_variable_specification.simps, simp)+

lemma variables_roundtrip [simp]: "decode_variables (encode_variables vs) = Ok vs"
  by (auto simp: decode_variables_def encode_variables_def intro!: mapE_map_Ok)

lemma specification_roundtrip [simp]: "decode_specification (encode_specification s) = Ok s"
  by (cases s) (simp_all add: decode_specification_def)

section \<open>Data\<close>

definition utc_ok :: "UtcTime \<Rightarrow> bool" where
  "utc_ok u \<longleftrightarrow> 0 \<le> utc_value u \<and> utc_value u < 4294967296000000"

text \<open>Data whose times and floats the formats can hold.\<close>

fun data_ok :: "'oid MmsData \<Rightarrow> bool" where
  "data_ok (ArrayData xs) \<longleftrightarrow> (\<forall>x \<in> set xs. data_ok x)"
| "data_ok (StructureData xs) \<longleftrightarrow> (\<forall>x \<in> set xs. data_ok x)"
| "data_ok (BinaryTimeData t) \<longleftrightarrow> epoch_1984 \<le> t \<and> t < epoch_1984 + 65536 * 86400000000 \<and> t mod 1000000 = 0"
| "data_ok (FloatingPointData x) \<longleftrightarrow> is_single x"
| "data_ok (UtcTimeData u) \<longleftrightarrow> utc_ok u"
| "data_ok _ \<longleftrightarrow> True"

lemma quality_fields:
  assumes "0 \<le> a" "a < 32"
  shows "0x1F AND ((if l then 0x80 else 0) OR (if c then 0x40 else 0) OR (if s then 0x20 else 0) OR a) = (a :: int)"
    "0x80 AND ((if l then 0x80 else 0) OR (if c then 0x40 else 0) OR (if s then 0x20 else 0) OR a) \<noteq> 0 \<longleftrightarrow> l"
    "0x40 AND ((if l then 0x80 else 0) OR (if c then 0x40 else 0) OR (if s then 0x20 else 0) OR a) \<noteq> 0 \<longleftrightarrow> c"
    "0x20 AND ((if l then 0x80 else 0) OR (if c then 0x40 else 0) OR (if s then 0x20 else 0) OR a) \<noteq> 0 \<longleftrightarrow> s"
    "is_byte ((if l then 0x80 else 0) OR (if c then 0x40 else 0) OR (if s then 0x20 else 0) OR a)"
proof -
  have "31 AND a = a" using assms and_mask_mod [of a 5] by (simp add: and.commute)
  moreover have "128 AND a = 0" "64 AND a = 0" "32 AND a = 0"
    using assms and_exp_eq_0_iff_not_bit [of a 7] and_exp_eq_0_iff_not_bit [of a 6] and_exp_eq_0_iff_not_bit [of a 5]
    by (simp_all add: and.commute bit_iff_odd div_pos_pos_trivial)
  moreover have "is_byte a" using assms by (simp add: is_byte_def)
  ultimately show
    "0x1F AND ((if l then 0x80 else 0) OR (if c then 0x40 else 0) OR (if s then 0x20 else 0) OR a) = (a :: int)"
    "0x80 AND ((if l then 0x80 else 0) OR (if c then 0x40 else 0) OR (if s then 0x20 else 0) OR a) \<noteq> 0 \<longleftrightarrow> l"
    "0x40 AND ((if l then 0x80 else 0) OR (if c then 0x40 else 0) OR (if s then 0x20 else 0) OR a) \<noteq> 0 \<longleftrightarrow> c"
    "0x20 AND ((if l then 0x80 else 0) OR (if c then 0x40 else 0) OR (if s then 0x20 else 0) OR a) \<noteq> 0 \<longleftrightarrow> s"
    "is_byte ((if l then 0x80 else 0) OR (if c then 0x40 else 0) OR (if s then 0x20 else 0) OR a)"
    by (cases l; cases c; cases s; simp add: bit.conj_disj_distrib is_byte_or is_byte_def [of "numeral _"])+
qed

lemma utc_time_data_roundtrip:
  assumes "encode_utc_time u = Ok bs" "utc_ok u"
  shows "decode_utc_time bs = Ok u"
proof -
  define a where "a = (case utc_accuracy u of None \<Rightarrow> 0x1F | Some a \<Rightarrow> a)"
  from assms(1) have a: "0 \<le> a" "a < 32" "(if 24 < a then None else Some a) = utc_accuracy u"
    by (auto simp: encode_utc_time_def a_def split: option.splits if_splits)
  from assms(2) obtain ys where ys: "encode_utc_seconds (utc_value u) = Ok ys" "length ys = 7" "all_bytes ys"
    "\<And>rest. decode_utc_seconds (wire ys @ rest) = Ok (utc_value u)"
    unfolding utc_ok_def by (auto elim: utc_seconds_roundtrip)
  define q where "q = (if utc_leap_second u then 0x80 else 0) OR (if utc_clock_failure u then 0x40 else 0) OR
    (if utc_not_synchronized u then 0x20 else 0) OR a"
  note f = quality_fields [OF a(1,2), of "utc_leap_second u" "utc_clock_failure u" "utc_not_synchronized u", folded q_def]
  from assms(1) ys(1) have "py_bytes (ys @ [q]) = Ok bs"
    by (auto simp: encode_utc_time_def Let_def q_def a_def split: if_splits)
  with ys(3) f(5) have bs: "bs = wire ys @ [word_of_int q]" by (simp add: py_bytes_Ok_iff wire_def)
  have len: "length (wire ys) = 7" using ys(2) by simp
  have "byte_at bs 7 = Ok q"
    unfolding bs byte_at_def using len f(5) by (simp add: nth_append uint_of_byte)
  with ys(4) [of "[word_of_int q]"] show ?thesis
    unfolding bs [symmetric] decode_utc_time_def by (simp add: f a(3))
qed

lemma floating_point_roundtrip:
  assumes "encode_floating_point x = Ok bs" "is_single x"
  shows "decode_floating_point bs = Ok x"
proof -
  from assms(1) obtain ys where ys: "pack_float x = Ok ys" "py_bytes (8 # rev ys) = Ok bs" by (auto simp: encode_floating_point_def)
  then have bs: "bs = wire (8 # rev ys)" by (simp add: py_bytes_Ok_iff)
  have "unpack_float (wire ys) = Ok x" using single.unpack_pack [OF assms(2)] ys(1) by auto
  then show ?thesis by (simp add: bs decode_floating_point_def wire_def rev_map)
qed

lemma data_roundtrip: "encode_data d = Ok v \<Longrightarrow> data_ok d \<Longrightarrow> decode_data v = Ok d"
proof (induction d arbitrary: v)
  case (ArrayData xs)
  then obtain vs where vs: "mapE encode_data xs = Ok vs" "v = Asn1Choice ''array'' (Asn1List vs)" by auto
  have "mapE decode_data vs = Ok xs" using vs(1) by (rule mapE_inverse) (use ArrayData in auto)
  with vs(2) show ?case by (subst decode_data.simps) simp
next
  case (StructureData xs)
  then obtain vs where vs: "mapE encode_data xs = Ok vs" "v = Asn1Choice ''structure'' (Asn1List vs)" by auto
  have "mapE decode_data vs = Ok xs" using vs(1) by (rule mapE_inverse) (use StructureData in auto)
  with vs(2) show ?case by (subst decode_data.simps) simp
next
  case (BinaryTimeData t)
  then obtain bs where bs: "encode_binary_time t = Ok bs" "v = Asn1Choice ''binary-time'' (Asn1Bytes bs)" by auto
  with BinaryTimeData.prems(2) have "decode_binary_time bs = Ok t" by (auto elim: binary_time_roundtrip)
  with bs(2) show ?case by (subst decode_data.simps) simp
next
  case (FloatingPointData x)
  then obtain bs where bs: "encode_floating_point x = Ok bs" "v = Asn1Choice ''floating-point'' (Asn1Bytes bs)" by auto
  with FloatingPointData.prems(2) have "decode_floating_point bs = Ok x" by (auto intro: floating_point_roundtrip)
  with bs(2) show ?case by (subst decode_data.simps) simp
next
  case (UtcTimeData u)
  then obtain bs where bs: "encode_utc_time u = Ok bs" "v = Asn1Choice ''utc-time'' (Asn1Bytes bs)" by auto
  with UtcTimeData.prems(2) have "decode_utc_time bs = Ok u" by (auto intro: utc_time_data_roundtrip)
  with bs(2) show ?case by (subst decode_data.simps) simp
qed (auto simp: decode_data.simps)

text \<open>
  C34: A UTC time from 1970 to 2106 is sent and received exactly, to the microsecond, although the encoder and the decoder compute
  its seconds and their 24 binary digits with floats that round; and so are its flags and its accuracy.
\<close>

theorem utc_time_exact:
  assumes "0 \<le> utc_value u" "utc_value u < 4294967296000000" "utc_accuracy u = None \<or> utc_accuracy u = Some a \<and> 0 \<le> a \<and> a \<le> 24"
  shows "\<exists>bs. encode_data (UtcTimeData u) = Ok (Asn1Choice ''utc-time'' (Asn1Bytes bs)) \<and> length bs = 8 \<and>
    decode_data (Asn1Choice ''utc-time'' (Asn1Bytes bs)) = Ok (UtcTimeData u)"
proof -
  from assms(1,2) obtain ys where ys: "encode_utc_seconds (utc_value u) = Ok ys" "length ys = 7" "all_bytes ys"
    by (rule utc_seconds_roundtrip)
  define n where "n = (case utc_accuracy u of None \<Rightarrow> 0x1F | Some a \<Rightarrow> a)"
  have "0 \<le> n" "n < 32" using assms(3) by (auto simp: n_def)
  note q = quality_fields(5) [OF this, of "utc_leap_second u" "utc_clock_failure u" "utc_not_synchronized u", unfolded n_def]
  from assms(3) ys q obtain bs where bs: "encode_utc_time u = Ok bs" "length bs = 8"
    by (auto simp: encode_utc_time_def py_bytes_def all_bytes_def)
  with utc_time_data_roundtrip [OF bs(1)] assms(1,2) show ?thesis by (auto simp: utc_ok_def decode_data.simps)
qed

theorem utc_time_exact_witness:
  "\<exists>bs. encode_data (UtcTimeData \<lparr>utc_value = 1700000000123457, utc_leap_second = False, utc_clock_failure = True,
       utc_not_synchronized = False, utc_accuracy = Some 20\<rparr> :: nat MmsData) = Ok (Asn1Choice ''utc-time'' (Asn1Bytes bs)) \<and>
    length bs = 8 \<and>
    decode_data (Asn1Choice ''utc-time'' (Asn1Bytes bs) :: nat Asn1) = Ok (UtcTimeData \<lparr>utc_value = 1700000000123457,
      utc_leap_second = False, utc_clock_failure = True, utc_not_synchronized = False, utc_accuracy = Some 20\<rparr>)"
  by (rule utc_time_exact [of _ 20]) simp_all

text \<open>
  C35: A binary time between 1984 and 2163 keeps its days and seconds, but not the fraction of a second: the decoded
  time is the start of the second.
\<close>

theorem binary_time_fraction_lost:
  assumes "441763200000000 \<le> t" "t < 441763200000000 + 65536 * 86400000000"
  shows "\<exists>bs. encode_data (BinaryTimeData t) = Ok (Asn1Choice ''binary-time'' (Asn1Bytes bs)) \<and> length bs = 6 \<and>
    decode_data (Asn1Choice ''binary-time'' (Asn1Bytes bs)) = Ok (BinaryTimeData (t - t mod 1000000))"
proof -
  from assms obtain bs where "encode_binary_time t = Ok bs" "length bs = 6" "decode_binary_time bs = Ok (t - t mod 1000000)"
    unfolding epoch_1984_def [symmetric] by (rule binary_time_roundtrip)
  then show ?thesis by (auto simp: decode_data.simps)
qed

theorem binary_time_fraction_lost_witness:
  "\<exists>bs. encode_data (BinaryTimeData 1700000000750000 :: nat MmsData) = Ok (Asn1Choice ''binary-time'' (Asn1Bytes bs)) \<and> length bs = 6 \<and>
    decode_data (Asn1Choice ''binary-time'' (Asn1Bytes bs) :: nat Asn1) = Ok (BinaryTimeData 1700000000000000)"
  using binary_time_fraction_lost [of 1700000000750000] by simp

section \<open>Services\<close>

lemma datas_roundtrip: "mapE encode_data ds = Ok vs \<Longrightarrow> \<forall>d \<in> set ds. data_ok d \<Longrightarrow> mapE decode_data vs = Ok ds"
  by (erule mapE_inverse) (auto intro: data_roundtrip)

fun access_result_ok :: "DataAccessError + 'oid MmsData \<Rightarrow> bool" where
  "access_result_ok (Inl e) \<longleftrightarrow> True"
| "access_result_ok (Inr d) \<longleftrightarrow> data_ok d"

lemma access_result_roundtrip: "encode_access_result r = Ok v \<Longrightarrow> access_result_ok r \<Longrightarrow> decode_access_result v = Ok r"
  by (cases r) (auto simp: decode_access_result_def data_roundtrip)

lemma access_results_roundtrip:
  "mapE encode_access_result rs = Ok vs \<Longrightarrow> \<forall>r \<in> set rs. access_result_ok r \<Longrightarrow> mapE decode_access_result vs = Ok rs"
  by (erule mapE_inverse) (auto intro: access_result_roundtrip)

lemma object_names_roundtrip [simp]: "mapE decode_object_name (map encode_object_name ns :: 'oid Asn1 list) = Ok ns"
  by (rule mapE_map_Ok) simp

fun request_ok :: "'oid MmsRequest \<Rightarrow> bool" where
  "request_ok (WriteRequest _ ds) \<longleftrightarrow> (\<forall>d \<in> set ds. data_ok d)"
| "request_ok _ \<longleftrightarrow> True"

fun response_ok :: "'oid MmsResponse \<Rightarrow> bool" where
  "response_ok (ReadResponse rs) \<longleftrightarrow> (\<forall>r \<in> set rs. access_result_ok r)"
| "response_ok _ \<longleftrightarrow> True"

fun unconfirmed_ok :: "'oid Unconfirmed \<Rightarrow> bool" where
  "unconfirmed_ok (InformationReportUnconfirmed _ ds) \<longleftrightarrow> (\<forall>r \<in> set ds. access_result_ok r)"
| "unconfirmed_ok _ \<longleftrightarrow> True"

lemma mms_request_roundtrip:
  assumes "encode_request r = Ok v" "request_ok r"
  shows "decode_request v = Ok r"
  using assms
  by (cases r) (auto simp: decode_request_def asn1_strs_def datas_roundtrip split: option.splits sum.splits)

lemma mms_response_roundtrip:
  assumes "encode_response r = Ok v" "response_ok r"
  shows "decode_response v = Ok r"
proof (cases r)
  case (WriteResponse rs)
  have "mapE (\<lambda>i. bindE (asn1_choice i) (\<lambda>(k, v). if k = ''success'' then Ok None
        else bindE (bindE (asn1_int v) DataAccessError_of) (\<lambda>e. Ok (Some e))))
      (map (\<lambda>i. case i of None \<Rightarrow> Asn1Choice ''success'' Asn1None
        | Some e \<Rightarrow> Asn1Choice ''failure'' (Asn1Int (DataAccessError_value e) :: 'a Asn1)) rs) = Ok rs"
    by (rule mapE_map_Ok) (simp split: option.splits)
  with WriteResponse assms(1) show ?thesis by (auto simp: decode_response_def)
qed (use assms in \<open>auto simp: decode_response_def asn1_strs_def access_results_roundtrip split: option.splits\<close>)

lemma mms_error_roundtrip: "decode_error (encode_error e) = Ok e"
  by (cases e) (simp_all add: decode_error_def encode_error_def)

lemma mms_unconfirmed_roundtrip:
  assumes "encode_unconfirmed u = Ok v" "unconfirmed_ok u"
  shows "decode_unconfirmed v = Ok u"
proof (cases u)
  case (EventNotificationUnconfirmed e c s t)
  with assms(1) show ?thesis by (cases t) (auto simp: decode_unconfirmed_def)
qed (use assms in \<open>auto simp: decode_unconfirmed_def access_results_roundtrip\<close>)

text \<open>
  C33: what the encoder makes of a request, of a response, of an unconfirmed service and of an error is decoded to the same, with all
  data, types, names and variables in it, where floats are of the single format, binary times in whole seconds from 1984 to
  2163 and UTC times from 1970 to 2106.
\<close>

theorem mms_services_roundtrip:
  assumes "request_ok req" "response_ok res" "unconfirmed_ok u"
  shows "(encode_request req = Ok v \<longrightarrow> decode_request v = Ok req) \<and> (encode_response res = Ok w \<longrightarrow> decode_response w = Ok res) \<and>
    (encode_unconfirmed u = Ok x \<longrightarrow> decode_unconfirmed x = Ok u) \<and> decode_error (encode_error e) = Ok e"
  using assms mms_request_roundtrip mms_response_roundtrip mms_unconfirmed_roundtrip mms_error_roundtrip by blast

theorem mms_services_roundtrip_witness:
  "decode_request (Asn1Choice ''write'' (Asn1Dict
      [(''variableAccessSpecification'', Asn1Choice ''variableListName'' (Asn1Choice ''vmd-specific'' (Asn1Str [65]))),
       (''listOfData'', Asn1List [Asn1Choice ''structure'' (Asn1List [Asn1Choice ''boolean'' (Asn1Bool True)])])]) :: nat Asn1) =
     Ok (WriteRequest (Inr (VmdSpecificObjectName [65])) [StructureData [BooleanData True]])"
proof -
  let ?r = "WriteRequest (Inr (VmdSpecificObjectName [65])) [StructureData [BooleanData True]] :: nat MmsRequest"
  have "request_ok ?r" "response_ok (DefineNamedVariableListResponse :: nat MmsResponse)"
    "unconfirmed_ok (UnsolicitedStatusUnconfirmed 0 0 :: nat Unconfirmed)" by simp_all
  from mms_services_roundtrip [OF this, THEN conjunct1] show ?thesis by simp
qed

end
