(* ===== verification/Mms_Connection.thy ===== *)
theory Mms_Connection
  imports Mms_Codec
begin

text \<open>
  \<^verbatim>\<open>mms/connection.py\<close>: confirmed requests with their identifiers and futures, the receiving loop with its handlers, and the
  negotiation at the start. The encoder of ASN.1 values, which is another package, is a pair of functions
  (\<open>asn1_encode\<close>, \<open>asn1_decode\<close>); callbacks are functions with a state that may raise. The queue of the layer below may
  be full, so that sending waits: a request is first made, and later put in the queue and its future registered,
  between which anything may happen. A future is named by the identifier of its request.
\<close>

section \<open>State\<close>

datatype 'oid MmsOutcome = MmsAnswer "'oid MmsResponse" | MmsFailure MmsError | MmsLost

record ('oid, 'e) MmsConnection =
  mms_open :: bool
  mms_next_invoke_id :: nat
  mms_waiting :: "(nat \<times> 'e) list"
  mms_futures :: "nat list"
  mms_results :: "(nat \<times> 'oid MmsOutcome) list"
  mms_sent :: "(int list \<times> 'e) list"
  mms_close_pdu :: "'oid Asn1"

definition init_mms :: "('oid, 'e) MmsConnection" where
  "init_mms = \<lparr>mms_open = True, mms_next_invoke_id = 0, mms_waiting = [], mms_futures = [], mms_results = [], mms_sent = [],
     mms_close_pdu = Asn1Choice ''conclude-RequestPDU'' Asn1None\<rparr>"

definition mms_done :: "nat \<Rightarrow> ('oid, 'e) MmsConnection \<Rightarrow> bool" where
  "mms_done f c \<longleftrightarrow> f \<in> fst ` set (mms_results c)"

definition mms_syntax_name :: "int list" where
  "mms_syntax_name = [1, 0, 9506, 2, 1]"

type_synonym ('oid, 'e) asn1_encoder = "'oid Asn1 \<Rightarrow> 'e result"

type_synonym ('oid, 'e) asn1_decoder = "'e \<Rightarrow> 'oid Asn1 result"

section \<open>Negotiation\<close>

definition parameter_cbb :: "bool list" where
  "parameter_cbb = map (\<lambda>i. i \<in> {0, 1, 2, 3, 4, 6, 7}) [0..<11]"

definition service_support :: "bool list" where
  "service_support = map (\<lambda>i. i \<in> {0, 1, 2, 4, 5, 6, 11, 12, 13, 79, 18, 83}) [0..<85]"

text \<open>The first message of \<open>connect\<close>, and the answer of \<open>_on_validate\<close>.\<close>

definition initiate_request :: "int option \<Rightarrow> 'oid Asn1" where
  "initiate_request local_detail_calling =
     Asn1Choice ''initiate-RequestPDU'' (Asn1Dict
       ([(''proposedMaxServOutstandingCalling'', Asn1Int 5), (''proposedMaxServOutstandingCalled'', Asn1Int 5),
         (''initRequestDetail'', Asn1Dict [(''proposedVersionNumber'', Asn1Int 1),
            (''proposedParameterCBB'', Asn1List (map Asn1Bool parameter_cbb)),
            (''servicesSupportedCalling'', Asn1List (map Asn1Bool service_support))])] @
        (case local_detail_calling of None \<Rightarrow> [] | Some n \<Rightarrow> [(''localDetailCalling'', Asn1Int n)])))"

definition on_validate ::
    "('oid, 'e) asn1_encoder \<Rightarrow> ('oid, 'e) asn1_decoder \<Rightarrow> int list \<times> 'e \<Rightarrow> (int list \<times> 'e) result" where
  "on_validate asn1_encode asn1_decode user_data =
     (case user_data of (syntax_name, req_user_data) \<Rightarrow>
        if syntax_name \<noteq> mms_syntax_name then Raise (Exception ''invalid mms syntax name'')
        else
          bindE (bindE (asn1_decode req_user_data) asn1_choice) (\<lambda>(name, data).
            if name \<noteq> ''initiate-RequestPDU'' then Raise (Exception ''invalid initiate request'')
            else
              bindE (asn1_get ''localDetailCalling'' data) (\<lambda>detail.
              bindE (asn1_encode (Asn1Choice ''initiate-ResponsePDU'' (Asn1Dict
                ([(''negotiatedMaxServOutstandingCalling'', Asn1Int 5), (''negotiatedMaxServOutstandingCalled'', Asn1Int 5),
                  (''negotiatedDataStructureNestingLevel'', Asn1Int 4),
                  (''initResponseDetail'', Asn1Dict [(''negotiatedVersionNumber'', Asn1Int 1),
                     (''negotiatedParameterCBB'', Asn1List (map Asn1Bool parameter_cbb)),
                     (''servicesSupportedCalled'', Asn1List (map Asn1Bool service_support))])] @
                 (case detail of None \<Rightarrow> [] | Some d \<Rightarrow> [(''localDetailCalled'', d)]))))) (\<lambda>res_user_data.
                Ok (mms_syntax_name, res_user_data)))))"

text \<open>The check of the answer in \<open>connect\<close>.\<close>

definition initiate_accepted :: "('oid, 'e) asn1_decoder \<Rightarrow> int list \<times> 'e \<Rightarrow> unit result" where
  "initiate_accepted asn1_decode user_data =
     (case user_data of (syntax_name, res_user_data) \<Rightarrow>
        if syntax_name \<noteq> mms_syntax_name then Raise (Exception ''invalid syntax name'')
        else
          bindE (bindE (asn1_decode res_user_data) asn1_choice) (\<lambda>(name, _).
            if name \<noteq> ''initiate-ResponsePDU'' then Raise (Exception ''invalid initiate response'') else Ok ()))"

section \<open>Sending\<close>

definition mms_put :: "'e \<Rightarrow> ('oid, 'e) MmsConnection \<Rightarrow> ('oid, 'e) MmsConnection" where
  "mms_put e c = c\<lparr>mms_sent := mms_sent c @ [(mms_syntax_name, e)]\<rparr>"

text \<open>\<open>conn_open\<close> tells whether the layer below is still open.\<close>

definition send_unconfirmed ::
    "('oid, 'e) asn1_encoder \<Rightarrow> bool \<Rightarrow> 'oid Unconfirmed \<Rightarrow> ('oid, 'e) MmsConnection \<Rightarrow> unit result \<times> ('oid, 'e) MmsConnection" where
  "send_unconfirmed asn1_encode conn_open unconfirmed c =
     (if \<not> mms_open c then (Raise ConnectionError, c)
      else
        (case bindE (encode_unconfirmed unconfirmed) (\<lambda>service.
                asn1_encode (Asn1Choice ''unconfirmed-PDU'' (Asn1Dict [(''service'', service)]))) of
           Inl e \<Rightarrow> (Raise e, c)
         | Inr data \<Rightarrow> if \<not> conn_open then (Raise ConnectionError, c) else (Ok (), mms_put data c)))"

text \<open>\<open>send_confirmed\<close> until it waits for a place in the queue, and from there until it waits for its future.\<close>

definition begin_confirmed ::
    "('oid, 'e) asn1_encoder \<Rightarrow> 'oid MmsRequest \<Rightarrow> ('oid, 'e) MmsConnection \<Rightarrow> unit result \<times> ('oid, 'e) MmsConnection" where
  "begin_confirmed asn1_encode req c =
     (if \<not> mms_open c then (Raise ConnectionError, c)
      else
        let invoke_id = mms_next_invoke_id c; c = c\<lparr>mms_next_invoke_id := invoke_id + 1\<rparr> in
        (case bindE (encode_request req) (\<lambda>service.
                asn1_encode (Asn1Choice ''confirmed-RequestPDU''
                  (Asn1Dict [(''invokeID'', Asn1Int (int invoke_id)), (''service'', service)]))) of
           Inl e \<Rightarrow> (Raise e, c)
         | Inr data \<Rightarrow> (Ok (), c\<lparr>mms_waiting := mms_waiting c @ [(invoke_id, data)]\<rparr>)))"

definition register_confirmed ::
    "bool \<Rightarrow> nat \<Rightarrow> ('oid, 'e) MmsConnection \<Rightarrow> unit result \<times> ('oid, 'e) MmsConnection" where
  "register_confirmed conn_open invoke_id c =
     (case map_of (mms_waiting c) invoke_id of
        None \<Rightarrow> (Ok (), c)
      | Some data \<Rightarrow>
          let c = c\<lparr>mms_waiting := filter (\<lambda>(i, _). i \<noteq> invoke_id) (mms_waiting c)\<rparr> in
          if \<not> conn_open then (Raise ConnectionError, c)
          else
            let c = mms_put data c in
            if \<not> mms_open c then (Raise ConnectionError, c)
            else (Ok (), c\<lparr>mms_futures := mms_futures c @ [invoke_id]\<rparr>))"

text \<open>\<open>finally: self._response_futures.pop(invoke_id, None)\<close>\<close>

definition mms_pop :: "nat \<Rightarrow> ('oid, 'e) MmsConnection \<Rightarrow> ('oid, 'e) MmsConnection" where
  "mms_pop f c = c\<lparr>mms_futures := filter (\<lambda>g. g \<noteq> f) (mms_futures c)\<rparr>"

section \<open>Receiving\<close>

definition mms_settle :: "nat \<Rightarrow> 'oid MmsOutcome \<Rightarrow> ('oid, 'e) MmsConnection \<Rightarrow> ('oid, 'e) MmsConnection" where
  "mms_settle f x c = (if mms_done f c then c else c\<lparr>mms_results := mms_results c @ [(f, x)]\<rparr>)"

text \<open>The end of the receiving loop.\<close>

definition mms_close :: "('oid, 'e) MmsConnection \<Rightarrow> ('oid, 'e) MmsConnection" where
  "mms_close c = fold (\<lambda>f. mms_settle f MmsLost) (mms_futures c) (c\<lparr>mms_open := False\<rparr>)"

type_synonym ('s, 'oid) mms_request_cb = "('s \<Rightarrow> 'oid MmsRequest \<Rightarrow> 's \<times> ('oid MmsResponse + MmsError) result) option"

type_synonym ('s, 'oid) mms_unconfirmed_cb = "('s \<Rightarrow> 'oid Unconfirmed \<Rightarrow> 's \<times> unit result) option"

definition mms_process_unconfirmed :: "('s, 'oid) mms_unconfirmed_cb \<Rightarrow> 'oid Asn1 \<Rightarrow> 's \<Rightarrow> 's \<times> unit result" where
  "mms_process_unconfirmed unconfirmed_cb data s =
     (case bindE (asn1_item ''service'' data) decode_unconfirmed of
        Inl e \<Rightarrow> (s, Raise e)
      | Inr unconfirmed \<Rightarrow>
          (case unconfirmed_cb of None \<Rightarrow> (s, Raise (Exception ''unconfirmed_cb not defined'')) | Some cb \<Rightarrow> cb s unconfirmed))"

definition response_pdu :: "'oid Asn1 \<Rightarrow> 'oid MmsResponse + MmsError \<Rightarrow> 'oid Asn1 result" where
  "response_pdu invoke_id res =
     (case res of
        Inl response \<Rightarrow>
          bindE (encode_response response) (\<lambda>service.
            Ok (Asn1Choice ''confirmed-ResponsePDU'' (Asn1Dict [(''invokeID'', invoke_id), (''service'', service)])))
      | Inr error \<Rightarrow>
          Ok (Asn1Choice ''confirmed-ErrorPDU'' (Asn1Dict [(''invokeID'', invoke_id), (''serviceError'', encode_error error)])))"

definition mms_process_request ::
    "('oid, 'e) asn1_encoder \<Rightarrow> ('s, 'oid) mms_request_cb \<Rightarrow> 'oid Asn1 \<Rightarrow> 's \<Rightarrow> 's \<times> 'e result" where
  "mms_process_request asn1_encode request_cb data s =
     (case bindE (asn1_item ''invokeID'' data) (\<lambda>invoke_id.
             bindE (bindE (asn1_item ''service'' data) decode_request) (\<lambda>req. Ok (invoke_id, req))) of
        Inl e \<Rightarrow> (s, Raise e)
      | Inr (invoke_id, req) \<Rightarrow>
          (case request_cb of
             None \<Rightarrow> (s, Raise (Exception ''request_cb not defined''))
           | Some cb \<Rightarrow> (case cb s req of (s, m) \<Rightarrow> (s, bindE (bindE m (response_pdu invoke_id)) asn1_encode))))"

text \<open>A response or error whose future is not there or is done is dropped.\<close>

definition settle_invoked :: "int \<Rightarrow> 'oid MmsOutcome \<Rightarrow> ('oid, 'e) MmsConnection \<Rightarrow> ('oid, 'e) MmsConnection" where
  "settle_invoked invoke_id x c =
     (if 0 \<le> invoke_id \<and> nat invoke_id \<in> set (mms_futures c) then mms_settle (nat invoke_id) x c else c)"

definition mms_process_response :: "'oid Asn1 \<Rightarrow> ('oid, 'e) MmsConnection \<Rightarrow> ('oid, 'e) MmsConnection result" where
  "mms_process_response data c =
     bindE (bindE (asn1_item ''invokeID'' data) asn1_int) (\<lambda>invoke_id.
     bindE (bindE (asn1_item ''service'' data) decode_response) (\<lambda>res. Ok (settle_invoked invoke_id (MmsAnswer res) c)))"

definition mms_process_error :: "'oid Asn1 \<Rightarrow> ('oid, 'e) MmsConnection \<Rightarrow> ('oid, 'e) MmsConnection result" where
  "mms_process_error data c =
     bindE (bindE (asn1_item ''invokeID'' data) asn1_int) (\<lambda>invoke_id.
     bindE (bindE (asn1_item ''serviceError'' data) decode_error) (\<lambda>error. Ok (settle_invoked invoke_id (MmsFailure error) c)))"

text \<open>
  One turn of the receiving loop, with what \<open>conn.receive\<close> returned; an error ends the loop. \<open>conn_open\<close> is for
  the sending of an answer.
\<close>

definition mms_dispatch ::
    "('oid, 'e) asn1_encoder \<Rightarrow> ('s, 'oid) mms_request_cb \<Rightarrow> ('s, 'oid) mms_unconfirmed_cb \<Rightarrow> bool \<Rightarrow> string \<Rightarrow> 'oid Asn1 \<Rightarrow>
     's \<Rightarrow> ('oid, 'e) MmsConnection \<Rightarrow> 's \<times> ('oid, 'e) MmsConnection" where
  "mms_dispatch asn1_encode request_cb unconfirmed_cb conn_open name data s c =
     (if name = ''unconfirmed-PDU'' then
        (case mms_process_unconfirmed unconfirmed_cb data s of (s, Inl _) \<Rightarrow> (s, mms_close c) | (s, Inr _) \<Rightarrow> (s, c))
      else if name = ''confirmed-RequestPDU'' then
        (case mms_process_request asn1_encode request_cb data s of
           (s, Inl _) \<Rightarrow> (s, mms_close c)
         | (s, Inr e) \<Rightarrow> if conn_open then (s, mms_put e c) else (s, mms_close c))
      else if name = ''confirmed-ResponsePDU'' then
        (case mms_process_response data c of Inl _ \<Rightarrow> (s, mms_close c) | Inr c' \<Rightarrow> (s, c'))
      else if name = ''confirmed-ErrorPDU'' then
        (case mms_process_error data c of Inl _ \<Rightarrow> (s, mms_close c) | Inr c' \<Rightarrow> (s, c'))
      else if name = ''conclude-RequestPDU'' then
        (s, mms_close (c\<lparr>mms_close_pdu := Asn1Choice ''conclude-ResponsePDU'' Asn1None\<rparr>))
      else (s, mms_close c))"

definition mms_receive ::
    "('oid, 'e) asn1_encoder \<Rightarrow> ('oid, 'e) asn1_decoder \<Rightarrow> ('s, 'oid) mms_request_cb \<Rightarrow> ('s, 'oid) mms_unconfirmed_cb \<Rightarrow> bool \<Rightarrow>
     int list \<times> 'e \<Rightarrow> 's \<Rightarrow> ('oid, 'e) MmsConnection \<Rightarrow> 's \<times> ('oid, 'e) MmsConnection" where
  "mms_receive asn1_encode asn1_decode request_cb unconfirmed_cb conn_open received s c =
     (case received of (syntax_name, entity) \<Rightarrow>
        if syntax_name \<noteq> mms_syntax_name then (s, c)
        else
          (case bindE (asn1_decode entity) asn1_choice of
             Inl _ \<Rightarrow> (s, mms_close c)
           | Inr (name, data) \<Rightarrow> mms_dispatch asn1_encode request_cb unconfirmed_cb conn_open name data s c))"

section \<open>Every request is settled\<close>

inductive mms_step ::
    "('oid, 'e) asn1_encoder \<Rightarrow> ('oid, 'e) asn1_decoder \<Rightarrow> ('s, 'oid) mms_request_cb \<Rightarrow> ('s, 'oid) mms_unconfirmed_cb \<Rightarrow>
     's \<times> ('oid, 'e) MmsConnection \<Rightarrow> 's \<times> ('oid, 'e) MmsConnection \<Rightarrow> bool"
  for asn1_encode asn1_decode request_cb unconfirmed_cb where
  mms_sends_unconfirmed:
    "send_unconfirmed asn1_encode conn_open unconfirmed c = (r, c') \<Longrightarrow>
     mms_step asn1_encode asn1_decode request_cb unconfirmed_cb (s, c) (s, c')"
| mms_begins:
    "begin_confirmed asn1_encode req c = (r, c') \<Longrightarrow> mms_step asn1_encode asn1_decode request_cb unconfirmed_cb (s, c) (s, c')"
| mms_registers:
    "register_confirmed conn_open invoke_id c = (r, c') \<Longrightarrow> mms_step asn1_encode asn1_decode request_cb unconfirmed_cb (s, c) (s, c')"
| mms_gives_up: "mms_step asn1_encode asn1_decode request_cb unconfirmed_cb (s, c) (s, mms_pop f c)"
| mms_receives:
    "mms_open c \<Longrightarrow> mms_receive asn1_encode asn1_decode request_cb unconfirmed_cb conn_open received s c = (s', c') \<Longrightarrow>
     mms_step asn1_encode asn1_decode request_cb unconfirmed_cb (s, c) (s', c')"
| mms_closes: "mms_step asn1_encode asn1_decode request_cb unconfirmed_cb (s, c) (s, mms_close c)"

inductive mms_reachable ::
    "('oid, 'e) asn1_encoder \<Rightarrow> ('oid, 'e) asn1_decoder \<Rightarrow> ('s, 'oid) mms_request_cb \<Rightarrow> ('s, 'oid) mms_unconfirmed_cb \<Rightarrow>
     's \<times> ('oid, 'e) MmsConnection \<Rightarrow> bool"
  for asn1_encode asn1_decode request_cb unconfirmed_cb where
  mms_start: "mms_reachable asn1_encode asn1_decode request_cb unconfirmed_cb (s, init_mms)"
| mms_later:
    "mms_reachable asn1_encode asn1_decode request_cb unconfirmed_cb x \<Longrightarrow>
     mms_step asn1_encode asn1_decode request_cb unconfirmed_cb x y \<Longrightarrow> mms_reachable asn1_encode asn1_decode request_cb unconfirmed_cb y"

definition mms_tidy :: "('oid, 'e) MmsConnection \<Rightarrow> bool" where
  "mms_tidy c \<longleftrightarrow>
     distinct (mms_futures c) \<and> distinct (map fst (mms_results c)) \<and>
     (\<forall>f \<in> set (mms_futures c) \<union> fst ` set (mms_waiting c) \<union> fst ` set (mms_results c). f < mms_next_invoke_id c) \<and>
     fst ` set (mms_waiting c) \<inter> (set (mms_futures c) \<union> fst ` set (mms_results c)) = {}"

definition mms_settled :: "('oid, 'e) MmsConnection \<Rightarrow> bool" where
  "mms_settled c \<longleftrightarrow> mms_tidy c \<and> (mms_open c \<or> (\<forall>f \<in> set (mms_futures c). mms_done f c))"

lemma mms_settle_frame [simp]:
  "mms_open (mms_settle f x c) = mms_open c" "mms_next_invoke_id (mms_settle f x c) = mms_next_invoke_id c"
  "mms_futures (mms_settle f x c) = mms_futures c" "mms_sent (mms_settle f x c) = mms_sent c"
  "mms_waiting (mms_settle f x c) = mms_waiting c" "mms_done g (mms_settle f x c) \<longleftrightarrow> g = f \<or> mms_done g c"
  by (auto simp: mms_settle_def mms_done_def)

lemma mms_tidy_open [simp]:
  "mms_tidy (c\<lparr>mms_open := b\<rparr>) \<longleftrightarrow> mms_tidy c" "mms_tidy (c\<lparr>mms_close_pdu := p\<rparr>) \<longleftrightarrow> mms_tidy c"
  "mms_tidy (c\<lparr>mms_sent := m\<rparr>) \<longleftrightarrow> mms_tidy c"
  by (simp_all add: mms_tidy_def)

lemma mms_tidy_settle:
  assumes "mms_tidy c" "f \<in> set (mms_futures c)" shows "mms_tidy (mms_settle f x c)"
  using assms by (auto simp: mms_tidy_def mms_settle_def mms_done_def)

lemma mms_settle_all:
  assumes "mms_tidy c" "set fs \<subseteq> set (mms_futures c)"
  shows "mms_tidy (fold (\<lambda>f. mms_settle f x) fs c) \<and> mms_open (fold (\<lambda>f. mms_settle f x) fs c) = mms_open c \<and>
    mms_futures (fold (\<lambda>f. mms_settle f x) fs c) = mms_futures c \<and>
    (\<forall>g. mms_done g (fold (\<lambda>f. mms_settle f x) fs c) \<longleftrightarrow> g \<in> set fs \<or> mms_done g c)"
  using assms
proof (induction fs arbitrary: c)
  case (Cons f fs)
  then have "mms_tidy (mms_settle f x c)" by (auto intro: mms_tidy_settle)
  with Cons.IH [of "mms_settle f x c"] Cons.prems show ?case by auto
qed simp

lemma mms_settled_close:
  assumes "mms_settled c" shows "mms_settled (mms_close c)"
  using mms_settle_all [of "c\<lparr>mms_open := False\<rparr>" "mms_futures c" MmsLost] assms
  by (simp add: mms_settled_def mms_close_def)

lemma mms_settled_invoked: "mms_settled c \<Longrightarrow> mms_settled (settle_invoked i x c)"
  by (auto simp: settle_invoked_def mms_settled_def intro: mms_tidy_settle)

lemma mms_settled_put [simp]:
  "mms_settled (mms_put e c) \<longleftrightarrow> mms_settled c" "mms_settled (c\<lparr>mms_close_pdu := p\<rparr>) \<longleftrightarrow> mms_settled c"
  by (simp_all add: mms_settled_def mms_put_def mms_done_def)

lemma mms_settled_begin:
  assumes "begin_confirmed enc req c = (r, c')" "mms_settled c" shows "mms_settled c'"
proof -
  have "mms_settled (c\<lparr>mms_next_invoke_id := Suc (mms_next_invoke_id c)\<rparr>)"
    "mms_settled (c\<lparr>mms_next_invoke_id := Suc (mms_next_invoke_id c), mms_waiting := mms_waiting c @ [(mms_next_invoke_id c, e)]\<rparr>)" for e
    using assms(2) by (auto simp: mms_settled_def mms_tidy_def mms_done_def less_Suc_eq)
  with assms show ?thesis by (auto simp: begin_confirmed_def Let_def split: if_splits sum.splits)
qed

lemma mms_settled_register:
  assumes "register_confirmed conn_open i c = (r, c')" "mms_settled c" shows "mms_settled c'"
proof (cases "map_of (mms_waiting c) i")
  case None
  with assms show ?thesis by (simp add: register_confirmed_def)
next
  case (Some e)
  let ?d = "c\<lparr>mms_waiting := filter (\<lambda>(j, _). j \<noteq> i) (mms_waiting c)\<rparr>"
  from Some have i: "(i, e) \<in> set (mms_waiting c)" by (rule map_of_SomeD)
  have d: "mms_settled ?d" using assms(2) by (auto simp: mms_settled_def mms_tidy_def mms_done_def)
  have "mms_settled ((mms_put e ?d)\<lparr>mms_futures := mms_futures c @ [i]\<rparr>)" if "mms_open c"
  proof -
    have j: "i \<in> fst ` set (mms_waiting c)" using i by force
    then have "i < mms_next_invoke_id c" "i \<notin> set (mms_futures c)" "i \<notin> fst ` set (mms_results c)"
      using assms(2) by (auto simp: mms_settled_def mms_tidy_def)
    with d that show ?thesis by (auto simp: mms_settled_def mms_tidy_def mms_put_def)
  qed
  moreover have "mms_settled (mms_put e ?d)" using d by simp
  ultimately show ?thesis using d assms(1) Some by (auto simp: register_confirmed_def Let_def mms_put_def split: if_splits)
qed

lemma mms_settled_pop: "mms_settled c \<Longrightarrow> mms_settled (mms_pop f c)"
  by (auto simp: mms_settled_def mms_tidy_def mms_pop_def mms_done_def)

lemma one_of_five:
  "(x = a \<Longrightarrow> P) \<Longrightarrow> (x = b \<Longrightarrow> P) \<Longrightarrow> (x = c \<Longrightarrow> P) \<Longrightarrow> (x = d \<Longrightarrow> P) \<Longrightarrow> (x = e \<Longrightarrow> P) \<Longrightarrow>
   (x \<noteq> a \<Longrightarrow> x \<noteq> b \<Longrightarrow> x \<noteq> c \<Longrightarrow> x \<noteq> d \<Longrightarrow> x \<noteq> e \<Longrightarrow> P) \<Longrightarrow> P"
  by blast

lemma mms_dispatch_cases:
  assumes "mms_dispatch enc rcb ucb conn_open name data s c = (s', c')"
  shows "c' = c \<or> c' = mms_close c \<or> (\<exists>p. c' = mms_close (c\<lparr>mms_close_pdu := p\<rparr>)) \<or> (\<exists>e. c' = mms_put e c) \<or>
    (\<exists>i x. c' = settle_invoked i x c)"
proof (rule one_of_five [of name "''unconfirmed-PDU''" _ "''confirmed-RequestPDU''" "''confirmed-ResponsePDU''"
    "''confirmed-ErrorPDU''" "''conclude-RequestPDU''"])
  assume "name = ''unconfirmed-PDU''"
  with assms show ?thesis
    by (cases "mms_process_unconfirmed ucb data s") (auto simp: mms_dispatch_def split: sum.splits)
next
  assume "name = ''confirmed-RequestPDU''"
  with assms show ?thesis
    by (cases "mms_process_request enc rcb data s") (auto simp: mms_dispatch_def split: sum.splits if_splits)
next
  assume "name = ''confirmed-ResponsePDU''"
  with assms show ?thesis
    by (cases "mms_process_response data c") (auto simp: mms_dispatch_def mms_process_response_def)
next
  assume "name = ''confirmed-ErrorPDU''"
  with assms show ?thesis
    by (cases "mms_process_error data c") (auto simp: mms_dispatch_def mms_process_error_def)
qed (use assms in \<open>auto simp: mms_dispatch_def\<close>)

lemma mms_settled_dispatch:
  assumes "mms_dispatch enc rcb ucb conn_open name data s c = (s', c')" "mms_settled c" shows "mms_settled c'"
  using mms_dispatch_cases [OF assms(1)] assms(2)
  by (elim disjE exE) (simp_all add: mms_settled_close mms_settled_invoked)

lemma mms_settled_receive:
  assumes "mms_receive enc dec rcb ucb conn_open m s c = (s', c')" "mms_settled c" shows "mms_settled c'"
proof -
  obtain n e where m: "m = (n, e)" by (cases m)
  show ?thesis
  proof (cases "bindE (dec e) asn1_choice")
    case (Inl x)
    with assms m mms_settled_close show ?thesis by (auto simp: mms_receive_def split: if_splits)
  next
    case (Inr p)
    with assms m mms_settled_dispatch show ?thesis by (cases p) (auto simp: mms_receive_def split: if_splits)
  qed
qed

lemma mms_settled_step:
  assumes "mms_step enc dec rcb ucb (s, c) (s', c')" "mms_settled c" shows "mms_settled c'"
  using assms(1)
proof (cases rule: mms_step.cases)
  case (mms_sends_unconfirmed conn_open unconfirmed r)
  with assms(2) show ?thesis by (auto simp: send_unconfirmed_def split: if_splits sum.splits)
next
  case (mms_begins req r)
  with assms(2) show ?thesis by (blast intro: mms_settled_begin)
next
  case (mms_registers conn_open i r)
  with assms(2) show ?thesis by (blast intro: mms_settled_register)
next
  case (mms_gives_up f)
  with assms(2) show ?thesis by (blast intro: mms_settled_pop)
next
  case (mms_receives conn_open received)
  with assms(2) show ?thesis by (blast intro: mms_settled_receive)
next
  case mms_closes
  with assms(2) show ?thesis by (blast intro: mms_settled_close)
qed

lemma mms_settled_reachable: "mms_reachable enc dec rcb ucb x \<Longrightarrow> mms_settled (snd x)"
proof (induction rule: mms_reachable.induct)
  case (mms_start s)
  show ?case by (simp add: mms_settled_def mms_tidy_def init_mms_def)
next
  case (mms_later x y)
  then show ?case by (metis mms_settled_step prod.collapse)
qed

text \<open>
  C32: However sending, receiving, closing and giving up are interleaved, and whatever arrives, the pending requests of an MMS
  connection have different identifiers that were given out, no request that still waits for a place in the queue is pending or
  done, no future gets two results, and when the connection has closed every pending future is done.
\<close>

theorem mms_requests_settled:
  assumes "mms_reachable asn1_encode asn1_decode request_cb unconfirmed_cb (s, c)"
  shows "distinct (mms_futures c) \<and> distinct (map fst (mms_results c)) \<and>
    (\<forall>f \<in> set (mms_futures c) \<union> fst ` set (mms_waiting c). f < mms_next_invoke_id c) \<and>
    fst ` set (mms_waiting c) \<inter> (set (mms_futures c) \<union> fst ` set (mms_results c)) = {} \<and>
    (mms_open c \<or> (\<forall>f \<in> set (mms_futures c). mms_done f c))"
  using mms_settled_reachable [OF assms] by (auto simp: mms_settled_def mms_tidy_def)

theorem mms_requests_settled_witness:
  "mms_futures (mms_close (snd (register_confirmed True 0 (snd (begin_confirmed Ok (IdentifyRequest :: nat MmsRequest) init_mms))))) = [0] \<and>
   mms_done 0 (mms_close (snd (register_confirmed True 0 (snd (begin_confirmed Ok (IdentifyRequest :: nat MmsRequest) init_mms)))))"
proof -
  let ?c1 = "snd (begin_confirmed Ok (IdentifyRequest :: nat MmsRequest) init_mms)"
  let ?c2 = "snd (register_confirmed True 0 ?c1)"
  let ?R = "mms_reachable Ok Ok (None :: (unit, nat) mms_request_cb) None"
  have "?R ((), ?c1)"
    by (rule mms_later [OF mms_start mms_begins]) (rule surjective_pairing)
  then have "?R ((), ?c2)" by (rule mms_later [OF _ mms_registers]) (rule surjective_pairing)
  then have "?R ((), mms_close ?c2)" using mms_closes by (rule mms_later)
  from mms_requests_settled [OF this]
  have "mms_open (mms_close ?c2) \<or> (\<forall>f \<in> set (mms_futures (mms_close ?c2)). mms_done f (mms_close ?c2))" by (elim conjE)
  moreover have "\<not> mms_open (mms_close ?c2)" "mms_futures (mms_close ?c2) = [0]" by code_simp+
  ultimately show ?thesis by simp
qed

lemma mms_close_open: "\<not> mms_open (mms_close c)"
proof -
  have "mms_open (fold (\<lambda>f. mms_settle f MmsLost) fs d) = mms_open d" for fs and d :: "('a, 'b) MmsConnection"
    by (induction fs arbitrary: d) auto
  then show ?thesis by (simp add: mms_close_def)
qed

section \<open>Transparent calls\<close>

definition response_or_error_ok :: "'oid MmsResponse + MmsError \<Rightarrow> bool" where
  "response_or_error_ok x = (case x of Inl res \<Rightarrow> response_ok res | Inr _ \<Rightarrow> True)"

definition response_outcome :: "'oid MmsResponse + MmsError \<Rightarrow> 'oid MmsOutcome" where
  "response_outcome x = (case x of Inl res \<Rightarrow> MmsAnswer res | Inr e \<Rightarrow> MmsFailure e)"

lemma response_pdu_received:
  assumes codec: "\<And>v e. asn1_encode v = Ok e \<Longrightarrow> asn1_decode e = Ok v"
    and pdu: "bindE (response_pdu (Asn1Int (int f)) x) asn1_encode = Ok e" "response_or_error_ok x"
    and f: "f \<in> set (mms_futures c)"
  shows "mms_receive enc asn1_decode rcb ucb conn_open (mms_syntax_name, e) s c = (s, mms_settle f (response_outcome x) c)"
proof (cases x)
  case (Inl res)
  with pdu obtain service where service: "encode_response res = Ok service"
    "asn1_encode (Asn1Choice ''confirmed-ResponsePDU'' (Asn1Dict [(''invokeID'', Asn1Int (int f)), (''service'', service)])) = Ok e"
    by (auto simp: response_pdu_def)
  have "decode_response service = Ok res"
    using mms_response_roundtrip service(1) pdu(2) Inl by (auto simp: response_or_error_ok_def)
  with codec [OF service(2)] Inl f show ?thesis
    by (simp add: mms_receive_def mms_dispatch_def mms_process_response_def settle_invoked_def response_outcome_def)
next
  case (Inr err)
  with pdu have "asn1_encode (Asn1Choice ''confirmed-ErrorPDU'' (Asn1Dict [(''invokeID'', Asn1Int (int f)),
      (''serviceError'', encode_error err)])) = Ok e"
    by (auto simp: response_pdu_def)
  from codec [OF this] Inr f show ?thesis
    by (simp add: mms_receive_def mms_dispatch_def mms_process_error_def settle_invoked_def response_outcome_def mms_error_roundtrip)
qed

text \<open>
  C31: a confirmed request between two connections is transparent, where the ASN.1 encoder decodes what it encodes and
  the data in the request and in the response are ones that are sent exactly: floats of the single format, binary times in whole
  seconds from 1984 to 2163, UTC times from 1970 to 2106. Once the request is in the queue, the other side passes
  exactly that request to its callback, which does not raise; when the other side
  stays open (its answer could be encoded), the future of the caller gets the response or the error that the callback returned, whatever happened on
  the caller's connection before.
\<close>

theorem mms_call_transparent:
  assumes "\<And>v e. asn1_encode v = Ok e \<Longrightarrow> asn1_decode e = Ok v"
    and "mms_reachable asn1_encode asn1_decode rcb ucb (t, c)" "begin_confirmed asn1_encode req c = (Ok (), c1)"
    and "register_confirmed True (mms_next_invoke_id c) c1 = (Ok (), c2)" "mms_sent c2 = mms_sent c @ [sent]"
    and "request_ok req" "cb s req = (s', Ok x)" "response_or_error_ok x"
    and "mms_receive asn1_encode asn1_decode (Some cb) ucb' True sent s d = (s1, d1)" "mms_open d1" "mms_sent d1 = mms_sent d @ [answer]"
  shows "s1 = s' \<and> mms_receive asn1_encode asn1_decode rcb ucb conn_open answer t c2 =
    (t, c2\<lparr>mms_results := mms_results c @ [(mms_next_invoke_id c, response_outcome x)]\<rparr>)"
proof -
  let ?i = "mms_next_invoke_id c"
  have tidy: "mms_tidy c" using mms_settled_reachable [OF assms(2)] by (simp add: mms_settled_def)
  from assms(3) obtain service e where service: "encode_request req = Ok service"
    and e: "asn1_encode (Asn1Choice ''confirmed-RequestPDU'' (Asn1Dict [(''invokeID'', Asn1Int (int ?i)), (''service'', service)])) = Ok e"
    and c1: "c1 = c\<lparr>mms_next_invoke_id := ?i + 1, mms_waiting := mms_waiting c @ [(?i, e)]\<rparr>"
    by (auto simp: begin_confirmed_def Let_def split: if_splits sum.splits)
  have "?i \<notin> fst ` set (mms_waiting c)" using tidy by (auto simp: mms_tidy_def)
  then have "map_of (mms_waiting c1) ?i = Some e"
    by (simp add: c1 map_add_def split: option.splits) (force dest: map_of_SomeD)
  with assms(4) have c2: "mms_futures c2 = mms_futures c @ [?i]" "mms_results c2 = mms_results c"
    "mms_sent c2 = mms_sent c @ [(mms_syntax_name, e)]"
    by (auto simp: register_confirmed_def Let_def mms_put_def c1 split: if_splits)
  with assms(5) have sent: "sent = (mms_syntax_name, e)" by simp
  have "decode_request service = Ok req" using service assms(6) by (rule mms_request_roundtrip)
  then have p: "mms_process_request asn1_encode (Some cb) (Asn1Dict [(''invokeID'', Asn1Int (int ?i)), (''service'', service)]) s =
      (s', bindE (response_pdu (Asn1Int (int ?i)) x) asn1_encode)"
    using assms(7) by (simp add: mms_process_request_def)
  have r: "(s1, d1) = (case bindE (response_pdu (Asn1Int (int ?i)) x) asn1_encode of
      Inl _ \<Rightarrow> (s', mms_close d) | Inr e \<Rightarrow> (s', mms_put e d))"
    using assms(9) p assms(1) [OF e] by (simp add: sent mms_receive_def mms_dispatch_def split: sum.splits)
  with r assms(10) obtain a where a: "bindE (response_pdu (Asn1Int (int ?i)) x) asn1_encode = Ok a" "s1 = s'" "d1 = mms_put a d"
    by (auto simp: mms_close_open split: sum.splits)
  with assms(11) have answer: "answer = (mms_syntax_name, a)" by (simp add: mms_put_def)
  have "\<not> mms_done ?i c2" using tidy c2(2) by (auto simp: mms_done_def mms_tidy_def)
  then have "mms_settle ?i (response_outcome x) c2 = c2\<lparr>mms_results := mms_results c @ [(?i, response_outcome x)]\<rparr>"
    using c2(2) by (simp add: mms_settle_def)
  moreover have "mms_receive asn1_encode asn1_decode rcb ucb conn_open (mms_syntax_name, a) t c2 = (t, mms_settle ?i (response_outcome x) c2)"
    by (rule response_pdu_received [of asn1_encode asn1_decode]) (use assms(1,8) a(1) c2(1) in auto)
  ultimately show ?thesis using a(2) by (simp add: answer)
qed

theorem mms_call_transparent_witness:
  "mms_results (snd (mms_receive Ok Ok (None :: (unit, nat) mms_request_cb) None True
      (mms_syntax_name, Asn1Choice ''confirmed-ResponsePDU'' (Asn1Dict [(''invokeID'', Asn1Int 0), (''service'',
         Asn1Choice ''identify'' (Asn1Dict [(''vendorName'', Asn1Str [86]), (''modelName'', Asn1Str [77]), (''revision'', Asn1Str [49])]))])) ()
      (snd (register_confirmed True 0 (snd (begin_confirmed Ok IdentifyRequest init_mms)))))) =
    [(0, MmsAnswer (IdentifyResponse [86] [77] [49] None))]"
proof -
  let ?c1 = "snd (begin_confirmed Ok (IdentifyRequest :: nat MmsRequest) init_mms)"
  let ?c2 = "snd (register_confirmed True 0 ?c1)"
  let ?x = "IdentifyResponse [86] [77] [49] None :: nat MmsResponse"
  let ?cb = "\<lambda>(s :: unit) (_ :: nat MmsRequest). (s, Ok (Inl ?x) :: (nat MmsResponse + MmsError) result)"
  let ?sent = "(mms_syntax_name, Asn1Choice ''confirmed-RequestPDU'' (Asn1Dict [(''invokeID'', Asn1Int 0), (''service'',
    Asn1Choice ''identify'' Asn1None)])) :: int list \<times> nat Asn1"
  let ?answer = "(mms_syntax_name, Asn1Choice ''confirmed-ResponsePDU'' (Asn1Dict [(''invokeID'', Asn1Int 0), (''service'',
    Asn1Choice ''identify'' (Asn1Dict [(''vendorName'', Asn1Str [86]), (''modelName'', Asn1Str [77]), (''revision'', Asn1Str [49])]))]))
      :: int list \<times> nat Asn1"
  let ?d = "mms_put (snd ?answer) init_mms"
  have b: "begin_confirmed Ok (IdentifyRequest :: nat MmsRequest) init_mms = (Ok (), ?c1)" by code_simp
  have r: "register_confirmed True (mms_next_invoke_id (init_mms :: (nat, nat Asn1) MmsConnection)) ?c1 = (Ok (), ?c2)" by code_simp
  have m: "mms_sent ?c2 = mms_sent init_mms @ [?sent]" by code_simp
  have v: "mms_receive Ok Ok (Some ?cb) None True ?sent () init_mms = ((), ?d)" by code_simp
  have o: "mms_open ?d" "mms_sent ?d = mms_sent init_mms @ [?answer]" by code_simp+
  have "mms_receive Ok Ok (None :: (unit, nat) mms_request_cb) None True ?answer () ?c2 =
      ((), ?c2\<lparr>mms_results := mms_results (init_mms :: (nat, nat Asn1) MmsConnection) @
        [(mms_next_invoke_id (init_mms :: (nat, nat Asn1) MmsConnection), response_outcome (Inl ?x))]\<rparr>)"
    by (rule mms_call_transparent [OF _ mms_start b r m _ _ _ v o, where x = "Inl ?x", THEN conjunct2])
      (simp_all add: response_or_error_ok_def)
  then show ?thesis by (simp add: init_mms_def response_outcome_def)
qed

end
