(* ===== verification/Iec61850_Common.thy ===== *)
theory Iec61850_Common
  imports Mms_Common
begin

text \<open>
  Data of the IEC 61850 driver: \<^verbatim>\<open>iec61850/common.py\<close>. A value of a structure is a dictionary, the list of its items.
  A timestamp has the fields of the UTC time of MMS.
\<close>

section \<open>References\<close>

datatype DatasetRef = PersistedDatasetRef pystr pystr pystr | NonPersistedDatasetRef pystr

datatype RefName = StrName pystr | IndexName int

record DataRef =
  ref_logical_device :: pystr
  ref_logical_node :: pystr
  ref_fc :: pystr
  ref_names :: "RefName list"

section \<open>Enumerations\<close>

datatype (plugins only: code size) QualityValidity =
    QualityValidity_GOOD | QualityValidity_INVALID | QualityValidity_RESERVED |
    QualityValidity_QUESTIONABLE

fun QualityValidity_value :: "QualityValidity \<Rightarrow> int" where
  "QualityValidity_value QualityValidity_GOOD = 0"
| "QualityValidity_value QualityValidity_INVALID = 1"
| "QualityValidity_value QualityValidity_RESERVED = 2"
| "QualityValidity_value QualityValidity_QUESTIONABLE = 3"

definition QualityValidity_members :: "QualityValidity list" where
  "QualityValidity_members =
     [QualityValidity_GOOD, QualityValidity_INVALID, QualityValidity_RESERVED,
      QualityValidity_QUESTIONABLE]"

definition QualityValidity_of :: "int \<Rightarrow> QualityValidity result" where
  "QualityValidity_of = enum_lookup QualityValidity_value QualityValidity_members"

interpretation QualityValidity: enumeration QualityValidity_value QualityValidity_members
proof unfold_locales
  show "x \<in> set QualityValidity_members" for x by (cases x) (simp_all add: QualityValidity_members_def)
  show "distinct (map QualityValidity_value QualityValidity_members)" by (simp add: QualityValidity_members_def)
qed

lemma QualityValidity_of_value [simp]: "QualityValidity_of (QualityValidity_value x) = Ok x"
  by (simp add: QualityValidity_of_def QualityValidity.of_value)

datatype (plugins only: code size) QualityDetail =
    QualityDetail_OVERFLOW | QualityDetail_OUT_OF_RANGE | QualityDetail_BAD_REFERENCE |
    QualityDetail_OSCILLATORY | QualityDetail_FAILURE | QualityDetail_OLD_DATA |
    QualityDetail_INCONSISTENT | QualityDetail_INACCURATE

fun QualityDetail_value :: "QualityDetail \<Rightarrow> int" where
  "QualityDetail_value QualityDetail_OVERFLOW = 2"
| "QualityDetail_value QualityDetail_OUT_OF_RANGE = 3"
| "QualityDetail_value QualityDetail_BAD_REFERENCE = 4"
| "QualityDetail_value QualityDetail_OSCILLATORY = 5"
| "QualityDetail_value QualityDetail_FAILURE = 6"
| "QualityDetail_value QualityDetail_OLD_DATA = 7"
| "QualityDetail_value QualityDetail_INCONSISTENT = 8"
| "QualityDetail_value QualityDetail_INACCURATE = 9"

definition QualityDetail_members :: "QualityDetail list" where
  "QualityDetail_members =
     [QualityDetail_OVERFLOW, QualityDetail_OUT_OF_RANGE, QualityDetail_BAD_REFERENCE,
      QualityDetail_OSCILLATORY, QualityDetail_FAILURE, QualityDetail_OLD_DATA,
      QualityDetail_INCONSISTENT, QualityDetail_INACCURATE]"

definition QualityDetail_of :: "int \<Rightarrow> QualityDetail result" where
  "QualityDetail_of = enum_lookup QualityDetail_value QualityDetail_members"

interpretation QualityDetail: enumeration QualityDetail_value QualityDetail_members
proof unfold_locales
  show "x \<in> set QualityDetail_members" for x by (cases x) (simp_all add: QualityDetail_members_def)
  show "distinct (map QualityDetail_value QualityDetail_members)" by (simp add: QualityDetail_members_def)
qed

lemma QualityDetail_of_value [simp]: "QualityDetail_of (QualityDetail_value x) = Ok x"
  by (simp add: QualityDetail_of_def QualityDetail.of_value)

datatype (plugins only: code size) QualitySource =
    QualitySource_PROCESS | QualitySource_SUBSTITUTED

fun QualitySource_value :: "QualitySource \<Rightarrow> int" where
  "QualitySource_value QualitySource_PROCESS = 0"
| "QualitySource_value QualitySource_SUBSTITUTED = 1"

definition QualitySource_members :: "QualitySource list" where
  "QualitySource_members =
     [QualitySource_PROCESS, QualitySource_SUBSTITUTED]"

definition QualitySource_of :: "int \<Rightarrow> QualitySource result" where
  "QualitySource_of = enum_lookup QualitySource_value QualitySource_members"

interpretation QualitySource: enumeration QualitySource_value QualitySource_members
proof unfold_locales
  show "x \<in> set QualitySource_members" for x by (cases x) (simp_all add: QualitySource_members_def)
  show "distinct (map QualitySource_value QualitySource_members)" by (simp add: QualitySource_members_def)
qed

lemma QualitySource_of_value [simp]: "QualitySource_of (QualitySource_value x) = Ok x"
  by (simp add: QualitySource_of_def QualitySource.of_value)

datatype (plugins only: code size) DoublePoint =
    DoublePoint_INTERMEDIATE | DoublePoint_OFF | DoublePoint_ON | DoublePoint_BAD

fun DoublePoint_value :: "DoublePoint \<Rightarrow> int" where
  "DoublePoint_value DoublePoint_INTERMEDIATE = 0"
| "DoublePoint_value DoublePoint_OFF = 1"
| "DoublePoint_value DoublePoint_ON = 2"
| "DoublePoint_value DoublePoint_BAD = 3"

definition DoublePoint_members :: "DoublePoint list" where
  "DoublePoint_members =
     [DoublePoint_INTERMEDIATE, DoublePoint_OFF, DoublePoint_ON, DoublePoint_BAD]"

definition DoublePoint_of :: "int \<Rightarrow> DoublePoint result" where
  "DoublePoint_of = enum_lookup DoublePoint_value DoublePoint_members"

interpretation DoublePoint: enumeration DoublePoint_value DoublePoint_members
proof unfold_locales
  show "x \<in> set DoublePoint_members" for x by (cases x) (simp_all add: DoublePoint_members_def)
  show "distinct (map DoublePoint_value DoublePoint_members)" by (simp add: DoublePoint_members_def)
qed

lemma DoublePoint_of_value [simp]: "DoublePoint_of (DoublePoint_value x) = Ok x"
  by (simp add: DoublePoint_of_def DoublePoint.of_value)

datatype (plugins only: code size) AcsiDirection =
    AcsiDirection_UNKNOWN | AcsiDirection_FORWARD | AcsiDirection_BACKWARD | AcsiDirection_BOTH

fun AcsiDirection_value :: "AcsiDirection \<Rightarrow> int" where
  "AcsiDirection_value AcsiDirection_UNKNOWN = 0"
| "AcsiDirection_value AcsiDirection_FORWARD = 1"
| "AcsiDirection_value AcsiDirection_BACKWARD = 2"
| "AcsiDirection_value AcsiDirection_BOTH = 3"

definition AcsiDirection_members :: "AcsiDirection list" where
  "AcsiDirection_members =
     [AcsiDirection_UNKNOWN, AcsiDirection_FORWARD, AcsiDirection_BACKWARD, AcsiDirection_BOTH]"

definition AcsiDirection_of :: "int \<Rightarrow> AcsiDirection result" where
  "AcsiDirection_of = enum_lookup AcsiDirection_value AcsiDirection_members"

interpretation AcsiDirection: enumeration AcsiDirection_value AcsiDirection_members
proof unfold_locales
  show "x \<in> set AcsiDirection_members" for x by (cases x) (simp_all add: AcsiDirection_members_def)
  show "distinct (map AcsiDirection_value AcsiDirection_members)" by (simp add: AcsiDirection_members_def)
qed

lemma AcsiDirection_of_value [simp]: "AcsiDirection_of (AcsiDirection_value x) = Ok x"
  by (simp add: AcsiDirection_of_def AcsiDirection.of_value)

datatype (plugins only: code size) AcsiSeverity =
    AcsiSeverity_UNKNOWN | AcsiSeverity_CRITICAL | AcsiSeverity_MAJOR | AcsiSeverity_MINOR |
    AcsiSeverity_WARNING

fun AcsiSeverity_value :: "AcsiSeverity \<Rightarrow> int" where
  "AcsiSeverity_value AcsiSeverity_UNKNOWN = 0"
| "AcsiSeverity_value AcsiSeverity_CRITICAL = 1"
| "AcsiSeverity_value AcsiSeverity_MAJOR = 2"
| "AcsiSeverity_value AcsiSeverity_MINOR = 3"
| "AcsiSeverity_value AcsiSeverity_WARNING = 4"

definition AcsiSeverity_members :: "AcsiSeverity list" where
  "AcsiSeverity_members =
     [AcsiSeverity_UNKNOWN, AcsiSeverity_CRITICAL, AcsiSeverity_MAJOR, AcsiSeverity_MINOR,
      AcsiSeverity_WARNING]"

definition AcsiSeverity_of :: "int \<Rightarrow> AcsiSeverity result" where
  "AcsiSeverity_of = enum_lookup AcsiSeverity_value AcsiSeverity_members"

interpretation AcsiSeverity: enumeration AcsiSeverity_value AcsiSeverity_members
proof unfold_locales
  show "x \<in> set AcsiSeverity_members" for x by (cases x) (simp_all add: AcsiSeverity_members_def)
  show "distinct (map AcsiSeverity_value AcsiSeverity_members)" by (simp add: AcsiSeverity_members_def)
qed

lemma AcsiSeverity_of_value [simp]: "AcsiSeverity_of (AcsiSeverity_value x) = Ok x"
  by (simp add: AcsiSeverity_of_def AcsiSeverity.of_value)

datatype (plugins only: code size) BinaryControl =
    BinaryControl_STOP | BinaryControl_LOWER | BinaryControl_HIGHER | BinaryControl_RESERVED

fun BinaryControl_value :: "BinaryControl \<Rightarrow> int" where
  "BinaryControl_value BinaryControl_STOP = 0"
| "BinaryControl_value BinaryControl_LOWER = 1"
| "BinaryControl_value BinaryControl_HIGHER = 2"
| "BinaryControl_value BinaryControl_RESERVED = 3"

definition BinaryControl_members :: "BinaryControl list" where
  "BinaryControl_members =
     [BinaryControl_STOP, BinaryControl_LOWER, BinaryControl_HIGHER, BinaryControl_RESERVED]"

definition BinaryControl_of :: "int \<Rightarrow> BinaryControl result" where
  "BinaryControl_of = enum_lookup BinaryControl_value BinaryControl_members"

interpretation BinaryControl: enumeration BinaryControl_value BinaryControl_members
proof unfold_locales
  show "x \<in> set BinaryControl_members" for x by (cases x) (simp_all add: BinaryControl_members_def)
  show "distinct (map BinaryControl_value BinaryControl_members)" by (simp add: BinaryControl_members_def)
qed

lemma BinaryControl_of_value [simp]: "BinaryControl_of (BinaryControl_value x) = Ok x"
  by (simp add: BinaryControl_of_def BinaryControl.of_value)

datatype (plugins only: code size) AdditionalCause =
    AdditionalCause_UNKNOWN | AdditionalCause_NOT_SUPPORTED |
    AdditionalCause_BLOCKED_BY_SWITCHING_HIERARCHY | AdditionalCause_SELECT_FAILED |
    AdditionalCause_INVALID_POSITION | AdditionalCause_POSITION_REACHED |
    AdditionalCause_PARAMETER_CHANGE_IN_EXECUTION | AdditionalCause_STEP_LIMIT |
    AdditionalCause_BLOCKED_BY_MODE | AdditionalCause_BLOCKED_BY_PROCESS |
    AdditionalCause_BLOCKED_BY_INTERLOCKING | AdditionalCause_BLOCKED_BY_SYNCHROCHECK |
    AdditionalCause_COMMAND_ALREADY_IN_EXECUTION | AdditionalCause_BLOCKED_BY_HEALTH |
    AdditionalCause_ONE_OF_N_CONTROL | AdditionalCause_ABORTION_BY_CANCEL |
    AdditionalCause_TIME_LIMIT_OVER | AdditionalCause_ABORTION_BY_TRIP |
    AdditionalCause_OBJECT_NOT_SELECTED | AdditionalCause_OBJECT_ALREADY_SELECTED |
    AdditionalCause_NO_ACCESS_AUTHORITY | AdditionalCause_ENDED_WITH_OVERSHOOT |
    AdditionalCause_ABORTION_DUE_TO_DEVIATION | AdditionalCause_ABORTION_BY_COMMUNICATION_LOSS |
    AdditionalCause_BLOCKED_BY_COMMAND | AdditionalCause_NONE |
    AdditionalCause_INCONSISTENT_PARAMETERS | AdditionalCause_LOCKED_BY_OTHER_CLIENT

fun AdditionalCause_value :: "AdditionalCause \<Rightarrow> int" where
  "AdditionalCause_value AdditionalCause_UNKNOWN = 0"
| "AdditionalCause_value AdditionalCause_NOT_SUPPORTED = 1"
| "AdditionalCause_value AdditionalCause_BLOCKED_BY_SWITCHING_HIERARCHY = 2"
| "AdditionalCause_value AdditionalCause_SELECT_FAILED = 3"
| "AdditionalCause_value AdditionalCause_INVALID_POSITION = 4"
| "AdditionalCause_value AdditionalCause_POSITION_REACHED = 5"
| "AdditionalCause_value AdditionalCause_PARAMETER_CHANGE_IN_EXECUTION = 6"
| "AdditionalCause_value AdditionalCause_STEP_LIMIT = 7"
| "AdditionalCause_value AdditionalCause_BLOCKED_BY_MODE = 8"
| "AdditionalCause_value AdditionalCause_BLOCKED_BY_PROCESS = 9"
| "AdditionalCause_value AdditionalCause_BLOCKED_BY_INTERLOCKING = 10"
| "AdditionalCause_value AdditionalCause_BLOCKED_BY_SYNCHROCHECK = 11"
| "AdditionalCause_value AdditionalCause_COMMAND_ALREADY_IN_EXECUTION = 12"
| "AdditionalCause_value AdditionalCause_BLOCKED_BY_HEALTH = 13"
| "AdditionalCause_value AdditionalCause_ONE_OF_N_CONTROL = 14"
| "AdditionalCause_value AdditionalCause_ABORTION_BY_CANCEL = 15"
| "AdditionalCause_value AdditionalCause_TIME_LIMIT_OVER = 16"
| "AdditionalCause_value AdditionalCause_ABORTION_BY_TRIP = 17"
| "AdditionalCause_value AdditionalCause_OBJECT_NOT_SELECTED = 18"
| "AdditionalCause_value AdditionalCause_OBJECT_ALREADY_SELECTED = 19"
| "AdditionalCause_value AdditionalCause_NO_ACCESS_AUTHORITY = 20"
| "AdditionalCause_value AdditionalCause_ENDED_WITH_OVERSHOOT = 21"
| "AdditionalCause_value AdditionalCause_ABORTION_DUE_TO_DEVIATION = 22"
| "AdditionalCause_value AdditionalCause_ABORTION_BY_COMMUNICATION_LOSS = 23"
| "AdditionalCause_value AdditionalCause_BLOCKED_BY_COMMAND = 24"
| "AdditionalCause_value AdditionalCause_NONE = 25"
| "AdditionalCause_value AdditionalCause_INCONSISTENT_PARAMETERS = 26"
| "AdditionalCause_value AdditionalCause_LOCKED_BY_OTHER_CLIENT = 27"

definition AdditionalCause_members :: "AdditionalCause list" where
  "AdditionalCause_members =
     [AdditionalCause_UNKNOWN, AdditionalCause_NOT_SUPPORTED,
      AdditionalCause_BLOCKED_BY_SWITCHING_HIERARCHY, AdditionalCause_SELECT_FAILED,
      AdditionalCause_INVALID_POSITION, AdditionalCause_POSITION_REACHED,
      AdditionalCause_PARAMETER_CHANGE_IN_EXECUTION, AdditionalCause_STEP_LIMIT,
      AdditionalCause_BLOCKED_BY_MODE, AdditionalCause_BLOCKED_BY_PROCESS,
      AdditionalCause_BLOCKED_BY_INTERLOCKING, AdditionalCause_BLOCKED_BY_SYNCHROCHECK,
      AdditionalCause_COMMAND_ALREADY_IN_EXECUTION, AdditionalCause_BLOCKED_BY_HEALTH,
      AdditionalCause_ONE_OF_N_CONTROL, AdditionalCause_ABORTION_BY_CANCEL,
      AdditionalCause_TIME_LIMIT_OVER, AdditionalCause_ABORTION_BY_TRIP,
      AdditionalCause_OBJECT_NOT_SELECTED, AdditionalCause_OBJECT_ALREADY_SELECTED,
      AdditionalCause_NO_ACCESS_AUTHORITY, AdditionalCause_ENDED_WITH_OVERSHOOT,
      AdditionalCause_ABORTION_DUE_TO_DEVIATION, AdditionalCause_ABORTION_BY_COMMUNICATION_LOSS,
      AdditionalCause_BLOCKED_BY_COMMAND, AdditionalCause_NONE, AdditionalCause_INCONSISTENT_PARAMETERS,
      AdditionalCause_LOCKED_BY_OTHER_CLIENT]"

definition AdditionalCause_of :: "int \<Rightarrow> AdditionalCause result" where
  "AdditionalCause_of = enum_lookup AdditionalCause_value AdditionalCause_members"

interpretation AdditionalCause: enumeration AdditionalCause_value AdditionalCause_members
proof unfold_locales
  show "x \<in> set AdditionalCause_members" for x by (cases x) (simp_all add: AdditionalCause_members_def)
  show "distinct (map AdditionalCause_value AdditionalCause_members)" by (simp add: AdditionalCause_members_def)
qed

lemma AdditionalCause_of_value [simp]: "AdditionalCause_of (AdditionalCause_value x) = Ok x"
  by (simp add: AdditionalCause_of_def AdditionalCause.of_value)

datatype (plugins only: code size) TestError =
    TestError_NO_ERROR | TestError_UNKNOWN | TestError_TIMEOUT_TEST_NOT_OK |
    TestError_OPERATOR_TEST_NOT_OK

fun TestError_value :: "TestError \<Rightarrow> int" where
  "TestError_value TestError_NO_ERROR = 0"
| "TestError_value TestError_UNKNOWN = 1"
| "TestError_value TestError_TIMEOUT_TEST_NOT_OK = 2"
| "TestError_value TestError_OPERATOR_TEST_NOT_OK = 3"

definition TestError_members :: "TestError list" where
  "TestError_members =
     [TestError_NO_ERROR, TestError_UNKNOWN, TestError_TIMEOUT_TEST_NOT_OK, TestError_OPERATOR_TEST_NOT_OK]"

definition TestError_of :: "int \<Rightarrow> TestError result" where
  "TestError_of = enum_lookup TestError_value TestError_members"

interpretation TestError: enumeration TestError_value TestError_members
proof unfold_locales
  show "x \<in> set TestError_members" for x by (cases x) (simp_all add: TestError_members_def)
  show "distinct (map TestError_value TestError_members)" by (simp add: TestError_members_def)
qed

lemma TestError_of_value [simp]: "TestError_of (TestError_value x) = Ok x"
  by (simp add: TestError_of_def TestError.of_value)

datatype (plugins only: code size) OptionalField =
    OptionalField_SEQUENCE_NUMBER | OptionalField_REPORT_TIME_STAMP |
    OptionalField_REASON_FOR_INCLUSION | OptionalField_DATA_SET_NAME | OptionalField_DATA_REFERENCE |
    OptionalField_BUFFER_OVERFLOW | OptionalField_ENTRY_ID | OptionalField_CONF_REVISION

fun OptionalField_value :: "OptionalField \<Rightarrow> int" where
  "OptionalField_value OptionalField_SEQUENCE_NUMBER = 1"
| "OptionalField_value OptionalField_REPORT_TIME_STAMP = 2"
| "OptionalField_value OptionalField_REASON_FOR_INCLUSION = 3"
| "OptionalField_value OptionalField_DATA_SET_NAME = 4"
| "OptionalField_value OptionalField_DATA_REFERENCE = 5"
| "OptionalField_value OptionalField_BUFFER_OVERFLOW = 6"
| "OptionalField_value OptionalField_ENTRY_ID = 7"
| "OptionalField_value OptionalField_CONF_REVISION = 8"

definition OptionalField_members :: "OptionalField list" where
  "OptionalField_members =
     [OptionalField_SEQUENCE_NUMBER, OptionalField_REPORT_TIME_STAMP, OptionalField_REASON_FOR_INCLUSION,
      OptionalField_DATA_SET_NAME, OptionalField_DATA_REFERENCE, OptionalField_BUFFER_OVERFLOW,
      OptionalField_ENTRY_ID, OptionalField_CONF_REVISION]"

definition OptionalField_of :: "int \<Rightarrow> OptionalField result" where
  "OptionalField_of = enum_lookup OptionalField_value OptionalField_members"

interpretation OptionalField: enumeration OptionalField_value OptionalField_members
proof unfold_locales
  show "x \<in> set OptionalField_members" for x by (cases x) (simp_all add: OptionalField_members_def)
  show "distinct (map OptionalField_value OptionalField_members)" by (simp add: OptionalField_members_def)
qed

lemma OptionalField_of_value [simp]: "OptionalField_of (OptionalField_value x) = Ok x"
  by (simp add: OptionalField_of_def OptionalField.of_value)

datatype (plugins only: code size) TriggerCondition =
    TriggerCondition_DATA_CHANGE | TriggerCondition_QUALITY_CHANGE | TriggerCondition_DATA_UPDATE |
    TriggerCondition_INTEGRITY | TriggerCondition_GENERAL_INTERROGATION

fun TriggerCondition_value :: "TriggerCondition \<Rightarrow> int" where
  "TriggerCondition_value TriggerCondition_DATA_CHANGE = 1"
| "TriggerCondition_value TriggerCondition_QUALITY_CHANGE = 2"
| "TriggerCondition_value TriggerCondition_DATA_UPDATE = 3"
| "TriggerCondition_value TriggerCondition_INTEGRITY = 4"
| "TriggerCondition_value TriggerCondition_GENERAL_INTERROGATION = 5"

definition TriggerCondition_members :: "TriggerCondition list" where
  "TriggerCondition_members =
     [TriggerCondition_DATA_CHANGE, TriggerCondition_QUALITY_CHANGE, TriggerCondition_DATA_UPDATE,
      TriggerCondition_INTEGRITY, TriggerCondition_GENERAL_INTERROGATION]"

definition TriggerCondition_of :: "int \<Rightarrow> TriggerCondition result" where
  "TriggerCondition_of = enum_lookup TriggerCondition_value TriggerCondition_members"

interpretation TriggerCondition: enumeration TriggerCondition_value TriggerCondition_members
proof unfold_locales
  show "x \<in> set TriggerCondition_members" for x by (cases x) (simp_all add: TriggerCondition_members_def)
  show "distinct (map TriggerCondition_value TriggerCondition_members)" by (simp add: TriggerCondition_members_def)
qed

lemma TriggerCondition_of_value [simp]: "TriggerCondition_of (TriggerCondition_value x) = Ok x"
  by (simp add: TriggerCondition_of_def TriggerCondition.of_value)

datatype (plugins only: code size) ReportReason =
    ReportReason_DATA_CHANGE | ReportReason_QUALITY_CHANGE | ReportReason_DATA_UPDATE |
    ReportReason_INTEGRITY | ReportReason_GENERAL_INTERROGATION | ReportReason_APPLICATION_TRIGGER

fun ReportReason_value :: "ReportReason \<Rightarrow> int" where
  "ReportReason_value ReportReason_DATA_CHANGE = 1"
| "ReportReason_value ReportReason_QUALITY_CHANGE = 2"
| "ReportReason_value ReportReason_DATA_UPDATE = 3"
| "ReportReason_value ReportReason_INTEGRITY = 4"
| "ReportReason_value ReportReason_GENERAL_INTERROGATION = 5"
| "ReportReason_value ReportReason_APPLICATION_TRIGGER = 6"

definition ReportReason_members :: "ReportReason list" where
  "ReportReason_members =
     [ReportReason_DATA_CHANGE, ReportReason_QUALITY_CHANGE, ReportReason_DATA_UPDATE,
      ReportReason_INTEGRITY, ReportReason_GENERAL_INTERROGATION, ReportReason_APPLICATION_TRIGGER]"

definition ReportReason_of :: "int \<Rightarrow> ReportReason result" where
  "ReportReason_of = enum_lookup ReportReason_value ReportReason_members"

interpretation ReportReason: enumeration ReportReason_value ReportReason_members
proof unfold_locales
  show "x \<in> set ReportReason_members" for x by (cases x) (simp_all add: ReportReason_members_def)
  show "distinct (map ReportReason_value ReportReason_members)" by (simp add: ReportReason_members_def)
qed

lemma ReportReason_of_value [simp]: "ReportReason_of (ReportReason_value x) = Ok x"
  by (simp add: ReportReason_of_def ReportReason.of_value)

datatype (plugins only: code size) OriginCategory =
    OriginCategory_NOT_SUPPORTED | OriginCategory_BAY_CONTROL | OriginCategory_STATION_CONTROL |
    OriginCategory_REMOTE_CONTROL | OriginCategory_AUTOMATIC_BAY | OriginCategory_AUTOMATIC_STATION |
    OriginCategory_AUTOMATIC_REMOTE | OriginCategory_MAINTENANCE | OriginCategory_PROCESS

fun OriginCategory_value :: "OriginCategory \<Rightarrow> int" where
  "OriginCategory_value OriginCategory_NOT_SUPPORTED = 0"
| "OriginCategory_value OriginCategory_BAY_CONTROL = 1"
| "OriginCategory_value OriginCategory_STATION_CONTROL = 2"
| "OriginCategory_value OriginCategory_REMOTE_CONTROL = 3"
| "OriginCategory_value OriginCategory_AUTOMATIC_BAY = 4"
| "OriginCategory_value OriginCategory_AUTOMATIC_STATION = 5"
| "OriginCategory_value OriginCategory_AUTOMATIC_REMOTE = 6"
| "OriginCategory_value OriginCategory_MAINTENANCE = 7"
| "OriginCategory_value OriginCategory_PROCESS = 8"

definition OriginCategory_members :: "OriginCategory list" where
  "OriginCategory_members =
     [OriginCategory_NOT_SUPPORTED, OriginCategory_BAY_CONTROL, OriginCategory_STATION_CONTROL,
      OriginCategory_REMOTE_CONTROL, OriginCategory_AUTOMATIC_BAY, OriginCategory_AUTOMATIC_STATION,
      OriginCategory_AUTOMATIC_REMOTE, OriginCategory_MAINTENANCE, OriginCategory_PROCESS]"

definition OriginCategory_of :: "int \<Rightarrow> OriginCategory result" where
  "OriginCategory_of = enum_lookup OriginCategory_value OriginCategory_members"

interpretation OriginCategory: enumeration OriginCategory_value OriginCategory_members
proof unfold_locales
  show "x \<in> set OriginCategory_members" for x by (cases x) (simp_all add: OriginCategory_members_def)
  show "distinct (map OriginCategory_value OriginCategory_members)" by (simp add: OriginCategory_members_def)
qed

lemma OriginCategory_of_value [simp]: "OriginCategory_of (OriginCategory_value x) = Ok x"
  by (simp add: OriginCategory_of_def OriginCategory.of_value)

datatype (plugins only: code size) Check =
    Check_SYNCHRO | Check_INTERLOCK

fun Check_value :: "Check \<Rightarrow> int" where
  "Check_value Check_SYNCHRO = 0"
| "Check_value Check_INTERLOCK = 1"

definition Check_members :: "Check list" where
  "Check_members =
     [Check_SYNCHRO, Check_INTERLOCK]"

definition Check_of :: "int \<Rightarrow> Check result" where
  "Check_of = enum_lookup Check_value Check_members"

interpretation Check: enumeration Check_value Check_members
proof unfold_locales
  show "x \<in> set Check_members" for x by (cases x) (simp_all add: Check_members_def)
  show "distinct (map Check_value Check_members)" by (simp add: Check_members_def)
qed

lemma Check_of_value [simp]: "Check_of (Check_value x) = Ok x"
  by (simp add: Check_of_def Check.of_value)

text \<open>Enumerations whose values are names.\<close>

datatype BasicValueType =
    BASIC_BOOLEAN | BASIC_INTEGER | BASIC_UNSIGNED | BASIC_FLOAT | BASIC_BIT_STRING | BASIC_OCTET_STRING | BASIC_VISIBLE_STRING
  | BASIC_MMS_STRING

datatype AcsiValueType =
    ACSI_QUALITY | ACSI_TIMESTAMP | ACSI_DOUBLE_POINT | ACSI_DIRECTION | ACSI_SEVERITY | ACSI_ANALOGUE | ACSI_VECTOR
  | ACSI_STEP_POSITION | ACSI_BINARY_CONTROL

datatype RcbAttrType =
    RCB_REPORT_ID | RCB_REPORT_ENABLE | RCB_DATASET | RCB_CONF_REVISION | RCB_OPTIONAL_FIELDS | RCB_BUFFER_TIME
  | RCB_SEQUENCE_NUMBER | RCB_TRIGGER_OPTIONS | RCB_INTEGRITY_PERIOD | RCB_GI | RCB_PURGE_BUFFER | RCB_ENTRY_ID
  | RCB_TIME_OF_ENTRY | RCB_RESERVATION_TIME | RCB_RESERVE

section \<open>Values and their types\<close>

datatype AcsiType =
    BasicType BasicValueType | AcsiType AcsiValueType | ArrayType AcsiType int | StructType "(pystr \<times> AcsiType) list"

type_synonym Timestamp = UtcTime

record AcsiQuality =
  quality_validity :: QualityValidity
  quality_details :: "QualityDetail set"
  quality_source :: QualitySource
  quality_test :: bool
  quality_operator_blocked :: bool

record Analogue =
  analogue_i :: "int option"
  analogue_f :: "pyfloat option"

record AcsiVector =
  vector_magnitude :: Analogue
  vector_angle :: "Analogue option"

record AcsiStepPosition =
  step_value :: int
  step_transient :: "bool option"

text \<open>A collection of truth values that is a bit string is a \<open>BitsValue\<close>.\<close>

datatype AcsiValue =
    BoolValue bool | IntValue int | FloatValue pyfloat | StrValue pystr | BytesValue bytes | BitsValue "bool list"
  | QualityValue AcsiQuality | TimestampValue Timestamp | DoublePointValue DoublePoint | DirectionValue AcsiDirection
  | SeverityValue AcsiSeverity | AnalogueValue Analogue | VectorValue AcsiVector | StepPositionValue AcsiStepPosition
  | BinaryControlValue BinaryControl | ArrayValue "AcsiValue list" | StructValue "(pystr \<times> AcsiValue) list"

section \<open>Control blocks, reports, commands\<close>

datatype RcbAttrValue =
    PlainAttr AcsiValue | DatasetAttr "DatasetRef option" | OptionalFieldsAttr "OptionalField set"
  | TriggerOptionsAttr "TriggerCondition set" | EntryTimeAttr int

record ReportData =
  data_ref :: DataRef
  data_value :: AcsiValue
  data_reasons :: "ReportReason set option"

record AcsiReport =
  report_id :: pystr
  report_sequence_number :: "int option"
  report_subsequence_number :: "int option"
  report_more_segments_follow :: "bool option"
  report_dataset :: "DatasetRef option"
  report_buffer_overflow :: "bool option"
  report_conf_revision :: "int option"
  report_entry_time :: "int option"
  report_entry_id :: "bytes option"
  report_data :: "ReportData list"

record AcsiOrigin =
  origin_category :: OriginCategory
  origin_identification :: bytes

record AcsiCommand =
  command_value :: AcsiValue
  command_operate_time :: "Timestamp option"
  command_origin :: AcsiOrigin
  command_control_number :: int
  command_t :: Timestamp
  command_test :: bool
  command_checks :: "Check set"

text \<open>Of \<^verbatim>\<open>iec61850/encoder.py\<close>.\<close>

record LastApplError =
  last_name :: pystr
  last_error :: TestError
  last_origin :: AcsiOrigin
  last_control_number :: int
  last_additional_cause :: AdditionalCause

record DataDef =
  def_ref :: DataRef
  def_value_type :: AcsiType

end
