(* ===== verification/Iec61850_Refs.thy ===== *)
theory Iec61850_Refs
  imports Iec61850_Common Py_Text
begin

text \<open>
  References of \<^verbatim>\<open>iec61850/encoder.py\<close>: data sets and data as MMS object names and as text. Their parts are separated by
  dollar signs, array indexes are in parentheses behind a name. Characters are given by their numbers.
\<close>

section \<open>Data sets\<close>

abbreviation dollar :: int where "dollar \<equiv> 0x24"
abbreviation slash :: int where "slash \<equiv> 0x2F"
abbreviation at_sign :: int where "at_sign \<equiv> 0x40"
abbreviation lparen :: int where "lparen \<equiv> 0x28"
abbreviation rparen :: int where "rparen \<equiv> 0x29"

text \<open>\<open>a, b = xs\<close>\<close>

definition unpack_two :: "'a list \<Rightarrow> ('a \<times> 'a) result" where
  "unpack_two xs = (case xs of [a, b] \<Rightarrow> Ok (a, b) | _ \<Rightarrow> Raise (ValueError ''wrong number of values to unpack''))"

fun dataset_ref_to_object_name :: "DatasetRef \<Rightarrow> ObjectName" where
  "dataset_ref_to_object_name (PersistedDatasetRef ld node name) = DomainSpecificObjectName ld (node @ dollar # name)"
| "dataset_ref_to_object_name (NonPersistedDatasetRef name) = AaSpecificObjectName name"

fun dataset_ref_from_object_name :: "ObjectName \<Rightarrow> DatasetRef result" where
  "dataset_ref_from_object_name (DomainSpecificObjectName ld item) =
     bindE (unpack_two (split_on dollar item)) (\<lambda>(node, name). Ok (PersistedDatasetRef ld node name))"
| "dataset_ref_from_object_name (AaSpecificObjectName name) = Ok (NonPersistedDatasetRef name)"
| "dataset_ref_from_object_name (VmdSpecificObjectName _) = Raise (TypeError ''unsupported object name type'')"

definition dataset_ref_from_str :: "pystr \<Rightarrow> DatasetRef result" where
  "dataset_ref_from_str ref_str =
     (if ref_str \<noteq> [] \<and> hd ref_str = at_sign then Ok (NonPersistedDatasetRef (tl ref_str))
      else
        bindE (unpack_two (split_once slash ref_str)) (\<lambda>(ld, rest).
        bindE (unpack_two (split_on dollar rest)) (\<lambda>(node, name). Ok (PersistedDatasetRef ld node name))))"

fun dataset_ref_to_str :: "DatasetRef \<Rightarrow> pystr" where
  "dataset_ref_to_str (PersistedDatasetRef ld node name) = ld @ slash # node @ dollar # name"
| "dataset_ref_to_str (NonPersistedDatasetRef name) = at_sign # name"

section \<open>Data\<close>

fun name_text :: "RefName \<Rightarrow> pystr" where
  "name_text (IndexName i) = lparen # py_str_int i @ [rparen]"
| "name_text (StrName s) = dollar # s"

definition data_ref_to_object_name :: "DataRef \<Rightarrow> ObjectName" where
  "data_ref_to_object_name ref =
     DomainSpecificObjectName (ref_logical_device ref)
       (ref_logical_node ref @ dollar # ref_fc ref @ concat (map name_text (ref_names ref)))"

text \<open>The inner loop: the indexes are taken from the end of a name.\<close>

function strip_indexes :: "pystr \<Rightarrow> int list \<Rightarrow> (pystr \<times> int list) result" where
  "strip_indexes name indexes =
     (if name \<noteq> [] \<and> last name = rparen then
        (case rfind lparen name of
           None \<Rightarrow> Raise (Exception ''invalid array index syntax'')
         | Some pos \<Rightarrow>
             bindE (py_int_str (butlast (drop (pos + 1) name))) (\<lambda>index. strip_indexes (take pos name) (index # indexes)))
      else Ok (name, indexes))"
  by pat_completeness auto
termination
  by (relation "measure (\<lambda>(name, _). length name)") (auto dest: rfind_less)

declare strip_indexes.simps [simp del]

definition decode_names :: "pystr list \<Rightarrow> RefName list result" where
  "decode_names rest =
     bindE (mapE (\<lambda>name. bindE (strip_indexes name []) (\<lambda>(name, indexes). Ok (StrName name # map IndexName indexes))) rest)
       (\<lambda>xss. Ok (concat xss))"

fun data_ref_from_object_name :: "ObjectName \<Rightarrow> DataRef result" where
  "data_ref_from_object_name (DomainSpecificObjectName ld item) =
     (case split_on dollar item of
        node # fc # rest \<Rightarrow>
          bindE (decode_names rest) (\<lambda>names.
            Ok \<lparr>ref_logical_device = ld, ref_logical_node = node, ref_fc = fc, ref_names = names\<rparr>)
      | _ \<Rightarrow> Raise (ValueError ''not enough values to unpack''))"
| "data_ref_from_object_name _ = Raise (TypeError ''unsupported object name type'')"

definition data_ref_to_str :: "DataRef \<Rightarrow> pystr result" where
  "data_ref_to_str ref =
     (case data_ref_to_object_name ref of
        DomainSpecificObjectName ld item \<Rightarrow> Ok (ld @ slash # item)
      | _ \<Rightarrow> Raise (AttributeError ''domain_id''))"

definition data_ref_from_str :: "pystr \<Rightarrow> DataRef result" where
  "data_ref_from_str ref_str =
     (case split_once slash ref_str of
        [ld, item] \<Rightarrow> data_ref_from_object_name (DomainSpecificObjectName ld item)
      | _ \<Rightarrow> Raise (TypeError ''missing argument item_id''))"

section \<open>Round trips\<close>

fun dataset_ref_ok :: "DatasetRef \<Rightarrow> bool" where
  "dataset_ref_ok (PersistedDatasetRef ld node name) \<longleftrightarrow>
     dollar \<notin> set node \<and> dollar \<notin> set name \<and> slash \<notin> set ld \<and> (ld \<noteq> [] \<longrightarrow> hd ld \<noteq> at_sign)"
| "dataset_ref_ok (NonPersistedDatasetRef name) \<longleftrightarrow> True"

lemma dataset_ref_object_name: "dataset_ref_ok r \<Longrightarrow> dataset_ref_from_object_name (dataset_ref_to_object_name r) = Ok r"
  by (cases r) (simp_all add: unpack_two_def)

lemma dataset_ref_str: "dataset_ref_ok r \<Longrightarrow> dataset_ref_from_str (dataset_ref_to_str r) = Ok r"
  by (cases r) (auto simp: dataset_ref_from_str_def unpack_two_def hd_append)

text \<open>
  Names that can be told apart: no dollar sign in them and no parenthesis at their end. The first of a reference is not an
  index, which would become a part of the functional constraint.
\<close>

fun str_name_ok :: "RefName \<Rightarrow> bool" where
  "str_name_ok (StrName s) \<longleftrightarrow> dollar \<notin> set s \<and> (s \<noteq> [] \<longrightarrow> last s \<noteq> rparen)"
| "str_name_ok (IndexName i) \<longleftrightarrow> True"

definition data_ref_ok :: "DataRef \<Rightarrow> bool" where
  "data_ref_ok ref \<longleftrightarrow>
     slash \<notin> set (ref_logical_device ref) \<and> dollar \<notin> set (ref_logical_node ref) \<and> dollar \<notin> set (ref_fc ref) \<and>
     list_all str_name_ok (ref_names ref) \<and> (case ref_names ref of IndexName i # _ \<Rightarrow> False | _ \<Rightarrow> True)"

lemma not_in_number: "dollar \<notin> set (py_str_int i)" "lparen \<notin> set (py_str_int i)"
  using py_str_int_chars [of dollar i] py_str_int_chars [of lparen i] by (auto simp: is_digit_def)

lemma strip_indexes_none: "s = [] \<or> last s \<noteq> rparen \<Longrightarrow> strip_indexes s is = Ok (s, is)"
  by (subst strip_indexes.simps) auto

lemma strip_indexes_one:
  "strip_indexes (s @ lparen # py_str_int i @ [rparen]) is = strip_indexes s (i # is)"
proof -
  have "rfind lparen (s @ lparen # (py_str_int i @ [rparen])) = Some (length s)"
    by (rule rfind_append) (simp add: not_in_number)
  then show ?thesis by (subst strip_indexes.simps) simp
qed

lemma strip_indexes_all:
  "s = [] \<or> last s \<noteq> rparen \<Longrightarrow> strip_indexes (s @ concat (map (\<lambda>i. name_text (IndexName i)) is)) js = Ok (s, is @ js)"
proof (induction "is" arbitrary: js rule: rev_induct)
  case Nil
  then show ?case by (simp add: strip_indexes_none)
next
  case (snoc i "is")
  have "s @ concat (map (\<lambda>i. name_text (IndexName i)) (is @ [i])) =
      (s @ concat (map (\<lambda>i. name_text (IndexName i)) is)) @ lparen # py_str_int i @ [rparen]" by simp
  with snoc show ?case by (simp only: strip_indexes_one) simp
qed

text \<open>A list of names is a list of a name with the indexes behind it.\<close>

fun grouped :: "(pystr \<times> int list) list \<Rightarrow> RefName list" where
  "grouped [] = []"
| "grouped ((s, is) # gs) = StrName s # map IndexName is @ grouped gs"

lemma grouped_exists:
  assumes "case names of IndexName i # _ \<Rightarrow> False | _ \<Rightarrow> True"
  shows "\<exists>gs. names = grouped gs"
proof -
  have "\<exists>is gs. names = map IndexName is @ grouped gs"
  proof (induction names)
    case Nil
    have "[] = map IndexName [] @ grouped []" by simp
    then show ?case by blast
  next
    case (Cons n names)
    then obtain "is" gs where gs: "names = map IndexName is @ grouped gs" by blast
    show ?case
    proof (cases n)
      case (StrName s)
      with gs have "n # names = map IndexName [] @ grouped ((s, is) # gs)" by simp
      then show ?thesis by blast
    next
      case (IndexName i)
      with gs have "n # names = map IndexName (i # is) @ grouped gs" by simp
      then show ?thesis by blast
    qed
  qed
  then obtain "is" gs where gs: "names = map IndexName is @ grouped gs" by blast
  with assms have "is = []" by (cases "is") auto
  with gs show ?thesis by auto
qed

definition group_text :: "pystr \<times> int list \<Rightarrow> pystr" where
  "group_text g = fst g @ concat (map (\<lambda>i. name_text (IndexName i)) (snd g))"

lemma split_groups:
  assumes "dollar \<notin> set p" "list_all str_name_ok (grouped gs)"
  shows "split_on dollar (p @ concat (map name_text (grouped gs))) = p # map group_text gs"
  using assms
proof (induction gs arbitrary: p)
  case (Cons g gs)
  obtain s "is" where g: "g = (s, is)" by (cases g)
  have n: "dollar \<notin> set (group_text g)" using Cons.prems(2) not_in_number by (auto simp: g group_text_def)
  have eq: "p @ concat (map name_text (grouped (g # gs))) = p @ dollar # (group_text g @ concat (map name_text (grouped gs)))"
    by (simp add: g group_text_def comp_def)
  have "list_all str_name_ok (grouped gs)" using Cons.prems(2) by (simp add: g list_all_iff)
  from Cons.IH [OF n this] Cons.prems(1) show ?case unfolding eq by simp
qed simp

lemma decode_groups:
  assumes "list_all str_name_ok (grouped gs)"
  shows "decode_names (map group_text gs) = Ok (grouped gs)"
proof -
  have "mapE (\<lambda>name. bindE (strip_indexes name []) (\<lambda>(name, indexes). Ok (StrName name # map IndexName indexes))) (map group_text gs) =
      Ok (map (\<lambda>(s, is). StrName s # map IndexName is) gs)"
    using assms
  proof (induction gs)
    case (Cons g gs)
    obtain s "is" where g: "g = (s, is)" by (cases g)
    with Cons.prems have "s = [] \<or> last s \<noteq> rparen" by auto
    from strip_indexes_all [OF this, of "is" "[]"] Cons g show ?case by (simp add: group_text_def list_all_iff)
  qed simp
  moreover have "concat (map (\<lambda>(s, is). StrName s # map IndexName is) gs) = grouped gs"
    by (induction gs rule: grouped.induct) auto
  ultimately show ?thesis by (simp add: decode_names_def)
qed

lemma data_ref_object_name:
  assumes "data_ref_ok r" shows "data_ref_from_object_name (data_ref_to_object_name r) = Ok r"
proof -
  from assms obtain gs where gs: "ref_names r = grouped gs" using grouped_exists by (auto simp: data_ref_ok_def)
  from assms split_groups [of "ref_fc r" gs] decode_groups [of gs] show ?thesis
    by (simp add: data_ref_ok_def data_ref_to_object_name_def gs)
qed

text \<open>
  C40: a reference to a data set, as an MMS object name and as text, and a reference to data with any names and array indexes are
  parsed back to themselves, unless a part has a separator in it, the logical device of a data set begins with the at sign that
  marks data sets without one, a name ends with a parenthesis, or the first name is an index.
\<close>

theorem references_roundtrip:
  assumes "dataset_ref_ok s" "data_ref_ok r"
  shows "dataset_ref_from_object_name (dataset_ref_to_object_name s) = Ok s \<and> dataset_ref_from_str (dataset_ref_to_str s) = Ok s \<and>
    data_ref_from_object_name (data_ref_to_object_name r) = Ok r \<and> bindE (data_ref_to_str r) data_ref_from_str = Ok r"
  using dataset_ref_object_name [OF assms(1)] dataset_ref_str [OF assms(1)] data_ref_object_name [OF assms(2)] assms(2)
  by (simp add: data_ref_to_str_def data_ref_from_str_def data_ref_to_object_name_def data_ref_ok_def)

theorem references_roundtrip_witness:
  "data_ref_from_str (py_str ''IED1/LLN0$ST$Arr(3)(-1)$q'') =
     Ok \<lparr>ref_logical_device = py_str ''IED1'', ref_logical_node = py_str ''LLN0'', ref_fc = py_str ''ST'',
       ref_names = [StrName (py_str ''Arr''), IndexName 3, IndexName (-1), StrName (py_str ''q'')]\<rparr>"
proof -
  let ?r = "\<lparr>ref_logical_device = py_str ''IED1'', ref_logical_node = py_str ''LLN0'', ref_fc = py_str ''ST'',
    ref_names = [StrName (py_str ''Arr''), IndexName 3, IndexName (-1), StrName (py_str ''q'')]\<rparr>"
  have "dataset_ref_ok (NonPersistedDatasetRef [])" "data_ref_ok ?r" by (simp_all add: data_ref_ok_def py_str_def)
  from references_roundtrip [OF this] have "bindE (data_ref_to_str ?r) data_ref_from_str = Ok ?r" by blast
  moreover have "data_ref_to_str ?r = Ok (py_str ''IED1/LLN0$ST$Arr(3)(-1)$q'')" by code_simp
  ultimately show ?thesis by simp
qed

text \<open>An array index right behind the functional constraint becomes a part of it: the reference is parsed to another one.\<close>

lemma leading_index_misread:
  "data_ref_from_object_name (data_ref_to_object_name
     \<lparr>ref_logical_device = py_str ''LD'', ref_logical_node = py_str ''LN'', ref_fc = py_str ''ST'', ref_names = [IndexName 1]\<rparr>) =
   Ok \<lparr>ref_logical_device = py_str ''LD'', ref_logical_node = py_str ''LN'', ref_fc = py_str ''ST(1)'', ref_names = []\<rparr>"
  by code_simp

end
