(* ===== verification/Iec61850_Values.thy ===== *)
theory Iec61850_Values
  imports Iec61850_Refs
begin

text \<open>
  Values of \<^verbatim>\<open>iec61850/encoder.py\<close> as MMS data and back, directed by their type; attributes of report control blocks.
  Where the code asks whether a value has a class, a constructor is asked for; a truth value is an integer. The
  integer of a float type is converted where MMS data is made (the code does it when the data is encoded). Elements of a list are
  asked of a list, a bit string, a text, bytes or a dictionary; the tuples of the other classes are refused.
\<close>

unbundle bit_operations_syntax

section \<open>Python's collections\<close>

definition unexpected_type :: "'a result" where
  "unexpected_type = Raise (Exception ''unexpected value type'')"

definition unexpected_data :: "'a result" where
  "unexpected_data = Raise (Exception ''unexpected data type'')"

fun elements_of :: "AcsiValue \<Rightarrow> AcsiValue list result" where
  "elements_of (ArrayValue vs) = Ok vs"
| "elements_of (BitsValue bs) = Ok (map BoolValue bs)"
| "elements_of (StrValue s) = Ok (map (\<lambda>c. StrValue [c]) s)"
| "elements_of (BytesValue bs) = Ok (map (\<lambda>b. IntValue (uint b)) bs)"
| "elements_of (StructValue kvs) = Ok (map (\<lambda>(k, _). StrValue k) kvs)"
| "elements_of _ = Raise (TypeError ''object is not iterable'')"

fun as_bool :: "AcsiValue \<Rightarrow> bool result" where
  "as_bool (BoolValue b) = Ok b"
| "as_bool _ = unexpected_type"

fun as_integer :: "AcsiValue \<Rightarrow> int result" where
  "as_integer (IntValue n) = Ok n"
| "as_integer (BoolValue b) = Ok (if b then 1 else 0)"
| "as_integer _ = unexpected_type"

definition int_as_float :: "int \<Rightarrow> pyfloat result" where
  "int_as_float n =
     (case to_double (of_int n) of
        Infinity _ \<Rightarrow> Raise (OverflowError ''int too large to convert to float'')
      | x \<Rightarrow> Ok x)"

fun as_float :: "AcsiValue \<Rightarrow> pyfloat result" where
  "as_float (FloatValue x) = Ok x"
| "as_float (IntValue n) = int_as_float n"
| "as_float (BoolValue b) = int_as_float (if b then 1 else 0)"
| "as_float _ = unexpected_type"

definition two_bits :: "bool list \<Rightarrow> int result" where
  "two_bits bs =
     (case bs of
        [b1, b0] \<Rightarrow> Ok (push_bit 1 (of_bool b1) OR of_bool b0)
      | _ \<Rightarrow> Raise (Exception ''invalid bit string length''))"

definition bits_of_two :: "int \<Rightarrow> bool list" where
  "bits_of_two n = [n AND 2 \<noteq> 0, n AND 1 \<noteq> 0]"

text \<open>\<open>enumerate(bits)\<close>, the indexes of those that are set.\<close>

definition set_indexes :: "bool list \<Rightarrow> int list" where
  "set_indexes bs = map (\<lambda>i. int i) (filter (\<lambda>i. bs ! i) [0..<length bs])"

section \<open>From MMS data\<close>

definition basic_from_mms_data :: "BasicValueType \<Rightarrow> 'oid MmsData \<Rightarrow> AcsiValue result" where
  "basic_from_mms_data t d =
     (case t of
        BASIC_BOOLEAN \<Rightarrow> (case d of BooleanData b \<Rightarrow> Ok (BoolValue b) | _ \<Rightarrow> unexpected_data)
      | BASIC_INTEGER \<Rightarrow> (case d of IntegerData n \<Rightarrow> Ok (IntValue n) | _ \<Rightarrow> unexpected_data)
      | BASIC_UNSIGNED \<Rightarrow> (case d of UnsignedData n \<Rightarrow> Ok (IntValue n) | _ \<Rightarrow> unexpected_data)
      | BASIC_FLOAT \<Rightarrow> (case d of FloatingPointData x \<Rightarrow> Ok (FloatValue x) | _ \<Rightarrow> unexpected_data)
      | BASIC_BIT_STRING \<Rightarrow> (case d of BitStringData bs \<Rightarrow> Ok (BitsValue bs) | _ \<Rightarrow> unexpected_data)
      | BASIC_OCTET_STRING \<Rightarrow> (case d of OctetStringData bs \<Rightarrow> Ok (BytesValue bs) | _ \<Rightarrow> unexpected_data)
      | BASIC_VISIBLE_STRING \<Rightarrow> (case d of VisibleStringData s \<Rightarrow> Ok (StrValue s) | _ \<Rightarrow> unexpected_data)
      | BASIC_MMS_STRING \<Rightarrow> (case d of MmsStringData s \<Rightarrow> Ok (StrValue s) | _ \<Rightarrow> unexpected_data))"

definition quality_from_bits :: "bool list \<Rightarrow> AcsiQuality result" where
  "quality_from_bits bs =
     (if length bs \<noteq> 13 then Raise (Exception ''invalid bit string length'')
      else
        bindE (bindE (two_bits (take 2 bs)) QualityValidity_of) (\<lambda>validity.
        bindE (mapE QualityDetail_of (filter (\<lambda>i. 2 \<le> i \<and> i \<le> 9) (set_indexes bs))) (\<lambda>details.
        bindE (QualitySource_of (of_bool (bs ! 10))) (\<lambda>source.
          Ok \<lparr>quality_validity = validity, quality_details = set details, quality_source = source,
            quality_test = bs ! 11, quality_operator_blocked = bs ! 12\<rparr>))))"

fun analogue_elements :: "Analogue \<Rightarrow> 'oid MmsData list \<Rightarrow> Analogue result" where
  "analogue_elements a [] = Ok a"
| "analogue_elements a (IntegerData n # ds) = analogue_elements (a\<lparr>analogue_i := Some n\<rparr>) ds"
| "analogue_elements a (FloatingPointData x # ds) = analogue_elements (a\<lparr>analogue_f := Some x\<rparr>) ds"
| "analogue_elements a _ = unexpected_data"

text \<open>The elements of a structure of one or two.\<close>

definition one_or_two :: "'oid MmsData \<Rightarrow> 'oid MmsData list result" where
  "one_or_two d =
     (case d of
        StructureData ds \<Rightarrow>
          if length ds < 1 \<or> 2 < length ds then Raise (Exception ''invalid structure size'') else Ok ds
      | _ \<Rightarrow> unexpected_data)"

definition analogue_from_mms_data :: "'oid MmsData \<Rightarrow> Analogue result" where
  "analogue_from_mms_data d =
     bindE (one_or_two d) (analogue_elements \<lparr>analogue_i = None, analogue_f = None\<rparr>)"

definition acsi_from_mms_data :: "AcsiValueType \<Rightarrow> 'oid MmsData \<Rightarrow> AcsiValue result" where
  "acsi_from_mms_data t d =
     (case t of
        ACSI_QUALITY \<Rightarrow>
          (case d of BitStringData bs \<Rightarrow> bindE (quality_from_bits bs) (\<lambda>q. Ok (QualityValue q)) | _ \<Rightarrow> unexpected_data)
      | ACSI_TIMESTAMP \<Rightarrow> (case d of UtcTimeData u \<Rightarrow> Ok (TimestampValue u) | _ \<Rightarrow> unexpected_data)
      | ACSI_DOUBLE_POINT \<Rightarrow>
          (case d of BitStringData bs \<Rightarrow> bindE (bindE (two_bits bs) DoublePoint_of) (\<lambda>x. Ok (DoublePointValue x)) | _ \<Rightarrow> unexpected_data)
      | ACSI_DIRECTION \<Rightarrow>
          (case d of IntegerData n \<Rightarrow> bindE (AcsiDirection_of n) (\<lambda>x. Ok (DirectionValue x)) | _ \<Rightarrow> unexpected_data)
      | ACSI_SEVERITY \<Rightarrow>
          (case d of IntegerData n \<Rightarrow> bindE (AcsiSeverity_of n) (\<lambda>x. Ok (SeverityValue x)) | _ \<Rightarrow> unexpected_data)
      | ACSI_ANALOGUE \<Rightarrow> bindE (analogue_from_mms_data d) (\<lambda>a. Ok (AnalogueValue a))
      | ACSI_VECTOR \<Rightarrow>
          bindE (one_or_two d) (\<lambda>ds.
          bindE (analogue_from_mms_data (hd ds)) (\<lambda>magnitude.
          bindE (case tl ds of [] \<Rightarrow> Ok None | e # _ \<Rightarrow> bindE (analogue_from_mms_data e) (\<lambda>a. Ok (Some a))) (\<lambda>angle.
            Ok (VectorValue \<lparr>vector_magnitude = magnitude, vector_angle = angle\<rparr>))))
      | ACSI_STEP_POSITION \<Rightarrow>
          bindE (one_or_two d) (\<lambda>ds.
          bindE (bindE (basic_from_mms_data BASIC_INTEGER (hd ds)) as_integer) (\<lambda>n.
          bindE (case tl ds of
                   [] \<Rightarrow> Ok None
                 | e # _ \<Rightarrow> bindE (bindE (basic_from_mms_data BASIC_BOOLEAN e) as_bool) (\<lambda>b. Ok (Some b))) (\<lambda>transient.
            Ok (StepPositionValue \<lparr>step_value = n, step_transient = transient\<rparr>))))
      | ACSI_BINARY_CONTROL \<Rightarrow>
          (case d of BitStringData bs \<Rightarrow> bindE (bindE (two_bits bs) BinaryControl_of) (\<lambda>x. Ok (BinaryControlValue x)) | _ \<Rightarrow> unexpected_data))"

fun value_from_mms_data :: "AcsiType \<Rightarrow> 'oid MmsData \<Rightarrow> AcsiValue result"
  and values_from_mms_data :: "(pystr \<times> AcsiType) list \<Rightarrow> 'oid MmsData list \<Rightarrow> (pystr \<times> AcsiValue) list \<Rightarrow> (pystr \<times> AcsiValue) list result" where
  "value_from_mms_data (BasicType t) d = basic_from_mms_data t d"
| "value_from_mms_data (AcsiType t) d = acsi_from_mms_data t d"
| "value_from_mms_data (ArrayType t n) d =
     (case d of
        ArrayData ds \<Rightarrow>
          if int (length ds) \<noteq> n then Raise (Exception ''invalid array length'')
          else bindE (mapE (value_from_mms_data t) ds) (\<lambda>vs. Ok (ArrayValue vs))
      | _ \<Rightarrow> unexpected_data)"
| "value_from_mms_data (StructType ts) d =
     (case d of
        StructureData ds \<Rightarrow>
          if length ds \<noteq> length ts then Raise (Exception ''invalid structure size'')
          else bindE (values_from_mms_data ts ds []) (\<lambda>kvs. Ok (StructValue kvs))
      | _ \<Rightarrow> unexpected_data)"
| "values_from_mms_data ((k, t) # ts) (d # ds) kvs =
     bindE (value_from_mms_data t d) (\<lambda>v. values_from_mms_data ts ds (dict_set k v kvs))"
| "values_from_mms_data _ _ kvs = Ok kvs"

section \<open>To MMS data\<close>

definition basic_to_mms_data :: "BasicValueType \<Rightarrow> AcsiValue \<Rightarrow> 'oid MmsData result" where
  "basic_to_mms_data t v =
     (case t of
        BASIC_BOOLEAN \<Rightarrow> bindE (as_bool v) (\<lambda>b. Ok (BooleanData b))
      | BASIC_INTEGER \<Rightarrow> bindE (as_integer v) (\<lambda>n. Ok (IntegerData n))
      | BASIC_UNSIGNED \<Rightarrow> bindE (as_integer v) (\<lambda>n. Ok (UnsignedData n))
      | BASIC_FLOAT \<Rightarrow> bindE (as_float v) (\<lambda>x. Ok (FloatingPointData x))
      | BASIC_BIT_STRING \<Rightarrow> bindE (bindE (elements_of v) (mapE as_bool)) (\<lambda>bs. Ok (BitStringData bs))
      | BASIC_OCTET_STRING \<Rightarrow> (case v of BytesValue bs \<Rightarrow> Ok (OctetStringData bs) | _ \<Rightarrow> unexpected_type)
      | BASIC_VISIBLE_STRING \<Rightarrow> (case v of StrValue s \<Rightarrow> Ok (VisibleStringData s) | _ \<Rightarrow> unexpected_type)
      | BASIC_MMS_STRING \<Rightarrow> (case v of StrValue s \<Rightarrow> Ok (MmsStringData s) | _ \<Rightarrow> unexpected_type))"

definition quality_to_bits :: "AcsiQuality \<Rightarrow> bool list" where
  "quality_to_bits q =
     bits_of_two (QualityValidity_value (quality_validity q)) @
     map (\<lambda>x. x \<in> quality_details q) QualityDetail_members @
     [QualitySource_value (quality_source q) \<noteq> 0, quality_test q, quality_operator_blocked q]"

definition analogue_to_mms_data :: "Analogue \<Rightarrow> 'oid MmsData result" where
  "analogue_to_mms_data a =
     (case (analogue_i a, analogue_f a) of
        (None, None) \<Rightarrow> Raise (Exception ''invalid analogue value'')
      | (i, f) \<Rightarrow>
          Ok (StructureData ((case i of None \<Rightarrow> [] | Some n \<Rightarrow> [IntegerData n]) @ (case f of None \<Rightarrow> [] | Some x \<Rightarrow> [FloatingPointData x]))))"

definition acsi_to_mms_data :: "AcsiValueType \<Rightarrow> AcsiValue \<Rightarrow> 'oid MmsData result" where
  "acsi_to_mms_data t v =
     (case t of
        ACSI_QUALITY \<Rightarrow> (case v of QualityValue q \<Rightarrow> Ok (BitStringData (quality_to_bits q)) | _ \<Rightarrow> unexpected_type)
      | ACSI_TIMESTAMP \<Rightarrow> (case v of TimestampValue u \<Rightarrow> Ok (UtcTimeData u) | _ \<Rightarrow> unexpected_type)
      | ACSI_DOUBLE_POINT \<Rightarrow>
          (case v of DoublePointValue x \<Rightarrow> Ok (BitStringData (bits_of_two (DoublePoint_value x))) | _ \<Rightarrow> unexpected_type)
      | ACSI_DIRECTION \<Rightarrow> (case v of DirectionValue x \<Rightarrow> Ok (IntegerData (AcsiDirection_value x)) | _ \<Rightarrow> unexpected_type)
      | ACSI_SEVERITY \<Rightarrow> (case v of SeverityValue x \<Rightarrow> Ok (IntegerData (AcsiSeverity_value x)) | _ \<Rightarrow> unexpected_type)
      | ACSI_ANALOGUE \<Rightarrow> (case v of AnalogueValue a \<Rightarrow> analogue_to_mms_data a | _ \<Rightarrow> unexpected_type)
      | ACSI_VECTOR \<Rightarrow>
          (case v of
             VectorValue x \<Rightarrow>
               bindE (analogue_to_mms_data (vector_magnitude x)) (\<lambda>m.
               bindE (case vector_angle x of None \<Rightarrow> Ok [] | Some a \<Rightarrow> bindE (analogue_to_mms_data a) (\<lambda>d. Ok [d])) (\<lambda>ds.
                 Ok (StructureData (m # ds))))
           | _ \<Rightarrow> unexpected_type)
      | ACSI_STEP_POSITION \<Rightarrow>
          (case v of
             StepPositionValue p \<Rightarrow>
               Ok (StructureData (IntegerData (step_value p) # (case step_transient p of None \<Rightarrow> [] | Some b \<Rightarrow> [BooleanData b])))
           | _ \<Rightarrow> unexpected_type)
      | ACSI_BINARY_CONTROL \<Rightarrow>
          (case v of BinaryControlValue x \<Rightarrow> Ok (BitStringData (bits_of_two (BinaryControl_value x))) | _ \<Rightarrow> unexpected_type))"

fun dict_item :: "AcsiValue \<Rightarrow> pystr \<Rightarrow> AcsiValue result" where
  "dict_item (StructValue kvs) k = (case map_of kvs k of None \<Rightarrow> Raise (KeyError ''element'') | Some v \<Rightarrow> Ok v)"
| "dict_item _ k = Raise (TypeError ''object is not subscriptable by text'')"

fun value_to_mms_data :: "AcsiType \<Rightarrow> AcsiValue \<Rightarrow> 'oid MmsData result"
  and values_to_mms_data :: "(pystr \<times> AcsiType) list \<Rightarrow> AcsiValue \<Rightarrow> 'oid MmsData list result" where
  "value_to_mms_data (BasicType t) v = basic_to_mms_data t v"
| "value_to_mms_data (AcsiType t) v = acsi_to_mms_data t v"
| "value_to_mms_data (ArrayType t n) v =
     bindE (elements_of v) (\<lambda>vs.
       if int (length vs) \<noteq> n then Raise (Exception ''invalid array length'')
       else bindE (mapE (value_to_mms_data t) vs) (\<lambda>ds. Ok (ArrayData ds)))"
| "value_to_mms_data (StructType ts) v = bindE (values_to_mms_data ts v) (\<lambda>ds. Ok (StructureData ds))"
| "values_to_mms_data [] v = Ok []"
| "values_to_mms_data ((k, t) # ts) v =
     bindE (bindE (dict_item v k) (value_to_mms_data t)) (\<lambda>d. bindE (values_to_mms_data ts v) (\<lambda>ds. Ok (d # ds)))"

end
