(* ===== verification/Iec61850_Encoder.thy ===== *)
theory Iec61850_Encoder
  imports Iec61850_Values
begin

text \<open>
  Attributes of report control blocks, commands, errors of the last command and reports of \<^verbatim>\<open>iec61850/encoder.py\<close>. An
  iterator over the elements of a structure is the list of those that are left.
\<close>

section \<open>Values of a type\<close>

fun as_text :: "AcsiValue \<Rightarrow> pystr result" where
  "as_text (StrValue s) = Ok s"
| "as_text _ = unexpected_type"

fun as_bits :: "AcsiValue \<Rightarrow> bool list result" where
  "as_bits (BitsValue bs) = Ok bs"
| "as_bits _ = unexpected_type"

fun as_octets :: "AcsiValue \<Rightarrow> bytes result" where
  "as_octets (BytesValue bs) = Ok bs"
| "as_octets _ = unexpected_type"

fun as_timestamp :: "AcsiValue \<Rightarrow> Timestamp result" where
  "as_timestamp (TimestampValue u) = Ok u"
| "as_timestamp _ = unexpected_type"

definition read_text :: "'oid MmsData \<Rightarrow> pystr result" where
  "read_text d = bindE (basic_from_mms_data BASIC_VISIBLE_STRING d) as_text"

definition read_bits :: "'oid MmsData \<Rightarrow> bool list result" where
  "read_bits d = bindE (basic_from_mms_data BASIC_BIT_STRING d) as_bits"

definition read_unsigned :: "'oid MmsData \<Rightarrow> int result" where
  "read_unsigned d = bindE (basic_from_mms_data BASIC_UNSIGNED d) as_integer"

definition read_integer :: "'oid MmsData \<Rightarrow> int result" where
  "read_integer d = bindE (basic_from_mms_data BASIC_INTEGER d) as_integer"

definition read_boolean :: "'oid MmsData \<Rightarrow> bool result" where
  "read_boolean d = bindE (basic_from_mms_data BASIC_BOOLEAN d) as_bool"

definition read_octets :: "'oid MmsData \<Rightarrow> bytes result" where
  "read_octets d = bindE (basic_from_mms_data BASIC_OCTET_STRING d) as_octets"

definition read_timestamp :: "'oid MmsData \<Rightarrow> Timestamp result" where
  "read_timestamp d = bindE (acsi_from_mms_data ACSI_TIMESTAMP d) as_timestamp"

definition read_binary_time :: "'oid MmsData \<Rightarrow> int result" where
  "read_binary_time d = (case d of BinaryTimeData t \<Rightarrow> Ok t | _ \<Rightarrow> unexpected_data)"

text \<open>\<open>next(elements)\<close> with a conversion, and where a condition holds.\<close>

definition read_next :: "('a \<Rightarrow> 'b result) \<Rightarrow> 'a list \<Rightarrow> ('b \<times> 'a list) result" where
  "read_next f es = (case es of [] \<Rightarrow> Raise StopIteration | d # es \<Rightarrow> bindE (f d) (\<lambda>x. Ok (x, es)))"

definition read_when :: "bool \<Rightarrow> ('a \<Rightarrow> 'b result) \<Rightarrow> 'a list \<Rightarrow> ('b option \<times> 'a list) result" where
  "read_when b f es = (if b then bindE (read_next f es) (\<lambda>(x, es). Ok (Some x, es)) else Ok (None, es))"

section \<open>Attributes of report control blocks\<close>

definition rcb_plain_type :: "RcbAttrType \<Rightarrow> BasicValueType option" where
  "rcb_plain_type t =
     (case t of
        RCB_REPORT_ID \<Rightarrow> Some BASIC_VISIBLE_STRING
      | RCB_REPORT_ENABLE \<Rightarrow> Some BASIC_BOOLEAN
      | RCB_DATASET \<Rightarrow> None
      | RCB_CONF_REVISION \<Rightarrow> Some BASIC_UNSIGNED
      | RCB_OPTIONAL_FIELDS \<Rightarrow> None
      | RCB_BUFFER_TIME \<Rightarrow> Some BASIC_UNSIGNED
      | RCB_SEQUENCE_NUMBER \<Rightarrow> Some BASIC_UNSIGNED
      | RCB_TRIGGER_OPTIONS \<Rightarrow> None
      | RCB_INTEGRITY_PERIOD \<Rightarrow> Some BASIC_UNSIGNED
      | RCB_GI \<Rightarrow> Some BASIC_BOOLEAN
      | RCB_PURGE_BUFFER \<Rightarrow> Some BASIC_BOOLEAN
      | RCB_ENTRY_ID \<Rightarrow> Some BASIC_OCTET_STRING
      | RCB_TIME_OF_ENTRY \<Rightarrow> None
      | RCB_RESERVATION_TIME \<Rightarrow> Some BASIC_INTEGER
      | RCB_RESERVE \<Rightarrow> Some BASIC_BOOLEAN)"

definition rcb_attr_value_from_mms_data :: "RcbAttrType \<Rightarrow> 'oid MmsData \<Rightarrow> RcbAttrValue result" where
  "rcb_attr_value_from_mms_data t d =
     (case rcb_plain_type t of
        Some b \<Rightarrow> bindE (basic_from_mms_data b d) (\<lambda>v. Ok (PlainAttr v))
      | None \<Rightarrow>
          if t = RCB_DATASET then
            bindE (read_text d) (\<lambda>s.
              if s = [] then Ok (DatasetAttr None) else bindE (dataset_ref_from_str s) (\<lambda>r. Ok (DatasetAttr (Some r))))
          else if t = RCB_OPTIONAL_FIELDS then
            bindE (read_bits d) (\<lambda>bs.
              if length bs \<noteq> 10 then Raise (Exception ''invalid optional fields size'')
              else
                bindE (mapE OptionalField_of (filter (\<lambda>i. 1 \<le> i \<and> i \<le> 8) (set_indexes bs))) (\<lambda>xs. Ok (OptionalFieldsAttr (set xs))))
          else if t = RCB_TRIGGER_OPTIONS then
            bindE (read_bits d) (\<lambda>bs.
              if length bs \<noteq> 6 then Raise (Exception ''invalid trigger options size'')
              else bindE (mapE TriggerCondition_of (filter (\<lambda>i. 1 \<le> i) (set_indexes bs))) (\<lambda>xs. Ok (TriggerOptionsAttr (set xs))))
          else bindE (read_binary_time d) (\<lambda>time. Ok (EntryTimeAttr time)))"

definition rcb_attr_value_to_mms_data :: "RcbAttrType \<Rightarrow> RcbAttrValue \<Rightarrow> 'oid MmsData result" where
  "rcb_attr_value_to_mms_data t a =
     (case rcb_plain_type t of
        Some b \<Rightarrow> (case a of PlainAttr v \<Rightarrow> basic_to_mms_data b v | _ \<Rightarrow> unexpected_type)
      | None \<Rightarrow>
          if t = RCB_DATASET then
            (case a of
               DatasetAttr r \<Rightarrow> Ok (VisibleStringData (case r of None \<Rightarrow> [] | Some r \<Rightarrow> dataset_ref_to_str r))
             | _ \<Rightarrow> Raise (TypeError ''unsupported ref type''))
          else if t = RCB_OPTIONAL_FIELDS then
            (case a of
               OptionalFieldsAttr s \<Rightarrow> Ok (BitStringData ([False] @ map (\<lambda>x. x \<in> s) OptionalField_members @ [False]))
             | _ \<Rightarrow> Raise (TypeError ''argument is not a container''))
          else if t = RCB_TRIGGER_OPTIONS then
            (case a of
               TriggerOptionsAttr s \<Rightarrow> Ok (BitStringData ([False] @ map (\<lambda>x. x \<in> s) TriggerCondition_members))
             | _ \<Rightarrow> Raise (TypeError ''argument is not a container''))
          else (case a of EntryTimeAttr time \<Rightarrow> Ok (BinaryTimeData time) | _ \<Rightarrow> Raise (TypeError ''not a time'')))"

section \<open>Commands\<close>

definition origin_to_mms_data :: "AcsiOrigin \<Rightarrow> 'oid MmsData" where
  "origin_to_mms_data origin =
     StructureData [IntegerData (OriginCategory_value (origin_category origin)), OctetStringData (origin_identification origin)]"

definition origin_from_mms_data :: "'oid MmsData \<Rightarrow> AcsiOrigin result" where
  "origin_from_mms_data d =
     (case d of
        StructureData ds \<Rightarrow>
          if length ds \<noteq> 2 then Raise (Exception ''invalid elements size'')
          else
            bindE (read_next (\<lambda>e. bindE (read_integer e) OriginCategory_of) ds) (\<lambda>(category, ds).
            bindE (read_next read_octets ds) (\<lambda>(identification, _).
              Ok \<lparr>origin_category = category, origin_identification = identification\<rparr>))
      | _ \<Rightarrow> Raise (Exception ''invalid data type''))"

definition command_to_mms_data :: "AcsiCommand \<Rightarrow> AcsiType \<Rightarrow> bool \<Rightarrow> 'oid MmsData result" where
  "command_to_mms_data cmd value_type with_checks =
     bindE (value_to_mms_data value_type (command_value cmd)) (\<lambda>v.
       Ok (StructureData
         ([v] @ (case command_operate_time cmd of None \<Rightarrow> [] | Some u \<Rightarrow> [UtcTimeData u]) @
          [origin_to_mms_data (command_origin cmd), UnsignedData (command_control_number cmd), UtcTimeData (command_t cmd),
           BooleanData (command_test cmd)] @
          (if with_checks then [BitStringData (map (\<lambda>x. x \<in> command_checks cmd) Check_members)] else []))))"

definition command_from_mms_data :: "'oid MmsData \<Rightarrow> AcsiType \<Rightarrow> bool \<Rightarrow> AcsiCommand result" where
  "command_from_mms_data d value_type with_checks =
     (case d of
        StructureData ds \<Rightarrow>
          bindE (if length ds = (if with_checks then 7 else 6) then Ok True
                 else if length ds = (if with_checks then 6 else 5) then Ok False
                 else Raise (Exception ''invalid elements size'')) (\<lambda>with_operate_time.
          bindE (read_next (value_from_mms_data value_type) ds) (\<lambda>(v, ds).
          bindE (read_when with_operate_time read_timestamp ds) (\<lambda>(operate_time, ds).
          bindE (read_next origin_from_mms_data ds) (\<lambda>(origin, ds).
          bindE (read_next read_unsigned ds) (\<lambda>(control_number, ds).
          bindE (read_next read_timestamp ds) (\<lambda>(time, ds).
          bindE (read_next read_boolean ds) (\<lambda>(test, ds).
          bindE (if with_checks then
                   bindE (read_next read_bits ds) (\<lambda>(bits, _). bindE (mapE Check_of (set_indexes bits)) (\<lambda>xs. Ok (set xs)))
                 else Ok {}) (\<lambda>checks.
            Ok \<lparr>command_value = v, command_operate_time = operate_time, command_origin = origin,
              command_control_number = control_number, command_t = time, command_test = test, command_checks = checks\<rparr>))))))))
      | _ \<Rightarrow> Raise (Exception ''invalid data type''))"

definition last_appl_error_from_mms_data :: "'oid MmsData \<Rightarrow> LastApplError result" where
  "last_appl_error_from_mms_data d =
     (case d of
        StructureData ds \<Rightarrow>
          if length ds \<noteq> 5 then Raise (Exception ''invalid elements size'')
          else
            bindE (read_next read_text ds) (\<lambda>(name, ds).
            bindE (read_next (\<lambda>e. bindE (read_integer e) TestError_of) ds) (\<lambda>(err, ds).
            bindE (read_next origin_from_mms_data ds) (\<lambda>(origin, ds).
            bindE (read_next read_unsigned ds) (\<lambda>(control_number, ds).
            bindE (read_next (\<lambda>e. bindE (read_integer e) AdditionalCause_of) ds) (\<lambda>(additional_cause, _).
              Ok \<lparr>last_name = name, last_error = err, last_origin = origin, last_control_number = control_number,
                last_additional_cause = additional_cause\<rparr>)))))
      | _ \<Rightarrow> Raise (Exception ''invalid data type''))"

section \<open>Reports\<close>

text \<open>The definitions of the data that a report includes.\<close>

definition included :: "bool list \<Rightarrow> DataDef list \<Rightarrow> DataDef list" where
  "included inclusion data_defs = map snd (filter fst (zip inclusion data_defs))"

fun check_references :: "DataDef list \<Rightarrow> 'oid MmsData list \<Rightarrow> 'oid MmsData list result" where
  "check_references [] es = Ok es"
| "check_references (def # defs) es =
     bindE (read_next (\<lambda>e. bindE (read_text e) data_ref_from_str) es) (\<lambda>(ref, es).
       if ref \<noteq> def_ref def then Raise (Exception ''data reference mismatch'') else check_references defs es)"

fun read_values :: "DataDef list \<Rightarrow> 'oid MmsData list \<Rightarrow> (AcsiValue list \<times> 'oid MmsData list) result" where
  "read_values [] es = Ok ([], es)"
| "read_values (def # defs) es =
     bindE (read_next (value_from_mms_data (def_value_type def)) es) (\<lambda>(v, es).
     bindE (read_values defs es) (\<lambda>(vs, es). Ok (v # vs, es)))"

definition reasons_of_bits :: "bool list \<Rightarrow> ReportReason set result" where
  "reasons_of_bits bits = bindE (mapE ReportReason_of (set_indexes (take 7 bits))) (\<lambda>xs. Ok (set xs))"

fun read_reasons :: "DataDef list \<Rightarrow> 'oid MmsData list \<Rightarrow> (ReportReason set list \<times> 'oid MmsData list) result" where
  "read_reasons [] es = Ok ([], es)"
| "read_reasons (def # defs) es =
     bindE (read_next (\<lambda>e. bindE (read_bits e) reasons_of_bits) es) (\<lambda>(r, es).
     bindE (read_reasons defs es) (\<lambda>(rs, es). Ok (r # rs, es)))"

definition report_from_mms_data :: "'oid MmsData list \<Rightarrow> DataDef list \<Rightarrow> AcsiReport result" where
  "report_from_mms_data es data_defs =
     bindE (read_next read_text es) (\<lambda>(ident, es).
     bindE (read_next read_bits es) (\<lambda>(bits, es).
       if length bits \<noteq> 10 then Raise (Exception ''invalid optional fields size'')
       else
         bindE (mapE OptionalField_of (set_indexes (butlast bits))) (\<lambda>xs.
           let has = (\<lambda>x. x \<in> set xs); segmentation = last bits in
           bindE (read_when (has OptionalField_SEQUENCE_NUMBER) read_unsigned es) (\<lambda>(sequence_number, es).
           bindE (read_when (has OptionalField_REPORT_TIME_STAMP) read_binary_time es) (\<lambda>(time_of_entry, es).
           bindE (read_when (has OptionalField_DATA_SET_NAME) (\<lambda>e. bindE (read_text e) dataset_ref_from_str) es) (\<lambda>(dataset, es).
           bindE (read_when (has OptionalField_BUFFER_OVERFLOW) read_boolean es) (\<lambda>(buffer_overflow, es).
           bindE (read_when (has OptionalField_ENTRY_ID) read_octets es) (\<lambda>(entry_id, es).
           bindE (read_when (has OptionalField_CONF_REVISION) read_unsigned es) (\<lambda>(conf_revision, es).
           bindE (read_when segmentation read_unsigned es) (\<lambda>(subsequence_number, es).
           bindE (read_when segmentation read_boolean es) (\<lambda>(more_segments_follow, es).
           bindE (read_next read_bits es) (\<lambda>(inclusion, es).
             if length inclusion \<noteq> length data_defs then Raise (Exception ''unexpected number of inclusion bits'')
             else
               let defs = included inclusion data_defs in
               bindE (if has OptionalField_DATA_REFERENCE then check_references defs es else Ok es) (\<lambda>es.
               bindE (read_values defs es) (\<lambda>(vs, es).
               bindE (if has OptionalField_REASON_FOR_INCLUSION
                      then bindE (read_reasons defs es) (\<lambda>(rs, _). Ok (map Some rs)) else Ok (map (\<lambda>_. None) defs)) (\<lambda>rs.
                 Ok \<lparr>report_id = ident, report_sequence_number = sequence_number, report_subsequence_number = subsequence_number,
                   report_more_segments_follow = more_segments_follow, report_dataset = dataset,
                   report_buffer_overflow = buffer_overflow, report_conf_revision = conf_revision,
                   report_entry_time = time_of_entry, report_entry_id = entry_id,
                   report_data = map (\<lambda>(def, v, r). \<lparr>data_ref = def_ref def, data_value = v, data_reasons = r\<rparr>)
                     (zip defs (zip vs rs))\<rparr>)))))))))))))))"

end
