(* ===== verification/Iec61850_Codec.thy ===== *)
theory Iec61850_Codec
  imports Iec61850_Encoder
begin

text \<open>
  Properties of the values, control block attributes, commands and reports of the IEC 61850 driver: what is read has its
  type, what is written is read back, and a report is read as a writer of reports laid it out.
\<close>

section \<open>Sets of members as bits\<close>

lemma set_set_indexes: "n \<in> set (set_indexes bs) \<longleftrightarrow> 0 \<le> n \<and> nat n < length bs \<and> bs ! nat n"
  by (auto simp: set_indexes_def image_iff intro!: exI [of _ "nat n"])

context enumeration begin

lemma range_val: "range val = val ` set members"
  by simp

lemma members_of_values:
  assumes "\<And>n. n \<in> set ns \<Longrightarrow> n \<in> range val" "\<And>e. val e \<in> set ns \<longleftrightarrow> e \<in> s"
  shows "\<exists>es. mapE (enum_lookup val members) ns = Ok es \<and> set es = s"
proof -
  have "\<exists>es. mapE (enum_lookup val members) ns = Ok es \<and> set es = {e. val e \<in> set ns}"
    using assms(1)
  proof (induction ns)
    case (Cons n ns)
    then obtain es where es: "mapE (enum_lookup val members) ns = Ok es" "set es = {e. val e \<in> set ns}" by auto
    from Cons.prems [of n] obtain e where n: "n = val e" by auto
    have "set (e # es) = {e. val e \<in> set (n # ns)}" by (auto simp: n es(2))
    then show ?case by (simp add: n of_value es(1))
  qed simp
  with assms(2) show ?thesis by auto
qed

end

section \<open>Values of a type\<close>

fun basic_ok :: "BasicValueType \<Rightarrow> AcsiValue \<Rightarrow> bool" where
  "basic_ok t (BoolValue _) \<longleftrightarrow> t = BASIC_BOOLEAN"
| "basic_ok t (IntValue _) \<longleftrightarrow> t = BASIC_INTEGER \<or> t = BASIC_UNSIGNED"
| "basic_ok t (FloatValue _) \<longleftrightarrow> t = BASIC_FLOAT"
| "basic_ok t (BitsValue _) \<longleftrightarrow> t = BASIC_BIT_STRING"
| "basic_ok t (BytesValue _) \<longleftrightarrow> t = BASIC_OCTET_STRING"
| "basic_ok t (StrValue _) \<longleftrightarrow> t = BASIC_VISIBLE_STRING \<or> t = BASIC_MMS_STRING"
| "basic_ok t _ \<longleftrightarrow> False"

definition analogue_ok :: "Analogue \<Rightarrow> bool" where
  "analogue_ok a \<longleftrightarrow> analogue_i a \<noteq> None \<or> analogue_f a \<noteq> None"

fun acsi_ok :: "AcsiValueType \<Rightarrow> AcsiValue \<Rightarrow> bool" where
  "acsi_ok t (QualityValue _) \<longleftrightarrow> t = ACSI_QUALITY"
| "acsi_ok t (TimestampValue _) \<longleftrightarrow> t = ACSI_TIMESTAMP"
| "acsi_ok t (DoublePointValue _) \<longleftrightarrow> t = ACSI_DOUBLE_POINT"
| "acsi_ok t (DirectionValue _) \<longleftrightarrow> t = ACSI_DIRECTION"
| "acsi_ok t (SeverityValue _) \<longleftrightarrow> t = ACSI_SEVERITY"
| "acsi_ok t (AnalogueValue a) \<longleftrightarrow> t = ACSI_ANALOGUE \<and> analogue_ok a"
| "acsi_ok t (VectorValue x) \<longleftrightarrow> t = ACSI_VECTOR \<and> analogue_ok (vector_magnitude x) \<and> pred_option analogue_ok (vector_angle x)"
| "acsi_ok t (StepPositionValue _) \<longleftrightarrow> t = ACSI_STEP_POSITION"
| "acsi_ok t (BinaryControlValue _) \<longleftrightarrow> t = ACSI_BINARY_CONTROL"
| "acsi_ok t _ \<longleftrightarrow> False"

fun value_ok :: "AcsiType \<Rightarrow> AcsiValue \<Rightarrow> bool"
  and items_ok :: "(pystr \<times> AcsiType) list \<Rightarrow> (pystr \<times> AcsiValue) list \<Rightarrow> bool" where
  "value_ok (BasicType t) v \<longleftrightarrow> basic_ok t v"
| "value_ok (AcsiType t) v \<longleftrightarrow> acsi_ok t v"
| "value_ok (ArrayType t n) v \<longleftrightarrow> (case v of ArrayValue vs \<Rightarrow> int (length vs) = n \<and> list_all (value_ok t) vs | _ \<Rightarrow> False)"
| "value_ok (StructType ts) v \<longleftrightarrow> (case v of StructValue kvs \<Rightarrow> distinct (map fst kvs) \<and> items_ok ts kvs | _ \<Rightarrow> False)"
| "items_ok ((k, t) # ts) ((k', v) # kvs) \<longleftrightarrow> k' = k \<and> value_ok t v \<and> items_ok ts kvs"
| "items_ok [] [] \<longleftrightarrow> True"
| "items_ok _ _ \<longleftrightarrow> False"

text \<open>The names of the elements of a structure differ.\<close>

fun type_ok :: "AcsiType \<Rightarrow> bool"
  and item_types_ok :: "(pystr \<times> AcsiType) list \<Rightarrow> bool" where
  "type_ok (BasicType _) \<longleftrightarrow> True"
| "type_ok (AcsiType _) \<longleftrightarrow> True"
| "type_ok (ArrayType t _) \<longleftrightarrow> type_ok t"
| "type_ok (StructType ts) \<longleftrightarrow> distinct (map fst ts) \<and> item_types_ok ts"
| "item_types_ok [] \<longleftrightarrow> True"
| "item_types_ok ((_, t) # ts) \<longleftrightarrow> type_ok t \<and> item_types_ok ts"

lemmas raised_type = unexpected_type_def unexpected_data_def

section \<open>What is written is read\<close>

lemma mapE_as_bool [simp]: "mapE as_bool (map BoolValue bs) = Ok bs"
  by (induction bs) simp_all

lemma basic_roundtrip:
  "basic_ok t v \<Longrightarrow> \<exists>d. basic_to_mms_data t v = Ok (d :: 'oid MmsData) \<and> basic_from_mms_data t d = Ok v"
  by (cases v) (auto simp: basic_to_mms_data_def basic_from_mms_data_def)

lemma length_quality_to_bits [simp]: "length (quality_to_bits q) = 13"
  by (simp add: quality_to_bits_def bits_of_two_def QualityDetail_members_def)

lemma quality_details_bits:
  "\<exists>es. mapE QualityDetail_of (filter (\<lambda>i. 2 \<le> i \<and> i \<le> 9) (set_indexes (quality_to_bits q))) = Ok es \<and> set es = quality_details q"
  unfolding QualityDetail_of_def
proof (rule QualityDetail.members_of_values)
  fix n assume "n \<in> set (filter (\<lambda>i. 2 \<le> i \<and> i \<le> 9) (set_indexes (quality_to_bits q)))"
  then show "n \<in> range QualityDetail_value"
    by (simp only: QualityDetail.range_val) (simp add: QualityDetail_members_def set_set_indexes quality_to_bits_def bits_of_two_def; arith)
next
  fix e show "QualityDetail_value e \<in> set (filter (\<lambda>i. 2 \<le> i \<and> i \<le> 9) (set_indexes (quality_to_bits q))) \<longleftrightarrow> e \<in> quality_details q"
    by (cases e) (simp_all add: set_set_indexes QualityDetail_members_def quality_to_bits_def bits_of_two_def)
qed

lemma two_bits_of_two:
  "two_bits (bits_of_two (QualityValidity_value x)) = Ok (QualityValidity_value x)"
  "two_bits (bits_of_two (DoublePoint_value y)) = Ok (DoublePoint_value y)"
  "two_bits (bits_of_two (BinaryControl_value z)) = Ok (BinaryControl_value z)"
  subgoal by (cases x) (simp_all add: two_bits_def bits_of_two_def)
  subgoal by (cases y) (simp_all add: two_bits_def bits_of_two_def)
  subgoal by (cases z) (simp_all add: two_bits_def bits_of_two_def)
  done

lemma quality_roundtrip: "quality_from_bits (quality_to_bits q) = Ok q"
proof -
  have bits: "take 2 (quality_to_bits q) = bits_of_two (QualityValidity_value (quality_validity q))"
    "quality_to_bits q ! 10 = (QualitySource_value (quality_source q) \<noteq> 0)"
    "quality_to_bits q ! 11 = quality_test q" "quality_to_bits q ! 12 = quality_operator_blocked q"
    by (simp_all add: quality_to_bits_def bits_of_two_def QualityDetail_members_def)
  have source: "QualitySource_of (of_bool (QualitySource_value s \<noteq> 0)) = Ok s" for s
    using QualitySource_of_value [of s] by (cases s) simp_all
  from quality_details_bits [of q] obtain es
    where "mapE QualityDetail_of (filter (\<lambda>i. 2 \<le> i \<and> i \<le> 9) (set_indexes (quality_to_bits q))) = Ok es"
      "set es = quality_details q" by blast
  then show ?thesis by (simp add: quality_from_bits_def bits two_bits_of_two source del: of_bool_eq_0_iff)
qed

lemma analogue_roundtrip:
  "analogue_ok a \<Longrightarrow> \<exists>d. analogue_to_mms_data a = Ok (d :: 'oid MmsData) \<and> analogue_from_mms_data d = Ok a"
  by (cases a) (auto simp: analogue_ok_def analogue_to_mms_data_def analogue_from_mms_data_def one_or_two_def split: option.splits)

lemma acsi_roundtrip:
  assumes "acsi_ok t v" shows "\<exists>d. acsi_to_mms_data t v = Ok (d :: 'oid MmsData) \<and> acsi_from_mms_data t d = Ok v"
proof (cases v)
  case (AnalogueValue a)
  with assms analogue_roundtrip [of a, where ?'oid = 'oid] show ?thesis
    by (auto simp: acsi_to_mms_data_def acsi_from_mms_data_def)
next
  case (VectorValue x)
  with assms have t: "t = ACSI_VECTOR" and ok: "analogue_ok (vector_magnitude x)" by simp_all
  from analogue_roundtrip [OF ok, where ?'oid = 'oid] obtain m :: "'oid MmsData"
    where m: "analogue_to_mms_data (vector_magnitude x) = Ok m" "analogue_from_mms_data m = Ok (vector_magnitude x)" by blast
  show ?thesis
  proof (cases "vector_angle x")
    case None
    with VectorValue t m show ?thesis by (simp add: acsi_to_mms_data_def acsi_from_mms_data_def one_or_two_def)
  next
    case (Some a)
    with assms VectorValue analogue_roundtrip [of a, where ?'oid = 'oid] obtain d :: "'oid MmsData"
      where "analogue_to_mms_data a = Ok d" "analogue_from_mms_data d = Ok a" by auto
    with Some VectorValue t m show ?thesis by (simp add: acsi_to_mms_data_def acsi_from_mms_data_def one_or_two_def)
  qed
next
  case (StepPositionValue p)
  with assms show ?thesis
    by (auto simp: acsi_to_mms_data_def acsi_from_mms_data_def one_or_two_def basic_from_mms_data_def split: option.splits)
qed (use assms in \<open>simp_all add: acsi_to_mms_data_def acsi_from_mms_data_def quality_roundtrip two_bits_of_two\<close>)

lemma value_roundtrip:
  "value_ok t v \<Longrightarrow> \<exists>d. value_to_mms_data t v = Ok (d :: 'oid MmsData) \<and> value_from_mms_data t d = Ok v"
  "v = StructValue (pre @ kvs) \<Longrightarrow> distinct (map fst (pre @ kvs)) \<Longrightarrow> items_ok ts kvs \<Longrightarrow>
    \<exists>ds. values_to_mms_data ts v = Ok (ds :: 'oid MmsData list) \<and> length ds = length ts \<and>
      values_from_mms_data ts ds pre = Ok (pre @ kvs)"
proof (induction t v and ts v arbitrary: and pre kvs rule: value_to_mms_data_values_to_mms_data.induct [where ?'oid = 'oid])
  case (1 t v)
  with basic_roundtrip [of t v, where ?'oid = 'oid] show ?case by simp
next
  case (2 t v)
  with acsi_roundtrip [of t v, where ?'oid = 'oid] show ?case by simp
next
  case (3 t n v)
  then obtain vs where v: "v = ArrayValue vs" "int (length vs) = n" "list_all (value_ok t) vs" by (cases v) auto
  have "\<forall>x\<in>set vs. \<exists>d. value_to_mms_data t x = Ok (d :: 'oid MmsData) \<and> value_from_mms_data t d = Ok x"
    using 3 v by (auto simp: list_all_iff)
  then obtain g where g: "\<forall>x\<in>set vs. value_to_mms_data t x = Ok (g x :: 'oid MmsData) \<and> value_from_mms_data t (g x) = Ok x"
    by metis
  then have to_data: "mapE (value_to_mms_data t) vs = Ok (map g vs)" by (auto intro: mapE_Ok)
  from g have from_data: "mapE (value_from_mms_data t) (map g vs) = Ok vs" by (induction vs) auto
  from to_data from_data v show ?case by simp
next
  case (4 ts v)
  then obtain kvs where v: "v = StructValue kvs" "distinct (map fst kvs)" "items_ok ts kvs" by (cases v) auto
  from 4(1) [of "[]" kvs] v show ?case by auto
next
  case (5 v)
  then show ?case by (cases kvs) simp_all
next
  case (6 k t ts v)
  then obtain x kvs' where kvs: "kvs = (k, x) # kvs'" "value_ok t x" "items_ok ts kvs'"
    by (cases kvs) auto
  have fresh: "k \<notin> fst ` set pre" using 6(4) by (auto simp: kvs)
  then have item: "dict_item v k = Ok x" by (simp add: 6(3) kvs map_add_def map_of_eq_None_iff [symmetric])
  from 6(1) [OF item kvs(2)] obtain d :: "'oid MmsData"
    where d: "value_to_mms_data t x = Ok d" "value_from_mms_data t d = Ok x" by blast
  from item d have "bindE (dict_item v k) (value_to_mms_data t) = Ok d" by simp
  from 6(2) [OF this, of "pre @ [(k, x)]" kvs'] 6(3,4) kvs obtain ds :: "'oid MmsData list"
    where ds: "values_to_mms_data ts v = Ok ds" "length ds = length ts"
      "values_from_mms_data ts ds (pre @ [(k, x)]) = Ok (pre @ kvs)" by auto
  from fresh have "dict_set k x pre = pre @ [(k, x)]" by (intro dict_set_new) auto
  with item d ds show ?case by simp
qed


section \<open>What is read has its type\<close>

lemma basic_read_ok: "basic_from_mms_data t d = Ok v \<Longrightarrow> basic_ok t v"
  by (cases t; cases d) (auto simp: basic_from_mms_data_def raised_type)

lemma analogue_elements_ok:
  "analogue_elements a ds = Ok b \<Longrightarrow> ds \<noteq> [] \<or> analogue_ok a \<Longrightarrow> analogue_ok b"
  by (induction a ds rule: analogue_elements.induct) (auto simp: analogue_ok_def raised_type)

lemma one_or_two_not_Nil: "one_or_two d = Ok ds \<Longrightarrow> ds \<noteq> []"
  by (auto simp: one_or_two_def raised_type split: MmsData.splits if_splits)

lemma analogue_read_ok: "analogue_from_mms_data d = Ok a \<Longrightarrow> analogue_ok a"
  using analogue_elements_ok one_or_two_not_Nil by (fastforce simp: analogue_from_mms_data_def)

lemma vector_read_ok:
  assumes "acsi_from_mms_data ACSI_VECTOR (d :: 'oid MmsData) = Ok v" shows "acsi_ok ACSI_VECTOR v"
proof -
  from assms obtain m a and ds :: "'oid MmsData list" where m: "analogue_from_mms_data (hd ds) = Ok m" and v: "v = VectorValue \<lparr>vector_magnitude = m, vector_angle = a\<rparr>"
    and a: "(case tl ds of [] \<Rightarrow> Ok None | e # _ \<Rightarrow> bindE (analogue_from_mms_data e) (\<lambda>a. Ok (Some a))) = Ok a"
    by (auto simp: acsi_from_mms_data_def)
  from m have "analogue_ok m" by (rule analogue_read_ok)
  moreover have "pred_option analogue_ok a"
  proof (cases "tl ds")
    case (Cons e es)
    with a obtain b where "analogue_from_mms_data e = Ok b" "a = Some b" by auto
    then show ?thesis by (simp add: analogue_read_ok)
  qed (use a in simp)
  ultimately show ?thesis by (simp add: v)
qed

lemma acsi_read_ok: "acsi_from_mms_data t d = Ok v \<Longrightarrow> acsi_ok t v"
  using vector_read_ok [of d v]
  by (cases t) (auto simp: acsi_from_mms_data_def raised_type analogue_read_ok split: MmsData.splits list.splits)

lemma value_read_ok:
  "value_from_mms_data t (d :: 'oid MmsData) = Ok v \<Longrightarrow> type_ok t \<Longrightarrow> value_ok t v"
  "values_from_mms_data ts (ds :: 'oid MmsData list) pre = Ok kvs \<Longrightarrow> length ds = length ts \<Longrightarrow> item_types_ok ts \<Longrightarrow>
    distinct (map fst pre @ map fst ts) \<Longrightarrow>
    \<exists>kvs'. kvs = pre @ kvs' \<and> items_ok ts kvs' \<and> map fst kvs' = map fst ts"
proof (induction t d and ts ds pre arbitrary: v and kvs rule: value_from_mms_data_values_from_mms_data.induct)
  case (1 t d)
  then show ?case by (simp add: basic_read_ok)
next
  case (2 t d)
  then show ?case by (simp add: acsi_read_ok)
next
  case (3 t n d)
  from 3(2) obtain ds vs where d: "d = ArrayData ds" "int (length ds) = n" "mapE (value_from_mms_data t) ds = Ok vs" "v = ArrayValue vs"
    by (auto simp: raised_type split: MmsData.splits if_splits)
  from d(3) have rel: "list_all2 (\<lambda>d v. value_from_mms_data t d = Ok v) ds vs" by (simp add: mapE_Ok_iff)
  have "list_all (value_ok t) vs"
    unfolding list_all_iff
  proof
    fix x assume "x \<in> set vs"
    then obtain i where "i < length vs" "x = vs ! i" by (auto simp: in_set_conv_nth)
    with rel have "ds ! i \<in> set ds" "value_from_mms_data t (ds ! i) = Ok x" by (auto simp: list_all2_conv_all_nth)
    with 3(1) [OF d(1)] 3(3) d(2) show "value_ok t x" by auto
  qed
  with d rel show ?case by (auto dest: list_all2_lengthD)
next
  case (4 ts d)
  from 4(2) obtain ds kvs where d: "d = StructureData ds" "length ds = length ts" "values_from_mms_data ts ds [] = Ok kvs"
      "v = StructValue kvs"
    by (auto simp: raised_type split: MmsData.splits if_splits)
  with 4(1) [OF d(1) _ d(3)] 4(3) show ?case by auto
next
  case (5 k t ts d ds pre)
  from 5(3) obtain x where x: "value_from_mms_data t d = Ok x" "values_from_mms_data ts ds (dict_set k x pre) = Ok kvs" by auto
  have "k \<notin> fst ` set pre" using 5(6) by auto
  then have new: "dict_set k x pre = pre @ [(k, x)]" by (rule dict_set_new)
  from 5(2) [OF x] 5(4-6) obtain kvs' where "kvs = pre @ (k, x) # kvs'" "items_ok ts kvs'" "map fst kvs' = map fst ts"
    by (auto simp: new)
  moreover from 5(1) [OF x(1)] 5(5) have "value_ok t x" by simp
  ultimately show ?case by (intro exI [of _ "(k, x) # kvs'"]) simp
qed auto

text \<open>
  C37: A value read from MMS data as a type has that type, with every nested element, unless the type gives two elements of a
  structure one name: so it can be written as that type, and what is written is read as the same value again.
\<close>

theorem decoded_value_typed:
  assumes "value_from_mms_data t (d :: 'oid MmsData) = Ok v" "type_ok t"
  shows "value_ok t v \<and> (\<exists>d'. value_to_mms_data t v = Ok (d' :: 'oid MmsData) \<and> value_from_mms_data t d' = Ok v)"
  using value_read_ok(1) [OF assms] value_roundtrip(1) [of t v, where ?'oid = 'oid] by blast

definition sample_type :: AcsiType where
  "sample_type = StructType [(py_str ''q'', AcsiType ACSI_QUALITY), (py_str ''mag'', AcsiType ACSI_ANALOGUE)]"

definition sample_data :: "unit MmsData" where
  "sample_data = StructureData [BitStringData ([False, True] @ replicate 7 False @ [True, True, False, False]), StructureData [IntegerData 5]]"

definition sample_value :: AcsiValue where
  "sample_value = StructValue
     [(py_str ''q'', QualityValue \<lparr>quality_validity = QualityValidity_INVALID, quality_details = {QualityDetail_INACCURATE},
        quality_source = QualitySource_SUBSTITUTED, quality_test = False, quality_operator_blocked = False\<rparr>),
      (py_str ''mag'', AnalogueValue \<lparr>analogue_i = Some 5, analogue_f = None\<rparr>)]"

lemma sample_read: "value_from_mms_data sample_type sample_data = Ok sample_value"
  by code_simp

theorem decoded_value_typed_witness:
  "value_ok sample_type sample_value \<and> (\<exists>d'. value_to_mms_data sample_type sample_value = Ok (d' :: unit MmsData) \<and>
     value_from_mms_data sample_type d' = Ok sample_value)"
proof -
  have "type_ok sample_type" by (simp add: sample_type_def py_str_def)
  from decoded_value_typed [OF sample_read this] show ?thesis .
qed

text \<open>
  C38: A value of a type, basic or of the standard, an array or a structure of any depth with elements of different names, is
  written as MMS data which is read back as the same value.
\<close>

theorem values_61850_roundtrip:
  assumes "value_ok t v"
  shows "bindE (value_to_mms_data t v) (\<lambda>d :: 'oid MmsData. value_from_mms_data t d) = Ok v"
  using value_roundtrip(1) [OF assms, where ?'oid = 'oid] by auto

theorem values_61850_roundtrip_witness:
  "bindE (value_to_mms_data (ArrayType sample_type 2) (ArrayValue [sample_value, sample_value]))
     (\<lambda>d :: unit MmsData. value_from_mms_data (ArrayType sample_type 2) d) = Ok (ArrayValue [sample_value, sample_value])"
  by (rule values_61850_roundtrip) (simp add: sample_type_def sample_value_def analogue_ok_def py_str_def)

section \<open>Attributes of report control blocks\<close>

fun attr_ok :: "RcbAttrType \<Rightarrow> RcbAttrValue \<Rightarrow> bool" where
  "attr_ok t (PlainAttr v) \<longleftrightarrow> (case rcb_plain_type t of Some b \<Rightarrow> basic_ok b v | None \<Rightarrow> False)"
| "attr_ok t (DatasetAttr r) \<longleftrightarrow> t = RCB_DATASET \<and> pred_option dataset_ref_ok r"
| "attr_ok t (OptionalFieldsAttr _) \<longleftrightarrow> t = RCB_OPTIONAL_FIELDS"
| "attr_ok t (TriggerOptionsAttr _) \<longleftrightarrow> t = RCB_TRIGGER_OPTIONS"
| "attr_ok t (EntryTimeAttr _) \<longleftrightarrow> t = RCB_TIME_OF_ENTRY"

lemma reads:
  "read_text (VisibleStringData s) = Ok s"
  "read_bits (BitStringData bs) = Ok bs"
  "read_unsigned (UnsignedData n) = Ok n"
  "read_integer (IntegerData n) = Ok n"
  "read_boolean (BooleanData b) = Ok b"
  "read_octets (OctetStringData os) = Ok os"
  "read_timestamp (UtcTimeData u) = Ok u"
  "read_binary_time (BinaryTimeData time) = Ok time"
  by (simp_all add: read_text_def read_bits_def read_unsigned_def read_integer_def read_boolean_def read_octets_def
    read_timestamp_def read_binary_time_def basic_from_mms_data_def acsi_from_mms_data_def)

lemma optional_fields_bits:
  "\<exists>es. mapE OptionalField_of (filter (\<lambda>i. 1 \<le> i \<and> i \<le> 8) (set_indexes ([False] @ map (\<lambda>x. x \<in> s) OptionalField_members @ [b]))) = Ok es \<and> set es = s"
  unfolding OptionalField_of_def
proof (rule OptionalField.members_of_values)
  fix n assume "n \<in> set (filter (\<lambda>i. 1 \<le> i \<and> i \<le> 8) (set_indexes ([False] @ map (\<lambda>x. x \<in> s) OptionalField_members @ [b])))"
  then show "n \<in> range OptionalField_value"
    by (simp only: OptionalField.range_val) (simp add: OptionalField_members_def set_set_indexes; arith)
next
  fix e show "OptionalField_value e \<in> set (filter (\<lambda>i. 1 \<le> i \<and> i \<le> 8) (set_indexes ([False] @ map (\<lambda>x. x \<in> s) OptionalField_members @ [b]))) \<longleftrightarrow> e \<in> s"
    by (cases e) (simp_all add: set_set_indexes OptionalField_members_def)
qed

lemma trigger_options_bits:
  "\<exists>es. mapE TriggerCondition_of (filter (\<lambda>i. 1 \<le> i) (set_indexes ([False] @ map (\<lambda>x. x \<in> s) TriggerCondition_members))) = Ok es \<and> set es = s"
  unfolding TriggerCondition_of_def
proof (rule TriggerCondition.members_of_values)
  fix n assume "n \<in> set (filter (\<lambda>i. 1 \<le> i) (set_indexes ([False] @ map (\<lambda>x. x \<in> s) TriggerCondition_members)))"
  then show "n \<in> range TriggerCondition_value"
    by (simp only: TriggerCondition.range_val) (simp add: TriggerCondition_members_def set_set_indexes; arith)
next
  fix e show "TriggerCondition_value e \<in> set (filter (\<lambda>i. 1 \<le> i) (set_indexes ([False] @ map (\<lambda>x. x \<in> s) TriggerCondition_members))) \<longleftrightarrow> e \<in> s"
    by (cases e) (simp_all add: set_set_indexes TriggerCondition_members_def)
qed

lemma dataset_text_not_Nil: "dataset_ref_to_str r \<noteq> []"
  by (cases r) simp_all

lemma rcb_attr_roundtrip:
  assumes "attr_ok t a"
  shows "bindE (rcb_attr_value_to_mms_data t a) (\<lambda>d :: 'oid MmsData. rcb_attr_value_from_mms_data t d) = Ok a"
proof (cases a)
  case (PlainAttr v)
  with assms obtain b where b: "rcb_plain_type t = Some b" "basic_ok b v" by (auto split: option.splits)
  from basic_roundtrip [OF b(2), where ?'oid = 'oid] PlainAttr b(1) show ?thesis
    by (auto simp: rcb_attr_value_to_mms_data_def rcb_attr_value_from_mms_data_def)
next
  case (DatasetAttr r)
  with assms show ?thesis
    by (cases r) (simp_all add: rcb_attr_value_to_mms_data_def rcb_attr_value_from_mms_data_def rcb_plain_type_def reads
      dataset_ref_str dataset_text_not_Nil)
next
  case (OptionalFieldsAttr s)
  have "length ([False] @ map (\<lambda>x. x \<in> s) OptionalField_members @ [False]) = 10" by (simp add: OptionalField_members_def)
  with optional_fields_bits [of s False] OptionalFieldsAttr assms show ?thesis
    by (auto simp: rcb_attr_value_to_mms_data_def rcb_attr_value_from_mms_data_def rcb_plain_type_def reads)
next
  case (TriggerOptionsAttr s)
  have "length ([False] @ map (\<lambda>x. x \<in> s) TriggerCondition_members) = 6" by (simp add: TriggerCondition_members_def)
  with trigger_options_bits [of s] TriggerOptionsAttr assms show ?thesis
    by (auto simp: rcb_attr_value_to_mms_data_def rcb_attr_value_from_mms_data_def rcb_plain_type_def reads)
next
  case (EntryTimeAttr u)
  with assms show ?thesis
    by (simp add: rcb_attr_value_to_mms_data_def rcb_attr_value_from_mms_data_def rcb_plain_type_def reads)
qed

section \<open>Commands\<close>

definition command_ok :: "AcsiType \<Rightarrow> bool \<Rightarrow> AcsiCommand \<Rightarrow> bool" where
  "command_ok t with_checks cmd \<longleftrightarrow> value_ok t (command_value cmd) \<and> (with_checks \<or> command_checks cmd = {})"

lemma read_next_Cons: "f d = Ok x \<Longrightarrow> read_next f (d # es) = Ok (x, es)"
  by (simp add: read_next_def)

text \<open>An element that is there where there is something to say.\<close>

definition opt_data :: "('a \<Rightarrow> 'b) \<Rightarrow> 'a option \<Rightarrow> 'b list" where
  "opt_data g x = (case x of None \<Rightarrow> [] | Some y \<Rightarrow> [g y])"

lemma read_when_opt: "(\<And>y. x = Some y \<Longrightarrow> f (g y) = Ok y) \<Longrightarrow> read_when (x \<noteq> None) f (opt_data g x @ es) = Ok (x, es)"
  by (cases x) (simp_all add: read_when_def opt_data_def read_next_def)

lemma origin_roundtrip: "origin_from_mms_data (origin_to_mms_data r) = Ok r"
  by (simp add: origin_from_mms_data_def origin_to_mms_data_def read_next_def reads)

lemma checks_bits:
  "\<exists>es. mapE Check_of (set_indexes (map (\<lambda>x. x \<in> s) Check_members)) = Ok es \<and> set es = s"
  unfolding Check_of_def
proof (rule Check.members_of_values)
  fix n assume "n \<in> set (set_indexes (map (\<lambda>x. x \<in> s) Check_members))"
  then show "n \<in> range Check_value"
    by (simp only: Check.range_val) (simp add: Check_members_def set_set_indexes; arith)
next
  fix e show "Check_value e \<in> set (set_indexes (map (\<lambda>x. x \<in> s) Check_members)) \<longleftrightarrow> e \<in> s"
    by (cases e) (simp_all add: set_set_indexes Check_members_def)
qed

lemma read_checks:
  assumes "with_checks \<or> s = {}"
  shows "(if with_checks then
      bindE (read_next read_bits (if with_checks then [BitStringData (map (\<lambda>x. x \<in> s) Check_members) :: 'oid MmsData] else []))
        (\<lambda>(bits, _). bindE (mapE Check_of (set_indexes bits)) (\<lambda>xs. Ok (set xs)))
    else Ok {}) = Ok s"
  using assms checks_bits [of s] by (auto simp: read_next_def reads)

text \<open>
  C39: A command, its value of any type, with or without the time of operation and with or without the checks, is written as MMS
  data which is read back as the same command, the number of elements telling whether there is a time of operation.
\<close>

theorem command_61850_roundtrip:
  assumes "command_ok t with_checks cmd"
  shows "bindE (command_to_mms_data cmd t with_checks) (\<lambda>d :: 'oid MmsData. command_from_mms_data d t with_checks) = Ok cmd"
proof -
  from assms have ok: "value_ok t (command_value cmd)" and checks: "with_checks \<or> command_checks cmd = {}"
    by (simp_all add: command_ok_def)
  from value_roundtrip(1) [OF ok, where ?'oid = 'oid] obtain v :: "'oid MmsData"
    where v: "value_to_mms_data t (command_value cmd) = Ok v" "value_from_mms_data t v = Ok (command_value cmd)" by blast
  show ?thesis
    using read_checks [OF checks, where ?'oid = 'oid]
    by (cases "command_operate_time cmd")
      (auto simp: command_to_mms_data_def command_from_mms_data_def v read_next_def read_when_def reads origin_roundtrip)
qed

definition sample_command :: AcsiCommand where
  "sample_command =
     \<lparr>command_value = BoolValue True, command_operate_time = None,
      command_origin = \<lparr>origin_category = OriginCategory_REMOTE_CONTROL, origin_identification = []\<rparr>, command_control_number = 1,
      command_t = \<lparr>utc_value = 0, utc_leap_second = False, utc_clock_failure = False, utc_not_synchronized = False, utc_accuracy = None\<rparr>,
      command_test = False, command_checks = {Check_INTERLOCK}\<rparr>"

theorem command_61850_roundtrip_witness:
  "bindE (command_to_mms_data sample_command (BasicType BASIC_BOOLEAN) True)
     (\<lambda>d :: unit MmsData. command_from_mms_data d (BasicType BASIC_BOOLEAN) True) = Ok sample_command"
  by (rule command_61850_roundtrip) (simp add: command_ok_def sample_command_def)

section \<open>Reports\<close>

text \<open>
  A writer of reports, as the standard lays them out: the driver has only the reader. A field is there where the report
  has it; references and reasons are there for all included data or for none.
\<close>

fun reported :: "bool \<Rightarrow> bool \<Rightarrow> AcsiReport \<Rightarrow> OptionalField \<Rightarrow> bool" where
  "reported refs reasons r OptionalField_SEQUENCE_NUMBER \<longleftrightarrow> report_sequence_number r \<noteq> None"
| "reported refs reasons r OptionalField_REPORT_TIME_STAMP \<longleftrightarrow> report_entry_time r \<noteq> None"
| "reported refs reasons r OptionalField_REASON_FOR_INCLUSION \<longleftrightarrow> reasons"
| "reported refs reasons r OptionalField_DATA_SET_NAME \<longleftrightarrow> report_dataset r \<noteq> None"
| "reported refs reasons r OptionalField_DATA_REFERENCE \<longleftrightarrow> refs"
| "reported refs reasons r OptionalField_BUFFER_OVERFLOW \<longleftrightarrow> report_buffer_overflow r \<noteq> None"
| "reported refs reasons r OptionalField_ENTRY_ID \<longleftrightarrow> report_entry_id r \<noteq> None"
| "reported refs reasons r OptionalField_CONF_REVISION \<longleftrightarrow> report_conf_revision r \<noteq> None"

definition data_ref_text :: "DataRef \<Rightarrow> pystr" where
  "data_ref_text ref =
     ref_logical_device ref @ slash # ref_logical_node ref @ dollar # ref_fc ref @ concat (map name_text (ref_names ref))"

definition reasons_data :: "ReportData \<Rightarrow> 'oid MmsData" where
  "reasons_data x =
     BitStringData ([False] @ map (\<lambda>y. case data_reasons x of None \<Rightarrow> False | Some s \<Rightarrow> y \<in> s) ReportReason_members)"

definition report_elements :: "bool \<Rightarrow> bool \<Rightarrow> bool list \<Rightarrow> DataDef list \<Rightarrow> AcsiReport \<Rightarrow> 'oid MmsData list result" where
  "report_elements refs reasons inclusion data_defs r =
     bindE (mapE (\<lambda>(def, x). value_to_mms_data (def_value_type def) (data_value x)) (zip (included inclusion data_defs) (report_data r))) (\<lambda>vs.
       Ok ([VisibleStringData (report_id r),
            BitStringData (([False] @ map (reported refs reasons r) OptionalField_members) @ [report_subsequence_number r \<noteq> None])] @
           opt_data UnsignedData (report_sequence_number r) @
           opt_data BinaryTimeData (report_entry_time r) @
           opt_data (\<lambda>s. VisibleStringData (dataset_ref_to_str s)) (report_dataset r) @
           opt_data BooleanData (report_buffer_overflow r) @
           opt_data OctetStringData (report_entry_id r) @
           opt_data UnsignedData (report_conf_revision r) @
           opt_data UnsignedData (report_subsequence_number r) @
           opt_data BooleanData (report_more_segments_follow r) @
           [BitStringData inclusion] @
           (if refs then map (\<lambda>def. VisibleStringData (data_ref_text (def_ref def))) (included inclusion data_defs) else []) @
           vs @
           (if reasons then map reasons_data (report_data r) else [])))"

definition report_ok :: "bool \<Rightarrow> bool \<Rightarrow> bool list \<Rightarrow> DataDef list \<Rightarrow> AcsiReport \<Rightarrow> bool" where
  "report_ok refs reasons inclusion data_defs r \<longleftrightarrow>
     length inclusion = length data_defs \<and> pred_option dataset_ref_ok (report_dataset r) \<and>
     (report_more_segments_follow r \<noteq> None) = (report_subsequence_number r \<noteq> None) \<and>
     (refs \<longrightarrow> list_all (\<lambda>def. data_ref_ok (def_ref def)) data_defs) \<and>
     list_all2 (\<lambda>def x. data_ref x = def_ref def \<and> value_ok (def_value_type def) (data_value x) \<and> (data_reasons x \<noteq> None) = reasons)
       (included inclusion data_defs) (report_data r)"

lemma data_ref_text_read: "data_ref_ok r \<Longrightarrow> data_ref_from_str (data_ref_text r) = Ok r"
  using data_ref_object_name [of r]
  by (simp add: data_ref_from_str_def data_ref_to_object_name_def data_ref_ok_def data_ref_text_def)

lemma included_subset: "set (included inclusion data_defs) \<subseteq> set data_defs"
  by (auto simp: included_def dest: set_zip_rightD)

lemma check_references_written:
  "list_all (\<lambda>def. data_ref_ok (def_ref def)) defs \<Longrightarrow>
    check_references defs (map (\<lambda>def. VisibleStringData (data_ref_text (def_ref def))) defs @ es) = Ok es"
  by (induction defs) (simp_all add: read_next_def reads data_ref_text_read)

lemma read_values_written:
  assumes "list_all2 (\<lambda>def x. value_ok (def_value_type def) (data_value x)) defs xs"
  shows "\<exists>vs. mapE (\<lambda>(def, x). value_to_mms_data (def_value_type def) (data_value x)) (zip defs xs) = Ok (vs :: 'oid MmsData list) \<and>
    (\<forall>es. read_values defs (vs @ es) = Ok (map data_value xs, es))"
  using assms
proof (induction rule: list_all2_induct)
  case (Cons def defs x xs)
  from value_roundtrip(1) [OF Cons.hyps(1), where ?'oid = 'oid] obtain v :: "'oid MmsData"
    where v: "value_to_mms_data (def_value_type def) (data_value x) = Ok v"
      "value_from_mms_data (def_value_type def) v = Ok (data_value x)" by blast
  from Cons.IH obtain vs :: "'oid MmsData list"
    where "mapE (\<lambda>(def, x). value_to_mms_data (def_value_type def) (data_value x)) (zip defs xs) = Ok vs"
      "\<forall>es. read_values defs (vs @ es) = Ok (map data_value xs, es)" by blast
  with v show ?case by (intro exI [of _ "v # vs"]) (simp add: read_next_def)
qed simp

lemma reason_bits: "\<exists>es. mapE ReportReason_of (set_indexes ([False] @ map (\<lambda>x. x \<in> s) ReportReason_members)) = Ok es \<and> set es = s"
  unfolding ReportReason_of_def
proof (rule ReportReason.members_of_values)
  fix n assume "n \<in> set (set_indexes ([False] @ map (\<lambda>x. x \<in> s) ReportReason_members))"
  then have "0 \<le> n" "n \<noteq> 0" "nat n < 7" by (auto simp: set_set_indexes ReportReason_members_def)
  then show "n \<in> range ReportReason_value" by (simp only: ReportReason.range_val) (simp add: ReportReason_members_def; arith)
next
  fix e show "ReportReason_value e \<in> set (set_indexes ([False] @ map (\<lambda>x. x \<in> s) ReportReason_members)) \<longleftrightarrow> e \<in> s"
    by (cases e) (simp_all add: set_set_indexes ReportReason_members_def)
qed

lemma read_reasons_written:
  "list_all (\<lambda>x. data_reasons x \<noteq> None) xs \<Longrightarrow> length defs = length xs \<Longrightarrow>
    \<exists>rs. read_reasons defs (map reasons_data xs :: 'oid MmsData list) = Ok (rs, []) \<and> map Some rs = map data_reasons xs"
proof (induction xs arbitrary: defs)
  case (Cons x xs)
  then obtain def defs' s where defs: "defs = def # defs'" and s: "data_reasons x = Some s" by (cases defs) auto
  have seven: "take 7 ([False] @ map (\<lambda>x. x \<in> s) ReportReason_members) = [False] @ map (\<lambda>x. x \<in> s) ReportReason_members"
    by (simp add: ReportReason_members_def)
  from reason_bits [of s] have "reasons_of_bits ([False] @ map (\<lambda>x. x \<in> s) ReportReason_members) = Ok s"
    by (auto simp only: reasons_of_bits_def seven bindE_simps)
  moreover from Cons.IH [of defs'] Cons.prems defs obtain rs
    where "read_reasons defs' (map reasons_data xs :: 'oid MmsData list) = Ok (rs, [])" "map Some rs = map data_reasons xs" by auto
  moreover have "(reasons_data x :: 'oid MmsData) = BitStringData ([False] @ map (\<lambda>x. x \<in> s) ReportReason_members)"
    by (simp add: reasons_data_def s)
  ultimately show ?case by (simp add: defs s read_next_def reads)
qed simp

lemma data_assembled:
  "list_all2 (\<lambda>def x. data_ref x = def_ref def) defs xs \<Longrightarrow>
    map (\<lambda>(def, v, r). \<lparr>data_ref = def_ref def, data_value = v, data_reasons = r\<rparr>)
      (zip defs (zip (map data_value xs) (map data_reasons xs))) = xs"
  by (induction rule: list_all2_induct) auto

lemma optional_bits:
  "\<exists>es. mapE OptionalField_of (set_indexes ([False] @ map (\<lambda>x. x \<in> s) OptionalField_members)) = Ok es \<and> set es = s"
  unfolding OptionalField_of_def
proof (rule OptionalField.members_of_values)
  fix n assume "n \<in> set (set_indexes ([False] @ map (\<lambda>x. x \<in> s) OptionalField_members))"
  then have "0 \<le> n" "n \<noteq> 0" "nat n < 9" by (auto simp: set_set_indexes OptionalField_members_def)
  then show "n \<in> range OptionalField_value" by (simp only: OptionalField.range_val) (simp add: OptionalField_members_def; arith)
next
  fix e show "OptionalField_value e \<in> set (set_indexes ([False] @ map (\<lambda>x. x \<in> s) OptionalField_members)) \<longleftrightarrow> e \<in> s"
    by (cases e) (simp_all add: set_set_indexes OptionalField_members_def)
qed

lemma read_when_written:
  "b = (x \<noteq> None) \<Longrightarrow> (\<And>y. x = Some y \<Longrightarrow> f (g y) = Ok y) \<Longrightarrow> read_when b f (opt_data g x @ es) = Ok (x, es)"
  by (simp only: read_when_opt)

text \<open>
  C36: A report that is laid out as the standard says - identification, optional fields, the fields that are there, the inclusion
  bits, references, values and reasons of the included data - is read as that report: the field and the datum that a
  value belongs to are found by position, for all sets of optional fields and all inclusions.
\<close>

theorem report_read_as_laid_out:
  assumes "report_ok refs reasons inclusion data_defs r"
  shows "bindE (report_elements refs reasons inclusion data_defs r) (\<lambda>es :: 'oid MmsData list. report_from_mms_data es data_defs) = Ok r"
proof -
  let ?defs = "included inclusion data_defs" and ?s = "{x. reported refs reasons r x}" and ?xs = "report_data r"
  note ok = assms [unfolded report_ok_def]
  have all: "list_all2 (\<lambda>def x. data_ref x = def_ref def \<and> value_ok (def_value_type def) (data_value x) \<and> (data_reasons x \<noteq> None) = reasons)
      ?defs ?xs" using ok by blast
  have lengths: "length ?defs = length ?xs" using all by (rule list_all2_lengthD)
  have values_ok: "list_all2 (\<lambda>def x. value_ok (def_value_type def) (data_value x)) ?defs ?xs"
    and refs_ok: "list_all2 (\<lambda>def x. data_ref x = def_ref def) ?defs ?xs"
    using all by (auto elim: list_all2_mono)
  from read_values_written [OF values_ok, where ?'oid = 'oid] obtain vs :: "'oid MmsData list"
    where vs: "mapE (\<lambda>(def, x). value_to_mms_data (def_value_type def) (data_value x)) (zip ?defs ?xs) = Ok vs"
      "\<And>es. read_values ?defs (vs @ es) = Ok (map data_value ?xs, es)" by blast
  from optional_bits [of ?s] obtain fs
    where fs: "mapE OptionalField_of (set_indexes ([False] @ map (reported refs reasons r) OptionalField_members)) = Ok fs" "set fs = ?s"
    by auto
  have bits: "length (False # map (reported refs reasons r) OptionalField_members @ [b]) = 10"
    "butlast (False # map (reported refs reasons r) OptionalField_members @ [b]) = [False] @ map (reported refs reasons r) OptionalField_members"
    "last (False # map (reported refs reasons r) OptionalField_members @ [b]) = b" for b
    by (simp_all add: OptionalField_members_def)
  have "set ?defs \<subseteq> set data_defs" by (rule included_subset)
  with ok have included_ok: "refs \<Longrightarrow> list_all (\<lambda>def. data_ref_ok (def_ref def)) ?defs" unfolding list_all_iff by blast
  have references: "(if refs then check_references ?defs ((if refs then map (\<lambda>def. VisibleStringData (data_ref_text (def_ref def))) ?defs else []) @ es)
      else Ok ((if refs then map (\<lambda>def. VisibleStringData (data_ref_text (def_ref def))) ?defs else []) @ es)) = Ok es"
    for es :: "'oid MmsData list"
    using included_ok by (simp add: check_references_written)
  have reasons_all: "data_reasons x \<noteq> None \<longleftrightarrow> reasons" if "x \<in> set ?xs" for x
    using all that by (auto simp: list_all2_conv_all_nth in_set_conv_nth)
  have with_reasons: "\<exists>rs. read_reasons ?defs (map reasons_data ?xs :: 'oid MmsData list) = Ok (rs, []) \<and> map Some rs = map data_reasons ?xs"
    if reasons using that reasons_all lengths by (intro read_reasons_written) (auto simp: list_all_iff)
  have without_reasons: "map (\<lambda>_. None) ?defs = map data_reasons ?xs" if "\<not> reasons"
    using that reasons_all lengths by (intro nth_equalityI) auto
  have reasons_read: "(if reasons then bindE (read_reasons ?defs (if reasons then map reasons_data ?xs else [] :: 'oid MmsData list))
        (\<lambda>(rs, _). Ok (map Some rs))
      else Ok (map (\<lambda>_. None) ?defs)) = Ok (map data_reasons ?xs)"
    using with_reasons without_reasons by auto
  have head: "read_next read_text (VisibleStringData s # es) = Ok (s, es)" "read_next read_bits (BitStringData bs # es) = Ok (bs, es)"
    for s bs and es :: "'oid MmsData list" by (simp_all add: read_next_def reads)
  have dataset: "read_when (OptionalField_DATA_SET_NAME \<in> set fs) (\<lambda>e. bindE (read_text e) dataset_ref_from_str)
      (opt_data (\<lambda>s. VisibleStringData (dataset_ref_to_str s)) (report_dataset r) @ es) = Ok (report_dataset r, es)"
    for es :: "'oid MmsData list"
    using ok by (intro read_when_written) (simp_all add: fs(2) reads dataset_ref_str)
  have fields_read:
    "read_when (OptionalField_SEQUENCE_NUMBER \<in> set fs) read_unsigned (opt_data UnsignedData (report_sequence_number r) @ es) =
       Ok (report_sequence_number r, es)"
    "read_when (OptionalField_REPORT_TIME_STAMP \<in> set fs) read_binary_time (opt_data BinaryTimeData (report_entry_time r) @ es) =
       Ok (report_entry_time r, es)"
    "read_when (OptionalField_BUFFER_OVERFLOW \<in> set fs) read_boolean (opt_data BooleanData (report_buffer_overflow r) @ es) =
       Ok (report_buffer_overflow r, es)"
    "read_when (OptionalField_ENTRY_ID \<in> set fs) read_octets (opt_data OctetStringData (report_entry_id r) @ es) =
       Ok (report_entry_id r, es)"
    "read_when (OptionalField_CONF_REVISION \<in> set fs) read_unsigned (opt_data UnsignedData (report_conf_revision r) @ es) =
       Ok (report_conf_revision r, es)"
    "read_when (report_subsequence_number r \<noteq> None) read_unsigned (opt_data UnsignedData (report_subsequence_number r) @ es) =
       Ok (report_subsequence_number r, es)"
    "read_when (report_subsequence_number r \<noteq> None) read_boolean (opt_data BooleanData (report_more_segments_follow r) @ es) =
       Ok (report_more_segments_follow r, es)" for es :: "'oid MmsData list"
    using ok by (intro read_when_written; simp add: fs(2) reads)+
  have flags: "OptionalField_DATA_REFERENCE \<in> set fs \<longleftrightarrow> refs" "OptionalField_REASON_FOR_INCLUSION \<in> set fs \<longleftrightarrow> reasons"
    by (simp_all add: fs(2))
  have inclusion_bits: "length inclusion = length data_defs" using ok by blast
  note layout = report_elements_def report_from_mms_data_def vs(1) head bits fs(1) dataset fields_read flags inclusion_bits
    fs(1) [unfolded append_Cons append_Nil] Let_def bindE_simps append_assoc append_Cons append_Nil prod.case
  show ?thesis
    by (simp only: layout references vs(2) reasons_read) (simp add: data_assembled [OF refs_ok])
qed

definition sample_defs :: "DataDef list" where
  "sample_defs = map (\<lambda>name. \<lparr>def_ref = \<lparr>ref_logical_device = py_str ''LD'', ref_logical_node = py_str ''LN'', ref_fc = py_str ''ST'',
     ref_names = [StrName name]\<rparr>, def_value_type = BasicType BASIC_BOOLEAN\<rparr>) [py_str ''a'', py_str ''b'']"

definition sample_report :: AcsiReport where
  "sample_report =
     \<lparr>report_id = py_str ''r'', report_sequence_number = Some 3, report_subsequence_number = Some 0,
       report_more_segments_follow = Some False, report_dataset = Some (NonPersistedDatasetRef (py_str ''s'')),
       report_buffer_overflow = None, report_conf_revision = None, report_entry_time = None, report_entry_id = Some [1],
       report_data = [\<lparr>data_ref = def_ref (sample_defs ! 1), data_value = BoolValue True, data_reasons = Some {ReportReason_INTEGRITY}\<rparr>]\<rparr>"

theorem report_read_as_laid_out_witness:
  "bindE (report_elements True True [False, True] sample_defs sample_report)
     (\<lambda>es :: unit MmsData list. report_from_mms_data es sample_defs) = Ok sample_report"
  by (rule report_read_as_laid_out)
    (simp add: report_ok_def sample_report_def sample_defs_def included_def data_ref_ok_def py_str_def)

text \<open>
  A report whose optional fields have the reserved bit set is refused with ValueError, whatever the bits are: no member of the
  enumeration has the index of that bit. The attribute of a control block with the same bits is read, its reserved bit ignored.
\<close>

lemma reserved_bit_of_report_refused:
  assumes "length bs = 9"
  shows "report_from_mms_data (VisibleStringData ident # BitStringData (True # bs) # es) data_defs =
      Raise (ValueError ''not a valid enumeration value'') \<and>
    rcb_attr_value_from_mms_data RCB_OPTIONAL_FIELDS (BitStringData (True # bs)) =
      rcb_attr_value_from_mms_data RCB_OPTIONAL_FIELDS (BitStringData (False # bs))"
proof -
  have indexes: "set_indexes (True # bs) = 0 # set_indexes (False # bs)" for bs
    by (auto simp: set_indexes_def upt_conv_Cons nth_Cons' simp del: upt_Suc intro!: filter_cong)
  have zero: "OptionalField_of 0 = Raise (ValueError ''not a valid enumeration value'')"
    by (simp add: OptionalField_of_def enum_lookup_def OptionalField_members_def)
  from assms have "bs \<noteq> []" "length (True # bs) = 10" "length (False # bs) = 10" by auto
  then show ?thesis
    by (simp add: report_from_mms_data_def rcb_attr_value_from_mms_data_def rcb_plain_type_def read_next_def reads indexes zero)
qed

lemma reserved_bit_of_report_refused_witness:
  "report_from_mms_data [VisibleStringData [], BitStringData (True # replicate 9 False)] [] =
      Raise (ValueError ''not a valid enumeration value'') \<and>
    rcb_attr_value_from_mms_data RCB_OPTIONAL_FIELDS (BitStringData (True # replicate 9 False)) =
      rcb_attr_value_from_mms_data RCB_OPTIONAL_FIELDS (BitStringData (False # replicate 9 False))"
  using reserved_bit_of_report_refused [of "replicate 9 False" "[]" "[]" "[]"] by simp

end
