(* ===== verification/Spec2Isabelle.thy ===== *)
theory Spec2Isabelle
  imports Iec101_Connection Iec104_Connection Iec103_Master Modbus_Rtu Modbus_System Mqtt_Codec Smpp_Connection
    Mms_Connection Iec61850_Codec
begin

text \<open>
  A verification library for the telecontrol, field bus and messaging drivers of hat-drivers, the Python
  packages \<^verbatim>\<open>iec60870\<close>, \<^verbatim>\<open>iec101\<close>, \<^verbatim>\<open>iec103\<close>, \<^verbatim>\<open>iec104\<close>, \<^verbatim>\<open>modbus\<close>,
  \<^verbatim>\<open>mqtt\<close>, \<^verbatim>\<open>smpp\<close>, \<^verbatim>\<open>mms\<close> and \<^verbatim>\<open>iec61850\<close> under \<^verbatim>\<open>src/src_py/hat/drivers/\<close>. File
  names below are relative to \<^verbatim>\<open>iec60870\<close> where nothing else is said.

  \<^bold>\<open>The program.\<close> The package \<^verbatim>\<open>iec60870\<close> implements the telecontrol protocols of the standard in
  layers. \<^verbatim>\<open>encodings\<close> turns application service data units (ASDU) into bytes and back: a common
  part (\<^verbatim>\<open>encodings/common.py\<close>, \<^verbatim>\<open>encodings/encoder.py\<close>), which is given two functions for the
  information elements, and one package for each companion standard (\<^verbatim>\<open>iec101\<close>, \<^verbatim>\<open>iec103\<close>, \<^verbatim>\<open>iec104\<close>).
  \<^verbatim>\<open>apci\<close> carries such bytes over TCP, in numbered frames with acknowledgements, windows and
  timers. \<^verbatim>\<open>link\<close> carries them over a serial line, balanced or unbalanced, with checksums, a frame
  count bit and repeated requests. The drivers \<^verbatim>\<open>iec101\<close> and \<^verbatim>\<open>iec104\<close>, siblings of
  \<^verbatim>\<open>iec60870\<close>, turn the messages of an application into data units and send them over these two.
  The driver \<^verbatim>\<open>iec103\<close> is the master of protection equipment: it sends interrogations and commands
  over the unbalanced link, waits for the answer to each, and calls the application with all other
  data that it receives.
  The package \<^verbatim>\<open>modbus\<close> is a driver of its own: units of a request or a response are encoded in one
  of three modes (over TCP with transaction identifiers, as bytes with a CRC, as hexadecimal
  characters with a checksum); a master sends the requests of its clients one at a time and waits
  for a response that matches, and a slave serves requests with a callback.
  The package \<^verbatim>\<open>mqtt\<close> has a transport, connections that exchange the packets of MQTT 5 over TCP, and
  a client over it. So has the package \<^verbatim>\<open>smpp\<close>, for the messages of mobile phones: its connections send requests with
  numbers and wait for the responses with the same numbers, and answer requests with what a callback returns.
  The package \<^verbatim>\<open>mms\<close> has the services of the Manufacturing Message Specification over an association of
  the OSI stack: their types, their conversion to and from the values of an ASN.1 encoder, and connections with
  numbered requests. The package \<^verbatim>\<open>iec61850\<close> is the client of substation equipment over it; its encoder turns
  references, values, control block attributes, commands and reports into MMS data and back.

  \<^bold>\<open>Theories.\<close>
  \<^item> \<open>Prelude\<close>: errors as values, bytes, Python's integer and byte operations, decoders and the
    law \<open>decodes_to\<close> (encoding and decoding before any rest), and the locale \<open>enumeration\<close>, the
    contract of Python's integer enumerations, interpreted for each of them.
  \<^item> \<open>Py_Float\<close>: Python's floats as rationals with the rounding of the double and single formats. The
    locale \<open>float_format\<close> has packing and unpacking in a format of IEEE 754; it is interpreted by
    \<open>single\<close> and \<open>double\<close>.
  \<^item> \<open>Encodings\<close>: \<^verbatim>\<open>encodings/common.py\<close> and \<^verbatim>\<open>encodings/encoder.py\<close>. The locale
    \<open>io_element_codec\<close> is the interface of the element functions; the ASDU round trip is proved in
    it, and it is interpreted by \<open>el101\<close>, \<open>el103\<close> and \<open>el104\<close> on the three element codecs.
  \<^item> \<open>Iec101_Common\<close>, \<open>Iec101_Values\<close>, \<open>Iec101_Elements\<close>, \<open>Iec101_Encoder\<close>: \<^verbatim>\<open>encodings/iec101\<close>;
    \<open>Iec104_Encoder\<close>: \<^verbatim>\<open>encodings/iec104\<close>.
  \<^item> \<open>Iec103_Common\<close>: \<^verbatim>\<open>encodings/iec103/common.py\<close>. \<open>Iec103_Fixed\<close>, \<open>Iec103_Values\<close>,
    \<open>Iec103_Encoder\<close>: fixed point numbers, values (with arrays in each other) and elements of
    \<^verbatim>\<open>encodings/iec103/encoder.py\<close>; \<open>Iec103_Value_Codec\<close>, \<open>Iec103_Codec\<close>: their round trips.
  \<^item> \<open>Iec103_Driver\<close>: \<^verbatim>\<open>iec103/common.py\<close>; \<open>Iec103_Master\<close>: \<^verbatim>\<open>iec103/master/__init__.py\<close>, whose handlers
    are functions that may raise, and whose callers, callbacks and receiving loop are \<open>m_step\<close>.
  \<^item> \<open>Framing\<close>: the reading loops of the link layers and of Modbus connections. The locale
    \<open>stepwise_framing\<close> is what such a loop relies on, where the decoder of frames asks for more bytes
    in steps; \<open>framing\<close> is the case where a prefix of the frame tells its size, and gives the other.
    They are interpreted by \<open>apci\<close>, \<open>link\<close>, \<open>tcp\<close>, \<open>rtu\<close> and \<open>mqtt\<close>, and by \<open>ascii\<close>.
  \<^item> \<open>Apci_Encoder\<close>: \<^verbatim>\<open>apci/common.py\<close>, \<^verbatim>\<open>apci/encoder.py\<close>, \<^verbatim>\<open>apci/transport.py\<close>.
  \<^item> \<open>Apci_Connection\<close>: \<^verbatim>\<open>apci/connection.py\<close> as a step relation \<open>conn_step\<close> on the record
    \<open>Connection\<close>, one step for a run of a coroutine between two suspensions.
  \<^item> \<open>Apci_System\<close>: two such connections over a reliable transport.
  \<^item> \<open>Link_Encoder\<close>: \<^verbatim>\<open>link/common.py\<close>, \<^verbatim>\<open>link/encoder.py\<close>, \<^verbatim>\<open>link/endpoint.py\<close>.
  \<^item> \<open>Link_Station\<close>: what \<^verbatim>\<open>link/balanced.py\<close> and \<^verbatim>\<open>link/unbalanced/master.py\<close> share, and the
    locale \<open>responder\<close>, the contract of the other station; it is interpreted by \<open>bal\<close> and \<open>slv\<close>.
  \<^item> \<open>Link_Balanced\<close>, \<open>Link_Slave\<close>, \<open>Link_Master\<close>: \<^verbatim>\<open>link/balanced.py\<close>,
    \<^verbatim>\<open>link/unbalanced/slave.py\<close>, \<^verbatim>\<open>link/unbalanced/master.py\<close>.
  \<^item> \<open>Iec101_Messages\<close>: the causes, data and commands of \<^verbatim>\<open>iec101/common.py\<close> (of the driver). The
    locale \<open>cause_classes\<close> is what encoding relies on for each pair of cause enumerations.
  \<^item> \<open>Iec101_Driver\<close>, \<open>Iec104_Driver\<close>: messages, and their conversion to data units and back, from
    \<^verbatim>\<open>common.py\<close> and \<^verbatim>\<open>encoder.py\<close> of the two drivers.
  \<^item> \<open>Iec101_Connection\<close>, \<open>Iec104_Connection\<close>: sending and receiving of messages, from
    \<^verbatim>\<open>connection.py\<close> of the two drivers, over the link layer and over two APCI connections.
  \<^item> \<open>Py_Struct\<close>: Python's struct module for unsigned big endian fields, slices and hexadecimal
    literals, as the Modbus encoder uses them.
  \<^item> \<open>Modbus_Common\<close>: \<^verbatim>\<open>modbus/common.py\<close> and \<^verbatim>\<open>modbus/transport/common.py\<close>. \<open>Modbus_Checks\<close>: the two
    checksums, the CRC also as \<^verbatim>\<open>src/src_c/py/modbus/_encoder.c\<close> computes it with 16-bit words.
    \<open>Modbus_Pdu\<close>, \<open>Modbus_Encoder\<close>: \<^verbatim>\<open>modbus/transport/encoder.py\<close>.
  \<^item> \<open>Modbus_Connection\<close>: receiving from a stream, \<^verbatim>\<open>modbus/transport/connection.py\<close>; \<open>Modbus_Rtu\<close>:
    what the CRC detects.
  \<^item> \<open>Modbus_Slave\<close>: \<^verbatim>\<open>modbus/slave.py\<close>; the callback of the application is an argument, a function
    with a state of its own. \<open>Modbus_Master\<close>: \<^verbatim>\<open>modbus/master.py\<close>, whose sending loop is the step
    relation \<open>mm_step\<close>. \<open>Modbus_System\<close>: a call from a client of the master to the callback and back.

  \<^item> \<open>Py_Str\<close>: Python's text, lists of code points, and its UTF-8 encoder and strict decoder.
  \<^item> \<open>Mqtt_Common\<close>: \<^verbatim>\<open>mqtt/common.py\<close> and \<^verbatim>\<open>mqtt/transport/common.py\<close>. \<open>Mqtt_Basic\<close>, \<open>Mqtt_Props\<close>,
    \<open>Mqtt_Encoder\<close>: integers and text, properties, and packets of \<^verbatim>\<open>mqtt/transport/encoder.py\<close>, with
    sending and receiving of \<^verbatim>\<open>mqtt/transport/connection.py\<close>; \<open>Mqtt_Props_Codec\<close>, \<open>Mqtt_Codec\<close>: their
    round trips, with the law \<open>reads\<close> of \<open>Reads\<close> (like \<open>decodes_to\<close>, for encoders that may refuse).
  \<^item> \<open>Smpp_Common\<close>: \<^verbatim>\<open>smpp/common.py\<close> and \<^verbatim>\<open>smpp/transport/common.py\<close>. \<open>Smpp_Time\<close>, \<open>Smpp_Params\<close>,
    \<open>Smpp_Encoder\<close>: texts and times, optional parameters, and bodies and headers of
    \<^verbatim>\<open>smpp/transport/encoder.py\<close>; \<open>Smpp_Codec\<close>: the round trips of bodies and headers. \<open>Smpp_Connection\<close>:
    \<^verbatim>\<open>smpp/transport/connection.py\<close>, whose pending requests and receiving loop are \<open>smpp_step\<close>.
  \<^item> \<open>Py_Text\<close>: decimal texts, splitting and dictionaries, shared by the last two and by:
  \<^item> \<open>Mms_Common\<close>: \<^verbatim>\<open>mms/common.py\<close>. \<open>Mms_Time\<close>, \<open>Mms_Encoder\<close>, \<open>Mms_Services\<close>: times, data and names, and
    services of \<^verbatim>\<open>mms/encoder.py\<close>, between these types and ASN.1 values, trees with named parts; \<open>Mms_Codec\<close>: their round
    trips. \<open>Mms_Connection\<close>: \<^verbatim>\<open>mms/connection.py\<close> as the step relation \<open>mms_step\<close>.
  \<^item> \<open>Iec61850_Common\<close>: \<^verbatim>\<open>iec61850/common.py\<close>. \<open>Iec61850_Refs\<close>, \<open>Iec61850_Values\<close>, \<open>Iec61850_Encoder\<close>: references; values by
    their type; control block attributes, commands and reports of \<^verbatim>\<open>iec61850/encoder.py\<close>; \<open>Iec61850_Codec\<close>: their properties.
    The driver only reads reports; \<open>report_elements\<close> is a reference writer of them.

  \<^bold>\<open>Correspondence.\<close> A class is a record with its instance variables as fields, a method or
  handler a function from the state to a result and the state; a raised exception is the left part
  of a sum. \<open>bytes\<close> are lists of 8-bit words, Python's integers are \<open>int\<close>. Loops that end are
  recursive functions: \<open>fill\<close> and \<open>receive\<close> (decreasing input), \<open>retry_loop\<close> (retries left); the
  endless loops of coroutines are rules of \<open>conn_step\<close>, \<open>master_step\<close>, \<open>mm_step\<close>, \<open>m_step\<close>, \<open>smpp_step\<close> and \<open>mms_step\<close>, or take the number of
  rounds as an argument (\<open>send_rounds\<close>, \<open>open_loop\<close>), for every value of which the theorems hold.

  \<^bold>\<open>What is shown.\<close> Round trips of every encoder, and bounds on what decoders return for arbitrary
  input; invariants of the send and receive windows of a connection against an arbitrary peer;
  that two connections never close each other by a sequence error and what becomes of queued
  data; for the serial links, transfer exactly once over a line that loses any frames. The
  theories of the two connections compose these: what an application receives are the first of
  the messages that the other sent, in order, for both kinds of link and for TCP. A round trip is about
  well-formed values, which the predicates \<open>..._ok\<close> next to it describe: fields in their ranges, and numbers that the
  format holds exactly, since other numbers are rounded. For Modbus, a
  well-formed request through a master and a slave has the result and the effect of the callback on
  it, every request gets an outcome, a response that a call gets has its device, function and transaction, and a frame of
  the RTU mode with one wrong byte is not received as a unit of its length, nor at all where the byte does not tell the length. For IEC 103, round
  trips of values, elements and data units, the error of fixed point numbers, and that a request
  of the master returns what the answer with its identifier says, and is never forgotten. For MQTT, that every well-formed packet that the encoder accepts is decoded to
  itself and found in a stream (the options and identifiers of subscriptions, which the
  encoder gets wrong, are left out), and that the short forms of acknowledgements are rejected. For SMPP, round trips of every body, with all optional parameters, except for the
  tenths of seconds that the encoder of times gets wrong, that a request reaches the callback of the other side
  and its answer the caller, and that no caller waits on a closed connection. For MMS, round trips of all services, that a UTC time
  is exact although its fraction is computed with floats, that a binary time loses its fraction of a second, and the same two
  properties of requests as for SMPP. For IEC 61850, that what is read as a type has it and can be written, round trips of
  references, values and commands, and that a report is read as it was laid out, for all sets of optional fields.

  \<^bold>\<open>Not modelled.\<close> Time: a timer may fire whenever it runs, so every theorem holds for all
  durations. Back pressure: \<open>Transport.write\<close> is atomic, as it is on a TCP connection that is not
  paused. Cancellation of a coroutine by its caller, except that a caller may give up a future.
  Logging, SSL and TCP themselves. A NaN of the short float format stays a NaN in \<open>pyfloat\<close>, but
  its payload is not kept. Of Modbus: the input that a master discards between two requests, and the
  functions that connect or listen. Of the IEC 103 master: other coroutines between two calls of a
  callback for the same data unit, and the conversion of times from and to datetime objects. The clients of
  MQTT and SMPP over their transports. The time zone of the system, which SMPP takes for a time without one, is an argument. The ASN.1 encoder and the association below MMS are
  of other packages or layers: they are arguments, and the theorem about a request between two connections assumes that the
  encoder decodes what it encodes. The client and the manager of IEC 61850. The secure authentication of IEC 60870 and the
  other packages of hat-drivers.
\<close>

section \<open>Data units over the two transports\<close>

text \<open>A time tagged single command, and the length of its encoding.\<close>

definition example_command :: "(AsduType104, Cause, IoElement104) ASDU" where
  "example_command =
    \<lparr>asdu_type = I104_C_SC_TA, asdu_cause = \<lparr>cause_type = KnownCause CauseType_ACTIVATION, is_negative_confirm = False,
       is_test = False, originator_address = 3\<rparr>, asdu_address = 0x1234,
     asdu_ios = [\<lparr>io_address = 0x10203, io_elements = [IoElement_C_SC_TA SingleValue_ON True 1],
       io_time = Some \<lparr>time_size = TimeSize_SEVEN, milliseconds = 59999, invalid = Some False, substituted = Some True,
         minutes = Some 59, summer_time = Some False, hours = Some 23, day_of_week = Some 7, day_of_month = Some 31,
         months = Some 12, years = Some 99\<rparr>\<rparr>]\<rparr>"

lemma example_command_ok: "asdu_ok_104 (init_encoder_104 mx) example_command"
  by (simp add: example_command_def asdu_ok_104_def init_encoder_104_def cause_ok_def asdu_ok_def lower_asdu_104_def
      encode_cause_def is_byte_num asdu_is_sequence_def io_ok_def io_element_ok_104_def asdu_type_time_sizes_104_def
      time_ok_def)



lemma example_element_encoded:
  "encode_io_element_104 (IoElement_C_SC_TA SingleValue_ON True 1) 58 = Ok [0x85]"
  using decode_asdu_type_104_value [of I104_C_SC_TA]
  by (simp add: encode_io_element_104_def iec101_asdu_types_def)

lemma example_command_length:
  assumes "encode_asdu_104 (init_encoder_104 mx) example_command = Ok data"
  shows "length data = 17"
  using assms
  by (simp add: example_command_def encode_asdu_104_def init_encoder_104_def lower_asdu_104_def encode_asdu_def
    encode_cause_def asdu_is_sequence_def encode_io_def encode_int_def asdu_type_time_sizes_104_def
    encode_time_def masked_def flag_def example_element_encoded py_bytes_Ok_iff wire_def)


text \<open>
  A data unit of IEC 60870-5-104 whose encoding fits a frame is sent as an I frame, read from
  the stream whatever follows, and decoded to itself.
\<close>

lemma asdu_over_apci:
  assumes "asdu_ok_104 (init_encoder_104 mx) asdu" "encode_asdu_104 (init_encoder_104 mx) asdu = Ok data"
    and "length data \<le> 249" "seq_ok s" "seq_ok r"
  shows "\<exists>frame. encode_apdu (APDUI s r data) = Ok frame \<and>
    (\<forall>rest. transport_read (frame @ rest) = Ok (APDUI s r data, rest)) \<and>
    decode_asdu_104 (init_encoder_104 mx) data = Ok (asdu, [])"
proof -
  have ok: "apdu_ok (APDUI s r data)" using assms(3-5) by (simp add: apdu_ok_def)
  from apci.enc_dec [OF this] obtain frame where "encode_apdu (APDUI s r data) = Ok frame" by blast
  moreover from asdu_104_roundtrip [OF refl assms(1)] assms(2)
  have "decode_asdu_104 (init_encoder_104 mx) data = Ok (asdu, [])" by (metis append_Nil2 Inr_inject)
  ultimately show ?thesis using transport_read_one [OF ok] by blast
qed

lemma asdu_over_apci_witness:
  "\<exists>data frame. length data = 17 \<and> encode_apdu (APDUI 5 6 data) = Ok frame \<and>
    transport_read (frame @ [0x68]) = Ok (APDUI 5 6 data, [0x68]) \<and>
    decode_asdu_104 (init_encoder_104 255) data = Ok (example_command, [])"
proof -
  obtain data where d: "encode_asdu_104 (init_encoder_104 255) example_command = Ok data"
    using asdu_104_roundtrip [OF refl example_command_ok] by blast
  from example_command_length [OF d] have l: "length data = 17" .
  from asdu_over_apci [OF example_command_ok d, of 5 6] l d show ?thesis by (auto simp: seq_ok_def)
qed

end
